(* ===== verification/Prelude.thy ===== *)
theory Prelude
  imports Main "HOL-Library.Word" "HOL-Library.Sublist"
begin

text \<open>
  What every component of the development shares.

  \<^item> Types: bytes, byte buffers, and the machine integers of the C sources. A \<open>UINTN\<close>
    or \<open>UINT64\<close> that is used as a size, an offset or a count is a \<open>nat\<close> whose wrap-around
    is written out with \<open>u64\<close> (and \<open>u32\<close>, \<open>s32\<close> for \<open>UINT32\<close> and \<open>int\<close>); a value
    whose bits matter is a machine word.
  \<^item> Memory: a buffer is the list of its bytes. Reads and writes at an offset are
    \<open>load\<close> and \<open>store\<close>; an access outside the buffer has no defined behaviour in C and
    is \<open>None\<close>.
  \<^item> The allocator (\<open>lsvmutils/alloc.h\<close>, whose functions call the firmware or libc) is a
    parameter, a stream of outcomes: the next request fails (\<open>None\<close>) or is granted and
    its fresh cells hold some byte (\<open>Some b\<close>). The request size is an \<open>unsigned int\<close> in
    every one of those functions, so it is reduced modulo \<open>2^32\<close>.
  \<^item> Little-endian encoding of integers, used by every on-disk structure.

  Pointers are modelled by what they point to. A null pointer is an \<open>option\<close> argument
  where the code gives null a meaning; the tests that only reject a null output or object
  pointer have no counterpart, since such a pointer is not a value of the model.
\<close>

unbundle bit_operations_syntax

subsection \<open>Collections\<close>

named_theorems layout_simps \<open>offsets and lengths of on-disk structures\<close>
named_theorems wrap_simps \<open>machine arithmetic that does not wrap\<close>

subsection \<open>Types\<close>

type_synonym byte = "8 word"
type_synonym bytes = "byte list"

text \<open>The bytes of a C string literal (without its terminator).\<close>

definition ascii :: "string \<Rightarrow> bytes" where
  "ascii s = map (\<lambda>c. of_nat (of_char c)) s"

lemma length_ascii [simp]: "length (ascii s) = length s"
  by (simp add: ascii_def)

lemma ascii_simps [simp]:
  "ascii [] = []"
  "ascii (c # s) = of_nat (of_char c) # ascii s"
  by (simp_all add: ascii_def)

subsection \<open>Machine arithmetic on sizes and offsets\<close>

definition u64 :: "nat \<Rightarrow> nat" where
  "u64 n = n mod 2 ^ 64"

definition u32 :: "nat \<Rightarrow> nat" where
  "u32 n = n mod 2 ^ 32"

text \<open>Conversion to a two's complement \<open>int\<close>.\<close>

definition s32 :: "int \<Rightarrow> int" where
  "s32 i = (i + 2 ^ 31) mod 2 ^ 32 - 2 ^ 31"

text \<open>Unsigned subtraction \<open>a - b\<close> on \<open>UINTN\<close> operands below \<open>2^64\<close>.\<close>

definition usub64 :: "nat \<Rightarrow> nat \<Rightarrow> nat" where
  "usub64 a b = u64 (a + 2 ^ 64 - b)"

lemma u64_small [simp, wrap_simps]: "n < 2 ^ 64 \<Longrightarrow> u64 n = n"
  by (simp add: u64_def)

lemma u32_small [simp, wrap_simps]: "n < 2 ^ 32 \<Longrightarrow> u32 n = n"
  by (simp add: u32_def)

lemma s32_small [simp, wrap_simps]: "- (2 ^ 31) \<le> i \<Longrightarrow> i < 2 ^ 31 \<Longrightarrow> s32 i = i"
  by (simp add: s32_def)

lemma u64_less [simp]: "u64 n < 2 ^ 64"
  by (simp add: u64_def)

lemma u32_less [simp]: "u32 n < 2 ^ 32"
  by (simp add: u32_def)

lemma s32_bounds: "- (2 ^ 31) \<le> s32 i \<and> s32 i < 2 ^ 31"
proof -
  have "0 \<le> (i + 2 ^ 31) mod 2 ^ 32" and "(i + 2 ^ 31) mod 2 ^ 32 < 2 ^ 32"
    by (rule pos_mod_sign, simp) (rule pos_mod_bound, simp)
  then show ?thesis by (simp add: s32_def)
qed

lemma u64_le: "u64 n \<le> n"
  by (simp add: u64_def)

lemma u32_le: "u32 n \<le> n"
  by (simp add: u32_def)

lemma usub64_small [wrap_simps]: "b \<le> a \<Longrightarrow> a < 2 ^ 64 \<Longrightarrow> usub64 a b = a - b"
proof -
  assume "b \<le> a" and a: "a < 2 ^ 64"
  then have "a + 2 ^ 64 - b = (a - b) + 2 ^ 64" by simp
  then have "u64 (a + 2 ^ 64 - b) = (a - b) mod 2 ^ 64"
    by (simp only: u64_def mod_add_self2)
  with a show ?thesis by (simp add: usub64_def)
qed

lemma u64_le_bound: "n \<le> m \<Longrightarrow> m < 2 ^ 64 \<Longrightarrow> u64 n = n"
  by simp

subsection \<open>Buffers: slices and overwriting\<close>

definition slice :: "nat \<Rightarrow> nat \<Rightarrow> 'a list \<Rightarrow> 'a list" where
  "slice off n xs = take n (drop off xs)"

definition overwrite :: "nat \<Rightarrow> 'a list \<Rightarrow> 'a list \<Rightarrow> 'a list" where
  "overwrite off ys xs = take off xs @ ys @ drop (off + length ys) xs"

lemma length_slice [simp]: "length (slice off n xs) = min n (length xs - off)"
  by (simp add: slice_def)

lemma slice_0 [simp]: "slice off 0 xs = []"
  by (simp add: slice_def)

lemma slice_all [simp]: "length xs \<le> n \<Longrightarrow> slice 0 n xs = xs"
  by (simp add: slice_def)

lemma nth_slice: "i < n \<Longrightarrow> off + i < length xs \<Longrightarrow> slice off n xs ! i = xs ! (off + i)"
  by (simp add: slice_def)

lemma slice_append1 [simp]: "off + n \<le> length xs \<Longrightarrow> slice off n (xs @ ys) = slice off n xs"
  by (simp add: slice_def)

lemma slice_append2 [simp]: "length xs \<le> off \<Longrightarrow> slice off n (xs @ ys) = slice (off - length xs) n ys"
  by (simp add: slice_def)

lemma slice_0_append: "length xs = n \<Longrightarrow> slice 0 n (xs @ ys) = xs"
  by (simp add: slice_def)

lemma slice_split: "slice off (m + n) xs = slice off m xs @ slice (off + m) n xs"
  by (simp add: slice_def take_add add.commute)

lemma slice_slice: "i + m \<le> n \<Longrightarrow> slice i m (slice off n xs) = slice (off + i) m xs"
  by (simp add: slice_def drop_take add.commute)

lemma take_slice: "take m (slice off n xs) = slice off (min m n) xs"
  by (simp add: slice_def)

lemma slice_take: "off + n \<le> m \<Longrightarrow> slice off n (take m xs) = slice off n xs"
  by (simp add: slice_def drop_take min_absorb1)

lemma length_overwrite [simp]:
  "off + length ys \<le> length xs \<Longrightarrow> length (overwrite off ys xs) = length xs"
  by (simp add: overwrite_def)

lemma overwrite_Nil [simp]: "overwrite off [] xs = xs"
  by (simp add: overwrite_def)

lemma slice_overwrite_same:
  "off \<le> length xs \<Longrightarrow> length ys = n \<Longrightarrow> slice off n (overwrite off ys xs) = ys"
  by (simp add: slice_def overwrite_def)

lemma nth_overwrite:
  "off + length ys \<le> length xs \<Longrightarrow> i < length xs \<Longrightarrow>
   overwrite off ys xs ! i = (if off \<le> i \<and> i < off + length ys then ys ! (i - off) else xs ! i)"
  by (auto simp: overwrite_def nth_append min_def)

lemma slice_overwrite_before:
  assumes "off + length ys \<le> length xs" "o' + n \<le> off"
  shows "slice o' n (overwrite off ys xs) = slice o' n xs"
  using assms by (simp add: slice_def overwrite_def drop_take)

lemma slice_overwrite_after:
  assumes "off + length ys \<le> length xs" "off + length ys \<le> o'"
  shows "slice o' n (overwrite off ys xs) = slice o' n xs"
  using assms by (simp add: slice_def overwrite_def)

lemma slice_overwrite_inside:
  assumes "off + length ys \<le> length xs" "off \<le> o'" "o' + n \<le> off + length ys"
  shows "slice o' n (overwrite off ys xs) = slice (o' - off) n ys"
  using assms by (simp add: slice_def overwrite_def)

lemma overwrite_append:
  "length xs = off \<Longrightarrow> length ys \<le> length zs \<Longrightarrow>
   overwrite off ys (xs @ zs) = xs @ ys @ drop (length ys) zs"
  by (simp add: overwrite_def)

lemma overwrite_id:
  "off + n \<le> length xs \<Longrightarrow> overwrite off (slice off n xs) xs = xs"
  by (simp add: overwrite_def slice_def) (metis add.commute append_take_drop_id drop_drop)

lemma take_overwrite:
  "off + length ys \<le> n \<Longrightarrow> n \<le> length xs \<Longrightarrow> take n (overwrite off ys xs) = overwrite off ys (take n xs)"
  by (cases "n = off") (simp_all add: overwrite_def drop_take)

text \<open>Memory accesses of the C code: undefined outside the object.\<close>

definition load :: "nat \<Rightarrow> nat \<Rightarrow> 'a list \<Rightarrow> 'a list option" where
  "load off n mem = (if off + n \<le> length mem then Some (slice off n mem) else None)"

definition store :: "nat \<Rightarrow> 'a list \<Rightarrow> 'a list \<Rightarrow> 'a list option" where
  "store off ys mem = (if off + length ys \<le> length mem then Some (overwrite off ys mem) else None)"

lemma load_Some_iff: "load off n mem = Some v \<longleftrightarrow> off + n \<le> length mem \<and> v = slice off n mem"
  by (auto simp: load_def)

lemma store_Some_iff:
  "store off ys mem = Some m \<longleftrightarrow> off + length ys \<le> length mem \<and> m = overwrite off ys mem"
  by (auto simp: store_def)

lemma store_length: "store off ys mem = Some m \<Longrightarrow> length m = length mem"
  by (auto simp: store_Some_iff)

lemma load_store:
  "store off ys mem = Some m \<Longrightarrow> load off (length ys) m = Some ys"
  by (auto simp: store_Some_iff load_def slice_overwrite_same)

lemma load_append_at:
  "length xs = off \<Longrightarrow> length ys = n \<Longrightarrow> load off n (xs @ ys @ zs) = Some ys"
  by (simp add: load_def slice_def)

lemma load_append_at_end:
  "length xs = off \<Longrightarrow> length ys = n \<Longrightarrow> load off n (xs @ ys) = Some ys"
  by (simp add: load_def slice_def)

subsection \<open>The allocator\<close>

type_synonym heap = "nat \<Rightarrow> byte option"

text \<open>
  \<open>Malloc h n\<close>: the block obtained by the next request, if granted, and the outcomes of
  the requests after it. \<open>Calloc\<close> clears the block; \<open>Realloc\<close> keeps the old contents.
\<close>

definition heap_next :: "heap \<Rightarrow> heap" where
  "heap_next h = (\<lambda>i. h (Suc i))"

definition Malloc :: "heap \<Rightarrow> nat \<Rightarrow> bytes option \<times> heap" where
  "Malloc h n = (map_option (\<lambda>b. replicate (u32 n) b) (h 0), heap_next h)"

definition Calloc :: "heap \<Rightarrow> nat \<Rightarrow> nat \<Rightarrow> bytes option \<times> heap" where
  "Calloc h nmemb n = (map_option (\<lambda>b. replicate (u32 (u32 nmemb * u32 n)) 0) (h 0), heap_next h)"

definition Realloc :: "heap \<Rightarrow> bytes \<Rightarrow> nat \<Rightarrow> bytes option \<times> heap" where
  "Realloc h old n =
     (map_option (\<lambda>b. take (u32 n) old @ replicate (u32 n - length old) b) (h 0), heap_next h)"

text \<open>No request fails.\<close>

definition heap_ok :: "heap \<Rightarrow> bool" where
  "heap_ok h \<longleftrightarrow> (\<forall>i. h i \<noteq> None)"

lemma heap_ok_next [simp]: "heap_ok h \<Longrightarrow> heap_ok (heap_next h)"
  by (simp add: heap_ok_def heap_next_def)

lemma heap_ok_0: "heap_ok h \<Longrightarrow> \<exists>b. h 0 = Some b"
  by (auto simp: heap_ok_def)

lemma heap_ok_const [simp]: "heap_ok (\<lambda>_. Some b)"
  by (simp add: heap_ok_def)

lemma Realloc_Some:
  "Realloc h old n = (Some m, h') \<Longrightarrow> length m = u32 n \<and> take (min (length old) (u32 n)) m = take (u32 n) old"
  by (auto simp: Realloc_def min_def)

subsection \<open>Little-endian integers\<close>

fun nat_le :: "nat \<Rightarrow> nat \<Rightarrow> bytes" where
  "nat_le 0 x = []"
| "nat_le (Suc n) x = of_nat x # nat_le n (x div 256)"

fun le_nat :: "bytes \<Rightarrow> nat" where
  "le_nat [] = 0"
| "le_nat (b # bs) = unat b + 256 * le_nat bs"

lemma length_nat_le [simp, layout_simps]: "length (nat_le n x) = n"
  by (induction n arbitrary: x) auto

lemma unat_byte_less: "unat (b :: byte) < 256"
  using unsigned_less [of b] by simp

lemma le_nat_bound: "le_nat bs < 256 ^ length bs"
proof (induction bs)
  case (Cons b bs)
  have "unat b < 256" by (rule unat_byte_less)
  with Cons show ?case by simp
qed simp

lemma le_nat_nat_le: "x < 256 ^ n \<Longrightarrow> le_nat (nat_le n x) = x"
proof (induction n arbitrary: x)
  case (Suc n)
  then have "x div 256 < 256 ^ n"
    by (metis less_mult_imp_div_less mult.commute power_Suc)
  with Suc.IH have "le_nat (nat_le n (x div 256)) = x div 256" by blast
  moreover have "unat (of_nat x :: byte) = x mod 256"
    by (simp add: unat_of_nat)
  ultimately show ?case by simp
qed simp

lemma nat_le_le_nat: "nat_le (length bs) (le_nat bs) = bs"
proof (induction bs)
  case (Cons b bs)
  have "unat b < 256" by (rule unat_byte_less)
  then have "(unat b + 256 * le_nat bs) div 256 = le_nat bs" by simp
  moreover have "(of_nat (unat b + 256 * le_nat bs) :: byte) = b"
  proof -
    have "(of_nat (256 * le_nat bs) :: byte) = 0"
      by (simp add: word_of_nat_eq_0_iff del: of_nat_mult)
    then show ?thesis by (simp only: of_nat_add) simp
  qed
  ultimately show ?case using Cons.IH by simp
qed simp

end
