(* ===== verification/Blkdev.thy ===== *)
theory Blkdev
  imports Prelude "HOL-Library.Monad_Syntax"
begin

text \<open>
  The block device interface of \<open>lsvmutils/blkdev.h\<close> and its two clients
  \<open>BlkdevRead\<close> and \<open>BlkdevWrite\<close> of \<open>lsvmutils/blkdev.c\<close>.

  The C struct \<open>_Blkdev\<close> is a table of function pointers that every device embeds as its
  first member. Here the table is the record \<open>blkdev\<close> over the type of the device's own
  state, so that one device can be stacked on another exactly as in the code (a cache
  device holds its child, a LUKS device holds its raw device). The contract a device
  promises its clients is the locale \<open>blkdev_image\<close>: the device behaves as a flat array of
  bytes. The memory device, the cache device and the LUKS device each interpret it.

  Results: the outer \<open>option\<close> is \<open>None\<close> where the C code accesses memory out of bounds; the
  integer is the C return code; the bytes are what the call stored in the caller's buffer
  (empty when the return code is not 0).
\<close>

definition BLKDEV_BLKSIZE :: nat where
  "BLKDEV_BLKSIZE = 512"

definition BLKDEV_ENABLE_CACHING :: "32 word" where
  "BLKDEV_ENABLE_CACHING = 1"

record 's blkdev =
  Close :: "'s \<Rightarrow> (int \<times> 's) option"
  GetN :: "'s \<Rightarrow> nat \<Rightarrow> nat \<Rightarrow> (int \<times> bytes \<times> 's) option"
  PutN :: "'s \<Rightarrow> nat \<Rightarrow> nat \<Rightarrow> bytes \<Rightarrow> (int \<times> 's) option"
  SetFlags :: "'s \<Rightarrow> 32 word \<Rightarrow> (int \<times> 's) option"

definition BlkdevRead :: "'s blkdev \<Rightarrow> 's \<Rightarrow> nat \<Rightarrow> nat \<Rightarrow> (int \<times> bytes \<times> 's) option" where
  "BlkdevRead D dev blkno sz =
     (let nblocks = u64 (sz + BLKDEV_BLKSIZE - 1) div BLKDEV_BLKSIZE
      in if nblocks = 0 then Some (0, [], dev)
      else if sz mod BLKDEV_BLKSIZE = 0 then
        do {
          (rc, d, dev1) \<leftarrow> GetN D dev blkno nblocks;
          if rc \<noteq> 0 then Some (-1, [], dev1) else Some (0, d, dev1)
        }
      else
        do {
          (rc, d, dev1) \<leftarrow> GetN D dev blkno (nblocks - 1);
          if rc \<noteq> 0 then Some (-1, [], dev1)
          else
            do {
              let remaining = sz - (nblocks - 1) * BLKDEV_BLKSIZE;
              (rc, block, dev2) \<leftarrow> GetN D dev1 (u64 (blkno + nblocks - 1)) 1;
              if rc \<noteq> 0 then Some (-1, [], dev2)
              else Some (0, d @ take remaining block, dev2)
            }
        })"

definition BlkdevWrite :: "'s blkdev \<Rightarrow> 's \<Rightarrow> nat \<Rightarrow> bytes \<Rightarrow> nat \<Rightarrow> (int \<times> 's) option" where
  "BlkdevWrite D dev blkno data sz =
     (let nblocks = u64 (sz + BLKDEV_BLKSIZE - 1) div BLKDEV_BLKSIZE
      in if nblocks = 0 then Some (0, dev)
      else if sz mod BLKDEV_BLKSIZE = 0 then
        do {
          (rc, dev1) \<leftarrow> PutN D dev blkno nblocks data;
          if rc \<noteq> 0 then Some (-1, dev1) else Some (0, dev1)
        }
      else
        do {
          (rc, dev1) \<leftarrow> PutN D dev blkno (nblocks - 1) (take ((nblocks - 1) * BLKDEV_BLKSIZE) data);
          if rc \<noteq> 0 then Some (-1, dev1)
          else
            do {
              let ptr = drop ((nblocks - 1) * BLKDEV_BLKSIZE) data;
              let remaining = sz - (nblocks - 1) * BLKDEV_BLKSIZE;
              (rc, block, dev2) \<leftarrow> GetN D dev1 (u64 (blkno + nblocks - 1)) 1;
              if rc \<noteq> 0 then Some (-1, dev2)
              else
                do {
                  block' \<leftarrow> store 0 (take remaining ptr) block;
                  (rc, dev3) \<leftarrow> PutN D dev2 (u64 (blkno + nblocks - 1)) 1 block';
                  if rc \<noteq> 0 then Some (-1, dev3) else Some (0, dev3)
                }
            }
        })"

text \<open>Writing a prefix and then the block that straddles its end writes the whole.\<close>

lemma overwrite_two_steps:
  assumes "length d1 = k" and q: "q = p + k"
    and blk: "blk = d2 @ slice (p + k + length d2) (m - length d2) xs"
    and "d = d1 @ d2" and "p + k + m \<le> length xs" and "length d2 \<le> m"
  shows "overwrite q blk (overwrite p d1 xs) = overwrite p d xs"
proof -
  have lb: "length blk = m" using assms by simp
  have drops: "drop (length d2) (drop (p + k) xs) = drop (p + k + length d2) xs" by (simp add: add.commute)
  have tail: "slice (p + k + length d2) (m - length d2) xs @ drop (p + k + m) xs = drop (p + k + length d2) xs"
    using assms(6) append_take_drop_id [of "m - length d2" "drop (p + k + length d2) xs"]
    by (simp add: slice_def algebra_simps)
  show ?thesis
    using assms lb tail by (simp add: overwrite_def ac_simps)
qed

subsection \<open>Sectors of a flat image\<close>

text \<open>The bytes of \<open>n\<close> consecutive sectors from sector \<open>b\<close>, when sector \<open>i\<close> holds \<open>f i\<close>.\<close>

definition sects :: "(nat \<Rightarrow> bytes) \<Rightarrow> nat \<Rightarrow> nat \<Rightarrow> bytes" where
  "sects f b n = concat (map f [b..<b + n])"

lemma sects_0 [simp]: "sects f b 0 = []"
  by (simp add: sects_def)

lemma sects_Suc: "sects f b (Suc n) = f b @ sects f (Suc b) n"
  by (simp add: sects_def upt_conv_Cons del: upt_Suc)

lemma sects_add: "sects f b (m + n) = sects f b m @ sects f (b + m) n"
  by (induction m arbitrary: b) (simp_all add: sects_Suc)

lemma sects_1 [simp]: "sects f b (Suc 0) = f b"
  by (simp add: sects_Suc)

lemma length_sects: "(\<And>i. b \<le> i \<Longrightarrow> i < b + n \<Longrightarrow> length (f i) = 512) \<Longrightarrow> length (sects f b n) = n * 512"
  by (induction n arbitrary: b) (simp_all add: sects_Suc)

lemma sects_cong: "(\<And>i. b \<le> i \<Longrightarrow> i < b + n \<Longrightarrow> f i = g i) \<Longrightarrow> sects f b n = sects g b n"
  unfolding sects_def by (intro arg_cong [where f = concat] map_cong) auto

lemma slice_sects:
  assumes len: "\<And>i. i < N \<Longrightarrow> length (f i) = 512" and "b + n \<le> N"
  shows "slice (b * 512) (n * 512) (sects f 0 N) = sects f b n"
proof -
  from assms(2) have N: "N = b + (n + (N - (b + n)))" by simp
  have "sects f 0 N = sects f 0 b @ sects f b n @ sects f (b + n) (N - (b + n))"
    by (subst N) (simp add: sects_add)
  moreover have "length (sects f 0 b) = b * 512" and "length (sects f b n) = n * 512"
    using assms by (auto intro!: length_sects)
  ultimately show ?thesis by (simp add: slice_def)
qed

lemma take_drop_sects:
  assumes len: "\<And>i. i < N \<Longrightarrow> length (f i) = 512" and "m \<le> N"
  shows "take (m * 512) (sects f 0 N) = sects f 0 m" and "drop (m * 512) (sects f 0 N) = sects f m (N - m)"
proof -
  have "sects f 0 N = sects f 0 m @ sects f m (N - m)"
    using sects_add [of f 0 m "N - m"] assms(2) by simp
  moreover have "length (sects f 0 m) = m * 512" using assms by (auto intro!: length_sects)
  ultimately show "take (m * 512) (sects f 0 N) = sects f 0 m" "drop (m * 512) (sects f 0 N) = sects f m (N - m)"
    by simp_all
qed

lemma image_sects:
  assumes "512 dvd length xs"
  shows "xs = sects (\<lambda>i. slice (i * 512) 512 xs) 0 (length xs div 512)"
proof -
  have "sects (\<lambda>i. slice (i * 512) 512 xs) 0 m = take (m * 512) xs" for m
  proof (induction m)
    case (Suc m)
    have "sects (\<lambda>i. slice (i * 512) 512 xs) 0 (Suc m) = take (m * 512) xs @ slice (m * 512) 512 xs"
      using sects_add [of "\<lambda>i. slice (i * 512) 512 xs" 0 m 1] Suc by simp
    then show ?case by (simp add: slice_def take_add [symmetric] add.commute)
  qed simp
  with assms show ?thesis by simp
qed

lemma sects_update:
  assumes len: "\<And>i. i < N \<Longrightarrow> length (f i) = 512" and "b + n \<le> N"
    and inside: "\<And>i. b \<le> i \<Longrightarrow> i < b + n \<Longrightarrow> g i = slice ((i - b) * 512) 512 d"
    and outside: "\<And>i. i < b \<or> b + n \<le> i \<Longrightarrow> g i = f i"
    and d: "length d = n * 512"
  shows "sects g 0 N = overwrite (b * 512) d (sects f 0 N)"
proof -
  from assms(2) have N: "N = b + (n + (N - (b + n)))" by simp
  have f: "sects f 0 N = sects f 0 b @ sects f b n @ sects f (b + n) (N - (b + n))"
    by (subst N) (simp add: sects_add)
  have g: "sects g 0 N = sects g 0 b @ sects g b n @ sects g (b + n) (N - (b + n))"
    by (subst N) (simp add: sects_add)
  have before: "sects g 0 b = sects f 0 b" and after: "sects g (b + n) (N - (b + n)) = sects f (b + n) (N - (b + n))"
    using outside by (auto intro!: sects_cong)
  have "sects g b m = take (m * 512) d" if "m \<le> n" for m
    using that
  proof (induction m)
    case (Suc m)
    have "sects g b (Suc m) = sects g b m @ g (b + m)"
      using sects_add [of g b m 1] by simp
    also have "\<dots> = take (m * 512) d @ slice (m * 512) 512 d"
      using Suc inside [of "b + m"] by simp
    finally show ?case by (simp add: slice_def take_add [symmetric] add.commute)
  qed simp
  from this [of n] have mid: "sects g b n = d" using d by simp
  have "length (sects f 0 b) = b * 512" and "length (sects f b n) = n * 512"
    using assms by (auto intro!: length_sects)
  then show ?thesis
    unfolding f g before after mid using d by (simp add: overwrite_def)
qed

text \<open>The number of blocks that cover \<open>sz\<close> bytes.\<close>

lemma blocks_cover:
  shows "sz mod 512 = 0 \<Longrightarrow> (sz + 511) div 512 = sz div 512"
    and "sz mod 512 \<noteq> 0 \<Longrightarrow> (sz + 511) div 512 = Suc (sz div 512)"
    and "b * 512 + sz \<le> 512 * k \<Longrightarrow> (b + (sz + 511) div 512) * 512 \<le> (512 * k :: nat)"
proof -
  have d: "sz = 512 * (sz div 512) + sz mod 512" by simp
  show "sz mod 512 = 0 \<Longrightarrow> (sz + 511) div 512 = sz div 512"
    by (subst d) simp
  have r: "sz mod 512 \<noteq> 0 \<Longrightarrow> (sz mod 512 + 511) div 512 = 1"
    using mod_less_divisor [of 512 sz] by simp
  have "(sz + 511) div 512 = sz div 512 + (sz mod 512 + 511) div 512"
    by (subst d) (simp only: add.assoc div_mult_self4 zero_neq_numeral not_False_eq_True)
  with r show "sz mod 512 \<noteq> 0 \<Longrightarrow> (sz + 511) div 512 = Suc (sz div 512)" by simp
  assume "b * 512 + sz \<le> 512 * k"
  then have "sz \<le> (k - b) * 512" by (simp add: algebra_simps)
  then have "(sz + 511) div 512 \<le> ((k - b) * 512 + 511) div 512" by (simp add: div_le_mono)
  then show "(b + (sz + 511) div 512) * 512 \<le> 512 * k"
    using \<open>b * 512 + sz \<le> 512 * k\<close> by simp
qed

lemma last_block:
  assumes "u64 (sz + 512 - 1) div 512 = (sz + 511) div 512" "(sz + 511) div 512 = Suc k" "b + k < 2 ^ 64"
  shows "u64 (511 + sz) div 512 = Suc k" and "u64 (b + k) = b + k"
  using assms by (simp_all add: add.commute)

subsection \<open>The contract of a block device\<close>

text \<open>
  A device in a state that satisfies \<open>inv\<close> behaves as the byte array \<open>image\<close>: a read of
  blocks that lie in the image returns its bytes and changes nothing, a write replaces
  them. A call may fail (a non-zero return code) unless the device is \<open>ready\<close>; a failed
  read changes nothing and a failed write changes nothing outside its range. In range,
  no call has undefined behaviour.
\<close>

locale blkdev_image =
  fixes D :: "'s blkdev"
    and inv :: "'s \<Rightarrow> bool"
    and ready :: "'s \<Rightarrow> bool"
    and image :: "'s \<Rightarrow> bytes"
  assumes image_aligned: "inv s \<Longrightarrow> 512 dvd length (image s)"
    and image_bound: "inv s \<Longrightarrow> length (image s) < 2 ^ 64"
    and GetN_image: "inv s \<Longrightarrow> (b + n) * 512 \<le> length (image s) \<Longrightarrow>
      \<exists>rc d s'. GetN D s b n = Some (rc, d, s') \<and> inv s' \<and> image s' = image s \<and>
        (rc = 0 \<longrightarrow> d = slice (b * 512) (n * 512) (image s)) \<and>
        (ready s \<longrightarrow> rc = 0 \<and> ready s')"
    and PutN_image: "inv s \<Longrightarrow> (b + n) * 512 \<le> length (image s) \<Longrightarrow> length d = n * 512 \<Longrightarrow>
      \<exists>rc s'. PutN D s b n d = Some (rc, s') \<and> inv s' \<and> length (image s') = length (image s) \<and>
        (rc = 0 \<longrightarrow> image s' = overwrite (b * 512) d (image s)) \<and>
        take (b * 512) (image s') = take (b * 512) (image s) \<and>
        drop ((b + n) * 512) (image s') = drop ((b + n) * 512) (image s) \<and>
        (ready s \<longrightarrow> rc = 0 \<and> ready s')"
begin

lemma nblocks_exact:
  assumes "inv s" and "b * 512 + sz \<le> length (image s)"
  shows "u64 (sz + 512 - 1) div 512 = (sz + 511) div 512"
    and "(b + (sz + 511) div 512) * 512 \<le> length (image s)"
proof -
  from image_aligned [OF assms(1)] obtain k where k: "length (image s) = 512 * k" by (elim dvdE)
  with image_bound [OF assms(1)] assms(2) have "sz + 511 < 2 ^ 64" by simp
  then show "u64 (sz + 512 - 1) div 512 = (sz + 511) div 512" by simp
  from assms(2) k show "(b + (sz + 511) div 512) * 512 \<le> length (image s)"
    using blocks_cover(3) [of b sz k] by simp
qed

lemma read_ok:
  assumes "inv s" "ready s" "b * 512 + sz \<le> length (image s)"
  shows "\<exists>s'. BlkdevRead D s b sz = Some (0, slice (b * 512) sz (image s), s') \<and>
    inv s' \<and> ready s' \<and> image s' = image s"
proof -
  note nb = nblocks_exact [OF assms(1,3)]
  let ?n = "(sz + 511) div 512"
  consider "sz = 0" | "sz > 0" "sz mod 512 = 0" | "sz mod 512 \<noteq> 0" by fastforce
  then show ?thesis
  proof cases
    case 1
    then show ?thesis using assms by (simp add: BlkdevRead_def BLKDEV_BLKSIZE_def)
  next
    case 2
    then have n: "?n * 512 = sz" "?n \<noteq> 0"
      by (auto simp: blocks_cover(1))
    obtain s' where "GetN D s b ?n = Some (0, slice (b * 512) (?n * 512) (image s), s')"
      "inv s'" "ready s'" "image s' = image s"
      using GetN_image [OF assms(1) nb(2)] assms(2) by auto
    with 2 n nb(1) show ?thesis by (simp add: BlkdevRead_def BLKDEV_BLKSIZE_def)
  next
    case 3
    then have n: "?n = Suc (sz div 512)" by (rule blocks_cover(2))
    let ?k = "sz div 512"
    have b1: "b + ?k < 2 ^ 64"
      using nb(2) image_bound [OF assms(1)] n by simp
    have "(b + ?k) * 512 \<le> length (image s)" using nb(2) n by simp
    from GetN_image [OF assms(1) this] assms(2) obtain s1
      where s1: "GetN D s b ?k = Some (0, slice (b * 512) (?k * 512) (image s), s1)"
        "inv s1" "ready s1" "image s1 = image s" by auto
    have "((b + ?k) + 1) * 512 \<le> length (image s1)" using nb(2) n s1(4) by simp
    from GetN_image [OF s1(2) this] s1(3) obtain s2
      where s2: "GetN D s1 (b + ?k) 1 = Some (0, slice ((b + ?k) * 512) 512 (image s1), s2)"
        "inv s2" "ready s2" "image s2 = image s1" by auto
    have szs: "sz = ?k * 512 + (sz - ?k * 512)" "sz - ?k * 512 \<le> 512"
      using mod_less_divisor [of 512 sz] by (simp_all add: minus_div_mult_eq_mod)
    have "slice (b * 512) sz (image s) =
      slice (b * 512) (?k * 512) (image s) @ take (sz - ?k * 512) (slice ((b + ?k) * 512) 512 (image s))"
      by (subst szs(1), subst slice_split) (use szs(2) in \<open>simp add: take_slice algebra_simps min_absorb1\<close>)
    moreover have "BlkdevRead D s b sz = Some (0, slice (b * 512) (?k * 512) (image s) @
        take (sz - ?k * 512) (slice ((b + ?k) * 512) 512 (image s)), s2)"
      using s1(1) s2(1,4) s1(4)
      by (simp add: BlkdevRead_def BLKDEV_BLKSIZE_def Let_def 3 last_block [OF nb(1) n b1])
    ultimately show ?thesis using s1 s2 by auto
  qed
qed

lemma write_ok:
  assumes "inv s" "ready s" "b * 512 + sz \<le> length (image s)" "length data = sz"
  shows "\<exists>s'. BlkdevWrite D s b data sz = Some (0, s') \<and> inv s' \<and> ready s' \<and>
    image s' = overwrite (b * 512) data (image s)"
proof -
  note nb = nblocks_exact [OF assms(1,3)]
  let ?n = "(sz + 511) div 512"
  consider "sz = 0" | "sz > 0" "sz mod 512 = 0" | "sz mod 512 \<noteq> 0" by fastforce
  then show ?thesis
  proof cases
    case 1
    then show ?thesis using assms by (simp add: BlkdevWrite_def BLKDEV_BLKSIZE_def)
  next
    case 2
    then have n: "?n * 512 = sz" "?n \<noteq> 0"
      by (auto simp: blocks_cover(1))
    with PutN_image [OF assms(1) nb(2), of data] assms(2,4) obtain s'
      where "PutN D s b ?n data = Some (0, s')" "inv s'" "ready s'"
        "image s' = overwrite (b * 512) data (image s)" by auto
    with 2 n nb(1) show ?thesis by (simp add: BlkdevWrite_def BLKDEV_BLKSIZE_def)
  next
    case 3
    then have n: "?n = Suc (sz div 512)" by (rule blocks_cover(2))
    let ?k = "sz div 512"
    let ?d1 = "take (?k * 512) data" and ?d2 = "drop (?k * 512) data"
    have lens: "length ?d1 = ?k * 512" "length ?d2 = sz mod 512" "sz mod 512 \<le> 512"
      using assms(4) mod_less_divisor [of 512 sz] by (simp_all add: minus_div_mult_eq_mod)
    have full: "(b + ?k) * 512 + 512 \<le> length (image s)" using nb(2) n by simp
    have b1: "b + ?k < 2 ^ 64"
      using full image_bound [OF assms(1)] by simp
    have "(b + ?k) * 512 \<le> length (image s)" using full by simp
    from PutN_image [OF assms(1) this lens(1)] assms(2) obtain s1
      where s1: "PutN D s b ?k ?d1 = Some (0, s1)" "inv s1" "ready s1"
        "image s1 = overwrite (b * 512) ?d1 (image s)" by auto
    have len1: "length (image s1) = length (image s)" using s1(4) lens full by simp
    have in1: "((b + ?k) + 1) * 512 \<le> length (image s1)" using full len1 by simp
    let ?blk = "slice ((b + ?k) * 512) 512 (image s)"
    have "slice ((b + ?k) * 512) 512 (image s1) = ?blk"
      using s1(4) lens full by (simp add: slice_overwrite_after algebra_simps)
    with GetN_image [OF s1(2) in1] s1(3) obtain s2
      where s2: "GetN D s1 (b + ?k) 1 = Some (0, ?blk, s2)" "inv s2" "ready s2" "image s2 = image s1"
      by auto
    let ?blk' = "overwrite 0 ?d2 ?blk"
    have lblk: "length ?blk = 512" using full by simp
    then have lblk': "length ?blk' = 1 * 512" using lens by simp
    have in2: "((b + ?k) + 1) * 512 \<le> length (image s2)" using in1 s2(4) by simp
    from PutN_image [OF s2(2) in2 lblk'] s2(3,4) obtain s3
      where s3: "PutN D s2 (b + ?k) 1 ?blk' = Some (0, s3)" "inv s3" "ready s3"
        "image s3 = overwrite ((b + ?k) * 512) ?blk' (image s1)" by auto
    have "image s3 = overwrite (b * 512) data (image s)"
      unfolding s3(4) s1(4)
    proof (rule overwrite_two_steps)
      show "length ?d1 = ?k * 512" by (rule lens(1))
      show "(b + ?k) * 512 = b * 512 + ?k * 512" by (simp add: algebra_simps)
      show "?blk' = ?d2 @ slice (b * 512 + ?k * 512 + length ?d2) (512 - length ?d2) (image s)"
        using lens lblk full
        by (simp add: overwrite_def slice_def drop_take algebra_simps)
      show "data = ?d1 @ ?d2" by simp
      show "b * 512 + ?k * 512 + 512 \<le> length (image s)" using full by (simp add: algebra_simps)
      show "length ?d2 \<le> 512" using lens by simp
    qed
    moreover have "BlkdevWrite D s b data sz = Some (0, s3)"
    proof -
      have "store 0 (take (sz - ?k * 512) ?d2) ?blk = Some ?blk'"
        using lens lblk by (simp add: store_def minus_div_mult_eq_mod)
      with s1(1) s2(1) s3(1) show ?thesis
        by (simp add: BlkdevWrite_def BLKDEV_BLKSIZE_def Let_def 3 last_block [OF nb(1) n b1])
    qed
    ultimately show ?thesis using s3 by blast
  qed
qed

lemma read_after_write:
  assumes "inv s" "ready s" "b * 512 + sz \<le> length (image s)" "length data = sz"
  shows "\<exists>s1 s2. BlkdevWrite D s b data sz = Some (0, s1) \<and> BlkdevRead D s1 b sz = Some (0, data, s2)"
proof -
  from write_ok [OF assms] obtain s1 where s1: "BlkdevWrite D s b data sz = Some (0, s1)" "inv s1"
    "ready s1" "image s1 = overwrite (b * 512) data (image s)" by auto
  have "b * 512 + sz \<le> length (image s1)" using s1(4) assms(3,4) by simp
  from read_ok [OF s1(2,3) this] obtain s2
    where "BlkdevRead D s1 b sz = Some (0, slice (b * 512) sz (image s1), s2)" by auto
  with s1 assms show ?thesis by (auto simp: slice_overwrite_same)
qed

end

end
