(* ===== verification/MemBlkdev.thy ===== *)
theory MemBlkdev
  imports Blkdev
begin

text \<open>
  The memory block device of \<open>lsvmutils/memblkdev.c\<close>: its state, its four operations and
  its constructor, and the interpretation of the block device contract.
\<close>

record mem_dev =
  md_data :: bytes
  md_size :: nat

definition mem_Close :: "mem_dev \<Rightarrow> (int \<times> mem_dev) option" where
  "mem_Close dev = Some (0, dev)"

definition mem_GetN :: "mem_dev \<Rightarrow> nat \<Rightarrow> nat \<Rightarrow> (int \<times> bytes \<times> mem_dev) option" where
  "mem_GetN dev blkno nblocks =
     (let offset = u64 (blkno * BLKDEV_BLKSIZE);
          toRead = u64 (nblocks * BLKDEV_BLKSIZE)
      in if u64 (offset + toRead) \<ge> md_size dev then Some (-1, [], dev)
         else do {
           d \<leftarrow> load offset toRead (md_data dev);
           Some (0, d, dev)
         })"

definition mem_PutN :: "mem_dev \<Rightarrow> nat \<Rightarrow> nat \<Rightarrow> bytes \<Rightarrow> (int \<times> mem_dev) option" where
  "mem_PutN dev blkno nblocks data =
     (let offset = u64 (blkno * BLKDEV_BLKSIZE);
          toWrite = u64 (nblocks * BLKDEV_BLKSIZE)
      in if u64 (offset + toWrite) \<ge> md_size dev then Some (-1, dev)
         else do {
           src \<leftarrow> load 0 toWrite data;
           d \<leftarrow> store offset src (md_data dev);
           Some (0, dev\<lparr>md_data := d\<rparr>)
         })"

definition mem_SetFlags :: "mem_dev \<Rightarrow> 32 word \<Rightarrow> (int \<times> mem_dev) option" where
  "mem_SetFlags dev flags = Some (-1, dev)"

definition mem_ops :: "mem_dev blkdev" where
  "mem_ops = \<lparr>Close = mem_Close, GetN = mem_GetN, PutN = mem_PutN, SetFlags = mem_SetFlags\<rparr>"

text \<open>
  \<open>BlkdevFromMemory\<close>: null data or a zero size gives no device; otherwise one request is
  made for the device object. The data stays with the caller.
\<close>

definition BlkdevFromMemory :: "heap \<Rightarrow> bytes option \<Rightarrow> nat \<Rightarrow> mem_dev option \<times> heap" where
  "BlkdevFromMemory h data sz =
     (case data of
        None \<Rightarrow> (None, h)
      | Some d \<Rightarrow>
          if sz = 0 then (None, h)
          else (map_option (\<lambda>_. \<lparr>md_data = d, md_size = sz\<rparr>) (h 0), heap_next h))"

lemma mem_ops_simps [simp]:
  "Close mem_ops = mem_Close" "GetN mem_ops = mem_GetN"
  "PutN mem_ops = mem_PutN" "SetFlags mem_ops = mem_SetFlags"
  by (simp_all add: mem_ops_def)

subsection \<open>The contract\<close>

text \<open>
  The invariant: the size is that of the data. The bound check of \<open>_GetN\<close> and \<open>_PutN\<close>
  refuses a request that ends at the size or beyond it, so the image the device serves is
  the largest number of whole blocks strictly below the size.
\<close>

definition mem_inv :: "mem_dev \<Rightarrow> bool" where
  "mem_inv dev \<longleftrightarrow> md_size dev = length (md_data dev) \<and> md_size dev < 2 ^ 64"

definition mem_image :: "mem_dev \<Rightarrow> bytes" where
  "mem_image dev = take ((md_size dev - 1) div 512 * 512) (md_data dev)"

lemma length_mem_image: "mem_inv dev \<Longrightarrow> length (mem_image dev) = (md_size dev - 1) div 512 * 512"
  by (simp add: mem_inv_def mem_image_def)

lemma mem_range:
  assumes "mem_inv dev" "(b + n) * 512 \<le> length (mem_image dev)" "md_size dev \<noteq> 0"
  shows "(b + n) * 512 < md_size dev"
proof -
  have "(md_size dev - 1) div 512 * 512 \<le> md_size dev - 1" by simp
  with assms show ?thesis by (simp add: length_mem_image)
qed

lemma mem_GetN_in_range:
  assumes "mem_inv dev" "(b + n) * 512 < md_size dev"
  shows "mem_GetN dev b n = Some (0, slice (b * 512) (n * 512) (md_data dev), dev)"
  using assms by (simp add: mem_GetN_def mem_inv_def BLKDEV_BLKSIZE_def load_def algebra_simps)

lemma mem_PutN_in_range:
  assumes "mem_inv dev" "(b + n) * 512 < md_size dev" "length d = n * 512"
  shows "mem_PutN dev b n d = Some (0, dev\<lparr>md_data := overwrite (b * 512) d (md_data dev)\<rparr>)"
  using assms
  by (simp add: mem_PutN_def mem_inv_def BLKDEV_BLKSIZE_def load_def store_def algebra_simps)

definition mem_ready :: "mem_dev \<Rightarrow> bool" where
  "mem_ready dev \<longleftrightarrow> md_size dev \<noteq> 0"

interpretation md: blkdev_image mem_ops mem_inv mem_ready mem_image
proof
  fix s
  assume inv: "mem_inv s"
  show "512 dvd length (mem_image s)" using inv by (simp add: length_mem_image)
  show "length (mem_image s) < 2 ^ 64"
  proof -
    have "length (mem_image s) \<le> md_size s" using inv by (simp add: mem_image_def mem_inv_def)
    with inv show ?thesis by (simp add: mem_inv_def)
  qed
next
  fix s b n
  assume inv: "mem_inv s" and range: "(b + n) * 512 \<le> length (mem_image s)"
  show "\<exists>rc d s'. GetN mem_ops s b n = Some (rc, d, s') \<and> mem_inv s' \<and> mem_image s' = mem_image s \<and>
      (rc = 0 \<longrightarrow> d = slice (b * 512) (n * 512) (mem_image s)) \<and> (mem_ready s \<longrightarrow> rc = 0 \<and> mem_ready s')"
  proof (cases "md_size s = 0")
    case True
    then show ?thesis using inv by (simp add: mem_GetN_def mem_ready_def)
  next
    case False
    from range have "slice (b * 512) (n * 512) (md_data s) = slice (b * 512) (n * 512) (mem_image s)"
      by (simp add: mem_image_def slice_take algebra_simps)
    with mem_GetN_in_range [OF inv mem_range [OF inv range False]] inv show ?thesis by simp
  qed
next
  fix s b n and d :: bytes
  assume inv: "mem_inv s" and range: "(b + n) * 512 \<le> length (mem_image s)" and d: "length d = n * 512"
  show "\<exists>rc s'. PutN mem_ops s b n d = Some (rc, s') \<and> mem_inv s' \<and>
      length (mem_image s') = length (mem_image s) \<and>
      (rc = 0 \<longrightarrow> mem_image s' = overwrite (b * 512) d (mem_image s)) \<and>
      take (b * 512) (mem_image s') = take (b * 512) (mem_image s) \<and>
      drop ((b + n) * 512) (mem_image s') = drop ((b + n) * 512) (mem_image s) \<and>
      (mem_ready s \<longrightarrow> rc = 0 \<and> mem_ready s')"
  proof (cases "md_size s = 0")
    case True
    then show ?thesis using inv by (simp add: mem_PutN_def mem_ready_def)
  next
    case False
    let ?s = "s\<lparr>md_data := overwrite (b * 512) d (md_data s)\<rparr>"
    have put: "mem_PutN s b n d = Some (0, ?s)"
      by (rule mem_PutN_in_range [OF inv mem_range [OF inv range False] d])
    have "(b + n) * 512 < length (md_data s)"
      using mem_range [OF inv range False] inv by (simp add: mem_inv_def)
    then have inv': "mem_inv ?s" using inv d by (simp add: mem_inv_def algebra_simps)
    have le: "(md_size s - 1) div 512 * 512 \<le> length (md_data s)"
      using inv length_mem_image [OF inv] by (simp add: mem_image_def)
    have img: "mem_image ?s = overwrite (b * 512) d (mem_image s)"
      using range d le length_mem_image [OF inv]
      by (simp add: mem_image_def take_overwrite algebra_simps)
    have "b * 512 + length d \<le> length (mem_image s)" using range d by simp
    then have "take (b * 512) (mem_image ?s) = take (b * 512) (mem_image s)"
      "drop ((b + n) * 512) (mem_image ?s) = drop ((b + n) * 512) (mem_image s)"
      unfolding img using d by (simp_all add: overwrite_def algebra_simps)
    with put inv' img range d False show ?thesis by (simp add: mem_ready_def)
  qed
qed

section \<open>Claims\<close>

text \<open>
  The memory device refuses every request that ends exactly at its end, because the bound check
  of \<open>_GetN\<close> and \<open>_PutN\<close> compares with \<open>>=\<close>: the last block of a device that is a whole number of
  blocks can be neither read nor written.
\<close>

lemma mem_last_block_refused:
  assumes "md_size dev = (b + n) * 512" "md_size dev < 2 ^ 64"
  shows "mem_GetN dev b n = Some (-1, [], dev) \<and> mem_PutN dev b n d = Some (-1, dev)"
proof -
  have "u64 (u64 (b * 512) + u64 (n * 512)) = md_size dev" using assms by (simp add: algebra_simps)
  then show ?thesis by (simp add: mem_GetN_def mem_PutN_def BLKDEV_BLKSIZE_def)
qed

end
