(* ===== verification/CacheBlkdev.thy ===== *)
theory CacheBlkdev
  imports Blkdev
begin

text \<open>
  The write-back cache device of \<open>lsvmutils/cacheblkdev.c\<close>. LSVMLOAD puts it over the boot
  disk so that nothing it writes (the patched initial ramdisk, the GRUB configuration)
  ever reaches the disk.

  State: the child device, the hash table of chains, the flags, and the outcomes of the
  coming allocations. A chain is the list of its blocks in the order of the \<open>next\<close> links.
\<close>

definition MAX_CHAINS :: nat where
  "MAX_CHAINS = 64 * 1024"

record block =
  blk_no :: nat
  blk_data :: bytes

record 's cache_dev =
  child :: 's
  chains :: "nat \<Rightarrow> block list"
  cflags :: "32 word"
  cheap :: heap

subsection \<open>The hash table\<close>

definition cache_ReleaseCache :: "'s cache_dev \<Rightarrow> 's cache_dev" where
  "cache_ReleaseCache impl = impl\<lparr>chains := (\<lambda>slot. if slot < MAX_CHAINS then [] else chains impl slot)\<rparr>"

fun find_block :: "block list \<Rightarrow> nat \<Rightarrow> block option" where
  "find_block [] blkno = None"
| "find_block (p # next) blkno = (if blk_no p = blkno then Some p else find_block next blkno)"

definition cache_GetCache :: "'s cache_dev \<Rightarrow> nat \<Rightarrow> block option" where
  "cache_GetCache impl blkno = find_block (chains impl (blkno mod MAX_CHAINS)) blkno"

definition cache_PutCache :: "'s cache_dev \<Rightarrow> nat \<Rightarrow> bytes \<Rightarrow> (int \<times> 's cache_dev) option" where
  "cache_PutCache impl blkno data =
     (let slot = blkno mod MAX_CHAINS;
          impl1 = impl\<lparr>cheap := heap_next (cheap impl)\<rparr>
      in case cheap impl 0 of
           None \<Rightarrow> Some (-1, impl1)
         | Some _ \<Rightarrow> do {
             d \<leftarrow> load 0 BLKDEV_BLKSIZE data;
             Some (0, impl1\<lparr>chains := (chains impl)
               (slot := \<lparr>blk_no = blkno, blk_data = d\<rparr> # chains impl slot)\<rparr>)
           })"

text \<open>The write through the pointer that \<open>_GetCache\<close> returned, in \<open>_PutN\<close>.\<close>

fun set_block :: "block list \<Rightarrow> nat \<Rightarrow> bytes \<Rightarrow> block list" where
  "set_block [] blkno d = []"
| "set_block (p # next) blkno d =
     (if blk_no p = blkno then p\<lparr>blk_data := d\<rparr> # next else p # set_block next blkno d)"

definition cache_SetCache :: "'s cache_dev \<Rightarrow> nat \<Rightarrow> bytes \<Rightarrow> 's cache_dev" where
  "cache_SetCache impl blkno d =
     (let slot = blkno mod MAX_CHAINS
      in impl\<lparr>chains := (chains impl)(slot := set_block (chains impl slot) blkno d)\<rparr>)"

subsection \<open>The device operations\<close>

definition cache_Close :: "'s blkdev \<Rightarrow> 's cache_dev \<Rightarrow> (int \<times> 's cache_dev) option" where
  "cache_Close D dev =
     (let impl = cache_ReleaseCache dev
      in do {
        (rc, child') \<leftarrow> Close D (child impl);
        Some (if rc \<noteq> 0 then -1 else 0, impl\<lparr>child := child'\<rparr>)
      })"

text \<open>The first inner loop of \<open>_GetN\<close>: copy cached blocks; the new \<open>i\<close> and the bytes copied.\<close>

function cached_run :: "'s cache_dev \<Rightarrow> nat \<Rightarrow> nat \<Rightarrow> nat \<Rightarrow> nat \<times> bytes" where
  "cached_run impl blkno nblocks i =
     (if i < nblocks then
        (case cache_GetCache impl (u64 (blkno + i)) of
           None \<Rightarrow> (i, [])
         | Some block \<Rightarrow>
             (let (i', d) = cached_run impl blkno nblocks (Suc i) in (i', blk_data block @ d)))
      else (i, []))"
  by pat_completeness auto
termination
  by (relation "measure (\<lambda>(impl, blkno, nblocks, i). nblocks - i)") auto

text \<open>The second one: the next cached block at or after \<open>j\<close>.\<close>

function uncached_run :: "'s cache_dev \<Rightarrow> nat \<Rightarrow> nat \<Rightarrow> nat \<Rightarrow> nat" where
  "uncached_run impl blkno nblocks j =
     (if j < nblocks \<and> cache_GetCache impl (u64 (blkno + j)) = None
      then uncached_run impl blkno nblocks (Suc j) else j)"
  by pat_completeness auto
termination
  by (relation "measure (\<lambda>(impl, blkno, nblocks, j). nblocks - j)") auto

text \<open>The third one: put what was read into the cache, from block \<open>k\<close> to \<open>j\<close>.\<close>

function fill_run :: "'s cache_dev \<Rightarrow> nat \<Rightarrow> nat \<Rightarrow> nat \<Rightarrow> bytes \<Rightarrow> (int \<times> 's cache_dev) option" where
  "fill_run impl blkno k j ptr =
     (if k < j then
        do {
          (rc, impl') \<leftarrow> cache_PutCache impl (u64 (blkno + k)) ptr;
          if rc \<noteq> 0 then Some (-1, impl')
          else fill_run impl' blkno (Suc k) j (drop BLKDEV_BLKSIZE ptr)
        }
      else Some (0, impl))"
  by pat_completeness auto
termination
  by (relation "measure (\<lambda>(impl, blkno, k, j, ptr). j - k)") auto

declare cached_run.simps [simp del] uncached_run.simps [simp del] fill_run.simps [simp del]

lemma cached_run_le: "i \<le> fst (cached_run impl blkno nblocks i)"
proof (induction impl blkno nblocks i rule: cached_run.induct)
  case (1 impl blkno nblocks i)
  then show ?case
    by (subst cached_run.simps) (fastforce split: option.split prod.split)
qed

lemma uncached_run_le: "j \<le> uncached_run impl blkno nblocks j"
proof (induction impl blkno nblocks j rule: uncached_run.induct)
  case (1 impl blkno nblocks j)
  then show ?case by (subst uncached_run.simps) (simp add: Suc_le_eq less_imp_le)
qed

lemma run_progress:
  assumes "i < nblocks"
  shows "i < uncached_run impl blkno nblocks (fst (cached_run impl blkno nblocks i))"
proof (cases "cache_GetCache impl (u64 (blkno + i))")
  case None
  then have "fst (cached_run impl blkno nblocks i) = i" by (subst cached_run.simps) simp
  moreover have "uncached_run impl blkno nblocks i = uncached_run impl blkno nblocks (Suc i)"
    using None assms by (subst uncached_run.simps) simp
  ultimately show ?thesis using uncached_run_le [of "Suc i" impl blkno nblocks] by simp
next
  case (Some b)
  then have "fst (cached_run impl blkno nblocks i) = fst (cached_run impl blkno nblocks (Suc i))"
    using assms by (subst cached_run.simps) (simp split: prod.split)
  then have "Suc i \<le> fst (cached_run impl blkno nblocks i)"
    using cached_run_le [of "Suc i" impl blkno nblocks] by simp
  then show ?thesis
    using uncached_run_le [of "fst (cached_run impl blkno nblocks i)" impl blkno nblocks] by simp
qed

text \<open>
  The body of the outer loop of \<open>_GetN\<close> after the two searches: read the blocks from \<open>i\<close> to
  \<open>j\<close> from the child and, if caching is enabled, put them into the cache.
\<close>

definition cache_fetch ::
  "'s blkdev \<Rightarrow> 's cache_dev \<Rightarrow> nat \<Rightarrow> nat \<Rightarrow> nat \<Rightarrow> (int \<times> bytes \<times> 's cache_dev) option" where
  "cache_fetch D impl blkno i j =
     do {
       (rc, d, child') \<leftarrow> GetN D (child impl) (u64 (blkno + i)) (j - i);
       let impl1 = impl\<lparr>child := child'\<rparr>;
       if rc \<noteq> 0 then Some (-1, [], impl1)
       else if cflags impl1 AND BLKDEV_ENABLE_CACHING \<noteq> 0 then
         do {
           (rc, impl2) \<leftarrow> fill_run impl1 blkno i j d;
           if rc \<noteq> 0 then Some (-1, [], impl2) else Some (0, d, impl2)
         }
       else Some (0, d, impl1)
     }"

text \<open>The outer loop of \<open>_GetN\<close>; \<open>acc\<close> is what the buffer holds so far.\<close>

function cache_GetN_loop ::
  "'s blkdev \<Rightarrow> 's cache_dev \<Rightarrow> nat \<Rightarrow> nat \<Rightarrow> nat \<Rightarrow> bytes \<Rightarrow> (int \<times> bytes \<times> 's cache_dev) option" where
  "cache_GetN_loop D impl blkno nblocks i acc =
     (if i < nblocks then
        (let i1 = fst (cached_run impl blkno nblocks i);
             acc1 = acc @ snd (cached_run impl blkno nblocks i);
             j = uncached_run impl blkno nblocks i1
         in if j = i1 then cache_GetN_loop D impl blkno nblocks i1 acc1
            else
              do {
                (rc, d, impl1) \<leftarrow> cache_fetch D impl blkno i1 j;
                if rc \<noteq> 0 then Some (-1, [], impl1)
                else cache_GetN_loop D impl1 blkno nblocks j (acc1 @ d)
              })
      else Some (0, acc, impl))"
  by pat_completeness auto
termination
proof (relation "measure (\<lambda>(D, impl, blkno, nblocks, i, acc). nblocks - i)", goal_cases)
  case (2 D impl blkno nblocks i acc x xa xb)
  then show ?case using run_progress [of i nblocks impl blkno] by simp
next
  case (3 D impl blkno nblocks i acc x xa xb)
  then show ?case using run_progress [of i nblocks impl blkno] by simp
qed simp

definition cache_GetN :: "'s blkdev \<Rightarrow> 's cache_dev \<Rightarrow> nat \<Rightarrow> nat \<Rightarrow> (int \<times> bytes \<times> 's cache_dev) option" where
  "cache_GetN D dev blkno nblocks = cache_GetN_loop D dev blkno nblocks 0 []"

text \<open>The loop of \<open>_PutN\<close> when caching is enabled; \<open>r\<close> blocks remain.\<close>

fun cache_PutN_loop :: "'s cache_dev \<Rightarrow> nat \<Rightarrow> nat \<Rightarrow> nat \<Rightarrow> bytes \<Rightarrow> (int \<times> 's cache_dev) option" where
  "cache_PutN_loop impl blkno i 0 ptr = Some (0, impl)"
| "cache_PutN_loop impl blkno i (Suc r) ptr =
     (case cache_GetCache impl (u64 (blkno + i)) of
        Some block \<Rightarrow>
          do {
            d \<leftarrow> load 0 BLKDEV_BLKSIZE ptr;
            cache_PutN_loop (cache_SetCache impl (u64 (blkno + i)) d) blkno (Suc i) r (drop BLKDEV_BLKSIZE ptr)
          }
      | None \<Rightarrow>
          do {
            (rc, impl') \<leftarrow> cache_PutCache impl (u64 (blkno + i)) ptr;
            if rc \<noteq> 0 then Some (-1, impl')
            else cache_PutN_loop impl' blkno (Suc i) r (drop BLKDEV_BLKSIZE ptr)
          })"

definition cache_PutN :: "'s blkdev \<Rightarrow> 's cache_dev \<Rightarrow> nat \<Rightarrow> nat \<Rightarrow> bytes \<Rightarrow> (int \<times> 's cache_dev) option" where
  "cache_PutN D dev blkno nblocks data =
     (if cflags dev AND BLKDEV_ENABLE_CACHING \<noteq> 0 then cache_PutN_loop dev blkno 0 nblocks data
      else
        do {
          (rc, child') \<leftarrow> PutN D (child dev) blkno nblocks data;
          Some (if rc \<noteq> 0 then -1 else 0, dev\<lparr>child := child'\<rparr>)
        })"

definition cache_SetFlags :: "'s cache_dev \<Rightarrow> 32 word \<Rightarrow> (int \<times> 's cache_dev) option" where
  "cache_SetFlags dev flags =
     (if flags AND NOT BLKDEV_ENABLE_CACHING \<noteq> 0 then Some (-1, dev)
      else Some (0, dev\<lparr>cflags := flags\<rparr>))"

definition cache_ops :: "'s blkdev \<Rightarrow> 's cache_dev blkdev" where
  "cache_ops D = \<lparr>Close = cache_Close D, GetN = cache_GetN D, PutN = cache_PutN D, SetFlags = cache_SetFlags\<rparr>"

text \<open>\<open>NewCacheBlkdev\<close>: one cleared allocation; \<open>h\<close> are the outcomes the device will see.\<close>

definition NewCacheBlkdev :: "heap \<Rightarrow> 's \<Rightarrow> 's cache_dev option" where
  "NewCacheBlkdev h dev =
     map_option (\<lambda>_. \<lparr>child = dev, chains = (\<lambda>_. []), cflags = 0, cheap = heap_next h\<rparr>) (h 0)"

text \<open>\<open>CacheBlkdevStats\<close>: blocks, non-empty chains, the number of chains, the longest chain.\<close>

definition cache_stats_step :: "'s cache_dev \<Rightarrow> nat \<Rightarrow> nat \<times> nat \<times> nat \<Rightarrow> nat \<times> nat \<times> nat" where
  "cache_stats_step impl i = (\<lambda>(numBlocks, numChains, longestChain).
     (let n = length (chains impl i)
      in (numBlocks + n, (if chains impl i \<noteq> [] then numChains + 1 else numChains),
          (if n > longestChain then longestChain + 1 else longestChain))))"

definition CacheBlkdevStats :: "'s cache_dev \<Rightarrow> nat \<times> nat \<times> nat \<times> nat" where
  "CacheBlkdevStats impl =
     (let (numBlocks, numChains, longestChain) = fold (cache_stats_step impl) [0..<MAX_CHAINS] (0, 0, 0)
      in (numBlocks, numChains, MAX_CHAINS, longestChain))"

lemma cache_ops_simps [simp]:
  "Close (cache_ops D) = cache_Close D" "GetN (cache_ops D) = cache_GetN D"
  "PutN (cache_ops D) = cache_PutN D" "SetFlags (cache_ops D) = cache_SetFlags"
  by (simp_all add: cache_ops_def)

subsection \<open>What the device holds\<close>

text \<open>
  Sector \<open>i\<close> of the device is the cached block if there is one and the child's sector
  otherwise. The invariant of the hash table: a block is in the chain of its number, holds
  one block of bytes, and no number is cached twice. A device that has written-back blocks
  and caching disabled is excluded (\<open>_PutN\<close> would then write to the disk behind the cache).
\<close>

definition cache_sect :: "('s \<Rightarrow> bytes) \<Rightarrow> 's cache_dev \<Rightarrow> nat \<Rightarrow> bytes" where
  "cache_sect img c i =
     (case cache_GetCache c i of
        Some b \<Rightarrow> blk_data b
      | None \<Rightarrow> slice (i * 512) 512 (img (child c)))"

definition cache_image :: "('s \<Rightarrow> bytes) \<Rightarrow> 's cache_dev \<Rightarrow> bytes" where
  "cache_image img c = sects (cache_sect img c) 0 (length (img (child c)) div 512)"

definition chains_ok :: "'s cache_dev \<Rightarrow> bool" where
  "chains_ok c \<longleftrightarrow> (\<forall>slot. distinct (map blk_no (chains c slot)) \<and>
     (\<forall>b \<in> set (chains c slot). blk_no b mod MAX_CHAINS = slot \<and> length (blk_data b) = 512))"

definition cache_inv :: "('s \<Rightarrow> bool) \<Rightarrow> 's cache_dev \<Rightarrow> bool" where
  "cache_inv dinv c \<longleftrightarrow> dinv (child c) \<and> chains_ok c \<and> (cflags c = 1 \<or> cflags c = 0 \<and> (\<forall>slot. chains c slot = []))"

definition cache_ready :: "('s \<Rightarrow> bool) \<Rightarrow> 's cache_dev \<Rightarrow> bool" where
  "cache_ready ready c \<longleftrightarrow> ready (child c) \<and> heap_ok (cheap c)"

subsection \<open>Chains\<close>

lemma find_block_Some: "find_block ch n = Some b \<Longrightarrow> b \<in> set ch \<and> blk_no b = n"
  by (induction ch) (auto split: if_splits)

lemma find_block_None: "find_block ch n = None \<longleftrightarrow> n \<notin> set (map blk_no ch)"
  by (induction ch) auto

lemma find_set_block:
  "find_block (set_block ch n d) m =
     (if m = n then map_option (\<lambda>b. b\<lparr>blk_data := d\<rparr>) (find_block ch n) else find_block ch m)"
  by (induction ch) auto

lemma set_block_blk_nos: "map blk_no (set_block ch n d) = map blk_no ch"
  by (induction ch) auto

lemma set_block_members:
  "b \<in> set (set_block ch n d) \<Longrightarrow> b \<in> set ch \<or> (\<exists>b' \<in> set ch. b = b'\<lparr>blk_data := d\<rparr>)"
  by (induction ch) (auto split: if_splits)

lemma GetCache_Some:
  "chains_ok c \<Longrightarrow> cache_GetCache c n = Some b \<Longrightarrow> blk_no b = n \<and> length (blk_data b) = 512"
  by (auto simp: cache_GetCache_def chains_ok_def dest!: find_block_Some)

lemma GetCache_cong: "chains c' = chains c \<Longrightarrow> cache_GetCache c' = cache_GetCache c"
  by (simp add: cache_GetCache_def fun_eq_iff)

lemma PutCache_grants:
  assumes "cheap c 0 = Some x" "512 \<le> length d"
  shows "\<exists>c'. cache_PutCache c n d = Some (0, c') \<and> child c' = child c \<and> cflags c' = cflags c \<and>
    cheap c' = heap_next (cheap c) \<and>
    (\<forall>m. cache_GetCache c' m = (if m = n then Some \<lparr>blk_no = n, blk_data = take 512 d\<rparr> else cache_GetCache c m)) \<and>
    (chains_ok c \<longrightarrow> cache_GetCache c n = None \<longrightarrow> chains_ok c')"
  using assms
  by (auto simp: cache_PutCache_def Let_def load_def slice_def BLKDEV_BLKSIZE_def cache_GetCache_def
      chains_ok_def find_block_None)

lemma PutCache_refuses:
  "cheap c 0 = None \<Longrightarrow> cache_PutCache c n d = Some (-1, c\<lparr>cheap := heap_next (cheap c)\<rparr>)"
  by (simp add: cache_PutCache_def)

lemma SetCache_props:
  assumes "cache_GetCache c n = Some b"
  shows "child (cache_SetCache c n d) = child c" "cflags (cache_SetCache c n d) = cflags c"
    "cheap (cache_SetCache c n d) = cheap c"
    "cache_GetCache (cache_SetCache c n d) m =
       (if m = n then Some (b\<lparr>blk_data := d\<rparr>) else cache_GetCache c m)"
  using assms by (auto simp: cache_SetCache_def Let_def cache_GetCache_def find_set_block)

lemma SetCache_chains_ok:
  assumes "chains_ok c" "length d = 512"
  shows "chains_ok (cache_SetCache c n d)"
  using assms
  by (auto simp: chains_ok_def cache_SetCache_def Let_def set_block_blk_nos dest!: set_block_members)

lemma cache_sect_length:
  assumes "chains_ok c" "i < length (img (child c)) div 512"
  shows "length (cache_sect img c i) = 512"
proof (cases "cache_GetCache c i")
  case None
  have "i * 512 + 512 \<le> length (img (child c))" using assms(2) by simp
  with None show ?thesis by (simp add: cache_sect_def)
next
  case (Some b)
  with GetCache_Some [OF assms(1) Some] show ?thesis by (simp add: cache_sect_def)
qed

lemma length_cache_image:
  "chains_ok c \<Longrightarrow> length (cache_image img c) = length (img (child c)) div 512 * 512"
  unfolding cache_image_def by (rule length_sects) (simp add: cache_sect_length)

lemma slice_cache_image:
  assumes "chains_ok c" "b + n \<le> length (img (child c)) div 512"
  shows "slice (b * 512) (n * 512) (cache_image img c) = sects (cache_sect img c) b n"
  unfolding cache_image_def using assms by (intro slice_sects cache_sect_length)

lemma cache_sect_cong:
  "chains c' = chains c \<Longrightarrow> img (child c') = img (child c) \<Longrightarrow> cache_sect img c' = cache_sect img c"
  by (simp add: cache_sect_def fun_eq_iff GetCache_cong [of c' c] split: option.split)

lemma select_convs_child: "child (c\<lparr>child := s\<rparr>) = s"
  by simp

lemma cache_image_cong:
  "cache_sect img c' = cache_sect img c \<Longrightarrow> length (img (child c')) = length (img (child c)) \<Longrightarrow>
   cache_image img c' = cache_image img c"
  by (simp add: cache_image_def)

subsection \<open>The inner loops of \<open>_GetN\<close>\<close>

lemma cached_run_spec:
  assumes "b + n < 2 ^ 64" "i \<le> n"
  shows "fst (cached_run c b n i) \<le> n \<and>
    snd (cached_run c b n i) = sects (cache_sect img c) (b + i) (fst (cached_run c b n i) - i)"
  using assms
proof (induction c b n i rule: cached_run.induct)
  case (1 c b n i)
  show ?case
  proof (cases "i < n")
    case True
    note i = this
    show ?thesis
    proof (cases "cache_GetCache c (b + i)")
      case None
      then show ?thesis using True "1.prems" by (subst cached_run.simps, subst (2) cached_run.simps) (simp add: cached_run.simps)
    next
      case (Some blk)
      let ?r = "cached_run c b n (Suc i)"
      have r: "cached_run c b n i = (fst ?r, blk_data blk @ snd ?r)"
        using True Some "1.prems" by (subst cached_run.simps) (simp add: case_prod_unfold Let_def)
      have "cache_GetCache c (u64 (b + i)) = Some blk" using Some True "1.prems" by simp
      from "1.IH" [OF i this] have ih: "fst ?r \<le> n" "snd ?r = sects (cache_sect img c) (b + Suc i) (fst ?r - Suc i)"
        using "1.prems" i by auto
      have "fst ?r - i = Suc (fst ?r - Suc i)" using cached_run_le [of "Suc i" c b n] by simp
      then have "sects (cache_sect img c) (b + i) (fst ?r - i) = blk_data blk @ snd ?r"
        using ih Some by (simp add: sects_Suc cache_sect_def)
      with r ih show ?thesis by simp
    qed
  next
    case False
    then show ?thesis using "1.prems" by (subst cached_run.simps, subst (2) cached_run.simps) (simp add: cached_run.simps)
  qed
qed

lemma uncached_run_spec:
  assumes "b + n < 2 ^ 64" "j \<le> n"
  shows "uncached_run c b n j \<le> n \<and> (\<forall>k. j \<le> k \<and> k < uncached_run c b n j \<longrightarrow> cache_GetCache c (b + k) = None)"
  using assms
proof (induction c b n j rule: uncached_run.induct)
  case (1 c b n j)
  show ?case
  proof (cases "j < n \<and> cache_GetCache c (u64 (b + j)) = None")
    case True
    then have "uncached_run c b n j = uncached_run c b n (Suc j)" by (subst uncached_run.simps) simp
    moreover have "u64 (b + j) = b + j" using True "1.prems" by simp
    with True have "cache_GetCache c (b + j) = None" by simp
    ultimately show ?thesis using "1.IH" [OF True] "1.prems" True
      by (metis Suc_le_eq le_eq_less_or_eq)
  next
    case False
    then have "uncached_run c b n j = j" by (subst uncached_run.simps) auto
    with "1.prems" show ?thesis by auto
  qed
qed

lemma cache_sect_fill:
  assumes "cache_GetCache c n = None" "child c' = child c"
    and "\<forall>m. cache_GetCache c' m = (if m = n then Some \<lparr>blk_no = n, blk_data = d\<rparr> else cache_GetCache c m)"
    and "d = slice (n * 512) 512 (img (child c))"
  shows "cache_sect img c' = cache_sect img c"
  using assms by (auto simp: cache_sect_def fun_eq_iff split: option.split)

lemma fill_run_spec:
  assumes "b + j < 2 ^ 64" "k \<le> j" "chains_ok c"
    and "\<forall>m. k \<le> m \<and> m < j \<longrightarrow> cache_GetCache c (b + m) = None"
    and "ptr = sects (\<lambda>i. slice (i * 512) 512 (img (child c))) (b + k) (j - k)"
    and "(b + j) * 512 \<le> length (img (child c))"
  shows "\<exists>rc c'. fill_run c b k j ptr = Some (rc, c') \<and> child c' = child c \<and> cflags c' = cflags c \<and>
    chains_ok c' \<and> cache_sect img c' = cache_sect img c \<and>
    (heap_ok (cheap c) \<longrightarrow> rc = 0 \<and> heap_ok (cheap c'))"
  using assms
proof (induction "j - k" arbitrary: k c ptr)
  case 0
  then show ?case by (simp add: fill_run.simps)
next
  case (Suc x)
  then have k: "k < j" by simp
  let ?f = "\<lambda>i. slice (i * 512) 512 (img (child c))"
  have n: "u64 (b + k) = b + k" using Suc.prems(1) k by simp
  have jk: "j - k = Suc (j - Suc k)" using k by simp
  have ptr: "ptr = ?f (b + k) @ sects ?f (b + Suc k) (j - Suc k)"
    using Suc.prems(5) unfolding jk sects_Suc by simp
  have len: "length (?f (b + k)) = 512" using Suc.prems(6) k by (auto simp: algebra_simps)
  show ?case
  proof (cases "cheap c 0")
    case None
    let ?c = "c\<lparr>cheap := heap_next (cheap c)\<rparr>"
    have "fill_run c b k j ptr = Some (-1, ?c)"
      using k n by (subst fill_run.simps) (simp add: PutCache_refuses [OF None])
    moreover have "chains_ok ?c" using Suc.prems(3) by (simp add: chains_ok_def)
    moreover have "cache_sect img ?c = cache_sect img c"
      by (intro cache_sect_cong) simp_all
    moreover have "\<not> heap_ok (cheap c)" using None by (auto simp: heap_ok_def)
    ultimately show ?thesis by simp
  next
    case (Some y)
    from PutCache_grants [OF Some, of ptr "b + k"] len ptr obtain c1 where
      c1: "cache_PutCache c (b + k) ptr = Some (0, c1)" "child c1 = child c" "cflags c1 = cflags c"
        "cheap c1 = heap_next (cheap c)"
        "\<forall>m. cache_GetCache c1 m = (if m = b + k then Some \<lparr>blk_no = b + k, blk_data = ?f (b + k)\<rparr> else cache_GetCache c m)"
        "chains_ok c1"
      using Suc.prems(3,4) k by auto
    have sect: "cache_sect img c1 = cache_sect img c"
    proof (rule cache_sect_fill)
      show "cache_GetCache c (b + k) = None" using Suc.prems(4) k by simp
    qed (use c1 in auto)
    have "\<exists>rc c'. fill_run c1 b (Suc k) j (drop 512 ptr) = Some (rc, c') \<and> child c' = child c1 \<and>
      cflags c' = cflags c1 \<and> chains_ok c' \<and> cache_sect img c' = cache_sect img c1 \<and>
      (heap_ok (cheap c1) \<longrightarrow> rc = 0 \<and> heap_ok (cheap c'))"
    proof (rule Suc.hyps(1))
      show "x = j - Suc k" using Suc.hyps(2) by simp
      show "drop 512 ptr = sects (\<lambda>i. slice (i * 512) 512 (img (child c1))) (b + Suc k) (j - Suc k)"
        using ptr len c1(2) by simp
    qed (use Suc.prems c1 k in auto)
    moreover have "fill_run c b k j ptr = fill_run c1 b (Suc k) j (drop 512 ptr)"
      using k n c1(1) by (subst fill_run.simps) (simp add: BLKDEV_BLKSIZE_def)
    ultimately show ?thesis using c1 sect by auto
  qed
qed

subsection \<open>The write loop\<close>

text \<open>One block written to the cache: in place if it is cached, in a new block otherwise.\<close>

lemma sect_SetCache:
  assumes "cache_GetCache c n = Some b"
  shows "cache_sect img (cache_SetCache c n d) m = (if m = n then d else cache_sect img c m)"
  using SetCache_props [OF assms] by (auto simp: cache_sect_def split: option.split)

lemma sect_PutCache:
  assumes "child c' = child c"
    "\<forall>m. cache_GetCache c' m = (if m = n then Some \<lparr>blk_no = n, blk_data = d\<rparr> else cache_GetCache c m)"
  shows "cache_sect img c' m = (if m = n then d else cache_sect img c m)"
  using assms by (auto simp: cache_sect_def split: option.split)

lemma PutN_loop_unfold:
  assumes "u64 (b + i) = b + i" "chains_ok c" "512 \<le> length ptr"
  obtains (stored) c1 where "cache_PutN_loop c b i (Suc r) ptr = cache_PutN_loop c1 b (Suc i) r (drop 512 ptr)"
      "child c1 = child c" "cflags c1 = cflags c" "chains_ok c1"
      "\<And>m. cache_sect img c1 m = (if m = b + i then take 512 ptr else cache_sect img c m)"
      "heap_ok (cheap c) \<Longrightarrow> heap_ok (cheap c1)"
  | (refused) "cache_PutN_loop c b i (Suc r) ptr = Some (-1, c\<lparr>cheap := heap_next (cheap c)\<rparr>)"
      "\<not> heap_ok (cheap c)"
proof (cases "cache_GetCache c (b + i)")
  case (Some blk)
  let ?c = "cache_SetCache c (b + i) (take 512 ptr)"
  have "chains_ok ?c" using assms by (intro SetCache_chains_ok) simp_all
  then show ?thesis
    using assms SetCache_props [OF Some] sect_SetCache [OF Some]
    by (intro stored [of ?c]) (simp_all add: Some load_def slice_def BLKDEV_BLKSIZE_def)
next
  case miss: None
  show ?thesis
  proof (cases "cheap c 0")
    case None
    then show ?thesis using miss assms PutCache_refuses [OF None]
      by (intro refused) (auto simp: heap_ok_def)
  next
    case (Some x)
    from PutCache_grants [OF Some assms(3), of "b + i"] assms(2) miss obtain c1 where
      c1: "cache_PutCache c (b + i) ptr = Some (0, c1)" "child c1 = child c" "cflags c1 = cflags c"
        "cheap c1 = heap_next (cheap c)" "chains_ok c1"
        "\<forall>m. cache_GetCache c1 m = (if m = b + i then Some \<lparr>blk_no = b + i, blk_data = take 512 ptr\<rparr> else cache_GetCache c m)"
      by blast
    show ?thesis
      using assms(1) miss c1 sect_PutCache [OF c1(2,6)]
      by (intro stored [of c1]) (simp_all add: BLKDEV_BLKSIZE_def)
  qed
qed

lemma PutN_loop_spec:
  assumes "b + i + r < 2 ^ 64" "chains_ok c" "length ptr = r * 512"
  shows "\<exists>rc c'. cache_PutN_loop c b i r ptr = Some (rc, c') \<and> child c' = child c \<and> cflags c' = cflags c \<and>
    chains_ok c' \<and>
    (rc = 0 \<longrightarrow> (\<forall>m. b + i \<le> m \<and> m < b + i + r \<longrightarrow> cache_sect img c' m = slice ((m - (b + i)) * 512) 512 ptr)) \<and>
    (\<forall>m. m < b + i \<or> b + i + r \<le> m \<longrightarrow> cache_sect img c' m = cache_sect img c m) \<and>
    (heap_ok (cheap c) \<longrightarrow> rc = 0 \<and> heap_ok (cheap c'))"
  using assms
proof (induction r arbitrary: i c ptr)
  case 0
  then show ?case by auto
next
  case (Suc r)
  have "u64 (b + i) = b + i" using Suc.prems(1) by simp
  moreover note Suc.prems(2)
  moreover have "512 \<le> length ptr" using Suc.prems(3) by simp
  ultimately show ?case
  proof (cases rule: PutN_loop_unfold [where r = r and img = img])
    case (stored c1)
    have "\<exists>rc c'. cache_PutN_loop c1 b (Suc i) r (drop 512 ptr) = Some (rc, c') \<and> child c' = child c1 \<and>
      cflags c' = cflags c1 \<and> chains_ok c' \<and>
      (rc = 0 \<longrightarrow> (\<forall>m. b + Suc i \<le> m \<and> m < b + Suc i + r \<longrightarrow>
         cache_sect img c' m = slice ((m - (b + Suc i)) * 512) 512 (drop 512 ptr))) \<and>
      (\<forall>m. m < b + Suc i \<or> b + Suc i + r \<le> m \<longrightarrow> cache_sect img c' m = cache_sect img c1 m) \<and>
      (heap_ok (cheap c1) \<longrightarrow> rc = 0 \<and> heap_ok (cheap c'))"
      by (rule Suc.IH) (use Suc.prems stored(4) in simp_all)
    then obtain rc c' where c': "cache_PutN_loop c1 b (Suc i) r (drop 512 ptr) = Some (rc, c')"
      "child c' = child c1" "cflags c' = cflags c1" "chains_ok c'"
      "rc = 0 \<longrightarrow> (\<forall>m. b + Suc i \<le> m \<and> m < b + Suc i + r \<longrightarrow>
         cache_sect img c' m = slice ((m - (b + Suc i)) * 512) 512 (drop 512 ptr))"
      "\<forall>m. m < b + Suc i \<or> b + Suc i + r \<le> m \<longrightarrow> cache_sect img c' m = cache_sect img c1 m"
      "heap_ok (cheap c1) \<longrightarrow> rc = 0 \<and> heap_ok (cheap c')" by blast
    have "cache_sect img c' m = slice ((m - (b + i)) * 512) 512 ptr"
      if "rc = 0" and m: "b + i \<le> m" "m < b + i + Suc r" for m
    proof (cases "m = b + i")
      case True
      then show ?thesis using c'(6) stored(5) by (simp add: slice_def)
    next
      case False
      with m have "(m - (b + Suc i)) * 512 + 512 = (m - (b + i)) * 512" by (simp add: algebra_simps)
      then have "slice ((m - (b + Suc i)) * 512) 512 (drop 512 ptr) = slice ((m - (b + i)) * 512) 512 ptr"
        by (simp add: slice_def)
      with False that c'(5) show ?thesis by simp
    qed
    with stored c' show ?thesis by auto
  next
    case refused
    then show ?thesis using Suc.prems(2) cache_sect_cong [of "c\<lparr>cheap := heap_next (cheap c)\<rparr>" c img]
      by (auto simp: chains_ok_def)
  qed
qed

subsection \<open>The cache over any block device\<close>

text \<open>
  What every read leaves as it was, whatever its return code, and that it succeeds when
  the child is ready and no allocation fails.
\<close>

definition cache_keeps ::
  "('s \<Rightarrow> bool) \<Rightarrow> ('s \<Rightarrow> bool) \<Rightarrow> ('s \<Rightarrow> bytes) \<Rightarrow> 's cache_dev \<Rightarrow> int \<Rightarrow> 's cache_dev \<Rightarrow> bool" where
  "cache_keeps dinv ready img c rc c' \<longleftrightarrow>
     cache_inv dinv c' \<and> img (child c') = img (child c) \<and> cache_sect img c' = cache_sect img c \<and>
     (cache_ready ready c \<longrightarrow> rc = 0 \<and> cache_ready ready c')"

lemma cache_keeps_trans:
  "cache_keeps dinv ready img c 0 c' \<Longrightarrow> cache_keeps dinv ready img c' rc c'' \<Longrightarrow> cache_keeps dinv ready img c rc c''"
  by (simp add: cache_keeps_def)

locale cached_blkdev = child: blkdev_image D dinv ready img
  for D :: "'s blkdev" and dinv ready img
begin

lemma child_read:
  assumes inv: "cache_inv dinv c" and range: "(b + n) * 512 \<le> length (img (child c))"
    and ij: "i < j" "j \<le> n" and miss: "\<forall>k. i \<le> k \<and> k < j \<longrightarrow> cache_GetCache c (b + k) = None"
  shows "\<exists>rc d s. GetN D (child c) (b + i) (j - i) = Some (rc, d, s) \<and>
    cache_keeps dinv ready img c rc (c\<lparr>child := s\<rparr>) \<and>
    (rc = 0 \<longrightarrow> d = sects (\<lambda>i. slice (i * 512) 512 (img (child c))) (b + i) (j - i))"
proof -
  let ?f = "\<lambda>i. slice (i * 512) 512 (img (child c))"
  have dinv: "dinv (child c)" using inv by (simp add: cache_inv_def)
  have bj: "(b + i + (j - i)) * 512 \<le> length (img (child c))" using range ij by simp
  from child.GetN_image [OF dinv bj] obtain rc d s where
    s: "GetN D (child c) (b + i) (j - i) = Some (rc, d, s)" "dinv s" "img s = img (child c)"
      "rc = 0 \<longrightarrow> d = slice ((b + i) * 512) ((j - i) * 512) (img (child c))"
      "ready (child c) \<longrightarrow> rc = 0 \<and> ready s" by blast
  have whole: "img (child c) = sects ?f 0 (length (img (child c)) div 512)"
    by (rule image_sects [OF child.image_aligned [OF dinv]])
  have "slice ((b + i) * 512) ((j - i) * 512) (img (child c)) = sects ?f (b + i) (j - i)"
    by (subst whole, rule slice_sects) (use bj in auto)
  moreover have "cache_inv dinv (c\<lparr>child := s\<rparr>)"
    using inv s(2) by (simp add: cache_inv_def chains_ok_def)
  moreover have "cache_sect img (c\<lparr>child := s\<rparr>) = cache_sect img c"
    using s(3) by (intro cache_sect_cong) simp_all
  ultimately show ?thesis using s by (auto simp: cache_keeps_def cache_ready_def)
qed

lemma fetch_spec:
  assumes inv: "cache_inv dinv c" and range: "(b + n) * 512 \<le> length (img (child c))"
    and ij: "i < j" "j \<le> n" and miss: "\<forall>k. i \<le> k \<and> k < j \<longrightarrow> cache_GetCache c (b + k) = None"
  shows "\<exists>rc d c'. cache_fetch D c b i j = Some (rc, d, c') \<and> cache_keeps dinv ready img c rc c' \<and>
    (rc = 0 \<longrightarrow> d = sects (cache_sect img c) (b + i) (j - i))"
proof -
  let ?f = "\<lambda>i. slice (i * 512) 512 (img (child c))"
  have ok: "chains_ok c" and bound: "b + n < 2 ^ 64"
    using inv range child.image_bound [of "child c"] by (auto simp: cache_inv_def)
  then have bj: "b + j < 2 ^ 64" "u64 (b + i) = b + i" using ij by auto
  have fs: "sects ?f (b + i) (j - i) = sects (cache_sect img c) (b + i) (j - i)"
  proof (rule sects_cong)
    fix m assume "b + i \<le> m" "m < b + i + (j - i)"
    then have "i \<le> m - b" "m - b < j" "b + (m - b) = m" using ij by auto
    with miss have "cache_GetCache c m = None" by metis
    then show "?f m = cache_sect img c m" by (simp add: cache_sect_def)
  qed
  from child_read [OF assms] obtain rc d s where
    s: "GetN D (child c) (b + i) (j - i) = Some (rc, d, s)"
      "cache_keeps dinv ready img c rc (c\<lparr>child := s\<rparr>)" "rc = 0 \<longrightarrow> d = sects ?f (b + i) (j - i)"
    by blast
  let ?c1 = "c\<lparr>child := s\<rparr>"
  have img: "img s = img (child c)" using s(2) by (simp add: cache_keeps_def)
  consider "rc \<noteq> 0" | "rc = 0" "cflags c AND BLKDEV_ENABLE_CACHING = 0"
    | "rc = 0" "cflags c AND BLKDEV_ENABLE_CACHING \<noteq> 0" by blast
  then show ?thesis
  proof cases
    case 3
    have "\<exists>rc2 c2. fill_run ?c1 b i j d = Some (rc2, c2) \<and> child c2 = child ?c1 \<and>
      cflags c2 = cflags ?c1 \<and> chains_ok c2 \<and> cache_sect img c2 = cache_sect img ?c1 \<and>
      (heap_ok (cheap ?c1) \<longrightarrow> rc2 = 0 \<and> heap_ok (cheap c2))"
    proof (rule fill_run_spec)
      show "chains_ok ?c1" using ok by (simp add: chains_ok_def)
      show "\<forall>m. i \<le> m \<and> m < j \<longrightarrow> cache_GetCache ?c1 (b + m) = None"
        using miss GetCache_cong [of ?c1 c] by simp
      show "d = sects (\<lambda>i. slice (i * 512) 512 (img (child ?c1))) (b + i) (j - i)"
        using s(3) 3(1) img by simp
      show "(b + j) * 512 \<le> length (img (child ?c1))" using range ij img by simp
    qed (use ij bj in simp_all)
    then obtain rc2 c2 where c2: "fill_run ?c1 b i j d = Some (rc2, c2)" "child c2 = s"
      "cflags c2 = cflags c" "chains_ok c2" "cache_sect img c2 = cache_sect img ?c1"
      "heap_ok (cheap c) \<longrightarrow> rc2 = 0 \<and> heap_ok (cheap c2)" by auto
    have "cflags c = 1" using inv 3(2) by (auto simp: cache_inv_def)
    then have "cache_keeps dinv ready img c (if rc2 = 0 then 0 else -1) c2"
      using s(2) c2 by (auto simp: cache_keeps_def cache_inv_def cache_ready_def)
    with 3 s(1,3) c2(1) bj fs show ?thesis by (auto simp: cache_fetch_def Let_def)
  qed (use s bj fs in \<open>auto simp: cache_fetch_def Let_def cache_keeps_def\<close>)
qed

lemma GetN_loop_spec:
  assumes "cache_inv dinv c" "(b + n) * 512 \<le> length (img (child c))" "i \<le> n"
    "acc = sects (cache_sect img c) b i"
  shows "\<exists>rc d c'. cache_GetN_loop D c b n i acc = Some (rc, d, c') \<and>
    cache_keeps dinv ready img c rc c' \<and> (rc = 0 \<longrightarrow> d = sects (cache_sect img c) b n)"
  using assms
proof (induction "n - i" arbitrary: i c acc rule: less_induct)
  case less
  show ?case
  proof (cases "i < n")
    case False
    with less.prems show ?thesis by (subst cache_GetN_loop.simps) (auto simp: cache_keeps_def)
  next
    case True
    have bn: "b + n < 2 ^ 64"
      using less.prems(1,2) child.image_bound [of "child c"] by (auto simp: cache_inv_def)
    let ?r = "cached_run c b n i"
    let ?j = "uncached_run c b n (fst ?r)" and ?acc1 = "acc @ snd ?r"
    note run = cached_run_spec [OF bn less.prems(3), of c img] cached_run_le [of i c b n]
    then have i1: "i \<le> fst ?r" "fst ?r \<le> n" by auto
    from uncached_run_spec [OF bn i1(2), of c]
    have j: "?j \<le> n" "\<forall>k. fst ?r \<le> k \<and> k < ?j \<longrightarrow> cache_GetCache c (b + k) = None" by auto
    have ij: "i < ?j" by (rule run_progress [OF True])
    have acc1: "?acc1 = sects (cache_sect img c) b (fst ?r)"
      using run less.prems(4) sects_add [of "cache_sect img c" b i "fst ?r - i"] i1 by simp
    show ?thesis
    proof (cases "?j = fst ?r")
      case eq: True
      then have "cache_GetN_loop D c b n i acc = cache_GetN_loop D c b n (fst ?r) ?acc1"
        using True by (subst cache_GetN_loop.simps) (simp add: Let_def)
      then show ?thesis
        using less.hyps [OF _ less.prems(1,2) i1(2) acc1] ij eq True by simp
    next
      case False
      with uncached_run_le [of "fst ?r" c b n] have lt: "fst ?r < ?j" by simp
      from fetch_spec [OF less.prems(1,2) lt j] obtain rc d c1 where
        c1: "cache_fetch D c b (fst ?r) ?j = Some (rc, d, c1)" "cache_keeps dinv ready img c rc c1"
          "rc = 0 \<longrightarrow> d = sects (cache_sect img c) (b + fst ?r) (?j - fst ?r)" by blast
      have loop: "cache_GetN_loop D c b n i acc =
        (if rc \<noteq> 0 then Some (-1, [], c1) else cache_GetN_loop D c1 b n ?j (?acc1 @ d))"
        using True False c1(1) by (subst cache_GetN_loop.simps) (simp add: Let_def)
      show ?thesis
      proof (cases "rc = 0")
        case False
        with loop c1(2) show ?thesis by (auto simp: cache_keeps_def)
      next
        case rc: True
        have sect: "cache_sect img c1 = cache_sect img c" "cache_inv dinv c1" "img (child c1) = img (child c)"
          using c1(2) by (simp_all add: cache_keeps_def)
        have "?acc1 @ d = sects (cache_sect img c1) b ?j"
          using acc1 c1(3) rc sect sects_add [of "cache_sect img c" b "fst ?r" "?j - fst ?r"] lt by simp
        then have "\<exists>rc d' c'. cache_GetN_loop D c1 b n ?j (?acc1 @ d) = Some (rc, d', c') \<and>
          cache_keeps dinv ready img c1 rc c' \<and> (rc = 0 \<longrightarrow> d' = sects (cache_sect img c1) b n)"
          using less.hyps [of ?j c1 "?acc1 @ d"] sect ij True j(1) less.prems(2) by simp
        with loop rc c1(2) sect show ?thesis by (auto intro: cache_keeps_trans)
      qed
    qed
  qed
qed

lemma PutN_spec:
  assumes inv: "cache_inv dinv c" and range: "(b + n) * 512 \<le> length (img (child c))"
    and d: "length d = n * 512"
  shows "\<exists>rc c'. cache_PutN D c b n d = Some (rc, c') \<and> cache_inv dinv c' \<and>
    length (img (child c')) = length (img (child c)) \<and>
    (rc = 0 \<longrightarrow> (\<forall>m. b \<le> m \<and> m < b + n \<longrightarrow> cache_sect img c' m = slice ((m - b) * 512) 512 d)) \<and>
    (\<forall>m. m < b \<or> b + n \<le> m \<longrightarrow> cache_sect img c' m = cache_sect img c m) \<and>
    (cache_ready ready c \<longrightarrow> rc = 0 \<and> cache_ready ready c')"
proof (cases "cflags c = 1")
  case True
  have "b + 0 + n < 2 ^ 64"
    using inv range child.image_bound [of "child c"] by (auto simp: cache_inv_def)
  moreover have "chains_ok c" using inv by (simp add: cache_inv_def)
  moreover have "cache_PutN D c b n d = cache_PutN_loop c b 0 n d"
    using True by (simp add: cache_PutN_def BLKDEV_ENABLE_CACHING_def)
  ultimately show ?thesis
    using PutN_loop_spec [of b 0 n c d img] d inv True by (auto simp: cache_inv_def cache_ready_def)
next
  case False
  then have off: "cflags c = 0" "\<And>slot. chains c slot = []" and dinv: "dinv (child c)"
    using inv by (auto simp: cache_inv_def)
  from child.PutN_image [OF dinv range d] obtain rc s where
    s: "PutN D (child c) b n d = Some (rc, s)" "dinv s" "length (img s) = length (img (child c))"
      "rc = 0 \<longrightarrow> img s = overwrite (b * 512) d (img (child c))"
      "take (b * 512) (img s) = take (b * 512) (img (child c))"
      "drop ((b + n) * 512) (img s) = drop ((b + n) * 512) (img (child c))"
      "ready (child c) \<longrightarrow> rc = 0 \<and> ready s" by blast
  let ?c = "c\<lparr>child := s\<rparr>"
  have sect: "cache_sect img ?c m = slice (m * 512) 512 (img s)"
    "cache_sect img c m = slice (m * 512) 512 (img (child c))" for m
    using off(2) by (simp_all add: cache_sect_def cache_GetCache_def)
  have fits: "b * 512 + length d \<le> length (img (child c))" using range d by simp
  have inside: "slice (m * 512) 512 (img s) = slice ((m - b) * 512) 512 d"
    if "rc = 0" "b \<le> m" "m < b + n" for m
    using that s(4) slice_overwrite_inside [OF fits, of "m * 512" 512] d by (simp add: diff_mult_distrib)
  have outside: "slice (m * 512) 512 (img s) = slice (m * 512) 512 (img (child c))"
    if "m < b \<or> b + n \<le> m" for m
    using that
  proof
    assume "m < b"
    then have "m * 512 + 512 \<le> b * 512" by simp
    then show ?thesis using s(5) by (metis slice_take)
  next
    assume "b + n \<le> m"
    then obtain k where "m * 512 = (b + n) * 512 + k" by (metis mult_le_mono1 nat_le_iff_add)
    then have e: "slice (m * 512) 512 x = take 512 (drop k (drop ((b + n) * 512) x))" for x :: bytes
      by (simp add: slice_def add.commute)
    show ?thesis unfolding e s(6) ..
  qed
  have "cache_PutN D c b n d = Some (if rc \<noteq> 0 then -1 else 0, ?c)"
    using off s(1) by (simp add: cache_PutN_def)
  moreover have "cache_inv dinv ?c" using inv s(2) by (simp add: cache_inv_def chains_ok_def)
  ultimately show ?thesis
    using s(3,7) inside outside by (auto simp: sect cache_ready_def)
qed

end

sublocale cached_blkdev \<subseteq> cache: blkdev_image "cache_ops D" "cache_inv dinv" "cache_ready ready" "cache_image img"
proof
  fix c :: "'s cache_dev"
  assume inv: "cache_inv dinv c"
  then have ok: "chains_ok c" and dinv: "dinv (child c)" by (auto simp: cache_inv_def)
  have len: "length (cache_image img c) = length (img (child c))"
    using length_cache_image [OF ok, of img] child.image_aligned [OF dinv] by simp
  show "512 dvd length (cache_image img c)" using len child.image_aligned [OF dinv] by simp
  show "length (cache_image img c) < 2 ^ 64" using len child.image_bound [OF dinv] by simp
  fix b n
  assume "(b + n) * 512 \<le> length (cache_image img c)"
  then have range: "(b + n) * 512 \<le> length (img (child c))" by (simp add: len)
  then have bn: "b + n \<le> length (img (child c)) div 512" by simp
  show "\<exists>rc d c'. GetN (cache_ops D) c b n = Some (rc, d, c') \<and> cache_inv dinv c' \<and>
      cache_image img c' = cache_image img c \<and>
      (rc = 0 \<longrightarrow> d = slice (b * 512) (n * 512) (cache_image img c)) \<and>
      (cache_ready ready c \<longrightarrow> rc = 0 \<and> cache_ready ready c')"
  proof -
    from GetN_loop_spec [OF inv range, of 0 "[]"] obtain rc d c' where
      c': "cache_GetN D c b n = Some (rc, d, c')" "cache_keeps dinv ready img c rc c'"
        "rc = 0 \<longrightarrow> d = sects (cache_sect img c) b n" by (auto simp: cache_GetN_def)
    then have "cache_image img c' = cache_image img c"
      by (intro cache_image_cong) (simp_all add: cache_keeps_def)
    with c' slice_cache_image [where img = img, OF ok bn] show ?thesis by (auto simp: cache_keeps_def)
  qed
  fix d :: bytes
  assume d: "length d = n * 512"
  show "\<exists>rc c'. PutN (cache_ops D) c b n d = Some (rc, c') \<and> cache_inv dinv c' \<and>
      length (cache_image img c') = length (cache_image img c) \<and>
      (rc = 0 \<longrightarrow> cache_image img c' = overwrite (b * 512) d (cache_image img c)) \<and>
      take (b * 512) (cache_image img c') = take (b * 512) (cache_image img c) \<and>
      drop ((b + n) * 512) (cache_image img c') = drop ((b + n) * 512) (cache_image img c) \<and>
      (cache_ready ready c \<longrightarrow> rc = 0 \<and> cache_ready ready c')"
  proof -
    from PutN_spec [OF inv range d] obtain rc c' where
      c': "cache_PutN D c b n d = Some (rc, c')" "cache_inv dinv c'"
        "length (img (child c')) = length (img (child c))"
        "rc = 0 \<longrightarrow> (\<forall>m. b \<le> m \<and> m < b + n \<longrightarrow> cache_sect img c' m = slice ((m - b) * 512) 512 d)"
        "\<forall>m. m < b \<or> b + n \<le> m \<longrightarrow> cache_sect img c' m = cache_sect img c m"
        "cache_ready ready c \<longrightarrow> rc = 0 \<and> cache_ready ready c'" by blast
    let ?N = "length (img (child c)) div 512"
    have ok': "chains_ok c'" using c'(2) by (simp add: cache_inv_def)
    have img': "cache_image img c' = sects (cache_sect img c') 0 ?N" using c'(3) by (simp add: cache_image_def)
    have img0: "cache_image img c = sects (cache_sect img c) 0 ?N" by (simp add: cache_image_def)
    have l: "length (cache_sect img c i) = 512" "length (cache_sect img c' i) = 512" if "i < ?N" for i
      using that ok ok' c'(3) by (simp_all add: cache_sect_length)
    have "rc = 0 \<Longrightarrow> cache_image img c' = overwrite (b * 512) d (cache_image img c)"
      unfolding img' img0
      by (rule sects_update [where n = n, OF l(1) bn _ _ d]) (use c'(4,5) in auto)
    moreover have "take (b * 512) (cache_image img c') = take (b * 512) (cache_image img c)"
      "drop ((b + n) * 512) (cache_image img c') = drop ((b + n) * 512) (cache_image img c)"
      unfolding img' img0 using bn c'(5)
      by (simp_all only: take_drop_sects [OF l(1)] take_drop_sects [OF l(2)] add_leD1)
        (rule sects_cong, simp)+
    moreover have "length (cache_image img c') = length (cache_image img c)"
      using c'(3) length_cache_image [OF ok, of img] length_cache_image [OF ok', of img] by simp
    ultimately show ?thesis using c'(1,2,6) by auto
  qed
qed

section \<open>Claims\<close>

text \<open>
  C38: With caching disabled after blocks were cached, a write of a cached block goes to the disk only,
  and the next read of that block still returns the cached, now stale, contents.
\<close>

theorem cache_stale_after_disable:
  assumes "cflags dev AND BLKDEV_ENABLE_CACHING = 0" "cache_GetCache dev b = Some blk" "b < 2 ^ 64"
    and "PutN D (child dev) b 1 d = Some (0, disk')"
  shows "cache_PutN D dev b 1 d = Some (0, dev\<lparr>child := disk'\<rparr>) \<and>
    cache_GetN D (dev\<lparr>child := disk'\<rparr>) b 1 = Some (0, blk_data blk, dev\<lparr>child := disk'\<rparr>)"
proof -
  let ?dev = "dev\<lparr>child := disk'\<rparr>"
  have g: "cache_GetCache ?dev b = Some blk" using GetCache_cong [of ?dev dev] assms(2) by simp
  have r1: "cached_run ?dev b 1 1 = (1, [])" by (subst cached_run.simps) simp
  have r: "cached_run ?dev b 1 0 = (1, blk_data blk)"
    using g assms(3) r1 by (subst cached_run.simps) (simp add: Let_def)
  have u: "uncached_run ?dev b 1 1 = 1" by (subst uncached_run.simps) simp
  have "cache_GetN_loop D ?dev b 1 1 acc = Some (0, acc, ?dev)" for acc by (subst cache_GetN_loop.simps) simp
  then have "cache_GetN D ?dev b 1 = Some (0, blk_data blk, ?dev)"
    unfolding cache_GetN_def by (subst cache_GetN_loop.simps) (simp add: Let_def r [simplified] u [simplified])
  with assms(1,4) show ?thesis by (simp add: cache_PutN_def)
qed

theorem cache_stale_after_disable_witness:
  "\<exists>dev dev'. cache_PutN \<lparr>Close = (\<lambda>s. Some (0, s)), GetN = (\<lambda>s b n. Some (0, s, s)), PutN = (\<lambda>s b n d. Some (0, d)), SetFlags = (\<lambda>s f. Some (0, s))\<rparr>
      dev 0 1 [2] = Some (0, dev') \<and>
    cache_GetN \<lparr>Close = (\<lambda>s. Some (0, s)), GetN = (\<lambda>s b n. Some (0, s, s)), PutN = (\<lambda>s b n d. Some (0, d)), SetFlags = (\<lambda>s f. Some (0, s))\<rparr>
      dev' 0 1 = Some (0, [1], dev')"
  using cache_stale_after_disable [of
      "\<lparr>child = [], chains = (\<lambda>_. [\<lparr>blk_no = 0, blk_data = [1]\<rparr>]), cflags = 0, cheap = (\<lambda>_. Some 0)\<rparr>" 0 "\<lparr>blk_no = 0, blk_data = [1]\<rparr>"
      "\<lparr>Close = (\<lambda>s. Some (0, s)), GetN = (\<lambda>s b n. Some (0, s, s)), PutN = (\<lambda>s b n d. Some (0, d)), SetFlags = (\<lambda>s f. Some (0, s))\<rparr>" "[2]" "[2]"]
  by (auto simp: cache_GetCache_def)

end
