(* ===== verification/CString.thy ===== *)
theory CString
  imports Prelude "HOL-Library.Monad_Syntax"
begin

text \<open>
  Character classes (\<open>posix/include/ctype.h\<close>) and C strings (\<open>posix/string.c\<close>,
  \<open>lsvmutils/strings.c\<close>, \<open>lsvmutils/strlcpy.h\<close>, \<open>lsvmutils/strlcat.h\<close>).

  A pointer to a string is the memory from that pointer to the end of its object, so the
  string is what precedes the first zero; a function that runs off the object has no
  defined result (\<open>None\<close>). A returned pointer into the argument is its offset, and a null
  result is the inner \<open>None\<close>. Characters are words of any length: the templates
  \<open>strlcpy.h\<close> and \<open>strlcat.h\<close> are instantiated for \<open>char\<close> and \<open>CHAR16\<close>.
\<close>

subsection \<open>Character classes\<close>

definition chr :: "char \<Rightarrow> 'a::len word" where
  "chr c = of_nat (of_char c)"

definition posix_toupper :: "byte \<Rightarrow> byte" where
  "posix_toupper c = (if c \<ge> chr CHR ''a'' \<and> c \<le> chr CHR ''z'' then c - chr CHR '' '' else c)"

definition posix_tolower :: "byte \<Rightarrow> byte" where
  "posix_tolower c = (if c \<ge> chr CHR ''A'' \<and> c \<le> chr CHR ''Z'' then c + chr CHR '' '' else c)"

definition posix_isalpha :: "byte \<Rightarrow> bool" where
  "posix_isalpha c \<longleftrightarrow>
     (if c \<ge> chr CHR ''a'' \<and> c \<le> chr CHR ''z'' then True
      else if c \<ge> chr CHR ''A'' \<and> c \<le> chr CHR ''Z'' then True else False)"

definition posix_isdigit :: "byte \<Rightarrow> bool" where
  "posix_isdigit c \<longleftrightarrow> c \<ge> chr CHR ''0'' \<and> c \<le> chr CHR ''9''"

definition posix_isalnum :: "byte \<Rightarrow> bool" where
  "posix_isalnum c \<longleftrightarrow> posix_isalpha c \<or> posix_isdigit c"

definition posix_isxdigit :: "byte \<Rightarrow> bool" where
  "posix_isxdigit c \<longleftrightarrow>
     (if posix_isdigit c then True
      else if c \<ge> chr CHR ''a'' \<and> c \<le> chr CHR ''f'' then True
      else if c \<ge> chr CHR ''A'' \<and> c \<le> chr CHR ''F'' then True else False)"

text \<open>The six white-space characters: space, \<open>\f\<close>, \<open>\n\<close>, \<open>\r\<close>, \<open>\t\<close>, \<open>\v\<close>.\<close>

definition posix_isspace :: "byte \<Rightarrow> bool" where
  "posix_isspace c \<longleftrightarrow> c \<in> {32, 12, 10, 13, 9, 11}"

subsection \<open>Reading strings\<close>

fun posix_strlen :: "'a::len word list \<Rightarrow> nat option" where
  "posix_strlen [] = None"
| "posix_strlen (c # s) = (if c = 0 then Some 0 else map_option Suc (posix_strlen s))"

text \<open>The string in front of the terminator.\<close>

definition cstr :: "'a::len word list \<Rightarrow> 'a word list" where
  "cstr s = takeWhile (\<lambda>c. c \<noteq> 0) s"

fun posix_strcmp :: "bytes \<Rightarrow> bytes \<Rightarrow> int option" where
  "posix_strcmp (a # s1) (b # s2) =
     (if a = 0 \<or> b = 0 \<or> a \<noteq> b then Some (uint a - uint b) else posix_strcmp s1 s2)"
| "posix_strcmp _ _ = None"

fun posix_strchr :: "bytes \<Rightarrow> byte \<Rightarrow> nat option option" where
  "posix_strchr [] c = None"
| "posix_strchr (p # s) c =
     (if p = 0 then Some None
      else if p = c then Some (Some 0)
      else map_option (map_option Suc) (posix_strchr s c))"

text \<open>The loop of \<open>posix_strrchr\<close> runs \<open>p\<close> down from the terminator.\<close>

fun strrchr_loop :: "bytes \<Rightarrow> byte \<Rightarrow> nat \<Rightarrow> nat option" where
  "strrchr_loop s c 0 = None"
| "strrchr_loop s c (Suc p) = (if s ! p = c then Some p else strrchr_loop s c p)"

definition posix_strrchr :: "bytes \<Rightarrow> byte \<Rightarrow> nat option option" where
  "posix_strrchr s c = do { n \<leftarrow> posix_strlen s; Some (strrchr_loop s c n) }"

text \<open>\<open>Memstr\<close> and \<open>posix_strstr\<close>: the first offset at which the needle matches.\<close>

definition memeq_at :: "'a list \<Rightarrow> 'a list \<Rightarrow> nat \<Rightarrow> bool" where
  "memeq_at hay needle i \<longleftrightarrow> slice i (length needle) hay = needle"

function Memstr_loop :: "'a list \<Rightarrow> 'a list \<Rightarrow> nat \<Rightarrow> nat option" where
  "Memstr_loop hay needle i =
     (if i \<le> length hay - length needle then
        (if memeq_at hay needle i then Some i else Memstr_loop hay needle (Suc i))
      else None)"
  by pat_completeness auto
termination
  by (relation "measure (\<lambda>(hay, needle, i). Suc (length hay) - i)") auto

declare Memstr_loop.simps [simp del]

definition Memstr :: "bytes \<Rightarrow> bytes \<Rightarrow> nat option" where
  "Memstr haystack needle =
     (if length needle \<le> length haystack then Memstr_loop haystack needle 0 else None)"

definition posix_strstr :: "bytes \<Rightarrow> bytes \<Rightarrow> nat option option" where
  "posix_strstr src pat =
     do {
       n \<leftarrow> posix_strlen src;
       m \<leftarrow> posix_strlen pat;
       if m > n then Some None else Some (Memstr_loop (take n src) (take m pat) 0)
     }"

fun posix_memchr :: "bytes \<Rightarrow> int \<Rightarrow> nat \<Rightarrow> nat option option" where
  "posix_memchr s c 0 = Some None"
| "posix_memchr [] c (Suc n) = None"
| "posix_memchr (p # s) c (Suc n) =
     (if sint p = c then Some (Some 0) else map_option (map_option Suc) (posix_memchr s c n))"

fun strncasecmp_loop :: "bytes \<Rightarrow> bytes \<Rightarrow> nat \<Rightarrow> int option" where
  "strncasecmp_loop s1 s2 0 = Some 0"
| "strncasecmp_loop (a # s1) (b # s2) (Suc n) =
     (if a \<noteq> 0 \<and> b \<noteq> 0 \<and> posix_toupper a = posix_toupper b then strncasecmp_loop s1 s2 n
      else if a = 0 then Some (-1)
      else if b = 0 then Some 1
      else Some (sint (posix_toupper a) - sint (posix_toupper b)))"
| "strncasecmp_loop _ _ (Suc n) = None"

definition posix_strncasecmp :: "bytes \<Rightarrow> bytes \<Rightarrow> nat \<Rightarrow> int option" where
  "posix_strncasecmp s1 s2 n = strncasecmp_loop s1 s2 n"

fun posix_strcasecmp :: "bytes \<Rightarrow> bytes \<Rightarrow> int option" where
  "posix_strcasecmp (a # s1) (b # s2) =
     (if a \<noteq> 0 \<and> b \<noteq> 0 \<and> posix_toupper a = posix_toupper b then posix_strcasecmp s1 s2
      else if a \<noteq> 0 then Some 1
      else if b \<noteq> 0 then Some (-1)
      else Some 0)"
| "posix_strcasecmp _ _ = None"

subsection \<open>Writing strings\<close>

text \<open>\<open>posix_strcpy\<close>: the loop from offset \<open>p\<close> of the destination.\<close>

fun strcpy_loop :: "'a::len word list \<Rightarrow> nat \<Rightarrow> 'a word list \<Rightarrow> 'a word list option" where
  "strcpy_loop dest p [] = None"
| "strcpy_loop dest p (c # src) =
     (if c \<noteq> 0 then do { dest' \<leftarrow> store p [c] dest; strcpy_loop dest' (Suc p) src }
      else store p [0] dest)"

definition posix_strcpy :: "bytes \<Rightarrow> bytes \<Rightarrow> bytes option" where
  "posix_strcpy dest src = strcpy_loop dest 0 src"

definition posix_strcat :: "bytes \<Rightarrow> bytes \<Rightarrow> bytes option" where
  "posix_strcat dest str = do { n \<leftarrow> posix_strlen dest; strcpy_loop dest n str }"

fun strncpy_loop :: "bytes \<Rightarrow> nat \<Rightarrow> bytes \<Rightarrow> nat \<Rightarrow> bytes option" where
  "strncpy_loop dest p src 0 = store p [0] dest"
| "strncpy_loop dest p [] (Suc n) = None"
| "strncpy_loop dest p (c # src) (Suc n) =
     (if c \<noteq> 0 then do { dest' \<leftarrow> store p [c] dest; strncpy_loop dest' (Suc p) src n }
      else store p [0] dest)"

definition posix_strncpy :: "bytes \<Rightarrow> bytes \<Rightarrow> nat \<Rightarrow> bytes option" where
  "posix_strncpy dest src n = strncpy_loop dest 0 src n"

text \<open>
  \<open>posix_memmove\<close> inside one object: \<open>dest\<close> and \<open>src\<close> are offsets. Towards lower addresses it
  is one \<open>posix_memcpy\<close> (in the EFI build \<open>CopyMem\<close>, which allows the ranges to overlap);
  towards higher addresses it copies backwards byte by byte.
\<close>

fun memmove_back :: "bytes \<Rightarrow> nat \<Rightarrow> nat \<Rightarrow> nat \<Rightarrow> bytes option" where
  "memmove_back mem dest src 0 = Some mem"
| "memmove_back mem dest src (Suc n) =
     do {
       c \<leftarrow> load (src + n) 1 mem;
       mem' \<leftarrow> store (dest + n) c mem;
       memmove_back mem' dest src n
     }"

definition posix_memmove :: "bytes \<Rightarrow> nat \<Rightarrow> nat \<Rightarrow> nat \<Rightarrow> bytes option" where
  "posix_memmove mem dest src n =
     (if dest \<noteq> src \<and> n > 0 then
        (if dest \<le> src then do { d \<leftarrow> load src n mem; store dest d mem }
         else memmove_back mem dest src n)
      else Some mem)"

text \<open>The copy loop of \<open>strlcpy.h\<close> and \<open>strlcat.h\<close>: the destination, the offset reached, the rest of the source.\<close>

fun strl_copy ::
  "'d::len word list \<Rightarrow> nat \<Rightarrow> nat \<Rightarrow> 's::len word list \<Rightarrow> ('d word list \<times> nat \<times> 's word list) option" where
  "strl_copy dest i e [] = None"
| "strl_copy dest i e (c # src) =
     (if c \<noteq> 0 \<and> i \<noteq> e then
        do { dest' \<leftarrow> store i [scast c] dest; strl_copy dest' (Suc i) e src }
      else Some (dest, i, c # src))"

definition Strlcpy :: "'d::len word list \<Rightarrow> 's::len word list \<Rightarrow> nat \<Rightarrow> (nat \<times> 'd word list) option" where
  "Strlcpy dest src sz =
     do {
       (dest', rest) \<leftarrow>
         (if sz \<noteq> 0 then
            do {
              (d, i, rest) \<leftarrow> strl_copy dest 0 (sz - 1) src;
              d' \<leftarrow> store i [0] d;
              Some (d', rest)
            }
          else Some (dest, src));
       n \<leftarrow> posix_strlen rest;
       Some (length src - length rest + n, dest')
     }"

text \<open>The first loop of \<open>strlcat.h\<close> skips the string already in the destination.\<close>

fun strlcat_skip :: "'d::len word list \<Rightarrow> nat \<Rightarrow> nat \<Rightarrow> nat option" where
  "strlcat_skip [] i e = None"
| "strlcat_skip (c # dest) i e = (if c \<noteq> 0 \<and> i \<noteq> e then strlcat_skip dest (Suc i) e else Some i)"

definition Strlcat :: "'d::len word list \<Rightarrow> 's::len word list \<Rightarrow> nat \<Rightarrow> (nat \<times> 'd word list) option" where
  "Strlcat dest src sz =
     do {
       (dest', rest) \<leftarrow>
         (if sz \<noteq> 0 then
            do {
              i0 \<leftarrow> strlcat_skip dest 0 (sz - 1);
              (d, i, rest) \<leftarrow> strl_copy dest i0 (sz - 1) src;
              d' \<leftarrow> store i [0] d;
              Some (d', rest)
            }
          else Some (dest, src));
       n \<leftarrow> posix_strlen rest;
       Some (length src - length rest + n, dest')
     }"

text \<open>\<open>Strncat\<close> (the Linux and EFI build): its copy loop and its termination of the buffer.\<close>

function Strncat_loop :: "bytes \<Rightarrow> nat \<Rightarrow> nat \<Rightarrow> bytes \<Rightarrow> nat \<Rightarrow> nat \<Rightarrow> (bytes \<times> nat) option" where
  "Strncat_loop dest n destSize src len i =
     (if i < len \<and> n + i < destSize then
        do {
          c \<leftarrow> load i 1 src;
          dest' \<leftarrow> store (n + i) c dest;
          Strncat_loop dest' n destSize src len (Suc i)
        }
      else Some (dest, i))"
  by pat_completeness auto
termination
  by (relation "measure (\<lambda>(dest, n, destSize, src, len, i). len - i)") auto

declare Strncat_loop.simps [simp del]

definition Strncat :: "bytes \<Rightarrow> nat \<Rightarrow> bytes \<Rightarrow> nat \<Rightarrow> bytes option" where
  "Strncat dest destSize src len =
     do {
       n \<leftarrow> posix_strlen dest;
       (d, i) \<leftarrow> Strncat_loop dest n destSize src len 0;
       if n + i < destSize then store (n + i) [0] d
       else if destSize > 0 then store (destSize - 1) [0] d
       else Some d
     }"

fun Strtoupper :: "bytes \<Rightarrow> bytes option" where
  "Strtoupper [] = None"
| "Strtoupper (p # s) = (if p \<noteq> 0 then map_option ((#) (posix_toupper p)) (Strtoupper s) else Some (p # s))"

text \<open>\<open>Strrtrim\<close>: trailing white space is overwritten with zeros, from the end down.\<close>

fun Strrtrim_loop :: "bytes \<Rightarrow> nat \<Rightarrow> bytes" where
  "Strrtrim_loop s 0 = s"
| "Strrtrim_loop s (Suc e) = (if posix_isspace (s ! e) then Strrtrim_loop (s[e := 0]) e else s)"

definition Strrtrim :: "bytes \<Rightarrow> bytes option" where
  "Strrtrim s = do { n \<leftarrow> posix_strlen s; Some (Strrtrim_loop s n) }"

subsection \<open>Allocating copies\<close>

definition Memdup :: "heap \<Rightarrow> bytes option \<Rightarrow> nat \<Rightarrow> (bytes option \<times> heap) option" where
  "Memdup h data sz =
     (case data of
        None \<Rightarrow> Some (None, h)
      | Some d \<Rightarrow>
          if sz = 0 then Some (None, h)
          else
            (case Malloc h sz of
               (None, h') \<Rightarrow> Some (None, h')
             | (Some p, h') \<Rightarrow>
                 do { src \<leftarrow> load 0 sz d; p' \<leftarrow> store 0 src p; Some (Some p', h') }))"

definition Strdup :: "heap \<Rightarrow> bytes \<Rightarrow> (bytes option \<times> heap) option" where
  "Strdup h str =
     do {
       len \<leftarrow> posix_strlen str;
       (case Malloc h (len + 1) of
          (None, h') \<Rightarrow> Some (None, h')
        | (Some s, h') \<Rightarrow> do { s' \<leftarrow> store 0 (take len str @ [0]) s; Some (Some s', h') })
     }"

text \<open>The length loop of \<open>Strndup\<close>: the string is cut at \<open>len\<close> characters.\<close>

fun strnlen :: "bytes \<Rightarrow> nat \<Rightarrow> nat option" where
  "strnlen s 0 = Some 0"
| "strnlen [] (Suc len) = None"
| "strnlen (c # s) (Suc len) = (if c \<noteq> 0 then map_option Suc (strnlen s len) else Some 0)"

definition Strndup :: "heap \<Rightarrow> bytes \<Rightarrow> nat \<Rightarrow> (bytes option \<times> heap) option" where
  "Strndup h str len =
     do {
       n \<leftarrow> strnlen str len;
       (case Malloc h (n + 1) of
          (None, h') \<Rightarrow> Some (None, h')
        | (Some p, h') \<Rightarrow> do { p' \<leftarrow> store 0 (take n str @ [0]) p; Some (Some p', h') })
     }"

subsection \<open>Tokens\<close>

text \<open>
  \<open>Strtok str delim &save\<close> on the memory from \<open>str\<close> (or from \<open>*saveptr\<close> when \<open>str\<close> is null):
  it skips delimiters and ends the token by writing a zero after it. The result is the
  token, and the memory from which the next call continues (\<open>None\<close> for a null \<open>*saveptr\<close>).
\<close>

definition is_delim :: "bytes \<Rightarrow> byte \<Rightarrow> bool" where
  "is_delim delim c \<longleftrightarrow> c \<in> set (cstr delim)"

fun skip_delims :: "bytes \<Rightarrow> bytes \<Rightarrow> bytes option" where
  "skip_delims delim [] = None"
| "skip_delims delim (p # s) = (if p \<noteq> 0 \<and> is_delim delim p then skip_delims delim s else Some (p # s))"

fun token_end :: "bytes \<Rightarrow> bytes \<Rightarrow> (bytes \<times> bytes) option" where
  "token_end delim [] = None"
| "token_end delim (p # s) =
     (if p \<noteq> 0 \<and> \<not> is_delim delim p
      then map_option (\<lambda>(tok, rest). (p # tok, rest)) (token_end delim s)
      else Some ([], p # s))"

definition Strtok :: "bytes option \<Rightarrow> bytes \<Rightarrow> bytes option \<Rightarrow> (bytes option \<times> bytes option) option" where
  "Strtok str delim saveptr =
     (case (case str of Some s \<Rightarrow> Some s | None \<Rightarrow> saveptr) of
        None \<Rightarrow> Some (None, saveptr)
      | Some s \<Rightarrow>
          do {
            p \<leftarrow> skip_delims delim s;
            (tok, e) \<leftarrow> token_end delim p;
            if tok = [] then Some (None, saveptr)
            else if hd e \<noteq> 0 then Some (Some tok, Some (tl e))
            else Some (Some tok, None)
          })"

subsection \<open>Numbers\<close>

text \<open>
  \<open>U32tostr\<close> and \<open>U64tostr\<close> write the digits backwards from the end of a fixed buffer:
  the loop state is the number and the digits written so far (with the terminator).
\<close>

function tostr_loop :: "nat \<Rightarrow> bytes \<Rightarrow> bytes" where
  "tostr_loop x acc = (if x \<noteq> 0 then tostr_loop (x div 10) ((of_nat (x mod 10) + chr CHR ''0'') # acc) else acc)"
  by pat_completeness auto
termination
  by (relation "measure fst") auto

declare tostr_loop.simps [simp del]

definition tostr :: "nat \<Rightarrow> nat \<Rightarrow> bytes option" where
  "tostr bufsize x =
     (let s = (if x = 0 then [chr CHR ''0'', 0] else tostr_loop x [0])
      in if length s \<le> bufsize then Some s else None)"

definition U32tostr :: "nat \<Rightarrow> bytes option" where
  "U32tostr x = tostr 11 x"

definition U64tostr :: "nat \<Rightarrow> bytes option" where
  "U64tostr x = tostr 21 x"

text \<open>
  \<open>posix_atoi\<close> (\<open>posix/stdlib.c\<close>) reads the digits from the end of the string backwards and
  stops at the first character that is not a digit; \<open>r\<close> and \<open>n\<close> are \<open>long long\<close>.
\<close>

definition s64 :: "int \<Rightarrow> int" where
  "s64 i = (i + 2 ^ 63) mod 2 ^ 64 - 2 ^ 63"

fun atoi_loop :: "bytes \<Rightarrow> int \<Rightarrow> int \<Rightarrow> int" where
  "atoi_loop [] r n = n"
| "atoi_loop (c # rev_s) r n =
     (if posix_isdigit c then
        (let n' = s64 (n + r * (uint c - 48))
         in if n' < - (2 ^ 31) \<or> n' > 2 ^ 31 - 1 then -1 else atoi_loop rev_s (s64 (r * 10)) n')
      else n)"

definition posix_atoi :: "bytes \<Rightarrow> int option" where
  "posix_atoi nptr =
     do {
       len \<leftarrow> posix_strlen nptr;
       let s = take len nptr;
       Some (if s \<noteq> [] \<and> hd s = chr CHR ''-'' then atoi_loop (rev (tl s)) (-1) 0
             else atoi_loop (rev s) 1 0)
     }"

subsection \<open>Wide strings\<close>

definition Wcslen :: "16 word list \<Rightarrow> nat option" where
  "Wcslen str = posix_strlen str"

definition Wcsdup2 :: "heap \<Rightarrow> 16 word list \<Rightarrow> 16 word list \<Rightarrow> (16 word list option \<times> heap) option" where
  "Wcsdup2 h s1 s2 =
     do {
       n1 \<leftarrow> Wcslen s1;
       n2 \<leftarrow> Wcslen s2;
       (case Malloc h ((n1 + n2 + 1) * 2) of
          (None, h') \<Rightarrow> Some (None, h')
        | (Some p, h') \<Rightarrow>
            if (n1 + n2 + 1) * 2 \<le> length p then Some (Some (take n1 s1 @ take (n2 + 1) s2), h') else None)
     }"

definition Wcscpy :: "16 word list \<Rightarrow> 16 word list \<Rightarrow> 16 word list option" where
  "Wcscpy dest src = do { len \<leftarrow> Wcslen src; store 0 (take len src @ [0]) dest }"

fun Wcschr :: "16 word list \<Rightarrow> 16 word \<Rightarrow> nat option option" where
  "Wcschr [] ch = None"
| "Wcschr (p # wcs) ch =
     (if p = 0 then Some None
      else if p = ch then Some (Some 0)
      else map_option (map_option Suc) (Wcschr wcs ch))"

definition WcsStrdup :: "heap \<Rightarrow> bytes \<Rightarrow> (16 word list option \<times> heap) option" where
  "WcsStrdup h str =
     do {
       len \<leftarrow> posix_strlen str;
       (case Malloc h (2 * (len + 1)) of
          (None, h') \<Rightarrow> Some (None, h')
        | (Some p, h') \<Rightarrow>
            if 2 * (len + 1) \<le> length p then Some (Some (map scast (take len str) @ [0]), h') else None)
     }"

definition Wcswcs :: "16 word list \<Rightarrow> 16 word list \<Rightarrow> nat option option" where
  "Wcswcs src pat =
     do {
       n \<leftarrow> Wcslen src;
       m \<leftarrow> Wcslen pat;
       if m > n then Some None else Some (Memstr_loop (take n src) (take m pat) 0)
     }"

section \<open>Properties\<close>

subsection \<open>Length of a string\<close>

lemma posix_strlen_append [simp]:
  "0 \<notin> set t \<Longrightarrow> posix_strlen (t @ 0 # r) = Some (length t)"
  by (induction t) auto

lemma posix_strlen_Some:
  "posix_strlen s = Some n \<longleftrightarrow> (\<exists>t r. s = t @ 0 # r \<and> 0 \<notin> set t \<and> n = length t)"
proof
  show "posix_strlen s = Some n \<Longrightarrow> \<exists>t r. s = t @ 0 # r \<and> 0 \<notin> set t \<and> n = length t"
  proof (induction s arbitrary: n)
    case (Cons c s)
    show ?case
    proof (cases "c = 0")
      case True
      with Cons.prems show ?thesis by (intro exI [of _ "[]"] exI [of _ s]) auto
    next
      case False
      with Cons.prems obtain m where m: "posix_strlen s = Some m" "n = Suc m" by auto
      from Cons.IH [OF m(1)] obtain t r where "s = t @ 0 # r" "0 \<notin> set t" "m = length t" by blast
      with False m show ?thesis by (intro exI [of _ "c # t"] exI [of _ r]) auto
    qed
  qed simp
qed auto

lemma cstr_append [simp]: "0 \<notin> set t \<Longrightarrow> cstr (t @ 0 # r) = t"
  by (induction t) (auto simp: cstr_def)

subsection \<open>Bounded copies\<close>

lemma strl_copy_spec:
  assumes "0 \<notin> set t" "i \<le> e" "e < length dest"
  shows "strl_copy dest i e (t @ 0 # r) =
    Some (overwrite i (map scast (take (e - i) t)) dest, i + min (e - i) (length t), drop (e - i) t @ 0 # r)"
  using assms
proof (induction t arbitrary: i dest)
  case Nil
  then show ?case by simp
next
  case (Cons c t)
  show ?case
  proof (cases "i = e")
    case True
    then show ?thesis by simp
  next
    case False
    then have e: "e - i = Suc (e - Suc i)" "i < e" using Cons.prems by auto
    have st: "store i [scast c] dest = Some (overwrite i [scast c] dest)"
      using Cons.prems e by (simp add: store_def)
    have "overwrite (Suc i) ys (overwrite i [x] dest) = overwrite i (x # ys) dest" for x ys
      using Cons.prems e by (simp add: overwrite_def add.commute)
    then show ?thesis
      using Cons.prems e st Cons.IH [of "Suc i" "overwrite i [scast c] dest"] by auto
  qed
qed

lemma Strlcpy_spec:
  assumes t: "0 \<notin> set t" and sz: "0 < sz" "sz \<le> length dest"
  shows "Strlcpy dest (t @ 0 # r) sz =
    Some (length t, overwrite 0 (map scast (take (sz - 1) t) @ [0]) dest)"
proof -
  let ?k = "min (sz - 1) (length t)"
  have "overwrite ?k [0] (overwrite 0 (map scast (take (sz - 1) t)) dest) =
      overwrite 0 (map scast (take (sz - 1) t) @ [0]) dest"
    using sz by (simp add: overwrite_def min.commute)
  moreover have "?k + 1 \<le> length (overwrite 0 (map scast (take (sz - 1) t)) dest)"
    using sz by simp
  moreover have "posix_strlen (drop (sz - 1) t @ 0 # r) = Some (length t - (sz - 1))"
    using t set_drop_subset [of "sz - 1" t] by (subst posix_strlen_append) auto
  ultimately show ?thesis
    using t sz strl_copy_spec [OF t, of 0 "sz - 1" dest r]
    by (auto simp: Strlcpy_def store_def min_def)
qed

lemma strlcat_skip_spec:
  assumes "0 \<notin> set u" "length u + i \<le> e"
  shows "strlcat_skip (u @ 0 # w) i e = Some (i + length u)"
  using assms by (induction u arbitrary: i) auto

lemma Strlcat_spec:
  assumes "0 \<notin> set u" "0 \<notin> set t" "length u < sz" "sz \<le> length (u @ 0 # w)"
  shows "Strlcat (u @ 0 # w) (t @ 0 # r) sz =
    Some (length t, overwrite (length u) (map scast (take (sz - 1 - length u) t) @ [0]) (u @ 0 # w))"
proof -
  let ?d = "u @ 0 # w" and ?m = "sz - 1 - length u"
  let ?k = "min ?m (length t)"
  have "overwrite (length u + ?k) [0] (overwrite (length u) (map scast (take ?m t)) ?d) =
      overwrite (length u) (map scast (take ?m t) @ [0]) ?d"
    using assms by (simp add: overwrite_def min.commute)
  moreover have "length u + ?k + 1 \<le> length (overwrite (length u) (map scast (take ?m t)) ?d)"
    using assms by simp
  moreover have "posix_strlen (drop ?m t @ 0 # r) = Some (length t - ?m)"
    using assms set_drop_subset [of ?m t] by (subst posix_strlen_append) auto
  moreover have "strlcat_skip ?d 0 (sz - 1) = Some (length u)"
    using strlcat_skip_spec [OF assms(1), of 0 "sz - 1" w] assms(3) by simp
  ultimately show ?thesis
    using assms strl_copy_spec [OF assms(2), of "length u" "sz - 1" ?d r]
    by (auto simp: Strlcat_def store_def min_def)
qed

subsection \<open>Overlapping moves\<close>

lemma memmove_back_spec:
  assumes "src + n \<le> length mem" "dest + n \<le> length mem" "src \<le> dest"
  shows "memmove_back mem dest src n = Some (overwrite dest (slice src n mem) mem)"
  using assms
proof (induction n arbitrary: mem)
  case (Suc n)
  let ?c = "slice (src + n) 1 mem"
  let ?m = "overwrite (dest + n) ?c mem"
  have c: "length ?c = 1" using Suc.prems by simp
  then have lm: "length ?m = length mem" using Suc.prems by simp
  have "slice src n ?m = slice src n mem"
    using Suc.prems c by (intro slice_overwrite_before) auto
  moreover have "overwrite dest (slice src n mem) ?m = overwrite dest (slice src (Suc n) mem) mem"
    using Suc.prems c slice_split [of src n 1 mem] by (simp add: overwrite_def)
  ultimately show ?case
    using Suc.prems Suc.IH [of ?m] c lm by (simp add: load_def store_def)
qed simp

lemma memmove_spec:
  assumes "src + n \<le> length mem" "dest + n \<le> length mem"
  shows "posix_memmove mem dest src n = Some (overwrite dest (slice src n mem) mem)"
  using assms memmove_back_spec [of src n mem dest] overwrite_id [of dest n mem]
  by (auto simp: posix_memmove_def load_def store_def)

subsection \<open>Searching\<close>

lemma Memstr_loop_spec:
  "Memstr_loop hay needle i =
     (if \<exists>j. i \<le> j \<and> j \<le> length hay - length needle \<and> memeq_at hay needle j
      then Some (LEAST j. i \<le> j \<and> j \<le> length hay - length needle \<and> memeq_at hay needle j) else None)"
proof (induction hay needle i rule: Memstr_loop.induct)
  case (1 hay needle i)
  let ?P = "\<lambda>i j. i \<le> j \<and> j \<le> length hay - length needle \<and> memeq_at hay needle j"
  show ?case
  proof (cases "i \<le> length hay - length needle \<and> memeq_at hay needle i")
    case True
    then have "(LEAST j. ?P i j) = i" by (intro Least_equality) auto
    with True show ?thesis by (subst Memstr_loop.simps) auto
  next
    case False
    then have "?P i j \<longleftrightarrow> ?P (Suc i) j" if "i \<le> length hay - length needle" for j
      using that by (auto simp: Suc_le_eq) (metis le_neq_implies_less)
    with False "1.IH" show ?thesis by (subst Memstr_loop.simps) auto
  qed
qed

subsection \<open>Decimal numbers\<close>

text \<open>The digits of a number, least significant first, as characters.\<close>

function rdigits :: "nat \<Rightarrow> bytes" where
  "rdigits x = (if x \<noteq> 0 then (of_nat (x mod 10) + chr CHR ''0'') # rdigits (x div 10) else [])"
  by pat_completeness auto
termination
  by (relation "measure id") auto

declare rdigits.simps [simp del]

lemma tostr_loop_rdigits: "tostr_loop x acc = rev (rdigits x) @ acc"
proof (induction x acc rule: tostr_loop.induct)
  case (1 x acc)
  then show ?case by (subst tostr_loop.simps, subst rdigits.simps) simp
qed

lemma length_rdigits: "x < 10 ^ k \<Longrightarrow> length (rdigits x) \<le> k"
proof (induction k arbitrary: x)
  case 0
  then show ?case by (simp add: rdigits.simps)
next
  case (Suc k)
  then have "x div 10 < 10 ^ k" by auto
  with Suc.IH [of "x div 10"] show ?case by (subst rdigits.simps) simp
qed

lemma digit_char:
  assumes "d < 10"
  shows "posix_isdigit (of_nat d + chr CHR ''0'')" and "uint (of_nat d + chr CHR ''0'' :: byte) = int d + 48"
    and "of_nat d + chr CHR ''0'' \<noteq> (0 :: byte)"
proof -
  have u: "unat (of_nat d + chr CHR ''0'' :: byte) = d + 48"
    using assms by (simp add: chr_def unat_word_ariths unat_of_nat)
  then show "uint (of_nat d + chr CHR ''0'' :: byte) = int d + 48" by (simp only: uint_nat)
  show "of_nat d + chr CHR ''0'' \<noteq> (0 :: byte)" using u by force
  show "posix_isdigit (of_nat d + chr CHR ''0'')"
    using u assms by (simp add: posix_isdigit_def word_le_nat_alt) (simp add: chr_def)
qed

lemma rdigits_nonzero: "0 \<notin> set (rdigits x)"
proof (induction x rule: rdigits.induct)
  case (1 x)
  then show ?case using digit_char(3) [of "x mod 10"] by (subst rdigits.simps) auto
qed

lemma s64_small: "- (2 ^ 63) \<le> i \<Longrightarrow> i < 2 ^ 63 \<Longrightarrow> s64 i = i"
  by (simp add: s64_def)

lemma atoi_loop_rdigits:
  assumes "0 \<le> n" "0 \<le> r" "n + r * int x < 2 ^ 31" "x \<noteq> 0 \<Longrightarrow> 0 < r"
  shows "atoi_loop (rdigits x) r n = n + r * int x"
  using assms
proof (induction x arbitrary: n r rule: rdigits.induct)
  case (1 x)
  show ?case
  proof (cases "x = 0")
    case True
    then show ?thesis by (simp add: rdigits.simps)
  next
    case False
    let ?d = "x mod 10" and ?q = "x div 10"
    have x: "int x = int ?d + 10 * int ?q" by (simp add: of_nat_mod of_nat_div)
    have r: "0 < r" using "1.prems" False by simp
    have sum: "n + r * int x = (n + r * int ?d) + (r * 10) * int ?q"
      by (subst x) (simp add: algebra_simps)
    have "r * 1 \<le> r * int x" using r False by (intro mult_left_mono) auto
    with "1.prems" have rb: "r < 2 ^ 31" by simp
    have nn: "0 \<le> n + r * int ?d" "n + r * int ?d \<le> n + r * int x" "n + r * int x < 2 ^ 31"
      using "1.prems" r unfolding sum by (auto intro!: add_nonneg_nonneg)
    then have lt: "n + r * int ?d < 2 ^ 31" by linarith
    have w: "s64 (n + r * int ?d) = n + r * int ?d" "s64 (r * 10) = r * 10"
      using nn(1) lt rb r by (simp_all add: s64_small)
    have "atoi_loop (rdigits x) r n = atoi_loop (rdigits ?q) (r * 10) (n + r * int ?d)"
      using False nn(1) lt digit_char [of ?d]
      by (subst rdigits.simps) (simp add: w)
    also have "\<dots> = (n + r * int ?d) + (r * 10) * int ?q"
      using "1.IH" [OF False, of "n + r * int ?d" "r * 10"] nn(1,3) r unfolding sum by simp
    finally show ?thesis unfolding sum .
  qed
qed

lemma U32tostr_defined: "x < 2 ^ 32 \<Longrightarrow> U32tostr x = Some (if x = 0 then [chr CHR ''0'', 0] else rev (rdigits x) @ [0])"
  using length_rdigits [of x 10] by (simp add: U32tostr_def tostr_def tostr_loop_rdigits)

lemma atoi_rdigits:
  assumes "0 < x" "x < 2 ^ 31"
  shows "posix_atoi (rev (rdigits x) @ [0]) = Some (int x)"
proof -
  let ?s = "rev (rdigits x)"
  have "posix_isdigit c" if "c \<in> set (rdigits x)" for c
    using that
  proof (induction x rule: rdigits.induct)
    case (1 x)
    then show ?case using digit_char(1) [of "x mod 10"]
      by (subst (asm) (2) rdigits.simps) (auto split: if_splits)
  qed
  moreover have "\<not> posix_isdigit (chr CHR ''-'')"
    by (simp add: posix_isdigit_def chr_def)
  ultimately have "\<not> (?s \<noteq> [] \<and> hd ?s = chr CHR ''-'')"
    by (metis hd_in_set set_rev)
  moreover have "posix_strlen (?s @ [0]) = Some (length ?s)"
    using posix_strlen_append [of ?s "[]"] rdigits_nonzero by simp
  ultimately show ?thesis
    using assms atoi_loop_rdigits [of 0 1 x] by (auto simp: posix_atoi_def Let_def)
qed

section \<open>Claims\<close>

text \<open>
  \<open>Strlcpy\<close> into a buffer of at least \<open>sz > 0\<close> bytes stays inside the buffer, leaves a
  terminated prefix of the source of at most \<open>sz - 1\<close> characters, keeps the rest of the buffer, and
  returns the length of the source, so truncation shows as a result not below \<open>sz\<close>.
\<close>

lemma Strlcpy_truncates:
  assumes "0 \<notin> set t" "0 < sz" "sz \<le> length dest"
  shows "Strlcpy dest (t @ 0 # r) sz = Some (length t, overwrite 0 (map scast (take (sz - 1) t) @ [0]) dest)"
  using assms by (rule Strlcpy_spec)

lemma Strlcpy_truncates_witness:
  "Strlcpy (replicate 4 9) (ascii ''hello'' @ [0]) 4 = Some (length (ascii ''hello''), overwrite 0 (map scast (ascii ''hel'') @ [0]) (replicate 4 (9 :: byte)))"
  using Strlcpy_truncates [of "ascii ''hello''" 4 "replicate 4 9" "[]"] by simp

text \<open>
  \<open>posix_memmove\<close> copies the old contents of the source range, whatever way the two ranges overlap.
\<close>

lemma memmove_overlap:
  assumes "src + n \<le> length mem" "dest + n \<le> length mem"
  shows "posix_memmove mem dest src n = Some (overwrite dest (slice src n mem) mem)"
  using assms by (rule memmove_spec)

lemma memmove_overlap_witness:
  "posix_memmove [1, 2, 3, 4, 5] 1 0 4 = Some ([1, 1, 2, 3, 4] :: byte list)"
  using memmove_overlap [of 0 4 "[1, 2, 3, 4, 5] :: byte list" 1] by (simp add: overwrite_def slice_def numeral_eq_Suc)

text \<open>
  \<open>Memstr\<close> returns the least offset at which the needle occurs in the haystack, and nothing
  exactly when there is none; it never reads outside the haystack.
\<close>

lemma Memstr_first:
  "Memstr hay needle =
     (if \<exists>j. j + length needle \<le> length hay \<and> memeq_at hay needle j
      then Some (LEAST j. j + length needle \<le> length hay \<and> memeq_at hay needle j) else None)"
proof (cases "length needle \<le> length hay")
  case True
  then have "j \<le> length hay - length needle \<longleftrightarrow> j + length needle \<le> length hay" for j by linarith
  with True Memstr_loop_spec [of hay needle 0] show ?thesis by (simp add: Memstr_def)
next
  case False
  then have "\<not> j + length needle \<le> length hay" for j by linarith
  with False show ?thesis by (simp add: Memstr_def)
qed

text \<open>
  The decimal text that \<open>U32tostr\<close> writes fits its buffer of eleven characters and, below
  \<open>2^31\<close>, is read back by \<open>posix_atoi\<close> as the number it was made from.
\<close>

lemma U32tostr_atoi:
  assumes "x < 2 ^ 31"
  shows "\<exists>s. U32tostr x = Some s \<and> length s \<le> 11 \<and> posix_atoi s = Some (int x)"
proof (cases "x = 0")
  case True
  then show ?thesis using U32tostr_defined [of x] by (simp add: chr_def) (simp add: posix_atoi_def s64_def s32_def chr_def)
next
  case False
  have "U32tostr x = Some (rev (rdigits x) @ [0])" using U32tostr_defined [of x] False assms by simp
  moreover from this have "length (rev (rdigits x) @ [0]) \<le> 11"
    by (simp add: U32tostr_def tostr_def Let_def split: if_splits)
  moreover have "posix_atoi (rev (rdigits x) @ [0]) = Some (int x)" using False assms by (intro atoi_rdigits) simp_all
  ultimately show ?thesis by blast
qed

end
