(* ===== verification/ByteOrder.thy ===== *)
theory ByteOrder
  imports Prelude
begin

text \<open>
  Byte order (\<open>lsvmutils/byteorder.h\<close>), on the little-endian x86-64 target. The bytes of an
  integer in memory are \<open>nat_le\<close> of its value; swapping the value reverses them.
\<close>

definition ByteSwapU64 :: "64 word \<Rightarrow> 64 word" where
  "ByteSwapU64 x =
     push_bit 56 (x AND 0xFF) OR
     push_bit 40 (x AND 0xFF00) OR
     push_bit 24 (x AND 0xFF0000) OR
     push_bit 8 (x AND 0xFF000000) OR
     drop_bit 8 (x AND 0xFF00000000) OR
     drop_bit 24 (x AND 0xFF0000000000) OR
     drop_bit 40 (x AND 0xFF000000000000) OR
     drop_bit 56 (x AND 0xFF00000000000000)"

definition ByteSwapU32 :: "32 word \<Rightarrow> 32 word" where
  "ByteSwapU32 x =
     push_bit 24 (x AND 0x000000FF) OR
     push_bit 8 (x AND 0x0000FF00) OR
     drop_bit 8 (x AND 0x00FF0000) OR
     drop_bit 24 (x AND 0xFF000000)"

definition ByteSwapU16 :: "16 word \<Rightarrow> 16 word" where
  "ByteSwapU16 x = push_bit 8 (x AND 0x00FF) OR drop_bit 8 (x AND 0xFF00)"

subsection \<open>Equality of words bit by bit\<close>

lemma word_eq_bits: "(v :: 'a::len word) = w \<longleftrightarrow> list_all (\<lambda>n. bit v n = bit w n) [0..<LENGTH('a)]"
  by (auto simp: bit_word_eqI list_all_iff intro!: bit_word_eqI)

lemma upt_02: "2 \<le> k \<Longrightarrow> [0..<k] = 0 # 1 # [2..<k]"
  by (simp add: upt_conv_Cons numeral_2_eq_2)

lemma bit_word_beyond: "LENGTH('a::len) \<le> n \<Longrightarrow> \<not> bit (w :: 'a word) n"
  by (meson bit_imp_le_length leD)

lemmas bit_blast = word_eq_bits upt_02 upt_rec_numeral bit_simps bit_word_beyond

lemma ByteSwapU64_swap [simp]: "ByteSwapU64 (ByteSwapU64 x) = x"
  by (simp add: bit_blast ByteSwapU64_def)

lemma ByteSwapU32_swap [simp]: "ByteSwapU32 (ByteSwapU32 x) = x"
  by (simp add: bit_blast ByteSwapU32_def)

lemma ByteSwapU16_swap [simp]: "ByteSwapU16 (ByteSwapU16 x) = x"
  by (simp add: bit_blast ByteSwapU16_def)

subsection \<open>The bytes of a word\<close>

lemma unat_div_256: "unat w div 256 = unat (drop_bit 8 (w :: 'a::len word))"
  by (subst unat_drop_bit_eq) (simp only: drop_bit_eq_div, simp)

lemma nat_le_word: "nat_le (Suc n) (unat w) = ucast w # nat_le n (unat (drop_bit 8 w))"
  unfolding unat_div_256 [symmetric] by simp

lemma nat_le_2: "nat_le 2 (unat w) = [ucast w, ucast (drop_bit 8 w)]"
proof -
  have two: "(2::nat) = Suc (Suc 0)" by simp
  show ?thesis unfolding two nat_le_word by simp
qed

lemma nat_le_4: "nat_le 4 (unat w) = [ucast w, ucast (drop_bit 8 w), ucast (drop_bit 16 w), ucast (drop_bit 24 w)]"
proof -
  have four: "(4::nat) = Suc (Suc (Suc (Suc 0)))" by simp
  show ?thesis unfolding four nat_le_word by (simp add: drop_bit_drop_bit)
qed

lemma ByteSwapU16_bytes: "nat_le 2 (unat (ByteSwapU16 x)) = rev (nat_le 2 (unat x))"
  unfolding nat_le_2 by (simp add: bit_blast ByteSwapU16_def)

lemma ByteSwapU32_bytes: "nat_le 4 (unat (ByteSwapU32 x)) = rev (nat_le 4 (unat x))"
  unfolding nat_le_4 by (simp add: bit_blast ByteSwapU32_def)

text \<open>Reading back the bytes of a word.\<close>

lemma word_nat_le:
  assumes "LENGTH('a::len) = 8 * n"
  shows "of_nat (le_nat (nat_le n (unat w))) = (w :: 'a word)"
proof -
  have p: "(2 :: nat) ^ LENGTH('a) = 256 ^ n" by (simp only: assms power_mult) simp
  have "unat w < 256 ^ n" unfolding p [symmetric] by (rule unsigned_less)
  then have "le_nat (nat_le n (unat w)) = unat w" by (rule le_nat_nat_le)
  then show ?thesis by simp
qed

lemma nat_le_word_inj:
  assumes "LENGTH('a::len) = 8 * n" "nat_le n (unat v) = nat_le n (unat w)"
  shows "v = (w :: 'a word)"
  using word_nat_le [OF assms(1), of v] word_nat_le [OF assms(1), of w] unfolding assms(2) by (rule subst)

end
