(* ===== verification/Sha.thy ===== *)
theory Sha
  imports CString ByteOrder
begin

text \<open>
  Hashes (\<open>lsvmutils/sha.c\<close>, \<open>lsvmutils/sha.h\<close>) and the hexadecimal strings they are written
  in (\<open>TPM2X_HexStrToBinary\<close> and \<open>TPM2X_BinaryToHexStr\<close> of \<open>lsvmutils/tpm2.c\<close>).

  The hash functions themselves are OpenSSL's and are a parameter, the record \<open>sha_lib\<close>:
  \<open>SHA1_Init\<close> and its companions, one set per algorithm, each of which may report a failure.
  What the code relies on is the predicate \<open>sha_lib_ok\<close>: hashing a message in pieces gives the
  digest of the whole, of the length the algorithm has.
\<close>

datatype sha_alg = SHA1_ALG | SHA256_ALG | SHA384_ALG | SHA512_ALG

definition SHAHashSize :: "sha_alg \<Rightarrow> nat" where
  "SHAHashSize alg = (case alg of SHA1_ALG \<Rightarrow> 20 | SHA256_ALG \<Rightarrow> 32 | SHA384_ALG \<Rightarrow> 48 | SHA512_ALG \<Rightarrow> 64)"

record 'c sha_lib =
  lib_init :: "sha_alg \<Rightarrow> 'c option"
  lib_update :: "sha_alg \<Rightarrow> 'c \<Rightarrow> bytes \<Rightarrow> 'c option"
  lib_final :: "sha_alg \<Rightarrow> 'c \<Rightarrow> bytes option"

record 'c sha_context =
  ctx_alg :: sha_alg
  ctx_u :: 'c

text \<open>\<open>None\<close> is the return value \<open>FALSE\<close>.\<close>

definition SHAInit :: "'c sha_lib \<Rightarrow> sha_alg \<Rightarrow> 'c sha_context option" where
  "SHAInit L alg = map_option (\<lambda>u. \<lparr>ctx_alg = alg, ctx_u = u\<rparr>) (lib_init L alg)"

definition SHAUpdate :: "'c sha_lib \<Rightarrow> 'c sha_context \<Rightarrow> bytes \<Rightarrow> 'c sha_context option" where
  "SHAUpdate L context data =
     map_option (\<lambda>u. context\<lparr>ctx_u := u\<rparr>) (lib_update L (ctx_alg context) (ctx_u context) data)"

definition SHAFinal :: "'c sha_lib \<Rightarrow> 'c sha_context \<Rightarrow> bytes option" where
  "SHAFinal L context = lib_final L (ctx_alg context) (ctx_u context)"

definition ComputeSHA1 :: "'c sha_lib \<Rightarrow> bytes \<Rightarrow> bytes option" where
  "ComputeSHA1 L data =
     do {
       context \<leftarrow> SHAInit L SHA1_ALG;
       context \<leftarrow> SHAUpdate L context data;
       SHAFinal L context
     }"

definition ComputeSHA256 :: "'c sha_lib \<Rightarrow> bytes \<Rightarrow> bytes option" where
  "ComputeSHA256 L data =
     do {
       context \<leftarrow> SHAInit L SHA256_ALG;
       context \<leftarrow> SHAUpdate L context data;
       SHAFinal L context
     }"

text \<open>The variants that hash the data as if padded with zeros to whole 32-bit words.\<close>

definition pad32_delta :: "nat \<Rightarrow> nat" where
  "pad32_delta sz = (let n = 4; aligned_size = u32 (u32 (sz + n - 1) div n * n) in u32 (aligned_size + 2 ^ 32 - sz))"

definition ComputeSHA1Pad32 :: "'c sha_lib \<Rightarrow> bytes \<Rightarrow> bytes option" where
  "ComputeSHA1Pad32 L data =
     (let delta = pad32_delta (length data)
      in do {
        context \<leftarrow> SHAInit L SHA1_ALG;
        context \<leftarrow> SHAUpdate L context data;
        context \<leftarrow> (if delta \<noteq> 0 then SHAUpdate L context (take delta (replicate 4 0)) else Some context);
        SHAFinal L context
      })"

definition ComputeSHA256Pad32 :: "'c sha_lib \<Rightarrow> bytes \<Rightarrow> bytes option" where
  "ComputeSHA256Pad32 L data =
     (let delta = pad32_delta (length data)
      in do {
        context \<leftarrow> SHAInit L SHA256_ALG;
        context \<leftarrow> SHAUpdate L context data;
        context \<leftarrow> (if delta \<noteq> 0 then SHAUpdate L context (take delta (replicate 4 0)) else Some context);
        SHAFinal L context
      })"

subsection \<open>Hexadecimal strings\<close>

definition CharToHex :: "byte \<Rightarrow> byte" where
  "CharToHex x =
     (if x \<ge> chr CHR ''0'' \<and> x \<le> chr CHR ''9'' then x - chr CHR ''0''
      else if x \<ge> chr CHR ''A'' \<and> x \<le> chr CHR ''F'' then 10 + x - chr CHR ''A''
      else if x \<ge> chr CHR ''a'' \<and> x \<le> chr CHR ''f'' then 10 + x - chr CHR ''a''
      else 0xFF)"

text \<open>The loop of \<open>TPM2X_HexStrToBinary\<close>: \<open>n\<close> pairs of characters remain.\<close>

fun hexstr_loop :: "bytes \<Rightarrow> nat \<Rightarrow> bytes \<Rightarrow> nat \<Rightarrow> (int \<times> bytes) option" where
  "hexstr_loop str 0 binary j = Some (0, binary)"
| "hexstr_loop (c1 # c2 # str) (Suc n) binary j =
     (if CharToHex c1 = 0xFF \<or> CharToHex c2 = 0xFF then Some (-1, binary)
      else do {
        binary' \<leftarrow> store j [push_bit 4 (CharToHex c1) OR CharToHex c2] binary;
        hexstr_loop str n binary' (Suc j)
      })"
| "hexstr_loop _ (Suc n) binary j = None"

text \<open>The result: the return code, \<open>*binarySize\<close> if written, and \<open>binary\<close>.\<close>

definition TPM2X_HexStrToBinary :: "bytes \<Rightarrow> nat \<Rightarrow> bytes \<Rightarrow> (int \<times> nat option \<times> bytes) option" where
  "TPM2X_HexStrToBinary str len binary =
     (if len mod 2 \<noteq> 0 then Some (-1, None, binary)
      else do {
        (rc, binary') \<leftarrow> hexstr_loop str (len div 2) binary 0;
        Some (rc, Some (len div 2), binary')
      })"

definition TPM2X_HexStrToKey :: "bytes \<Rightarrow> bytes \<Rightarrow> (int \<times> nat option \<times> bytes) option" where
  "TPM2X_HexStrToKey str key =
     do {
       n \<leftarrow> posix_strlen str;
       if n \<noteq> 32 \<and> n \<noteq> 64 then Some (-1, None, key) else TPM2X_HexStrToBinary str n key
     }"

definition HexNibbleToChar :: "byte \<Rightarrow> byte" where
  "HexNibbleToChar x =
     (if x \<le> 9 then chr CHR ''0'' + x
      else if x \<ge> 0x0A \<and> x \<le> 0x0F then chr CHR ''A'' + (x - 10)
      else -1)"

definition HexByteToStr :: "byte \<Rightarrow> bytes" where
  "HexByteToStr x =
     (let hi = drop_bit 4 (x AND 0xF0); lo = 0x0F AND x
      in [HexNibbleToChar hi, HexNibbleToChar lo])"

fun binstr_loop :: "bytes \<Rightarrow> bytes \<Rightarrow> nat \<Rightarrow> bytes option" where
  "binstr_loop [] hexstr j = store j [0] hexstr"
| "binstr_loop (x # binary) hexstr j =
     do {
       hexstr' \<leftarrow> store j (HexByteToStr x) hexstr;
       binstr_loop binary hexstr' (j + 2)
     }"

definition TPM2X_BinaryToHexStr :: "bytes \<Rightarrow> nat \<Rightarrow> bytes \<Rightarrow> bytes option" where
  "TPM2X_BinaryToHexStr binary binarySize hexstr =
     do { b \<leftarrow> load 0 binarySize binary; binstr_loop b hexstr 0 }"

text \<open>The string types are \<open>char[2 * size + 1]\<close>, on the stack.\<close>

definition SHA1ToStr :: "bytes \<Rightarrow> bytes \<Rightarrow> bytes option" where
  "SHA1ToStr stack sha1 = TPM2X_BinaryToHexStr sha1 20 stack"

definition SHA256ToStr :: "bytes \<Rightarrow> bytes \<Rightarrow> bytes option" where
  "SHA256ToStr stack sha256 = TPM2X_BinaryToHexStr sha256 32 stack"

definition SHA1FromStr :: "bytes \<Rightarrow> nat \<Rightarrow> bytes \<Rightarrow> (bool \<times> bytes) option" where
  "SHA1FromStr str len sha1 =
     (if len \<noteq> 20 * 2 then Some (False, sha1)
      else do { (rc, tmp, buf) \<leftarrow> TPM2X_HexStrToBinary str len sha1; Some (rc = 0, buf) })"

definition SHA256FromStr :: "bytes \<Rightarrow> nat \<Rightarrow> bytes \<Rightarrow> (bool \<times> bytes) option" where
  "SHA256FromStr str len sha256 =
     (if len \<noteq> 32 * 2 then Some (False, sha256)
      else do { (rc, tmp, buf) \<leftarrow> TPM2X_HexStrToBinary str len sha256; Some (rc = 0, buf) })"

subsection \<open>What is relied on of the hash library\<close>

definition sha_lib_ok :: "'c sha_lib \<Rightarrow> (sha_alg \<Rightarrow> bytes \<Rightarrow> bytes) \<Rightarrow> (sha_alg \<Rightarrow> 'c \<Rightarrow> bytes \<Rightarrow> bool) \<Rightarrow> bool" where
  "sha_lib_ok L H hashed \<longleftrightarrow>
     (\<forall>alg. \<exists>c. lib_init L alg = Some c \<and> hashed alg c []) \<and>
     (\<forall>alg c m d. hashed alg c m \<longrightarrow> (\<exists>c'. lib_update L alg c d = Some c' \<and> hashed alg c' (m @ d))) \<and>
     (\<forall>alg c m. hashed alg c m \<longrightarrow> lib_final L alg c = Some (H alg m)) \<and>
     (\<forall>alg m. length (H alg m) = SHAHashSize alg)"

text \<open>A library that satisfies it: the digest is a fold of the message, repeated.\<close>

definition toy_sha :: "sha_alg \<Rightarrow> bytes \<Rightarrow> bytes" where
  "toy_sha alg m = replicate (SHAHashSize alg) (fold (\<lambda>b acc. 3 * acc + b) m 1)"

definition toy_sha_lib :: "byte sha_lib" where
  "toy_sha_lib = \<lparr>lib_init = (\<lambda>alg. Some 1), lib_update = (\<lambda>alg c d. Some (fold (\<lambda>b acc. 3 * acc + b) d c)),
     lib_final = (\<lambda>alg c. Some (replicate (SHAHashSize alg) c))\<rparr>"

lemma toy_sha_lib_ok: "sha_lib_ok toy_sha_lib toy_sha (\<lambda>alg c m. c = fold (\<lambda>b acc. 3 * acc + b) m 1)"
  by (simp add: sha_lib_ok_def toy_sha_lib_def toy_sha_def)

definition ctx_hashed :: "(sha_alg \<Rightarrow> 'c \<Rightarrow> bytes \<Rightarrow> bool) \<Rightarrow> sha_alg \<Rightarrow> 'c sha_context \<Rightarrow> bytes \<Rightarrow> bool" where
  "ctx_hashed hashed alg ctx m \<longleftrightarrow> ctx_alg ctx = alg \<and> hashed alg (ctx_u ctx) m"

lemma sha_stream:
  assumes "sha_lib_ok L H hashed"
  shows "\<exists>ctx. SHAInit L alg = Some ctx \<and> ctx_hashed hashed alg ctx []"
    and "ctx_hashed hashed alg ctx m \<Longrightarrow> \<exists>ctx'. SHAUpdate L ctx d = Some ctx' \<and> ctx_hashed hashed alg ctx' (m @ d)"
    and "ctx_hashed hashed alg ctx m \<Longrightarrow> SHAFinal L ctx = Some (H alg m)"
proof -
  from assms have "\<exists>c. lib_init L alg = Some c \<and> hashed alg c []" by (simp add: sha_lib_ok_def)
  then obtain c where "lib_init L alg = Some c" "hashed alg c []" by blast
  then show "\<exists>ctx. SHAInit L alg = Some ctx \<and> ctx_hashed hashed alg ctx []"
    by (simp add: SHAInit_def ctx_hashed_def)
  show "\<exists>ctx'. SHAUpdate L ctx d = Some ctx' \<and> ctx_hashed hashed alg ctx' (m @ d)" if "ctx_hashed hashed alg ctx m"
  proof -
    from that assms have "\<exists>c. lib_update L alg (ctx_u ctx) d = Some c \<and> hashed alg c (m @ d)"
      by (simp add: sha_lib_ok_def ctx_hashed_def)
    then obtain c where "lib_update L alg (ctx_u ctx) d = Some c" "hashed alg c (m @ d)" by blast
    with that show ?thesis by (auto simp: SHAUpdate_def ctx_hashed_def)
  qed
  show "SHAFinal L ctx = Some (H alg m)" if "ctx_hashed hashed alg ctx m"
    using that assms by (auto simp: sha_lib_ok_def SHAFinal_def ctx_hashed_def)
qed

text \<open>Two pieces, the second possibly left out.\<close>

lemma sha_two_pieces:
  assumes L: "sha_lib_ok L H hashed"
  obtains c0 c1 c2 where "SHAInit L alg = Some c0" "SHAUpdate L c0 d = Some c1" "SHAFinal L c1 = Some (H alg d)"
    "SHAUpdate L c1 e = Some c2" "SHAFinal L c2 = Some (H alg (d @ e))"
proof -
  note st = sha_stream [OF L]
  from st(1) [of alg] obtain c0 where c0: "SHAInit L alg = Some c0" "ctx_hashed hashed alg c0 []" by blast
  from st(2) [OF c0(2), of d] obtain c1 where c1: "SHAUpdate L c0 d = Some c1" "ctx_hashed hashed alg c1 d" by auto
  from st(2) [OF c1(2), of e] obtain c2 where c2: "SHAUpdate L c1 e = Some c2" "ctx_hashed hashed alg c2 (d @ e)" by auto
  from c0(1) c1(1) st(3) [OF c1(2)] c2(1) st(3) [OF c2(2)] show thesis by (rule that)
qed

lemma ComputeSHA_digest:
  assumes "sha_lib_ok L H hashed"
  shows "ComputeSHA256 L data = Some (H SHA256_ALG data)" and "ComputeSHA1 L data = Some (H SHA1_ALG data)"
proof -
  show "ComputeSHA256 L data = Some (H SHA256_ALG data)"
    by (rule sha_two_pieces [OF assms, of SHA256_ALG data "[]"]) (simp add: ComputeSHA256_def)
  show "ComputeSHA1 L data = Some (H SHA1_ALG data)"
    by (rule sha_two_pieces [OF assms, of SHA1_ALG data "[]"]) (simp add: ComputeSHA1_def)
qed

lemma pad32_delta_spec:
  assumes "sz < 2 ^ 32 - 3"
  shows "pad32_delta sz < 4" and "4 dvd sz + pad32_delta sz"
proof -
  have "sz + 3 = (sz + 3) div 4 * 4 + (sz + 3) mod 4" by simp
  moreover have "(sz + 3) mod 4 \<le> 3" using mod_less_divisor [of 4 "sz + 3"] by linarith
  ultimately have b: "sz \<le> (sz + 3) div 4 * 4" "(sz + 3) div 4 * 4 \<le> sz + 3" by linarith+
  then have al: "(sz + 3) div 4 * 4 + 2 ^ 32 - sz = ((sz + 3) div 4 * 4 - sz) + 2 ^ 32" by simp
  have "u32 ((sz + 3) div 4 * 4 + 2 ^ 32 - sz) = (sz + 3) div 4 * 4 - sz"
    unfolding al u32_def mod_add_self2 using b by (intro mod_less) simp
  then have d: "pad32_delta sz = (sz + 3) div 4 * 4 - sz"
    using assms b by (simp add: pad32_delta_def Let_def add.commute)
  with b show "pad32_delta sz < 4" by simp
  from d b have "sz + pad32_delta sz = (sz + 3) div 4 * 4" by simp
  then show "4 dvd sz + pad32_delta sz" by simp
qed

lemma pad32_digest:
  assumes L: "sha_lib_ok L H hashed" and len: "length data < 2 ^ 32 - 3"
  shows "ComputeSHA256Pad32 L data = Some (H SHA256_ALG (data @ replicate (pad32_delta (length data)) 0))"
    and "ComputeSHA1Pad32 L data = Some (H SHA1_ALG (data @ replicate (pad32_delta (length data)) 0))"
proof -
  have pad: "min (pad32_delta (length data)) 4 = pad32_delta (length data)"
    using pad32_delta_spec(1) [OF len] by simp
  let ?pad = "replicate (pad32_delta (length data)) 0"
  show "ComputeSHA256Pad32 L data = Some (H SHA256_ALG (data @ ?pad))"
    by (rule sha_two_pieces [OF L, of SHA256_ALG data ?pad]) (simp add: ComputeSHA256Pad32_def Let_def pad)
  show "ComputeSHA1Pad32 L data = Some (H SHA1_ALG (data @ ?pad))"
    by (rule sha_two_pieces [OF L, of SHA1_ALG data ?pad]) (simp add: ComputeSHA1Pad32_def Let_def pad)
qed

subsection \<open>Hexadecimal round trip\<close>

lemma nibble_char:
  assumes "n < 16"
  shows "CharToHex (HexNibbleToChar (of_nat n)) = of_nat n" and "(of_nat n :: byte) \<noteq> 0xFF"
proof -
  have "list_all (\<lambda>n. CharToHex (HexNibbleToChar (of_nat n)) = of_nat n \<and> (of_nat n :: byte) \<noteq> 0xFF) [0..<16]"
    by (simp add: upt_02 upt_rec_numeral CharToHex_def HexNibbleToChar_def chr_def)
  with assms show "CharToHex (HexNibbleToChar (of_nat n)) = of_nat n" "(of_nat n :: byte) \<noteq> 0xFF"
    by (auto simp: list_all_iff)
qed

lemma HexByte_roundtrip:
  "\<exists>c1 c2. HexByteToStr x = [c1, c2] \<and> CharToHex c1 \<noteq> 0xFF \<and> CharToHex c2 \<noteq> 0xFF \<and>
     push_bit 4 (CharToHex c1) OR CharToHex c2 = x"
proof -
  let ?hi = "drop_bit 4 (x AND 0xF0)" and ?lo = "0x0F AND x"
  have "?hi = drop_bit 4 x AND mask 4" "?lo = x AND mask 4" by (simp_all add: bit_blast)
  then have "unat ?hi < 16" "unat ?lo < 16"
    using and_mask_less_size [of 4 "drop_bit 4 x"] and_mask_less_size [of 4 x]
    by (simp_all add: word_less_nat_alt word_size)
  then have "CharToHex (HexNibbleToChar ?hi) = ?hi" "?hi \<noteq> 0xFF" "CharToHex (HexNibbleToChar ?lo) = ?lo" "?lo \<noteq> 0xFF"
    using nibble_char [of "unat ?hi"] nibble_char [of "unat ?lo"] by (simp_all only: of_nat_unat ucast_id simp_thms)
  moreover have "push_bit 4 ?hi OR ?lo = x" by (simp add: bit_blast)
  ultimately show ?thesis by (simp add: HexByteToStr_def Let_def)
qed

text \<open>The whole string, written into a buffer with room for it.\<close>

definition hex_text :: "bytes \<Rightarrow> bytes" where
  "hex_text bs = concat (map HexByteToStr bs)"

lemma length_hex_text [simp]: "length (hex_text bs) = 2 * length bs"
  by (induction bs) (simp_all add: hex_text_def HexByteToStr_def Let_def)

lemma hex_text_Cons: "hex_text (b # bs) = HexByteToStr b @ hex_text bs"
  by (simp add: hex_text_def)

lemma binstr_loop_spec:
  assumes "j + 2 * length bs < length hexstr"
  shows "binstr_loop bs hexstr j = Some (overwrite j (hex_text bs @ [0]) hexstr)"
  using assms
proof (induction bs arbitrary: hexstr j)
  case Nil
  then show ?case by (simp add: store_def hex_text_def)
next
  case (Cons x bs)
  have len: "length (HexByteToStr x) = 2" by (simp add: HexByteToStr_def Let_def)
  have "overwrite (j + 2) (hex_text bs @ [0]) (overwrite j (HexByteToStr x) hexstr) =
      overwrite j (hex_text (x # bs) @ [0]) hexstr"
    using Cons.prems len by (simp add: overwrite_def hex_text_Cons add.commute)
  with Cons len show ?case by (simp add: store_def)
qed

lemma hexstr_loop_spec:
  assumes "j + length bs \<le> length binary"
  shows "hexstr_loop (hex_text bs @ r) (length bs) binary j = Some (0, overwrite j bs binary)"
  using assms
proof (induction bs arbitrary: binary j)
  case (Cons x bs)
  from HexByte_roundtrip [of x] obtain c1 c2 where c: "HexByteToStr x = [c1, c2]" "CharToHex c1 \<noteq> 0xFF"
    "CharToHex c2 \<noteq> 0xFF" "push_bit 4 (CharToHex c1) OR CharToHex c2 = x" by blast
  have "overwrite (Suc j) bs (overwrite j [x] binary) = overwrite j (x # bs) binary"
    using Cons.prems by (simp add: overwrite_def add.commute)
  with Cons.IH [of "Suc j" "overwrite j [x] binary"] Cons.prems c show ?case
    by (simp add: hex_text_Cons store_def)
qed (simp add: hex_text_def)

lemma SHA256_str_roundtrip:
  assumes "length sha = 32" "length stack = 65" "length old = 32"
  shows "\<exists>str. SHA256ToStr stack sha = Some str \<and> SHA256FromStr str 64 old = Some (True, sha)"
proof -
  have s: "SHA256ToStr stack sha = Some (hex_text sha @ [0])"
    using assms binstr_loop_spec [of 0 sha stack]
    by (simp add: SHA256ToStr_def TPM2X_BinaryToHexStr_def load_def overwrite_def)
  have "SHA256FromStr (hex_text sha @ [0]) 64 old = Some (True, sha)"
    using assms hexstr_loop_spec [of 0 sha old "[0]"]
    by (simp add: SHA256FromStr_def TPM2X_HexStrToBinary_def overwrite_def)
  with s show ?thesis by blast
qed

lemma SHA1_str_roundtrip:
  assumes "length sha = 20" "length stack = 41" "length old = 20"
  shows "\<exists>str. SHA1ToStr stack sha = Some str \<and> SHA1FromStr str 40 old = Some (True, sha)"
proof -
  have s: "SHA1ToStr stack sha = Some (hex_text sha @ [0])"
    using assms binstr_loop_spec [of 0 sha stack]
    by (simp add: SHA1ToStr_def TPM2X_BinaryToHexStr_def load_def overwrite_def)
  have "SHA1FromStr (hex_text sha @ [0]) 40 old = Some (True, sha)"
    using assms hexstr_loop_spec [of 0 sha old "[0]"]
    by (simp add: SHA1FromStr_def TPM2X_HexStrToBinary_def overwrite_def)
  with s show ?thesis by blast
qed

section \<open>Claims\<close>

text \<open>
  A SHA-256 digest printed as hexadecimal text is read back exactly.
\<close>

lemma SHA256_text_roundtrip:
  assumes "length digest = 32" "length stack = 65" "length old = 32"
  shows "\<exists>str. SHA256ToStr stack digest = Some str \<and> SHA256FromStr str 64 old = Some (True, digest)"
  using assms by (rule SHA256_str_roundtrip)

text \<open>
  \<open>ComputeSHA256Pad32\<close> is the digest of the data padded with zeros to a multiple of four bytes,
  computed without copying the data; at most three zeros are added.
\<close>

lemma ComputeSHA256Pad32_digest:
  assumes "sha_lib_ok L H hashed" "length data < 2 ^ 32 - 3"
  shows "\<exists>n < 4. 4 dvd length data + n \<and> ComputeSHA256Pad32 L data = Some (H SHA256_ALG (data @ replicate n 0))"
  using pad32_digest(1) [OF assms] pad32_delta_spec [OF assms(2)] by blast

end
