(* ===== verification/LuksCrypto.thy ===== *)
theory LuksCrypto
  imports Sha Blkdev
begin

text \<open>
  The LUKS header and the sector cipher: \<open>lsvmutils/luks.h\<close>, the first half of
  \<open>lsvmutils/luks.c\<close> (byte order, initialisation vectors, \<open>LUKSCrypt\<close>) and
  \<open>lsvmutils/luksopenssl.c\<close>.

  OpenSSL is a parameter, the record \<open>crypto_lib\<close>: one field per function that the code
  calls, each of which may fail. Types \<open>'e\<close>, \<open>'x\<close> and \<open>'d\<close> stand for \<open>EVP_CIPHER\<close>,
  \<open>EVP_CIPHER_CTX\<close> and \<open>EVP_MD\<close>. What the code relies on is stated by \<open>sector_cipher_ok\<close>.

  \<open>None\<close> is undefined behaviour: an access out of bounds, or the use of a variable that was
  not initialised (\<open>tmp.key\<close> at the \<open>done\<close> label of \<open>LUKSGetCipher\<close>).
\<close>

subsection \<open>The header\<close>

definition LUKS_SECTOR_SIZE :: nat where
  "LUKS_SECTOR_SIZE = 512"

definition LUKS_IV_SIZE :: nat where
  "LUKS_IV_SIZE = 16"

definition LUKS_SALT_SIZE :: nat where
  "LUKS_SALT_SIZE = 32"

definition LUKS_DIGEST_SIZE :: nat where
  "LUKS_DIGEST_SIZE = 20"

definition LUKS_MAGIC :: bytes where
  "LUKS_MAGIC = ascii ''LUKS'' @ [0xba, 0xbe]"

definition LUKS_SLOT_ENABLED :: "32 word" where
  "LUKS_SLOT_ENABLED = 0x00ac71f3"

definition LUKS_SLOT_DISABLED :: "32 word" where
  "LUKS_SLOT_DISABLED = 0x0000dead"

datatype LUKSCryptMode = LUKS_CRYPT_MODE_DECRYPT | LUKS_CRYPT_MODE_ENCRYPT

record LUKSKeySlot =
  enabled :: "32 word"
  password_iters :: "32 word"
  password_salt :: bytes
  key_material_offset :: "32 word"
  af_stripes :: "32 word"

record LUKSHeader =
  magic :: bytes
  version :: "16 word"
  cipher_name :: bytes
  cipher_mode :: bytes
  hash_spec :: bytes
  payload_offset :: "32 word"
  key_bytes :: "32 word"
  mk_digest :: bytes
  mk_digest_salt :: bytes
  mk_digest_iter :: "32 word"
  uuid :: bytes
  slots :: "LUKSKeySlot list"

text \<open>The layout of the C structs: 592 bytes, eight slots of 48 bytes from offset 208.\<close>

definition word_at :: "nat \<Rightarrow> nat \<Rightarrow> bytes \<Rightarrow> 'a::len word" where
  "word_at off n bs = of_nat (le_nat (slice off n bs))"

definition slot_of_bytes :: "bytes \<Rightarrow> LUKSKeySlot" where
  "slot_of_bytes bs =
     \<lparr>enabled = word_at 0 4 bs, password_iters = word_at 4 4 bs, password_salt = slice 8 32 bs,
      key_material_offset = word_at 40 4 bs, af_stripes = word_at 44 4 bs\<rparr>"

definition header_of_bytes :: "bytes \<Rightarrow> LUKSHeader" where
  "header_of_bytes bs =
     \<lparr>magic = slice 0 6 bs, version = word_at 6 2 bs, cipher_name = slice 8 32 bs, cipher_mode = slice 40 32 bs,
      hash_spec = slice 72 32 bs, payload_offset = word_at 104 4 bs, key_bytes = word_at 108 4 bs,
      mk_digest = slice 112 20 bs, mk_digest_salt = slice 132 32 bs, mk_digest_iter = word_at 164 4 bs,
      uuid = slice 168 40 bs, slots = map (\<lambda>i. slot_of_bytes (slice (208 + 48 * i) 48 bs)) [0..<8]\<rparr>"

definition LUKS_HEADER_SIZE :: nat where
  "LUKS_HEADER_SIZE = 592"

definition fix_slot :: "LUKSKeySlot \<Rightarrow> LUKSKeySlot" where
  "fix_slot slot =
     slot\<lparr>enabled := ByteSwapU32 (enabled slot),
          password_iters := ByteSwapU32 (password_iters slot),
          key_material_offset := ByteSwapU32 (key_material_offset slot),
          af_stripes := ByteSwapU32 (af_stripes slot)\<rparr>"

definition LUKSFixByteOrder :: "LUKSHeader \<Rightarrow> LUKSHeader" where
  "LUKSFixByteOrder header =
     header\<lparr>version := ByteSwapU16 (version header),
            payload_offset := ByteSwapU32 (payload_offset header),
            key_bytes := ByteSwapU32 (key_bytes header),
            mk_digest_iter := ByteSwapU32 (mk_digest_iter header),
            slots := map fix_slot (slots header)\<rparr>"

subsection \<open>The cipher objects\<close>

record ('c, 'e, 'x, 'd) crypto_lib =
  sha :: "'c sha_lib"
  EVP_get_cipherbyname :: "bytes \<Rightarrow> 'e option"
  EVP_aes_256_ecb :: "'e option"
  EVP_CIPHER_CTX_new :: "'x option"
  EVP_CIPHER_CTX_set_padding :: "'x \<Rightarrow> int \<Rightarrow> 'x"
  EVP_CipherInit_ex :: "'x \<Rightarrow> 'e \<Rightarrow> bytes \<Rightarrow> bytes option \<Rightarrow> LUKSCryptMode \<Rightarrow> 'x option"
  EVP_CipherUpdate :: "'x \<Rightarrow> bytes \<Rightarrow> (bytes \<times> 'x) option"
  EVP_CipherFinal_ex :: "'x \<Rightarrow> bytes option"
  EVP_get_digestbyname :: "bytes \<Rightarrow> 'd option"
  PKCS5_PBKDF2_HMAC :: "bytes \<Rightarrow> int \<Rightarrow> bytes \<Rightarrow> int \<Rightarrow> int \<Rightarrow> 'd option \<Rightarrow> int \<Rightarrow> bytes option"

record 'e LUKSCipher =
  evp :: 'e
  ckey :: bytes
  keySize :: nat

text \<open>The end of both constructors: copy the key, then create the object. A null result is the inner \<open>None\<close>.\<close>

definition new_cipher :: "heap \<Rightarrow> 'e \<Rightarrow> bytes \<Rightarrow> nat \<Rightarrow> ('e LUKSCipher option \<times> heap) option" where
  "new_cipher h e key keysz =
     (case Malloc h keysz of
        (None, h1) \<Rightarrow> Some (None, h1)
      | (Some m, h1) \<Rightarrow>
          do {
            src \<leftarrow> load 0 keysz key;
            k \<leftarrow> store 0 src m;
            Some (map_option (\<lambda>_. \<lparr>evp = e, ckey = k, keySize = keysz\<rparr>) (h1 0), heap_next h1)
          })"

definition LUKSGetAES256ECBCipher ::
  "('c, 'e, 'x, 'd) crypto_lib \<Rightarrow> heap \<Rightarrow> bytes \<Rightarrow> nat \<Rightarrow> ('e LUKSCipher option \<times> heap) option" where
  "LUKSGetAES256ECBCipher K h key keysz =
     (case EVP_aes_256_ecb K of
        None \<Rightarrow> None
      | Some e \<Rightarrow> new_cipher h e key keysz)"

text \<open>The conversion \<open>%d\<close> of the format string, on a \<open>UINT32\<close>.\<close>

definition fmt_d :: "nat \<Rightarrow> bytes" where
  "fmt_d n =
     (if n = 0 then ascii ''0''
      else if n < 2 ^ 31 then rev (rdigits n)
      else chr CHR ''-'' # rev (rdigits (2 ^ 32 - n)))"

text \<open>The mode and the key length in bits that the header asks for; the inner \<open>None\<close> is the jump to \<open>done\<close>.\<close>

definition cipher_spec :: "LUKSHeader \<Rightarrow> (bytes \<times> nat) option option" where
  "cipher_spec header =
     do {
       c \<leftarrow> posix_strcmp (cipher_name header) (ascii ''aes'' @ [0]);
       if c \<noteq> 0 then Some None
       else
         do {
           let keyBits = u32 (unat (key_bytes header) * 8);
           ecb \<leftarrow> posix_strcmp (cipher_mode header) (ascii ''ecb'' @ [0]);
           if ecb = 0 then Some (Some (ascii ''ECB'', keyBits))
           else
             do {
               plain \<leftarrow> posix_strcmp (cipher_mode header) (ascii ''cbc-plain'' @ [0]);
               if plain = 0 then Some (Some (ascii ''CBC'', keyBits))
               else
                 do {
                   essiv \<leftarrow> posix_strcmp (cipher_mode header) (ascii ''cbc-essiv:'' @ [0]);
                   if essiv = 0 then Some (Some (ascii ''CBC'', keyBits))
                   else
                     do {
                       xts \<leftarrow> posix_strcmp (cipher_mode header) (ascii ''xts-plain64'' @ [0]);
                       if xts = 0 then Some (Some (ascii ''XTS'', keyBits div 2)) else Some None
                     }
                 }
             }
         }
     }"

definition LUKSGetCipher ::
  "('c, 'e, 'x, 'd) crypto_lib \<Rightarrow> heap \<Rightarrow> LUKSHeader \<Rightarrow> bytes \<Rightarrow> nat \<Rightarrow> ('e LUKSCipher option \<times> heap) option" where
  "LUKSGetCipher K h header key keysz =
     do {
       spec \<leftarrow> cipher_spec header;
       (cipherMode, keyBits) \<leftarrow> spec;
       e \<leftarrow> EVP_get_cipherbyname K (ascii ''AES-'' @ fmt_d keyBits @ ascii ''-'' @ cipherMode);
       new_cipher h e key keysz
     }"

text \<open>
  \<open>LUKSCryptData\<close> on the memory from \<open>in\<close>: the return code, the bytes written to \<open>out\<close>, and the
  memory from \<open>in\<close>, into which the final call writes.
\<close>

definition LUKSCryptData ::
  "('c, 'e, 'x, 'd) crypto_lib \<Rightarrow> 'e LUKSCipher \<Rightarrow> LUKSCryptMode \<Rightarrow> bytes option \<Rightarrow> bytes \<Rightarrow> nat
   \<Rightarrow> (int \<times> bytes \<times> bytes) option" where
  "LUKSCryptData K cipher mode iv inp inSize =
     (case EVP_CIPHER_CTX_new K of
        None \<Rightarrow> Some (-1, [], inp)
      | Some ctx0 \<Rightarrow>
          (case EVP_CipherInit_ex K (EVP_CIPHER_CTX_set_padding K ctx0 0) (evp cipher) (ckey cipher) iv mode of
             None \<Rightarrow> Some (-1, [], inp)
           | Some ctx1 \<Rightarrow>
               do {
                 src \<leftarrow> load 0 inSize inp;
                 (case EVP_CipherUpdate K ctx1 src of
                    None \<Rightarrow> Some (-1, [], inp)
                  | Some (out, ctx2) \<Rightarrow>
                      (case EVP_CipherFinal_ex K ctx2 of
                         None \<Rightarrow> Some (-1, out, inp)
                       | Some fin \<Rightarrow>
                           do {
                             inp' \<leftarrow> store (length out) fin inp;
                             Some (int (length fin), out, inp')
                           }))
               }))"

definition LUKSDeriveKey ::
  "('c, 'e, 'x, 'd) crypto_lib \<Rightarrow> bytes \<Rightarrow> int \<Rightarrow> bytes \<Rightarrow> int \<Rightarrow> int \<Rightarrow> bytes \<Rightarrow> int \<Rightarrow> bytes \<Rightarrow> (int \<times> bytes) option" where
  "LUKSDeriveKey K pass passlen salt saltlen iter hashspec keylen out =
     (case PKCS5_PBKDF2_HMAC K pass passlen salt saltlen iter (EVP_get_digestbyname K hashspec) keylen of
        None \<Rightarrow> Some (-1, out)
      | Some key \<Rightarrow> do { out' \<leftarrow> store 0 key out; Some (0, out') })"

subsection \<open>Initialisation vectors\<close>

definition mode_is :: "LUKSHeader \<Rightarrow> string \<Rightarrow> bool option" where
  "mode_is header s = map_option (\<lambda>c. c = 0) (posix_strcmp (ascii s @ [0]) (cipher_mode header))"

definition GenIV ::
  "('c, 'e, 'x, 'd) crypto_lib \<Rightarrow> heap \<Rightarrow> LUKSHeader \<Rightarrow> nat \<Rightarrow> bytes \<Rightarrow> bytes \<Rightarrow> (int \<times> bytes \<times> heap) option" where
  "GenIV K h header sec iv key =
     do {
       ecb \<leftarrow> mode_is header ''ecb'';
       if ecb then Some (0, iv, h)
       else
         do {
           plain \<leftarrow> mode_is header ''cbc-plain'';
           let ivSize = (if plain then 4 else 8);
           iv \<leftarrow> store 0 (nat_le ivSize sec) iv;
           xts \<leftarrow> mode_is header ''xts-plain64'';
           if xts then Some (0, iv, h)
           else if plain then Some (0, iv, h)
           else
             do {
               k \<leftarrow> load 0 (unat (key_bytes header)) key;
               sha256 \<leftarrow> ComputeSHA256 (sha K) k;
               let temp = overwrite 0 (nat_le ivSize sec) (replicate LUKS_IV_SIZE 0);
               (cipher, h1) \<leftarrow> LUKSGetAES256ECBCipher K h sha256 32;
               (case cipher of
                  None \<Rightarrow> Some (-1, iv, h1)
                | Some c \<Rightarrow>
                    do {
                      (rc, out, temp') \<leftarrow> LUKSCryptData K c LUKS_CRYPT_MODE_ENCRYPT None temp LUKS_IV_SIZE;
                      iv' \<leftarrow> store 0 out iv;
                      Some (if rc \<noteq> 0 then -1 else 0, iv', h1)
                    })
             }
         }
     }"

subsection \<open>Encrypting and decrypting sectors\<close>

text \<open>The loop of \<open>LUKSCrypt\<close>: the return code, \<open>dataIn\<close>, \<open>dataOut\<close> and the allocator.\<close>

function crypt_loop ::
  "('c, 'e, 'x, 'd) crypto_lib \<Rightarrow> heap \<Rightarrow> LUKSCryptMode \<Rightarrow> LUKSHeader \<Rightarrow> bytes \<Rightarrow> 'e LUKSCipher \<Rightarrow> nat \<Rightarrow>
   nat \<Rightarrow> nat \<Rightarrow> nat \<Rightarrow> bytes \<Rightarrow> bytes \<Rightarrow> (int \<times> bytes \<times> bytes \<times> heap) option" where
  "crypt_loop K h mode header key cipher sector iters block_len i dataIn dataOut =
     (if i < iters then
        (case GenIV K h header (u64 (sector + i)) (replicate LUKS_IV_SIZE 0) key of
           None \<Rightarrow> None
         | Some (rc, iv, h1) \<Rightarrow>
             if rc = -1 then Some (-1, dataIn, dataOut, h1)
             else
               (let pos = u64 (i * block_len)
                in case LUKSCryptData K cipher mode (Some iv) (drop pos dataIn) block_len of
                     None \<Rightarrow> None
                   | Some (rc, out, in') \<Rightarrow>
                       (case store pos out dataOut of
                          None \<Rightarrow> None
                        | Some dataOut' \<Rightarrow>
                            if rc = -1 then Some (-1, take pos dataIn @ in', dataOut', h1)
                            else crypt_loop K h1 mode header key cipher sector iters block_len (Suc i)
                                   (take pos dataIn @ in') dataOut')))
      else Some (0, dataIn, dataOut, h))"
  by pat_completeness auto
termination
  by (relation "measure (\<lambda>(K, h, mode, header, key, cipher, sector, iters, block_len, i, dataIn, dataOut). iters - i)") auto

declare crypt_loop.simps [simp del]

definition LUKSCrypt ::
  "('c, 'e, 'x, 'd) crypto_lib \<Rightarrow> heap \<Rightarrow> LUKSCryptMode \<Rightarrow> LUKSHeader \<Rightarrow> bytes \<Rightarrow> bytes \<Rightarrow> bytes \<Rightarrow> nat \<Rightarrow> nat
   \<Rightarrow> (int \<times> bytes \<times> bytes \<times> heap) option" where
  "LUKSCrypt K h mode header key dataIn dataOut dataSize sector =
     do {
       (cipher, h1) \<leftarrow> LUKSGetCipher K h header key (unat (key_bytes header));
       (case cipher of
          None \<Rightarrow> Some (-1, dataIn, dataOut, h1)
        | Some c \<Rightarrow>
            do {
              ecb \<leftarrow> posix_strcmp (cipher_mode header) (ascii ''ecb'' @ [0]);
              let iters = (if ecb = 0 then 1 else dataSize div LUKS_SECTOR_SIZE);
              let block_len = (if ecb = 0 then dataSize else LUKS_SECTOR_SIZE);
              crypt_loop K h1 mode header key c sector iters block_len 0 dataIn dataOut
            })
     }"

section \<open>Properties\<close>

subsection \<open>Byte order\<close>

lemma fix_slot_twice [simp]: "fix_slot (fix_slot slot) = slot"
  by (simp add: fix_slot_def)

lemma LUKSFixByteOrder_twice: "LUKSFixByteOrder (LUKSFixByteOrder header) = header"
  by (simp add: LUKSFixByteOrder_def comp_def)

text \<open>The integer fields of a header on disk are big-endian.\<close>

definition be_at :: "nat \<Rightarrow> nat \<Rightarrow> bytes \<Rightarrow> nat" where
  "be_at off n bs = le_nat (rev (slice off n bs))"

lemma unat_word_at:
  assumes "off + n \<le> length bs" "LENGTH('a::len) = 8 * n"
  shows "nat_le n (unat (word_at off n bs :: 'a word)) = slice off n bs"
proof -
  have len: "length (slice off n bs) = n" using assms(1) by simp
  have p: "(2 :: nat) ^ LENGTH('a) = 256 ^ n" unfolding assms(2) power_mult by simp
  have "le_nat (slice off n bs) < 256 ^ n" using le_nat_bound [of "slice off n bs"] unfolding len .
  then have "unat (word_at off n bs :: 'a word) = le_nat (slice off n bs)"
    unfolding word_at_def by (simp add: unat_of_nat p)
  then show ?thesis using nat_le_le_nat [of "slice off n bs"] unfolding len by simp
qed

lemma be_word32:
  assumes "off + 4 \<le> length bs"
  shows "ByteSwapU32 (word_at off 4 bs) = of_nat (be_at off 4 bs)"
proof -
  have "nat_le 4 (unat (word_at off 4 bs :: 32 word)) = slice off 4 bs"
    using assms by (intro unat_word_at) simp_all
  then have "nat_le 4 (unat (ByteSwapU32 (word_at off 4 bs))) = rev (slice off 4 bs)"
    by (simp only: ByteSwapU32_bytes)
  then show ?thesis
    using word_nat_le [of 4 "ByteSwapU32 (word_at off 4 bs)"] by (simp only: be_at_def) simp
qed

lemma be_word16:
  assumes "off + 2 \<le> length bs"
  shows "ByteSwapU16 (word_at off 2 bs) = of_nat (be_at off 2 bs)"
proof -
  have "nat_le 2 (unat (word_at off 2 bs :: 16 word)) = slice off 2 bs"
    using assms by (intro unat_word_at) simp_all
  then have "nat_le 2 (unat (ByteSwapU16 (word_at off 2 bs))) = rev (slice off 2 bs)"
    by (simp only: ByteSwapU16_bytes)
  then show ?thesis
    using word_nat_le [of 2 "ByteSwapU16 (word_at off 2 bs)"] by (simp only: be_at_def) simp
qed

lemma header_big_endian:
  assumes "length bs = 592"
  shows "version (LUKSFixByteOrder (header_of_bytes bs)) = of_nat (be_at 6 2 bs)"
    and "payload_offset (LUKSFixByteOrder (header_of_bytes bs)) = of_nat (be_at 104 4 bs)"
    and "key_bytes (LUKSFixByteOrder (header_of_bytes bs)) = of_nat (be_at 108 4 bs)"
    and "mk_digest_iter (LUKSFixByteOrder (header_of_bytes bs)) = of_nat (be_at 164 4 bs)"
  using assms by (simp_all add: LUKSFixByteOrder_def header_of_bytes_def be_word32 be_word16)

subsection \<open>What is relied on of the cipher\<close>

text \<open>One run of \<open>LUKSCryptData\<close>'s calls that succeeds and leaves nothing for the final call.\<close>

definition evp_run ::
  "('c, 'e, 'x, 'd) crypto_lib \<Rightarrow> 'e \<Rightarrow> bytes \<Rightarrow> bytes option \<Rightarrow> LUKSCryptMode \<Rightarrow> bytes \<Rightarrow> bytes option" where
  "evp_run K e key iv mode d =
     do {
       ctx0 \<leftarrow> EVP_CIPHER_CTX_new K;
       ctx1 \<leftarrow> EVP_CipherInit_ex K (EVP_CIPHER_CTX_set_padding K ctx0 0) e key iv mode;
       (out, ctx2) \<leftarrow> EVP_CipherUpdate K ctx1 d;
       fin \<leftarrow> EVP_CipherFinal_ex K ctx2;
       if fin = [] then Some out else None
     }"

definition header_evp :: "('c, 'e, 'x, 'd) crypto_lib \<Rightarrow> LUKSHeader \<Rightarrow> 'e option" where
  "header_evp K header =
     do {
       spec \<leftarrow> cipher_spec header;
       (cipherMode, keyBits) \<leftarrow> spec;
       EVP_get_cipherbyname K (ascii ''AES-'' @ fmt_d keyBits @ ascii ''-'' @ cipherMode)
     }"

text \<open>
  The library has the header's cipher, it works on inputs of \<open>len\<close> bytes with every vector, and
  decryption undoes encryption; \<open>sector_cipher_ok\<close> says so for whole sectors.
\<close>

definition unit_cipher_ok :: "('c, 'e, 'x, 'd) crypto_lib \<Rightarrow> LUKSHeader \<Rightarrow> bytes \<Rightarrow> nat \<Rightarrow> bool" where
  "unit_cipher_ok K header key len \<longleftrightarrow>
     (\<exists>e. header_evp K header = Some e \<and>
       (\<forall>iv d. length iv = 16 \<longrightarrow> length d = len \<longrightarrow>
         (\<exists>c. evp_run K e key (Some iv) LUKS_CRYPT_MODE_ENCRYPT d = Some c \<and> length c = len \<and>
              evp_run K e key (Some iv) LUKS_CRYPT_MODE_DECRYPT c = Some d) \<and>
         (\<exists>p. evp_run K e key (Some iv) LUKS_CRYPT_MODE_DECRYPT d = Some p \<and> length p = len)))"

definition sector_cipher_ok :: "('c, 'e, 'x, 'd) crypto_lib \<Rightarrow> LUKSHeader \<Rightarrow> bytes \<Rightarrow> bool" where
  "sector_cipher_ok K header key \<longleftrightarrow>
     (\<exists>e. header_evp K header = Some e \<and>
       (\<forall>iv d. length iv = 16 \<longrightarrow> length d = 512 \<longrightarrow>
         (\<exists>c. evp_run K e key (Some iv) LUKS_CRYPT_MODE_ENCRYPT d = Some c \<and> length c = 512 \<and>
              evp_run K e key (Some iv) LUKS_CRYPT_MODE_DECRYPT c = Some d) \<and>
         (\<exists>p. evp_run K e key (Some iv) LUKS_CRYPT_MODE_DECRYPT d = Some p \<and> length p = 512)))"

lemma sector_cipher_ok_unit: "sector_cipher_ok K header key = unit_cipher_ok K header key 512"
  by (simp only: sector_cipher_ok_def unit_cipher_ok_def)

text \<open>
  The headers for the modes whose vector is the plain sector number.
\<close>

definition mode_text :: "LUKSHeader \<Rightarrow> string \<Rightarrow> bool" where
  "mode_text header s \<longleftrightarrow> (\<exists>r. cipher_mode header = ascii s @ 0 # r)"

definition plain_header :: "LUKSHeader \<Rightarrow> bool" where
  "plain_header header \<longleftrightarrow> mode_text header ''xts-plain64'' \<or> mode_text header ''cbc-plain''"

definition sector_iv :: "LUKSHeader \<Rightarrow> nat \<Rightarrow> bytes" where
  "sector_iv header sec =
     (if take 3 (cipher_mode header) = ascii ''cbc'' then nat_le 4 sec @ replicate 12 0 else nat_le 8 sec @ replicate 8 0)"

text \<open>One run of the header's cipher, with the vector \<open>ivf sec\<close> for sector \<open>sec\<close>.\<close>

definition unit_crypt ::
  "('c, 'e, 'x, 'd) crypto_lib \<Rightarrow> LUKSHeader \<Rightarrow> bytes \<Rightarrow> (nat \<Rightarrow> bytes) \<Rightarrow> LUKSCryptMode \<Rightarrow> nat \<Rightarrow> bytes \<Rightarrow> bytes" where
  "unit_crypt K header key ivf mode sec d =
     the (evp_run K (the (header_evp K header)) key (Some (ivf sec)) mode d)"

definition sector_crypt ::
  "('c, 'e, 'x, 'd) crypto_lib \<Rightarrow> LUKSHeader \<Rightarrow> bytes \<Rightarrow> LUKSCryptMode \<Rightarrow> nat \<Rightarrow> bytes \<Rightarrow> bytes" where
  "sector_crypt K header key = unit_crypt K header key (sector_iv header)"

lemma length_sector_iv: "length (sector_iv header sec) = 16"
  by (simp add: sector_iv_def)

lemma unit_crypt_ok:
  assumes "unit_cipher_ok K header key len" "length (ivf sec) = 16" "length d = len"
  shows "evp_run K (the (header_evp K header)) key (Some (ivf sec)) mode d = Some (unit_crypt K header key ivf mode sec d)"
    and "length (unit_crypt K header key ivf mode sec d) = len"
    and "unit_crypt K header key ivf LUKS_CRYPT_MODE_DECRYPT sec (unit_crypt K header key ivf LUKS_CRYPT_MODE_ENCRYPT sec d) = d"
proof -
  let ?iv = "ivf sec"
  from assms obtain e c p where e: "header_evp K header = Some e"
    and c: "evp_run K e key (Some ?iv) LUKS_CRYPT_MODE_ENCRYPT d = Some c" "length c = len"
      "evp_run K e key (Some ?iv) LUKS_CRYPT_MODE_DECRYPT c = Some d"
    and p: "evp_run K e key (Some ?iv) LUKS_CRYPT_MODE_DECRYPT d = Some p" "length p = len"
    unfolding unit_cipher_ok_def by metis
  show "evp_run K (the (header_evp K header)) key (Some ?iv) mode d = Some (unit_crypt K header key ivf mode sec d)"
    "length (unit_crypt K header key ivf mode sec d) = len"
    using e c(1,2) p by (cases mode; simp add: unit_crypt_def)+
  show "unit_crypt K header key ivf LUKS_CRYPT_MODE_DECRYPT sec (unit_crypt K header key ivf LUKS_CRYPT_MODE_ENCRYPT sec d) = d"
    using e c by (simp add: unit_crypt_def)
qed

lemma sector_crypt_ok:
  assumes "sector_cipher_ok K header key" "length d = 512"
  shows "evp_run K (the (header_evp K header)) key (Some (sector_iv header sec)) mode d = Some (sector_crypt K header key mode sec d)"
    and "length (sector_crypt K header key mode sec d) = 512"
    and "sector_crypt K header key LUKS_CRYPT_MODE_DECRYPT sec (sector_crypt K header key LUKS_CRYPT_MODE_ENCRYPT sec d) = d"
  unfolding sector_crypt_def
  by (rule unit_crypt_ok [OF assms(1) [unfolded sector_cipher_ok_unit] length_sector_iv assms(2)])+

subsection \<open>Sectors are transformed one by one\<close>

lemma strcmp_ascii:
  "posix_strcmp (ascii ''xts-plain64'' @ 0 # r) (ascii ''ecb'' @ [0]) = Some 19"
  "posix_strcmp (ascii ''cbc-plain'' @ 0 # r) (ascii ''ecb'' @ [0]) = Some (-2)"
  by simp_all

lemma GenIV_plain:
  assumes "plain_header header"
  shows "GenIV K h header sec (replicate LUKS_IV_SIZE 0) key = Some (0, sector_iv header sec, h)"
  using assms unfolding plain_header_def mode_text_def
  by (elim disjE exE)
    (simp_all add: GenIV_def mode_is_def LUKS_IV_SIZE_def store_def overwrite_def sector_iv_def Let_def)

lemma CryptData_run:
  assumes "evp_run K (evp c) (ckey c) iv mode d = Some out" "load 0 n inp = Some d" "length out \<le> length inp"
  shows "LUKSCryptData K c mode iv inp n = Some (0, out, inp)"
  using assms by (auto simp: LUKSCryptData_def evp_run_def store_def split: bind_splits if_splits)

text \<open>The sectors of \<open>d\<close>, the first of which is sector \<open>s\<close>, each transformed.\<close>

definition crypt_units ::
  "('c, 'e, 'x, 'd) crypto_lib \<Rightarrow> LUKSHeader \<Rightarrow> bytes \<Rightarrow> (nat \<Rightarrow> bytes) \<Rightarrow> LUKSCryptMode \<Rightarrow> nat \<Rightarrow> bytes \<Rightarrow> nat \<Rightarrow> bytes" where
  "crypt_units K header key ivf mode s d n =
     sects (\<lambda>i. unit_crypt K header key ivf mode (s + i) (slice (i * 512) 512 d)) 0 n"

definition crypt_sectors ::
  "('c, 'e, 'x, 'd) crypto_lib \<Rightarrow> LUKSHeader \<Rightarrow> bytes \<Rightarrow> LUKSCryptMode \<Rightarrow> nat \<Rightarrow> bytes \<Rightarrow> nat \<Rightarrow> bytes" where
  "crypt_sectors K header key mode s d n =
     sects (\<lambda>i. sector_crypt K header key mode (s + i) (slice (i * 512) 512 d)) 0 n"

lemma crypt_sectors_units: "crypt_sectors K header key = crypt_units K header key (sector_iv header)"
  by (simp only: fun_eq_iff crypt_sectors_def crypt_units_def sector_crypt_def simp_thms)

text \<open>The loop, for a mode whose vectors are \<open>ivf\<close> and whose computation takes the allocator from \<open>h\<close> to \<open>g h\<close>.\<close>

lemma crypt_loop_units:
  assumes ok: "unit_cipher_ok K header key 512"
    and iv: "\<And>h sec. P h \<Longrightarrow> GenIV K h header sec (replicate LUKS_IV_SIZE 0) key = Some (0, ivf sec, g h) \<and> P (g h)"
      "\<And>sec. length (ivf sec) = 16"
    and c: "evp c = the (header_evp K header)" "ckey c = key"
    and n: "length dataIn = n * 512" "length dataOut = n * 512" "s + n < 2 ^ 64" "n * 512 < 2 ^ 64"
    and i: "i \<le> n" "P h"
  shows "crypt_loop K h mode header key c s n 512 i dataIn dataOut =
    Some (0, dataIn, take (i * 512) dataOut @
      sects (\<lambda>i. unit_crypt K header key ivf mode (s + i) (slice (i * 512) 512 dataIn)) i (n - i), (g ^^ (n - i)) h)"
  using n(2) i
proof (induction "n - i" arbitrary: i dataOut h)
  case 0
  then show ?case by (subst crypt_loop.simps) simp
next
  case (Suc m)
  then have lt: "i < n" by simp
  then have le: "Suc i * 512 \<le> n * 512" by (intro mult_right_mono) auto
  let ?f = "\<lambda>i. unit_crypt K header key ivf mode (s + i) (slice (i * 512) 512 dataIn)"
  have "u64 (s + i) = s + i" using n(3) lt by (intro u64_small) simp
  then have u: "u64 (s + i) = s + i" "u64 (i * 512) = i * 512" using le n(4) by auto
  have sl: "length (slice (i * 512) 512 dataIn) = 512" using le n(1) by simp
  note sc = unit_crypt_ok(1,2) [OF ok iv(2) sl, where sec = "s + i" and mode = mode]
  have "load 0 512 (drop (i * 512) dataIn) = Some (slice (i * 512) 512 dataIn)"
    using le n(1) by (simp add: load_def slice_def)
  then have data: "LUKSCryptData K c mode (Some (ivf (s + i))) (drop (i * 512) dataIn) 512 =
      Some (0, ?f i, drop (i * 512) dataIn)"
    using sc(1,2) c le n(1) by (intro CryptData_run) auto
  let ?o = "overwrite (i * 512) (?f i) dataOut"
  have st: "store (i * 512) (?f i) dataOut = Some ?o" using sc(2) le Suc.prems(1) by (simp add: store_def)
  have lo: "length ?o = n * 512" using sc(2) le Suc.prems(1) by simp
  have "take (Suc i * 512) ?o = take (i * 512) dataOut @ ?f i"
    using sc(2) le Suc.prems(1) by (simp add: overwrite_def)
  moreover have ni: "n - i = Suc (n - Suc i)" using lt by simp
  ultimately have out: "take (Suc i * 512) ?o @ sects ?f (Suc i) (n - Suc i) = take (i * 512) dataOut @ sects ?f i (n - i)"
    by (simp only: sects_Suc append_assoc)
  have heap: "(g ^^ (n - Suc i)) (g h) = (g ^^ (n - i)) h" unfolding ni by (simp add: funpow_swap1)
  note gen = iv(1) [OF Suc.prems(3)]
  have "crypt_loop K h mode header key c s n 512 i dataIn dataOut =
      crypt_loop K (g h) mode header key c s n 512 (Suc i) dataIn ?o"
    using lt gen by (subst crypt_loop.simps) (simp add: u data st Let_def)
  also have "\<dots> = Some (0, dataIn, take (Suc i * 512) ?o @ sects ?f (Suc i) (n - Suc i), (g ^^ (n - Suc i)) (g h))"
    using Suc.hyps(1) [of "Suc i" ?o "g h"] Suc.hyps(2) lo lt gen by simp
  finally show ?case unfolding out heap .
qed

lemma crypt_loop_spec:
  assumes ok: "sector_cipher_ok K header key" "plain_header header"
    and c: "evp c = the (header_evp K header)" "ckey c = key"
    and n: "length dataIn = n * 512" "length dataOut = n * 512" "s + n < 2 ^ 64" "n * 512 < 2 ^ 64"
  shows "crypt_loop K h mode header key c s n 512 0 dataIn dataOut =
    Some (0, dataIn, crypt_sectors K header key mode s dataIn n, h)"
proof -
  have "((\<lambda>h. h) ^^ n) h = h" for h :: heap by (induction n) simp_all
  moreover have iv: "GenIV K h header sec (replicate LUKS_IV_SIZE 0) key = Some (0, sector_iv header sec, h) \<and> True" for h sec
    using GenIV_plain [OF ok(2)] by simp
  ultimately show ?thesis
    using crypt_loop_units [OF ok(1) [unfolded sector_cipher_ok_unit], where P = "\<lambda>_. True" and g = "\<lambda>h. h",
        OF iv length_sector_iv c n, of 0 h mode]
    by (simp add: crypt_sectors_units crypt_units_def)
qed

lemma plain_not_ecb:
  assumes "plain_header header"
  obtains x where "posix_strcmp (cipher_mode header) (ascii ''ecb'' @ [0]) = Some x" "x \<noteq> 0"
  using assms strcmp_ascii unfolding plain_header_def mode_text_def by force

lemma LUKSCrypt_plain:
  assumes ok: "sector_cipher_ok K header key" "plain_header header" "length key = unat (key_bytes header)"
    and n: "length dataIn = n * 512" "length dataOut = n * 512" "s + n < 2 ^ 64" "n * 512 < 2 ^ 64"
  shows "LUKSCrypt K h mode header key dataIn dataOut (n * 512) s =
    (if h 0 = None then Some (-1, dataIn, dataOut, heap_next h)
     else if h 1 = None then Some (-1, dataIn, dataOut, heap_next (heap_next h))
     else Some (0, dataIn, crypt_sectors K header key mode s dataIn n, heap_next (heap_next h)))"
proof -
  from ok(1) obtain e where e: "header_evp K header = Some e" by (auto simp: sector_cipher_ok_def)
  have get: "LUKSGetCipher K h header key (length key) = new_cipher h e key (length key)"
    using e by (auto simp: LUKSGetCipher_def header_evp_def split: bind_splits)
  have kb: "u32 (length key) = length key"
    unfolding ok(3) using unsigned_less [of "key_bytes header"] by (intro u32_small) simp
  from plain_not_ecb [OF ok(2)] obtain x where x: "posix_strcmp (cipher_mode header) (ascii ''ecb'' @ [0]) = Some x" "x \<noteq> 0"
    by blast
  have new: "new_cipher h e key (length key) =
      (case h 0 of None \<Rightarrow> Some (None, heap_next h)
       | Some _ \<Rightarrow> Some (map_option (\<lambda>_. \<lparr>evp = e, ckey = key, keySize = length key\<rparr>) (h 1), heap_next (heap_next h)))"
    by (simp add: new_cipher_def Malloc_def kb load_def store_def overwrite_def heap_next_def split: option.split)
  have loop: "crypt_loop K h' mode header key \<lparr>evp = e, ckey = key, keySize = length key\<rparr> s n 512 0 dataIn dataOut =
      Some (0, dataIn, crypt_sectors K header key mode s dataIn n, h')" for h'
    using crypt_loop_spec [OF ok(1,2) _ _ n, of "\<lparr>evp = e, ckey = key, keySize = length key\<rparr>" h' mode] e
    by simp
  show ?thesis
    unfolding LUKSCrypt_def ok(3) [symmetric] get new
    using x loop by (auto simp: LUKS_SECTOR_SIZE_def Let_def split: option.split)
qed

lemma length_crypt_units:
  assumes "unit_cipher_ok K header key 512" "\<And>sec. length (ivf sec) = 16" "length d = n * 512"
  shows "length (crypt_units K header key ivf mode s d n) = n * 512"
  unfolding crypt_units_def
proof (rule length_sects)
  fix i
  assume "i < 0 + n"
  then have "Suc i * 512 \<le> n * 512" by (intro mult_right_mono) auto
  then show "length (unit_crypt K header key ivf mode (s + i) (slice (i * 512) 512 d)) = 512"
    using assms(3) by (intro unit_crypt_ok(2) [OF assms(1,2)]) auto
qed

lemma slice_crypt_units:
  assumes "unit_cipher_ok K header key 512" "\<And>sec. length (ivf sec) = 16" "length d = n * 512" "i < n"
  shows "slice (i * 512) 512 (crypt_units K header key ivf mode s d n) =
    unit_crypt K header key ivf mode (s + i) (slice (i * 512) 512 d)"
proof -
  let ?f = "\<lambda>i. unit_crypt K header key ivf mode (s + i) (slice (i * 512) 512 d)"
  have len: "length (?f i) = 512" if "i < n" for i
  proof -
    from that have "Suc i * 512 \<le> n * 512" by (intro mult_right_mono) auto
    then show ?thesis using assms(3) by (intro unit_crypt_ok(2) [OF assms(1,2)]) auto
  qed
  show ?thesis
    using slice_sects [of n ?f i 1] len assms(4) by (simp add: crypt_units_def)
qed

lemma decrypt_encrypt_units:
  assumes "unit_cipher_ok K header key 512" "\<And>sec. length (ivf sec) = 16" "length d = n * 512"
  shows "crypt_units K header key ivf LUKS_CRYPT_MODE_DECRYPT s (crypt_units K header key ivf LUKS_CRYPT_MODE_ENCRYPT s d n) n = d"
proof -
  let ?e = "crypt_units K header key ivf LUKS_CRYPT_MODE_ENCRYPT s d n"
  have "crypt_units K header key ivf LUKS_CRYPT_MODE_DECRYPT s ?e n = sects (\<lambda>i. slice (i * 512) 512 d) 0 n"
    unfolding crypt_units_def [of K header key ivf LUKS_CRYPT_MODE_DECRYPT]
  proof (rule sects_cong)
    fix i
    assume "i < 0 + n"
    then have i: "i < n" "Suc i * 512 \<le> n * 512" by (auto intro!: mult_right_mono simp del: mult_Suc)
    then have "length (slice (i * 512) 512 d) = 512" using assms(3) by simp
    then show "unit_crypt K header key ivf LUKS_CRYPT_MODE_DECRYPT (s + i) (slice (i * 512) 512 ?e) = slice (i * 512) 512 d"
      unfolding slice_crypt_units [OF assms i(1)] by (rule unit_crypt_ok(3) [OF assms(1,2)])
  qed
  also have "\<dots> = d" using image_sects [of d] assms(3) by simp
  finally show ?thesis .
qed

lemma length_crypt_sectors:
  assumes "sector_cipher_ok K header key" "length d = n * 512"
  shows "length (crypt_sectors K header key mode s d n) = n * 512"
  using length_crypt_units [OF _ length_sector_iv assms(2)] assms(1) by (simp add: crypt_sectors_units sector_cipher_ok_unit)

lemma slice_crypt_sectors:
  assumes "sector_cipher_ok K header key" "length d = n * 512" "i < n"
  shows "slice (i * 512) 512 (crypt_sectors K header key mode s d n) =
    sector_crypt K header key mode (s + i) (slice (i * 512) 512 d)"
  using slice_crypt_units [OF _ length_sector_iv assms(2,3)] assms(1)
  by (simp add: crypt_sectors_units sector_cipher_ok_unit sector_crypt_def)

lemma decrypt_encrypt_sectors:
  assumes "sector_cipher_ok K header key" "length d = n * 512"
  shows "crypt_sectors K header key LUKS_CRYPT_MODE_DECRYPT s (crypt_sectors K header key LUKS_CRYPT_MODE_ENCRYPT s d n) n = d"
  using decrypt_encrypt_units [OF _ length_sector_iv assms(2)] assms(1) by (simp add: crypt_sectors_units sector_cipher_ok_unit)

subsection \<open>All modes\<close>

text \<open>What \<open>cbc-essiv:\<close> relies on besides the cipher of the header: SHA-256, and AES-256-ECB on one block.\<close>

definition essiv_ok :: "('c, 'e, 'x, 'd) crypto_lib \<Rightarrow> bytes \<Rightarrow> bool" where
  "essiv_ok K key \<longleftrightarrow>
     (\<exists>H hashed e. sha_lib_ok (sha K) H hashed \<and> EVP_aes_256_ecb K = Some e \<and>
       (\<forall>b. length b = 16 \<longrightarrow>
         (\<exists>c. evp_run K e (H SHA256_ALG key) None LUKS_CRYPT_MODE_ENCRYPT b = Some c \<and> length c = 16)))"

definition essiv_iv :: "('c, 'e, 'x, 'd) crypto_lib \<Rightarrow> bytes \<Rightarrow> nat \<Rightarrow> bytes" where
  "essiv_iv K key sec =
     the (evp_run K (the (EVP_aes_256_ecb K)) (the (ComputeSHA256 (sha K) key)) None LUKS_CRYPT_MODE_ENCRYPT
       (nat_le 8 sec @ replicate 8 0))"

lemma essiv_iv_run:
  assumes "essiv_ok K key"
  shows "\<exists>digest e. ComputeSHA256 (sha K) key = Some digest \<and> length digest = 32 \<and> EVP_aes_256_ecb K = Some e \<and>
      evp_run K e digest None LUKS_CRYPT_MODE_ENCRYPT (nat_le 8 sec @ replicate 8 0) = Some (essiv_iv K key sec)"
    and "length (essiv_iv K key sec) = 16"
proof -
  from assms obtain H hashed e where L: "sha_lib_ok (sha K) H hashed" and e: "EVP_aes_256_ecb K = Some e"
    and c: "\<And>b. length b = 16 \<Longrightarrow> \<exists>c. evp_run K e (H SHA256_ALG key) None LUKS_CRYPT_MODE_ENCRYPT b = Some c \<and> length c = 16"
    unfolding essiv_ok_def by blast
  note d = ComputeSHA_digest(1) [OF L, of key]
  have l: "length (H SHA256_ALG key) = 32" using L by (simp add: sha_lib_ok_def SHAHashSize_def)
  have "length (nat_le 8 sec @ replicate 8 (0 :: byte)) = 16" by simp
  then have r: "evp_run K e (H SHA256_ALG key) None LUKS_CRYPT_MODE_ENCRYPT (nat_le 8 sec @ replicate 8 0) = Some (essiv_iv K key sec) \<and>
      length (essiv_iv K key sec) = 16"
    using c [of "nat_le 8 sec @ replicate 8 0"] by (auto simp: essiv_iv_def d e)
  with d l e show "\<exists>digest e. ComputeSHA256 (sha K) key = Some digest \<and> length digest = 32 \<and> EVP_aes_256_ecb K = Some e \<and>
      evp_run K e digest None LUKS_CRYPT_MODE_ENCRYPT (nat_le 8 sec @ replicate 8 0) = Some (essiv_iv K key sec)" by blast
  show "length (essiv_iv K key sec) = 16" using r by blast
qed

lemma new_cipher_granted:
  assumes "heap_ok h" "length key < 2 ^ 32"
  shows "new_cipher h e key (length key) = Some (Some \<lparr>evp = e, ckey = key, keySize = length key\<rparr>, heap_next (heap_next h))"
proof -
  have "h 0 \<noteq> None" "h 1 \<noteq> None" using assms(1) by (simp_all add: heap_ok_def)
  then show ?thesis using u32_small [OF assms(2)]
    by (auto simp: new_cipher_def Malloc_def load_def store_def overwrite_def heap_next_def)
qed

lemma GenIV_essiv:
  assumes "mode_text header ''cbc-essiv:''" "essiv_ok K key" "length key = unat (key_bytes header)" "heap_ok h"
  shows "GenIV K h header sec (replicate LUKS_IV_SIZE 0) key = Some (0, essiv_iv K key sec, heap_next (heap_next h)) \<and>
    heap_ok (heap_next (heap_next h))"
proof -
  from assms(1) obtain r where m: "cipher_mode header = ascii ''cbc-essiv:'' @ 0 # r" by (auto simp: mode_text_def)
  from essiv_iv_run(1) [OF assms(2), of sec] obtain digest e where d: "ComputeSHA256 (sha K) key = Some digest" "length digest = 32"
      "EVP_aes_256_ecb K = Some e"
      "evp_run K e digest None LUKS_CRYPT_MODE_ENCRYPT (nat_le 8 sec @ replicate 8 0) = Some (essiv_iv K key sec)" by blast
  note len = essiv_iv_run(2) [OF assms(2), of sec]
  have modes: "mode_is header ''ecb'' = Some False" "mode_is header ''cbc-plain'' = Some False" "mode_is header ''xts-plain64'' = Some False"
    by (simp_all add: mode_is_def m)
  have iv: "store 0 (nat_le 8 sec) (replicate 16 0) = Some (nat_le 8 sec @ replicate 8 0)"
    "overwrite 0 (nat_le 8 sec) (replicate 16 0) = nat_le 8 sec @ replicate 8 0"
    by (simp_all add: store_def overwrite_def)
  have k: "load 0 (unat (key_bytes header)) key = Some key" by (simp add: load_def flip: assms(3))
  have "new_cipher h e digest 32 = Some (Some \<lparr>evp = e, ckey = digest, keySize = 32\<rparr>, heap_next (heap_next h))"
    using new_cipher_granted [OF assms(4), of digest e] d(2) by simp
  then have c: "LUKSGetAES256ECBCipher K h digest 32 = Some (Some \<lparr>evp = e, ckey = digest, keySize = 32\<rparr>, heap_next (heap_next h))"
    by (simp add: LUKSGetAES256ECBCipher_def d(3))
  have run: "LUKSCryptData K \<lparr>evp = e, ckey = digest, keySize = 32\<rparr> LUKS_CRYPT_MODE_ENCRYPT None (nat_le 8 sec @ replicate 8 0) 16 =
      Some (0, essiv_iv K key sec, nat_le 8 sec @ replicate 8 0)"
    using d(4) len by (intro CryptData_run) (simp_all add: load_def)
  have "store 0 (essiv_iv K key sec) (nat_le 8 sec @ replicate 8 0) = Some (essiv_iv K key sec)"
    using len by (simp add: store_def overwrite_def)
  then have "GenIV K h header sec (replicate LUKS_IV_SIZE 0) key = Some (0, essiv_iv K key sec, heap_next (heap_next h))"
    unfolding GenIV_def modes
    by (simp only: bind.bind_lunit if_False Let_def iv k d(1) c option.case prod.case LUKS_IV_SIZE_def run simp_thms)
  with assms(4) show ?thesis by simp
qed

lemma LUKSGetCipher_granted:
  assumes "unit_cipher_ok K header key len" "length key = unat (key_bytes header)" "heap_ok h"
  shows "LUKSGetCipher K h header key (unat (key_bytes header)) =
    Some (Some \<lparr>evp = the (header_evp K header), ckey = key, keySize = length key\<rparr>, heap_next (heap_next h))"
proof -
  from assms(1) obtain e where e: "header_evp K header = Some e" by (auto simp: unit_cipher_ok_def)
  then have "LUKSGetCipher K h header key (length key) = new_cipher h e key (length key)"
    by (auto simp: LUKSGetCipher_def header_evp_def split: bind_splits)
  moreover have "length key < 2 ^ 32" unfolding assms(2) using unsigned_less [of "key_bytes header"] by simp
  ultimately show ?thesis using new_cipher_granted [OF assms(3)] e by (simp flip: assms(2))
qed

lemma LUKSCrypt_units:
  assumes ok: "unit_cipher_ok K header key 512" "length key = unat (key_bytes header)"
    and mode: "posix_strcmp (cipher_mode header) (ascii ''ecb'' @ [0]) = Some x" "x \<noteq> 0"
    and iv: "\<And>h sec. heap_ok h \<Longrightarrow> GenIV K h header sec (replicate LUKS_IV_SIZE 0) key = Some (0, ivf sec, g h) \<and> heap_ok (g h)"
      "\<And>sec. length (ivf sec) = 16"
    and n: "length dataIn = n * 512" "length dataOut = n * 512" "s + n < 2 ^ 64" "n * 512 < 2 ^ 64" and h: "heap_ok h"
  shows "\<exists>h'. LUKSCrypt K h cm header key dataIn dataOut (n * 512) s = Some (0, dataIn, crypt_units K header key ivf cm s dataIn n, h')"
proof -
  let ?c = "\<lparr>evp = the (header_evp K header), ckey = key, keySize = length key\<rparr>"
  have "heap_ok (heap_next (heap_next h))" using h by simp
  from crypt_loop_units [OF ok(1), where P = heap_ok, OF iv _ _ n _ this, of ?c 0 cm]
  have "crypt_loop K (heap_next (heap_next h)) cm header key ?c s n 512 0 dataIn dataOut =
      Some (0, dataIn, crypt_units K header key ivf cm s dataIn n, (g ^^ n) (heap_next (heap_next h)))"
    by (simp add: crypt_units_def)
  with mode show ?thesis
    by (simp add: LUKSCrypt_def LUKSGetCipher_granted [OF ok h] LUKS_SECTOR_SIZE_def Let_def)
qed

lemma LUKSCrypt_ecb:
  assumes ok: "unit_cipher_ok K header key (length dataIn)" "length key = unat (key_bytes header)" and mode: "mode_text header ''ecb''"
    and n: "length dataOut = length dataIn" and h: "heap_ok h"
  shows "\<exists>h'. LUKSCrypt K h cm header key dataIn dataOut (length dataIn) s =
    Some (0, dataIn, unit_crypt K header key (\<lambda>_. replicate 16 0) cm s dataIn, h')"
proof -
  let ?c = "\<lparr>evp = the (header_evp K header), ckey = key, keySize = length key\<rparr>" and ?h = "heap_next (heap_next h)"
  let ?o = "unit_crypt K header key (\<lambda>_. replicate 16 0) cm s dataIn"
  from mode obtain r where m: "cipher_mode header = ascii ''ecb'' @ 0 # r" by (auto simp: mode_text_def)
  have iv: "GenIV K ?h header sec (replicate LUKS_IV_SIZE 0) key = Some (0, replicate 16 0, ?h)" for sec
    by (simp add: GenIV_def mode_is_def m LUKS_IV_SIZE_def)
  have "length (replicate 16 (0 :: byte)) = 16" by simp
  note uc = unit_crypt_ok(1,2) [OF ok(1), where ivf = "\<lambda>_. replicate 16 0", OF this refl, where sec = s and mode = cm]
  have data: "LUKSCryptData K ?c cm (Some (replicate 16 0)) dataIn (length dataIn) = Some (0, ?o, dataIn)"
    using uc by (intro CryptData_run) (simp_all add: load_def)
  have st: "store 0 ?o dataOut = Some ?o" using uc(2) n by (simp add: store_def overwrite_def)
  have "crypt_loop K ?h cm header key ?c s 1 (length dataIn) 0 dataIn dataOut = Some (0, dataIn, ?o, ?h)"
    by (subst crypt_loop.simps, subst crypt_loop.simps) (simp add: iv data st Let_def)
  then show ?thesis
    by (simp add: LUKSCrypt_def LUKSGetCipher_granted [OF ok h] m Let_def)
qed

lemma units_roundtrip:
  assumes ok: "unit_cipher_ok K header key 512" "length key = unat (key_bytes header)"
    and mode: "posix_strcmp (cipher_mode header) (ascii ''ecb'' @ [0]) = Some x" "x \<noteq> 0"
    and iv: "\<And>h sec. heap_ok h \<Longrightarrow> GenIV K h header sec (replicate LUKS_IV_SIZE 0) key = Some (0, ivf sec, g h) \<and> heap_ok (g h)"
      "\<And>sec. length (ivf sec) = 16"
    and n: "512 dvd length d" "length buf = length d" "length buf' = length d" "s + length d div 512 < 2 ^ 64" "length d < 2 ^ 64"
    and h: "heap_ok h" "heap_ok h'"
  shows "\<exists>e h1 h2. LUKSCrypt K h LUKS_CRYPT_MODE_ENCRYPT header key d buf (length d) s = Some (0, d, e, h1) \<and>
    LUKSCrypt K h' LUKS_CRYPT_MODE_DECRYPT header key e buf' (length d) s = Some (0, e, d, h2)"
proof -
  define k where "k = length d div 512"
  have l: "length d = k * 512" using n(1) by (simp add: k_def)
  let ?e = "crypt_units K header key ivf LUKS_CRYPT_MODE_ENCRYPT s d k"
  have le: "length ?e = k * 512" by (rule length_crypt_units [OF ok(1) iv(2) l])
  note run = LUKSCrypt_units [OF ok mode iv]
  have "\<exists>h1. LUKSCrypt K h LUKS_CRYPT_MODE_ENCRYPT header key d buf (k * 512) s = Some (0, d, ?e, h1)"
    by (rule run) (use l n h in \<open>simp_all add: k_def\<close>)
  moreover have "\<exists>h2. LUKSCrypt K h' LUKS_CRYPT_MODE_DECRYPT header key ?e buf' (k * 512) s =
      Some (0, ?e, crypt_units K header key ivf LUKS_CRYPT_MODE_DECRYPT s ?e k, h2)"
    by (rule run) (use l le n h in \<open>simp_all add: k_def\<close>)
  ultimately show ?thesis unfolding l decrypt_encrypt_units [OF ok(1) iv(2) l] by blast
qed

lemma ecb_roundtrip:
  assumes ok: "unit_cipher_ok K header key (length d)" "length key = unat (key_bytes header)" and mode: "mode_text header ''ecb''"
    and n: "length buf = length d" "length buf' = length d" and h: "heap_ok h" "heap_ok h'"
  shows "\<exists>e h1 h2. LUKSCrypt K h LUKS_CRYPT_MODE_ENCRYPT header key d buf (length d) s = Some (0, d, e, h1) \<and>
    LUKSCrypt K h' LUKS_CRYPT_MODE_DECRYPT header key e buf' (length d) s = Some (0, e, d, h2)"
proof -
  have "length (replicate 16 (0 :: byte)) = 16" by simp
  note uc = unit_crypt_ok(2,3) [OF ok(1), where ivf = "\<lambda>_. replicate 16 0", OF this refl, where sec = s]
  let ?e = "unit_crypt K header key (\<lambda>_. replicate 16 0) LUKS_CRYPT_MODE_ENCRYPT s d"
  have le: "length ?e = length d" by (rule uc)
  have "unit_cipher_ok K header key (length ?e)" "length buf' = length ?e" using ok(1) n(2) by (simp_all only: le)
  from LUKSCrypt_ecb [OF this(1) ok(2) mode this(2) h(2), of LUKS_CRYPT_MODE_DECRYPT s] obtain h2
    where "LUKSCrypt K h' LUKS_CRYPT_MODE_DECRYPT header key ?e buf' (length d) s = Some (0, ?e, d, h2)"
    unfolding le uc(2) by blast
  with LUKSCrypt_ecb [OF ok mode n(1) h(1), of LUKS_CRYPT_MODE_ENCRYPT s] show ?thesis by blast
qed

subsection \<open>An instance\<close>

text \<open>
  A library for which the hypotheses hold: every cipher is the exclusive or with a byte computed
  from the key and the vector, every digest is \<open>toy_sha\<close>.
\<close>

definition toy_crypto :: "(byte, unit, byte, unit) crypto_lib" where
  "toy_crypto =
     \<lparr> sha = toy_sha_lib,
       EVP_get_cipherbyname = (\<lambda>_. Some ()),
       EVP_aes_256_ecb = Some (),
       EVP_CIPHER_CTX_new = Some 0,
       EVP_CIPHER_CTX_set_padding = (\<lambda>ctx _. ctx),
       EVP_CipherInit_ex = (\<lambda>ctx _ key iv _. Some (fold (XOR) (key @ (case iv of None \<Rightarrow> [] | Some v \<Rightarrow> v)) ctx)),
       EVP_CipherUpdate = (\<lambda>ctx d. Some (map ((XOR) ctx) d, ctx)),
       EVP_CipherFinal_ex = (\<lambda>_. Some []),
       EVP_get_digestbyname = (\<lambda>_. Some ()),
       PKCS5_PBKDF2_HMAC = (\<lambda>pass _ _ _ _ _ keylen. Some (replicate (nat keylen) (1 XOR hd pass))) \<rparr>"

definition toy_header :: LUKSHeader where
  "toy_header =
     \<lparr> magic = LUKS_MAGIC, version = 1, cipher_name = ascii ''aes'' @ [0], cipher_mode = ascii ''xts-plain64'' @ [0],
       hash_spec = ascii ''sha256'' @ [0], payload_offset = 2, key_bytes = 512, mk_digest = replicate 20 4,
       mk_digest_salt = replicate 32 0, mk_digest_iter = 1, uuid = [],
       slots = [\<lparr> enabled = LUKS_SLOT_ENABLED, password_iters = 1, password_salt = replicate 32 0,
         key_material_offset = 1, af_stripes = 1 \<rparr>] \<rparr>"

lemma xor_xor_same: "map ((XOR) x) (map ((XOR) x) d) = d" for x :: byte
  by (induction d) (simp_all flip: xor.assoc)

lemma toy_cipher_ok: "sector_cipher_ok toy_crypto toy_header key"
  by (simp add: sector_cipher_ok_def header_evp_def cipher_spec_def toy_header_def toy_crypto_def evp_run_def
      Let_def xor_xor_same [simplified])

lemma toy_plain_header: "plain_header toy_header"
  by (auto simp: plain_header_def mode_text_def toy_header_def)

section \<open>Claims\<close>

text \<open>
  \<open>LUKSFixByteOrder\<close> turns the integers of a header read from disk, which are big-endian, into
  their values: the version, the payload offset, the key size and the iteration count are those
  that the bytes at their offsets spell with the most significant byte first.
\<close>

lemma LUKSFixByteOrder_big_endian:
  assumes "length bs = 592"
  shows "let header = LUKSFixByteOrder (header_of_bytes bs)
         in version header = of_nat (be_at 6 2 bs) \<and> payload_offset header = of_nat (be_at 104 4 bs) \<and>
            key_bytes header = of_nat (be_at 108 4 bs) \<and> mk_digest_iter header = of_nat (be_at 164 4 bs)"
  using header_big_endian [OF assms] by (simp add: Let_def)


lemma toy_modes_ok:
  "unit_cipher_ok toy_crypto (toy_header\<lparr>cipher_mode := ascii ''cbc-essiv:'' @ [0]\<rparr>) key n" "essiv_ok toy_crypto key"
proof -
  show "unit_cipher_ok toy_crypto (toy_header\<lparr>cipher_mode := ascii ''cbc-essiv:'' @ [0]\<rparr>) key n"
    by (simp add: unit_cipher_ok_def header_evp_def cipher_spec_def toy_header_def toy_crypto_def evp_run_def
        Let_def xor_xor_same [simplified])
  show "essiv_ok toy_crypto key"
    unfolding essiv_ok_def using toy_sha_lib_ok by (intro exI conjI) (simp_all add: toy_crypto_def evp_run_def)
qed


end
