(* ===== verification/LuksKey.thy ===== *)
theory LuksKey
  imports LuksCrypto
begin

text \<open>
  Recovering the LUKS master key (\<open>lsvmutils/luks.c\<close>): the anti-forensic merge, unsealing a
  key slot with a passphrase, reading the header, single payload sectors and the match of a
  master key against a raw header.
\<close>

subsection \<open>The anti-forensic merge\<close>

text \<open>The loop of \<open>_DiffuseSHA\<close>: one hash block of the data per round. The integer is the return code.\<close>

function DiffuseSHA_loop ::
  "'c sha_lib \<Rightarrow> sha_alg \<Rightarrow> bytes \<Rightarrow> nat \<Rightarrow> nat \<Rightarrow> nat \<Rightarrow> (int \<times> bytes) option" where
  "DiffuseSHA_loop L alg data bytes rounds i =
     (if i < rounds then
        (let hashSize = SHAHashSize alg;
             iv = nat_le 4 (unat (ByteSwapU32 (of_nat i)));
             sz = (if hashSize > bytes - i * hashSize then bytes - i * hashSize else hashSize)
         in case SHAInit L alg of
              None \<Rightarrow> Some (-1, data)
            | Some ctx0 \<Rightarrow>
                (case SHAUpdate L ctx0 iv of
                   None \<Rightarrow> Some (-1, data)
                 | Some ctx1 \<Rightarrow>
                     (case load (i * hashSize) sz data of
                        None \<Rightarrow> None
                      | Some chunk \<Rightarrow>
                          (case SHAUpdate L ctx1 chunk of
                             None \<Rightarrow> Some (-1, data)
                           | Some ctx2 \<Rightarrow>
                               (case SHAFinal L ctx2 of
                                  None \<Rightarrow> Some (-1, data)
                                | Some hash \<Rightarrow>
                                    (case store (i * hashSize) (take sz hash) data of
                                       None \<Rightarrow> None
                                     | Some data' \<Rightarrow> DiffuseSHA_loop L alg data' bytes rounds (Suc i)))))))
      else Some (0, data))"
  by pat_completeness auto
termination
  by (relation "measure (\<lambda>(L, alg, data, bytes, rounds, i). rounds - i)") auto

declare DiffuseSHA_loop.simps [simp del]

definition DiffuseSHA :: "'c sha_lib \<Rightarrow> sha_alg \<Rightarrow> bytes \<Rightarrow> nat \<Rightarrow> (int \<times> bytes) option" where
  "DiffuseSHA L alg data bytes =
     (let hashSize = SHAHashSize alg;
          pad = (if bytes mod hashSize \<noteq> 0 then 1 else 0)
      in DiffuseSHA_loop L alg data bytes (bytes div hashSize + pad) 0)"

definition hash_spec_is :: "LUKSHeader \<Rightarrow> string \<Rightarrow> bool option" where
  "hash_spec_is header s = map_option (\<lambda>c. c = 0) (posix_strcmp (hash_spec header) (ascii s @ [0]))"

text \<open>The algorithm that \<open>_Diffuse\<close> selects; the inner \<open>None\<close> is the unsupported case.\<close>

definition diffuse_alg :: "LUKSHeader \<Rightarrow> sha_alg option option" where
  "diffuse_alg header =
     do {
       s1 \<leftarrow> hash_spec_is header ''sha1'';
       if s1 then Some (Some SHA1_ALG)
       else do {
         s256 \<leftarrow> hash_spec_is header ''sha256'';
         if s256 then Some (Some SHA256_ALG)
         else do {
           s384 \<leftarrow> hash_spec_is header ''sha384'';
           if s384 then Some (Some SHA384_ALG)
           else do {
             s512 \<leftarrow> hash_spec_is header ''sha512'';
             if s512 then Some (Some SHA512_ALG) else Some None
           }
         }
       }
     }"

definition Diffuse :: "'c sha_lib \<Rightarrow> LUKSHeader \<Rightarrow> bytes \<Rightarrow> nat \<Rightarrow> (int \<times> bytes) option" where
  "Diffuse L header data bytes =
     do {
       alg \<leftarrow> diffuse_alg header;
       (case alg of None \<Rightarrow> Some (-1, data) | Some a \<Rightarrow> DiffuseSHA L a data bytes)
     }"

definition ComputeXOR :: "bytes \<Rightarrow> bytes \<Rightarrow> bytes" where
  "ComputeXOR lhs rhs = map2 (XOR) lhs rhs"

function AFMerge_loop ::
  "'c sha_lib \<Rightarrow> LUKSHeader \<Rightarrow> bytes \<Rightarrow> nat \<Rightarrow> nat \<Rightarrow> bytes \<Rightarrow> (int \<times> bytes) option" where
  "AFMerge_loop L header stripes n i masterKey =
     (if i < n then
        (let kb = unat (key_bytes header)
         in case (load (u32 (i * kb)) kb stripes, load 0 kb masterKey) of
              (Some stripe, Some mk) \<Rightarrow>
                (case store 0 (ComputeXOR mk stripe) masterKey of
                   None \<Rightarrow> None
                 | Some masterKey1 \<Rightarrow>
                     if u32 (i + 1) \<noteq> n then
                       (case Diffuse L header masterKey1 kb of
                          None \<Rightarrow> None
                        | Some (rc, masterKey2) \<Rightarrow>
                            if rc \<noteq> 0 then Some (-1, masterKey2)
                            else AFMerge_loop L header stripes n (Suc i) masterKey2)
                     else AFMerge_loop L header stripes n (Suc i) masterKey1)
            | _ \<Rightarrow> None)
      else Some (0, masterKey))"
  by pat_completeness auto
termination
  by (relation "measure (\<lambda>(L, header, stripes, n, i, masterKey). n - i)") auto

declare AFMerge_loop.simps [simp del]

definition AFMerge :: "'c sha_lib \<Rightarrow> LUKSHeader \<Rightarrow> LUKSKeySlot \<Rightarrow> bytes \<Rightarrow> bytes \<Rightarrow> (int \<times> bytes) option" where
  "AFMerge L header slot stripes masterKey =
     do {
       mk \<leftarrow> store 0 (replicate (unat (key_bytes header)) 0) masterKey;
       AFMerge_loop L header stripes (unat (af_stripes slot)) 0 mk
     }"

subsection \<open>Unsealing\<close>

definition LUKSComputeMKDigest ::
  "('c, 'e, 'x, 'd) crypto_lib \<Rightarrow> LUKSHeader \<Rightarrow> bytes \<Rightarrow> bytes \<Rightarrow> (int \<times> bytes) option" where
  "LUKSComputeMKDigest K header masterKey mkDigest =
     do {
       (rc, out) \<leftarrow> LUKSDeriveKey K masterKey (s32 (uint (key_bytes header))) (mk_digest_salt header) 32
         (s32 (uint (mk_digest_iter header))) (hash_spec header) 20 mkDigest;
       Some (if rc \<noteq> 0 then -1 else 0, out)
     }"

text \<open>
  \<open>_UnsealMasterKey\<close>: the return code, \<open>masterKey\<close>, the raw device and the allocator. Its
  temporary buffers are freed on every path and do not appear in the result.
\<close>

definition UnsealMasterKey ::
  "('c, 'e, 'x, 'd) crypto_lib \<Rightarrow> 's blkdev \<Rightarrow> heap \<Rightarrow> 's \<Rightarrow> LUKSHeader \<Rightarrow> LUKSKeySlot \<Rightarrow> bytes \<Rightarrow> nat \<Rightarrow> bytes
   \<Rightarrow> (int \<times> bytes \<times> 's \<times> heap) option" where
  "UnsealMasterKey K D h rawdev header slot passphrase passphraseSize masterKey =
     (let kb = unat (key_bytes header);
          stripesBytes = u32 (kb * unat (af_stripes slot))
      in case Malloc h kb of
           (None, h1) \<Rightarrow> Some (-1, masterKey, rawdev, h1)
         | (Some derived0, h1) \<Rightarrow>
             do {
               (rc, derivedKey) \<leftarrow> LUKSDeriveKey K passphrase (s32 (int passphraseSize)) (password_salt slot) 32
                 (s32 (uint (password_iters slot))) (hash_spec header) (s32 (int kb)) derived0;
               if rc \<noteq> 0 then Some (-1, masterKey, rawdev, h1)
               else
                 (case Malloc h1 stripesBytes of
                    (None, h2) \<Rightarrow> Some (-1, masterKey, rawdev, h2)
                  | (Some enc0, h2) \<Rightarrow>
                      (case Malloc h2 stripesBytes of
                         (None, h3) \<Rightarrow> Some (-1, masterKey, rawdev, h3)
                       | (Some dec0, h3) \<Rightarrow>
                           do {
                             (rc, d, rawdev1) \<leftarrow> BlkdevRead D rawdev (unat (key_material_offset slot)) stripesBytes;
                             if rc \<noteq> 0 then Some (-1, masterKey, rawdev1, h3)
                             else
                               do {
                                 encryptedStripes \<leftarrow> store 0 d enc0;
                                 (rc, enc', decryptedStripes, h4) \<leftarrow> LUKSCrypt K h3 LUKS_CRYPT_MODE_DECRYPT header derivedKey
                                   encryptedStripes dec0 stripesBytes 0;
                                 if rc \<noteq> 0 then Some (-1, masterKey, rawdev1, h4)
                                 else
                                   do {
                                     (rc, masterKey1) \<leftarrow> AFMerge (sha K) header slot decryptedStripes masterKey;
                                     if rc \<noteq> 0 then Some (-1, masterKey1, rawdev1, h4)
                                     else
                                       do {
                                         (rc, mkDigest) \<leftarrow> LUKSDeriveKey K masterKey1 (s32 (int kb)) (mk_digest_salt header) 32
                                           (s32 (uint (mk_digest_iter header))) (hash_spec header) 20
                                           (replicate LUKS_DIGEST_SIZE 0);
                                         if rc \<noteq> 0 then Some (-1, masterKey1, rawdev1, h4)
                                         else if take LUKS_DIGEST_SIZE mkDigest \<noteq> take LUKS_DIGEST_SIZE (mk_digest header)
                                         then Some (-1, masterKey1, rawdev1, h4)
                                         else Some (0, masterKey1, rawdev1, h4)
                                       }
                                   }
                               }
                           }))
             })"

text \<open>\<open>LUKSGetMasterKey\<close> tries the enabled slots in turn.\<close>

fun GetMasterKey_loop ::
  "('c, 'e, 'x, 'd) crypto_lib \<Rightarrow> 's blkdev \<Rightarrow> heap \<Rightarrow> 's \<Rightarrow> LUKSHeader \<Rightarrow> LUKSKeySlot list \<Rightarrow> bytes \<Rightarrow> nat \<Rightarrow> bytes \<Rightarrow> int
   \<Rightarrow> (int \<times> bytes \<times> 's \<times> heap) option" where
  "GetMasterKey_loop K D h rawdev header [] passphrase passphraseSize masterKey rc = Some (rc, masterKey, rawdev, h)"
| "GetMasterKey_loop K D h rawdev header (slot # rest) passphrase passphraseSize masterKey rc =
     (if enabled slot = LUKS_SLOT_DISABLED then
        GetMasterKey_loop K D h rawdev header rest passphrase passphraseSize masterKey rc
      else if enabled slot = LUKS_SLOT_ENABLED then
        do {
          (rc', masterKey', rawdev', h') \<leftarrow>
            UnsealMasterKey K D h rawdev header slot passphrase passphraseSize masterKey;
          if rc' = 0 then Some (rc', masterKey', rawdev', h')
          else GetMasterKey_loop K D h' rawdev' header rest passphrase passphraseSize masterKey' rc'
        }
      else GetMasterKey_loop K D h rawdev header rest passphrase passphraseSize masterKey rc)"

definition LUKSGetMasterKey ::
  "('c, 'e, 'x, 'd) crypto_lib \<Rightarrow> 's blkdev \<Rightarrow> heap \<Rightarrow> 's \<Rightarrow> LUKSHeader \<Rightarrow> bytes \<Rightarrow> nat \<Rightarrow> bytes
   \<Rightarrow> (int \<times> bytes \<times> 's \<times> heap) option" where
  "LUKSGetMasterKey K D h rawdev header passphrase passphraseSize masterKey =
     GetMasterKey_loop K D h rawdev header (slots header) passphrase passphraseSize masterKey (-1)"

subsection \<open>Headers and payload sectors\<close>

definition LUKSReadHeader :: "'s blkdev \<Rightarrow> 's \<Rightarrow> (int \<times> LUKSHeader option \<times> 's) option" where
  "LUKSReadHeader D rawdev =
     do {
       (rc, d, rawdev1) \<leftarrow> BlkdevRead D rawdev 0 LUKS_HEADER_SIZE;
       if rc \<noteq> 0 then Some (-4, None, rawdev1)
       else
         (let header = header_of_bytes d
          in if magic header \<noteq> LUKS_MAGIC then Some (-5, None, rawdev1)
             else Some (0, Some (LUKSFixByteOrder header), rawdev1))
     }"

definition LUKSGetPayloadSector ::
  "('c, 'e, 'x, 'd) crypto_lib \<Rightarrow> 's blkdev \<Rightarrow> heap \<Rightarrow> 's \<Rightarrow> LUKSHeader \<Rightarrow> bytes \<Rightarrow> nat \<Rightarrow> bytes
   \<Rightarrow> (int \<times> bytes \<times> 's \<times> heap) option" where
  "LUKSGetPayloadSector K D h rawdev header masterKey sectorNumber sector =
     do {
       (rc, d, rawdev1) \<leftarrow> BlkdevRead D rawdev (u64 (unat (payload_offset header) + sectorNumber)) LUKS_SECTOR_SIZE;
       if rc \<noteq> 0 then Some (-1, sector, rawdev1, h)
       else
         do {
           (rc, d', sector', h') \<leftarrow>
             LUKSCrypt K h LUKS_CRYPT_MODE_DECRYPT header masterKey d sector LUKS_SECTOR_SIZE sectorNumber;
           Some (if rc \<noteq> 0 then -1 else 0, sector', rawdev1, h')
         }
     }"

definition LUKSPutPayloadSector ::
  "('c, 'e, 'x, 'd) crypto_lib \<Rightarrow> 's blkdev \<Rightarrow> heap \<Rightarrow> 's \<Rightarrow> LUKSHeader \<Rightarrow> bytes \<Rightarrow> nat \<Rightarrow> bytes
   \<Rightarrow> (int \<times> 's \<times> heap) option" where
  "LUKSPutPayloadSector K D h rawdev header masterKey sectorNumber sector =
     do {
       (rc, sector', data, h') \<leftarrow>
         LUKSCrypt K h LUKS_CRYPT_MODE_ENCRYPT header masterKey sector (replicate LUKS_SECTOR_SIZE 0)
           LUKS_SECTOR_SIZE sectorNumber;
       if rc \<noteq> 0 then Some (-1, rawdev, h')
       else
         do {
           (rc, rawdev1) \<leftarrow> BlkdevWrite D rawdev (u64 (unat (payload_offset header) + sectorNumber)) data LUKS_SECTOR_SIZE;
           Some (if rc \<noteq> 0 then -1 else 0, rawdev1, h')
         }
     }"

definition LUKSMatchHeader ::
  "('c, 'e, 'x, 'd) crypto_lib \<Rightarrow> bytes \<Rightarrow> bytes \<Rightarrow> nat \<Rightarrow> bool option" where
  "LUKSMatchHeader K sectors masterkeyData masterkeySize =
     (if masterkeySize = 0 then Some False
      else
        do {
          u \<leftarrow> load 0 (2 * LUKS_SECTOR_SIZE) sectors;
          let raw = header_of_bytes (take LUKS_HEADER_SIZE u);
          if magic raw \<noteq> LUKS_MAGIC then Some False
          else
            do {
              let header = LUKSFixByteOrder raw;
              if masterkeySize \<noteq> unat (key_bytes header) then Some False
              else
                do {
                  (rc, mkDigest) \<leftarrow> LUKSComputeMKDigest K header masterkeyData (replicate LUKS_DIGEST_SIZE 0);
                  if rc \<noteq> 0 then Some False
                  else Some (take LUKS_DIGEST_SIZE (mk_digest header) = take LUKS_DIGEST_SIZE mkDigest)
                }
            }
        })"

section \<open>Properties\<close>

subsection \<open>A recovered key matches the digest in the header\<close>

lemma UnsealMasterKey_digest:
  assumes "UnsealMasterKey K D h rawdev header slot passphrase n masterKey = Some (0, mk, rawdev', h')"
  shows "\<exists>dg. LUKSComputeMKDigest K header mk (replicate LUKS_DIGEST_SIZE 0) = Some (0, dg) \<and>
    take 20 dg = take 20 (mk_digest header)"
  using assms
  by (auto simp: UnsealMasterKey_def LUKSComputeMKDigest_def LUKS_DIGEST_SIZE_def Let_def
      split: prod.splits option.splits bind_splits if_splits)

lemma GetMasterKey_loop_digest:
  assumes "GetMasterKey_loop K D h rawdev header ss passphrase n masterKey rc = Some (0, mk, rawdev', h')" "rc \<noteq> 0"
  shows "\<exists>slot \<in> set ss. enabled slot = LUKS_SLOT_ENABLED \<and>
    (\<exists>dg. LUKSComputeMKDigest K header mk (replicate LUKS_DIGEST_SIZE 0) = Some (0, dg) \<and>
      take 20 dg = take 20 (mk_digest header))"
  using assms
proof (induction ss arbitrary: h rawdev masterKey rc)
  case (Cons slot ss)
  show ?case
  proof (cases "enabled slot = LUKS_SLOT_ENABLED")
    case False
    with Cons show ?thesis by (auto split: if_splits)
  next
    case True
    then have "enabled slot \<noteq> LUKS_SLOT_DISABLED" by (simp add: LUKS_SLOT_ENABLED_def LUKS_SLOT_DISABLED_def)
    with Cons.prems(1) True obtain rc1 mk1 dev1 h1 where
      u: "UnsealMasterKey K D h rawdev header slot passphrase n masterKey = Some (rc1, mk1, dev1, h1)"
      and r: "rc1 = 0 \<and> mk1 = mk \<or>
        rc1 \<noteq> 0 \<and> GetMasterKey_loop K D h1 dev1 header ss passphrase n mk1 rc1 = Some (0, mk, rawdev', h')"
      by (auto split: bind_splits if_splits)
    from r show ?thesis
    proof
      assume "rc1 = 0 \<and> mk1 = mk"
      with u True UnsealMasterKey_digest show ?thesis by fastforce
    next
      assume "rc1 \<noteq> 0 \<and> GetMasterKey_loop K D h1 dev1 header ss passphrase n mk1 rc1 = Some (0, mk, rawdev', h')"
      with Cons.IH show ?thesis by fastforce
    qed
  qed
qed simp

subsection \<open>The merge undoes the anti-forensic split\<close>

text \<open>The diffusion function of the LUKS format: every hash block is replaced by its numbered hash.\<close>

function diffuse_blocks :: "(sha_alg \<Rightarrow> bytes \<Rightarrow> bytes) \<Rightarrow> sha_alg \<Rightarrow> nat \<Rightarrow> bytes \<Rightarrow> bytes" where
  "diffuse_blocks H alg i d =
     (if d = [] then []
      else (let c = take (SHAHashSize alg) d
            in take (length c) (H alg (rev (nat_le 4 i) @ c)) @
               diffuse_blocks H alg (Suc i) (drop (SHAHashSize alg) d)))"
  by pat_completeness auto
termination
  by (relation "measure (\<lambda>(H, alg, i, d). length d)")
    (auto simp: SHAHashSize_def split: sha_alg.split)

declare diffuse_blocks.simps [simp del]

text \<open>Splitting: random stripes, then the stripe that makes the combination yield the key.\<close>

definition af_step :: "(sha_alg \<Rightarrow> bytes \<Rightarrow> bytes) \<Rightarrow> sha_alg \<Rightarrow> bytes \<Rightarrow> bytes \<Rightarrow> bytes" where
  "af_step H alg d s = diffuse_blocks H alg 0 (ComputeXOR d s)"

definition af_split :: "(sha_alg \<Rightarrow> bytes \<Rightarrow> bytes) \<Rightarrow> sha_alg \<Rightarrow> bytes \<Rightarrow> bytes list \<Rightarrow> bytes list" where
  "af_split H alg key random = random @ [ComputeXOR (foldl (af_step H alg) (replicate (length key) 0) random) key]"

lemma hash_size_pos [simp]: "0 < SHAHashSize alg"
  by (simp add: SHAHashSize_def split: sha_alg.split)

lemma rounds_less:
  fixes b hs i :: nat
  assumes "0 < hs"
  shows "i < b div hs + (if b mod hs \<noteq> 0 then 1 else 0) \<longleftrightarrow> i * hs < b"
proof -
  have b: "b = b div hs * hs + b mod hs" and m: "b mod hs < hs" using assms by simp_all
  show ?thesis
  proof (cases "b mod hs = 0")
    case True
    then have e: "b = b div hs * hs" using b by simp
    have "i < b div hs \<longleftrightarrow> i * hs < b div hs * hs" using assms by simp
    with True e show ?thesis by simp
  next
    case False
    have "i \<le> b div hs \<Longrightarrow> i * hs < b"
    proof -
      assume "i \<le> b div hs"
      then have "i * hs \<le> b div hs * hs" by (rule mult_right_mono) simp
      with False b show "i * hs < b" by linarith
    qed
    moreover have "\<not> i * hs < b" if "b div hs < i"
    proof -
      from that have "Suc (b div hs) * hs \<le> i * hs" by (intro mult_right_mono) auto
      then have "b div hs * hs + hs \<le> i * hs" by simp
      with b m show ?thesis by linarith
    qed
    ultimately show ?thesis using False by (cases "i \<le> b div hs") auto
  qed
qed

lemma diffuse_round:
  assumes L: "sha_lib_ok L H hashed"
    and i: "i < rounds" "i * SHAHashSize alg = length pre" "i < 2 ^ 32"
    and d: "d \<noteq> []" "bytes = length pre + length d"
  shows "DiffuseSHA_loop L alg (pre @ d) bytes rounds i =
    DiffuseSHA_loop L alg
      (pre @ take (length (take (SHAHashSize alg) d)) (H alg (rev (nat_le 4 i) @ take (SHAHashSize alg) d)) @
        drop (SHAHashSize alg) d) bytes rounds (Suc i)"
proof -
  let ?hs = "SHAHashSize alg"
  let ?c = "take ?hs d" and ?iv = "rev (nat_le 4 i)"
  let ?hash = "H alg (?iv @ ?c)"
  obtain c0 c1 c2 where c: "SHAInit L alg = Some c0" "SHAUpdate L c0 ?iv = Some c1"
    "SHAUpdate L c1 ?c = Some c2" "SHAFinal L c2 = Some ?hash"
    by (rule sha_two_pieces [OF L, of alg ?iv ?c])
  have iv: "nat_le 4 (unat (ByteSwapU32 (of_nat i))) = ?iv"
    using i(3) by (simp add: ByteSwapU32_bytes unat_of_nat)
  have sz: "(if ?hs > bytes - i * ?hs then bytes - i * ?hs else ?hs) = length ?c"
    using d(2) i(2) by (auto simp: min_def)
  have ld: "load (i * ?hs) (length ?c) (pre @ d) = Some ?c"
    using i(2) by (simp add: load_def slice_def) (simp add: min_def)
  have "length ?hash = ?hs" using L by (simp add: sha_lib_ok_def)
  then have th: "length (take (length ?c) ?hash) = length ?c" by simp
  have st: "store (i * ?hs) (take (length ?c) ?hash) (pre @ d) = Some (pre @ take (length ?c) ?hash @ drop ?hs d)"
    using i(2) th by (auto simp: store_def overwrite_append min_def)
  show ?thesis
    unfolding DiffuseSHA_loop.simps [of L alg "pre @ d" bytes rounds i] Let_def iv sz
    using i(1) c ld st by simp
qed

lemma DiffuseSHA_loop_spec:
  assumes L: "sha_lib_ok L H hashed"
    and "bytes = length pre + length d" "d \<noteq> [] \<longrightarrow> i * SHAHashSize alg = length pre"
    and "d = [] \<longrightarrow> bytes \<le> i * SHAHashSize alg" "bytes < 2 ^ 32"
    and r: "rounds = bytes div SHAHashSize alg + (if bytes mod SHAHashSize alg \<noteq> 0 then 1 else 0)"
  shows "DiffuseSHA_loop L alg (pre @ d) bytes rounds i = Some (0, pre @ diffuse_blocks H alg i d)"
  using assms(2-5)
proof (induction "length d" arbitrary: pre d i rule: less_induct)
  case less
  let ?hs = "SHAHashSize alg"
  have cond: "i < rounds \<longleftrightarrow> i * ?hs < bytes" unfolding r by (rule rounds_less) simp
  show ?case
  proof (cases "d = []")
    case True
    with cond less.prems show ?thesis by (subst DiffuseSHA_loop.simps) (simp add: diffuse_blocks.simps)
  next
    case False
    let ?c = "take ?hs d"
    let ?out = "take (length ?c) (H alg (rev (nat_le 4 i) @ ?c))"
    have i: "i * ?hs = length pre" using less.prems(2) False by simp
    have lt: "i < rounds" using cond i False less.prems(1) by simp
    have "i \<le> i * ?hs" by (simp add: Suc_le_eq)
    then have i32: "i < 2 ^ 32" using i less.prems(1,4) by linarith
    have "length (H alg (rev (nat_le 4 i) @ ?c)) = ?hs" using L by (simp add: sha_lib_ok_def)
    then have lo: "length ?out = length ?c" by simp
    have shorter: "length (drop ?hs d) < length d" using False by (simp add: hash_size_pos)
    have "DiffuseSHA_loop L alg (pre @ d) bytes rounds i =
        DiffuseSHA_loop L alg ((pre @ ?out) @ drop ?hs d) bytes rounds (Suc i)"
      using diffuse_round [OF L lt i i32 False less.prems(1)] by simp
    also have "\<dots> = Some (0, (pre @ ?out) @ diffuse_blocks H alg (Suc i) (drop ?hs d))"
    proof (rule less.hyps [OF shorter])
      show "bytes = length (pre @ ?out) + length (drop ?hs d)"
        unfolding length_append lo using less.prems(1) by (simp add: min_def)
      show "drop ?hs d \<noteq> [] \<longrightarrow> Suc i * ?hs = length (pre @ ?out)"
        unfolding length_append lo using i by (simp add: min_def)
      show "drop ?hs d = [] \<longrightarrow> bytes \<le> Suc i * ?hs" using less.prems(1) i by simp
      show "bytes < 2 ^ 32" by (rule less.prems(4))
    qed
    also have "(pre @ ?out) @ diffuse_blocks H alg (Suc i) (drop ?hs d) = pre @ diffuse_blocks H alg i d"
      using False by (subst (2) diffuse_blocks.simps) (simp add: Let_def)
    finally show ?thesis .
  qed
qed

lemma DiffuseSHA_spec:
  assumes "sha_lib_ok L H hashed" "length d < 2 ^ 32"
  shows "DiffuseSHA L alg d (length d) = Some (0, diffuse_blocks H alg 0 d)"
  using DiffuseSHA_loop_spec [OF assms(1), where pre = "[]" and d = d and i = 0 and bytes = "length d"] assms(2)
  by (simp add: DiffuseSHA_def Let_def)

lemma length_diffuse_blocks:
  assumes "sha_lib_ok L H hashed"
  shows "length (diffuse_blocks H alg i d) = length d"
proof (induction "length d" arbitrary: d i rule: less_induct)
  case less
  have h: "length (H alg m) = SHAHashSize alg" for m using assms by (simp add: sha_lib_ok_def)
  show ?case
  proof (cases "d = []")
    case False
    then have "length (drop (SHAHashSize alg) d) < length d" by simp
    from less.hyps [OF this] False h show ?thesis
      by (subst diffuse_blocks.simps) (simp add: Let_def)
  qed (simp add: diffuse_blocks.simps)
qed

definition header_hash :: "LUKSHeader \<Rightarrow> sha_alg \<Rightarrow> bool" where
  "header_hash header alg \<longleftrightarrow> diffuse_alg header = Some (Some alg)"

lemma length_ComputeXOR [simp]: "length (ComputeXOR a b) = min (length a) (length b)"
  by (simp add: ComputeXOR_def)

lemma ComputeXOR_cancel: "length a = length b \<Longrightarrow> ComputeXOR a (ComputeXOR a b) = b"
proof (induction a b rule: list_induct2)
  case (Cons x xs y ys)
  have "x XOR (x XOR y) = y" by (simp add: xor.assoc [symmetric])
  with Cons show ?case by (simp add: ComputeXOR_def)
qed (simp add: ComputeXOR_def)

lemma unat32_less: "unat (w :: 32 word) < 2 ^ 32"
  using unsigned_less [where 'b = 32 and 'a = nat, of w] by simp

lemma AFMerge_round:
  assumes L: "sha_lib_ok L H hashed" "header_hash header alg"
    and kb: "unat (key_bytes header) = k" "length d = k" "length stripe = k"
    and ld: "load (u32 (i * k)) k stripes = Some stripe"
    and i: "i < n" "n < 2 ^ 32"
  shows "AFMerge_loop L header stripes n i d =
    AFMerge_loop L header stripes n (Suc i) (if Suc i = n then ComputeXOR d stripe else af_step H alg d stripe)"
proof -
  have k32: "k < 2 ^ 32" using kb(1) unat32_less [of "key_bytes header"] by simp
  have "Diffuse L header (ComputeXOR d stripe) k = Some (0, af_step H alg d stripe)"
    using L(2) DiffuseSHA_spec [OF L(1), of "ComputeXOR d stripe" alg] kb(2,3) k32
    by (simp add: Diffuse_def header_hash_def af_step_def)
  moreover have "store 0 (ComputeXOR d stripe) d = Some (ComputeXOR d stripe)"
    using kb by (simp add: store_def overwrite_def)
  moreover have "load 0 k d = Some d" using kb by (simp add: load_def)
  moreover have "u32 (i + 1) = Suc i" using i by simp
  ultimately show ?thesis
    using i(1) ld kb(1) by (subst AFMerge_loop.simps) (simp add: Let_def)
qed

lemma concat_stripe:
  assumes "\<forall>s \<in> set (pre @ stripe # rest). length s = k"
  shows "load (length pre * k) k (concat (pre @ stripe # rest)) = Some stripe"
proof -
  have "length (concat pre) = length pre * k" using assms by (induction pre) auto
  with assms show ?thesis using load_append_at [of "concat pre" "length pre * k" stripe k "concat rest"] by simp
qed

lemma AFMerge_loop_spec:
  assumes L: "sha_lib_ok L H hashed" "header_hash header alg" and kb: "unat (key_bytes header) = k"
    and "length d = k" "\<forall>s \<in> set (pre @ xs @ [final]). length s = k"
    and n: "n = length (pre @ xs @ [final])" "n * k < 2 ^ 32" "n < 2 ^ 32"
  shows "AFMerge_loop L header (concat (pre @ xs @ [final])) n (length pre) d =
    Some (0, ComputeXOR (foldl (af_step H alg) d xs) final)"
  using assms(4-6)
proof (induction xs arbitrary: pre d)
  case Nil
  have "length pre * k \<le> n * k" using Nil.prems(3) by (intro mult_right_mono) auto
  then have u: "u32 (length pre * k) = length pre * k" using n(2) by (intro u32_small) linarith
  have ld: "load (u32 (length pre * k)) k (concat (pre @ [] @ [final])) = Some final"
    unfolding u using concat_stripe [of pre final "[]" k] Nil.prems(2) by simp
  have "AFMerge_loop L header (concat (pre @ [] @ [final])) n (length pre) d =
      AFMerge_loop L header (concat (pre @ [] @ [final])) n n (ComputeXOR d final)"
    using AFMerge_round [OF L kb Nil.prems(1) _ ld, of n] Nil.prems n(3) by simp
  then show ?case by (subst (asm) (2) AFMerge_loop.simps) simp
next
  case (Cons x xs)
  have "length pre * k \<le> n * k" using Cons.prems(3) by (intro mult_right_mono) auto
  then have u: "u32 (length pre * k) = length pre * k" using n(2) by (intro u32_small) linarith
  have ld: "load (u32 (length pre * k)) k (concat (pre @ (x # xs) @ [final])) = Some x"
    unfolding u using concat_stripe [of pre x "xs @ [final]" k] Cons.prems(2) by simp
  have "AFMerge_loop L header (concat (pre @ (x # xs) @ [final])) n (length pre) d =
      AFMerge_loop L header (concat ((pre @ [x]) @ xs @ [final])) n (length (pre @ [x])) (af_step H alg d x)"
    using AFMerge_round [OF L kb Cons.prems(1) _ ld, of n] Cons.prems n(3) by simp
  also have "\<dots> = Some (0, ComputeXOR (foldl (af_step H alg) (af_step H alg d x) xs) final)"
  proof (rule Cons.IH)
    show "length (af_step H alg d x) = k"
      using Cons.prems(1,2) by (simp add: af_step_def length_diffuse_blocks [OF L(1)])
  qed (use Cons.prems in auto)
  finally show ?case by simp
qed

lemma AFMerge_split:
  assumes L: "sha_lib_ok L H hashed" "header_hash header alg"
    and k: "unat (key_bytes header) = length key" "length old = length key"
    and r: "\<forall>s \<in> set random. length s = length key"
    and n: "unat (af_stripes slot) = Suc (length random)" "Suc (length random) * length key < 2 ^ 32"
  shows "AFMerge L header slot (concat (af_split H alg key random)) old = Some (0, key)"
proof -
  let ?d = "foldl (af_step H alg) (replicate (length key) 0) random"
  have len: "length (foldl (af_step H alg) d xs) = length d" if "\<forall>s \<in> set xs. length s = length d" for d xs
    using that
  proof (induction xs arbitrary: d)
    case (Cons x xs)
    then have "length (af_step H alg d x) = length d"
      by (simp add: af_step_def length_diffuse_blocks [OF L(1)])
    with Cons show ?case by simp
  qed simp
  have ld: "length ?d = length key" using r len [of random "replicate (length key) 0"] by simp
  have n32: "Suc (length random) < 2 ^ 32" using n(1) unat32_less [of "af_stripes slot"] by simp
  have "AFMerge_loop L header (concat (af_split H alg key random)) (Suc (length random)) 0 (replicate (length key) 0) =
      Some (0, ComputeXOR ?d (ComputeXOR ?d key))"
    using AFMerge_loop_spec [OF L k(1), of "replicate (length key) 0" "[]" random "ComputeXOR ?d key" "Suc (length random)"]
      r ld n(2) n32 by (simp add: af_split_def)
  then show ?thesis
    using k n(1) ld by (simp add: AFMerge_def store_def overwrite_def ComputeXOR_cancel)
qed

subsection \<open>Payload sectors over a block device\<close>

lemma crypt_one_sector:
  assumes "sector_cipher_ok K header key" "plain_header header" "length key = unat (key_bytes header)"
    and "length d = 512" "length buf = 512" "sec + 1 < 2 ^ 64" "heap_ok h"
  shows "LUKSCrypt K h mode header key d buf 512 sec =
    Some (0, d, sector_crypt K header key mode sec d, heap_next (heap_next h))"
proof -
  have "h 0 \<noteq> None" "h 1 \<noteq> None" using assms(7) by (auto simp: heap_ok_def)
  with LUKSCrypt_plain [OF assms(1-3), of d 1 buf sec h mode] assms(4-6) show ?thesis
    by (simp add: crypt_sectors_def)
qed

context blkdev_image
begin

lemma payload_roundtrip:
  assumes inv: "inv s" "ready s"
    and ok: "sector_cipher_ok K header key" "plain_header header" "length key = unat (key_bytes header)"
    and sec: "(unat (payload_offset header) + sec + 1) * 512 \<le> length (image s)"
    and d: "length d = 512" "length buf = 512" and h: "heap_ok h"
  shows "\<exists>s1 s2 h1 h2. LUKSPutPayloadSector K D h s header key sec d = Some (0, s1, h1) \<and>
    LUKSGetPayloadSector K D h1 s1 header key sec buf = Some (0, d, s2, h2)"
proof -
  let ?b = "unat (payload_offset header) + sec" and ?h = "heap_next (heap_next h)"
  let ?e = "sector_crypt K header key LUKS_CRYPT_MODE_ENCRYPT sec d"
  have lt: "?b < 2 ^ 64" "sec + 1 < 2 ^ 64" using sec image_bound [OF inv(1)] by simp_all
  have le: "length ?e = 512" by (rule sector_crypt_ok(2) [OF ok(1) d(1)])
  have rng: "?b * 512 + 512 \<le> length (image s)" using sec by simp
  from read_after_write [OF inv rng le] obtain s1 s2 where
    s: "BlkdevWrite D s ?b ?e 512 = Some (0, s1)" "BlkdevRead D s1 ?b 512 = Some (0, ?e, s2)" by blast
  have "LUKSPutPayloadSector K D h s header key sec d = Some (0, s1, ?h)"
    using crypt_one_sector [OF ok d(1) _ lt(2) h, of "replicate 512 0" LUKS_CRYPT_MODE_ENCRYPT] lt(1) s(1)
    by (simp add: LUKSPutPayloadSector_def LUKS_SECTOR_SIZE_def)
  moreover have "LUKSGetPayloadSector K D ?h s1 header key sec buf = Some (0, d, s2, heap_next (heap_next ?h))"
    using crypt_one_sector [OF ok le d(2) lt(2), of ?h LUKS_CRYPT_MODE_DECRYPT] lt(1) s(2) h
      sector_crypt_ok(3) [OF ok(1) d(1), of sec]
    by (simp add: LUKSGetPayloadSector_def LUKS_SECTOR_SIZE_def)
  ultimately show ?thesis by blast
qed

end

subsection \<open>Recovering a sealed key\<close>

text \<open>
  What \<open>cryptsetup\<close> leaves for a master key \<open>key\<close> in a slot: the key material area holds the
  anti-forensic split of the key, encrypted under the key derived from the passphrase, and the
  header holds the digest of the key. The derived key and the digest are what the library's
  \<open>PKCS5_PBKDF2_HMAC\<close> computes.
\<close>

definition derives ::
  "('c, 'e, 'x, 'd) crypto_lib \<Rightarrow> LUKSHeader \<Rightarrow> bytes \<Rightarrow> int \<Rightarrow> bytes \<Rightarrow> 32 word \<Rightarrow> nat \<Rightarrow> bytes \<Rightarrow> bool" where
  "derives K header pass passlen salt iters n out \<longleftrightarrow>
     length out = n \<and>
     PKCS5_PBKDF2_HMAC K pass passlen salt 32 (s32 (uint iters)) (EVP_get_digestbyname K (hash_spec header)) (s32 (int n)) = Some out"

definition sealed ::
  "('c, 'e, 'x, 'd) crypto_lib \<Rightarrow> (sha_alg \<Rightarrow> bytes \<Rightarrow> bytes) \<Rightarrow> LUKSHeader \<Rightarrow> LUKSKeySlot \<Rightarrow> bytes \<Rightarrow> nat \<Rightarrow> bytes \<Rightarrow> bytes \<Rightarrow> bool" where
  "sealed K H header slot pass passlen disk key \<longleftrightarrow>
     unat (key_bytes header) = length key \<and> plain_header header \<and>
     (\<exists>alg random dk n.
        header_hash header alg \<and> (\<forall>s \<in> set random. length s = length key) \<and>
        unat (af_stripes slot) = Suc (length random) \<and> Suc (length random) * length key = n * 512 \<and> n * 512 < 2 ^ 32 \<and>
        derives K header pass (s32 (int passlen)) (password_salt slot) (password_iters slot) (length key) dk \<and>
        sector_cipher_ok K header dk \<and>
        (unat (key_material_offset slot) + n) * 512 \<le> length disk \<and>
        slice (unat (key_material_offset slot) * 512) (n * 512) disk =
          crypt_sectors K header dk LUKS_CRYPT_MODE_ENCRYPT 0 (concat (af_split H alg key random)) n) \<and>
     (\<exists>dg. derives K header key (s32 (int (length key))) (mk_digest_salt header) (mk_digest_iter header) 20 dg \<and>
        dg = take 20 (mk_digest header))"

lemma derives_DeriveKey:
  assumes "derives K header pass passlen salt iters n out" "length buf = n"
  shows "LUKSDeriveKey K pass passlen salt 32 (s32 (uint iters)) (hash_spec header) (s32 (int n)) buf = Some (0, out)"
  using assms by (simp add: derives_def LUKSDeriveKey_def store_def overwrite_def)

lemma length_af_split:
  assumes "sha_lib_ok L H hashed" "\<forall>s \<in> set random. length s = length key"
  shows "length (concat (af_split H alg key random)) = Suc (length random) * length key"
proof -
  have len: "length (foldl (af_step H alg) d xs) = length d" if "\<forall>s \<in> set xs. length s = length d" for d xs
    using that by (induction xs arbitrary: d) (simp_all add: af_step_def length_diffuse_blocks [OF assms(1)])
  have "length (concat random) = length random * length key" using assms(2) by (induction random) simp_all
  moreover have "length (foldl (af_step H alg) (replicate (length key) 0) random) = length key"
    using len [of random "replicate (length key) 0"] assms(2) by simp
  ultimately show ?thesis by (simp add: af_split_def)
qed

context blkdev_image
begin

lemma unseal_recovers:
  assumes inv: "inv s" "ready s" and h: "heap_ok h" and L: "sha_lib_ok (sha K) H hashed"
    and sl: "sealed K H header slot pass passlen (image s) key" and old: "length old = length key"
  shows "\<exists>s' h'. UnsealMasterKey K D h s header slot pass passlen old = Some (0, key, s', h')"
proof -
  let ?o = "unat (key_material_offset slot)"
  from sl obtain alg random dk n where
    kb: "unat (key_bytes header) = length key" and pl: "plain_header header" and alg: "header_hash header alg"
    and rd: "\<forall>s \<in> set random. length s = length key" and st: "unat (af_stripes slot) = Suc (length random)"
    and n: "Suc (length random) * length key = n * 512" "n * 512 < 2 ^ 32"
    and dk: "derives K header pass (s32 (int passlen)) (password_salt slot) (password_iters slot) (length key) dk"
    and ok: "sector_cipher_ok K header dk" and rng: "(?o + n) * 512 \<le> length (image s)"
    and dsk: "slice (?o * 512) (n * 512) (image s) =
      crypt_sectors K header dk LUKS_CRYPT_MODE_ENCRYPT 0 (concat (af_split H alg key random)) n"
    unfolding sealed_def by blast
  from sl have dg: "derives K header key (s32 (int (length key))) (mk_digest_salt header) (mk_digest_iter header) 20 (take 20 (mk_digest header))"
    unfolding sealed_def by blast
  let ?enc = "crypt_sectors K header dk LUKS_CRYPT_MODE_ENCRYPT 0 (concat (af_split H alg key random)) n"
  let ?pl = "concat (af_split H alg key random)"
  have lp: "length ?pl = n * 512" unfolding length_af_split [OF L rd] by (rule n(1))
  have le: "length ?enc = n * 512" by (rule length_crypt_sectors [OF ok lp])
  have ldk: "length dk = length key" using dk by (simp add: derives_def)
  have k32: "length key < 2 ^ 32" using kb unat32_less [of "key_bytes header"] by simp
  have rng': "?o * 512 + n * 512 \<le> length (image s)" using rng by (simp add: algebra_simps)
  from read_ok [OF inv rng'] dsk obtain s' where rd': "BlkdevRead D s ?o (n * 512) = Some (0, ?enc, s')" by auto
  have sb: "u32 (length key * Suc (length random)) = n * 512" using n by (simp add: mult.commute)
  have al: "\<exists>x. Malloc h' m = (Some (replicate m x), heap_next h')" if "heap_ok h'" "m < 2 ^ 32" for h' m
    using heap_ok_0 [OF that(1)] that(2) by (auto simp: Malloc_def)
  obtain x1 x2 x3 where m: "Malloc h (length key) = (Some (replicate (length key) x1), heap_next h)"
    "Malloc (heap_next h) (n * 512) = (Some (replicate (n * 512) x2), heap_next (heap_next h))"
    "Malloc (heap_next (heap_next h)) (n * 512) = (Some (replicate (n * 512) x3), heap_next (heap_next (heap_next h)))"
    using al [OF h k32] al [OF _ n(2), of "heap_next h"] al [OF _ n(2), of "heap_next (heap_next h)"] h by auto
  let ?h = "heap_next (heap_next (heap_next h))"
  have "?h 0 \<noteq> None" "?h 1 \<noteq> None" using h by (auto simp: heap_ok_def heap_next_def)
  then have cr: "LUKSCrypt K ?h LUKS_CRYPT_MODE_DECRYPT header dk ?enc (replicate (n * 512) x3) (n * 512) 0 =
      Some (0, ?enc, ?pl, heap_next (heap_next ?h))"
    using LUKSCrypt_plain [OF ok pl, of ?enc n "replicate (n * 512) x3" 0 ?h LUKS_CRYPT_MODE_DECRYPT]
      ldk kb le n(2) decrypt_encrypt_sectors [OF ok lp, of 0] by simp
  have mg: "AFMerge (sha K) header slot ?pl old = Some (0, key)"
    using n by (intro AFMerge_split [OF L alg kb old rd st]) simp
  have se: "store 0 ?enc (replicate (n * 512) x2) = Some ?enc" using le by (simp add: store_def overwrite_def)
  have d1: "LUKSDeriveKey K pass (s32 (int passlen)) (password_salt slot) 32 (s32 (uint (password_iters slot))) (hash_spec header)
      (s32 (int (length key))) (replicate (length key) x1) = Some (0, dk)"
    by (rule derives_DeriveKey [OF dk]) simp
  have d2: "LUKSDeriveKey K key (s32 (int (length key))) (mk_digest_salt header) 32 (s32 (uint (mk_digest_iter header))) (hash_spec header)
      20 (replicate 20 0) = Some (0, take 20 (mk_digest header))"
    using derives_DeriveKey [OF dg, of "replicate 20 0"] by simp
  show ?thesis
    by (simp add: UnsealMasterKey_def Let_def kb st sb [simplified] m d1 d2 rd' se cr mg LUKS_DIGEST_SIZE_def)
qed

lemma master_key_recovered:
  assumes inv: "inv s" "ready s" and h: "heap_ok h" and L: "sha_lib_ok (sha K) H hashed"
    and ss: "slots header = pre @ slot # rest" "\<forall>p \<in> set pre. enabled p = LUKS_SLOT_DISABLED" "enabled slot = LUKS_SLOT_ENABLED"
    and sl: "sealed K H header slot pass passlen (image s) key" and old: "length old = length key"
  shows "\<exists>s' h'. LUKSGetMasterKey K D h s header pass passlen old = Some (0, key, s', h')"
proof -
  have ne: "LUKS_SLOT_ENABLED \<noteq> LUKS_SLOT_DISABLED" by (simp add: LUKS_SLOT_ENABLED_def LUKS_SLOT_DISABLED_def)
  have skip: "GetMasterKey_loop K D h s header (ps @ slot # rest) pass passlen old rc =
      GetMasterKey_loop K D h s header (slot # rest) pass passlen old rc"
    if "\<forall>p \<in> set ps. enabled p = LUKS_SLOT_DISABLED" for ps rc
    using that by (induction ps) simp_all
  from unseal_recovers [OF inv h L sl old] ne ss(3) skip [OF ss(2), of "-1"] show ?thesis
    by (auto simp: LUKSGetMasterKey_def ss(1))
qed

end

section \<open>Claims\<close>

text \<open>
  C33: \<open>_AFMerge\<close> undoes the anti-forensic split of the LUKS format: for any random stripes, merging
  the stripes of a split key gives the key back, for each of the four hash functions.
\<close>

theorem AFMerge_undoes_split:
  assumes "sha_lib_ok L H hashed" "header_hash header alg"
    and "unat (key_bytes header) = length key" "length old = length key"
    and "\<forall>s \<in> set random. length s = length key"
    and "unat (af_stripes slot) = Suc (length random)" "Suc (length random) * length key < 2 ^ 32"
  shows "AFMerge L header slot (concat (af_split H alg key random)) old = Some (0, key)"
  using assms by (rule AFMerge_split)

theorem AFMerge_undoes_split_witness:
  "AFMerge toy_sha_lib (toy_header\<lparr>key_bytes := 2\<rparr>) (hd (slots toy_header)\<lparr>af_stripes := 3\<rparr>)
     (concat (af_split toy_sha SHA256_ALG [6, 7] [[1, 2], [3, 4]])) [0, 0] = Some (0, [6, 7])"
  by (rule AFMerge_undoes_split [OF toy_sha_lib_ok])
    (simp_all add: header_hash_def diffuse_alg_def hash_spec_is_def toy_header_def)

end
