(* ===== verification/LuksBlkdev.thy ===== *)
theory LuksBlkdev
  imports LuksKey
begin

text \<open>
  The LUKS block device of \<open>lsvmutils/luksblkdev.c\<close>: a device over a raw device whose blocks
  from \<open>payload_offset\<close> on are encrypted. A null \<open>masterkey\<close> is \<open>None\<close>; a raw device is
  always present. The buffer that a read fills is the caller's; its old contents play no
  part, and it is modelled as cleared.
\<close>

definition LUKSBLKDEV_MAGIC :: "32 word" where
  "LUKSBLKDEV_MAGIC = 0x5acdeed9"

record 's luks_dev =
  lmagic :: "32 word"
  lheader :: LUKSHeader
  rawdev :: 's
  masterkey :: "bytes option"
  lheap :: heap

definition ValidLUKSBlkdev :: "'s luks_dev \<Rightarrow> bool" where
  "ValidLUKSBlkdev dev \<longleftrightarrow> lmagic dev = LUKSBLKDEV_MAGIC"

definition luks_Close :: "'s blkdev \<Rightarrow> 's luks_dev \<Rightarrow> (int \<times> 's luks_dev) option" where
  "luks_Close D dev =
     (if \<not> ValidLUKSBlkdev dev then Some (-1, dev)
      else do { (rc, raw') \<leftarrow> Close D (rawdev dev); Some (0, dev\<lparr>rawdev := raw'\<rparr>) })"

definition luks_GetN ::
  "('c, 'e, 'x, 'd) crypto_lib \<Rightarrow> 's blkdev \<Rightarrow> 's luks_dev \<Rightarrow> nat \<Rightarrow> nat \<Rightarrow> (int \<times> bytes \<times> 's luks_dev) option" where
  "luks_GetN K D dev blkno nblocks =
     (let toRead = u64 (nblocks * BLKDEV_BLKSIZE)
      in case masterkey dev of
           None \<Rightarrow> Some (-1, [], dev)
         | Some key \<Rightarrow>
             if \<not> ValidLUKSBlkdev dev then Some (-1, [], dev)
             else if nblocks = 0 then Some (0, [], dev)
             else
               (case Malloc (lheap dev) toRead of
                  (None, h1) \<Rightarrow> Some (-1, [], dev\<lparr>lheap := h1\<rparr>)
                | (Some tmp, h1) \<Rightarrow>
                    do {
                      let startBlkno = u64 (unat (payload_offset (lheader dev)) + blkno);
                      (rc, d, raw1) \<leftarrow> GetN D (rawdev dev) startBlkno nblocks;
                      let dev1 = dev\<lparr>rawdev := raw1, lheap := h1\<rparr>;
                      if rc \<noteq> 0 then Some (-1, [], dev1)
                      else
                        do {
                          tmp1 \<leftarrow> store 0 d tmp;
                          (rc, tmp2, data, h2) \<leftarrow> LUKSCrypt K h1 LUKS_CRYPT_MODE_DECRYPT (lheader dev) key
                            tmp1 (replicate toRead 0) toRead blkno;
                          if rc \<noteq> 0 then Some (-1, [], dev1\<lparr>lheap := h2\<rparr>)
                          else Some (0, data, dev1\<lparr>lheap := h2\<rparr>)
                        }
                    }))"

definition luks_PutN ::
  "('c, 'e, 'x, 'd) crypto_lib \<Rightarrow> 's blkdev \<Rightarrow> 's luks_dev \<Rightarrow> nat \<Rightarrow> nat \<Rightarrow> bytes \<Rightarrow> (int \<times> 's luks_dev) option" where
  "luks_PutN K D dev blkno nblocks data =
     (let toWrite = u64 (nblocks * BLKDEV_BLKSIZE)
      in case masterkey dev of
           None \<Rightarrow> Some (-1, dev)
         | Some key \<Rightarrow>
             if \<not> ValidLUKSBlkdev dev then Some (-1, dev)
             else if nblocks = 0 then Some (0, dev)
             else
               (case Malloc (lheap dev) toWrite of
                  (None, h1) \<Rightarrow> Some (-1, dev\<lparr>lheap := h1\<rparr>)
                | (Some tmp, h1) \<Rightarrow>
                    do {
                      (rc, data', tmp1, h2) \<leftarrow> LUKSCrypt K h1 LUKS_CRYPT_MODE_ENCRYPT (lheader dev) key
                        data tmp toWrite blkno;
                      if rc \<noteq> 0 then Some (-1, dev\<lparr>lheap := h2\<rparr>)
                      else
                        do {
                          let startBlkno = u64 (unat (payload_offset (lheader dev)) + blkno);
                          (rc, raw1) \<leftarrow> PutN D (rawdev dev) startBlkno nblocks tmp1;
                          Some (if rc \<noteq> 0 then -1 else 0, dev\<lparr>rawdev := raw1, lheap := h2\<rparr>)
                        }
                    }))"

definition luks_SetFlags :: "'s luks_dev \<Rightarrow> 32 word \<Rightarrow> (int \<times> 's luks_dev) option" where
  "luks_SetFlags dev flags = Some (-1, dev)"

text \<open>
  The two function tables: \<open>LUKSBlkdevFromRawBytes\<close> sets all four pointers,
  \<open>LUKSBlkdevFromMasterkey\<close> leaves \<open>SetFlags\<close> null.
\<close>

definition luks_ops :: "('c, 'e, 'x, 'd) crypto_lib \<Rightarrow> 's blkdev \<Rightarrow> 's luks_dev blkdev" where
  "luks_ops K D = \<lparr>Close = luks_Close D, GetN = luks_GetN K D, PutN = luks_PutN K D, SetFlags = luks_SetFlags\<rparr>"

definition luks_ops_masterkey :: "('c, 'e, 'x, 'd) crypto_lib \<Rightarrow> 's blkdev \<Rightarrow> 's luks_dev blkdev" where
  "luks_ops_masterkey K D = (luks_ops K D)\<lparr>SetFlags := (\<lambda>dev flags. None)\<rparr>"

subsection \<open>Constructors\<close>

text \<open>The result: the new device (\<open>Inr\<close>) or the raw device, still the caller's (\<open>Inl\<close>), and the allocator.\<close>

definition LUKSBlkdevFromMasterkey ::
  "'s blkdev \<Rightarrow> heap \<Rightarrow> 's \<Rightarrow> bytes \<Rightarrow> nat \<Rightarrow> (('s + 's luks_dev) \<times> heap) option" where
  "LUKSBlkdevFromMasterkey D h raw key masterkeyBytes =
     do {
       (rc, hdr, raw1) \<leftarrow> LUKSReadHeader D raw;
       (case hdr of
          None \<Rightarrow> Some (Inl raw1, h)
        | Some header \<Rightarrow>
            if rc \<noteq> 0 then Some (Inl raw1, h)
            else if masterkeyBytes \<noteq> unat (key_bytes header) then Some (Inl raw1, h)
            else
              (case Calloc h 1 (unat (key_bytes header)) of
                 (None, h1) \<Rightarrow> Some (Inl raw1, h1)
               | (Some clone, h1) \<Rightarrow>
                   do {
                     src \<leftarrow> load 0 (unat (key_bytes header)) key;
                     clone' \<leftarrow> store 0 src clone;
                     (case h1 0 of
                        None \<Rightarrow> Some (Inl raw1, heap_next h1)
                      | Some _ \<Rightarrow>
                          Some (Inr \<lparr>lmagic = LUKSBLKDEV_MAGIC, lheader = header, rawdev = raw1,
                                     masterkey = Some clone', lheap = heap_next h1\<rparr>, heap_next h1))
                   }))
     }"

definition LUKSBlkdevFromRawBytes ::
  "('c, 'e, 'x, 'd) crypto_lib \<Rightarrow> 's blkdev \<Rightarrow> heap \<Rightarrow> 's \<Rightarrow> bytes \<Rightarrow> nat \<Rightarrow> (('s + 's luks_dev) \<times> heap) option" where
  "LUKSBlkdevFromRawBytes K D h raw passphrase passphraseSize =
     do {
       (rc, hdr, raw1) \<leftarrow> LUKSReadHeader D raw;
       (case hdr of
          None \<Rightarrow> Some (Inl raw1, h)
        | Some header \<Rightarrow>
            if rc \<noteq> 0 then Some (Inl raw1, h)
            else
              (case Calloc h 1 (unat (key_bytes header)) of
                 (None, h1) \<Rightarrow> Some (Inl raw1, h1)
               | (Some mk0, h1) \<Rightarrow>
                   do {
                     (rc, mk, raw2, h2) \<leftarrow> LUKSGetMasterKey K D h1 raw1 header passphrase passphraseSize mk0;
                     if rc \<noteq> 0 then Some (Inl raw2, h2)
                     else
                       (case h2 0 of
                          None \<Rightarrow> Some (Inl raw2, heap_next h2)
                        | Some _ \<Rightarrow>
                            Some (Inr \<lparr>lmagic = LUKSBLKDEV_MAGIC, lheader = header, rawdev = raw2,
                                       masterkey = Some mk, lheap = heap_next h2\<rparr>, heap_next h2))
                   }))
     }"

definition LUKSBlkdevFromPassphrase ::
  "('c, 'e, 'x, 'd) crypto_lib \<Rightarrow> 's blkdev \<Rightarrow> heap \<Rightarrow> 's \<Rightarrow> bytes \<Rightarrow> (('s + 's luks_dev) \<times> heap) option" where
  "LUKSBlkdevFromPassphrase K D h raw passphrase =
     do { n \<leftarrow> posix_strlen passphrase; LUKSBlkdevFromRawBytes K D h raw passphrase n }"

definition IsRawLUKSDevice :: "'s blkdev \<Rightarrow> 's \<Rightarrow> (bool \<times> 's) option" where
  "IsRawLUKSDevice D raw =
     do {
       (rc, u, raw1) \<leftarrow> BlkdevRead D raw 0 LUKS_HEADER_SIZE;
       if rc \<noteq> 0 then Some (False, raw1) else Some (take 6 u = LUKS_MAGIC, raw1)
     }"

definition LUKSBlkdevGetMasterKey :: "'s luks_dev \<Rightarrow> int \<times> (bytes \<times> nat) option" where
  "LUKSBlkdevGetMasterKey dev =
     (if \<not> ValidLUKSBlkdev dev then (-1, None)
      else
        (case masterkey dev of
           None \<Rightarrow> (-1, None)
         | Some key \<Rightarrow> (0, Some (key, unat (key_bytes (lheader dev))))))"

lemma luks_ops_simps [simp]:
  "Close (luks_ops K D) = luks_Close D" "GetN (luks_ops K D) = luks_GetN K D"
  "PutN (luks_ops K D) = luks_PutN K D" "SetFlags (luks_ops K D) = luks_SetFlags"
  by (simp_all add: luks_ops_def)

section \<open>The contract\<close>

text \<open>
  The image of the device is the decrypted payload. The allocation of a transfer buffer takes
  its size as \<open>unsigned int\<close>, so the contract is for raw devices below \<open>2^32\<close> bytes.
\<close>

definition luks_key :: "'s luks_dev \<Rightarrow> bytes" where
  "luks_key dev = the (masterkey dev)"

definition luks_start :: "'s luks_dev \<Rightarrow> nat" where
  "luks_start dev = unat (payload_offset (lheader dev))"

definition luks_inv ::
  "('c, 'e, 'x, 'd) crypto_lib \<Rightarrow> ('s \<Rightarrow> bool) \<Rightarrow> ('s \<Rightarrow> bytes) \<Rightarrow> 's luks_dev \<Rightarrow> bool" where
  "luks_inv K dinv img dev \<longleftrightarrow>
     ValidLUKSBlkdev dev \<and> (\<exists>key. masterkey dev = Some key \<and> length key = unat (key_bytes (lheader dev)) \<and>
       sector_cipher_ok K (lheader dev) key) \<and> plain_header (lheader dev) \<and>
     dinv (rawdev dev) \<and> length (img (rawdev dev)) < 2 ^ 32 \<and>
     luks_start dev * 512 \<le> length (img (rawdev dev))"

definition luks_sect ::
  "('c, 'e, 'x, 'd) crypto_lib \<Rightarrow> ('s \<Rightarrow> bytes) \<Rightarrow> 's luks_dev \<Rightarrow> nat \<Rightarrow> bytes" where
  "luks_sect K img dev i =
     sector_crypt K (lheader dev) (luks_key dev) LUKS_CRYPT_MODE_DECRYPT i
       (slice ((luks_start dev + i) * 512) 512 (img (rawdev dev)))"

definition luks_size :: "('s \<Rightarrow> bytes) \<Rightarrow> 's luks_dev \<Rightarrow> nat" where
  "luks_size img dev = length (img (rawdev dev)) div 512 - luks_start dev"

definition luks_image ::
  "('c, 'e, 'x, 'd) crypto_lib \<Rightarrow> ('s \<Rightarrow> bytes) \<Rightarrow> 's luks_dev \<Rightarrow> bytes" where
  "luks_image K img dev = sects (luks_sect K img dev) 0 (luks_size img dev)"

definition luks_ready :: "('s \<Rightarrow> bool) \<Rightarrow> 's luks_dev \<Rightarrow> bool" where
  "luks_ready dready dev \<longleftrightarrow> dready (rawdev dev) \<and> heap_ok (lheap dev)"

lemma sects_shift: "sects (\<lambda>i. f (b + i)) 0 n = sects f b n"
  by (induction n arbitrary: b) (simp_all add: sects_add [of _ _ _ 1, simplified])

text \<open>The contract depends on the raw device only through its invariant and its image.\<close>

lemma luks_keep:
  assumes "luks_inv K dinv img dev" "dinv raw1" "img raw1 = img (rawdev dev)"
  shows "luks_inv K dinv img (dev\<lparr>rawdev := raw1, lheap := h\<rparr>)"
    and "luks_image K img (dev\<lparr>rawdev := raw1, lheap := h\<rparr>) = luks_image K img dev"
  using assms
  by (simp_all add: luks_inv_def luks_image_def luks_sect_def [abs_def] luks_size_def luks_start_def luks_key_def
      ValidLUKSBlkdev_def)

locale luks_blkdev = raw: blkdev_image D dinv dready img
  for D :: "'s blkdev" and dinv dready img +
  fixes K :: "('c, 'e, 'x, 'd) crypto_lib"
begin

lemma luks_facts:
  assumes "luks_inv K dinv img dev"
  shows "masterkey dev = Some (luks_key dev)" "length (luks_key dev) = unat (key_bytes (lheader dev))"
    "sector_cipher_ok K (lheader dev) (luks_key dev)" "plain_header (lheader dev)" "ValidLUKSBlkdev dev"
    "dinv (rawdev dev)" "512 dvd length (img (rawdev dev))" "length (img (rawdev dev)) < 2 ^ 32"
  using assms raw.image_aligned by (auto simp: luks_inv_def luks_key_def)

text \<open>A range of payload blocks, as a range of raw blocks.\<close>

lemma raw_range:
  assumes inv: "luks_inv K dinv img dev" and r: "b + n \<le> luks_size img dev"
  shows "(luks_start dev + b + n) * 512 \<le> length (img (rawdev dev))"
    and "n * 512 < 2 ^ 32" and "luks_start dev + b < 2 ^ 64" and "b + n < 2 ^ 64"
proof -
  from luks_facts(7) [OF inv] obtain k where k: "length (img (rawdev dev)) = 512 * k" by (elim dvdE)
  have "luks_start dev \<le> k" using inv k by (simp add: luks_inv_def)
  with r k have le: "luks_start dev + b + n \<le> k" by (simp add: luks_size_def)
  with k show "(luks_start dev + b + n) * 512 \<le> length (img (rawdev dev))" by simp
  with luks_facts(8) [OF inv] show "n * 512 < 2 ^ 32" "luks_start dev + b < 2 ^ 64" "b + n < 2 ^ 64" by simp_all
qed

lemma length_luks_sect:
  assumes inv: "luks_inv K dinv img dev" and "i < luks_size img dev"
  shows "length (luks_sect K img dev i) = 512"
proof -
  have "(luks_start dev + i + 1) * 512 \<le> length (img (rawdev dev))"
    using raw_range(1) [OF inv, of i 1] assms(2) by simp
  then show ?thesis
    unfolding luks_sect_def by (intro sector_crypt_ok(2) luks_facts(3) [OF inv]) simp
qed

lemma length_luks_image:
  assumes "luks_inv K dinv img dev"
  shows "length (luks_image K img dev) = luks_size img dev * 512"
  unfolding luks_image_def using length_luks_sect [OF assms] by (intro length_sects) simp

lemma image_slice:
  assumes inv: "luks_inv K dinv img dev" and "b + n \<le> luks_size img dev"
  shows "slice (b * 512) (n * 512) (luks_image K img dev) = sects (luks_sect K img dev) b n"
  unfolding luks_image_def using length_luks_sect [OF inv] assms(2) by (intro slice_sects) auto

text \<open>Decrypting the raw blocks of a range gives the range of the image.\<close>

lemma decrypt_range:
  assumes inv: "luks_inv K dinv img dev" and r: "b + n \<le> luks_size img dev"
  shows "crypt_sectors K (lheader dev) (luks_key dev) LUKS_CRYPT_MODE_DECRYPT b
      (slice ((luks_start dev + b) * 512) (n * 512) (img (rawdev dev))) n = sects (luks_sect K img dev) b n"
proof -
  have "slice (i * 512) 512 (slice ((luks_start dev + b) * 512) (n * 512) (img (rawdev dev))) =
      slice ((luks_start dev + (b + i)) * 512) 512 (img (rawdev dev))" if "i < n" for i
  proof -
    from that have "Suc i * 512 \<le> n * 512" by (intro mult_right_mono) auto
    then show ?thesis by (subst slice_slice) (simp_all add: algebra_simps)
  qed
  then have "crypt_sectors K (lheader dev) (luks_key dev) LUKS_CRYPT_MODE_DECRYPT b
      (slice ((luks_start dev + b) * 512) (n * 512) (img (rawdev dev))) n =
    sects (\<lambda>i. luks_sect K img dev (b + i)) 0 n"
    unfolding crypt_sectors_def luks_sect_def by (intro sects_cong) simp
  then show ?thesis by (simp add: sects_shift)
qed

lemma luks_read:
  assumes inv: "luks_inv K dinv img dev" and r: "b + n \<le> luks_size img dev"
  shows "\<exists>rc d dev'. luks_GetN K D dev b n = Some (rc, d, dev') \<and> luks_inv K dinv img dev' \<and>
    luks_image K img dev' = luks_image K img dev \<and>
    (rc = 0 \<longrightarrow> d = sects (luks_sect K img dev) b n) \<and> (luks_ready dready dev \<longrightarrow> rc = 0 \<and> luks_ready dready dev')"
proof (cases "n = 0 \<or> lheap dev 0 = None")
  case True
  note f = luks_facts [OF inv]
  note keep = luks_keep [OF inv f(6) refl]
  have "dev\<lparr>rawdev := rawdev dev, lheap := h\<rparr> = dev\<lparr>lheap := h\<rparr>" for h by simp
  with True f inv keep [of "heap_next (lheap dev)"] show ?thesis
    by (cases "n = 0") (auto simp: luks_GetN_def Let_def Malloc_def luks_ready_def heap_ok_def)
next
  case False
  note f = luks_facts [OF inv] and rr = raw_range [OF inv r]
  let ?h = "heap_next (lheap dev)" and ?s = "luks_start dev + b"
  from False obtain x where x: "lheap dev 0 = Some x" "n \<noteq> 0" by auto
  from raw.GetN_image [OF f(6), of ?s n] rr(1) obtain rc d raw1 where
    g: "GetN D (rawdev dev) ?s n = Some (rc, d, raw1)" "dinv raw1" "img raw1 = img (rawdev dev)"
      "rc = 0 \<longrightarrow> d = slice (?s * 512) (n * 512) (img (rawdev dev))" "dready (rawdev dev) \<longrightarrow> rc = 0 \<and> dready raw1"
    by (auto simp: add.assoc)
  note keep = luks_keep [OF inv g(2,3)]
  have al: "Malloc (lheap dev) (n * 512) = (Some (replicate (n * 512) x), ?h)"
    using x rr(2) by (simp add: Malloc_def)
  have u: "u64 (n * 512) = n * 512" "u64 ?s = ?s" using rr by simp_all
  note start = luks_start_def [of dev, symmetric]
  have unf: "luks_GetN K D dev b n = do {
      tmp1 \<leftarrow> (if rc \<noteq> 0 then Some [] else store 0 d (replicate (n * 512) x));
      if rc \<noteq> 0 then Some (-1, [], dev\<lparr>rawdev := raw1, lheap := ?h\<rparr>)
      else do {
        (rc, tmp2, data, h2) \<leftarrow> LUKSCrypt K ?h LUKS_CRYPT_MODE_DECRYPT (lheader dev) (luks_key dev)
          tmp1 (replicate (n * 512) 0) (n * 512) b;
        if rc \<noteq> 0 then Some (-1, [], dev\<lparr>rawdev := raw1, lheap := ?h, lheap := h2\<rparr>)
        else Some (0, data, dev\<lparr>rawdev := raw1, lheap := ?h, lheap := h2\<rparr>)
      } }"
    using f(1,5) x(2) by (simp add: luks_GetN_def Let_def BLKDEV_BLKSIZE_def u al start g(1))
  show ?thesis
  proof (cases "rc = 0")
    case False
    with unf g(5) keep show ?thesis by (auto simp: luks_ready_def)
  next
    case True
    with g(4) have d: "d = slice (?s * 512) (n * 512) (img (rawdev dev))" by simp
    have ld: "length d = n * 512" unfolding d using rr(1) by (simp add: algebra_simps)
    then have st: "store 0 d (replicate (n * 512) x) = Some d" by (simp add: store_def overwrite_def)
    have n64: "n * 512 < 2 ^ 64" using rr(2) by simp
    have cr: "LUKSCrypt K ?h LUKS_CRYPT_MODE_DECRYPT (lheader dev) (luks_key dev) d (replicate (n * 512) 0) (n * 512) b =
      (if ?h 0 = None then Some (-1, d, replicate (n * 512) 0, heap_next ?h)
       else if ?h 1 = None then Some (-1, d, replicate (n * 512) 0, heap_next (heap_next ?h))
       else Some (0, d, sects (luks_sect K img dev) b n, heap_next (heap_next ?h)))"
      using LUKSCrypt_plain [OF f(3,4,2) ld _ rr(4) n64, of "replicate (n * 512) 0" ?h LUKS_CRYPT_MODE_DECRYPT]
        decrypt_range [OF inv r] d by simp
    show ?thesis
      using unf g(5) keep True st cr by (auto simp: luks_ready_def heap_ok_def heap_next_def)
  qed
qed

text \<open>Writing encrypts the range and changes nothing of the raw device outside it.\<close>

lemma luks_write:
  assumes inv: "luks_inv K dinv img dev" and r: "b + n \<le> luks_size img dev" and d: "length d = n * 512"
  shows "\<exists>rc dev'. luks_PutN K D dev b n d = Some (rc, dev') \<and> luks_inv K dinv img dev' \<and>
    lheader dev' = lheader dev \<and> masterkey dev' = masterkey dev \<and>
    length (img (rawdev dev')) = length (img (rawdev dev)) \<and>
    (rc = 0 \<longrightarrow> img (rawdev dev') = overwrite ((luks_start dev + b) * 512)
      (crypt_sectors K (lheader dev) (luks_key dev) LUKS_CRYPT_MODE_ENCRYPT b d n) (img (rawdev dev))) \<and>
    take ((luks_start dev + b) * 512) (img (rawdev dev')) = take ((luks_start dev + b) * 512) (img (rawdev dev)) \<and>
    drop ((luks_start dev + b + n) * 512) (img (rawdev dev')) = drop ((luks_start dev + b + n) * 512) (img (rawdev dev)) \<and>
    (luks_ready dready dev \<longrightarrow> rc = 0 \<and> luks_ready dready dev')"
proof -
  note f = luks_facts [OF inv] and rr = raw_range [OF inv r]
  let ?h = "heap_next (lheap dev)" and ?s = "luks_start dev + b"
  let ?e = "crypt_sectors K (lheader dev) (luks_key dev) LUKS_CRYPT_MODE_ENCRYPT b d n"
  note keep = luks_keep [OF inv f(6) refl]
  have same: "dev\<lparr>rawdev := rawdev dev, lheap := h\<rparr> = dev\<lparr>lheap := h\<rparr>" for h by simp
  have le: "length ?e = n * 512" using length_crypt_sectors [OF f(3) d] by simp
  from raw.PutN_image [OF f(6), of ?s n ?e] rr(1) le obtain rc raw1 where
    p: "PutN D (rawdev dev) ?s n ?e = Some (rc, raw1)" "dinv raw1" "length (img raw1) = length (img (rawdev dev))"
      "rc = 0 \<longrightarrow> img raw1 = overwrite (?s * 512) ?e (img (rawdev dev))"
      "take (?s * 512) (img raw1) = take (?s * 512) (img (rawdev dev))"
      "drop ((?s + n) * 512) (img raw1) = drop ((?s + n) * 512) (img (rawdev dev))"
      "dready (rawdev dev) \<longrightarrow> rc = 0 \<and> dready raw1"
    by (auto simp: add.assoc)
  have inv1: "luks_inv K dinv img (dev\<lparr>rawdev := raw1, lheap := h\<rparr>)" for h
    using inv p(2,3) by (simp add: luks_inv_def ValidLUKSBlkdev_def luks_start_def)
  have keeps: "\<exists>rc dev'. luks_PutN K D dev b n d = Some (rc, dev') \<and> luks_inv K dinv img dev' \<and>
      lheader dev' = lheader dev \<and> masterkey dev' = masterkey dev \<and> rawdev dev' = rawdev dev \<and> rc \<noteq> 0 \<Longrightarrow>
      \<not> heap_ok (lheap dev) \<Longrightarrow> ?thesis"
    by (auto simp: luks_ready_def)
  consider "n = 0" | "n \<noteq> 0" "lheap dev 0 = None" | x where "n \<noteq> 0" "lheap dev 0 = Some x" by auto
  then show ?thesis
  proof cases
    case 1
    then show ?thesis using f(1,5) inv by (simp add: luks_PutN_def Let_def crypt_sectors_def)
  next
    case 2
    then show ?thesis
      using f(1,5) keep(1) [of ?h] same by (intro keeps) (auto simp: luks_PutN_def Let_def Malloc_def heap_ok_def)
  next
    case 3
    have al: "Malloc (lheap dev) (n * 512) = (Some (replicate (n * 512) x), ?h)"
      using 3 rr(2) by (simp add: Malloc_def)
    have u: "u64 (n * 512) = n * 512" "u64 ?s = ?s" using rr by simp_all
    have n64: "n * 512 < 2 ^ 64" using rr(2) by simp
    note cr = LUKSCrypt_plain [OF f(3,4,2) d _ rr(4) n64, of "replicate (n * 512) x" ?h LUKS_CRYPT_MODE_ENCRYPT]
    have unf: "luks_PutN K D dev b n d =
        (if ?h 0 = None then Some (-1, dev\<lparr>lheap := heap_next ?h\<rparr>)
         else if ?h 1 = None then Some (-1, dev\<lparr>lheap := heap_next (heap_next ?h)\<rparr>)
         else Some (if rc \<noteq> 0 then -1 else 0, dev\<lparr>rawdev := raw1, lheap := heap_next (heap_next ?h)\<rparr>))"
      using f(1,5) 3(1)
      by (simp add: luks_PutN_def Let_def BLKDEV_BLKSIZE_def u al luks_start_def [of dev, symmetric] cr p(1))
    show ?thesis
    proof (cases "?h 0 = None \<or> ?h 1 = None")
      case True
      then show ?thesis
        using unf keep(1) [of "heap_next ?h"] keep(1) [of "heap_next (heap_next ?h)"] same
        by (intro keeps) (auto simp: heap_ok_def heap_next_def)
    next
      case False
      with unf inv1 [of "heap_next (heap_next ?h)"] p show ?thesis by (auto simp: luks_ready_def add.assoc)
    qed
  qed
qed

lemma written_sector:
  assumes inv: "luks_inv K dinv img dev" "luks_inv K dinv img dev'" and r: "b + n \<le> luks_size img dev"
    and d: "length d = n * 512" and i: "b \<le> i" "i < b + n"
    and same: "lheader dev' = lheader dev" "masterkey dev' = masterkey dev"
    and img': "img (rawdev dev') = overwrite ((luks_start dev + b) * 512)
      (crypt_sectors K (lheader dev) (luks_key dev) LUKS_CRYPT_MODE_ENCRYPT b d n) (img (rawdev dev))"
  shows "luks_sect K img dev' i = slice ((i - b) * 512) 512 d"
proof -
  note f = luks_facts [OF inv(1)] and rr = raw_range [OF inv(1) r]
  let ?e = "crypt_sectors K (lheader dev) (luks_key dev) LUKS_CRYPT_MODE_ENCRYPT b d n"
  let ?s = "luks_start dev"
  have ib: "Suc (i - b) * 512 \<le> n * 512" using i by (intro mult_right_mono) auto
  have le: "length ?e = n * 512" using length_crypt_sectors [OF f(3) d] by simp
  have "(?s + i) * 512 = (?s + b) * 512 + (i - b) * 512" using i(1) by (simp add: algebra_simps)
  then have "slice ((?s + i) * 512) 512 (img (rawdev dev')) = slice ((i - b) * 512) 512 ?e"
    unfolding img' using le rr(1) ib by (subst slice_overwrite_inside) (simp_all add: algebra_simps)
  also have "\<dots> = sector_crypt K (lheader dev) (luks_key dev) LUKS_CRYPT_MODE_ENCRYPT i (slice ((i - b) * 512) 512 d)"
    using slice_crypt_sectors [OF f(3) d, of "i - b"] i by simp
  finally have "luks_sect K img dev' i = sector_crypt K (lheader dev) (luks_key dev) LUKS_CRYPT_MODE_DECRYPT i
      (sector_crypt K (lheader dev) (luks_key dev) LUKS_CRYPT_MODE_ENCRYPT i (slice ((i - b) * 512) 512 d))"
    using same by (simp add: luks_sect_def luks_start_def luks_key_def)
  also have "\<dots> = slice ((i - b) * 512) 512 d" using ib d by (intro sector_crypt_ok(3) [OF f(3)]) simp
  finally show ?thesis .
qed

lemma kept_sector:
  assumes same: "lheader dev' = lheader dev" "masterkey dev' = masterkey dev"
    and "take ((luks_start dev + b) * 512) (img (rawdev dev')) = take ((luks_start dev + b) * 512) (img (rawdev dev))"
    and "drop ((luks_start dev + b + n) * 512) (img (rawdev dev')) = drop ((luks_start dev + b + n) * 512) (img (rawdev dev))"
    and i: "i < b \<or> b + n \<le> i"
  shows "luks_sect K img dev' i = luks_sect K img dev i"
proof -
  let ?s = "luks_start dev"
  have "slice ((?s + i) * 512) 512 (img (rawdev dev')) = slice ((?s + i) * 512) 512 (img (rawdev dev))"
    using i
  proof
    assume "i < b"
    then have "(?s + i) * 512 + 512 \<le> (?s + b) * 512" by simp
    with assms(3) show ?thesis by (metis slice_take)
  next
    assume "b + n \<le> i"
    then have e: "(?s + i) * 512 = (?s + b + n) * 512 + (i - b - n) * 512" by (simp add: algebra_simps)
    have "slice ((?s + i) * 512) 512 xs = slice ((i - b - n) * 512) 512 (drop ((?s + b + n) * 512) xs)" for xs :: bytes
      unfolding e by (simp add: slice_def add.commute)
    with assms(4) show ?thesis by metis
  qed
  then show ?thesis using same by (simp add: luks_sect_def luks_start_def luks_key_def)
qed

end

sublocale luks_blkdev \<subseteq> luks: blkdev_image "luks_ops K D" "luks_inv K dinv img" "luks_ready dready" "luks_image K img"
proof
  fix dev
  assume inv: "luks_inv K dinv img dev"
  note len = length_luks_image [OF inv]
  show "512 dvd length (luks_image K img dev)" by (simp add: len)
  show "length (luks_image K img dev) < 2 ^ 64"
    using raw_range(2) [OF inv, of 0 "luks_size img dev"] by (simp add: len)
  fix b n
  assume "(b + n) * 512 \<le> length (luks_image K img dev)"
  then have r: "b + n \<le> luks_size img dev" by (simp add: len)
  from luks_read [OF inv r] image_slice [OF inv r]
  show "\<exists>rc d dev'. GetN (luks_ops K D) dev b n = Some (rc, d, dev') \<and> luks_inv K dinv img dev' \<and>
      luks_image K img dev' = luks_image K img dev \<and>
      (rc = 0 \<longrightarrow> d = slice (b * 512) (n * 512) (luks_image K img dev)) \<and>
      (luks_ready dready dev \<longrightarrow> rc = 0 \<and> luks_ready dready dev')"
    by simp
next
  fix dev b n and d :: bytes
  assume inv: "luks_inv K dinv img dev" and rng: "(b + n) * 512 \<le> length (luks_image K img dev)" and d: "length d = n * 512"
  then have r: "b + n \<le> luks_size img dev" by (simp add: length_luks_image [OF inv])
  from luks_write [OF inv r d] obtain rc dev' where
    w: "luks_PutN K D dev b n d = Some (rc, dev')" "luks_inv K dinv img dev'"
      "lheader dev' = lheader dev" "masterkey dev' = masterkey dev"
      "length (img (rawdev dev')) = length (img (rawdev dev))"
      "rc = 0 \<longrightarrow> img (rawdev dev') = overwrite ((luks_start dev + b) * 512)
        (crypt_sectors K (lheader dev) (luks_key dev) LUKS_CRYPT_MODE_ENCRYPT b d n) (img (rawdev dev))"
      "take ((luks_start dev + b) * 512) (img (rawdev dev')) = take ((luks_start dev + b) * 512) (img (rawdev dev))"
      "drop ((luks_start dev + b + n) * 512) (img (rawdev dev')) = drop ((luks_start dev + b + n) * 512) (img (rawdev dev))"
      "luks_ready dready dev \<longrightarrow> rc = 0 \<and> luks_ready dready dev'" by blast
  have N: "luks_size img dev' = luks_size img dev" using w(3,5) by (simp add: luks_size_def luks_start_def)
  note kept = kept_sector [OF w(3,4,7,8)]
  let ?N = "luks_size img dev" and ?f = "luks_sect K img dev" and ?g = "luks_sect K img dev'"
  note lf = length_luks_sect [OF inv] and lg = length_luks_sect [OF w(2), unfolded N]
  have "luks_image K img dev' = overwrite (b * 512) d (luks_image K img dev)" if "rc = 0"
    unfolding luks_image_def N
    using lf r written_sector [OF inv w(2) r d _ _ w(3,4)] w(6) that kept d by (intro sects_update [of ?N ?f b n ?g d]) auto
  moreover have "take (b * 512) (luks_image K img dev') = take (b * 512) (luks_image K img dev)"
    unfolding luks_image_def N
    using take_drop_sects(1) [of ?N ?f b] take_drop_sects(1) [of ?N ?g b] lf lg r kept sects_cong [of 0 b ?g ?f] by simp
  moreover have "drop ((b + n) * 512) (luks_image K img dev') = drop ((b + n) * 512) (luks_image K img dev)"
    unfolding luks_image_def N
    using take_drop_sects(2) [of ?N ?f "b + n"] take_drop_sects(2) [of ?N ?g "b + n"] lf lg r kept
      sects_cong [of "b + n" "?N - (b + n)" ?g ?f] by simp
  moreover have "length (luks_image K img dev') = length (luks_image K img dev)"
    using length_luks_image [OF inv] length_luks_image [OF w(2)] N by simp
  ultimately show "\<exists>rc dev'. PutN (luks_ops K D) dev b n d = Some (rc, dev') \<and> luks_inv K dinv img dev' \<and>
      length (luks_image K img dev') = length (luks_image K img dev) \<and>
      (rc = 0 \<longrightarrow> luks_image K img dev' = overwrite (b * 512) d (luks_image K img dev)) \<and>
      take (b * 512) (luks_image K img dev') = take (b * 512) (luks_image K img dev) \<and>
      drop ((b + n) * 512) (luks_image K img dev') = drop ((b + n) * 512) (luks_image K img dev) \<and>
      (luks_ready dready dev \<longrightarrow> rc = 0 \<and> luks_ready dready dev')"
    using w(1,2,9) by simp
qed

end
