(* ===== verification/DeviceStack.thy ===== *)
theory DeviceStack
  imports MemBlkdev CacheBlkdev LuksBlkdev
begin

text \<open>
  The devices put on top of each other the way \<open>lsvmload/ext2main.c\<close> and the tests stack them: a
  cache device over the raw device, a LUKS device over the cache. Every level interprets the block
  device contract, so the byte-level clients \<open>BlkdevRead\<close> and \<open>BlkdevWrite\<close> behave on the whole
  stack as on a flat array; and with caching on, nothing written to the stack reaches the device
  below the cache.
\<close>

section \<open>The device contract through the stack\<close>

interpretation mc: cached_blkdev mem_ops mem_inv mem_ready mem_image
  by unfold_locales

interpretation lm: luks_blkdev mem_ops mem_inv mem_ready mem_image K for K :: "('c, 'e, 'x, 'd) crypto_lib"
  by unfold_locales

interpretation lcm: luks_blkdev "cache_ops mem_ops" "cache_inv mem_inv" "cache_ready mem_ready" "cache_image mem_image" K
  for K :: "('c, 'e, 'x, 'd) crypto_lib"
  by unfold_locales

section \<open>Writes that do not reach the disk\<close>

text \<open>
  A device whose reads and writes keep an observation of its state. The clients
  \<open>BlkdevRead\<close> and \<open>BlkdevWrite\<close> then keep it, and so does a LUKS device over it.
\<close>

locale frozen_blkdev =
  fixes D :: "'s blkdev" and obs :: "'s \<Rightarrow> 'o"
  assumes GetN_keeps: "GetN D s b n = Some (rc, d, s') \<Longrightarrow> obs s' = obs s"
    and PutN_keeps: "PutN D s b n d = Some (rc, s') \<Longrightarrow> obs s' = obs s"
begin

lemma read_keeps:
  assumes "BlkdevRead D s b n = Some (rc, d, s')"
  shows "obs s' = obs s"
  using assms
  by (auto simp: BlkdevRead_def Let_def split: if_splits bind_splits dest!: GetN_keeps)

lemma write_keeps:
  assumes "BlkdevWrite D s b d n = Some (rc, s')"
  shows "obs s' = obs s"
  using assms
  by (auto simp: BlkdevWrite_def Let_def split: if_splits bind_splits dest!: GetN_keeps PutN_keeps)

end

locale frozen_luks = frozen_blkdev D obs for D :: "'s blkdev" and obs :: "'s \<Rightarrow> 'o" +
  fixes K :: "('c, 'e, 'x, 'd) crypto_lib"

sublocale frozen_luks \<subseteq> luks: frozen_blkdev "luks_ops K D" "\<lambda>dev. obs (rawdev dev)"
proof
  show "GetN (luks_ops K D) s b n = Some (rc, d, s') \<Longrightarrow> obs (rawdev s') = obs (rawdev s)" for s b n rc d s'
    by (auto simp: luks_GetN_def Let_def split: if_splits bind_splits option.splits prod.splits dest!: GetN_keeps)
  show "PutN (luks_ops K D) s b n d = Some (rc, s') \<Longrightarrow> obs (rawdev s') = obs (rawdev s)" for s b n rc d s'
    by (auto simp: luks_PutN_def Let_def split: if_splits bind_splits option.splits prod.splits dest!: PutN_keeps)
qed

text \<open>The disk behind a cache device whose caching is on.\<close>

definition cached_disk :: "'s cache_dev \<Rightarrow> 's option" where
  "cached_disk c = (if cflags c AND BLKDEV_ENABLE_CACHING \<noteq> 0 then Some (child c) else None)"

lemma PutCache_keeps: "cache_PutCache c n d = Some (rc, c') \<Longrightarrow> child c' = child c \<and> cflags c' = cflags c"
  by (auto simp: cache_PutCache_def Let_def split: option.splits bind_splits)

lemma SetCache_keeps: "child (cache_SetCache c n d) = child c" "cflags (cache_SetCache c n d) = cflags c"
  by (simp_all add: cache_SetCache_def Let_def)

lemma PutN_loop_keeps:
  "cache_PutN_loop c b i r ptr = Some (rc, c') \<Longrightarrow> child c' = child c \<and> cflags c' = cflags c"
  by (induction c b i r ptr rule: cache_PutN_loop.induct)
    (auto simp: SetCache_keeps split: option.splits bind_splits if_splits dest!: PutCache_keeps)

lemma fill_run_keeps:
  "fill_run c b k j ptr = Some (rc, c') \<Longrightarrow> child c' = child c \<and> cflags c' = cflags c"
proof (induction c b k j ptr rule: fill_run.induct)
  case (1 c b k j ptr)
  then show ?case
    by (subst (asm) (2) fill_run.simps) (force split: bind_splits if_splits dest: PutCache_keeps)
qed

lemma fetch_keeps:
  assumes "cache_fetch mem_ops c b i j = Some (rc, d, c')"
  shows "child c' = child c \<and> cflags c' = cflags c"
  using assms
  by (auto simp: cache_fetch_def mem_GetN_def Let_def split: bind_splits if_splits dest!: fill_run_keeps)

declare cache_GetN_loop.simps [simp del]

lemma GetN_loop_keeps:
  "cache_GetN_loop mem_ops c b n i acc = Some (rc, d, c') \<Longrightarrow> child c' = child c \<and> cflags c' = cflags c"
proof (induction "n - i" arbitrary: c i acc rule: less_induct)
  case less
  show ?case
  proof (cases "i < n")
    case False
    with less.prems show ?thesis by (subst (asm) cache_GetN_loop.simps) simp
  next
    case True
    let ?i = "fst (cached_run c b n i)" and ?d = "snd (cached_run c b n i)"
    let ?j = "uncached_run c b n ?i"
    have lt: "n - ?j < n - i" using run_progress [OF True, of c b] True by linarith
    show ?thesis
    proof (cases "?j = ?i")
      case True
      with less.prems \<open>i < n\<close> have "cache_GetN_loop mem_ops c b n ?j (acc @ ?d) = Some (rc, d, c')"
        by (subst (asm) cache_GetN_loop.simps) (simp add: Let_def)
      with less.hyps [OF lt] show ?thesis by blast
    next
      case False
      note un = less.prems [unfolded cache_GetN_loop.simps [of mem_ops c b n i acc]]
      from un False \<open>i < n\<close> obtain rc1 d1 c1 where f: "cache_fetch mem_ops c b ?i ?j = Some (rc1, d1, c1)"
        and r: "(if rc1 \<noteq> 0 then Some (-1, [], c1) else cache_GetN_loop mem_ops c1 b n ?j ((acc @ ?d) @ d1)) = Some (rc, d, c')"
        by (auto simp: Let_def split: bind_splits)
      from fetch_keeps [OF f] r less.hyps [OF lt, of c1] show ?thesis by (auto split: if_splits)
    qed
  qed
qed

interpretation frozen_cache: frozen_blkdev "cache_ops mem_ops" cached_disk
proof
  show "GetN (cache_ops mem_ops) s b n = Some (rc, d, s') \<Longrightarrow> cached_disk s' = cached_disk s" for s b n rc d s'
    by (auto simp: cache_GetN_def cached_disk_def dest!: GetN_loop_keeps)
  show "PutN (cache_ops mem_ops) s b n d = Some (rc, s') \<Longrightarrow> cached_disk s' = cached_disk s" for s b n rc d s'
    by (auto simp: cache_PutN_def cached_disk_def split: if_splits bind_splits dest!: PutN_loop_keeps)
qed

interpretation frozen_stack: frozen_luks "cache_ops mem_ops" cached_disk K
  for K :: "('c, 'e, 'x, 'd) crypto_lib"
  by unfold_locales

section \<open>Properties\<close>

text \<open>A stack for the witnesses: four sectors of memory, a cache with caching on, LUKS on top.\<close>

definition toy_stack :: "mem_dev cache_dev luks_dev" where
  "toy_stack =
     \<lparr> lmagic = LUKSBLKDEV_MAGIC, lheader = toy_header,
       rawdev = \<lparr> child = \<lparr> md_data = replicate 2049 0, md_size = 2049 \<rparr>, chains = (\<lambda>_. []), cflags = 1, cheap = (\<lambda>_. Some 0) \<rparr>,
       masterkey = Some (replicate 512 5), lheap = (\<lambda>_. Some 0) \<rparr>"

lemma toy_raw: "cache_inv mem_inv (rawdev toy_stack)" "cache_ready mem_ready (rawdev toy_stack)"
    "length (cache_image mem_image (rawdev toy_stack)) = 2048"
proof -
  have ok: "chains_ok (rawdev toy_stack)" by (simp add: chains_ok_def toy_stack_def)
  then show "cache_inv mem_inv (rawdev toy_stack)" by (simp add: cache_inv_def mem_inv_def toy_stack_def)
  show "cache_ready mem_ready (rawdev toy_stack)" by (simp add: cache_ready_def mem_ready_def toy_stack_def)
  show "length (cache_image mem_image (rawdev toy_stack)) = 2048"
    unfolding length_cache_image [OF ok] by (simp add: toy_stack_def mem_image_def)
qed

lemma toy_stack_ok:
  "luks_inv toy_crypto (cache_inv mem_inv) (cache_image mem_image) toy_stack"
  "luks_ready (cache_ready mem_ready) toy_stack"
  "length (luks_image toy_crypto (cache_image mem_image) toy_stack) = 1024"
proof -
  have s: "lheader toy_stack = toy_header" "masterkey toy_stack = Some (replicate 512 5)" "lheap toy_stack = (\<lambda>_. Some 0)"
    "ValidLUKSBlkdev toy_stack" by (simp_all add: toy_stack_def ValidLUKSBlkdev_def)
  have k: "unat (key_bytes toy_header) = 512" "unat (payload_offset toy_header) = 2" by (simp_all add: toy_header_def)
  show inv: "luks_inv toy_crypto (cache_inv mem_inv) (cache_image mem_image) toy_stack"
    using toy_raw by (simp add: luks_inv_def s k luks_start_def toy_cipher_ok toy_plain_header)
  show "luks_ready (cache_ready mem_ready) toy_stack" using toy_raw by (simp add: luks_ready_def s)
  show "length (luks_image toy_crypto (cache_image mem_image) toy_stack) = 1024"
    using toy_raw(3) by (simp add: lcm.length_luks_image [OF inv] luks_size_def luks_start_def s k)
qed

definition toy_luks :: "mem_dev luks_dev" where
  "toy_luks = \<lparr> lmagic = LUKSBLKDEV_MAGIC, lheader = toy_header,
     rawdev = \<lparr> md_data = replicate 2049 0, md_size = 2049 \<rparr>, masterkey = Some (replicate 512 5), lheap = (\<lambda>_. Some 0) \<rparr>"

lemma toy_luks_ok:
  "luks_inv toy_crypto mem_inv mem_image toy_luks" "luks_ready mem_ready toy_luks"
  "luks_size mem_image toy_luks = 2" "luks_start toy_luks = 2" "lheader toy_luks = toy_header" "luks_key toy_luks = replicate 512 5"
proof -
  have s: "lheader toy_luks = toy_header" "masterkey toy_luks = Some (replicate 512 5)" "lheap toy_luks = (\<lambda>_. Some 0)"
    "ValidLUKSBlkdev toy_luks" "length (mem_image (rawdev toy_luks)) = 2048" "mem_inv (rawdev toy_luks)" "mem_ready (rawdev toy_luks)"
    by (simp_all add: toy_luks_def ValidLUKSBlkdev_def mem_image_def mem_inv_def mem_ready_def)
  have k: "unat (key_bytes toy_header) = 512" "unat (payload_offset toy_header) = 2" by (simp_all add: toy_header_def)
  show "luks_inv toy_crypto mem_inv mem_image toy_luks" "luks_ready mem_ready toy_luks"
    "luks_size mem_image toy_luks = 2" "luks_start toy_luks = 2" "lheader toy_luks = toy_header" "luks_key toy_luks = replicate 512 5"
    by (simp_all add: luks_inv_def luks_ready_def luks_size_def luks_start_def luks_key_def s k toy_cipher_ok toy_plain_header)
qed

text \<open>
  C2: On a LUKS device over a cache device over memory, with every allocation granted, a write of
  any number of bytes inside the payload succeeds, and a read of the same range then returns
  exactly the bytes written, whole blocks or not.
\<close>

theorem stack_read_after_write:
  assumes "luks_inv K (cache_inv mem_inv) (cache_image mem_image) dev" "luks_ready (cache_ready mem_ready) dev"
    and "b * 512 + sz \<le> length (luks_image K (cache_image mem_image) dev)" "length data = sz"
  shows "\<exists>dev1 dev2. BlkdevWrite (luks_ops K (cache_ops mem_ops)) dev b data sz = Some (0, dev1) \<and>
    BlkdevRead (luks_ops K (cache_ops mem_ops)) dev1 b sz = Some (0, data, dev2)"
  using assms by (rule lcm.luks.read_after_write)

theorem stack_read_after_write_witness:
  "\<exists>dev1 dev2. BlkdevWrite (luks_ops toy_crypto (cache_ops mem_ops)) toy_stack 0 (replicate 700 9) 700 = Some (0, dev1) \<and>
    BlkdevRead (luks_ops toy_crypto (cache_ops mem_ops)) dev1 0 700 = Some (0, replicate 700 9, dev2)"
  by (rule stack_read_after_write [OF toy_stack_ok(1,2)]) (simp_all add: toy_stack_ok(3))

text \<open>
  C1: Nothing that is written to the stack reaches the disk. While the cache device below the
  LUKS device has caching enabled, no write, successful or not, changes the device under the cache.
\<close>

theorem stack_write_keeps_disk:
  assumes "BlkdevWrite (luks_ops K (cache_ops mem_ops)) dev b data sz = Some (rc, dev')"
    and "cflags (rawdev dev) AND BLKDEV_ENABLE_CACHING \<noteq> 0"
  shows "child (rawdev dev') = child (rawdev dev)"
  using frozen_stack.luks.write_keeps [OF assms(1)] assms(2) by (auto simp: cached_disk_def split: if_splits)

theorem stack_write_keeps_disk_witness:
  "\<exists>dev'. BlkdevWrite (luks_ops toy_crypto (cache_ops mem_ops)) toy_stack 1 (replicate 100 9) 100 = Some (0, dev') \<and>
    child (rawdev dev') = child (rawdev toy_stack)"
proof -
  obtain dev' where w: "BlkdevWrite (luks_ops toy_crypto (cache_ops mem_ops)) toy_stack 1 (replicate 100 9) 100 = Some (0, dev')"
    using lcm.luks.write_ok [OF toy_stack_ok(1,2), of 1 100 "replicate 100 9"] toy_stack_ok(3) by auto
  have "cflags (rawdev toy_stack) AND BLKDEV_ENABLE_CACHING \<noteq> 0" by (simp add: toy_stack_def BLKDEV_ENABLE_CACHING_def)
  with w stack_write_keeps_disk [OF w] show ?thesis by blast
qed

text \<open>
  C3: The same write changes the decrypted contents of the stack exactly as an update of the byte
  range of a flat array would, and keeps the invariant of every level.
\<close>

theorem stack_write_overwrites:
  assumes "luks_inv K (cache_inv mem_inv) (cache_image mem_image) dev" "luks_ready (cache_ready mem_ready) dev"
    and "b * 512 + sz \<le> length (luks_image K (cache_image mem_image) dev)" "length data = sz"
  shows "\<exists>dev'. BlkdevWrite (luks_ops K (cache_ops mem_ops)) dev b data sz = Some (0, dev') \<and>
    luks_inv K (cache_inv mem_inv) (cache_image mem_image) dev' \<and> luks_ready (cache_ready mem_ready) dev' \<and>
    luks_image K (cache_image mem_image) dev' = overwrite (b * 512) data (luks_image K (cache_image mem_image) dev)"
  using lcm.luks.write_ok [OF assms] by blast

theorem stack_write_overwrites_witness:
  "\<exists>dev'. BlkdevWrite (luks_ops toy_crypto (cache_ops mem_ops)) toy_stack 1 (replicate 3 9) 3 = Some (0, dev') \<and>
    luks_inv toy_crypto (cache_inv mem_inv) (cache_image mem_image) dev' \<and> luks_ready (cache_ready mem_ready) dev' \<and>
    luks_image toy_crypto (cache_image mem_image) dev' =
      overwrite 512 (replicate 3 9) (luks_image toy_crypto (cache_image mem_image) toy_stack)"
  using stack_write_overwrites [OF toy_stack_ok(1,2), of 1 3 "replicate 3 9"] toy_stack_ok(3) by simp

text \<open>
  C8: A block write to a LUKS device over memory changes only the raw blocks from the payload
  offset plus the block number on: the LUKS header, the key slots and every other block stay as
  they are, and the bytes stored are the encryption of the blocks under their own numbers.
\<close>

theorem luks_PutN_stays_in_payload:
  assumes "luks_inv K mem_inv mem_image dev" "luks_ready mem_ready dev"
    and "b + n \<le> luks_size mem_image dev" "length d = n * 512"
  shows "\<exists>dev'. luks_PutN K mem_ops dev b n d = Some (0, dev') \<and> luks_inv K mem_inv mem_image dev' \<and>
    mem_image (rawdev dev') = overwrite ((luks_start dev + b) * 512)
      (crypt_sectors K (lheader dev) (luks_key dev) LUKS_CRYPT_MODE_ENCRYPT b d n) (mem_image (rawdev dev))"
  using lm.luks_write [OF assms(1,3,4)] assms(2) by blast

theorem luks_PutN_stays_in_payload_witness:
  "\<exists>dev'. luks_PutN toy_crypto mem_ops toy_luks 1 1 (replicate 512 7) = Some (0, dev') \<and>
    luks_inv toy_crypto mem_inv mem_image dev' \<and>
    mem_image (rawdev dev') = overwrite 1536
      (crypt_sectors toy_crypto toy_header (replicate 512 5) LUKS_CRYPT_MODE_ENCRYPT 1 (replicate 512 7) 1) (mem_image (rawdev toy_luks))"
  using luks_PutN_stays_in_payload [OF toy_luks_ok(1,2), of 1 1 "replicate 512 7"] toy_luks_ok(3-6) by simp

lemmas mem_payload_roundtrip = blkdev_image.payload_roundtrip [OF md.blkdev_image_axioms]
lemmas mem_master_key_recovered = blkdev_image.master_key_recovered [OF md.blkdev_image_axioms]

text \<open>A sealed master key on a memory device, for the witnesses.\<close>

definition toy_disk :: mem_dev where
  "toy_disk =
     (let d = replicate 512 0 @
          crypt_sectors toy_crypto toy_header (replicate 512 2) LUKS_CRYPT_MODE_ENCRYPT 0 (replicate 512 5) 1 @ replicate 1025 0
      in \<lparr> md_data = d, md_size = length d \<rparr>)"

lemma toy_disk_ok:
  "mem_inv toy_disk" "mem_ready toy_disk" "length (mem_image toy_disk) = 2048"
  "slice 512 512 (mem_image toy_disk) =
     crypt_sectors toy_crypto toy_header (replicate 512 2) LUKS_CRYPT_MODE_ENCRYPT 0 (replicate 512 5) 1"
proof -
  have l: "length (crypt_sectors toy_crypto toy_header (replicate 512 2) LUKS_CRYPT_MODE_ENCRYPT 0 (replicate 512 5) 1) = 512"
    using length_crypt_sectors [OF toy_cipher_ok, of "replicate 512 5" 1] by simp
  show "mem_inv toy_disk" "mem_ready toy_disk" "length (mem_image toy_disk) = 2048"
    "slice 512 512 (mem_image toy_disk) =
     crypt_sectors toy_crypto toy_header (replicate 512 2) LUKS_CRYPT_MODE_ENCRYPT 0 (replicate 512 5) 1"
    by (simp_all add: toy_disk_def Let_def mem_inv_def mem_ready_def mem_image_def l [simplified] slice_0_append)
qed

lemma toy_sealed: "sealed toy_crypto toy_sha toy_header (hd (slots toy_header)) [3] 1 (mem_image toy_disk) (replicate 512 5)"
proof -
  have s: "unat (key_bytes toy_header) = 512" "mk_digest toy_header = replicate 20 4" "unat (key_material_offset (hd (slots toy_header))) = 1"
    "unat (af_stripes (hd (slots toy_header))) = 1" by (simp_all add: toy_header_def)
  have hh: "header_hash toy_header SHA256_ALG"
    by (simp add: header_hash_def diffuse_alg_def hash_spec_is_def toy_header_def)
  have af: "af_split toy_sha SHA256_ALG (replicate 512 5) [] = [replicate 512 5]"
    by (simp add: af_split_def ComputeXOR_def zip_replicate)
  have d1: "derives toy_crypto toy_header [3] (s32 (int 1)) (password_salt (hd (slots toy_header))) (password_iters (hd (slots toy_header))) 512 (replicate 512 2)"
    by (simp add: derives_def toy_crypto_def s32_def)
  have d2: "derives toy_crypto toy_header (replicate 512 5) (s32 (int 512)) (mk_digest_salt toy_header) (mk_digest_iter toy_header) 20 (replicate 20 4)"
    by (simp add: derives_def toy_crypto_def s32_def)
  show ?thesis
    unfolding sealed_def
    using s hh toy_plain_header d1 d2 toy_cipher_ok toy_disk_ok(3,4) af
    by (auto intro!: exI [of _ SHA256_ALG] exI [of _ "[]"] exI [of _ "replicate 512 2"] exI [of _ 1])
qed

lemma toy_sha_ok: "sha_lib_ok (sha toy_crypto) toy_sha (\<lambda>alg c m. c = fold (\<lambda>b acc. 3 * acc + b) m 1)"
  using toy_sha_lib_ok by (simp add: toy_crypto_def)

lemma toy_recovered:
  "\<exists>s' h'. LUKSGetMasterKey toy_crypto mem_ops (\<lambda>_. Some 0) toy_disk toy_header [3] 1 (replicate 512 0) =
    Some (0, replicate 512 5, s', h')"
proof (rule mem_master_key_recovered [OF toy_disk_ok(1,2) heap_ok_const toy_sha_ok _ _ _ toy_sealed])
  show "slots toy_header = [] @ hd (slots toy_header) # []" by (simp add: toy_header_def)
qed (auto simp: toy_header_def)

text \<open>
  C5: Whenever \<open>LUKSGetMasterKey\<close> returns 0, on any device and with any cryptographic library,
  some enabled slot gave the key and the digest computed of the returned key equals the digest
  stored in the header: a wrong passphrase cannot yield a key that the header does not confirm.
\<close>

theorem LUKSGetMasterKey_digest:
  assumes "LUKSGetMasterKey K D h dev header passphrase n old = Some (0, mk, dev', h')"
  shows "\<exists>slot \<in> set (slots header). enabled slot = LUKS_SLOT_ENABLED \<and>
    (\<exists>dg. LUKSComputeMKDigest K header mk (replicate LUKS_DIGEST_SIZE 0) = Some (0, dg) \<and>
      take 20 dg = take 20 (mk_digest header))"
  using GetMasterKey_loop_digest [OF assms [unfolded LUKSGetMasterKey_def]] by simp

theorem LUKSGetMasterKey_digest_witness:
  "\<exists>dg. LUKSComputeMKDigest toy_crypto toy_header (replicate 512 5) (replicate LUKS_DIGEST_SIZE 0) = Some (0, dg) \<and>
      take 20 dg = take 20 (mk_digest toy_header)"
proof -
  obtain s' h' where "LUKSGetMasterKey toy_crypto mem_ops (\<lambda>_. Some 0) toy_disk toy_header [3] 1 (replicate 512 0) =
    Some (0, replicate 512 5, s', h')" using toy_recovered by blast
  from LUKSGetMasterKey_digest [OF this] show ?thesis by blast
qed

text \<open>
  C4: \<open>LUKSGetMasterKey\<close> recovers a sealed key. If the first enabled slot of the header holds the
  anti-forensic split of a key, encrypted under the key derived from the passphrase, and the
  header holds the digest of the key, then reading, decrypting, merging and checking returns 0 and
  exactly that key, for the hash functions and block modes the header may name.
\<close>

theorem LUKSGetMasterKey_recovers:
  assumes "mem_inv dev" "mem_ready dev" "heap_ok h" "sha_lib_ok (sha K) H hashed"
    and "slots header = pre @ slot # rest" "\<forall>p \<in> set pre. enabled p = LUKS_SLOT_DISABLED" "enabled slot = LUKS_SLOT_ENABLED"
    and "sealed K H header slot pass passlen (mem_image dev) key" "length old = length key"
  shows "\<exists>dev' h'. LUKSGetMasterKey K mem_ops h dev header pass passlen old = Some (0, key, dev', h')"
  using assms by (rule mem_master_key_recovered)

theorem LUKSGetMasterKey_recovers_witness:
  "\<exists>dev' h'. LUKSGetMasterKey toy_crypto mem_ops (\<lambda>_. Some 0) toy_disk toy_header [3] 1 (replicate 512 0) =
    Some (0, replicate 512 5, dev', h')"
proof (rule LUKSGetMasterKey_recovers [OF toy_disk_ok(1,2) heap_ok_const toy_sha_ok _ _ _ toy_sealed])
  show "slots toy_header = [] @ hd (slots toy_header) # []" by (simp add: toy_header_def)
qed (auto simp: toy_header_def)

text \<open>
  A payload sector written with \<open>LUKSPutPayloadSector\<close> is what \<open>LUKSGetPayloadSector\<close> returns.
\<close>

lemma payload_sector_roundtrip:
  assumes "mem_inv dev" "mem_ready dev"
    and "sector_cipher_ok K header key" "plain_header header" "length key = unat (key_bytes header)"
    and "(unat (payload_offset header) + sec + 1) * 512 \<le> length (mem_image dev)"
    and "length d = 512" "length buf = 512" "heap_ok h"
  shows "\<exists>dev1 dev2 h1 h2. LUKSPutPayloadSector K mem_ops h dev header key sec d = Some (0, dev1, h1) \<and>
    LUKSGetPayloadSector K mem_ops h1 dev1 header key sec buf = Some (0, d, dev2, h2)"
  using assms by (rule mem_payload_roundtrip)

end
