(* ===== verification/TPMBuf.thy ===== *)
theory TPMBuf
  imports ByteOrder "HOL-Library.Monad_Syntax"
begin

text \<open>
  The marshalling buffer of TPM commands and responses (\<open>lsvmutils/tpmbuf.c\<close>). Every
  integer is sent big-endian. The buffer has a sticky error flag: once a request does not
  fit, later calls do nothing. \<open>None\<close> is an access outside the 4096-byte array or outside the
  caller's data; \<open>tpmbuf_inv\<close> rules it out.
\<close>

definition BUF_CAPACITY :: nat where
  "BUF_CAPACITY = 4096"

record tpmbuf =
  tb_data :: bytes
  tb_size :: nat
  tb_offset :: nat
  tb_cap :: nat
  tb_error :: int

text \<open>Subtraction of \<open>UINT32\<close> values.\<close>

definition usub32 :: "nat \<Rightarrow> nat \<Rightarrow> nat" where
  "usub32 a b = u32 (a + 2 ^ 32 - b)"

definition TPMBufInit :: "tpmbuf" where
  "TPMBufInit = \<lparr>tb_data = replicate BUF_CAPACITY 0xDD, tb_size = 0, tb_offset = 0, tb_cap = BUF_CAPACITY, tb_error = 0\<rparr>"

definition TPMBufPack :: "tpmbuf \<Rightarrow> bytes \<Rightarrow> nat \<Rightarrow> tpmbuf option" where
  "TPMBufPack self data sz =
     (let r = usub32 (tb_cap self) (tb_size self)
      in if tb_error self \<noteq> 0 then Some self
         else if sz > r then Some (self\<lparr>tb_error := 1\<rparr>)
         else do {
           src \<leftarrow> load 0 sz data;
           d \<leftarrow> store (tb_size self) src (tb_data self);
           Some (self\<lparr>tb_data := d, tb_size := u32 (tb_size self + sz)\<rparr>)
         })"

definition TPMBufPackU8 :: "tpmbuf \<Rightarrow> byte \<Rightarrow> tpmbuf option" where
  "TPMBufPackU8 self x = TPMBufPack self [x] 1"

definition TPMBufPackU16 :: "tpmbuf \<Rightarrow> 16 word \<Rightarrow> tpmbuf option" where
  "TPMBufPackU16 self x = TPMBufPack self (nat_le 2 (unat (ByteSwapU16 x))) 2"

definition TPMBufPackU32 :: "tpmbuf \<Rightarrow> 32 word \<Rightarrow> tpmbuf option" where
  "TPMBufPackU32 self x = TPMBufPack self (nat_le 4 (unat (ByteSwapU32 x))) 4"

text \<open>What the unpacking functions store through their output pointer (\<open>None\<close>: nothing).\<close>

definition TPMBufUnpack :: "tpmbuf \<Rightarrow> nat \<Rightarrow> (bytes option \<times> tpmbuf) option" where
  "TPMBufUnpack self sz =
     (let r = usub32 (tb_size self) (tb_offset self)
      in if tb_error self \<noteq> 0 then Some (None, self)
         else if sz > r then Some (None, self\<lparr>tb_error := 1\<rparr>)
         else do {
           d \<leftarrow> load (tb_offset self) sz (tb_data self);
           Some (Some d, self\<lparr>tb_offset := u32 (tb_offset self + sz)\<rparr>)
         })"

definition TPMBufUnpackU8 :: "tpmbuf \<Rightarrow> (byte option \<times> tpmbuf) option" where
  "TPMBufUnpackU8 self =
     (let r = usub32 (tb_size self) (tb_offset self)
      in if tb_error self \<noteq> 0 then Some (None, self)
         else if 1 > r then Some (None, self\<lparr>tb_error := 1\<rparr>)
         else do {
           x \<leftarrow> load (tb_offset self) 1 (tb_data self);
           Some (Some (hd x), self\<lparr>tb_offset := u32 (tb_offset self + 1)\<rparr>)
         })"

definition TPMBufUnpackU16 :: "tpmbuf \<Rightarrow> (16 word option \<times> tpmbuf) option" where
  "TPMBufUnpackU16 self =
     (let r = usub32 (tb_size self) (tb_offset self)
      in if tb_error self \<noteq> 0 then Some (None, self)
         else if 2 > r then Some (None, self\<lparr>tb_error := 1\<rparr>)
         else do {
           tmp \<leftarrow> load (tb_offset self) 2 (tb_data self);
           Some (Some (ByteSwapU16 (of_nat (le_nat tmp))), self\<lparr>tb_offset := u32 (tb_offset self + 2)\<rparr>)
         })"

definition TPMBufUnpackU32 :: "tpmbuf \<Rightarrow> (32 word option \<times> tpmbuf) option" where
  "TPMBufUnpackU32 self =
     (let r = usub32 (tb_size self) (tb_offset self)
      in if tb_error self \<noteq> 0 then Some (None, self)
         else if 4 > r then Some (None, self\<lparr>tb_error := 1\<rparr>)
         else do {
           tmp \<leftarrow> load (tb_offset self) 4 (tb_data self);
           Some (Some (ByteSwapU32 (of_nat (le_nat tmp))), self\<lparr>tb_offset := u32 (tb_offset self + 4)\<rparr>)
         })"

subsection \<open>Invariant\<close>

definition tpmbuf_inv :: "tpmbuf \<Rightarrow> bool" where
  "tpmbuf_inv b \<longleftrightarrow> tb_cap b = BUF_CAPACITY \<and> length (tb_data b) = BUF_CAPACITY \<and>
     tb_offset b \<le> tb_size b \<and> tb_size b \<le> tb_cap b"

text \<open>The bytes packed and not yet unpacked.\<close>

definition unread :: "tpmbuf \<Rightarrow> bytes" where
  "unread b = slice (tb_offset b) (tb_size b - tb_offset b) (tb_data b)"

lemma usub32_small: "b \<le> a \<Longrightarrow> a < 2 ^ 32 \<Longrightarrow> usub32 a b = a - b"
proof -
  assume "b \<le> a" and a: "a < 2 ^ 32"
  then have "a + 2 ^ 32 - b = (a - b) + 2 ^ 32" by simp
  then have "u32 (a + 2 ^ 32 - b) = (a - b) mod 2 ^ 32" by (simp only: u32_def mod_add_self2)
  with a show ?thesis by (simp add: usub32_def)
qed

lemma tpmbuf_inv_init: "tpmbuf_inv TPMBufInit"
  by (simp add: tpmbuf_inv_def TPMBufInit_def)

lemma room:
  assumes "tpmbuf_inv b"
  shows "usub32 (tb_cap b) (tb_size b) = 4096 - tb_size b" and "usub32 (tb_size b) (tb_offset b) = tb_size b - tb_offset b"
  using assms by (auto simp: tpmbuf_inv_def BUF_CAPACITY_def intro!: usub32_small)

lemma pack_cases:
  assumes inv: "tpmbuf_inv b" and ok: "tb_error b = 0"
  shows "length d \<le> 4096 - tb_size b \<Longrightarrow> \<exists>b'. TPMBufPack b d (length d) = Some b' \<and> tpmbuf_inv b' \<and>
      tb_error b' = 0 \<and> tb_offset b' = tb_offset b \<and> tb_size b' = tb_size b + length d \<and> unread b' = unread b @ d"
    and "length d > 4096 - tb_size b \<Longrightarrow> TPMBufPack b d (length d) = Some (b\<lparr>tb_error := 1\<rparr>)"
proof -
  assume len: "length d \<le> 4096 - tb_size b"
  let ?b = "b\<lparr>tb_data := overwrite (tb_size b) d (tb_data b), tb_size := tb_size b + length d\<rparr>"
  have fit: "tb_size b + length d \<le> length (tb_data b)" "tb_size b + length d \<le> 4096"
    using inv len by (auto simp: tpmbuf_inv_def BUF_CAPACITY_def)
  then have "TPMBufPack b d (length d) = Some ?b"
    using ok len by (simp add: TPMBufPack_def room [OF inv] load_def store_def)
  moreover have "tpmbuf_inv ?b" using inv fit by (simp add: tpmbuf_inv_def BUF_CAPACITY_def)
  moreover have "unread ?b = unread b @ d"
    using inv fit by (simp add: unread_def tpmbuf_inv_def slice_def overwrite_def drop_take)
  ultimately show "\<exists>b'. TPMBufPack b d (length d) = Some b' \<and> tpmbuf_inv b' \<and>
      tb_error b' = 0 \<and> tb_offset b' = tb_offset b \<and> tb_size b' = tb_size b + length d \<and> unread b' = unread b @ d"
    using ok by auto
next
  assume "length d > 4096 - tb_size b"
  then show "TPMBufPack b d (length d) = Some (b\<lparr>tb_error := 1\<rparr>)"
    using ok by (simp add: TPMBufPack_def room [OF inv])
qed

lemma unread_load:
  assumes inv: "tpmbuf_inv b" and d: "unread b = d @ rest"
  shows "load (tb_offset b) (length d) (tb_data b) = Some d" and "length d \<le> tb_size b - tb_offset b"
    and "tpmbuf_inv (b\<lparr>tb_offset := tb_offset b + length d\<rparr>)"
    and "unread (b\<lparr>tb_offset := tb_offset b + length d\<rparr>) = rest"
    and "u32 (tb_offset b + length d) = tb_offset b + length d"
proof -
  have "length (unread b) = tb_size b - tb_offset b"
    using inv by (auto simp: unread_def tpmbuf_inv_def)
  with d have len: "length d + length rest = tb_size b - tb_offset b" by simp
  then show l: "length d \<le> tb_size b - tb_offset b" by simp
  have "slice (tb_offset b) (length d) (tb_data b) = take (length d) (unread b)"
    using l by (simp add: unread_def slice_def)
  then have sl: "slice (tb_offset b) (length d) (tb_data b) = d" using d by simp
  then show "load (tb_offset b) (length d) (tb_data b) = Some d"
    using inv len by (auto simp: load_def d tpmbuf_inv_def)
  show "tpmbuf_inv (b\<lparr>tb_offset := tb_offset b + length d\<rparr>)"
    using inv len by (auto simp: tpmbuf_inv_def)
  have "tb_size b - tb_offset b = length d + (tb_size b - (tb_offset b + length d))" using len by simp
  then have "unread b = slice (tb_offset b) (length d) (tb_data b) @ unread (b\<lparr>tb_offset := tb_offset b + length d\<rparr>)"
    using slice_split [of "tb_offset b" "length d" "tb_size b - (tb_offset b + length d)" "tb_data b"]
    by (simp add: unread_def)
  then show "unread (b\<lparr>tb_offset := tb_offset b + length d\<rparr>) = rest"
    unfolding sl d by simp
  show "u32 (tb_offset b + length d) = tb_offset b + length d"
    using inv len by (intro u32_small) (auto simp: tpmbuf_inv_def BUF_CAPACITY_def)
qed

subsection \<open>Sequences of items\<close>

datatype item = I8 byte | I16 "16 word" | I32 "32 word" | Raw bytes

fun pack_item :: "tpmbuf \<Rightarrow> item \<Rightarrow> tpmbuf option" where
  "pack_item b (I8 x) = TPMBufPackU8 b x"
| "pack_item b (I16 x) = TPMBufPackU16 b x"
| "pack_item b (I32 x) = TPMBufPackU32 b x"
| "pack_item b (Raw d) = TPMBufPack b d (length d)"

text \<open>Unpacking an item of the same shape.\<close>

fun unpack_item :: "tpmbuf \<Rightarrow> item \<Rightarrow> (item option \<times> tpmbuf) option" where
  "unpack_item b (I8 _) = map_option (\<lambda>(x, b'). (map_option I8 x, b')) (TPMBufUnpackU8 b)"
| "unpack_item b (I16 _) = map_option (\<lambda>(x, b'). (map_option I16 x, b')) (TPMBufUnpackU16 b)"
| "unpack_item b (I32 _) = map_option (\<lambda>(x, b'). (map_option I32 x, b')) (TPMBufUnpackU32 b)"
| "unpack_item b (Raw d) = map_option (\<lambda>(x, b'). (map_option Raw x, b')) (TPMBufUnpack b (length d))"

fun wire :: "item \<Rightarrow> bytes" where
  "wire (I8 x) = [x]"
| "wire (I16 x) = rev (nat_le 2 (unat x))"
| "wire (I32 x) = rev (nat_le 4 (unat x))"
| "wire (Raw d) = d"

fun pack_items :: "tpmbuf \<Rightarrow> item list \<Rightarrow> tpmbuf option" where
  "pack_items b [] = Some b"
| "pack_items b (i # is) = do { b' \<leftarrow> pack_item b i; pack_items b' is }"

fun unpack_items :: "tpmbuf \<Rightarrow> item list \<Rightarrow> (item option list \<times> tpmbuf) option" where
  "unpack_items b [] = Some ([], b)"
| "unpack_items b (i # is) = do { (x, b1) \<leftarrow> unpack_item b i; (xs, b2) \<leftarrow> unpack_items b1 is; Some (x # xs, b2) }"

lemma pack_item_wire: "pack_item b i = TPMBufPack b (wire i) (length (wire i))"
  by (cases i) (simp_all add: TPMBufPackU8_def TPMBufPackU16_def TPMBufPackU32_def ByteSwapU16_bytes ByteSwapU32_bytes)

lemma pack_items_fit:
  assumes "tpmbuf_inv b" "tb_error b = 0" "tb_size b + length (concat (map wire is)) \<le> 4096"
  shows "\<exists>b'. pack_items b is = Some b' \<and> tpmbuf_inv b' \<and> tb_error b' = 0 \<and>
    unread b' = unread b @ concat (map wire is)"
  using assms
proof (induction "is" arbitrary: b)
  case (Cons i "is")
  have "length (wire i) \<le> 4096 - tb_size b" using Cons.prems(3) by simp
  from pack_cases(1) [OF Cons.prems(1,2) this] obtain b1 where
    b1: "pack_item b i = Some b1" "tpmbuf_inv b1" "tb_error b1 = 0" "tb_size b1 = tb_size b + length (wire i)"
      "unread b1 = unread b @ wire i" by (auto simp: pack_item_wire)
  with Cons.IH [OF b1(2,3)] Cons.prems(3) show ?case by auto
qed simp

text \<open>Once the flag is set, no call changes the buffer.\<close>

lemma pack_error: "tb_error b \<noteq> 0 \<Longrightarrow> pack_items b is = Some b"
  by (induction "is") (auto simp: pack_item_wire TPMBufPack_def)

lemma pack_items_overflow:
  assumes "tpmbuf_inv b" "tb_error b = 0" "tb_size b + length (concat (map wire is)) > 4096"
  shows "\<exists>b'. pack_items b is = Some b' \<and> tpmbuf_inv b' \<and> tb_error b' = 1"
  using assms
proof (induction "is" arbitrary: b)
  case Nil
  then show ?case by (simp add: tpmbuf_inv_def BUF_CAPACITY_def)
next
  case (Cons i "is")
  show ?case
  proof (cases "length (wire i) \<le> 4096 - tb_size b")
    case True
    from pack_cases(1) [OF Cons.prems(1,2) True] obtain b1 where
      "pack_item b i = Some b1" "tpmbuf_inv b1" "tb_error b1 = 0" "tb_size b1 = tb_size b + length (wire i)"
      by (auto simp: pack_item_wire)
    with Cons.IH [of b1] Cons.prems(3) show ?thesis by auto
  next
    case False
    then have "pack_item b i = Some (b\<lparr>tb_error := 1\<rparr>)"
      using pack_cases(2) [OF Cons.prems(1,2), of "wire i"] by (simp add: pack_item_wire)
    moreover have "tpmbuf_inv (b\<lparr>tb_error := 1\<rparr>)" using Cons.prems(1) by (simp add: tpmbuf_inv_def)
    ultimately show ?thesis by (simp add: pack_error)
  qed
qed

lemma unpack_item_wire:
  assumes inv: "tpmbuf_inv b" and ok: "tb_error b = 0" and d: "unread b = wire i @ rest"
  shows "\<exists>b'. unpack_item b i = Some (Some i, b') \<and> tpmbuf_inv b' \<and> tb_error b' = 0 \<and> unread b' = rest"
proof -
  note u = unread_load [OF inv d] room(2) [OF inv]
  let ?b = "b\<lparr>tb_offset := tb_offset b + length (wire i)\<rparr>"
  have "unpack_item b i = Some (Some i, ?b)"
  proof (cases i)
    case (I16 x)
    have "of_nat (le_nat (rev (nat_le 2 (unat x)))) = ByteSwapU16 x"
      unfolding ByteSwapU16_bytes [symmetric] by (rule word_nat_le) simp
    with u ok I16 show ?thesis by (simp add: TPMBufUnpackU16_def Let_def)
  next
    case (I32 x)
    have "of_nat (le_nat (rev (nat_le 4 (unat x)))) = ByteSwapU32 x"
      unfolding ByteSwapU32_bytes [symmetric] by (rule word_nat_le) simp
    with u ok I32 show ?thesis by (simp add: TPMBufUnpackU32_def Let_def)
  qed (use u ok in \<open>simp_all add: TPMBufUnpackU8_def TPMBufUnpack_def Let_def\<close>)
  with u(3,4) ok show ?thesis by auto
qed

lemma unpack_items_wire:
  assumes "tpmbuf_inv b" "tb_error b = 0" "unread b = concat (map wire is) @ rest"
  shows "\<exists>b'. unpack_items b is = Some (map Some is, b') \<and> tpmbuf_inv b' \<and> tb_error b' = 0 \<and> unread b' = rest"
  using assms
proof (induction "is" arbitrary: b)
  case (Cons i "is")
  from unpack_item_wire [OF Cons.prems(1,2), of i] Cons.prems(3) obtain b1 where
    "unpack_item b i = Some (Some i, b1)" "tpmbuf_inv b1" "tb_error b1 = 0" "unread b1 = concat (map wire is) @ rest"
    by auto
  with Cons.IH [of b1] show ?case by auto
qed simp

section \<open>Claims\<close>

text \<open>
  What is packed into a fresh TPM command buffer is unpacked again. Any sequence of 8, 16 and 32
  bit integers and raw bytes of at most 4096 bytes in all is packed without an error, and
  unpacking the same kinds returns the values, big-endian on the wire, and leaves nothing unread.
\<close>

lemma TPMBuf_pack_unpack:
  assumes "length (concat (map wire is)) \<le> 4096"
  shows "\<exists>b b'. pack_items TPMBufInit is = Some b \<and> tb_error b = 0 \<and> unpack_items b is = Some (map Some is, b') \<and>
    tb_error b' = 0 \<and> unread b' = []"
proof -
  have "unread TPMBufInit = []" "tb_error TPMBufInit = 0" "tb_size TPMBufInit = 0" by (simp_all add: TPMBufInit_def unread_def)
  with pack_items_fit [OF tpmbuf_inv_init, of "is"] assms obtain b where
    b: "pack_items TPMBufInit is = Some b" "tpmbuf_inv b" "tb_error b = 0" "unread b = concat (map wire is) @ []" by auto
  with unpack_items_wire [OF b(2,3,4)] show ?thesis by blast
qed

text \<open>
  Packing more than the capacity never writes outside the buffer: it sets the error flag, which
  stays set, and the buffer stays well formed.
\<close>

lemma TPMBuf_overflow:
  assumes "tpmbuf_inv b" "tb_error b = 0" "tb_size b + length (concat (map wire is)) > 4096"
  shows "\<exists>b'. pack_items b is = Some b' \<and> tpmbuf_inv b' \<and> tb_error b' = 1 \<and> pack_items b' js = Some b'"
  using pack_items_overflow [OF assms] pack_error by fastforce

end
