(* ===== verification/Tpm2Types.thy ===== *)
theory Tpm2Types
  imports TPMBuf
begin

text \<open>
  The data of TPM 2.0 commands (\<open>lsvmutils/tpm2.h\<close>): constants and structures.

  A sized buffer (\<open>TPM2B\<close> and the structures that are cast to it) is its \<open>size\<close> field
  and the bytes of its array, whose length is the capacity the C type declares. Bit-field
  structures (\<open>TPMA_OBJECT\<close>, \<open>TPMA_SESSION\<close>) are the 32-bit word that holds them, first
  field in the lowest bit. A union is modelled by the members the code selects: members whose
  leading fields coincide (the sized buffers of \<open>TPMU_PUBLIC_ID\<close> and
  \<open>TPMU_SENSITIVE_COMPOSITE\<close>, the 16-bit alternatives of \<open>TPMU_SYM_KEY_BITS\<close>,
  \<open>TPMU_SYM_MODE\<close> and \<open>TPMU_KDF_SCHEME\<close>, the two of \<open>TPMU_SCHEME_KEYEDHASH\<close>) share one
  field here; the other alternatives are kept side by side, since every access selects the
  member by the algorithm identifier stored next to the union. The \<open>details\<close> of the
  asymmetric schemes are never read or written (only the null scheme is supported) and are
  left out.
\<close>

subsection \<open>Constants\<close>

abbreviation (input) TPM_RC_SUCCESS :: "32 word" where "TPM_RC_SUCCESS \<equiv> 0"
abbreviation (input) TPM_RC_FAILURE :: "32 word" where "TPM_RC_FAILURE \<equiv> 0x101"
abbreviation (input) TPM_RC_SIZE :: "32 word" where "TPM_RC_SIZE \<equiv> 0x095"

abbreviation (input) TPM_ST_NO_SESSIONS :: "16 word" where "TPM_ST_NO_SESSIONS \<equiv> 0x8001"
abbreviation (input) TPM_ST_SESSIONS :: "16 word" where "TPM_ST_SESSIONS \<equiv> 0x8002"

abbreviation (input) TPM_ALG_RSA :: "16 word" where "TPM_ALG_RSA \<equiv> 0x0001"
abbreviation (input) TPM_ALG_SHA1 :: "16 word" where "TPM_ALG_SHA1 \<equiv> 0x0004"
abbreviation (input) TPM_ALG_HMAC :: "16 word" where "TPM_ALG_HMAC \<equiv> 0x0005"
abbreviation (input) TPM_ALG_AES :: "16 word" where "TPM_ALG_AES \<equiv> 0x0006"
abbreviation (input) TPM_ALG_MGF1 :: "16 word" where "TPM_ALG_MGF1 \<equiv> 0x0007"
abbreviation (input) TPM_ALG_KEYEDHASH :: "16 word" where "TPM_ALG_KEYEDHASH \<equiv> 0x0008"
abbreviation (input) TPM_ALG_XOR :: "16 word" where "TPM_ALG_XOR \<equiv> 0x000A"
abbreviation (input) TPM_ALG_SHA256 :: "16 word" where "TPM_ALG_SHA256 \<equiv> 0x000B"
abbreviation (input) TPM_ALG_SHA384 :: "16 word" where "TPM_ALG_SHA384 \<equiv> 0x000C"
abbreviation (input) TPM_ALG_SHA512 :: "16 word" where "TPM_ALG_SHA512 \<equiv> 0x000D"
abbreviation (input) TPM_ALG_NULL :: "16 word" where "TPM_ALG_NULL \<equiv> 0x0010"
abbreviation (input) TPM_ALG_SM3_256 :: "16 word" where "TPM_ALG_SM3_256 \<equiv> 0x0012"
abbreviation (input) TPM_ALG_SM4 :: "16 word" where "TPM_ALG_SM4 \<equiv> 0x0013"
abbreviation (input) TPM_ALG_KDF1_SP800_56A :: "16 word" where "TPM_ALG_KDF1_SP800_56A \<equiv> 0x0020"
abbreviation (input) TPM_ALG_KDF2 :: "16 word" where "TPM_ALG_KDF2 \<equiv> 0x0021"
abbreviation (input) TPM_ALG_KDF1_SP800_108 :: "16 word" where "TPM_ALG_KDF1_SP800_108 \<equiv> 0x0022"
abbreviation (input) TPM_ALG_ECC :: "16 word" where "TPM_ALG_ECC \<equiv> 0x0023"
abbreviation (input) TPM_ALG_SYMCIPHER :: "16 word" where "TPM_ALG_SYMCIPHER \<equiv> 0x0025"
abbreviation (input) TPM_ALG_CAMELLIA :: "16 word" where "TPM_ALG_CAMELLIA \<equiv> 0x0026"
abbreviation (input) TPM_ALG_CFB :: "16 word" where "TPM_ALG_CFB \<equiv> 0x0043"

abbreviation (input) TPM_RH_OWNER :: "32 word" where "TPM_RH_OWNER \<equiv> 0x40000001"
abbreviation (input) TPM_RH_NULL :: "32 word" where "TPM_RH_NULL \<equiv> 0x40000007"
abbreviation (input) TPM_RS_PW :: "32 word" where "TPM_RS_PW \<equiv> 0x40000009"
abbreviation (input) TPM_RH_LOCKOUT :: "32 word" where "TPM_RH_LOCKOUT \<equiv> 0x4000000A"

abbreviation (input) TPM_CAP_TPM_PROPERTIES :: "32 word" where "TPM_CAP_TPM_PROPERTIES \<equiv> 6"
abbreviation (input) TPM_PT_REVISION :: "32 word" where "TPM_PT_REVISION \<equiv> 0x102"
abbreviation (input) TPM_PT_PCR_COUNT :: "32 word" where "TPM_PT_PCR_COUNT \<equiv> 0x112"

abbreviation (input) MAX_PCRS :: nat where "MAX_PCRS \<equiv> 16"

text \<open>Array capacities: \<open>sizeof(TPMU_HA)\<close>, \<open>PCR_SELECT_MAX\<close> and those of the sized buffers.\<close>

abbreviation (input) PCR_SELECT_MAX :: nat where "PCR_SELECT_MAX \<equiv> 3"
abbreviation (input) HASH_COUNT :: nat where "HASH_COUNT \<equiv> 8"
abbreviation (input) MAX_TPM_PROPERTIES :: nat where "MAX_TPM_PROPERTIES \<equiv> 8"
abbreviation (input) TPM2B_DIGEST_CAP :: nat where "TPM2B_DIGEST_CAP \<equiv> 64"
abbreviation (input) TPM2B_DATA_CAP :: nat where "TPM2B_DATA_CAP \<equiv> 66"
abbreviation (input) TPM2B_NAME_CAP :: nat where "TPM2B_NAME_CAP \<equiv> 68"
abbreviation (input) MAX_SYM_DATA :: nat where "MAX_SYM_DATA \<equiv> 128"
abbreviation (input) MAX_RSA_KEY_BYTES :: nat where "MAX_RSA_KEY_BYTES \<equiv> 256"
abbreviation (input) MAX_ECC_KEY_BYTES :: nat where "MAX_ECC_KEY_BYTES \<equiv> 48"
abbreviation (input) MAX_SYM_KEY_BYTES :: nat where "MAX_SYM_KEY_BYTES \<equiv> 32"
abbreviation (input) MAX_DIGEST_BUFFER :: nat where "MAX_DIGEST_BUFFER \<equiv> 1024"
abbreviation (input) PRIVATE_VENDOR_SPECIFIC_BYTES :: nat where "PRIVATE_VENDOR_SPECIFIC_BYTES \<equiv> 640"

text \<open>\<open>sizeof(_PRIVATE)\<close>, the bytes of a \<open>TPM2B_CREATION_DATA\<close> after its size field (padding
  included) and \<open>sizeof(TPM2X_BLOB)\<close> on the x86-64 target.\<close>

abbreviation (input) TPM2B_PRIVATE_CAP :: nat where "TPM2B_PRIVATE_CAP \<equiv> 910"
abbreviation (input) TPM2B_CREATION_DATA_CAP :: nat where "TPM2B_CREATION_DATA_CAP \<equiv> 334"
abbreviation (input) TPM2X_BLOB_SIZE :: nat where "TPM2X_BLOB_SIZE \<equiv> 1344"

subsection \<open>Structures\<close>

record tpm2b =
  b_size :: "16 word"
  b_buffer :: bytes

record tpms_pcr_select =
  ps_sizeofSelect :: byte
  ps_pcrSelect :: bytes

record tpms_pcr_selection =
  sel_hash :: "16 word"
  sel_sizeofSelect :: byte
  sel_pcrSelect :: bytes

record tpml_pcr_selection =
  pl_count :: "32 word"
  pl_pcrSelections :: "tpms_pcr_selection list"

record tpml_digest =
  dl_count :: "32 word"
  dl_digests :: "tpm2b list"

record tpms_tagged_property =
  tp_property :: "32 word"
  tp_value :: "32 word"

record tpms_capability_data =
  cd_count :: "32 word"
  cd_tpmProperty :: "tpms_tagged_property list"

record tpms_auth_command =
  ac_sessionHandle :: "32 word"
  ac_nonce :: tpm2b
  ac_sessionAttributes :: "32 word"
  ac_hmac :: tpm2b

record tpms_auth_response =
  ar_nonce :: tpm2b
  ar_sessionAttributes :: "32 word"
  ar_hmac :: tpm2b

record tpms_sensitive_create =
  sc_userAuth :: tpm2b
  sc_data :: tpm2b

record tpm2b_sensitive_create =
  bsc_size :: "16 word"
  bsc_sensitive :: tpms_sensitive_create

record tpmt_keyedhash_scheme =
  kh_scheme :: "16 word"
  kh_hashAlg :: "16 word"
  kh_kdf :: "16 word"

record tpmt_sym_def_object =
  sym_algorithm :: "16 word"
  sym_keyBits :: "16 word"
  sym_mode :: "16 word"

record tpms_rsa_parms =
  rsa_symmetric :: tpmt_sym_def_object
  rsa_scheme :: "16 word"
  rsa_keyBits :: "16 word"
  rsa_exponent :: "32 word"

record tpmt_kdf_scheme =
  kdf_scheme :: "16 word"
  kdf_hashAlg :: "16 word"

record tpms_ecc_parms =
  ecc_symmetric :: tpmt_sym_def_object
  ecc_scheme :: "16 word"
  ecc_curveID :: "16 word"
  ecc_kdf :: tpmt_kdf_scheme

record tpmu_public_parms =
  keyedHashDetail :: tpmt_keyedhash_scheme
  symDetail :: tpmt_sym_def_object
  rsaDetail :: tpms_rsa_parms
  eccDetail :: tpms_ecc_parms

record tpms_ecc_point =
  pt_x :: tpm2b
  pt_y :: tpm2b

record tpmu_public_id =
  id_buffer :: tpm2b
  id_ecc :: tpms_ecc_point

record tpmt_public =
  pub_type :: "16 word"
  pub_nameAlg :: "16 word"
  pub_objectAttributes :: "32 word"
  pub_authPolicy :: tpm2b
  pub_parameters :: tpmu_public_parms
  pub_unique :: tpmu_public_id

record tpm2b_public =
  bp_size :: "16 word"
  bp_publicArea :: tpmt_public

record tpmt_ha =
  ha_hashAlg :: "16 word"
  ha_digest :: bytes

record tpml_digest_values =
  dv_count :: "16 word"
  dv_digests :: "tpmt_ha list"

record tpmt_tk =
  tk_tag :: "16 word"
  tk_hierarchy :: "32 word"
  tk_digest :: tpm2b

record tpmt_sensitive =
  sen_sensitiveType :: "16 word"
  sen_authValue :: tpm2b
  sen_seedValue :: tpm2b
  sen_sensitive :: tpm2b

record tpm2x_blob =
  blob_private :: tpm2b
  blob_public :: tpm2b_public
  blob_hash :: tpm2b
  blob_pcr :: tpms_pcr_select

subsection \<open>Cleared structures\<close>

text \<open>The values after \<open>Memset(&x, 0, sizeof(x))\<close>.\<close>

definition zero_2b :: "nat \<Rightarrow> tpm2b" where
  "zero_2b cap = \<lparr>b_size = 0, b_buffer = replicate cap 0\<rparr>"

definition zero_pcr_selection :: tpml_pcr_selection where
  "zero_pcr_selection =
     \<lparr>pl_count = 0, pl_pcrSelections = replicate HASH_COUNT \<lparr>sel_hash = 0, sel_sizeofSelect = 0, sel_pcrSelect = replicate PCR_SELECT_MAX 0\<rparr>\<rparr>"

definition zero_digests :: tpml_digest where
  "zero_digests = \<lparr>dl_count = 0, dl_digests = replicate 8 (zero_2b TPM2B_DIGEST_CAP)\<rparr>"

definition zero_auth_command :: tpms_auth_command where
  "zero_auth_command = \<lparr>ac_sessionHandle = 0, ac_nonce = zero_2b TPM2B_DIGEST_CAP, ac_sessionAttributes = 0, ac_hmac = zero_2b TPM2B_DIGEST_CAP\<rparr>"

definition zero_auth_response :: tpms_auth_response where
  "zero_auth_response = \<lparr>ar_nonce = zero_2b TPM2B_DIGEST_CAP, ar_sessionAttributes = 0, ar_hmac = zero_2b TPM2B_DIGEST_CAP\<rparr>"

definition zero_sym :: tpmt_sym_def_object where
  "zero_sym = \<lparr>sym_algorithm = 0, sym_keyBits = 0, sym_mode = 0\<rparr>"

definition zero_public :: tpm2b_public where
  "zero_public =
     \<lparr>bp_size = 0, bp_publicArea =
       \<lparr>pub_type = 0, pub_nameAlg = 0, pub_objectAttributes = 0, pub_authPolicy = zero_2b TPM2B_DIGEST_CAP,
        pub_parameters =
          \<lparr>keyedHashDetail = \<lparr>kh_scheme = 0, kh_hashAlg = 0, kh_kdf = 0\<rparr>, symDetail = zero_sym,
           rsaDetail = \<lparr>rsa_symmetric = zero_sym, rsa_scheme = 0, rsa_keyBits = 0, rsa_exponent = 0\<rparr>,
           eccDetail = \<lparr>ecc_symmetric = zero_sym, ecc_scheme = 0, ecc_curveID = 0, ecc_kdf = \<lparr>kdf_scheme = 0, kdf_hashAlg = 0\<rparr>\<rparr>\<rparr>,
        pub_unique = \<lparr>id_buffer = zero_2b MAX_RSA_KEY_BYTES, id_ecc = \<lparr>pt_x = zero_2b MAX_ECC_KEY_BYTES, pt_y = zero_2b MAX_ECC_KEY_BYTES\<rparr>\<rparr>\<rparr>\<rparr>"

definition zero_sensitive_create :: tpm2b_sensitive_create where
  "zero_sensitive_create = \<lparr>bsc_size = 0, bsc_sensitive = \<lparr>sc_userAuth = zero_2b TPM2B_DIGEST_CAP, sc_data = zero_2b MAX_SYM_DATA\<rparr>\<rparr>"

definition zero_tk :: tpmt_tk where
  "zero_tk = \<lparr>tk_tag = 0, tk_hierarchy = 0, tk_digest = zero_2b TPM2B_DIGEST_CAP\<rparr>"

definition zero_digest_values :: tpml_digest_values where
  "zero_digest_values = \<lparr>dv_count = 0, dv_digests = replicate HASH_COUNT \<lparr>ha_hashAlg = 0, ha_digest = replicate 64 0\<rparr>\<rparr>"

subsection \<open>Well-formed structures\<close>

text \<open>
  The arrays have the capacity of the C type, and the sizes stored beside them do not exceed it.
\<close>

definition wf_2b :: "nat \<Rightarrow> tpm2b \<Rightarrow> bool" where
  "wf_2b cap p \<longleftrightarrow> length (b_buffer p) = cap \<and> unat (b_size p) \<le> cap"

definition wf_pcr_select :: "tpms_pcr_select \<Rightarrow> bool" where
  "wf_pcr_select p \<longleftrightarrow> length (ps_pcrSelect p) = PCR_SELECT_MAX \<and> unat (ps_sizeofSelect p) \<le> PCR_SELECT_MAX"

definition wf_pcr_selection :: "tpms_pcr_selection \<Rightarrow> bool" where
  "wf_pcr_selection p \<longleftrightarrow> length (sel_pcrSelect p) = PCR_SELECT_MAX \<and> unat (sel_sizeofSelect p) \<le> PCR_SELECT_MAX"

definition wf_pcr_selections :: "tpml_pcr_selection \<Rightarrow> bool" where
  "wf_pcr_selections p \<longleftrightarrow> length (pl_pcrSelections p) = HASH_COUNT \<and> unat (pl_count p) \<le> HASH_COUNT \<and>
     list_all wf_pcr_selection (pl_pcrSelections p)"

lemma wf_zero_2b [simp]: "wf_2b cap (zero_2b cap)"
  by (simp add: wf_2b_def zero_2b_def)

lemma wf_zero_pcr_selection [simp]: "wf_pcr_selections zero_pcr_selection"
  by (simp add: wf_pcr_selections_def zero_pcr_selection_def wf_pcr_selection_def list_all_iff)

end
