(* ===== verification/Tpm2Marshal.thy ===== *)
theory Tpm2Marshal
  imports Tpm2Types
begin

text \<open>
  Marshalling of the TPM 2.0 structures (the \<open>_Pack\<close> and \<open>_Unpack\<close> functions of
  \<open>lsvmutils/tpm2.c\<close>) over the command buffer of \<open>TPMBuf\<close>.

  A packing function takes the buffer and the structure; \<open>None\<close> is a read outside an array
  of the structure or a write outside the buffer. An unpacking function takes the buffer and
  the old contents of the structure, because a call that finds the error flag set, or sets it,
  stores nothing: sizes and selectors are then whatever the structure held before.
  \<open>None\<close> is a store outside an array, which the code does not prevent: a size or count is
  taken from the response and never compared with the capacity of the array it fills.
\<close>

subsection \<open>Loops and stores\<close>

text \<open>\<open>for (i = 0; i < n; i++) TPMBufPackU8(buf, data[i])\<close>\<close>

function pack_bytes :: "tpmbuf \<Rightarrow> bytes \<Rightarrow> nat \<Rightarrow> nat \<Rightarrow> tpmbuf option" where
  "pack_bytes buf data i n =
     (if i < n then
        (if i < length data then do { buf \<leftarrow> TPMBufPackU8 buf (data ! i); pack_bytes buf data (i + 1) n } else None)
      else Some buf)"
  by pat_completeness auto
termination by (relation "measure (\<lambda>(_, _, i, n). n - i)") auto

text \<open>The value of a variable after a call that may store through a pointer to it.\<close>

definition into :: "('a option \<times> tpmbuf) option \<Rightarrow> 'a \<Rightarrow> ('a \<times> tpmbuf) option" where
  "into r old = map_option (\<lambda>(x, buf). (case x of None \<Rightarrow> old | Some v \<Rightarrow> v, buf)) r"

text \<open>\<open>for (i = 0; i < n; i++) TPMBufUnpackU8(buf, &data[i])\<close>\<close>

function unpack_bytes :: "tpmbuf \<Rightarrow> bytes \<Rightarrow> nat \<Rightarrow> nat \<Rightarrow> (bytes \<times> tpmbuf) option" where
  "unpack_bytes buf data i n =
     (if i < n then
        do {
          (x, buf) \<leftarrow> TPMBufUnpackU8 buf;
          (case x of
             None \<Rightarrow> unpack_bytes buf data (i + 1) n
           | Some v \<Rightarrow> if i < length data then unpack_bytes buf (data[i := v]) (i + 1) n else None)
        }
      else Some (data, buf))"
  by pat_completeness auto
termination by (relation "measure (\<lambda>(_, _, i, n). n - i)") auto

text \<open>\<open>TPMBufUnpack(buf, data, n)\<close> into an array.\<close>

definition unpack_array :: "tpmbuf \<Rightarrow> bytes \<Rightarrow> nat \<Rightarrow> (bytes \<times> tpmbuf) option" where
  "unpack_array buf data n =
     do {
       (x, buf) \<leftarrow> TPMBufUnpack buf n;
       (case x of None \<Rightarrow> Some (data, buf) | Some d \<Rightarrow> do { data \<leftarrow> store 0 d data; Some (data, buf) })
     }"

text \<open>\<open>Memcpy(&buf->data[start - n], &value, n)\<close>: the size in front of what has been packed.\<close>

definition patch :: "tpmbuf \<Rightarrow> nat \<Rightarrow> bytes \<Rightarrow> tpmbuf option" where
  "patch buf start value =
     (if start < length value then None
      else do { d \<leftarrow> store (start - length value) value (tb_data buf); Some (buf\<lparr>tb_data := d\<rparr>) })"

definition set_error :: "tpmbuf \<Rightarrow> tpmbuf" where
  "set_error buf = buf\<lparr>tb_error := 1\<rparr>"

subsection \<open>Selections of PCRs, digests, properties\<close>

definition Pack_TPMS_PCR_SELECT :: "tpmbuf \<Rightarrow> tpms_pcr_select \<Rightarrow> tpmbuf option" where
  "Pack_TPMS_PCR_SELECT buf pcr =
     do {
       buf \<leftarrow> TPMBufPackU8 buf (ps_sizeofSelect pcr);
       pack_bytes buf (ps_pcrSelect pcr) 0 (unat (ps_sizeofSelect pcr))
     }"

definition Unpack_TPMS_PCR_SELECT :: "tpmbuf \<Rightarrow> tpms_pcr_select \<Rightarrow> (tpms_pcr_select \<times> tpmbuf) option" where
  "Unpack_TPMS_PCR_SELECT buf pcr =
     do {
       (n, buf) \<leftarrow> into (TPMBufUnpackU8 buf) (ps_sizeofSelect pcr);
       (d, buf) \<leftarrow> unpack_bytes buf (ps_pcrSelect pcr) 0 (unat n);
       Some (pcr\<lparr>ps_sizeofSelect := n, ps_pcrSelect := d\<rparr>, buf)
     }"

definition Pack_TPMS_PCR_SELECTION :: "tpmbuf \<Rightarrow> tpms_pcr_selection \<Rightarrow> tpmbuf option" where
  "Pack_TPMS_PCR_SELECTION buf pcrSelection =
     do {
       buf \<leftarrow> TPMBufPackU16 buf (sel_hash pcrSelection);
       buf \<leftarrow> TPMBufPackU8 buf (sel_sizeofSelect pcrSelection);
       pack_bytes buf (sel_pcrSelect pcrSelection) 0 (unat (sel_sizeofSelect pcrSelection))
     }"

function pack_selections :: "tpmbuf \<Rightarrow> tpms_pcr_selection list \<Rightarrow> nat \<Rightarrow> nat \<Rightarrow> tpmbuf option" where
  "pack_selections buf sels i n =
     (if i < n then
        (if i < length sels then do { buf \<leftarrow> Pack_TPMS_PCR_SELECTION buf (sels ! i); pack_selections buf sels (i + 1) n }
         else None)
      else Some buf)"
  by pat_completeness auto
termination by (relation "measure (\<lambda>(_, _, i, n). n - i)") auto

definition Pack_TPML_PCR_SELECTION :: "tpmbuf \<Rightarrow> tpml_pcr_selection \<Rightarrow> tpmbuf option" where
  "Pack_TPML_PCR_SELECTION buf pcrSelection =
     do {
       buf \<leftarrow> TPMBufPackU32 buf (pl_count pcrSelection);
       pack_selections buf (pl_pcrSelections pcrSelection) 0 (unat (pl_count pcrSelection))
     }"

definition Unpack_TPMS_PCR_SELECTION :: "tpmbuf \<Rightarrow> tpms_pcr_selection \<Rightarrow> (tpms_pcr_selection \<times> tpmbuf) option" where
  "Unpack_TPMS_PCR_SELECTION buf pcrSelection =
     do {
       (h, buf) \<leftarrow> into (TPMBufUnpackU16 buf) (sel_hash pcrSelection);
       (n, buf) \<leftarrow> into (TPMBufUnpackU8 buf) (sel_sizeofSelect pcrSelection);
       (d, buf) \<leftarrow> unpack_bytes buf (sel_pcrSelect pcrSelection) 0 (unat n);
       Some (pcrSelection\<lparr>sel_hash := h, sel_sizeofSelect := n, sel_pcrSelect := d\<rparr>, buf)
     }"

text \<open>The inner loop reads the size of the selection, so an index beyond the array is an access
  outside it even when the error flag is set.\<close>

function unpack_selections ::
  "tpmbuf \<Rightarrow> tpms_pcr_selection list \<Rightarrow> nat \<Rightarrow> nat \<Rightarrow> (tpms_pcr_selection list \<times> tpmbuf) option" where
  "unpack_selections buf sels i n =
     (if i < n then
        (if i < length sels then
           (case Unpack_TPMS_PCR_SELECTION buf (sels ! i) of
              None \<Rightarrow> None
            | Some (s, buf) \<Rightarrow> unpack_selections buf (sels[i := s]) (i + 1) n)
         else None)
      else Some (sels, buf))"
  by pat_completeness auto
termination by (relation "measure (\<lambda>(_, _, i, n). n - i)") auto

definition Unpack_TPML_PCR_SELECTION :: "tpmbuf \<Rightarrow> tpml_pcr_selection \<Rightarrow> (tpml_pcr_selection \<times> tpmbuf) option" where
  "Unpack_TPML_PCR_SELECTION buf pcrSelection =
     do {
       (n, buf) \<leftarrow> into (TPMBufUnpackU32 buf) (pl_count pcrSelection);
       (s, buf) \<leftarrow> unpack_selections buf (pl_pcrSelections pcrSelection) 0 (unat n);
       Some (pcrSelection\<lparr>pl_count := n, pl_pcrSelections := s\<rparr>, buf)
     }"

text \<open>Every sized buffer is unpacked by this function, through a cast.\<close>

definition Unpack_TPM2B :: "tpmbuf \<Rightarrow> tpm2b \<Rightarrow> (tpm2b \<times> tpmbuf) option" where
  "Unpack_TPM2B buf p =
     do {
       (n, buf) \<leftarrow> into (TPMBufUnpackU16 buf) (b_size p);
       (d, buf) \<leftarrow> unpack_bytes buf (b_buffer p) 0 (unat n);
       Some (p\<lparr>b_size := n, b_buffer := d\<rparr>, buf)
     }"

definition Unpack_TPM2B_PRIVATE :: "tpmbuf \<Rightarrow> tpm2b \<Rightarrow> (tpm2b \<times> tpmbuf) option" where
  "Unpack_TPM2B_PRIVATE buf private = Unpack_TPM2B buf private"

definition Unpack_TPM2B_DIGEST :: "tpmbuf \<Rightarrow> tpm2b \<Rightarrow> (tpm2b \<times> tpmbuf) option" where
  "Unpack_TPM2B_DIGEST buf digest = Unpack_TPM2B buf digest"

function unpack_digests :: "tpmbuf \<Rightarrow> tpm2b list \<Rightarrow> nat \<Rightarrow> nat \<Rightarrow> (tpm2b list \<times> tpmbuf) option" where
  "unpack_digests buf ds i n =
     (if i < n then
        (if i < length ds then
           (case Unpack_TPM2B_DIGEST buf (ds ! i) of
              None \<Rightarrow> None
            | Some (d, buf) \<Rightarrow> unpack_digests buf (ds[i := d]) (i + 1) n)
         else None)
      else Some (ds, buf))"
  by pat_completeness auto
termination by (relation "measure (\<lambda>(_, _, i, n). n - i)") auto

definition Unpack_TPML_DIGEST :: "tpmbuf \<Rightarrow> tpml_digest \<Rightarrow> (tpml_digest \<times> tpmbuf) option" where
  "Unpack_TPML_DIGEST buf digest =
     do {
       (n, buf) \<leftarrow> into (TPMBufUnpackU32 buf) (dl_count digest);
       (ds, buf) \<leftarrow> unpack_digests buf (dl_digests digest) 0 (unat n);
       Some (digest\<lparr>dl_count := n, dl_digests := ds\<rparr>, buf)
     }"

definition Unpack_TPMS_TAGGED_PROPERTY :: "tpmbuf \<Rightarrow> tpms_tagged_property \<Rightarrow> (tpms_tagged_property \<times> tpmbuf) option" where
  "Unpack_TPMS_TAGGED_PROPERTY buf property =
     do {
       (p, buf) \<leftarrow> into (TPMBufUnpackU32 buf) (tp_property property);
       (v, buf) \<leftarrow> into (TPMBufUnpackU32 buf) (tp_value property);
       Some (property\<lparr>tp_property := p, tp_value := v\<rparr>, buf)
     }"

text \<open>An index beyond the array is harmless only while nothing is stored.\<close>

function unpack_properties ::
  "tpmbuf \<Rightarrow> tpms_tagged_property list \<Rightarrow> nat \<Rightarrow> nat \<Rightarrow> (tpms_tagged_property list \<times> tpmbuf) option" where
  "unpack_properties buf ps i n =
     (if i < n then
        (if i < length ps then
           (case Unpack_TPMS_TAGGED_PROPERTY buf (ps ! i) of
              None \<Rightarrow> None
            | Some (p, buf) \<Rightarrow> unpack_properties buf (ps[i := p]) (i + 1) n)
         else
           (case TPMBufUnpackU32 buf of
              Some (None, buf) \<Rightarrow> unpack_properties buf ps (i + 1) n
            | _ \<Rightarrow> None))
      else Some (ps, buf))"
  by pat_completeness auto
termination by (relation "measure (\<lambda>(_, _, i, n). n - i)") auto

definition Unpack_TPMS_CAPABILITY_DATA_tpmProperties ::
  "tpmbuf \<Rightarrow> tpms_capability_data \<Rightarrow> (tpms_capability_data \<times> tpmbuf) option" where
  "Unpack_TPMS_CAPABILITY_DATA_tpmProperties buf capabilityData =
     do {
       (n, buf) \<leftarrow> into (TPMBufUnpackU32 buf) (cd_count capabilityData);
       if tb_error buf \<noteq> 0 then Some (capabilityData\<lparr>cd_count := n\<rparr>, buf)
       else do {
         (ps, buf) \<leftarrow> unpack_properties buf (cd_tpmProperty capabilityData) 0 (unat n);
         Some (capabilityData\<lparr>cd_count := n, cd_tpmProperty := ps\<rparr>, buf)
       }
     }"

subsection \<open>Authorisation areas\<close>

definition Pack_TPMS_AUTH_COMMAND :: "tpmbuf \<Rightarrow> tpms_auth_command \<Rightarrow> tpmbuf option" where
  "Pack_TPMS_AUTH_COMMAND buf authCommand =
     do {
       buf \<leftarrow> TPMBufPackU32 buf 0;
       let start = tb_size buf;
       buf \<leftarrow> TPMBufPackU32 buf (ac_sessionHandle authCommand);
       buf \<leftarrow> TPMBufPackU16 buf (b_size (ac_nonce authCommand));
       buf \<leftarrow> TPMBufPack buf (b_buffer (ac_nonce authCommand)) (unat (b_size (ac_nonce authCommand)));
       buf \<leftarrow> TPMBufPackU8 buf (ucast (ac_sessionAttributes authCommand));
       buf \<leftarrow> TPMBufPackU16 buf (b_size (ac_hmac authCommand));
       buf \<leftarrow> TPMBufPack buf (b_buffer (ac_hmac authCommand)) (unat (b_size (ac_hmac authCommand)));
       patch buf start (nat_le 4 (unat (ByteSwapU32 (of_nat (tb_size buf) - of_nat start))))
     }"

text \<open>\<open>tmp\<close> is the uninitialised local variable that receives the session attributes.\<close>

definition Unpack_TPMS_AUTH_RESPONSE :: "byte \<Rightarrow> tpmbuf \<Rightarrow> tpms_auth_response \<Rightarrow> (tpms_auth_response \<times> tpmbuf) option" where
  "Unpack_TPMS_AUTH_RESPONSE tmp buf p =
     do {
       (nn, buf) \<leftarrow> into (TPMBufUnpackU16 buf) (b_size (ar_nonce p));
       (nd, buf) \<leftarrow> (if nn \<noteq> 0 then unpack_array buf (b_buffer (ar_nonce p)) (unat nn) else Some (b_buffer (ar_nonce p), buf));
       (attr, buf) \<leftarrow> into (TPMBufUnpackU8 buf) tmp;
       (hn, buf) \<leftarrow> into (TPMBufUnpackU16 buf) (b_size (ar_hmac p));
       (hd', buf) \<leftarrow> (if hn \<noteq> 0 then unpack_array buf (b_buffer (ar_hmac p)) (unat hn) else Some (b_buffer (ar_hmac p), buf));
       Some (\<lparr>ar_nonce = \<lparr>b_size = nn, b_buffer = nd\<rparr>, ar_sessionAttributes = ucast attr, ar_hmac = \<lparr>b_size = hn, b_buffer = hd'\<rparr>\<rparr>, buf)
     }"

subsection \<open>Sized buffers and sensitive data\<close>

definition Pack_TPM2B :: "tpmbuf \<Rightarrow> 16 word \<Rightarrow> bytes \<Rightarrow> tpmbuf option" where
  "Pack_TPM2B buf sz buffer = do { buf \<leftarrow> TPMBufPackU16 buf sz; pack_bytes buf buffer 0 (unat sz) }"

definition Pack_TPM2B_PRIVATE :: "tpmbuf \<Rightarrow> tpm2b \<Rightarrow> tpmbuf option" where
  "Pack_TPM2B_PRIVATE buf private = Pack_TPM2B buf (b_size private) (b_buffer private)"

definition Pack_TPM2B_DIGEST :: "tpmbuf \<Rightarrow> tpm2b \<Rightarrow> tpmbuf option" where
  "Pack_TPM2B_DIGEST buf digest = Pack_TPM2B buf (b_size digest) (b_buffer digest)"

definition Pack_TPMS_SENSITIVE_CREATE :: "tpmbuf \<Rightarrow> tpms_sensitive_create \<Rightarrow> tpmbuf option" where
  "Pack_TPMS_SENSITIVE_CREATE buf p =
     do {
       buf \<leftarrow> Pack_TPM2B buf (b_size (sc_userAuth p)) (b_buffer (sc_userAuth p));
       Pack_TPM2B buf (b_size (sc_data p)) (b_buffer (sc_data p))
     }"

definition Pack_TPM2B_SENSITIVE_CREATE :: "tpmbuf \<Rightarrow> tpm2b_sensitive_create option \<Rightarrow> tpmbuf option" where
  "Pack_TPM2B_SENSITIVE_CREATE buf sensitiveCreate =
     (case sensitiveCreate of
        Some p \<Rightarrow>
          do {
            buf \<leftarrow> TPMBufPackU16 buf (bsc_size p);
            let start = tb_size buf;
            buf \<leftarrow> Pack_TPMS_SENSITIVE_CREATE buf (bsc_sensitive p);
            patch buf start (nat_le 2 (unat (ByteSwapU16 (of_nat (tb_size buf) - of_nat start))))
          }
      | None \<Rightarrow> TPMBufPackU16 buf 0)"

subsection \<open>Public areas: packing\<close>

definition Pack_TPMA_OBJECT :: "tpmbuf \<Rightarrow> 32 word \<Rightarrow> tpmbuf option" where
  "Pack_TPMA_OBJECT buf p = TPMBufPackU32 buf p"

definition Pack_TPMS_SCHEME_XOR :: "tpmbuf \<Rightarrow> tpmt_keyedhash_scheme \<Rightarrow> tpmbuf option" where
  "Pack_TPMS_SCHEME_XOR buf p = do { buf \<leftarrow> TPMBufPackU16 buf (kh_hashAlg p); TPMBufPackU16 buf (kh_kdf p) }"

definition Pack_TPMS_SCHEME_HMAC :: "tpmbuf \<Rightarrow> tpmt_keyedhash_scheme \<Rightarrow> tpmbuf option" where
  "Pack_TPMS_SCHEME_HMAC buf p = TPMBufPackU16 buf (kh_hashAlg p)"

definition Pack_TPMU_SCHEME_KEYEDHASH :: "tpmbuf \<Rightarrow> 16 word \<Rightarrow> tpmt_keyedhash_scheme \<Rightarrow> tpmbuf option" where
  "Pack_TPMU_SCHEME_KEYEDHASH buf scheme p =
     (if scheme = TPM_ALG_HMAC then Pack_TPMS_SCHEME_HMAC buf p
      else if scheme = TPM_ALG_XOR then Pack_TPMS_SCHEME_XOR buf p
      else if scheme = TPM_ALG_NULL then Some buf
      else Some (set_error buf))"

definition Pack_TPMT_KEYEDHASH_SCHEME :: "tpmbuf \<Rightarrow> tpmt_keyedhash_scheme \<Rightarrow> tpmbuf option" where
  "Pack_TPMT_KEYEDHASH_SCHEME buf p =
     do { buf \<leftarrow> TPMBufPackU16 buf (kh_scheme p); Pack_TPMU_SCHEME_KEYEDHASH buf (kh_scheme p) p }"

definition Pack_TPMS_KEYEDHASH_PARMS :: "tpmbuf \<Rightarrow> tpmt_keyedhash_scheme \<Rightarrow> tpmbuf option" where
  "Pack_TPMS_KEYEDHASH_PARMS buf p = Pack_TPMT_KEYEDHASH_SCHEME buf p"

definition Pack_TPMU_SYM_KEY_BITS :: "tpmbuf \<Rightarrow> 16 word \<Rightarrow> 16 word \<Rightarrow> tpmbuf option" where
  "Pack_TPMU_SYM_KEY_BITS buf algorithm p =
     (if algorithm \<in> {TPM_ALG_AES, TPM_ALG_SM4, TPM_ALG_CAMELLIA, TPM_ALG_XOR} then TPMBufPackU16 buf p else Some buf)"

definition Pack_TPMU_SYM_MODE :: "tpmbuf \<Rightarrow> 16 word \<Rightarrow> 16 word \<Rightarrow> tpmbuf option" where
  "Pack_TPMU_SYM_MODE buf algorithm p =
     (if algorithm \<in> {TPM_ALG_AES, TPM_ALG_SM4, TPM_ALG_CAMELLIA} then TPMBufPackU16 buf p else Some buf)"

definition Pack_TPMT_SYM_DEF_OBJECT :: "tpmbuf \<Rightarrow> tpmt_sym_def_object \<Rightarrow> tpmbuf option" where
  "Pack_TPMT_SYM_DEF_OBJECT buf p =
     do {
       buf \<leftarrow> TPMBufPackU16 buf (sym_algorithm p);
       buf \<leftarrow> Pack_TPMU_SYM_KEY_BITS buf (sym_algorithm p) (sym_keyBits p);
       Pack_TPMU_SYM_MODE buf (sym_algorithm p) (sym_mode p)
     }"

definition Pack_TPMU_ASYM_SCHEME :: "tpmbuf \<Rightarrow> 16 word \<Rightarrow> tpmbuf option" where
  "Pack_TPMU_ASYM_SCHEME buf scheme = (if scheme = TPM_ALG_NULL then Some buf else Some (set_error buf))"

definition Pack_TPMT_RSA_SCHEME :: "tpmbuf \<Rightarrow> 16 word \<Rightarrow> tpmbuf option" where
  "Pack_TPMT_RSA_SCHEME buf scheme = do { buf \<leftarrow> TPMBufPackU16 buf scheme; Pack_TPMU_ASYM_SCHEME buf scheme }"

definition Pack_TPMS_RSA_PARMS :: "tpmbuf \<Rightarrow> tpms_rsa_parms \<Rightarrow> tpmbuf option" where
  "Pack_TPMS_RSA_PARMS buf p =
     do {
       buf \<leftarrow> Pack_TPMT_SYM_DEF_OBJECT buf (rsa_symmetric p);
       buf \<leftarrow> Pack_TPMT_RSA_SCHEME buf (rsa_scheme p);
       buf \<leftarrow> TPMBufPackU16 buf (rsa_keyBits p);
       TPMBufPackU32 buf (rsa_exponent p)
     }"

definition Pack_TPMS_SYMCIPHER_PARMS :: "tpmbuf \<Rightarrow> tpmt_sym_def_object \<Rightarrow> tpmbuf option" where
  "Pack_TPMS_SYMCIPHER_PARMS buf p = Pack_TPMT_SYM_DEF_OBJECT buf p"

definition Pack_TPMT_ECC_SCHEME :: "tpmbuf \<Rightarrow> 16 word \<Rightarrow> tpmbuf option" where
  "Pack_TPMT_ECC_SCHEME buf scheme = do { buf \<leftarrow> TPMBufPackU16 buf scheme; Pack_TPMU_ASYM_SCHEME buf scheme }"

definition Pack_TPMU_KDF_SCHEME :: "tpmbuf \<Rightarrow> 16 word \<Rightarrow> tpmt_kdf_scheme \<Rightarrow> tpmbuf option" where
  "Pack_TPMU_KDF_SCHEME buf scheme p =
     (if scheme \<in> {TPM_ALG_MGF1, TPM_ALG_KDF1_SP800_56A, TPM_ALG_KDF2, TPM_ALG_KDF1_SP800_108}
      then TPMBufPackU16 buf (kdf_hashAlg p)
      else if scheme = TPM_ALG_NULL then Some buf
      else Some (set_error buf))"

definition Pack_TPMT_KDF_SCHEME :: "tpmbuf \<Rightarrow> tpmt_kdf_scheme \<Rightarrow> tpmbuf option" where
  "Pack_TPMT_KDF_SCHEME buf p = do { buf \<leftarrow> TPMBufPackU16 buf (kdf_scheme p); Pack_TPMU_KDF_SCHEME buf (kdf_scheme p) p }"

definition Pack_TPMS_ECC_PARMS :: "tpmbuf \<Rightarrow> tpms_ecc_parms \<Rightarrow> tpmbuf option" where
  "Pack_TPMS_ECC_PARMS buf p =
     do {
       buf \<leftarrow> Pack_TPMT_SYM_DEF_OBJECT buf (ecc_symmetric p);
       buf \<leftarrow> Pack_TPMT_ECC_SCHEME buf (ecc_scheme p);
       buf \<leftarrow> TPMBufPackU16 buf (ecc_curveID p);
       Pack_TPMT_KDF_SCHEME buf (ecc_kdf p)
     }"

definition Pack_TPMU_PUBLIC_PARMS :: "tpmbuf \<Rightarrow> 16 word \<Rightarrow> tpmu_public_parms \<Rightarrow> tpmbuf option" where
  "Pack_TPMU_PUBLIC_PARMS buf type p =
     (if type = TPM_ALG_KEYEDHASH then Pack_TPMS_KEYEDHASH_PARMS buf (keyedHashDetail p)
      else if type = TPM_ALG_SYMCIPHER then Pack_TPMS_SYMCIPHER_PARMS buf (symDetail p)
      else if type = TPM_ALG_RSA then Pack_TPMS_RSA_PARMS buf (rsaDetail p)
      else if type = TPM_ALG_ECC then Pack_TPMS_ECC_PARMS buf (eccDetail p)
      else Some (set_error buf))"

definition Pack_TPMS_ECC_POINT :: "tpmbuf \<Rightarrow> tpms_ecc_point \<Rightarrow> tpmbuf option" where
  "Pack_TPMS_ECC_POINT buf p =
     do {
       buf \<leftarrow> Pack_TPM2B buf (b_size (pt_x p)) (b_buffer (pt_x p));
       Pack_TPM2B buf (b_size (pt_y p)) (b_buffer (pt_y p))
     }"

text \<open>A member of a union of sized buffers, with the capacity that member declares.\<close>

definition pack_member :: "tpmbuf \<Rightarrow> nat \<Rightarrow> tpm2b \<Rightarrow> tpmbuf option" where
  "pack_member buf cap u = Pack_TPM2B buf (b_size u) (take cap (b_buffer u))"

definition Pack_TPMU_PUBLIC_ID :: "tpmbuf \<Rightarrow> 16 word \<Rightarrow> tpmu_public_id \<Rightarrow> tpmbuf option" where
  "Pack_TPMU_PUBLIC_ID buf type p =
     (if type = TPM_ALG_KEYEDHASH then pack_member buf TPM2B_DIGEST_CAP (id_buffer p)
      else if type = TPM_ALG_SYMCIPHER then pack_member buf TPM2B_DIGEST_CAP (id_buffer p)
      else if type = TPM_ALG_RSA then pack_member buf MAX_RSA_KEY_BYTES (id_buffer p)
      else if type = TPM_ALG_ECC then Pack_TPMS_ECC_POINT buf (id_ecc p)
      else Some buf)"

definition Pack_TPMT_PUBLIC :: "tpmbuf \<Rightarrow> tpmt_public \<Rightarrow> tpmbuf option" where
  "Pack_TPMT_PUBLIC buf p =
     do {
       buf \<leftarrow> TPMBufPackU16 buf (pub_type p);
       buf \<leftarrow> TPMBufPackU16 buf (pub_nameAlg p);
       buf \<leftarrow> Pack_TPMA_OBJECT buf (pub_objectAttributes p);
       buf \<leftarrow> Pack_TPM2B buf (b_size (pub_authPolicy p)) (b_buffer (pub_authPolicy p));
       buf \<leftarrow> Pack_TPMU_PUBLIC_PARMS buf (pub_type p) (pub_parameters p);
       Pack_TPMU_PUBLIC_ID buf (pub_type p) (pub_unique p)
     }"

definition Pack_TPM2B_PUBLIC :: "tpmbuf \<Rightarrow> tpm2b_public option \<Rightarrow> tpmbuf option" where
  "Pack_TPM2B_PUBLIC buf p =
     (case p of
        Some p \<Rightarrow>
          do {
            buf \<leftarrow> TPMBufPackU16 buf (bp_size p);
            let start = tb_size buf;
            buf \<leftarrow> Pack_TPMT_PUBLIC buf (bp_publicArea p);
            patch buf start (nat_le 2 (unat (ByteSwapU16 (of_nat (tb_size buf) - of_nat start))))
          }
      | None \<Rightarrow> TPMBufPackU16 buf 0)"

subsection \<open>Public areas: unpacking\<close>

definition Unpack_TPMA_OBJECT :: "tpmbuf \<Rightarrow> 32 word \<Rightarrow> (32 word \<times> tpmbuf) option" where
  "Unpack_TPMA_OBJECT buf p = into (TPMBufUnpackU32 buf) p"

definition Unpack_TPMS_SCHEME_HMAC :: "tpmbuf \<Rightarrow> tpmt_keyedhash_scheme \<Rightarrow> (tpmt_keyedhash_scheme \<times> tpmbuf) option" where
  "Unpack_TPMS_SCHEME_HMAC buf p =
     do { (x, buf) \<leftarrow> into (TPMBufUnpackU16 buf) (kh_hashAlg p); Some (p\<lparr>kh_hashAlg := x\<rparr>, buf) }"

definition Unpack_TPMS_SCHEME_XOR :: "tpmbuf \<Rightarrow> tpmt_keyedhash_scheme \<Rightarrow> (tpmt_keyedhash_scheme \<times> tpmbuf) option" where
  "Unpack_TPMS_SCHEME_XOR buf p =
     do {
       (x, buf) \<leftarrow> into (TPMBufUnpackU16 buf) (kh_hashAlg p);
       (y, buf) \<leftarrow> into (TPMBufUnpackU16 buf) (kh_kdf p);
       Some (p\<lparr>kh_hashAlg := x, kh_kdf := y\<rparr>, buf)
     }"

definition Unpack_TPMU_SCHEME_KEYEDHASH ::
  "tpmbuf \<Rightarrow> 16 word \<Rightarrow> tpmt_keyedhash_scheme \<Rightarrow> (tpmt_keyedhash_scheme \<times> tpmbuf) option" where
  "Unpack_TPMU_SCHEME_KEYEDHASH buf scheme p =
     (if scheme = TPM_ALG_HMAC then Unpack_TPMS_SCHEME_HMAC buf p
      else if scheme = TPM_ALG_XOR then Unpack_TPMS_SCHEME_XOR buf p
      else if scheme = TPM_ALG_NULL then Some (p, buf)
      else Some (p, set_error buf))"

definition Unpack_TPMT_KEYEDHASH_SCHEME :: "tpmbuf \<Rightarrow> tpmt_keyedhash_scheme \<Rightarrow> (tpmt_keyedhash_scheme \<times> tpmbuf) option" where
  "Unpack_TPMT_KEYEDHASH_SCHEME buf p =
     do {
       (s, buf) \<leftarrow> into (TPMBufUnpackU16 buf) (kh_scheme p);
       Unpack_TPMU_SCHEME_KEYEDHASH buf s (p\<lparr>kh_scheme := s\<rparr>)
     }"

definition Unpack_TPMS_KEYEDHASH_PARMS :: "tpmbuf \<Rightarrow> tpmt_keyedhash_scheme \<Rightarrow> (tpmt_keyedhash_scheme \<times> tpmbuf) option" where
  "Unpack_TPMS_KEYEDHASH_PARMS buf p = Unpack_TPMT_KEYEDHASH_SCHEME buf p"

definition Unpack_TPMU_SYM_KEY_BITS :: "tpmbuf \<Rightarrow> 16 word \<Rightarrow> 16 word \<Rightarrow> (16 word \<times> tpmbuf) option" where
  "Unpack_TPMU_SYM_KEY_BITS buf algorithm p =
     (if algorithm \<in> {TPM_ALG_AES, TPM_ALG_SM4, TPM_ALG_CAMELLIA, TPM_ALG_XOR} then into (TPMBufUnpackU16 buf) p
      else Some (p, buf))"

definition Unpack_TPMU_SYM_MODE :: "tpmbuf \<Rightarrow> 16 word \<Rightarrow> 16 word \<Rightarrow> (16 word \<times> tpmbuf) option" where
  "Unpack_TPMU_SYM_MODE buf algorithm p =
     (if algorithm \<in> {TPM_ALG_AES, TPM_ALG_SM4, TPM_ALG_CAMELLIA} then into (TPMBufUnpackU16 buf) p
      else Some (p, buf))"

definition Unpack_TPMT_SYM_DEF_OBJECT :: "tpmbuf \<Rightarrow> tpmt_sym_def_object \<Rightarrow> (tpmt_sym_def_object \<times> tpmbuf) option" where
  "Unpack_TPMT_SYM_DEF_OBJECT buf p =
     do {
       (a, buf) \<leftarrow> into (TPMBufUnpackU16 buf) (sym_algorithm p);
       (k, buf) \<leftarrow> Unpack_TPMU_SYM_KEY_BITS buf a (sym_keyBits p);
       (m, buf) \<leftarrow> Unpack_TPMU_SYM_MODE buf a (sym_mode p);
       Some (p\<lparr>sym_algorithm := a, sym_keyBits := k, sym_mode := m\<rparr>, buf)
     }"

definition Unpack_TPMS_SYMCIPHER_PARMS :: "tpmbuf \<Rightarrow> tpmt_sym_def_object \<Rightarrow> (tpmt_sym_def_object \<times> tpmbuf) option" where
  "Unpack_TPMS_SYMCIPHER_PARMS buf p = Unpack_TPMT_SYM_DEF_OBJECT buf p"

definition Unpack_TPMU_ASYM_SCHEME :: "tpmbuf \<Rightarrow> 16 word \<Rightarrow> tpmbuf option" where
  "Unpack_TPMU_ASYM_SCHEME buf scheme = (if scheme = TPM_ALG_NULL then Some buf else Some (set_error buf))"

definition Unpack_TPMT_RSA_SCHEME :: "tpmbuf \<Rightarrow> 16 word \<Rightarrow> (16 word \<times> tpmbuf) option" where
  "Unpack_TPMT_RSA_SCHEME buf p =
     do { (s, buf) \<leftarrow> into (TPMBufUnpackU16 buf) p; buf \<leftarrow> Unpack_TPMU_ASYM_SCHEME buf s; Some (s, buf) }"

definition Unpack_TPMS_RSA_PARMS :: "tpmbuf \<Rightarrow> tpms_rsa_parms \<Rightarrow> (tpms_rsa_parms \<times> tpmbuf) option" where
  "Unpack_TPMS_RSA_PARMS buf p =
     do {
       (y, buf) \<leftarrow> Unpack_TPMT_SYM_DEF_OBJECT buf (rsa_symmetric p);
       (s, buf) \<leftarrow> Unpack_TPMT_RSA_SCHEME buf (rsa_scheme p);
       (k, buf) \<leftarrow> into (TPMBufUnpackU16 buf) (rsa_keyBits p);
       (e, buf) \<leftarrow> into (TPMBufUnpackU32 buf) (rsa_exponent p);
       Some (p\<lparr>rsa_symmetric := y, rsa_scheme := s, rsa_keyBits := k, rsa_exponent := e\<rparr>, buf)
     }"

definition Unpack_TPMT_ECC_SCHEME :: "tpmbuf \<Rightarrow> 16 word \<Rightarrow> (16 word \<times> tpmbuf) option" where
  "Unpack_TPMT_ECC_SCHEME buf p =
     do { (s, buf) \<leftarrow> into (TPMBufUnpackU16 buf) p; buf \<leftarrow> Unpack_TPMU_ASYM_SCHEME buf s; Some (s, buf) }"

definition Unpack_TPMU_KDF_SCHEME :: "tpmbuf \<Rightarrow> 16 word \<Rightarrow> tpmt_kdf_scheme \<Rightarrow> (tpmt_kdf_scheme \<times> tpmbuf) option" where
  "Unpack_TPMU_KDF_SCHEME buf scheme p =
     (if scheme \<in> {TPM_ALG_MGF1, TPM_ALG_KDF1_SP800_56A, TPM_ALG_KDF2, TPM_ALG_KDF1_SP800_108}
      then do { (x, buf) \<leftarrow> into (TPMBufUnpackU16 buf) (kdf_hashAlg p); Some (p\<lparr>kdf_hashAlg := x\<rparr>, buf) }
      else if scheme = TPM_ALG_NULL then Some (p, buf)
      else Some (p, set_error buf))"

definition Unpack_TPMT_KDF_SCHEME :: "tpmbuf \<Rightarrow> tpmt_kdf_scheme \<Rightarrow> (tpmt_kdf_scheme \<times> tpmbuf) option" where
  "Unpack_TPMT_KDF_SCHEME buf p =
     do {
       (s, buf) \<leftarrow> into (TPMBufUnpackU16 buf) (kdf_scheme p);
       Unpack_TPMU_KDF_SCHEME buf s (p\<lparr>kdf_scheme := s\<rparr>)
     }"

definition Unpack_TPMS_ECC_PARMS :: "tpmbuf \<Rightarrow> tpms_ecc_parms \<Rightarrow> (tpms_ecc_parms \<times> tpmbuf) option" where
  "Unpack_TPMS_ECC_PARMS buf p =
     do {
       (y, buf) \<leftarrow> Unpack_TPMT_SYM_DEF_OBJECT buf (ecc_symmetric p);
       (s, buf) \<leftarrow> Unpack_TPMT_ECC_SCHEME buf (ecc_scheme p);
       (c, buf) \<leftarrow> into (TPMBufUnpackU16 buf) (ecc_curveID p);
       (k, buf) \<leftarrow> Unpack_TPMT_KDF_SCHEME buf (ecc_kdf p);
       Some (p\<lparr>ecc_symmetric := y, ecc_scheme := s, ecc_curveID := c, ecc_kdf := k\<rparr>, buf)
     }"

definition Unpack_TPMU_PUBLIC_PARMS :: "tpmbuf \<Rightarrow> 16 word \<Rightarrow> tpmu_public_parms \<Rightarrow> (tpmu_public_parms \<times> tpmbuf) option" where
  "Unpack_TPMU_PUBLIC_PARMS buf type p =
     (if type = TPM_ALG_KEYEDHASH then
        do { (x, buf) \<leftarrow> Unpack_TPMS_KEYEDHASH_PARMS buf (keyedHashDetail p); Some (p\<lparr>keyedHashDetail := x\<rparr>, buf) }
      else if type = TPM_ALG_SYMCIPHER then
        do { (x, buf) \<leftarrow> Unpack_TPMS_SYMCIPHER_PARMS buf (symDetail p); Some (p\<lparr>symDetail := x\<rparr>, buf) }
      else if type = TPM_ALG_RSA then
        do { (x, buf) \<leftarrow> Unpack_TPMS_RSA_PARMS buf (rsaDetail p); Some (p\<lparr>rsaDetail := x\<rparr>, buf) }
      else if type = TPM_ALG_ECC then
        do { (x, buf) \<leftarrow> Unpack_TPMS_ECC_PARMS buf (eccDetail p); Some (p\<lparr>eccDetail := x\<rparr>, buf) }
      else Some (p, set_error buf))"

definition Unpack_TPMS_ECC_POINT :: "tpmbuf \<Rightarrow> tpms_ecc_point \<Rightarrow> (tpms_ecc_point \<times> tpmbuf) option" where
  "Unpack_TPMS_ECC_POINT buf p =
     do {
       (x, buf) \<leftarrow> Unpack_TPM2B buf (pt_x p);
       (y, buf) \<leftarrow> Unpack_TPM2B buf (pt_y p);
       Some (p\<lparr>pt_x := x, pt_y := y\<rparr>, buf)
     }"

definition unpack_member :: "tpmbuf \<Rightarrow> nat \<Rightarrow> tpm2b \<Rightarrow> (tpm2b \<times> tpmbuf) option" where
  "unpack_member buf cap u =
     do {
       (q, buf) \<leftarrow> Unpack_TPM2B buf (u\<lparr>b_buffer := take cap (b_buffer u)\<rparr>);
       Some (q\<lparr>b_buffer := b_buffer q @ drop cap (b_buffer u)\<rparr>, buf)
     }"

definition Unpack_TPMU_PUBLIC_ID :: "tpmbuf \<Rightarrow> 16 word \<Rightarrow> tpmu_public_id \<Rightarrow> (tpmu_public_id \<times> tpmbuf) option" where
  "Unpack_TPMU_PUBLIC_ID buf type p =
     (if type = TPM_ALG_KEYEDHASH then
        do { (x, buf) \<leftarrow> unpack_member buf TPM2B_DIGEST_CAP (id_buffer p); Some (p\<lparr>id_buffer := x\<rparr>, buf) }
      else if type = TPM_ALG_SYMCIPHER then
        do { (x, buf) \<leftarrow> unpack_member buf TPM2B_DIGEST_CAP (id_buffer p); Some (p\<lparr>id_buffer := x\<rparr>, buf) }
      else if type = TPM_ALG_RSA then
        do { (x, buf) \<leftarrow> unpack_member buf MAX_RSA_KEY_BYTES (id_buffer p); Some (p\<lparr>id_buffer := x\<rparr>, buf) }
      else if type = TPM_ALG_ECC then
        do { (x, buf) \<leftarrow> Unpack_TPMS_ECC_POINT buf (id_ecc p); Some (p\<lparr>id_ecc := x\<rparr>, buf) }
      else Some (p, buf))"

definition Unpack_TPMT_PUBLIC :: "tpmbuf \<Rightarrow> tpmt_public \<Rightarrow> (tpmt_public \<times> tpmbuf) option" where
  "Unpack_TPMT_PUBLIC buf p =
     do {
       (t, buf) \<leftarrow> into (TPMBufUnpackU16 buf) (pub_type p);
       (n, buf) \<leftarrow> into (TPMBufUnpackU16 buf) (pub_nameAlg p);
       (a, buf) \<leftarrow> Unpack_TPMA_OBJECT buf (pub_objectAttributes p);
       (ap, buf) \<leftarrow> Unpack_TPM2B buf (pub_authPolicy p);
       (ps, buf) \<leftarrow> Unpack_TPMU_PUBLIC_PARMS buf t (pub_parameters p);
       (u, buf) \<leftarrow> Unpack_TPMU_PUBLIC_ID buf t (pub_unique p);
       Some (p\<lparr>pub_type := t, pub_nameAlg := n, pub_objectAttributes := a, pub_authPolicy := ap,
               pub_parameters := ps, pub_unique := u\<rparr>, buf)
     }"

definition Unpack_TPM2B_PUBLIC :: "tpmbuf \<Rightarrow> tpm2b_public \<Rightarrow> (tpm2b_public \<times> tpmbuf) option" where
  "Unpack_TPM2B_PUBLIC buf p =
     do {
       (n, buf) \<leftarrow> into (TPMBufUnpackU16 buf) (bp_size p);
       (a, buf) \<leftarrow> Unpack_TPMT_PUBLIC buf (bp_publicArea p);
       Some (p\<lparr>bp_size := n, bp_publicArea := a\<rparr>, buf)
     }"

subsection \<open>Tickets, symmetric definitions, digests, sensitive areas\<close>

definition Unpack_TPMT_TK_CREATION :: "tpmbuf \<Rightarrow> tpmt_tk \<Rightarrow> (tpmt_tk \<times> tpmbuf) option" where
  "Unpack_TPMT_TK_CREATION buf p =
     do {
       (t, buf) \<leftarrow> into (TPMBufUnpackU16 buf) (tk_tag p);
       (h, buf) \<leftarrow> into (TPMBufUnpackU32 buf) (tk_hierarchy p);
       (d, buf) \<leftarrow> Unpack_TPM2B buf (tk_digest p);
       Some (p\<lparr>tk_tag := t, tk_hierarchy := h, tk_digest := d\<rparr>, buf)
     }"

definition Pack_TPMT_SYM_DEF :: "tpmbuf \<Rightarrow> tpmt_sym_def_object \<Rightarrow> tpmbuf option" where
  "Pack_TPMT_SYM_DEF buf p =
     do {
       buf \<leftarrow> TPMBufPackU16 buf (sym_algorithm p);
       buf \<leftarrow> Pack_TPMU_SYM_KEY_BITS buf (sym_algorithm p) (sym_keyBits p);
       Pack_TPMU_SYM_MODE buf (sym_algorithm p) (sym_mode p)
     }"

definition Pack_TPMU_HA :: "tpmbuf \<Rightarrow> 16 word \<Rightarrow> bytes \<Rightarrow> tpmbuf option" where
  "Pack_TPMU_HA buf hashAlg p =
     (if hashAlg = TPM_ALG_SHA1 then TPMBufPack buf p 20
      else if hashAlg = TPM_ALG_SHA256 then TPMBufPack buf p 32
      else if hashAlg = TPM_ALG_SHA384 then TPMBufPack buf p 48
      else if hashAlg = TPM_ALG_SHA512 then TPMBufPack buf p 64
      else if hashAlg = TPM_ALG_SM3_256 then TPMBufPack buf p 32
      else Some (set_error buf))"

definition Pack_TPMT_HA :: "tpmbuf \<Rightarrow> tpmt_ha \<Rightarrow> tpmbuf option" where
  "Pack_TPMT_HA buf p = do { buf \<leftarrow> TPMBufPackU16 buf (ha_hashAlg p); Pack_TPMU_HA buf (ha_hashAlg p) (ha_digest p) }"

function pack_has :: "tpmbuf \<Rightarrow> tpmt_ha list \<Rightarrow> nat \<Rightarrow> nat \<Rightarrow> tpmbuf option" where
  "pack_has buf ds i n =
     (if i < n then
        (if i < length ds then do { buf \<leftarrow> Pack_TPMT_HA buf (ds ! i); pack_has buf ds (i + 1) n } else None)
      else Some buf)"
  by pat_completeness auto
termination by (relation "measure (\<lambda>(_, _, i, n). n - i)") auto

definition Pack_TPML_DIGEST_VALUES :: "tpmbuf \<Rightarrow> tpml_digest_values \<Rightarrow> tpmbuf option" where
  "Pack_TPML_DIGEST_VALUES buf p =
     do {
       buf \<leftarrow> TPMBufPackU32 buf (ucast (dv_count p));
       pack_has buf (dv_digests p) 0 (unat (dv_count p))
     }"

definition Pack_TPMU_SENSITIVE_COMPOSITE :: "tpmbuf \<Rightarrow> 16 word \<Rightarrow> tpm2b \<Rightarrow> tpmbuf option" where
  "Pack_TPMU_SENSITIVE_COMPOSITE buf type p =
     (if type = TPM_ALG_RSA then pack_member buf (MAX_RSA_KEY_BYTES div 2) p
      else if type = TPM_ALG_ECC then pack_member buf MAX_ECC_KEY_BYTES p
      else if type = TPM_ALG_KEYEDHASH then pack_member buf MAX_SYM_DATA p
      else if type = TPM_ALG_SYMCIPHER then pack_member buf MAX_SYM_KEY_BYTES p
      else Some buf)"

definition Pack_TPMT_SENSITIVE :: "tpmbuf \<Rightarrow> tpmt_sensitive \<Rightarrow> tpmbuf option" where
  "Pack_TPMT_SENSITIVE buf p =
     do {
       buf \<leftarrow> TPMBufPackU16 buf (sen_sensitiveType p);
       buf \<leftarrow> Pack_TPM2B buf (b_size (sen_authValue p)) (b_buffer (sen_authValue p));
       buf \<leftarrow> Pack_TPM2B buf (b_size (sen_seedValue p)) (b_buffer (sen_seedValue p));
       Pack_TPMU_SENSITIVE_COMPOSITE buf (sen_sensitiveType p) (sen_sensitive p)
     }"

definition Pack_TPM2B_SENSITIVE :: "tpmbuf \<Rightarrow> tpmt_sensitive \<Rightarrow> tpmbuf option" where
  "Pack_TPM2B_SENSITIVE buf p =
     do {
       buf \<leftarrow> TPMBufPackU16 buf 0;
       let start = tb_size buf;
       buf \<leftarrow> Pack_TPMT_SENSITIVE buf p;
       patch buf start (nat_le 2 (unat (ByteSwapU16 (of_nat (tb_size buf) - of_nat start))))
     }"

definition Unpack_TPMT_TK_HASHCHECK :: "tpmbuf \<Rightarrow> tpmt_tk \<Rightarrow> (tpmt_tk \<times> tpmbuf) option" where
  "Unpack_TPMT_TK_HASHCHECK buf p =
     do {
       (t, buf) \<leftarrow> into (TPMBufUnpackU16 buf) (tk_tag p);
       (h, buf) \<leftarrow> into (TPMBufUnpackU32 buf) (tk_hierarchy p);
       (d, buf) \<leftarrow> Unpack_TPM2B buf (tk_digest p);
       Some (p\<lparr>tk_tag := t, tk_hierarchy := h, tk_digest := d\<rparr>, buf)
     }"

text \<open>The loops are unfolded by hand.\<close>

declare pack_bytes.simps [simp del] unpack_bytes.simps [simp del] pack_selections.simps [simp del]
  unpack_selections.simps [simp del] unpack_digests.simps [simp del] unpack_properties.simps [simp del] pack_has.simps [simp del]

end
