(* ===== verification/Tpm2Wire.thy ===== *)
theory Tpm2Wire
  imports Tpm2Marshal
begin

text \<open>
  The wire format of the TPM 2.0 structures and the correctness of their marshalling.

  \<open>emits f w\<close> says that the packing function \<open>f\<close>, on a buffer without an error and with
  room for \<open>w\<close>, appends exactly \<open>w\<close>; \<open>parses f w v\<close> that the unpacking function \<open>f\<close>, on
  a buffer whose unread bytes begin with \<open>w\<close>, consumes \<open>w\<close> and yields \<open>v\<close>. Both compose
  along the sequencing of the code, so each function has a one-line lemma. An unpacking
  function leaves what the message does not carry as it was: \<open>over_x q p\<close> is the value
  \<open>p\<close> unpacked over the old contents \<open>q\<close>.
\<close>

subsection \<open>Packing functions that append\<close>

definition ready :: "tpmbuf \<Rightarrow> bool" where
  "ready b \<longleftrightarrow> tpmbuf_inv b \<and> tb_error b = 0"

definition put :: "tpmbuf \<Rightarrow> bytes \<Rightarrow> tpmbuf" where
  "put b w = b\<lparr>tb_data := overwrite (tb_size b) w (tb_data b), tb_size := tb_size b + length w\<rparr>"

definition emits :: "(tpmbuf \<Rightarrow> tpmbuf option) \<Rightarrow> bytes \<Rightarrow> bool" where
  "emits f w \<longleftrightarrow> (\<forall>b. ready b \<longrightarrow> tb_size b + length w \<le> 4096 \<longrightarrow> f b = Some (put b w))"

lemma ready_init [simp]: "ready TPMBufInit"
  using tpmbuf_inv_init by (simp add: ready_def TPMBufInit_def)

lemma init_simps [simp]: "tb_size TPMBufInit = 0" "tb_offset TPMBufInit = 0" "tb_error TPMBufInit = 0" "tb_cap TPMBufInit = 4096"
  by (simp_all add: TPMBufInit_def BUF_CAPACITY_def)

lemma put_simps [simp]:
  "tb_size (put b w) = tb_size b + length w" "tb_error (put b w) = tb_error b" "tb_offset (put b w) = tb_offset b"
  "tb_cap (put b w) = tb_cap b"
  by (simp_all add: put_def)

lemma ready_put:
  assumes "ready b" "tb_size b + length w \<le> 4096"
  shows "ready (put b w)"
  using assms by (auto simp: ready_def put_def tpmbuf_inv_def BUF_CAPACITY_def)

lemma put_Nil [simp]: "put b [] = b"
  by (simp add: put_def)

lemma put_put:
  assumes "ready b" "tb_size b + length u + length v \<le> 4096"
  shows "put (put b u) v = put b (u @ v)"
proof -
  have "tb_size b + length u + length v \<le> length (tb_data b)"
    using assms by (simp add: ready_def tpmbuf_inv_def BUF_CAPACITY_def)
  then show ?thesis by (simp add: put_def overwrite_def ac_simps)
qed

lemma emitsD: "emits f w \<Longrightarrow> ready b \<Longrightarrow> tb_size b + length w \<le> 4096 \<Longrightarrow> f b = Some (put b w)"
  by (simp add: emits_def)

lemma emits_done: "emits Some []"
  by (simp add: emits_def)

lemma emits_bind: "emits f u \<Longrightarrow> emits g v \<Longrightarrow> emits (\<lambda>b. Option.bind (f b) g) (u @ v)"
  by (auto simp: emits_def put_put ready_put)

lemma emits_pack: "length d = n \<Longrightarrow> emits (\<lambda>b. TPMBufPack b d n) d"
proof -
  assume n: "length d = n"
  show ?thesis
    unfolding emits_def
  proof (intro allI impI)
    fix b
    assume "ready b" and fit: "tb_size b + length d \<le> 4096"
    then have inv: "tpmbuf_inv b" and ok: "tb_error b = 0" by (simp_all add: ready_def)
    have "tb_size b + length d \<le> length (tb_data b)"
      using inv fit by (simp add: tpmbuf_inv_def BUF_CAPACITY_def)
    with ok fit n show "TPMBufPack b d n = Some (put b d)"
      by (simp add: TPMBufPack_def room [OF inv] load_def store_def put_def)
  qed
qed

lemma TPMBufPack_prefix: "n \<le> length d \<Longrightarrow> TPMBufPack b d n = TPMBufPack b (take n d) n"
  by (simp add: TPMBufPack_def load_def slice_def)

lemma emits_pack_prefix: "n \<le> length d \<Longrightarrow> emits (\<lambda>b. TPMBufPack b d n) (take n d)"
  by (subst TPMBufPack_prefix) (auto intro: emits_pack)

definition be16 :: "16 word \<Rightarrow> bytes" where
  "be16 x = rev (nat_le 2 (unat x))"

definition be32 :: "32 word \<Rightarrow> bytes" where
  "be32 x = rev (nat_le 4 (unat x))"

lemma length_be [simp]: "length (be16 x) = 2" "length (be32 y) = 4"
  by (simp_all add: be16_def be32_def)

lemma swap_be: "nat_le 2 (unat (ByteSwapU16 x)) = be16 x" "nat_le 4 (unat (ByteSwapU32 y)) = be32 y"
  by (simp_all add: be16_def be32_def ByteSwapU16_bytes ByteSwapU32_bytes)

lemma emits_u8: "emits (\<lambda>b. TPMBufPackU8 b x) [x]"
  unfolding TPMBufPackU8_def by (rule emits_pack) simp

lemma emits_u16: "emits (\<lambda>b. TPMBufPackU16 b x) (be16 x)"
  unfolding TPMBufPackU16_def swap_be by (rule emits_pack) simp

lemma emits_u32: "emits (\<lambda>b. TPMBufPackU32 b x) (be32 x)"
  unfolding TPMBufPackU32_def swap_be by (rule emits_pack) simp

lemma emits_bytes:
  "n \<le> length d \<Longrightarrow> emits (\<lambda>b. pack_bytes b d i n) (drop i (take n d))"
proof (induction "n - i" arbitrary: i)
  case 0
  then show ?case by (subst pack_bytes.simps) (simp add: emits_def)
next
  case (Suc k)
  then have i: "i < n" "i < length d" by auto
  have "emits (\<lambda>b. Option.bind (TPMBufPackU8 b (d ! i)) (\<lambda>b. pack_bytes b d (i + 1) n)) ([d ! i] @ drop (i + 1) (take n d))"
    by (rule emits_bind [OF emits_u8]) (use Suc in auto)
  moreover have "[d ! i] @ drop (i + 1) (take n d) = drop i (take n d)"
    using i by (simp add: Cons_nth_drop_Suc [symmetric])
  moreover have "pack_bytes b d i n = Option.bind (TPMBufPackU8 b (d ! i)) (\<lambda>b. pack_bytes b d (i + 1) n)" for b
    using i by (subst pack_bytes.simps) simp
  ultimately show ?case by simp
qed

definition wire_2b :: "tpm2b \<Rightarrow> bytes" where
  "wire_2b p = be16 (b_size p) @ take (unat (b_size p)) (b_buffer p)"

lemma emits_2b: "unat n \<le> length d \<Longrightarrow> emits (\<lambda>b. Pack_TPM2B b n d) (be16 n @ take (unat n) d)"
  unfolding Pack_TPM2B_def using emits_bytes [of "unat n" d 0] by (intro emits_bind emits_u16) simp

lemma emits_wf_2b: "wf_2b cap p \<Longrightarrow> emits (\<lambda>b. Pack_TPM2B b (b_size p) (b_buffer p)) (wire_2b p)"
  unfolding wire_2b_def wf_2b_def by (rule emits_2b) simp

subsection \<open>Patching the size in front of a body\<close>

lemma patch_put:
  assumes "ready b" "tb_size b + length u + length w \<le> 4096" "length v = length u"
  shows "patch (put b (u @ w)) (tb_size b + length u) v = Some (put b (v @ w))"
proof -
  have "tb_size b + length u + length w \<le> length (tb_data b)"
    using assms by (simp add: ready_def tpmbuf_inv_def BUF_CAPACITY_def)
  with assms(3) show ?thesis
    by (simp add: patch_def put_def store_def overwrite_def)
qed

lemma emits_sized:
  assumes pre: "emits f u" and body: "emits g w" and len: "length u = k" "length (h (of_nat (length w) :: 'a::len word)) = k"
  shows "emits (\<lambda>b. Option.bind (f b) (\<lambda>b. let start = tb_size b in
      Option.bind (g b) (\<lambda>b. patch b start (h (of_nat (tb_size b) - of_nat start))))) (h (of_nat (length w)) @ w)"
  unfolding emits_def
proof (intro allI impI)
  fix b
  assume b: "ready b" "tb_size b + length (h (of_nat (length w)) @ w) \<le> 4096"
  then have fit: "tb_size b + length u \<le> 4096" "tb_size b + length u + length w \<le> 4096"
    using len by auto
  have 1: "f b = Some (put b u)" by (rule emitsD [OF pre b(1) fit(1)])
  have 2: "g (put b u) = Some (put b (u @ w))"
    using emitsD [OF body ready_put [OF b(1) fit(1)]] fit put_put [OF b(1) fit(2)] by simp
  have 3: "of_nat (tb_size b) + (of_nat (length u) + of_nat (length w)) - (of_nat (tb_size b) + of_nat (length u)) =
      (of_nat (length w) :: 'a word)"
    by (simp add: algebra_simps)
  show "Option.bind (f b) (\<lambda>b. let start = tb_size b in
      Option.bind (g b) (\<lambda>b. patch b start (h (of_nat (tb_size b) - of_nat start)))) = Some (put b (h (of_nat (length w)) @ w))"
    using patch_put [OF b(1) fit(2), of "h (of_nat (length w))"] len by (simp add: 1 2 3 Let_def)
qed
subsection \<open>Wire formats\<close>

definition wire_pcr_select :: "tpms_pcr_select \<Rightarrow> bytes" where
  "wire_pcr_select p = [ps_sizeofSelect p] @ take (unat (ps_sizeofSelect p)) (ps_pcrSelect p)"

definition wire_pcr_selection :: "tpms_pcr_selection \<Rightarrow> bytes" where
  "wire_pcr_selection p = be16 (sel_hash p) @ [sel_sizeofSelect p] @ take (unat (sel_sizeofSelect p)) (sel_pcrSelect p)"

definition wire_pcr_selections :: "tpml_pcr_selection \<Rightarrow> bytes" where
  "wire_pcr_selections p = be32 (pl_count p) @ concat (map wire_pcr_selection (take (unat (pl_count p)) (pl_pcrSelections p)))"

definition auth_body :: "tpms_auth_command \<Rightarrow> bytes" where
  "auth_body p = be32 (ac_sessionHandle p) @ be16 (b_size (ac_nonce p)) @ take (unat (b_size (ac_nonce p))) (b_buffer (ac_nonce p)) @
     [ucast (ac_sessionAttributes p)] @ be16 (b_size (ac_hmac p)) @ take (unat (b_size (ac_hmac p))) (b_buffer (ac_hmac p))"

definition wire_auth :: "tpms_auth_command \<Rightarrow> bytes" where
  "wire_auth p = be32 (of_nat (length (auth_body p))) @ auth_body p"

definition wire_sensitive_create :: "tpm2b_sensitive_create \<Rightarrow> bytes" where
  "wire_sensitive_create p =
     (let body = wire_2b (sc_userAuth (bsc_sensitive p)) @ wire_2b (sc_data (bsc_sensitive p))
      in be16 (of_nat (length body)) @ body)"

definition wire_keyedhash :: "tpmt_keyedhash_scheme \<Rightarrow> bytes" where
  "wire_keyedhash p = be16 (kh_scheme p) @
     (if kh_scheme p = TPM_ALG_HMAC then be16 (kh_hashAlg p)
      else if kh_scheme p = TPM_ALG_XOR then be16 (kh_hashAlg p) @ be16 (kh_kdf p) else [])"

definition wire_sym :: "tpmt_sym_def_object \<Rightarrow> bytes" where
  "wire_sym p = be16 (sym_algorithm p) @
     (if sym_algorithm p \<in> {TPM_ALG_AES, TPM_ALG_SM4, TPM_ALG_CAMELLIA, TPM_ALG_XOR} then be16 (sym_keyBits p) else []) @
     (if sym_algorithm p \<in> {TPM_ALG_AES, TPM_ALG_SM4, TPM_ALG_CAMELLIA} then be16 (sym_mode p) else [])"

definition wire_rsa :: "tpms_rsa_parms \<Rightarrow> bytes" where
  "wire_rsa p = wire_sym (rsa_symmetric p) @ be16 (rsa_scheme p) @ be16 (rsa_keyBits p) @ be32 (rsa_exponent p)"

definition wire_kdf :: "tpmt_kdf_scheme \<Rightarrow> bytes" where
  "wire_kdf p = be16 (kdf_scheme p) @ (if kdf_scheme p = TPM_ALG_NULL then [] else be16 (kdf_hashAlg p))"

definition wire_ecc :: "tpms_ecc_parms \<Rightarrow> bytes" where
  "wire_ecc p = wire_sym (ecc_symmetric p) @ be16 (ecc_scheme p) @ be16 (ecc_curveID p) @ wire_kdf (ecc_kdf p)"

definition wire_parms :: "16 word \<Rightarrow> tpmu_public_parms \<Rightarrow> bytes" where
  "wire_parms type p =
     (if type = TPM_ALG_KEYEDHASH then wire_keyedhash (keyedHashDetail p)
      else if type = TPM_ALG_SYMCIPHER then wire_sym (symDetail p)
      else if type = TPM_ALG_RSA then wire_rsa (rsaDetail p)
      else wire_ecc (eccDetail p))"

definition wire_id :: "16 word \<Rightarrow> tpmu_public_id \<Rightarrow> bytes" where
  "wire_id type p = (if type = TPM_ALG_ECC then wire_2b (pt_x (id_ecc p)) @ wire_2b (pt_y (id_ecc p)) else wire_2b (id_buffer p))"

definition wire_public :: "tpmt_public \<Rightarrow> bytes" where
  "wire_public p = be16 (pub_type p) @ be16 (pub_nameAlg p) @ be32 (pub_objectAttributes p) @ wire_2b (pub_authPolicy p) @
     wire_parms (pub_type p) (pub_parameters p) @ wire_id (pub_type p) (pub_unique p)"

definition wire_2b_public :: "tpm2b_public \<Rightarrow> bytes" where
  "wire_2b_public p = be16 (of_nat (length (wire_public (bp_publicArea p)))) @ wire_public (bp_publicArea p)"

text \<open>The public areas the functions can marshal: a known type with supported schemes, and
  sizes within the arrays.\<close>

definition wf_parms :: "16 word \<Rightarrow> tpmu_public_parms \<Rightarrow> bool" where
  "wf_parms type p \<longleftrightarrow>
     (if type = TPM_ALG_KEYEDHASH then kh_scheme (keyedHashDetail p) \<in> {TPM_ALG_HMAC, TPM_ALG_XOR, TPM_ALG_NULL}
      else if type = TPM_ALG_SYMCIPHER then True
      else if type = TPM_ALG_RSA then rsa_scheme (rsaDetail p) = TPM_ALG_NULL
      else type = TPM_ALG_ECC \<and> ecc_scheme (eccDetail p) = TPM_ALG_NULL \<and>
           kdf_scheme (ecc_kdf (eccDetail p)) \<in> {TPM_ALG_MGF1, TPM_ALG_KDF1_SP800_56A, TPM_ALG_KDF2, TPM_ALG_KDF1_SP800_108, TPM_ALG_NULL})"

definition id_cap :: "16 word \<Rightarrow> nat" where
  "id_cap type = (if type = TPM_ALG_RSA then MAX_RSA_KEY_BYTES else TPM2B_DIGEST_CAP)"

definition wf_id :: "16 word \<Rightarrow> tpmu_public_id \<Rightarrow> bool" where
  "wf_id type p \<longleftrightarrow> length (b_buffer (id_buffer p)) = MAX_RSA_KEY_BYTES \<and>
     (if type = TPM_ALG_ECC then wf_2b MAX_ECC_KEY_BYTES (pt_x (id_ecc p)) \<and> wf_2b MAX_ECC_KEY_BYTES (pt_y (id_ecc p))
      else unat (b_size (id_buffer p)) \<le> id_cap type)"

definition wf_public :: "tpmt_public \<Rightarrow> bool" where
  "wf_public p \<longleftrightarrow> wf_2b TPM2B_DIGEST_CAP (pub_authPolicy p) \<and> wf_parms (pub_type p) (pub_parameters p) \<and>
     wf_id (pub_type p) (pub_unique p)"

definition wf_auth :: "tpms_auth_command \<Rightarrow> bool" where
  "wf_auth p \<longleftrightarrow> wf_2b TPM2B_DIGEST_CAP (ac_nonce p) \<and> wf_2b TPM2B_DIGEST_CAP (ac_hmac p)"

subsection \<open>Every packing function appends the wire format\<close>

lemma emits_pcr_select: "wf_pcr_select p \<Longrightarrow> emits (\<lambda>b. Pack_TPMS_PCR_SELECT b p) (wire_pcr_select p)"
  unfolding Pack_TPMS_PCR_SELECT_def wire_pcr_select_def wf_pcr_select_def
  using emits_bytes [of "unat (ps_sizeofSelect p)" "ps_pcrSelect p" 0] by (intro emits_bind emits_u8) simp

lemma emits_pcr_selection: "wf_pcr_selection p \<Longrightarrow> emits (\<lambda>b. Pack_TPMS_PCR_SELECTION b p) (wire_pcr_selection p)"
  unfolding Pack_TPMS_PCR_SELECTION_def wire_pcr_selection_def wf_pcr_selection_def
  using emits_bytes [of "unat (sel_sizeofSelect p)" "sel_pcrSelect p" 0] by (intro emits_bind emits_u16 emits_u8) simp

lemma emits_selections:
  "n \<le> length sels \<Longrightarrow> list_all wf_pcr_selection sels \<Longrightarrow>
   emits (\<lambda>b. pack_selections b sels i n) (concat (map wire_pcr_selection (drop i (take n sels))))"
proof (induction "n - i" arbitrary: i)
  case 0
  then show ?case by (subst pack_selections.simps) (simp add: emits_def)
next
  case (Suc k)
  then have i: "i < n" "i < length sels" by auto
  then have wf: "wf_pcr_selection (sels ! i)" using Suc.prems by (simp add: list_all_length)
  have "emits (\<lambda>b. Option.bind (Pack_TPMS_PCR_SELECTION b (sels ! i)) (\<lambda>b. pack_selections b sels (i + 1) n))
      (wire_pcr_selection (sels ! i) @ concat (map wire_pcr_selection (drop (i + 1) (take n sels))))"
    by (rule emits_bind [OF emits_pcr_selection [OF wf]]) (use Suc in auto)
  moreover have "drop i (take n sels) = sels ! i # drop (i + 1) (take n sels)"
    using i by (simp add: Cons_nth_drop_Suc [symmetric])
  moreover have "pack_selections b sels i n =
      Option.bind (Pack_TPMS_PCR_SELECTION b (sels ! i)) (\<lambda>b. pack_selections b sels (i + 1) n)" for b
    using i by (subst pack_selections.simps) simp
  ultimately show ?case by simp
qed

lemma emits_pcr_selections: "wf_pcr_selections p \<Longrightarrow> emits (\<lambda>b. Pack_TPML_PCR_SELECTION b p) (wire_pcr_selections p)"
  unfolding Pack_TPML_PCR_SELECTION_def wire_pcr_selections_def wf_pcr_selections_def
  using emits_selections [of "unat (pl_count p)" "pl_pcrSelections p" 0] by (intro emits_bind emits_u32) simp

lemma emits_auth:
  assumes "wf_auth p"
  shows "emits (\<lambda>b. Pack_TPMS_AUTH_COMMAND b p) (wire_auth p)"
proof -
  define body where "body = (\<lambda>b. do {
    buf \<leftarrow> TPMBufPackU32 b (ac_sessionHandle p);
    buf \<leftarrow> TPMBufPackU16 buf (b_size (ac_nonce p));
    buf \<leftarrow> TPMBufPack buf (b_buffer (ac_nonce p)) (unat (b_size (ac_nonce p)));
    buf \<leftarrow> TPMBufPackU8 buf (ucast (ac_sessionAttributes p));
    buf \<leftarrow> TPMBufPackU16 buf (b_size (ac_hmac p));
    TPMBufPack buf (b_buffer (ac_hmac p)) (unat (b_size (ac_hmac p))) })"
  have "emits body (auth_body p)"
    unfolding body_def auth_body_def using assms
    by (intro emits_bind emits_u32 emits_u16 emits_u8 emits_pack_prefix) (simp_all add: wf_auth_def wf_2b_def)
  from emits_sized [OF emits_u32 this, where h = "\<lambda>x. nat_le 4 (unat (ByteSwapU32 x))" and k = 4 and x1 = 0]
  show ?thesis
    by (simp add: Pack_TPMS_AUTH_COMMAND_def wire_auth_def body_def swap_be Option.bind_assoc Let_def)
qed

lemma emits_sized16:
  assumes "emits g w"
  shows "emits (\<lambda>b. Option.bind (TPMBufPackU16 b x) (\<lambda>b. let start = tb_size b in
      Option.bind (g b) (\<lambda>b. patch b start (nat_le 2 (unat (ByteSwapU16 (of_nat (tb_size b) - of_nat start)))))))
    (be16 (of_nat (length w)) @ w)"
  using emits_sized [OF emits_u16 [of x] assms, where h = "\<lambda>x. nat_le 2 (unat (ByteSwapU16 x))" and k = 2]
  by (simp add: swap_be)

lemma emits_sensitive_create:
  assumes "wf_2b c1 (sc_userAuth (bsc_sensitive p))" "wf_2b c2 (sc_data (bsc_sensitive p))"
  shows "emits (\<lambda>b. Pack_TPM2B_SENSITIVE_CREATE b (Some p)) (wire_sensitive_create p)"
  unfolding Pack_TPM2B_SENSITIVE_CREATE_def wire_sensitive_create_def Pack_TPMS_SENSITIVE_CREATE_def Let_def [of "_ @ _"]
  by (simp only: option.case) (intro emits_sized16 emits_bind emits_wf_2b [OF assms(1)] emits_wf_2b [OF assms(2)])

lemma emits_none: "emits f w \<Longrightarrow> emits (\<lambda>b. Option.bind (f b) Some) w"
  using emits_bind [OF _ emits_done] by fastforce

lemma emits_keyedhash:
  assumes "kh_scheme p \<in> {TPM_ALG_HMAC, TPM_ALG_XOR, TPM_ALG_NULL}"
  shows "emits (\<lambda>b. Pack_TPMS_KEYEDHASH_PARMS b p) (wire_keyedhash p)"
  unfolding Pack_TPMS_KEYEDHASH_PARMS_def Pack_TPMT_KEYEDHASH_SCHEME_def wire_keyedhash_def Pack_TPMU_SCHEME_KEYEDHASH_def
    Pack_TPMS_SCHEME_HMAC_def Pack_TPMS_SCHEME_XOR_def
  using assms by (auto intro!: emits_bind emits_u16 emits_done emits_none)

lemma emits_sym: "emits (\<lambda>b. Pack_TPMT_SYM_DEF_OBJECT b p) (wire_sym p)"
  unfolding Pack_TPMT_SYM_DEF_OBJECT_def wire_sym_def Pack_TPMU_SYM_KEY_BITS_def Pack_TPMU_SYM_MODE_def
  by (intro emits_bind emits_u16) (auto intro!: emits_u16 emits_done)

lemma emits_asym: "s = TPM_ALG_NULL \<Longrightarrow> emits (\<lambda>b. Pack_TPMT_RSA_SCHEME b s) (be16 s)"
  "s = TPM_ALG_NULL \<Longrightarrow> emits (\<lambda>b. Pack_TPMT_ECC_SCHEME b s) (be16 s)"
  unfolding Pack_TPMT_RSA_SCHEME_def Pack_TPMT_ECC_SCHEME_def Pack_TPMU_ASYM_SCHEME_def
  by (auto intro!: emits_none emits_u16)

lemma emits_rsa: "rsa_scheme p = TPM_ALG_NULL \<Longrightarrow> emits (\<lambda>b. Pack_TPMS_RSA_PARMS b p) (wire_rsa p)"
  unfolding Pack_TPMS_RSA_PARMS_def wire_rsa_def by (intro emits_bind emits_sym emits_asym emits_u16 emits_u32)

lemma emits_kdf:
  assumes "kdf_scheme p \<in> {TPM_ALG_MGF1, TPM_ALG_KDF1_SP800_56A, TPM_ALG_KDF2, TPM_ALG_KDF1_SP800_108, TPM_ALG_NULL}"
  shows "emits (\<lambda>b. Pack_TPMT_KDF_SCHEME b p) (wire_kdf p)"
  unfolding Pack_TPMT_KDF_SCHEME_def Pack_TPMU_KDF_SCHEME_def wire_kdf_def
  using assms by (auto intro!: emits_bind emits_u16 emits_none)

lemma emits_ecc:
  assumes "ecc_scheme p = TPM_ALG_NULL"
    "kdf_scheme (ecc_kdf p) \<in> {TPM_ALG_MGF1, TPM_ALG_KDF1_SP800_56A, TPM_ALG_KDF2, TPM_ALG_KDF1_SP800_108, TPM_ALG_NULL}"
  shows "emits (\<lambda>b. Pack_TPMS_ECC_PARMS b p) (wire_ecc p)"
  unfolding Pack_TPMS_ECC_PARMS_def wire_ecc_def
  by (intro emits_bind emits_sym emits_asym emits_u16 emits_kdf assms)

lemma emits_parms: "wf_parms type p \<Longrightarrow> emits (\<lambda>b. Pack_TPMU_PUBLIC_PARMS b type p) (wire_parms type p)"
  unfolding Pack_TPMU_PUBLIC_PARMS_def wire_parms_def wf_parms_def Pack_TPMS_SYMCIPHER_PARMS_def
  by (auto intro!: emits_keyedhash emits_sym emits_rsa emits_ecc split: if_splits)

lemma emits_member:
  assumes "unat (b_size p) \<le> cap" "cap \<le> length (b_buffer p)"
  shows "emits (\<lambda>b. pack_member b cap p) (wire_2b p)"
proof -
  have "take (unat (b_size p)) (take cap (b_buffer p)) = take (unat (b_size p)) (b_buffer p)"
    using assms by (simp add: min_absorb1)
  with emits_2b [of "b_size p" "take cap (b_buffer p)"] assms show ?thesis
    by (simp add: pack_member_def wire_2b_def)
qed

lemma emits_id:
  assumes "wf_parms type q" "wf_id type p"
  shows "emits (\<lambda>b. Pack_TPMU_PUBLIC_ID b type p) (wire_id type p)"
proof (cases "type = TPM_ALG_ECC")
  case True
  with assms(2) have wf: "wf_2b MAX_ECC_KEY_BYTES (pt_x (id_ecc p))" "wf_2b MAX_ECC_KEY_BYTES (pt_y (id_ecc p))"
    by (simp_all add: wf_id_def)
  from True show ?thesis
    by (simp add: Pack_TPMU_PUBLIC_ID_def wire_id_def Pack_TPMS_ECC_POINT_def)
      (intro emits_bind emits_wf_2b [OF wf(1)] emits_wf_2b [OF wf(2)])
next
  case False
  then have "type \<in> {TPM_ALG_KEYEDHASH, TPM_ALG_SYMCIPHER, TPM_ALG_RSA}"
    using assms(1) by (auto simp: wf_parms_def split: if_splits)
  then have "Pack_TPMU_PUBLIC_ID b type p = pack_member b (id_cap type) (id_buffer p)" for b
    by (auto simp: Pack_TPMU_PUBLIC_ID_def id_cap_def)
  moreover have "emits (\<lambda>b. pack_member b (id_cap type) (id_buffer p)) (wire_2b (id_buffer p))"
    using False assms(2) by (intro emits_member) (simp_all add: wf_id_def id_cap_def)
  ultimately show ?thesis using False by (simp add: wire_id_def)
qed

lemma emits_public: "wf_public p \<Longrightarrow> emits (\<lambda>b. Pack_TPMT_PUBLIC b p) (wire_public p)"
  unfolding Pack_TPMT_PUBLIC_def wire_public_def wf_public_def Pack_TPMA_OBJECT_def
  by (intro emits_bind emits_u16 emits_u32 emits_wf_2b emits_parms emits_id) auto

lemma emits_2b_public: "wf_public (bp_publicArea p) \<Longrightarrow> emits (\<lambda>b. Pack_TPM2B_PUBLIC b (Some p)) (wire_2b_public p)"
  unfolding Pack_TPM2B_PUBLIC_def wire_2b_public_def by (simp only: option.case) (intro emits_sized16 emits_public)
subsection \<open>Unpacking functions that consume\<close>

definition adv :: "tpmbuf \<Rightarrow> nat \<Rightarrow> tpmbuf" where
  "adv b n = b\<lparr>tb_offset := tb_offset b + n\<rparr>"

definition parses :: "(tpmbuf \<Rightarrow> ('a \<times> tpmbuf) option) \<Rightarrow> bytes \<Rightarrow> 'a \<Rightarrow> bool" where
  "parses f w v \<longleftrightarrow> (\<forall>b rest. ready b \<longrightarrow> unread b = w @ rest \<longrightarrow> f b = Some (v, adv b (length w)))"

lemma parsesD: "parses f w v \<Longrightarrow> ready b \<Longrightarrow> unread b = w @ rest \<Longrightarrow> f b = Some (v, adv b (length w))"
  by (auto simp: parses_def)

lemma adv_simps [simp]: "tb_error (adv b n) = tb_error b" "tb_size (adv b n) = tb_size b" "adv b 0 = b"
  "adv (adv b m) n = adv b (m + n)"
  by (simp_all add: adv_def)

lemma ready_adv: "ready b \<Longrightarrow> unread b = w @ rest \<Longrightarrow> ready (adv b (length w))"
  using unread_load(3) [of b w rest] by (simp add: ready_def adv_def)

lemma unread_adv: "ready b \<Longrightarrow> unread b = w @ rest \<Longrightarrow> unread (adv b (length w)) = rest"
  using unread_load(4) [of b w rest] by (simp add: ready_def adv_def)

lemma parses_done: "parses (\<lambda>b. Some (v, b)) [] v"
  by (simp add: parses_def)

lemma parses_bind:
  assumes f: "parses f u x" and g: "parses (g x) v y"
  shows "parses (\<lambda>b. Option.bind (f b) (\<lambda>(x, b). g x b)) (u @ v) y"
  unfolding parses_def
proof (intro allI impI)
  fix b rest
  assume b: "ready b" "unread b = (u @ v) @ rest"
  then have u: "unread b = u @ (v @ rest)" by simp
  have "f b = Some (x, adv b (length u))" by (rule parsesD [OF f b(1) u])
  moreover have "g x (adv b (length u)) = Some (y, adv (adv b (length u)) (length v))"
    by (rule parsesD [OF g ready_adv [OF b(1) u] unread_adv [OF b(1) u]])
  ultimately show "Option.bind (f b) (\<lambda>(x, b). g x b) = Some (y, adv b (length (u @ v)))" by simp
qed

lemma parses_last: "parses f w x \<Longrightarrow> parses (\<lambda>b. Option.bind (f b) (\<lambda>(x, b). Some (h x, b))) w (h x)"
  using parses_bind [of f w x "\<lambda>x b. Some (h x, b)" "[]" "h x"] parses_done by fastforce

lemma unpack_u8: "ready b \<Longrightarrow> unread b = [x] @ rest \<Longrightarrow> TPMBufUnpackU8 b = Some (Some x, adv b 1)"
  and unpack_u16: "ready b \<Longrightarrow> unread b = be16 y @ rest \<Longrightarrow> TPMBufUnpackU16 b = Some (Some y, adv b 2)"
  and unpack_u32: "ready b \<Longrightarrow> unread b = be32 z @ rest \<Longrightarrow> TPMBufUnpackU32 b = Some (Some z, adv b 4)"
proof -
  assume "ready b"
  then have inv: "tpmbuf_inv b" and ok: "tb_error b = 0" by (simp_all add: ready_def)
  have w: "of_nat (le_nat (be16 y)) = ByteSwapU16 y" "of_nat (le_nat (be32 z)) = ByteSwapU32 z"
    unfolding swap_be [symmetric] by (rule word_nat_le, simp)+
  note u = unread_load [OF inv] room(2) [OF inv]
  show "TPMBufUnpackU8 b = Some (Some x, adv b 1)" if d: "unread b = [x] @ rest"
    using u(1,2,5) [OF d] u(6) ok by (auto simp: TPMBufUnpackU8_def adv_def)
  show "TPMBufUnpackU16 b = Some (Some y, adv b 2)" if d: "unread b = be16 y @ rest"
    using u(1,2,5) [OF d] u(6) ok by (simp add: TPMBufUnpackU16_def adv_def w)
  show "TPMBufUnpackU32 b = Some (Some z, adv b 4)" if d: "unread b = be32 z @ rest"
    using u(1,2,5) [OF d] u(6) ok by (simp add: TPMBufUnpackU32_def adv_def w)
qed

lemma parses_u8: "parses (\<lambda>b. into (TPMBufUnpackU8 b) old) [x] x"
  and parses_u16: "parses (\<lambda>b. into (TPMBufUnpackU16 b) old16) (be16 x16) x16"
  and parses_u32: "parses (\<lambda>b. into (TPMBufUnpackU32 b) old32) (be32 x32) x32"
  using unpack_u8 unpack_u16 unpack_u32 by (fastforce simp: parses_def into_def)+

lemma parses_bytes:
  "i + length w = n \<Longrightarrow> n \<le> length d \<Longrightarrow> parses (\<lambda>b. unpack_bytes b d i n) w (take i d @ w @ drop n d)"
proof (induction w arbitrary: i d)
  case Nil
  then show ?case by (subst unpack_bytes.simps) (simp add: parses_def)
next
  case (Cons x w)
  then have i: "i < n" "i < length d" by auto
  show ?case
    unfolding parses_def
  proof (intro allI impI)
    fix b rest assume b: "ready b" "unread b = (x # w) @ rest"
    then have u: "unread b = [x] @ (w @ rest)" by simp
    have 1: "TPMBufUnpackU8 b = Some (Some x, adv b 1)" by (rule unpack_u8 [OF b(1) u])
    have b1: "ready (adv b 1)" "unread (adv b 1) = w @ rest" using ready_adv [OF b(1) u] unread_adv [OF b(1) u] by simp_all
    have "unpack_bytes (adv b 1) (d[i := x]) (i + 1) n = Some (take (i + 1) (d[i := x]) @ w @ drop n (d[i := x]), adv (adv b 1) (length w))"
      by (rule parsesD [OF Cons.IH b1]) (use Cons.prems in auto)
    moreover have "take (i + 1) (d[i := x]) = take i d @ [x]" "drop n (d[i := x]) = drop n d"
      using i by (simp_all add: take_Suc_conv_app_nth)
    ultimately show "unpack_bytes b d i n = Some (take i d @ (x # w) @ drop n d, adv b (length (x # w)))"
      using i 1 by (subst unpack_bytes.simps) simp
  qed
qed

text \<open>The sized buffer \<open>p\<close> unpacked over the old contents of \<open>q\<close>.\<close>

definition over_2b :: "tpm2b \<Rightarrow> tpm2b \<Rightarrow> tpm2b" where
  "over_2b q p = q\<lparr>b_size := b_size p, b_buffer := take (unat (b_size p)) (b_buffer p) @ drop (unat (b_size p)) (b_buffer q)\<rparr>"

lemma parses_2b:
  assumes "unat (b_size p) \<le> length (b_buffer p)" "unat (b_size p) \<le> length (b_buffer q)"
  shows "parses (\<lambda>b. Unpack_TPM2B b q) (wire_2b p) (over_2b q p)"
proof -
  let ?w = "take (unat (b_size p)) (b_buffer p)"
  let ?h = "\<lambda>d. q\<lparr>b_size := b_size p, b_buffer := d\<rparr>"
  have "parses (\<lambda>b. unpack_bytes b (b_buffer q) 0 (unat (b_size p))) ?w (?w @ drop (unat (b_size p)) (b_buffer q))"
    using parses_bytes [of 0 ?w "unat (b_size p)" "b_buffer q"] assms by simp
  from parses_last [OF this, of ?h]
  have "parses (\<lambda>b. Option.bind (unpack_bytes b (b_buffer q) 0 (unat (b_size p))) (\<lambda>(d, b). Some (?h d, b))) ?w (over_2b q p)"
    by (simp add: over_2b_def)
  then show ?thesis
    unfolding Unpack_TPM2B_def wire_2b_def by (rule parses_bind [OF parses_u16])
qed
text \<open>The other structures: what unpacking \<open>p\<close> over \<open>q\<close> stores.\<close>

definition over_pcr_select :: "tpms_pcr_select \<Rightarrow> tpms_pcr_select \<Rightarrow> tpms_pcr_select" where
  "over_pcr_select q p = q\<lparr>ps_sizeofSelect := ps_sizeofSelect p,
     ps_pcrSelect := take (unat (ps_sizeofSelect p)) (ps_pcrSelect p) @ drop (unat (ps_sizeofSelect p)) (ps_pcrSelect q)\<rparr>"

definition over_keyedhash :: "tpmt_keyedhash_scheme \<Rightarrow> tpmt_keyedhash_scheme \<Rightarrow> tpmt_keyedhash_scheme" where
  "over_keyedhash q p =
     q\<lparr>kh_scheme := kh_scheme p, kh_hashAlg := (if kh_scheme p = TPM_ALG_NULL then kh_hashAlg q else kh_hashAlg p),
       kh_kdf := (if kh_scheme p = TPM_ALG_XOR then kh_kdf p else kh_kdf q)\<rparr>"

definition over_sym :: "tpmt_sym_def_object \<Rightarrow> tpmt_sym_def_object \<Rightarrow> tpmt_sym_def_object" where
  "over_sym q p =
     q\<lparr>sym_algorithm := sym_algorithm p,
       sym_keyBits := (if sym_algorithm p \<in> {TPM_ALG_AES, TPM_ALG_SM4, TPM_ALG_CAMELLIA, TPM_ALG_XOR} then sym_keyBits p else sym_keyBits q),
       sym_mode := (if sym_algorithm p \<in> {TPM_ALG_AES, TPM_ALG_SM4, TPM_ALG_CAMELLIA} then sym_mode p else sym_mode q)\<rparr>"

definition over_rsa :: "tpms_rsa_parms \<Rightarrow> tpms_rsa_parms \<Rightarrow> tpms_rsa_parms" where
  "over_rsa q p = q\<lparr>rsa_symmetric := over_sym (rsa_symmetric q) (rsa_symmetric p), rsa_scheme := rsa_scheme p,
     rsa_keyBits := rsa_keyBits p, rsa_exponent := rsa_exponent p\<rparr>"

definition over_kdf :: "tpmt_kdf_scheme \<Rightarrow> tpmt_kdf_scheme \<Rightarrow> tpmt_kdf_scheme" where
  "over_kdf q p = q\<lparr>kdf_scheme := kdf_scheme p, kdf_hashAlg := (if kdf_scheme p = TPM_ALG_NULL then kdf_hashAlg q else kdf_hashAlg p)\<rparr>"

definition over_ecc :: "tpms_ecc_parms \<Rightarrow> tpms_ecc_parms \<Rightarrow> tpms_ecc_parms" where
  "over_ecc q p = q\<lparr>ecc_symmetric := over_sym (ecc_symmetric q) (ecc_symmetric p), ecc_scheme := ecc_scheme p,
     ecc_curveID := ecc_curveID p, ecc_kdf := over_kdf (ecc_kdf q) (ecc_kdf p)\<rparr>"

definition over_parms :: "16 word \<Rightarrow> tpmu_public_parms \<Rightarrow> tpmu_public_parms \<Rightarrow> tpmu_public_parms" where
  "over_parms type q p =
     (if type = TPM_ALG_KEYEDHASH then q\<lparr>keyedHashDetail := over_keyedhash (keyedHashDetail q) (keyedHashDetail p)\<rparr>
      else if type = TPM_ALG_SYMCIPHER then q\<lparr>symDetail := over_sym (symDetail q) (symDetail p)\<rparr>
      else if type = TPM_ALG_RSA then q\<lparr>rsaDetail := over_rsa (rsaDetail q) (rsaDetail p)\<rparr>
      else q\<lparr>eccDetail := over_ecc (eccDetail q) (eccDetail p)\<rparr>)"

definition over_point :: "tpms_ecc_point \<Rightarrow> tpms_ecc_point \<Rightarrow> tpms_ecc_point" where
  "over_point q p = q\<lparr>pt_x := over_2b (pt_x q) (pt_x p), pt_y := over_2b (pt_y q) (pt_y p)\<rparr>"

definition over_id :: "16 word \<Rightarrow> tpmu_public_id \<Rightarrow> tpmu_public_id \<Rightarrow> tpmu_public_id" where
  "over_id type q p =
     (if type = TPM_ALG_ECC then q\<lparr>id_ecc := over_point (id_ecc q) (id_ecc p)\<rparr>
      else q\<lparr>id_buffer := over_2b (id_buffer q) (id_buffer p)\<rparr>)"

definition over_public :: "tpmt_public \<Rightarrow> tpmt_public \<Rightarrow> tpmt_public" where
  "over_public q p = q\<lparr>pub_type := pub_type p, pub_nameAlg := pub_nameAlg p, pub_objectAttributes := pub_objectAttributes p,
     pub_authPolicy := over_2b (pub_authPolicy q) (pub_authPolicy p),
     pub_parameters := over_parms (pub_type p) (pub_parameters q) (pub_parameters p),
     pub_unique := over_id (pub_type p) (pub_unique q) (pub_unique p)\<rparr>"

definition over_2b_public :: "tpm2b_public \<Rightarrow> tpm2b_public \<Rightarrow> tpm2b_public" where
  "over_2b_public q p = q\<lparr>bp_size := of_nat (length (wire_public (bp_publicArea p))),
     bp_publicArea := over_public (bp_publicArea q) (bp_publicArea p)\<rparr>"

lemma parses_eq: "parses f w v \<Longrightarrow> v = v' \<Longrightarrow> parses f w v'"
  by simp

lemma parses_if: "parses f w v \<Longrightarrow> \<not> c \<Longrightarrow> parses (\<lambda>b. if c then g b else f b) w v"
  "parses g w v \<Longrightarrow> c \<Longrightarrow> parses (\<lambda>b. if c then g b else f b) w v"
  by simp_all

lemma parses_pcr_select:
  assumes "wf_pcr_select p" "length (ps_pcrSelect q) = PCR_SELECT_MAX"
  shows "parses (\<lambda>b. Unpack_TPMS_PCR_SELECT b q) (wire_pcr_select p) (over_pcr_select q p)"
proof -
  let ?w = "take (unat (ps_sizeofSelect p)) (ps_pcrSelect p)"
  have "parses (\<lambda>b. unpack_bytes b (ps_pcrSelect q) 0 (unat (ps_sizeofSelect p))) ?w (?w @ drop (unat (ps_sizeofSelect p)) (ps_pcrSelect q))"
    using parses_bytes [of 0 ?w "unat (ps_sizeofSelect p)" "ps_pcrSelect q"] assms by (simp add: wf_pcr_select_def)
  from parses_last [OF this, of "\<lambda>d. q\<lparr>ps_sizeofSelect := ps_sizeofSelect p, ps_pcrSelect := d\<rparr>"]
  show ?thesis
    unfolding Unpack_TPMS_PCR_SELECT_def wire_pcr_select_def over_pcr_select_def by (rule parses_bind [OF parses_u8])
qed

lemma parses_keyedhash:
  assumes "kh_scheme p \<in> {TPM_ALG_HMAC, TPM_ALG_XOR, TPM_ALG_NULL}"
  shows "parses (\<lambda>b. Unpack_TPMS_KEYEDHASH_PARMS b q) (wire_keyedhash p) (over_keyedhash q p)"
proof -
  have "parses (\<lambda>b. Unpack_TPMU_SCHEME_KEYEDHASH b (kh_scheme p) (q\<lparr>kh_scheme := kh_scheme p\<rparr>))
    (if kh_scheme p = TPM_ALG_HMAC then be16 (kh_hashAlg p)
      else if kh_scheme p = TPM_ALG_XOR then be16 (kh_hashAlg p) @ be16 (kh_kdf p) else []) (over_keyedhash q p)"
    using assms
    by (auto simp: Unpack_TPMU_SCHEME_KEYEDHASH_def Unpack_TPMS_SCHEME_HMAC_def Unpack_TPMS_SCHEME_XOR_def over_keyedhash_def
        intro!: parses_eq [OF parses_last [OF parses_u16]] parses_eq [OF parses_bind [OF parses_u16 parses_last [OF parses_u16]]]
          parses_eq [OF parses_done])
  then show ?thesis
    unfolding Unpack_TPMS_KEYEDHASH_PARMS_def Unpack_TPMT_KEYEDHASH_SCHEME_def wire_keyedhash_def
    by (rule parses_bind [OF parses_u16])
qed

lemma parses_keep: "parses (\<lambda>b. if c then into (TPMBufUnpackU16 b) old else Some (old, b)) (if c then be16 x else []) (if c then x else old)"
  by (simp add: parses_u16 parses_done)

lemma parses_sym: "parses (\<lambda>b. Unpack_TPMT_SYM_DEF_OBJECT b q) (wire_sym p) (over_sym q p)"
  unfolding Unpack_TPMT_SYM_DEF_OBJECT_def wire_sym_def over_sym_def Unpack_TPMU_SYM_KEY_BITS_def Unpack_TPMU_SYM_MODE_def
  by (rule parses_bind parses_u16 parses_keep parses_last)+

lemma parses_asym:
  assumes "s = TPM_ALG_NULL"
  shows "parses (\<lambda>b. Unpack_TPMT_RSA_SCHEME b old) (be16 s) s" "parses (\<lambda>b. Unpack_TPMT_ECC_SCHEME b old) (be16 s) s"
proof -
  let ?g = "\<lambda>x b. Option.bind (if x = TPM_ALG_NULL then Some b else Some (set_error b)) (\<lambda>b. Some (x, b))"
  have "parses (?g s) [] s" using assms by (simp add: parses_done)
  from parses_bind [of _ _ _ ?g, OF parses_u16 [of old s] this]
  have "parses (\<lambda>b. Option.bind (into (TPMBufUnpackU16 b) old) (\<lambda>(x, b). ?g x b)) (be16 s) s" by simp
  then show "parses (\<lambda>b. Unpack_TPMT_RSA_SCHEME b old) (be16 s) s" "parses (\<lambda>b. Unpack_TPMT_ECC_SCHEME b old) (be16 s) s"
    unfolding Unpack_TPMT_RSA_SCHEME_def Unpack_TPMT_ECC_SCHEME_def Unpack_TPMU_ASYM_SCHEME_def by blast+
qed

lemma parses_rsa: "rsa_scheme p = TPM_ALG_NULL \<Longrightarrow> parses (\<lambda>b. Unpack_TPMS_RSA_PARMS b q) (wire_rsa p) (over_rsa q p)"
  unfolding Unpack_TPMS_RSA_PARMS_def wire_rsa_def over_rsa_def
  by (rule parses_bind parses_sym parses_asym parses_u16 parses_u32 parses_last | assumption)+

lemma parses_kdf:
  assumes "kdf_scheme p \<in> {TPM_ALG_MGF1, TPM_ALG_KDF1_SP800_56A, TPM_ALG_KDF2, TPM_ALG_KDF1_SP800_108, TPM_ALG_NULL}"
  shows "parses (\<lambda>b. Unpack_TPMT_KDF_SCHEME b q) (wire_kdf p) (over_kdf q p)"
proof -
  have "parses (\<lambda>b. Unpack_TPMU_KDF_SCHEME b (kdf_scheme p) (q\<lparr>kdf_scheme := kdf_scheme p\<rparr>))
    (if kdf_scheme p = TPM_ALG_NULL then [] else be16 (kdf_hashAlg p)) (over_kdf q p)"
    using assms
    by (auto simp: Unpack_TPMU_KDF_SCHEME_def over_kdf_def intro!: parses_eq [OF parses_last [OF parses_u16]] parses_eq [OF parses_done])
  then show ?thesis
    unfolding Unpack_TPMT_KDF_SCHEME_def wire_kdf_def by (rule parses_bind [OF parses_u16])
qed

lemma parses_ecc:
  assumes "ecc_scheme p = TPM_ALG_NULL"
    "kdf_scheme (ecc_kdf p) \<in> {TPM_ALG_MGF1, TPM_ALG_KDF1_SP800_56A, TPM_ALG_KDF2, TPM_ALG_KDF1_SP800_108, TPM_ALG_NULL}"
  shows "parses (\<lambda>b. Unpack_TPMS_ECC_PARMS b q) (wire_ecc p) (over_ecc q p)"
  unfolding Unpack_TPMS_ECC_PARMS_def wire_ecc_def over_ecc_def
  by (rule parses_bind parses_sym parses_asym parses_u16 parses_kdf parses_last assms)+

lemma parses_parms: "wf_parms type p \<Longrightarrow> parses (\<lambda>b. Unpack_TPMU_PUBLIC_PARMS b type q) (wire_parms type p) (over_parms type q p)"
  unfolding Unpack_TPMU_PUBLIC_PARMS_def wire_parms_def over_parms_def wf_parms_def Unpack_TPMS_SYMCIPHER_PARMS_def
  by (auto intro!: parses_last parses_keyedhash parses_sym parses_rsa parses_ecc split: if_splits)
lemma parses_member:
  assumes "unat (b_size p) \<le> cap" "cap \<le> length (b_buffer p)" "cap \<le> length (b_buffer q)"
  shows "parses (\<lambda>b. unpack_member b cap q) (wire_2b p) (over_2b q p)"
proof -
  let ?q = "q\<lparr>b_buffer := take cap (b_buffer q)\<rparr>"
  have "parses (\<lambda>b. Unpack_TPM2B b ?q) (wire_2b p) (over_2b ?q p)"
    using assms by (intro parses_2b) simp_all
  from parses_last [OF this, of "\<lambda>r. r\<lparr>b_buffer := b_buffer r @ drop cap (b_buffer q)\<rparr>"]
  have "parses (\<lambda>b. unpack_member b cap q) (wire_2b p) ((over_2b ?q p)\<lparr>b_buffer := b_buffer (over_2b ?q p) @ drop cap (b_buffer q)\<rparr>)"
    unfolding unpack_member_def .
  moreover have "drop (unat (b_size p)) (take cap (b_buffer q)) @ drop cap (b_buffer q) = drop (unat (b_size p)) (b_buffer q)"
    using assms(1) by (metis append_take_drop_id assms(3) drop_append diff_is_0_eq' drop0 length_take min_absorb2)
  ultimately show ?thesis by (simp add: over_2b_def)
qed

definition old_id_ok :: "tpmu_public_id \<Rightarrow> bool" where
  "old_id_ok q \<longleftrightarrow> length (b_buffer (id_buffer q)) = MAX_RSA_KEY_BYTES \<and>
     length (b_buffer (pt_x (id_ecc q))) = MAX_ECC_KEY_BYTES \<and> length (b_buffer (pt_y (id_ecc q))) = MAX_ECC_KEY_BYTES"

lemma parses_id:
  assumes "wf_parms type r" "wf_id type p" "old_id_ok q"
  shows "parses (\<lambda>b. Unpack_TPMU_PUBLIC_ID b type q) (wire_id type p) (over_id type q p)"
proof (cases "type = TPM_ALG_ECC")
  case True
  with assms(2,3) have l: "unat (b_size (pt_x (id_ecc p))) \<le> length (b_buffer (pt_x (id_ecc p)))"
      "unat (b_size (pt_x (id_ecc p))) \<le> length (b_buffer (pt_x (id_ecc q)))"
      "unat (b_size (pt_y (id_ecc p))) \<le> length (b_buffer (pt_y (id_ecc p)))"
      "unat (b_size (pt_y (id_ecc p))) \<le> length (b_buffer (pt_y (id_ecc q)))"
    by (auto simp: wf_id_def old_id_ok_def wf_2b_def)
  have "parses (\<lambda>b. Unpack_TPMS_ECC_POINT b (id_ecc q)) (wire_2b (pt_x (id_ecc p)) @ wire_2b (pt_y (id_ecc p))) (over_point (id_ecc q) (id_ecc p))"
    unfolding Unpack_TPMS_ECC_POINT_def over_point_def
    by (rule parses_bind [OF parses_2b [OF l(1,2)] parses_last [OF parses_2b [OF l(3,4)]]])
  from parses_last [OF this, of "\<lambda>x. q\<lparr>id_ecc := x\<rparr>"] True show ?thesis
    by (simp add: Unpack_TPMU_PUBLIC_ID_def wire_id_def over_id_def)
next
  case False
  then have t: "type \<in> {TPM_ALG_KEYEDHASH, TPM_ALG_SYMCIPHER, TPM_ALG_RSA}"
    using assms(1) by (auto simp: wf_parms_def split: if_splits)
  have "parses (\<lambda>b. unpack_member b (id_cap type) (id_buffer q)) (wire_2b (id_buffer p)) (over_2b (id_buffer q) (id_buffer p))"
    using False assms(2,3) by (intro parses_member) (simp_all add: wf_id_def id_cap_def old_id_ok_def)
  from parses_last [OF this, of "\<lambda>x. q\<lparr>id_buffer := x\<rparr>"] t False show ?thesis
    by (auto simp: Unpack_TPMU_PUBLIC_ID_def wire_id_def over_id_def id_cap_def)
qed

definition old_public_ok :: "tpmt_public \<Rightarrow> bool" where
  "old_public_ok q \<longleftrightarrow> length (b_buffer (pub_authPolicy q)) = TPM2B_DIGEST_CAP \<and> old_id_ok (pub_unique q)"

lemma parses_public:
  assumes "wf_public p" "old_public_ok q"
  shows "parses (\<lambda>b. Unpack_TPMT_PUBLIC b q) (wire_public p) (over_public q p)"
proof -
  have l: "unat (b_size (pub_authPolicy p)) \<le> length (b_buffer (pub_authPolicy p))"
    "unat (b_size (pub_authPolicy p)) \<le> length (b_buffer (pub_authPolicy q))"
    using assms by (simp_all add: wf_public_def old_public_ok_def wf_2b_def)
  have w: "wf_parms (pub_type p) (pub_parameters p)" "wf_id (pub_type p) (pub_unique p)" "old_id_ok (pub_unique q)"
    using assms by (simp_all add: wf_public_def old_public_ok_def)
  show ?thesis
    unfolding Unpack_TPMT_PUBLIC_def wire_public_def over_public_def Unpack_TPMA_OBJECT_def
    by (rule parses_bind parses_u16 parses_u32 parses_2b [OF l] parses_parms [OF w(1)] parses_last parses_id [OF w])+
qed

lemma parses_2b_public:
  assumes "wf_public (bp_publicArea p)" "old_public_ok (bp_publicArea q)"
  shows "parses (\<lambda>b. Unpack_TPM2B_PUBLIC b q) (wire_2b_public p) (over_2b_public q p)"
  unfolding Unpack_TPM2B_PUBLIC_def wire_2b_public_def over_2b_public_def
  by (rule parses_bind parses_u16 parses_last parses_public [OF assms])+

subsection \<open>Lengths\<close>

lemma length_wire_2b: "wf_2b cap p \<Longrightarrow> length (wire_2b p) \<le> cap + 2"
  by (simp add: wire_2b_def wf_2b_def)

lemma length_wire_parms: "length (wire_parms type p) \<le> 14"
  by (simp add: wire_parms_def wire_keyedhash_def wire_sym_def wire_rsa_def wire_ecc_def wire_kdf_def)

lemma length_wire_id: "wf_id type p \<Longrightarrow> length (wire_id type p) \<le> 258"
  by (auto simp: wire_id_def wf_id_def id_cap_def wire_2b_def wf_2b_def split: if_splits)

lemma length_wire_public: "wf_public p \<Longrightarrow> length (wire_public p) \<le> 346"
  using length_wire_2b [of 64 "pub_authPolicy p"] length_wire_parms [of "pub_type p" "pub_parameters p"]
    length_wire_id [of "pub_type p" "pub_unique p"]
  by (simp add: wire_public_def wf_public_def)

lemma length_wire_auth: "wf_auth p \<Longrightarrow> length (wire_auth p) \<le> 141"
  by (simp add: wire_auth_def auth_body_def wf_auth_def wf_2b_def)

lemma length_wire_pcr_selections: "wf_pcr_selections p \<Longrightarrow> length (wire_pcr_selections p) \<le> 52"
proof -
  assume wf: "wf_pcr_selections p"
  have "length (concat (map wire_pcr_selection xs)) \<le> 6 * length xs" if "list_all wf_pcr_selection xs" for xs
    using that by (induction xs) (auto simp: wire_pcr_selection_def wf_pcr_selection_def)
  from this [of "take (unat (pl_count p)) (pl_pcrSelections p)"] wf show ?thesis
    by (simp add: wire_pcr_selections_def wf_pcr_selections_def list_all_length)
qed

end
