(* ===== verification/Tpm2Commands.thy ===== *)
theory Tpm2Commands
  imports Tpm2Wire
begin

text \<open>
  TPM 2.0 commands (\<open>lsvmutils/tpm2.c\<close>, the \<open>TPM2_\<close> functions) over the firmware's TCG2
  protocol.

  The firmware is a parameter, the record \<open>tcg2_protocol\<close> with a state of its own: the two
  functions of \<open>EFI_TCG2_PROTOCOL\<close> that the code calls (through \<open>TCG2_GetCapability\<close> and
  \<open>TCG2_SubmitCommand\<close> of \<open>lsvmutils/tcg2.c\<close>, which only forward). Submitting a command
  returns a status and the response; the firmware stores at most as many bytes as the block
  size it is given. \<open>stack_byte\<close> is the contents of the uninitialised local of
  \<open>_Unpack_TPMS_AUTH_RESPONSE\<close>.

  The state \<open>tpm\<close> is the firmware's and the capability structure that \<open>_TCG2GetCapabilities\<close>
  keeps in a static variable (\<open>None\<close>: not asked yet). A command returns its response code, its
  outputs and the state. An output pointer that may be null has no counterpart: the code then
  uses a local variable in its place. Outputs that the code does not clear are arguments, the
  contents the caller's variable has before the call.
\<close>

subsection \<open>The firmware interface\<close>

record tcg2_capability =
  MaxResponseSize :: "16 word"
  TPMPresentFlag :: bool

record 's tcg2_protocol =
  GetCapability :: "'s \<Rightarrow> int \<times> tcg2_capability \<times> 's"
  SubmitCommand :: "'s \<Rightarrow> bytes \<Rightarrow> nat \<Rightarrow> int \<times> bytes \<times> 's"
  stack_byte :: byte

record 's tpm =
  firmware :: 's
  capability :: "tcg2_capability option"

definition TCG2GetCapabilities :: "'s tcg2_protocol \<Rightarrow> 's tpm \<Rightarrow> tcg2_capability \<times> 's tpm" where
  "TCG2GetCapabilities P st =
     (case capability st of
        Some c \<Rightarrow> (c, st)
      | None \<Rightarrow>
          (let (status, c, fw) = GetCapability P (firmware st);
               c = (if status \<noteq> 0 then \<lparr>MaxResponseSize = 0, TPMPresentFlag = False\<rparr> else c)
           in (c, st\<lparr>firmware := fw, capability := Some c\<rparr>)))"

text \<open>The block size passed to the firmware.\<close>

definition output_block_size :: "16 word \<Rightarrow> nat \<Rightarrow> nat" where
  "output_block_size maxResponse cap =
     (if maxResponse > 0 then (let n = unat maxResponse - 1 in if n > cap then cap else n) else usub32 cap 1)"

text \<open>The header of a response. The size of the response is read from the response itself.\<close>

definition unpack_header :: "tpmbuf \<Rightarrow> (32 word \<times> 32 word option \<times> tpmbuf) option" where
  "unpack_header outb =
     do {
       let outb = outb\<lparr>tb_size := 10\<rparr>;
       (tagOut, outb) \<leftarrow> TPMBufUnpackU16 outb;
       (commandSize, outb) \<leftarrow> TPMBufUnpackU32 outb;
       (responseCode, outb) \<leftarrow> TPMBufUnpackU32 outb;
       commandSize \<leftarrow> commandSize;
       let outb = outb\<lparr>tb_size := unat commandSize\<rparr>;
       Some (if tb_error outb \<noteq> 0 then TPM_RC_FAILURE else TPM_RC_SUCCESS, responseCode, outb)
     }"

text \<open>One exchange with the firmware.\<close>

definition exchange ::
  "'s tcg2_protocol \<Rightarrow> 's tpm \<Rightarrow> bytes \<Rightarrow> tpmbuf \<Rightarrow> (32 word \<times> 32 word option \<times> tpmbuf \<times> 's tpm) option" where
  "exchange P st request outb =
     (let (c, st) = TCG2GetCapabilities P st;
          n = output_block_size (MaxResponseSize c) (tb_cap outb);
          (status, response, fw) = SubmitCommand P (firmware st) request n;
          st = st\<lparr>firmware := fw\<rparr>
      in do {
           d \<leftarrow> store 0 (take n response) (tb_data outb);
           let outb = outb\<lparr>tb_data := d\<rparr>;
           if status \<noteq> 0 then Some (TPM_RC_FAILURE, None, outb, st)
           else do {
             (rc, responseCode, outb) \<leftarrow> unpack_header outb;
             Some (rc, responseCode, outb, st)
           }
         })"

text \<open>\<open>_SubmitCommand\<close>: the return code, the response code if it was read, the output buffer.\<close>

definition submit_command ::
  "'s tcg2_protocol \<Rightarrow> 's tpm \<Rightarrow> 16 word \<Rightarrow> 32 word \<Rightarrow> tpmbuf \<Rightarrow> tpmbuf \<Rightarrow> (32 word \<times> 32 word option \<times> tpmbuf \<times> 's tpm) option" where
  "submit_command P st tag commandCode inb outb =
     do {
       buf \<leftarrow> TPMBufPackU16 TPMBufInit tag;
       buf \<leftarrow> TPMBufPackU32 buf 0;
       buf \<leftarrow> TPMBufPackU32 buf commandCode;
       buf \<leftarrow> TPMBufPack buf (tb_data inb) (tb_size inb);
       d \<leftarrow> store 2 (nat_le 4 (unat (ByteSwapU32 (of_nat (tb_size buf))))) (tb_data buf);
       let buf = buf\<lparr>tb_data := d\<rparr>;
       if tb_error buf \<noteq> 0 then Some (TPM_RC_FAILURE, None, outb, st)
       else do {
         request \<leftarrow> load 0 (tb_size buf) (tb_data buf);
         exchange P st request outb
       }
     }"

text \<open>The part every command shares: submit into a fresh output buffer and test both codes.\<close>

definition submit_request ::
  "'s tcg2_protocol \<Rightarrow> 's tpm \<Rightarrow> 16 word \<Rightarrow> 32 word \<Rightarrow> tpmbuf \<Rightarrow> ((32 word + tpmbuf) \<times> 's tpm) option" where
  "submit_request P st tag commandCode inb =
     do {
       (rc, responseCode, outb, st) \<leftarrow> submit_command P st tag commandCode inb TPMBufInit;
       if rc \<noteq> 0 then Some (Inl TPM_RC_FAILURE, st)
       else do {
         code \<leftarrow> responseCode;
         Some (if code \<noteq> TPM_RC_SUCCESS then Inl code else Inr outb, st)
       }
     }"

text \<open>Pack the request, submit it, unpack the response over the initial outputs.\<close>

definition command ::
  "'s tcg2_protocol \<Rightarrow> 's tpm \<Rightarrow> 16 word \<Rightarrow> 32 word \<Rightarrow> (tpmbuf \<Rightarrow> tpmbuf option) \<Rightarrow> 'o \<Rightarrow>
   ('o \<Rightarrow> tpmbuf \<Rightarrow> ('o \<times> tpmbuf) option) \<Rightarrow> (32 word \<times> 'o \<times> 's tpm) option" where
  "command P st tag commandCode request outputs response =
     do {
       inb \<leftarrow> request TPMBufInit;
       if tb_error inb \<noteq> 0 then Some (TPM_RC_FAILURE, outputs, st)
       else do {
         (r, st) \<leftarrow> submit_request P st tag commandCode inb;
         (case r of
            Inl rc \<Rightarrow> Some (rc, outputs, st)
          | Inr outb \<Rightarrow>
              do {
                (outputs, outb) \<leftarrow> response outputs outb;
                Some (if tb_error outb \<noteq> 0 then TPM_RC_FAILURE else TPM_RC_SUCCESS, outputs, st)
              })
       }
     }"

definition session_tag :: "tpms_auth_command option \<Rightarrow> 16 word" where
  "session_tag authCommand = (if authCommand \<noteq> None then TPM_ST_SESSIONS else TPM_ST_NO_SESSIONS)"

text \<open>\<open>if (authCommand) _Pack_TPMS_AUTH_COMMAND(&in, authCommand)\<close>\<close>

definition pack_auth :: "tpmbuf \<Rightarrow> tpms_auth_command option \<Rightarrow> tpmbuf option" where
  "pack_auth buf authCommand = (case authCommand of None \<Rightarrow> Some buf | Some a \<Rightarrow> Pack_TPMS_AUTH_COMMAND buf a)"

text \<open>\<open>if (tag == TPM_ST_SESSIONS) TPMBufUnpackU32(&out, &parameterSize)\<close>\<close>

definition parameter_size :: "tpms_auth_command option \<Rightarrow> tpmbuf \<Rightarrow> tpmbuf option" where
  "parameter_size authCommand buf =
     (if session_tag authCommand = TPM_ST_SESSIONS then do { (x, buf) \<leftarrow> TPMBufUnpackU32 buf; Some buf } else Some buf)"

text \<open>\<open>if (tag == TPM_ST_SESSIONS) _Unpack_TPMS_AUTH_RESPONSE(&out, authResponse)\<close>\<close>

definition auth_response ::
  "'s tcg2_protocol \<Rightarrow> tpms_auth_command option \<Rightarrow> tpmbuf \<Rightarrow> tpms_auth_response \<Rightarrow> (tpms_auth_response \<times> tpmbuf) option" where
  "auth_response P authCommand buf authResponse =
     (if session_tag authCommand = TPM_ST_SESSIONS then Unpack_TPMS_AUTH_RESPONSE (stack_byte P) buf authResponse
      else Some (authResponse, buf))"

subsection \<open>Commands\<close>

text \<open>\<open>TPM2_GetCapability\<close> also returns early between the fields of the response. It announces a
  session when given an authorisation, but never packs it.\<close>

definition TPM2_GetCapability ::
  "'s tcg2_protocol \<Rightarrow> 's tpm \<Rightarrow> tpms_auth_command option \<Rightarrow> 32 word \<Rightarrow> 32 word \<Rightarrow> 32 word \<Rightarrow> byte \<Rightarrow> tpms_capability_data \<Rightarrow>
   tpms_auth_response \<Rightarrow> (32 word \<times> (byte \<times> tpms_capability_data \<times> tpms_auth_response) \<times> 's tpm) option" where
  "TPM2_GetCapability P st authCommand cap property propertyCount moreData capabilityData authResponse =
     do {
       inb \<leftarrow> TPMBufPackU32 TPMBufInit cap;
       inb \<leftarrow> TPMBufPackU32 inb property;
       inb \<leftarrow> TPMBufPackU32 inb propertyCount;
       if tb_error inb \<noteq> 0 then Some (TPM_RC_FAILURE, (moreData, capabilityData, authResponse), st)
       else do {
         (r, st) \<leftarrow> submit_request P st (session_tag authCommand) 0x0000017A inb;
         (case r of
            Inl rc \<Rightarrow> Some (rc, (moreData, capabilityData, authResponse), st)
          | Inr outb \<Rightarrow>
              do {
                outb \<leftarrow> parameter_size authCommand outb;
                (moreData, outb) \<leftarrow> into (TPMBufUnpackU8 outb) moreData;
                (capOut, outb) \<leftarrow> TPMBufUnpackU32 outb;
                if tb_error outb \<noteq> 0 then Some (TPM_RC_FAILURE, (moreData, capabilityData, authResponse), st)
                else if capOut = Some TPM_CAP_TPM_PROPERTIES then
                  do {
                    (capabilityData, outb) \<leftarrow> Unpack_TPMS_CAPABILITY_DATA_tpmProperties outb capabilityData;
                    (authResponse, outb) \<leftarrow> auth_response P authCommand outb authResponse;
                    Some (if tb_error outb \<noteq> 0 then TPM_RC_FAILURE else TPM_RC_SUCCESS,
                          (moreData, capabilityData, authResponse), st)
                  }
                else Some (TPM_RC_FAILURE, (moreData, capabilityData, authResponse), st)
              })
       }
     }"

definition TPM2_PCR_Read ::
  "'s tcg2_protocol \<Rightarrow> 's tpm \<Rightarrow> tpms_auth_command option \<Rightarrow> tpml_pcr_selection \<Rightarrow>
   32 word \<times> tpml_pcr_selection \<times> tpml_digest \<times> tpms_auth_response \<Rightarrow>
   (32 word \<times> (32 word \<times> tpml_pcr_selection \<times> tpml_digest \<times> tpms_auth_response) \<times> 's tpm) option" where
  "TPM2_PCR_Read P st authCommand pcrSelectionIn outputs =
     command P st (session_tag authCommand) 0x0000017e
       (\<lambda>inb. Pack_TPML_PCR_SELECTION inb pcrSelectionIn)
       outputs
       (\<lambda>(pcrUpdateCounter, pcrSelectionOut, pcrValues, authResponse) outb. do {
          outb \<leftarrow> parameter_size authCommand outb;
          (pcrUpdateCounter, outb) \<leftarrow> into (TPMBufUnpackU32 outb) pcrUpdateCounter;
          (pcrSelectionOut, outb) \<leftarrow> Unpack_TPML_PCR_SELECTION outb pcrSelectionOut;
          (pcrValues, outb) \<leftarrow> Unpack_TPML_DIGEST outb pcrValues;
          (authResponse, outb) \<leftarrow> auth_response P authCommand outb authResponse;
          Some ((pcrUpdateCounter, pcrSelectionOut, pcrValues, authResponse), outb)
        })"

text \<open>The response that several commands share: an authorisation response and nothing else.\<close>

definition only_auth_response ::
  "'s tcg2_protocol \<Rightarrow> tpms_auth_command option \<Rightarrow> tpms_auth_response \<Rightarrow> tpmbuf \<Rightarrow> (tpms_auth_response \<times> tpmbuf) option" where
  "only_auth_response P authCommand authResponse outb =
     do { outb \<leftarrow> parameter_size authCommand outb; auth_response P authCommand outb authResponse }"

definition TPM2_DictionaryAttackLockReset ::
  "'s tcg2_protocol \<Rightarrow> 's tpm \<Rightarrow> 32 word \<Rightarrow> tpms_auth_command option \<Rightarrow> tpms_auth_response \<Rightarrow>
   (32 word \<times> tpms_auth_response \<times> 's tpm) option" where
  "TPM2_DictionaryAttackLockReset P st lockHandle authCommand authResponse =
     command P st (session_tag authCommand) 0x00000139
       (\<lambda>inb. do { inb \<leftarrow> TPMBufPackU32 inb lockHandle; pack_auth inb authCommand })
       authResponse (only_auth_response P authCommand)"

definition TPM2_DictionaryAttackParameters ::
  "'s tcg2_protocol \<Rightarrow> 's tpm \<Rightarrow> 32 word \<Rightarrow> tpms_auth_command option \<Rightarrow> 32 word \<Rightarrow> 32 word \<Rightarrow> 32 word \<Rightarrow> tpms_auth_response \<Rightarrow>
   (32 word \<times> tpms_auth_response \<times> 's tpm) option" where
  "TPM2_DictionaryAttackParameters P st lockHandle authCommand newMaxTries newRecoveryTime lockoutRecovery authResponse =
     command P st (session_tag authCommand) 0x0000013a
       (\<lambda>inb. do {
          inb \<leftarrow> TPMBufPackU32 inb lockHandle;
          inb \<leftarrow> pack_auth inb authCommand;
          inb \<leftarrow> TPMBufPackU32 inb newMaxTries;
          inb \<leftarrow> TPMBufPackU32 inb newRecoveryTime;
          TPMBufPackU32 inb lockoutRecovery
        })
       authResponse (only_auth_response P authCommand)"

definition TPM2_CreatePrimary ::
  "'s tcg2_protocol \<Rightarrow> 's tpm \<Rightarrow> 32 word \<Rightarrow> tpms_auth_command option \<Rightarrow> tpm2b_sensitive_create option \<Rightarrow> tpm2b_public option \<Rightarrow>
   tpm2b \<Rightarrow> tpml_pcr_selection \<Rightarrow> 32 word \<Rightarrow>
   (32 word \<times> (32 word \<times> tpm2b_public \<times> tpm2b \<times> tpm2b \<times> tpmt_tk \<times> tpm2b \<times> tpms_auth_response) \<times> 's tpm) option" where
  "TPM2_CreatePrimary P st primaryHandle authCommand inSensitive inPublic outsideInfo creationPCR objectHandle =
     command P st (session_tag authCommand) 0x00000131
       (\<lambda>inb. do {
          inb \<leftarrow> TPMBufPackU32 inb primaryHandle;
          inb \<leftarrow> pack_auth inb authCommand;
          inb \<leftarrow> Pack_TPM2B_SENSITIVE_CREATE inb inSensitive;
          inb \<leftarrow> Pack_TPM2B_PUBLIC inb inPublic;
          inb \<leftarrow> Pack_TPM2B inb (b_size outsideInfo) (b_buffer outsideInfo);
          Pack_TPML_PCR_SELECTION inb creationPCR
        })
       (objectHandle, zero_public, zero_2b TPM2B_CREATION_DATA_CAP, zero_2b TPM2B_DIGEST_CAP, zero_tk, zero_2b TPM2B_NAME_CAP,
        zero_auth_response)
       (\<lambda>(objectHandle, outPublic, creationData, creationHash, creationTicket, name, authResponse) outb. do {
          (objectHandle, outb) \<leftarrow> into (TPMBufUnpackU32 outb) objectHandle;
          outb \<leftarrow> parameter_size authCommand outb;
          (outPublic, outb) \<leftarrow> Unpack_TPM2B_PUBLIC outb outPublic;
          (creationData, outb) \<leftarrow> Unpack_TPM2B outb creationData;
          (creationHash, outb) \<leftarrow> Unpack_TPM2B outb creationHash;
          (creationTicket, outb) \<leftarrow> Unpack_TPMT_TK_CREATION outb creationTicket;
          (name, outb) \<leftarrow> Unpack_TPM2B outb name;
          (authResponse, outb) \<leftarrow> auth_response P authCommand outb authResponse;
          Some ((objectHandle, outPublic, creationData, creationHash, creationTicket, name, authResponse), outb)
        })"

definition TPM2_FlushContext :: "'s tcg2_protocol \<Rightarrow> 's tpm \<Rightarrow> 32 word \<Rightarrow> (32 word \<times> unit \<times> 's tpm) option" where
  "TPM2_FlushContext P st flushHandle =
     command P st TPM_ST_NO_SESSIONS 0x00000165 (\<lambda>inb. TPMBufPackU32 inb flushHandle) () (\<lambda>u outb. Some (u, outb))"

definition TPM2_StartAuthSession ::
  "'s tcg2_protocol \<Rightarrow> 's tpm \<Rightarrow> 32 word \<Rightarrow> 32 word \<Rightarrow> tpms_auth_command option \<Rightarrow> tpm2b \<Rightarrow> tpm2b \<Rightarrow> byte \<Rightarrow>
   tpmt_sym_def_object \<Rightarrow> 16 word \<Rightarrow> (32 word \<times> (32 word \<times> tpm2b \<times> tpms_auth_response) \<times> 's tpm) option" where
  "TPM2_StartAuthSession P st tpmKey bindHandle authCommand nonceCaller encryptedSalt sessionType symmetric authHash =
     command P st (session_tag authCommand) 0x00000176
       (\<lambda>inb. do {
          inb \<leftarrow> TPMBufPackU32 inb tpmKey;
          inb \<leftarrow> TPMBufPackU32 inb bindHandle;
          inb \<leftarrow> pack_auth inb authCommand;
          inb \<leftarrow> Pack_TPM2B inb (b_size nonceCaller) (b_buffer nonceCaller);
          inb \<leftarrow> Pack_TPM2B inb (b_size encryptedSalt) (b_buffer encryptedSalt);
          inb \<leftarrow> TPMBufPackU8 inb sessionType;
          inb \<leftarrow> Pack_TPMT_SYM_DEF inb symmetric;
          TPMBufPackU16 inb authHash
        })
       (0, zero_2b TPM2B_DIGEST_CAP, zero_auth_response)
       (\<lambda>(sessionHandle, nonceTPM, authResponse) outb. do {
          (sessionHandle, outb) \<leftarrow> into (TPMBufUnpackU32 outb) sessionHandle;
          outb \<leftarrow> parameter_size authCommand outb;
          (nonceTPM, outb) \<leftarrow> Unpack_TPM2B outb nonceTPM;
          (authResponse, outb) \<leftarrow> auth_response P authCommand outb authResponse;
          Some ((sessionHandle, nonceTPM, authResponse), outb)
        })"

definition TPM2_PolicyPassword ::
  "'s tcg2_protocol \<Rightarrow> 's tpm \<Rightarrow> 32 word \<Rightarrow> tpms_auth_command option \<Rightarrow> (32 word \<times> tpms_auth_response \<times> 's tpm) option" where
  "TPM2_PolicyPassword P st policySession authCommand =
     command P st (session_tag authCommand) 0x0000018c
       (\<lambda>inb. do { inb \<leftarrow> TPMBufPackU32 inb policySession; pack_auth inb authCommand })
       zero_auth_response (only_auth_response P authCommand)"

definition TPM2_PolicyPCR ::
  "'s tcg2_protocol \<Rightarrow> 's tpm \<Rightarrow> 32 word \<Rightarrow> tpms_auth_command option \<Rightarrow> tpm2b \<Rightarrow> tpml_pcr_selection \<Rightarrow>
   (32 word \<times> tpms_auth_response \<times> 's tpm) option" where
  "TPM2_PolicyPCR P st policySession authCommand pcrDigest pcrs =
     command P st (session_tag authCommand) 0x0000017f
       (\<lambda>inb. do {
          inb \<leftarrow> TPMBufPackU32 inb policySession;
          inb \<leftarrow> pack_auth inb authCommand;
          inb \<leftarrow> Pack_TPM2B inb (b_size pcrDigest) (b_buffer pcrDigest);
          Pack_TPML_PCR_SELECTION inb pcrs
        })
       zero_auth_response (only_auth_response P authCommand)"

definition TPM2_Hash ::
  "'s tcg2_protocol \<Rightarrow> 's tpm \<Rightarrow> tpms_auth_command option \<Rightarrow> tpm2b \<Rightarrow> 16 word \<Rightarrow> 32 word \<Rightarrow>
   (32 word \<times> (tpm2b \<times> tpmt_tk \<times> tpms_auth_response) \<times> 's tpm) option" where
  "TPM2_Hash P st authCommand data hashAlg hierarchy =
     command P st (session_tag authCommand) 0x0000017d
       (\<lambda>inb. do {
          inb \<leftarrow> pack_auth inb authCommand;
          inb \<leftarrow> Pack_TPM2B inb (b_size data) (b_buffer data);
          inb \<leftarrow> TPMBufPackU16 inb hashAlg;
          TPMBufPackU32 inb hierarchy
        })
       (zero_2b TPM2B_DIGEST_CAP, zero_tk, zero_auth_response)
       (\<lambda>(outHash, validation, authResponse) outb. do {
          outb \<leftarrow> parameter_size authCommand outb;
          (outHash, outb) \<leftarrow> Unpack_TPM2B outb outHash;
          (validation, outb) \<leftarrow> Unpack_TPMT_TK_HASHCHECK outb validation;
          (authResponse, outb) \<leftarrow> auth_response P authCommand outb authResponse;
          Some ((outHash, validation, authResponse), outb)
        })"

definition TPM2_PolicyGetDigest ::
  "'s tcg2_protocol \<Rightarrow> 's tpm \<Rightarrow> 32 word \<Rightarrow> tpms_auth_command option \<Rightarrow> (32 word \<times> (tpm2b \<times> tpms_auth_response) \<times> 's tpm) option" where
  "TPM2_PolicyGetDigest P st policySession authCommand =
     command P st (session_tag authCommand) 0x00000189
       (\<lambda>inb. do { inb \<leftarrow> TPMBufPackU32 inb policySession; pack_auth inb authCommand })
       (zero_2b TPM2B_DIGEST_CAP, zero_auth_response)
       (\<lambda>(policyDigest, authResponse) outb. do {
          outb \<leftarrow> parameter_size authCommand outb;
          (policyDigest, outb) \<leftarrow> Unpack_TPM2B outb policyDigest;
          (authResponse, outb) \<leftarrow> auth_response P authCommand outb authResponse;
          Some ((policyDigest, authResponse), outb)
        })"

definition TPM2_Create ::
  "'s tcg2_protocol \<Rightarrow> 's tpm \<Rightarrow> 32 word \<Rightarrow> tpms_auth_command option \<Rightarrow> tpm2b_sensitive_create option \<Rightarrow> tpm2b_public option \<Rightarrow>
   tpm2b \<Rightarrow> tpml_pcr_selection \<Rightarrow>
   (32 word \<times> (tpm2b \<times> tpm2b_public \<times> tpm2b \<times> tpm2b \<times> tpmt_tk \<times> tpms_auth_response) \<times> 's tpm) option" where
  "TPM2_Create P st parentHandle authCommand inSensitive inPublic outsideInfo creationPCR =
     command P st (session_tag authCommand) 0x00000153
       (\<lambda>inb. do {
          inb \<leftarrow> TPMBufPackU32 inb parentHandle;
          inb \<leftarrow> pack_auth inb authCommand;
          inb \<leftarrow> Pack_TPM2B_SENSITIVE_CREATE inb inSensitive;
          inb \<leftarrow> Pack_TPM2B_PUBLIC inb inPublic;
          inb \<leftarrow> Pack_TPM2B inb (b_size outsideInfo) (b_buffer outsideInfo);
          Pack_TPML_PCR_SELECTION inb creationPCR
        })
       (zero_2b TPM2B_PRIVATE_CAP, zero_public, zero_2b TPM2B_CREATION_DATA_CAP, zero_2b TPM2B_DIGEST_CAP, zero_tk, zero_auth_response)
       (\<lambda>(outPrivate, outPublic, creationData, creationHash, creationTicket, authResponse) outb. do {
          outb \<leftarrow> parameter_size authCommand outb;
          (outPrivate, outb) \<leftarrow> Unpack_TPM2B outb outPrivate;
          (outPublic, outb) \<leftarrow> Unpack_TPM2B_PUBLIC outb outPublic;
          (creationData, outb) \<leftarrow> Unpack_TPM2B outb creationData;
          (creationHash, outb) \<leftarrow> Unpack_TPM2B outb creationHash;
          (creationTicket, outb) \<leftarrow> Unpack_TPMT_TK_CREATION outb creationTicket;
          (authResponse, outb) \<leftarrow> auth_response P authCommand outb authResponse;
          Some ((outPrivate, outPublic, creationData, creationHash, creationTicket, authResponse), outb)
        })"

text \<open>An object handle, a name and an authorisation response.\<close>

definition handle_name_response ::
  "'s tcg2_protocol \<Rightarrow> tpms_auth_command option \<Rightarrow> 32 word \<times> tpm2b \<times> tpms_auth_response \<Rightarrow> tpmbuf \<Rightarrow>
   ((32 word \<times> tpm2b \<times> tpms_auth_response) \<times> tpmbuf) option" where
  "handle_name_response P authCommand = (\<lambda>(objectHandle, name, authResponse) outb. do {
     (objectHandle, outb) \<leftarrow> into (TPMBufUnpackU32 outb) objectHandle;
     outb \<leftarrow> parameter_size authCommand outb;
     (name, outb) \<leftarrow> Unpack_TPM2B outb name;
     (authResponse, outb) \<leftarrow> auth_response P authCommand outb authResponse;
     Some ((objectHandle, name, authResponse), outb)
   })"

definition TPM2_Load ::
  "'s tcg2_protocol \<Rightarrow> 's tpm \<Rightarrow> 32 word \<Rightarrow> tpms_auth_command option \<Rightarrow> tpm2b \<Rightarrow> tpm2b_public option \<Rightarrow>
   (32 word \<times> (32 word \<times> tpm2b \<times> tpms_auth_response) \<times> 's tpm) option" where
  "TPM2_Load P st parentHandle authCommand inPrivate inPublic =
     command P st (session_tag authCommand) 0x00000157
       (\<lambda>inb. do {
          inb \<leftarrow> TPMBufPackU32 inb parentHandle;
          inb \<leftarrow> pack_auth inb authCommand;
          inb \<leftarrow> Pack_TPM2B inb (b_size inPrivate) (b_buffer inPrivate);
          Pack_TPM2B_PUBLIC inb inPublic
        })
       (0, zero_2b TPM2B_NAME_CAP, zero_auth_response)
       (handle_name_response P authCommand)"

definition TPM2_Unseal ::
  "'s tcg2_protocol \<Rightarrow> 's tpm \<Rightarrow> 32 word \<Rightarrow> tpms_auth_command option \<Rightarrow> (32 word \<times> (tpm2b \<times> tpms_auth_response) \<times> 's tpm) option" where
  "TPM2_Unseal P st itemHandle authCommand =
     command P st (session_tag authCommand) 0x0000015e
       (\<lambda>inb. do { inb \<leftarrow> TPMBufPackU32 inb itemHandle; pack_auth inb authCommand })
       (zero_2b MAX_SYM_DATA, zero_auth_response)
       (\<lambda>(outData, authResponse) outb. do {
          outb \<leftarrow> parameter_size authCommand outb;
          (outData, outb) \<leftarrow> Unpack_TPM2B outb outData;
          (authResponse, outb) \<leftarrow> auth_response P authCommand outb authResponse;
          Some ((outData, authResponse), outb)
        })"

definition TPM2_PCR_Extend ::
  "'s tcg2_protocol \<Rightarrow> 's tpm \<Rightarrow> 32 word \<Rightarrow> tpms_auth_command option \<Rightarrow> tpml_digest_values \<Rightarrow>
   (32 word \<times> tpms_auth_response \<times> 's tpm) option" where
  "TPM2_PCR_Extend P st pcrHandle authCommand digests =
     command P st (session_tag authCommand) 0x00000182
       (\<lambda>inb. do {
          inb \<leftarrow> TPMBufPackU32 inb pcrHandle;
          inb \<leftarrow> pack_auth inb authCommand;
          Pack_TPML_DIGEST_VALUES inb digests
        })
       zero_auth_response (only_auth_response P authCommand)"

definition TPM2_EncryptDecrypt ::
  "'s tcg2_protocol \<Rightarrow> 's tpm \<Rightarrow> 32 word \<Rightarrow> tpms_auth_command option \<Rightarrow> byte \<Rightarrow> 16 word \<Rightarrow> tpm2b \<Rightarrow> tpm2b \<Rightarrow> tpm2b \<Rightarrow> tpm2b \<Rightarrow>
   (32 word \<times> (tpm2b \<times> tpm2b \<times> tpms_auth_response) \<times> 's tpm) option" where
  "TPM2_EncryptDecrypt P st keyHandle authCommand decrypt mode ivIn inData outData ivOut =
     command P st (session_tag authCommand) 0x00000164
       (\<lambda>inb. do {
          inb \<leftarrow> TPMBufPackU32 inb keyHandle;
          inb \<leftarrow> pack_auth inb authCommand;
          inb \<leftarrow> TPMBufPackU8 inb decrypt;
          inb \<leftarrow> TPMBufPackU16 inb mode;
          inb \<leftarrow> Pack_TPM2B inb (b_size ivIn) (b_buffer ivIn);
          Pack_TPM2B inb (b_size inData) (b_buffer inData)
        })
       (outData, ivOut, zero_auth_response)
       (\<lambda>(outData, ivOut, authResponse) outb. do {
          outb \<leftarrow> parameter_size authCommand outb;
          (outData, outb) \<leftarrow> Unpack_TPM2B outb outData;
          (ivOut, outb) \<leftarrow> Unpack_TPM2B outb ivOut;
          (authResponse, outb) \<leftarrow> auth_response P authCommand outb authResponse;
          Some ((outData, ivOut, authResponse), outb)
        })"

definition TPM2_LoadExternal ::
  "'s tcg2_protocol \<Rightarrow> 's tpm \<Rightarrow> tpms_auth_command option \<Rightarrow> tpmt_sensitive \<Rightarrow> tpm2b_public option \<Rightarrow> 32 word \<Rightarrow>
   (32 word \<times> (32 word \<times> tpm2b \<times> tpms_auth_response) \<times> 's tpm) option" where
  "TPM2_LoadExternal P st authCommand inPrivate inPublic hierarchy =
     command P st (session_tag authCommand) 0x00000167
       (\<lambda>inb. do {
          inb \<leftarrow> pack_auth inb authCommand;
          inb \<leftarrow> Pack_TPM2B_SENSITIVE inb inPrivate;
          inb \<leftarrow> Pack_TPM2B_PUBLIC inb inPublic;
          TPMBufPackU32 inb hierarchy
        })
       (0, zero_2b TPM2B_NAME_CAP, zero_auth_response)
       (handle_name_response P authCommand)"

definition TPM2_HashSequenceStart ::
  "'s tcg2_protocol \<Rightarrow> 's tpm \<Rightarrow> tpms_auth_command option \<Rightarrow> tpm2b \<Rightarrow> 16 word \<Rightarrow>
   (32 word \<times> (32 word \<times> tpms_auth_response) \<times> 's tpm) option" where
  "TPM2_HashSequenceStart P st authCommand auth hashAlg =
     command P st (session_tag authCommand) 0x00000186
       (\<lambda>inb. do {
          inb \<leftarrow> pack_auth inb authCommand;
          inb \<leftarrow> Pack_TPM2B inb (b_size auth) (b_buffer auth);
          TPMBufPackU16 inb hashAlg
        })
       (0, zero_auth_response)
       (\<lambda>(sequenceHandle, authResponse) outb. do {
          outb \<leftarrow> parameter_size authCommand outb;
          (sequenceHandle, outb) \<leftarrow> into (TPMBufUnpackU32 outb) sequenceHandle;
          (authResponse, outb) \<leftarrow> auth_response P authCommand outb authResponse;
          Some ((sequenceHandle, authResponse), outb)
        })"

definition TPM2_SequenceUpdate ::
  "'s tcg2_protocol \<Rightarrow> 's tpm \<Rightarrow> 32 word \<Rightarrow> tpms_auth_command option \<Rightarrow> tpm2b \<Rightarrow> tpms_auth_response \<Rightarrow>
   (32 word \<times> tpms_auth_response \<times> 's tpm) option" where
  "TPM2_SequenceUpdate P st sequenceHandle authCommand buffer authResponse =
     command P st (session_tag authCommand) 0x0000015c
       (\<lambda>inb. do {
          inb \<leftarrow> TPMBufPackU32 inb sequenceHandle;
          inb \<leftarrow> pack_auth inb authCommand;
          Pack_TPM2B inb (b_size buffer) (b_buffer buffer)
        })
       authResponse (only_auth_response P authCommand)"

definition TPM2_SequenceComplete ::
  "'s tcg2_protocol \<Rightarrow> 's tpm \<Rightarrow> 32 word \<Rightarrow> tpms_auth_command option \<Rightarrow> tpm2b \<Rightarrow> 32 word \<Rightarrow>
   (32 word \<times> (tpm2b \<times> tpmt_tk \<times> tpms_auth_response) \<times> 's tpm) option" where
  "TPM2_SequenceComplete P st sequenceHandle authCommand buffer hierarchy =
     command P st (session_tag authCommand) 0x0000013e
       (\<lambda>inb. do {
          inb \<leftarrow> TPMBufPackU32 inb sequenceHandle;
          inb \<leftarrow> pack_auth inb authCommand;
          inb \<leftarrow> Pack_TPM2B inb (b_size buffer) (b_buffer buffer);
          TPMBufPackU32 inb hierarchy
        })
       (zero_2b TPM2B_DIGEST_CAP, zero_tk, zero_auth_response)
       (\<lambda>(result, validation, authResponse) outb. do {
          outb \<leftarrow> parameter_size authCommand outb;
          (result, outb) \<leftarrow> Unpack_TPM2B_DIGEST outb result;
          (validation, outb) \<leftarrow> Unpack_TPMT_TK_HASHCHECK outb validation;
          (authResponse, outb) \<leftarrow> auth_response P authCommand outb authResponse;
          Some ((result, validation, authResponse), outb)
        })"

text \<open>\<open>TPM2_ReadPublic\<close> neither tests the flag of its request buffer nor packs its authorisation.\<close>

definition TPM2_ReadPublic ::
  "'s tcg2_protocol \<Rightarrow> 's tpm \<Rightarrow> 32 word \<Rightarrow> tpms_auth_command option \<Rightarrow> tpm2b_public \<Rightarrow> (32 word \<times> tpm2b_public \<times> 's tpm) option" where
  "TPM2_ReadPublic P st objectHandle authCommand outPublic =
     do {
       inb \<leftarrow> TPMBufPackU32 TPMBufInit objectHandle;
       (r, st) \<leftarrow> submit_request P st (session_tag authCommand) 0x00000173 inb;
       (case r of
          Inl rc \<Rightarrow> Some (rc, outPublic, st)
        | Inr outb \<Rightarrow>
            do {
              outb \<leftarrow> parameter_size authCommand outb;
              (outPublic, outb) \<leftarrow> Unpack_TPM2B_PUBLIC outb outPublic;
              Some (if tb_error outb \<noteq> 0 then TPM_RC_FAILURE else TPM_RC_SUCCESS, outPublic, st)
            })
     }"

end
