(* ===== verification/Tpm2Seal.thy ===== *)
theory Tpm2Seal
  imports Tpm2Commands Sha
begin

text \<open>
  Sealing data to the platform configuration registers (\<open>lsvmutils/tpm2.c\<close>, the \<open>TPM2X_\<close>
  functions): policies, the storage root key, sealing and unsealing, reading, extending and
  capping registers. The hash library is the parameter \<open>sha_lib\<close> of the digests; local
  variables that the code leaves uninitialised are arguments. The text put into \<open>Error\<close> is
  not modelled.
\<close>

subsection \<open>Lockout and properties\<close>

definition password_session :: tpms_auth_command where
  "password_session = zero_auth_command\<lparr>ac_sessionHandle := TPM_RS_PW\<rparr>"

definition TPM2X_SetLockoutParams :: "'s tcg2_protocol \<Rightarrow> 's tpm \<Rightarrow> tpms_auth_response \<Rightarrow> (32 word \<times> 's tpm) option" where
  "TPM2X_SetLockoutParams P st stack =
     do {
       (rc, authResponse, st) \<leftarrow> TPM2_DictionaryAttackParameters P st TPM_RH_LOCKOUT (Some password_session) 1000000 1 1 stack;
       Some (rc, st)
     }"

definition TPM2X_SetDictionaryAttackLockReset :: "'s tcg2_protocol \<Rightarrow> 's tpm \<Rightarrow> tpms_auth_response \<Rightarrow> (32 word \<times> 's tpm) option" where
  "TPM2X_SetDictionaryAttackLockReset P st stack =
     do {
       (rc, authResponse, st) \<leftarrow> TPM2_DictionaryAttackLockReset P st TPM_RH_LOCKOUT (Some password_session) stack;
       Some (rc, st)
     }"

text \<open>\<open>TPM2X_GetTPMRevision\<close> and \<open>TPM2X_GetPCRCount\<close> ask for one property each; the result is
  \<open>None\<close> in the second component where nothing is stored.\<close>

definition get_property ::
  "'s tcg2_protocol \<Rightarrow> 's tpm \<Rightarrow> 32 word \<Rightarrow> tpms_capability_data \<Rightarrow> (32 word \<times> 32 word option \<times> 's tpm) option" where
  "get_property P st wanted data =
     do {
       (rc, (more', data, ar), st) \<leftarrow> TPM2_GetCapability P st None TPM_CAP_TPM_PROPERTIES wanted 1 0 data zero_auth_response;
       if rc \<noteq> TPM_RC_SUCCESS then Some (rc, None, st)
       else if cd_count data \<noteq> 1 then Some (TPM_RC_FAILURE, None, st)
       else (case cd_tpmProperty data of
           [] \<Rightarrow> None
         | property # _ \<Rightarrow>
             if tp_property property \<noteq> wanted then Some (TPM_RC_FAILURE, None, st)
             else Some (TPM_RC_SUCCESS, Some (tp_value property), st))
     }"

definition TPM2X_GetTPMRevision ::
  "'s tcg2_protocol \<Rightarrow> 's tpm \<Rightarrow> tpms_capability_data \<Rightarrow> (32 word \<times> 32 word option \<times> 's tpm) option" where
  "TPM2X_GetTPMRevision P st stack = get_property P st TPM_PT_REVISION stack"

definition TPM2X_GetPCRCount ::
  "'s tcg2_protocol \<Rightarrow> 's tpm \<Rightarrow> tpms_capability_data \<Rightarrow> (32 word \<times> 32 word option \<times> 's tpm) option" where
  "TPM2X_GetPCRCount P st stack = get_property P st TPM_PT_PCR_COUNT stack"

definition TPM2X_Hash ::
  "'s tcg2_protocol \<Rightarrow> 's tpm \<Rightarrow> 16 word \<Rightarrow> bytes \<Rightarrow> 16 word \<Rightarrow> bytes \<Rightarrow> tpm2b \<Rightarrow> (32 word \<times> tpm2b \<times> 's tpm) option" where
  "TPM2X_Hash P st hashAlg data sz stack result =
     (if unat sz > MAX_DIGEST_BUFFER then Some (TPM_RC_SIZE, result, st)
      else do {
        d \<leftarrow> load 0 (unat sz) data;
        buffer \<leftarrow> store 0 d stack;
        (rc, (outHash, validation, ar), st) \<leftarrow> TPM2_Hash P st None \<lparr>b_size = sz, b_buffer = buffer\<rparr> hashAlg TPM_RH_NULL;
        Some (rc, outHash, st)
      })"

subsection \<open>Policies\<close>

definition TPM2X_StartAuthSession ::
  "'s tcg2_protocol \<Rightarrow> 's tpm \<Rightarrow> bool \<Rightarrow> 16 word \<Rightarrow> 32 word \<Rightarrow> (32 word \<times> 32 word \<times> 's tpm) option" where
  "TPM2X_StartAuthSession P st trial alg policySession =
     (if alg \<noteq> TPM_ALG_SHA1 \<and> alg \<noteq> TPM_ALG_SHA256 then Some (TPM_RC_FAILURE, policySession, st)
      else do {
        let nonceCaller = (zero_2b TPM2B_DIGEST_CAP)\<lparr>b_size := (if alg = TPM_ALG_SHA1 then 20 else 32)\<rparr>;
        (rc, (sessionHandle, nonceTPM, ar), st) \<leftarrow>
          TPM2_StartAuthSession P st TPM_RH_NULL TPM_RH_NULL None nonceCaller (zero_2b 256) (if trial then 3 else 1)
            (zero_sym\<lparr>sym_algorithm := TPM_ALG_NULL\<rparr>) alg;
        Some (rc, sessionHandle, st)
      })"

text \<open>A register beyond the selection array is a write outside it.\<close>

definition SelectPCR :: "tpms_pcr_selection \<Rightarrow> nat \<Rightarrow> tpms_pcr_selection option" where
  "SelectPCR self n =
     (if n div 8 < length (sel_pcrSelect self)
      then Some (self\<lparr>sel_pcrSelect := (sel_pcrSelect self)[n div 8 := (sel_pcrSelect self ! (n div 8)) OR push_bit (n mod 8) 1]\<rparr>)
      else None)"

text \<open>The registers of a mask: \<open>for (i = 0; i < MAX_PCRS; i++) if (pcrMask & (1 << i)) ...\<close>\<close>

definition masked_pcrs :: "32 word \<Rightarrow> nat list" where
  "masked_pcrs pcrMask = filter (\<lambda>i. pcrMask AND push_bit i 1 \<noteq> 0) [0..<MAX_PCRS]"

fun select_pcrs :: "tpms_pcr_selection \<Rightarrow> nat list \<Rightarrow> tpms_pcr_selection option" where
  "select_pcrs self [] = Some self"
| "select_pcrs self (i # is) = do { self \<leftarrow> SelectPCR self i; select_pcrs self is }"

text \<open>A list with one selection, of three bytes, in the given bank.\<close>

definition one_selection :: "16 word \<Rightarrow> nat list \<Rightarrow> tpml_pcr_selection option" where
  "one_selection hashAlg is =
     (let z = zero_pcr_selection
      in do {
           s \<leftarrow> select_pcrs ((pl_pcrSelections z ! 0)\<lparr>sel_sizeofSelect := 3, sel_hash := hashAlg\<rparr>) is;
           Some (z\<lparr>pl_count := 1, pl_pcrSelections := (pl_pcrSelections z)[0 := s]\<rparr>)
         })"

text \<open>The predicted values: the \<open>n\<close>-th selected register goes into the \<open>n\<close>-th of eight digests.\<close>

fun predicted_digests :: "tpm2b list \<Rightarrow> nat \<Rightarrow> bytes list \<Rightarrow> nat list \<Rightarrow> tpm2b list option" where
  "predicted_digests ds n pcrs [] = Some ds"
| "predicted_digests ds n pcrs (i # is) =
     (if n < length ds \<and> i < length pcrs then
        do {
          d \<leftarrow> load 0 32 (pcrs ! i);
          buffer \<leftarrow> store 0 d (b_buffer (ds ! n));
          predicted_digests (ds[n := \<lparr>b_size = 32, b_buffer = buffer\<rparr>]) (n + 1) pcrs is
        }
      else None)"

text \<open>The bytes of the first \<open>n\<close> digests, collected in an array of 1024 bytes.\<close>

fun gather_digests :: "tpm2b list \<Rightarrow> nat \<Rightarrow> nat \<Rightarrow> bytes option" where
  "gather_digests ds i 0 = Some []"
| "gather_digests ds i (Suc n) =
     (if i < length ds then
        do { d \<leftarrow> load 0 (unat (b_size (ds ! i))) (b_buffer (ds ! i)); ds' \<leftarrow> gather_digests ds (i + 1) n; Some (d @ ds') }
      else None)"

text \<open>When the digest of the registers cannot be computed the code returns the code of the last
  successful command.\<close>

definition TPM2X_BuildPolicy ::
  "'s tcg2_protocol \<Rightarrow> 'c sha_lib \<Rightarrow> 's tpm \<Rightarrow> 32 word \<Rightarrow> bool \<Rightarrow> 32 word \<Rightarrow> bytes list \<Rightarrow> 16 word \<Rightarrow> (32 word \<times> 's tpm) option" where
  "TPM2X_BuildPolicy P L st policySession predictive pcrMask pcrs hashAlg =
     (if hashAlg \<noteq> TPM_ALG_SHA1 \<and> hashAlg \<noteq> TPM_ALG_SHA256 then Some (TPM_RC_FAILURE, st)
      else do {
        (rc, ar, st) \<leftarrow> TPM2_PolicyPassword P st policySession None;
        if rc \<noteq> TPM_RC_SUCCESS then Some (rc, st)
        else do {
          let is = masked_pcrs pcrMask;
          let npcrs = length is;
          pcrSelectionIn \<leftarrow> one_selection hashAlg is;
          (rc, pcrValues, st) \<leftarrow>
            (if predictive then
               do { ds \<leftarrow> predicted_digests (dl_digests zero_digests) 0 pcrs is;
                    Some (rc, \<lparr>dl_count = of_nat npcrs, dl_digests = ds\<rparr>, st) }
             else
               do { (rc, (counter, sel, vals, ar), st) \<leftarrow>
                      TPM2_PCR_Read P st None pcrSelectionIn (0, zero_pcr_selection, zero_digests, zero_auth_response);
                    Some (rc, vals, st) });
          if rc \<noteq> TPM_RC_SUCCESS then Some (rc, st)
          else if dl_count pcrValues \<noteq> of_nat npcrs then Some (TPM_RC_FAILURE, st)
          else do {
            data \<leftarrow> gather_digests (dl_digests pcrValues) 0 npcrs;
            if length data > 1024 then None
            else (case (if hashAlg = TPM_ALG_SHA1 then ComputeSHA1 L data else ComputeSHA256 L data) of
                None \<Rightarrow> Some (rc, st)
              | Some digest \<Rightarrow>
                  do {
                    buffer \<leftarrow> store 0 digest (replicate TPM2B_DIGEST_CAP 0);
                    let pcrDigest = \<lparr>b_size = (if hashAlg = TPM_ALG_SHA1 then 20 else 32), b_buffer = buffer\<rparr>;
                    (rc, ar, st) \<leftarrow> TPM2_PolicyPCR P st policySession None pcrDigest pcrSelectionIn;
                    Some (rc, st)
                  })
          }
        }
      })"

subsection \<open>The storage root key\<close>

text \<open>Bits 1, 4, 5, 6, 10, 16 and 17: fixedTPM, fixedParent, sensitiveDataOrigin, userWithAuth, noDA,
  restricted, decrypt.\<close>

definition srk_public :: tpm2b_public where
  "srk_public = zero_public\<lparr>bp_publicArea := (bp_publicArea zero_public)\<lparr>
     pub_objectAttributes := push_bit 16 1 OR push_bit 6 1 OR push_bit 17 1 OR push_bit 1 1 OR push_bit 4 1 OR push_bit 5 1 OR push_bit 10 1,
     pub_parameters := (pub_parameters (bp_publicArea zero_public))\<lparr>rsaDetail :=
       \<lparr>rsa_symmetric = \<lparr>sym_algorithm = TPM_ALG_AES, sym_keyBits = 128, sym_mode = TPM_ALG_CFB\<rparr>,
        rsa_scheme = TPM_ALG_NULL, rsa_keyBits = 2048, rsa_exponent = 0\<rparr>\<rparr>,
     pub_type := TPM_ALG_RSA, pub_nameAlg := TPM_ALG_SHA256\<rparr>\<rparr>"

definition TPM2X_CreateSRKKey :: "'s tcg2_protocol \<Rightarrow> 's tpm \<Rightarrow> 32 word \<Rightarrow> (32 word \<times> 32 word \<times> 's tpm) option" where
  "TPM2X_CreateSRKKey P st srkHandle =
     do {
       (rc, (srkHandle, outPublic, creationData, creationHash, creationTicket, srkName, ar), st) \<leftarrow>
         TPM2_CreatePrimary P st TPM_RH_OWNER (Some password_session) (Some zero_sensitive_create) (Some srk_public)
           (zero_2b TPM2B_DATA_CAP) zero_pcr_selection srkHandle;
       Some (rc, srkHandle, st)
     }"

subsection \<open>Sealing and unsealing\<close>

definition sealed_public :: "tpm2b \<Rightarrow> tpm2b_public" where
  "sealed_public policyDigest = zero_public\<lparr>bp_publicArea := (bp_publicArea zero_public)\<lparr>
     pub_type := TPM_ALG_KEYEDHASH, pub_nameAlg := TPM_ALG_SHA256,
     pub_parameters := (pub_parameters (bp_publicArea zero_public))\<lparr>keyedHashDetail :=
       (keyedHashDetail (pub_parameters (bp_publicArea zero_public)))\<lparr>kh_scheme := TPM_ALG_NULL\<rparr>\<rparr>,
     pub_authPolicy := policyDigest\<rparr>\<rparr>"

text \<open>What follows once the session is open, up to the label \<open>done\<close>: the return code, the blob.\<close>

definition seal_in_session ::
  "'s tcg2_protocol \<Rightarrow> 'c sha_lib \<Rightarrow> 's tpm \<Rightarrow> 32 word \<Rightarrow> 32 word \<Rightarrow> bool \<Rightarrow> 32 word \<Rightarrow> bytes list \<Rightarrow> bytes \<Rightarrow> 16 word \<Rightarrow>
   tpm2x_blob \<Rightarrow> 32 word \<Rightarrow> (32 word \<times> tpm2x_blob \<times> 's tpm) option" where
  "seal_in_session P L st policyHandle parentKey predictive pcrMask pcrs data sz blob rc =
     do {
       (rcPolicy, st) \<leftarrow> TPM2X_BuildPolicy P L st policyHandle predictive pcrMask pcrs TPM_ALG_SHA256;
       if rcPolicy \<noteq> TPM_RC_SUCCESS then Some (rc, blob, st)
       else do {
         (rc, (policyDigest, ar), st) \<leftarrow> TPM2_PolicyGetDigest P st policyHandle None;
         if rc \<noteq> TPM_RC_SUCCESS then Some (rc, blob, st)
         else do {
           d \<leftarrow> load 0 (unat sz) data;
           buffer \<leftarrow> store 0 d (replicate MAX_SYM_DATA 0);
           let inSensitive = zero_sensitive_create\<lparr>bsc_sensitive :=
             (bsc_sensitive zero_sensitive_create)\<lparr>sc_data := \<lparr>b_size = sz, b_buffer = buffer\<rparr>\<rparr>\<rparr>;
           creationPCR \<leftarrow> one_selection TPM_ALG_SHA256 (masked_pcrs pcrMask);
           (rc, (outPrivate, outPublic, creationData, creationHash, creationTicket, authResponse), st) \<leftarrow>
             TPM2_Create P st parentKey (Some password_session) (Some inSensitive) (Some (sealed_public policyDigest))
               (zero_2b TPM2B_DATA_CAP) creationPCR;
           if rc \<noteq> TPM_RC_SUCCESS then Some (rc, blob, st)
           else Some (rc, \<lparr>blob_private = outPrivate, blob_public = outPublic, blob_hash = creationHash,
             blob_pcr = \<lparr>ps_sizeofSelect = sel_sizeofSelect (pl_pcrSelections creationPCR ! 0),
                         ps_pcrSelect = sel_pcrSelect (pl_pcrSelections creationPCR ! 0)\<rparr>\<rparr>, st)
         }
       }
     }"

definition TPM2X_Seal ::
  "'s tcg2_protocol \<Rightarrow> 'c sha_lib \<Rightarrow> 's tpm \<Rightarrow> 32 word \<Rightarrow> bool \<Rightarrow> 32 word \<Rightarrow> bytes list \<Rightarrow> bytes \<Rightarrow> 16 word \<Rightarrow> tpm2x_blob \<Rightarrow> 32 word \<Rightarrow>
   (32 word \<times> tpm2x_blob \<times> 's tpm) option" where
  "TPM2X_Seal P L st parentKey predictive pcrMask pcrs data sz blob stack =
     (if unat sz > MAX_SYM_DATA then Some (TPM_RC_FAILURE, blob, st)
      else do {
        (rc, policyHandle, st) \<leftarrow> TPM2X_StartAuthSession P st True TPM_ALG_SHA256 stack;
        if rc \<noteq> TPM_RC_SUCCESS then Some (rc, blob, st)
        else do {
          (rc, blob, st) \<leftarrow> seal_in_session P L st policyHandle parentKey predictive pcrMask pcrs data sz blob rc;
          (rcFlush, u, st) \<leftarrow> TPM2_FlushContext P st policyHandle;
          Some (rc, blob, st)
        }
      })"

text \<open>Up to the label \<open>done\<close>: the return code, the outputs, the handles that are still open.\<close>

definition unseal_in_session ::
  "'s tcg2_protocol \<Rightarrow> 'c sha_lib \<Rightarrow> 's tpm \<Rightarrow> 32 word \<Rightarrow> 32 word \<Rightarrow> 32 word \<Rightarrow> tpm2x_blob \<Rightarrow> bytes \<Rightarrow> 16 word \<Rightarrow>
   (32 word \<times> bytes \<times> 16 word \<times> 32 word option \<times> 32 word option \<times> 's tpm) option" where
  "unseal_in_session P L st sessionHandle pcrMask parentKey blob data sz =
     do {
       (rc, st) \<leftarrow> TPM2X_BuildPolicy P L st sessionHandle False pcrMask [] (pub_nameAlg (bp_publicArea (blob_public blob)));
       if rc \<noteq> TPM_RC_SUCCESS then Some (rc, data, sz, Some sessionHandle, None, st)
       else do {
         (rc, (sealedBlobHandle, name, ar), st) \<leftarrow>
           TPM2_Load P st parentKey (Some password_session) (blob_private blob) (Some (blob_public blob));
         if rc \<noteq> TPM_RC_SUCCESS then Some (rc, data, sz, Some sessionHandle, None, st)
         else do {
           (rc, (outData, ar), st) \<leftarrow>
             TPM2_Unseal P st sealedBlobHandle (Some (zero_auth_command\<lparr>ac_sessionHandle := sessionHandle\<rparr>));
           if rc \<noteq> TPM_RC_SUCCESS then Some (rc, data, sz, Some sessionHandle, Some sealedBlobHandle, st)
           else do {
             d \<leftarrow> load 0 (unat (b_size outData)) (b_buffer outData);
             data \<leftarrow> store 0 d data;
             Some (rc, data, b_size outData, None, Some sealedBlobHandle, st)
           }
         }
       }
     }"

definition flush_handle :: "'s tcg2_protocol \<Rightarrow> 's tpm \<Rightarrow> 32 word option \<Rightarrow> 's tpm option" where
  "flush_handle P st handle =
     (case handle of None \<Rightarrow> Some st | Some h \<Rightarrow> do { (rc, u, st) \<leftarrow> TPM2_FlushContext P st h; Some st })"

definition TPM2X_Unseal ::
  "'s tcg2_protocol \<Rightarrow> 'c sha_lib \<Rightarrow> 's tpm \<Rightarrow> 32 word \<Rightarrow> 32 word \<Rightarrow> tpm2x_blob \<Rightarrow> bytes \<Rightarrow> 16 word \<Rightarrow>
   (32 word \<times> bytes \<times> 16 word \<times> 's tpm) option" where
  "TPM2X_Unseal P L st pcrMask parentKey blob data sz =
     (let hashAlg = pub_nameAlg (bp_publicArea (blob_public blob))
      in if hashAlg \<noteq> TPM_ALG_SHA1 \<and> hashAlg \<noteq> TPM_ALG_SHA256 then Some (TPM_RC_FAILURE, data, sz, st)
         else do {
           (rc, sessionHandle, st) \<leftarrow> TPM2X_StartAuthSession P st False hashAlg 0;
           if rc \<noteq> TPM_RC_SUCCESS then Some (rc, data, sz, st)
           else do {
             (rc, data, sz, session, sealed, st) \<leftarrow> unseal_in_session P L st sessionHandle pcrMask parentKey blob data sz;
             st \<leftarrow> flush_handle P st session;
             st \<leftarrow> flush_handle P st sealed;
             Some (rc, data, sz, st)
           }
         })"

subsection \<open>Registers\<close>

definition one_digest :: "16 word \<Rightarrow> bytes \<Rightarrow> nat \<Rightarrow> tpml_digest_values option" where
  "one_digest hashAlg digest n =
     do {
       d \<leftarrow> load 0 n digest;
       buffer \<leftarrow> store 0 d (replicate 64 0);
       Some (zero_digest_values\<lparr>dv_count := 1,
         dv_digests := (dv_digests zero_digest_values)[0 := \<lparr>ha_hashAlg = hashAlg, ha_digest = buffer\<rparr>]\<rparr>)
     }"

definition TPM2X_ExtendPCR_SHA1 :: "'s tcg2_protocol \<Rightarrow> 's tpm \<Rightarrow> 32 word \<Rightarrow> bytes \<Rightarrow> (32 word \<times> 's tpm) option" where
  "TPM2X_ExtendPCR_SHA1 P st pcrHandle sha1In =
     do {
       digests \<leftarrow> one_digest TPM_ALG_SHA1 sha1In 20;
       (rc, ar, st) \<leftarrow> TPM2_PCR_Extend P st pcrHandle (Some password_session) digests;
       Some (rc, st)
     }"

definition TPM2X_ExtendPCR_SHA256 :: "'s tcg2_protocol \<Rightarrow> 's tpm \<Rightarrow> 32 word \<Rightarrow> bytes \<Rightarrow> (32 word \<times> 's tpm) option" where
  "TPM2X_ExtendPCR_SHA256 P st pcrHandle sha256In =
     do {
       digests \<leftarrow> one_digest TPM_ALG_SHA256 sha256In 32;
       (rc, ar, st) \<leftarrow> TPM2_PCR_Extend P st pcrHandle (Some password_session) digests;
       Some (rc, st)
     }"

text \<open>The result of hashing is not tested: \<open>sha1\<close> and \<open>sha256\<close> are the contents of the locals before.\<close>

definition TPM2X_Cap :: "'s tcg2_protocol \<Rightarrow> 'c sha_lib \<Rightarrow> 's tpm \<Rightarrow> 32 word \<Rightarrow> bytes \<Rightarrow> bytes \<Rightarrow> (32 word \<times> 's tpm) option" where
  "TPM2X_Cap P L st pcrHandle sha1 sha256 =
     do {
       digests \<leftarrow> one_digest TPM_ALG_SHA1 (case ComputeSHA1 L (replicate 20 0) of None \<Rightarrow> sha1 | Some d \<Rightarrow> d) 20;
       (rc, ar, st) \<leftarrow> TPM2_PCR_Extend P st pcrHandle (Some password_session) digests;
       if rc \<noteq> TPM_RC_SUCCESS then Some (rc, st)
       else do {
         digests \<leftarrow> one_digest TPM_ALG_SHA256 (case ComputeSHA256 L (replicate 20 0) of None \<Rightarrow> sha256 | Some d \<Rightarrow> d) 32;
         (rc, ar, st) \<leftarrow> TPM2_PCR_Extend P st pcrHandle (Some password_session) digests;
         Some (rc, st)
       }
     }"

text \<open>Reading one register; \<open>stack\<close> is what the uninitialised outputs of \<open>TPM2_PCR_Read\<close> hold.\<close>

definition read_pcr ::
  "'s tcg2_protocol \<Rightarrow> 's tpm \<Rightarrow> 16 word \<Rightarrow> nat \<Rightarrow> nat \<Rightarrow> 32 word \<times> tpml_pcr_selection \<times> tpml_digest \<Rightarrow> bytes \<Rightarrow>
   (32 word \<times> bytes \<times> 's tpm) option" where
  "read_pcr P st hashAlg n pcrNumber stack hash =
     do {
       pcrSelectionIn \<leftarrow> one_selection hashAlg [pcrNumber];
       let (counter, sel, vals) = stack;
       (rc, (counter, sel, vals, ar), st) \<leftarrow> TPM2_PCR_Read P st None pcrSelectionIn (counter, sel, vals, zero_auth_response);
       if rc \<noteq> TPM_RC_SUCCESS then Some (rc, hash, st)
       else if unat (b_size (dl_digests vals ! 0)) \<noteq> n then Some (TPM_RC_FAILURE, hash, st)
       else do {
         d \<leftarrow> load 0 n (b_buffer (dl_digests vals ! 0));
         hash \<leftarrow> store 0 d hash;
         Some (TPM_RC_SUCCESS, hash, st)
       }
     }"

definition TPM2X_ReadPCRSHA1 ::
  "'s tcg2_protocol \<Rightarrow> 's tpm \<Rightarrow> nat \<Rightarrow> 32 word \<times> tpml_pcr_selection \<times> tpml_digest \<Rightarrow> bytes \<Rightarrow> (32 word \<times> bytes \<times> 's tpm) option" where
  "TPM2X_ReadPCRSHA1 P st pcrNumber stack sha1 = read_pcr P st TPM_ALG_SHA1 20 pcrNumber stack sha1"

definition TPM2X_ReadPCRSHA256 ::
  "'s tcg2_protocol \<Rightarrow> 's tpm \<Rightarrow> nat \<Rightarrow> 32 word \<times> tpml_pcr_selection \<times> tpml_digest \<Rightarrow> bytes \<Rightarrow> (32 word \<times> bytes \<times> 's tpm) option" where
  "TPM2X_ReadPCRSHA256 P st pcrNumber stack sha256 = read_pcr P st TPM_ALG_SHA256 32 pcrNumber stack sha256"

text \<open>The three loops of \<open>TPM2X_CapAll\<close>. Both reading loops read register 0, whatever the index.\<close>

fun save_pcrs ::
  "'s tcg2_protocol \<Rightarrow> 's tpm \<Rightarrow> nat \<Rightarrow> 32 word \<times> tpml_pcr_selection \<times> tpml_digest \<Rightarrow> bytes \<Rightarrow> bytes \<Rightarrow>
   (32 word \<times> (bytes \<times> bytes) list \<times> 's tpm) option" where
  "save_pcrs P st 0 stack sha1 sha256 = Some (TPM_RC_SUCCESS, [], st)"
| "save_pcrs P st (Suc n) stack sha1 sha256 =
     do {
       (rc, s1, st) \<leftarrow> TPM2X_ReadPCRSHA1 P st 0 stack sha1;
       if rc \<noteq> TPM_RC_SUCCESS then Some (rc, [], st)
       else do {
         (rc, s256, st) \<leftarrow> TPM2X_ReadPCRSHA256 P st 0 stack sha256;
         if rc \<noteq> TPM_RC_SUCCESS then Some (rc, [], st)
         else do {
           (rc, saved, st) \<leftarrow> save_pcrs P st n stack s1 s256;
           Some (rc, (s1, s256) # saved, st)
         }
       }
     }"

fun cap_pcrs :: "'s tcg2_protocol \<Rightarrow> 'c sha_lib \<Rightarrow> 's tpm \<Rightarrow> nat list \<Rightarrow> bytes \<Rightarrow> bytes \<Rightarrow> (32 word \<times> 's tpm) option" where
  "cap_pcrs P L st [] sha1 sha256 = Some (TPM_RC_SUCCESS, st)"
| "cap_pcrs P L st (i # is) sha1 sha256 =
     do {
       (rc, st) \<leftarrow> TPM2X_Cap P L st (of_nat i) sha1 sha256;
       if rc \<noteq> TPM_RC_SUCCESS then Some (rc, st) else cap_pcrs P L st is sha1 sha256
     }"

fun check_pcrs ::
  "'s tcg2_protocol \<Rightarrow> 's tpm \<Rightarrow> (bytes \<times> bytes) list \<Rightarrow> 32 word \<times> tpml_pcr_selection \<times> tpml_digest \<Rightarrow> bytes \<Rightarrow> bytes \<Rightarrow>
   (32 word \<times> 's tpm) option" where
  "check_pcrs P st [] stack sha1 sha256 = Some (TPM_RC_SUCCESS, st)"
| "check_pcrs P st ((old1, old256) # saved) stack sha1 sha256 =
     do {
       (rc, s1, st) \<leftarrow> TPM2X_ReadPCRSHA1 P st 0 stack sha1;
       if rc \<noteq> TPM_RC_SUCCESS then Some (rc, st)
       else if s1 = old1 then Some (TPM_RC_FAILURE, st)
       else do {
         (rc, s256, st) \<leftarrow> TPM2X_ReadPCRSHA256 P st 0 stack sha256;
         if rc \<noteq> TPM_RC_SUCCESS then Some (rc, st)
         else if s256 = old256 then Some (TPM_RC_FAILURE, st)
         else check_pcrs P st saved stack s1 s256
       }
     }"

definition TPM2X_CapAll ::
  "'s tcg2_protocol \<Rightarrow> 'c sha_lib \<Rightarrow> 's tpm \<Rightarrow> 32 word \<times> tpml_pcr_selection \<times> tpml_digest \<Rightarrow> bytes \<Rightarrow> bytes \<Rightarrow> (32 word \<times> 's tpm) option" where
  "TPM2X_CapAll P L st stack sha1 sha256 =
     do {
       (rc, saved, st) \<leftarrow> save_pcrs P st 16 stack sha1 sha256;
       if rc \<noteq> TPM_RC_SUCCESS then Some (rc, st)
       else do {
         (rc, st) \<leftarrow> cap_pcrs P L st [0..<16] sha1 sha256;
         if rc \<noteq> TPM_RC_SUCCESS then Some (rc, st) else check_pcrs P st saved stack sha1 sha256
       }
     }"

definition EFI_NOT_FOUND :: int where
  "EFI_NOT_FOUND = 0x800000000000000E"

definition TPM2X_CheckTPMPresentFlag :: "'s tcg2_protocol \<Rightarrow> 's tpm \<Rightarrow> int \<times> 's tpm" where
  "TPM2X_CheckTPMPresentFlag P st =
     (let (status, c, fw) = GetCapability P (firmware st); st = st\<lparr>firmware := fw\<rparr>
      in if status \<noteq> 0 then (status, st) else if \<not> TPMPresentFlag c then (EFI_NOT_FOUND, st) else (0, st))"

end
