(* ===== verification/Tpm2Blob.thy ===== *)
theory Tpm2Blob
  imports Tpm2Wire
begin

text \<open>
  Sealed blobs as they are stored on disk: \<open>TPM2X_SerializeBlob\<close> and
  \<open>TPM2X_DeserializeBlob\<close> of \<open>lsvmutils/tpm2.c\<close>. The result of serialising is the return
  code, the caller's buffer and the new size (\<open>None\<close> where it is not stored).
\<close>

definition TPM2X_SerializeBlob :: "tpm2x_blob \<Rightarrow> bytes \<Rightarrow> nat \<Rightarrow> (int \<times> bytes \<times> nat option) option" where
  "TPM2X_SerializeBlob blob blobBuffer blobBufferSize =
     (if blobBufferSize < TPM2X_BLOB_SIZE then Some (-1, blobBuffer, None)
      else do {
        buf \<leftarrow> Pack_TPM2B_PRIVATE TPMBufInit (blob_private blob);
        buf \<leftarrow> Pack_TPM2B_PUBLIC buf (Some (blob_public blob));
        buf \<leftarrow> Pack_TPM2B_DIGEST buf (blob_hash blob);
        buf \<leftarrow> Pack_TPMS_PCR_SELECT buf (blob_pcr blob);
        if tb_error buf \<noteq> 0 then Some (-1, blobBuffer, None)
        else do {
          d \<leftarrow> load 0 (tb_size buf) (tb_data buf);
          blobBuffer \<leftarrow> store 0 d blobBuffer;
          Some (0, blobBuffer, Some (tb_size buf))
        }
      })"

definition TPM2X_DeserializeBlob :: "bytes \<Rightarrow> nat \<Rightarrow> tpm2x_blob \<Rightarrow> (int \<times> tpm2x_blob) option" where
  "TPM2X_DeserializeBlob blobBuffer blobBufferSize blob =
     (if blobBufferSize > TPM2X_BLOB_SIZE then Some (-1, blob)
      else do {
        buf \<leftarrow> TPMBufPack TPMBufInit blobBuffer blobBufferSize;
        if tb_error buf \<noteq> 0 then Some (-1, blob)
        else do {
          (private, buf) \<leftarrow> Unpack_TPM2B_PRIVATE buf (blob_private blob);
          (public, buf) \<leftarrow> Unpack_TPM2B_PUBLIC buf (blob_public blob);
          (hash, buf) \<leftarrow> Unpack_TPM2B_DIGEST buf (blob_hash blob);
          (pcr, buf) \<leftarrow> Unpack_TPMS_PCR_SELECT buf (blob_pcr blob);
          Some (if tb_error buf = 0 then 0 else -1,
                \<lparr>blob_private = private, blob_public = public, blob_hash = hash, blob_pcr = pcr\<rparr>)
        }
      })"

subsection \<open>The stored form\<close>

definition wf_blob :: "tpm2x_blob \<Rightarrow> bool" where
  "wf_blob b \<longleftrightarrow> wf_2b TPM2B_PRIVATE_CAP (blob_private b) \<and> wf_public (bp_publicArea (blob_public b)) \<and>
     wf_2b TPM2B_DIGEST_CAP (blob_hash b) \<and> wf_pcr_select (blob_pcr b)"

text \<open>The arrays of the blob that is filled have the capacity of the type; their contents do not matter.\<close>

definition blob_arrays :: "tpm2x_blob \<Rightarrow> bool" where
  "blob_arrays q \<longleftrightarrow> length (b_buffer (blob_private q)) = TPM2B_PRIVATE_CAP \<and> old_public_ok (bp_publicArea (blob_public q)) \<and>
     length (b_buffer (blob_hash q)) = TPM2B_DIGEST_CAP \<and> length (ps_pcrSelect (blob_pcr q)) = PCR_SELECT_MAX"

definition wire_blob :: "tpm2x_blob \<Rightarrow> bytes" where
  "wire_blob b = wire_2b (blob_private b) @ wire_2b_public (blob_public b) @ wire_2b (blob_hash b) @ wire_pcr_select (blob_pcr b)"

definition over_blob :: "tpm2x_blob \<Rightarrow> tpm2x_blob \<Rightarrow> tpm2x_blob" where
  "over_blob q b = \<lparr>blob_private = over_2b (blob_private q) (blob_private b), blob_public = over_2b_public (blob_public q) (blob_public b),
     blob_hash = over_2b (blob_hash q) (blob_hash b), blob_pcr = over_pcr_select (blob_pcr q) (blob_pcr b)\<rparr>"

lemma length_wire_blob: "wf_blob b \<Longrightarrow> length (wire_blob b) \<le> TPM2X_BLOB_SIZE"
  using length_wire_2b [of TPM2B_PRIVATE_CAP "blob_private b"] length_wire_2b [of TPM2B_DIGEST_CAP "blob_hash b"]
    length_wire_public [of "bp_publicArea (blob_public b)"]
  by (simp add: wire_blob_def wf_blob_def wire_2b_public_def wire_pcr_select_def wf_pcr_select_def)

lemma put_init_data: "length w \<le> 4096 \<Longrightarrow> load 0 (length w) (tb_data (put TPMBufInit w)) = Some w"
  by (simp add: put_def TPMBufInit_def BUF_CAPACITY_def load_def overwrite_def slice_def)

lemma unread_put_init: "length w \<le> 4096 \<Longrightarrow> unread (put TPMBufInit w) = w"
  by (simp add: put_def TPMBufInit_def BUF_CAPACITY_def unread_def overwrite_def slice_def)

lemma SerializeBlob_bytes:
  assumes wf: "wf_blob b" and n: "TPM2X_BLOB_SIZE \<le> n" "n \<le> length out"
  shows "TPM2X_SerializeBlob b out n = Some (0, overwrite 0 (wire_blob b) out, Some (length (wire_blob b)))"
proof -
  define f where "f = (\<lambda>buf. do {
    buf \<leftarrow> Pack_TPM2B_PRIVATE buf (blob_private b);
    buf \<leftarrow> Pack_TPM2B_PUBLIC buf (Some (blob_public b));
    buf \<leftarrow> Pack_TPM2B_DIGEST buf (blob_hash b);
    Pack_TPMS_PCR_SELECT buf (blob_pcr b) })"
  have "emits f (wire_blob b)"
    unfolding f_def wire_blob_def Pack_TPM2B_PRIVATE_def Pack_TPM2B_DIGEST_def using wf
    by (intro emits_bind emits_wf_2b emits_2b_public emits_pcr_select) (auto simp: wf_blob_def)
  then have "f TPMBufInit = Some (put TPMBufInit (wire_blob b))"
    by (rule emitsD) (use length_wire_blob [OF wf] in simp_all)
  moreover have "TPM2X_SerializeBlob b out n = Option.bind (f TPMBufInit) (\<lambda>buf.
      if tb_error buf \<noteq> 0 then Some (-1, out, None)
      else do { d \<leftarrow> load 0 (tb_size buf) (tb_data buf); out \<leftarrow> store 0 d out; Some (0, out, Some (tb_size buf)) })"
    using n by (simp add: TPM2X_SerializeBlob_def f_def Option.bind_assoc)
  ultimately show ?thesis
    using put_init_data [of "wire_blob b"] length_wire_blob [OF wf] n by (simp add: store_def)
qed

lemma DeserializeBlob_bytes:
  assumes wf: "wf_blob b" and q: "blob_arrays q"
  shows "TPM2X_DeserializeBlob (wire_blob b @ rest) (length (wire_blob b)) q = Some (0, over_blob q b)"
proof -
  let ?w = "wire_blob b"
  have len: "length ?w \<le> TPM2X_BLOB_SIZE" by (rule length_wire_blob [OF wf])
  define f where "f = (\<lambda>buf. do {
    (private, buf) \<leftarrow> Unpack_TPM2B buf (blob_private q);
    (public, buf) \<leftarrow> Unpack_TPM2B_PUBLIC buf (blob_public q);
    (hash, buf) \<leftarrow> Unpack_TPM2B buf (blob_hash q);
    (pcr, buf) \<leftarrow> Unpack_TPMS_PCR_SELECT buf (blob_pcr q);
    Some (\<lparr>blob_private = private, blob_public = public, blob_hash = hash, blob_pcr = pcr\<rparr>, buf) })"
  have l: "unat (b_size (blob_private b)) \<le> length (b_buffer (blob_private b))"
      "unat (b_size (blob_private b)) \<le> length (b_buffer (blob_private q))"
      "unat (b_size (blob_hash b)) \<le> length (b_buffer (blob_hash b))"
      "unat (b_size (blob_hash b)) \<le> length (b_buffer (blob_hash q))"
    using wf q by (simp_all add: wf_blob_def blob_arrays_def wf_2b_def)
  have w: "wf_public (bp_publicArea (blob_public b))" "old_public_ok (bp_publicArea (blob_public q))"
      "wf_pcr_select (blob_pcr b)" "length (ps_pcrSelect (blob_pcr q)) = PCR_SELECT_MAX"
    using wf q by (simp_all add: wf_blob_def blob_arrays_def)
  have "parses f ?w (over_blob q b)"
    unfolding f_def wire_blob_def over_blob_def
    by (rule parses_bind parses_2b [OF l(1,2)] parses_2b_public [OF w(1,2)] parses_2b [OF l(3,4)] parses_last parses_pcr_select [OF w(3,4)])+
  moreover have "unread (put TPMBufInit ?w) = ?w @ []" using unread_put_init [of ?w] len by simp
  moreover have "ready (put TPMBufInit ?w)" using len by (intro ready_put) simp_all
  ultimately have f: "f (put TPMBufInit ?w) = Some (over_blob q b, adv (put TPMBufInit ?w) (length ?w))"
    by (blast intro: parsesD)
  have "TPMBufPack TPMBufInit (?w @ rest) (length ?w) = Some (put TPMBufInit ?w)"
    using emitsD [OF emits_pack_prefix [of "length ?w" "?w @ rest"] ready_init] len by simp
  moreover have "TPM2X_DeserializeBlob (?w @ rest) (length ?w) q = Option.bind (TPMBufPack TPMBufInit (?w @ rest) (length ?w))
      (\<lambda>buf. if tb_error buf \<noteq> 0 then Some (-1, q) else Option.bind (f buf) (\<lambda>(r, buf). Some (if tb_error buf = 0 then 0 else -1, r)))"
    using len by (simp add: TPM2X_DeserializeBlob_def f_def Unpack_TPM2B_PRIVATE_def Unpack_TPM2B_DIGEST_def Option.bind_assoc case_prod_unfold cong: if_cong)
  ultimately show ?thesis using f by simp
qed

section \<open>Claims\<close>

text \<open>
  C10: A sealed blob survives being stored. Serialising any well-formed blob (sizes within its arrays,
  schemes the code supports) into a buffer of at least \<open>sizeof(TPM2X_BLOB)\<close> bytes succeeds, reports the
  number of bytes written and never more than that constant, so deserialising those bytes is accepted; it
  fills any blob structure, whatever it held, with every field the stored form carries, and sets the size
  of the public area to its marshalled length.
\<close>

theorem SerializeBlob_roundtrip:
  assumes "wf_blob b" "blob_arrays q" "TPM2X_BLOB_SIZE \<le> n" "n \<le> length out"
  shows "\<exists>out' m. TPM2X_SerializeBlob b out n = Some (0, out', Some m) \<and> m \<le> TPM2X_BLOB_SIZE \<and>
    TPM2X_DeserializeBlob out' m q = Some (0, over_blob q b)"
proof -
  have "overwrite 0 (wire_blob b) out = wire_blob b @ drop (length (wire_blob b)) out" by (simp add: overwrite_def)
  with SerializeBlob_bytes [OF assms(1,3,4)] DeserializeBlob_bytes [OF assms(1,2)] length_wire_blob [OF assms(1)]
  show ?thesis by auto
qed

definition sample_blob :: tpm2x_blob where
  "sample_blob = \<lparr>blob_private = \<lparr>b_size = 2, b_buffer = [7, 9] @ replicate 908 0\<rparr>,
     blob_public = zero_public\<lparr>bp_publicArea := (bp_publicArea zero_public)\<lparr>pub_type := TPM_ALG_KEYEDHASH, pub_nameAlg := TPM_ALG_SHA256,
       pub_parameters := (pub_parameters (bp_publicArea zero_public))\<lparr>keyedHashDetail := \<lparr>kh_scheme = TPM_ALG_NULL, kh_hashAlg = 0, kh_kdf = 0\<rparr>\<rparr>\<rparr>\<rparr>,
     blob_hash = zero_2b TPM2B_DIGEST_CAP, blob_pcr = \<lparr>ps_sizeofSelect = 3, ps_pcrSelect = [1, 0, 0]\<rparr>\<rparr>"

lemma sample_blob_ok: "wf_blob sample_blob" "blob_arrays sample_blob"
  by (simp_all add: wf_blob_def blob_arrays_def sample_blob_def wf_2b_def wf_public_def wf_parms_def wf_id_def id_cap_def
      old_public_ok_def old_id_ok_def zero_public_def zero_2b_def wf_pcr_select_def)

theorem SerializeBlob_roundtrip_witness:
  "\<exists>out' m. TPM2X_SerializeBlob sample_blob (replicate 1344 0) (length (replicate 1344 (0::byte))) = Some (0, out', Some m) \<and>
    m \<le> TPM2X_BLOB_SIZE \<and> TPM2X_DeserializeBlob out' m sample_blob = Some (0, over_blob sample_blob sample_blob)"
  by (rule SerializeBlob_roundtrip [OF sample_blob_ok]) simp_all

end
