(* ===== verification/Tpm2Exchange.thy ===== *)
theory Tpm2Exchange
  imports Tpm2Seal Tpm2Blob
begin

text \<open>
  Exchanges with the TPM: the bytes that a command sends, the effect of a response, and the
  requests of a whole run.

  \<open>request_bytes\<close> and \<open>response_bytes\<close> are the frames of the TPM 2.0 protocol. \<open>answers\<close> states
  what the firmware does with one request; \<open>logged\<close> wraps any firmware into one that records
  the requests it is given, so that properties of the commands sent hold for every firmware.
\<close>

subsection \<open>What is sent\<close>

definition request_bytes :: "16 word \<Rightarrow> 32 word \<Rightarrow> bytes \<Rightarrow> bytes" where
  "request_bytes tag commandCode body = be16 tag @ be32 (of_nat (10 + length body)) @ be32 commandCode @ body"

lemma submit_sends:
  assumes w: "length w \<le> 4086"
  shows "submit_command P st tag cc (put TPMBufInit w) outb = exchange P st (request_bytes tag cc w) outb"
proof -
  define f where "f = (\<lambda>buf. do { buf \<leftarrow> TPMBufPackU16 buf tag; buf \<leftarrow> TPMBufPackU32 buf 0; buf \<leftarrow> TPMBufPackU32 buf cc;
      TPMBufPack buf (tb_data (put TPMBufInit w)) (tb_size (put TPMBufInit w)) })"
  have d: "take (length w) (tb_data (put TPMBufInit w)) = w" "length w \<le> length (tb_data (put TPMBufInit w))"
    using w by (simp_all add: put_def TPMBufInit_def BUF_CAPACITY_def overwrite_def)
  have "emits f (be16 tag @ be32 0 @ be32 cc @ w)"
    unfolding f_def using emits_pack_prefix [OF d(2)] d(1) by (intro emits_bind emits_u16 emits_u32) simp
  then have f: "f TPMBufInit = Some (put TPMBufInit (be16 tag @ be32 0 @ be32 cc @ w))"
    by (rule emitsD) (use w in simp_all)
  let ?h = "be32 (of_nat (10 + length w))"
  have s: "store 2 ?h (tb_data (put TPMBufInit (be16 tag @ be32 0 @ be32 cc @ w))) =
      Some (tb_data (put TPMBufInit (be16 tag @ ?h @ be32 cc @ w)))"
    using w by (simp add: put_def TPMBufInit_def BUF_CAPACITY_def store_def overwrite_def)
  have l: "load 0 (10 + length w) (tb_data (put TPMBufInit (be16 tag @ ?h @ be32 cc @ w))) = Some (request_bytes tag cc w)"
    using put_init_data [of "be16 tag @ ?h @ be32 cc @ w"] w by (simp add: request_bytes_def)
  have "submit_command P st tag cc (put TPMBufInit w) outb = Option.bind (f TPMBufInit) (\<lambda>buf. do {
      d \<leftarrow> store 2 (be32 (of_nat (tb_size buf))) (tb_data buf);
      let buf = buf\<lparr>tb_data := d\<rparr>;
      if tb_error buf \<noteq> 0 then Some (TPM_RC_FAILURE, None, outb, st)
      else do { request \<leftarrow> load 0 (tb_size buf) (tb_data buf); exchange P st request outb } })"
    unfolding submit_command_def f_def swap_be Option.bind_assoc ..
  with f s l show ?thesis by (simp add: Let_def)
qed

subsection \<open>What is received\<close>

text \<open>The output buffer after the response bytes \<open>r\<close> arrived and the header was read.\<close>

definition received :: "bytes \<Rightarrow> 32 word \<Rightarrow> tpmbuf" where
  "received r sz = TPMBufInit\<lparr>tb_data := overwrite 0 r (tb_data TPMBufInit), tb_size := unat sz, tb_offset := 10\<rparr>"

definition response_bytes :: "16 word \<Rightarrow> 32 word \<Rightarrow> 32 word \<Rightarrow> bytes \<Rightarrow> bytes" where
  "response_bytes tag sz code body = be16 tag @ be32 sz @ be32 code @ body"

lemma unread_received:
  assumes "r = response_bytes t sz code body" "unat sz = length r" "length r \<le> 4096"
  shows "ready (received r sz)" "unread (received r sz) = body"
  using assms by (simp_all add: received_def ready_def tpmbuf_inv_def unread_def TPMBufInit_def BUF_CAPACITY_def
      response_bytes_def overwrite_def slice_def)

lemma unpack_header_bytes:
  assumes r: "r = response_bytes t sz code body" "length r \<le> 4096"
  shows "unpack_header (TPMBufInit\<lparr>tb_data := overwrite 0 r (tb_data TPMBufInit)\<rparr>) = Some (TPM_RC_SUCCESS, Some code, received r sz)"
proof -
  let ?b = "TPMBufInit\<lparr>tb_data := overwrite 0 r (tb_data TPMBufInit), tb_size := 10\<rparr>"
  have b: "ready ?b" "unread ?b = be16 t @ be32 sz @ be32 code @ []"
    using r by (simp_all add: ready_def tpmbuf_inv_def unread_def TPMBufInit_def BUF_CAPACITY_def response_bytes_def overwrite_def slice_def)
  have 1: "TPMBufUnpackU16 ?b = Some (Some t, adv ?b 2)" by (rule unpack_u16 [OF b])
  have b1: "ready (adv ?b 2)" "unread (adv ?b 2) = be32 sz @ be32 code @ []" using ready_adv [OF b] unread_adv [OF b] by simp_all
  have 2: "TPMBufUnpackU32 (adv ?b 2) = Some (Some sz, adv ?b 6)" using unpack_u32 [OF b1] by simp
  have b2: "ready (adv ?b 6)" "unread (adv ?b 6) = be32 code @ []" using ready_adv [OF b1] unread_adv [OF b1] by simp_all
  have 3: "TPMBufUnpackU32 (adv ?b 6) = Some (Some code, adv ?b 10)" using unpack_u32 [OF b2] by simp
  show ?thesis by (simp add: unpack_header_def 1 2 3) (simp add: adv_def received_def)
qed

text \<open>
  The firmware answers the request with response \<open>r\<close>, in state \<open>fw\<close> afterwards.
\<close>

definition answers :: "'s tcg2_protocol \<Rightarrow> 's tpm \<Rightarrow> bytes \<Rightarrow> bytes \<Rightarrow> 's \<Rightarrow> bool" where
  "answers P st request r fw \<longleftrightarrow>
     (let (c, st1) = TCG2GetCapabilities P st; n = output_block_size (MaxResponseSize c) 4096
      in SubmitCommand P (firmware st1) request n = (0, r, fw) \<and> length r \<le> n)"

definition after :: "'s tcg2_protocol \<Rightarrow> 's tpm \<Rightarrow> 's \<Rightarrow> 's tpm" where
  "after P st fw = (snd (TCG2GetCapabilities P st))\<lparr>firmware := fw\<rparr>"

lemma output_block_size_le: "output_block_size m 4096 \<le> 4096"
  by (simp add: output_block_size_def usub32_def u32_def Let_def)

lemma exchange_answers:
  assumes a: "answers P st request r fw" and r: "r = response_bytes t sz code body"
  shows "exchange P st request TPMBufInit = Some (TPM_RC_SUCCESS, Some code, received r sz, after P st fw)" "length r \<le> 4096"
proof -
  obtain c st1 where c: "TCG2GetCapabilities P st = (c, st1)" by fastforce
  let ?n = "output_block_size (MaxResponseSize c) 4096"
  have s: "SubmitCommand P (firmware st1) request ?n = (0, r, fw)" and n: "length r \<le> ?n"
    using a c by (simp_all add: answers_def Let_def)
  with output_block_size_le [of "MaxResponseSize c"] show len: "length r \<le> 4096" by linarith
  then have "store 0 r (tb_data TPMBufInit) = Some (overwrite 0 r (tb_data TPMBufInit))"
    by (simp add: store_def TPMBufInit_def BUF_CAPACITY_def)
  then show "exchange P st request TPMBufInit = Some (TPM_RC_SUCCESS, Some code, received r sz, after P st fw)"
    using s n c unpack_header_bytes [OF r len] by (simp add: exchange_def after_def)
qed

lemma command_answered:
  assumes f: "emits f w" "length w \<le> 4086" and a: "answers P st (request_bytes tag cc w) r fw"
    and r: "r = response_bytes t (of_nat (length r)) code body"
  shows "command P st tag cc f outputs g =
    (if code \<noteq> TPM_RC_SUCCESS then Some (code, outputs, after P st fw)
     else do {
       (outputs, outb) \<leftarrow> g outputs (received r (of_nat (length r)));
       Some (if tb_error outb \<noteq> 0 then TPM_RC_FAILURE else TPM_RC_SUCCESS, outputs, after P st fw)
     })"
proof -
  have "f TPMBufInit = Some (put TPMBufInit w)" by (rule emitsD [OF f(1)]) (use f(2) in simp_all)
  with submit_sends [OF f(2), of P st tag cc TPMBufInit] exchange_answers [OF a r] show ?thesis
    by (simp add: command_def submit_request_def)
qed

lemma command_success:
  assumes f: "emits f w" "length w \<le> 4086" and a: "answers P st (request_bytes tag cc w) r fw"
    and r: "r = response_bytes t (of_nat (length r)) TPM_RC_SUCCESS (body @ rest)" and g: "parses (g outputs) body v"
  shows "command P st tag cc f outputs g = Some (TPM_RC_SUCCESS, v, after P st fw)"
proof -
  have len: "length r \<le> 4096" by (rule exchange_answers [OF a r])
  then have sz: "unat (of_nat (length r) :: 32 word) = length r" by (simp add: unat_of_nat)
  have u: "ready (received r (of_nat (length r)))" "unread (received r (of_nat (length r))) = body @ rest"
    using unread_received [OF r sz len] by simp_all
  show ?thesis
    unfolding command_answered [OF f a r] using parsesD [OF g u] u(1) by (simp add: ready_def)
qed

lemma command_error:
  assumes f: "emits f w" "length w \<le> 4086" and a: "answers P st (request_bytes tag cc w) r fw"
    and r: "r = response_bytes t (of_nat (length r)) code body" and c: "code \<noteq> TPM_RC_SUCCESS"
  shows "command P st tag cc f outputs g = Some (code, outputs, after P st fw)"
  unfolding command_answered [OF f a r] using c by simp
subsection \<open>Authorisation responses\<close>

definition wire_auth_response :: "tpms_auth_response \<Rightarrow> bytes" where
  "wire_auth_response p = wire_2b (ar_nonce p) @ [ucast (ar_sessionAttributes p)] @ wire_2b (ar_hmac p)"

definition over_auth_response :: "tpms_auth_response \<Rightarrow> tpms_auth_response \<Rightarrow> tpms_auth_response" where
  "over_auth_response q p = \<lparr>ar_nonce = over_2b (ar_nonce q) (ar_nonce p), ar_sessionAttributes = ar_sessionAttributes p AND 0xFF,
     ar_hmac = over_2b (ar_hmac q) (ar_hmac p)\<rparr>"

definition wf_auth_response :: "tpms_auth_response \<Rightarrow> bool" where
  "wf_auth_response p \<longleftrightarrow> wf_2b TPM2B_DIGEST_CAP (ar_nonce p) \<and> wf_2b TPM2B_DIGEST_CAP (ar_hmac p)"

lemma parses_array:
  assumes "length w = n" "n \<le> length d"
  shows "parses (\<lambda>b. unpack_array b d n) w (w @ drop n d)"
  unfolding parses_def
proof (intro allI impI)
  fix b rest
  assume b: "ready b" "unread b = w @ rest"
  then have inv: "tpmbuf_inv b" and ok: "tb_error b = 0" by (simp_all add: ready_def)
  have "TPMBufUnpack b n = Some (Some w, adv b n)"
    using unread_load(1,2,5) [OF inv b(2)] room(2) [OF inv] ok assms by (simp add: TPMBufUnpack_def adv_def)
  with assms show "unpack_array b d n = Some (w @ drop n d, adv b (length w))"
    by (simp add: unpack_array_def store_def overwrite_def)
qed

lemma parses_sized:
  assumes "unat (b_size p) \<le> length (b_buffer p)" "unat (b_size p) \<le> length d"
  shows "parses (\<lambda>b. if b_size p \<noteq> 0 then unpack_array b d (unat (b_size p)) else Some (d, b))
    (take (unat (b_size p)) (b_buffer p)) (take (unat (b_size p)) (b_buffer p) @ drop (unat (b_size p)) d)"
  using parses_array [of "take (unat (b_size p)) (b_buffer p)" "unat (b_size p)" d] assms
  by (cases "b_size p = 0") (simp_all add: parses_done)

lemma ucast_low_byte: "ucast (ucast (x :: 32 word) :: byte) = x AND 0xFF"
  by (simp add: bit_blast)

lemma over_2b_fields: "over_2b q p =
    \<lparr>b_size = b_size p, b_buffer = take (unat (b_size p)) (b_buffer p) @ drop (unat (b_size p)) (b_buffer q)\<rparr>"
  by (cases q) (simp add: over_2b_def)

lemma parses_auth_response:
  assumes "wf_auth_response p" "length (b_buffer (ar_nonce q)) = TPM2B_DIGEST_CAP" "length (b_buffer (ar_hmac q)) = TPM2B_DIGEST_CAP"
  shows "parses (\<lambda>b. Unpack_TPMS_AUTH_RESPONSE tmp b q) (wire_auth_response p) (over_auth_response q p)"
proof -
  have l: "unat (b_size (ar_nonce p)) \<le> length (b_buffer (ar_nonce p))" "unat (b_size (ar_nonce p)) \<le> length (b_buffer (ar_nonce q))"
      "unat (b_size (ar_hmac p)) \<le> length (b_buffer (ar_hmac p))" "unat (b_size (ar_hmac p)) \<le> length (b_buffer (ar_hmac q))"
    using assms by (simp_all add: wf_auth_response_def wf_2b_def)
  have "parses (\<lambda>b. Unpack_TPMS_AUTH_RESPONSE tmp b q) (be16 (b_size (ar_nonce p)) @
      take (unat (b_size (ar_nonce p))) (b_buffer (ar_nonce p)) @ [ucast (ar_sessionAttributes p)] @
      be16 (b_size (ar_hmac p)) @ take (unat (b_size (ar_hmac p))) (b_buffer (ar_hmac p)))
     \<lparr>ar_nonce = \<lparr>b_size = b_size (ar_nonce p), b_buffer = take (unat (b_size (ar_nonce p))) (b_buffer (ar_nonce p)) @
          drop (unat (b_size (ar_nonce p))) (b_buffer (ar_nonce q))\<rparr>,
       ar_sessionAttributes = ucast (ucast (ar_sessionAttributes p) :: byte),
       ar_hmac = \<lparr>b_size = b_size (ar_hmac p), b_buffer = take (unat (b_size (ar_hmac p))) (b_buffer (ar_hmac p)) @
          drop (unat (b_size (ar_hmac p))) (b_buffer (ar_hmac q))\<rparr>\<rparr>"
    unfolding Unpack_TPMS_AUTH_RESPONSE_def
    by (rule parses_bind parses_u16 parses_u8 parses_sized [OF l(1,2)] parses_last parses_sized [OF l(3,4)])+
  then show ?thesis by (simp add: wire_auth_response_def over_auth_response_def wire_2b_def over_2b_fields ucast_low_byte)
qed
lemma parses_with_session:
  assumes "parses g w v"
  shows "parses (\<lambda>b. Option.bind (parameter_size (Some a) b) g) (be32 n @ w) v"
proof -
  have "parameter_size (Some a) b = map_option snd (into (TPMBufUnpackU32 b) 0)" for b
    by (cases "TPMBufUnpackU32 b") (auto simp: parameter_size_def session_tag_def into_def)
  then have "Option.bind (parameter_size (Some a) b) g = Option.bind (into (TPMBufUnpackU32 b) 0) (\<lambda>(x, b). g b)" for b
    by (cases "into (TPMBufUnpackU32 b) 0") auto
  then show ?thesis using parses_bind [OF parses_u32, of "\<lambda>_. g"] assms by simp
qed

lemma emits_pack_auth: "wf_auth a \<Longrightarrow> emits (\<lambda>b. pack_auth b (Some a)) (wire_auth a)"
  unfolding pack_auth_def by (simp add: emits_auth)

lemma parses_auth_in_session:
  "parses (\<lambda>b. Unpack_TPMS_AUTH_RESPONSE (stack_byte P) b q) w v \<Longrightarrow> parses (\<lambda>b. auth_response P (Some a) b q) w v"
  by (simp add: auth_response_def session_tag_def)

lemma unseal_exchange:
  assumes "wf_auth a" and d: "wf_2b MAX_SYM_DATA d" and ar: "wf_auth_response ar"
    and "answers P st (request_bytes TPM_ST_SESSIONS 0x15e (be32 item @ wire_auth a)) r fw"
    and "r = response_bytes t (of_nat (length r)) TPM_RC_SUCCESS (be32 n @ wire_2b d @ wire_auth_response ar)"
  shows "TPM2_Unseal P st item (Some a) =
    Some (TPM_RC_SUCCESS, (over_2b (zero_2b MAX_SYM_DATA) d, over_auth_response zero_auth_response ar), after P st fw)"
proof -
  let ?z = "(zero_2b MAX_SYM_DATA, zero_auth_response)"
  define f where "f = (\<lambda>inb. do { inb \<leftarrow> TPMBufPackU32 inb item; pack_auth inb (Some a) })"
  define g where "g = (\<lambda>(outData, authResponse) outb. do {
          outb \<leftarrow> parameter_size (Some a) outb;
          (outData, outb) \<leftarrow> Unpack_TPM2B outb outData;
          (authResponse, outb) \<leftarrow> auth_response P (Some a) outb authResponse;
          Some ((outData, authResponse), outb)
        })"
  have f: "emits f (be32 item @ wire_auth a)"
    unfolding f_def by (intro emits_bind emits_u32 emits_pack_auth assms(1))
  have l: "unat (b_size d) \<le> length (b_buffer d)" "unat (b_size d) \<le> length (b_buffer (zero_2b MAX_SYM_DATA))"
    using d by (simp_all add: wf_2b_def zero_2b_def)
  have z: "length (b_buffer (ar_nonce zero_auth_response)) = 64" "length (b_buffer (ar_hmac zero_auth_response)) = 64"
    by (simp_all add: zero_auth_response_def zero_2b_def)
  have g: "parses (g ?z) (be32 n @ wire_2b d @ wire_auth_response ar)
      (over_2b (zero_2b MAX_SYM_DATA) d, over_auth_response zero_auth_response ar)"
    unfolding g_def case_prod_conv
    by (rule parses_with_session parses_bind parses_2b [OF l] parses_last parses_auth_in_session parses_auth_response [OF ar z])+
  have len: "length (be32 item @ wire_auth a) \<le> 4086" using length_wire_auth [OF assms(1)] by simp
  have "r = response_bytes t (of_nat (length r)) TPM_RC_SUCCESS ((be32 n @ wire_2b d @ wire_auth_response ar) @ [])"
    using assms(5) by simp
  from command_success [where g = g, OF f len assms(4) this g] show ?thesis
    unfolding TPM2_Unseal_def f_def [symmetric] g_def [symmetric] by (simp add: session_tag_def)
qed
subsection \<open>The requests of a run\<close>

text \<open>A firmware that records the requests it is given.\<close>

definition logged :: "'s tcg2_protocol \<Rightarrow> ('s \<times> bytes list) tcg2_protocol" where
  "logged P = \<lparr>GetCapability = (\<lambda>(s, l). let (status, c, s) = GetCapability P s in (status, c, (s, l))),
     SubmitCommand = (\<lambda>(s, l) request n. let (status, r, s) = SubmitCommand P s request n in (status, r, (s, l @ [request]))),
     stack_byte = stack_byte P\<rparr>"

abbreviation (input) requests :: "('s \<times> bytes list) tpm \<Rightarrow> bytes list" where
  "requests st \<equiv> snd (firmware st)"

lemma capabilities_logged: "TCG2GetCapabilities (logged P) st = (c, st1) \<Longrightarrow> requests st1 = requests st"
  by (auto simp: TCG2GetCapabilities_def logged_def case_prod_unfold Let_def split: option.splits)

lemma exchange_logged:
  assumes "exchange (logged P) st request outb = Some (rc, code, outb', st')"
  shows "requests st' = requests st @ [request]"
proof -
  obtain c st1 where c: "TCG2GetCapabilities (logged P) st = (c, st1)" by fastforce
  have "snd (snd (snd (SubmitCommand (logged P) (firmware st1) request n))) = requests st1 @ [request]" for n
    by (simp add: logged_def case_prod_unfold Let_def)
  with assms capabilities_logged [OF c] show ?thesis
    by (auto simp: exchange_def c case_prod_unfold Let_def bind_eq_Some_conv split: if_splits)
qed

lemma command_logged:
  assumes f: "emits f w" "length w \<le> 4086" and c: "command (logged P) st tag cc f outputs g = Some (rc, outputs', st')"
  shows "requests st' = requests st @ [request_bytes tag cc w]"
proof -
  have "f TPMBufInit = Some (put TPMBufInit w)" by (rule emitsD [OF f(1)]) (use f(2) in simp_all)
  with c submit_sends [OF f(2), of "logged P" st tag cc TPMBufInit]
  have c: "Option.bind (exchange (logged P) st (request_bytes tag cc w) TPMBufInit) (\<lambda>(rc, code, outb, st).
      Option.bind (if rc \<noteq> 0 then Some (Inl TPM_RC_FAILURE, st)
        else Option.bind code (\<lambda>code. Some (if code \<noteq> TPM_RC_SUCCESS then Inl code else Inr outb, st))) (\<lambda>(r, st).
      case r of Inl rc \<Rightarrow> Some (rc, outputs, st)
        | Inr outb \<Rightarrow> Option.bind (g outputs outb) (\<lambda>(outputs, outb).
            Some (if tb_error outb \<noteq> 0 then TPM_RC_FAILURE else TPM_RC_SUCCESS, outputs, st)))) = Some (rc, outputs', st')"
    by (simp add: command_def submit_request_def case_prod_unfold)
  then obtain rc1 code outb st1 where x: "exchange (logged P) st (request_bytes tag cc w) TPMBufInit = Some (rc1, code, outb, st1)"
    by (cases "exchange (logged P) st (request_bytes tag cc w) TPMBufInit") auto
  with c have "st1 = st'"
    by (cases code) (auto simp: bind_eq_Some_conv split: if_splits)
  with exchange_logged [OF x] show ?thesis by simp
qed

definition flush_request :: "32 word \<Rightarrow> bytes" where
  "flush_request h = request_bytes TPM_ST_NO_SESSIONS 0x165 (be32 h)"

lemma flush_logged:
  "TPM2_FlushContext (logged P) st h = Some (rc, u, st') \<Longrightarrow> requests st' = requests st @ [flush_request h]"
  unfolding TPM2_FlushContext_def flush_request_def by (rule command_logged [OF emits_u32]) simp_all

lemma flush_handle_logged:
  "flush_handle (logged P) st h = Some st' \<Longrightarrow> requests st' = requests st @ (case h of None \<Rightarrow> [] | Some h \<Rightarrow> [flush_request h])"
  by (auto simp: flush_handle_def bind_eq_Some_conv dest: flush_logged split: option.splits)
subsection \<open>Oversized buffers in a response\<close>

lemma unpack_bytes_overflow:
  "ready b \<Longrightarrow> unread b = w @ rest \<Longrightarrow> i + length w = n \<Longrightarrow> i \<le> length d \<Longrightarrow> length d < n \<Longrightarrow> unpack_bytes b d i n = None"
proof (induction w arbitrary: b d i)
  case (Cons x w)
  then have u: "unread b = [x] @ (w @ rest)" by simp
  have 1: "TPMBufUnpackU8 b = Some (Some x, adv b 1)" by (rule unpack_u8 [OF Cons.prems(1) u])
  have b1: "ready (adv b 1)" "unread (adv b 1) = w @ rest"
    using ready_adv [OF Cons.prems(1) u] unread_adv [OF Cons.prems(1) u] by simp_all
  show ?case
  proof (cases "i < length d")
    case True
    with Cons.prems have "unpack_bytes (adv b 1) (d[i := x]) (i + 1) n = None" by (intro Cons.IH [OF b1]) auto
    with True Cons.prems 1 show ?thesis by (subst unpack_bytes.simps) simp
  next
    case False
    with Cons.prems 1 show ?thesis by (subst unpack_bytes.simps) simp
  qed
qed simp

lemma unpack_2b_fits_iff:
  assumes b: "ready b" "unread b = be16 n @ w @ rest" "length w = unat n"
  shows "Unpack_TPM2B b q = None \<longleftrightarrow> length (b_buffer q) < unat n"
proof -
  have 1: "into (TPMBufUnpackU16 b) (b_size q) = Some (n, adv b 2)" using parsesD [OF parses_u16 b(1,2)] by simp
  have b1: "ready (adv b 2)" "unread (adv b 2) = w @ rest" using ready_adv [OF b(1,2)] unread_adv [OF b(1,2)] by simp_all
  show ?thesis
  proof (cases "length (b_buffer q) < unat n")
    case True
    then have "unpack_bytes (adv b 2) (b_buffer q) 0 (unat n) = None" by (intro unpack_bytes_overflow [OF b1]) (simp_all add: b(3))
    with 1 True show ?thesis by (simp add: Unpack_TPM2B_def)
  next
    case False
    then have "parses (\<lambda>b. unpack_bytes b (b_buffer q) 0 (unat n)) w (take 0 (b_buffer q) @ w @ drop (unat n) (b_buffer q))"
      by (intro parses_bytes) (simp_all add: b(3))
    from parsesD [OF this b1] 1 False show ?thesis by (simp add: Unpack_TPM2B_def)
  qed
qed

end
