(* ===== verification/Tpm2Policy.thy ===== *)
theory Tpm2Policy
  imports Tpm2Exchange
begin

text \<open>
  Policies, sealing and unsealing: which commands \<open>TPM2X_BuildPolicy\<close>, \<open>TPM2X_Seal\<close> and
  \<open>TPM2X_Unseal\<close> send, what they leave open, and how they fail.
\<close>

lemma seal_flushes:
  assumes "unat sz \<le> MAX_SYM_DATA" "TPM2X_StartAuthSession (logged P) st True TPM_ALG_SHA256 stack = Some (TPM_RC_SUCCESS, h, st1)"
    and "TPM2X_Seal (logged P) L st parentKey predictive pcrMask pcrs data sz blob stack = Some (rc, blob', st')"
  shows "\<exists>l. requests st' = l @ [flush_request h]"
proof -
  from assms obtain r b st2 rcf u where "seal_in_session (logged P) L st1 h parentKey predictive pcrMask pcrs data sz blob TPM_RC_SUCCESS = Some (r, b, st2)"
      "TPM2_FlushContext (logged P) st2 h = Some (rcf, u, st')"
    by (auto simp: TPM2X_Seal_def bind_eq_Some_conv)
  then show ?thesis using flush_logged by blast
qed

lemma unseal_flushes:
  assumes "TPM2X_StartAuthSession (logged P) st False (pub_nameAlg (bp_publicArea (blob_public blob))) 0 = Some (TPM_RC_SUCCESS, h, st1)"
    and "TPM2X_Unseal (logged P) L st pcrMask parentKey blob data sz = Some (rc, d, n, st')"
  shows "\<exists>rcP st2.
    TPM2X_BuildPolicy (logged P) L st1 h False pcrMask [] (pub_nameAlg (bp_publicArea (blob_public blob))) = Some (rcP, st2) \<and>
    (if rcP \<noteq> TPM_RC_SUCCESS then rc = rcP \<and> requests st' = requests st2 @ [flush_request h]
     else \<exists>rcL x nm ar st3.
       TPM2_Load (logged P) st2 parentKey (Some password_session) (blob_private blob) (Some (blob_public blob)) = Some (rcL, (x, nm, ar), st3) \<and>
       (if rcL \<noteq> TPM_RC_SUCCESS then rc = rcL \<and> requests st' = requests st3 @ [flush_request h]
        else \<exists>rcU out ar' st4.
          TPM2_Unseal (logged P) st3 x (Some (zero_auth_command\<lparr>ac_sessionHandle := h\<rparr>)) = Some (rcU, (out, ar'), st4) \<and> rc = rcU \<and>
          requests st' = requests st4 @ (if rcU = TPM_RC_SUCCESS then [flush_request x] else [flush_request h, flush_request x])))"
proof -
  have alg: "\<not> (pub_nameAlg (bp_publicArea (blob_public blob)) \<noteq> TPM_ALG_SHA1 \<and> pub_nameAlg (bp_publicArea (blob_public blob)) \<noteq> TPM_ALG_SHA256)"
    using assms(1) by (auto simp: TPM2X_StartAuthSession_def split: if_splits)
  with assms obtain s ob s2 s3 where
    u: "unseal_in_session (logged P) L st1 h pcrMask parentKey blob data sz = Some (rc, d, n, s, ob, s2)"
      "flush_handle (logged P) s2 s = Some s3" "flush_handle (logged P) s3 ob = Some st'"
    by (auto simp: TPM2X_Unseal_def Let_def bind_eq_Some_conv)
  have req: "requests st' = requests s2 @ (case s of None \<Rightarrow> [] | Some h \<Rightarrow> [flush_request h]) @ (case ob of None \<Rightarrow> [] | Some h \<Rightarrow> [flush_request h])"
    using flush_handle_logged [OF u(2)] flush_handle_logged [OF u(3)] by simp
  with u(1) show ?thesis
    by (fastforce simp: unseal_in_session_def bind_eq_Some_conv split: if_splits)
qed
subsection \<open>The selection of registers\<close>

lemma masked_bits: "i \<in> set (masked_pcrs msk) \<longleftrightarrow> i < 16 \<and> bit msk i"
proof -
  have "msk AND push_bit i 1 \<noteq> 0 \<longleftrightarrow> bit msk i"
    by (metis and_exp_eq_0_iff_not_bit push_bit_of_1)
  then show ?thesis by (auto simp: masked_pcrs_def)
qed

lemma select_pcrs_bits:
  assumes "\<forall>i\<in>set is. i div 8 < length (sel_pcrSelect s)"
  shows "\<exists>t. select_pcrs s is = Some t \<and> length (sel_pcrSelect t) = length (sel_pcrSelect s) \<and>
    sel_hash t = sel_hash s \<and> sel_sizeofSelect t = sel_sizeofSelect s \<and>
    (\<forall>k < length (sel_pcrSelect s). \<forall>j < 8. bit (sel_pcrSelect t ! k) j \<longleftrightarrow> bit (sel_pcrSelect s ! k) j \<or> 8 * k + j \<in> set is)"
  using assms
proof (induction "is" arbitrary: s)
  case (Cons i "is")
  let ?s = "s\<lparr>sel_pcrSelect := (sel_pcrSelect s)[i div 8 := (sel_pcrSelect s ! (i div 8)) OR push_bit (i mod 8) 1]\<rparr>"
  have i: "i div 8 < length (sel_pcrSelect s)" using Cons.prems by simp
  have b: "bit (sel_pcrSelect ?s ! k) j \<longleftrightarrow> bit (sel_pcrSelect s ! k) j \<or> 8 * k + j = i" if "k < length (sel_pcrSelect s)" "j < 8" for k j
  proof -
    have "8 * k + j = i \<longleftrightarrow> k = i div 8 \<and> j = i mod 8" using that(2) by auto
    moreover have "bit (push_bit (i mod 8) 1 :: byte) j \<longleftrightarrow> j = i mod 8"
      using that(2) by (auto simp: bit_simps)
    ultimately show ?thesis using that i by (auto simp: bit_or_iff nth_list_update)
  qed
  from Cons.IH [of ?s] Cons.prems obtain t where t: "select_pcrs ?s is = Some t" "length (sel_pcrSelect t) = length (sel_pcrSelect s)"
      "sel_hash t = sel_hash s" "sel_sizeofSelect t = sel_sizeofSelect s"
      "\<forall>k < length (sel_pcrSelect s). \<forall>j < 8. bit (sel_pcrSelect t ! k) j \<longleftrightarrow> bit (sel_pcrSelect ?s ! k) j \<or> 8 * k + j \<in> set is"
    by auto
  with i b show ?case by (auto simp: SelectPCR_def)
qed simp

text \<open>The three bytes of the selection are the low bits of the msk.\<close>

definition mask_selection :: "16 word \<Rightarrow> 32 word \<Rightarrow> tpml_pcr_selection" where
  "mask_selection alg msk = zero_pcr_selection\<lparr>pl_count := 1, pl_pcrSelections := (pl_pcrSelections zero_pcr_selection)[0 :=
     \<lparr>sel_hash = alg, sel_sizeofSelect = 3, sel_pcrSelect = [ucast msk, ucast (drop_bit 8 msk), 0]\<rparr>]\<rparr>"

lemma one_selection_mask: "one_selection alg (masked_pcrs msk) = Some (mask_selection alg msk)"
proof -
  let ?s = "(pl_pcrSelections zero_pcr_selection ! 0)\<lparr>sel_sizeofSelect := 3, sel_hash := alg\<rparr>"
  have s: "?s = \<lparr>sel_hash = alg, sel_sizeofSelect = 3, sel_pcrSelect = [0, 0, 0]\<rparr>"
    by (simp add: zero_pcr_selection_def numeral_3_eq_3)
  have d: "\<forall>i\<in>set (masked_pcrs msk). i div 8 < length (sel_pcrSelect ?s)" by (auto simp: s masked_bits)
  from select_pcrs_bits [OF d] obtain t where
    t: "select_pcrs ?s (masked_pcrs msk) = Some t" "length (sel_pcrSelect t) = 3" "sel_hash t = alg" "sel_sizeofSelect t = 3"
      "\<forall>k < 3. \<forall>j < 8. bit (sel_pcrSelect t ! k) j \<longleftrightarrow> 8 * k + j \<in> set (masked_pcrs msk)"
    unfolding s by (auto simp: less_Suc_eq numeral_3_eq_3)
  have "sel_pcrSelect t = [ucast msk, ucast (drop_bit 8 msk), 0]"
  proof (rule nth_equalityI)
    fix k assume k: "k < length (sel_pcrSelect t)"
    show "sel_pcrSelect t ! k = [ucast msk, ucast (drop_bit 8 msk), 0] ! k"
    proof (rule bit_word_eqI)
      fix j assume "j < LENGTH(8)"
      then show "bit (sel_pcrSelect t ! k) j = bit ([ucast msk, ucast (drop_bit 8 msk), 0 :: byte] ! k) j"
        using t(2,5) k by (auto simp: masked_bits less_Suc_eq numeral_3_eq_3 bit_simps)
    qed
  qed (simp add: t(2))
  with t(3,4) have "t = \<lparr>sel_hash = alg, sel_sizeofSelect = 3, sel_pcrSelect = [ucast msk, ucast (drop_bit 8 msk), 0]\<rparr>" by simp
  with t(1) show ?thesis by (simp add: one_selection_def mask_selection_def)
qed

lemma wf_mask_selection: "wf_pcr_selections (mask_selection alg msk)"
  by (simp add: wf_pcr_selections_def mask_selection_def zero_pcr_selection_def wf_pcr_selection_def list_all_length nth_list_update)

lemma take_1_update: "xs \<noteq> [] \<Longrightarrow> take (Suc 0) (xs[0 := v]) = [v]"
  by (cases xs) simp_all

lemma wire_mask_selection:
  "wire_pcr_selections (mask_selection alg msk) = be32 1 @ be16 alg @ [3, ucast msk, ucast (drop_bit 8 msk), 0]"
  by (simp add: wire_pcr_selections_def mask_selection_def wire_pcr_selection_def zero_pcr_selection_def take_1_update)

subsection \<open>Building a policy from predicted registers\<close>

lemma predicted_fill:
  assumes "\<forall>i\<in>set is. i < length pcrs \<and> length (pcrs ! i) = 32" "n + length is \<le> length ds" "\<forall>d\<in>set ds. length (b_buffer d) = 64"
  shows "\<exists>ds'. predicted_digests ds n pcrs is = Some ds' \<and> length ds' = length ds \<and> take n ds' = take n ds \<and>
    gather_digests ds' n (length is) = Some (concat (map ((!) pcrs) is))"
  using assms
proof (induction "is" arbitrary: ds n)
  case (Cons i "is")
  let ?d = "\<lparr>b_size = 32, b_buffer = pcrs ! i @ drop 32 (b_buffer (ds ! n))\<rparr>"
  have n: "n < length ds" "length (b_buffer (ds ! n)) = 64" "i < length pcrs" "length (pcrs ! i) = 32"
    using Cons.prems by simp_all
  have "\<forall>d\<in>set (ds[n := ?d]). length (b_buffer d) = 64"
    using Cons.prems(3) n set_update_subset_insert [of ds n ?d] by auto
  from Cons.IH [of "n + 1" "ds[n := ?d]", OF _ _ this] Cons.prems obtain ds' where
    ds': "predicted_digests (ds[n := ?d]) (n + 1) pcrs is = Some ds'" "length ds' = length ds" "take (n + 1) ds' = take (n + 1) (ds[n := ?d])"
      "gather_digests ds' (n + 1) (length is) = Some (concat (map ((!) pcrs) is))"
    by auto
  have "ds' ! n = take (n + 1) ds' ! n" by simp
  also have "\<dots> = ?d" unfolding ds'(3) using n by simp
  finally have dn: "ds' ! n = ?d" .
  have "take n ds' = take n (take (n + 1) ds')" by (simp add: min_def)
  also have "\<dots> = take n ds" unfolding ds'(3) by (simp add: take_update_cancel)
  finally have "take n ds' = take n ds" .
  moreover have "predicted_digests ds n pcrs (i # is) = Some ds'"
    using n ds'(1) by (simp add: load_def store_def overwrite_def)
  moreover have "gather_digests ds' n (length (i # is)) = Some (concat (map ((!) pcrs) (i # is)))"
    using n ds'(2,4) dn by (simp add: load_def slice_def)
  ultimately show ?case using ds'(2) by blast
qed simp

lemma predicted_overflow: "n + length is > length ds \<Longrightarrow> is \<noteq> [] \<Longrightarrow> predicted_digests ds n pcrs is = None"
proof (induction "is" arbitrary: ds n)
  case (Cons i "is")
  then show ?case by (cases "is = []") (auto simp: bind_eq_None_conv)
qed simp

lemma masked_length: "length (masked_pcrs msk) \<le> 16"
  unfolding masked_pcrs_def by (rule order.trans [OF length_filter_le]) simp

lemma policy_password_logged:
  "TPM2_PolicyPassword (logged P) st session None = Some (rc, ar, st') \<Longrightarrow>
   requests st' = requests st @ [request_bytes TPM_ST_NO_SESSIONS 0x18c (be32 session)]"
  unfolding TPM2_PolicyPassword_def session_tag_def pack_auth_def
  by (rule command_logged [where w = "be32 session"]) (auto intro: emits_none emits_u32)

lemma policy_pcr_logged:
  assumes "TPM2_PolicyPCR (logged P) st session None d sel = Some (rc, ar, st')" "wf_2b 64 d" "wf_pcr_selections sel"
  shows "requests st' = requests st @ [request_bytes TPM_ST_NO_SESSIONS 0x17f (be32 session @ wire_2b d @ wire_pcr_selections sel)]"
proof -
  define f where "f = (\<lambda>inb. do { inb \<leftarrow> TPMBufPackU32 inb session; inb \<leftarrow> pack_auth inb None;
          inb \<leftarrow> Pack_TPM2B inb (b_size d) (b_buffer d); Pack_TPML_PCR_SELECTION inb sel })"
  have "emits f (be32 session @ [] @ wire_2b d @ wire_pcr_selections sel)"
    unfolding f_def pack_auth_def option.case
    by (intro emits_bind emits_u32 emits_done emits_wf_2b [OF assms(2)] emits_pcr_selections [OF assms(3)])
  moreover have "length (be32 session @ [] @ wire_2b d @ wire_pcr_selections sel) \<le> 4086"
    using length_wire_2b [OF assms(2)] length_wire_pcr_selections [OF assms(3)] by simp
  ultimately show ?thesis
    using command_logged [of f _ P st _ _ _ _ rc ar st'] assms(1)
    unfolding TPM2_PolicyPCR_def f_def [symmetric] session_tag_def by fastforce
qed
lemma zero_digests_ok: "length (dl_digests zero_digests) = 8" "\<forall>d\<in>set (dl_digests zero_digests). length (b_buffer d) = 64"
  by (simp_all add: zero_digests_def zero_2b_def)

lemma gathered_values:
  assumes "\<forall>p\<in>set pcrs. length p = 32" "length pcrs = MAX_PCRS" "length (masked_pcrs msk) \<le> 8"
  shows "\<exists>ds. predicted_digests (dl_digests zero_digests) 0 pcrs (masked_pcrs msk) = Some ds \<and>
    gather_digests ds 0 (length (masked_pcrs msk)) = Some (concat (map ((!) pcrs) (masked_pcrs msk))) \<and>
    length (concat (map ((!) pcrs) (masked_pcrs msk))) \<le> 1024"
proof -
  have "\<forall>i\<in>set (masked_pcrs msk). i < length pcrs \<and> length (pcrs ! i) = 32"
    using assms(1,2) by (auto simp: masked_bits)
  moreover from this have "length (concat (map ((!) pcrs) (masked_pcrs msk))) = 32 * length (masked_pcrs msk)"
    by (induction "masked_pcrs msk") (auto simp: length_concat sum_list_triv comp_def cong: map_cong)
  ultimately show ?thesis
    using predicted_fill [of "masked_pcrs msk" pcrs 0 "dl_digests zero_digests"] assms(3) zero_digests_ok by auto
qed

lemma build_policy_steps:
  assumes "\<forall>p\<in>set pcrs. length p = 32" "length pcrs = MAX_PCRS" "length (masked_pcrs msk) \<le> 8"
    and "TPM2_PolicyPassword P st session None = Some (TPM_RC_SUCCESS, ar, st1)"
  shows "TPM2X_BuildPolicy P L st session True msk pcrs TPM_ALG_SHA256 =
    (case ComputeSHA256 L (concat (map ((!) pcrs) (masked_pcrs msk))) of
       None \<Rightarrow> Some (TPM_RC_SUCCESS, st1)
     | Some digest \<Rightarrow> do {
         buffer \<leftarrow> store 0 digest (replicate TPM2B_DIGEST_CAP 0);
         (rc, ar, st) \<leftarrow> TPM2_PolicyPCR P st1 session None \<lparr>b_size = 32, b_buffer = buffer\<rparr> (mask_selection TPM_ALG_SHA256 msk);
         Some (rc, st) })"
proof -
  from gathered_values [OF assms(1-3)] obtain ds where
    "predicted_digests (dl_digests zero_digests) 0 pcrs (masked_pcrs msk) = Some ds"
    "gather_digests ds 0 (length (masked_pcrs msk)) = Some (concat (map ((!) pcrs) (masked_pcrs msk)))"
    "length (concat (map ((!) pcrs) (masked_pcrs msk))) \<le> 1024" by blast
  with assms(4) show ?thesis
    by (simp add: TPM2X_BuildPolicy_def one_selection_mask Let_def del: length_concat split del: if_split split: option.split)
qed

lemma build_policy_requests:
  assumes "sha_lib_ok L H hashed" and pcrs: "\<forall>p\<in>set pcrs. length p = 32" "length pcrs = MAX_PCRS" "length (masked_pcrs msk) \<le> 8"
    and run: "TPM2X_BuildPolicy (logged P) L st session True msk pcrs TPM_ALG_SHA256 = Some (TPM_RC_SUCCESS, st')"
  shows "requests st' = requests st @
    [request_bytes TPM_ST_NO_SESSIONS 0x18c (be32 session),
     request_bytes TPM_ST_NO_SESSIONS 0x17f (be32 session @ be16 32 @ H SHA256_ALG (concat (map ((!) pcrs) (masked_pcrs msk))) @
       be32 1 @ be16 TPM_ALG_SHA256 @ [3, ucast msk, ucast (drop_bit 8 msk), 0])]"
proof -
  let ?m = "concat (map ((!) pcrs) (masked_pcrs msk))"
  from run obtain ar st1 where pw: "TPM2_PolicyPassword (logged P) st session None = Some (TPM_RC_SUCCESS, ar, st1)"
    by (auto simp: TPM2X_BuildPolicy_def bind_eq_Some_conv split: if_splits)
  let ?d = "\<lparr>b_size = 32, b_buffer = H SHA256_ALG ?m @ replicate 32 0\<rparr>"
  have h: "ComputeSHA256 L ?m = Some (H SHA256_ALG ?m)" by (rule ComputeSHA_digest [OF assms(1)])
  have l: "length (H SHA256_ALG ?m) = 32" using assms(1) by (simp add: sha_lib_ok_def SHAHashSize_def)
  have "store 0 (H SHA256_ALG ?m) (replicate 64 0) = Some (H SHA256_ALG ?m @ replicate 32 0)"
    using l by (simp add: store_def overwrite_def)
  with run h obtain ar' where pcr: "TPM2_PolicyPCR (logged P) st1 session None ?d (mask_selection TPM_ALG_SHA256 msk) = Some (TPM_RC_SUCCESS, ar', st')"
    unfolding build_policy_steps [OF pcrs pw] by (auto simp: bind_eq_Some_conv)
  have d: "wf_2b 64 ?d" "wire_2b ?d = be16 32 @ H SHA256_ALG ?m" using l by (simp_all add: wf_2b_def wire_2b_def)
  show ?thesis
    using policy_password_logged [OF pw] policy_pcr_logged [OF pcr d(1) wf_mask_selection] d(2) by (simp add: wire_mask_selection)
qed

lemma build_policy_hash_failure:
  assumes "\<And>d. ComputeSHA256 L d = None" and pcrs: "\<forall>p\<in>set pcrs. length p = 32" "length pcrs = MAX_PCRS" "length (masked_pcrs msk) \<le> 8"
    and "TPM2_PolicyPassword (logged P) st session None = Some (TPM_RC_SUCCESS, ar, st1)"
  shows "TPM2X_BuildPolicy (logged P) L st session True msk pcrs TPM_ALG_SHA256 = Some (TPM_RC_SUCCESS, st1)"
    "requests st1 = requests st @ [request_bytes TPM_ST_NO_SESSIONS 0x18c (be32 session)]"
  using assms policy_password_logged [OF assms(5)] build_policy_steps [OF pcrs assms(5), of L] by simp_all

lemma build_policy_overflow:
  assumes "length (masked_pcrs msk) > 8" "TPM2_PolicyPassword P st session None = Some (TPM_RC_SUCCESS, ar, st1)"
  shows "TPM2X_BuildPolicy P L st session True msk pcrs TPM_ALG_SHA256 = None"
proof -
  have "predicted_digests (dl_digests zero_digests) 0 pcrs (masked_pcrs msk) = None"
    using assms(1) zero_digests_ok(1) by (intro predicted_overflow) auto
  with assms(2) show ?thesis by (simp add: TPM2X_BuildPolicy_def one_selection_mask Let_def)
qed
subsection \<open>Commands without a session\<close>

lemma command_status:
  assumes "emits f w" "length w \<le> 4086" "answers P st (request_bytes TPM_ST_NO_SESSIONS cc w) r fw"
    and r: "r = response_bytes t (of_nat (length r)) code body"
  shows "command P st TPM_ST_NO_SESSIONS cc f ar (only_auth_response P None) = Some (code, ar, after P st fw)"
proof -
  have "tb_error (received r (of_nat (length r))) = 0" by (simp add: received_def)
  then show ?thesis
    unfolding command_answered [OF assms]
    by (simp add: only_auth_response_def parameter_size_def auth_response_def session_tag_def)
qed

lemma policy_password_answered:
  assumes "answers P st (request_bytes TPM_ST_NO_SESSIONS 0x18c (be32 session)) r fw" "r = response_bytes t (of_nat (length r)) code body"
  shows "TPM2_PolicyPassword P st session None = Some (code, zero_auth_response, after P st fw)"
  unfolding TPM2_PolicyPassword_def session_tag_def pack_auth_def
  by (simp, rule command_status [OF _ _ assms]) (auto intro: emits_none emits_u32)

lemma policy_pcr_answered:
  assumes "wf_2b 64 d" "wf_pcr_selections sel"
    and "answers P st (request_bytes TPM_ST_NO_SESSIONS 0x17f (be32 session @ wire_2b d @ wire_pcr_selections sel)) r fw"
      "r = response_bytes t (of_nat (length r)) code body"
  shows "TPM2_PolicyPCR P st session None d sel = Some (code, zero_auth_response, after P st fw)"
proof -
  have "emits (\<lambda>inb. do { inb \<leftarrow> TPMBufPackU32 inb session; inb \<leftarrow> pack_auth inb None;
          inb \<leftarrow> Pack_TPM2B inb (b_size d) (b_buffer d); Pack_TPML_PCR_SELECTION inb sel }) (be32 session @ [] @ wire_2b d @ wire_pcr_selections sel)"
    unfolding pack_auth_def option.case
    by (intro emits_bind emits_u32 emits_done emits_wf_2b [OF assms(1)] emits_pcr_selections [OF assms(2)])
  moreover have "length (be32 session @ [] @ wire_2b d @ wire_pcr_selections sel) \<le> 4086"
    using length_wire_2b [OF assms(1)] length_wire_pcr_selections [OF assms(2)] by simp
  ultimately show ?thesis
    using command_status [of _ "be32 session @ [] @ wire_2b d @ wire_pcr_selections sel" P st "0x17f" r fw t code body] assms(3,4)
    unfolding TPM2_PolicyPCR_def session_tag_def by simp
qed

lemma flush_answered:
  assumes "answers P st (flush_request h) r fw" "r = response_bytes t (of_nat (length r)) code body"
  shows "TPM2_FlushContext P st h = Some (code, (), after P st fw)"
proof -
  have "tb_error (received r (of_nat (length r))) = 0" by (simp add: received_def)
  moreover have "length (be32 h) \<le> 4086" by simp
  note command_answered [OF emits_u32 this assms(1) [unfolded flush_request_def] assms(2), where g = "\<lambda>u outb. Some (u, outb)" and outputs = "()"]
  ultimately show ?thesis
    by (simp add: TPM2_FlushContext_def)
qed

text \<open>The request that opens a policy session.\<close>

definition start_request :: "bool \<Rightarrow> bytes" where
  "start_request trial = request_bytes TPM_ST_NO_SESSIONS 0x176
     (be32 TPM_RH_NULL @ be32 TPM_RH_NULL @ be16 32 @ replicate 32 0 @ be16 0 @ [if trial then 3 else 1] @ be16 TPM_ALG_NULL @ be16 TPM_ALG_SHA256)"

lemma start_answered:
  assumes a: "answers P st (start_request trial) r fw" and nonce: "wf_2b 64 nonce"
    and r: "r = response_bytes t (of_nat (length r)) TPM_RC_SUCCESS (be32 h @ wire_2b nonce)"
  shows "TPM2X_StartAuthSession P st trial TPM_ALG_SHA256 stack = Some (TPM_RC_SUCCESS, h, after P st fw)"
proof -
  let ?n = "(zero_2b 64)\<lparr>b_size := 32\<rparr>" and ?sym = "zero_sym\<lparr>sym_algorithm := TPM_ALG_NULL\<rparr>"
  let ?w = "be32 TPM_RH_NULL @ be32 TPM_RH_NULL @ [] @ wire_2b ?n @ wire_2b (zero_2b 256) @ [if trial then 3 else 1] @ be16 TPM_ALG_NULL @ be16 TPM_ALG_SHA256"
  define f where "f = (\<lambda>inb. do { inb \<leftarrow> TPMBufPackU32 inb TPM_RH_NULL; inb \<leftarrow> TPMBufPackU32 inb TPM_RH_NULL; inb \<leftarrow> pack_auth inb None;
          inb \<leftarrow> Pack_TPM2B inb (b_size ?n) (b_buffer ?n); inb \<leftarrow> Pack_TPM2B inb (b_size (zero_2b 256)) (b_buffer (zero_2b 256));
          inb \<leftarrow> TPMBufPackU8 inb (if trial then 3 else 1); inb \<leftarrow> Pack_TPMT_SYM_DEF inb ?sym; TPMBufPackU16 inb TPM_ALG_SHA256 })"
  define g where "g = (\<lambda>(sessionHandle, nonceTPM, authResponse) outb. do {
          (sessionHandle, outb) \<leftarrow> into (TPMBufUnpackU32 outb) sessionHandle;
          outb \<leftarrow> parameter_size None outb;
          (nonceTPM, outb) \<leftarrow> Unpack_TPM2B outb nonceTPM;
          (authResponse, outb) \<leftarrow> auth_response P None outb authResponse;
          Some ((sessionHandle, nonceTPM, authResponse), outb) })"
  have wn: "wf_2b 64 ?n" by (simp add: wf_2b_def zero_2b_def)
  have sym: "Pack_TPMT_SYM_DEF b ?sym = Pack_TPMT_SYM_DEF_OBJECT b ?sym" "wire_sym ?sym = be16 TPM_ALG_NULL" for b
    by (simp_all add: Pack_TPMT_SYM_DEF_def Pack_TPMT_SYM_DEF_OBJECT_def wire_sym_def zero_sym_def)
  have f: "emits f ?w"
    unfolding f_def pack_auth_def option.case sym(1)
    by (intro emits_bind emits_u32 emits_done emits_wf_2b [OF wn] emits_wf_2b [OF wf_zero_2b] emits_u8 emits_u16 emits_sym [of ?sym, unfolded sym(2)])
  have w: "request_bytes TPM_ST_NO_SESSIONS 0x176 ?w = start_request trial" "length ?w \<le> 4086"
    by (simp_all add: start_request_def wire_2b_def zero_2b_def)
  have l: "unat (b_size nonce) \<le> length (b_buffer nonce)" "unat (b_size nonce) \<le> length (b_buffer (zero_2b 64))"
    using nonce by (simp_all add: wf_2b_def zero_2b_def)
  have g: "parses (g (0, zero_2b 64, zero_auth_response)) (be32 h @ wire_2b nonce) (h, over_2b (zero_2b 64) nonce, zero_auth_response)"
    unfolding g_def case_prod_conv parameter_size_def auth_response_def session_tag_def
    by simp (rule parses_bind parses_u32 parses_last parses_2b [OF l])+
  have "r = response_bytes t (of_nat (length r)) TPM_RC_SUCCESS ((be32 h @ wire_2b nonce) @ [])" using r by simp
  from command_success [where g = g, OF f w(2) a [folded w(1)] this g]
  have "command P st TPM_ST_NO_SESSIONS 0x176 f (0, zero_2b 64, zero_auth_response) g =
      Some (TPM_RC_SUCCESS, (h, over_2b (zero_2b 64) nonce, zero_auth_response), after P st fw)" .
  then show ?thesis
    unfolding TPM2X_StartAuthSession_def TPM2_StartAuthSession_def Let_def f_def [symmetric] g_def [symmetric]
    by (simp add: session_tag_def f_def g_def)
qed
subsection \<open>A firmware for the examples\<close>

text \<open>A firmware that answers with a function of the request; and two such functions: one that
  succeeds at everything, one that opens sessions and refuses everything else.\<close>

definition toy_capability :: tcg2_capability where
  "toy_capability = \<lparr>MaxResponseSize = 4096, TPMPresentFlag = True\<rparr>"

definition toy_tpm :: "(bytes \<Rightarrow> bytes) \<Rightarrow> unit tcg2_protocol" where
  "toy_tpm reply = \<lparr>GetCapability = (\<lambda>s. (0, toy_capability, s)), SubmitCommand = (\<lambda>s request n. (0, reply request, s)), stack_byte = 0\<rparr>"

definition toy_state :: "bytes list \<Rightarrow> (unit \<times> bytes list) tpm" where
  "toy_state l = \<lparr>firmware = ((), l), capability = Some toy_capability\<rparr>"

definition reply_ok :: "bytes \<Rightarrow> bytes" where
  "reply_ok request = response_bytes TPM_ST_NO_SESSIONS 10 TPM_RC_SUCCESS []"

definition reply_sessions :: "bytes \<Rightarrow> bytes" where
  "reply_sessions request =
     (if take 4 (drop 6 request) = be32 0x176 then response_bytes TPM_ST_NO_SESSIONS 16 TPM_RC_SUCCESS (be32 7 @ be16 0)
      else response_bytes TPM_ST_NO_SESSIONS 10 TPM_RC_FAILURE [])"

lemma toy_answers:
  assumes "length (reply request) \<le> 4095"
  shows "answers (logged (toy_tpm reply)) (toy_state l) request (reply request) ((), l @ [request])"
    and "after (logged (toy_tpm reply)) (toy_state l) ((), l @ [request]) = toy_state (l @ [request])"
  using assms by (simp_all add: answers_def after_def TCG2GetCapabilities_def toy_state_def toy_tpm_def logged_def toy_capability_def
      output_block_size_def)

lemma reply_ok_shape: "reply_ok request = response_bytes TPM_ST_NO_SESSIONS (of_nat (length (reply_ok request))) TPM_RC_SUCCESS []"
  by (simp add: reply_ok_def response_bytes_def)

lemma be32_inj: "be32 x = be32 y \<longleftrightarrow> x = y"
  using nat_le_word_inj [of 4 x y] by (auto simp: be32_def)

lemma reply_sessions_refuses:
  assumes "cc \<noteq> 0x176"
  shows "reply_sessions (request_bytes tag cc w) = response_bytes TPM_ST_NO_SESSIONS (of_nat (length (reply_sessions (request_bytes tag cc w)))) TPM_RC_FAILURE []"
  using assms by (simp add: reply_sessions_def request_bytes_def response_bytes_def be32_inj)

lemma reply_sessions_opens:
  "reply_sessions (start_request trial) =
     response_bytes TPM_ST_NO_SESSIONS (of_nat (length (reply_sessions (start_request trial)))) TPM_RC_SUCCESS (be32 7 @ wire_2b (zero_2b 64))"
  by (simp add: reply_sessions_def start_request_def request_bytes_def response_bytes_def be32_inj wire_2b_def zero_2b_def)

lemma toy_start: "TPM2X_StartAuthSession (logged (toy_tpm reply_sessions)) (toy_state l) trial TPM_ALG_SHA256 stack =
    Some (TPM_RC_SUCCESS, 7, toy_state (l @ [start_request trial]))"
proof -
  have "length (reply_sessions (start_request trial)) \<le> 4095" by (simp add: reply_sessions_def response_bytes_def)
  note a = toy_answers [of reply_sessions "start_request trial", OF this]
  show ?thesis using start_answered [OF a(1) wf_zero_2b reply_sessions_opens] unfolding a(2) .
qed

lemma toy_refused:
  "TPM2_PolicyPassword (logged (toy_tpm reply_sessions)) (toy_state l) h None =
     Some (TPM_RC_FAILURE, zero_auth_response, toy_state (l @ [request_bytes TPM_ST_NO_SESSIONS 0x18c (be32 h)]))"
  "TPM2_FlushContext (logged (toy_tpm reply_sessions)) (toy_state l) h = Some (TPM_RC_FAILURE, (), toy_state (l @ [flush_request h]))"
proof -
  have len: "length (reply_sessions request) \<le> 4095" for request by (simp add: reply_sessions_def response_bytes_def)
  note a = toy_answers [of reply_sessions, OF len]
  show "TPM2_PolicyPassword (logged (toy_tpm reply_sessions)) (toy_state l) h None =
     Some (TPM_RC_FAILURE, zero_auth_response, toy_state (l @ [request_bytes TPM_ST_NO_SESSIONS 0x18c (be32 h)]))"
    using policy_password_answered [OF a(1) reply_sessions_refuses] unfolding a(2) by simp
  show "TPM2_FlushContext (logged (toy_tpm reply_sessions)) (toy_state l) h = Some (TPM_RC_FAILURE, (), toy_state (l @ [flush_request h]))"
    using flush_answered [OF a(1), OF reply_sessions_refuses [of "0x165" TPM_ST_NO_SESSIONS "be32 h", folded flush_request_def]]
    unfolding a(2) by simp
qed

lemma toy_policy_refused:
  "TPM2X_BuildPolicy (logged (toy_tpm reply_sessions)) L (toy_state l) h predictive msk pcrs TPM_ALG_SHA256 =
     Some (TPM_RC_FAILURE, toy_state (l @ [request_bytes TPM_ST_NO_SESSIONS 0x18c (be32 h)]))"
  by (simp add: TPM2X_BuildPolicy_def toy_refused)

lemma toy_password_ok:
  "TPM2_PolicyPassword (logged (toy_tpm reply_ok)) (toy_state l) h None =
     Some (TPM_RC_SUCCESS, zero_auth_response, toy_state (l @ [request_bytes TPM_ST_NO_SESSIONS 0x18c (be32 h)]))"
proof -
  have len: "length (reply_ok request) \<le> 4095" for request by (simp add: reply_ok_def response_bytes_def)
  note a = toy_answers [of reply_ok, OF len]
  show ?thesis using policy_password_answered [OF a(1) reply_ok_shape] unfolding a(2) by simp
qed

lemma toy_policy_pcr_ok:
  assumes "wf_2b 64 d" "wf_pcr_selections sel"
  shows "\<exists>st'. TPM2_PolicyPCR (logged (toy_tpm reply_ok)) (toy_state l) h None d sel = Some (TPM_RC_SUCCESS, zero_auth_response, st')"
proof -
  have len: "length (reply_ok request) \<le> 4095" for request by (simp add: reply_ok_def response_bytes_def)
  note a = toy_answers [of reply_ok, OF len]
  show ?thesis using policy_pcr_answered [OF assms a(1) reply_ok_shape] by blast
qed
section \<open>Claims\<close>

text \<open>
  C9: A predicted policy authorises exactly the predicted registers. When building a policy for at most
  eight selected registers from predicted values succeeds, the TPM has been sent two commands and nothing
  else: the password policy, and one PCR policy for the same session whose digest is the SHA-256 of the
  predicted values of the registers in the mask, in ascending order, and whose selection is the three
  bytes of that mask in the SHA-256 bank.
\<close>

theorem BuildPolicy_binds_predicted_pcrs:
  assumes "sha_lib_ok L H hashed" "\<forall>p\<in>set pcrs. length p = 32" "length pcrs = MAX_PCRS" "length (masked_pcrs msk) \<le> 8"
    and "TPM2X_BuildPolicy (logged P) L st session True msk pcrs TPM_ALG_SHA256 = Some (TPM_RC_SUCCESS, st')"
  shows "requests st' = requests st @
    [request_bytes TPM_ST_NO_SESSIONS 0x18c (be32 session),
     request_bytes TPM_ST_NO_SESSIONS 0x17f (be32 session @ be16 32 @ H SHA256_ALG (concat (map ((!) pcrs) (masked_pcrs msk))) @
       be32 1 @ be16 TPM_ALG_SHA256 @ [3, ucast msk, ucast (drop_bit 8 msk), 0])]"
  by (rule build_policy_requests [OF assms])

lemma toy_policy_ok:
  "\<exists>st'. TPM2X_BuildPolicy (logged (toy_tpm reply_ok)) toy_sha_lib (toy_state []) 7 True 0x881 (replicate 16 (replicate 32 1)) TPM_ALG_SHA256 =
     Some (TPM_RC_SUCCESS, st')"
proof -
  let ?m = "concat (map ((!) (replicate 16 (replicate 32 (1::byte)))) (masked_pcrs 0x881))"
  have len: "length (masked_pcrs 0x881) \<le> 8" by code_simp
  have h: "ComputeSHA256 toy_sha_lib ?m = Some (toy_sha SHA256_ALG ?m)" by (rule ComputeSHA_digest [OF toy_sha_lib_ok])
  have s: "store 0 (toy_sha SHA256_ALG ?m) (replicate 64 0) = Some (toy_sha SHA256_ALG ?m @ replicate 32 0)"
    by (simp add: store_def overwrite_def toy_sha_def SHAHashSize_def)
  have "wf_2b 64 \<lparr>b_size = 32, b_buffer = toy_sha SHA256_ALG ?m @ replicate 32 0\<rparr>"
    by (simp add: wf_2b_def toy_sha_def SHAHashSize_def)
  from toy_policy_pcr_ok [OF this wf_mask_selection, of "[request_bytes TPM_ST_NO_SESSIONS 0x18c (be32 7)]" 7 TPM_ALG_SHA256 "0x881"]
  obtain st' where "TPM2_PolicyPCR (logged (toy_tpm reply_ok)) (toy_state [request_bytes TPM_ST_NO_SESSIONS 0x18c (be32 7)]) 7 None
      \<lparr>b_size = 32, b_buffer = toy_sha SHA256_ALG ?m @ replicate 32 0\<rparr> (mask_selection TPM_ALG_SHA256 0x881) = Some (TPM_RC_SUCCESS, zero_auth_response, st')" ..
  with h s build_policy_steps [where pcrs = "replicate 16 (replicate 32 1)" and L = toy_sha_lib, OF _ _ len toy_password_ok [of "[]" 7]] show ?thesis
    by simp
qed

theorem BuildPolicy_binds_predicted_pcrs_witness:
  "\<exists>st'. TPM2X_BuildPolicy (logged (toy_tpm reply_ok)) toy_sha_lib (toy_state []) 7 True 0x881 (replicate 16 (replicate 32 1)) TPM_ALG_SHA256 =
      Some (TPM_RC_SUCCESS, st') \<and> requests st' = requests (toy_state []) @
    [request_bytes TPM_ST_NO_SESSIONS 0x18c (be32 7),
     request_bytes TPM_ST_NO_SESSIONS 0x17f (be32 7 @ be16 32 @
       toy_sha SHA256_ALG (concat (map ((!) (replicate 16 (replicate 32 1))) (masked_pcrs 0x881))) @
       be32 1 @ be16 TPM_ALG_SHA256 @ [3, ucast (0x881 :: 32 word), ucast (drop_bit 8 (0x881 :: 32 word)), 0])]"
proof -
  have len: "length (masked_pcrs 0x881) \<le> 8" by code_simp
  from toy_policy_ok obtain st' where run: "TPM2X_BuildPolicy (logged (toy_tpm reply_ok)) toy_sha_lib (toy_state []) 7 True 0x881
      (replicate 16 (replicate 32 1)) TPM_ALG_SHA256 = Some (TPM_RC_SUCCESS, st')" ..
  from BuildPolicy_binds_predicted_pcrs [OF toy_sha_lib_ok _ _ len run] run show ?thesis by simp
qed

text \<open>
  C11: Sealing releases its session. Whatever the TPM answers after \<open>TPM2X_StartAuthSession\<close> has opened the
  trial session \<open>h\<close>, when \<open>TPM2X_Seal\<close> returns, on success and on every error path, the last command it
  has sent is the one that flushes \<open>h\<close>.
\<close>

theorem Seal_flushes_session:
  assumes "unat sz \<le> MAX_SYM_DATA" "TPM2X_StartAuthSession (logged P) st True TPM_ALG_SHA256 stack = Some (TPM_RC_SUCCESS, h, st1)"
    and "TPM2X_Seal (logged P) L st parentKey predictive pcrMask pcrs data sz blob stack = Some (rc, blob', st')"
  shows "\<exists>l. requests st' = l @ [flush_request h]"
  by (rule seal_flushes [OF assms])

lemma toy_seal:
  "TPM2X_Seal (logged (toy_tpm reply_sessions)) toy_sha_lib (toy_state []) 1 True 0x881 pcrs data 16 blob stack =
     Some (TPM_RC_SUCCESS, blob, toy_state [start_request True, request_bytes TPM_ST_NO_SESSIONS 0x18c (be32 7), flush_request 7])"
  by (simp add: TPM2X_Seal_def toy_start seal_in_session_def toy_policy_refused toy_refused)

theorem Seal_flushes_session_witness:
  "\<exists>l. requests (toy_state [start_request True, request_bytes TPM_ST_NO_SESSIONS 0x18c (be32 7), flush_request 7]) = l @ [flush_request 7]"
  by (rule Seal_flushes_session [OF _ toy_start toy_seal]) simp

text \<open>
  C12: Unsealing releases what it opened, exactly once and nothing else. After the policy session \<open>h\<close> has been
  opened, \<open>TPM2X_Unseal\<close> runs the policy, the load and the unseal command up to the first one that fails and
  returns that one's code. If the policy or the load failed, one command follows, the flush of \<open>h\<close>. If the
  object \<open>x\<close> was loaded and unsealing it failed, two follow, the flushes of \<open>h\<close> and of \<open>x\<close>. If it
  succeeded (the TPM itself has then closed the session), one follows, the flush of \<open>x\<close>, the handle
  that the load returned.
\<close>

theorem Unseal_flushes:
  assumes "TPM2X_StartAuthSession (logged P) st False (pub_nameAlg (bp_publicArea (blob_public blob))) 0 = Some (TPM_RC_SUCCESS, h, st1)"
    and "TPM2X_Unseal (logged P) L st pcrMask parentKey blob data sz = Some (rc, d, n, st')"
  shows "\<exists>rcP st2.
    TPM2X_BuildPolicy (logged P) L st1 h False pcrMask [] (pub_nameAlg (bp_publicArea (blob_public blob))) = Some (rcP, st2) \<and>
    (if rcP \<noteq> TPM_RC_SUCCESS then rc = rcP \<and> requests st' = requests st2 @ [flush_request h]
     else \<exists>rcL x nm ar st3.
       TPM2_Load (logged P) st2 parentKey (Some password_session) (blob_private blob) (Some (blob_public blob)) = Some (rcL, (x, nm, ar), st3) \<and>
       (if rcL \<noteq> TPM_RC_SUCCESS then rc = rcL \<and> requests st' = requests st3 @ [flush_request h]
        else \<exists>rcU out ar' st4.
          TPM2_Unseal (logged P) st3 x (Some (zero_auth_command\<lparr>ac_sessionHandle := h\<rparr>)) = Some (rcU, (out, ar'), st4) \<and> rc = rcU \<and>
          requests st' = requests st4 @ (if rcU = TPM_RC_SUCCESS then [flush_request x] else [flush_request h, flush_request x])))"
  by (rule unseal_flushes [OF assms])

lemma toy_unseal:
  assumes "pub_nameAlg (bp_publicArea (blob_public blob)) = TPM_ALG_SHA256"
  shows "TPM2X_Unseal (logged (toy_tpm reply_sessions)) toy_sha_lib (toy_state []) 0x881 1 blob data n =
     Some (TPM_RC_FAILURE, data, n, toy_state [start_request False, request_bytes TPM_ST_NO_SESSIONS 0x18c (be32 7), flush_request 7])"
  using assms by (simp add: TPM2X_Unseal_def toy_start unseal_in_session_def toy_policy_refused toy_refused flush_handle_def)

theorem Unseal_flushes_witness:
  "\<exists>st2. TPM2X_BuildPolicy (logged (toy_tpm reply_sessions)) toy_sha_lib (toy_state [start_request False]) 7 False 0x881 [] TPM_ALG_SHA256 =
      Some (TPM_RC_FAILURE, st2) \<and>
    requests (toy_state [start_request False, request_bytes TPM_ST_NO_SESSIONS 0x18c (be32 7), flush_request 7]) = requests st2 @ [flush_request 7]"
proof -
  have alg: "pub_nameAlg (bp_publicArea (blob_public sample_blob)) = TPM_ALG_SHA256" by (simp add: sample_blob_def)
  have start: "TPM2X_StartAuthSession (logged (toy_tpm reply_sessions)) (toy_state []) False (pub_nameAlg (bp_publicArea (blob_public sample_blob))) 0 =
      Some (TPM_RC_SUCCESS, 7, toy_state [start_request False])"
    by (simp only: alg toy_start append_Nil)
  from Unseal_flushes [OF start toy_unseal [OF alg]] show ?thesis
    by (simp add: toy_policy_refused alg)
qed

text \<open>
  C13: \<open>TPM2_Unseal\<close> speaks the protocol. It sends one command whose header carries the total length and
  whose body is the item handle and the authorisation area with its own length; if the TPM answers with a
  success response holding data of at most 128 bytes and an authorisation response, the call returns
  success, exactly these data, the rest of the buffer cleared, and the authorisation response.
\<close>

theorem TPM2_Unseal_returns_data:
  assumes "wf_auth a" "wf_2b MAX_SYM_DATA d" "wf_auth_response ar"
    and "answers P st (request_bytes TPM_ST_SESSIONS 0x15e (be32 item @ wire_auth a)) r fw"
    and "r = response_bytes t (of_nat (length r)) TPM_RC_SUCCESS (be32 n @ wire_2b d @ wire_auth_response ar)"
  shows "TPM2_Unseal P st item (Some a) =
    Some (TPM_RC_SUCCESS, (over_2b (zero_2b MAX_SYM_DATA) d, over_auth_response zero_auth_response ar), after P st fw)"
  by (rule unseal_exchange [OF assms])

definition toy_data :: tpm2b where
  "toy_data = \<lparr>b_size = 3, b_buffer = [1, 2, 3] @ replicate 125 0\<rparr>"

definition reply_data :: "bytes \<Rightarrow> bytes" where
  "reply_data request = response_bytes TPM_ST_SESSIONS 24 TPM_RC_SUCCESS (be32 5 @ wire_2b toy_data @ wire_auth_response zero_auth_response)"

theorem TPM2_Unseal_returns_data_witness:
  "\<exists>st'. TPM2_Unseal (logged (toy_tpm reply_data)) (toy_state []) 9 (Some password_session) =
    Some (TPM_RC_SUCCESS, (over_2b (zero_2b MAX_SYM_DATA) toy_data, over_auth_response zero_auth_response zero_auth_response), st')"
proof -
  let ?q = "request_bytes TPM_ST_SESSIONS 0x15e (be32 9 @ wire_auth password_session)"
  have r: "reply_data ?q = response_bytes TPM_ST_SESSIONS (of_nat (length (reply_data ?q))) TPM_RC_SUCCESS
      (be32 5 @ wire_2b toy_data @ wire_auth_response zero_auth_response)"
    by (simp add: reply_data_def response_bytes_def wire_2b_def toy_data_def wire_auth_response_def zero_auth_response_def zero_2b_def)
  have len: "length (reply_data ?q) \<le> 4095"
    by (simp add: reply_data_def response_bytes_def wire_2b_def toy_data_def wire_auth_response_def zero_auth_response_def zero_2b_def)
  have "wf_auth password_session" "wf_2b MAX_SYM_DATA toy_data" "wf_auth_response zero_auth_response"
    by (simp_all add: wf_auth_def password_session_def zero_auth_command_def wf_2b_def zero_2b_def toy_data_def wf_auth_response_def zero_auth_response_def)
  from TPM2_Unseal_returns_data [OF this toy_answers(1) [of reply_data ?q, OF len] r] show ?thesis by blast
qed

text \<open>
  C36: Sealing can report success without a blob. If building the policy fails after the session was opened,
  with any response code, \<open>TPM2X_Seal\<close> returns \<open>TPM_RC_SUCCESS\<close> and leaves the caller's blob as it was,
  because the failing code is not stored in \<open>rc\<close>.
\<close>

theorem Seal_success_without_blob:
  assumes "unat sz \<le> MAX_SYM_DATA" "TPM2X_StartAuthSession P st True TPM_ALG_SHA256 stack = Some (TPM_RC_SUCCESS, h, st1)"
    and "TPM2X_BuildPolicy P L st1 h predictive pcrMask pcrs TPM_ALG_SHA256 = Some (rcPolicy, st2)" "rcPolicy \<noteq> TPM_RC_SUCCESS"
    and "TPM2_FlushContext P st2 h = Some (rcFlush, u, st3)"
  shows "TPM2X_Seal P L st parentKey predictive pcrMask pcrs data sz blob stack = Some (TPM_RC_SUCCESS, blob, st3)"
  using assms by (simp add: TPM2X_Seal_def seal_in_session_def)

theorem Seal_success_without_blob_witness:
  "\<exists>st'. TPM2X_Seal (logged (toy_tpm reply_sessions)) toy_sha_lib (toy_state []) 1 True 0x881 [] [] 16 sample_blob 0 =
    Some (TPM_RC_SUCCESS, sample_blob, st')"
  using Seal_success_without_blob [OF _ toy_start toy_policy_refused _ toy_refused(2), of 16] by fastforce

text \<open>
  A policy without registers. If the digest of the predicted values cannot be computed,
  \<open>TPM2X_BuildPolicy\<close> reports success although it has only set the password policy and never sent the
  PCR policy, so the session it leaves does not depend on any register.
\<close>

lemma BuildPolicy_hash_failure:
  assumes "\<forall>d. ComputeSHA256 L d = None" "\<forall>p\<in>set pcrs. length p = 32" "length pcrs = MAX_PCRS" "length (masked_pcrs msk) \<le> 8"
    and "TPM2_PolicyPassword (logged P) st session None = Some (TPM_RC_SUCCESS, ar, st1)"
  shows "TPM2X_BuildPolicy (logged P) L st session True msk pcrs TPM_ALG_SHA256 = Some (TPM_RC_SUCCESS, st1) \<and>
    requests st1 = requests st @ [request_bytes TPM_ST_NO_SESSIONS 0x18c (be32 session)]"
  using build_policy_hash_failure [of L, OF _ assms(2-5)] assms(1) by simp

definition failing_sha_lib :: "unit sha_lib" where
  "failing_sha_lib = \<lparr>lib_init = (\<lambda>alg. None), lib_update = (\<lambda>alg c d. None), lib_final = (\<lambda>alg c. None)\<rparr>"

text \<open>
  C37: More than eight predicted registers overflow. The list of digests has eight entries, but the loop over
  the sixteen registers fills one entry per selected register without a bound: with nine or more bits in the
  mask a predictive policy writes beyond the array.
\<close>

theorem BuildPolicy_overflow:
  assumes "length (masked_pcrs msk) > 8" "TPM2_PolicyPassword P st session None = Some (TPM_RC_SUCCESS, ar, st1)"
  shows "TPM2X_BuildPolicy P L st session True msk pcrs TPM_ALG_SHA256 = None"
  by (rule build_policy_overflow [OF assms])

theorem BuildPolicy_overflow_witness:
  "TPM2X_BuildPolicy (logged (toy_tpm reply_ok)) toy_sha_lib (toy_state []) 7 True 0x1FF (replicate 16 (replicate 32 1)) TPM_ALG_SHA256 = None"
proof -
  have len: "length (masked_pcrs 0x1FF) > 8" by code_simp
  show ?thesis by (rule BuildPolicy_overflow [OF len toy_password_ok])
qed
text \<open>
  A sized buffer in a response is written within its array exactly when the size it announces is at most
  the capacity of the array: \<open>_Unpack_TPM2B\<close> compares the size with nothing, so a response that announces
  (and carries) more bytes makes it write beyond the structure.
\<close>

lemma Unpack_TPM2B_overflow_iff:
  assumes "ready b" "unread b = be16 n @ w @ rest" "length w = unat n"
  shows "Unpack_TPM2B b q = None \<longleftrightarrow> length (b_buffer q) < unat n"
  by (rule unpack_2b_fits_iff [OF assms])

end
