(* ===== verification/BubbleSort.thy ===== *)
theory BubbleSort
  imports Prelude "HOL-Library.Monad_Syntax" "HOL-Library.Multiset"
begin

text \<open>
  The bubble sort that the sources write out twice: \<open>posix_qsort\<close> (\<open>posix/stdlib.c\<close>), over
  a comparison callback, and \<open>StrArrSort\<close> (\<open>lsvmutils/strarr.c\<close>). A comparison may have no
  defined result (it dereferences its arguments), so the sort is partial. The contract of
  a comparison is the locale \<open>comparator\<close>: on good elements it is defined and positive
  exactly when the keys are out of order.
\<close>

text \<open>
  The inner loop: \<open>n\<close> comparisons of neighbours, from the front; the flag is \<open>swapped\<close>.
\<close>

fun bubble_pass :: "('a \<Rightarrow> 'a \<Rightarrow> int option) \<Rightarrow> nat \<Rightarrow> 'a list \<Rightarrow> ('a list \<times> bool) option" where
  "bubble_pass compar (Suc n) (lhs # rhs # rest) =
     do {
       c \<leftarrow> compar lhs rhs;
       if c > 0 then
         do { (r, swapped) \<leftarrow> bubble_pass compar n (lhs # rest); Some (rhs # r, True) }
       else
         do { (r, swapped) \<leftarrow> bubble_pass compar n (rhs # rest); Some (lhs # r, swapped) }
     }"
| "bubble_pass compar n xs = Some (xs, False)"

text \<open>The outer loop with its early exit; \<open>i\<close> rounds remain.\<close>

fun bubble_loop :: "('a \<Rightarrow> 'a \<Rightarrow> int option) \<Rightarrow> nat \<Rightarrow> nat \<Rightarrow> 'a list \<Rightarrow> 'a list option" where
  "bubble_loop compar 0 n xs = Some xs"
| "bubble_loop compar (Suc i) n xs =
     do {
       (xs', swapped) \<leftarrow> bubble_pass compar n xs;
       if \<not> swapped then Some xs' else bubble_loop compar i (n - 1) xs'
     }"

definition posix_qsort :: "'a list \<Rightarrow> ('a \<Rightarrow> 'a \<Rightarrow> int option) \<Rightarrow> 'a list option" where
  "posix_qsort base compar =
     (if length base = 0 then Some base
      else bubble_loop compar (length base - 1) (length base - 1) base)"

subsection \<open>The contract of a comparison\<close>

locale comparator =
  fixes compar :: "'a \<Rightarrow> 'a \<Rightarrow> int option"
    and good :: "'a \<Rightarrow> bool"
    and key :: "'a \<Rightarrow> 'k::linorder"
  assumes compar_key: "good x \<Longrightarrow> good y \<Longrightarrow> \<exists>c. compar x y = Some c \<and> (c > 0 \<longleftrightarrow> key y < key x)"
begin

lemma pass_spec:
  assumes "list_all good (x # xs)"
  shows "\<exists>ys m sw. bubble_pass compar (length xs) (x # xs @ zs) = Some (ys @ m # zs, sw) \<and>
    mset (ys @ [m]) = mset (x # xs) \<and> (\<forall>y \<in> set ys. key y \<le> key m) \<and>
    (\<not> sw \<longrightarrow> ys @ [m] = x # xs \<and> sorted (map key (x # xs)))"
  using assms
proof (induction xs arbitrary: x)
  case Nil
  show ?case by (rule exI [of _ "[]"], rule exI [of _ x], rule exI [of _ False]) simp
next
  case (Cons y xs)
  from compar_key [of x y] Cons.prems obtain c
    where c: "compar x y = Some c" "c > 0 \<longleftrightarrow> key y < key x" by auto
  define hi where "hi = (if c > 0 then x else y)"
  define lo where "lo = (if c > 0 then y else x)"
  from Cons.prems have "list_all good (hi # xs)" by (simp add: hi_def)
  from Cons.IH [OF this] obtain ys m sw
    where r: "bubble_pass compar (length xs) (hi # xs @ zs) = Some (ys @ m # zs, sw)"
      "mset (ys @ [m]) = mset (hi # xs)" "\<forall>y \<in> set ys. key y \<le> key m"
      "\<not> sw \<longrightarrow> ys @ [m] = hi # xs \<and> sorted (map key (hi # xs))" by blast
  have "hi \<in> set (ys @ [m])" using r(2) by (metis list.set_intros(1) mset_eq_setD)
  then have "key hi \<le> key m" using r(3) by auto
  moreover have "key lo \<le> key hi" using c(2) by (auto simp: hi_def lo_def)
  ultimately have lo: "key lo \<le> key m" by simp
  have "bubble_pass compar (length (y # xs)) (x # (y # xs) @ zs) = Some ((lo # ys) @ m # zs, c > 0 \<or> sw)"
    using r(1) c(1) by (auto simp: hi_def lo_def)
  moreover have "mset ((lo # ys) @ [m]) = mset (x # y # xs)"
    using r(2) by (simp add: hi_def lo_def)
  moreover have "\<not> (c > 0 \<or> sw) \<longrightarrow>
      (lo # ys) @ [m] = x # y # xs \<and> sorted (map key (x # y # xs))"
    using r(4) c(2) by (auto simp: hi_def lo_def)
  ultimately show ?case using r(3) lo by (metis set_ConsD)
qed

lemma loop_spec:
  assumes "list_all good as" "length as = Suc n" "sorted (map key bs)"
    and "\<forall>a \<in> set as. \<forall>b \<in> set bs. key a \<le> key b"
  shows "\<exists>ys. bubble_loop compar n n (as @ bs) = Some ys \<and> mset ys = mset (as @ bs) \<and> sorted (map key ys)"
  using assms
proof (induction n arbitrary: as bs)
  case 0
  then obtain a where "as = [a]" by (cases as) auto
  with 0 show ?case by auto
next
  case (Suc n)
  then obtain x xs where as: "as = x # xs" "length xs = Suc n" by (cases as) auto
  from pass_spec [of x xs bs] Suc.prems(1) as obtain ys m sw
    where p: "bubble_pass compar (Suc n) (as @ bs) = Some (ys @ m # bs, sw)"
      "mset (ys @ [m]) = mset as" "\<forall>y \<in> set ys. key y \<le> key m"
      "\<not> sw \<longrightarrow> ys @ [m] = as \<and> sorted (map key as)" by auto
  have s: "set (ys @ [m]) = set as" using p(2) by (rule mset_eq_setD)
  have mset: "mset (ys @ m # bs) = mset (as @ bs)" using p(2) by (simp add: union_assoc)
  show ?case
  proof (cases sw)
    case False
    with p(4) have "ys @ [m] = as" "sorted (map key as)" by auto
    with p(1) False Suc.prems(3,4) show ?thesis by (auto simp: sorted_append)
  next
    case True
    have "length (ys @ [m]) = length as" using p(2) by (metis size_mset)
    then have len: "length ys = Suc n" using Suc.prems(2) by simp
    have good: "list_all good ys" using Suc.prems(1) s by (auto simp: list_all_iff)
    have sorted: "sorted (map key (m # bs))" using Suc.prems(3,4) s by auto
    have le: "\<forall>a \<in> set ys. \<forall>b \<in> set (m # bs). key a \<le> key b" using p(3) Suc.prems(4) s by auto
    from Suc.IH [OF good len sorted le] p(1) True mset show ?thesis by auto
  qed
qed

lemma bubble_sorts:
  assumes "list_all good xs"
  shows "\<exists>ys. bubble_loop compar (length xs - 1) (length xs - 1) xs = Some ys \<and> mset ys = mset xs \<and> sorted (map key ys)"
  using loop_spec [of xs "length xs - 1" "[]"] assms by (cases xs) auto

lemma qsort_sorts:
  assumes "list_all good xs"
  shows "\<exists>ys. posix_qsort xs compar = Some ys \<and> mset ys = mset xs \<and> sorted (map key ys)"
  using bubble_sorts [OF assms] by (auto simp: posix_qsort_def)

end

end
