(* ===== verification/StrArr.thy ===== *)
theory StrArr
  imports CString BubbleSort "HOL-Library.List_Lexorder"
begin

text \<open>
  The string arrays of \<open>lsvmutils/strarr.c\<close>. The array owns a block of \<open>capacity\<close> pointers;
  a pointer is null, points to a string (the memory from its first character), or is still
  indeterminate because its cell was never written. Reading an indeterminate pointer and
  comparing a null one have no defined result.
\<close>

datatype sptr = Undef | Null | Str bytes

record strarr =
  sa_data :: "sptr list"
  sa_size :: nat
  sa_capacity :: nat

definition CAPACITY :: nat where
  "CAPACITY = 32"

definition strarr_init :: strarr where
  "strarr_init = \<lparr>sa_data = [], sa_size = 0, sa_capacity = 0\<rparr>"

text \<open>\<open>Free\<close> of an element: defined unless the pointer is indeterminate.\<close>

definition free_ok :: "sptr \<Rightarrow> bool" where
  "free_ok p \<longleftrightarrow> p \<noteq> Undef"

definition StrArrRelease :: "strarr \<Rightarrow> strarr option" where
  "StrArrRelease self =
     do {
       ps \<leftarrow> load 0 (sa_size self) (sa_data self);
       if list_all free_ok ps then Some strarr_init else None
     }"

text \<open>The block of pointers doubles when it is full; \<open>Realloc\<close> takes its sizes as \<open>unsigned int\<close>.\<close>

definition strarr_grow :: "heap \<Rightarrow> strarr \<Rightarrow> int \<times> strarr \<times> heap" where
  "strarr_grow h self =
     (if sa_size self = sa_capacity self then
        (let capacity = (if sa_capacity self \<noteq> 0 then u64 (sa_capacity self * 2) else CAPACITY);
             cells = u32 (u64 (8 * capacity)) div 8
         in case h 0 of
              None \<Rightarrow> (-1, self, heap_next h)
            | Some _ \<Rightarrow>
                (0, self\<lparr>sa_data := take cells (sa_data self) @ replicate (cells - length (sa_data self)) Undef,
                         sa_capacity := capacity\<rparr>, heap_next h))
      else (0, self, h))"

definition strarr_push :: "strarr \<Rightarrow> sptr \<Rightarrow> strarr option" where
  "strarr_push self p =
     do {
       d \<leftarrow> store (sa_size self) [p] (sa_data self);
       Some (self\<lparr>sa_data := d, sa_size := u64 (sa_size self + 1)\<rparr>)
     }"

definition StrArrAppend :: "heap \<Rightarrow> strarr \<Rightarrow> bytes option \<Rightarrow> (int \<times> strarr \<times> heap) option" where
  "StrArrAppend h self str =
     (let (rc, self1, h1) = strarr_grow h self
      in if rc \<noteq> 0 then Some (-1, self1, h1)
         else
           (case str of
              Some s \<Rightarrow>
                do {
                  (newStr, h2) \<leftarrow> Strdup h1 s;
                  (case newStr of
                     None \<Rightarrow> Some (-1, self1, h2)
                   | Some p \<Rightarrow> do { self2 \<leftarrow> strarr_push self1 (Str p); Some (0, self2, h2) })
                }
            | None \<Rightarrow> do { self2 \<leftarrow> strarr_push self1 Null; Some (0, self2, h1) }))"

definition StrArrAppendBorrow :: "heap \<Rightarrow> strarr \<Rightarrow> sptr \<Rightarrow> (int \<times> strarr \<times> heap) option" where
  "StrArrAppendBorrow h self str =
     (let (rc, self1, h1) = strarr_grow h self
      in if rc \<noteq> 0 then Some (-1, self1, h1)
         else do { self2 \<leftarrow> strarr_push self1 str; Some (0, self2, h1) })"

fun sptr_cmp :: "sptr \<Rightarrow> sptr \<Rightarrow> int option" where
  "sptr_cmp (Str s1) (Str s2) = posix_strcmp s1 s2"
| "sptr_cmp _ _ = None"

text \<open>\<open>StrArrSort\<close>: the bubble sort on the first \<open>size\<close> pointers.\<close>

definition StrArrSort :: "strarr \<Rightarrow> strarr option" where
  "StrArrSort self =
     (if sa_size self = 0 then Some self
      else
        do {
          ps \<leftarrow> load 0 (sa_size self) (sa_data self);
          ps' \<leftarrow> bubble_loop sptr_cmp (sa_size self - 1) (sa_size self - 1) ps;
          d \<leftarrow> store 0 ps' (sa_data self);
          Some (self\<lparr>sa_data := d\<rparr>)
        })"

fun strarr_find_loop :: "sptr list \<Rightarrow> bytes \<Rightarrow> nat \<Rightarrow> nat option" where
  "strarr_find_loop [] str i = Some (2 ^ 64 - 1)"
| "strarr_find_loop (p # ps) str i =
     do {
       c \<leftarrow> sptr_cmp p (Str str);
       if c = 0 then Some i else strarr_find_loop ps str (Suc i)
     }"

definition StrArrFind :: "strarr \<Rightarrow> bytes \<Rightarrow> nat option" where
  "StrArrFind self str =
     do {
       ps \<leftarrow> load 0 (sa_size self) (sa_data self);
       strarr_find_loop ps str 0
     }"

text \<open>\<open>StrArrRemove\<close> frees the element and moves the later pointers down one cell.\<close>

function shift_loop :: "nat \<Rightarrow> nat \<Rightarrow> sptr list \<Rightarrow> sptr list option" where
  "shift_loop i n d =
     (if i < n then
        do {
          p \<leftarrow> load (i + 1) 1 d;
          d' \<leftarrow> store i p d;
          shift_loop (Suc i) n d'
        }
      else Some d)"
  by pat_completeness auto
termination
  by (relation "measure (\<lambda>(i, n, d). n - i)") auto

declare shift_loop.simps [simp del]

definition StrArrRemove :: "strarr \<Rightarrow> nat \<Rightarrow> (int \<times> strarr) option" where
  "StrArrRemove self index =
     (if index \<ge> sa_size self then Some (-1, self)
      else
        do {
          p \<leftarrow> load index 1 (sa_data self);
          if \<not> list_all free_ok p then None
          else do {
            d \<leftarrow> shift_loop index (sa_size self - 1) (sa_data self);
            Some (0, self\<lparr>sa_data := d, sa_size := sa_size self - 1\<rparr>)
          }
        })"

subsection \<open>Splitting a string\<close>

lemma token_end_length: "token_end delim s = Some (tok, e) \<Longrightarrow> length tok + length e = length s \<and> e \<noteq> []"
  by (induction s arbitrary: tok) (auto split: if_splits)

lemma skip_delims_length: "skip_delims delim s = Some p \<Longrightarrow> length p \<le> length s"
  by (induction s) (auto split: if_splits)

definition strtok_left :: "bytes option \<Rightarrow> bytes option \<Rightarrow> nat" where
  "strtok_left str save =
     (case str of Some s \<Rightarrow> Suc (length s) | None \<Rightarrow> (case save of Some s \<Rightarrow> Suc (length s) | None \<Rightarrow> 0))"

lemma Strtok_shrinks:
  assumes "Strtok str delim save = Some (Some tok, save')"
  shows "strtok_left None save' < strtok_left str save"
proof -
  from assms obtain s p e where s: "(case str of Some s \<Rightarrow> Some s | None \<Rightarrow> save) = Some s"
    and p: "skip_delims delim s = Some p" and e: "token_end delim p = Some (tok, e)" "tok \<noteq> []"
    and sv: "save' = (if hd e \<noteq> 0 then Some (tl e) else None)"
    by (auto simp: Strtok_def split: option.splits bind_splits if_splits)
  from s have left: "strtok_left str save = Suc (length s)"
    by (auto simp: strtok_left_def split: option.splits)
  from skip_delims_length [OF p] token_end_length [OF e(1)] e(2)
  have "length (tl e) < length s" by (cases tok) auto
  with left sv show ?thesis by (simp add: strtok_left_def)
qed

text \<open>
  The loop of \<open>StrSplit\<close>; it ends because every token found shortens the rest. The integer is
  \<open>rc\<close> before the \<open>done\<close> label.
\<close>

function split_loop ::
  "heap \<Rightarrow> bytes \<Rightarrow> strarr \<Rightarrow> bytes option \<Rightarrow> bytes option \<Rightarrow> (int \<times> strarr \<times> heap) option" where
  "split_loop h delim arr str save =
     (case Strtok str delim save of
        None \<Rightarrow> None
      | Some (None, save') \<Rightarrow> Some (0, arr, h)
      | Some (Some p, save') \<Rightarrow>
          (case StrArrAppend h arr (Some (p @ [0])) of
             None \<Rightarrow> None
           | Some (rc, arr', h') \<Rightarrow>
               if rc \<noteq> 0 then Some (-1, arr', h') else split_loop h' delim arr' None save'))"
  by pat_completeness auto
termination
  by (relation "measure (\<lambda>(h, delim, arr, str, save). strtok_left str save)") (auto dest: Strtok_shrinks)

declare split_loop.simps [simp del]

definition StrSplit :: "heap \<Rightarrow> bytes option \<Rightarrow> bytes option \<Rightarrow> strarr \<Rightarrow> (int \<times> strarr \<times> heap) option" where
  "StrSplit h str delim arr =
     do {
       arr0 \<leftarrow> StrArrRelease arr;
       (rc, arr1, h1) \<leftarrow>
         (case (str, delim) of
            (Some s, Some dl) \<Rightarrow>
              do {
                (copy, h1) \<leftarrow> Strdup h s;
                (case copy of
                   None \<Rightarrow> Some (-1, arr0, h1)
                 | Some c \<Rightarrow> split_loop h1 dl arr0 (Some c) None)
              }
          | _ \<Rightarrow> Some (-1, arr0, h));
       if rc \<noteq> 0 then do { arr2 \<leftarrow> StrArrRelease arr1; Some (rc, arr2, h1) } else Some (rc, arr1, h1)
     }"

subsection \<open>Invariant and contents\<close>

definition strarr_inv :: "strarr \<Rightarrow> bool" where
  "strarr_inv a \<longleftrightarrow> length (sa_data a) = sa_capacity a \<and> sa_size a \<le> sa_capacity a \<and>
     sa_capacity a < 2 ^ 29 \<and> list_all free_ok (take (sa_size a) (sa_data a))"

definition strarr_elems :: "strarr \<Rightarrow> sptr list" where
  "strarr_elems a = take (sa_size a) (sa_data a)"

lemma strarr_inv_init: "strarr_inv strarr_init"
  by (simp add: strarr_inv_def strarr_init_def)

lemma strarr_init_empty [simp]: "strarr_elems strarr_init = []" "sa_size strarr_init = 0"
  by (simp_all add: strarr_init_def strarr_elems_def)

lemma StrArrRelease_inv: "strarr_inv a \<Longrightarrow> StrArrRelease a = Some strarr_init"
  by (auto simp: strarr_inv_def StrArrRelease_def load_def slice_def)

lemma strarr_grow_cases:
  assumes "strarr_inv a" "sa_size a < 2 ^ 28"
  obtains (room) "sa_size a < sa_capacity a" "strarr_grow h a = (0, a, h)"
    | (failed) "h 0 = None" "strarr_grow h a = (-1, a, heap_next h)"
    | (grown) x n where "h 0 = Some x" "sa_size a = sa_capacity a" "sa_size a < n" "n < 2 ^ 29"
        "strarr_grow h a =
           (0, a\<lparr>sa_data := sa_data a @ replicate (n - sa_capacity a) Undef, sa_capacity := n\<rparr>, heap_next h)"
proof (cases "sa_size a = sa_capacity a")
  case False
  then show ?thesis using assms by (intro room) (auto simp: strarr_grow_def strarr_inv_def)
next
  case True
  define n where "n = (if sa_capacity a \<noteq> 0 then u64 (sa_capacity a * 2) else CAPACITY)"
  have n: "sa_capacity a < n" "n < 2 ^ 29" using assms True by (auto simp: n_def CAPACITY_def)
  then have cells: "u32 (u64 (8 * n)) div 8 = n" by simp
  have "length (sa_data a) = sa_capacity a" using assms by (simp add: strarr_inv_def)
  then have eq: "strarr_grow h a = (case h 0 of None \<Rightarrow> (-1, a, heap_next h) | Some x \<Rightarrow>
      (0, a\<lparr>sa_data := sa_data a @ replicate (n - sa_capacity a) Undef, sa_capacity := n\<rparr>, heap_next h))"
    using True n unfolding strarr_grow_def n_def [symmetric] Let_def cells by (simp split: option.split)
  show ?thesis
  proof (cases "h 0")
    case None
    with eq show ?thesis by (intro failed) simp_all
  next
    case (Some x)
    with eq n True show ?thesis by (intro grown [of x n]) simp_all
  qed
qed

lemma strarr_grow_spec:
  assumes "strarr_inv a" "sa_size a < 2 ^ 28"
  shows "\<exists>rc a' h'. strarr_grow h a = (rc, a', h') \<and> strarr_inv a' \<and> strarr_elems a' = strarr_elems a \<and>
    sa_size a' = sa_size a \<and> (rc = 0 \<longrightarrow> sa_size a' < sa_capacity a') \<and> (heap_ok h \<longrightarrow> rc = 0 \<and> heap_ok h')"
  using assms(1)
  by (cases rule: strarr_grow_cases [OF assms, of h])
    (auto simp: strarr_inv_def strarr_elems_def heap_ok_def heap_next_def)

lemma strarr_push_spec:
  assumes "strarr_inv a" "sa_size a < sa_capacity a" "p \<noteq> Undef"
  shows "\<exists>a'. strarr_push a p = Some a' \<and> strarr_inv a' \<and> strarr_elems a' = strarr_elems a @ [p] \<and>
    sa_size a' = Suc (sa_size a)"
  using assms by (auto simp: strarr_push_def strarr_inv_def strarr_elems_def store_def free_ok_def overwrite_def)

text \<open>A string of moderate length is copied, with its terminator, into a block of its own.\<close>

lemma Strdup_spec:
  assumes "0 \<notin> set t" "length t < 2 ^ 31"
  shows "Strdup h (t @ 0 # r) = Some (map_option (\<lambda>_. t @ [0]) (h 0), heap_next h)"
proof (cases "h 0")
  case None
  with assms show ?thesis by (simp add: Strdup_def Malloc_def)
next
  case (Some x)
  have "store 0 (t @ [0]) (replicate (Suc (length t)) x) = Some (t @ [0])"
    by (simp add: store_def overwrite_def)
  with Some assms show ?thesis by (simp add: Strdup_def Malloc_def)
qed

lemma StrArrAppend_spec:
  assumes inv: "strarr_inv a" "sa_size a < 2 ^ 28" and t: "0 \<notin> set t" "length t < 2 ^ 31"
  shows "\<exists>rc a' h'. StrArrAppend h a (Some (t @ 0 # r)) = Some (rc, a', h') \<and> strarr_inv a' \<and>
    (rc = 0 \<longrightarrow> strarr_elems a' = strarr_elems a @ [Str (t @ [0])] \<and> sa_size a' = Suc (sa_size a)) \<and>
    (rc \<noteq> 0 \<longrightarrow> strarr_elems a' = strarr_elems a \<and> sa_size a' = sa_size a) \<and> (heap_ok h \<longrightarrow> rc = 0 \<and> heap_ok h')"
proof -
  from strarr_grow_spec [OF inv, of h] obtain rc a1 h1 where
    g: "strarr_grow h a = (rc, a1, h1)" "strarr_inv a1" "strarr_elems a1 = strarr_elems a"
      "sa_size a1 = sa_size a" "rc = 0 \<longrightarrow> sa_size a1 < sa_capacity a1" "heap_ok h \<longrightarrow> rc = 0 \<and> heap_ok h1"
    by blast
  show ?thesis
  proof (cases "rc = 0 \<and> h1 0 \<noteq> None")
    case True
    with g strarr_push_spec [of a1 "Str (t @ [0])"] obtain a2 where
      "strarr_push a1 (Str (t @ [0])) = Some a2" "strarr_inv a2"
      "strarr_elems a2 = strarr_elems a @ [Str (t @ [0])]" "sa_size a2 = Suc (sa_size a)" by auto
    with g True show ?thesis by (auto simp: StrArrAppend_def Strdup_spec [OF t])
  next
    case False
    with g(6) have "\<not> heap_ok h" by (metis heap_ok_0 option.distinct(1))
    with False g show ?thesis by (auto simp: StrArrAppend_def Strdup_spec [OF t])
  qed
qed

subsection \<open>Order of strings\<close>

text \<open>\<open>posix_strcmp\<close> decides the lexicographic order of the terminated strings.\<close>

lemma strcmp_order:
  assumes "0 \<in> set s1" "0 \<in> set s2"
  shows "\<exists>c. posix_strcmp s1 s2 = Some c \<and> (c > 0 \<longleftrightarrow> cstr s2 < cstr s1) \<and> (c = 0 \<longleftrightarrow> cstr s1 = cstr s2)"
  using assms
proof (induction s1 s2 rule: posix_strcmp.induct)
  case (1 a s1 b s2)
  have lt: "uint b < uint a \<longleftrightarrow> b < a" "uint a = uint b \<longleftrightarrow> a = b" for a b :: byte
    by (simp_all only: word_less_def word_uint_eq_iff)
  show ?case
  proof (cases "a = 0 \<or> b = 0 \<or> a \<noteq> b")
    case True
    then show ?thesis using lt [of b a] lt(2) [of a 0] lt(2) [of b 0] by (auto simp: cstr_def word_greater_zero_iff)
  next
    case False
    with "1.prems" "1.IH" show ?thesis by (auto simp: cstr_def)
  qed
qed auto

definition is_string :: "sptr \<Rightarrow> bool" where
  "is_string p \<longleftrightarrow> (case p of Str s \<Rightarrow> 0 \<in> set s | _ \<Rightarrow> False)"

definition sptr_key :: "sptr \<Rightarrow> bytes" where
  "sptr_key p = (case p of Str s \<Rightarrow> cstr s | _ \<Rightarrow> [])"

interpretation sptr_order: comparator sptr_cmp is_string sptr_key
proof
  fix x y
  assume "is_string x" "is_string y"
  then obtain s1 s2 where "x = Str s1" "y = Str s2" "0 \<in> set s1" "0 \<in> set s2"
    by (auto simp: is_string_def split: sptr.splits)
  with strcmp_order [of s1 s2] show "\<exists>c. sptr_cmp x y = Some c \<and> (c > 0 \<longleftrightarrow> sptr_key y < sptr_key x)"
    by (auto simp: sptr_key_def)
qed

subsection \<open>Sorting, searching, removing\<close>

lemma StrArrSort_sorts:
  assumes inv: "strarr_inv a" and str: "list_all is_string (strarr_elems a)"
  shows "\<exists>a'. StrArrSort a = Some a' \<and> strarr_inv a' \<and> mset (strarr_elems a') = mset (strarr_elems a) \<and>
    sorted (map sptr_key (strarr_elems a'))"
proof (cases "sa_size a = 0")
  case True
  then show ?thesis using inv by (simp add: StrArrSort_def strarr_elems_def)
next
  case False
  let ?ps = "strarr_elems a"
  have len: "length ?ps = sa_size a" "sa_size a \<le> length (sa_data a)"
    using inv by (auto simp: strarr_elems_def strarr_inv_def)
  from sptr_order.bubble_sorts [OF str] len obtain ys where
    ys: "bubble_loop sptr_cmp (sa_size a - 1) (sa_size a - 1) ?ps = Some ys" "mset ys = mset ?ps"
      "sorted (map sptr_key ys)" by auto
  let ?a = "a\<lparr>sa_data := overwrite 0 ys (sa_data a)\<rparr>"
  have lys: "length ys = sa_size a" using ys(2) len(1) by (metis size_mset)
  then have elems: "strarr_elems ?a = ys" using len by (simp add: strarr_elems_def overwrite_def)
  have "set ys = set ?ps" using ys(2) by (rule mset_eq_setD)
  then have "list_all free_ok ys" using inv by (auto simp: strarr_inv_def strarr_elems_def list_all_iff)
  then have "strarr_inv ?a" using inv len lys elems by (auto simp: strarr_inv_def strarr_elems_def)
  moreover have "StrArrSort a = Some ?a"
    using False ys(1) len lys by (auto simp: StrArrSort_def load_def store_def slice_def strarr_elems_def)
  ultimately show ?thesis using ys elems by auto
qed

lemma find_loop_spec:
  assumes "list_all is_string ps" "0 \<in> set str"
  shows "strarr_find_loop ps str i =
    Some (if \<exists>p \<in> set ps. sptr_key p = cstr str then i + length (takeWhile (\<lambda>p. sptr_key p \<noteq> cstr str) ps)
          else 2 ^ 64 - 1)"
  using assms
proof (induction ps arbitrary: i)
  case (Cons p ps)
  then obtain s where p: "p = Str s" "0 \<in> set s" by (auto simp: is_string_def split: sptr.splits)
  with strcmp_order [of s str] Cons.prems(2) obtain c
    where "posix_strcmp s str = Some c" "c = 0 \<longleftrightarrow> cstr s = cstr str" by auto
  with p Cons show ?case by (auto simp: sptr_key_def)
qed simp

lemma StrArrFind_spec:
  assumes "strarr_inv a" "list_all is_string (strarr_elems a)" "0 \<in> set str"
  shows "StrArrFind a str =
    Some (if \<exists>p \<in> set (strarr_elems a). sptr_key p = cstr str
          then length (takeWhile (\<lambda>p. sptr_key p \<noteq> cstr str) (strarr_elems a)) else 2 ^ 64 - 1)"
  using assms find_loop_spec [OF assms(2,3), of 0]
  by (simp add: StrArrFind_def load_def slice_def strarr_inv_def strarr_elems_def)

lemma shift_loop_spec:
  assumes "i \<le> n" "n < length d"
  shows "shift_loop i n d = Some (take i d @ slice (Suc i) (n - i) d @ drop n d)"
  using assms
proof (induction i n d rule: shift_loop.induct)
  case (1 i n d)
  show ?case
  proof (cases "i < n")
    case False
    then show ?thesis using "1.prems" by (subst shift_loop.simps) simp
  next
    case True
    let ?p = "slice (i + 1) 1 d" and ?d = "overwrite i (slice (i + 1) 1 d) d"
    have p: "load (i + 1) 1 d = Some ?p" "length ?p = 1" using True "1.prems" by (simp_all add: load_def)
    have st: "store i ?p d = Some ?d" using p True "1.prems" by (simp add: store_def)
    have "slice (Suc (Suc i)) (n - Suc i) ?d = slice (Suc (Suc i)) (n - Suc i) d"
      using p True "1.prems" by (intro slice_overwrite_after) auto
    moreover have "take (Suc i) ?d = take i d @ ?p"
      using p True "1.prems" by (simp add: overwrite_def)
    moreover have "drop n ?d = drop n d"
      using p True "1.prems" by (simp add: overwrite_def)
    moreover have "slice (Suc i) (n - i) d = ?p @ slice (Suc (Suc i)) (n - Suc i) d"
      using slice_split [of "Suc i" 1 "n - Suc i" d] True by (simp add: Suc_diff_Suc)
    ultimately show ?thesis
      using "1.IH" [OF True p(1) st] True "1.prems" p st by (subst shift_loop.simps) simp
  qed
qed

lemma StrArrRemove_spec:
  assumes inv: "strarr_inv a" and i: "index < sa_size a"
  shows "\<exists>a'. StrArrRemove a index = Some (0, a') \<and> strarr_inv a' \<and>
    strarr_elems a' = take index (strarr_elems a) @ drop (Suc index) (strarr_elems a)"
proof -
  let ?n = "sa_size a - 1" and ?d = "sa_data a"
  have len: "sa_size a \<le> length ?d" using inv by (simp add: strarr_inv_def)
  let ?d' = "take index ?d @ slice (Suc index) (?n - index) ?d @ drop ?n ?d"
  let ?a = "a\<lparr>sa_data := ?d', sa_size := ?n\<rparr>"
  have sh: "shift_loop index ?n ?d = Some ?d'" using i len by (intro shift_loop_spec) auto
  have one: "slice index (Suc 0) ?d = [?d ! index]"
    using i len by (simp add: slice_def take_Suc_conv_app_nth)
  have fr: "list_all free_ok (take (sa_size a) ?d)" using inv by (simp add: strarr_inv_def)
  have "?d ! index \<in> set (take (sa_size a) ?d)" using i len by (auto simp: in_set_conv_nth)
  with fr have ok: "list_all free_ok (slice index (Suc 0) ?d)" by (simp add: one list_all_iff)
  have elems: "strarr_elems ?a = take index (strarr_elems a) @ drop (Suc index) (strarr_elems a)"
  proof -
    have "length (take index ?d @ slice (Suc index) (?n - index) ?d) = ?n" using i len by simp
    then have "take ?n ?d' = take index ?d @ slice (Suc index) (?n - index) ?d"
      by (metis append_assoc append_eq_conv_conj)
    with i show ?thesis by (simp add: strarr_elems_def slice_def drop_take)
  qed
  have "list_all free_ok (strarr_elems ?a)"
    using fr set_take_subset [of index "strarr_elems a"] set_drop_subset [of "Suc index" "strarr_elems a"]
    unfolding elems list_all_iff by (auto simp del: take_take simp: strarr_elems_def)
  then have "strarr_inv ?a" using inv i len by (auto simp: strarr_inv_def strarr_elems_def)
  moreover have "StrArrRemove a index = Some (0, ?a)"
    using i len ok sh by (simp add: StrArrRemove_def load_def)
  ultimately show ?thesis using elems by blast
qed

subsection \<open>What \<open>StrSplit\<close> yields\<close>

text \<open>The pieces between delimiters, and the tokens: the pieces that are not empty.\<close>

fun pieces :: "('a \<Rightarrow> bool) \<Rightarrow> 'a list \<Rightarrow> 'a list list" where
  "pieces P [] = [[]]"
| "pieces P (x # xs) = (if P x then [] # pieces P xs else (x # hd (pieces P xs)) # tl (pieces P xs))"

definition tokens :: "('a \<Rightarrow> bool) \<Rightarrow> 'a list \<Rightarrow> 'a list list" where
  "tokens P xs = filter (\<lambda>t. t \<noteq> []) (pieces P xs)"

lemma pieces_not_Nil [simp]: "pieces P xs \<noteq> []"
  by (cases xs) auto

lemma tokens_Nil [simp]: "tokens P [] = []"
  by (simp add: tokens_def)

lemma tokens_skip: "tokens P (dropWhile P xs) = tokens P xs"
  by (induction xs) (auto simp: tokens_def)

lemma pieces_span:
  "pieces P xs = takeWhile (\<lambda>x. \<not> P x) xs #
     (case dropWhile (\<lambda>x. \<not> P x) xs of [] \<Rightarrow> [] | _ # ys \<Rightarrow> pieces P ys)"
  by (induction xs) auto

lemma tokens_span:
  "tokens P xs = (let t = takeWhile (\<lambda>x. \<not> P x) xs; r = dropWhile (\<lambda>x. \<not> P x) xs in
     (if t = [] then [] else [t]) @ (case r of [] \<Rightarrow> [] | _ # ys \<Rightarrow> tokens P ys))"
  unfolding tokens_def Let_def by (subst pieces_span) (auto split: list.split simp del: dropWhile_eq_Nil_conv)

lemma skip_delims_spec:
  "0 \<notin> set t \<Longrightarrow> skip_delims delim (t @ 0 # r) = Some (dropWhile (is_delim delim) t @ 0 # r)"
  by (induction t) auto

lemma token_end_spec:
  "0 \<notin> set t \<Longrightarrow> token_end delim (t @ 0 # r) =
     Some (takeWhile (\<lambda>c. \<not> is_delim delim c) t, dropWhile (\<lambda>c. \<not> is_delim delim c) t @ 0 # r)"
  by (induction t) auto

lemma Strtok_spec:
  assumes "(case str of Some s \<Rightarrow> Some s | None \<Rightarrow> save) = Some (t @ 0 # r)" "0 \<notin> set t"
    and t': "t' = dropWhile (is_delim delim) t"
  shows "Strtok str delim save =
    Some (if t' = [] then (None, save)
          else (Some (takeWhile (\<lambda>c. \<not> is_delim delim c) t'),
                case dropWhile (\<lambda>c. \<not> is_delim delim c) t' of [] \<Rightarrow> None | c # ys \<Rightarrow> Some (ys @ 0 # r)))"
proof -
  have nz: "0 \<notin> set t'" using assms(2) t' by (auto dest: set_dropWhileD)
  have nd: "t' \<noteq> [] \<Longrightarrow> \<not> is_delim delim (hd t')" unfolding t' by (rule hd_dropWhile)
  have e0: "hd (dropWhile (\<lambda>c. \<not> is_delim delim c) t' @ 0 # r) \<noteq> 0 \<longleftrightarrow> dropWhile (\<lambda>c. \<not> is_delim delim c) t' \<noteq> []"
  proof (cases "dropWhile (\<lambda>c. \<not> is_delim delim c) t'")
    case (Cons c ys)
    then have "c \<in> set (dropWhile (\<lambda>c. \<not> is_delim delim c) t')" by simp
    then have "c \<in> set t'" by (rule set_dropWhileD)
    with nz Cons show ?thesis by auto
  next
    case Nil
    then show ?thesis by (simp only: append_Nil list.sel) simp
  qed
  have "takeWhile (\<lambda>c. \<not> is_delim delim c) t' = [] \<longleftrightarrow> t' = []"
    using nd by (cases t') auto
  with assms(1) e0 show ?thesis
    by (auto simp: Strtok_def skip_delims_spec [OF assms(2)] t' [symmetric] token_end_spec [OF nz]
        split: list.splits simp del: dropWhile_eq_Nil_conv)
qed

text \<open>The text that is left to split, in the two forms the loop passes it.\<close>

definition strtok_src :: "bytes option \<Rightarrow> bytes option \<Rightarrow> bytes \<Rightarrow> bool" where
  "strtok_src str save t \<longleftrightarrow>
     (\<exists>r. (case str of Some s \<Rightarrow> Some s | None \<Rightarrow> save) = Some (t @ 0 # r)) \<or> (str = None \<and> save = None \<and> t = [])"

definition string_of :: "bytes \<Rightarrow> sptr" where
  "string_of t = Str (t @ [0])"

lemma Strtok_step:
  assumes "strtok_src str save t" "0 \<notin> set t"
  shows "case tokens (is_delim delim) t of
      [] \<Rightarrow> \<exists>sv. Strtok str delim save = Some (None, sv)
    | tok # ts \<Rightarrow> \<exists>sv t2. Strtok str delim save = Some (Some tok, sv) \<and> strtok_src None sv t2 \<and> 0 \<notin> set t2 \<and> 0 \<notin> set tok \<and>
        tok \<noteq> [] \<and> tokens (is_delim delim) t2 = ts \<and> length tok + length t2 \<le> length t"
proof -
  let ?P = "is_delim delim"
  let ?t' = "dropWhile ?P t"
  let ?tok = "takeWhile (\<lambda>c. \<not> ?P c) ?t'" and ?d = "dropWhile (\<lambda>c. \<not> ?P c) ?t'"
  show ?thesis
  proof (cases "?t' = []")
    case True
    have "tokens ?P ?t' = []" unfolding True by (simp add: tokens_def)
    then have "tokens ?P t = []" by (simp only: tokens_skip)
    moreover have "\<exists>sv. Strtok str delim save = Some (None, sv)"
    proof (cases "str = None \<and> save = None")
      case False
      then obtain r where "(case str of Some s \<Rightarrow> Some s | None \<Rightarrow> save) = Some (t @ 0 # r)"
        using assms(1) by (auto simp: strtok_src_def)
      from Strtok_spec [OF this assms(2) refl, of delim] show ?thesis unfolding True by simp
    qed (simp add: Strtok_def)
    ultimately show ?thesis by simp
  next
    case False
    then obtain r where "(case str of Some s \<Rightarrow> Some s | None \<Rightarrow> save) = Some (t @ 0 # r)"
      using assms(1) by (auto simp: strtok_src_def)
    note st = Strtok_spec [OF this assms(2) refl, of delim]
    define sv where "sv = (case ?d of [] \<Rightarrow> None | c # ys \<Rightarrow> Some (ys @ 0 # r))"
    define t2 where "t2 = tl ?d"
    have tok: "?tok \<noteq> []" using False hd_dropWhile [OF False] by (cases ?t') auto
    have "length ?tok + length ?d = length ?t'" by (metis length_append takeWhile_dropWhile_id)
    moreover have "length ?t' \<le> length t" by (rule length_dropWhile_le)
    ultimately have len: "length ?tok + length t2 \<le> length t" by (simp add: t2_def)
    have strtok: "Strtok str delim save = Some (Some ?tok, sv)" using st False by (simp add: sv_def)
    have toks: "tokens ?P t = ?tok # tokens ?P t2"
      using tok tokens_span [of ?P ?t'] unfolding tokens_skip
      by (cases ?d) (simp_all add: Let_def t2_def del: dropWhile_eq_Nil_conv)
    have src: "strtok_src None sv t2"
      by (cases ?d) (auto simp: strtok_src_def sv_def t2_def simp del: dropWhile_eq_Nil_conv)
    have nz: "0 \<notin> set t2" "0 \<notin> set ?tok" using assms(2)
      by (metis t2_def list.sel(2) list.set_sel(2) set_dropWhileD) (meson assms(2) set_dropWhileD set_takeWhileD)
    show ?thesis unfolding toks using strtok src nz tok len by auto
  qed
qed

lemma split_loop_spec:
  assumes "strtok_src str save t" "0 \<notin> set t" "strarr_inv arr" "sa_size arr + length t < 2 ^ 28"
  shows "\<exists>rc arr' h'. split_loop h delim arr str save = Some (rc, arr', h') \<and> strarr_inv arr' \<and>
    (rc = 0 \<longrightarrow> strarr_elems arr' = strarr_elems arr @ map string_of (tokens (is_delim delim) t)) \<and>
    (heap_ok h \<longrightarrow> rc = 0)"
  using assms
proof (induction h delim arr str save arbitrary: t rule: split_loop.induct)
  case (1 h delim arr str save)
  note step = Strtok_step [OF "1.prems"(1,2), of delim]
  show ?case
  proof (cases "tokens (is_delim delim) t")
    case Nil
    with step obtain sv where "Strtok str delim save = Some (None, sv)" by auto
    with Nil "1.prems"(3) show ?thesis by (subst split_loop.simps) auto
  next
    case (Cons tok ts)
    with step obtain sv t2 where st: "Strtok str delim save = Some (Some tok, sv)" "strtok_src None sv t2" "0 \<notin> set t2"
      "0 \<notin> set tok" "tok \<noteq> []" "tokens (is_delim delim) t2 = ts" "length tok + length t2 \<le> length t" by auto
    have "length tok < 2 ^ 31" "sa_size arr < 2 ^ 28" using st(7) "1.prems"(4) by auto
    with st(4) obtain rc a1 h1 where
      a1: "StrArrAppend h arr (Some (tok @ [0])) = Some (rc, a1, h1)" "strarr_inv a1"
        "rc = 0 \<longrightarrow> strarr_elems a1 = strarr_elems arr @ [string_of tok] \<and> sa_size a1 = Suc (sa_size arr)"
        "heap_ok h \<longrightarrow> rc = 0 \<and> heap_ok h1"
      using StrArrAppend_spec [OF "1.prems"(3), of tok h "[]"] by (auto simp: string_of_def)
    show ?thesis
    proof (cases "rc = 0")
      case False
      then show ?thesis using st(1) a1 by (subst split_loop.simps) auto
    next
      case True
      have "length t2 < length t" using st(5,7) by (cases tok) auto
      then have "sa_size a1 + length t2 < 2 ^ 28" using a1(3) True "1.prems"(4) by simp
      with "1.IH" [OF st(1) refl refl a1(1) refl refl _ st(2,3) a1(2)] True obtain rc2 a2 h2 where
        "split_loop h1 delim a1 None sv = Some (rc2, a2, h2)" "strarr_inv a2"
        "rc2 = 0 \<longrightarrow> strarr_elems a2 = strarr_elems a1 @ map string_of ts" "heap_ok h1 \<longrightarrow> rc2 = 0"
        using st(6) by auto
      then show ?thesis using st a1 True Cons by (subst split_loop.simps) auto
    qed
  qed
qed

lemma StrSplit_spec:
  assumes "strarr_inv arr" "0 \<notin> set t" "length t < 2 ^ 28"
  shows "\<exists>rc arr' h'. StrSplit h (Some (t @ 0 # r)) (Some delim) arr = Some (rc, arr', h') \<and> strarr_inv arr' \<and>
    (rc = 0 \<longrightarrow> strarr_elems arr' = map string_of (tokens (is_delim delim) t)) \<and>
    (rc \<noteq> 0 \<longrightarrow> arr' = strarr_init) \<and> (heap_ok h \<longrightarrow> rc = 0)"
proof (cases "h 0")
  case None
  then show ?thesis using assms
    by (auto simp: StrSplit_def StrArrRelease_inv strarr_inv_init Strdup_spec heap_ok_def)
next
  case (Some x)
  have "strtok_src (Some (t @ [0])) None t" by (simp add: strtok_src_def)
  from split_loop_spec [OF this assms(2) strarr_inv_init, of "heap_next h" delim] assms(3) obtain rc a' h' where
    "split_loop (heap_next h) delim strarr_init (Some (t @ [0])) None = Some (rc, a', h')" "strarr_inv a'"
    "rc = 0 \<longrightarrow> strarr_elems a' = map string_of (tokens (is_delim delim) t)" "heap_ok (heap_next h) \<longrightarrow> rc = 0"
    by auto
  with Some assms show ?thesis
    by (auto simp: StrSplit_def StrArrRelease_inv strarr_inv_init Strdup_spec)
qed

section \<open>Claims\<close>

text \<open>
  \<open>StrArrSort\<close> sorts: the elements after the call are the elements before it, in ascending
  order of the strings they point to, and the array stays well formed.
\<close>

lemma StrArrSort_sorted_permutation:
  assumes "strarr_inv a" "list_all is_string (strarr_elems a)"
  shows "\<exists>a'. StrArrSort a = Some a' \<and> strarr_inv a' \<and> mset (strarr_elems a') = mset (strarr_elems a) \<and>
    sorted (map sptr_key (strarr_elems a'))"
  using assms by (rule StrArrSort_sorts)

text \<open>
  \<open>StrArrFind\<close> returns the index of the first element equal to the string, and
  \<open>(UINTN)-1\<close> exactly when no element is.
\<close>

lemma StrArrFind_first:
  assumes "strarr_inv a" "list_all is_string (strarr_elems a)" "0 \<in> set str"
  shows "StrArrFind a str =
    Some (if \<exists>p \<in> set (strarr_elems a). sptr_key p = cstr str
          then length (takeWhile (\<lambda>p. sptr_key p \<noteq> cstr str) (strarr_elems a)) else 2 ^ 64 - 1)"
  using assms by (rule StrArrFind_spec)

text \<open>
  \<open>StrSplit\<close> gives the non-empty maximal pieces of the string between delimiters, in order, each
  as a fresh string; when an allocation fails the array is released and empty.
\<close>

lemma StrSplit_tokens:
  assumes "strarr_inv arr" "0 \<notin> set t" "length t < 2 ^ 28"
  shows "\<exists>rc arr' h'. StrSplit h (Some (t @ 0 # r)) (Some delim) arr = Some (rc, arr', h') \<and> strarr_inv arr' \<and>
    (rc = 0 \<longrightarrow> strarr_elems arr' = map string_of (tokens (is_delim delim) t)) \<and>
    (rc \<noteq> 0 \<longrightarrow> arr' = strarr_init) \<and> (heap_ok h \<longrightarrow> rc = 0)"
  using assms by (rule StrSplit_spec)

end
