(* ===== verification/Cpio.thy ===== *)
theory Cpio
  imports StrArr ByteOrder
begin

text \<open>
  CPIO archives (\<open>lsvmutils/cpio.c\<close>), the format of the initial ramdisk that LSVMLOAD patches.

  The archive is its memory \<open>mem\<close> and its size; a \<open>CPIOHeader*\<close> is the offset of the header
  in it, an integer because the size of a malformed entry can be negative; a null header is
  \<open>None\<close>. \<open>int\<close> arithmetic is two's complement. A loop over headers need not end on a
  malformed archive, so the loops are partial functions: \<open>None\<close> is an access out of bounds or
  a loop that does not return (the header a loop starts from is never null), and the theorems show \<open>Some\<close> results on well-formed archives.
\<close>

subsection \<open>Sizes\<close>

definition CPIO_HEADER_SIZE :: nat where
  "CPIO_HEADER_SIZE = 110"

definition CPIO_BLOCK_SIZE :: nat where
  "CPIO_BLOCK_SIZE = 512"

definition TRAILER :: bytes where
  "TRAILER = ascii ''TRAILER!!!''"

text \<open>The empty archive: the directory \<open>.\<close> and a trailer, padded to a block.\<close>

definition empty_archive :: bytes where
  "empty_archive =
     ascii ''070701002C0CB8000041ED00000000000000000000000257E0364C00000000000000FC0000000200000000000000000000000200000000.''
     @ [0]
     @ ascii ''07070100000000000000000000000000000000000000010000000000000000000000000000000000000000000000000000000B00000000TRAILER!!!''
     @ replicate 280 0"

text \<open>Conversion of an \<open>int\<close> to \<open>UINTN\<close>.\<close>

definition u64i :: "int \<Rightarrow> nat" where
  "u64i i = nat (i mod 2 ^ 64)"

definition loadi :: "int \<Rightarrow> nat \<Rightarrow> bytes \<Rightarrow> bytes option" where
  "loadi off n mem = (if off < 0 then None else load (nat off) n mem)"

definition fromi :: "int \<Rightarrow> bytes \<Rightarrow> bytes option" where
  "fromi off mem = (if off < 0 \<or> nat off > length mem then None else Some (drop (nat off) mem))"

subsection \<open>Numbers\<close>

text \<open>The loop of \<open>_HexToInt\<close>, over the characters from the last one.\<close>

fun hex_loop :: "bytes \<Rightarrow> int \<Rightarrow> int \<Rightarrow> int" where
  "hex_loop [] r x = x"
| "hex_loop (c # rev_s) r x =
     (if c \<ge> chr CHR ''0'' \<and> c \<le> chr CHR ''9'' then hex_loop rev_s (s32 (r * 16)) (s32 (x + s32 (r * (uint c - 48))))
      else if c \<ge> chr CHR ''A'' \<and> c \<le> chr CHR ''F'' then hex_loop rev_s (s32 (r * 16)) (s32 (x + s32 (r * (uint c - 65 + 10))))
      else -1)"

definition HexToInt :: "bytes \<Rightarrow> int" where
  "HexToInt str = hex_loop (rev str) 1 0"

definition HexDigit :: "32 word \<Rightarrow> byte" where
  "HexDigit x = (if unat x < 16 then ascii ''0123456789ABCDEF'' ! unat x else 0)"

definition IntToHex :: "32 word \<Rightarrow> bytes" where
  "IntToHex x =
     [HexDigit (drop_bit 28 (x AND 0xF0000000)),
      HexDigit (drop_bit 24 (x AND 0x0F000000)),
      HexDigit (drop_bit 20 (x AND 0x00F00000)),
      HexDigit (drop_bit 16 (x AND 0x000F0000)),
      HexDigit (drop_bit 12 (x AND 0x0000F000)),
      HexDigit (drop_bit 8 (x AND 0x00000F00)),
      HexDigit (drop_bit 4 (x AND 0x000000F0)),
      HexDigit (x AND 0x0000000F)]"

definition RoundUpToMultiple :: "nat \<Rightarrow> nat \<Rightarrow> int" where
  "RoundUpToMultiple x m = s32 (int (u64 (u64 (x + (m - 1)) div m * m)))"

subsection \<open>Headers\<close>

definition CPIOMatchMagicNumber :: "bytes \<Rightarrow> bool" where
  "CPIOMatchMagicNumber s \<longleftrightarrow> take 6 s = ascii ''070701''"

definition CPIOTest :: "bytes \<Rightarrow> nat \<Rightarrow> int option" where
  "CPIOTest data sz =
     (if sz < CPIO_HEADER_SIZE then Some (-1)
      else do { m \<leftarrow> load 0 6 data; Some (if \<not> CPIOMatchMagicNumber m then -1 else 0) })"

definition GetFileMode :: "bytes \<Rightarrow> int \<Rightarrow> int option" where
  "GetFileMode mem header = map_option HexToInt (loadi (header + 14) 8 mem)"

definition GetFileSize :: "bytes \<Rightarrow> int \<Rightarrow> int option" where
  "GetFileSize mem header = map_option HexToInt (loadi (header + 54) 8 mem)"

definition GetNameSize :: "bytes \<Rightarrow> int \<Rightarrow> int option" where
  "GetNameSize mem header = map_option HexToInt (loadi (header + 94) 8 mem)"

text \<open>\<open>_GetName\<close>: the memory from the name on.\<close>

definition GetName :: "bytes \<Rightarrow> int \<Rightarrow> bytes option" where
  "GetName mem header = fromi (header + 110) mem"

definition CPIOGetEntrySize :: "bytes \<Rightarrow> int \<Rightarrow> int option" where
  "CPIOGetEntrySize mem header =
     do {
       filesize \<leftarrow> GetFileSize mem header;
       if filesize = -1 then Some (-1)
       else do {
         namesize \<leftarrow> GetNameSize mem header;
         if namesize = -1 then Some (-1)
         else Some (s32 (RoundUpToMultiple (u64i (110 + namesize)) 4 + RoundUpToMultiple (u64i filesize) 4))
       }
     }"

definition ComputeHeaderSize :: "bytes \<Rightarrow> nat \<Rightarrow> nat option" where
  "ComputeHeaderSize path fileSize =
     do {
       n \<leftarrow> posix_strlen path;
       let sz = u64i (RoundUpToMultiple (110 + (n + 1)) 4);
       Some (u64i (RoundUpToMultiple (u64 (sz + fileSize)) 4))
     }"

definition ComputeTrailerSize :: nat where
  "ComputeTrailerSize = u64i (RoundUpToMultiple (110 + 11) 4)"

definition CPIOCheckEntry :: "bytes \<Rightarrow> nat \<Rightarrow> int \<Rightarrow> int option" where
  "CPIOCheckEntry mem cpioSize header =
     (let remaining = s32 (int cpioSize - header)
      in if CPIO_HEADER_SIZE > u64i remaining then Some (-1)
         else
           do {
             m \<leftarrow> loadi header 6 mem;
             if \<not> CPIOMatchMagicNumber m then Some (-1)
             else do {
               sz \<leftarrow> CPIOGetEntrySize mem header;
               if sz = -1 then Some (-1)
               else if sz > remaining then Some (-1)
               else Some 0
             }
           })"

definition CPIONextHeader :: "bytes \<Rightarrow> nat \<Rightarrow> int option \<Rightarrow> (int \<times> int option) option" where
  "CPIONextHeader mem cpioSize header =
     (case header of
        None \<Rightarrow> Some (-1, None)
      | Some cur \<Rightarrow>
          do {
            c \<leftarrow> CPIOCheckEntry mem cpioSize cur;
            if c \<noteq> 0 then Some (-1, None)
            else do {
              name \<leftarrow> GetName mem cur;
              t \<leftarrow> posix_strcmp name (TRAILER @ [0]);
              if t = 0 then Some (0, None)
              else do {
                sz \<leftarrow> CPIOGetEntrySize mem cur;
                if sz = -1 then Some (-1, Some cur)
                else do {
                  c \<leftarrow> CPIOCheckEntry mem cpioSize (cur + sz);
                  if c \<noteq> 0 then Some (-1, None) else Some (0, Some (cur + sz))
                }
              }
            }
          })"

text \<open>The loop of \<open>_FindHeader\<close>: the return code and \<open>*headerOut\<close>.\<close>

partial_function (option) find_loop :: "bytes \<Rightarrow> nat \<Rightarrow> bytes \<Rightarrow> int \<Rightarrow> (int \<times> int option) option" where
  "find_loop mem cpioSize path header =
     do {
       c \<leftarrow> CPIOCheckEntry mem cpioSize header;
       if c \<noteq> 0 then Some (-1, None)
       else do {
         name \<leftarrow> GetName mem header;
         t \<leftarrow> posix_strcmp name path;
         if t = 0 then Some (0, Some header)
         else do {
           (rc, next) \<leftarrow> CPIONextHeader mem cpioSize (Some header);
           if rc \<noteq> 0 then Some (-1, None)
           else (case next of None \<Rightarrow> Some (-1, None) | Some n \<Rightarrow> find_loop mem cpioSize path n)
         }
       }
     }"

definition FindHeader :: "bytes \<Rightarrow> nat \<Rightarrow> bytes \<Rightarrow> (int \<times> int option) option" where
  "FindHeader mem cpioSize path = find_loop mem cpioSize path 0"

subsection \<open>The archive operations\<close>

definition CPIONew :: "heap \<Rightarrow> (int \<times> (bytes \<times> nat) option \<times> heap) option" where
  "CPIONew h =
     (case Malloc h 512 of
        (None, h1) \<Rightarrow> Some (-1, None, h1)
      | (Some m, h1) \<Rightarrow> do { d \<leftarrow> store 0 empty_archive m; Some (0, Some (d, 512), h1) })"

text \<open>The header of a new file, made from the trailer's.\<close>

definition new_header :: "bytes \<Rightarrow> 32 word \<Rightarrow> nat \<Rightarrow> nat \<Rightarrow> bytes" where
  "new_header trailer mode fileSize pathLen =
     take 6 trailer @ IntToHex 0x12345678 @ IntToHex mode @ IntToHex 0 @ IntToHex 0 @ IntToHex 1 @
     IntToHex 0x56734BA4 @ IntToHex (of_nat fileSize) @ IntToHex 8 @ IntToHex 2 @ IntToHex 0 @ IntToHex 0 @
     IntToHex (of_nat (pathLen + 1)) @ IntToHex 0"

text \<open>
  The part of \<open>CPIOAddFile\<close> that fills the new archive \<open>p\<close>: the archive and the offset reached.
  A null \<open>fileData\<close> is \<open>None\<close>.
\<close>

definition append_file :: "bytes \<Rightarrow> nat \<Rightarrow> bytes \<Rightarrow> bytes \<Rightarrow> nat \<Rightarrow> bytes option \<Rightarrow> nat \<Rightarrow> bytes \<Rightarrow> (bytes \<times> nat) option" where
  "append_file p offset newHeader path pathLen fileData fileSize trailer =
     do {
       p \<leftarrow> store offset newHeader p;
       let offset = offset + CPIO_HEADER_SIZE;
       p \<leftarrow> store offset (take (pathLen + 1) path) p;
       let offset = u64i (RoundUpToMultiple (offset + (pathLen + 1)) 4);
       (p, offset) \<leftarrow>
         (case fileData of
            None \<Rightarrow> Some (p, offset)
          | Some fd \<Rightarrow>
              do { d \<leftarrow> load 0 fileSize fd; p \<leftarrow> store offset d p; Some (p, u64 (offset + fileSize)) });
       let offset = u64i (RoundUpToMultiple offset 4);
       p \<leftarrow> store offset trailer p;
       let offset = u64 (offset + CPIO_HEADER_SIZE);
       p \<leftarrow> store offset (TRAILER @ [0]) p;
       let offset = u64i (RoundUpToMultiple (u64 (offset + 11)) 4);
       Some (p, u64i (RoundUpToMultiple offset CPIO_BLOCK_SIZE))
     }"

definition CPIOAddFile ::
  "heap \<Rightarrow> bytes \<Rightarrow> nat \<Rightarrow> bytes \<Rightarrow> bytes option \<Rightarrow> nat \<Rightarrow> 32 word \<Rightarrow> (int \<times> (bytes \<times> nat) option \<times> heap) option" where
  "CPIOAddFile h cpioDataIn cpioSizeIn path fileData fileSize mode =
     (if cpioSizeIn = 0 then Some (-1, None, h)
      else
        do {
          (rc, tr) \<leftarrow> FindHeader cpioDataIn cpioSizeIn (TRAILER @ [0]);
          if rc \<noteq> 0 then Some (-1, None, h)
          else
            do {
              t \<leftarrow> tr;
              hsize \<leftarrow> ComputeHeaderSize path fileSize;
              let cpioSizeOut = u64i (RoundUpToMultiple (u64 (u64i t + hsize + ComputeTrailerSize)) CPIO_BLOCK_SIZE);
              pathLen \<leftarrow> posix_strlen path;
              trailer \<leftarrow> loadi t CPIO_HEADER_SIZE cpioDataIn;
              (case Calloc h 1 cpioSizeOut of
                 (None, h1) \<Rightarrow> Some (-1, None, h1)
               | (Some p0, h1) \<Rightarrow>
                   do {
                     old \<leftarrow> load 0 (u64i t) cpioDataIn;
                     p1 \<leftarrow> store 0 old p0;
                     (p2, offset) \<leftarrow>
                       append_file p1 (u64i t) (new_header trailer mode fileSize pathLen) path pathLen fileData fileSize trailer;
                     if offset \<noteq> cpioSizeOut then Some (-1, None, h1)
                     else Some (0, Some (p2, cpioSizeOut), h1)
                   })
            }
        })"

text \<open>The copy loop of \<open>CPIORemoveFile\<close>: return code, output, offset and \<open>found\<close>.\<close>

partial_function (option) remove_loop ::
  "bytes \<Rightarrow> nat \<Rightarrow> bytes \<Rightarrow> int \<Rightarrow> bytes \<Rightarrow> int \<Rightarrow> bool \<Rightarrow> (int \<times> bytes \<times> int \<times> bool) option" where
  "remove_loop mem cpioSize path header out offset found =
     do {
       c \<leftarrow> CPIOCheckEntry mem cpioSize header;
       if c \<noteq> 0 then Some (-1, out, offset, found)
       else do {
         name \<leftarrow> GetName mem header;
         t \<leftarrow> posix_strcmp name path;
         (out', offset', found') \<leftarrow>
           (if t = 0 then Some (out, offset, True)
            else do {
              sz \<leftarrow> CPIOGetEntrySize mem header;
              entry \<leftarrow> loadi header (u64i sz) mem;
              out' \<leftarrow> (if offset < 0 then None else store (nat offset) entry out);
              Some (out', s32 (offset + sz), found)
            });
         (rc, next) \<leftarrow> CPIONextHeader mem cpioSize (Some header);
         if rc \<noteq> 0 then Some (-1, out', offset', found')
         else (case next of
                 None \<Rightarrow> Some (0, out', offset', found')
               | Some n \<Rightarrow> remove_loop mem cpioSize path n out' offset' found')
       }
     }"

definition CPIORemoveFile ::
  "heap \<Rightarrow> bytes \<Rightarrow> nat \<Rightarrow> bytes \<Rightarrow> (int \<times> (bytes \<times> nat) option \<times> heap) option" where
  "CPIORemoveFile h cpioDataIn cpioSizeIn path =
     (if cpioSizeIn = 0 then Some (-1, None, h)
      else
        do {
          (rc, hdr) \<leftarrow> FindHeader cpioDataIn cpioSizeIn path;
          if rc \<noteq> 0 then Some (-1, None, h)
          else
            (case Calloc h 1 cpioSizeIn of
               (None, h1) \<Rightarrow> Some (-1, None, h1)
             | (Some out0, h1) \<Rightarrow>
                 do {
                   (rc, out, offset, found) \<leftarrow> remove_loop cpioDataIn cpioSizeIn path 0 out0 0 False;
                   if rc \<noteq> 0 \<or> \<not> found then Some (-1, None, h1)
                   else Some (0, Some (out, u64i (RoundUpToMultiple (u64i offset) CPIO_BLOCK_SIZE)), h1)
                 })
        })"

text \<open>\<open>CPIOGetFile\<close>: the file's data (\<open>None\<close> for the null pointer of an empty file) and its size.\<close>

definition CPIOGetFile ::
  "heap \<Rightarrow> bytes \<Rightarrow> nat \<Rightarrow> bytes \<Rightarrow> (int \<times> (bytes option \<times> nat) option \<times> heap) option" where
  "CPIOGetFile h cpioData cpioSize src =
     (if cpioSize = 0 then Some (-1, None, h)
      else
        do {
          (rc, hdr) \<leftarrow> FindHeader cpioData cpioSize src;
          if rc \<noteq> 0 then Some (-1, None, h)
          else
            do {
              header \<leftarrow> hdr;
              fs \<leftarrow> GetFileSize cpioData header;
              ns \<leftarrow> GetNameSize cpioData header;
              let fileSize = u64i fs;
              let headerSize = u64i (RoundUpToMultiple (u64i (110 + ns)) 4);
              if fileSize = 0 then Some (0, Some (None, 0), h)
              else
                (case Malloc h fileSize of
                   (None, h1) \<Rightarrow> Some (-1, None, h1)
                 | (Some buf, h1) \<Rightarrow>
                     do {
                       d \<leftarrow> loadi (header + int headerSize) fileSize cpioData;
                       buf' \<leftarrow> store 0 d buf;
                       Some (0, Some (Some buf', fileSize), h1)
                     })
            }
        })"

text \<open>The loops of \<open>CPIOCheckFile\<close> (0 when no entry has the path) and \<open>CPIODumpFile\<close>.\<close>

partial_function (option) check_loop :: "bytes \<Rightarrow> nat \<Rightarrow> bytes \<Rightarrow> int \<Rightarrow> int option" where
  "check_loop mem cpioSize path header =
     do {
       c \<leftarrow> CPIOCheckEntry mem cpioSize header;
       if c \<noteq> 0 then Some (-1)
       else do {
         name \<leftarrow> GetName mem header;
         t \<leftarrow> posix_strcmp name path;
         if t = 0 then Some (-1)
         else do {
           (rc, next) \<leftarrow> CPIONextHeader mem cpioSize (Some header);
           if rc \<noteq> 0 then Some (-1)
           else (case next of None \<Rightarrow> Some 0 | Some n \<Rightarrow> check_loop mem cpioSize path n)
         }
       }
     }"

definition CPIOCheckFile :: "bytes \<Rightarrow> nat \<Rightarrow> bytes \<Rightarrow> int option" where
  "CPIOCheckFile cpioData cpioSize path =
     (if cpioSize < CPIO_HEADER_SIZE then Some (-1) else check_loop cpioData cpioSize path 0)"

text \<open>The offsets of the headers that \<open>CPIODumpFile\<close> prints, with its return code.\<close>

partial_function (option) dump_loop :: "bytes \<Rightarrow> nat \<Rightarrow> int \<Rightarrow> int list \<Rightarrow> (int \<times> int list) option" where
  "dump_loop mem cpioSize header printed =
     do {
       c \<leftarrow> CPIOCheckEntry mem cpioSize header;
       if c \<noteq> 0 then Some (-1, printed)
       else do {
         (rc, next) \<leftarrow> CPIONextHeader mem cpioSize (Some header);
         if rc \<noteq> 0 then Some (-1, printed @ [header])
         else (case next of
                 None \<Rightarrow> Some (0, printed @ [header])
               | Some n \<Rightarrow> dump_loop mem cpioSize n (printed @ [header]))
       }
     }"

definition CPIODumpFile :: "bytes \<Rightarrow> nat \<Rightarrow> (int \<times> int list) option" where
  "CPIODumpFile cpioData cpioSize =
     (if cpioSize < CPIO_HEADER_SIZE then Some (-1, []) else dump_loop cpioData cpioSize 0 [])"

definition CPIO_MODE_IFREG :: nat where
  "CPIO_MODE_IFREG = 0x8000"

definition CPIO_MODE_IFDIR :: nat where
  "CPIO_MODE_IFDIR = 0x4000"

definition mode_test :: "bytes \<Rightarrow> nat \<Rightarrow> bytes \<Rightarrow> nat \<Rightarrow> bool option" where
  "mode_test cpioData cpioSize path bits =
     (if cpioSize = 0 then Some False
      else
        do {
          (rc, hdr) \<leftarrow> FindHeader cpioData cpioSize path;
          if rc \<noteq> 0 then Some False
          else do {
            header \<leftarrow> hdr;
            m \<leftarrow> GetFileMode cpioData header;
            Some ((word_of_int m :: 32 word) AND of_nat bits \<noteq> 0)
          }
        })"

definition CPIOIsFile :: "bytes \<Rightarrow> nat \<Rightarrow> bytes \<Rightarrow> bool option" where
  "CPIOIsFile cpioData cpioSize path = mode_test cpioData cpioSize path CPIO_MODE_IFREG"

definition CPIOIsDir :: "bytes \<Rightarrow> nat \<Rightarrow> bytes \<Rightarrow> bool option" where
  "CPIOIsDir cpioData cpioSize path = mode_test cpioData cpioSize path CPIO_MODE_IFDIR"

text \<open>The loop of \<open>CPIOFindFilesByBaseName\<close>.\<close>

partial_function (option) basename_loop ::
  "heap \<Rightarrow> bytes \<Rightarrow> nat \<Rightarrow> bytes \<Rightarrow> int \<Rightarrow> strarr \<Rightarrow> (int \<times> strarr \<times> heap) option" where
  "basename_loop h mem cpioSize baseName header arr =
     do {
       c \<leftarrow> CPIOCheckEntry mem cpioSize header;
       if c \<noteq> 0 then Some (-1, arr, h)
       else do {
         path \<leftarrow> GetName mem header;
         slash \<leftarrow> posix_strrchr path (chr CHR ''/'');
         t \<leftarrow> posix_strcmp baseName (case slash of None \<Rightarrow> path | Some i \<Rightarrow> drop (Suc i) path);
         (rc, arr', h') \<leftarrow> (if t = 0 then StrArrAppend h arr (Some path) else Some (0, arr, h));
         if rc \<noteq> 0 then Some (-1, arr', h')
         else do {
           (rc, next) \<leftarrow> CPIONextHeader mem cpioSize (Some header);
           if rc \<noteq> 0 then Some (-1, arr', h')
           else (case next of
                   None \<Rightarrow> Some (0, arr', h')
                 | Some n \<Rightarrow> basename_loop h' mem cpioSize baseName n arr')
         }
       }
     }"

definition CPIOFindFilesByBaseName ::
  "heap \<Rightarrow> bytes \<Rightarrow> nat \<Rightarrow> bytes \<Rightarrow> strarr \<Rightarrow> (int \<times> strarr \<times> heap) option" where
  "CPIOFindFilesByBaseName h cpioData cpioSize baseName arr =
     do {
       arr0 \<leftarrow> StrArrRelease arr;
       if cpioSize < CPIO_HEADER_SIZE then Some (-1, arr0, h)
       else basename_loop h cpioData cpioSize baseName 0 arr0
     }"

subsection \<open>Concatenated archives\<close>

definition CPIO_MAX_SUBFILES :: nat where
  "CPIO_MAX_SUBFILES = 8"

text \<open>The inner loop of \<open>CPIOSplitFile\<close>: return code, size of the subfile, \<open>isCPIO\<close>.\<close>

partial_function (option) subfile_loop :: "bytes \<Rightarrow> nat \<Rightarrow> int \<Rightarrow> nat \<Rightarrow> (int \<times> nat \<times> bool) option" where
  "subfile_loop mem cpioSize header subfileSize =
     do {
       m \<leftarrow> loadi header 6 mem;
       if \<not> CPIOMatchMagicNumber m then Some (0, cpioSize, False)
       else do {
         c \<leftarrow> CPIOCheckEntry mem cpioSize header;
         if c \<noteq> 0 then Some (-1, subfileSize, True)
         else do {
           sz \<leftarrow> CPIOGetEntrySize mem header;
           (rc, next) \<leftarrow> CPIONextHeader mem cpioSize (Some header);
           if rc \<noteq> 0 then Some (-1, u64i (int subfileSize + sz), True)
           else (case next of
                   None \<Rightarrow> Some (0, u64i (int subfileSize + sz), True)
                 | Some n \<Rightarrow> subfile_loop mem cpioSize n (u64i (int subfileSize + sz)))
         }
       }
     }"

definition subfile_size :: "bytes \<Rightarrow> nat \<Rightarrow> (int \<times> nat) option" where
  "subfile_size mem cpioSize =
     (if cpioSize \<ge> CPIO_HEADER_SIZE then
        do {
          (rc, sz, isCPIO) \<leftarrow> subfile_loop mem cpioSize 0 0;
          Some (rc, if isCPIO then u64i (RoundUpToMultiple (u64i (RoundUpToMultiple sz 4)) CPIO_BLOCK_SIZE) else sz)
        }
      else Some (0, cpioSize))"

text \<open>The outer loop: the subfiles found so far, each as its memory and its size.\<close>

partial_function (option) split_files_loop :: "bytes \<Rightarrow> nat \<Rightarrow> (bytes \<times> nat) list \<Rightarrow> (int \<times> (bytes \<times> nat) list) option" where
  "split_files_loop mem cpioSize subs =
     (if cpioSize = 0 then Some (0, subs)
      else if length subs \<ge> CPIO_MAX_SUBFILES then Some (-1, subs)
      else do {
        (rc, sz) \<leftarrow> subfile_size mem cpioSize;
        if rc \<noteq> 0 then Some (-1, subs)
        else do {
          rest \<leftarrow> fromi (int sz) mem;
          split_files_loop rest (usub64 cpioSize sz) (subs @ [(mem, sz)])
        }
      })"

definition CPIOSplitFile :: "bytes \<Rightarrow> nat \<Rightarrow> (int \<times> (bytes \<times> nat) list) option" where
  "CPIOSplitFile cpioData cpioSize =
     (if cpioSize = 0 then Some (-1, []) else split_files_loop cpioData cpioSize [])"

section \<open>Well-formed archives\<close>

text \<open>
  The abstract archive: its entries in order, each with its 110-byte header, its name, its data
  and the padding after either.
\<close>

record cpio_entry =
  ce_header :: bytes
  ce_name :: bytes
  ce_pad1 :: bytes
  ce_data :: bytes
  ce_pad2 :: bytes

definition rup :: "nat \<Rightarrow> nat \<Rightarrow> nat" where
  "rup x m = (x + (m - 1)) div m * m"

definition encode :: "cpio_entry \<Rightarrow> bytes" where
  "encode e = ce_header e @ ce_name e @ [0] @ ce_pad1 e @ ce_data e @ ce_pad2 e"

definition entry_wf :: "cpio_entry \<Rightarrow> bool" where
  "entry_wf e \<longleftrightarrow>
     length (ce_header e) = 110 \<and> take 6 (ce_header e) = ascii ''070701'' \<and>
     HexToInt (slice 54 8 (ce_header e)) = int (length (ce_data e)) \<and>
     HexToInt (slice 94 8 (ce_header e)) = int (length (ce_name e)) + 1 \<and>
     0 \<notin> set (ce_name e) \<and>
     length (ce_pad1 e) = rup (111 + length (ce_name e)) 4 - (111 + length (ce_name e)) \<and>
     length (ce_pad2 e) = rup (length (ce_data e)) 4 - length (ce_data e)"

definition archive :: "cpio_entry list \<Rightarrow> cpio_entry \<Rightarrow> bytes \<Rightarrow> bytes" where
  "archive es tr rest = concat (map encode es) @ encode tr @ rest"

definition archive_wf :: "cpio_entry list \<Rightarrow> cpio_entry \<Rightarrow> bool" where
  "archive_wf es tr \<longleftrightarrow>
     list_all (\<lambda>e. entry_wf e \<and> ce_name e \<noteq> TRAILER) es \<and>
     entry_wf tr \<and> ce_name tr = TRAILER \<and> ce_data tr = []"

subsection \<open>Rounding\<close>

lemma rup_bounds:
  assumes "0 < m"
  shows "x \<le> rup x m" and "rup x m < x + m"
proof -
  have eq: "x + (m - 1) = rup x m + (x + (m - 1)) mod m" by (simp add: rup_def)
  have "(x + (m - 1)) mod m < m" using assms by simp
  with eq assms show "x \<le> rup x m" by linarith
  have "rup x m \<le> x + (m - 1)" by (simp add: rup_def)
  with assms show "rup x m < x + m" by linarith
qed

lemma rup_add:
  assumes "m dvd t" "0 < m"
  shows "rup (t + x) m = t + rup x m"
proof -
  from assms(1) obtain k where k: "t = m * k" by (elim dvdE)
  have "(t + x + (m - 1)) div m = k + (x + (m - 1)) div m"
    using assms(2) unfolding k add.assoc by (intro div_mult_self4) simp
  then show ?thesis using k by (simp add: rup_def algebra_simps)
qed

lemma rup_dvd [simp]: "m dvd rup x m"
  by (simp add: rup_def)

lemma rup_id: "m dvd x \<Longrightarrow> 0 < m \<Longrightarrow> rup x m = x"
  using rup_add [of m x 0] by (simp add: rup_def)

lemma RoundUp_rup:
  assumes "rup x m < 2 ^ 31" "0 < m" "m \<le> 512"
  shows "RoundUpToMultiple x m = int (rup x m)"
proof -
  have "u64 (x + (m - 1)) = x + (m - 1)"
    using rup_bounds(1) [OF assms(2), of x] assms by (intro u64_small) simp
  then have "u64 (u64 (x + (m - 1)) div m * m) = rup x m"
    using assms(1) unfolding rup_def [symmetric] by (simp add: rup_def [symmetric] del: One_nat_def)
  then show ?thesis using assms(1) unfolding RoundUpToMultiple_def by simp
qed

lemma u64i_int [simp]: "n < 2 ^ 64 \<Longrightarrow> u64i (int n) = n"
  by (simp add: u64i_def nat_mod_distrib)

subsection \<open>One entry in memory\<close>

lemma length_encode:
  assumes "entry_wf e"
  shows "length (encode e) = rup (111 + length (ce_name e)) 4 + rup (length (ce_data e)) 4"
  using assms rup_bounds(1) [of 4 "111 + length (ce_name e)"] rup_bounds(1) [of 4 "length (ce_data e)"]
  by (simp add: encode_def entry_wf_def)

lemma encode_aligned: "entry_wf e \<Longrightarrow> 4 dvd length (encode e)"
  by (simp add: length_encode)

lemma loadi_app: "length a = off \<Longrightarrow> length b = n \<Longrightarrow> loadi (int off) n (a @ b @ c) = Some b"
  by (simp add: loadi_def load_append_at)

lemma header_field:
  assumes "length hdr = 110" "o' + n \<le> 110"
  shows "loadi (int (length pre) + int o') n (pre @ hdr @ post) = Some (slice o' n hdr)"
proof -
  have "hdr = take o' hdr @ slice o' n hdr @ drop (o' + n) hdr"
    by (simp add: slice_def) (metis add.commute append_take_drop_id drop_drop)
  then have eq: "pre @ hdr @ post = (pre @ take o' hdr) @ slice o' n hdr @ (drop (o' + n) hdr @ post)"
    by (metis append.assoc)
  have "loadi (int (length pre + o')) n ((pre @ take o' hdr) @ slice o' n hdr @ (drop (o' + n) hdr @ post)) =
      Some (slice o' n hdr)"
    using assms by (intro loadi_app) simp_all
  then show ?thesis unfolding eq by (simp only: of_nat_add)
qed

lemma entry_in_memory:
  assumes e: "entry_wf e" and mem: "mem = pre @ encode e @ post" and small: "length mem < 2 ^ 31"
  shows "GetFileSize mem (int (length pre)) = Some (int (length (ce_data e)))"
    and "GetNameSize mem (int (length pre)) = Some (int (length (ce_name e)) + 1)"
    and "GetName mem (int (length pre)) = Some (ce_name e @ 0 # ce_pad1 e @ ce_data e @ ce_pad2 e @ post)"
    and "loadi (int (length pre)) 6 mem = Some (take 6 (ce_header e))"
    and "CPIOGetEntrySize mem (int (length pre)) = Some (int (length (encode e)))"
proof -
  let ?tail = "ce_name e @ 0 # ce_pad1 e @ ce_data e @ ce_pad2 e @ post"
  have m: "mem = pre @ ce_header e @ ?tail" by (simp add: mem encode_def)
  have h: "length (ce_header e) = 110" using e by (simp add: entry_wf_def)
  note fld = header_field [OF h, of _ _ pre ?tail, folded m]
  show fs: "GetFileSize mem (int (length pre)) = Some (int (length (ce_data e)))"
    using fld [of 54 8] e by (simp add: GetFileSize_def entry_wf_def)
  show ns: "GetNameSize mem (int (length pre)) = Some (int (length (ce_name e)) + 1)"
    using fld [of 94 8] e by (simp add: GetNameSize_def entry_wf_def)
  show "loadi (int (length pre)) 6 mem = Some (take 6 (ce_header e))"
    using fld [of 0 6] by (simp add: slice_def)
  have "nat (int (length pre) + 110) = length (pre @ ce_header e)" using h by simp
  then show "GetName mem (int (length pre)) = Some ?tail"
    unfolding m by (simp add: GetName_def fromi_def h)
  have sum: "length (encode e) = rup (111 + length (ce_name e)) 4 + rup (length (ce_data e)) 4"
    by (rule length_encode [OF e])
  have sm: "length (encode e) < 2 ^ 31" using mem small by simp
  have rb: "111 + length (ce_name e) \<le> rup (111 + length (ce_name e)) 4" "length (ce_data e) \<le> rup (length (ce_data e)) 4"
    by (simp_all add: rup_bounds(1))
  have u: "u64i (110 + (int (length (ce_name e)) + 1)) = 111 + length (ce_name e)"
    "u64i (int (length (ce_data e))) = length (ce_data e)"
  proof -
    have "110 + (int (length (ce_name e)) + 1) = int (111 + length (ce_name e))" by simp
    moreover have "u64i (int (111 + length (ce_name e))) = 111 + length (ce_name e)"
      using rb sum sm by (intro u64i_int) simp
    ultimately show "u64i (110 + (int (length (ce_name e)) + 1)) = 111 + length (ce_name e)" by (simp only:)
    show "u64i (int (length (ce_data e))) = length (ce_data e)" using rb sum sm by (intro u64i_int) simp
  qed
  have r: "RoundUpToMultiple (111 + length (ce_name e)) 4 = int (rup (111 + length (ce_name e)) 4)"
    "RoundUpToMultiple (length (ce_data e)) 4 = int (rup (length (ce_data e)) 4)"
    using sum sm by (auto intro!: RoundUp_rup)
  have "s32 (int (length (encode e))) = int (length (encode e))" using sm by (intro s32_small) auto
  then show "CPIOGetEntrySize mem (int (length pre)) = Some (int (length (encode e)))"
    using fs ns u r sum by (simp add: CPIOGetEntrySize_def)
qed

lemma check_entry_ok:
  assumes e: "entry_wf e" and mem: "mem = pre @ encode e @ post" and small: "length mem < 2 ^ 31"
  shows "CPIOCheckEntry mem (length mem) (int (length pre)) = Some 0"
proof -
  note m = entry_in_memory [OF e mem small]
  have len: "int (length mem) - int (length pre) = int (length (encode e) + length post)" by (simp add: mem)
  have "length (encode e) + length post < 2 ^ 31" using mem small by simp
  then have rem: "s32 (int (length (encode e) + length post)) = int (length (encode e) + length post)"
    by (intro s32_small) auto
  have u: "u64i (int (length (encode e) + length post)) = length (encode e) + length post"
    using \<open>length (encode e) + length post < 2 ^ 31\<close> by (intro u64i_int) simp
  have "length (ce_header e) = 110" "take 6 (ce_header e) = ascii ''070701''" using e by (auto simp: entry_wf_def)
  then have "110 \<le> length (encode e)" by (simp add: encode_def)
  with m(4,5) \<open>take 6 (ce_header e) = _\<close> show ?thesis
    unfolding CPIOCheckEntry_def len rem u by (simp add: Let_def CPIO_HEADER_SIZE_def CPIOMatchMagicNumber_def u [simplified])
qed

lemma strcmp_name:
  assumes "0 \<notin> set n" "0 \<notin> set t"
  shows "\<exists>c. posix_strcmp (n @ 0 # r) (t @ 0 # r') = Some c \<and> (c = 0 \<longleftrightarrow> n = t)"
  using strcmp_order [of "n @ 0 # r" "t @ 0 # r'"] assms by auto

lemma TRAILER_nonzero: "0 \<notin> set TRAILER"
  by (simp add: TRAILER_def)

text \<open>Stepping over an entry that is followed by another, and stopping at the trailer.\<close>

lemma next_header_step:
  assumes e: "entry_wf e" "ce_name e \<noteq> TRAILER" and e': "entry_wf e'"
    and mem: "mem = pre @ encode e @ encode e' @ post" and small: "length mem < 2 ^ 31"
  shows "CPIONextHeader mem (length mem) (Some (int (length pre))) = Some (0, Some (int (length (pre @ encode e))))"
proof -
  have mem': "mem = (pre @ encode e) @ encode e' @ post" by (simp add: mem)
  note m = entry_in_memory [OF e(1) mem small]
  have "0 \<notin> set (ce_name e)" using e(1) by (simp add: entry_wf_def)
  from strcmp_name [OF this TRAILER_nonzero] e(2) obtain c
    where c: "posix_strcmp (ce_name e @ 0 # ce_pad1 e @ ce_data e @ ce_pad2 e @ encode e' @ post) (TRAILER @ [0]) = Some c" "c \<noteq> 0"
    by blast
  show ?thesis
    using m(3,5) c check_entry_ok [OF e(1) mem small] check_entry_ok [OF e' mem' small]
    by (simp add: CPIONextHeader_def)
qed

lemma next_header_trailer:
  assumes e: "entry_wf e" "ce_name e = TRAILER" and mem: "mem = pre @ encode e @ post" and small: "length mem < 2 ^ 31"
  shows "CPIONextHeader mem (length mem) (Some (int (length pre))) = Some (0, None)"
proof -
  note m = entry_in_memory [OF e(1) mem small]
  have "0 \<notin> set (ce_name e)" using e(1) by (simp add: entry_wf_def)
  from strcmp_name [OF this TRAILER_nonzero] e(2) obtain c
    where c: "posix_strcmp (ce_name e @ 0 # ce_pad1 e @ ce_data e @ ce_pad2 e @ post) (TRAILER @ [0]) = Some c" "c = 0"
    by blast
  show ?thesis
    using m(3) c check_entry_ok [OF e(1) mem small] by (simp add: CPIONextHeader_def)
qed

subsection \<open>Finding a header\<close>

text \<open>The offset of the first entry of a list with a name.\<close>

fun offset_of :: "bytes \<Rightarrow> cpio_entry list \<Rightarrow> nat \<Rightarrow> nat option" where
  "offset_of t [] off = None"
| "offset_of t (e # es) off = (if ce_name e = t then Some off else offset_of t es (off + length (encode e)))"

lemma archive_wf_Cons [simp]:
  "archive_wf (e # es) tr \<longleftrightarrow> entry_wf e \<and> ce_name e \<noteq> TRAILER \<and> archive_wf es tr"
  by (auto simp: archive_wf_def)

lemma archive_Cons: "archive (e # es) tr rest = encode e @ archive es tr rest"
  by (simp add: archive_def)

lemma archive_Nil: "archive [] tr rest = encode tr @ rest"
  by (simp add: archive_def)

lemma archive_head:
  assumes "archive_wf es tr"
  obtains e' post where "entry_wf e'" "archive es tr rest = encode e' @ post"
  using assms by (cases es) (auto simp: archive_Cons archive_Nil archive_wf_def)

lemma find_loop_spec_archive:
  assumes "archive_wf es tr" "mem = pre @ archive es tr rest" "length mem < 2 ^ 31" "0 \<notin> set t"
  shows "find_loop mem (length mem) (t @ 0 # r) (int (length pre)) =
    Some (case offset_of t (es @ [tr]) (length pre) of None \<Rightarrow> (-1, None) | Some off \<Rightarrow> (0, Some (int off)))"
  using assms(1,2)
proof (induction es arbitrary: pre)
  case Nil
  then have tr: "entry_wf tr" "ce_name tr = TRAILER" and mem: "mem = pre @ encode tr @ rest"
    by (simp_all add: archive_wf_def archive_Nil)
  note m = entry_in_memory [OF tr(1) mem assms(3)]
  have "0 \<notin> set (ce_name tr)" using tr(1) by (simp add: entry_wf_def)
  from strcmp_name [OF this assms(4)] obtain c
    where c: "posix_strcmp (ce_name tr @ 0 # ce_pad1 tr @ ce_data tr @ ce_pad2 tr @ rest) (t @ 0 # r) = Some c" "c = 0 \<longleftrightarrow> ce_name tr = t"
    by blast
  show ?case
    using check_entry_ok [OF tr(1) mem assms(3)] m(3) c next_header_trailer [OF tr mem assms(3)]
    by (subst find_loop.simps) auto
next
  case (Cons e es)
  then have e: "entry_wf e" "ce_name e \<noteq> TRAILER" and wf: "archive_wf es tr"
    and mem: "mem = pre @ encode e @ archive es tr rest" by (auto simp: archive_Cons)
  obtain e' post where e': "entry_wf e'" and ar: "archive es tr rest = encode e' @ post"
    by (rule archive_head [OF wf])
  note m = entry_in_memory [OF e(1) mem assms(3)]
  have "0 \<notin> set (ce_name e)" using e(1) by (simp add: entry_wf_def)
  from strcmp_name [OF this assms(4)] obtain c
    where c: "posix_strcmp (ce_name e @ 0 # ce_pad1 e @ ce_data e @ ce_pad2 e @ archive es tr rest) (t @ 0 # r) = Some c" "c = 0 \<longleftrightarrow> ce_name e = t"
    by blast
  have nx: "CPIONextHeader mem (length mem) (Some (int (length pre))) = Some (0, Some (int (length (pre @ encode e))))"
    using next_header_step [OF e e' _ assms(3)] mem ar by simp
  have ih: "find_loop mem (length mem) (t @ 0 # r) (int (length (pre @ encode e))) =
      Some (case offset_of t (es @ [tr]) (length (pre @ encode e)) of None \<Rightarrow> (-1, None) | Some off \<Rightarrow> (0, Some (int off)))"
    using mem by (intro Cons.IH [OF wf]) simp
  show ?case
    using check_entry_ok [OF e(1) mem assms(3)] m(3) c nx ih by (subst find_loop.simps) auto
qed

lemma FindHeader_archive:
  assumes "archive_wf es tr" "length (archive es tr rest) < 2 ^ 31" "0 \<notin> set t"
  shows "FindHeader (archive es tr rest) (length (archive es tr rest)) (t @ 0 # r) =
    Some (case offset_of t (es @ [tr]) 0 of None \<Rightarrow> (-1, None) | Some off \<Rightarrow> (0, Some (int off)))"
  using find_loop_spec_archive [OF assms(1) _ assms(2,3), of "[]" rest r] by (simp add: FindHeader_def)

subsection \<open>Reading a file\<close>

fun entry_of :: "bytes \<Rightarrow> cpio_entry list \<Rightarrow> cpio_entry option" where
  "entry_of t [] = None"
| "entry_of t (e # es) = (if ce_name e = t then Some e else entry_of t es)"

lemma offset_of_Some:
  assumes "offset_of t es off = Some o'"
  shows "\<exists>es1 e es2. es = es1 @ e # es2 \<and> o' = off + length (concat (map encode es1)) \<and> ce_name e = t \<and> entry_of t es = Some e"
  using assms
proof (induction es arbitrary: off)
  case (Cons e es)
  show ?case
  proof (cases "ce_name e = t")
    case True
    with Cons.prems show ?thesis by (intro exI [of _ "[]"]) auto
  next
    case False
    with Cons obtain es1 e1 es2 where "es = es1 @ e1 # es2" "o' = off + length (encode e) + length (concat (map encode es1))"
      "ce_name e1 = t" "entry_of t es = Some e1" by force
    with False show ?thesis by (intro exI [of _ "e # es1"]) auto
  qed
qed simp

lemma offset_of_None: "offset_of t es off = None \<longleftrightarrow> entry_of t es = None"
  by (induction es arbitrary: off) auto

lemma file_in_memory:
  assumes e: "entry_wf e" and mem: "mem = pre @ encode e @ post" and small: "length mem < 2 ^ 31"
  shows "loadi (int (length pre) + int (u64i (RoundUpToMultiple (u64i (110 + (int (length (ce_name e)) + 1))) 4)))
    (length (ce_data e)) mem = Some (ce_data e)"
proof -
  have sum: "length (encode e) = rup (111 + length (ce_name e)) 4 + rup (length (ce_data e)) 4" by (rule length_encode [OF e])
  have sm: "length (encode e) < 2 ^ 31" using mem small by simp
  have rb: "111 + length (ce_name e) \<le> rup (111 + length (ce_name e)) 4" by (simp add: rup_bounds(1))
  have "110 + (int (length (ce_name e)) + 1) = int (111 + length (ce_name e))" by simp
  moreover have "u64i (int (111 + length (ce_name e))) = 111 + length (ce_name e)" using rb sum sm by (intro u64i_int) simp
  moreover have "RoundUpToMultiple (111 + length (ce_name e)) 4 = int (rup (111 + length (ce_name e)) 4)"
    using sum sm by (intro RoundUp_rup) auto
  moreover have "u64i (int (rup (111 + length (ce_name e)) 4)) = rup (111 + length (ce_name e)) 4"
    using sum sm by (intro u64i_int) simp
  ultimately have hs: "u64i (RoundUpToMultiple (u64i (110 + (int (length (ce_name e)) + 1))) 4) = rup (111 + length (ce_name e)) 4"
    by (simp only:)
  let ?front = "pre @ ce_header e @ ce_name e @ [0] @ ce_pad1 e"
  have "length ?front = length pre + rup (111 + length (ce_name e)) 4" using e rb by (simp add: entry_wf_def)
  then have "loadi (int (length pre + rup (111 + length (ce_name e)) 4)) (length (ce_data e)) (?front @ ce_data e @ (ce_pad2 e @ post)) =
      Some (ce_data e)" by (intro loadi_app) simp_all
  moreover have "mem = ?front @ ce_data e @ (ce_pad2 e @ post)" by (simp add: mem encode_def)
  ultimately show ?thesis unfolding hs by (simp only: of_nat_add)
qed

lemma CPIOGetFile_archive:
  assumes wf: "archive_wf es tr" and small: "length (archive es tr rest) < 2 ^ 31" and t: "0 \<notin> set t"
  shows "CPIOGetFile h (archive es tr rest) (length (archive es tr rest)) (t @ 0 # r) =
    (case entry_of t (es @ [tr]) of
       None \<Rightarrow> Some (-1, None, h)
     | Some e \<Rightarrow>
         if ce_data e = [] then Some (0, Some (None, 0), h)
         else (case h 0 of
                 None \<Rightarrow> Some (-1, None, heap_next h)
               | Some _ \<Rightarrow> Some (0, Some (Some (ce_data e), length (ce_data e)), heap_next h)))"
proof -
  let ?mem = "archive es tr rest"
  have ne: "length ?mem \<noteq> 0" using wf by (simp add: archive_def encode_def)
  note fh = FindHeader_archive [OF wf small t, of r]
  show ?thesis
  proof (cases "offset_of t (es @ [tr]) 0")
    case None
    then have "entry_of t (es @ [tr]) = None" by (simp add: offset_of_None)
    with fh None ne show ?thesis by (simp add: CPIOGetFile_def)
  next
    case (Some o')
    from offset_of_Some [OF this] obtain es1 e es2 where
      sp: "es @ [tr] = es1 @ e # es2" "o' = length (concat (map encode es1))" "entry_of t (es @ [tr]) = Some e" by auto
    have "e \<in> set (es @ [tr])" unfolding sp(1) by simp
    then have e: "entry_wf e" using wf by (auto simp: archive_wf_def list_all_iff)
    have "?mem = concat (map encode (es @ [tr])) @ rest" by (simp add: archive_def)
    then have mem: "?mem = concat (map encode es1) @ encode e @ (concat (map encode es2) @ rest)" unfolding sp(1) by simp
    note m = entry_in_memory [OF e mem small, folded sp(2)] and ld = file_in_memory [OF e mem small, folded sp(2)]
    have "length (ce_data e) \<le> length ?mem" unfolding mem by (simp add: encode_def)
    then have d31: "length (ce_data e) < 2 ^ 31" using small by simp
    then have u: "u64i (int (length (ce_data e))) = length (ce_data e)" by (intro u64i_int) simp
    have al: "Malloc h (length (ce_data e)) = (map_option (replicate (length (ce_data e))) (h 0), heap_next h)"
      using d31 by (simp add: Malloc_def)
    have st: "store 0 (ce_data e) (replicate (length (ce_data e)) x) = Some (ce_data e)" for x
      by (simp add: store_def overwrite_def)
    show ?thesis
      using fh Some ne sp(3) m(1,2) ld u al st by (simp add: CPIOGetFile_def Let_def split: option.split)
  qed
qed

end
