(* ===== verification/CpioEdit.thy ===== *)
theory CpioEdit
  imports Cpio
begin

text \<open>
  Editing CPIO archives: what \<open>CPIOAddFile\<close>, \<open>CPIORemoveFile\<close> and \<open>CPIOCheckFile\<close> do to a
  well-formed archive. The archive they produce is again well formed and holds exactly the
  entries expected, so every later \<open>CPIOGetFile\<close> is determined by \<open>CPIOGetFile_archive\<close>.
\<close>

subsection \<open>Hexadecimal fields\<close>

lemma nibble_field:
  fixes x :: "32 word"
  shows "unat (drop_bit 28 (x AND 0xF0000000)) = unat x div 16 ^ 7 mod 16"
    and "unat (drop_bit 24 (x AND 0x0F000000)) = unat x div 16 ^ 6 mod 16"
    and "unat (drop_bit 20 (x AND 0x00F00000)) = unat x div 16 ^ 5 mod 16"
    and "unat (drop_bit 16 (x AND 0x000F0000)) = unat x div 16 ^ 4 mod 16"
    and "unat (drop_bit 12 (x AND 0x0000F000)) = unat x div 16 ^ 3 mod 16"
    and "unat (drop_bit 8 (x AND 0x00000F00)) = unat x div 16 ^ 2 mod 16"
    and "unat (drop_bit 4 (x AND 0x000000F0)) = unat x div 16 ^ 1 mod 16"
    and "unat (x AND 0x0000000F) = unat x div 16 ^ 0 mod 16"
proof -
  have n: "unat (take_bit 4 (drop_bit k x)) = unat x div 2 ^ k mod 16" for k
    by (simp only: unsigned_take_bit_eq unat_drop_bit_eq) (simp add: take_bit_eq_mod drop_bit_eq_div)
  have eq: "drop_bit 28 (x AND 0xF0000000) = take_bit 4 (drop_bit 28 x)" "drop_bit 24 (x AND 0x0F000000) = take_bit 4 (drop_bit 24 x)"
    "drop_bit 20 (x AND 0x00F00000) = take_bit 4 (drop_bit 20 x)" "drop_bit 16 (x AND 0x000F0000) = take_bit 4 (drop_bit 16 x)"
    "drop_bit 12 (x AND 0x0000F000) = take_bit 4 (drop_bit 12 x)" "drop_bit 8 (x AND 0x00000F00) = take_bit 4 (drop_bit 8 x)"
    "drop_bit 4 (x AND 0x000000F0) = take_bit 4 (drop_bit 4 x)" "x AND 0x0000000F = take_bit 4 (drop_bit 0 x)"
    by (simp_all only: word_eq_bits) (simp_all add: bit_blast)
  show "unat (drop_bit 28 (x AND 0xF0000000)) = unat x div 16 ^ 7 mod 16" "unat (drop_bit 24 (x AND 0x0F000000)) = unat x div 16 ^ 6 mod 16"
    "unat (drop_bit 20 (x AND 0x00F00000)) = unat x div 16 ^ 5 mod 16" "unat (drop_bit 16 (x AND 0x000F0000)) = unat x div 16 ^ 4 mod 16"
    "unat (drop_bit 12 (x AND 0x0000F000)) = unat x div 16 ^ 3 mod 16" "unat (drop_bit 8 (x AND 0x00000F00)) = unat x div 16 ^ 2 mod 16"
    "unat (drop_bit 4 (x AND 0x000000F0)) = unat x div 16 ^ 1 mod 16" "unat (x AND 0x0000000F) = unat x div 16 ^ 0 mod 16"
    unfolding eq n by simp_all
qed


lemma hex_loop_digit:
  assumes "unat w < 16"
  shows "hex_loop (HexDigit w # rs) r x = hex_loop rs (s32 (r * 16)) (s32 (x + s32 (r * int (unat w))))"
proof -
  have "unat w = 0 \<or> unat w = 1 \<or> unat w = 2 \<or> unat w = 3 \<or> unat w = 4 \<or> unat w = 5 \<or> unat w = 6 \<or> unat w = 7 \<or>
    unat w = 8 \<or> unat w = 9 \<or> unat w = 10 \<or> unat w = 11 \<or> unat w = 12 \<or> unat w = 13 \<or> unat w = 14 \<or> unat w = 15"
    using assms by presburger
  then show ?thesis by (elim disjE; simp add: HexDigit_def chr_def)
qed

lemma s32_int: "n < 2 ^ 31 \<Longrightarrow> s32 (int n) = int n"
  by (rule s32_small) simp_all

lemma hex_loop_step:
  assumes "n < 2 ^ 31" "k \<le> 7" "unat w = n div 16 ^ k mod 16" "j = Suc k"
  shows "hex_loop (HexDigit w # rs) (s32 (16 ^ k)) (int (n mod 16 ^ k)) = hex_loop rs (s32 (16 ^ j)) (int (n mod 16 ^ j))"
proof -
  have sum: "n mod 16 ^ Suc k = n mod 16 ^ k + 16 ^ k * unat w"
    unfolding assms(3) by (metis add.commute mod_mult2_eq power_Suc2)
  have le: "n mod 16 ^ Suc k < 2 ^ 31" using assms(1) by (meson le_less_trans mod_less_eq_dividend)
  have "(16 :: nat) ^ k \<le> 16 ^ 7" using assms(2) by (intro power_increasing) simp_all
  then have "s32 (int (16 ^ k)) = int (16 ^ k)" by (intro s32_int) simp
  moreover have "s32 (int (16 ^ k * unat w)) = int (16 ^ k * unat w)" using le sum by (intro s32_int) linarith
  moreover have "s32 (int (n mod 16 ^ k + 16 ^ k * unat w)) = int (n mod 16 ^ Suc k)"
    using le unfolding sum by (rule s32_int)
  moreover have "unat w < 16" by (simp add: assms(3))
  ultimately show ?thesis unfolding assms(4) by (simp add: hex_loop_digit mult.commute del: hex_loop.simps)
qed

text \<open>A field written by \<open>_IntToHex\<close> is read back by \<open>_HexToInt\<close>, below \<open>2^31\<close>.\<close>

lemma HexToInt_IntToHex:
  assumes "unat x < 2 ^ 31"
  shows "HexToInt (IntToHex x) = int (unat x)"
proof -
  note st = hex_loop_step [OF assms]
  note nf = nibble_field [of x]
  have steps: "hex_loop (HexDigit (x AND 0x0000000F) # rs) (s32 (16 ^ 0)) (int (unat x mod 16 ^ 0)) = hex_loop rs (s32 (16 ^ 1)) (int (unat x mod 16 ^ 1))"
    "hex_loop (HexDigit (drop_bit 4 (x AND 0x000000F0)) # rs) (s32 (16 ^ 1)) (int (unat x mod 16 ^ 1)) = hex_loop rs (s32 (16 ^ 2)) (int (unat x mod 16 ^ 2))"
    "hex_loop (HexDigit (drop_bit 8 (x AND 0x00000F00)) # rs) (s32 (16 ^ 2)) (int (unat x mod 16 ^ 2)) = hex_loop rs (s32 (16 ^ 3)) (int (unat x mod 16 ^ 3))"
    "hex_loop (HexDigit (drop_bit 12 (x AND 0x0000F000)) # rs) (s32 (16 ^ 3)) (int (unat x mod 16 ^ 3)) = hex_loop rs (s32 (16 ^ 4)) (int (unat x mod 16 ^ 4))"
    "hex_loop (HexDigit (drop_bit 16 (x AND 0x000F0000)) # rs) (s32 (16 ^ 4)) (int (unat x mod 16 ^ 4)) = hex_loop rs (s32 (16 ^ 5)) (int (unat x mod 16 ^ 5))"
    "hex_loop (HexDigit (drop_bit 20 (x AND 0x00F00000)) # rs) (s32 (16 ^ 5)) (int (unat x mod 16 ^ 5)) = hex_loop rs (s32 (16 ^ 6)) (int (unat x mod 16 ^ 6))"
    "hex_loop (HexDigit (drop_bit 24 (x AND 0x0F000000)) # rs) (s32 (16 ^ 6)) (int (unat x mod 16 ^ 6)) = hex_loop rs (s32 (16 ^ 7)) (int (unat x mod 16 ^ 7))"
    "hex_loop (HexDigit (drop_bit 28 (x AND 0xF0000000)) # rs) (s32 (16 ^ 7)) (int (unat x mod 16 ^ 7)) = hex_loop rs (s32 (16 ^ 8)) (int (unat x mod 16 ^ 8))"
    for rs
    by (rule st; (rule nf | simp))+
  have "hex_loop rs 1 0 = hex_loop rs (s32 (16 ^ 0)) (int (unat x mod 16 ^ 0))" for rs by (simp add: s32_def)
  then have "HexToInt (IntToHex x) = hex_loop [] (s32 (16 ^ 8)) (int (unat x mod 16 ^ 8))"
    unfolding HexToInt_def IntToHex_def rev.simps append.simps by (simp only: steps)
  also have "\<dots> = int (unat x)" using assms by simp
  finally show ?thesis .
qed

subsection \<open>The new entry and the new trailer\<close>

definition zero_pad :: "nat \<Rightarrow> bytes" where
  "zero_pad n = replicate (rup n 4 - n) 0"

definition new_entry :: "bytes \<Rightarrow> 32 word \<Rightarrow> bytes \<Rightarrow> bytes \<Rightarrow> cpio_entry" where
  "new_entry trailer mode path d =
     \<lparr> ce_header = new_header trailer mode (length d) (length path), ce_name = path, ce_pad1 = zero_pad (111 + length path),
       ce_data = d, ce_pad2 = zero_pad (length d) \<rparr>"

definition new_trailer :: "cpio_entry \<Rightarrow> cpio_entry" where
  "new_trailer tr = tr \<lparr> ce_pad1 := zero_pad 121, ce_pad2 := [] \<rparr>"

lemma length_IntToHex [simp]: "length (IntToHex x) = 8"
  by (simp add: IntToHex_def)

lemma new_entry_wf:
  assumes "entry_wf tr" "length d < 2 ^ 31" "length path + 1 < 2 ^ 31" "0 \<notin> set path"
  shows "entry_wf (new_entry (ce_header tr) mode path d)"
proof -
  have h: "length (ce_header tr) = 110" "take 6 (ce_header tr) = ascii ''070701''" using assms(1) by (simp_all add: entry_wf_def)
  have "unat (of_nat (length d) :: 32 word) = length d" "unat (of_nat (length path + 1) :: 32 word) = length path + 1"
    using assms(2,3) by (simp_all add: unat_of_nat take_bit_nat_eq_self del: of_nat_Suc of_nat_add)
  then have hex: "HexToInt (IntToHex (of_nat (length d))) = int (length d)"
    "HexToInt (IntToHex (of_nat (length path + 1))) = int (length path) + 1"
    using assms(2,3) by (simp_all add: HexToInt_IntToHex del: of_nat_Suc of_nat_add) 
  have pad: "length (zero_pad n) = rup n 4 - n" for n by (simp add: zero_pad_def)
  let ?h = "new_header (ce_header tr) mode (length d) (length path)"
  have "slice 54 8 ?h = IntToHex (of_nat (length d))" "slice 94 8 ?h = IntToHex (of_nat (length path + 1))"
    using h(1) by (simp_all add: new_header_def slice_0_append)
  moreover have "length ?h = 110" "take 6 ?h = take 6 (ce_header tr)" using h(1) by (simp_all add: new_header_def)
  ultimately show ?thesis
    using h(2) hex pad assms(4) by (simp add: entry_wf_def new_entry_def del: of_nat_Suc of_nat_add)
qed

lemma new_trailer_wf: "archive_wf es tr \<Longrightarrow> archive_wf es (new_trailer tr)"
  by (simp add: archive_wf_def entry_wf_def new_trailer_def zero_pad_def TRAILER_def rup_def)

lemma archive_wf_snoc:
  "archive_wf es tr \<Longrightarrow> entry_wf e \<Longrightarrow> ce_name e \<noteq> TRAILER \<Longrightarrow> archive_wf (es @ [e]) tr"
  by (simp add: archive_wf_def)

subsection \<open>Writing into cleared memory\<close>

lemma store_zeros:
  assumes "length a \<le> off" "off + length ys \<le> length a + k"
  shows "store off ys (a @ replicate k 0) =
    Some (a @ replicate (off - length a) 0 @ ys @ replicate (length a + k - (off + length ys)) 0)"
proof -
  have "replicate k (0::'a) = replicate (off - length a) 0 @ replicate (length a + k - off) 0"
    using assms by (simp flip: replicate_add)
  moreover have "drop (length ys) (replicate (length a + k - off) (0::'a)) = replicate (length a + k - (off + length ys)) 0"
    by simp
  ultimately show ?thesis
    using assms overwrite_append [of "a @ replicate (off - length a) 0" off ys "replicate (length a + k - off) 0"]
    by (simp add: store_def)
qed

lemma u64i_RoundUp:
  assumes "rup x m < 2 ^ 31" "0 < m" "m \<le> 512"
  shows "u64i (RoundUpToMultiple x m) = rup x m"
proof -
  have "u64i (int (rup x m)) = rup x m" using assms(1) by (intro u64i_int) simp
  with RoundUp_rup [OF assms] show ?thesis by simp
qed

lemma append_file_spec:
  assumes t: "length old = t" "4 dvd t" and hdr: "length hdr = 110" "length trailer = 110" and p: "0 \<notin> set path"
    and fd: "fd = Some d \<or> fd = None \<and> d = []"
    and n: "n = rup (t + rup (111 + length path) 4 + rup (length d) 4 + 124) 512" "n < 2 ^ 31"
  shows "append_file (old @ replicate (n - t) 0) t hdr (path @ 0 # r) (length path) fd (length d) trailer =
    Some (old @ hdr @ path @ [0] @ zero_pad (111 + length path) @ d @ zero_pad (length d) @ trailer @ TRAILER @ [0] @
      zero_pad 121 @ replicate (n - (t + rup (111 + length path) 4 + rup (length d) 4 + 124)) 0, n)"
proof -
  let ?l = "length path" and ?z = "\<lambda>k. replicate k (0 :: byte)"
  let ?R = "rup (111 + ?l) 4" and ?D = "rup (length d) 4"
  have b: "111 + ?l \<le> ?R" "length d \<le> ?D" "t + ?R + ?D + 124 \<le> n" unfolding n(1) by (simp_all add: rup_bounds(1))
  note ru = u64i_RoundUp
  have r3: "rup (t + 110 + (?l + 1)) 4 = t + ?R" using rup_add [OF t(2), of "111 + ?l"] by (simp add: ac_simps)
  have r5: "rup (t + ?R + length d) 4 = t + ?R + ?D" using t(2) by (intro rup_add) simp_all
  have r7: "rup (t + ?R + ?D + 110 + 11) 4 = t + ?R + ?D + 124"
    using rup_add [of 4 "t + ?R + ?D" 121] t(2) by (simp add: rup_def)
  have o3: "u64i (RoundUpToMultiple (t + CPIO_HEADER_SIZE + (?l + 1)) 4) = t + ?R"
    using ru [of "t + 110 + (?l + 1)" 4] r3 b n(2) by (simp add: CPIO_HEADER_SIZE_def)
  have o5: "u64i (RoundUpToMultiple (u64 (t + ?R + length d)) 4) = t + ?R + ?D"
    using ru [of "t + ?R + length d" 4] r5 b n(2) by simp
  have o7: "u64i (RoundUpToMultiple (u64 (u64 (t + ?R + ?D + CPIO_HEADER_SIZE) + 11)) 4) = t + ?R + ?D + 124"
    using ru [of "t + ?R + ?D + 110 + 11" 4] r7 b n(2) by (simp add: CPIO_HEADER_SIZE_def)
  have o8: "u64i (RoundUpToMultiple (t + ?R + ?D + 124) CPIO_BLOCK_SIZE) = n"
    using ru [of "t + ?R + ?D + 124" 512] n by (simp add: CPIO_BLOCK_SIZE_def)
  let ?p2 = "old @ hdr @ path @ [0]"
  have s1: "store t hdr (old @ ?z (n - t)) = Some ((old @ hdr) @ ?z (n - (t + 110)))"
    using b t hdr by (subst store_zeros) simp_all
  have s2: "store (t + CPIO_HEADER_SIZE) (path @ [0]) ((old @ hdr) @ ?z (n - (t + 110))) = Some (?p2 @ ?z (n - (t + 111 + ?l)))"
    using b t hdr by (subst store_zeros) (simp_all add: CPIO_HEADER_SIZE_def)
  let ?p3 = "?p2 @ zero_pad (111 + ?l) @ d"
  have s3: "(case fd of None \<Rightarrow> Some (?p2 @ ?z (n - (t + 111 + ?l)), t + ?R)
      | Some fd \<Rightarrow> do { d' \<leftarrow> load 0 (length d) fd; p \<leftarrow> store (t + ?R) d' (?p2 @ ?z (n - (t + 111 + ?l))); Some (p, u64 (t + ?R + length d)) }) =
      Some (?p3 @ ?z (n - (t + ?R + length d)), u64 (t + ?R + length d))"
  proof -
    have u: "u64 (t + ?R + length d) = t + ?R + length d" using b n(2) by simp
    have st: "store (t + ?R) d (?p2 @ ?z (n - (t + 111 + ?l))) = Some (?p3 @ ?z (n - (t + ?R + length d)))"
      using b t hdr by (subst store_zeros) (simp_all add: zero_pad_def)
    have "?p2 @ ?z (n - (t + 111 + ?l)) = ?p3 @ ?z (n - (t + ?R + length d))" if "d = []"
      using b that by (simp add: zero_pad_def flip: replicate_add)
    with fd u st show ?thesis by (auto simp: load_def)
  qed
  have s4: "store (t + ?R + ?D) trailer (?p3 @ ?z (n - (t + ?R + length d))) =
      Some ((?p3 @ zero_pad (length d) @ trailer) @ ?z (n - (t + ?R + ?D + 110)))"
    using b t hdr by (subst store_zeros) (simp_all add: zero_pad_def)
  have s5: "store (t + ?R + ?D + 110) (TRAILER @ [0]) ((?p3 @ zero_pad (length d) @ trailer) @ ?z (n - (t + ?R + ?D + 110))) =
      Some ((?p3 @ zero_pad (length d) @ trailer @ TRAILER @ [0]) @ ?z (n - (t + ?R + ?D + 121)))"
    using b t hdr by (subst store_zeros) (simp_all add: zero_pad_def TRAILER_def)
  have "?z (n - (t + ?R + ?D + 121)) = zero_pad 121 @ ?z (n - (t + ?R + ?D + 124))"
  proof -
    have "zero_pad 121 = ?z 3" by (simp add: zero_pad_def rup_def)
    moreover have "n - (t + ?R + ?D + 121) = 3 + (n - (t + ?R + ?D + 124))" using b by linarith
    ultimately show ?thesis by (simp only: replicate_add)
  qed
  note z = this
  have tk: "take (?l + 1) (path @ 0 # r) = path @ [0]" by simp
  have o6: "u64 (t + ?R + ?D + CPIO_HEADER_SIZE) = t + ?R + ?D + 110" using b n(2) by (simp add: CPIO_HEADER_SIZE_def)
  show ?thesis
    unfolding append_file_def s1 tk Let_def bind.bind_lunit s2 o3 s3 prod.case o5 s4 o6 s5 o7 [unfolded o6] o8 z by simp
qed

text \<open>The archive with a file added: its entries, then the file, the trailer, and zeros up to a block.\<close>

definition added :: "cpio_entry list \<Rightarrow> cpio_entry \<Rightarrow> 32 word \<Rightarrow> bytes \<Rightarrow> bytes \<Rightarrow> bytes" where
  "added es tr mode path d =
     (let a = archive (es @ [new_entry (ce_header tr) mode path d]) (new_trailer tr) []
      in a @ replicate (rup (length a) 512 - length a) 0)"

lemma added_archive:
  "\<exists>k. added es tr mode path d = archive (es @ [new_entry (ce_header tr) mode path d]) (new_trailer tr) (replicate k 0)"
  by (auto simp: added_def archive_def Let_def)

lemma length_added: "length (added es tr mode path d) =
    rup (length (archive (es @ [new_entry (ce_header tr) mode path d]) (new_trailer tr) [])) 512"
  by (simp add: added_def Let_def rup_bounds(1))

lemma length_encode_trailer:
  "archive_wf es tr \<Longrightarrow> length (encode (new_trailer tr)) = 124"
  by (simp add: archive_wf_def entry_wf_def new_trailer_def encode_def zero_pad_def rup_def TRAILER_def)

lemma new_trailer_encode:
  "archive_wf es tr \<Longrightarrow> encode (new_trailer tr) = ce_header tr @ TRAILER @ [0] @ zero_pad 121"
  by (simp add: archive_wf_def new_trailer_def encode_def)

lemma encodes_aligned: "list_all entry_wf es \<Longrightarrow> 4 dvd length (concat (map encode es))"
  by (induction es) (simp_all add: encode_aligned)

lemma archive_wf_entries: "archive_wf es tr \<Longrightarrow> list_all entry_wf es"
  by (simp add: archive_wf_def list_all_iff)

lemma offset_of_app:
  "offset_of t (es @ es') off =
     (case offset_of t es off of None \<Rightarrow> offset_of t es' (off + length (concat (map encode es))) | Some o' \<Rightarrow> Some o')"
  by (induction es arbitrary: off) (auto simp: add.assoc split: option.split)

lemma offset_of_trailer:
  assumes "archive_wf es tr"
  shows "offset_of TRAILER (es @ [tr]) 0 = Some (length (concat (map encode es)))"
proof -
  have "offset_of TRAILER es off = None" for off
    using assms by (induction es arbitrary: off) (simp_all add: archive_wf_def)
  with assms show ?thesis by (simp add: offset_of_app archive_wf_def)
qed

lemma CPIOAddFile_archive:
  assumes wf: "archive_wf es tr" and small: "length (archive es tr rest) < 2 ^ 31"
    and path: "0 \<notin> set path" and fd: "fd = Some d \<or> fd = None \<and> d = []"
    and new: "length (added es tr mode path d) < 2 ^ 31"
  shows "CPIOAddFile h (archive es tr rest) (length (archive es tr rest)) (path @ 0 # r) fd (length d) mode =
    (case h 0 of
       None \<Rightarrow> Some (-1, None, heap_next h)
     | Some _ \<Rightarrow> Some (0, Some (added es tr mode path d, length (added es tr mode path d)), heap_next h))"
proof -
  let ?mem = "archive es tr rest" and ?old = "concat (map encode es)"
  let ?t = "length ?old" and ?R = "rup (111 + length path) 4" and ?D = "rup (length d) 4" and ?n = "length (added es tr mode path d)"
  let ?e = "new_entry (ce_header tr) mode path d"
  have "entry_wf tr" using wf by (simp add: archive_wf_def)
  then have tr: "length (ce_header tr) = 110" by (simp add: entry_wf_def)
  have al: "4 dvd ?t" by (rule encodes_aligned [OF archive_wf_entries [OF wf]])
  have ne: "length ?mem \<noteq> 0" by (simp add: archive_def encode_def)
  have enc: "encode ?e = new_header (ce_header tr) mode (length d) (length path) @ path @ [0] @ zero_pad (111 + length path) @ d @ zero_pad (length d)"
    by (simp add: encode_def new_entry_def)
  have hl: "length (new_header (ce_header tr) mode (length d) (length path)) = 110" using tr by (simp add: new_header_def)
  have le: "length (encode ?e) = ?R + ?D"
    unfolding enc using hl rup_bounds(1) [of 4 "111 + length path"] rup_bounds(1) [of 4 "length d"] by (simp add: zero_pad_def)
  have la: "length (archive (es @ [?e]) (new_trailer tr) []) = ?t + ?R + ?D + 124"
    by (simp add: archive_def le length_encode_trailer [OF wf])
  have n: "?n = rup (?t + ?R + ?D + 124) 512" unfolding length_added la ..
  have b: "?t + ?R + ?D + 124 \<le> ?n" unfolding n by (rule rup_bounds) simp
  have fh: "FindHeader ?mem (length ?mem) (TRAILER @ [0]) = Some (0, Some (int ?t))"
    using FindHeader_archive [OF wf small TRAILER_nonzero, of "[]"] offset_of_trailer [OF wf] by simp
  note ru = u64i_RoundUp
  have pl: "posix_strlen (path @ 0 # r) = Some (length path)" using path by simp
  have r2: "rup (?R + length d) 4 = ?R + ?D" by (rule rup_add) simp_all
  have hs: "ComputeHeaderSize (path @ 0 # r) (length d) = Some (?R + ?D)"
  proof -
    have "u64i (RoundUpToMultiple (110 + (length path + 1)) 4) = ?R" using ru [of "111 + length path" 4] b new by simp
    moreover have "u64i (RoundUpToMultiple (u64 (?R + length d)) 4) = ?R + ?D"
      using ru [of "?R + length d" 4] r2 rup_bounds(1) [of 4 "length d"] b new by simp
    ultimately show ?thesis by (simp add: ComputeHeaderSize_def pl Let_def)
  qed
  have ts: "ComputeTrailerSize = 124" using ru [of 121 4] by (simp add: ComputeTrailerSize_def rup_def)
  have ut: "u64i (int ?t) = ?t" using b new by (intro u64i_int) simp
  have so: "u64i (RoundUpToMultiple (u64 (?t + (?R + ?D) + 124)) CPIO_BLOCK_SIZE) = ?n"
    using ru [of "?t + ?R + ?D + 124" 512] b new n by (simp add: CPIO_BLOCK_SIZE_def add.assoc)
  have ld: "loadi (int ?t) CPIO_HEADER_SIZE ?mem = Some (ce_header tr)"
    using loadi_app [of ?old ?t "ce_header tr" 110] tr by (simp add: archive_def encode_def CPIO_HEADER_SIZE_def)
  have old: "load 0 ?t ?mem = Some ?old" by (simp add: load_def archive_def slice_0_append)
  have ca: "Calloc h 1 ?n = (map_option (\<lambda>_. replicate ?n 0) (h 0), heap_next h)"
    using new by (simp add: Calloc_def)
  have st: "store 0 ?old (replicate ?n 0) = Some (?old @ replicate (?n - ?t) 0)"
    using store_zeros [of "[]" 0 ?old ?n] b by simp
  have ap: "append_file (?old @ replicate (?n - ?t) 0) ?t (new_header (ce_header tr) mode (length d) (length path)) (path @ 0 # r)
      (length path) fd (length d) (ce_header tr) = Some (added es tr mode path d, ?n)"
  proof -
    have "added es tr mode path d = archive (es @ [?e]) (new_trailer tr) [] @ replicate (?n - (?t + ?R + ?D + 124)) 0"
      unfolding n by (simp only: added_def Let_def la)
    then have "added es tr mode path d = ?old @ encode ?e @ encode (new_trailer tr) @ replicate (?n - (?t + ?R + ?D + 124)) 0"
      by (simp add: archive_def)
    then show ?thesis
      unfolding enc new_trailer_encode [OF wf] using append_file_spec [OF refl al hl tr path fd n new] by simp
  qed
  show ?thesis
    unfolding CPIOAddFile_def using ne
    by (simp add: fh hs ts ut so pl ld ca old st ap Let_def del: One_nat_def split: option.split)
qed

subsection \<open>Removing a file\<close>

abbreviation keep :: "bytes \<Rightarrow> cpio_entry list \<Rightarrow> cpio_entry list" where
  "keep t \<equiv> filter (\<lambda>e. ce_name e \<noteq> t)"

lemma length_keep: "length (concat (map encode (keep t es))) \<le> length (concat (map encode es))"
  by (induction es) auto

text \<open>One round of the copy loop: the entry is skipped or copied behind the ones kept so far.\<close>

lemma remove_step:
  assumes e: "entry_wf e" and mem: "mem = pre @ encode e @ post" and small: "length mem < 2 ^ 31" and t: "0 \<notin> set t"
    and nx: "CPIONextHeader mem (length mem) (Some (int (length pre))) = Some (0, next)"
    and k: "length (encode e) \<le> k" "length out + k < 2 ^ 31"
  shows "remove_loop mem (length mem) (t @ 0 # r) (int (length pre)) (out @ replicate k 0) (int (length out)) found =
    (let out' = (if ce_name e = t then out else out @ encode e);
         k' = (if ce_name e = t then k else k - length (encode e));
         found' = (found \<or> ce_name e = t)
     in case next of
          None \<Rightarrow> Some (0, out' @ replicate k' 0, int (length out'), found')
        | Some n \<Rightarrow> remove_loop mem (length mem) (t @ 0 # r) n (out' @ replicate k' 0) (int (length out')) found')"
proof -
  note m = entry_in_memory [OF e mem small] and c = check_entry_ok [OF e mem small]
  have "0 \<notin> set (ce_name e)" using e by (simp add: entry_wf_def)
  from strcmp_name [OF this t] obtain c'
    where c': "posix_strcmp (ce_name e @ 0 # ce_pad1 e @ ce_data e @ ce_pad2 e @ post) (t @ 0 # r) = Some c'" "c' = 0 \<longleftrightarrow> ce_name e = t"
    by blast
  have u: "u64i (int (length (encode e))) = length (encode e)" using k by (intro u64i_int) simp
  have ld: "loadi (int (length pre)) (length (encode e)) mem = Some (encode e)" unfolding mem by (rule loadi_app) simp_all
  have st: "store (length out) (encode e) (out @ replicate k 0) = Some (out @ encode e @ replicate (k - length (encode e)) 0)"
    using k by (subst store_zeros) simp_all
  have s: "s32 (int (length out) + int (length (encode e))) = int (length out) + int (length (encode e))"
    using s32_int [of "length out + length (encode e)"] k by simp
  show ?thesis
    by (subst remove_loop.simps) (simp add: c m(3,5) c' nx u ld st s Let_def split: option.split)
qed

lemma remove_loop_archive:
  assumes "archive_wf es tr" "mem = pre @ archive es tr rest" "length mem < 2 ^ 31" "0 \<notin> set t" "t \<noteq> TRAILER"
    and "length (archive es tr []) \<le> k" "length out + k < 2 ^ 31"
  shows "remove_loop mem (length mem) (t @ 0 # r) (int (length pre)) (out @ replicate k 0) (int (length out)) found =
    Some (0, out @ archive (keep t es) tr (replicate (k - length (archive (keep t es) tr [])) 0),
      int (length out + length (archive (keep t es) tr [])), found \<or> entry_of t es \<noteq> None)"
  using assms(1,2,6,7)
proof (induction es arbitrary: pre out k found)
  case Nil
  then have tr: "entry_wf tr" "ce_name tr = TRAILER" and mem: "mem = pre @ encode tr @ rest"
    by (simp_all add: archive_wf_def archive_Nil)
  show ?case
    using remove_step [OF tr(1) mem assms(3,4) next_header_trailer [OF tr mem assms(3)], of k out r found] Nil tr assms(5)
    by (simp add: archive_Nil)
next
  case (Cons e es)
  then have e: "entry_wf e" "ce_name e \<noteq> TRAILER" and wf: "archive_wf es tr"
    and mem: "mem = pre @ encode e @ archive es tr rest" by (auto simp: archive_Cons)
  obtain e' post where e': "entry_wf e'" and ar: "archive es tr rest = encode e' @ post"
    by (rule archive_head [OF wf])
  have nx: "CPIONextHeader mem (length mem) (Some (int (length pre))) = Some (0, Some (int (length (pre @ encode e))))"
    using next_header_step [OF e e' _ assms(3)] mem ar by simp
  have mem': "mem = (pre @ encode e) @ archive es tr rest" using mem by simp
  have k: "length (encode e) \<le> k" "length (archive es tr []) \<le> k - length (encode e)" using Cons.prems(3) by (simp_all add: archive_Cons)
  note st = remove_step [OF e(1) mem assms(3,4) nx k(1) Cons.prems(4), of r found, unfolded Let_def option.case]
  show ?case
  proof (cases "ce_name e = t")
    case True
    have "length (archive es tr []) \<le> k" using k by simp
    from Cons.IH [OF wf mem' this Cons.prems(4)] True show ?thesis unfolding st by simp
  next
    case False
    have "length (out @ encode e) + (k - length (encode e)) < 2 ^ 31" using k Cons.prems(4) by simp
    from Cons.IH [OF wf mem' k(2) this] False show ?thesis unfolding st
      by (simp add: archive_Cons)
  qed
qed

lemma CPIORemoveFile_archive:
  assumes wf: "archive_wf es tr" and small: "length (archive es tr rest) < 2 ^ 31 - 512" and t: "0 \<notin> set t" "t \<noteq> TRAILER"
  shows "CPIORemoveFile h (archive es tr rest) (length (archive es tr rest)) (t @ 0 # r) =
    (if entry_of t es = None then Some (-1, None, h)
     else case h 0 of
       None \<Rightarrow> Some (-1, None, heap_next h)
     | Some _ \<Rightarrow>
         (let n = length (archive (keep t es) tr [])
          in Some (0, Some (archive (keep t es) tr (replicate (length (archive es tr rest) - n) 0), rup n 512), heap_next h)))"
proof -
  let ?mem = "archive es tr rest" and ?n = "length (archive (keep t es) tr [])"
  have small': "length ?mem < 2 ^ 31" using small by simp
  have ne: "length ?mem \<noteq> 0" by (simp add: archive_def encode_def)
  have le: "?n \<le> length ?mem" "length (archive es tr []) \<le> length ?mem"
    using length_keep [of t es] by (simp_all add: archive_def)
  have eo: "entry_of t (es @ [tr]) = entry_of t es"
    using wf t(2) by (induction es) (auto simp: archive_wf_def)
  have fh: "FindHeader ?mem (length ?mem) (t @ 0 # r) = Some (case offset_of t (es @ [tr]) 0 of None \<Rightarrow> (-1, None) | Some off \<Rightarrow> (0, Some (int off)))"
    by (rule FindHeader_archive [OF wf small' t(1)])
  have ca: "Calloc h 1 (length ?mem) = (map_option (\<lambda>_. replicate (length ?mem) 0) (h 0), heap_next h)"
    using small by (simp add: Calloc_def)
  have "0 + length ?mem < 2 ^ 31" using small' by simp
  from remove_loop_archive [OF wf _ small' t le(2), of "[]" rest "[]" r False]
  have rl: "remove_loop ?mem (length ?mem) (t @ 0 # r) 0 (replicate (length ?mem) 0) 0 False =
      Some (0, archive (keep t es) tr (replicate (length ?mem - ?n) 0), int ?n, entry_of t es \<noteq> None)"
    using small' by simp
  have "rup ?n 512 < 2 ^ 31" using rup_bounds(2) [of 512 ?n] le small by simp
  then have ru: "u64i (RoundUpToMultiple (u64i (int ?n)) CPIO_BLOCK_SIZE) = rup ?n 512"
    using u64i_RoundUp [of ?n 512] u64i_int [of ?n] le small by (simp add: CPIO_BLOCK_SIZE_def)
  show ?thesis
  proof (cases "offset_of t (es @ [tr]) 0")
    case None
    then have "entry_of t es = None" by (simp add: offset_of_None eo [symmetric])
    with None fh ne show ?thesis by (simp add: CPIORemoveFile_def)
  next
    case (Some o')
    then obtain y where "entry_of t es = Some y" using offset_of_None [of t "es @ [tr]" 0] eo by auto
    with Some fh ne ca rl ru show ?thesis
      by (simp add: CPIORemoveFile_def Let_def del: One_nat_def split: option.split)
  qed
qed

subsection \<open>Checking for a file\<close>

lemma check_loop_archive:
  assumes "archive_wf es tr" "mem = pre @ archive es tr rest" "length mem < 2 ^ 31" "0 \<notin> set t"
  shows "check_loop mem (length mem) (t @ 0 # r) (int (length pre)) = Some (if entry_of t (es @ [tr]) = None then 0 else -1)"
  using assms(1,2)
proof (induction es arbitrary: pre)
  case Nil
  then have tr: "entry_wf tr" "ce_name tr = TRAILER" and mem: "mem = pre @ encode tr @ rest"
    by (simp_all add: archive_wf_def archive_Nil)
  have "0 \<notin> set (ce_name tr)" using tr(1) by (simp add: entry_wf_def)
  from strcmp_name [OF this assms(4)] obtain c
    where c: "posix_strcmp (ce_name tr @ 0 # ce_pad1 tr @ ce_data tr @ ce_pad2 tr @ rest) (t @ 0 # r) = Some c" "c = 0 \<longleftrightarrow> ce_name tr = t"
    by blast
  show ?case
    using check_entry_ok [OF tr(1) mem assms(3)] entry_in_memory(3) [OF tr(1) mem assms(3)] c next_header_trailer [OF tr mem assms(3)]
    by (subst check_loop.simps) auto
next
  case (Cons e es)
  then have e: "entry_wf e" "ce_name e \<noteq> TRAILER" and wf: "archive_wf es tr"
    and mem: "mem = pre @ encode e @ archive es tr rest" by (auto simp: archive_Cons)
  obtain e' post where e': "entry_wf e'" and ar: "archive es tr rest = encode e' @ post"
    by (rule archive_head [OF wf])
  have "0 \<notin> set (ce_name e)" using e(1) by (simp add: entry_wf_def)
  from strcmp_name [OF this assms(4)] obtain c
    where c: "posix_strcmp (ce_name e @ 0 # ce_pad1 e @ ce_data e @ ce_pad2 e @ archive es tr rest) (t @ 0 # r) = Some c" "c = 0 \<longleftrightarrow> ce_name e = t"
    by blast
  have nx: "CPIONextHeader mem (length mem) (Some (int (length pre))) = Some (0, Some (int (length (pre @ encode e))))"
    using next_header_step [OF e e' _ assms(3)] mem ar by simp
  have ih: "check_loop mem (length mem) (t @ 0 # r) (int (length (pre @ encode e))) = Some (if entry_of t (es @ [tr]) = None then 0 else -1)"
    using mem by (intro Cons.IH [OF wf]) simp
  show ?case
    using check_entry_ok [OF e(1) mem assms(3)] entry_in_memory(3) [OF e(1) mem assms(3)] c nx ih
    by (subst check_loop.simps) auto
qed

lemma CPIOCheckFile_archive:
  assumes "archive_wf es tr" "length (archive es tr rest) < 2 ^ 31" "0 \<notin> set t"
  shows "CPIOCheckFile (archive es tr rest) (length (archive es tr rest)) (t @ 0 # r) =
    Some (if entry_of t (es @ [tr]) = None then 0 else -1)"
proof -
  have "length (ce_header tr) = 110" using assms(1) by (simp add: archive_wf_def entry_wf_def)
  then have "110 \<le> length (archive es tr rest)" by (simp add: archive_def encode_def)
  then show ?thesis
    using check_loop_archive [OF assms(1) _ assms(2,3), of "[]" rest r] by (simp add: CPIOCheckFile_def CPIO_HEADER_SIZE_def)
qed

subsection \<open>Splitting concatenated archives\<close>

text \<open>An archive padded with zeros, or anything else, to a multiple of the block size.\<close>

definition padded_archive :: "bytes \<Rightarrow> bool" where
  "padded_archive a \<longleftrightarrow>
     (\<exists>es tr rest. archive_wf es tr \<and> a = archive es tr rest \<and> length a = rup (length (archive es tr [])) 512)"

lemma subfile_loop_archive:
  assumes "archive_wf es tr" "mem = pre @ archive es tr rest" "length mem < 2 ^ 31" "n + length (archive es tr []) < 2 ^ 31"
  shows "subfile_loop mem (length mem) (int (length pre)) n = Some (0, n + length (archive es tr []), True)"
  using assms(1,2,4)
proof (induction es arbitrary: pre n)
  case Nil
  then have tr: "entry_wf tr" "ce_name tr = TRAILER" and mem: "mem = pre @ encode tr @ rest"
    by (simp_all add: archive_wf_def archive_Nil)
  note m = entry_in_memory [OF tr(1) mem assms(3)]
  have mg: "CPIOMatchMagicNumber (take 6 (ce_header tr))" using tr(1) by (simp add: CPIOMatchMagicNumber_def entry_wf_def)
  have u: "u64i (int n + int (length (encode tr))) = n + length (encode tr)"
    using u64i_int [of "n + length (encode tr)"] Nil(3) by (simp add: archive_Nil)
  show ?case
    using check_entry_ok [OF tr(1) mem assms(3)] m(4,5) mg u next_header_trailer [OF tr mem assms(3)]
    by (subst subfile_loop.simps) (simp add: archive_Nil)
next
  case (Cons e es)
  then have e: "entry_wf e" "ce_name e \<noteq> TRAILER" and wf: "archive_wf es tr"
    and mem: "mem = pre @ encode e @ archive es tr rest" by (auto simp: archive_Cons)
  obtain e' post where e': "entry_wf e'" and ar: "archive es tr rest = encode e' @ post"
    by (rule archive_head [OF wf])
  note m = entry_in_memory [OF e(1) mem assms(3)]
  have mg: "CPIOMatchMagicNumber (take 6 (ce_header e))" using e(1) by (simp add: CPIOMatchMagicNumber_def entry_wf_def)
  have u: "u64i (int n + int (length (encode e))) = n + length (encode e)"
    using u64i_int [of "n + length (encode e)"] Cons.prems(3) by (simp add: archive_Cons)
  have nx: "CPIONextHeader mem (length mem) (Some (int (length pre))) = Some (0, Some (int (length (pre @ encode e))))"
    using next_header_step [OF e e' _ assms(3)] mem ar by simp
  have "subfile_loop mem (length mem) (int (length (pre @ encode e))) (n + length (encode e)) =
      Some (0, n + length (encode e) + length (archive es tr []), True)"
    using mem Cons.prems(3) by (intro Cons.IH [OF wf]) (simp_all add: archive_Cons)
  then show ?case
    using check_entry_ok [OF e(1) mem assms(3)] m(4,5) mg u nx
    by (subst subfile_loop.simps) (simp add: archive_Cons)
qed

lemma subfile_size_padded:
  assumes "padded_archive a" "length (a @ behind) < 2 ^ 31"
  shows "subfile_size (a @ behind) (length (a @ behind)) = Some (0, length a)" and "0 < length a"
proof -
  from assms(1) obtain es tr rest where wf: "archive_wf es tr" and a: "a = archive es tr rest"
    and len: "length a = rup (length (archive es tr [])) 512" by (auto simp: padded_archive_def)
  let ?n = "length (archive es tr [])"
  have "length (ce_header tr) = 110" using wf by (simp add: archive_wf_def entry_wf_def)
  then have big: "110 \<le> length a" unfolding a by (simp add: archive_def encode_def)
  then show "0 < length a" by linarith
  have le: "?n \<le> length a" unfolding len by (rule rup_bounds) simp
  have mem: "a @ behind = [] @ archive es tr (rest @ behind)" unfolding a by (simp add: archive_def)
  have sl: "subfile_loop (a @ behind) (length (a @ behind)) 0 0 = Some (0, ?n, True)"
    using subfile_loop_archive [OF wf mem assms(2), of 0] le assms(2) by simp
  have "list_all entry_wf (es @ [tr])" using wf by (simp add: archive_wf_def list_all_iff)
  from encodes_aligned [OF this] have "4 dvd ?n" by (simp add: archive_def)
  then have r4: "rup ?n 4 = ?n" by (intro rup_id) simp_all
  have "u64i (RoundUpToMultiple ?n 4) = ?n" using u64i_RoundUp [of ?n 4] r4 le assms(2) by simp
  moreover have "u64i (RoundUpToMultiple ?n CPIO_BLOCK_SIZE) = length a"
    using u64i_RoundUp [of ?n 512] len assms(2) by (simp add: CPIO_BLOCK_SIZE_def)
  ultimately show "subfile_size (a @ behind) (length (a @ behind)) = Some (0, length a)"
    using sl big by (simp add: subfile_size_def CPIO_HEADER_SIZE_def)
qed

text \<open>The suffixes at which the archives of a concatenation start, with their sizes.\<close>

fun subfiles :: "bytes list \<Rightarrow> (bytes \<times> nat) list" where
  "subfiles [] = []"
| "subfiles (a # as) = (concat (a # as), length a) # subfiles as"

lemma split_files_loop_concat:
  assumes "\<forall>a \<in> set as. padded_archive a" "length (concat as) < 2 ^ 31" "length subs + length as \<le> CPIO_MAX_SUBFILES"
  shows "split_files_loop (concat as) (length (concat as)) subs = Some (0, subs @ subfiles as)"
  using assms
proof (induction as arbitrary: subs)
  case (Cons a as)
  let ?m = "a @ concat as"
  have sz: "subfile_size ?m (length ?m) = Some (0, length a)" "0 < length a"
    using subfile_size_padded [of a "concat as"] Cons.prems by auto
  have u: "usub64 (length ?m) (length a) = length (concat as)" using Cons.prems(2) by (subst usub64_small) simp_all
  have ih: "split_files_loop (concat as) (length (concat as)) (subs @ [(?m, length a)]) = Some (0, (subs @ [(?m, length a)]) @ subfiles as)"
    using Cons.prems by (intro Cons.IH) simp_all
  have "fromi (int (length a)) ?m = Some (concat as)" by (simp add: fromi_def)
  with sz u ih Cons.prems(3) show ?case
    by (subst split_files_loop.simps) simp
qed (subst split_files_loop.simps, simp)

subsection \<open>Round trips\<close>

lemma entry_of_app: "entry_of t (es @ es') = (case entry_of t es of None \<Rightarrow> entry_of t es' | Some e \<Rightarrow> Some e)"
  by (induction es) auto

lemma entry_of_None: "entry_of t es = None \<longleftrightarrow> t \<notin> ce_name ` set es"
  by (induction es) auto

lemma entry_of_keep: "entry_of t (keep t es) = None" "t' \<noteq> t \<Longrightarrow> entry_of t' (keep t es) = entry_of t' es"
  by (induction es) auto

lemma take_archive:
  assumes "length (archive es tr []) \<le> n"
  shows "\<exists>k. take n (archive es tr (replicate j 0)) = archive es tr (replicate k 0)"
proof -
  have eq: "archive es tr rest = archive es tr [] @ rest" for rest by (simp add: archive_def)
  show ?thesis
    using assms unfolding eq [of "replicate _ 0"] by (auto simp: take_replicate)
qed

lemma rup_le:
  assumes "n \<le> x" "m dvd x" "0 < m"
  shows "rup n m \<le> x"
proof -
  have "rup n m \<le> rup x m"
    using assms(1) unfolding rup_def by (intro mult_right_mono div_le_mono) simp_all
  then show ?thesis using rup_id [OF assms(2,3)] by simp
qed

lemma archive_wf_keep: "archive_wf es tr \<Longrightarrow> archive_wf (keep t es) tr"
  by (auto simp: archive_wf_def list_all_iff)

text \<open>The archive made by \<open>CPIONew\<close>.\<close>

definition dot_entry :: cpio_entry where
  "dot_entry =
     \<lparr> ce_header = take 110 empty_archive, ce_name = ascii ''.'', ce_pad1 = [], ce_data = [], ce_pad2 = [] \<rparr>"

definition empty_trailer :: cpio_entry where
  "empty_trailer =
     \<lparr> ce_header = slice 112 110 empty_archive, ce_name = TRAILER, ce_pad1 = replicate 3 0, ce_data = [], ce_pad2 = [] \<rparr>"

lemma length_empty_archive: "length empty_archive = 512"
  by (simp add: empty_archive_def)

lemma empty_archive_eq: "empty_archive = archive [dot_entry] empty_trailer (replicate 276 0)"
  by (simp add: empty_archive_def archive_def encode_def dot_entry_def empty_trailer_def slice_def TRAILER_def numeral_eq_Suc)

lemma empty_archive_wf: "archive_wf [dot_entry] empty_trailer"
  by (simp add: archive_wf_def entry_wf_def dot_entry_def empty_trailer_def empty_archive_def TRAILER_def slice_def rup_def
      HexToInt_def chr_def s32_def)

section \<open>Claims\<close>

lemma added_wf:
  assumes "archive_wf es tr" "0 \<notin> set path" "path \<noteq> TRAILER" "length (added es tr mode path d) < 2 ^ 31"
  shows "archive_wf (es @ [new_entry (ce_header tr) mode path d]) (new_trailer tr)"
proof -
  let ?e = "new_entry (ce_header tr) mode path d"
  have "length (archive (es @ [?e]) (new_trailer tr) []) \<le> length (added es tr mode path d)"
    unfolding length_added by (rule rup_bounds) simp
  moreover have "length d + length path + 1 \<le> length (encode ?e)" by (simp add: encode_def new_entry_def)
  ultimately have "length d < 2 ^ 31" "length path + 1 < 2 ^ 31" using assms(4) by (simp_all add: archive_def)
  moreover have "entry_wf tr" using assms(1) by (simp add: archive_wf_def)
  ultimately have "entry_wf ?e" using assms(2) by (intro new_entry_wf) simp_all
  with assms(3) show ?thesis
    by (intro archive_wf_snoc new_trailer_wf [OF assms(1)]) (simp_all add: new_entry_def)
qed

text \<open>What reading a file of an archive returns, as a function of its entries.\<close>

definition file_of :: "cpio_entry list \<Rightarrow> cpio_entry \<Rightarrow> bytes \<Rightarrow> bytes option" where
  "file_of es tr t = map_option ce_data (entry_of t (es @ [tr]))"

lemma GetFile_file_of:
  assumes "archive_wf es tr" "length (archive es tr rest) < 2 ^ 31" "0 \<notin> set t" "heap_ok h"
  shows "\<exists>h'. CPIOGetFile h (archive es tr rest) (length (archive es tr rest)) (t @ [0]) =
    (case file_of es tr t of
       None \<Rightarrow> Some (-1, None, h')
     | Some d \<Rightarrow> Some (0, Some (if d = [] then None else Some d, length d), h'))"
proof -
  from heap_ok_0 [OF assms(4)] obtain b where "h 0 = Some b" by blast
  with CPIOGetFile_archive [OF assms(1-3), of h "[]"] show ?thesis
    by (auto simp: file_of_def split: option.split)
qed

lemma file_of_added:
  assumes "archive_wf es tr" "path \<noteq> TRAILER"
  shows "file_of (es @ [new_entry (ce_header tr) mode path d]) (new_trailer tr) t =
    (if t = path \<and> entry_of path es = None then Some d else file_of es tr t)"
  using assms by (auto simp: file_of_def entry_of_app new_entry_def new_trailer_def archive_wf_def split: option.split)

text \<open>
  C6: Adding a file with \<open>CPIOAddFile\<close> succeeds on every well-formed archive below 2 GiB when the
  allocation is granted, for every name but the reserved \<open>TRAILER!!!\<close> of the archive's end; the new
  archive is a whole number of blocks. When no entry of the archive had the name, \<open>CPIOGetFile\<close> reads
  the added file back byte for byte, and every other name reads as before. When an entry already had
  the name, the new one is appended behind it and \<open>CPIOGetFile\<close> goes on returning the old file: then
  every name, the added one too, reads as before.
\<close>

theorem CPIOAddFile_GetFile:
  assumes "archive_wf es tr" "length (archive es tr rest) < 2 ^ 31" "length (added es tr mode path d) < 2 ^ 31"
    and "0 \<notin> set path" "path \<noteq> TRAILER" "heap_ok h" "heap_ok h1"
  shows "\<exists>out h' h2. CPIOAddFile h (archive es tr rest) (length (archive es tr rest)) (path @ [0]) (Some d) (length d) mode =
      Some (0, Some (out, length out), h') \<and> 512 dvd length out \<and>
    (path \<notin> ce_name ` set es \<longrightarrow>
       CPIOGetFile h1 out (length out) (path @ [0]) = Some (0, Some (if d = [] then None else Some d, length d), h2)) \<and>
    (\<forall>t. 0 \<notin> set t \<longrightarrow> t \<noteq> path \<or> path \<in> ce_name ` set es \<longrightarrow>
       CPIOGetFile h1 out (length out) (t @ [0]) =
       CPIOGetFile h1 (archive es tr rest) (length (archive es tr rest)) (t @ [0]))"
proof -
  let ?e = "new_entry (ce_header tr) mode path d" and ?out = "added es tr mode path d"
  from heap_ok_0 [OF assms(6)] obtain b where b: "h 0 = Some b" by blast
  have add: "CPIOAddFile h (archive es tr rest) (length (archive es tr rest)) (path @ [0]) (Some d) (length d) mode =
      Some (0, Some (?out, length ?out), heap_next h)"
    using CPIOAddFile_archive [OF assms(1,2,4) _ assms(3), of "Some d" h "[]"] b by simp
  have wf: "archive_wf (es @ [?e]) (new_trailer tr)" by (rule added_wf [OF assms(1,4,5,3)])
  obtain k where k: "?out = archive (es @ [?e]) (new_trailer tr) (replicate k 0)" using added_archive by blast
  note fo = file_of_added [OF assms(1,5), of mode d]
  from GetFile_file_of [OF wf _ assms(4,7), of "replicate k 0"] assms(3)
  have own: "\<exists>h2. path \<notin> ce_name ` set es \<longrightarrow>
      CPIOGetFile h1 ?out (length ?out) (path @ [0]) = Some (0, Some (if d = [] then None else Some d, length d), h2)"
    unfolding k [symmetric] fo by (auto simp: entry_of_None)
  have other: "CPIOGetFile h1 ?out (length ?out) (t @ [0]) =
      CPIOGetFile h1 (archive es tr rest) (length (archive es tr rest)) (t @ [0])" if "0 \<notin> set t" "t \<noteq> path \<or> path \<in> ce_name ` set es" for t
  proof -
    have "map_option ce_data (entry_of t ((es @ [?e]) @ [new_trailer tr])) = map_option ce_data (entry_of t (es @ [tr]))"
      using fo [of t] that(2) by (auto simp: file_of_def entry_of_None)
    then show ?thesis
      unfolding k using CPIOGetFile_archive [OF wf _ that(1), of "replicate k 0" h1 "[]"]
        CPIOGetFile_archive [OF assms(1,2) that(1), of h1 "[]"] assms(3)
      by (auto simp: k [symmetric] split: option.splits)
  qed
  have "512 dvd length ?out" by (simp add: length_added)
  with add own other show ?thesis by blast
qed

text \<open>The archive of \<open>CPIONew\<close> with one file, for the witnesses.\<close>

lemma length_dot_archive: "length (concat (map encode [dot_entry])) = 112" "length (encode empty_trailer) = 124"
  by (simp_all add: encode_def dot_entry_def empty_trailer_def length_empty_archive TRAILER_def)

lemma length_added_dot: "length (added [dot_entry] empty_trailer mode [97] [1, 2, 3]) = 512"
proof -
  have "length (ce_header empty_trailer) = 110" using empty_archive_wf by (simp add: archive_wf_def entry_wf_def)
  then have "length (encode (new_entry (ce_header empty_trailer) mode [97] [1, 2, 3])) = 116"
    by (simp add: encode_def new_entry_def new_header_def zero_pad_def rup_def)
  then show ?thesis
    using length_dot_archive(1) length_encode_trailer [OF empty_archive_wf] by (simp add: length_added archive_def rup_def)
qed

theorem CPIOAddFile_GetFile_witness:
  "\<exists>out h' h2. CPIOAddFile (\<lambda>_. Some 0) empty_archive (length empty_archive) [97, 0] (Some [1, 2, 3]) (length [1 :: byte, 2, 3]) 0x81A4 =
      Some (0, Some (out, length out), h') \<and> 512 dvd length out \<and>
    CPIOGetFile (\<lambda>_. Some 0) out (length out) [97, 0] = Some (0, Some (Some [1, 2, 3], length [1 :: byte, 2, 3]), h2)"
proof -
  have "0 \<notin> set [97 :: byte]" "[97] \<noteq> TRAILER" and new: "[97] \<notin> ce_name ` set [dot_entry]"
    by (simp_all add: TRAILER_def dot_entry_def)
  note this(1,2)
  from CPIOAddFile_GetFile [OF empty_archive_wf _ _ this heap_ok_const heap_ok_const, of "replicate 276 0" "0x81A4" "[1, 2, 3]" 0 0] new
  show ?thesis unfolding empty_archive_eq [symmetric] by (auto simp: length_empty_archive length_added_dot)
qed

text \<open>
  C7: \<open>CPIORemoveFile\<close> removes exactly the named entries from a well-formed archive. The size it
  returns is that of the archive of the remaining entries and the trailer, rounded up to the
  512-byte block, and lies within the returned memory whenever the archive it was given was a whole
  number of blocks. In the first that many bytes the removed name is no longer found and every other
  name reads as before. A name that no entry has is refused; the name is not the reserved
  \<open>TRAILER!!!\<close>, and the allocations are granted.
\<close>

theorem CPIORemoveFile_GetFile:
  assumes "archive_wf es tr" "length (archive es tr rest) < 2 ^ 31 - 512" "0 \<notin> set path" "path \<noteq> TRAILER" "heap_ok h" "heap_ok h1"
  shows "if path \<in> ce_name ` set es
    then \<exists>out n h'. CPIORemoveFile h (archive es tr rest) (length (archive es tr rest)) (path @ [0]) = Some (0, Some (out, n), h') \<and>
      n = rup (length (archive (keep path es) tr [])) 512 \<and>
      (512 dvd length (archive es tr rest) \<longrightarrow> n \<le> length out) \<and>
      (\<exists>h2. CPIOGetFile h1 (take n out) (length (take n out)) (path @ [0]) = Some (-1, None, h2)) \<and>
      (\<forall>t. 0 \<notin> set t \<longrightarrow> t \<noteq> path \<longrightarrow> CPIOGetFile h1 (take n out) (length (take n out)) (t @ [0]) =
         CPIOGetFile h1 (archive es tr rest) (length (archive es tr rest)) (t @ [0]))
    else CPIORemoveFile h (archive es tr rest) (length (archive es tr rest)) (path @ [0]) = Some (-1, None, h)"
proof (cases "path \<in> ce_name ` set es")
  case False
  then show ?thesis using CPIORemoveFile_archive [OF assms(1-4), of h "[]"] by (simp add: entry_of_None)
next
  case True
  then obtain y where y: "entry_of path es = Some y" using entry_of_None [of path es] by (cases "entry_of path es") auto
  from heap_ok_0 [OF assms(5)] obtain b where b: "h 0 = Some b" by blast
  let ?n = "length (archive (keep path es) tr [])" and ?mem = "archive es tr rest"
  let ?out = "archive (keep path es) tr (replicate (length ?mem - ?n) 0)"
  have rm: "CPIORemoveFile h ?mem (length ?mem) (path @ [0]) = Some (0, Some (?out, rup ?n 512), heap_next h)"
    using CPIORemoveFile_archive [OF assms(1-4), of h "[]"] y b by (simp add: Let_def)
  have wf: "archive_wf (keep path es) tr" by (rule archive_wf_keep [OF assms(1)])
  have nm: "?n \<le> length ?mem" using length_keep [of path es] by (simp add: archive_def)
  have len: "length ?out = length ?mem" using nm by (simp add: archive_def)
  obtain k where k: "take (rup ?n 512) ?out = archive (keep path es) tr (replicate k 0)"
    using take_archive [OF rup_bounds(1) [of 512 ?n]] by auto
  let ?got = "take (rup ?n 512) ?out"
  have lo: "length ?got < 2 ^ 31" using assms(2) len by simp
  have fit: "512 dvd length ?mem \<longrightarrow> rup ?n 512 \<le> length ?out"
    unfolding len using rup_le [OF nm] by simp
  have sm: "length ?mem < 2 ^ 31" using assms(2) by simp
  have "ce_name tr = TRAILER" using assms(1) by (simp add: archive_wf_def)
  then have "entry_of path (keep path es @ [tr]) = None" using assms(4) entry_of_keep(1) by (simp add: entry_of_app)
  then have "CPIOGetFile h1 ?got (length ?got) (path @ [0]) = Some (-1, None, h1)"
    using CPIOGetFile_archive [OF wf lo [unfolded k] assms(3), of h1 "[]"] unfolding k by simp
  moreover have "CPIOGetFile h1 ?got (length ?got) (t @ [0]) = CPIOGetFile h1 ?mem (length ?mem) (t @ [0])"
    if "0 \<notin> set t" "t \<noteq> path" for t
    using CPIOGetFile_archive [OF wf lo [unfolded k] that(1), of h1 "[]"] CPIOGetFile_archive [OF assms(1) sm that(1), of h1 "[]"]
      entry_of_keep(2) [OF that(2)] unfolding k by (simp add: entry_of_app)
  ultimately have "(\<exists>h2. CPIOGetFile h1 ?got (length ?got) (path @ [0]) = Some (-1, None, h2)) \<and>
      (\<forall>t. 0 \<notin> set t \<longrightarrow> t \<noteq> path \<longrightarrow> CPIOGetFile h1 ?got (length ?got) (t @ [0]) =
         CPIOGetFile h1 ?mem (length ?mem) (t @ [0]))" by blast
  with rm fit show ?thesis
    unfolding if_P [OF True] by (intro exI [of _ ?out] exI [of _ "rup ?n 512"] exI [of _ "heap_next h"]) simp
qed

theorem CPIORemoveFile_GetFile_witness:
  "\<exists>out h'. CPIORemoveFile (\<lambda>_. Some 0) empty_archive (length empty_archive) (ascii ''.'' @ [0]) = Some (0, Some (out, 512), h') \<and>
      (\<exists>h2. CPIOGetFile (\<lambda>_. Some 0) (take 512 out) (length (take 512 out)) (ascii ''.'' @ [0]) = Some (-1, None, h2))"
proof -
  have "0 \<notin> set (ascii ''.'')" "ascii ''.'' \<noteq> TRAILER" "ascii ''.'' \<in> ce_name ` set [dot_entry]"
    by (simp_all add: TRAILER_def dot_entry_def)
  moreover have "rup (length (archive (keep (ascii ''.'') [dot_entry]) empty_trailer [])) 512 = 512"
    using length_dot_archive(2) by (simp add: dot_entry_def archive_def rup_def)
  ultimately have "ascii ''.'' \<in> ce_name ` set [dot_entry]" "0 \<notin> set (ascii ''.'')" "ascii ''.'' \<noteq> TRAILER"
    "rup (length (archive (keep (ascii ''.'') [dot_entry]) empty_trailer [])) 512 = 512" by blast+
  from CPIORemoveFile_GetFile [OF empty_archive_wf _ this(2,3) heap_ok_const heap_ok_const, of "replicate 276 0" 0 0] this(1,4)
  show ?thesis unfolding empty_archive_eq [symmetric] by (auto simp: length_empty_archive)
qed

text \<open>
  \<open>CPIOSplitFile\<close> takes a concatenation of up to eight archives, each padded to a block, apart
  into exactly those archives.
\<close>

lemma CPIOSplitFile_concat:
  assumes "\<forall>a \<in> set as. padded_archive a" "as \<noteq> []" "length as \<le> 8" "length (concat as) < 2 ^ 31"
  shows "\<exists>subs. CPIOSplitFile (concat as) (length (concat as)) = Some (0, subs) \<and> map (\<lambda>(mem, n). take n mem) subs = as"
proof -
  have sub: "map (\<lambda>(mem, n). take n mem) (subfiles as) = as" for as by (induction as) simp_all
  have "length (concat as) \<noteq> 0"
    using assms(1,2,4) subfile_size_padded(2) [of "hd as" "concat (tl as)"] by (cases as) auto
  with split_files_loop_concat [OF assms(1,4), of "[]"] assms(3) sub show ?thesis
    by (simp add: CPIOSplitFile_def CPIO_MAX_SUBFILES_def)
qed

end
