(* ===== verification/Conf.thy ===== *)
theory Conf
  imports CString
begin

text \<open>
  The configuration file parser of \<open>lsvmutils/conf.c\<close>. The text is the list of its
  \<open>textSize\<close> bytes; a position in it is the rest of the text, and a range between two
  pointers is the list of its bytes. The callback and its data belong to the caller and are
  parameters: the callback takes its data, the name, the value and the error message, and
  returns its status, the error message and its data. A null callback is \<open>None\<close>.
\<close>

type_synonym 'c conf_callback = "'c \<Rightarrow> bytes \<Rightarrow> bytes \<Rightarrow> string \<Rightarrow> int \<times> string \<times> 'c"

definition NEWLINE :: byte where
  "NEWLINE = 10"

text \<open>\<open>_GetLine\<close>: the line with its newline, and the text after it.\<close>

fun line_split :: "bytes \<Rightarrow> bytes \<times> bytes" where
  "line_split [] = ([], [])"
| "line_split (c # p) = (if c = NEWLINE then ([c], p) else (let (l, r) = line_split p in (c # l, r)))"

definition GetLine :: "bytes \<Rightarrow> (bytes \<times> bytes) option" where
  "GetLine p = (if p = [] then None else Some (line_split p))"

text \<open>\<open>_SkipIdentifier\<close>, as the identifier skipped and the position after it.\<close>

definition SkipIdentifier :: "bytes \<Rightarrow> bytes \<times> bytes" where
  "SkipIdentifier p =
     (case p of
        [] \<Rightarrow> ([], p)
      | c # q \<Rightarrow>
          if \<not> posix_isalpha c \<or> c = chr CHR ''_'' then ([], p)
          else (c # takeWhile posix_isalnum q, dropWhile posix_isalnum q))"

definition SkipWhitespace :: "bytes \<Rightarrow> bytes" where
  "SkipWhitespace p = dropWhile posix_isspace p"

definition StripTrailing :: "bytes \<Rightarrow> bytes" where
  "StripTrailing p = rev (dropWhile posix_isspace (rev p))"

text \<open>What the loop body makes of one line before it calls back.\<close>

datatype conf_line = Blank | Bad string | Pair bytes bytes

definition parse_line :: "bytes \<Rightarrow> conf_line" where
  "parse_line line =
     (let p = SkipWhitespace line
      in if p = [] \<or> hd p = chr CHR ''#'' then Blank
         else
           (let (name, p) = SkipIdentifier (StripTrailing p)
            in if name = [] then Bad ''expected name''
               else
                 (let p = SkipWhitespace p
                  in if p = [] \<or> hd p \<noteq> chr CHR ''='' then Bad (''syntax error: expected '' @ [CHR 0x27, CHR ''='', CHR 0x27])
                     else Pair name (SkipWhitespace (tl p)))))"

lemma line_split_append: "fst (line_split p) @ snd (line_split p) = p"
  by (induction p) (auto split: prod.split)

lemma GetLine_shrinks: "GetLine p = Some (line, rest) \<Longrightarrow> length rest < length p"
proof -
  assume g: "GetLine p = Some (line, rest)"
  then have "line @ rest = p" using line_split_append [of p] by (auto simp: GetLine_def split: if_splits)
  moreover have "line \<noteq> []" using g by (cases p) (auto simp: GetLine_def split: if_splits prod.splits)
  ultimately show ?thesis by (cases line) auto
qed

text \<open>
  The loop of \<open>ParseConf\<close>: status, the line number reached, the error message, the callback's
  data and the allocator.
\<close>

function conf_loop ::
  "heap \<Rightarrow> bytes \<Rightarrow> 'c conf_callback option \<Rightarrow> 'c \<Rightarrow> nat \<Rightarrow> string \<Rightarrow> (int \<times> nat \<times> string \<times> 'c \<times> heap) option" where
  "conf_loop h text callback callbackData lineNum err =
     (case GetLine text of
        None \<Rightarrow> Some (0, lineNum, err, callbackData, h)
      | Some (line, text') \<Rightarrow>
          (let lineNum = u32 (lineNum + 1)
           in case parse_line line of
                Blank \<Rightarrow> conf_loop h text' callback callbackData lineNum err
              | Bad msg \<Rightarrow> Some (-1, lineNum, msg, callbackData, h)
              | Pair name value \<Rightarrow>
                  (case callback of
                     None \<Rightarrow> conf_loop h text' callback callbackData lineNum err
                   | Some cb \<Rightarrow>
                       (case Strndup h name (length name) of
                          None \<Rightarrow> None
                        | Some (None, h1) \<Rightarrow> Some (-1, lineNum, ''out of memory'', callbackData, h1)
                        | Some (Some namePtr, h1) \<Rightarrow>
                            (case Strndup h1 value (length value) of
                               None \<Rightarrow> None
                             | Some (None, h2) \<Rightarrow> Some (-1, lineNum, ''out of memory'', callbackData, h2)
                             | Some (Some valuePtr, h2) \<Rightarrow>
                                 (let (rc, err', callbackData') = cb callbackData namePtr valuePtr err
                                  in if rc \<noteq> 0 then Some (-1, lineNum, err', callbackData', h2)
                                     else conf_loop h2 text' callback callbackData' lineNum err'))))))"
  by pat_completeness auto
termination
  by (relation "measure (\<lambda>(h, text, callback, callbackData, lineNum, err). length text)")
    (auto dest: GetLine_shrinks)

declare conf_loop.simps [simp del]

text \<open>The result: status, \<open>*errorLine\<close>, the error message, the callback's data.\<close>

definition ParseConf ::
  "heap \<Rightarrow> bytes option \<Rightarrow> nat \<Rightarrow> 'c conf_callback option \<Rightarrow> 'c \<Rightarrow> (int \<times> nat \<times> string \<times> 'c \<times> heap) option" where
  "ParseConf h text textSize callback callbackData =
     (case text of
        None \<Rightarrow> Some (-1, 0, ''invalid parameter'', callbackData, h)
      | Some mem \<Rightarrow>
          if textSize = 0 then Some (-1, 0, ''invalid parameter'', callbackData, h)
          else
            do {
              t \<leftarrow> load 0 textSize mem;
              (status, lineNum, err, callbackData', h') \<leftarrow> conf_loop h t callback callbackData 0 [];
              Some (status, if status \<noteq> 0 then lineNum else 0, err, callbackData', h')
            })"

subsection \<open>Well-formed text\<close>

definition conf_name :: "bytes \<Rightarrow> bool" where
  "conf_name n \<longleftrightarrow> n \<noteq> [] \<and> posix_isalpha (hd n) \<and> list_all posix_isalnum n"

definition conf_value :: "bytes \<Rightarrow> bool" where
  "conf_value v \<longleftrightarrow> 0 \<notin> set v \<and> NEWLINE \<notin> set v \<and>
     (v \<noteq> [] \<longrightarrow> \<not> posix_isspace (hd v) \<and> \<not> posix_isspace (last v))"

definition print_pair :: "bytes \<times> bytes \<Rightarrow> bytes" where
  "print_pair nv = fst nv @ [chr CHR ''=''] @ snd nv @ [NEWLINE]"

lemma alnum_not_special:
  assumes "posix_isalnum c"
  shows "\<not> posix_isspace c" and "c \<noteq> 0" and "c \<noteq> chr CHR ''#''" and "c \<noteq> chr CHR ''=''" and "c \<noteq> NEWLINE"
    and "c \<noteq> chr CHR ''_''"
  using assms
  by (auto simp: posix_isalnum_def posix_isalpha_def posix_isdigit_def posix_isspace_def chr_def NEWLINE_def
      split: if_splits)

lemma line_split_line: "NEWLINE \<notin> set l \<Longrightarrow> line_split (l @ NEWLINE # r) = (l @ [NEWLINE], r)"
  by (induction l) auto

lemma StripTrailing_space: "posix_isspace c \<Longrightarrow> StripTrailing (l @ [c]) = StripTrailing l"
  by (simp add: StripTrailing_def)

lemma StripTrailing_id: "l \<noteq> [] \<Longrightarrow> \<not> posix_isspace (last l) \<Longrightarrow> StripTrailing l = l"
  by (cases l rule: rev_cases) (auto simp: StripTrailing_def)

lemma parse_print:
  assumes n: "conf_name n" and v: "conf_value v"
  shows "parse_line (print_pair (n, v)) = Pair n v"
proof -
  from n obtain c q where cq: "n = c # q" "posix_isalpha c" "list_all posix_isalnum q"
    by (cases n) (auto simp: conf_name_def)
  have alc: "posix_isalnum c" using cq by (simp add: posix_isalnum_def)
  let ?body = "n @ chr CHR ''='' # v"
  have eqn: "\<not> posix_isspace (chr CHR ''='')" "\<not> posix_isalnum (chr CHR ''='')"
    by (simp_all add: posix_isspace_def posix_isalnum_def posix_isalpha_def posix_isdigit_def chr_def)
  have sp: "posix_isspace NEWLINE" by (simp add: posix_isspace_def NEWLINE_def)
  have "StripTrailing ?body = ?body"
    using v eqn by (intro StripTrailing_id) (auto simp: conf_value_def)
  then have "StripTrailing (?body @ [NEWLINE]) = ?body"
    using StripTrailing_space [OF sp, of ?body] by simp
  then have strip: "StripTrailing (c # q @ chr CHR ''='' # v @ [NEWLINE]) = ?body" using cq by simp
  have tw: "takeWhile posix_isalnum (q @ chr CHR ''='' # v) = q"
    "dropWhile posix_isalnum (q @ chr CHR ''='' # v) = chr CHR ''='' # v"
    using cq eqn by (auto simp: list_all_iff takeWhile_append2 dropWhile_append2)
  have "SkipIdentifier ?body = (n, chr CHR ''='' # v)"
    using cq alnum_not_special(6) [OF alc] tw by (simp add: SkipIdentifier_def)
  moreover have "dropWhile posix_isspace v = v" using v by (cases v) (auto simp: conf_value_def)
  ultimately show ?thesis
    using cq alc alnum_not_special [OF alc] eqn strip
    by (simp add: parse_line_def print_pair_def SkipWhitespace_def Let_def)
qed

text \<open>What the callback is given, pair by pair, until it refuses one; the line of the refusal.\<close>

fun run_callback ::
  "'c conf_callback \<Rightarrow> 'c \<Rightarrow> nat \<Rightarrow> string \<Rightarrow> (bytes \<times> bytes) list \<Rightarrow> int \<times> nat \<times> string \<times> 'c" where
  "run_callback cb c k err [] = (0, k, err, c)"
| "run_callback cb c k err ((n, v) # ps) =
     (let (rc, err', c') = cb c (n @ [0]) (v @ [0]) err
      in if rc \<noteq> 0 then (-1, Suc k, err', c') else run_callback cb c' (Suc k) err' ps)"

lemma strnlen_all: "0 \<notin> set t \<Longrightarrow> strnlen t (length t) = Some (length t)"
  by (induction t) auto

lemma Strndup_all:
  assumes "0 \<notin> set t" "length t < 2 ^ 31" "heap_ok h"
  shows "Strndup h t (length t) = Some (Some (t @ [0]), heap_next h)"
proof -
  from assms(3) obtain b where "h 0 = Some b" by (auto simp: heap_ok_def)
  with assms show ?thesis
    by (simp add: Strndup_def strnlen_all Malloc_def store_def overwrite_def)
qed

definition conf_pairs_ok :: "(bytes \<times> bytes) list \<Rightarrow> bool" where
  "conf_pairs_ok ps \<longleftrightarrow>
     list_all (\<lambda>(n, v). conf_name n \<and> conf_value v \<and> length n < 2 ^ 31 \<and> length v < 2 ^ 31) ps"

lemma conf_loop_pairs:
  assumes "conf_pairs_ok ps" "heap_ok h" "k + length ps < 2 ^ 32"
  shows "\<exists>h'. heap_ok h' \<and> conf_loop h (concat (map print_pair ps) @ rest) (Some cb) c k err =
    (let (rc, k', err', c') = run_callback cb c k err ps
     in if rc \<noteq> 0 then Some (rc, k', err', c', h') else conf_loop h' rest (Some cb) c' k' err')"
  using assms
proof (induction ps arbitrary: h c k err)
  case Nil
  then show ?case by auto
next
  case (Cons p ps)
  obtain n v where p: "p = (n, v)" by (cases p)
  with Cons.prems have nv: "conf_name n" "conf_value v" "length n < 2 ^ 31" "length v < 2 ^ 31"
    and ps: "conf_pairs_ok ps" by (simp_all add: conf_pairs_ok_def)
  let ?more = "concat (map print_pair ps) @ rest"
  have n0: "0 \<notin> set n" "NEWLINE \<notin> set n" using nv(1) alnum_not_special(2) [of 0] alnum_not_special(5) [of NEWLINE]
    by (auto simp: conf_name_def list_all_iff)
  have v0: "0 \<notin> set v" "NEWLINE \<notin> set v" using nv(2) by (auto simp: conf_value_def)
  have "NEWLINE \<notin> set (n @ [chr CHR ''=''] @ v)" using n0 v0 by (simp add: NEWLINE_def chr_def)
  from line_split_line [OF this, of ?more]
  have get: "GetLine (print_pair (n, v) @ ?more) = Some (print_pair (n, v), ?more)"
    by (simp add: GetLine_def print_pair_def)
  have k: "u32 (Suc k) = Suc k" using Cons.prems(3) by simp
  have h1: "heap_ok (heap_next h)" "heap_ok (heap_next (heap_next h))" using Cons.prems(2) by auto
  note dup = Strndup_all [OF n0(1) nv(3) Cons.prems(2)] Strndup_all [OF v0(1) nv(4) h1(1)]
  obtain rc err' c' where cb: "cb c (n @ [0]) (v @ [0]) err = (rc, err', c')" by (metis prod_cases3)
  have loop: "conf_loop h (concat (map print_pair (p # ps)) @ rest) (Some cb) c k err =
      (if rc \<noteq> 0 then Some (-1, Suc k, err', c', heap_next (heap_next h))
       else conf_loop (heap_next (heap_next h)) ?more (Some cb) c' (Suc k) err')"
    by (subst conf_loop.simps)
      (simp add: p get k parse_print [OF nv(1,2)] dup cb Let_def)
  show ?case
  proof (cases "rc = 0")
    case True
    with loop p cb Cons.IH [OF ps h1(2), of "Suc k" c' err'] Cons.prems(3) show ?thesis by simp
  next
    case False
    with loop p cb h1 show ?thesis by auto
  qed
qed

section \<open>Claims\<close>

text \<open>
  C35: A configuration made of \<open>name=value\<close> lines is parsed back: \<open>ParseConf\<close> calls the callback once
  per line, in order, with exactly the names and values, and stops at the first pair the callback
  refuses, with the number of that line in \<open>errorLine\<close>.
\<close>

theorem ParseConf_pairs:
  assumes "conf_pairs_ok ps" "heap_ok h" "length ps < 2 ^ 32" "ps \<noteq> []"
  shows "\<exists>h'. ParseConf h (Some (concat (map print_pair ps))) (length (concat (map print_pair ps))) (Some cb) c =
    (let (rc, k, err, c') = run_callback cb c 0 [] ps in Some (rc, if rc \<noteq> 0 then k else 0, err, c', h'))"
proof -
  have ne: "length (concat (map print_pair ps)) \<noteq> 0" using assms(4) by (cases ps) (simp_all add: print_pair_def)
  have fin: "conf_loop h' [] (Some cb) c' k err = Some (0, k, err, c', h')" for h' c' k err
    by (subst conf_loop.simps) (simp add: GetLine_def)
  obtain rc k err c' where r: "run_callback cb c 0 [] ps = (rc, k, err, c')" by (metis prod_cases4)
  from conf_loop_pairs [OF assms(1,2), of 0 "[]" cb c "[]"] assms(3) r fin obtain h' where
    "conf_loop h (concat (map print_pair ps)) (Some cb) c 0 [] = Some (rc, k, err, c', h')"
    by (cases "rc = 0") auto
  with ne r show ?thesis by (auto simp: ParseConf_def load_def)
qed

theorem ParseConf_pairs_witness:
  "\<exists>h'. ParseConf (\<lambda>_. Some 0) (Some (ascii ''A=1'' @ [10])) (length (ascii ''A=1'' @ [10])) (Some (\<lambda>c n v e. (0, e, (n, v) # c))) [] =
    Some (0, 0, [], [(ascii ''A'' @ [0], ascii ''1'' @ [0])], h')"
  using ParseConf_pairs [of "[(ascii ''A'', ascii ''1'')]" "\<lambda>_. Some 0" "\<lambda>c n v e. (0, e, (n, v) # c)" "[]"]
  by (simp add: conf_pairs_ok_def conf_name_def conf_value_def print_pair_def NEWLINE_def posix_isalpha_def
      posix_isalnum_def posix_isdigit_def posix_isspace_def chr_def)

end
