(* ===== verification/Gpt.thy ===== *)
theory Gpt
  imports Blkdev
begin

text \<open>
  The GUID partition table (\<open>lsvmutils/gpt.c\<close>, \<open>lsvmutils/gpt.h\<close>): the protective MBR, the
  header and 128 entries of 128 bytes, read as one object of 34 blocks.
\<close>

definition GPT_MAX_ENTRIES :: nat where
  "GPT_MAX_ENTRIES = 128"

definition GPT_SIZE :: nat where
  "GPT_SIZE = 512 + 512 + 128 * 128"

record GPTHeader =
  signature :: bytes
  revision :: nat
  headerSize :: nat
  headerCRC32 :: nat
  reserved :: nat
  primaryLBA :: nat
  backupLBA :: nat
  firstUsableLBA :: nat
  lastUsableLBA :: nat
  uniqueGUID1 :: nat
  uniqueGUID2 :: nat
  firstEntryLBA :: nat
  numberOfEntries :: nat
  sizeOfEntry :: nat
  entriesCRC32 :: nat

record GPTEntry =
  typeGUID1 :: nat
  typeGUID2 :: nat
  entryGUID1 :: nat
  entryGUID2 :: nat
  startingLBA :: nat
  endingLBA :: nat
  attributes :: nat
  typeName :: bytes

record GPT =
  mbr :: bytes
  gpt_header :: GPTHeader
  entries :: "GPTEntry list"

definition int_at :: "nat \<Rightarrow> nat \<Rightarrow> bytes \<Rightarrow> nat" where
  "int_at off n bs = le_nat (slice off n bs)"

definition gpt_header_of_bytes :: "bytes \<Rightarrow> GPTHeader" where
  "gpt_header_of_bytes bs =
     \<lparr>signature = slice 0 8 bs, revision = int_at 8 4 bs, headerSize = int_at 12 4 bs, headerCRC32 = int_at 16 4 bs,
      reserved = int_at 20 4 bs, primaryLBA = int_at 24 8 bs, backupLBA = int_at 32 8 bs,
      firstUsableLBA = int_at 40 8 bs, lastUsableLBA = int_at 48 8 bs, uniqueGUID1 = int_at 56 8 bs,
      uniqueGUID2 = int_at 64 8 bs, firstEntryLBA = int_at 72 8 bs, numberOfEntries = int_at 80 4 bs,
      sizeOfEntry = int_at 84 4 bs, entriesCRC32 = int_at 88 4 bs\<rparr>"

definition entry_of_bytes :: "bytes \<Rightarrow> GPTEntry" where
  "entry_of_bytes bs =
     \<lparr>typeGUID1 = int_at 0 8 bs, typeGUID2 = int_at 8 8 bs, entryGUID1 = int_at 16 8 bs, entryGUID2 = int_at 24 8 bs,
      startingLBA = int_at 32 8 bs, endingLBA = int_at 40 8 bs, attributes = int_at 48 8 bs, typeName = slice 56 72 bs\<rparr>"

definition gpt_of_bytes :: "bytes \<Rightarrow> GPT" where
  "gpt_of_bytes bs =
     \<lparr>mbr = slice 0 512 bs, gpt_header = gpt_header_of_bytes (slice 512 512 bs),
      entries = map (\<lambda>i. entry_of_bytes (slice (1024 + 128 * i) 128 bs)) [0..<128]\<rparr>"

definition ReadGPT :: "'s blkdev \<Rightarrow> 's \<Rightarrow> (int \<times> GPT option \<times> 's) option" where
  "ReadGPT D dev =
     do {
       (rc, d, dev1) \<leftarrow> BlkdevRead D dev 0 GPT_SIZE;
       if rc \<noteq> 0 then Some (-1, None, dev1)
       else
         (let gpt = gpt_of_bytes d
          in if signature (gpt_header gpt) \<noteq> ascii ''EFI PART'' then Some (-1, Some gpt, dev1)
             else Some (0, Some gpt, dev1))
     }"

text \<open>The device that \<open>BlkdevOpen\<close> yields for the path (\<open>None\<close> when it fails) is an argument.\<close>

definition LoadGPT :: "'s blkdev \<Rightarrow> 's option \<Rightarrow> (int \<times> GPT option) option" where
  "LoadGPT D opened =
     (case opened of
        None \<Rightarrow> Some (-1, None)
      | Some dev \<Rightarrow>
          do {
            (rc, gpt, dev1) \<leftarrow> ReadGPT D dev;
            (rc2, dev2) \<leftarrow> Close D dev1;
            Some (if rc \<noteq> 0 then -1 else 0, gpt)
          })"

fun count_loop :: "GPTEntry list \<Rightarrow> nat" where
  "count_loop [] = 0"
| "count_loop (e # es) = (if typeGUID1 e \<noteq> 0 then Suc (count_loop es) else 0)"

definition CountGPTEntries :: "GPT \<Rightarrow> nat" where
  "CountGPTEntries gpt = count_loop (take GPT_MAX_ENTRIES (entries gpt))"

fun lba_loop :: "GPTEntry list \<Rightarrow> nat \<Rightarrow> nat \<Rightarrow> nat" where
  "lba_loop [] lba i = 0"
| "lba_loop (e # es) lba i =
     (if typeGUID1 e = 0 then 0
      else if lba \<ge> startingLBA e \<and> lba \<le> endingLBA e then i + 1
      else lba_loop es lba (Suc i))"

definition LBAToParitionNumber :: "GPT \<Rightarrow> nat \<Rightarrow> nat" where
  "LBAToParitionNumber gpt lba = lba_loop (take GPT_MAX_ENTRIES (entries gpt)) lba 0"

subsection \<open>Lookup\<close>

definition in_entry :: "GPTEntry \<Rightarrow> nat \<Rightarrow> bool" where
  "in_entry e lba \<longleftrightarrow> startingLBA e \<le> lba \<and> lba \<le> endingLBA e"

lemma count_loop_le: "count_loop es \<le> length es"
  by (induction es) auto

lemma count_loop_used: "i < count_loop es \<Longrightarrow> typeGUID1 (es ! i) \<noteq> 0"
  by (induction es arbitrary: i) (auto simp: nth_Cons split: if_splits nat.splits)

lemma lba_loop_spec:
  "lba_loop es lba i =
     (if \<exists>j < count_loop es. in_entry (es ! j) lba
      then i + 1 + (LEAST j. j < count_loop es \<and> in_entry (es ! j) lba) else 0)"
proof (induction es arbitrary: i)
  case (Cons e es)
  show ?case
  proof (cases "typeGUID1 e \<noteq> 0 \<and> \<not> in_entry e lba")
    case True
    let ?P = "\<lambda>es j. j < count_loop es \<and> in_entry (es ! j) lba"
    have P: "?P (e # es) (Suc j) \<longleftrightarrow> ?P es j" "\<not> ?P (e # es) 0" for j using True by auto
    then have ex: "(\<exists>j. ?P (e # es) j) \<longleftrightarrow> (\<exists>j. ?P es j)" by (metis not0_implies_Suc)
    have "(LEAST j. ?P (e # es) j) = Suc (LEAST j. ?P es j)" if "?P es j" for j
      using Least_Suc [of "?P (e # es)" "Suc j"] that unfolding P(1) using P(2) by blast
    with True ex Cons.IH [of "Suc i"] show ?thesis by (auto simp: in_entry_def)
  next
    case False
    show ?thesis
    proof (cases "typeGUID1 e = 0")
      case nz: False
      with False have e: "in_entry e lba" by simp
      then have "(LEAST j. j < count_loop (e # es) \<and> in_entry ((e # es) ! j) lba) = 0"
        using nz by (intro Least_equality) auto
      moreover have "\<exists>j < count_loop (e # es). in_entry ((e # es) ! j) lba"
        using nz e by (intro exI [of _ 0]) simp
      ultimately show ?thesis using nz e by (simp add: in_entry_def)
    qed simp
  qed
qed simp

section \<open>Claims\<close>

text \<open>
  \<open>LBAToParitionNumber\<close> returns the number, counted from one, of the first used entry whose range
  contains the block, and 0 when no used entry does; the used entries are those before the first
  one with a zero type.
\<close>

lemma LBAToParitionNumber_first:
  "LBAToParitionNumber gpt lba =
     (if \<exists>j < CountGPTEntries gpt. in_entry (take GPT_MAX_ENTRIES (entries gpt) ! j) lba
      then 1 + (LEAST j. j < CountGPTEntries gpt \<and> in_entry (take GPT_MAX_ENTRIES (entries gpt) ! j) lba) else 0)"
  unfolding LBAToParitionNumber_def CountGPTEntries_def
  using lba_loop_spec [of "take GPT_MAX_ENTRIES (entries gpt)" lba 0] by simp

end
