(* ===== verification/Guid.thy ===== *)
theory Guid
  imports CString ByteOrder
begin

text \<open>
  GUIDs (\<open>lsvmutils/guid.c\<close>, with \<open>FormatHexByte\<close> of \<open>lsvmutils/dump.c\<close>). \<open>Data4\<close> is the
  array of its eight bytes; characters are bytes (the \<open>char\<close> build of \<open>TCHAR\<close>).
\<close>

record efi_guid =
  Data1 :: "32 word"
  Data2 :: "16 word"
  Data3 :: "16 word"
  Data4 :: bytes

definition GUID_STRING_SIZE :: nat where
  "GUID_STRING_SIZE = 37"

definition MakeGUID :: "64 word \<Rightarrow> 64 word \<Rightarrow> efi_guid" where
  "MakeGUID x y =
     \<lparr>Data1 = ucast (x AND 0x00000000FFFFFFFF),
      Data2 = ucast (drop_bit 32 (x AND 0x0000FFFF00000000)),
      Data3 = ucast (drop_bit 48 (x AND 0xFFFF000000000000)),
      Data4 =
        [ucast (y AND 0x00000000000000FF),
         ucast (drop_bit 8 (y AND 0x000000000000FF00)),
         ucast (drop_bit 16 (y AND 0x0000000000FF0000)),
         ucast (drop_bit 24 (y AND 0x00000000FF000000)),
         ucast (drop_bit 32 (y AND 0x000000FF00000000)),
         ucast (drop_bit 40 (y AND 0x0000FF0000000000)),
         ucast (drop_bit 48 (y AND 0x00FF000000000000)),
         ucast (drop_bit 56 (y AND 0xFF00000000000000))]\<rparr>"

definition SplitGUID :: "efi_guid \<Rightarrow> 64 word \<times> 64 word" where
  "SplitGUID guid =
     (ucast (Data1 guid) OR push_bit 32 (ucast (Data2 guid)) OR push_bit 48 (ucast (Data3 guid)),
      ucast (Data4 guid ! 0) OR
      push_bit 8 (ucast (Data4 guid ! 1)) OR
      push_bit 16 (ucast (Data4 guid ! 2)) OR
      push_bit 24 (ucast (Data4 guid ! 3)) OR
      push_bit 32 (ucast (Data4 guid ! 4)) OR
      push_bit 40 (ucast (Data4 guid ! 5)) OR
      push_bit 48 (ucast (Data4 guid ! 6)) OR
      push_bit 56 (ucast (Data4 guid ! 7)))"

definition MakeGUIDFromBytes :: "bytes \<Rightarrow> efi_guid" where
  "MakeGUIDFromBytes x =
     \<lparr>Data1 =
        push_bit 24 (ucast (x ! 0)) OR push_bit 16 (ucast (x ! 1)) OR
        push_bit 8 (ucast (x ! 2)) OR ucast (x ! 3),
      Data2 = ucast (push_bit 8 (ucast (x ! 4)) OR (ucast (x ! 5) :: 32 word)),
      Data3 = ucast (push_bit 8 (ucast (x ! 6)) OR (ucast (x ! 7) :: 32 word)),
      Data4 = [x ! 8, x ! 9, x ! 10, x ! 11, x ! 12, x ! 13, x ! 14, x ! 15]\<rparr>"

text \<open>The loop of \<open>ValidGUIDStr\<close> over the remaining characters, from index \<open>i\<close>.\<close>

fun guid_chars_ok :: "bytes \<Rightarrow> nat \<Rightarrow> bool" where
  "guid_chars_ok [] i = True"
| "guid_chars_ok (c # s) i =
     (if i = 8 \<or> i = 13 \<or> i = 18 \<or> i = 23 then c = chr CHR ''-'' \<and> guid_chars_ok s (Suc i)
      else c = posix_tolower c \<and> posix_isxdigit c \<and> guid_chars_ok s (Suc i))"

definition ValidGUIDStr :: "bytes \<Rightarrow> bool option" where
  "ValidGUIDStr str =
     map_option (\<lambda>n. if n \<noteq> GUID_STRING_SIZE - 1 then False else guid_chars_ok (take n str) 0) (posix_strlen str)"

subsection \<open>Formatting\<close>

definition hexchar :: bytes where
  "hexchar = ascii ''0123456789ABCDEF''"

text \<open>\<open>FormatHexByte(&buf[n], x)\<close>: the buffer and the new \<open>n\<close>.\<close>

definition FormatHexByte :: "byte \<Rightarrow> bytes \<times> nat \<Rightarrow> (bytes \<times> nat) option" where
  "FormatHexByte x bn =
     do {
       buf \<leftarrow> store (snd bn) [hexchar ! unat (drop_bit 4 (0xF0 AND x)), hexchar ! unat (0x0F AND x), 0] (fst bn);
       Some (buf, snd bn + 2)
     }"

definition put_char :: "byte \<Rightarrow> bytes \<times> nat \<Rightarrow> (bytes \<times> nat) option" where
  "put_char c bn = do { buf \<leftarrow> store (snd bn) [c] (fst bn); Some (buf, snd bn + 1) }"

definition FormatGUID :: "bytes \<Rightarrow> efi_guid \<Rightarrow> bytes option" where
  "FormatGUID buf guid =
     do {
       b \<leftarrow> FormatHexByte (ucast (drop_bit 24 (Data1 guid AND 0xFF000000))) (buf, 0);
       b \<leftarrow> FormatHexByte (ucast (drop_bit 16 (Data1 guid AND 0x00FF0000))) b;
       b \<leftarrow> FormatHexByte (ucast (drop_bit 8 (Data1 guid AND 0x0000FF00))) b;
       b \<leftarrow> FormatHexByte (ucast (Data1 guid AND 0x000000FF)) b;
       b \<leftarrow> put_char (chr CHR ''-'') b;
       b \<leftarrow> FormatHexByte (ucast (drop_bit 8 (Data2 guid AND 0xFF00))) b;
       b \<leftarrow> FormatHexByte (ucast (Data2 guid AND 0x00FF)) b;
       b \<leftarrow> put_char (chr CHR ''-'') b;
       b \<leftarrow> FormatHexByte (ucast (drop_bit 8 (Data3 guid AND 0xFF00))) b;
       b \<leftarrow> FormatHexByte (ucast (Data3 guid AND 0x00FF)) b;
       b \<leftarrow> put_char (chr CHR ''-'') b;
       b \<leftarrow> FormatHexByte (Data4 guid ! 0) b;
       b \<leftarrow> FormatHexByte (Data4 guid ! 1) b;
       b \<leftarrow> put_char (chr CHR ''-'') b;
       b \<leftarrow> FormatHexByte (Data4 guid ! 2) b;
       b \<leftarrow> FormatHexByte (Data4 guid ! 3) b;
       b \<leftarrow> FormatHexByte (Data4 guid ! 4) b;
       b \<leftarrow> FormatHexByte (Data4 guid ! 5) b;
       b \<leftarrow> FormatHexByte (Data4 guid ! 6) b;
       b \<leftarrow> FormatHexByte (Data4 guid ! 7) b;
       (buf', n) \<leftarrow> put_char 0 b;
       Some (map posix_tolower (take n buf') @ drop n buf')
     }"

subsection \<open>Splitting and making are inverse\<close>

definition guid_wf :: "efi_guid \<Rightarrow> bool" where
  "guid_wf g \<longleftrightarrow> length (Data4 g) = 8"

lemma guid_wf_cases:
  assumes "guid_wf g"
  obtains b0 b1 b2 b3 b4 b5 b6 b7 where "Data4 g = [b0, b1, b2, b3, b4, b5, b6, b7]"
  using assms by (auto simp: guid_wf_def length_Suc_conv numeral_eq_Suc)

lemma split_make: "SplitGUID (MakeGUID x y) = (x, y)"
  by (simp add: SplitGUID_def MakeGUID_def bit_blast)

lemma make_split:
  assumes "guid_wf g"
  shows "(\<lambda>(x, y). MakeGUID x y) (SplitGUID g) = g"
  using assms
  by (cases rule: guid_wf_cases) (cases g, simp add: SplitGUID_def MakeGUID_def bit_blast)

subsection \<open>The formatted text\<close>

definition hex2 :: "byte \<Rightarrow> bytes" where
  "hex2 x = [hexchar ! unat (drop_bit 4 (0xF0 AND x)), hexchar ! unat (0x0F AND x)]"

text \<open>The bytes of a GUID in the order in which they are printed.\<close>

definition guid_bytes :: "efi_guid \<Rightarrow> bytes" where
  "guid_bytes g = rev (nat_le 4 (unat (Data1 g))) @ rev (nat_le 2 (unat (Data2 g))) @ rev (nat_le 2 (unat (Data3 g))) @ Data4 g"

definition hexes :: "bytes \<Rightarrow> bytes" where
  "hexes bs = concat (map hex2 bs)"

definition dash :: byte where
  "dash = chr CHR ''-''"

definition written :: "nat \<Rightarrow> bytes \<times> nat \<Rightarrow> bytes \<Rightarrow> bool" where
  "written L b out \<longleftrightarrow> length (fst b) = L \<and> snd b = length out \<and> take (length out) (fst b) = out"

definition yields :: "'a option \<Rightarrow> ('a \<Rightarrow> bool) \<Rightarrow> bool" where
  "yields m Q \<longleftrightarrow> (\<exists>r. m = Some r \<and> Q r)"

lemma store_written:
  assumes "written L b out" "length out + length ys \<le> L" "zs = take (length zs) ys" "length zs \<le> length ys"
  shows "\<exists>m. store (snd b) ys (fst b) = Some m \<and> written L (m, snd b + length zs) (out @ zs)"
proof -
  have "take (length (out @ zs)) (overwrite (snd b) ys (fst b)) = out @ zs"
    using assms by (simp add: written_def overwrite_def)
  with assms show ?thesis by (auto simp: written_def store_def)
qed

lemma yields_hex:
  assumes "written L b out" "length out + 3 \<le> L" "\<And>b'. written L b' (out @ hex2 x) \<Longrightarrow> yields (k b') Q"
  shows "yields (FormatHexByte x b \<bind> k) Q"
  using store_written [OF assms(1), of "hex2 x @ [0]" "hex2 x"] assms(2,3)
  by (auto simp: FormatHexByte_def hex2_def)

lemma yields_char:
  assumes "written L b out" "length out + 1 \<le> L" "\<And>b'. written L b' (out @ [c]) \<Longrightarrow> yields (k b') Q"
  shows "yields (put_char c b \<bind> k) Q"
  using store_written [OF assms(1), of "[c]" "[c]"] assms(2,3)
  by (auto simp: put_char_def)

lemma guid_bytes_expand:
  assumes "guid_wf g"
  shows "guid_bytes g =
    [ucast (drop_bit 24 (Data1 g AND 0xFF000000)), ucast (drop_bit 16 (Data1 g AND 0x00FF0000)),
     ucast (drop_bit 8 (Data1 g AND 0x0000FF00)), ucast (Data1 g AND 0x000000FF),
     ucast (drop_bit 8 (Data2 g AND 0xFF00)), ucast (Data2 g AND 0x00FF),
     ucast (drop_bit 8 (Data3 g AND 0xFF00)), ucast (Data3 g AND 0x00FF),
     Data4 g ! 0, Data4 g ! 1, Data4 g ! 2, Data4 g ! 3, Data4 g ! 4, Data4 g ! 5, Data4 g ! 6, Data4 g ! 7]"
  using assms
  by (cases rule: guid_wf_cases) (simp add: guid_bytes_def nat_le_4 nat_le_2 bit_blast)

lemma yields_lower:
  assumes "written L b out" "out = s"
  shows "yields (case b of (buf', n) \<Rightarrow> Some (map posix_tolower (take n buf') @ drop n buf'))
    (\<lambda>r. length r = L \<and> take (length s) r = map posix_tolower s)"
  using assms by (auto simp: yields_def written_def split: prod.split)

definition guid_raw :: "efi_guid \<Rightarrow> bytes" where
  "guid_raw g =
     (let bs = guid_bytes g
      in hexes (slice 0 4 bs) @ [dash] @ hexes (slice 4 2 bs) @ [dash] @ hexes (slice 6 2 bs) @ [dash] @
         hexes (slice 8 2 bs) @ [dash] @ hexes (slice 10 6 bs))"

lemma hex2_length [simp]: "length (hex2 x) = 2"
  by (simp add: hex2_def)

lemma length_hexes [simp]: "length (hexes bs) = 2 * length bs"
  by (induction bs) (simp_all add: hexes_def)

lemma hexes_simps [simp]: "hexes [] = []" "hexes (b # bs) = hex2 b @ hexes bs"
  by (simp_all add: hexes_def)

lemma length_guid_bytes: "guid_wf g \<Longrightarrow> length (guid_bytes g) = 16"
  by (simp add: guid_bytes_def guid_wf_def)

lemma length_guid_raw: "guid_wf g \<Longrightarrow> length (guid_raw g) = 36"
  by (simp add: guid_raw_def length_guid_bytes Let_def)

lemma FormatGUID_raw:
  assumes "guid_wf g" "37 \<le> length buf"
  shows "yields (FormatGUID buf g)
    (\<lambda>b. length b = length buf \<and> take (length (guid_raw g @ [0])) b = map posix_tolower (guid_raw g @ [0]))"
proof -
  have w: "written (length buf) (buf, 0) []" by (simp add: written_def)
  show ?thesis
    unfolding FormatGUID_def
    apply (rule yields_hex [OF w], use assms(2) in simp)
    apply (rule yields_hex yields_char, assumption, use assms(2) in simp)+
    apply (rule yields_lower, assumption)
    apply (simp only: guid_raw_def guid_bytes_expand [OF assms(1)] slice_def dash_def Let_def)
    apply simp
    done
qed

definition guid_string :: "efi_guid \<Rightarrow> bytes" where
  "guid_string g = map posix_tolower (guid_raw g)"

lemma FormatGUID_spec:
  assumes "guid_wf g" "37 \<le> length buf"
  shows "\<exists>b. FormatGUID buf g = Some b \<and> length b = length buf \<and> take 37 b = guid_string g @ [0]"
proof -
  have "posix_tolower 0 = 0" by (simp add: posix_tolower_def chr_def)
  with FormatGUID_raw [OF assms] length_guid_raw [OF assms(1)] show ?thesis
    by (auto simp: yields_def guid_string_def)
qed

subsection \<open>The text is valid and determines the GUID\<close>

definition lowhex :: "byte \<Rightarrow> bytes" where
  "lowhex x = map posix_tolower (hex2 x)"

definition lowchar_ok :: "byte \<Rightarrow> bool" where
  "lowchar_ok c \<longleftrightarrow> c = posix_tolower c \<and> posix_isxdigit c \<and> c \<noteq> 0"

lemma hexchar_lower:
  "list_all (\<lambda>i. lowchar_ok (posix_tolower (hexchar ! i))) [0..<16]"
  "distinct (map posix_tolower hexchar)"
  by (simp_all add: hexchar_def upt_02 upt_rec_numeral lowchar_ok_def posix_tolower_def posix_isxdigit_def
      posix_isdigit_def chr_def)

lemma nibble_bounds: "unat (drop_bit 4 (0xF0 AND x :: byte)) < 16" "unat (0x0F AND x :: byte) < 16"
proof -
  have "drop_bit 4 (0xF0 AND x) = drop_bit 4 x AND (mask 4 :: byte)" "0x0F AND x = x AND (mask 4 :: byte)"
    by (simp_all add: bit_blast)
  then show "unat (drop_bit 4 (0xF0 AND x :: byte)) < 16" "unat (0x0F AND x :: byte) < 16"
    using and_mask_less_size [of 4 "drop_bit 4 x"] and_mask_less_size [of 4 x]
    by (simp_all add: word_less_nat_alt word_size)
qed

lemma lowhex_ok: "list_all lowchar_ok (lowhex x)"
  using hexchar_lower(1) nibble_bounds [of x] by (simp add: lowhex_def hex2_def list_all_iff)

lemma lowhex_inj:
  assumes "lowhex x = lowhex y"
  shows "x = y"
proof -
  have inj: "posix_tolower (hexchar ! i) = posix_tolower (hexchar ! j) \<Longrightarrow> i = j" if "i < 16" "j < 16" for i j
  proof -
    have "length hexchar = 16" by (simp add: hexchar_def)
    with that nth_eq_iff_index_eq [OF hexchar_lower(2), of i j] show "posix_tolower (hexchar ! i) = posix_tolower (hexchar ! j) \<Longrightarrow> i = j"
      by simp
  qed
  from assms have "unat (drop_bit 4 (0xF0 AND x)) = unat (drop_bit 4 (0xF0 AND y))"
    "unat (0x0F AND x) = unat (0x0F AND y)"
    using inj nibble_bounds by (auto simp: lowhex_def hex2_def)
  then have eq: "drop_bit 4 (0xF0 AND x) = drop_bit 4 (0xF0 AND y)" "0x0F AND x = 0x0F AND y"
    by (simp_all only: word_unat_eq_iff)
  have join: "push_bit 4 (drop_bit 4 (0xF0 AND z)) OR (0x0F AND z) = z" for z :: byte
    by (simp add: bit_blast)
  show ?thesis using join [of x] join [of y] unfolding eq by (rule trans [OF sym])
qed

definition lowhexes :: "bytes \<Rightarrow> bytes" where
  "lowhexes bs = concat (map lowhex bs)"

lemma lowhexes_hexes: "map posix_tolower (hexes bs) = lowhexes bs"
  by (induction bs) (simp_all add: lowhexes_def lowhex_def)

lemma length_lowhexes [simp]: "length (lowhexes bs) = 2 * length bs"
  by (induction bs) (simp_all add: lowhexes_def lowhex_def)

lemma lowhexes_ok: "list_all lowchar_ok (lowhexes bs)"
  using lowhex_ok by (induction bs) (simp_all add: lowhexes_def)

lemma lowhexes_inj: "lowhexes bs = lowhexes cs \<Longrightarrow> bs = cs"
proof (induction bs arbitrary: cs)
  case Nil
  then have "length (lowhexes cs) = 0" by (simp add: lowhexes_def)
  then show ?case by simp
next
  case (Cons b bs)
  then have "length (lowhexes (b # bs)) = length (lowhexes cs)" by simp
  then obtain c cs' where cs: "cs = c # cs'" by (cases cs) auto
  have "length (lowhex x) = 2" for x by (simp add: lowhex_def)
  with Cons.prems cs have "lowhex b = lowhex c" "lowhexes bs = lowhexes cs'"
    by (auto simp: lowhexes_def append_eq_append_conv)
  with cs Cons.IH lowhex_inj show ?case by auto
qed

lemma guid_string_split:
  assumes "guid_wf g"
  shows "guid_string g = lowhexes (slice 0 4 (guid_bytes g)) @ [dash] @ lowhexes (slice 4 2 (guid_bytes g)) @ [dash] @
    lowhexes (slice 6 2 (guid_bytes g)) @ [dash] @ lowhexes (slice 8 2 (guid_bytes g)) @ [dash] @
    lowhexes (slice 10 6 (guid_bytes g))"
proof -
  have "posix_tolower dash = dash" by (simp add: dash_def chr_def posix_tolower_def)
  then show ?thesis by (simp add: guid_string_def guid_raw_def Let_def lowhexes_hexes)
qed

lemma guid_string_inj:
  assumes wf: "guid_wf g" "guid_wf g'" and eq: "guid_string g = guid_string g'"
  shows "g = g'"
proof -
  note len = length_guid_bytes [OF wf(1)] length_guid_bytes [OF wf(2)]
  let ?b = "guid_bytes g" and ?c = "guid_bytes g'"
  have peel: "slice o' n ?b = slice o' n ?c \<and> xs = ys"
    if "lowhexes (slice o' n ?b) @ [dash] @ xs = lowhexes (slice o' n ?c) @ [dash] @ ys" for o' n xs ys
    using that len lowhexes_inj [of "slice o' n ?b" "slice o' n ?c"]
      append_eq_append_conv [of "lowhexes (slice o' n ?b)" "lowhexes (slice o' n ?c)" "[dash] @ xs" "[dash] @ ys"] by simp
  note p1 = peel [OF eq [unfolded guid_string_split [OF wf(1)] guid_string_split [OF wf(2)]]]
  note p2 = peel [OF conjunct2 [OF p1]]
  note p3 = peel [OF conjunct2 [OF p2]]
  note p4 = peel [OF conjunct2 [OF p3]]
  note parts = conjunct1 [OF p1] conjunct1 [OF p2] conjunct1 [OF p3] conjunct1 [OF p4]
    lowhexes_inj [OF conjunct2 [OF p4]]
  have join: "bs = slice 0 4 bs @ slice 4 2 bs @ slice 6 2 bs @ slice 8 2 bs @ slice 10 6 bs" if "length bs = 16" for bs :: bytes
    using that slice_split [of 0 4 12 bs] slice_split [of 4 2 10 bs] slice_split [of 6 2 8 bs] slice_split [of 8 2 6 bs]
    by simp
  have "guid_bytes g = guid_bytes g'" using join [OF len(1)] join [OF len(2)] parts by argo
  then have "nat_le 4 (unat (Data1 g)) = nat_le 4 (unat (Data1 g'))" "nat_le 2 (unat (Data2 g)) = nat_le 2 (unat (Data2 g'))"
    "nat_le 2 (unat (Data3 g)) = nat_le 2 (unat (Data3 g'))" "Data4 g = Data4 g'"
    by (simp_all add: guid_bytes_def)
  then show ?thesis
    by (intro efi_guid.equality nat_le_word_inj [of 4 "Data1 g"] nat_le_word_inj [of 2 "Data2 g"]
        nat_le_word_inj [of 2 "Data3 g"]) simp_all
qed

lemma guid_chars_ok_append:
  "guid_chars_ok (s @ t) i \<longleftrightarrow> guid_chars_ok s i \<and> guid_chars_ok t (i + length s)"
  by (induction s arbitrary: i) auto

lemma guid_chars_ok_hex:
  assumes "list_all lowchar_ok s" "\<forall>j \<in> {i..<i + length s}. j \<notin> {8, 13, 18, 23}"
  shows "guid_chars_ok s i"
  using assms by (induction s arbitrary: i) (auto simp: lowchar_ok_def)

lemma guid_string_valid:
  assumes wf: "guid_wf g"
  shows "ValidGUIDStr (guid_string g @ 0 # r) = Some True"
proof -
  note len = length_guid_bytes [OF wf]
  have "0 \<notin> set (lowhexes bs)" for bs
    using lowhexes_ok [of bs] by (auto simp: list_all_iff lowchar_ok_def)
  then have "0 \<notin> set (guid_string g)"
    by (simp add: guid_string_split [OF wf] dash_def chr_def)
  moreover have "guid_chars_ok (guid_string g) 0"
    unfolding guid_string_split [OF wf] guid_chars_ok_append
    by (auto simp: len dash_def intro!: guid_chars_ok_hex lowhexes_ok)
  moreover have "length (guid_string g) = 36" by (simp add: guid_string_def length_guid_raw [OF wf])
  ultimately show ?thesis by (simp add: ValidGUIDStr_def GUID_STRING_SIZE_def)
qed

section \<open>Claims\<close>

text \<open>
  The text that \<open>FormatGUID\<close> writes has 36 characters and a terminator, is accepted by
  \<open>ValidGUIDStr\<close>, and determines the GUID: two GUIDs with the same text are equal.
\<close>

lemma FormatGUID_valid_injective:
  assumes "guid_wf g" "guid_wf g'" "37 \<le> length buf" "37 \<le> length buf'"
  shows "\<exists>b b'. FormatGUID buf g = Some b \<and> FormatGUID buf' g' = Some b' \<and> length b = length buf \<and>
    ValidGUIDStr b = Some True \<and> (take 37 b = take 37 b' \<longrightarrow> g = g')"
proof -
  from FormatGUID_spec [OF assms(1,3)] obtain b where b: "FormatGUID buf g = Some b" "length b = length buf" "take 37 b = guid_string g @ [0]" by blast
  from FormatGUID_spec [OF assms(2,4)] obtain b' where b': "FormatGUID buf' g' = Some b'" "take 37 b' = guid_string g' @ [0]" by blast
  have "b = guid_string g @ 0 # drop 37 b" using b(3) by (metis append.assoc append_Cons append_Nil append_take_drop_id)
  then have "ValidGUIDStr b = Some True" using guid_string_valid [OF assms(1), of "drop 37 b"] by simp
  with b b' guid_string_inj [OF assms(1,2)] show ?thesis by auto
qed

text \<open>
  \<open>MakeGUID\<close> and \<open>SplitGUID\<close> are inverse to each other: no bit of the two 64-bit halves is lost.
\<close>

lemma MakeGUID_SplitGUID_inverse:
  "SplitGUID (MakeGUID x y) = (x, y) \<and> (\<forall>g. guid_wf g \<longrightarrow> (case SplitGUID g of (x, y) \<Rightarrow> MakeGUID x y) = g)"
  using split_make make_split by blast

end
