(* ===== verification/Keys.thy ===== *)
theory Keys
  imports Prelude "HOL-Library.Monad_Syntax"
begin

text \<open>
  The container of the two sealed disk keys (\<open>lsvmutils/keys.c\<close>): a count, then two keys, each
  with a type and a size. \<open>None\<close> is an access outside the input or the allocated output.
\<close>

definition KEYS_BOOTKEY_TYPE :: nat where
  "KEYS_BOOTKEY_TYPE = 1"

definition KEYS_ROOTKEY_TYPE :: nat where
  "KEYS_ROOTKEY_TYPE = 2"

definition KEYS_SEALED_HEADER_SIZE :: nat where
  "KEYS_SEALED_HEADER_SIZE = 2"

definition KEYS_SEALED_KEY_HEADER_SIZE :: nat where
  "KEYS_SEALED_KEY_HEADER_SIZE = 4"

text \<open>The keys found so far, each with its size.\<close>

record found_keys =
  bootkey :: "(bytes \<times> nat) option"
  rootkey :: "(bytes \<times> nat) option"

text \<open>\<open>_DeserializeKey\<close>: the input after the key (the inner \<open>None\<close> is the null pointer).\<close>

definition DeserializeKey :: "heap \<Rightarrow> bytes \<Rightarrow> found_keys \<Rightarrow> (bytes option \<times> found_keys \<times> heap) option" where
  "DeserializeKey h inp keys =
     do {
       ty \<leftarrow> load 0 2 inp;
       let KeyType = le_nat ty;
       if KeyType \<noteq> KEYS_BOOTKEY_TYPE \<and> KeyType \<noteq> KEYS_ROOTKEY_TYPE then Some (None, keys, h)
       else
         do {
           sz \<leftarrow> load 2 2 inp;
           let KeySize = le_nat sz;
           (case Malloc h KeySize of
              (None, h1) \<Rightarrow>
                Some (None, if KeyType = KEYS_BOOTKEY_TYPE then keys\<lparr>bootkey := None\<rparr> else keys\<lparr>rootkey := None\<rparr>, h1)
            | (Some key0, h1) \<Rightarrow>
                do {
                  src \<leftarrow> load KEYS_SEALED_KEY_HEADER_SIZE KeySize inp;
                  key \<leftarrow> store 0 src key0;
                  Some (Some (drop (KEYS_SEALED_KEY_HEADER_SIZE + KeySize) inp),
                        if KeyType = KEYS_BOOTKEY_TYPE then keys\<lparr>bootkey := Some (key, KeySize)\<rparr>
                        else keys\<lparr>rootkey := Some (key, KeySize)\<rparr>, h1)
                })
         }
     }"

text \<open>The result on success: the boot key and its size, the root key and its size.\<close>

definition SplitKeys :: "heap \<Rightarrow> bytes option \<Rightarrow> nat \<Rightarrow> (int \<times> ((bytes \<times> nat) \<times> (bytes \<times> nat)) option \<times> heap) option" where
  "SplitKeys h inData inSize =
     (case inData of
        None \<Rightarrow> Some (-1, None, h)
      | Some inp \<Rightarrow>
          if inSize < KEYS_SEALED_HEADER_SIZE then Some (-1, None, h)
          else
            do {
              cnt \<leftarrow> load 0 2 inp;
              if le_nat cnt \<noteq> 2 \<or> inSize < KEYS_SEALED_HEADER_SIZE + 2 * KEYS_SEALED_KEY_HEADER_SIZE
              then Some (-1, None, h)
              else
                do {
                  (in1, keys1, h1) \<leftarrow> DeserializeKey h (drop KEYS_SEALED_HEADER_SIZE inp) \<lparr>bootkey = None, rootkey = None\<rparr>;
                  (case in1 of
                     None \<Rightarrow> Some (-1, None, h1)
                   | Some p1 \<Rightarrow>
                       do {
                         (in2, keys2, h2) \<leftarrow> DeserializeKey h1 p1 keys1;
                         (case in2 of
                            None \<Rightarrow> Some (-1, None, h2)
                          | Some p2 \<Rightarrow>
                              (case (bootkey keys2, rootkey keys2) of
                                 (Some b, Some r) \<Rightarrow> Some (0, Some (b, r), h2)
                               | _ \<Rightarrow> Some (-1, None, h2)))
                       })
                }
            })"

text \<open>\<open>_SerializeKey\<close> at an offset of the output, with the new offset.\<close>

definition SerializeKey :: "bytes \<Rightarrow> nat \<Rightarrow> nat \<Rightarrow> bytes \<Rightarrow> nat \<Rightarrow> (bytes \<times> nat) option" where
  "SerializeKey out pos keyType key keysz =
     do {
       out \<leftarrow> store pos (nat_le 2 keyType) out;
       out \<leftarrow> store (pos + 2) (nat_le 2 keysz) out;
       src \<leftarrow> load 0 keysz key;
       out \<leftarrow> store (pos + KEYS_SEALED_KEY_HEADER_SIZE) src out;
       Some (out, pos + KEYS_SEALED_KEY_HEADER_SIZE + keysz)
     }"

text \<open>The sizes are \<open>UINT16\<close>. The result: the return code, the output and its size.\<close>

definition CombineKeys :: "heap \<Rightarrow> bytes option \<Rightarrow> bytes option \<Rightarrow> nat \<Rightarrow> nat \<Rightarrow> (int \<times> (bytes \<times> nat) option \<times> heap) option" where
  "CombineKeys h bkey rkey bootkeySize rootkeySize =
     (case (bkey, rkey) of
        (Some bk, Some rk) \<Rightarrow>
          (let outDataSize = KEYS_SEALED_HEADER_SIZE + 2 * KEYS_SEALED_KEY_HEADER_SIZE + bootkeySize + rootkeySize
           in case Malloc h outDataSize of
                (None, h1) \<Rightarrow> Some (-1, None, h1)
              | (Some out0, h1) \<Rightarrow>
                  do {
                    out1 \<leftarrow> store 0 (nat_le 2 2) out0;
                    (out2, p2) \<leftarrow> SerializeKey out1 KEYS_SEALED_HEADER_SIZE KEYS_BOOTKEY_TYPE bk bootkeySize;
                    (out3, p3) \<leftarrow> SerializeKey out2 p2 KEYS_ROOTKEY_TYPE rk rootkeySize;
                    Some (0, Some (out3, outDataSize), h1)
                  })
      | _ \<Rightarrow> Some (-1, None, h))"

subsection \<open>Combining and splitting\<close>

definition key_text :: "nat \<Rightarrow> bytes \<Rightarrow> bytes" where
  "key_text ty key = nat_le 2 ty @ nat_le 2 (length key) @ key"

lemma length_key_text [simp]: "length (key_text ty key) = 4 + length key"
  by (simp add: key_text_def)

lemma SerializeKey_spec:
  assumes "length pre = pos" "4 + length key \<le> length rest"
  shows "SerializeKey (pre @ rest) pos ty key (length key) =
    Some (pre @ key_text ty key @ drop (4 + length key) rest, pos + 4 + length key)"
proof -
  define a where "a = nat_le 2 ty"
  define b where "b = nat_le 2 (length key)"
  have la: "length a = 2" "length b = 2" by (simp_all add: a_def b_def)
  have 1: "store pos a (pre @ rest) = Some (pre @ a @ drop 2 rest)"
    using assms la by (simp add: store_def overwrite_append)
  have 2: "store (pos + 2) b (pre @ a @ drop 2 rest) = Some (pre @ a @ b @ drop 4 rest)"
    using assms la overwrite_append [of "pre @ a" "pos + 2" b "drop 2 rest"] by (simp add: store_def)
  have 3: "store (pos + 4) key (pre @ a @ b @ drop 4 rest) = Some (pre @ a @ b @ key @ drop (4 + length key) rest)"
    using assms la overwrite_append [of "pre @ a @ b" "pos + 4" key "drop 4 rest"] by (simp add: store_def add.commute)
  show ?thesis
    using 1 2 3 by (simp add: SerializeKey_def KEYS_SEALED_KEY_HEADER_SIZE_def load_def key_text_def a_def b_def)
qed

lemma CombineKeys_text:
  assumes "length bk < 2 ^ 16" "length rk < 2 ^ 16" "h 0 = Some x"
  shows "CombineKeys h (Some bk) (Some rk) (length bk) (length rk) =
    Some (0, Some (nat_le 2 2 @ key_text 1 bk @ key_text 2 rk, 10 + length bk + length rk), heap_next h)"
proof -
  let ?n = "10 + length bk + length rk"
  define out0 where "out0 = replicate ?n x"
  have al: "Malloc h ?n = (Some out0, heap_next h)" using assms by (simp add: Malloc_def out0_def)
  have l0: "length out0 = ?n" by (simp add: out0_def)
  define c where "c = nat_le 2 2"
  have lc: "length c = 2" unfolding c_def by (rule length_nat_le)
  have s0: "store 0 c out0 = Some (c @ drop 2 out0)"
    using l0 lc by (simp add: store_def overwrite_def numeral_2_eq_2)
  have s1: "SerializeKey (c @ drop 2 out0) 2 1 bk (length bk) =
      Some ((c @ key_text 1 bk) @ drop (6 + length bk) out0, 6 + length bk)"
    using SerializeKey_spec [of "c" 2 bk "drop 2 out0" 1] l0 lc by (simp add: add.commute)
  have s2: "SerializeKey ((c @ key_text 1 bk) @ drop (6 + length bk) out0) (6 + length bk) 2 rk (length rk) =
      Some (c @ key_text 1 bk @ key_text 2 rk, ?n)"
    using SerializeKey_spec [of "c @ key_text 1 bk" "6 + length bk" rk "drop (6 + length bk) out0" 2] l0 lc
    by (simp add: add.commute add.left_commute numeral_2_eq_2)
  show ?thesis
    unfolding c_def [symmetric] using al s0 s1 s2
    by (simp add: c_def [symmetric] CombineKeys_def KEYS_SEALED_HEADER_SIZE_def KEYS_SEALED_KEY_HEADER_SIZE_def
        KEYS_BOOTKEY_TYPE_def KEYS_ROOTKEY_TYPE_def Let_def)
qed

lemma DeserializeKey_text:
  assumes "ty = 1 \<or> ty = 2" "length key < 2 ^ 16" "h 0 = Some x"
  shows "DeserializeKey h (key_text ty key @ rest) keys =
    Some (Some rest, if ty = 1 then keys\<lparr>bootkey := Some (key, length key)\<rparr> else keys\<lparr>rootkey := Some (key, length key)\<rparr>,
      heap_next h)"
proof -
  define a where "a = nat_le 2 ty"
  define b where "b = nat_le 2 (length key)"
  have la: "length a = 2" "length b = 2" by (simp_all add: a_def b_def)
  have lb: "le_nat a = ty" "le_nat b = length key" using assms by (auto simp: a_def b_def intro!: le_nat_nat_le)
  have l1: "load 0 2 (a @ b @ key @ rest) = Some a" using la by (simp add: load_def slice_def)
  have l2: "load 2 2 (a @ b @ key @ rest) = Some b" using la by (simp add: load_def slice_def)
  have l3: "load 4 (length key) (a @ b @ key @ rest) = Some key"
    using la load_append_at [of "a @ b" 4 key "length key" rest] by simp
  have al: "Malloc h (length key) = (Some (replicate (length key) x), heap_next h)"
    using assms by (simp add: Malloc_def)
  have st: "store 0 key (replicate (length key) x) = Some key" by (simp add: store_def overwrite_def)
  have dr: "drop (4 + length key) (a @ b @ key @ rest) = rest" using la by simp
  show ?thesis
    using assms(1) l1 l2 l3 lb al st dr
    by (auto simp: DeserializeKey_def KEYS_SEALED_KEY_HEADER_SIZE_def KEYS_BOOTKEY_TYPE_def KEYS_ROOTKEY_TYPE_def
        key_text_def a_def [symmetric] b_def [symmetric] Let_def)
qed

lemma split_combine_keys:
  assumes len: "length bk < 2 ^ 16" "length rk < 2 ^ 16" and h: "heap_ok h" "heap_ok h'"
  shows "\<exists>out n h1 h2. CombineKeys h (Some bk) (Some rk) (length bk) (length rk) = Some (0, Some (out, n), h1) \<and>
    length out = n \<and> SplitKeys h' (Some out) n = Some (0, Some ((bk, length bk), (rk, length rk)), h2)"
proof -
  from h obtain x y z where x: "h 0 = Some x" "h' 0 = Some y" "heap_next h' 0 = Some z"
    by (metis heap_ok_0 heap_ok_next)
  define c where "c = nat_le 2 2"
  have lc: "length c = 2" unfolding c_def by (rule length_nat_le)
  have two: "le_nat c = 2" unfolding c_def by (rule le_nat_nat_le) simp
  let ?out = "c @ key_text 1 bk @ key_text 2 rk" and ?n = "10 + length bk + length rk"
  have ld: "load 0 2 ?out = Some c" "drop 2 ?out = key_text 1 bk @ key_text 2 rk"
    using lc by (simp_all add: load_def slice_def)
  have "SplitKeys h' (Some ?out) ?n = Some (0, Some ((bk, length bk), (rk, length rk)), heap_next (heap_next h'))"
    using DeserializeKey_text [of 1 bk h' y "key_text 2 rk" "\<lparr>bootkey = None, rootkey = None\<rparr>"]
      DeserializeKey_text [of 2 rk "heap_next h'" z "[]" "\<lparr>bootkey = Some (bk, length bk), rootkey = None\<rparr>"] x len
    by (simp add: SplitKeys_def KEYS_SEALED_HEADER_SIZE_def KEYS_SEALED_KEY_HEADER_SIZE_def ld [simplified] two lc)
  moreover have "length ?out = ?n" using lc by simp
  ultimately show ?thesis using CombineKeys_text [OF len, of h x, folded c_def] x(1) by blast
qed

section \<open>Claims\<close>

text \<open>
  The boot key and the root key put into one sealed-key blob by \<open>CombineKeys\<close> are taken apart
  again by \<open>SplitKeys\<close>, each with its length.
\<close>

lemma CombineKeys_SplitKeys:
  assumes "length bk < 2 ^ 16" "length rk < 2 ^ 16" "heap_ok h" "heap_ok h'"
  shows "\<exists>out n h1 h2. CombineKeys h (Some bk) (Some rk) (length bk) (length rk) = Some (0, Some (out, n), h1) \<and>
    length out = n \<and> SplitKeys h' (Some out) n = Some (0, Some ((bk, length bk), (rk, length rk)), h2)"
  using assms by (rule split_combine_keys)

end
