(* ===== verification/Buf.thy ===== *)
theory Buf
  imports Prelude "HOL-Library.Monad_Syntax"
begin

text \<open>
  The growable buffers of \<open>lsvmutils/buf.c\<close>: \<open>Buf\<close> (bytes), \<open>BufU32\<close> and \<open>BufPtr\<close>, which
  scale \<open>Buf\<close> by the size of an element.

  A null \<open>data\<close> is the empty block. \<open>Realloc\<close> is given \<open>UINTN\<close> sizes but takes an
  \<open>unsigned int\<close> (\<open>alloc.h\<close>), so the block can be smaller than the recorded capacity when
  that is \<open>2^32\<close> or more; the invariant \<open>buf_inv\<close> says that it is not.
\<close>

record buf =
  buf_data :: bytes
  buf_size :: nat
  buf_cap :: nat

definition EXT2_BUF_CHUNK_SIZE :: nat where
  "EXT2_BUF_CHUNK_SIZE = 1024"

definition BufInit :: buf where
  "BufInit = \<lparr>buf_data = [], buf_size = 0, buf_cap = 0\<rparr>"

text \<open>\<open>BufRelease\<close> also gives the contents of the block at the time it is freed.\<close>

definition BufRelease :: "buf \<Rightarrow> (bytes \<times> buf) option" where
  "BufRelease b =
     do {
       freed \<leftarrow> (if buf_data b \<noteq> [] then store 0 (replicate (buf_size b) 0xDD) (buf_data b) else Some []);
       Some (freed, BufInit)
     }"

definition BufClear :: "buf \<Rightarrow> int \<times> buf" where
  "BufClear b = (0, b\<lparr>buf_size := 0\<rparr>)"

text \<open>The capacity that \<open>BufReserve\<close> asks for: doubled, or rounded up to whole chunks.\<close>

definition new_capacity :: "nat \<Rightarrow> nat \<Rightarrow> nat" where
  "new_capacity old cap =
     (let new_cap = u64 (old * 2);
          N = EXT2_BUF_CHUNK_SIZE
      in if cap > new_cap then u64 (u64 (cap + N - 1) div N * N) else new_cap)"

definition BufReserve :: "heap \<Rightarrow> buf \<Rightarrow> nat \<Rightarrow> int \<times> buf \<times> heap" where
  "BufReserve h b cap =
     (if cap > buf_cap b then
        (let new_cap = new_capacity (buf_cap b) cap
         in case Realloc h (buf_data b) new_cap of
              (None, h') \<Rightarrow> (-1, b, h')
            | (Some new_data, h') \<Rightarrow> (0, b\<lparr>buf_data := new_data, buf_cap := new_cap\<rparr>, h'))
      else (0, b, h))"

definition BufAppend :: "heap \<Rightarrow> buf \<Rightarrow> bytes option \<Rightarrow> nat \<Rightarrow> (int \<times> buf \<times> heap) option" where
  "BufAppend h b data sz =
     (case data of
        None \<Rightarrow> Some (-1, b, h)
      | Some d \<Rightarrow>
          if sz = 0 then Some (0, b, h)
          else
            (let new_size = u64 (buf_size b + sz);
                 (err, b1, h1) = (if new_size > buf_cap b then BufReserve h b new_size else (0, b, h))
             in if err \<noteq> 0 then Some (err, b1, h1)
                else do {
                  src \<leftarrow> load 0 sz d;
                  m \<leftarrow> store (buf_size b1) src (buf_data b1);
                  Some (0, b1\<lparr>buf_data := m, buf_size := new_size\<rparr>, h1)
                }))"

subsection \<open>Buffers of 32-bit integers and of pointers\<close>

text \<open>\<open>scale_up k\<close> is the temporary \<open>Buf\<close> of the wrappers, \<open>scale_down k\<close> the way back.\<close>

definition scale_up :: "nat \<Rightarrow> buf \<Rightarrow> buf" where
  "scale_up k b = \<lparr>buf_data = buf_data b, buf_size = u64 (buf_size b * k), buf_cap = u64 (buf_cap b * k)\<rparr>"

definition scale_down :: "nat \<Rightarrow> buf \<Rightarrow> buf" where
  "scale_down k b = \<lparr>buf_data = buf_data b, buf_size = buf_size b div k, buf_cap = buf_cap b div k\<rparr>"

definition BufU32Release :: "buf \<Rightarrow> bytes option" where
  "BufU32Release b = map_option fst (BufRelease (scale_up 4 b))"

definition BufU32Append :: "heap \<Rightarrow> buf \<Rightarrow> bytes option \<Rightarrow> nat \<Rightarrow> (int \<times> buf \<times> heap) option" where
  "BufU32Append h b data sz =
     do {
       (err, tmp, h1) \<leftarrow> BufAppend h (scale_up 4 b) data (u64 (sz * 4));
       if err \<noteq> 0 then Some (-1, b, h1) else Some (0, scale_down 4 tmp, h1)
     }"

definition BufPtrRelease :: "buf \<Rightarrow> bytes option" where
  "BufPtrRelease b = map_option fst (BufRelease (scale_up 8 b))"

definition BufPtrAppend :: "heap \<Rightarrow> buf \<Rightarrow> bytes option \<Rightarrow> nat \<Rightarrow> (int \<times> buf \<times> heap) option" where
  "BufPtrAppend h b data sz =
     do {
       (err, tmp, h1) \<leftarrow> BufAppend h (scale_up 8 b) data (u64 (sz * 8));
       if err \<noteq> 0 then Some (-1, b, h1) else Some (0, scale_down 8 tmp, h1)
     }"

subsection \<open>Invariant and contents\<close>

definition buf_inv :: "buf \<Rightarrow> bool" where
  "buf_inv b \<longleftrightarrow> length (buf_data b) = buf_cap b \<and> buf_size b \<le> buf_cap b \<and> buf_cap b < 2 ^ 32"

definition buf_contents :: "buf \<Rightarrow> bytes" where
  "buf_contents b = take (buf_size b) (buf_data b)"

lemma buf_inv_init: "buf_inv BufInit"
  by (simp add: buf_inv_def BufInit_def)

lemma chunk_round:
  fixes cap :: nat
  assumes "cap \<le> 2 ^ 31"
  shows "cap \<le> (cap + 1024 - 1) div 1024 * 1024" and "(cap + 1024 - 1) div 1024 * 1024 < 2 ^ 32"
proof -
  have "cap + 1024 - 1 = (cap + 1024 - 1) div 1024 * 1024 + (cap + 1024 - 1) mod 1024" by simp
  moreover have "(cap + 1024 - 1) mod 1024 \<le> 1023" by (simp add: less_Suc_eq_le [symmetric])
  ultimately show "cap \<le> (cap + 1024 - 1) div 1024 * 1024" by linarith
  have "(cap + 1024 - 1) div 1024 * 1024 \<le> cap + 1024 - 1" by (rule div_times_less_eq_dividend)
  with assms show "(cap + 1024 - 1) div 1024 * 1024 < 2 ^ 32" by simp
qed

lemma new_capacity_bounds:
  assumes "old < 2 ^ 32" "old < cap" "cap \<le> 2 ^ 31"
  shows "cap \<le> new_capacity old cap" and "new_capacity old cap < 2 ^ 32"
  using assms chunk_round [OF assms(3)] by (auto simp: new_capacity_def EXT2_BUF_CHUNK_SIZE_def Let_def)

lemma new_capacity_dvd:
  assumes "old < 2 ^ 32" "cap \<le> 2 ^ 31" "k dvd 1024" "k dvd old"
  shows "k dvd new_capacity old cap"
  using assms chunk_round [OF assms(2)] by (auto simp: new_capacity_def EXT2_BUF_CHUNK_SIZE_def Let_def)

lemma BufReserve_cases:
  assumes "buf_inv b" "cap \<le> 2 ^ 31"
  obtains (enough) "cap \<le> buf_cap b" "BufReserve h b cap = (0, b, h)"
    | (failed) "h 0 = None" "BufReserve h b cap = (-1, b, heap_next h)"
    | (grown) x n where "h 0 = Some x" "buf_cap b < cap" "cap \<le> n" "n < 2 ^ 32"
        "\<forall>k. k dvd 1024 \<and> k dvd buf_cap b \<longrightarrow> k dvd n"
        "BufReserve h b cap =
           (0, b\<lparr>buf_data := buf_data b @ replicate (n - buf_cap b) x, buf_cap := n\<rparr>, heap_next h)"
proof (cases "cap \<le> buf_cap b")
  case True
  then show ?thesis by (intro enough) (simp_all add: BufReserve_def)
next
  case False
  let ?n = "new_capacity (buf_cap b) cap"
  have n: "cap \<le> ?n" "?n < 2 ^ 32"
    using new_capacity_bounds [of "buf_cap b" cap] assms False by (auto simp: buf_inv_def)
  have "length (buf_data b) = buf_cap b" using assms(1) by (simp add: buf_inv_def)
  with n False have eq: "BufReserve h b cap = (case h 0 of None \<Rightarrow> (-1, b, heap_next h)
      | Some x \<Rightarrow> (0, b\<lparr>buf_data := buf_data b @ replicate (?n - buf_cap b) x, buf_cap := ?n\<rparr>, heap_next h))"
    by (auto simp: BufReserve_def Realloc_def Let_def split: option.split)
  show ?thesis
  proof (cases "h 0")
    case None
    with eq show ?thesis by (intro failed) simp_all
  next
    case (Some x)
    with eq n False assms new_capacity_dvd [of "buf_cap b" cap] show ?thesis by (intro grown [of x ?n]) (auto simp: buf_inv_def)
  qed
qed

lemma BufReserve_spec:
  assumes "buf_inv b" "cap \<le> 2 ^ 31"
  shows "\<exists>rc b' h'. BufReserve h b cap = (rc, b', h') \<and> buf_inv b' \<and> buf_size b' = buf_size b \<and>
    buf_contents b' = buf_contents b \<and> (rc = 0 \<longrightarrow> cap \<le> buf_cap b') \<and> (rc \<noteq> 0 \<longrightarrow> b' = b) \<and>
    (heap_ok h \<longrightarrow> rc = 0 \<and> heap_ok h') \<and> (\<forall>k. k dvd 1024 \<and> k dvd buf_cap b \<longrightarrow> k dvd buf_cap b')"
  using assms(1)
  by (cases rule: BufReserve_cases [OF assms, of h])
    (auto simp: buf_inv_def buf_contents_def heap_ok_def heap_next_def)

lemma BufAppend_spec:
  assumes inv: "buf_inv b" and sz: "buf_size b + length d \<le> 2 ^ 31"
  shows "\<exists>rc b' h'. BufAppend h b (Some d) (length d) = Some (rc, b', h') \<and> buf_inv b' \<and>
    (rc = 0 \<longrightarrow> buf_size b' = buf_size b + length d \<and> buf_contents b' = buf_contents b @ d) \<and>
    (rc \<noteq> 0 \<longrightarrow> b' = b) \<and> (heap_ok h \<longrightarrow> rc = 0 \<and> heap_ok h') \<and>
    (\<forall>k. k dvd 1024 \<and> k dvd buf_cap b \<longrightarrow> k dvd buf_cap b')"
proof (cases "d = []")
  case True
  then show ?thesis using inv by (simp add: BufAppend_def)
next
  case False
  let ?n = "buf_size b + length d"
  from BufReserve_spec [OF inv sz, of h] obtain rc b1 h1 where
    r: "BufReserve h b ?n = (rc, b1, h1)" "buf_inv b1" "buf_size b1 = buf_size b"
      "buf_contents b1 = buf_contents b" "rc = 0 \<longrightarrow> ?n \<le> buf_cap b1" "rc \<noteq> 0 \<longrightarrow> b1 = b"
      "heap_ok h \<longrightarrow> rc = 0 \<and> heap_ok h1" "\<forall>k. k dvd 1024 \<and> k dvd buf_cap b \<longrightarrow> k dvd buf_cap b1" by blast
  have skip: "?n \<le> buf_cap b \<Longrightarrow> BufReserve h b ?n = (0, b, h)" by (simp add: BufReserve_def)
  have u: "u64 ?n = ?n" using sz by simp
  have eq: "(if ?n > buf_cap b then BufReserve h b ?n else (0, b, h)) = (rc, b1, h1)"
    using r(1) skip by simp
  show ?thesis
  proof (cases "rc = 0")
    case True
    let ?b = "b1\<lparr>buf_data := overwrite (buf_size b) d (buf_data b1), buf_size := ?n\<rparr>"
    have fit: "buf_size b + length d \<le> length (buf_data b1)"
      using r(2,5) True by (simp add: buf_inv_def)
    then have "buf_inv ?b" using r(2,5) True by (simp add: buf_inv_def)
    moreover have "buf_contents ?b = buf_contents b @ d"
      using r(3,4) fit inv by (auto simp: buf_contents_def overwrite_def buf_inv_def)
    moreover have "BufAppend h b (Some d) (length d) = Some (0, ?b, h1)"
      using False True fit r(3) by (simp add: BufAppend_def u eq Let_def load_def store_def del: if_split)
    ultimately show ?thesis using r(7,8) by auto
  next
    case rc: False
    then have "BufAppend h b (Some d) (length d) = Some (rc, b, h1)"
      using False r(6) by (simp add: BufAppend_def u eq Let_def del: if_split)
    with rc inv r(7) show ?thesis by auto
  qed
qed

text \<open>The wrappers append whole elements: the byte contents of the scaled buffer.\<close>

definition elem_inv :: "nat \<Rightarrow> buf \<Rightarrow> bool" where
  "elem_inv k b \<longleftrightarrow> length (buf_data b) = buf_cap b * k \<and> buf_size b \<le> buf_cap b \<and> buf_cap b * k < 2 ^ 32"

definition elem_contents :: "nat \<Rightarrow> buf \<Rightarrow> bytes" where
  "elem_contents k b = take (buf_size b * k) (buf_data b)"

lemma scale_up_inv: "elem_inv k b \<Longrightarrow> 0 < k \<Longrightarrow> buf_inv (scale_up k b) \<and> buf_contents (scale_up k b) = elem_contents k b \<and>
    buf_size (scale_up k b) = buf_size b * k \<and> buf_cap (scale_up k b) = buf_cap b * k"
proof -
  assume inv: "elem_inv k b" "0 < k"
  then have "buf_size b * k \<le> buf_cap b * k" and "buf_cap b * k < 2 ^ 32" by (auto simp: elem_inv_def)
  then have "u64 (buf_size b * k) = buf_size b * k" "u64 (buf_cap b * k) = buf_cap b * k" 
    using le_less_trans [of "buf_size b * k" "buf_cap b * k" "2 ^ 32"] by (simp_all add: u64_def)
  with inv show ?thesis by (auto simp: elem_inv_def buf_inv_def scale_up_def buf_contents_def elem_contents_def)
qed

lemma scaled_append:
  assumes inv: "elem_inv k b" and k: "0 < k" "k dvd 1024" and sz: "length d = sz * k" "(buf_size b + sz) * k \<le> 2 ^ 31"
  shows "\<exists>rc tmp h'. BufAppend h (scale_up k b) (Some d) (u64 (sz * k)) = Some (rc, tmp, h') \<and>
    (rc = 0 \<longrightarrow> elem_inv k (scale_down k tmp) \<and> buf_size (scale_down k tmp) = buf_size b + sz \<and>
      elem_contents k (scale_down k tmp) = elem_contents k b @ d) \<and> (heap_ok h \<longrightarrow> rc = 0 \<and> heap_ok h')"
proof -
  note up = scale_up_inv [OF inv k(1)]
  have tot: "buf_size (scale_up k b) + length d \<le> 2 ^ 31" using up sz by (simp add: algebra_simps)
  have u: "u64 (sz * k) = length d" using tot sz(1) by simp
  from up have "buf_inv (scale_up k b)" by simp
  from BufAppend_spec [OF this tot, of h] u obtain rc tmp h' where
    r: "BufAppend h (scale_up k b) (Some d) (u64 (sz * k)) = Some (rc, tmp, h')" "buf_inv tmp"
      "rc = 0 \<longrightarrow> buf_size tmp = buf_size (scale_up k b) + length d \<and>
        buf_contents tmp = buf_contents (scale_up k b) @ d"
      "heap_ok h \<longrightarrow> rc = 0 \<and> heap_ok h'"
      "\<forall>k'. k' dvd 1024 \<and> k' dvd buf_cap (scale_up k b) \<longrightarrow> k' dvd buf_cap tmp" by auto
  have dvd: "k dvd buf_cap tmp" using r(5) k(2) up by simp
  then have cap: "buf_cap tmp div k * k = buf_cap tmp" by simp
  have "elem_inv k (scale_down k tmp) \<and> buf_size (scale_down k tmp) = buf_size b + sz \<and>
      elem_contents k (scale_down k tmp) = elem_contents k b @ d" if "rc = 0"
  proof -
    from r(3) that up sz(1) have size: "buf_size tmp = (buf_size b + sz) * k"
      and cont: "buf_contents tmp = elem_contents k b @ d" by (simp_all add: algebra_simps)
    have "buf_size tmp div k = buf_size b + sz" using size k(1) by simp
    with size cont cap r(2) show ?thesis
      by (auto simp: elem_inv_def buf_inv_def scale_down_def elem_contents_def buf_contents_def div_le_mono)
         (metis div_le_mono nonzero_mult_div_cancel_right not_less_zero k(1))
  qed
  with r(1,4) show ?thesis by auto
qed

lemma BufU32Append_spec:
  assumes "elem_inv 4 b" "length d = sz * 4" "(buf_size b + sz) * 4 \<le> 2 ^ 31"
  shows "\<exists>rc b' h'. BufU32Append h b (Some d) sz = Some (rc, b', h') \<and> elem_inv 4 b' \<and>
    (rc = 0 \<longrightarrow> buf_size b' = buf_size b + sz \<and> elem_contents 4 b' = elem_contents 4 b @ d) \<and>
    (rc \<noteq> 0 \<longrightarrow> b' = b) \<and> (heap_ok h \<longrightarrow> rc = 0 \<and> heap_ok h')"
  using scaled_append [OF assms(1) _ _ assms(2,3), of h] assms(1) by (force simp: BufU32Append_def)

lemma BufPtrAppend_spec:
  assumes "elem_inv 8 b" "length d = sz * 8" "(buf_size b + sz) * 8 \<le> 2 ^ 31"
  shows "\<exists>rc b' h'. BufPtrAppend h b (Some d) sz = Some (rc, b', h') \<and> elem_inv 8 b' \<and>
    (rc = 0 \<longrightarrow> buf_size b' = buf_size b + sz \<and> elem_contents 8 b' = elem_contents 8 b @ d) \<and>
    (rc \<noteq> 0 \<longrightarrow> b' = b) \<and> (heap_ok h \<longrightarrow> rc = 0 \<and> heap_ok h')"
  using scaled_append [OF assms(1) _ _ assms(2,3), of h] assms(1) by (force simp: BufPtrAppend_def)

section \<open>Claims\<close>

text \<open>
  \<open>BufAppend\<close> never accesses memory outside the block and keeps the buffer's invariant (the
  block is as large as the capacity, the size at most the capacity). When it returns 0 the contents
  are the old contents followed by the new bytes; when an allocation fails the buffer is
  unchanged; it fails only when an allocation fails.
\<close>

lemma BufAppend_appends:
  assumes "buf_inv b" "buf_size b + length d \<le> 2 ^ 31"
  shows "\<exists>rc b' h'. BufAppend h b (Some d) (length d) = Some (rc, b', h') \<and> buf_inv b' \<and>
    (rc = 0 \<longrightarrow> buf_size b' = buf_size b + length d \<and> buf_contents b' = buf_contents b @ d) \<and>
    (rc \<noteq> 0 \<longrightarrow> b' = b) \<and> (heap_ok h \<longrightarrow> rc = 0)"
  using BufAppend_spec [OF assms, of h] by blast

end
