(* ===== verification/Layout.thy ===== *)
theory Layout
  imports Prelude
begin

text \<open>
  C structures as bytes. A structure that is read from or written to a disk is the bytes of the
  C object, described by its \<open>layout\<close>: the list of its members with their sizes in the order of the
  declaration. \<open>get_field\<close> and \<open>set_field\<close> access a member at the offset the layout gives it;
  \<open>aligned_from\<close> says that the compiler adds no padding. Integers are little-endian.
\<close>

type_synonym layout = "(string \<times> nat \<times> nat) list"

text \<open>A member: its name, the size of an element and the number of elements (arrays).\<close>

definition struct_size :: "layout \<Rightarrow> nat" where
  "struct_size l = sum_list (map (\<lambda>(f, w, n). w * n) l)"

fun field_at :: "layout \<Rightarrow> string \<Rightarrow> nat \<times> nat" where
  "field_at [] f = (0, 0)"
| "field_at ((g, w, n) # l) f = (if f = g then (0, w * n) else (let (off, k) = field_at l f in (w * n + off, k)))"

fun aligned_from :: "nat \<Rightarrow> layout \<Rightarrow> bool" where
  "aligned_from off [] \<longleftrightarrow> True"
| "aligned_from off ((g, w, n) # l) \<longleftrightarrow> off mod w = 0 \<and> aligned_from (off + w * n) l"

definition get_field :: "layout \<Rightarrow> string \<Rightarrow> bytes \<Rightarrow> nat" where
  "get_field l f s = (case field_at l f of (off, k) \<Rightarrow> le_nat (slice off k s))"

definition set_field :: "layout \<Rightarrow> string \<Rightarrow> nat \<Rightarrow> bytes \<Rightarrow> bytes" where
  "set_field l f v s = (case field_at l f of (off, k) \<Rightarrow> overwrite off (nat_le k v) s)"

lemma get_set_same:
  assumes "field_at l f = (off, k)" "off + k \<le> length s" "v < 256 ^ k"
  shows "get_field l f (set_field l f v s) = v"
  using assms by (simp add: get_field_def set_field_def slice_overwrite_same le_nat_nat_le)

lemma get_set_other:
  assumes "field_at l f = (off, k)" "field_at l g = (off', k')" "off' + k' \<le> length s"
    and "off + k \<le> off' \<or> off' + k' \<le> off"
  shows "get_field l f (set_field l g v s) = get_field l f s"
  using assms by (auto simp: get_field_def set_field_def slice_overwrite_before slice_overwrite_after)

lemma length_set_field:
  "field_at l f = (off, k) \<Longrightarrow> off + k \<le> length s \<Longrightarrow> length (set_field l f v s) = length s"
  by (simp add: set_field_def)

end
