(* ===== verification/Ext2Types.thy ===== *)
theory Ext2Types
  imports Blkdev CString Buf Layout
begin

text \<open>
  The data of the EXT2 file system (\<open>lsvmutils/ext2.h\<close>) and the shape of its operations.

  The structures that are read from and written to the disk are the bytes of the C object.
  A structure is described by its \<open>layout\<close> (theory \<open>Layout\<close>). Every member starts at a multiple of its own size, so that the compiler
  adds no padding (\<open>layouts_aligned\<close>); integers are little-endian, since \<open>EXT2New\<close> refuses any
  other machine. The objects that only exist in memory are records.

  An operation takes and returns the file system object, the record \<open>ext2\<close>, with the state
  of its device and of the allocator. Its result is \<open>None\<close> where the C code accesses memory
  out of bounds, divides by zero or runs forever; otherwise it is the error code \<open>Inl err\<close> or
  \<open>Inr x\<close> for \<open>EXT2_ERR_NONE\<close> with the outputs \<open>x\<close>. The sources test every call with
  \<open>if (EXT2_IFERR(err = ...)) GOTO(done)\<close>, which is \<open>andthen\<close>. Releasing memory at \<open>done\<close> has no
  effect on the model.
\<close>

subsection \<open>Errors\<close>

text \<open>The last constructor is the return code of another module stored in an \<open>EXT2Err\<close>.\<close>

datatype EXT2Err =
    EXT2_ERR_NONE
  | EXT2_ERR_FAILED
  | EXT2_ERR_INVALID_PARAMETER
  | EXT2_ERR_FILE_NOT_FOUND
  | EXT2_ERR_BAD_MAGIC
  | EXT2_ERR_UNSUPPORTED
  | EXT2_ERR_OUT_OF_MEMORY
  | EXT2_ERR_FAILED_TO_READ_SUPERBLOCK
  | EXT2_ERR_FAILED_TO_READ_GROUPS
  | EXT2_ERR_FAILED_TO_READ_INODE
  | EXT2_ERR_UNSUPPORTED_REVISION
  | EXT2_ERR_OPEN_FAILED
  | EXT2_ERR_BUFFER_OVERFLOW
  | EXT2_ERR_SEEK_FAILED
  | EXT2_ERR_READ_FAILED
  | EXT2_ERR_WRITE_FAILED
  | EXT2_ERR_UNEXPECTED
  | EXT2_ERR_SANITY_CHECK_FAILED
  | EXT2_ERR_BAD_BLKNO
  | EXT2_ERR_BAD_INO
  | EXT2_ERR_BAD_GRPNO
  | EXT2_ERR_BAD_MULTIPLE
  | EXT2_ERR_EXTRANEOUS_DATA
  | EXT2_ERR_BAD_SIZE
  | EXT2_ERR_PATH_TOO_LONG
  | EXT2_ERR_CODE int

fun EXT2ErrStr :: "EXT2Err \<Rightarrow> string" where
  "EXT2ErrStr EXT2_ERR_NONE = ''ok''"
| "EXT2ErrStr EXT2_ERR_FAILED = ''failed''"
| "EXT2ErrStr EXT2_ERR_INVALID_PARAMETER = ''invalid parameter''"
| "EXT2ErrStr EXT2_ERR_FILE_NOT_FOUND = ''file not found''"
| "EXT2ErrStr EXT2_ERR_BAD_MAGIC = ''bad magic''"
| "EXT2ErrStr EXT2_ERR_UNSUPPORTED = ''unsupported''"
| "EXT2ErrStr EXT2_ERR_OUT_OF_MEMORY = ''out of memory''"
| "EXT2ErrStr EXT2_ERR_FAILED_TO_READ_SUPERBLOCK = ''failed to read superblock''"
| "EXT2ErrStr EXT2_ERR_FAILED_TO_READ_GROUPS = ''failed to read groups''"
| "EXT2ErrStr EXT2_ERR_FAILED_TO_READ_INODE = ''failed to read inode''"
| "EXT2ErrStr EXT2_ERR_UNSUPPORTED_REVISION = ''unsupported revision''"
| "EXT2ErrStr EXT2_ERR_OPEN_FAILED = ''open failed''"
| "EXT2ErrStr EXT2_ERR_BUFFER_OVERFLOW = ''buffer overflow''"
| "EXT2ErrStr EXT2_ERR_SEEK_FAILED = ''buffer overflow''"
| "EXT2ErrStr EXT2_ERR_READ_FAILED = ''read failed''"
| "EXT2ErrStr EXT2_ERR_WRITE_FAILED = ''write failed''"
| "EXT2ErrStr EXT2_ERR_UNEXPECTED = ''unexpected''"
| "EXT2ErrStr EXT2_ERR_SANITY_CHECK_FAILED = ''sanity check failed''"
| "EXT2ErrStr EXT2_ERR_BAD_BLKNO = ''bad block number''"
| "EXT2ErrStr EXT2_ERR_BAD_INO = ''bad inode number''"
| "EXT2ErrStr EXT2_ERR_BAD_GRPNO = ''bad group number''"
| "EXT2ErrStr EXT2_ERR_BAD_MULTIPLE = ''bad multiple''"
| "EXT2ErrStr EXT2_ERR_EXTRANEOUS_DATA = ''extraneous data''"
| "EXT2ErrStr EXT2_ERR_BAD_SIZE = ''bad size''"
| "EXT2ErrStr EXT2_ERR_PATH_TOO_LONG = ''path too long''"
| "EXT2ErrStr (EXT2_ERR_CODE _) = ''unknown''"

subsection \<open>Structures as bytes\<close>

definition superblock_layout :: layout where
  "superblock_layout =
     [(''s_inodes_count'', 4, 1), (''s_blocks_count'', 4, 1), (''s_r_blocks_count'', 4, 1),
      (''s_free_blocks_count'', 4, 1), (''s_free_inodes_count'', 4, 1), (''s_first_data_block'', 4, 1),
      (''s_log_block_size'', 4, 1), (''s_log_frag_size'', 4, 1), (''s_blocks_per_group'', 4, 1),
      (''s_frags_per_group'', 4, 1), (''s_inodes_per_group'', 4, 1), (''s_mtime'', 4, 1), (''s_wtime'', 4, 1),
      (''s_mnt_count'', 2, 1), (''s_max_mnt_count'', 2, 1), (''s_magic'', 2, 1), (''s_state'', 2, 1),
      (''s_errors'', 2, 1), (''s_minor_rev_level'', 2, 1), (''s_lastcheck'', 4, 1), (''s_checkinterval'', 4, 1),
      (''s_creator_os'', 4, 1), (''s_rev_level'', 4, 1), (''s_def_resuid'', 2, 1), (''s_def_resgid'', 2, 1),
      (''s_first_ino'', 4, 1), (''s_inode_size'', 2, 1), (''s_block_group_nr'', 2, 1), (''s_feature_compat'', 4, 1),
      (''s_feature_incompat'', 4, 1), (''s_feature_ro_compat'', 4, 1), (''s_uuid'', 1, 16),
      (''s_volume_name'', 1, 16), (''s_last_mounted'', 1, 64), (''s_algo_bitmap'', 4, 1),
      (''s_prealloc_blocks'', 1, 1), (''s_prealloc_dir_blocks'', 1, 1), (''__alignment'', 2, 1),
      (''s_journal_uuid'', 1, 16), (''s_journal_inum'', 4, 1), (''s_journal_dev'', 4, 1), (''s_last_orphan'', 4, 1),
      (''s_hash_seed'', 4, 4), (''s_def_hash_version'', 1, 1), (''padding'', 1, 3),
      (''s_default_mount_options'', 4, 1), (''s_first_meta_bg'', 4, 1), (''__unused'', 1, 760)]"

definition group_layout :: layout where
  "group_layout =
     [(''bg_block_bitmap'', 4, 1), (''bg_inode_bitmap'', 4, 1), (''bg_inode_table'', 4, 1),
      (''bg_free_blocks_count'', 2, 1), (''bg_free_inodes_count'', 2, 1), (''bg_used_dirs_count'', 2, 1),
      (''bg_pad'', 2, 1), (''bg_reserved'', 1, 12)]"

definition inode_layout :: layout where
  "inode_layout =
     [(''i_mode'', 2, 1), (''i_uid'', 2, 1), (''i_size'', 4, 1), (''i_atime'', 4, 1), (''i_ctime'', 4, 1),
      (''i_mtime'', 4, 1), (''i_dtime'', 4, 1), (''i_gid'', 2, 1), (''i_links_count'', 2, 1), (''i_blocks'', 4, 1),
      (''i_flags'', 4, 1), (''i_osd1'', 4, 1), (''i_block'', 4, 15), (''i_generation'', 4, 1), (''i_file_acl'', 4, 1),
      (''i_dir_acl'', 4, 1), (''i_faddr'', 4, 1), (''i_osd2'', 1, 12), (''dummy'', 1, 128)]"

definition dirent_layout :: layout where
  "dirent_layout = [(''inode'', 4, 1), (''rec_len'', 2, 1), (''name_len'', 1, 1), (''file_type'', 1, 1), (''name'', 1, 256)]"

text \<open>\<open>EXT2DirEnt\<close> has one byte of padding at its end.\<close>

definition dent_layout :: layout where
  "dent_layout = [(''d_ino'', 4, 1), (''d_off'', 4, 1), (''d_reclen'', 2, 1), (''d_type'', 1, 1), (''d_name'', 1, 256), (''pad'', 1, 1)]"

lemma layout_sizes [layout_simps]:
  "struct_size superblock_layout = 1024" "struct_size group_layout = 32" "struct_size inode_layout = 256"
  "struct_size dirent_layout = 264" "struct_size dent_layout = 268"
  by (simp_all add: struct_size_def superblock_layout_def group_layout_def inode_layout_def dirent_layout_def dent_layout_def)

lemma layouts_aligned:
  "aligned_from 0 superblock_layout" "aligned_from 0 group_layout" "aligned_from 0 inode_layout"
  "aligned_from 0 dirent_layout" "aligned_from 0 dent_layout"
  by (simp_all add: superblock_layout_def group_layout_def inode_layout_def dirent_layout_def dent_layout_def)

subsection \<open>Members\<close>

definition s_blocks_count :: "bytes \<Rightarrow> nat" where
  "s_blocks_count = get_field superblock_layout ''s_blocks_count''"

definition s_free_blocks_count :: "bytes \<Rightarrow> nat" where
  "s_free_blocks_count = get_field superblock_layout ''s_free_blocks_count''"

definition s_free_inodes_count :: "bytes \<Rightarrow> nat" where
  "s_free_inodes_count = get_field superblock_layout ''s_free_inodes_count''"

definition s_first_data_block :: "bytes \<Rightarrow> nat" where
  "s_first_data_block = get_field superblock_layout ''s_first_data_block''"

definition s_log_block_size :: "bytes \<Rightarrow> nat" where
  "s_log_block_size = get_field superblock_layout ''s_log_block_size''"

definition s_blocks_per_group :: "bytes \<Rightarrow> nat" where
  "s_blocks_per_group = get_field superblock_layout ''s_blocks_per_group''"

definition s_inodes_per_group :: "bytes \<Rightarrow> nat" where
  "s_inodes_per_group = get_field superblock_layout ''s_inodes_per_group''"

definition s_magic :: "bytes \<Rightarrow> nat" where
  "s_magic = get_field superblock_layout ''s_magic''"

definition s_rev_level :: "bytes \<Rightarrow> nat" where
  "s_rev_level = get_field superblock_layout ''s_rev_level''"

definition s_inode_size :: "bytes \<Rightarrow> nat" where
  "s_inode_size = get_field superblock_layout ''s_inode_size''"

definition bg_block_bitmap :: "bytes \<Rightarrow> nat" where
  "bg_block_bitmap = get_field group_layout ''bg_block_bitmap''"

definition bg_inode_bitmap :: "bytes \<Rightarrow> nat" where
  "bg_inode_bitmap = get_field group_layout ''bg_inode_bitmap''"

definition bg_inode_table :: "bytes \<Rightarrow> nat" where
  "bg_inode_table = get_field group_layout ''bg_inode_table''"

definition bg_free_blocks_count :: "bytes \<Rightarrow> nat" where
  "bg_free_blocks_count = get_field group_layout ''bg_free_blocks_count''"

definition bg_free_inodes_count :: "bytes \<Rightarrow> nat" where
  "bg_free_inodes_count = get_field group_layout ''bg_free_inodes_count''"

definition i_mode :: "bytes \<Rightarrow> nat" where
  "i_mode = get_field inode_layout ''i_mode''"

definition i_size :: "bytes \<Rightarrow> nat" where
  "i_size = get_field inode_layout ''i_size''"

definition i_block :: "bytes \<Rightarrow> nat list" where
  "i_block s = map (\<lambda>i. le_nat (slice (fst (field_at inode_layout ''i_block'') + 4 * i) 4 s)) [0..<15]"

definition de_inode :: "bytes \<Rightarrow> nat" where
  "de_inode = get_field dirent_layout ''inode''"

definition de_rec_len :: "bytes \<Rightarrow> nat" where
  "de_rec_len = get_field dirent_layout ''rec_len''"

definition de_name_len :: "bytes \<Rightarrow> nat" where
  "de_name_len = get_field dirent_layout ''name_len''"

definition de_file_type :: "bytes \<Rightarrow> nat" where
  "de_file_type = get_field dirent_layout ''file_type''"

definition d_ino :: "bytes \<Rightarrow> nat" where
  "d_ino = get_field dent_layout ''d_ino''"

definition d_type :: "bytes \<Rightarrow> nat" where
  "d_type = get_field dent_layout ''d_type''"

definition d_name :: "bytes \<Rightarrow> bytes" where
  "d_name s = slice (fst (field_at dent_layout ''d_name'')) 256 s"

text \<open>Where the layouts put these members.\<close>

lemma field_offsets:
  "field_at superblock_layout ''s_blocks_count'' = (4, 4)" "field_at superblock_layout ''s_free_blocks_count'' = (12, 4)"
  "field_at superblock_layout ''s_free_inodes_count'' = (16, 4)" "field_at superblock_layout ''s_first_data_block'' = (20, 4)"
  "field_at superblock_layout ''s_log_block_size'' = (24, 4)" "field_at superblock_layout ''s_blocks_per_group'' = (32, 4)"
  "field_at superblock_layout ''s_inodes_per_group'' = (40, 4)" "field_at superblock_layout ''s_magic'' = (56, 2)"
  "field_at superblock_layout ''s_rev_level'' = (76, 4)" "field_at superblock_layout ''s_inode_size'' = (88, 2)"
  "field_at group_layout ''bg_block_bitmap'' = (0, 4)" "field_at group_layout ''bg_inode_bitmap'' = (4, 4)"
  "field_at group_layout ''bg_inode_table'' = (8, 4)" "field_at group_layout ''bg_free_blocks_count'' = (12, 2)"
  "field_at group_layout ''bg_free_inodes_count'' = (14, 2)"
  "field_at inode_layout ''i_mode'' = (0, 2)" "field_at inode_layout ''i_size'' = (4, 4)"
  "field_at inode_layout ''i_links_count'' = (26, 2)" "field_at inode_layout ''i_block'' = (40, 60)"
  "field_at dirent_layout ''inode'' = (0, 4)" "field_at dirent_layout ''rec_len'' = (4, 2)"
  "field_at dirent_layout ''name_len'' = (6, 1)" "field_at dirent_layout ''file_type'' = (7, 1)"
  "field_at dirent_layout ''name'' = (8, 256)"
  "field_at dent_layout ''d_ino'' = (0, 4)" "field_at dent_layout ''d_type'' = (10, 1)" "field_at dent_layout ''d_name'' = (11, 256)"
  by (simp_all add: superblock_layout_def group_layout_def inode_layout_def dirent_layout_def dent_layout_def)

subsection \<open>Constants\<close>

definition EXT2_MAX_BLOCK_SIZE :: nat where
  "EXT2_MAX_BLOCK_SIZE = 8 * 1024"

definition EXT2_BASE_OFFSET :: nat where
  "EXT2_BASE_OFFSET = 1024"

definition EXT2_S_MAGIC :: nat where
  "EXT2_S_MAGIC = 0xEF53"

definition EXT2_GOOD_OLD_REV :: nat where
  "EXT2_GOOD_OLD_REV = 0"

definition EXT2_DYNAMIC_REV :: nat where
  "EXT2_DYNAMIC_REV = 1"

definition EXT2_ROOT_INO :: nat where
  "EXT2_ROOT_INO = 2"

definition EXT2_FIRST_INO :: nat where
  "EXT2_FIRST_INO = 11"

definition EXT2_SINGLE_INDIRECT_BLOCK :: nat where
  "EXT2_SINGLE_INDIRECT_BLOCK = 12"

definition EXT2_DOUBLE_INDIRECT_BLOCK :: nat where
  "EXT2_DOUBLE_INDIRECT_BLOCK = 13"

definition EXT2_TRIPLE_INDIRECT_BLOCK :: nat where
  "EXT2_TRIPLE_INDIRECT_BLOCK = 14"

definition EXT2_S_IFDIR :: nat where
  "EXT2_S_IFDIR = 0x4000"

definition EXT2_PATH_MAX :: nat where
  "EXT2_PATH_MAX = 256"

lemmas ext2_constants =
  EXT2_MAX_BLOCK_SIZE_def EXT2_BASE_OFFSET_def EXT2_S_MAGIC_def EXT2_ROOT_INO_def EXT2_FIRST_INO_def
  EXT2_SINGLE_INDIRECT_BLOCK_def EXT2_DOUBLE_INDIRECT_BLOCK_def EXT2_TRIPLE_INDIRECT_BLOCK_def
  EXT2_S_IFDIR_def EXT2_PATH_MAX_def EXT2_GOOD_OLD_REV_def EXT2_DYNAMIC_REV_def

subsection \<open>Objects in memory and operations on them\<close>

text \<open>\<open>EXT2Block\<close>: an array of the largest block size and the number of bytes in use.\<close>

record ext2_block =
  blk_data :: bytes
  blk_size :: nat

text \<open>
  \<open>EXT2\<close>; the device (with the state the pointer \<open>dev\<close> leads to) and the allocator are part of it.
  An inode on the disk may be shorter than the C object it is read into: \<open>fs_junk\<close> is what the
  uninitialised rest of such an object holds.
\<close>

record 's ext2 =
  fs_dev :: 's
  fs_sb :: bytes
  fs_block_size :: nat
  fs_group_count :: nat
  fs_groups :: bytes
  fs_root_inode :: bytes
  fs_heap :: heap
  fs_junk :: "nat \<Rightarrow> byte"

definition EXT2Valid :: "'s ext2 \<Rightarrow> bool" where
  "EXT2Valid e \<longleftrightarrow> s_magic (fs_sb e) = EXT2_S_MAGIC"

type_synonym ('s, 'a) ext2_op = "'s ext2 \<Rightarrow> ((EXT2Err + 'a) \<times> 's ext2) option"

definition success :: "'a \<Rightarrow> ('s, 'a) ext2_op" where
  "success x = (\<lambda>e. Some (Inr x, e))"

definition fails :: "EXT2Err \<Rightarrow> ('s, 'a) ext2_op" where
  "fails err = (\<lambda>e. Some (Inl err, e))"

definition undefined_op :: "('s, 'a) ext2_op" where
  "undefined_op = (\<lambda>e. None)"

definition andthen :: "('s, 'a) ext2_op \<Rightarrow> ('a \<Rightarrow> ('s, 'b) ext2_op) \<Rightarrow> ('s, 'b) ext2_op" where
  "andthen m f = (\<lambda>e. case m e of
       None \<Rightarrow> None
     | Some (Inl err, e') \<Rightarrow> Some (Inl err, e')
     | Some (Inr x, e') \<Rightarrow> f x e')"

text \<open>\<open>attempt\<close> hands the error code to the caller; \<open>with_error\<close> replaces it.\<close>

definition attempt :: "('s, 'a) ext2_op \<Rightarrow> ('s, EXT2Err + 'a) ext2_op" where
  "attempt m = (\<lambda>e. case m e of None \<Rightarrow> None | Some (r, e') \<Rightarrow> Some (Inr r, e'))"

definition with_error :: "EXT2Err \<Rightarrow> ('s, 'a) ext2_op \<Rightarrow> ('s, 'a) ext2_op" where
  "with_error err m = (\<lambda>e. case m e of
       None \<Rightarrow> None
     | Some (Inl _, e') \<Rightarrow> Some (Inl err, e')
     | Some (Inr x, e') \<Rightarrow> Some (Inr x, e'))"

definition reads :: "('s ext2 \<Rightarrow> 'a) \<Rightarrow> ('s, 'a) ext2_op" where
  "reads f = (\<lambda>e. Some (Inr (f e), e))"

definition updates :: "('s ext2 \<Rightarrow> 's ext2) \<Rightarrow> ('s, unit) ext2_op" where
  "updates f = (\<lambda>e. Some (Inr (), f e))"

text \<open>A memory access: undefined when it is out of bounds.\<close>

definition access :: "'a option \<Rightarrow> ('s, 'a) ext2_op" where
  "access x = (\<lambda>e. map_option (\<lambda>v. (Inr v, e)) x)"

text \<open>Steps that use the allocator: the code is turned into an error by \<open>err\<close>.\<close>

definition with_heap :: "(heap \<Rightarrow> (int \<times> 'a \<times> heap) option) \<Rightarrow> ('s, 'a) ext2_op" where
  "with_heap f = (\<lambda>e. case f (fs_heap e) of
       None \<Rightarrow> None
     | Some (rc, x, h) \<Rightarrow> Some (if rc \<noteq> 0 then Inl (EXT2_ERR_CODE rc) else Inr x, e\<lparr>fs_heap := h\<rparr>))"

definition allocate :: "EXT2Err \<Rightarrow> (heap \<Rightarrow> 'a option \<times> heap) \<Rightarrow> ('s, 'a) ext2_op" where
  "allocate err f = (\<lambda>e. case f (fs_heap e) of
       (None, h) \<Rightarrow> Some (Inl err, e\<lparr>fs_heap := h\<rparr>)
     | (Some x, h) \<Rightarrow> Some (Inr x, e\<lparr>fs_heap := h\<rparr>))"

definition require :: "bool \<Rightarrow> EXT2Err \<Rightarrow> ('s, unit) ext2_op" where
  "require b err = (if b then success () else fails err)"

named_theorems ext2_op_simps \<open>evaluation of operations\<close>

lemma op_simps [ext2_op_simps]:
  "success x e = Some (Inr x, e)"
  "fails err e = Some (Inl err, e)"
  "reads f e = Some (Inr (f e), e)"
  "updates g e = Some (Inr (), g e)"
  "undefined_op e = None"
  "require True err e = Some (Inr (), e)"
  "require False err e = Some (Inl err, e)"
  "access (Some v) e = Some (Inr v, e)"
  "access None e = None"
  by (simp_all add: success_def fails_def reads_def updates_def undefined_op_def require_def access_def)

lemma andthen_simps [ext2_op_simps]:
  "m e = None \<Longrightarrow> andthen m f e = None"
  "m e = Some (Inl err, e') \<Longrightarrow> andthen m f e = Some (Inl err, e')"
  "m e = Some (Inr x, e') \<Longrightarrow> andthen m f e = f x e'"
  by (simp_all add: andthen_def)

lemma andthen_success [simp]: "andthen m success = m" "andthen (success x) f = f x"
  by (auto simp: andthen_def success_def fun_eq_iff split: option.split sum.split)

lemma andthen_assoc: "andthen (andthen m f) g = andthen m (\<lambda>x. andthen (f x) g)"
  by (auto simp: andthen_def fun_eq_iff split: option.split sum.split)

lemma andthen_Inr_iff:
  "andthen m f e = Some (Inr y, e2) \<longleftrightarrow> (\<exists>x e1. m e = Some (Inr x, e1) \<and> f x e1 = Some (Inr y, e2))"
  by (auto simp: andthen_def split: option.split sum.split)

end
