(* ===== verification/Ext2Io.thy ===== *)
theory Ext2Io
  imports Ext2Types
begin

text \<open>
  Byte access to the block device under the file system (\<open>lsvmutils/ext2.c\<close>, the first
  functions): reading and writing at any byte offset, a partial block at either end and
  whole blocks between them. Block numbers and sizes are \<open>UINT32\<close> in these functions.

  The result is the bytes stored in the caller's buffer, or \<open>None\<close> for a return value of -1.
\<close>

definition Ext2NextMult :: "nat \<Rightarrow> nat \<Rightarrow> nat" where
  "Ext2NextMult x m = u32 (u32 (x + m + 2 ^ 32 - 1) div m * m)"

definition Ext2Min :: "nat \<Rightarrow> nat \<Rightarrow> nat" where
  "Ext2Min x y = (if x < y then x else y)"

definition ReadPartialBlock :: "'s blkdev \<Rightarrow> 's \<Rightarrow> nat \<Rightarrow> nat \<Rightarrow> nat \<Rightarrow> (bytes option \<times> 's) option" where
  "ReadPartialBlock D dev blkno offset sz =
     (if sz = 0 then Some (Some [], dev)
      else do {
        (rc, blk, dev) \<leftarrow> GetN D dev blkno 1;
        if rc \<noteq> 0 then Some (None, dev)
        else do {
          let off = offset mod BLKDEV_BLKSIZE;
          let len = Ext2Min (BLKDEV_BLKSIZE - off) (u32 sz);
          d \<leftarrow> load off len blk;
          Some (Some d, dev)
        }
      })"

definition WritePartialBlock :: "'s blkdev \<Rightarrow> 's \<Rightarrow> nat \<Rightarrow> nat \<Rightarrow> nat \<Rightarrow> bytes \<Rightarrow> (nat option \<times> 's) option" where
  "WritePartialBlock D dev blkno offset sz data =
     (if sz = 0 then Some (Some 0, dev)
      else do {
        (rc, blk, dev) \<leftarrow> GetN D dev blkno 1;
        if rc \<noteq> 0 then Some (None, dev)
        else do {
          let off = offset mod BLKDEV_BLKSIZE;
          let len = Ext2Min (BLKDEV_BLKSIZE - off) (u32 sz);
          d \<leftarrow> load 0 len data;
          blk \<leftarrow> store off d blk;
          (rc, dev) \<leftarrow> PutN D dev blkno 1 blk;
          if rc \<noteq> 0 then Some (None, dev) else Some (Some len, dev)
        }
      })"

text \<open>The part of \<open>_Read\<close> and \<open>_Write\<close> from the first block boundary on.\<close>

definition read_blocks :: "'s blkdev \<Rightarrow> 's \<Rightarrow> nat \<Rightarrow> nat \<Rightarrow> (bytes option \<times> 's) option" where
  "read_blocks D dev blkno rem =
     do {
       let nblocks = rem div BLKDEV_BLKSIZE;
       (rc, d, dev) \<leftarrow> GetN D dev blkno nblocks;
       if rc \<noteq> 0 then Some (None, dev)
       else do {
         (r, dev) \<leftarrow> ReadPartialBlock D dev (u32 (blkno + nblocks)) 0 (rem - nblocks * BLKDEV_BLKSIZE);
         Some (map_option ((@) d) r, dev)
       }
     }"

definition Ext2Read :: "'s blkdev \<Rightarrow> 's \<Rightarrow> nat \<Rightarrow> nat \<Rightarrow> (bytes option \<times> 's) option" where
  "Ext2Read D dev offset sz =
     (let blkno = u32 (offset div BLKDEV_BLKSIZE);
          rem = u32 sz
      in if offset mod BLKDEV_BLKSIZE \<noteq> 0 then
           do {
             (r, dev) \<leftarrow> ReadPartialBlock D dev blkno offset rem;
             (case r of
                None \<Rightarrow> Some (None, dev)
              | Some d \<Rightarrow>
                  do {
                    (r', dev) \<leftarrow> read_blocks D dev (u32 (blkno + 1)) (rem - length d);
                    Some (map_option ((@) d) r', dev)
                  })
           }
         else read_blocks D dev blkno rem)"

definition write_blocks :: "'s blkdev \<Rightarrow> 's \<Rightarrow> nat \<Rightarrow> bytes \<Rightarrow> nat \<Rightarrow> (bool \<times> 's) option" where
  "write_blocks D dev blkno data rem =
     do {
       let nblocks = rem div BLKDEV_BLKSIZE;
       d \<leftarrow> load 0 (nblocks * BLKDEV_BLKSIZE) data;
       (rc, dev) \<leftarrow> PutN D dev blkno nblocks d;
       if rc \<noteq> 0 then Some (False, dev)
       else do {
         (r, dev) \<leftarrow> WritePartialBlock D dev (u32 (blkno + nblocks)) 0 (rem - nblocks * BLKDEV_BLKSIZE)
                       (drop (nblocks * BLKDEV_BLKSIZE) data);
         Some (r \<noteq> None, dev)
       }
     }"

definition Ext2Write :: "'s blkdev \<Rightarrow> 's \<Rightarrow> nat \<Rightarrow> bytes \<Rightarrow> nat \<Rightarrow> (bool \<times> 's) option" where
  "Ext2Write D dev offset data sz =
     (let blkno = u32 (offset div BLKDEV_BLKSIZE);
          rem = u32 sz
      in if offset mod BLKDEV_BLKSIZE \<noteq> 0 then
           do {
             (r, dev) \<leftarrow> WritePartialBlock D dev blkno offset rem data;
             (case r of
                None \<Rightarrow> Some (False, dev)
              | Some n \<Rightarrow> write_blocks D dev (u32 (blkno + 1)) (drop n data) (rem - n))
           }
         else write_blocks D dev blkno data rem)"

subsection \<open>On a device that is a byte array\<close>

lemma overwrite_in_slice:
  assumes "off + k \<le> length xs" "p + length d \<le> k"
  shows "overwrite off (overwrite p d (slice off k xs)) xs = overwrite (off + p) d xs"
  using assms by (intro nth_equalityI) (auto simp: nth_overwrite nth_slice)

lemma overwrite_adjacent:
  assumes "off + length a + length b \<le> length xs"
  shows "overwrite (off + length a) b (overwrite off a xs) = overwrite off (a @ b) xs"
  using assms by (simp add: overwrite_def ac_simps)

lemma first_sector_end:
  assumes "min (512 - off mod 512) n \<noteq> n"
  shows "off + min (512 - off mod 512) n = (off div 512 + 1) * (512 :: nat)"
proof -
  have arith: "q * 512 + r + (512 - r) = (q + 1) * 512" if "r < 512" for q r :: nat using that by simp
  have "min (512 - off mod 512) n = 512 - off mod 512" using assms by simp
  with arith [of "off mod 512" "off div 512"] show ?thesis by (simp only: div_mult_mod_eq)
qed

context blkdev_image
begin

lemma GetN_ready:
  assumes "inv s" "ready s" "(b + n) * 512 \<le> length (image s)"
  obtains s' where "GetN D s b n = Some (0, slice (b * 512) (n * 512) (image s), s')" "inv s'" "ready s'" "image s' = image s"
  using GetN_image [OF assms(1,3)] assms(2) by auto

lemma PutN_ready:
  assumes "inv s" "ready s" "(b + n) * 512 \<le> length (image s)" "length d = n * 512"
  obtains s' where "PutN D s b n d = Some (0, s')" "inv s'" "ready s'" "image s' = overwrite (b * 512) d (image s)"
  using PutN_image [OF assms(1,3,4)] assms(2) by auto

lemma sector_in:
  assumes "inv s" "off + n \<le> length (image s)" "0 < n"
  shows "(off div 512 + 1) * 512 \<le> length (image s)"
proof -
  from image_aligned [OF assms(1)] obtain k where "length (image s) = 512 * k" by (elim dvdE)
  with assms(2,3) have "off < k * 512" by simp
  then have "off div 512 < k" by (rule less_mult_imp_div_less)
  then have "(off div 512 + 1) * 512 \<le> k * 512" by (intro mult_le_mono1) simp
  with \<open>length (image s) = 512 * k\<close> show ?thesis by simp
qed

lemma ReadPartialBlock_image:
  assumes "inv s" "ready s" "b * 512 + offset mod 512 + n \<le> length (image s)" "n < 2 ^ 32"
  shows "\<exists>s'. ReadPartialBlock D s b offset n =
      Some (Some (slice (b * 512 + offset mod 512) (min (512 - offset mod 512) n) (image s)), s') \<and>
    inv s' \<and> ready s' \<and> image s' = image s"
proof (cases "n = 0")
  case False
  let ?o = "offset mod 512"
  have o: "?o < 512" by simp
  have "(b * 512 + ?o) div 512 = b" using o by simp
  with sector_in [OF assms(1,3)] False have full: "(b + 1) * 512 \<le> length (image s)" by simp
  obtain s' where s': "GetN D s b 1 = Some (0, slice (b * 512) (1 * 512) (image s), s')" "inv s'" "ready s'" "image s' = image s"
    using GetN_ready [OF assms(1,2) full] .
  have "load ?o (min (512 - ?o) n) (slice (b * 512) 512 (image s)) =
      Some (slice (b * 512 + ?o) (min (512 - ?o) n) (image s))"
    using full o by (simp add: load_def slice_slice)
  moreover have "Ext2Min (512 - ?o) n = min (512 - ?o) n" by (simp add: Ext2Min_def min_def)
  ultimately show ?thesis
    using s' False assms(4) by (simp add: ReadPartialBlock_def BLKDEV_BLKSIZE_def Let_def)
qed (use assms in \<open>simp add: ReadPartialBlock_def\<close>)

lemma read_blocks_image:
  assumes "inv s" "ready s" "b * 512 + n \<le> length (image s)" "n < 2 ^ 32" "length (image s) < 2 ^ 41"
  shows "\<exists>s'. read_blocks D s b n = Some (Some (slice (b * 512) n (image s)), s') \<and> inv s' \<and> ready s' \<and> image s' = image s"
proof -
  let ?k = "n div 512"
  have le: "b * 512 + ?k * 512 + (n - ?k * 512) = b * 512 + n" by simp
  have bk: "(b + ?k) * 512 \<le> length (image s)" using assms(3) le by (simp add: algebra_simps)
  obtain s1 where s1: "GetN D s b ?k = Some (0, slice (b * 512) (?k * 512) (image s), s1)" "inv s1" "ready s1" "image s1 = image s"
    using GetN_ready [OF assms(1,2) bk] .
  have "b + ?k < 2 ^ 32" using bk assms(5) by simp
  then have u: "u32 (b + ?k) = b + ?k" by simp
  have "(b + ?k) * 512 + 0 mod 512 + (n - ?k * 512) \<le> length (image s1)" "n - ?k * 512 < 2 ^ 32"
    using assms(3,4) s1(4) le by (simp_all add: algebra_simps)
  from ReadPartialBlock_image [OF s1(2,3) this] obtain s2 where
    s2: "ReadPartialBlock D s1 (b + ?k) 0 (n - ?k * 512) =
          Some (Some (slice ((b + ?k) * 512) (min 512 (n - ?k * 512)) (image s)), s2)"
      "inv s2" "ready s2" "image s2 = image s" using s1(4) by auto
  have "min 512 (n - ?k * 512) = n - ?k * 512"
    using mod_less_divisor [of 512 n] by (simp add: minus_div_mult_eq_mod)
  moreover have "slice (b * 512) n (image s) =
      slice (b * 512) (?k * 512) (image s) @ slice ((b + ?k) * 512) (n - ?k * 512) (image s)"
    using slice_split [of "b * 512" "?k * 512" "n - ?k * 512" "image s"] by (simp add: algebra_simps)
  ultimately show ?thesis
    using s1 s2 u by (simp add: read_blocks_def BLKDEV_BLKSIZE_def Let_def)
qed

text \<open>What is left of a range after the rest of its first sector.\<close>

lemma tail_in:
  assumes "inv s" "off + n \<le> length (image s)" "0 < n"
  defines "m \<equiv> min (512 - off mod 512) n"
  shows "(off div 512 + 1) * 512 + (n - m) \<le> length (image s)"
    and "slice off m xs @ slice ((off div 512 + 1) * 512) (n - m) xs = slice off n xs"
proof -
  have *: "off + m = (off div 512 + 1) * 512" if "\<not> n \<le> 512 - off mod 512"
    unfolding m_def by (rule first_sector_end) (use that in simp)
  show "(off div 512 + 1) * 512 + (n - m) \<le> length (image s)"
  proof (cases "n \<le> 512 - off mod 512")
    case True
    then have "n - m = 0" by (simp add: m_def)
    with sector_in [OF assms(1,2,3)] show ?thesis by simp
  next
    case False
    have "(off div 512 + 1) * 512 + (n - m) = off + n" using *[OF False] by (metis add.assoc le_add_diff_inverse m_def min.cobounded2)
    with assms(2) show ?thesis by simp
  qed
  show "slice off m xs @ slice ((off div 512 + 1) * 512) (n - m) xs = slice off n xs"
  proof (cases "n \<le> 512 - off mod 512")
    case True
    then have "m = n" by (simp add: m_def)
    then show ?thesis by simp
  next
    case False
    have "m \<le> n" by (simp add: m_def)
    with slice_split [of off m "n - m" xs] *[OF False] show ?thesis by simp
  qed
qed

lemma Read_image:
  assumes "inv s" "ready s" "off + n \<le> length (image s)" "n < 2 ^ 32" "length (image s) < 2 ^ 41" "0 < n"
  shows "\<exists>s'. Ext2Read D s off n = Some (Some (slice off n (image s)), s') \<and> inv s' \<and> ready s' \<and> image s' = image s"
proof -
  let ?b = "off div 512"
  have off: "off = ?b * 512 + off mod 512" by simp
  have b: "?b < 2 ^ 32" "u32 ?b = ?b" using assms(3,5) by auto
  show ?thesis
  proof (cases "off mod 512 = 0")
    case True
    then have off': "off = ?b * 512" using off by linarith
    then show ?thesis
      using read_blocks_image [OF assms(1,2), of ?b n] assms(3-) b True
      by (simp add: Ext2Read_def BLKDEV_BLKSIZE_def)
  next
    case False
    define m where "m = min (512 - off mod 512) n"
    have mn: "m \<le> n" by (simp add: m_def)
    have "?b * 512 + off mod 512 + n \<le> length (image s)" using assms(3) by simp
    from ReadPartialBlock_image [OF assms(1,2) this assms(4)] obtain s1 where
      s1: "ReadPartialBlock D s ?b off n = Some (Some (slice off m (image s)), s1)" "inv s1" "ready s1" "image s1 = image s"
      unfolding m_def by auto
    have len: "length (slice off m (image s)) = m" using assms(3) mn by simp
    have u: "u32 (?b + 1) = ?b + 1"
      using sector_in [OF assms(1,3,6)] assms(5) by simp
    note tail = tail_in [OF assms(1,3,6), folded m_def]
    have le: "(?b + 1) * 512 + (n - m) \<le> length (image s1)" using tail(1) s1(4) by simp
    have "n - m < 2 ^ 32" "length (image s1) < 2 ^ 41" using assms(4,5) s1(4) by simp_all
    from read_blocks_image [OF s1(2,3) le this] obtain s2 where
      s2: "read_blocks D s1 (?b + 1) (n - m) = Some (Some (slice ((?b + 1) * 512) (n - m) (image s)), s2)"
        "inv s2" "ready s2" "image s2 = image s" unfolding s1(4) by blast
    have "Ext2Read D s off n = Some (Some (slice off m (image s) @ slice ((?b + 1) * 512) (n - m) (image s)), s2)"
      by (simp only: Ext2Read_def BLKDEV_BLKSIZE_def Let_def False b(2) u32_small [OF assms(4)] s1(1) s2(1) u len
          option.case bind.bind_lunit prod.case if_True not_False_eq_True option.map simp_thms)
    with s2 show ?thesis unfolding tail(2) by blast
  qed
qed

lemma WritePartialBlock_image:
  assumes "inv s" "ready s" "b * 512 + offset mod 512 + n \<le> length (image s)" "n < 2 ^ 32" "n \<le> length data"
  defines "m \<equiv> min (512 - offset mod 512) n"
  shows "\<exists>s'. WritePartialBlock D s b offset n data = Some (Some m, s') \<and> inv s' \<and> ready s' \<and>
    image s' = overwrite (b * 512 + offset mod 512) (take m data) (image s)"
proof (cases "n = 0")
  case False
  define p where "p = offset mod 512"
  have p: "p < 512" by (simp add: p_def)
  have "(b * 512 + p) div 512 = b" using p by simp
  with sector_in [OF assms(1,3)] False have full: "(b + 1) * 512 \<le> length (image s)" by (simp add: p_def)
  obtain s1 where s1: "GetN D s b 1 = Some (0, slice (b * 512) (1 * 512) (image s), s1)" "inv s1" "ready s1" "image s1 = image s"
    using GetN_ready [OF assms(1,2) full] .
  let ?d = "take m data"
  let ?blk = "overwrite p ?d (slice (b * 512) 512 (image s))"
  have m: "m \<le> n" "p + m \<le> 512" using p by (simp_all add: m_def p_def)
  have d: "length ?d = m" "load 0 m data = Some ?d" using m assms(5) by (simp_all add: load_def slice_def)
  have blk: "length (slice (b * 512) 512 (image s)) = 512" using full by simp
  then have st: "store p ?d (slice (b * 512) 512 (image s)) = Some ?blk" "length ?blk = 1 * 512"
    using m d by (simp_all add: store_def)
  have "(b + 1) * 512 \<le> length (image s1)" using full s1(4) by simp
  from PutN_ready [OF s1(2,3) this st(2)] obtain s2 where
    s2: "PutN D s1 b 1 ?blk = Some (0, s2)" "inv s2" "ready s2" "image s2 = overwrite (b * 512) ?blk (image s)"
    unfolding s1(4) .
  have "image s2 = overwrite (b * 512 + p) ?d (image s)"
    unfolding s2(4) by (rule overwrite_in_slice) (use full m d in simp_all)
  moreover have "Ext2Min (512 - p) (u32 n) = m" using assms(4) by (simp add: Ext2Min_def m_def p_def min_def)
  then have "WritePartialBlock D s b offset n data = Some (Some m, s2)"
    using False s1(1) s2(1) d(2) st(1) by (simp add: WritePartialBlock_def BLKDEV_BLKSIZE_def Let_def p_def [symmetric])
  ultimately show ?thesis using s2 unfolding p_def by blast
qed (use assms in \<open>simp add: WritePartialBlock_def\<close>)

lemma write_blocks_image:
  assumes "inv s" "ready s" "b * 512 + n \<le> length (image s)" "n < 2 ^ 32" "n \<le> length data" "length (image s) < 2 ^ 41"
  shows "\<exists>s'. write_blocks D s b data n = Some (True, s') \<and> inv s' \<and> ready s' \<and>
    image s' = overwrite (b * 512) (take n data) (image s)"
proof -
  define k where "k = n div 512"
  have kn: "k * 512 \<le> n" by (simp add: k_def)
  let ?d = "take (k * 512) data"
  have d: "length ?d = k * 512" "load 0 (k * 512) data = Some ?d" using kn assms(5) by (simp_all add: load_def slice_def)
  have bk: "(b + k) * 512 \<le> length (image s)" using assms(3) kn by simp
  obtain s1 where s1: "PutN D s b k ?d = Some (0, s1)" "inv s1" "ready s1" "image s1 = overwrite (b * 512) ?d (image s)"
    using PutN_ready [OF assms(1,2) bk d(1)] .
  have len1: "length (image s1) = length (image s)" using s1(4) d(1) bk by simp
  have u: "u32 (b + k) = b + k" using bk assms(6) by simp
  let ?rest = "drop (k * 512) data"
  have r: "(b + k) * 512 + 0 mod 512 + (n - k * 512) \<le> length (image s1)" "n - k * 512 < 2 ^ 32" "n - k * 512 \<le> length ?rest"
    using assms(3,4,5) kn len1 by simp_all
  have "n - k * 512 < 512" using mod_less_divisor [of 512 n] by (simp add: k_def minus_div_mult_eq_mod)
  then have mm: "min (512 - 0 mod 512) (n - k * 512) = n - k * 512" by simp
  from WritePartialBlock_image [OF s1(2,3) r] obtain s2 where
    s2: "WritePartialBlock D s1 (b + k) 0 (n - k * 512) ?rest = Some (Some (n - k * 512), s2)" "inv s2" "ready s2"
      "image s2 = overwrite (b * 512 + length ?d) (take (n - k * 512) ?rest) (image s1)"
    unfolding mm d(1) by (auto simp: algebra_simps)
  have "?d @ take (n - k * 512) ?rest = take n data"
    using kn by (metis le_add_diff_inverse take_add)
  then have "image s2 = overwrite (b * 512) (take n data) (image s)"
    unfolding s2(4) s1(4) using assms(3,5) kn d(1) by (subst overwrite_adjacent) simp_all
  moreover have "write_blocks D s b data n = Some (True, s2)"
    using s1(1) s2(1) d(2) u by (simp add: write_blocks_def BLKDEV_BLKSIZE_def Let_def k_def [symmetric])
  ultimately show ?thesis using s2 by blast
qed

lemma Write_image:
  assumes "inv s" "ready s" "off + n \<le> length (image s)" "n < 2 ^ 32" "n \<le> length data" "length (image s) < 2 ^ 41" "0 < n"
  shows "\<exists>s'. Ext2Write D s off data n = Some (True, s') \<and> inv s' \<and> ready s' \<and>
    image s' = overwrite off (take n data) (image s)"
proof -
  let ?b = "off div 512"
  have off: "?b * 512 + off mod 512 = off" by simp
  have b: "?b < 2 ^ 32" "u32 ?b = ?b" using assms(3,6) by auto
  show ?thesis
  proof (cases "off mod 512 = 0")
    case True
    then have off': "?b * 512 = off" using off by linarith
    have "?b * 512 + n \<le> length (image s)" using assms(3) off' by simp
    from write_blocks_image [OF assms(1,2) this assms(4,5,6)] True b assms(4) show ?thesis
      unfolding off' by (simp add: Ext2Write_def BLKDEV_BLKSIZE_def)
  next
    case False
    define m where "m = min (512 - off mod 512) n"
    have mn: "m \<le> n" by (simp add: m_def)
    have "?b * 512 + off mod 512 + n \<le> length (image s)" using assms(3) by simp
    from WritePartialBlock_image [OF assms(1,2) this assms(4,5)] obtain s1 where
      s1: "WritePartialBlock D s ?b off n data = Some (Some m, s1)" "inv s1" "ready s1" "image s1 = overwrite off (take m data) (image s)"
      unfolding m_def off by auto
    have d: "length (take m data) = m" using mn assms(5) by simp
    have len1: "length (image s1) = length (image s)" using s1(4) d mn assms(3) by simp
    have u: "u32 (?b + 1) = ?b + 1"
      using sector_in [OF assms(1,3,7)] assms(6) by simp
    note tail = tail_in [OF assms(1,3,7), folded m_def]
    have le: "(?b + 1) * 512 + (n - m) \<le> length (image s1)" using tail(1) len1 by simp
    have "n - m < 2 ^ 32" "n - m \<le> length (drop m data)" "length (image s1) < 2 ^ 41" using assms(4,5,6) len1 by simp_all
    from write_blocks_image [OF s1(2,3) le this] obtain s2 where
      s2: "write_blocks D s1 (?b + 1) (drop m data) (n - m) = Some (True, s2)" "inv s2" "ready s2"
        "image s2 = overwrite ((?b + 1) * 512) (take (n - m) (drop m data)) (image s1)" by blast
    have w: "Ext2Write D s off data n = Some (True, s2)"
      by (simp only: Ext2Write_def BLKDEV_BLKSIZE_def Let_def False b(2) u32_small [OF assms(4)] s1(1) s2(1) u
          option.case bind.bind_lunit prod.case if_True not_False_eq_True simp_thms)
    have "image s2 = overwrite off (take n data) (image s)"
    proof (cases "m = n")
      case True
      then show ?thesis using s2(4) s1(4) by simp
    next
      case nm: False
      have "(?b + 1) * 512 = off + length (take m data)"
        using first_sector_end [of off n, folded m_def] nm d by simp
      moreover have "take m data @ take (n - m) (drop m data) = take n data"
        using mn by (metis le_add_diff_inverse take_add)
      ultimately show ?thesis
        unfolding s2(4) s1(4) using assms(3,5) mn by (simp only:) (subst overwrite_adjacent, simp_all)
    qed
    with w s2 show ?thesis by blast
  qed
qed

end

end
