(* ===== verification/Ext2Blocks.thy ===== *)
theory Ext2Blocks
  imports Ext2Io BubbleSort
begin

text \<open>
  Blocks, bitmaps, groups and inodes (\<open>lsvmutils/ext2.c\<close>): the numbering of blocks and inodes,
  the block numbers of a file, the free lists, the superblock and the group descriptors.
\<close>

definition fs_read :: "'s blkdev \<Rightarrow> EXT2Err \<Rightarrow> nat \<Rightarrow> nat \<Rightarrow> ('s, bytes) ext2_op" where
  "fs_read D err off n = (\<lambda>e. case Ext2Read D (fs_dev e) off n of
       None \<Rightarrow> None
     | Some (None, s) \<Rightarrow> Some (Inl err, e\<lparr>fs_dev := s\<rparr>)
     | Some (Some d, s) \<Rightarrow> Some (Inr d, e\<lparr>fs_dev := s\<rparr>))"

definition fs_write :: "'s blkdev \<Rightarrow> EXT2Err \<Rightarrow> nat \<Rightarrow> bytes \<Rightarrow> nat \<Rightarrow> ('s, unit) ext2_op" where
  "fs_write D err off data n = (\<lambda>e. case Ext2Write D (fs_dev e) off data n of
       None \<Rightarrow> None
     | Some (ok, s) \<Rightarrow> Some (if ok then Inr () else Inl err, e\<lparr>fs_dev := s\<rparr>))"

subsection \<open>Bits\<close>

definition CountBits :: "byte \<Rightarrow> nat" where
  "CountBits b = length (filter (\<lambda>i. b AND push_bit i 1 \<noteq> 0) [0..<8])"

definition CountBitsN :: "bytes \<Rightarrow> nat \<Rightarrow> nat option" where
  "CountBitsN data sz = map_option (\<lambda>d. u32 (sum_list (map CountBits d))) (load 0 sz data)"

definition TestBit :: "bytes \<Rightarrow> nat \<Rightarrow> nat \<Rightarrow> bool option" where
  "TestBit data sz index =
     (let b = index div 8; i = index mod 8
      in if b \<ge> sz then Some False
         else if b < length data then Some ((data ! b) AND push_bit i 1 \<noteq> 0)
         else None)"

definition SetBit :: "bytes \<Rightarrow> nat \<Rightarrow> nat \<Rightarrow> bytes option" where
  "SetBit data sz index =
     (let b = index div 8; i = index mod 8
      in if b \<ge> sz then Some data
         else if b < length data then Some (data[b := (data ! b) OR push_bit i 1])
         else None)"

definition ClearBit :: "bytes \<Rightarrow> nat \<Rightarrow> nat \<Rightarrow> bytes option" where
  "ClearBit data sz index =
     (let b = index div 8; i = index mod 8
      in if b \<ge> sz then Some data
         else if b < length data then Some (data[b := (data ! b) AND NOT (push_bit i 1)])
         else None)"

subsection \<open>Block numbers\<close>

text \<open>The product is a \<open>UINT32\<close>.\<close>

definition BlockOffset :: "nat \<Rightarrow> nat \<Rightarrow> nat" where
  "BlockOffset blkno block_size = u32 (blkno * block_size)"

definition MakeBlkno :: "'s ext2 \<Rightarrow> nat \<Rightarrow> nat \<Rightarrow> nat" where
  "MakeBlkno e grpno lblkno = u32 (u32 (grpno * s_blocks_per_group (fs_sb e)) + (lblkno + s_first_data_block (fs_sb e)))"

definition BloknoToGrpno :: "'s ext2 \<Rightarrow> nat \<Rightarrow> nat option" where
  "BloknoToGrpno e blkno =
     (let first = s_first_data_block (fs_sb e)
      in if first \<noteq> 0 \<and> blkno = 0 then Some 0
         else if s_blocks_per_group (fs_sb e) = 0 then None
         else Some (u32 (usub64 blkno first div s_blocks_per_group (fs_sb e))))"

definition BlknoToLblkno :: "'s ext2 \<Rightarrow> nat \<Rightarrow> nat option" where
  "BlknoToLblkno e blkno =
     (let first = s_first_data_block (fs_sb e)
      in if first \<noteq> 0 \<and> blkno = 0 then Some 0
         else if s_blocks_per_group (fs_sb e) = 0 then None
         else Some (u32 (usub64 blkno first mod s_blocks_per_group (fs_sb e))))"

definition EXT2BlknoToLBA :: "'s ext2 \<Rightarrow> nat \<Rightarrow> nat" where
  "EXT2BlknoToLBA e blkno = BlockOffset blkno (fs_block_size e) div BLKDEV_BLKSIZE"

subsection \<open>Blocks\<close>

definition ReadBlocks :: "'s blkdev \<Rightarrow> nat \<Rightarrow> nat \<Rightarrow> buf \<Rightarrow> ('s, buf) ext2_op" where
  "ReadBlocks D blkno nblks buf =
     andthen (reads id) (\<lambda>e.
     if \<not> EXT2Valid e then fails EXT2_ERR_INVALID_PARAMETER
     else (let nbytes = u32 (nblks * fs_block_size e)
       in andthen (with_error EXT2_ERR_FAILED (with_heap (\<lambda>h. Some (BufReserve h buf (u64 (buf_size buf + nbytes)))))) (\<lambda>buf.
          andthen (fs_read D EXT2_ERR_READ_FAILED (BlockOffset blkno (fs_block_size e)) nbytes) (\<lambda>d.
          andthen (access (store (buf_size buf) d (buf_data buf))) (\<lambda>m.
          success (buf\<lparr>buf_data := m, buf_size := u64 (buf_size buf + nbytes)\<rparr>))))))"

definition EXT2ReadBlock :: "'s blkdev \<Rightarrow> nat \<Rightarrow> ('s, ext2_block) ext2_op" where
  "EXT2ReadBlock D blkno =
     andthen (reads id) (\<lambda>e.
     if \<not> EXT2Valid e then fails EXT2_ERR_INVALID_PARAMETER
     else if fs_block_size e > EXT2_MAX_BLOCK_SIZE then fails EXT2_ERR_BUFFER_OVERFLOW
     else
       andthen (fs_read D EXT2_ERR_READ_FAILED (BlockOffset blkno (fs_block_size e)) (fs_block_size e)) (\<lambda>d.
       success \<lparr>blk_data = d @ replicate (EXT2_MAX_BLOCK_SIZE - length d) 0xAA, blk_size = fs_block_size e\<rparr>))"

definition EXT2WriteBlock :: "'s blkdev \<Rightarrow> nat \<Rightarrow> ext2_block \<Rightarrow> ('s, unit) ext2_op" where
  "EXT2WriteBlock D blkno block =
     andthen (reads id) (\<lambda>e.
     if \<not> EXT2Valid e then fails EXT2_ERR_INVALID_PARAMETER
     else if blk_size block > fs_block_size e then fails EXT2_ERR_BUFFER_OVERFLOW
     else
       andthen (access (load 0 (blk_size block) (blk_data block))) (\<lambda>d.
       fs_write D EXT2_ERR_WRITE_FAILED (BlockOffset blkno (fs_block_size e)) d (blk_size block)))"

subsection \<open>The block numbers of an inode\<close>

text \<open>An array of \<open>UINT32\<close> in memory.\<close>

definition u32s :: "bytes \<Rightarrow> nat list" where
  "u32s bs = map (\<lambda>i. le_nat (slice (4 * i) 4 bs)) [0..<length bs div 4]"

definition u32_bytes :: "nat list \<Rightarrow> bytes" where
  "u32_bytes xs = concat (map (nat_le 4) xs)"

text \<open>The used part of such an array ends at the first zero.\<close>

definition AppendDirectBlockNumbers :: "nat list \<Rightarrow> nat \<Rightarrow> buf \<Rightarrow> ('s, buf) ext2_op" where
  "AppendDirectBlockNumbers blocks num_blocks buf =
     (let n = length (takeWhile (\<lambda>b. b \<noteq> 0) (take num_blocks blocks))
      in if n = 0 then success buf
         else with_heap (\<lambda>h. BufU32Append h buf (Some (u32_bytes blocks)) n))"

text \<open>The loop over the used part, which reads each block and hands its numbers to \<open>f\<close>.\<close>

fun each_block :: "'s blkdev \<Rightarrow> (nat list \<Rightarrow> nat \<Rightarrow> buf \<Rightarrow> ('s, buf) ext2_op) \<Rightarrow> nat list \<Rightarrow> buf \<Rightarrow> ('s, buf) ext2_op" where
  "each_block D f [] buf = success buf"
| "each_block D f (block_no # rest) buf =
     (if block_no = 0 then success buf
      else
        andthen (EXT2ReadBlock D block_no) (\<lambda>block.
        andthen (f (u32s (blk_data block)) (blk_size block div 4) buf) (\<lambda>buf.
        each_block D f rest buf)))"

definition AppendIndirectBlockNumbers :: "'s blkdev \<Rightarrow> bool \<Rightarrow> nat list \<Rightarrow> nat \<Rightarrow> buf \<Rightarrow> ('s, buf) ext2_op" where
  "AppendIndirectBlockNumbers D include_block_blocks blocks num_blocks buf =
     andthen (if include_block_blocks then AppendDirectBlockNumbers blocks num_blocks buf else success buf) (\<lambda>buf.
     each_block D AppendDirectBlockNumbers (take num_blocks blocks) buf)"

definition AppendDoubleIndirectBlockNumbers :: "'s blkdev \<Rightarrow> bool \<Rightarrow> nat list \<Rightarrow> nat \<Rightarrow> buf \<Rightarrow> ('s, buf) ext2_op" where
  "AppendDoubleIndirectBlockNumbers D include_block_blocks blocks num_blocks buf =
     andthen (if include_block_blocks then AppendDirectBlockNumbers blocks num_blocks buf else success buf) (\<lambda>buf.
     each_block D (AppendIndirectBlockNumbers D include_block_blocks) (take num_blocks blocks) buf)"

text \<open>One of the three indirect blocks of an inode.\<close>

definition through_block ::
  "'s blkdev \<Rightarrow> bool \<Rightarrow> (nat list \<Rightarrow> nat \<Rightarrow> buf \<Rightarrow> ('s, buf) ext2_op) \<Rightarrow> nat \<Rightarrow> buf \<Rightarrow> ('s, buf) ext2_op" where
  "through_block D include_block_blocks f block_no buf =
     (if block_no = 0 then success buf
      else
        andthen (EXT2ReadBlock D block_no) (\<lambda>block.
        andthen (if include_block_blocks then with_heap (\<lambda>h. BufU32Append h buf (Some (u32_bytes [block_no])) 1)
                 else success buf) (\<lambda>buf.
        f (u32s (blk_data block)) (blk_size block div 4) buf)))"

definition LoadBlockNumbersFromInode :: "'s blkdev \<Rightarrow> bytes \<Rightarrow> bool \<Rightarrow> buf \<Rightarrow> ('s, buf) ext2_op" where
  "LoadBlockNumbersFromInode D inode include_block_blocks buf =
     andthen (reads id) (\<lambda>e.
     if \<not> EXT2Valid e then fails EXT2_ERR_INVALID_PARAMETER
     else
       andthen (AppendDirectBlockNumbers (i_block inode) EXT2_SINGLE_INDIRECT_BLOCK buf) (\<lambda>buf.
       andthen (through_block D include_block_blocks AppendDirectBlockNumbers
                  (i_block inode ! EXT2_SINGLE_INDIRECT_BLOCK) buf) (\<lambda>buf.
       andthen (through_block D include_block_blocks (AppendIndirectBlockNumbers D include_block_blocks)
                  (i_block inode ! EXT2_DOUBLE_INDIRECT_BLOCK) buf) (\<lambda>buf.
       through_block D include_block_blocks (AppendDoubleIndirectBlockNumbers D include_block_blocks)
                  (i_block inode ! EXT2_TRIPLE_INDIRECT_BLOCK) buf))))"

text \<open>The elements of a \<open>BufU32\<close>.\<close>

definition blknos_of :: "buf \<Rightarrow> nat list" where
  "blknos_of b = take (buf_size b) (u32s (buf_data b))"

end
