(* ===== verification/Ext2Alloc.thy ===== *)
theory Ext2Alloc
  imports Ext2Blocks
begin

text \<open>
  The superblock, the group descriptors, the bitmaps and the free lists (\<open>lsvmutils/ext2.c\<close>):
  \<open>_GetBlock\<close> and \<open>_GetIno\<close> take the first clear bit of the bitmaps, \<open>_PutBlocks\<close> clears the
  bits of a list of blocks. The counters in the superblock and in the group descriptors are
  \<open>UINT32\<close> and \<open>UINT16\<close>, and wrap.
\<close>

subsection \<open>The superblock and the groups\<close>

definition ReadSuperBlock :: "'s blkdev \<Rightarrow> ('s, bytes) ext2_op" where
  "ReadSuperBlock D = fs_read D EXT2_ERR_FAILED EXT2_BASE_OFFSET (struct_size superblock_layout)"

definition WriteSuperBlock :: "'s blkdev \<Rightarrow> ('s, unit) ext2_op" where
  "WriteSuperBlock D =
     andthen (reads fs_sb) (\<lambda>sb.
     fs_write D EXT2_ERR_FAILED EXT2_BASE_OFFSET sb (struct_size superblock_layout))"

text \<open>The element \<open>groups[grpno]\<close>.\<close>

definition group_at :: "'s ext2 \<Rightarrow> nat \<Rightarrow> bytes option" where
  "group_at e grpno = load (grpno * struct_size group_layout) (struct_size group_layout) (fs_groups e)"

definition group_update :: "(bytes \<Rightarrow> bytes) \<Rightarrow> nat \<Rightarrow> ('s, unit) ext2_op" where
  "group_update f grpno =
     andthen (reads id) (\<lambda>e.
     andthen (access (group_at e grpno)) (\<lambda>g.
     andthen (access (store (grpno * struct_size group_layout) (f g) (fs_groups e))) (\<lambda>gs.
     updates (\<lambda>e. e\<lparr>fs_groups := gs\<rparr>))))"

definition group_table_blkno :: "'s ext2 \<Rightarrow> nat" where
  "group_table_blkno e = (if fs_block_size e = 1024 then 2 else 1)"

definition ReadGroups :: "'s blkdev \<Rightarrow> ('s, bytes) ext2_op" where
  "ReadGroups D =
     andthen (reads id) (\<lambda>e.
     if \<not> EXT2Valid e then fails EXT2_ERR_INVALID_PARAMETER
     else (let groups_size = u32 (fs_group_count e * struct_size group_layout)
       in andthen (allocate EXT2_ERR_FAILED (\<lambda>h. Malloc h groups_size)) (\<lambda>groups.
          andthen (access (store 0 (replicate groups_size 0xAA) groups)) (\<lambda>groups.
          andthen (fs_read D EXT2_ERR_FAILED (BlockOffset (group_table_blkno e) (fs_block_size e)) groups_size) (\<lambda>d.
          access (store 0 d groups))))))"

definition WriteGroup :: "'s blkdev \<Rightarrow> nat \<Rightarrow> ('s, unit) ext2_op" where
  "WriteGroup D grpno =
     andthen (reads id) (\<lambda>e.
     if \<not> EXT2Valid e then fails EXT2_ERR_INVALID_PARAMETER
     else
       andthen (access (group_at e grpno)) (\<lambda>g.
       fs_write D EXT2_ERR_WRITE_FAILED
         (u64 (BlockOffset (group_table_blkno e) (fs_block_size e) + grpno * struct_size group_layout))
         g (struct_size group_layout)))"

subsection \<open>Bitmaps\<close>

text \<open>
  The bitmap of a group is the block that the descriptor names, cut to the bits in use. The
  check of the group number lets \<open>group_count\<close> itself through.
\<close>

definition read_bitmap :: "'s blkdev \<Rightarrow> (bytes \<Rightarrow> nat) \<Rightarrow> (bytes \<Rightarrow> nat) \<Rightarrow> nat \<Rightarrow> ('s, ext2_block) ext2_op" where
  "read_bitmap D per_group bitmap group_index =
     andthen (reads id) (\<lambda>e.
     if \<not> EXT2Valid e then fails EXT2_ERR_INVALID_PARAMETER
     else if group_index > fs_group_count e then fails EXT2_ERR_BAD_GRPNO
     else
       andthen (access (group_at e group_index)) (\<lambda>g.
       andthen (EXT2ReadBlock D (bitmap g)) (\<lambda>block.
       (let bitmap_size_bytes = per_group (fs_sb e) div 8
        in success (if blk_size block > bitmap_size_bytes then block\<lparr>blk_size := bitmap_size_bytes\<rparr> else block)))))"

definition write_bitmap :: "'s blkdev \<Rightarrow> (bytes \<Rightarrow> nat) \<Rightarrow> (bytes \<Rightarrow> nat) \<Rightarrow> nat \<Rightarrow> ext2_block \<Rightarrow> ('s, unit) ext2_op" where
  "write_bitmap D per_group bitmap group_index block =
     andthen (reads id) (\<lambda>e.
     if \<not> EXT2Valid e then fails EXT2_ERR_INVALID_PARAMETER
     else if blk_size block \<noteq> per_group (fs_sb e) div 8 then fails EXT2_ERR_BAD_SIZE
     else if group_index > fs_group_count e then fails EXT2_ERR_BAD_GRPNO
     else
       andthen (access (group_at e group_index)) (\<lambda>g.
       EXT2WriteBlock D (bitmap g) block))"

definition EXT2ReadBlockBitmap :: "'s blkdev \<Rightarrow> nat \<Rightarrow> ('s, ext2_block) ext2_op" where
  "EXT2ReadBlockBitmap D = read_bitmap D s_blocks_per_group bg_block_bitmap"

definition EXT2WriteBlockBitmap :: "'s blkdev \<Rightarrow> nat \<Rightarrow> ext2_block \<Rightarrow> ('s, unit) ext2_op" where
  "EXT2WriteBlockBitmap D = write_bitmap D s_blocks_per_group bg_block_bitmap"

definition EXT2readReadInodeBitmap :: "'s blkdev \<Rightarrow> nat \<Rightarrow> ('s, ext2_block) ext2_op" where
  "EXT2readReadInodeBitmap D = read_bitmap D s_inodes_per_group bg_inode_bitmap"

text \<open>The static \<open>_WriteBlockBitmap\<close> writes the bitmap of inodes.\<close>

definition WriteInodeBitmap :: "'s blkdev \<Rightarrow> nat \<Rightarrow> ext2_block \<Rightarrow> ('s, unit) ext2_op" where
  "WriteInodeBitmap D = write_bitmap D s_inodes_per_group bg_inode_bitmap"

subsection \<open>Taking a block or an inode\<close>

text \<open>The first clear bit: \<open>n\<close> bits from \<open>i\<close> on are left.\<close>

fun find_clear :: "bytes \<Rightarrow> nat \<Rightarrow> nat \<Rightarrow> nat \<Rightarrow> nat option option" where
  "find_clear data sz 0 i = Some None"
| "find_clear data sz (Suc n) i =
     do {
       b \<leftarrow> TestBit data sz i;
       if \<not> b then Some (Some i) else find_clear data sz n (Suc i)
     }"

text \<open>
  The search over the groups, \<open>n\<close> groups from \<open>grpno\<close> on being left: the number that \<open>number\<close> gives
  to the first clear bit, its group, and the bitmap with the bit set. A number of 0 lets the
  search go on.
\<close>

fun scan_groups ::
  "(nat \<Rightarrow> ('s, ext2_block) ext2_op) \<Rightarrow> ('s ext2 \<Rightarrow> nat \<Rightarrow> nat \<Rightarrow> nat) \<Rightarrow> nat \<Rightarrow> nat \<Rightarrow>
   ('s, (nat \<times> nat \<times> ext2_block) option) ext2_op" where
  "scan_groups readmap number 0 grpno = success None"
| "scan_groups readmap number (Suc n) grpno =
     andthen (readmap grpno) (\<lambda>bitmap.
     andthen (access (find_clear (blk_data bitmap) (blk_size bitmap) (blk_size bitmap * 8) 0)) (\<lambda>r.
     case r of
       None \<Rightarrow> scan_groups readmap number n (Suc grpno)
     | Some i \<Rightarrow>
         andthen (access (SetBit (blk_data bitmap) (blk_size bitmap) i)) (\<lambda>d.
         andthen (reads (\<lambda>e. number e grpno i)) (\<lambda>no.
         if no \<noteq> 0 then success (Some (no, grpno, bitmap\<lparr>blk_data := d\<rparr>))
         else scan_groups readmap number n (Suc grpno)))))"

definition free_blocks_add :: "nat \<Rightarrow> bytes \<Rightarrow> bytes" where
  "free_blocks_add d sb = set_field superblock_layout ''s_free_blocks_count'' (u32 (s_free_blocks_count sb + d)) sb"

definition group_free_blocks_add :: "nat \<Rightarrow> bytes \<Rightarrow> bytes" where
  "group_free_blocks_add d g = set_field group_layout ''bg_free_blocks_count'' ((bg_free_blocks_count g + d) mod 2 ^ 16) g"

definition free_inodes_add :: "nat \<Rightarrow> bytes \<Rightarrow> bytes" where
  "free_inodes_add d sb = set_field superblock_layout ''s_free_inodes_count'' (u32 (s_free_inodes_count sb + d)) sb"

definition group_free_inodes_add :: "nat \<Rightarrow> bytes \<Rightarrow> bytes" where
  "group_free_inodes_add d g = set_field group_layout ''bg_free_inodes_count'' ((bg_free_inodes_count g + d) mod 2 ^ 16) g"

text \<open>
  When no bit is clear the functions return the code of the last read, which succeeded: the
  result is \<open>EXT2_ERR_NONE\<close> with the number 0. Only a file system without groups gives an error.
\<close>

definition GetBlock :: "'s blkdev \<Rightarrow> ('s, nat) ext2_op" where
  "GetBlock D =
     andthen (reads fs_group_count) (\<lambda>n.
     andthen (scan_groups (EXT2ReadBlockBitmap D) MakeBlkno n 0) (\<lambda>r.
     case r of
       None \<Rightarrow> if n = 0 then fails EXT2_ERR_FAILED else success 0
     | Some (blkno, grpno, bitmap) \<Rightarrow>
         andthen (updates (\<lambda>e. e\<lparr>fs_sb := free_blocks_add (2 ^ 32 - 1) (fs_sb e)\<rparr>)) (\<lambda>_.
         andthen (WriteSuperBlock D) (\<lambda>_.
         andthen (group_update (group_free_blocks_add (2 ^ 16 - 1)) grpno) (\<lambda>_.
         andthen (WriteGroup D grpno) (\<lambda>_.
         andthen (EXT2WriteBlockBitmap D grpno bitmap) (\<lambda>_.
         success blkno)))))))"

subsection \<open>Returning blocks\<close>

definition CheckBlockNumber :: "nat \<Rightarrow> nat \<Rightarrow> nat \<Rightarrow> ('s, unit) ext2_op" where
  "CheckBlockNumber blkno grpno lblkno =
     andthen (reads id) (\<lambda>e.
     if MakeBlkno e grpno lblkno \<noteq> blkno then fails EXT2_ERR_BAD_BLKNO
     else if grpno > fs_group_count e then fails EXT2_ERR_BAD_GRPNO
     else success ())"

definition WriteGroubWithBitmap :: "'s blkdev \<Rightarrow> nat \<Rightarrow> ext2_block \<Rightarrow> ('s, unit) ext2_op" where
  "WriteGroubWithBitmap D grpno bitmap =
     andthen (WriteGroup D grpno) (\<lambda>_. EXT2WriteBlockBitmap D grpno bitmap)"

text \<open>
  The blocks are sorted first: by \<open>_Sort\<close> in the EFI build, by the C library's \<open>qsort\<close> otherwise
  (the comparison is the order of the integers, so the result is the sorted list). \<open>_Sort\<close> is the
  bubble sort of \<open>BubbleSort\<close> over \<open>nblks - 1\<close>, which wraps for an empty array and takes the
  loop out of it.
\<close>

definition CompareUint32 :: "nat \<Rightarrow> nat \<Rightarrow> int" where
  "CompareUint32 v1 v2 = (if v1 < v2 then -1 else if v1 > v2 then 1 else 0)"

definition Ext2Sort :: "nat list \<Rightarrow> nat list option" where
  "Ext2Sort blks =
     (if length blks = 0 then None
      else bubble_loop (\<lambda>x y. Some (if x > y then 1 else 0)) (length blks - 1) (length blks - 1) blks)"

definition sort_blknos :: "bool \<Rightarrow> nat list \<Rightarrow> nat list option" where
  "sort_blknos build_efi blks = (if build_efi then Ext2Sort blks else Some (sort blks))"

text \<open>The loop: \<open>cur\<close> is the previous group with its bitmap, none at \<open>i = 0\<close>.\<close>

fun PutBlocks_loop :: "'s blkdev \<Rightarrow> (nat \<times> ext2_block) option \<Rightarrow> nat list \<Rightarrow> ('s, unit) ext2_op" where
  "PutBlocks_loop D cur [] = success ()"
| "PutBlocks_loop D cur (blkno # rest) =
     andthen (reads id) (\<lambda>e.
     andthen (access (BloknoToGrpno e blkno)) (\<lambda>grpno.
     andthen (access (BlknoToLblkno e blkno)) (\<lambda>lblkno.
     andthen (CheckBlockNumber blkno grpno lblkno) (\<lambda>_.
     andthen (case cur of
                None \<Rightarrow> EXT2ReadBlockBitmap D grpno
              | Some (prevgrpno, bitmap) \<Rightarrow>
                  if prevgrpno \<noteq> grpno then
                    andthen (WriteGroubWithBitmap D prevgrpno bitmap) (\<lambda>_. EXT2ReadBlockBitmap D grpno)
                  else success bitmap) (\<lambda>bitmap.
     andthen (access (TestBit (blk_data bitmap) (blk_size bitmap) lblkno)) (\<lambda>used.
     if \<not> used then fails EXT2_ERR_SANITY_CHECK_FAILED
     else
       andthen (access (ClearBit (blk_data bitmap) (blk_size bitmap) lblkno)) (\<lambda>d.
       andthen (updates (\<lambda>e. e\<lparr>fs_sb := free_blocks_add 1 (fs_sb e)\<rparr>)) (\<lambda>_.
       andthen (group_update (group_free_blocks_add 1) grpno) (\<lambda>_.
       andthen (if rest = [] then WriteGroubWithBitmap D grpno (bitmap\<lparr>blk_data := d\<rparr>) else success ()) (\<lambda>_.
       PutBlocks_loop D (Some (grpno, bitmap\<lparr>blk_data := d\<rparr>)) rest))))))))))"

definition PutBlocks :: "bool \<Rightarrow> 's blkdev \<Rightarrow> nat list \<Rightarrow> ('s, unit) ext2_op" where
  "PutBlocks build_efi D blknos =
     andthen (allocate EXT2_ERR_OUT_OF_MEMORY (\<lambda>h. Malloc h (length blknos * 4))) (\<lambda>temp.
     if length temp < length blknos * 4 then undefined_op
     else
       andthen (access (sort_blknos build_efi blknos)) (\<lambda>temp.
       andthen (PutBlocks_loop D None temp) (\<lambda>_.
       WriteSuperBlock D)))"

subsection \<open>Inodes\<close>

definition MakeIno :: "'s ext2 \<Rightarrow> nat \<Rightarrow> nat \<Rightarrow> nat" where
  "MakeIno e grpno lino = u32 (u32 (grpno * s_inodes_per_group (fs_sb e)) + (lino + 1))"

definition InoToGrpno :: "'s ext2 \<Rightarrow> nat \<Rightarrow> nat option" where
  "InoToGrpno e ino =
     (if ino = 0 then Some 0
      else if s_inodes_per_group (fs_sb e) = 0 then None
      else Some ((ino - 1) div s_inodes_per_group (fs_sb e)))"

definition InoToLino :: "'s ext2 \<Rightarrow> nat \<Rightarrow> nat option" where
  "InoToLino e ino =
     (if ino = 0 then Some 0
      else if s_inodes_per_group (fs_sb e) = 0 then None
      else Some ((ino - 1) mod s_inodes_per_group (fs_sb e)))"

definition GetIno :: "'s blkdev \<Rightarrow> ('s, nat) ext2_op" where
  "GetIno D =
     andthen (reads fs_group_count) (\<lambda>n.
     andthen (scan_groups (EXT2readReadInodeBitmap D) MakeIno n 0) (\<lambda>r.
     case r of
       None \<Rightarrow> if n = 0 then fails EXT2_ERR_FAILED else success 0
     | Some (ino, grpno, bitmap) \<Rightarrow>
         andthen (updates (\<lambda>e. e\<lparr>fs_sb := free_inodes_add (2 ^ 32 - 1) (fs_sb e)\<rparr>)) (\<lambda>_.
         andthen (WriteSuperBlock D) (\<lambda>_.
         andthen (group_update (group_free_inodes_add (2 ^ 16 - 1)) grpno) (\<lambda>_.
         andthen (WriteGroup D grpno) (\<lambda>_.
         andthen (WriteInodeBitmap D grpno bitmap) (\<lambda>_.
         success ino)))))))"

text \<open>
  The place of an inode on the disk. (Outside the EFI build the code also asserts that \<open>MakeIno\<close> is
  the inverse of the two divisions.)
\<close>

definition inode_offset :: "'s ext2 \<Rightarrow> nat \<Rightarrow> nat option" where
  "inode_offset e ino =
     do {
       lino \<leftarrow> InoToLino e ino;
       grpno \<leftarrow> InoToGrpno e ino;
       group \<leftarrow> group_at e grpno;
       Some (u64 (BlockOffset (bg_inode_table group) (fs_block_size e) + u32 (lino * s_inode_size (fs_sb e))))
     }"

text \<open>
  The bytes on the disk replace the first bytes of the object \<open>old\<close>, which may be longer. The
  callers' objects are uninitialised but for the one in \<open>EXT2New\<close>.
\<close>

definition read_inode_into :: "'s blkdev \<Rightarrow> nat \<Rightarrow> bytes \<Rightarrow> ('s, bytes) ext2_op" where
  "read_inode_into D ino old =
     andthen (reads id) (\<lambda>e.
     if ino = 0 then fails EXT2_ERR_BAD_INO
     else
       andthen (access (inode_offset e ino)) (\<lambda>offset.
       andthen (fs_read D EXT2_ERR_FAILED offset (s_inode_size (fs_sb e))) (\<lambda>d.
       access (store 0 d old))))"

text \<open>An uninitialised object of \<open>n\<close> bytes.\<close>

definition junk :: "'s ext2 \<Rightarrow> nat \<Rightarrow> bytes" where
  "junk e n = map (fs_junk e) [0..<n]"

definition EXT2ReadInode :: "'s blkdev \<Rightarrow> nat \<Rightarrow> ('s, bytes) ext2_op" where
  "EXT2ReadInode D ino =
     andthen (reads (\<lambda>e. junk e (struct_size inode_layout))) (\<lambda>inode. read_inode_into D ino inode)"

definition WriteInode :: "'s blkdev \<Rightarrow> nat \<Rightarrow> bytes \<Rightarrow> ('s, unit) ext2_op" where
  "WriteInode D ino inode =
     andthen (reads id) (\<lambda>e.
     andthen (access (inode_offset e ino)) (\<lambda>offset.
     andthen (access (load 0 (s_inode_size (fs_sb e)) inode)) (\<lambda>d.
     fs_write D EXT2_ERR_FAILED offset d (s_inode_size (fs_sb e)))))"

definition EXT2GetFirstBlkno :: "'s blkdev \<Rightarrow> nat \<Rightarrow> ('s, nat) ext2_op" where
  "EXT2GetFirstBlkno D ino =
     andthen (with_error EXT2_ERR_FAILED (EXT2ReadInode D ino)) (\<lambda>inode.
     success (i_block inode ! 0))"

end
