(* ===== verification/PathElements.thy ===== *)
theory PathElements
  imports StrArr
begin

text \<open>
  The components of a path, as \<open>EXT2PathToIno\<close> (ext2.c) and \<open>VFATStatFile\<close> (vfat.c) collect them with
  the same loop over \<open>Strtok\<close>: pointers into a copy of the path, at most 32 with the leading \<open>/\<close>. The
  inner \<open>None\<close> is the exit for too many components.
\<close>

definition NELEMENTS :: nat where
  "NELEMENTS = 32"

function path_elements :: "bytes option \<Rightarrow> bytes option \<Rightarrow> bytes list \<Rightarrow> bytes list option option" where
  "path_elements str save elements =
     (case Strtok str (ascii ''/'' @ [0]) save of
        None \<Rightarrow> None
      | Some (None, save') \<Rightarrow> Some (Some elements)
      | Some (Some p, save') \<Rightarrow>
          if length elements = NELEMENTS then Some None
          else path_elements None save' (elements @ [p @ [0]]))"
  by pat_completeness auto
termination
  by (relation "measure (\<lambda>(str, save, elements). strtok_left str save)") (auto dest: Strtok_shrinks)

declare path_elements.simps [simp del]

lemma path_elements_spec:
  assumes "strtok_src str save t" "0 \<notin> set t" "length els \<le> NELEMENTS"
  shows "path_elements str save els =
    Some (let ts = tokens (is_delim (ascii ''/'' @ [0])) t in
      if length els + length ts \<le> NELEMENTS then Some (els @ map (\<lambda>p. p @ [0]) ts) else None)"
  using assms
proof (induction str save els arbitrary: t rule: path_elements.induct)
  case (1 str save els)
  note step = Strtok_step [OF "1.prems"(1,2), of "ascii ''/'' @ [0]"]
  show ?case
  proof (cases "tokens (is_delim (ascii ''/'' @ [0])) t")
    case Nil
    with step obtain sv where "Strtok str (ascii ''/'' @ [0]) save = Some (None, sv)" by auto
    with Nil "1.prems"(3) show ?thesis by (subst path_elements.simps) auto
  next
    case (Cons tok ts)
    with step obtain sv t2 where st: "Strtok str (ascii ''/'' @ [0]) save = Some (Some tok, sv)" "strtok_src None sv t2" "0 \<notin> set t2"
      "tokens (is_delim (ascii ''/'' @ [0])) t2 = ts" by auto
    show ?thesis
    proof (cases "length els = NELEMENTS")
      case True
      then show ?thesis using st(1) Cons by (subst path_elements.simps) simp
    next
      case False
      from "1.IH" [OF st(1) refl refl False st(2,3)] False "1.prems"(3) st(1,4) Cons
      show ?thesis by (subst path_elements.simps) (simp add: Let_def)
    qed
  qed
qed

end
