(* ===== verification/Ext2Dir.thy ===== *)
theory Ext2Dir
  imports Ext2Alloc PathElements
begin

text \<open>
  Mounting, files and directories (\<open>lsvmutils/ext2.c\<close>): loading a file from its inode, iterating
  over the entries of a directory, and finding the inode of a path.

  A loaded file is the block of memory that holds it and the size in the inode; an empty block
  is a null pointer. A directory entry on the disk is read through its first eight bytes,
  the members before \<open>name\<close>.
\<close>

definition EXT2_FT_REG_FILE :: nat where
  "EXT2_FT_REG_FILE = 1"

definition EXT2_FT_DIR :: nat where
  "EXT2_FT_DIR = 2"

definition EXT2_DT_DIR :: nat where
  "EXT2_DT_DIR = 4"

text \<open>\<open>EXT2_FT_\<close> values to \<open>EXT2_DT_\<close> values: the switch of \<open>EXT2ReadDir\<close>.\<close>

definition dt_of_ft :: "nat \<Rightarrow> nat" where
  "dt_of_ft ft =
     (if ft = 0 then 0
      else if ft = EXT2_FT_REG_FILE then 8
      else if ft = EXT2_FT_DIR then EXT2_DT_DIR
      else if ft = 3 then 2
      else if ft = 4 then 6
      else if ft = 5 then 1
      else if ft = 6 then 12
      else if ft = 7 then 10
      else 0)"

subsection \<open>Files\<close>

text \<open>The number of consecutive blocks at the front of the list.\<close>

fun run_length :: "nat list \<Rightarrow> nat" where
  "run_length (x # y # rest) = (if y = u32 (x + 1) then Suc (run_length (y # rest)) else 1)"
| "run_length _ = 1"

text \<open>
  A failure to read one block is an error of the function. A failure of \<open>_ReadBlocks\<close> is not
  recorded in \<open>err\<close>: the function gives up with the code of the last successful call, and
  its outputs are a null pointer and a size of 0. That case is \<open>None\<close>.
\<close>

function (sequential) load_runs :: "'s blkdev \<Rightarrow> nat list \<Rightarrow> buf \<Rightarrow> ('s, buf option) ext2_op" where
  "load_runs D [] buf = success (Some buf)"
| "load_runs D (blkno # rest) buf =
     (let nblks = run_length (blkno # rest)
      in if nblks = 1 then
           andthen (EXT2ReadBlock D blkno) (\<lambda>block.
           andthen (with_heap (\<lambda>h. BufAppend h buf (Some (blk_data block)) (blk_size block))) (\<lambda>buf.
           load_runs D rest buf))
         else
           andthen (attempt (ReadBlocks D blkno nblks buf)) (\<lambda>r.
           case r of
             Inl err \<Rightarrow> success None
           | Inr buf \<Rightarrow> load_runs D (drop (nblks - 1) rest) buf))"
  by pat_completeness auto
termination
  by (relation "measure (\<lambda>(D, blknos, buf). length blknos)") auto

definition EXT2LoadFileFromInode :: "'s blkdev \<Rightarrow> bytes \<Rightarrow> ('s, bytes \<times> nat) ext2_op" where
  "EXT2LoadFileFromInode D inode =
     andthen (reads id) (\<lambda>e.
     if \<not> EXT2Valid e then fails EXT2_ERR_INVALID_PARAMETER
     else
       andthen (LoadBlockNumbersFromInode D inode False BufInit) (\<lambda>blknos.
       andthen (load_runs D (blknos_of blknos) BufInit) (\<lambda>r.
       case r of
         None \<Rightarrow> success ([], 0)
       | Some buf \<Rightarrow> success (buf_data buf, i_size inode))))"

subsection \<open>Directories\<close>

text \<open>
  The entry at an offset of the data: the members before its name, and those of them up to its two
  lengths, which is what a loop over the entries reads.
\<close>

definition entry_at :: "bytes \<Rightarrow> nat \<Rightarrow> bytes option" where
  "entry_at data p = load p 8 data"

definition entry_lengths :: "bytes \<Rightarrow> nat \<Rightarrow> bytes option" where
  "entry_lengths data p = load p 7 data"

text \<open>This loop does not end at an entry whose record length is 0: it is then \<open>None\<close>.\<close>

partial_function (option) count_entries :: "bytes \<Rightarrow> nat \<Rightarrow> nat \<Rightarrow> nat \<Rightarrow> (nat \<times> nat) option" where
  "count_entries data limit p cnt =
     (if p < limit then
        do {
          ent \<leftarrow> entry_lengths data p;
          count_entries data limit (p + de_rec_len ent) (if de_name_len ent \<noteq> 0 then u32 (cnt + 1) else cnt)
        }
      else Some (p, cnt))"

declare count_entries.simps [code]

definition CountDirectoryEntries :: "bytes \<Rightarrow> nat \<Rightarrow> ('s, nat) ext2_op" where
  "CountDirectoryEntries data sz =
     andthen (reads id) (\<lambda>e.
     if \<not> EXT2Valid e \<or> data = [] \<or> sz = 0 then fails EXT2_ERR_INVALID_PARAMETER
     else if fs_block_size e = 0 then undefined_op
     else if sz mod fs_block_size e \<noteq> 0 then fails EXT2_ERR_BAD_MULTIPLE
     else
       andthen (access (count_entries data sz 0 0)) (\<lambda>(p, cnt).
       if p \<noteq> sz then fails EXT2_ERR_EXTRANEOUS_DATA else success cnt))"

text \<open>\<open>EXT2_DIR\<close>; \<open>next\<close> is an offset into the data.\<close>

record ext2_dir =
  dir_data :: bytes
  dir_size :: nat
  dir_next :: nat
  dir_ent :: bytes

text \<open>A function that returns a null pointer for every error.\<close>

definition or_null :: "('s, 'a) ext2_op \<Rightarrow> ('s, 'a option) ext2_op" where
  "or_null m = andthen (attempt m) (\<lambda>r. case r of Inl err \<Rightarrow> success None | Inr x \<Rightarrow> success (Some x))"

definition EXT2OpenDirIno :: "'s blkdev \<Rightarrow> nat \<Rightarrow> ('s, ext2_dir option) ext2_op" where
  "EXT2OpenDirIno D ino =
     or_null (
       if ino = 0 then fails EXT2_ERR_FAILED
       else
         andthen (EXT2ReadInode D ino) (\<lambda>inode.
         andthen (require (and (i_mode inode) EXT2_S_IFDIR \<noteq> 0) EXT2_ERR_FAILED) (\<lambda>_.
         andthen (allocate EXT2_ERR_FAILED (\<lambda>h. Calloc h 1 (24 + struct_size dent_layout + 4))) (\<lambda>_.
         andthen (EXT2LoadFileFromInode D inode) (\<lambda>(data, sz).
         success \<lparr>dir_data = data, dir_size = sz, dir_next = 0, dir_ent = replicate (struct_size dent_layout) 0\<rparr>)))))"

text \<open>The \<open>EXT2DirEnt\<close> that \<open>EXT2ReadDir\<close> fills in for the entry at \<open>p\<close>.\<close>

definition fill_dent :: "bytes \<Rightarrow> nat \<Rightarrow> bytes \<Rightarrow> bytes option" where
  "fill_dent data p ent =
     do {
       de \<leftarrow> entry_at data p;
       let ent = set_field dent_layout ''d_ino'' (de_inode de) ent;
       let ent = set_field dent_layout ''d_off'' 0 ent;
       let ent = set_field dent_layout ''d_reclen'' (struct_size dent_layout) ent;
       let ent = set_field dent_layout ''d_type'' (dt_of_ft (de_file_type de)) ent;
       name \<leftarrow> store 0 [0] (d_name ent);
       name \<leftarrow> Strncat name EXT2_PATH_MAX (drop (p + 8) data) (Ext2Min (EXT2_PATH_MAX - 1) (de_name_len de));
       store (fst (field_at dent_layout ''d_name'')) name ent
     }"

function ReadDir_loop :: "ext2_dir \<Rightarrow> (bytes option \<times> ext2_dir) option" where
  "ReadDir_loop dir =
     (if dir_next dir < dir_size dir then
        (case entry_lengths (dir_data dir) (dir_next dir) of
           None \<Rightarrow> None
         | Some de \<Rightarrow>
             if de_rec_len de = 0 then Some (None, dir)
             else if de_name_len de > 0 then
               (case fill_dent (dir_data dir) (dir_next dir) (dir_ent dir) of
                  None \<Rightarrow> None
                | Some ent \<Rightarrow> Some (Some ent, dir\<lparr>dir_ent := ent, dir_next := dir_next dir + de_rec_len de\<rparr>))
             else ReadDir_loop (dir\<lparr>dir_next := dir_next dir + de_rec_len de\<rparr>))
      else Some (None, dir))"
  by pat_completeness auto
termination
  by (relation "measure (\<lambda>dir. dir_size dir - dir_next dir)") auto

declare ReadDir_loop.simps [simp del]

definition EXT2ReadDir :: "ext2_dir \<Rightarrow> (bytes option \<times> ext2_dir) option" where
  "EXT2ReadDir dir = (if dir_data dir = [] then Some (None, dir) else ReadDir_loop dir)"

lemma ReadDir_advances:
  "EXT2ReadDir dir = Some (Some ent, dir') \<Longrightarrow>
     dir_next dir < dir_next dir' \<and> dir_size dir' = dir_size dir \<and> dir_next dir < dir_size dir"
proof -
  have "ReadDir_loop dir = Some (Some ent, dir') \<Longrightarrow>
     dir_next dir < dir_next dir' \<and> dir_size dir' = dir_size dir \<and> dir_next dir < dir_size dir"
  proof (induction dir rule: ReadDir_loop.induct)
    case (1 dir)
    from 1(2) show ?case
      by (subst (asm) ReadDir_loop.simps) (auto split: if_splits option.splits dest!: 1(1))
  qed
  then show "EXT2ReadDir dir = Some (Some ent, dir') \<Longrightarrow>
     dir_next dir < dir_next dir' \<and> dir_size dir' = dir_size dir \<and> dir_next dir < dir_size dir"
    by (simp add: EXT2ReadDir_def split: if_splits)
qed

text \<open>The loops over all entries end because every entry moves \<open>next\<close> on.\<close>

function list_entries :: "heap \<Rightarrow> ext2_dir \<Rightarrow> buf \<Rightarrow> (int \<times> buf \<times> heap) option" where
  "list_entries h dir buf =
     (case EXT2ReadDir dir of
        None \<Rightarrow> None
      | Some (None, dir') \<Rightarrow> Some (0, buf, h)
      | Some (Some ent, dir') \<Rightarrow>
          (case BufAppend h buf (Some ent) (struct_size dent_layout) of
             None \<Rightarrow> None
           | Some (rc, buf', h') \<Rightarrow> if rc \<noteq> 0 then Some (rc, buf', h') else list_entries h' dir' buf'))"
  by pat_completeness auto
termination
  by (relation "measure (\<lambda>(h, dir, buf). dir_size dir - dir_next dir)") (auto dest!: ReadDir_advances)

declare list_entries.simps [simp del]

definition EXT2ListDirInode :: "'s blkdev \<Rightarrow> nat \<Rightarrow> ('s, bytes \<times> nat) ext2_op" where
  "EXT2ListDirInode D ino =
     (if ino = 0 then fails EXT2_ERR_INVALID_PARAMETER
      else
        andthen (EXT2OpenDirIno D ino) (\<lambda>r.
        case r of
          None \<Rightarrow> fails EXT2_ERR_FAILED
        | Some dir \<Rightarrow>
            andthen (with_heap (\<lambda>h. list_entries h dir BufInit)) (\<lambda>buf.
            success (buf_data buf, buf_size buf div struct_size dent_layout))))"

subsection \<open>Paths\<close>

text \<open>The search of the entries for a component; in front of the last one only directories count.\<close>

fun find_entry :: "bytes \<Rightarrow> bool \<Rightarrow> bytes \<Rightarrow> nat \<Rightarrow> nat \<Rightarrow> nat option" where
  "find_entry name is_last entries 0 j = Some 0"
| "find_entry name is_last entries (Suc n) j =
     do {
       ent \<leftarrow> load (j * struct_size dent_layout) (struct_size dent_layout) entries;
       if is_last \<or> d_type ent = EXT2_DT_DIR then
         do {
           c \<leftarrow> posix_strcmp (d_name ent) name;
           if c = 0 then Some (d_ino ent) else find_entry name is_last entries n (Suc j)
         }
       else find_entry name is_last entries n (Suc j)
     }"

fun walk_path :: "'s blkdev \<Rightarrow> bytes list \<Rightarrow> nat \<Rightarrow> ('s, nat) ext2_op" where
  "walk_path D [] current_ino = success current_ino"
| "walk_path D (name # rest) current_ino =
     andthen (access (posix_strcmp name (ascii ''/'' @ [0]))) (\<lambda>c.
     if c = 0 then walk_path D rest EXT2_ROOT_INO
     else
       andthen (EXT2ListDirInode D current_ino) (\<lambda>(entries, nentries).
       andthen (access (find_entry name (rest = []) entries nentries 0)) (\<lambda>ino.
       if ino = 0 then fails EXT2_ERR_FILE_NOT_FOUND
       else walk_path D rest ino)))"

definition EXT2PathToIno :: "'s blkdev \<Rightarrow> bytes \<Rightarrow> ('s, nat) ext2_op" where
  "EXT2PathToIno D path =
     andthen (access (posix_strlen path)) (\<lambda>len.
     if len \<ge> EXT2_PATH_MAX then fails EXT2_ERR_PATH_TOO_LONG
     else
       andthen (reads (\<lambda>e. junk e EXT2_PATH_MAX)) (\<lambda>buf.
       andthen (access (Strlcpy buf path EXT2_PATH_MAX)) (\<lambda>(n, buf).
       if path ! 0 \<noteq> chr (CHR ''/'') then fails EXT2_ERR_INVALID_PARAMETER
       else
         andthen (access (path_elements (Some buf) None [ascii ''/'' @ [0]])) (\<lambda>r.
         case r of
           None \<Rightarrow> fails EXT2_ERR_BUFFER_OVERFLOW
         | Some elements \<Rightarrow> walk_path D elements 0))))"

definition EXT2PathToInode :: "'s blkdev \<Rightarrow> bytes \<Rightarrow> ('s, nat \<times> bytes) ext2_op" where
  "EXT2PathToInode D path =
     andthen (EXT2PathToIno D path) (\<lambda>ino.
     andthen (EXT2ReadInode D ino) (\<lambda>inode.
     success (ino, inode)))"

definition EXT2OpenDir :: "'s blkdev \<Rightarrow> bytes \<Rightarrow> ('s, ext2_dir option) ext2_op" where
  "EXT2OpenDir D path =
     andthen (or_null (EXT2PathToIno D path)) (\<lambda>r.
     case r of None \<Rightarrow> success None | Some ino \<Rightarrow> EXT2OpenDirIno D ino)"

definition EXT2LoadFileFromPath :: "'s blkdev \<Rightarrow> bytes \<Rightarrow> ('s, bytes \<times> nat) ext2_op" where
  "EXT2LoadFileFromPath D path =
     with_error EXT2_ERR_FAILED
       (andthen (EXT2PathToInode D path) (\<lambda>(ino, inode). EXT2LoadFileFromInode D inode))"

text \<open>\<open>_SplitFullPath\<close> writes two arrays of \<open>EXT2_PATH_MAX\<close> characters.\<close>

definition SplitFullPath :: "bytes \<Rightarrow> ('s, bytes \<times> bytes) ext2_op" where
  "SplitFullPath path =
     andthen (reads (\<lambda>e. junk e EXT2_PATH_MAX)) (\<lambda>buf.
     andthen (access (load 0 1 path)) (\<lambda>c.
     if c \<noteq> [chr (CHR ''/'')] then fails EXT2_ERR_FAILED
     else
       andthen (access (Strlcpy buf (ascii ''/'' @ [0]) EXT2_PATH_MAX)) (\<lambda>(n, root).
       andthen (access (posix_strcmp path (ascii ''/'' @ [0]))) (\<lambda>c.
       if c = 0 then success (root, root)
       else
         andthen (access (posix_strrchr path (chr (CHR ''/'')))) (\<lambda>r.
         case r of
           None \<Rightarrow> fails EXT2_ERR_FAILED
         | Some slash \<Rightarrow>
             if path ! (slash + 1) = 0 then fails EXT2_ERR_FAILED
             else
               andthen (if slash = 0 then success root
                        else
                          andthen (access (Strlcpy buf path EXT2_PATH_MAX)) (\<lambda>(n, dirname).
                          access (store (if slash < EXT2_PATH_MAX then slash else EXT2_PATH_MAX - 1) [0] dirname))) (\<lambda>dirname.
               andthen (access (Strlcpy buf (drop (slash + 1) path) EXT2_PATH_MAX)) (\<lambda>(n, basename).
               success (dirname, basename))))))))"

end
