(* ===== verification/Ext2Mount.thy ===== *)
theory Ext2Mount
  imports Ext2Dir
begin

text \<open>
  Opening, closing and checking a file system (\<open>EXT2New\<close>, \<open>EXT2Delete\<close> and \<open>EXT2Check\<close> of
  \<open>lsvmutils/ext2.c\<close>).
\<close>

subsection \<open>Opening and closing\<close>

text \<open>The object before the superblock is read: cleared, with its device.\<close>

definition new_ext2 :: "'s \<Rightarrow> heap \<Rightarrow> (nat \<Rightarrow> byte) \<Rightarrow> 's ext2" where
  "new_ext2 dev h j =
     \<lparr>fs_dev = dev, fs_sb = replicate (struct_size superblock_layout) 0, fs_block_size = 0, fs_group_count = 0,
      fs_groups = [], fs_root_inode = replicate (struct_size inode_layout) 0, fs_heap = h, fs_junk = j\<rparr>"

text \<open>
  A shift that leaves the range of \<open>int\<close> and a division by zero are undefined.
\<close>

definition mount :: "'s blkdev \<Rightarrow> ('s, unit) ext2_op" where
  "mount D =
     andthen (with_error EXT2_ERR_FAILED_TO_READ_SUPERBLOCK (ReadSuperBlock D)) (\<lambda>sb.
     andthen (updates (\<lambda>e. e\<lparr>fs_sb := sb\<rparr>)) (\<lambda>_.
     if s_magic sb \<noteq> EXT2_S_MAGIC then fails EXT2_ERR_BAD_MAGIC
     else if s_rev_level sb = EXT2_GOOD_OLD_REV then fails EXT2_ERR_UNSUPPORTED_REVISION
     else if s_rev_level sb < EXT2_DYNAMIC_REV then fails EXT2_ERR_UNSUPPORTED_REVISION
     else if s_inode_size sb > struct_size inode_layout then fails EXT2_ERR_UNEXPECTED
     else if s_log_block_size sb > 20 \<or> s_blocks_per_group sb = 0 then undefined_op
     else
       andthen (updates (\<lambda>e. e\<lparr>fs_block_size := 1024 * 2 ^ s_log_block_size sb,
                 fs_group_count := u32 (1 + u32 (s_blocks_count sb + 2 ^ 32 - 1) div s_blocks_per_group sb)\<rparr>)) (\<lambda>_.
       andthen (with_error EXT2_ERR_FAILED_TO_READ_GROUPS (ReadGroups D)) (\<lambda>groups.
       andthen (updates (\<lambda>e. e\<lparr>fs_groups := groups\<rparr>)) (\<lambda>_.
       andthen (reads fs_root_inode) (\<lambda>old.
       andthen (with_error EXT2_ERR_FAILED_TO_READ_INODE (read_inode_into D EXT2_ROOT_INO old)) (\<lambda>inode.
       updates (\<lambda>e. e\<lparr>fs_root_inode := inode\<rparr>))))))))"

text \<open>When the object cannot be allocated the code writes through the null pointer.\<close>

definition EXT2New :: "'s blkdev \<Rightarrow> 's \<Rightarrow> heap \<Rightarrow> (nat \<Rightarrow> byte) \<Rightarrow> ((EXT2Err + unit) \<times> 's ext2) option" where
  "EXT2New D dev h j =
     (case h 0 of
        None \<Rightarrow> None
      | Some _ \<Rightarrow> mount D (new_ext2 dev (heap_next h) j))"

definition EXT2Delete :: "'s blkdev \<Rightarrow> 's ext2 \<Rightarrow> 's option" where
  "EXT2Delete D e = map_option snd (Close D (fs_dev e))"

subsection \<open>Checking\<close>

text \<open>Bits, set bits and free counts over the groups.\<close>

fun bitmap_totals ::
  "(nat \<Rightarrow> ('s, ext2_block) ext2_op) \<Rightarrow> (bytes \<Rightarrow> nat) \<Rightarrow> nat \<Rightarrow> nat \<Rightarrow> nat \<Rightarrow> nat \<Rightarrow> nat \<Rightarrow> ('s, nat \<times> nat \<times> nat) ext2_op" where
  "bitmap_totals readmap freecount 0 i n nused nfree = success (n, nused, nfree)"
| "bitmap_totals readmap freecount (Suc k) i n nused nfree =
     andthen (reads id) (\<lambda>e.
     andthen (access (group_at e i)) (\<lambda>g.
     andthen (readmap i) (\<lambda>bitmap.
     andthen (access (CountBitsN (blk_data bitmap) (blk_size bitmap))) (\<lambda>c.
     bitmap_totals readmap freecount k (Suc i) (u32 (n + blk_size bitmap * 8)) (u32 (nused + c)) (u32 (nfree + freecount g))))))"

text \<open>The inodes of one group; \<open>False\<close> where the code jumps to \<open>done\<close>.\<close>

fun check_inodes :: "'s blkdev \<Rightarrow> nat \<Rightarrow> ext2_block \<Rightarrow> nat \<Rightarrow> nat \<Rightarrow> nat \<Rightarrow> ('s, bool \<times> nat) ext2_op" where
  "check_inodes D grpno bitmap 0 lino mbits = success (True, mbits)"
| "check_inodes D grpno bitmap (Suc k) lino mbits =
     andthen (access (TestBit (blk_data bitmap) (blk_size bitmap) lino)) (\<lambda>b.
     if \<not> b then check_inodes D grpno bitmap k (Suc lino) mbits
     else if lino + 1 < EXT2_FIRST_INO \<and> lino + 1 \<noteq> EXT2_ROOT_INO
     then check_inodes D grpno bitmap k (Suc lino) (u32 (mbits + 1))
     else
       andthen (reads (\<lambda>e. MakeIno e grpno lino)) (\<lambda>ino.
       andthen (EXT2ReadInode D ino) (\<lambda>inode.
       if i_mode inode = 0 then success (False, mbits)
       else if i_size inode \<noteq> 0 \<and> i_block inode ! 0 = 0 then success (False, mbits)
       else check_inodes D grpno bitmap k (Suc lino) (u32 (mbits + 1)))))"

fun check_tables :: "'s blkdev \<Rightarrow> nat \<Rightarrow> nat \<Rightarrow> nat \<Rightarrow> nat \<Rightarrow> ('s, bool \<times> nat \<times> nat) ext2_op" where
  "check_tables D 0 grpno nbits mbits = success (True, nbits, mbits)"
| "check_tables D (Suc k) grpno nbits mbits =
     andthen (EXT2readReadInodeBitmap D grpno) (\<lambda>bitmap.
     andthen (access (CountBitsN (blk_data bitmap) (blk_size bitmap))) (\<lambda>c.
     andthen (reads (\<lambda>e. s_inodes_per_group (fs_sb e))) (\<lambda>n.
     andthen (check_inodes D grpno bitmap n 0 mbits) (\<lambda>(ok, mbits).
     if \<not> ok then success (False, nbits, mbits)
     else check_tables D k (Suc grpno) (u32 (nbits + c)) mbits))))"

text \<open>
  A check that fails jumps to \<open>done\<close> with the code of the last call, which succeeded: the result
  of a failed check is \<open>EXT2_ERR_NONE\<close>, but for a file system with no groups.
\<close>

definition check_failed :: "('s, unit) ext2_op" where
  "check_failed = andthen (reads fs_group_count) (\<lambda>n. if n = 0 then fails EXT2_ERR_FAILED else success ())"

definition EXT2Check :: "'s blkdev \<Rightarrow> ('s, unit) ext2_op" where
  "EXT2Check D =
     andthen (reads id) (\<lambda>e.
     andthen (bitmap_totals (EXT2ReadBlockBitmap D) bg_free_blocks_count (fs_group_count e) 0 0 0 0) (\<lambda>(n, nused, nfree).
     if s_free_blocks_count (fs_sb e) \<noteq> nfree then check_failed
     else if s_free_blocks_count (fs_sb e) \<noteq> u32 (n + 2 ^ 32 - nused) then check_failed
     else
       andthen (bitmap_totals (EXT2readReadInodeBitmap D) bg_free_inodes_count (fs_group_count e) 0 0 0 0) (\<lambda>(n, nused, nfree).
       if s_free_inodes_count (fs_sb e) \<noteq> u32 (n + 2 ^ 32 - nused) then check_failed
       else if s_free_inodes_count (fs_sb e) \<noteq> nfree then check_failed
       else
         andthen (check_tables D (fs_group_count e) 0 0 0) (\<lambda>(ok, nbits, mbits).
         if \<not> ok then check_failed
         else if nbits \<noteq> mbits then check_failed
         else success ()))))"

end
