(* ===== verification/Ext2Write.thy ===== *)
theory Ext2Write
  imports Ext2Mount
begin

text \<open>
  The operations that change a file system (\<open>lsvmutils/ext2.c\<close>): truncating, updating, removing
  and creating files and directories. The flag \<open>build_efi\<close> selects the sort of the EFI build; the
  clock, which these functions read once for a new inode, is the argument \<open>t\<close>.
\<close>

definition set_i_block :: "nat \<Rightarrow> nat list \<Rightarrow> bytes \<Rightarrow> bytes" where
  "set_i_block i vs inode = overwrite (fst (field_at inode_layout ''i_block'') + 4 * i) (u32_bytes vs) inode"

subsection \<open>Truncating\<close>

text \<open>A directory is refused only after its block numbers were read, with the code of that success.\<close>

definition EXT2Trunc :: "bool \<Rightarrow> 's blkdev \<Rightarrow> bytes \<Rightarrow> ('s, unit) ext2_op" where
  "EXT2Trunc build_efi D path =
     andthen (SplitFullPath path) (\<lambda>(dirname, basename).
     andthen (EXT2PathToInode D dirname) (\<lambda>(dir_ino, dir_inode).
     andthen (EXT2PathToInode D path) (\<lambda>(file_ino, file_inode).
     andthen (LoadBlockNumbersFromInode D file_inode True BufInit) (\<lambda>blknos.
     if and (i_mode file_inode) EXT2_S_IFDIR \<noteq> 0 then success ()
     else
       andthen (PutBlocks build_efi D (blknos_of blknos)) (\<lambda>_.
       andthen (WriteInode D file_ino
                  (set_i_block 0 (replicate 15 0) (set_field inode_layout ''i_size'' 0 file_inode))) (\<lambda>_.
       WriteSuperBlock D))))))"

subsection \<open>Writing block numbers\<close>

definition WriteSingleDirectBlockNumbers :: "'s blkdev \<Rightarrow> nat list \<Rightarrow> ('s, nat) ext2_op" where
  "WriteSingleDirectBlockNumbers D blknos =
     andthen (reads id) (\<lambda>e.
     if \<not> EXT2Valid e \<or> length blknos = 0 then fails EXT2_ERR_INVALID_PARAMETER
     else if length blknos > fs_block_size e div 4 then fails EXT2_ERR_BUFFER_OVERFLOW
     else
       andthen (GetBlock D) (\<lambda>blkno.
       andthen (access (store 0 (u32_bytes blknos) (replicate EXT2_MAX_BLOCK_SIZE 0))) (\<lambda>d.
       andthen (EXT2WriteBlock D blkno \<lparr>blk_data = d, blk_size = fs_block_size e\<rparr>) (\<lambda>_.
       success blkno))))"

text \<open>
  The loop of \<open>_WriteIndirectBlockNumbers\<close>: pieces of at most \<open>n\<close> numbers are written by \<open>w\<close>, and
  the number of the block that holds each piece is stored in the array \<open>data\<close>. (A piece of
  no numbers is refused by \<open>w\<close>.)
\<close>

function write_pieces :: "nat \<Rightarrow> (nat list \<Rightarrow> ('s, nat) ext2_op) \<Rightarrow> nat list \<Rightarrow> nat \<Rightarrow> bytes \<Rightarrow> ('s, bytes) ext2_op" where
  "write_pieces n w p i data =
     (if p = [] then success data
      else if n = 0 then fails EXT2_ERR_INVALID_PARAMETER
      else
        andthen (w (take n p)) (\<lambda>blkno.
        andthen (access (store (4 * i) (nat_le 4 blkno) data)) (\<lambda>data.
        write_pieces n w (drop n p) (Suc i) data)))"
  by pat_completeness auto
termination
  by (relation "measure (\<lambda>(n, w, p, i, data). length p)") auto

declare write_pieces.simps [simp del]

definition blknos_per_block :: "'s ext2 \<Rightarrow> nat" where
  "blknos_per_block e = fs_block_size e div 4"

definition write_indirect :: "'s blkdev \<Rightarrow> nat \<Rightarrow> (nat list \<Rightarrow> ('s, nat) ext2_op) \<Rightarrow> nat list \<Rightarrow> ('s, nat) ext2_op" where
  "write_indirect D n w blknos =
     andthen (reads id) (\<lambda>e.
     andthen (GetBlock D) (\<lambda>blkno.
     andthen (write_pieces n w blknos 0 (replicate EXT2_MAX_BLOCK_SIZE 0)) (\<lambda>d.
     andthen (EXT2WriteBlock D blkno \<lparr>blk_data = d, blk_size = fs_block_size e\<rparr>) (\<lambda>_.
     success blkno))))"

definition WriteDoubleIndirect :: "'s blkdev \<Rightarrow> nat list \<Rightarrow> ('s, nat) ext2_op" where
  "WriteDoubleIndirect D blknos =
     andthen (reads id) (\<lambda>e.
     if \<not> EXT2Valid e \<or> length blknos = 0 then fails EXT2_ERR_INVALID_PARAMETER
     else if length blknos > u32 (blknos_per_block e * blknos_per_block e) then fails EXT2_ERR_BUFFER_OVERFLOW
     else write_indirect D (blknos_per_block e) (WriteSingleDirectBlockNumbers D) blknos)"

definition WriteIndirectBlockNumbers :: "'s blkdev \<Rightarrow> nat \<Rightarrow> nat list \<Rightarrow> ('s, nat) ext2_op" where
  "WriteIndirectBlockNumbers D indirection blknos =
     andthen (reads id) (\<lambda>e.
     if \<not> EXT2Valid e \<or> length blknos = 0 then fails EXT2_ERR_INVALID_PARAMETER
     else if indirection \<noteq> 2 \<and> indirection \<noteq> 3 then fails EXT2_ERR_UNEXPECTED
     else if indirection = 2 then WriteDoubleIndirect D blknos
     else write_indirect D (u32 (blknos_per_block e * blknos_per_block e)) (WriteDoubleIndirect D) blknos)"

subsection \<open>Writing data\<close>

text \<open>
  The inner loop of \<open>_WriteData\<close> over the bits of one group: \<open>k\<close> bits from \<open>lblkno\<close> on are left,
  \<open>i\<close> blocks are written. The local block is as long as what is copied into it.
\<close>

fun write_group_blocks ::
  "'s blkdev \<Rightarrow> bytes \<Rightarrow> nat \<Rightarrow> nat \<Rightarrow> nat \<Rightarrow> nat \<Rightarrow> nat \<Rightarrow> ext2_block \<Rightarrow> nat \<Rightarrow> buf \<Rightarrow>
   ('s, ext2_block \<times> nat \<times> buf) ext2_op" where
  "write_group_blocks D data nblks rem grpno 0 lblkno bitmap i blknos = success (bitmap, i, blknos)"
| "write_group_blocks D data nblks rem grpno (Suc k) lblkno bitmap i blknos =
     (if \<not> i < nblks then success (bitmap, i, blknos)
      else
        andthen (access (TestBit (blk_data bitmap) (blk_size bitmap) lblkno)) (\<lambda>used.
        if used then write_group_blocks D data nblks rem grpno k (Suc lblkno) bitmap i blknos
        else
          andthen (access (SetBit (blk_data bitmap) (blk_size bitmap) lblkno)) (\<lambda>d.
          andthen (reads id) (\<lambda>e.
          (let blkno = MakeBlkno e grpno lblkno;
               blksize = fs_block_size e;
               n = (if i + 1 = nblks \<and> rem \<noteq> 0 then rem else blksize)
           in
           andthen (with_heap (\<lambda>h. BufU32Append h blknos (Some (u32_bytes [blkno])) 1)) (\<lambda>blknos.
           andthen (access (load (u32 (i * blksize)) n data)) (\<lambda>src.
           if n > EXT2_MAX_BLOCK_SIZE then undefined_op
           else
             andthen (EXT2WriteBlock D blkno \<lparr>blk_data = src, blk_size = n\<rparr>) (\<lambda>_.
             andthen (updates (\<lambda>e. e\<lparr>fs_sb := free_blocks_add (2 ^ 32 - 1) (fs_sb e)\<rparr>)) (\<lambda>_.
             andthen (group_update (group_free_blocks_add (2 ^ 16 - 1)) grpno) (\<lambda>_.
             write_group_blocks D data nblks rem grpno k (Suc lblkno) (bitmap\<lparr>blk_data := d\<rparr>) (Suc i) blknos))))))))))"

text \<open>The outer loop: \<open>k\<close> groups from \<open>grpno\<close> on are left.\<close>

fun write_groups ::
  "'s blkdev \<Rightarrow> bytes \<Rightarrow> nat \<Rightarrow> nat \<Rightarrow> nat \<Rightarrow> nat \<Rightarrow> nat \<Rightarrow> buf \<Rightarrow> ('s, nat \<times> buf) ext2_op" where
  "write_groups D data nblks rem 0 grpno i blknos = success (i, blknos)"
| "write_groups D data nblks rem (Suc k) grpno i blknos =
     (if \<not> i < nblks then success (i, blknos)
      else
        andthen (EXT2ReadBlockBitmap D grpno) (\<lambda>bitmap.
        andthen (write_group_blocks D data nblks rem grpno (blk_size bitmap * 8) 0 bitmap i blknos) (\<lambda>(bitmap, i', blknos).
        andthen (if i' \<noteq> i then WriteGroubWithBitmap D grpno bitmap else success ()) (\<lambda>_.
        write_groups D data nblks rem k (Suc grpno) i' blknos))))"

text \<open>
  When the groups are full before the data is written, the result is the code of the last call,
  which succeeded: \<open>EXT2_ERR_NONE\<close> with the blocks written so far.
\<close>

definition WriteData :: "'s blkdev \<Rightarrow> bytes \<Rightarrow> nat \<Rightarrow> buf \<Rightarrow> ('s, buf) ext2_op" where
  "WriteData D data sz blknos =
     andthen (reads id) (\<lambda>e.
     if fs_block_size e = 0 then undefined_op
     else
       (let blksize = fs_block_size e;
            nblks = u32 (sz + blksize + 2 ^ 32 - 1) div blksize;
            rem = sz mod blksize
        in
        andthen (write_groups D data nblks rem (fs_group_count e) 0 0 blknos) (\<lambda>(i, blknos).
        if i \<noteq> nblks then (if fs_group_count e = 0 then fails EXT2_ERR_FAILED else success blknos)
        else andthen (WriteSuperBlock D) (\<lambda>_. success blknos))))"

subsection \<open>Updating an inode\<close>

text \<open>An optional part of the block numbers: \<open>w\<close> writes at most \<open>n\<close> of them and gives the entry of \<open>i_block\<close>.\<close>

definition update_indirect ::
  "nat \<Rightarrow> nat \<Rightarrow> (nat list \<Rightarrow> ('s, nat) ext2_op) \<Rightarrow> bytes \<times> nat list \<Rightarrow> ('s, bytes \<times> nat list) ext2_op" where
  "update_indirect n slot w = (\<lambda>(inode, p).
     if p = [] then success (inode, p)
     else andthen (w (take n p)) (\<lambda>blkno. success (set_i_block slot [blkno] inode, drop n p)))"

definition UpdateInodeBlockPointers :: "'s blkdev \<Rightarrow> nat \<Rightarrow> bytes \<Rightarrow> nat \<Rightarrow> nat list \<Rightarrow> ('s, unit) ext2_op" where
  "UpdateInodeBlockPointers D ino inode sz blknos =
     andthen (reads blknos_per_block) (\<lambda>n.
     (let inode = set_i_block 0 (take EXT2_SINGLE_INDIRECT_BLOCK blknos) (set_field inode_layout ''i_size'' sz inode);
          p = drop EXT2_SINGLE_INDIRECT_BLOCK blknos
      in
      andthen (update_indirect n EXT2_SINGLE_INDIRECT_BLOCK (WriteSingleDirectBlockNumbers D) (inode, p)) (\<lambda>(inode, p).
      andthen (update_indirect (u32 (n * n)) EXT2_DOUBLE_INDIRECT_BLOCK (WriteIndirectBlockNumbers D 2) (inode, p)) (\<lambda>(inode, p).
      andthen (update_indirect (length p) EXT2_TRIPLE_INDIRECT_BLOCK (WriteIndirectBlockNumbers D 3) (inode, p)) (\<lambda>(inode, p).
      WriteInode D ino inode)))))"

definition UpdateInodeDataBlocks :: "'s blkdev \<Rightarrow> nat \<Rightarrow> bytes \<Rightarrow> bytes \<Rightarrow> nat \<Rightarrow> bool \<Rightarrow> ('s, unit) ext2_op" where
  "UpdateInodeDataBlocks D ino inode data sz is_dir =
     andthen (WriteData D data sz BufInit) (\<lambda>blknos.
     andthen (if is_dir then CountDirectoryEntries data sz else success 0) (\<lambda>cnt.
     UpdateInodeBlockPointers D ino (set_field inode_layout ''i_osd1'' (u32 (cnt + 1)) inode) sz (blknos_of blknos)))"

definition EXT2Update :: "bool \<Rightarrow> 's blkdev \<Rightarrow> bytes \<Rightarrow> nat \<Rightarrow> bytes \<Rightarrow> ('s, unit) ext2_op" where
  "EXT2Update build_efi D data sz path =
     andthen (reads EXT2Valid) (\<lambda>valid.
     if \<not> valid then fails EXT2_ERR_INVALID_PARAMETER
     else
       andthen (EXT2Trunc build_efi D path) (\<lambda>_.
       andthen (EXT2PathToInode D path) (\<lambda>(ino, inode).
       UpdateInodeDataBlocks D ino inode data sz False)))"

end
