(* ===== verification/Ext2DirWrite.thy ===== *)
theory Ext2DirWrite
  imports Ext2Write
begin

text \<open>
  Changing directories (\<open>lsvmutils/ext2.c\<close>): the data of a directory is rewritten as a linked
  list of entries, with an entry left out (\<open>EXT2Rm\<close>) or added (\<open>EXT2Put\<close>, \<open>EXT2MkDir\<close>).

  The tests \<open>!ent->name\<close> of the sources compare the address of an array and are never true. The
  argument \<open>rm_name\<close> of \<open>_IndexDirectoryToLinkedListDirectory\<close> is null in its only call.
\<close>

text \<open>The length of an entry with a name of \<open>name_len\<close> characters.\<close>

definition entry_rec_len :: "nat \<Rightarrow> nat" where
  "entry_rec_len name_len = Ext2NextMult (struct_size dirent_layout - EXT2_PATH_MAX + name_len) 4"

lemma entry_rec_len_value: "n < 256 \<Longrightarrow> entry_rec_len n = (n + 11) div 4 * 4"
proof -
  assume "n < 256"
  have "8 + n + 4 + 2 ^ 32 - 1 = (n + 11) + (2::nat) ^ 32" by simp
  then have "u32 (8 + n + 4 + 2 ^ 32 - 1) = n + 11" using \<open>n < 256\<close> by (simp only: u32_def mod_add_self2) simp
  moreover have "(n + 11) div 4 * 4 < 2 ^ 32" using \<open>n < 256\<close> by simp
  ultimately show ?thesis by (simp add: entry_rec_len_def Ext2NextMult_def layout_sizes EXT2_PATH_MAX_def)
qed

subsection \<open>Checking and searching\<close>

text \<open>
  \<open>Some None\<close> where the function fails. An entry that is accepted has a positive length (the
  second test below never applies), so the loop ends.
\<close>

function check_entries :: "bytes \<Rightarrow> nat \<Rightarrow> nat \<Rightarrow> nat \<Rightarrow> nat option option" where
  "check_entries data limit bsize p =
     (if p < limit \<and> bsize \<noteq> 0 then
        (case entry_lengths data p of
           None \<Rightarrow> None
         | Some ent \<Rightarrow>
             if entry_rec_len (de_name_len ent) \<noteq> de_rec_len ent \<and> bsize - p mod bsize \<noteq> de_rec_len ent then Some None
             else if de_rec_len ent = 0 then Some None
             else check_entries data limit bsize (p + de_rec_len ent))
      else Some (Some p))"
  by pat_completeness auto
termination
  by (relation "measure (\<lambda>(data, limit, bsize, p). limit - p)") auto

declare check_entries.simps [simp del]

definition CheckDirectoryEntries :: "bytes \<Rightarrow> nat \<Rightarrow> ('s, unit) ext2_op" where
  "CheckDirectoryEntries data sz =
     andthen (reads fs_block_size) (\<lambda>bsize.
     if bsize = 0 then undefined_op
     else if sz mod bsize \<noteq> 0 then fails EXT2_ERR_FAILED
     else
       andthen (access (check_entries data sz bsize 0)) (\<lambda>r.
       if r = Some sz then success () else fails EXT2_ERR_FAILED))"

text \<open>The offset of an entry. The search does not end at an entry whose record length is 0.\<close>

partial_function (option) find_name :: "bytes \<Rightarrow> bytes \<Rightarrow> bytes \<Rightarrow> nat \<Rightarrow> nat \<Rightarrow> nat option option" where
  "find_name tmp name data limit p =
     (if p < limit then
        do {
          ent \<leftarrow> entry_lengths data p;
          t \<leftarrow> store 0 [0] tmp;
          t \<leftarrow> Strncat t EXT2_PATH_MAX (drop (p + 8) data) (Ext2Min (de_name_len ent) (EXT2_PATH_MAX - 1));
          c \<leftarrow> posix_strcmp t name;
          if c = 0 then Some (Some p) else find_name tmp name data limit (p + de_rec_len ent)
        }
      else Some None)"

declare find_name.simps [code]

definition FindDirectoryEntry :: "bytes \<Rightarrow> bytes \<Rightarrow> nat \<Rightarrow> ('s, nat option) ext2_op" where
  "FindDirectoryEntry name data sz =
     andthen (reads (\<lambda>e. junk e EXT2_PATH_MAX)) (\<lambda>tmp.
     access (find_name tmp name data sz 0))"

function count_dir :: "ext2_dir \<Rightarrow> nat \<Rightarrow> nat option" where
  "count_dir dir cnt =
     (case EXT2ReadDir dir of
        None \<Rightarrow> None
      | Some (None, dir') \<Rightarrow> Some cnt
      | Some (Some ent, dir') \<Rightarrow> count_dir dir' (u32 (cnt + 1)))"
  by pat_completeness auto
termination
  by (relation "measure (\<lambda>(dir, cnt). dir_size dir - dir_next dir)") (auto dest!: ReadDir_advances)

declare count_dir.simps [simp del]

definition CountDirectoryEntriesIno :: "'s blkdev \<Rightarrow> nat \<Rightarrow> ('s, nat) ext2_op" where
  "CountDirectoryEntriesIno D ino =
     andthen (reads EXT2Valid) (\<lambda>valid.
     if \<not> valid \<or> ino = 0 then fails EXT2_ERR_INVALID_PARAMETER
     else
       andthen (EXT2OpenDirIno D ino) (\<lambda>r.
       case r of
         None \<Rightarrow> fails EXT2_ERR_FAILED
       | Some dir \<Rightarrow> access (count_dir dir 0)))"

subsection \<open>Rewriting a directory\<close>

text \<open>The new buffer with the place for the next entry and the place of the previous one.\<close>

record dir_builder =
  db_data :: bytes
  db_dest :: nat
  db_prev :: "nat option"

text \<open>\<open>rec_len\<close> of the entry at \<open>p\<close>, which is a \<open>UINT16\<close>.\<close>

definition add_rec_len :: "nat \<Rightarrow> nat \<Rightarrow> bytes \<Rightarrow> bytes option" where
  "add_rec_len n p data =
     do {
       ent \<leftarrow> entry_lengths data p;
       store (p + 4) (nat_le 2 (de_rec_len ent + n)) data
     }"

text \<open>
  An entry goes to the next block when the current one has no room for it; the previous entry
  then reaches to the end of the block. The result is \<open>Some None\<close> when there is no previous
  entry. \<open>ent\<close> is what is copied: the entry up to the end of its name, or more (\<open>EXT2Rm\<close>).
\<close>

definition append_entry :: "nat \<Rightarrow> bytes \<Rightarrow> nat \<Rightarrow> dir_builder \<Rightarrow> dir_builder option option" where
  "append_entry bsize ent name_len b =
     do {
       let rec_len = entry_rec_len name_len;
       let offset = db_dest b mod bsize;
       let rem = bsize - offset;
       r \<leftarrow> (if offset + rec_len > bsize then
               (case db_prev b of
                  None \<Rightarrow> Some None
                | Some prev \<Rightarrow>
                    do { d \<leftarrow> add_rec_len rem prev (db_data b); Some (Some (b\<lparr>db_data := d, db_dest := db_dest b + rem\<rparr>)) })
             else Some (Some b));
       (case r of
          None \<Rightarrow> Some None
        | Some b \<Rightarrow>
            do {
              d \<leftarrow> store (db_dest b) (replicate rec_len 0) (db_data b);
              d \<leftarrow> store (db_dest b) ent d;
              d \<leftarrow> store (db_dest b + 4) (nat_le 2 rec_len) d;
              Some (Some \<lparr>db_data = d, db_dest = db_dest b + rec_len, db_prev = Some (db_dest b)\<rparr>)
            })
     }"

definition AppendDirectoryEntry :: "nat \<Rightarrow> bytes \<Rightarrow> dir_builder \<Rightarrow> dir_builder option option" where
  "AppendDirectoryEntry bsize ent b =
     do {
       h \<leftarrow> entry_lengths ent 0;
       e \<leftarrow> load 0 (struct_size dirent_layout - EXT2_PATH_MAX + de_name_len h) ent;
       append_entry bsize e (de_name_len h) b
     }"

text \<open>The last entry reaches to the end of its block.\<close>

definition close_builder :: "nat \<Rightarrow> dir_builder \<Rightarrow> dir_builder option" where
  "close_builder bsize b =
     (case db_prev b of
        None \<Rightarrow> Some b
      | Some prev \<Rightarrow>
          do {
            let rem = bsize - db_dest b mod bsize;
            d \<leftarrow> add_rec_len rem prev (db_data b);
            Some (b\<lparr>db_data := d, db_dest := db_dest b + rem\<rparr>)
          })"

text \<open>The loop over the entries of the old data; \<open>add\<close> handles one of them.\<close>

partial_function (option) copy_entries ::
  "(nat \<Rightarrow> bytes \<Rightarrow> dir_builder \<Rightarrow> dir_builder option option) \<Rightarrow> bytes \<Rightarrow> nat \<Rightarrow> nat \<Rightarrow> dir_builder \<Rightarrow> dir_builder option option" where
  "copy_entries add data limit p b =
     (if p < limit then
        do {
          ent \<leftarrow> entry_lengths data p;
          r \<leftarrow> add p ent b;
          (case r of
             None \<Rightarrow> Some None
           | Some b \<Rightarrow> copy_entries add data limit (p + de_rec_len ent) b)
        }
      else Some (Some b))"

declare copy_entries.simps [code]

definition new_builder :: "bytes \<Rightarrow> dir_builder" where
  "new_builder d = \<lparr>db_data = d, db_dest = 0, db_prev = None\<rparr>"

definition IndexDirectoryToLinkedListDirectory :: "bytes \<Rightarrow> bytes \<Rightarrow> nat \<Rightarrow> ('s, bytes \<times> nat) ext2_op" where
  "IndexDirectoryToLinkedListDirectory new_ent data sz =
     andthen (reads id) (\<lambda>e.
     if \<not> EXT2Valid e \<or> data = [] \<or> sz = 0 then fails EXT2_ERR_INVALID_PARAMETER
     else if fs_block_size e = 0 then undefined_op
     else
       andthen (allocate EXT2_ERR_FAILED (\<lambda>h. Calloc h sz 1)) (\<lambda>new_data.
       andthen (access (copy_entries (\<lambda>p ent. AppendDirectoryEntry (fs_block_size e) (drop p data)) data sz 0 (new_builder new_data))) (\<lambda>r.
       case r of
         None \<Rightarrow> fails EXT2_ERR_FAILED
       | Some b \<Rightarrow>
           andthen (access (AppendDirectoryEntry (fs_block_size e) new_ent b)) (\<lambda>r.
           case r of
             None \<Rightarrow> fails EXT2_ERR_FAILED
           | Some b \<Rightarrow>
               andthen (access (close_builder (fs_block_size e) b)) (\<lambda>b.
               andthen (CheckDirectoryEntries (db_data b) (u32 (db_dest b))) (\<lambda>_.
               success (db_data b, u32 (db_dest b))))))))"

subsection \<open>Removing\<close>

text \<open>
  \<open>EXT2Rm\<close> copies the entries but the one at \<open>victim\<close>. Each copy is of \<open>sizeof(EXT2DirEntry)\<close> bytes, an
  array of 256 characters included, and the length of the name: more than the entry has.
\<close>

definition rm_entry :: "nat \<Rightarrow> nat \<Rightarrow> bytes \<Rightarrow> nat \<Rightarrow> bytes \<Rightarrow> dir_builder \<Rightarrow> dir_builder option option" where
  "rm_entry bsize victim data p ent b =
     (if p = victim then Some (Some b)
      else do {
        e \<leftarrow> load p (struct_size dirent_layout + de_name_len ent) data;
        append_entry bsize e (de_name_len ent) b
      })"

text \<open>The old directory is given back and the new one written.\<close>

definition replace_directory ::
  "bool \<Rightarrow> 's blkdev \<Rightarrow> nat \<Rightarrow> bytes \<Rightarrow> buf \<Rightarrow> bytes \<times> nat \<Rightarrow> ('s, unit) ext2_op" where
  "replace_directory build_efi D ino inode blknos = (\<lambda>(new_blocks, new_size).
     andthen (PutBlocks build_efi D (blknos_of blknos)) (\<lambda>_.
     UpdateInodeDataBlocks D ino inode new_blocks new_size True))"

definition rm_rewrite :: "bool \<Rightarrow> 's blkdev \<Rightarrow> nat \<Rightarrow> bytes \<Rightarrow> bytes \<Rightarrow> nat \<Rightarrow> buf \<Rightarrow> nat \<Rightarrow> ('s, unit) ext2_op" where
  "rm_rewrite build_efi D ino inode blocks blocks_size blknos victim =
     andthen (reads fs_block_size) (\<lambda>bsize.
     if bsize = 0 then undefined_op
     else
       andthen (attempt (allocate EXT2_ERR_FAILED (\<lambda>h. Calloc h blocks_size 1))) (\<lambda>r.
       case r of
         Inl _ \<Rightarrow> success ()
       | Inr new_blocks \<Rightarrow>
           andthen (access (copy_entries (rm_entry bsize victim blocks) blocks (i_size inode) 0 (new_builder new_blocks))) (\<lambda>r.
           case r of
             None \<Rightarrow> success ()
           | Some b \<Rightarrow>
               andthen (access (close_builder bsize b)) (\<lambda>b.
               andthen (CheckDirectoryEntries (db_data b) (u32 (db_dest b))) (\<lambda>_.
               andthen (CountDirectoryEntries blocks blocks_size) (\<lambda>_.
               andthen (CountDirectoryEntries (db_data b) (u32 (db_dest b))) (\<lambda>_.
               replace_directory build_efi D ino inode blknos (db_data b, u32 (db_dest b)))))))))"

text \<open>
  A file that is not found, a directory that is not empty and a failed allocation end the function
  with the code of the last successful call. The inode of a directory is looked up by its
  name without a path.
\<close>

definition EXT2Rm :: "bool \<Rightarrow> 's blkdev \<Rightarrow> bytes \<Rightarrow> ('s, unit) ext2_op" where
  "EXT2Rm build_efi D path =
     andthen (EXT2Trunc build_efi D path) (\<lambda>_.
     andthen (SplitFullPath path) (\<lambda>(dirname, filename).
     andthen (EXT2PathToInode D dirname) (\<lambda>(ino, inode).
     andthen (EXT2LoadFileFromInode D inode) (\<lambda>(blocks, blocks_size).
     andthen (LoadBlockNumbersFromInode D inode True BufInit) (\<lambda>blknos.
     andthen (FindDirectoryEntry filename blocks blocks_size) (\<lambda>r.
     case r of
       None \<Rightarrow> success ()
     | Some victim \<Rightarrow>
         andthen (access (entry_at blocks victim)) (\<lambda>ent.
         if de_file_type ent = EXT2_FT_DIR then
           andthen (EXT2PathToInode D filename) (\<lambda>(dir_ino, dir_inode).
           andthen (CountDirectoryEntriesIno D dir_ino) (\<lambda>cnt.
           if cnt \<noteq> 2 then success ()
           else rm_rewrite build_efi D ino inode blocks blocks_size blknos victim))
         else rm_rewrite build_efi D ino inode blocks blocks_size blknos victim)))))))"

subsection \<open>Creating\<close>

definition new_inode :: "nat \<Rightarrow> nat \<Rightarrow> nat \<Rightarrow> nat \<Rightarrow> nat \<Rightarrow> bytes" where
  "new_inode mode sz t links blocks512 =
     (let s = set_field inode_layout in
      s ''i_mode'' mode (s ''i_size'' sz (s ''i_atime'' t (s ''i_ctime'' t (s ''i_mtime'' t
        (s ''i_osd1'' 1 (s ''i_links_count'' links (s ''i_blocks'' blocks512
          (replicate (struct_size inode_layout) 0)))))))))"

definition CreateFileInode :: "'s blkdev \<Rightarrow> nat \<Rightarrow> nat \<Rightarrow> nat \<Rightarrow> buf \<Rightarrow> ('s, nat) ext2_op" where
  "CreateFileInode D t sz mode blknos =
     andthen (reads id) (\<lambda>e.
     if \<not> EXT2Valid e \<or> buf_data blknos = [] then fails EXT2_ERR_INVALID_PARAMETER
     else
       andthen (GetIno D) (\<lambda>ino.
       andthen (UpdateInodeBlockPointers D ino
                  (new_inode mode sz t 1 (u32 (buf_size blknos * fs_block_size e) div 512)) sz (blknos_of blknos)) (\<lambda>_.
       success ino)))"

text \<open>The bytes of an \<open>EXT2DirEntry\<close> up to the end of its name.\<close>

definition dirent_bytes :: "nat \<Rightarrow> nat \<Rightarrow> nat \<Rightarrow> bytes \<Rightarrow> bytes" where
  "dirent_bytes ino rec_len file_type name =
     nat_le 4 ino @ nat_le 2 rec_len @ nat_le 1 (length name) @ nat_le 1 file_type @ name"

text \<open>
  The block of a new directory: \<open>.\<close> and \<open>..\<close>, padded to their record lengths. Their file type is the
  constant \<open>EXT2_DT_DIR\<close>, not \<open>EXT2_FT_DIR\<close>.
\<close>

definition dot_entry :: "nat \<Rightarrow> bytes \<Rightarrow> bytes" where
  "dot_entry ino name =
     (let e = dirent_bytes ino (entry_rec_len (length name)) EXT2_DT_DIR name
      in e @ replicate (entry_rec_len (length name) - length e) 0)"

definition new_dir_block :: "nat \<Rightarrow> nat \<Rightarrow> nat \<Rightarrow> bytes option" where
  "new_dir_block bsize ino parent_ino =
     do {
       let dot1 = dot_entry ino (ascii ''.'');
       let dot2 = dot_entry parent_ino (ascii ''..'');
       d \<leftarrow> store 0 dot1 (replicate EXT2_MAX_BLOCK_SIZE 0);
       d \<leftarrow> store (length dot1) dot2 d;
       add_rec_len (u32 (bsize + 2 ^ 32 - (length dot1 + length dot2))) (length dot1) d
     }"

definition CreateDirInodeAndBlock :: "'s blkdev \<Rightarrow> nat \<Rightarrow> nat \<Rightarrow> nat \<Rightarrow> ('s, nat) ext2_op" where
  "CreateDirInodeAndBlock D t parent_ino mode =
     andthen (reads id) (\<lambda>e.
     if \<not> EXT2Valid e \<or> mode = 0 \<or> parent_ino = 0 then fails EXT2_ERR_INVALID_PARAMETER
     else
       andthen (GetIno D) (\<lambda>ino.
       andthen (GetBlock D) (\<lambda>blkno.
       andthen (access (new_dir_block (fs_block_size e) ino parent_ino)) (\<lambda>d.
       andthen (EXT2WriteBlock D blkno \<lparr>blk_data = d, blk_size = fs_block_size e\<rparr>) (\<lambda>_.
       andthen (UpdateInodeBlockPointers D ino
                  (new_inode mode (fs_block_size e) t 2 (fs_block_size e div 512)) (fs_block_size e) [blkno]) (\<lambda>_.
       success ino))))))"

text \<open>When the counts disagree the result is the code of the last successful call.\<close>

definition AddDirectoryEntry :: "bool \<Rightarrow> 's blkdev \<Rightarrow> nat \<Rightarrow> bytes \<Rightarrow> bytes \<Rightarrow> bytes \<Rightarrow> ('s, unit) ext2_op" where
  "AddDirectoryEntry build_efi D dir_ino dir_inode filename new_ent =
     andthen (EXT2LoadFileFromInode D dir_inode) (\<lambda>(blocks, blocks_size).
     andthen (LoadBlockNumbersFromInode D dir_inode True BufInit) (\<lambda>blknos.
     andthen (FindDirectoryEntry filename blocks blocks_size) (\<lambda>r.
     if r \<noteq> None then fails EXT2_ERR_FILE_NOT_FOUND
     else
       andthen (IndexDirectoryToLinkedListDirectory new_ent blocks (i_size dir_inode)) (\<lambda>(new_blocks, new_size).
       andthen (CountDirectoryEntries blocks blocks_size) (\<lambda>cnt.
       andthen (CountDirectoryEntries new_blocks new_size) (\<lambda>new_cnt.
       if u32 (cnt + 1) \<noteq> new_cnt then success ()
       else replace_directory build_efi D dir_ino dir_inode blknos (new_blocks, new_size)))))))"

text \<open>The entry for a new name: \<open>name_len\<close> is a \<open>UINT8\<close>, and the name an array of 256 characters.\<close>

definition new_entry :: "nat \<Rightarrow> nat \<Rightarrow> bytes \<Rightarrow> ('s, bytes) ext2_op" where
  "new_entry ino file_type filename =
     andthen (reads (\<lambda>e. junk e EXT2_PATH_MAX)) (\<lambda>name.
     andthen (access (posix_strlen filename)) (\<lambda>len.
     andthen (access (store 0 [0] name)) (\<lambda>name.
     andthen (access (Strncat name EXT2_PATH_MAX filename (EXT2_PATH_MAX - 1))) (\<lambda>name.
     success (nat_le 4 ino @ nat_le 2 (entry_rec_len (len mod 256)) @ nat_le 1 len @ nat_le 1 file_type @ name)))))"

text \<open>
  A path that exists and is not a directory ends \<open>EXT2Put\<close> with the code of the successful lookup: the
  file is not written. (The comment above the test says that it is directories that are refused.)
\<close>

definition EXT2Put :: "bool \<Rightarrow> 's blkdev \<Rightarrow> nat \<Rightarrow> bytes \<Rightarrow> nat \<Rightarrow> bytes \<Rightarrow> nat \<Rightarrow> ('s, unit) ext2_op" where
  "EXT2Put build_efi D t data sz path mode =
     andthen (reads EXT2Valid) (\<lambda>valid.
     if \<not> valid \<or> sz = 0 then fails EXT2_ERR_INVALID_PARAMETER
     else if and mode EXT2_S_IFDIR \<noteq> 0 then fails EXT2_ERR_FAILED
     else
       andthen (SplitFullPath path) (\<lambda>(dirname, filename).
       andthen (EXT2PathToInode D dirname) (\<lambda>(dir_ino, dir_inode).
       andthen (attempt (EXT2PathToInode D path)) (\<lambda>r.
       (let create =
          andthen (WriteData D data sz BufInit) (\<lambda>blknos.
          andthen (CreateFileInode D t sz mode blknos) (\<lambda>file_ino.
          andthen (new_entry file_ino EXT2_FT_REG_FILE filename) (\<lambda>ent.
          AddDirectoryEntry build_efi D dir_ino dir_inode filename ent)))
        in case r of
             Inl _ \<Rightarrow> create
           | Inr (file_ino, file_inode) \<Rightarrow>
               if and (i_mode file_inode) EXT2_S_IFDIR = 0 then success ()
               else andthen (EXT2Rm build_efi D path) (\<lambda>_. create))))))"

definition EXT2MkDir :: "bool \<Rightarrow> 's blkdev \<Rightarrow> nat \<Rightarrow> bytes \<Rightarrow> nat \<Rightarrow> ('s, unit) ext2_op" where
  "EXT2MkDir build_efi D t path mode =
     andthen (reads EXT2Valid) (\<lambda>valid.
     if \<not> valid \<or> mode = 0 then fails EXT2_ERR_INVALID_PARAMETER
     else if and mode EXT2_S_IFDIR = 0 then fails EXT2_ERR_INVALID_PARAMETER
     else
       andthen (SplitFullPath path) (\<lambda>(dirname, basename).
       andthen (EXT2PathToInode D dirname) (\<lambda>(dir_ino, dir_inode).
       andthen (attempt (EXT2PathToInode D path)) (\<lambda>r.
       case r of
         Inr _ \<Rightarrow> success ()
       | Inl _ \<Rightarrow>
           andthen (CreateDirInodeAndBlock D t dir_ino mode) (\<lambda>base_ino.
           andthen (new_entry base_ino EXT2_FT_DIR basename) (\<lambda>ent.
           AddDirectoryEntry build_efi D dir_ino
             (set_field inode_layout ''i_links_count'' (get_field inode_layout ''i_links_count'' dir_inode + 1) dir_inode)
             basename ent))))))"

end
