(* ===== verification/Ext2File.thy ===== *)
theory Ext2File
  imports Ext2DirWrite Sha
begin

text \<open>
  Open files, and the functions that visit every file (\<open>lsvmutils/ext2.c\<close>): \<open>EXT2File\<close> with its
  operations, \<open>EXT2Lsr\<close>, \<open>EXT2HashDir\<close>, \<open>EXT2WhoseBlock\<close> and \<open>EXT2GetBlockNumbers\<close>. A negative return value
  leaves no bytes in the caller's buffer that the model would show.
\<close>

subsection \<open>Open files\<close>

record ext2_file =
  file_inode :: bytes
  file_blknos :: buf
  file_offset :: nat
  file_eof :: bool

definition EXT2OpenFile :: "'s blkdev \<Rightarrow> bytes \<Rightarrow> ('s, ext2_file option) ext2_op" where
  "EXT2OpenFile D path =
     or_null (
       andthen (EXT2PathToInode D path) (\<lambda>(ino, inode).
       andthen (LoadBlockNumbersFromInode D inode False BufInit) (\<lambda>blknos.
       andthen (allocate EXT2_ERR_FAILED (\<lambda>h. Calloc h 1 (8 + struct_size inode_layout + 24 + 16))) (\<lambda>_.
       success \<lparr>file_inode = inode, file_blknos = blknos, file_offset = 0, file_eof = False\<rparr>))))"

text \<open>The loop over the blocks from the first on; \<open>acc\<close> is what was copied.\<close>

fun ReadFile_loop :: "'s blkdev \<Rightarrow> nat list \<Rightarrow> ext2_file \<Rightarrow> nat \<Rightarrow> bytes \<Rightarrow> ('s, (nat \<times> bytes) option \<times> ext2_file) ext2_op" where
  "ReadFile_loop D [] file remaining acc = success (Some (remaining, acc), file)"
| "ReadFile_loop D (blkno # rest) file remaining acc =
     (if \<not> (remaining > 0 \<and> \<not> file_eof file) then success (Some (remaining, acc), file)
      else
        andthen (attempt (EXT2ReadBlock D blkno)) (\<lambda>r.
        case r of
          Inl _ \<Rightarrow> success (None, file)
        | Inr block \<Rightarrow>
            andthen (reads fs_block_size) (\<lambda>bsize.
            (let offset = file_offset file mod bsize;
                 blockBytesRemaining = bsize - offset;
                 copyBytes = (if blockBytesRemaining < remaining then blockBytesRemaining else remaining);
                 fileBytesRemaining = usub64 (i_size (file_inode file)) (file_offset file);
                 (copyBytes, eof) = (if fileBytesRemaining < copyBytes then (fileBytesRemaining, True) else (copyBytes, False))
             in
             andthen (access (load offset copyBytes (blk_data block))) (\<lambda>d.
             ReadFile_loop D rest (file\<lparr>file_offset := u64 (file_offset file + copyBytes), file_eof := eof\<rparr>)
               (remaining - copyBytes) (acc @ d))))))"

text \<open>The number of bytes read, or -1.\<close>

definition EXT2ReadFile :: "'s blkdev \<Rightarrow> ext2_file \<Rightarrow> nat \<Rightarrow> ('s, int \<times> bytes \<times> ext2_file) ext2_op" where
  "EXT2ReadFile D file sz =
     andthen (reads fs_block_size) (\<lambda>bsize.
     if bsize = 0 then undefined_op
     else
       andthen (ReadFile_loop D (drop (u32 (file_offset file div bsize)) (blknos_of (file_blknos file))) file sz []) (\<lambda>(r, file).
       case r of
         None \<Rightarrow> success (-1, [], file)
       | Some (remaining, acc) \<Rightarrow> success (s64 (int (sz - remaining)), acc, file)))"

definition EXT2WriteFile :: "ext2_file \<Rightarrow> bytes \<Rightarrow> nat \<Rightarrow> int" where
  "EXT2WriteFile file data sz = -1"

definition EXT2FlushFile :: "ext2_file \<Rightarrow> int" where
  "EXT2FlushFile file = 0"

definition EXT2CloseFile :: "ext2_file \<Rightarrow> int option" where
  "EXT2CloseFile file = map_option (\<lambda>_. 0) (BufU32Release (file_blknos file))"

text \<open>The comparison is signed; \<open>eof\<close> is not reset.\<close>

definition EXT2SeekFile :: "ext2_file \<Rightarrow> int \<Rightarrow> int \<times> ext2_file" where
  "EXT2SeekFile file offset =
     (if offset > int (i_size (file_inode file)) then (-1, file)
      else (0, file\<lparr>file_offset := nat (offset mod 2 ^ 64)\<rparr>))"

definition EXT2TellFile :: "ext2_file \<Rightarrow> int" where
  "EXT2TellFile file = s64 (int (file_offset file))"

definition EXT2SizeFile :: "ext2_file \<Rightarrow> int" where
  "EXT2SizeFile file = int (i_size (file_inode file))"

subsection \<open>All files below a directory\<close>

text \<open>
  The entries of one directory: the path of each is built in a fixed array and appended to \<open>paths\<close>,
  and to \<open>dirs\<close> when the type has the bit of \<open>EXT2_DT_DIR\<close>.
\<close>

definition is_dot :: "bytes \<Rightarrow> bool option" where
  "is_dot name =
     do {
       c1 \<leftarrow> posix_strcmp name (ascii ''.'' @ [0]);
       if c1 = 0 then Some True
       else do { c2 \<leftarrow> posix_strcmp name (ascii ''..'' @ [0]); Some (c2 = 0) }
     }"

definition join_path :: "bytes \<Rightarrow> bytes \<Rightarrow> bytes \<Rightarrow> bytes option" where
  "join_path path root name =
     do {
       (n, path) \<leftarrow> Strlcpy path root EXT2_PATH_MAX;
       c \<leftarrow> posix_strcmp root (ascii ''/'' @ [0]);
       path \<leftarrow> (if c \<noteq> 0 then map_option snd (Strlcat path (ascii ''/'' @ [0]) EXT2_PATH_MAX) else Some path);
       map_option snd (Strlcat path name EXT2_PATH_MAX)
     }"

definition lsr_entry :: "heap \<Rightarrow> bytes \<Rightarrow> bytes \<Rightarrow> bytes \<Rightarrow> strarr \<Rightarrow> strarr \<Rightarrow> (int \<times> (bytes \<times> strarr \<times> strarr) \<times> heap) option" where
  "lsr_entry h root path ent paths dirs =
     do {
       dot \<leftarrow> is_dot (d_name ent);
       if dot then Some (0, (path, paths, dirs), h)
       else do {
         path \<leftarrow> join_path path root (d_name ent);
         (rc, paths, h) \<leftarrow> StrArrAppend h paths (Some path);
         if rc \<noteq> 0 then Some (rc, (path, paths, dirs), h)
         else if and (d_type ent) EXT2_DT_DIR \<noteq> 0 then
           do {
             (rc, dirs, h) \<leftarrow> StrArrAppend h dirs (Some path);
             Some (rc, (path, paths, dirs), h)
           }
         else Some (0, (path, paths, dirs), h)
       }
     }"

function lsr_entries :: "heap \<Rightarrow> bytes \<Rightarrow> ext2_dir \<Rightarrow> bytes \<Rightarrow> strarr \<Rightarrow> strarr \<Rightarrow> (int \<times> (strarr \<times> strarr) \<times> heap) option" where
  "lsr_entries h root dir path paths dirs =
     (case EXT2ReadDir dir of
        None \<Rightarrow> None
      | Some (None, dir') \<Rightarrow> Some (0, (paths, dirs), h)
      | Some (Some ent, dir') \<Rightarrow>
          (case lsr_entry h root path ent paths dirs of
             None \<Rightarrow> None
           | Some (rc, (path', paths', dirs'), h') \<Rightarrow>
               if rc \<noteq> 0 then Some (rc, (paths', dirs'), h')
               else lsr_entries h' root dir' path' paths' dirs'))"
  by pat_completeness auto
termination
  by (relation "measure (\<lambda>(h, root, dir, path, paths, dirs). dir_size dir - dir_next dir)") (auto dest!: ReadDir_advances)

declare lsr_entries.simps [simp del]

text \<open>The calls for the directories found, each with the array of paths of the one before.\<close>

fun lsr_each :: "(bytes \<Rightarrow> strarr \<Rightarrow> ('s, strarr) ext2_op) \<Rightarrow> sptr list \<Rightarrow> strarr \<Rightarrow> ('s, strarr) ext2_op" where
  "lsr_each f [] paths = success paths"
| "lsr_each f (Str d # rest) paths = andthen (with_error EXT2_ERR_FAILED (f d paths)) (\<lambda>paths. lsr_each f rest paths)"
| "lsr_each f (_ # rest) paths = undefined_op"

text \<open>
  The recursion is not bounded by the code: a path that is cut at the end of the array can name the
  directory it was built from. The first argument is the depth of the stack; the call
  that exceeds it has no defined result.
\<close>

fun EXT2Lsr :: "nat \<Rightarrow> 's blkdev \<Rightarrow> bytes \<Rightarrow> strarr \<Rightarrow> ('s, strarr) ext2_op" where
  "EXT2Lsr 0 D root paths = undefined_op"
| "EXT2Lsr (Suc n) D root paths =
     andthen (EXT2OpenDir D root) (\<lambda>r.
     case r of
       None \<Rightarrow> fails EXT2_ERR_FAILED
     | Some dir \<Rightarrow>
         andthen (reads (\<lambda>e. junk e EXT2_PATH_MAX)) (\<lambda>path.
         andthen (with_error EXT2_ERR_OUT_OF_MEMORY (with_heap (\<lambda>h. lsr_entries h root dir path paths strarr_init))) (\<lambda>(paths, dirs).
         andthen (access (load 0 (sa_size dirs) (sa_data dirs))) (\<lambda>ds.
         lsr_each (\<lambda>d ps. EXT2Lsr n D d ps) ds paths))))"

text \<open>
  The digests of the files, in the order of their paths. A failure to update a digest ends the loop
  with the code of the last successful call, and no digest is written (\<open>None\<close>).
\<close>

fun hash_files ::
  "'c sha_lib \<Rightarrow> 's blkdev \<Rightarrow> sptr list \<Rightarrow> 'c sha_context \<Rightarrow> 'c sha_context \<Rightarrow> ('s, ('c sha_context \<times> 'c sha_context) option) ext2_op" where
  "hash_files L D [] c1 c2 = success (Some (c1, c2))"
| "hash_files L D (Str p # rest) c1 c2 =
     andthen (EXT2PathToInode D p) (\<lambda>(ino, inode).
     if and (i_mode inode) EXT2_S_IFDIR \<noteq> 0 then hash_files L D rest c1 c2
     else
       andthen (EXT2LoadFileFromInode D inode) (\<lambda>(data, sz).
       andthen (access (load 0 sz data)) (\<lambda>d.
       case SHAUpdate L c1 d of
         None \<Rightarrow> success None
       | Some c1 \<Rightarrow>
           (case SHAUpdate L c2 d of
              None \<Rightarrow> success None
            | Some c2 \<Rightarrow> hash_files L D rest c1 c2))))"
| "hash_files L D (_ # rest) c1 c2 = undefined_op"

definition EXT2HashDir :: "nat \<Rightarrow> 'c sha_lib \<Rightarrow> 's blkdev \<Rightarrow> bytes \<Rightarrow> ('s, bytes option \<times> bytes option) ext2_op" where
  "EXT2HashDir depth L D root =
     andthen (access (SHAInit L SHA1_ALG)) (\<lambda>c1.
     andthen (access (SHAInit L SHA256_ALG)) (\<lambda>c2.
     andthen (EXT2Lsr depth D root strarr_init) (\<lambda>paths.
     andthen (access (StrArrSort paths)) (\<lambda>paths.
     andthen (access (load 0 (sa_size paths) (sa_data paths))) (\<lambda>ps.
     andthen (hash_files L D ps c1 c2) (\<lambda>r.
     case r of
       None \<Rightarrow> success (None, None)
     | Some (c1, c2) \<Rightarrow> success (SHAFinal L c1, SHAFinal L c2)))))))"

subsection \<open>The blocks of files\<close>

text \<open>The last path that owns the block wins, since only the inner loop is left.\<close>

fun whose_block :: "'s blkdev \<Rightarrow> nat \<Rightarrow> sptr list \<Rightarrow> bool \<Rightarrow> bytes \<Rightarrow> ('s, bool \<times> bytes) ext2_op" where
  "whose_block D blkno [] found path = success (found, path)"
| "whose_block D blkno (Str p # rest) found path =
     andthen (attempt (EXT2PathToInode D p)) (\<lambda>r.
     case r of
       Inl _ \<Rightarrow> success (found, path)
     | Inr (ino, inode) \<Rightarrow>
         andthen (LoadBlockNumbersFromInode D inode True BufInit) (\<lambda>blknos.
         if blkno \<in> set (blknos_of blknos) then
           andthen (access (Strlcpy path p EXT2_PATH_MAX)) (\<lambda>(n, path). whose_block D blkno rest True path)
         else whose_block D blkno rest found path))"
| "whose_block D blkno (_ # rest) found path = undefined_op"

definition EXT2WhoseBlock :: "nat \<Rightarrow> 's blkdev \<Rightarrow> nat \<Rightarrow> bytes \<Rightarrow> ('s, bool \<times> bytes) ext2_op" where
  "EXT2WhoseBlock depth D blkno path =
     andthen (access (store 0 [0] path)) (\<lambda>path.
     andthen (EXT2Lsr depth D (ascii ''/'' @ [0]) strarr_init) (\<lambda>paths.
     andthen (access (load 0 (sa_size paths) (sa_data paths))) (\<lambda>ps.
     whose_block D blkno ps False path)))"

definition EXT2GetBlockNumbers :: "'s blkdev \<Rightarrow> bytes \<Rightarrow> buf \<Rightarrow> ('s, buf) ext2_op" where
  "EXT2GetBlockNumbers D path blknos =
     andthen (with_error EXT2_ERR_FAILED (EXT2PathToInode D path)) (\<lambda>(ino, inode).
     LoadBlockNumbersFromInode D inode True blknos)"

end
