(* ===== verification/Ext2ReadOnly.thy ===== *)
theory Ext2ReadOnly
  imports Ext2File
begin

text \<open>
  The functions of the file system that only read (\<open>lsvmutils/ext2.c\<close>). Such a function gives the same
  result and leaves the same state whatever the device's write function is, even one that is
  undefined everywhere: it never calls it. The lemmas below say this of every
  function, from the device access up, and are collected as rewrite rules.
\<close>

named_theorems never_writes \<open>functions that do not depend on the write function of the device\<close>

lemma GetN_never_writes [never_writes]: "GetN (D\<lparr>PutN := put\<rparr>) = GetN D"
  by simp

lemma ReadPartialBlock_never_writes [never_writes]: "ReadPartialBlock (D\<lparr>PutN := put\<rparr>) = ReadPartialBlock D"
  by (simp add: fun_eq_iff ReadPartialBlock_def)

lemma read_blocks_never_writes [never_writes]: "read_blocks (D\<lparr>PutN := put\<rparr>) = read_blocks D"
  by (unfold read_blocks_def never_writes) (rule refl)

lemma Ext2Read_never_writes [never_writes]: "Ext2Read (D\<lparr>PutN := put\<rparr>) = Ext2Read D"
  by (unfold Ext2Read_def never_writes) (rule refl)

lemma fs_read_never_writes [never_writes]: "fs_read (D\<lparr>PutN := put\<rparr>) = fs_read D"
  by (unfold fs_read_def never_writes) (rule refl)+

lemma blocks_never_write [never_writes]:
  "ReadBlocks (D\<lparr>PutN := put\<rparr>) = ReadBlocks D" "EXT2ReadBlock (D\<lparr>PutN := put\<rparr>) = EXT2ReadBlock D"
  by (unfold ReadBlocks_def EXT2ReadBlock_def never_writes) (rule refl)+

lemma each_block_never_writes [never_writes]: "each_block (D\<lparr>PutN := put\<rparr>) f xs = each_block D f xs"
  by (induction xs) (rule ext, simp add: never_writes cong: if_cong option.case_cong)+

lemma block_numbers_never_write [never_writes]:
  "AppendIndirectBlockNumbers (D\<lparr>PutN := put\<rparr>) = AppendIndirectBlockNumbers D"
  "through_block (D\<lparr>PutN := put\<rparr>) = through_block D"
  by (unfold AppendIndirectBlockNumbers_def through_block_def never_writes) (rule refl)+

lemma LoadBlockNumbers_never_writes [never_writes]:
  "AppendDoubleIndirectBlockNumbers (D\<lparr>PutN := put\<rparr>) = AppendDoubleIndirectBlockNumbers D"
  "LoadBlockNumbersFromInode (D\<lparr>PutN := put\<rparr>) = LoadBlockNumbersFromInode D"
proof -
  show d: "AppendDoubleIndirectBlockNumbers (D\<lparr>PutN := put\<rparr>) = AppendDoubleIndirectBlockNumbers D"
    by (unfold AppendDoubleIndirectBlockNumbers_def never_writes) (rule refl)+
  show "LoadBlockNumbersFromInode (D\<lparr>PutN := put\<rparr>) = LoadBlockNumbersFromInode D"
    by (unfold LoadBlockNumbersFromInode_def never_writes d) (rule refl)+
qed

lemma metadata_never_writes [never_writes]:
  "ReadSuperBlock (D\<lparr>PutN := put\<rparr>) = ReadSuperBlock D" "ReadGroups (D\<lparr>PutN := put\<rparr>) = ReadGroups D"
  "EXT2ReadBlockBitmap (D\<lparr>PutN := put\<rparr>) = EXT2ReadBlockBitmap D"
  "EXT2readReadInodeBitmap (D\<lparr>PutN := put\<rparr>) = EXT2readReadInodeBitmap D"
  "read_inode_into (D\<lparr>PutN := put\<rparr>) = read_inode_into D"
  by (unfold ReadSuperBlock_def ReadGroups_def EXT2ReadBlockBitmap_def EXT2readReadInodeBitmap_def
      read_bitmap_def read_inode_into_def never_writes) (rule refl)+

lemma EXT2ReadInode_never_writes [never_writes]: "EXT2ReadInode (D\<lparr>PutN := put\<rparr>) = EXT2ReadInode D"
  by (unfold EXT2ReadInode_def never_writes) (rule refl)+

lemma load_runs_never_writes [never_writes]: "load_runs (D\<lparr>PutN := put\<rparr>) xs buf = load_runs D xs buf"
proof (induction D xs buf rule: load_runs.induct)
  case (2 D blkno rest buf)
  then show ?case unfolding load_runs.simps Let_def never_writes
    by (intro if_cong refl arg_cong2 [where f = andthen] ext) (auto split: sum.splits)
qed simp

lemma LoadFile_never_writes [never_writes]: "EXT2LoadFileFromInode (D\<lparr>PutN := put\<rparr>) = EXT2LoadFileFromInode D"
  by (unfold EXT2LoadFileFromInode_def never_writes) (rule refl)+

lemma directories_never_write [never_writes]:
  "EXT2OpenDirIno (D\<lparr>PutN := put\<rparr>) = EXT2OpenDirIno D"
  by (unfold EXT2OpenDirIno_def never_writes) (rule refl)+

lemma ListDir_never_writes [never_writes]: "EXT2ListDirInode (D\<lparr>PutN := put\<rparr>) = EXT2ListDirInode D"
  by (unfold EXT2ListDirInode_def never_writes) (rule refl)+

lemma walk_path_never_writes [never_writes]: "walk_path (D\<lparr>PutN := put\<rparr>) names = walk_path D names"
  by (induction names) (rule ext, simp add: never_writes cong: if_cong option.case_cong)+

lemma paths_never_write [never_writes]:
  "EXT2PathToIno (D\<lparr>PutN := put\<rparr>) = EXT2PathToIno D"
  by (unfold EXT2PathToIno_def never_writes) (rule refl)+

lemma lookup_never_writes [never_writes]:
  "EXT2PathToInode (D\<lparr>PutN := put\<rparr>) = EXT2PathToInode D"
  "EXT2OpenDir (D\<lparr>PutN := put\<rparr>) = EXT2OpenDir D"
  by (unfold EXT2PathToInode_def EXT2OpenDir_def never_writes) (rule refl)+

lemma files_never_write [never_writes]:
  "EXT2LoadFileFromPath (D\<lparr>PutN := put\<rparr>) = EXT2LoadFileFromPath D"
  "EXT2OpenFile (D\<lparr>PutN := put\<rparr>) = EXT2OpenFile D"
  "EXT2GetBlockNumbers (D\<lparr>PutN := put\<rparr>) = EXT2GetBlockNumbers D"
  by (unfold EXT2LoadFileFromPath_def EXT2OpenFile_def EXT2GetBlockNumbers_def never_writes) (rule refl)+

lemma ReadFile_loop_never_writes [never_writes]:
  "ReadFile_loop (D\<lparr>PutN := put\<rparr>) bs f n acc = ReadFile_loop D bs f n acc"
  by (induction bs arbitrary: f n acc) (simp_all add: never_writes cong: if_cong)

lemma ReadFile_never_writes [never_writes]: "EXT2ReadFile (D\<lparr>PutN := put\<rparr>) = EXT2ReadFile D"
  by (unfold EXT2ReadFile_def never_writes) (rule refl)+

lemma mount_never_writes [never_writes]: "EXT2New (D\<lparr>PutN := put\<rparr>) = EXT2New D"
  by (unfold EXT2New_def mount_def never_writes) (rule refl)+

lemma check_inodes_never_writes [never_writes]:
  "check_inodes (D\<lparr>PutN := put\<rparr>) grpno bitmap k lino mbits = check_inodes D grpno bitmap k lino mbits"
  by (induction k arbitrary: lino mbits) (simp_all add: never_writes cong: if_cong)

lemma check_tables_never_writes [never_writes]:
  "check_tables (D\<lparr>PutN := put\<rparr>) k grpno nbits mbits = check_tables D k grpno nbits mbits"
  by (induction k arbitrary: grpno nbits mbits) (simp_all add: never_writes cong: if_cong prod.case_cong)

lemma Check_never_writes [never_writes]: "EXT2Check (D\<lparr>PutN := put\<rparr>) = EXT2Check D"
  by (unfold EXT2Check_def never_writes) (rule refl)+

lemma Lsr_never_writes [never_writes]: "EXT2Lsr n (D\<lparr>PutN := put\<rparr>) = EXT2Lsr n D"
  by (induction n) ((rule ext)+, simp add: never_writes cong: if_cong option.case_cong)+

lemma hash_files_never_writes [never_writes]: "hash_files L (D\<lparr>PutN := put\<rparr>) ps = hash_files L D ps"
proof (induction ps)
  case (Cons p ps)
  then show ?case by (cases p) ((rule ext)+, simp add: never_writes cong: if_cong option.case_cong)+
qed (rule ext, simp)

lemma whose_block_never_writes [never_writes]:
  "whose_block (D\<lparr>PutN := put\<rparr>) blkno ps = whose_block D blkno ps"
proof (induction ps)
  case (Cons p ps)
  then show ?case by (cases p) ((rule ext)+, simp add: never_writes cong: if_cong option.case_cong)+
qed ((rule ext)+, simp)

lemma walks_never_write [never_writes]:
  "EXT2HashDir depth L (D\<lparr>PutN := put\<rparr>) = EXT2HashDir depth L D"
  "EXT2WhoseBlock depth (D\<lparr>PutN := put\<rparr>) = EXT2WhoseBlock depth D"
  by (unfold EXT2HashDir_def EXT2WhoseBlock_def never_writes) (rule refl)+

section \<open>Claims\<close>

text \<open>
  C21: Mounting, checking, looking up paths, listing directories, loading and reading files, hashing a
  directory tree and searching the owner of a block never write to the device: for every
  device, file system, damaged or not, and arguments the outcome is the same when the device's write
  function is replaced by any other, in particular by one that is undefined.
\<close>

theorem readers_never_write:
  "EXT2New (D\<lparr>PutN := put\<rparr>) = EXT2New D \<and>
   EXT2Check (D\<lparr>PutN := put\<rparr>) = EXT2Check D \<and>
   EXT2PathToInode (D\<lparr>PutN := put\<rparr>) = EXT2PathToInode D \<and>
   EXT2ListDirInode (D\<lparr>PutN := put\<rparr>) = EXT2ListDirInode D \<and>
   EXT2LoadFileFromPath (D\<lparr>PutN := put\<rparr>) = EXT2LoadFileFromPath D \<and>
   EXT2OpenFile (D\<lparr>PutN := put\<rparr>) = EXT2OpenFile D \<and>
   EXT2ReadFile (D\<lparr>PutN := put\<rparr>) = EXT2ReadFile D \<and>
   EXT2GetBlockNumbers (D\<lparr>PutN := put\<rparr>) = EXT2GetBlockNumbers D \<and>
   EXT2Lsr n (D\<lparr>PutN := put\<rparr>) root paths = EXT2Lsr n D root paths \<and>
   EXT2HashDir n L (D\<lparr>PutN := put\<rparr>) = EXT2HashDir n L D \<and>
   EXT2WhoseBlock n (D\<lparr>PutN := put\<rparr>) = EXT2WhoseBlock n D"
  by (simp add: never_writes)

end
