(* ===== verification/Ext2Load.thy ===== *)
theory Ext2Load
  imports Ext2File
begin

text \<open>
  Reading files on a device that is a byte array. \<open>runs m e Q\<close> says that the operation \<open>m\<close> returns
  \<open>EXT2_ERR_NONE\<close> from \<open>e\<close> and that \<open>Q\<close> holds of its result and of the state after it; there
  is one rule per combinator. An operation that only reads leaves a state that \<open>keeps\<close> everything
  but the device's own state and the allocator.
\<close>

subsection \<open>Total correctness of operations\<close>

definition runs :: "('s, 'a) ext2_op \<Rightarrow> 's ext2 \<Rightarrow> ('a \<Rightarrow> 's ext2 \<Rightarrow> bool) \<Rightarrow> bool" where
  "runs m e Q \<longleftrightarrow> (\<exists>x e'. m e = Some (Inr x, e') \<and> Q x e')"

named_theorems runs_rules \<open>rules for total correctness\<close>

lemma runs_success [runs_rules]: "Q x e \<Longrightarrow> runs (success x) e Q"
  by (simp add: runs_def success_def)

lemma runs_reads [runs_rules]: "Q (f e) e \<Longrightarrow> runs (reads f) e Q"
  by (simp add: runs_def reads_def)

lemma runs_updates [runs_rules]: "Q () (f e) \<Longrightarrow> runs (updates f) e Q"
  by (simp add: runs_def updates_def)

lemma runs_access: "x = Some v \<Longrightarrow> Q v e \<Longrightarrow> runs (access x) e Q"
  by (simp add: runs_def access_def)

lemma runs_andthen [runs_rules]: "runs m e (\<lambda>x e'. runs (f x) e' Q) \<Longrightarrow> runs (andthen m f) e Q"
  by (auto simp: runs_def andthen_def)

lemma runs_andthenI: "runs m e P \<Longrightarrow> (\<And>x e'. P x e' \<Longrightarrow> runs (f x) e' Q) \<Longrightarrow> runs (andthen m f) e Q"
  by (fastforce simp: runs_def andthen_def)

lemma runs_mono: "runs m e P \<Longrightarrow> (\<And>x e'. P x e' \<Longrightarrow> Q x e') \<Longrightarrow> runs m e Q"
  by (auto simp: runs_def)

lemma runs_attempt: "runs m e (\<lambda>x. Q (Inr x)) \<Longrightarrow> runs (attempt m) e Q"
  by (auto simp: runs_def attempt_def)

lemma runs_with_error: "runs m e Q \<Longrightarrow> runs (with_error err m) e Q"
  by (auto simp: runs_def with_error_def)

lemma runs_or_null: "runs m e (\<lambda>x. Q (Some x)) \<Longrightarrow> runs (or_null m) e Q"
  unfolding or_null_def by (auto simp: runs_def attempt_def andthen_def success_def)

lemma runsE: "runs m e Q \<Longrightarrow> (\<And>x e'. m e = Some (Inr x, e') \<Longrightarrow> Q x e' \<Longrightarrow> P) \<Longrightarrow> P"
  by (auto simp: runs_def)

subsection \<open>A file system on a byte array\<close>

definition ext2_ok :: "('s \<Rightarrow> bool) \<Rightarrow> ('s \<Rightarrow> bool) \<Rightarrow> ('s \<Rightarrow> bytes) \<Rightarrow> 's ext2 \<Rightarrow> bool" where
  "ext2_ok dinv dready img e \<longleftrightarrow>
     dinv (fs_dev e) \<and> dready (fs_dev e) \<and> heap_ok (fs_heap e) \<and> EXT2Valid e \<and>
     fs_block_size e \<in> {1024, 2048, 4096, 8192} \<and> length (img (fs_dev e)) < 2 ^ 32"

text \<open>Block \<open>b\<close> of the image, and the blocks that lie in it.\<close>

definition blk :: "('s \<Rightarrow> bytes) \<Rightarrow> 's ext2 \<Rightarrow> nat \<Rightarrow> bytes" where
  "blk img e b = slice (b * fs_block_size e) (fs_block_size e) (img (fs_dev e))"

definition blk_in :: "('s \<Rightarrow> bytes) \<Rightarrow> 's ext2 \<Rightarrow> nat \<Rightarrow> bool" where
  "blk_in img e b \<longleftrightarrow> (b + 1) * fs_block_size e \<le> length (img (fs_dev e))"

definition keeps :: "('s \<Rightarrow> bool) \<Rightarrow> ('s \<Rightarrow> bool) \<Rightarrow> ('s \<Rightarrow> bytes) \<Rightarrow> 's ext2 \<Rightarrow> 's ext2 \<Rightarrow> bool" where
  "keeps dinv dready img e e' \<longleftrightarrow>
     ext2_ok dinv dready img e' \<and> img (fs_dev e') = img (fs_dev e) \<and>
     (\<exists>s h. e' = e\<lparr>fs_dev := s, fs_heap := h\<rparr>)"

lemma keeps_refl: "ext2_ok dinv dready img e \<Longrightarrow> keeps dinv dready img e e"
  by (auto simp: keeps_def intro!: exI [of _ "fs_dev e"] exI [of _ "fs_heap e"])

lemma keeps_trans: "keeps dinv dready img e e1 \<Longrightarrow> keeps dinv dready img e1 e2 \<Longrightarrow> keeps dinv dready img e e2"
  by (force simp: keeps_def)

lemma keepsD:
  assumes "keeps dinv dready img e e'"
  shows "ext2_ok dinv dready img e'" "img (fs_dev e') = img (fs_dev e)" "fs_sb e' = fs_sb e"
    "fs_block_size e' = fs_block_size e" "fs_group_count e' = fs_group_count e" "fs_groups e' = fs_groups e"
    "fs_junk e' = fs_junk e" "blk img e' = blk img e" "blk_in img e' = blk_in img e" "group_at e' = group_at e"
    "MakeBlkno e' = MakeBlkno e" "EXT2Valid e' = EXT2Valid e"
  using assms
  by (auto simp: keeps_def blk_def blk_in_def fun_eq_iff group_at_def MakeBlkno_def EXT2Valid_def)

lemma ok_block_size:
  assumes "ext2_ok dinv dready img e"
  shows "1024 \<le> fs_block_size e" "fs_block_size e \<le> 8192" "fs_block_size e mod 512 = 0" "fs_block_size e mod 4 = 0"
    "fs_block_size e \<noteq> 0" "EXT2Valid e"
  using assms by (auto simp: ext2_ok_def)

lemma blk_in_offset:
  assumes "ext2_ok dinv dready img e" "blk_in img e b"
  shows "BlockOffset b (fs_block_size e) = b * fs_block_size e" "b * fs_block_size e + fs_block_size e \<le> length (img (fs_dev e))"
proof -
  show 2: "b * fs_block_size e + fs_block_size e \<le> length (img (fs_dev e))"
    using assms(2) by (simp add: blk_in_def algebra_simps)
  then have "b * fs_block_size e < 2 ^ 32"
    using assms(1) by (simp add: ext2_ok_def)
  then show "BlockOffset b (fs_block_size e) = b * fs_block_size e" by (simp add: BlockOffset_def)
qed

lemma length_blk: "blk_in img e b \<Longrightarrow> length (blk img e b) = fs_block_size e"
  by (simp add: blk_def blk_in_def algebra_simps)

lemma runs_with_heap:
  assumes "ext2_ok dinv dready img e"
    and "\<And>h. heap_ok h \<Longrightarrow> \<exists>x h'. f h = Some (0, x, h') \<and> heap_ok h' \<and> P x"
  shows "runs (with_heap f) e (\<lambda>x e'. P x \<and> keeps dinv dready img e e')"
proof -
  from assms(1) have "heap_ok (fs_heap e)" by (simp add: ext2_ok_def)
  from assms(2) [OF this] obtain x h' where "f (fs_heap e) = Some (0, x, h')" "heap_ok h'" "P x" by blast
  with assms(1) show ?thesis
    by (auto simp: runs_def with_heap_def keeps_def ext2_ok_def EXT2Valid_def intro!: exI [of _ "fs_dev e"] exI [of _ h'])
qed

lemma runs_allocate:
  assumes "ext2_ok dinv dready img e"
    and "\<And>h. heap_ok h \<Longrightarrow> \<exists>x h'. f h = (Some x, h') \<and> heap_ok h' \<and> P x"
  shows "runs (allocate err f) e (\<lambda>x e'. P x \<and> keeps dinv dready img e e')"
proof -
  from assms(1) have "heap_ok (fs_heap e)" by (simp add: ext2_ok_def)
  from assms(2) [OF this] obtain x h' where "f (fs_heap e) = (Some x, h')" "heap_ok h'" "P x" by blast
  with assms(1) show ?thesis
    by (auto simp: runs_def allocate_def keeps_def ext2_ok_def EXT2Valid_def intro!: exI [of _ "fs_dev e"] exI [of _ h'])
qed

subsection \<open>Arrays of block numbers\<close>

lemma length_u32s [simp]: "length (u32s bs) = length bs div 4"
  by (simp add: u32s_def)

lemma length_u32_bytes [simp]: "length (u32_bytes xs) = 4 * length xs"
  by (induction xs) (simp_all add: u32_bytes_def)

lemma u32s_take: "4 * k \<le> length bs \<Longrightarrow> u32s (take (4 * k) bs) = take k (u32s bs)"
  by (intro nth_equalityI) (auto simp: u32s_def slice_take)

lemma u32s_append: "length xs mod 4 = 0 \<Longrightarrow> u32s (xs @ ys) = u32s xs @ u32s ys"
proof (rule nth_equalityI)
  assume m: "length xs mod 4 = 0"
  then have x: "4 * (length xs div 4) = length xs" by presburger
  show len: "length (u32s (xs @ ys)) = length (u32s xs @ u32s ys)"
    using m by (simp add: div_add1_eq)
  fix i assume i: "i < length (u32s (xs @ ys))"
  show "u32s (xs @ ys) ! i = (u32s xs @ u32s ys) ! i"
  proof (cases "i < length xs div 4")
    case True
    then have "4 * i + 4 \<le> length xs" using x by linarith
    with True i show ?thesis by (simp add: u32s_def nth_append)
  next
    case False
    then have le: "length xs \<le> 4 * i" using x by linarith
    have "4 * i - length xs = 4 * (i - length xs div 4)" using x by (simp add: diff_mult_distrib2)
    moreover have "i - length xs div 4 < length ys div 4" using i len False by simp
    ultimately show ?thesis using False le i by (simp add: u32s_def nth_append)
  qed
qed

lemma u32s_u32_bytes: "\<forall>x \<in> set xs. x < 2 ^ 32 \<Longrightarrow> u32s (u32_bytes xs) = xs"
proof (induction xs)
  case (Cons x xs)
  have "u32_bytes (x # xs) = nat_le 4 x @ u32_bytes xs" by (simp add: u32_bytes_def)
  moreover have "u32s (nat_le 4 x) = [x]"
    using Cons.prems by (simp add: u32s_def le_nat_nat_le)
  ultimately show ?case using Cons by (simp add: u32s_append)
qed (simp add: u32_bytes_def u32s_def)

lemma take_u32_bytes: "take (4 * n) (u32_bytes xs) = u32_bytes (take n xs)"
proof (induction xs arbitrary: n)
  case (Cons x xs)
  then show ?case by (cases n) (simp_all add: u32_bytes_def)
qed (simp add: u32_bytes_def)

lemma u32s_bound: "x \<in> set (u32s bs) \<Longrightarrow> x < 2 ^ 32"
proof -
  assume "x \<in> set (u32s bs)"
  then obtain i where x: "x = le_nat (slice (4 * i) 4 bs)" by (auto simp: u32s_def)
  have "le_nat (slice (4 * i) 4 bs) < 256 ^ length (slice (4 * i) 4 bs)" by (rule le_nat_bound)
  also have "\<dots> \<le> 256 ^ 4" by (rule power_increasing) simp_all
  finally show ?thesis by (simp add: x)
qed

text \<open>A buffer that holds the numbers \<open>xs\<close>.\<close>

definition holds :: "buf \<Rightarrow> nat list \<Rightarrow> bool" where
  "holds buf xs \<longleftrightarrow> elem_inv 4 buf \<and> blknos_of buf = xs"

lemma holds_size: "holds buf xs \<Longrightarrow> buf_size buf = length xs"
  by (auto simp: holds_def elem_inv_def blknos_of_def)

lemma blknos_of_contents: "elem_inv 4 buf \<Longrightarrow> blknos_of buf = u32s (elem_contents 4 buf)"
  using u32s_take [of "buf_size buf" "buf_data buf"] by (simp add: blknos_of_def elem_contents_def elem_inv_def mult.commute)

lemma holds_init: "holds BufInit []"
  by (simp add: holds_def elem_inv_def BufInit_def blknos_of_def)

lemma BufAppend_take: "sz \<le> length d \<Longrightarrow> BufAppend h b (Some d) sz = BufAppend h b (Some (take sz d)) sz"
proof -
  assume "sz \<le> length d"
  then have "load 0 sz d = load 0 sz (take sz d)" by (simp add: load_def slice_def)
  then show ?thesis by (simp add: BufAppend_def Let_def cong: if_cong prod.case_cong)
qed

lemma holds_append:
  assumes "holds buf xs" "(length xs + n) * 4 \<le> 2 ^ 31" "n \<le> length ys" "\<forall>y \<in> set (take n ys). y < 2 ^ 32" "heap_ok h"
  shows "\<exists>buf' h'. BufU32Append h buf (Some (u32_bytes ys)) n = Some (0, buf', h') \<and> heap_ok h' \<and> holds buf' (xs @ take n ys)"
proof -
  have inv: "elem_inv 4 buf" "buf_size buf = length xs" using assms(1) holds_size by (auto simp: holds_def)
  have u: "u64 (n * 4) = 4 * n" using assms(2) by simp
  have eq: "BufU32Append h buf (Some (u32_bytes ys)) n = BufU32Append h buf (Some (u32_bytes (take n ys))) n"
    unfolding BufU32Append_def u using BufAppend_take [of "4 * n" "u32_bytes ys"] assms(3) by (simp add: take_u32_bytes)
  have "length (u32_bytes (take n ys)) = n * 4" "(buf_size buf + n) * 4 \<le> 2 ^ 31"
    using assms(2,3) inv(2) by simp_all
  from BufU32Append_spec [OF inv(1) this, of h] assms(5) obtain buf' h' where
    b: "BufU32Append h buf (Some (u32_bytes (take n ys))) n = Some (0, buf', h')" "elem_inv 4 buf'" "heap_ok h'"
      "elem_contents 4 buf' = elem_contents 4 buf @ u32_bytes (take n ys)" by auto
  have "length (elem_contents 4 buf) mod 4 = 0"
  proof -
    have "buf_size buf * 4 \<le> length (buf_data buf)" using inv(1) by (simp add: elem_inv_def)
    then show ?thesis by (simp add: elem_contents_def min_absorb2)
  qed
  then have "blknos_of buf' = blknos_of buf @ take n ys"
    using blknos_of_contents [OF b(2)] blknos_of_contents [OF inv(1)] b(4) u32s_u32_bytes [OF assms(4)]
    by (simp add: u32s_append)
  with b assms(1) show ?thesis unfolding eq by (auto simp: holds_def)
qed

subsection \<open>The blocks of a file\<close>

text \<open>
  The reference: \<open>used\<close> is an array up to its first zero and \<open>ptrs\<close> the numbers in a block. \<open>file_blocks\<close>
  lists the blocks of an inode in order, with the blocks that hold numbers when \<open>inc\<close> is set.
\<close>

definition used :: "nat list \<Rightarrow> nat list" where
  "used xs = takeWhile (\<lambda>b. b \<noteq> 0) xs"

definition ptrs :: "('s \<Rightarrow> bytes) \<Rightarrow> 's ext2 \<Rightarrow> nat \<Rightarrow> nat list" where
  "ptrs img e b = u32s (blk img e b)"

definition level1 :: "('s \<Rightarrow> bytes) \<Rightarrow> 's ext2 \<Rightarrow> bool \<Rightarrow> nat list \<Rightarrow> nat list" where
  "level1 img e inc xs = (if inc then used xs else []) @ concat (map (\<lambda>b. used (ptrs img e b)) (used xs))"

definition level2 :: "('s \<Rightarrow> bytes) \<Rightarrow> 's ext2 \<Rightarrow> bool \<Rightarrow> nat list \<Rightarrow> nat list" where
  "level2 img e inc xs = (if inc then used xs else []) @ concat (map (\<lambda>b. level1 img e inc (ptrs img e b)) (used xs))"

definition through :: "('s \<Rightarrow> bytes) \<Rightarrow> 's ext2 \<Rightarrow> bool \<Rightarrow> (nat list \<Rightarrow> nat list) \<Rightarrow> nat \<Rightarrow> nat list" where
  "through img e inc f b = (if b = 0 then [] else (if inc then [b] else []) @ f (ptrs img e b))"

definition file_blocks :: "('s \<Rightarrow> bytes) \<Rightarrow> 's ext2 \<Rightarrow> bool \<Rightarrow> bytes \<Rightarrow> nat list" where
  "file_blocks img e inc inode =
     used (take 12 (i_block inode)) @
     through img e inc used (i_block inode ! 12) @
     through img e inc (level1 img e inc) (i_block inode ! 13) @
     through img e inc (level2 img e inc) (i_block inode ! 14)"

lemma length_i_block [simp]: "length (i_block inode) = 15"
  by (simp add: i_block_def)

lemma i_block_bound: "x \<in> set (i_block inode) \<Longrightarrow> x < 2 ^ 32"
proof -
  assume "x \<in> set (i_block inode)"
  then obtain j where x: "x = le_nat (slice j 4 inode)" by (auto simp: i_block_def)
  have "le_nat (slice j 4 inode) < 256 ^ length (slice j 4 inode)" by (rule le_nat_bound)
  also have "\<dots> \<le> 256 ^ 4" by (rule power_increasing) simp_all
  finally show ?thesis by (simp add: x)
qed

text \<open>A run of consecutive blocks is one range of the image.\<close>

lemma run_length_spec:
  assumes "\<forall>x \<in> set (b # bs). x + 1 < 2 ^ 32"
  shows "1 \<le> run_length (b # bs) \<and> run_length (b # bs) \<le> length (b # bs) \<and>
    take (run_length (b # bs)) (b # bs) = [b..<b + run_length (b # bs)]"
  using assms
proof (induction bs arbitrary: b)
  case (Cons c bs)
  show ?case
  proof (cases "c = u32 (b + 1)")
    case True
    with Cons.prems have c: "c = b + 1" by simp
    have "\<forall>x \<in> set (c # bs). x + 1 < 2 ^ 32" using Cons.prems by simp
    from Cons.IH [OF this] True show ?thesis unfolding c
      by (simp add: upt_conv_Cons del: upt_Suc)
  qed simp
qed simp

lemma concat_blks:
  assumes "\<forall>x \<in> set [b..<b + n]. blk_in img e x"
  shows "concat (map (blk img e) [b..<b + n]) = slice (b * fs_block_size e) (n * fs_block_size e) (img (fs_dev e))"
  using assms
proof (induction n)
  case (Suc n)
  then have "concat (map (blk img e) [b..<b + Suc n]) =
      slice (b * fs_block_size e) (n * fs_block_size e) (img (fs_dev e)) @ blk img e (b + n)" by simp
  also have "\<dots> = slice (b * fs_block_size e) (n * fs_block_size e + fs_block_size e) (img (fs_dev e))"
    using slice_split [of "b * fs_block_size e" "n * fs_block_size e" "fs_block_size e" "img (fs_dev e)"]
    by (simp add: blk_def add_mult_distrib)
  finally show ?case by (simp add: algebra_simps)
qed simp

lemma length_concat_blks:
  "\<forall>x \<in> set xs. blk_in img e x \<Longrightarrow> length (concat (map (blk img e) xs)) = length xs * fs_block_size e"
  by (induction xs) (simp_all add: length_blk)

text \<open>The blocks of the data are among all blocks of the file.\<close>

lemma file_blocks_subset: "set (file_blocks img e False inode) \<subseteq> set (file_blocks img e True inode)"
proof -
  have "set (level1 img e False xs) \<subseteq> set (level1 img e True xs)" for xs by (auto simp: level1_def)
  moreover from this have "set (level2 img e False xs) \<subseteq> set (level2 img e True xs)" for xs by (fastforce simp: level2_def)
  ultimately show ?thesis unfolding file_blocks_def through_def by (simp split: if_split) blast
qed

text \<open>A byte buffer that holds \<open>d\<close>.\<close>

definition filled :: "buf \<Rightarrow> bytes \<Rightarrow> bool" where
  "filled buf d \<longleftrightarrow> buf_inv buf \<and> buf_contents buf = d"

lemma filled_size: "filled buf d \<Longrightarrow> buf_size buf = length d"
  by (auto simp: filled_def buf_inv_def buf_contents_def)

lemma filled_append:
  assumes "filled buf d" "length d + n \<le> 2 ^ 31" "n \<le> length x" "heap_ok h"
  shows "\<exists>buf' h'. BufAppend h buf (Some x) n = Some (0, buf', h') \<and> heap_ok h' \<and> filled buf' (d @ take n x)"
proof -
  have "buf_inv buf" "buf_size buf + length (take n x) \<le> 2 ^ 31" "length (take n x) = n"
    using assms filled_size [OF assms(1)] by (simp_all add: filled_def)
  from BufAppend_spec [OF this(1,2), of h] this(3) assms(1,3,4) show ?thesis
    unfolding BufAppend_take [OF assms(3)] by (auto simp: filled_def)
qed

context blkdev_image
begin

lemma fs_read_runs:
  assumes "ext2_ok inv ready image e" "off + n \<le> length (image (fs_dev e))" "0 < n"
  shows "runs (fs_read D err off n) e (\<lambda>d e'. d = slice off n (image (fs_dev e)) \<and> keeps inv ready image e e')"
proof -
  have ok: "inv (fs_dev e)" "ready (fs_dev e)" "n < 2 ^ 32" "length (image (fs_dev e)) < 2 ^ 41"
    using assms by (auto simp: ext2_ok_def)
  from Read_image [OF ok(1,2) assms(2) ok(3,4) assms(3)] obtain s' where
    s': "Ext2Read D (fs_dev e) off n = Some (Some (slice off n (image (fs_dev e))), s')"
      "inv s'" "ready s'" "image s' = image (fs_dev e)" by blast
  then have "keeps inv ready image e (e\<lparr>fs_dev := s'\<rparr>)"
    using assms(1) by (auto simp: keeps_def ext2_ok_def EXT2Valid_def intro!: exI [of _ s'] exI [of _ "fs_heap e"])
  with s'(1) show ?thesis by (simp add: runs_def fs_read_def)
qed

lemma ReadBlock_runs:
  assumes "ext2_ok inv ready image e" "blk_in image e b"
  shows "runs (EXT2ReadBlock D b) e (\<lambda>block e'. blk_size block = fs_block_size e \<and> length (blk_data block) = EXT2_MAX_BLOCK_SIZE \<and>
    take (fs_block_size e) (blk_data block) = blk image e b \<and> keeps inv ready image e e')"
proof -
  note bs = ok_block_size [OF assms(1)] and off = blk_in_offset [OF assms]
  have nb: "\<not> fs_block_size e > EXT2_MAX_BLOCK_SIZE" using bs by (simp add: ext2_constants)
  have "length (blk image e b) = fs_block_size e" using assms(2) by (rule length_blk)
  then show ?thesis unfolding EXT2ReadBlock_def
    apply (rule_tac runs_andthen)
    apply (rule runs_reads)
    apply (simp only: id_apply bs(6) nb if_False not_True_eq_False off(1))
    apply (rule runs_andthenI)
     apply (rule fs_read_runs [OF assms(1) off(2)])
    using bs apply simp
    apply (rule runs_success)
    using bs apply (simp add: blk_def ext2_constants)
    done
qed

lemma AppendDirect_runs:
  assumes "ext2_ok inv ready image e" "holds buf xs" "\<forall>y \<in> set (used (take n blocks)). y < 2 ^ 32"
    and "(length xs + length (used (take n blocks))) * 4 \<le> 2 ^ 31"
  shows "runs (AppendDirectBlockNumbers blocks n buf) e
    (\<lambda>buf' e'. holds buf' (xs @ used (take n blocks)) \<and> keeps inv ready image e e')"
proof -
  let ?m = "length (used (take n blocks))"
  have pre: "take ?m blocks = used (take n blocks)" "?m \<le> length blocks"
    by (metis used_def takeWhile_eq_take take_take length_take min.absorb_iff1 length_takeWhile_le min.cobounded1 le_trans)
       (metis used_def length_takeWhile_le length_take min.cobounded1 le_trans)
  show ?thesis
  proof (cases "?m = 0")
    case True
    then show ?thesis unfolding AppendDirectBlockNumbers_def Let_def
      using assms(1,2) by (auto simp: used_def intro!: runs_success keeps_refl)
  next
    case False
    have "runs (with_heap (\<lambda>h. BufU32Append h buf (Some (u32_bytes blocks)) ?m)) e
      (\<lambda>buf' e'. holds buf' (xs @ used (take n blocks)) \<and> keeps inv ready image e e')"
    proof (rule runs_with_heap [OF assms(1)])
      fix h assume "heap_ok h"
      with holds_append [OF assms(2,4) pre(2), of h] assms(3)
      show "\<exists>x h'. BufU32Append h buf (Some (u32_bytes blocks)) ?m = Some (0, x, h') \<and> heap_ok h' \<and>
        holds x (xs @ used (take n blocks))" unfolding pre(1) by blast
    qed
    with False show ?thesis by (simp add: AppendDirectBlockNumbers_def used_def Let_def)
  qed
qed

text \<open>The numbers in a block that was read.\<close>

lemma read_ptrs:
  assumes "ext2_ok inv ready image e" "blk_size block = fs_block_size e" "length (blk_data block) = EXT2_MAX_BLOCK_SIZE"
    and "take (fs_block_size e) (blk_data block) = blk image e b"
  shows "take (blk_size block div 4) (u32s (blk_data block)) = ptrs image e b"
proof -
  note bs = ok_block_size [OF assms(1)]
  have "4 * (fs_block_size e div 4) = fs_block_size e" using bs(4) by presburger
  then show ?thesis
    using u32s_take [of "fs_block_size e div 4" "blk_data block"] assms(2,3,4) bs(2) by (simp add: ptrs_def ext2_constants)
qed

lemma each_block_runs:
  assumes ok: "ext2_ok inv ready image e"
    and f: "\<And>e0 buf xs b ns n. keeps inv ready image e e0 \<Longrightarrow> b \<in> set (used bs) \<Longrightarrow> holds buf xs \<Longrightarrow>
      take n ns = ptrs image e b \<Longrightarrow> (length xs + length (g (ptrs image e b))) * 4 \<le> 2 ^ 31 \<Longrightarrow>
      runs (f ns n buf) e0 (\<lambda>buf' e'. holds buf' (xs @ g (ptrs image e b)) \<and> keeps inv ready image e0 e')"
    and blks: "\<forall>b \<in> set (used bs). blk_in image e b"
    and "keeps inv ready image e e0" "holds buf xs"
    and "(length xs + length (concat (map (\<lambda>b. g (ptrs image e b)) (used bs)))) * 4 \<le> 2 ^ 31"
  shows "runs (each_block D f bs buf) e0
    (\<lambda>buf' e'. holds buf' (xs @ concat (map (\<lambda>b. g (ptrs image e b)) (used bs))) \<and> keeps inv ready image e0 e')"
  using f blks assms(4-)
proof (induction bs arbitrary: buf xs e0)
  case Nil
  then show ?case using keepsD(1) by (auto simp: used_def intro!: runs_success keeps_refl)
next
  case (Cons b bs)
  show ?case
  proof (cases "b = 0")
    case True
    then show ?thesis using Cons.prems keepsD(1) by (auto simp: used_def intro!: runs_success keeps_refl)
  next
    case False
    then have u: "used (b # bs) = b # used bs" by (simp add: used_def)
    note k = keepsD [OF Cons.prems(3)]
    have "blk_in image e0 b" using Cons.prems(2) u k by simp
    note rb = ReadBlock_runs [OF k(1) this]
    have len: "(length xs + length (g (ptrs image e b))) * 4 \<le> 2 ^ 31" using Cons.prems(5) u by simp
    have "runs (andthen (EXT2ReadBlock D b) (\<lambda>block.
        andthen (f (u32s (blk_data block)) (blk_size block div 4) buf) (\<lambda>buf. each_block D f bs buf))) e0
      (\<lambda>buf' e'. holds buf' ((xs @ g (ptrs image e b)) @ concat (map (\<lambda>b. g (ptrs image e b)) (used bs))) \<and> keeps inv ready image e0 e')"
    proof (rule runs_andthenI [OF rb], elim conjE)
      fix block e1
      assume b1: "blk_size block = fs_block_size e0" "length (blk_data block) = EXT2_MAX_BLOCK_SIZE"
        "take (fs_block_size e0) (blk_data block) = blk image e0 b" and k1: "keeps inv ready image e0 e1"
      have p: "take (blk_size block div 4) (u32s (blk_data block)) = ptrs image e b"
        using read_ptrs [OF k(1) b1] k by (simp add: ptrs_def)
      have k1': "keeps inv ready image e e1" using keeps_trans [OF Cons.prems(3) k1] .
      show "runs (andthen (f (u32s (blk_data block)) (blk_size block div 4) buf) (\<lambda>buf. each_block D f bs buf)) e1
        (\<lambda>buf' e'. holds buf' ((xs @ g (ptrs image e b)) @ concat (map (\<lambda>b. g (ptrs image e b)) (used bs))) \<and> keeps inv ready image e0 e')"
      proof (rule runs_andthenI [OF Cons.prems(1) [OF k1' _ Cons.prems(4) p len]], simp add: u, elim conjE)
        fix buf2 e2
        assume h2: "holds buf2 (xs @ g (ptrs image e b))" and k2: "keeps inv ready image e1 e2"
        have "runs (each_block D f bs buf2) e2
          (\<lambda>buf' e'. holds buf' ((xs @ g (ptrs image e b)) @ concat (map (\<lambda>b. g (ptrs image e b)) (used bs))) \<and> keeps inv ready image e2 e')"
          by (rule Cons.IH [OF Cons.prems(1) _ keeps_trans [OF k1' k2] h2])
             (use Cons.prems(2,5) u in \<open>auto simp: algebra_simps\<close>)
        then show "runs (each_block D f bs buf2) e2
          (\<lambda>buf' e'. holds buf' ((xs @ g (ptrs image e b)) @ concat (map (\<lambda>b. g (ptrs image e b)) (used bs))) \<and> keeps inv ready image e0 e')"
          by (rule runs_mono) (use keeps_trans [OF keeps_trans [OF k1 k2]] in auto)
      qed
    qed
    with False u show ?thesis by simp
  qed
qed

text \<open>The numbers at the front, when the blocks that hold numbers are asked for.\<close>

lemma include_runs:
  assumes "ext2_ok inv ready image e" "holds buf xs" "\<forall>y \<in> set (used (take n blocks)). y < 2 ^ 32"
    and "(length xs + length (if inc then used (take n blocks) else [])) * 4 \<le> 2 ^ 31"
  shows "runs (if inc then AppendDirectBlockNumbers blocks n buf else success buf) e
    (\<lambda>buf' e'. holds buf' (xs @ (if inc then used (take n blocks) else [])) \<and> keeps inv ready image e e')"
  using AppendDirect_runs [OF assms(1,2,3)] assms by (auto intro!: runs_success keeps_refl)

lemma used_bound: "\<forall>y \<in> set (used (ptrs image e b)). y < 2 ^ 32"
  by (auto simp: used_def ptrs_def dest!: set_takeWhileD u32s_bound)

lemma AppendIndirect_runs:
  assumes ok: "ext2_ok inv ready image e" and k: "keeps inv ready image e e0" and h: "holds buf xs"
    and ns: "take n ns = ps" "\<forall>y \<in> set (used ps). y < 2 ^ 32 \<and> blk_in image e y"
    and len: "(length xs + length (level1 image e inc ps)) * 4 \<le> 2 ^ 31"
  shows "runs (AppendIndirectBlockNumbers D inc ns n buf) e0
    (\<lambda>buf' e'. holds buf' (xs @ level1 image e inc ps) \<and> keeps inv ready image e0 e')"
  unfolding AppendIndirectBlockNumbers_def
proof (rule runs_andthenI [OF include_runs [OF keepsD(1) [OF k] h]])
  show "\<forall>y\<in>set (used (take n ns)). y < 2 ^ 32" using ns by simp
  show "(length xs + length (if inc then used (take n ns) else [])) * 4 \<le> 2 ^ 31"
    using len ns(1) by (auto simp: level1_def)
  fix buf1 e1
  assume 1: "holds buf1 (xs @ (if inc then used (take n ns) else [])) \<and> keeps inv ready image e0 e1"
  have "runs (each_block D AppendDirectBlockNumbers ps buf1) e1
    (\<lambda>buf' e'. holds buf' ((xs @ (if inc then used ps else [])) @ concat (map (\<lambda>b. used (ptrs image e b)) (used ps))) \<and>
      keeps inv ready image e1 e')"
  proof (rule each_block_runs [OF ok, where g = used])
    fix e2 buf2 xs2 b ns2 n2
    assume a: "keeps inv ready image e e2" "holds buf2 xs2" "take n2 ns2 = ptrs image e b"
      "(length xs2 + length (used (ptrs image e b))) * 4 \<le> 2 ^ 31"
    from AppendDirect_runs [OF keepsD(1) [OF a(1)] a(2), of n2 ns2] a(3,4) used_bound [of e b]
    show "runs (AppendDirectBlockNumbers ns2 n2 buf2) e2 (\<lambda>buf' e'. holds buf' (xs2 @ used (ptrs image e b)) \<and> keeps inv ready image e2 e')"
      by simp
  qed (use 1 ns k len in \<open>auto simp: level1_def dest: keeps_trans\<close>)
  then show "runs (each_block D AppendDirectBlockNumbers (take n ns) buf1) e1
    (\<lambda>buf' e'. holds buf' (xs @ level1 image e inc ps) \<and> keeps inv ready image e0 e')"
    unfolding ns(1) by (rule runs_mono) (use 1 in \<open>auto simp: level1_def dest: keeps_trans\<close>)
qed

lemma AppendDoubleIndirect_runs:
  assumes ok: "ext2_ok inv ready image e" and k: "keeps inv ready image e e0" and h: "holds buf xs"
    and ns: "take n ns = ps" "\<forall>y \<in> set (used ps). y < 2 ^ 32 \<and> blk_in image e y"
      "\<forall>y \<in> set (used ps). \<forall>z \<in> set (used (ptrs image e y)). blk_in image e z"
    and len: "(length xs + length (level2 image e inc ps)) * 4 \<le> 2 ^ 31"
  shows "runs (AppendDoubleIndirectBlockNumbers D inc ns n buf) e0
    (\<lambda>buf' e'. holds buf' (xs @ level2 image e inc ps) \<and> keeps inv ready image e0 e')"
  unfolding AppendDoubleIndirectBlockNumbers_def
proof (rule runs_andthenI [OF include_runs [OF keepsD(1) [OF k] h]])
  show "\<forall>y\<in>set (used (take n ns)). y < 2 ^ 32" using ns by simp
  show "(length xs + length (if inc then used (take n ns) else [])) * 4 \<le> 2 ^ 31"
    using len ns(1) by (auto simp: level2_def)
  fix buf1 e1
  assume 1: "holds buf1 (xs @ (if inc then used (take n ns) else [])) \<and> keeps inv ready image e0 e1"
  have "runs (each_block D (AppendIndirectBlockNumbers D inc) ps buf1) e1
    (\<lambda>buf' e'. holds buf' ((xs @ (if inc then used ps else [])) @ concat (map (\<lambda>b. level1 image e inc (ptrs image e b)) (used ps))) \<and>
      keeps inv ready image e1 e')"
  proof (rule each_block_runs [OF ok, where g = "level1 image e inc"])
    fix e2 buf2 xs2 b ns2 n2
    assume a: "keeps inv ready image e e2" "b \<in> set (used ps)" "holds buf2 xs2" "take n2 ns2 = ptrs image e b"
      "(length xs2 + length (level1 image e inc (ptrs image e b))) * 4 \<le> 2 ^ 31"
    then show "runs (AppendIndirectBlockNumbers D inc ns2 n2 buf2) e2
        (\<lambda>buf' e'. holds buf' (xs2 @ level1 image e inc (ptrs image e b)) \<and> keeps inv ready image e2 e')"
      using ns(3) used_bound [of e b] by (intro AppendIndirect_runs [OF ok]) auto
  qed (use 1 ns k len in \<open>auto simp: level2_def dest: keeps_trans\<close>)
  then show "runs (each_block D (AppendIndirectBlockNumbers D inc) (take n ns) buf1) e1
    (\<lambda>buf' e'. holds buf' (xs @ level2 image e inc ps) \<and> keeps inv ready image e0 e')"
    unfolding ns(1) by (rule runs_mono) (use 1 in \<open>auto simp: level2_def dest: keeps_trans\<close>)
qed

lemma through_block_runs:
  assumes ok: "ext2_ok inv ready image e" and k: "keeps inv ready image e e0" and h: "holds buf xs"
    and b: "b < 2 ^ 32" "b \<noteq> 0 \<Longrightarrow> blk_in image e b"
    and f: "\<And>e1 buf1 xs1 ns n. b \<noteq> 0 \<Longrightarrow> keeps inv ready image e e1 \<Longrightarrow> holds buf1 xs1 \<Longrightarrow> take n ns = ptrs image e b \<Longrightarrow>
      (length xs1 + length (g (ptrs image e b))) * 4 \<le> 2 ^ 31 \<Longrightarrow>
      runs (f ns n buf1) e1 (\<lambda>buf' e'. holds buf' (xs1 @ g (ptrs image e b)) \<and> keeps inv ready image e1 e')"
    and len: "(length xs + length (through image e inc g b)) * 4 \<le> 2 ^ 31"
  shows "runs (through_block D inc f b buf) e0
    (\<lambda>buf' e'. holds buf' (xs @ through image e inc g b) \<and> keeps inv ready image e0 e')"
proof (cases "b = 0")
  case True
  with h keepsD(1) [OF k] show ?thesis
    by (auto simp: through_block_def through_def intro!: runs_success keeps_refl)
next
  case False
  note kd = keepsD [OF k]
  have "blk_in image e0 b" using b(2) [OF False] kd by simp
  note rb = ReadBlock_runs [OF kd(1) this]
  let ?xs = "xs @ (if inc then [b] else [])"
  have "runs (andthen (EXT2ReadBlock D b) (\<lambda>block.
      andthen (if inc then with_heap (\<lambda>h. BufU32Append h buf (Some (u32_bytes [b])) 1) else success buf) (\<lambda>buf.
      f (u32s (blk_data block)) (blk_size block div 4) buf))) e0
    (\<lambda>buf' e'. holds buf' (xs @ through image e inc g b) \<and> keeps inv ready image e0 e')"
  proof (rule runs_andthenI [OF rb], elim conjE)
    fix block e1
    assume b1: "blk_size block = fs_block_size e0" "length (blk_data block) = EXT2_MAX_BLOCK_SIZE"
      "take (fs_block_size e0) (blk_data block) = blk image e0 b" and k1: "keeps inv ready image e0 e1"
    have p: "take (blk_size block div 4) (u32s (blk_data block)) = ptrs image e b"
      using read_ptrs [OF kd(1) b1] kd by (simp add: ptrs_def)
    have len1: "(length ?xs + length (g (ptrs image e b))) * 4 \<le> 2 ^ 31"
      using len False by (auto simp: through_def)
    have inc: "runs (if inc then with_heap (\<lambda>h. BufU32Append h buf (Some (u32_bytes [b])) 1) else success buf) e1
      (\<lambda>buf' e'. holds buf' ?xs \<and> keeps inv ready image e1 e')"
    proof (cases inc)
      case True
      have "runs (with_heap (\<lambda>h. BufU32Append h buf (Some (u32_bytes [b])) 1)) e1 (\<lambda>buf' e'. holds buf' (xs @ [b]) \<and> keeps inv ready image e1 e')"
      proof (rule runs_with_heap [OF keepsD(1) [OF k1]])
        fix h assume "heap_ok h"
        with holds_append [OF h, of 1 "[b]" h] b(1) len1 True
        show "\<exists>x h'. BufU32Append h buf (Some (u32_bytes [b])) 1 = Some (0, x, h') \<and> heap_ok h' \<and> holds x (xs @ [b])" by auto
      qed
      with True show ?thesis by simp
    qed (use h keepsD(1) [OF k1] in \<open>auto intro!: runs_success keeps_refl\<close>)
    show "runs (andthen (if inc then with_heap (\<lambda>h. BufU32Append h buf (Some (u32_bytes [b])) 1) else success buf) (\<lambda>buf.
        f (u32s (blk_data block)) (blk_size block div 4) buf)) e1
      (\<lambda>buf' e'. holds buf' (xs @ through image e inc g b) \<and> keeps inv ready image e0 e')"
    proof (rule runs_andthenI [OF inc], elim conjE)
      fix buf2 e2
      assume h2: "holds buf2 ?xs" and k2: "keeps inv ready image e1 e2"
      have "runs (f (u32s (blk_data block)) (blk_size block div 4) buf2) e2
        (\<lambda>buf' e'. holds buf' (?xs @ g (ptrs image e b)) \<and> keeps inv ready image e2 e')"
        by (rule f [OF False keeps_trans [OF k keeps_trans [OF k1 k2]] h2 p len1])
      then show "runs (f (u32s (blk_data block)) (blk_size block div 4) buf2) e2
        (\<lambda>buf' e'. holds buf' (xs @ through image e inc g b) \<and> keeps inv ready image e0 e')"
        by (rule runs_mono) (use False k1 k2 in \<open>auto simp: through_def dest: keeps_trans split: if_splits\<close>)
    qed
  qed
  with False show ?thesis by (simp add: through_block_def)
qed

lemma file_blocks_Cons:
  "file_blocks image e inc inode = used (take 12 (i_block inode)) @ through image e inc used (i_block inode ! 12) @
    through image e inc (level1 image e inc) (i_block inode ! 13) @ through image e inc (level2 image e inc) (i_block inode ! 14)"
  by (simp add: file_blocks_def)

lemma LoadBlockNumbers_runs:
  assumes ok: "ext2_ok inv ready image e" and h: "holds buf xs"
    and blks: "\<forall>b \<in> set (file_blocks image e True inode). blk_in image e b"
    and len: "(length xs + length (file_blocks image e inc inode)) * 4 \<le> 2 ^ 31"
  shows "runs (LoadBlockNumbersFromInode D inode inc buf) e
    (\<lambda>buf' e'. holds buf' (xs @ file_blocks image e inc inode) \<and> keeps inv ready image e e')"
proof -
  let ?ib = "i_block inode"
  have small: "?ib ! j < 2 ^ 32" if "j < 15" for j
    using that i_block_bound [of "?ib ! j" inode] by simp
  have d: "\<forall>y \<in> set (used (take 12 ?ib)). y < 2 ^ 32"
    by (auto simp: used_def dest!: set_takeWhileD in_set_takeD i_block_bound)
  have in1: "?ib ! 12 \<noteq> 0 \<Longrightarrow> blk_in image e (?ib ! 12)" and in2: "?ib ! 13 \<noteq> 0 \<Longrightarrow> blk_in image e (?ib ! 13)"
    and in3: "?ib ! 14 \<noteq> 0 \<Longrightarrow> blk_in image e (?ib ! 14)"
    using blks by (auto simp: file_blocks_def through_def)
  have lv1: "?ib ! 13 \<noteq> 0 \<Longrightarrow> \<forall>y \<in> set (used (ptrs image e (?ib ! 13))). blk_in image e y"
    using blks by (auto simp: file_blocks_def through_def level1_def)
  have lv2: "?ib ! 14 \<noteq> 0 \<Longrightarrow> \<forall>y \<in> set (used (ptrs image e (?ib ! 14))). blk_in image e y \<and>
      (\<forall>z \<in> set (used (ptrs image e y)). blk_in image e z)"
    using blks by (fastforce simp: file_blocks_def through_def level1_def level2_def)
  let ?n1 = "xs @ used (take 12 ?ib)"
  let ?n2 = "?n1 @ through image e inc used (?ib ! 12)"
  let ?n3 = "?n2 @ through image e inc (level1 image e inc) (?ib ! 13)"
  have s1: "runs (AppendDirectBlockNumbers ?ib 12 buf) e (\<lambda>buf' e'. holds buf' ?n1 \<and> keeps inv ready image e e')"
    by (rule AppendDirect_runs [OF ok h d]) (use len in \<open>simp add: file_blocks_def\<close>)
  have s2: "runs (through_block D inc AppendDirectBlockNumbers (?ib ! 12) b1) e1 (\<lambda>buf' e'. holds buf' ?n2 \<and> keeps inv ready image e1 e')"
    if "keeps inv ready image e e1" "holds b1 ?n1" for e1 b1
  proof (rule through_block_runs [OF ok that small in1])
    fix e2 buf2 xs2 ns n
    assume "keeps inv ready image e e2" "holds buf2 xs2" "take n ns = ptrs image e (?ib ! 12)"
      "(length xs2 + length (used (ptrs image e (?ib ! 12)))) * 4 \<le> 2 ^ 31"
    then show "runs (AppendDirectBlockNumbers ns n buf2) e2
        (\<lambda>buf' e'. holds buf' (xs2 @ used (ptrs image e (?ib ! 12))) \<and> keeps inv ready image e2 e')"
      using AppendDirect_runs [of e2 buf2 xs2 n ns] keepsD(1) used_bound [of e "?ib ! 12"] by fastforce
  qed (use len in \<open>simp_all add: file_blocks_def\<close>)
  have s3: "runs (through_block D inc (AppendIndirectBlockNumbers D inc) (?ib ! 13) b2) e2 (\<lambda>buf' e'. holds buf' ?n3 \<and> keeps inv ready image e2 e')"
    if "keeps inv ready image e e2" "holds b2 ?n2" for e2 b2
    by (rule through_block_runs [OF ok that small in2])
       (use len lv1 used_bound in \<open>auto simp: file_blocks_def intro!: AppendIndirect_runs [OF ok]\<close>)
  have s4: "runs (through_block D inc (AppendDoubleIndirectBlockNumbers D inc) (?ib ! 14) b3) e3
      (\<lambda>buf' e'. holds buf' (xs @ file_blocks image e inc inode) \<and> keeps inv ready image e3 e')"
    if "keeps inv ready image e e3" "holds b3 ?n3" for e3 b3
  proof -
    have "runs (through_block D inc (AppendDoubleIndirectBlockNumbers D inc) (?ib ! 14) b3) e3
      (\<lambda>buf' e'. holds buf' (?n3 @ through image e inc (level2 image e inc) (?ib ! 14)) \<and> keeps inv ready image e3 e')"
      by (rule through_block_runs [OF ok that small in3])
         (use len lv2 used_bound in \<open>auto simp: file_blocks_def intro!: AppendDoubleIndirect_runs [OF ok]\<close>)
    then show ?thesis by (simp add: file_blocks_def)
  qed
  have "runs (andthen (AppendDirectBlockNumbers ?ib 12 buf) (\<lambda>buf.
      andthen (through_block D inc AppendDirectBlockNumbers (?ib ! 12) buf) (\<lambda>buf.
      andthen (through_block D inc (AppendIndirectBlockNumbers D inc) (?ib ! 13) buf) (\<lambda>buf.
      through_block D inc (AppendDoubleIndirectBlockNumbers D inc) (?ib ! 14) buf)))) e
    (\<lambda>buf' e'. holds buf' (xs @ file_blocks image e inc inode) \<and> keeps inv ready image e e')"
    apply (rule runs_andthenI [OF s1], elim conjE)
    apply (rule runs_andthenI [OF s2], assumption, assumption, elim conjE)
    apply (rule runs_andthenI [OF s3], erule (1) keeps_trans, assumption, elim conjE)
    apply (rule runs_mono [OF s4])
    by (auto dest: keeps_trans)
  then show ?thesis
    using ok_block_size(6) [OF ok]
    by (simp add: LoadBlockNumbersFromInode_def runs_def andthen_def reads_def EXT2_SINGLE_INDIRECT_BLOCK_def
        EXT2_DOUBLE_INDIRECT_BLOCK_def EXT2_TRIPLE_INDIRECT_BLOCK_def)
qed

lemma ReadBlocks_runs:
  assumes ok: "ext2_ok inv ready image e" and "filled buf d" "0 < n" "\<forall>x \<in> set [b..<b + n]. blk_in image e x"
    and len: "length d + n * fs_block_size e \<le> 2 ^ 31"
  shows "runs (ReadBlocks D b n buf) e
    (\<lambda>buf' e'. filled buf' (d @ concat (map (blk image e) [b..<b + n])) \<and> keeps inv ready image e e')"
proof -
  let ?bs = "fs_block_size e" and ?c = "concat (map (blk image e) [b..<b + n])"
  note bs = ok_block_size [OF ok]
  have size: "buf_size buf = length d" "buf_inv buf" using assms(2) filled_size by (auto simp: filled_def)
  have u: "u32 (n * ?bs) = n * ?bs" "u64 (length d + n * ?bs) = length d + n * ?bs" using len by simp_all
  have "b + n - 1 \<in> set [b..<b + n]" using assms(3) by simp
  with assms(4) have "(b + n - 1 + 1) * ?bs \<le> length (image (fs_dev e))" by (simp only: blk_in_def)
  then have range: "b * ?bs + n * ?bs \<le> length (image (fs_dev e))" using assms(3) by (simp add: algebra_simps)
  have off: "BlockOffset b ?bs = b * ?bs" using assms(3,4) by (intro blk_in_offset(1) [OF ok]) simp
  have c: "?c = slice (b * ?bs) (n * ?bs) (image (fs_dev e))" using assms(4) by (rule concat_blks)
  have res: "runs (with_error EXT2_ERR_FAILED (with_heap (\<lambda>h. Some (BufReserve h buf (length d + n * ?bs))))) e
    (\<lambda>b' e'. (filled b' d \<and> length d + n * ?bs \<le> buf_cap b') \<and> keeps inv ready image e e')"
  proof (rule runs_with_error, rule runs_with_heap [OF ok])
    fix h assume "heap_ok h"
    with BufReserve_spec [OF size(2) len, of h] assms(2)
    show "\<exists>x h'. Some (BufReserve h buf (length d + n * ?bs)) = Some (0, x, h') \<and> heap_ok h' \<and>
      filled x d \<and> length d + n * ?bs \<le> buf_cap x" by (auto simp: filled_def)
  qed
  have "runs (andthen (with_error EXT2_ERR_FAILED (with_heap (\<lambda>h. Some (BufReserve h buf (length d + n * ?bs))))) (\<lambda>buf.
      andthen (fs_read D EXT2_ERR_READ_FAILED (b * ?bs) (n * ?bs)) (\<lambda>d.
      andthen (access (store (buf_size buf) d (buf_data buf))) (\<lambda>m.
      success (buf\<lparr>buf_data := m, buf_size := u64 (buf_size buf + n * ?bs)\<rparr>))))) e
    (\<lambda>buf' e'. filled buf' (d @ ?c) \<and> keeps inv ready image e e')"
  proof (rule runs_andthenI [OF res], elim conjE)
    fix b1 e1
    assume b1: "filled b1 d" "length d + n * ?bs \<le> buf_cap b1" and k1: "keeps inv ready image e e1"
    note kd = keepsD [OF k1]
    have rd: "runs (fs_read D EXT2_ERR_READ_FAILED (b * ?bs) (n * ?bs)) e1 (\<lambda>x e'. x = ?c \<and> keeps inv ready image e1 e')"
      using fs_read_runs [OF kd(1), of "b * ?bs" "n * ?bs" EXT2_ERR_READ_FAILED] range kd(2) bs(5) assms(3) c by simp
    show "runs (andthen (fs_read D EXT2_ERR_READ_FAILED (b * ?bs) (n * ?bs)) (\<lambda>d.
      andthen (access (store (buf_size b1) d (buf_data b1))) (\<lambda>m.
      success (b1\<lparr>buf_data := m, buf_size := u64 (buf_size b1 + n * ?bs)\<rparr>)))) e1
      (\<lambda>buf' e'. filled buf' (d @ ?c) \<and> keeps inv ready image e e')"
    proof (rule runs_andthenI [OF rd], elim conjE)
      fix x e2 assume x: "x = ?c" and k2: "keeps inv ready image e1 e2"
      have lx: "length x = n * ?bs" using x c range by simp
      have sz: "buf_size b1 = length d" using filled_size [OF b1(1)] .
      have data: "length (buf_data b1) = buf_cap b1" "take (length d) (buf_data b1) = d" "buf_cap b1 < 2 ^ 32"
        using b1(1) sz by (simp_all add: filled_def buf_inv_def buf_contents_def)
      have st: "store (buf_size b1) x (buf_data b1) = Some (overwrite (length d) x (buf_data b1))"
        using sz lx b1(2) data(1) by (simp add: store_def)
      have "filled (b1\<lparr>buf_data := overwrite (length d) x (buf_data b1), buf_size := u64 (buf_size b1 + n * ?bs)\<rparr>) (d @ ?c)"
        using sz u(2) lx b1(2) data x by (simp add: filled_def buf_inv_def buf_contents_def overwrite_def)
      with st keeps_trans [OF k1 k2] show "runs (andthen (access (store (buf_size b1) x (buf_data b1))) (\<lambda>m.
          success (b1\<lparr>buf_data := m, buf_size := u64 (buf_size b1 + n * ?bs)\<rparr>))) e2
        (\<lambda>buf' e'. filled buf' (d @ ?c) \<and> keeps inv ready image e e')"
        by (simp add: runs_def andthen_def access_def success_def)
    qed
  qed
  with bs(6) u size off show ?thesis
    unfolding ReadBlocks_def by (intro runs_andthen runs_reads) (simp add: Let_def)
qed

lemma blk_in_small:
  assumes "ext2_ok inv ready image e" "blk_in image e b"
  shows "b + 1 < 2 ^ 32"
proof -
  have "(b + 1) * fs_block_size e < 2 ^ 32" using assms by (simp add: ext2_ok_def blk_in_def)
  moreover have "(b + 1) * 1 \<le> (b + 1) * fs_block_size e"
    by (rule mult_le_mono2) (use ok_block_size(1) [OF assms(1)] in simp)
  ultimately show ?thesis by (metis le_less_trans mult.right_neutral)
qed

lemma load_runs_runs:
  assumes ok: "ext2_ok inv ready image e"
    and "\<forall>b \<in> set bs. blk_in image e b" "keeps inv ready image e e0" "filled buf d"
    and "length d + length bs * fs_block_size e \<le> 2 ^ 31"
  shows "runs (load_runs D bs buf) e0
    (\<lambda>r e'. (\<exists>buf'. r = Some buf' \<and> filled buf' (d @ concat (map (blk image e) bs))) \<and> keeps inv ready image e0 e')"
  using assms(2-)
proof (induction bs arbitrary: buf d e0 rule: length_induct)
  case (1 bs)
  note k = keepsD [OF 1(3)]
  show ?case
  proof (cases bs)
    case Nil
    with 1(4) k(1) show ?thesis by (auto intro!: runs_success keeps_refl)
  next
    case (Cons b rest)
    define n where "n = run_length (b # rest)"
    have "\<forall>x \<in> set (b # rest). x + 1 < 2 ^ 32" using 1(2) Cons blk_in_small [OF ok] by auto
    from run_length_spec [OF this] have n: "1 \<le> n" "n \<le> length (b # rest)" "take n (b # rest) = [b..<b + n]"
      by (auto simp: n_def)
    have "drop n (b # rest) = drop (n - 1) rest" using n(1) by (cases n) auto
    with append_take_drop_id [of n "b # rest"] n(3) Cons have split: "bs = [b..<b + n] @ drop (n - 1) rest" by metis
    have ins: "\<forall>x \<in> set [b..<b + n]. blk_in image e x" "\<forall>x \<in> set (drop (n - 1) rest). blk_in image e x"
      using 1(2) unfolding split by auto
    have lens: "length (concat (map (blk image e) [b..<b + n])) = n * fs_block_size e"
      using length_concat_blks [OF ins(1)] by simp
    have lbs: "length bs = n + length (drop (n - 1) rest)" by (subst split) simp
    have tot: "length d + n * fs_block_size e + length (drop (n - 1) rest) * fs_block_size e \<le> 2 ^ 31"
      using 1(5) unfolding lbs by (simp add: algebra_simps)
    have rec: "runs (load_runs D (drop (n - 1) rest) b1) e1
        (\<lambda>r e'. (\<exists>buf'. r = Some buf' \<and> filled buf' (d @ concat (map (blk image e) bs))) \<and> keeps inv ready image e0 e')"
      if "filled b1 (d @ concat (map (blk image e) [b..<b + n]))" "keeps inv ready image e0 e1" for b1 e1
    proof -
      have "length (drop (n - 1) rest) < length bs" using Cons by simp
      then have "runs (load_runs D (drop (n - 1) rest) b1) e1
        (\<lambda>r e'. (\<exists>buf'. r = Some buf' \<and> filled buf' ((d @ concat (map (blk image e) [b..<b + n])) @
          concat (map (blk image e) (drop (n - 1) rest)))) \<and> keeps inv ready image e1 e')"
        by (rule 1(1) [rule_format])
           (use ins(2) keeps_trans [OF 1(3) that(2)] that(1) tot lens in \<open>simp_all only: length_append add.assoc\<close>)
      then show ?thesis
        by (rule runs_mono) (use keeps_trans [OF that(2)] split in \<open>auto simp flip: concat_append map_append\<close>)
    qed
    show ?thesis
    proof (cases "n = 1")
      case True
      have in0: "blk_in image e0 b" using ins(1) True k by simp
      have "runs (andthen (EXT2ReadBlock D b) (\<lambda>block.
          andthen (with_heap (\<lambda>h. BufAppend h buf (Some (blk_data block)) (blk_size block))) (\<lambda>buf.
          load_runs D rest buf))) e0
        (\<lambda>r e'. (\<exists>buf'. r = Some buf' \<and> filled buf' (d @ concat (map (blk image e) bs))) \<and> keeps inv ready image e0 e')"
      proof (rule runs_andthenI [OF ReadBlock_runs [OF k(1) in0]], elim conjE)
        fix block e1
        assume b1: "blk_size block = fs_block_size e0" "length (blk_data block) = EXT2_MAX_BLOCK_SIZE"
          "take (fs_block_size e0) (blk_data block) = blk image e0 b" and k1: "keeps inv ready image e0 e1"
        have ap: "runs (with_heap (\<lambda>h. BufAppend h buf (Some (blk_data block)) (blk_size block))) e1
          (\<lambda>buf' e'. filled buf' (d @ blk image e b) \<and> keeps inv ready image e1 e')"
        proof (rule runs_with_heap [OF keepsD(1) [OF k1]])
          fix h assume "heap_ok h"
          have "fs_block_size e \<le> EXT2_MAX_BLOCK_SIZE" using ok_block_size(2) [OF ok] by (simp add: ext2_constants)
          with filled_append [OF 1(4), of "fs_block_size e" "blk_data block" h] \<open>heap_ok h\<close> b1 tot True k
          show "\<exists>x h'. BufAppend h buf (Some (blk_data block)) (blk_size block) = Some (0, x, h') \<and> heap_ok h' \<and>
            filled x (d @ blk image e b)" by auto
        qed
        show "runs (andthen (with_heap (\<lambda>h. BufAppend h buf (Some (blk_data block)) (blk_size block))) (\<lambda>buf. load_runs D rest buf)) e1
          (\<lambda>r e'. (\<exists>buf'. r = Some buf' \<and> filled buf' (d @ concat (map (blk image e) bs))) \<and> keeps inv ready image e0 e')"
          by (rule runs_andthenI [OF ap], elim conjE) (use rec True keeps_trans [OF k1] in auto)
      qed
      with True Cons n_def show ?thesis by simp
    next
      case False
      have ins0: "\<forall>x \<in> set [b..<b + n]. blk_in image e0 x" using ins(1) k by simp
      have l0: "length d + n * fs_block_size e0 \<le> 2 ^ 31" using tot k by simp
      have "runs (andthen (attempt (ReadBlocks D b n buf)) (\<lambda>r.
          case r of Inl err \<Rightarrow> success None | Inr buf \<Rightarrow> load_runs D (drop (n - 1) rest) buf)) e0
        (\<lambda>r e'. (\<exists>buf'. r = Some buf' \<and> filled buf' (d @ concat (map (blk image e) bs))) \<and> keeps inv ready image e0 e')"
        by (rule runs_andthen, rule runs_attempt, rule runs_mono [OF ReadBlocks_runs [OF k(1) 1(4) _ ins0 l0]])
           (use n(1) rec k in auto)
      with False show ?thesis unfolding Cons by (simp only: load_runs.simps Let_def n_def [symmetric] if_False)
    qed
  qed
qed

lemma LoadFile_runs:
  assumes ok: "ext2_ok inv ready image e"
    and blks: "\<forall>b \<in> set (file_blocks image e True inode). blk_in image e b"
    and len: "length (file_blocks image e False inode) * fs_block_size e \<le> 2 ^ 31"
  shows "runs (EXT2LoadFileFromInode D inode) e
    (\<lambda>(data, sz) e'. sz = i_size inode \<and> keeps inv ready image e e' \<and>
      (let c = concat (map (blk image e) (file_blocks image e False inode)) in take (length c) data = c))"
proof -
  let ?bs = "file_blocks image e False inode"
  note bs = ok_block_size [OF ok]
  have "length ?bs * 4 \<le> length ?bs * fs_block_size e" by (rule mult_le_mono2) (use bs(1) in simp)
  from le_trans [OF this len] have l4: "(length [] + length ?bs) * 4 \<le> 2 ^ 31" by simp
  have sub: "\<forall>b \<in> set ?bs. blk_in image e b"
    using blks file_blocks_subset [of image e inode] by blast
  have "runs (andthen (LoadBlockNumbersFromInode D inode False BufInit) (\<lambda>blknos.
      andthen (load_runs D (blknos_of blknos) BufInit) (\<lambda>r.
      case r of None \<Rightarrow> success ([], 0) | Some buf \<Rightarrow> success (buf_data buf, i_size inode)))) e
    (\<lambda>(data, sz) e'. sz = i_size inode \<and> keeps inv ready image e e' \<and>
      (let c = concat (map (blk image e) ?bs) in take (length c) data = c))"
  proof (rule runs_andthenI [OF LoadBlockNumbers_runs [OF ok holds_init blks l4]], elim conjE)
    fix b1 e1 assume b1: "holds b1 ([] @ ?bs)" and k1: "keeps inv ready image e e1"
    have nums: "blknos_of b1 = ?bs" using b1 by (simp add: holds_def)
    have "filled BufInit []" by (simp add: filled_def buf_inv_def buf_contents_def BufInit_def)
    from load_runs_runs [OF ok sub k1 this] len
    have lr: "runs (load_runs D ?bs BufInit) e1
      (\<lambda>r e'. (\<exists>buf'. r = Some buf' \<and> filled buf' ([] @ concat (map (blk image e) ?bs))) \<and> keeps inv ready image e1 e')" by simp
    show "runs (andthen (load_runs D (blknos_of b1) BufInit) (\<lambda>r.
        case r of None \<Rightarrow> success ([], 0) | Some buf \<Rightarrow> success (buf_data buf, i_size inode))) e1
      (\<lambda>(data, sz) e'. sz = i_size inode \<and> keeps inv ready image e e' \<and>
        (let c = concat (map (blk image e) ?bs) in take (length c) data = c))"
      unfolding nums
    proof (rule runs_andthenI [OF lr], elim conjE exE)
      fix r e2 buf2
      assume r: "r = Some buf2" "filled buf2 ([] @ concat (map (blk image e) ?bs))" and k2: "keeps inv ready image e1 e2"
      have "take (length (concat (map (blk image e) ?bs))) (buf_data buf2) = concat (map (blk image e) ?bs)"
        using filled_size [OF r(2)] r(2) by (simp add: filled_def buf_contents_def)
      with r(1) keeps_trans [OF k1 k2] show "runs (case r of None \<Rightarrow> success ([], 0) | Some buf \<Rightarrow> success (buf_data buf, i_size inode)) e2
        (\<lambda>(data, sz) e'. sz = i_size inode \<and> keeps inv ready image e e' \<and>
          (let c = concat (map (blk image e) ?bs) in take (length c) data = c))"
        by (simp add: runs_def success_def Let_def)
    qed
  qed
  with bs(6) show ?thesis unfolding EXT2LoadFileFromInode_def by (intro runs_andthen runs_reads) simp
qed

end

end
