(* ===== verification/Ext2Lookup.thy ===== *)
theory Ext2Lookup
  imports Ext2Load MemBlkdev
begin

text \<open>
  Directories and paths on a device that is a byte array. A directory is the encoding of a list of
  entries, and \<open>dir_find\<close> searches that list; a path is resolved by \<open>resolve\<close> in a map from
  inode numbers to directories. The functions of \<open>Ext2Dir\<close> compute the same.
\<close>

subsection \<open>Directories as lists of entries\<close>

record dir_entry =
  ent_ino :: nat
  ent_type :: nat
  ent_name :: bytes
  ent_pad :: bytes

definition ent_wf :: "dir_entry \<Rightarrow> bool" where
  "ent_wf x \<longleftrightarrow> ent_ino x < 2 ^ 32 \<and> ent_type x < 256 \<and> length (ent_name x) < 256 \<and> 0 \<notin> set (ent_name x) \<and>
     8 + length (ent_name x) + length (ent_pad x) < 2 ^ 16"

definition ent_head :: "dir_entry \<Rightarrow> bytes" where
  "ent_head x = nat_le 4 (ent_ino x) @ nat_le 2 (8 + length (ent_name x) + length (ent_pad x)) @
     nat_le 1 (length (ent_name x)) @ nat_le 1 (ent_type x)"

definition ent_bytes :: "dir_entry \<Rightarrow> bytes" where
  "ent_bytes x = ent_head x @ ent_name x @ ent_pad x"

definition dir_bytes :: "dir_entry list \<Rightarrow> bytes" where
  "dir_bytes xs = concat (map ent_bytes xs)"

lemma length_ent [simp]: "length (ent_head x) = 8" "length (ent_bytes x) = 8 + length (ent_name x) + length (ent_pad x)"
  by (simp_all add: ent_head_def ent_bytes_def)

lemma dir_bytes_simps [simp]: "dir_bytes [] = []" "dir_bytes (x # xs) = ent_bytes x @ dir_bytes xs"
  by (simp_all add: dir_bytes_def)

lemma ent_fields:
  assumes "ent_wf x"
  shows "de_inode (ent_head x) = ent_ino x" "de_rec_len (ent_head x) = length (ent_bytes x)"
    "de_name_len (ent_head x) = length (ent_name x)" "de_file_type (ent_head x) = ent_type x"
    "de_rec_len (take 7 (ent_head x)) = length (ent_bytes x)" "de_name_len (take 7 (ent_head x)) = length (ent_name x)"
  using assms
  by (simp_all add: de_inode_def de_rec_len_def de_name_len_def de_file_type_def get_field_def field_offsets
      ent_wf_def ent_head_def le_nat_nat_le del: nat_le.simps One_nat_def)

lemma entry_at_ent: "entry_at (pre @ ent_bytes x @ post) (length pre) = Some (ent_head x)"
  by (simp add: entry_at_def load_def ent_bytes_def slice_def)

lemma entry_lengths_ent: "entry_lengths (pre @ ent_bytes x @ post) (length pre) = Some (take 7 (ent_head x))"
  by (simp add: entry_lengths_def load_def ent_bytes_def slice_def)

lemma Strncat_loop_spec:
  assumes "i \<le> len" "len \<le> length src" "n + len < destSize" "n + len \<le> length dest"
  shows "Strncat_loop dest n destSize src len i = Some (overwrite (n + i) (slice i (len - i) src) dest, len)"
  using assms
proof (induction "len - i" arbitrary: i dest)
  case 0
  then show ?case by (subst Strncat_loop.simps) simp
next
  case (Suc k)
  then have i: "i < len" "Suc i \<le> len" "k = len - Suc i" by simp_all
  have one: "length (slice i 1 src) = 1" using i Suc.prems by simp
  have split: "slice i (len - i) src = slice i 1 src @ slice (Suc i) (len - Suc i) src"
    using slice_split [of i 1 "len - Suc i" src] Suc_diff_Suc [OF i(1)] by simp
  have "Strncat_loop dest n destSize src len i = Strncat_loop (overwrite (n + i) (slice i 1 src) dest) n destSize src len (Suc i)"
    using i one Suc.prems by (subst Strncat_loop.simps) (simp add: load_def store_def)
  also have "\<dots> = Some (overwrite (n + Suc i) (slice (Suc i) (len - Suc i) src) (overwrite (n + i) (slice i 1 src) dest), len)"
    using i one Suc.prems by (intro Suc.hyps(1)) simp_all
  also have "\<dots> = Some (overwrite (n + i) (slice i (len - i) src) dest, len)"
    using overwrite_adjacent [of "n + i" "slice i 1 src" "slice (Suc i) (len - Suc i) src" dest] i one Suc.prems
    by (simp add: split)
  finally show ?case .
qed

lemma Strncat_first:
  assumes "dest = 0 # d" "length t < destSize" "length t < length dest" "0 \<notin> set t"
  shows "Strncat dest destSize (t @ src) (length t) = Some (overwrite 0 (t @ [0]) dest)"
proof -
  have n: "posix_strlen dest = Some 0" by (simp add: assms(1))
  have "Strncat_loop dest 0 destSize (t @ src) (length t) 0 = Some (overwrite 0 t dest, length t)"
    using assms by (subst Strncat_loop_spec) (simp_all add: slice_def)
  with n assms(2,3) show ?thesis
    by (simp add: Strncat_def store_def) (simp add: overwrite_def)
qed

definition dent_for :: "dir_entry \<Rightarrow> bytes \<Rightarrow> bool" where
  "dent_for x d \<longleftrightarrow> length d = 268 \<and> d_ino d = ent_ino x \<and> d_type d = dt_of_ft (ent_type x) \<and>
     0 \<in> set (d_name d) \<and> cstr (d_name d) = ent_name x"

lemma fill_dent_spec:
  assumes "ent_wf x" "length ent = 268"
  shows "\<exists>d. fill_dent (pre @ ent_bytes x @ post) (length pre) ent = Some d \<and> dent_for x d"
proof -
  define e1 where "e1 = set_field dent_layout ''d_ino'' (ent_ino x) ent"
  define e2 where "e2 = set_field dent_layout ''d_off'' 0 e1"
  define e3 where "e3 = set_field dent_layout ''d_reclen'' 268 e2"
  define e4 where "e4 = set_field dent_layout ''d_type'' (dt_of_ft (ent_type x)) e3"
  have off: "field_at dent_layout ''d_off'' = (4, 4)" "field_at dent_layout ''d_reclen'' = (8, 2)"
    by (simp_all add: dent_layout_def)
  have len: "length e1 = 268" "length e2 = 268" "length e3 = 268" "length e4 = 268"
    using assms(2) by (simp_all add: e1_def e2_def e3_def e4_def length_set_field [OF field_offsets(25)] length_set_field [OF off(1)]
        length_set_field [OF off(2)] length_set_field [OF field_offsets(26)])
  have dt: "dt_of_ft t < 256" for t by (simp add: dt_of_ft_def EXT2_DT_DIR_def)
  have f1: "get_field dent_layout ''d_ino'' e1 = ent_ino x"
    unfolding e1_def using assms by (intro get_set_same [OF field_offsets(25)]) (simp_all add: ent_wf_def)
  have f4: "get_field dent_layout ''d_type'' e4 = dt_of_ft (ent_type x)"
    unfolding e4_def using len dt by (intro get_set_same [OF field_offsets(26)]) simp_all
  have i4: "get_field dent_layout ''d_ino'' e4 = ent_ino x"
    using f1 len unfolding e4_def e3_def e2_def
    by (simp add: get_set_other [OF field_offsets(25) field_offsets(26)] get_set_other [OF field_offsets(25) off(1)]
        get_set_other [OF field_offsets(25) off(2)])
  let ?t = "ent_name x"
  define nm where "nm = slice 11 256 e4"
  have nm: "length nm = 256" using len by (simp add: nm_def)
  define d where "d = overwrite 11 (overwrite 0 (?t @ [0]) nm) e4"
  have t: "length ?t < 256" "0 \<notin> set ?t" using assms(1) by (simp_all add: ent_wf_def)
  have src: "drop (length pre + 8) (pre @ ent_bytes x @ post) = ?t @ ent_pad x @ post"
    by (simp add: ent_bytes_def)
  have st0: "store 0 [0] nm = Some (overwrite 0 [0] nm)" using nm by (simp add: store_def)
  have "overwrite 0 [0] nm = 0 # drop 1 nm" by (simp add: overwrite_def)
  from Strncat_first [OF this, of ?t EXT2_PATH_MAX "ent_pad x @ post"] t nm
  have cat: "Strncat (overwrite 0 [0] nm) EXT2_PATH_MAX (?t @ ent_pad x @ post) (length ?t) = Some (overwrite 0 (?t @ [0]) nm)"
    by (simp add: EXT2_PATH_MAX_def overwrite_def)
  have "fill_dent (pre @ ent_bytes x @ post) (length pre) ent = Some d"
    unfolding fill_dent_def Let_def entry_at_ent bind.bind_lunit ent_fields [OF assms(1)] layout_sizes e1_def [symmetric] e2_def [symmetric] e3_def [symmetric]
      e4_def [symmetric] src
    using st0 cat t nm len by (simp add: d_name_def nm_def [symmetric] field_offsets Ext2Min_def EXT2_PATH_MAX_def store_def d_def)
  moreover have "dent_for x d"
  proof -
    have "length d = 268" using len nm t by (simp add: d_def)
    moreover have "d_ino d = ent_ino x" "d_type d = dt_of_ft (ent_type x)"
      using i4 f4 len nm t by (simp_all add: d_ino_def d_type_def get_field_def field_offsets d_def slice_overwrite_before)
    moreover have "d_name d = ?t @ 0 # drop (Suc (length ?t)) nm"
      using len nm t by (simp add: d_name_def field_offsets d_def slice_overwrite_same) (simp add: overwrite_def)
    ultimately show ?thesis using t by (simp add: dent_for_def)
  qed
  ultimately show ?thesis by blast
qed

definition visible :: "dir_entry list \<Rightarrow> dir_entry list" where
  "visible xs = filter (\<lambda>x. ent_name x \<noteq> []) xs"

text \<open>The stream \<open>dir\<close> stands before the entries \<open>xs\<close>.\<close>

definition at_dir :: "ext2_dir \<Rightarrow> dir_entry list \<Rightarrow> bool" where
  "at_dir dir xs \<longleftrightarrow> list_all ent_wf xs \<and> length (dir_ent dir) = 268 \<and>
     (\<exists>pre post. dir_data dir = pre @ dir_bytes xs @ post \<and> dir_next dir = length pre \<and>
        dir_size dir = length pre + length (dir_bytes xs))"

lemma at_dirI:
  "list_all ent_wf xs \<Longrightarrow> length (dir_ent dir) = 268 \<Longrightarrow> dir_data dir = pre @ dir_bytes xs @ post \<Longrightarrow> dir_next dir = length pre \<Longrightarrow>
   dir_size dir = length pre + length (dir_bytes xs) \<Longrightarrow> at_dir dir xs"
  unfolding at_dir_def by blast

lemma at_dir_Cons:
  assumes "at_dir dir (x # xs)"
  shows "dir_next dir < dir_size dir" "entry_lengths (dir_data dir) (dir_next dir) = Some (take 7 (ent_head x))" "ent_wf x"
    "length d = 268 \<Longrightarrow> at_dir (dir\<lparr>dir_ent := d, dir_next := dir_next dir + length (ent_bytes x)\<rparr>) xs"
    "at_dir (dir\<lparr>dir_next := dir_next dir + length (ent_bytes x)\<rparr>) xs"
    "\<exists>d. fill_dent (dir_data dir) (dir_next dir) (dir_ent dir) = Some d \<and> dent_for x d"
proof -
  from assms obtain pre post where d: "dir_data dir = pre @ ent_bytes x @ dir_bytes xs @ post" "dir_next dir = length pre"
    "dir_size dir = length (pre @ ent_bytes x) + length (dir_bytes xs)" "list_all ent_wf xs" "length (dir_ent dir) = 268"
    by (auto simp: at_dir_def)
  show x: "ent_wf x" using assms by (simp add: at_dir_def)
  show "dir_next dir < dir_size dir" using d by simp
  show "entry_lengths (dir_data dir) (dir_next dir) = Some (take 7 (ent_head x))" unfolding d(1,2) by (rule entry_lengths_ent)
  have app: "dir_data dir = (pre @ ent_bytes x) @ dir_bytes xs @ post" by (simp add: d)
  then show "length d = 268 \<Longrightarrow> at_dir (dir\<lparr>dir_ent := d, dir_next := dir_next dir + length (ent_bytes x)\<rparr>) xs"
    "at_dir (dir\<lparr>dir_next := dir_next dir + length (ent_bytes x)\<rparr>) xs"
    using d by (intro at_dirI [of _ _ "pre @ ent_bytes x" post]; simp)+
  show "\<exists>d. fill_dent (dir_data dir) (dir_next dir) (dir_ent dir) = Some d \<and> dent_for x d"
    unfolding d(1,2) by (rule fill_dent_spec [OF x d(5)])
qed

lemma ReadDir_loop_spec:
  assumes "at_dir dir xs"
  shows "case visible xs of
      [] \<Rightarrow> \<exists>dir'. ReadDir_loop dir = Some (None, dir')
    | x # vs \<Rightarrow> \<exists>d dir' ys. ReadDir_loop dir = Some (Some d, dir') \<and> dent_for x d \<and> at_dir dir' ys \<and> visible ys = vs"
  using assms
proof (induction xs arbitrary: dir)
  case Nil
  then have "\<not> dir_next dir < dir_size dir" by (auto simp: at_dir_def)
  then show ?case by (subst ReadDir_loop.simps) (simp add: visible_def)
next
  case (Cons x xs)
  note c = at_dir_Cons [OF Cons.prems]
  note f = ent_fields [OF c(3)]
  have r: "length (ent_bytes x) \<noteq> 0" by simp
  show ?case
  proof (cases "ent_name x = []")
    case True
    have eq: "ReadDir_loop dir = ReadDir_loop (dir\<lparr>dir_next := dir_next dir + length (ent_bytes x)\<rparr>)"
      using c(1,2) r True f by (subst ReadDir_loop.simps) (simp del: length_ent)
    have "visible (x # xs) = visible xs" using True by (simp add: visible_def)
    then show ?thesis unfolding eq using Cons.IH [OF c(5)] by (simp only:)
  next
    case False
    from c(6) obtain d where d: "fill_dent (dir_data dir) (dir_next dir) (dir_ent dir) = Some d" "dent_for x d" by blast
    have "ReadDir_loop dir = Some (Some d, dir\<lparr>dir_ent := d, dir_next := dir_next dir + length (ent_bytes x)\<rparr>)"
      using c(1,2) r False f d by (subst ReadDir_loop.simps) (simp del: length_ent)
    moreover have "length d = 268" using d(2) by (simp add: dent_for_def)
    ultimately show ?thesis using d(2) c(4) False by (auto simp: visible_def)
  qed
qed

lemma ReadDir_spec:
  assumes "at_dir dir xs"
  shows "case visible xs of
      [] \<Rightarrow> \<exists>dir'. EXT2ReadDir dir = Some (None, dir')
    | x # vs \<Rightarrow> \<exists>d dir' ys. EXT2ReadDir dir = Some (Some d, dir') \<and> dent_for x d \<and> at_dir dir' ys \<and> visible ys = vs"
proof (cases "dir_data dir = []")
  case True
  with assms have "xs = []" by (cases xs) (auto simp: at_dir_def ent_bytes_def ent_head_def)
  with True show ?thesis by (simp add: visible_def EXT2ReadDir_def)
next
  case False
  then have eq: "EXT2ReadDir dir = ReadDir_loop dir" by (simp add: EXT2ReadDir_def)
  show ?thesis unfolding eq by (rule ReadDir_loop_spec [OF assms])
qed

lemma list_entries_spec:
  assumes "at_dir dir xs" "filled buf c" "heap_ok h" "length c + length (visible xs) * 268 \<le> 2 ^ 31"
  shows "\<exists>buf' h' ds. list_entries h dir buf = Some (0, buf', h') \<and> heap_ok h' \<and> filled buf' (c @ concat ds) \<and>
    list_all2 dent_for (visible xs) ds"
  using assms
proof (induction "visible xs" arbitrary: xs dir buf c h)
  case Nil
  from ReadDir_spec [OF Nil(2)] obtain dir' where "EXT2ReadDir dir = Some (None, dir')" unfolding Nil(1) [symmetric] by auto
  with Nil show ?case by (subst list_entries.simps) (auto simp: Nil(1) [symmetric])
next
  case (Cons x vs)
  from ReadDir_spec [OF Cons.prems(1)] obtain d dir' ys where d: "EXT2ReadDir dir = Some (Some d, dir')" "dent_for x d"
    "at_dir dir' ys" "visible ys = vs" unfolding Cons(2) [symmetric] by auto
  have l: "length d = 268" using d(2) by (simp add: dent_for_def)
  have "length c + 268 \<le> 2 ^ 31" using Cons.prems(4) unfolding Cons(2) [symmetric] by simp
  from filled_append [OF Cons.prems(2) this, of d h] Cons.prems(3) l obtain b1 h1 where
    b1: "BufAppend h buf (Some d) 268 = Some (0, b1, h1)" "heap_ok h1" "filled b1 (c @ d)" by auto
  have len: "length (c @ d) + length (visible ys) * 268 \<le> 2 ^ 31"
    using Cons.prems(4) l unfolding Cons(2) [symmetric] d(4) by simp
  from Cons.hyps(1) [OF d(4) [symmetric] d(3) b1(3) b1(2) len] obtain b2 h2 ds where
    b2: "list_entries h1 dir' b1 = Some (0, b2, h2)" "heap_ok h2" "filled b2 ((c @ d) @ concat ds)" "list_all2 dent_for vs ds"
    using d(4) by auto
  have "list_entries h dir buf = Some (0, b2, h2)"
    using d(1) b1(1) b2(1) by (subst list_entries.simps) (simp add: layout_sizes)
  with b2 d(2) show ?case unfolding Cons(2) [symmetric] by (intro exI [of _ b2] exI [of _ h2] exI [of _ "d # ds"]) simp
qed

text \<open>The inode number that a directory gives to a name, 0 when there is none.\<close>

definition dir_find :: "bytes \<Rightarrow> bool \<Rightarrow> dir_entry list \<Rightarrow> nat" where
  "dir_find name is_last xs =
     (case find (\<lambda>x. ent_name x = name \<and> (is_last \<or> ent_type x = EXT2_FT_DIR)) xs of None \<Rightarrow> 0 | Some x \<Rightarrow> ent_ino x)"

lemma dir_find_visible: "name \<noteq> [] \<Longrightarrow> dir_find name is_last (visible xs) = dir_find name is_last xs"
  by (induction xs) (auto simp: dir_find_def visible_def)

lemma dt_of_ft_dir: "dt_of_ft ft = EXT2_DT_DIR \<longleftrightarrow> ft = EXT2_FT_DIR"
  by (simp add: dt_of_ft_def EXT2_DT_DIR_def EXT2_FT_DIR_def EXT2_FT_REG_FILE_def)

lemma find_entry_spec:
  assumes "list_all2 dent_for xs ds" "length pre = j * 268" "0 \<in> set name"
  shows "find_entry name is_last (pre @ concat ds @ post) (length ds) j = Some (dir_find (cstr name) is_last xs)"
  using assms
proof (induction xs ds arbitrary: pre j rule: list_all2_induct)
  case (Cons x xs d ds)
  have l: "length d = 268" "0 \<in> set (d_name d)" and f: "d_ino d = ent_ino x" "d_type d = dt_of_ft (ent_type x)" "cstr (d_name d) = ent_name x"
    using Cons(1) by (simp_all add: dent_for_def)
  have ld: "load (j * 268) 268 (pre @ d @ concat ds @ post) = Some d"
    using l Cons.prems by (intro load_append_at) simp_all
  from strcmp_order [OF l(2) assms(3)] obtain c where c: "posix_strcmp (d_name d) name = Some c" "c = 0 \<longleftrightarrow> ent_name x = cstr name"
    unfolding f by blast
  have "find_entry name is_last ((pre @ d) @ concat ds @ post) (length ds) (Suc j) = Some (dir_find (cstr name) is_last xs)"
    using l Cons.prems by (intro Cons.IH) simp_all
  with c ld f show ?case by (cases is_last) (simp_all add: layout_sizes dir_find_def dt_of_ft_dir)
qed (simp add: dir_find_def)

subsection \<open>Inodes, files and directories on the disk\<close>

definition inode_on :: "('s \<Rightarrow> bytes) \<Rightarrow> 's ext2 \<Rightarrow> nat \<Rightarrow> bytes \<Rightarrow> bool" where
  "inode_on img e ino inode \<longleftrightarrow> ino \<noteq> 0 \<and> 0 < s_inode_size (fs_sb e) \<and> s_inode_size (fs_sb e) \<le> 256 \<and>
     (\<exists>off. inode_offset e ino = Some off \<and> off + s_inode_size (fs_sb e) \<le> length (img (fs_dev e)) \<and>
        inode = slice off (s_inode_size (fs_sb e)) (img (fs_dev e)) @ drop (s_inode_size (fs_sb e)) (junk e 256))"

definition file_ok :: "('s \<Rightarrow> bytes) \<Rightarrow> 's ext2 \<Rightarrow> bytes \<Rightarrow> bool" where
  "file_ok img e inode \<longleftrightarrow> (\<forall>b \<in> set (file_blocks img e True inode). blk_in img e b) \<and>
     length (file_blocks img e False inode) * fs_block_size e \<le> 2 ^ 31"

definition file_data :: "('s \<Rightarrow> bytes) \<Rightarrow> 's ext2 \<Rightarrow> bytes \<Rightarrow> bytes" where
  "file_data img e inode = concat (map (blk img e) (file_blocks img e False inode))"

definition dir_on :: "('s \<Rightarrow> bytes) \<Rightarrow> 's ext2 \<Rightarrow> nat \<Rightarrow> dir_entry list \<Rightarrow> bool" where
  "dir_on img e ino xs \<longleftrightarrow> list_all ent_wf xs \<and> length xs * 268 \<le> 2 ^ 31 \<and>
     (\<exists>inode. inode_on img e ino inode \<and> and (i_mode inode) EXT2_S_IFDIR \<noteq> 0 \<and> file_ok img e inode \<and>
        take (i_size inode) (file_data img e inode) = dir_bytes xs \<and> i_size inode = length (dir_bytes xs))"

lemma keeps_on:
  assumes "keeps dinv dready img e e'"
  shows "inode_on img e' = inode_on img e" "file_ok img e' = file_ok img e" "file_data img e' = file_data img e"
    "dir_on img e' = dir_on img e" "file_blocks img e' = file_blocks img e"
proof -
  note k = keepsD [OF assms]
  have p: "ptrs img e' = ptrs img e" using k by (simp add: ptrs_def fun_eq_iff)
  have l1: "level1 img e' = level1 img e" using p by (simp add: level1_def fun_eq_iff)
  have l2: "level2 img e' = level2 img e" using l1 p by (simp add: level2_def fun_eq_iff)
  show b: "file_blocks img e' = file_blocks img e"
    using p l1 l2 by (simp add: file_blocks_def through_def fun_eq_iff cong: if_cong)
  show i: "inode_on img e' = inode_on img e"
    unfolding inode_on_def fun_eq_iff inode_offset_def InoToLino_def InoToGrpno_def junk_def by (simp add: k)
  show f: "file_ok img e' = file_ok img e" "file_data img e' = file_data img e"
    by (simp_all add: fun_eq_iff file_ok_def file_data_def b k)
  show "dir_on img e' = dir_on img e" by (simp add: fun_eq_iff dir_on_def i f)
qed

lemma filled_init: "filled BufInit []"
  by (simp add: filled_def buf_inv_init) (simp add: buf_contents_def BufInit_def)

lemma take_prefix_split: "take (length c) xs = c \<Longrightarrow> \<exists>post. xs = c @ post"
  by (metis append_take_drop_id)

context blkdev_image
begin

text \<open>The state \<open>e\<close> has been reached from \<open>e0\<close> by reading; what is on the disk is said of \<open>e0\<close>.\<close>

lemma ReadInode_runs:
  assumes k: "keeps inv ready image e0 e" and on: "inode_on image e0 ino inode"
  shows "runs (EXT2ReadInode D ino) e (\<lambda>i e'. i = inode \<and> keeps inv ready image e0 e')"
proof -
  let ?n = "s_inode_size (fs_sb e)"
  have "inode_on image e ino inode" using on keeps_on(1) [OF k] by simp
  then obtain off where off: "inode_offset e ino = Some off" "off + ?n \<le> length (image (fs_dev e))"
    "inode = slice off ?n (image (fs_dev e)) @ drop ?n (junk e 256)" and n: "ino \<noteq> 0" "0 < ?n" "?n \<le> 256"
    by (auto simp: inode_on_def)
  have st: "store 0 (slice off ?n (image (fs_dev e))) (junk e 256) = Some inode"
    using off n by (simp add: store_def overwrite_def junk_def)
  show ?thesis unfolding EXT2ReadInode_def read_inode_into_def layout_sizes
    apply (intro runs_andthen runs_reads)
    apply (simp only: n(1) if_False id_apply)
    apply (rule runs_andthen, rule runs_access [OF off(1)])
    apply (rule runs_andthenI [OF fs_read_runs [OF keepsD(1) [OF k] off(2) n(2)]])
    apply (elim conjE, simp only:)
    apply (rule runs_access [OF st], simp add: keeps_trans [OF k])
    done
qed

lemma LoadFile_on:
  assumes k: "keeps inv ready image e0 e" and ok: "file_ok image e0 inode"
  shows "runs (EXT2LoadFileFromInode D inode) e
    (\<lambda>(data, sz) e'. (sz = i_size inode \<and> (\<exists>post. data = file_data image e0 inode @ post)) \<and> keeps inv ready image e0 e')"
proof -
  have "file_ok image e inode" using ok keeps_on(2) [OF k] by simp
  then have "\<forall>b \<in> set (file_blocks image e True inode). blk_in image e b"
    "length (file_blocks image e False inode) * fs_block_size e \<le> 2 ^ 31" by (simp_all add: file_ok_def)
  from LoadFile_runs [OF keepsD(1) [OF k] this] show ?thesis
    by (rule runs_mono)
      (auto simp: Let_def keeps_on(3) [OF k, symmetric] file_data_def keeps_trans [OF k] intro: append_take_drop_id [symmetric] elim: take_prefix_split)
qed

lemma OpenDirIno_runs:
  assumes k: "keeps inv ready image e0 e" and on: "dir_on image e0 ino xs"
  shows "runs (EXT2OpenDirIno D ino) e (\<lambda>r e'. (\<exists>dir. r = Some dir \<and> at_dir dir xs) \<and> keeps inv ready image e0 e')"
proof -
  from on obtain inode where i: "inode_on image e0 ino inode" "and (i_mode inode) EXT2_S_IFDIR \<noteq> 0" "file_ok image e0 inode"
    "take (i_size inode) (file_data image e0 inode) = dir_bytes xs" "i_size inode = length (dir_bytes xs)" "list_all ent_wf xs"
    by (auto simp: dir_on_def)
  have ino: "ino \<noteq> 0" using i(1) by (simp add: inode_on_def)
  obtain tl where data: "file_data image e0 inode = dir_bytes xs @ tl" using i(4) by (metis append_take_drop_id)
  have dir: "at_dir \<lparr>dir_data = file_data image e0 inode @ post, dir_size = i_size inode, dir_next = 0, dir_ent = replicate 268 0\<rparr> xs" for post
    using i(5,6) by (intro at_dirI [of _ _ "[]" "tl @ post"]) (simp_all add: data)
  have "runs (andthen (EXT2ReadInode D ino) (\<lambda>inode.
         andthen (require (and (i_mode inode) EXT2_S_IFDIR \<noteq> 0) EXT2_ERR_FAILED) (\<lambda>_.
         andthen (allocate EXT2_ERR_FAILED (\<lambda>h. Calloc h 1 (24 + struct_size dent_layout + 4))) (\<lambda>_.
         andthen (EXT2LoadFileFromInode D inode) (\<lambda>(data, sz).
         success \<lparr>dir_data = data, dir_size = sz, dir_next = 0, dir_ent = replicate (struct_size dent_layout) 0\<rparr>))))) e
     (\<lambda>dir e'. at_dir dir xs \<and> keeps inv ready image e0 e')"
    apply (rule runs_andthenI [OF ReadInode_runs [OF k i(1)]], elim conjE)
    apply (simp only: i(2) require_def not_False_eq_True if_True)
    apply (rule runs_andthen, rule runs_success)
    apply (rule runs_andthenI [OF runs_allocate [OF keepsD(1), where P = "\<lambda>_. True"]], assumption)
     apply (auto simp: Calloc_def dest!: heap_ok_0) []
    apply (elim conjE)
    apply (rule runs_andthenI [OF LoadFile_on [OF keeps_trans i(3)]], assumption, assumption)
    apply (auto simp: layout_sizes intro!: runs_success dir)
    done
  then have "runs (andthen (EXT2ReadInode D ino) (\<lambda>inode.
         andthen (require (and (i_mode inode) EXT2_S_IFDIR \<noteq> 0) EXT2_ERR_FAILED) (\<lambda>_.
         andthen (allocate EXT2_ERR_FAILED (\<lambda>h. Calloc h 1 (24 + struct_size dent_layout + 4))) (\<lambda>_.
         andthen (EXT2LoadFileFromInode D inode) (\<lambda>(data, sz).
         success \<lparr>dir_data = data, dir_size = sz, dir_next = 0, dir_ent = replicate (struct_size dent_layout) 0\<rparr>))))) e
     (\<lambda>dir e'. (\<exists>d. Some dir = Some d \<and> at_dir d xs) \<and> keeps inv ready image e0 e')" by simp
  with ino show ?thesis unfolding EXT2OpenDirIno_def by (simp only: if_False runs_or_null)
qed

lemma ListDirInode_runs:
  assumes k: "keeps inv ready image e0 e" and on: "dir_on image e0 ino xs"
  shows "runs (EXT2ListDirInode D ino) e (\<lambda>(entries, n) e'. (\<exists>ds post. entries = concat ds @ post \<and> n = length ds \<and>
    list_all2 dent_for (visible xs) ds) \<and> keeps inv ready image e0 e')"
proof -
  have ino: "ino \<noteq> 0" using on by (auto simp: dir_on_def inode_on_def)
  have "length (visible xs) \<le> length xs" by (simp add: visible_def)
  with on have len: "length ([] :: bytes) + length (visible xs) * 268 \<le> 2 ^ 31" by (simp add: dir_on_def)
  have list: "runs (with_heap (\<lambda>h. list_entries h dir BufInit)) e1
      (\<lambda>buf e'. (\<exists>ds. filled buf (concat ds) \<and> list_all2 dent_for (visible xs) ds) \<and> keeps inv ready image e1 e')"
    if "at_dir dir xs" "keeps inv ready image e0 e1" for dir e1
    using list_entries_spec [OF that(1) filled_init _ len] by (intro runs_with_heap [OF keepsD(1) [OF that(2)]]) fastforce
  have fin: "\<exists>ds'. (\<exists>post. buf_data buf = concat ds' @ post) \<and> buf_size buf div 268 = length ds' \<and> list_all2 dent_for (visible xs) ds'"
    if "filled buf (concat ds)" "list_all2 dent_for (visible xs) ds" for buf ds
  proof -
    have "length (concat ds) = 268 * length ds"
      using that(2) by (induction rule: list_all2_induct) (simp_all add: dent_for_def)
    with filled_size [OF that(1)] have "buf_size buf div 268 = length ds" by simp
    moreover from that(1) have "buf_data buf = concat ds @ drop (buf_size buf) (buf_data buf)"
      unfolding filled_def buf_contents_def by (metis append_take_drop_id)
    ultimately show ?thesis using that(2) by blast
  qed
  show ?thesis unfolding EXT2ListDirInode_def using ino
    apply (simp only: if_False)
    apply (rule runs_andthenI [OF OpenDirIno_runs [OF k on]])
    apply (elim conjE exE, simp only: option.case)
    apply (rule runs_andthenI [OF list], assumption, assumption)
    apply (rule runs_success)
    apply (auto simp: layout_sizes dest: fin intro: keeps_trans)
    done
qed

text \<open>The reference: \<open>resolve\<close> follows the names through the directories, 0 where a name is missing.\<close>

end

fun resolve :: "(nat \<Rightarrow> dir_entry list option) \<Rightarrow> bytes list \<Rightarrow> nat \<Rightarrow> nat option" where
  "resolve dirs [] ino = Some ino"
| "resolve dirs (name # rest) ino =
     (case dirs ino of
        None \<Rightarrow> None
      | Some xs \<Rightarrow> (let j = dir_find name (rest = []) xs in if j = 0 then Some 0 else resolve dirs rest j))"

text \<open>The map describes directories that are on the disk.\<close>

definition dirs_on :: "('s \<Rightarrow> bytes) \<Rightarrow> 's ext2 \<Rightarrow> (nat \<Rightarrow> dir_entry list option) \<Rightarrow> bool" where
  "dirs_on img e dirs \<longleftrightarrow> (\<forall>ino xs. dirs ino = Some xs \<longrightarrow> dir_on img e ino xs)"

definition path_names :: "bytes \<Rightarrow> bytes list" where
  "path_names t = tokens (is_delim (ascii ''/'' @ [0])) t"

definition name_ok :: "bytes \<Rightarrow> bool" where
  "name_ok n \<longleftrightarrow> n \<noteq> [] \<and> 0 \<notin> set n \<and> chr (CHR ''/'') \<notin> set n"

lemma pieces_chars: "x \<in> set (pieces P xs) \<Longrightarrow> c \<in> set x \<Longrightarrow> \<not> P c \<and> c \<in> set xs"
proof (induction xs arbitrary: x)
  case (Cons a xs)
  show ?case
  proof (cases "P a")
    case True
    with Cons show ?thesis by auto
  next
    case False
    with Cons.prems consider "x = a # hd (pieces P xs)" | "x \<in> set (tl (pieces P xs))" by auto
    then show ?thesis
    proof cases
      case 1
      with Cons.prems(2) False Cons.IH [of "hd (pieces P xs)"] show ?thesis by auto
    next
      case 2
      then have "x \<in> set (pieces P xs)" by (simp add: list.set_sel(2))
      with Cons show ?thesis by auto
    qed
  qed
qed auto

lemma path_names_ok: "0 \<notin> set t \<Longrightarrow> n \<in> set (path_names t) \<Longrightarrow> name_ok n"
  using pieces_chars [of n "is_delim (ascii ''/'' @ [0])" t]
  by (auto simp: path_names_def tokens_def name_ok_def is_delim_def cstr_def chr_def)

lemma walk_names:
  assumes "name_ok n"
  shows "\<exists>c. posix_strcmp (n @ [0]) (ascii ''/'' @ [0]) = Some c \<and> c \<noteq> 0"
proof -
  have "n \<noteq> [chr (CHR ''/'')]" "0 \<notin> set n" using assms by (auto simp: name_ok_def)
  with strcmp_order [of "n @ [0]" "ascii ''/'' @ [0]"] show ?thesis
    using cstr_append [of n "[]"] by (auto simp: cstr_def chr_def)
qed

text \<open>What a lookup returns for a result of \<open>resolve\<close>.\<close>

definition looked_up :: "nat \<Rightarrow> EXT2Err + nat" where
  "looked_up k = (if k = 0 then Inl EXT2_ERR_FILE_NOT_FOUND else Inr k)"

context blkdev_image
begin

lemma walk_path_resolves:
  assumes "keeps inv ready image e0 e" "dirs_on image e0 dirs" "\<forall>n \<in> set names. name_ok n"
    and "resolve dirs names ino = Some k" "ino \<noteq> 0"
  shows "\<exists>e'. walk_path D (map (\<lambda>n. n @ [0]) names) ino e = Some (looked_up k, e') \<and> keeps inv ready image e0 e'"
  using assms
proof (induction names arbitrary: ino e)
  case Nil
  then show ?case by (auto simp: looked_up_def success_def)
next
  case (Cons n names)
  let ?z = "\<lambda>n. n @ [0 :: byte]"
  from Cons.prems obtain xs where xs: "dirs ino = Some xs" by (auto split: option.splits)
  with Cons.prems(2) have on: "dir_on image e0 ino xs" by (simp add: dirs_on_def)
  have n: "name_ok n" "n \<noteq> []" "0 \<notin> set n" using Cons.prems(3) by (simp_all add: name_ok_def)
  from walk_names [OF n(1)] obtain c where c: "posix_strcmp (n @ [0]) (ascii ''/'' @ [0]) = Some c" "c \<noteq> 0" by blast
  define j where "j = dir_find n (names = []) xs"
  from ListDirInode_runs [OF Cons.prems(1) on] obtain entries e1 ds post where
    l: "EXT2ListDirInode D ino e = Some (Inr (entries, length ds), e1)" "entries = concat ds @ post"
      "list_all2 dent_for (visible xs) ds" and k1: "keeps inv ready image e0 e1"
    by (auto simp: runs_def)
  have "find_entry (n @ [0]) (names = []) entries (length ds) 0 = Some (dir_find (cstr (n @ [0])) (names = []) (visible xs))"
    using find_entry_spec [OF l(3), of "[]" 0 "n @ [0]" "names = []" post] by (simp add: l(2))
  also have "dir_find (cstr (n @ [0])) (names = []) (visible xs) = j"
    using n dir_find_visible [OF n(2)] cstr_append [of n "[]"] by (simp add: j_def)
  finally have f: "find_entry (n @ [0]) (names = []) entries (length ds) 0 = Some j" .
  have step: "walk_path D (map ?z (n # names)) ino e =
      (if j = 0 then Some (Inl EXT2_ERR_FILE_NOT_FOUND, e1) else walk_path D (map ?z names) j e1)"
    using c l(1) f by (simp add: andthen_def access_def fails_def)
  show ?case
  proof (cases "j = 0")
    case True
    with Cons.prems(4) xs have "k = 0" by (simp add: j_def Let_def)
    with step True k1 show ?thesis by (auto simp: looked_up_def)
  next
    case False
    with Cons.prems(4) xs have "resolve dirs names j = Some k" by (simp add: j_def Let_def)
    from Cons.IH [OF k1 Cons.prems(2) _ this False] Cons.prems(3) step False show ?thesis by auto
  qed
qed

lemma PathToIno_resolves:
  assumes ok: "ext2_ok inv ready image e" and dirs: "dirs_on image e dirs"
    and t: "path = chr (CHR ''/'') # t @ 0 # r" "0 \<notin> set t" "length t < 255"
    and n: "length (path_names t) < 32" and res: "resolve dirs (path_names t) EXT2_ROOT_INO = Some k"
  shows "\<exists>e'. EXT2PathToIno D path e = Some (looked_up k, e') \<and> keeps inv ready image e e'"
proof -
  let ?s = "chr (CHR ''/'') :: byte"
  have sl: "?s \<noteq> 0" "is_delim (ascii ''/'' @ [0]) ?s" by (simp_all add: chr_def is_delim_def cstr_def)
  have p: "path = (?s # t) @ 0 # r" "0 \<notin> set (?s # t)" using t sl by simp_all
  have len: "posix_strlen path = Some (length (?s # t))" unfolding p(1) by (rule posix_strlen_append [OF p(2)])
  define buf where "buf = (?s # t) @ 0 # drop (Suc (length (?s # t))) (junk e 256)"
  have "Strlcpy (junk e 256) path 256 = Some (length (?s # t), overwrite 0 (map scast (take 255 (?s # t)) @ [0]) (junk e 256))"
    unfolding p(1) using Strlcpy_spec [OF p(2), of 256 "junk e 256" r] by (simp add: junk_def)
  then have cpy: "Strlcpy (junk e 256) path 256 = Some (length (?s # t), buf)"
    using t(3) by (simp add: buf_def overwrite_def list.map_ident_strong)
  have "tokens (is_delim (ascii ''/'' @ [0])) (?s # t) = path_names t"
    using sl(2) by (simp add: tokens_def path_names_def)
  moreover have "strtok_src (Some buf) None (?s # t)" by (auto simp: strtok_src_def buf_def)
  ultimately have el: "path_elements (Some buf) None [ascii ''/'' @ [0]] =
      Some (Some ((ascii ''/'' @ [0]) # map (\<lambda>n. n @ [0]) (path_names t)))"
    using path_elements_spec [of "Some buf" None "?s # t" "[ascii ''/'' @ [0]]"] p(2) n by (simp add: NELEMENTS_def)
  have "\<forall>n \<in> set (path_names t). name_ok n" using path_names_ok [OF t(2)] by blast
  from walk_path_resolves [OF keeps_refl [OF ok] dirs this res] obtain e' where
    w: "walk_path D (map (\<lambda>n. n @ [0]) (path_names t)) EXT2_ROOT_INO e = Some (looked_up k, e')" "keeps inv ready image e e'"
    by (auto simp: EXT2_ROOT_INO_def)
  have sc: "posix_strcmp (ascii ''/'' @ [0]) (ascii ''/'' @ [0]) = Some 0" by simp
  have "walk_path D ((ascii ''/'' @ [0]) # map (\<lambda>n. n @ [0]) (path_names t)) 0 e = Some (looked_up k, e')"
    using w(1) sc by (simp only: walk_path.simps) (simp add: andthen_def access_def)
  with len cpy el t(3) have "EXT2PathToIno D path e = Some (looked_up k, e')"
    unfolding EXT2PathToIno_def EXT2_PATH_MAX_def
    by (simp add: andthen_def access_def reads_def) (simp add: t(1))
  with w(2) show ?thesis by blast
qed

end

section \<open>Claims\<close>

text \<open>A file system with one file \<open>/a\<close> of 500 bytes: the table of inodes is block 2, the root directory block 3, the file block 4.\<close>

definition small_root_inode :: bytes where
  "small_root_inode = [0, 0x40] @ drop 2 (set_field inode_layout ''i_size'' 1024 (set_i_block 0 [3] (replicate 256 0)))"

definition small_file_inode :: bytes where
  "small_file_inode = set_field inode_layout ''i_size'' 500 (set_i_block 0 [4] (replicate 256 0))"

definition small_root :: "dir_entry list" where
  "small_root = [\<lparr>ent_ino = 3, ent_type = EXT2_FT_REG_FILE, ent_name = ascii ''a'', ent_pad = replicate 1015 0\<rparr>]"

definition small_image :: bytes where
  "small_image = replicate 2048 0 @ (replicate 256 0 @ small_root_inode @ small_file_inode @ replicate 256 0) @
     dir_bytes small_root @ replicate 1024 65 @ replicate 1536 0"

definition small_sb :: bytes where
  "small_sb = set_field superblock_layout ''s_magic'' EXT2_S_MAGIC (set_field superblock_layout ''s_inodes_per_group'' 8
     (set_field superblock_layout ''s_inode_size'' 256 (replicate 1024 0)))"

definition small_fs :: "mem_dev ext2" where
  "small_fs = \<lparr>fs_dev = \<lparr>md_data = small_image, md_size = 6656\<rparr>, fs_sb = small_sb, fs_block_size = 1024, fs_group_count = 1,
     fs_groups = set_field group_layout ''bg_inode_table'' 2 (replicate 32 0), fs_root_inode = small_root_inode,
     fs_heap = (\<lambda>_. Some 0), fs_junk = (\<lambda>_. 0)\<rparr>"

lemma small_i_block:
  "i_block small_root_inode = [3, 0, 0, 0, 0, 0, 0, 0, 0, 0, 0, 0, 0, 0, 0]"
  "i_block small_file_inode = [4, 0, 0, 0, 0, 0, 0, 0, 0, 0, 0, 0, 0, 0, 0]"
  by code_simp+

lemma small_lengths [simp]: "length small_root_inode = 256" "length small_file_inode = 256"
  by code_simp+

lemma small_fields: "i_mode small_root_inode = 0x4000" "i_size small_root_inode = 1024" "i_size small_file_inode = 500"
proof -
  have "slice 0 2 small_root_inode = [0, 0x40]" unfolding small_root_inode_def by (rule slice_0_append) simp
  then show "i_mode small_root_inode = 0x4000" by (simp add: i_mode_def get_field_def field_offsets)
qed code_simp+

lemmas small_inodes = small_i_block small_lengths small_fields

lemma small_sb_fields: "s_magic small_sb = EXT2_S_MAGIC" "s_inodes_per_group small_sb = 8" "s_inode_size small_sb = 256"
proof -
  note set = length_set_field [OF field_offsets(7)] length_set_field [OF field_offsets(8)] length_set_field [OF field_offsets(10)]
  show "s_magic small_sb = EXT2_S_MAGIC" unfolding s_magic_def small_sb_def
    by (rule get_set_same [OF field_offsets(8)]) (simp_all add: set EXT2_S_MAGIC_def)
  show "s_inodes_per_group small_sb = 8" unfolding s_inodes_per_group_def small_sb_def
    by (simp add: get_set_other [OF field_offsets(7,8)] get_set_same [OF field_offsets(7)] set)
  show "s_inode_size small_sb = 256" unfolding s_inode_size_def small_sb_def
    by (simp add: get_set_other [OF field_offsets(10,8)] get_set_other [OF field_offsets(10,7)] get_set_same [OF field_offsets(10)] set)
qed

lemma length_small_root: "length (dir_bytes small_root) = 1024"
  by (simp add: small_root_def)

lemma small_mem_image: "mem_image (fs_dev small_fs) = replicate 2048 0 @ replicate 256 0 @ small_root_inode @ small_file_inode @ replicate 256 0 @
     dir_bytes small_root @ replicate 1024 65 @ replicate 1024 0"
  by (simp add: small_fs_def mem_image_def small_image_def small_inodes length_small_root)

lemma small_group: "group_at small_fs 0 = Some (set_field group_layout ''bg_inode_table'' 2 (replicate 32 0))"
  "bg_inode_table (set_field group_layout ''bg_inode_table'' 2 (replicate 32 0)) = 2"
proof -
  show "group_at small_fs 0 = Some (set_field group_layout ''bg_inode_table'' 2 (replicate 32 0))"
    by (simp add: group_at_def layout_sizes small_fs_def load_def length_set_field [OF field_offsets(13)])
  show "bg_inode_table (set_field group_layout ''bg_inode_table'' 2 (replicate 32 0)) = 2"
    unfolding bg_inode_table_def by (rule get_set_same [OF field_offsets(13)]) simp_all
qed

lemma small_fs_ok: "ext2_ok mem_inv mem_ready mem_image small_fs"
proof -
  have "mem_inv (fs_dev small_fs)"
    by (simp add: mem_inv_def small_fs_def small_image_def small_inodes length_small_root)
  moreover have "length (mem_image (fs_dev small_fs)) = 6144"
    by (simp add: small_mem_image small_inodes length_small_root)
  ultimately show ?thesis
    by (simp add: ext2_ok_def small_fs_def EXT2Valid_def small_sb_fields mem_ready_def)
qed

lemma small_blocks:
  "file_blocks img small_fs inc small_root_inode = [3]" "file_blocks img small_fs inc small_file_inode = [4]"
  "blk mem_image small_fs 3 = dir_bytes small_root" "blk mem_image small_fs 4 = replicate 1024 65"
  "blk_in mem_image small_fs 3" "blk_in mem_image small_fs 4"
proof -
  show "file_blocks img small_fs inc small_root_inode = [3]" "file_blocks img small_fs inc small_file_inode = [4]"
    by (simp_all add: file_blocks_def through_def used_def small_inodes)
  have b: "fs_block_size small_fs = 1024" by (simp add: small_fs_def)
  show "blk mem_image small_fs 3 = dir_bytes small_root" "blk mem_image small_fs 4 = replicate 1024 65"
    by (simp_all add: blk_def small_mem_image b small_inodes length_small_root slice_0_append)
  show "blk_in mem_image small_fs 3" "blk_in mem_image small_fs 4"
    by (simp_all add: blk_in_def b small_mem_image small_inodes length_small_root)
qed

lemma small_fs_fields: "fs_sb small_fs = small_sb" "fs_block_size small_fs = 1024"
  by (simp_all add: small_fs_def)

lemma small_on:
  "inode_on mem_image small_fs 2 small_root_inode" "inode_on mem_image small_fs 3 small_file_inode"
  "file_ok mem_image small_fs small_root_inode" "file_ok mem_image small_fs small_file_inode"
  "file_data mem_image small_fs small_root_inode = dir_bytes small_root"
  "file_data mem_image small_fs small_file_inode = replicate 1024 65"
proof -
  have off: "inode_offset small_fs 2 = Some 2304" "inode_offset small_fs 3 = Some 2560"
    by (simp_all add: inode_offset_def InoToLino_def InoToGrpno_def small_fs_fields small_sb_fields small_group BlockOffset_def u64_def u32_def)
  have "slice 2304 256 (mem_image (fs_dev small_fs)) = small_root_inode" "slice 2560 256 (mem_image (fs_dev small_fs)) = small_file_inode"
    by (simp_all add: small_mem_image small_inodes slice_0_append)
  moreover have "length (mem_image (fs_dev small_fs)) = 6144"
    by (simp add: small_mem_image small_inodes length_small_root)
  moreover have "drop 256 (junk small_fs 256) = []" by (simp add: junk_def)
  ultimately show "inode_on mem_image small_fs 2 small_root_inode" "inode_on mem_image small_fs 3 small_file_inode"
    by (simp_all add: inode_on_def small_fs_fields small_sb_fields off)
qed (simp_all add: file_ok_def file_data_def small_blocks small_fs_fields)

lemma small_dirs: "dirs_on mem_image small_fs [2 \<mapsto> small_root]"
  using small_on(1,3,5) length_small_root
  by (auto simp: dirs_on_def dir_on_def small_inodes ent_wf_def small_root_def EXT2_FT_REG_FILE_def EXT2_S_IFDIR_def
      intro!: exI [of _ small_root_inode] split: if_splits)

lemma small_paths:
  "path_names (ascii ''a'') = [ascii ''a'']" "path_names (ascii ''b'') = [ascii ''b'']"
  "resolve [2 \<mapsto> small_root] [ascii ''a''] EXT2_ROOT_INO = Some 3" "resolve [2 \<mapsto> small_root] [ascii ''b''] EXT2_ROOT_INO = Some 0"
  by (simp_all add: path_names_def tokens_def is_delim_def cstr_def EXT2_ROOT_INO_def small_root_def dir_find_def)

text \<open>
  C17: Path lookup. On a device that behaves as a byte array, with directories on it as the map \<open>dirs\<close> says,
  \<open>EXT2PathToIno\<close> returns the inode number that the reference definition \<open>resolve\<close> finds by following
  the components of the path through the lists of entries from the root, where all but the
  last component must be directories. It returns \<open>EXT2_ERR_FILE_NOT_FOUND\<close> when a
  component is missing. Nothing is changed.
\<close>

theorem PathToIno_resolves_path:
  assumes "blkdev_image D dinv dready img" "ext2_ok dinv dready img e" "dirs_on img e dirs"
    and "path = chr (CHR ''/'') # t @ 0 # r" "0 \<notin> set t" "length t < 255" "length (path_names t) < 32"
    and "resolve dirs (path_names t) EXT2_ROOT_INO = Some k"
  shows "\<exists>e'. EXT2PathToIno D path e = Some (if k = 0 then Inl EXT2_ERR_FILE_NOT_FOUND else Inr k, e') \<and> keeps dinv dready img e e'"
  using blkdev_image.PathToIno_resolves [OF assms] by (simp add: looked_up_def)

theorem PathToIno_resolves_path_witness:
  "(\<exists>e'. EXT2PathToIno mem_ops (ascii ''/a'' @ [0]) small_fs = Some (Inr 3, e')) \<and>
   (\<exists>e'. EXT2PathToIno mem_ops (ascii ''/b'' @ [0]) small_fs = Some (Inl EXT2_ERR_FILE_NOT_FOUND, e'))"
proof
  note lookup = PathToIno_resolves_path [OF md.blkdev_image_axioms small_fs_ok small_dirs]
  show "\<exists>e'. EXT2PathToIno mem_ops (ascii ''/a'' @ [0]) small_fs = Some (Inr 3, e')"
    using lookup [of "ascii ''/a'' @ [0]" "ascii ''a''" "[]" 3] small_paths by (auto simp: chr_def)
  show "\<exists>e'. EXT2PathToIno mem_ops (ascii ''/b'' @ [0]) small_fs = Some (Inl EXT2_ERR_FILE_NOT_FOUND, e')"
    using lookup [of "ascii ''/b'' @ [0]" "ascii ''b''" "[]" 0] small_paths by (auto simp: chr_def)
qed

text \<open>
  C18: Loading by name. When the path leads to an inode whose blocks lie on the device,
  \<open>EXT2LoadFileFromPath\<close> succeeds and returns the size in that inode and, at that length, the bytes of its
  blocks in order; the device and the file system are unchanged.
\<close>

theorem LoadFileFromPath_returns_file:
  assumes "blkdev_image D dinv dready img" "ext2_ok dinv dready img e" "dirs_on img e dirs"
    and "path = chr (CHR ''/'') # t @ 0 # r" "0 \<notin> set t" "length t < 255" "length (path_names t) < 32"
    and "resolve dirs (path_names t) EXT2_ROOT_INO = Some k" "k \<noteq> 0"
    and "inode_on img e k inode" "file_ok img e inode" "i_size inode \<le> length (file_data img e inode)"
  shows "\<exists>data e'. EXT2LoadFileFromPath D path e = Some (Inr (data, i_size inode), e') \<and>
    take (i_size inode) data = take (i_size inode) (file_data img e inode) \<and> keeps dinv dready img e e'"
proof -
  from blkdev_image.PathToIno_resolves [OF assms(1-8)] assms(9) obtain e1 where
    e1: "EXT2PathToIno D path e = Some (Inr k, e1)" "keeps dinv dready img e e1" by (auto simp: looked_up_def)
  from blkdev_image.ReadInode_runs [OF assms(1) e1(2) assms(10)] obtain e2 where
    e2: "EXT2ReadInode D k e1 = Some (Inr inode, e2)" "keeps dinv dready img e e2" by (auto simp: runs_def)
  from blkdev_image.LoadFile_on [OF assms(1) e2(2) assms(11)] obtain post e3 where
    e3: "EXT2LoadFileFromInode D inode e2 = Some (Inr (file_data img e inode @ post, i_size inode), e3)" "keeps dinv dready img e e3"
    by (auto simp: runs_def)
  show ?thesis using e1 e2 e3 assms(12)
    by (simp add: EXT2LoadFileFromPath_def EXT2PathToInode_def with_error_def andthen_def success_def)
qed

theorem LoadFileFromPath_returns_file_witness:
  "\<exists>data e'. EXT2LoadFileFromPath mem_ops (ascii ''/a'' @ [0]) small_fs = Some (Inr (data, 500), e') \<and> take 500 data = replicate 500 65"
  using LoadFileFromPath_returns_file [OF md.blkdev_image_axioms small_fs_ok small_dirs, of "ascii ''/a'' @ [0]" "ascii ''a''" "[]" 3 small_file_inode]
    small_paths small_on(2,4,6) by (auto simp: small_inodes chr_def)

end
