(* ===== verification/Ext2Shape.thy ===== *)
theory Ext2Shape
  imports Ext2Lookup
begin

text \<open>
  What an operation may change of the file system object. All operations, whether they succeed or fail, leave
  the geometry alone: in the superblock and in the group descriptors that are kept in memory,
  only the counters of free blocks and inodes change. There is one rule per combinator, and the rules
  for the operations follow from them.
\<close>

text \<open>The bytes of the two counters in the superblock, and in each of the group descriptors.\<close>

definition sb_counter :: "nat \<Rightarrow> bool" where
  "sb_counter i \<longleftrightarrow> 12 \<le> i \<and> i < 20"

definition group_counter :: "nat \<Rightarrow> bool" where
  "group_counter i \<longleftrightarrow> 12 \<le> i mod 32 \<and> i mod 32 < 16"

definition same_but :: "(nat \<Rightarrow> bool) \<Rightarrow> bytes \<Rightarrow> bytes \<Rightarrow> bool" where
  "same_but P xs ys \<longleftrightarrow> length xs = length ys \<and> (\<forall>i < length xs. P i \<or> xs ! i = ys ! i)"

definition same_shape :: "'s ext2 \<Rightarrow> 's ext2 \<Rightarrow> bool" where
  "same_shape e e' \<longleftrightarrow> fs_block_size e' = fs_block_size e \<and> fs_group_count e' = fs_group_count e \<and>
     fs_root_inode e' = fs_root_inode e \<and> same_but sb_counter (fs_sb e) (fs_sb e') \<and>
     same_but group_counter (fs_groups e) (fs_groups e')"

definition keeps_shape :: "('s, 'a) ext2_op \<Rightarrow> bool" where
  "keeps_shape m \<longleftrightarrow> (\<forall>e r e'. m e = Some (r, e') \<longrightarrow> length (fs_sb e) = 1024 \<longrightarrow> same_shape e e')"

lemma same_but_refl [simp]: "same_but P xs xs"
  by (simp add: same_but_def)

lemma same_but_trans: "same_but P xs ys \<Longrightarrow> same_but P ys zs \<Longrightarrow> same_but P xs zs"
  unfolding same_but_def by metis

lemma same_but_overwrite:
  "off + length ys \<le> length xs \<Longrightarrow> (\<And>i. off \<le> i \<Longrightarrow> i < off + length ys \<Longrightarrow> P i) \<Longrightarrow> same_but P xs (overwrite off ys xs)"
  by (auto simp: same_but_def nth_overwrite)

lemma same_shape_refl: "same_shape e e"
  by (simp add: same_shape_def)

lemma same_shape_trans: "same_shape e e1 \<Longrightarrow> same_shape e1 e2 \<Longrightarrow> same_shape e e2"
  unfolding same_shape_def using same_but_trans by (metis (full_types))

lemma same_shape_sb: "same_shape e e' \<Longrightarrow> length (fs_sb e') = length (fs_sb e)"
  by (simp add: same_shape_def same_but_def)

subsection \<open>Combinators\<close>

named_theorems shape_rules \<open>operations that keep the shape\<close>

lemma shape_simple [shape_rules]:
  "keeps_shape (success x)" "keeps_shape (fails err)" "keeps_shape undefined_op" "keeps_shape (reads f)" "keeps_shape (access y)"
  "keeps_shape (require b err)"
  by (auto simp: keeps_shape_def success_def fails_def undefined_op_def reads_def access_def require_def same_shape_refl split: if_splits)

lemma shape_andthen [shape_rules]: "keeps_shape m \<Longrightarrow> (\<And>x. keeps_shape (f x)) \<Longrightarrow> keeps_shape (andthen m f)"
  unfolding keeps_shape_def andthen_def
  by (auto split: option.splits sum.splits) (metis same_shape_sb same_shape_trans)

lemma shape_wrappers [shape_rules]: "keeps_shape m \<Longrightarrow> keeps_shape (attempt m)" "keeps_shape m \<Longrightarrow> keeps_shape (with_error err m)"
  by (auto simp: keeps_shape_def attempt_def with_error_def split: option.splits sum.splits)

lemma shape_or_null [shape_rules]: "keeps_shape m \<Longrightarrow> keeps_shape (or_null m)"
  unfolding or_null_def by (auto intro!: shape_rules split: sum.splits)

lemma shape_heap [shape_rules]: "keeps_shape (with_heap f)" "keeps_shape (allocate err g)"
  by (auto simp: keeps_shape_def with_heap_def allocate_def same_shape_def split: option.splits prod.splits)

lemma shape_device [shape_rules]: "keeps_shape (fs_read D err off n)" "keeps_shape (fs_write D err off d n)"
  by (auto simp: keeps_shape_def fs_read_def fs_write_def same_shape_def split: option.splits)

lemma shape_cases [shape_rules]:
  "(c \<Longrightarrow> keeps_shape a) \<Longrightarrow> (\<not> c \<Longrightarrow> keeps_shape b) \<Longrightarrow> keeps_shape (if c then a else b)"
  "keeps_shape a \<Longrightarrow> (\<And>x. keeps_shape (f x)) \<Longrightarrow> keeps_shape (case y of None \<Rightarrow> a | Some x \<Rightarrow> f x)"
  "(\<And>x. keeps_shape (g x)) \<Longrightarrow> (\<And>x. keeps_shape (h x)) \<Longrightarrow> keeps_shape (case z of Inl x \<Rightarrow> g x | Inr x \<Rightarrow> h x)"
  "(\<And>x y. keeps_shape (k x y)) \<Longrightarrow> keeps_shape (case p of (x, y) \<Rightarrow> k x y)"
  "(\<And>x. keeps_shape (f x)) \<Longrightarrow> keeps_shape (Let v f)"
  by (auto split: option.split sum.split prod.split)

text \<open>The two kinds of change.\<close>

lemma shape_sb_counters [shape_rules]:
  "keeps_shape (updates (\<lambda>e. e\<lparr>fs_sb := free_blocks_add d (fs_sb e)\<rparr>))"
  "keeps_shape (updates (\<lambda>e. e\<lparr>fs_sb := free_inodes_add d (fs_sb e)\<rparr>))"
  by (auto simp: keeps_shape_def updates_def same_shape_def free_blocks_add_def free_inodes_add_def set_field_def field_offsets
      sb_counter_def intro!: same_but_overwrite)

lemma group_update_shape:
  assumes "\<And>g. length g = 32 \<Longrightarrow> \<exists>off v. f g = overwrite off v g \<and> 12 \<le> off \<and> off + length v \<le> 16"
  shows "keeps_shape (group_update f grpno)"
proof -
  have "same_but group_counter gs (overwrite (grpno * 32) (f (slice (grpno * 32) 32 gs)) gs)" if "grpno * 32 + 32 \<le> length gs" for gs
  proof -
    from assms [of "slice (grpno * 32) 32 gs"] that obtain off v where
      f: "f (slice (grpno * 32) 32 gs) = overwrite off v (slice (grpno * 32) 32 gs)" "12 \<le> off" "off + length v \<le> 16" by auto
    have "overwrite (grpno * 32) (f (slice (grpno * 32) 32 gs)) gs = overwrite (grpno * 32 + off) v gs"
      unfolding f(1) using that f(3) by (intro overwrite_in_slice) simp_all
    moreover have "same_but group_counter gs (overwrite (grpno * 32 + off) v gs)"
    proof (rule same_but_overwrite)
      show "grpno * 32 + off + length v \<le> length gs" using that f(3) by simp
      fix i assume i: "grpno * 32 + off \<le> i" "i < grpno * 32 + off + length v"
      then have "i - grpno * 32 < 32" using f(3) by simp
      moreover have "i = (i - grpno * 32) + grpno * 32" using i by simp
      ultimately have "i mod 32 = i - grpno * 32" by (metis mod_less mod_mult_self1)
      then show "group_counter i" using i f(2,3) unfolding group_counter_def by linarith
    qed
    ultimately show ?thesis by simp
  qed
  then show ?thesis
    unfolding group_update_def group_at_def layout_sizes keeps_shape_def
    by (auto simp: andthen_def reads_def access_def updates_def load_def store_def same_shape_def split: if_splits)
qed

lemma shape_group_counters [shape_rules]:
  "keeps_shape (group_update (group_free_blocks_add d) grpno)" "keeps_shape (group_update (group_free_inodes_add d) grpno)"
  by (rule group_update_shape, force simp: group_free_blocks_add_def group_free_inodes_add_def set_field_def field_offsets)+

subsection \<open>Operations\<close>

lemma shape_blocks [shape_rules]:
  "keeps_shape (ReadBlocks D b n buf)" "keeps_shape (EXT2ReadBlock D b)" "keeps_shape (EXT2WriteBlock D b block)"
  unfolding ReadBlocks_def EXT2ReadBlock_def EXT2WriteBlock_def by (intro shape_rules)+

lemma shape_each_block:
  assumes "\<And>blocks n buf. keeps_shape (f blocks n buf)"
  shows "keeps_shape (each_block D f xs buf)"
  by (induction xs arbitrary: buf) (auto intro!: shape_rules assms)

lemma shape_direct [shape_rules]: "keeps_shape (AppendDirectBlockNumbers blocks n buf)"
  unfolding AppendDirectBlockNumbers_def by (intro shape_rules)

lemma shape_indirect [shape_rules]: "keeps_shape (AppendIndirectBlockNumbers D inc blocks n buf)"
  unfolding AppendIndirectBlockNumbers_def by (intro shape_rules shape_each_block)

lemma shape_double [shape_rules]: "keeps_shape (AppendDoubleIndirectBlockNumbers D inc blocks n buf)"
  unfolding AppendDoubleIndirectBlockNumbers_def by (intro shape_rules shape_each_block)

lemma shape_through [shape_rules]:
  "(\<And>blocks n buf. keeps_shape (f blocks n buf)) \<Longrightarrow> keeps_shape (through_block D inc f b buf)"
  unfolding through_block_def by (intro shape_rules)

lemma shape_numbers [shape_rules]: "keeps_shape (LoadBlockNumbersFromInode D inode inc buf)"
  unfolding LoadBlockNumbersFromInode_def by (intro shape_rules)

lemma shape_metadata [shape_rules]:
  "keeps_shape (WriteSuperBlock D)" "keeps_shape (WriteGroup D grpno)"
  "keeps_shape (EXT2ReadBlockBitmap D grpno)" "keeps_shape (EXT2WriteBlockBitmap D grpno bitmap)"
  "keeps_shape (EXT2readReadInodeBitmap D grpno)" "keeps_shape (WriteInodeBitmap D grpno bitmap)"
  unfolding WriteSuperBlock_def WriteGroup_def EXT2ReadBlockBitmap_def EXT2WriteBlockBitmap_def EXT2readReadInodeBitmap_def
    WriteInodeBitmap_def read_bitmap_def write_bitmap_def by (intro shape_rules)+

lemma shape_inodes [shape_rules]: "keeps_shape (EXT2ReadInode D ino)" "keeps_shape (WriteInode D ino inode)"
  unfolding EXT2ReadInode_def read_inode_into_def WriteInode_def by (intro shape_rules)+

lemma shape_scan [shape_rules]:
  "(\<And>g. keeps_shape (readmap g)) \<Longrightarrow> keeps_shape (scan_groups readmap number n grpno)"
proof (induction n arbitrary: grpno)
  case (Suc n)
  show ?case unfolding scan_groups.simps by (intro shape_rules Suc.IH Suc.prems)
qed (auto intro: shape_rules)

lemma shape_get [shape_rules]: "keeps_shape (GetBlock D)" "keeps_shape (GetIno D)"
  unfolding GetBlock_def GetIno_def by (intro shape_rules)+

lemma shape_put_loop [shape_rules]: "keeps_shape (PutBlocks_loop D cur blks)"
proof (induction blks arbitrary: cur)
  case (Cons b blks)
  then show ?case unfolding PutBlocks_loop.simps CheckBlockNumber_def WriteGroubWithBitmap_def by (intro shape_rules)
qed (auto intro: shape_rules)

lemma shape_put [shape_rules]: "keeps_shape (PutBlocks build_efi D blks)"
  unfolding PutBlocks_def by (intro shape_rules)

lemma shape_load_runs [shape_rules]: "keeps_shape (load_runs D bs buf)"
proof (induction D bs buf rule: load_runs.induct)
  case (2 D b bs buf)
  show ?case unfolding load_runs.simps Let_def
    by (intro shape_rules) (use 2 in auto)
qed (auto intro: shape_rules)

lemma shape_files [shape_rules]: "keeps_shape (EXT2LoadFileFromInode D inode)" "keeps_shape (EXT2OpenDirIno D ino)"
  unfolding EXT2LoadFileFromInode_def EXT2OpenDirIno_def by (intro shape_rules)+

lemma shape_list [shape_rules]: "keeps_shape (EXT2ListDirInode D ino)"
  unfolding EXT2ListDirInode_def by (intro shape_rules)

lemma shape_walk [shape_rules]: "keeps_shape (walk_path D names ino)"
proof (induction names arbitrary: ino)
  case (Cons n names)
  then show ?case unfolding walk_path.simps by (intro shape_rules)
qed (auto intro: shape_rules)

lemma shape_paths [shape_rules]:
  "keeps_shape (EXT2PathToIno D path)" "keeps_shape (EXT2PathToInode D path)" "keeps_shape (SplitFullPath path)"
  unfolding EXT2PathToIno_def EXT2PathToInode_def SplitFullPath_def by (intro shape_rules)+

lemma shape_trunc [shape_rules]: "keeps_shape (EXT2Trunc build_efi D path)"
  unfolding EXT2Trunc_def by (intro shape_rules)

lemma shape_pieces [shape_rules]: "(\<And>p. keeps_shape (w p)) \<Longrightarrow> keeps_shape (write_pieces n w p i data)"
proof (induction n w p i data rule: write_pieces.induct)
  case (1 n w p i data)
  show ?case by (subst write_pieces.simps) (intro shape_rules 1; assumption)
qed

lemma shape_write_numbers [shape_rules]:
  "keeps_shape (WriteSingleDirectBlockNumbers D bs)" "keeps_shape (WriteDoubleIndirect D bs)" "keeps_shape (WriteIndirectBlockNumbers D k bs)"
  unfolding WriteSingleDirectBlockNumbers_def WriteDoubleIndirect_def WriteIndirectBlockNumbers_def write_indirect_def
  by (intro shape_rules)+

lemma shape_group_blocks [shape_rules]: "keeps_shape (write_group_blocks D data nblks rem grpno k lblkno bitmap i blknos)"
proof (induction k arbitrary: lblkno bitmap i blknos)
  case (Suc k)
  then show ?case unfolding write_group_blocks.simps by (intro shape_rules)
qed (auto intro: shape_rules)

lemma shape_groups [shape_rules]: "keeps_shape (write_groups D data nblks rem k grpno i blknos)"
proof (induction k arbitrary: grpno i blknos)
  case (Suc k)
  then show ?case unfolding write_groups.simps WriteGroubWithBitmap_def by (intro shape_rules)
qed (auto intro: shape_rules)

lemma shape_data [shape_rules]: "keeps_shape (WriteData D data sz blknos)" "keeps_shape (CountDirectoryEntries data sz)"
  unfolding WriteData_def CountDirectoryEntries_def by (intro shape_rules)+

lemma shape_pointers [shape_rules]: "keeps_shape (UpdateInodeBlockPointers D ino inode sz bs)"
  unfolding UpdateInodeBlockPointers_def update_indirect_def by (intro shape_rules)

lemma shape_update [shape_rules]:
  "keeps_shape (UpdateInodeDataBlocks D ino inode data sz is_dir)" "keeps_shape (EXT2Update build_efi D data sz path)"
  unfolding UpdateInodeDataBlocks_def EXT2Update_def by (intro shape_rules)+

lemma shape_directories [shape_rules]:
  "keeps_shape (CheckDirectoryEntries data sz)" "keeps_shape (FindDirectoryEntry name data sz)"
  "keeps_shape (CountDirectoryEntriesIno D ino)" "keeps_shape (IndexDirectoryToLinkedListDirectory new_ent data sz)"
  unfolding CheckDirectoryEntries_def FindDirectoryEntry_def CountDirectoryEntriesIno_def IndexDirectoryToLinkedListDirectory_def
  by (intro shape_rules)+

lemma shape_rm [shape_rules]: "keeps_shape (EXT2Rm build_efi D path)"
  unfolding EXT2Rm_def rm_rewrite_def replace_directory_def by (intro shape_rules)

lemma shape_create [shape_rules]:
  "keeps_shape (CreateFileInode D t sz mode blknos)" "keeps_shape (CreateDirInodeAndBlock D t parent mode)"
  "keeps_shape (new_entry ino ft name)" "keeps_shape (AddDirectoryEntry build_efi D ino inode name ent)"
  unfolding CreateFileInode_def CreateDirInodeAndBlock_def new_entry_def AddDirectoryEntry_def replace_directory_def
  by (intro shape_rules)+

lemma shape_put_file [shape_rules]: "keeps_shape (EXT2Put build_efi D t data sz path mode)" "keeps_shape (EXT2MkDir build_efi D t path mode)"
  unfolding EXT2Put_def EXT2MkDir_def Let_def by (intro shape_rules)+

subsection \<open>Mounted file systems\<close>

text \<open>What \<open>EXT2New\<close> has checked and computed from the superblock.\<close>

definition mounted :: "'s ext2 \<Rightarrow> bool" where
  "mounted e \<longleftrightarrow> EXT2Valid e \<and> length (fs_sb e) = 1024 \<and> length (fs_root_inode e) = 256 \<and>
     s_rev_level (fs_sb e) \<ge> EXT2_DYNAMIC_REV \<and> s_inode_size (fs_sb e) \<le> 256 \<and>
     s_log_block_size (fs_sb e) \<le> 20 \<and> s_blocks_per_group (fs_sb e) \<noteq> 0 \<and>
     fs_block_size e = 1024 * 2 ^ s_log_block_size (fs_sb e) \<and>
     fs_group_count e = u32 (1 + u32 (s_blocks_count (fs_sb e) + 2 ^ 32 - 1) div s_blocks_per_group (fs_sb e)) \<and>
     length (fs_groups e) = u32 (fs_group_count e * 32)"

lemma same_but_slice:
  assumes "same_but P xs ys" "\<And>i. off \<le> i \<Longrightarrow> i < off + k \<Longrightarrow> \<not> P i"
  shows "slice off k xs = slice off k ys"
proof (rule nth_equalityI)
  show "length (slice off k xs) = length (slice off k ys)" using assms(1) by (simp add: same_but_def)
  fix i assume i: "i < length (slice off k xs)"
  then have "\<not> P (off + i)" using assms(2) by simp
  moreover have "off + i < length xs" "i < k" using i by auto
  ultimately show "slice off k xs ! i = slice off k ys ! i" using assms(1) by (auto simp: same_but_def nth_slice)
qed

lemma same_shape_mounted:
  assumes "mounted e" "same_shape e e'"
  shows "mounted e'"
proof -
  have sb: "same_but sb_counter (fs_sb e) (fs_sb e')" using assms(2) by (simp add: same_shape_def)
  have f: "get_field superblock_layout g (fs_sb e') = get_field superblock_layout g (fs_sb e)"
    if "field_at superblock_layout g = (off, k)" "off + k \<le> 12 \<or> 20 \<le> off" for g off k
    using that same_but_slice [OF sb, of off k] by (auto simp: get_field_def sb_counter_def)
  have "s_magic (fs_sb e') = s_magic (fs_sb e)" "s_rev_level (fs_sb e') = s_rev_level (fs_sb e)"
    "s_inode_size (fs_sb e') = s_inode_size (fs_sb e)" "s_log_block_size (fs_sb e') = s_log_block_size (fs_sb e)"
    "s_blocks_per_group (fs_sb e') = s_blocks_per_group (fs_sb e)" "s_blocks_count (fs_sb e') = s_blocks_count (fs_sb e)"
    unfolding s_magic_def s_rev_level_def s_inode_size_def s_log_block_size_def s_blocks_per_group_def s_blocks_count_def
    by (rule f [OF field_offsets(8)] f [OF field_offsets(9)] f [OF field_offsets(10)] f [OF field_offsets(5)] f [OF field_offsets(6)]
        f [OF field_offsets(1)]; simp)+
  with assms show ?thesis by (simp add: mounted_def same_shape_def same_but_def EXT2Valid_def)
qed

lemma andthen_InrD:
  assumes "andthen m f e = Some (Inr y, e2)"
  obtains x e1 where "m e = Some (Inr x, e1)" "f x e1 = Some (Inr y, e2)"
  using assms by (auto simp: andthen_def split: option.splits sum.splits prod.splits)

lemma with_error_InrD: "with_error err m e = Some (Inr x, e') \<Longrightarrow> m e = Some (Inr x, e')"
  by (auto simp: with_error_def split: option.splits sum.splits prod.splits)

text \<open>A device that returns as much as it is asked for.\<close>

definition whole_blocks :: "'s blkdev \<Rightarrow> bool" where
  "whole_blocks D \<longleftrightarrow> (\<forall>s b n d s'. GetN D s b n = Some (0, d, s') \<longrightarrow> n < 2 ^ 32 \<longrightarrow> length d = n * 512)"

lemma ReadSuperBlock_length:
  assumes "whole_blocks D" "ReadSuperBlock D e = Some (Inr sb, e')"
  shows "length sb = 1024" "\<exists>s. e' = e\<lparr>fs_dev := s\<rparr>"
  using assms unfolding ReadSuperBlock_def fs_read_def Ext2Read_def read_blocks_def EXT2_BASE_OFFSET_def layout_sizes BLKDEV_BLKSIZE_def
  by (fastforce simp: whole_blocks_def ReadPartialBlock_def Let_def split: option.splits bind_splits if_splits)+

lemma ReadGroups_length:
  assumes "ReadGroups D e = Some (Inr gs, e')"
  shows "length gs = u32 (fs_group_count e * 32)" "\<exists>s h. e' = e\<lparr>fs_heap := h, fs_dev := s\<rparr>"
  using assms unfolding ReadGroups_def layout_sizes Let_def
  by (auto simp: reads_def andthen_def allocate_def access_def fails_def fs_read_def Malloc_def store_def u32_small [OF u32_less]
      split: option.splits if_splits sum.splits prod.splits; blast)+

lemma read_inode_into_length:
  assumes "read_inode_into D ino old e = Some (Inr inode, e')"
  shows "length inode = length old" "\<exists>s. e' = e\<lparr>fs_dev := s\<rparr>"
  using assms unfolding read_inode_into_def
  by (auto simp: reads_def andthen_def access_def fails_def fs_read_def store_def split: option.splits if_splits sum.splits prod.splits)

lemma EXT2New_mounted:
  assumes "whole_blocks D" "EXT2New D dev h j = Some (Inr (), e)"
  shows "mounted e"
proof -
  let ?n = "new_ext2 dev (heap_next h) j"
  from assms(2) have m: "mount D ?n = Some (Inr (), e)" by (auto simp: EXT2New_def split: option.splits)
  then obtain sb e1 where sb: "ReadSuperBlock D ?n = Some (Inr sb, e1)"
    unfolding mount_def by (elim andthen_InrD) (auto dest: with_error_InrD)
  from ReadSuperBlock_length [OF assms(1) sb] obtain s1 where l: "length sb = 1024" "e1 = ?n\<lparr>fs_dev := s1\<rparr>" by blast
  define e2 where "e2 = e1\<lparr>fs_sb := sb, fs_block_size := 1024 * 2 ^ s_log_block_size sb,
    fs_group_count := u32 (1 + u32 (s_blocks_count sb + 2 ^ 32 - 1) div s_blocks_per_group sb)\<rparr>"
  from m sb obtain gs e3 inode e4 where ok: "s_magic sb = EXT2_S_MAGIC" "\<not> s_rev_level sb < EXT2_DYNAMIC_REV" "s_inode_size sb \<le> 256"
      "s_log_block_size sb \<le> 20" "s_blocks_per_group sb \<noteq> 0"
    and gs: "ReadGroups D e2 = Some (Inr gs, e3)"
    and inode: "read_inode_into D EXT2_ROOT_INO (fs_root_inode (e3\<lparr>fs_groups := gs\<rparr>)) (e3\<lparr>fs_groups := gs\<rparr>) = Some (Inr inode, e4)"
    and e: "e = e4\<lparr>fs_root_inode := inode\<rparr>"
    unfolding mount_def
    by (auto simp: andthen_def with_error_def updates_def reads_def fails_def undefined_op_def e2_def layout_sizes
        split: option.splits if_splits sum.splits prod.splits)
  from ReadGroups_length [OF gs] obtain s3 h3 where g: "length gs = u32 (fs_group_count e2 * 32)" "e3 = e2\<lparr>fs_heap := h3, fs_dev := s3\<rparr>" by blast
  from read_inode_into_length [OF inode] obtain s4 where
    i: "length inode = length (fs_root_inode (e3\<lparr>fs_groups := gs\<rparr>))" "e4 = e3\<lparr>fs_groups := gs, fs_dev := s4\<rparr>" by auto
  show ?thesis unfolding e i(2) g(2) mounted_def using ok l g(1) i(1) g(2)
    by (simp add: e2_def EXT2Valid_def new_ext2_def layout_sizes)
qed

text \<open>An image with a file system: what \<open>EXT2New\<close> needs of it.\<close>

definition image_sb :: "bytes \<Rightarrow> bytes" where
  "image_sb img = slice 1024 1024 img"

definition image_groups :: "bytes \<Rightarrow> nat" where
  "image_groups img = u32 (1 + u32 (s_blocks_count (image_sb img) + 2 ^ 32 - 1) div s_blocks_per_group (image_sb img))"

definition image_table :: "bytes \<Rightarrow> nat" where
  "image_table img = (if s_log_block_size (image_sb img) = 0 then 2048 else 1024 * 2 ^ s_log_block_size (image_sb img))"

definition ext2_image :: "bytes \<Rightarrow> bool" where
  "ext2_image img \<longleftrightarrow> 2048 \<le> length img \<and> length img < 2 ^ 32 \<and>
     s_magic (image_sb img) = EXT2_S_MAGIC \<and> s_rev_level (image_sb img) \<ge> EXT2_DYNAMIC_REV \<and>
     0 < s_inode_size (image_sb img) \<and> s_inode_size (image_sb img) \<le> 256 \<and>
     s_log_block_size (image_sb img) \<le> 3 \<and> s_blocks_per_group (image_sb img) \<noteq> 0 \<and>
     0 < image_groups img \<and> image_table img + image_groups img * 32 \<le> length img \<and>
     2 \<le> s_inodes_per_group (image_sb img) \<and>
     bg_inode_table (slice (image_table img) 32 img) * (1024 * 2 ^ s_log_block_size (image_sb img)) + 512 \<le> length img"

context blkdev_image
begin

lemma fs_read_plain:
  assumes "inv (fs_dev e)" "ready (fs_dev e)" "off + n \<le> length (image (fs_dev e))" "0 < n" "length (image (fs_dev e)) < 2 ^ 32"
  shows "\<exists>s'. fs_read D err off n e = Some (Inr (slice off n (image (fs_dev e))), e\<lparr>fs_dev := s'\<rparr>) \<and> inv s' \<and> ready s' \<and>
    image s' = image (fs_dev e)"
proof -
  have "n < 2 ^ 32" "length (image (fs_dev e)) < 2 ^ 41" using assms by simp_all
  from Read_image [OF assms(1-3) this assms(4)] show ?thesis by (auto simp: fs_read_def)
qed

lemma EXT2New_opens:
  assumes "inv dev" "ready dev" "heap_ok h" "ext2_image (image dev)"
  shows "\<exists>e. EXT2New D dev h j = Some (Inr (), e) \<and> ext2_ok inv ready image e \<and> image (fs_dev e) = image dev \<and>
    fs_sb e = image_sb (image dev) \<and> fs_groups e = slice (image_table (image dev)) (image_groups (image dev) * 32) (image dev)"
proof -
  let ?img = "image dev" and ?sb = "image_sb (image dev)"
  let ?bs = "1024 * 2 ^ s_log_block_size ?sb :: nat" and ?gs = "slice (image_table ?img) (image_groups ?img * 32) ?img"
  note im = assms(4) [unfolded ext2_image_def]
  have len: "2048 \<le> length ?img" "length ?img < 2 ^ 32" using im by blast+
  have tab: "image_table ?img + image_groups ?img * 32 \<le> length ?img" "0 < image_groups ?img * 32" using im by simp_all
  from heap_ok_0 [OF assms(3)] obtain b0 where h0: "h 0 = Some b0" by blast
  from heap_ok_0 [OF heap_ok_next [OF assms(3)]] obtain b1 where h1: "heap_next h 0 = Some b1" by blast
  have "s_log_block_size ?sb \<in> {0, 1, 2, 3}" using im by auto
  then have bs: "?bs \<in> {1024, 2048, 4096, 8192}" by auto
  define e0 where "e0 = new_ext2 dev (heap_next h) j"
  have d0: "fs_dev e0 = dev" by (simp add: e0_def new_ext2_def)
  obtain s1 where s1: "ReadSuperBlock D e0 = Some (Inr ?sb, e0\<lparr>fs_dev := s1\<rparr>)" "inv s1" "ready s1" "image s1 = ?img"
    using fs_read_plain [of e0 1024 1024 EXT2_ERR_FAILED] assms(1,2) len
    by (auto simp: d0 ReadSuperBlock_def EXT2_BASE_OFFSET_def layout_sizes image_sb_def)
  define e2 where "e2 = e0\<lparr>fs_dev := s1, fs_sb := ?sb, fs_block_size := ?bs, fs_group_count := image_groups ?img\<rparr>"
  have e2: "fs_dev e2 = s1" "EXT2Valid e2" "fs_block_size e2 = ?bs" "fs_group_count e2 = image_groups ?img" "fs_heap e2 = heap_next h" "fs_sb e2 = ?sb"
    using im by (simp_all add: e2_def EXT2Valid_def e0_def new_ext2_def)
  have gsz: "u32 (image_groups ?img * 32) = image_groups ?img * 32" using tab len by (intro u32_small) simp
  have tb: "BlockOffset (group_table_blkno e2) ?bs = image_table ?img"
    using bs by (auto simp: BlockOffset_def group_table_blkno_def e2 image_table_def)
  obtain s3 where s3: "ReadGroups D e2 = Some (Inr ?gs, e2\<lparr>fs_heap := heap_next (heap_next h), fs_dev := s3\<rparr>)" "inv s3" "ready s3" "image s3 = ?img"
  proof -
    let ?e = "e2\<lparr>fs_heap := heap_next (heap_next h)\<rparr>"
    obtain s' where r: "fs_read D EXT2_ERR_FAILED (image_table ?img) (image_groups ?img * 32) ?e = Some (Inr ?gs, ?e\<lparr>fs_dev := s'\<rparr>)"
      "inv s'" "ready s'" "image s' = ?img"
      using fs_read_plain [of ?e "image_table ?img" "image_groups ?img * 32" EXT2_ERR_FAILED] s1 tab len by (auto simp: e2)
    have lg: "length ?gs = image_groups ?img * 32" using tab by simp
    have al: "allocate EXT2_ERR_FAILED (\<lambda>h. Malloc h (image_groups ?img * 32)) e2 = Some (Inr (replicate (image_groups ?img * 32) b1), ?e)"
      using gsz h1 by (simp add: allocate_def Malloc_def e2)
    have "ReadGroups D e2 = Some (Inr ?gs, ?e\<lparr>fs_dev := s'\<rparr>)"
      unfolding ReadGroups_def layout_sizes Let_def
      using e2(2) al r(1) lg by (simp add: andthen_def reads_def e2 gsz tb access_def store_def) (simp add: overwrite_def)
    then show thesis using that r by simp
  qed
  define e4 where "e4 = e2\<lparr>fs_heap := heap_next (heap_next h), fs_dev := s3, fs_groups := ?gs\<rparr>"
  have e4: "fs_dev e4 = s3" "fs_block_size e4 = ?bs" "fs_sb e4 = ?sb" "fs_groups e4 = ?gs" "length (fs_root_inode e4) = 256"
    by (simp_all add: e4_def e2_def e0_def new_ext2_def layout_sizes)
  let ?t = "bg_inode_table (slice (image_table ?img) 32 ?img)" and ?n = "s_inode_size ?sb"
  have it: "?t * ?bs + 512 \<le> length ?img" "0 < ?n" "?n \<le> 256" "2 \<le> s_inodes_per_group ?sb" using im by simp_all
  have one: "32 \<le> image_groups ?img * 32" "image_table ?img + 32 \<le> length ?img" using tab im by auto
  have "group_at e4 0 = Some (slice (image_table ?img) 32 ?img)"
    using one by (simp add: group_at_def layout_sizes e4 load_def slice_slice)
  moreover have o: "?t * ?bs < 2 ^ 32" using it(1) len(2) by linarith
  then have "BlockOffset ?t ?bs = ?t * ?bs" unfolding BlockOffset_def by (rule u32_small)
  moreover have n: "?n < 2 ^ 32" using it(3) by simp
  then have "u32 ?n = ?n" by (rule u32_small)
  moreover have "?t * ?bs + ?n < 2 ^ 64" using order_less_le_trans [OF add_strict_mono [OF o n], of "2 ^ 64"] by simp
  then have "u64 (?t * ?bs + ?n) = ?t * ?bs + ?n" by (rule u64_small)
  ultimately have off: "inode_offset e4 EXT2_ROOT_INO = Some (?t * ?bs + ?n)"
    using it(4) by (simp add: inode_offset_def InoToLino_def InoToGrpno_def EXT2_ROOT_INO_def e4)
  obtain s5 i where s5: "read_inode_into D EXT2_ROOT_INO (fs_root_inode e4) e4 = Some (Inr i, e4\<lparr>fs_dev := s5\<rparr>)" "inv s5" "ready s5" "image s5 = ?img"
  proof -
    have "?t * ?bs + ?n + ?n \<le> length ?img" using it by simp
    then obtain s' where r: "fs_read D EXT2_ERR_FAILED (?t * ?bs + ?n) ?n e4 = Some (Inr (slice (?t * ?bs + ?n) ?n ?img), e4\<lparr>fs_dev := s'\<rparr>)"
      "inv s'" "ready s'" "image s' = ?img"
      using fs_read_plain [of e4 "?t * ?bs + ?n" ?n EXT2_ERR_FAILED] s3 it(2) len by (auto simp: e4)
    have "length (slice (?t * ?bs + ?n) ?n ?img) \<le> 256" using it(3) by simp
    with r(1) off e4(5) have "read_inode_into D EXT2_ROOT_INO (fs_root_inode e4) e4 =
        Some (Inr (overwrite 0 (slice (?t * ?bs + ?n) ?n ?img) (fs_root_inode e4)), e4\<lparr>fs_dev := s'\<rparr>)"
      by (simp add: read_inode_into_def andthen_def reads_def access_def store_def e4(3) EXT2_ROOT_INO_def)
    then show thesis using that r by blast
  qed
  let ?e = "e4\<lparr>fs_dev := s5, fs_root_inode := i\<rparr>"
  have "mount D e0 = Some (Inr (), ?e)"
  proof -
    have fold: "e0\<lparr>fs_dev := s1, fs_sb := ?sb, fs_block_size := ?bs,
        fs_group_count := u32 (1 + u32 (s_blocks_count ?sb + 2 ^ 32 - 1) div s_blocks_per_group ?sb)\<rparr> = e2"
      "e2\<lparr>fs_heap := heap_next (heap_next h), fs_dev := s3, fs_groups := ?gs\<rparr> = e4"
      by (simp_all add: e2_def e4_def image_groups_def)
    have c: "\<not> s_magic ?sb \<noteq> EXT2_S_MAGIC" "\<not> s_rev_level ?sb = EXT2_GOOD_OLD_REV" "\<not> s_rev_level ?sb < EXT2_DYNAMIC_REV"
      "\<not> s_inode_size ?sb > struct_size inode_layout" "\<not> (s_log_block_size ?sb > 20 \<or> s_blocks_per_group ?sb = 0)"
      using im by (auto simp: EXT2_GOOD_OLD_REV_def EXT2_DYNAMIC_REV_def layout_sizes)
    have root: "fs_root_inode e4 = fs_root_inode e2" by (simp add: e4_def)
    show ?thesis unfolding mount_def
      by (simp add: andthen_def with_error_def updates_def reads_def s1(1) c del: not_not not_less)
         (simp add: fold [simplified] s3(1) s5(1) [unfolded root])
  qed
  moreover have "ext2_ok inv ready image ?e"
    using s5 bs len(2) assms(3) e2(2) by (auto simp: ext2_ok_def e4_def e2_def EXT2Valid_def)
  ultimately show ?thesis using h0 s5 e4 by (auto simp: EXT2New_def e0_def)
qed

end

subsection \<open>Sessions\<close>

lemma shape_readers [shape_rules]:
  "keeps_shape (EXT2LoadFileFromPath D path)" "keeps_shape (EXT2OpenDir D path)" "keeps_shape (EXT2OpenFile D path)"
  unfolding EXT2LoadFileFromPath_def EXT2OpenDir_def EXT2OpenFile_def by (intro shape_rules)+

lemma shape_read_loop [shape_rules]: "keeps_shape (ReadFile_loop D bs f n acc)"
proof (induction bs arbitrary: f n acc)
  case (Cons b bs)
  then show ?case unfolding ReadFile_loop.simps Let_def by (intro shape_rules)
qed (auto intro: shape_rules)

lemma shape_read [shape_rules]: "keeps_shape (EXT2ReadFile D f n)"
  unfolding EXT2ReadFile_def by (intro shape_rules)

text \<open>
  The states that a client can bring a mounted file system to: any sequence of calls, each of which may fail.
\<close>

inductive session :: "bool \<Rightarrow> 's blkdev \<Rightarrow> 's ext2 \<Rightarrow> 's ext2 \<Rightarrow> bool" for build_efi D e0 where
  start: "session build_efi D e0 e0"
| put: "session build_efi D e0 e \<Longrightarrow> EXT2Put build_efi D t data sz path mode e = Some (r, e') \<Longrightarrow> session build_efi D e0 e'"
| mkdir: "session build_efi D e0 e \<Longrightarrow> EXT2MkDir build_efi D t path mode e = Some (r, e') \<Longrightarrow> session build_efi D e0 e'"
| update: "session build_efi D e0 e \<Longrightarrow> EXT2Update build_efi D data sz path e = Some (r, e') \<Longrightarrow> session build_efi D e0 e'"
| trunc: "session build_efi D e0 e \<Longrightarrow> EXT2Trunc build_efi D path e = Some (r, e') \<Longrightarrow> session build_efi D e0 e'"
| rm: "session build_efi D e0 e \<Longrightarrow> EXT2Rm build_efi D path e = Some (r, e') \<Longrightarrow> session build_efi D e0 e'"
| lookup: "session build_efi D e0 e \<Longrightarrow> EXT2PathToInode D path e = Some (r1, e') \<Longrightarrow> session build_efi D e0 e'"
| list: "session build_efi D e0 e \<Longrightarrow> EXT2ListDirInode D ino e = Some (r2, e') \<Longrightarrow> session build_efi D e0 e'"
| loadfile: "session build_efi D e0 e \<Longrightarrow> EXT2LoadFileFromPath D path e = Some (r2, e') \<Longrightarrow> session build_efi D e0 e'"
| openfile: "session build_efi D e0 e \<Longrightarrow> EXT2OpenFile D path e = Some (r3, e') \<Longrightarrow> session build_efi D e0 e'"
| readfile: "session build_efi D e0 e \<Longrightarrow> EXT2ReadFile D f n e = Some (r4, e') \<Longrightarrow> session build_efi D e0 e'"

lemma keeps_shape_step:
  assumes "keeps_shape m" "m e = Some (r, e')" "length (fs_sb e0) = 1024" "same_shape e0 e"
  shows "same_shape e0 e'"
proof -
  have "length (fs_sb e) = 1024" using same_shape_sb [OF assms(4)] assms(3) by simp
  then have "same_shape e e'" using assms(1,2) by (auto simp: keeps_shape_def)
  then show ?thesis by (rule same_shape_trans [OF assms(4)])
qed

lemma session_shape:
  assumes "session build_efi D e0 e" "length (fs_sb e0) = 1024"
  shows "same_shape e0 e"
  using assms(1)
proof induction
  case start
  show ?case by (rule same_shape_refl)
qed (erule keeps_shape_step [OF shape_put_file(1) _ assms(2)] keeps_shape_step [OF shape_put_file(2) _ assms(2)]
    keeps_shape_step [OF shape_update(2) _ assms(2)] keeps_shape_step [OF shape_trunc _ assms(2)] keeps_shape_step [OF shape_rm _ assms(2)]
    keeps_shape_step [OF shape_paths(2) _ assms(2)] keeps_shape_step [OF shape_list _ assms(2)] keeps_shape_step [OF shape_readers(1) _ assms(2)]
    keeps_shape_step [OF shape_readers(3) _ assms(2)] keeps_shape_step [OF shape_read _ assms(2)], assumption)+

section \<open>Claims\<close>

text \<open>An image in memory: the superblock is block 1, the table of groups block 2, the table of inodes block 3.\<close>

definition mount_sb :: bytes where
  "mount_sb = set_field superblock_layout ''s_magic'' EXT2_S_MAGIC (set_field superblock_layout ''s_rev_level'' 1
     (set_field superblock_layout ''s_inode_size'' 128 (set_field superblock_layout ''s_inodes_per_group'' 16
     (set_field superblock_layout ''s_blocks_per_group'' 8192 (set_field superblock_layout ''s_blocks_count'' 4 (replicate 1024 0))))))"

definition mount_dev :: mem_dev where
  "mount_dev = \<lparr>md_data = replicate 1024 0 @ mount_sb @
     (set_field group_layout ''bg_inode_table'' 3 (replicate 32 0) @ replicate 992 0) @ replicate 1536 0, md_size = 4608\<rparr>"

lemma mount_sb_fields:
  "length mount_sb = 1024" "s_magic mount_sb = EXT2_S_MAGIC" "s_rev_level mount_sb = 1" "s_inode_size mount_sb = 128"
  "s_inodes_per_group mount_sb = 16" "s_blocks_per_group mount_sb = 8192" "s_blocks_count mount_sb = 4" "s_log_block_size mount_sb = 0"
proof -
  note f = field_offsets(8) field_offsets(9) field_offsets(10) field_offsets(7) field_offsets(6) field_offsets(1)
  note len = length_set_field [OF f(1)] length_set_field [OF f(2)] length_set_field [OF f(3)] length_set_field [OF f(4)]
    length_set_field [OF f(5)] length_set_field [OF f(6)]
  show "length mount_sb = 1024" by (simp add: mount_sb_def len)
  show "s_magic mount_sb = EXT2_S_MAGIC" "s_rev_level mount_sb = 1" "s_inode_size mount_sb = 128"
    "s_inodes_per_group mount_sb = 16" "s_blocks_per_group mount_sb = 8192" "s_blocks_count mount_sb = 4"
    unfolding s_magic_def s_rev_level_def s_inode_size_def s_inodes_per_group_def s_blocks_per_group_def s_blocks_count_def mount_sb_def
    by (simp_all add: get_set_same [OF f(1)] get_set_same [OF f(2)] get_set_same [OF f(3)] get_set_same [OF f(4)] get_set_same [OF f(5)]
        get_set_same [OF f(6)] get_set_other [OF f(2) f(1)] get_set_other [OF f(3) f(1)] get_set_other [OF f(3) f(2)]
        get_set_other [OF f(4) f(1)] get_set_other [OF f(4) f(2)] get_set_other [OF f(4) f(3)]
        get_set_other [OF f(5) f(1)] get_set_other [OF f(5) f(2)] get_set_other [OF f(5) f(3)] get_set_other [OF f(5) f(4)]
        get_set_other [OF f(6) f(1)] get_set_other [OF f(6) f(2)] get_set_other [OF f(6) f(3)] get_set_other [OF f(6) f(4)]
        get_set_other [OF f(6) f(5)] len EXT2_S_MAGIC_def)
  have z: "get_field superblock_layout ''s_log_block_size'' (replicate 1024 0) = 0"
    by (simp add: get_field_def field_offsets slice_def min_def numeral_eq_Suc)
  show "s_log_block_size mount_sb = 0" unfolding s_log_block_size_def mount_sb_def
    using z by (simp add: get_set_other [OF field_offsets(5) f(1)] get_set_other [OF field_offsets(5) f(2)] get_set_other [OF field_offsets(5) f(3)]
        get_set_other [OF field_offsets(5) f(4)] get_set_other [OF field_offsets(5) f(5)] get_set_other [OF field_offsets(5) f(6)] len)
qed

lemma mount_image: "mem_inv mount_dev" "mem_ready mount_dev" "ext2_image (mem_image mount_dev)" "image_sb (mem_image mount_dev) = mount_sb"
proof -
  let ?g = "set_field group_layout ''bg_inode_table'' 3 (replicate 32 0)"
  have g: "length ?g = 32" by (simp add: length_set_field [OF field_offsets(13)])
  show "mem_inv mount_dev" "mem_ready mount_dev" by (simp_all add: mem_inv_def mem_ready_def mount_dev_def mount_sb_fields g)
  have img: "mem_image mount_dev = replicate 1024 0 @ mount_sb @ ?g @ replicate 992 0 @ replicate 1024 0"
    by (simp add: mem_image_def mount_dev_def mount_sb_fields g)
  show sb: "image_sb (mem_image mount_dev) = mount_sb"
    by (simp add: image_sb_def img slice_0_append mount_sb_fields)
  have n: "image_groups (mem_image mount_dev) = 1" "image_table (mem_image mount_dev) = 2048"
    by (simp_all add: image_groups_def image_table_def sb mount_sb_fields u32_def)
  have "slice 2048 32 (mem_image mount_dev) = ?g" by (simp add: img mount_sb_fields slice_0_append g)
  moreover have "bg_inode_table ?g = 3"
    unfolding bg_inode_table_def by (rule get_set_same [OF field_offsets(13)]) simp_all
  ultimately show "ext2_image (mem_image mount_dev)"
    by (simp add: ext2_image_def sb n mount_sb_fields EXT2_DYNAMIC_REV_def) (simp add: img mount_sb_fields g)
qed

lemma whole_blocks_mem: "whole_blocks mem_ops"
  by (auto simp: whole_blocks_def mem_ops_def mem_GetN_def Let_def load_def BLKDEV_BLKSIZE_def split: if_splits bind_splits)

text \<open>
  C16: Opening a file system. On a device that behaves as a byte array and holds a consistent superblock,
  table of groups and root inode, \<open>EXT2New\<close> succeeds; the object has the superblock and the
  descriptors of the disk and satisfies the condition \<open>ext2_ok\<close> under which files are looked up and
  read.
\<close>

theorem EXT2New_opens_image:
  assumes "blkdev_image D dinv dready img" "dinv dev" "dready dev" "heap_ok h" "ext2_image (img dev)"
  shows "\<exists>e. EXT2New D dev h j = Some (Inr (), e) \<and> ext2_ok dinv dready img e \<and> img (fs_dev e) = img dev \<and>
    fs_sb e = image_sb (img dev) \<and> fs_groups e = slice (image_table (img dev)) (image_groups (img dev) * 32) (img dev)"
  using assms by (rule blkdev_image.EXT2New_opens)

theorem EXT2New_opens_image_witness:
  "\<exists>e. EXT2New mem_ops mount_dev (\<lambda>_. Some 0) (\<lambda>_. 0) = Some (Inr (), e) \<and> ext2_ok mem_inv mem_ready mem_image e \<and> fs_sb e = mount_sb"
  using EXT2New_opens_image [OF md.blkdev_image_axioms mount_image(1,2) _ mount_image(3), of "\<lambda>_. Some 0" "\<lambda>_. 0"] mount_image(4) by auto

text \<open>
  C20: The geometry of a mounted file system is an invariant. After \<open>EXT2New\<close> has succeeded, and after any sequence
  of lookups, reads, \<open>EXT2Put\<close>, \<open>EXT2MkDir\<close>, \<open>EXT2Update\<close>, \<open>EXT2Trunc\<close> and \<open>EXT2Rm\<close>, each of which
  may fail and on whatever the disk holds, the object is well formed: block size, number of groups and
  the lengths of the tables are those of the superblock. Since the mount only the counters of
  free blocks and inodes have changed.
\<close>

theorem session_keeps_geometry:
  assumes "whole_blocks D" "EXT2New D dev h j = Some (Inr (), e0)" "session build_efi D e0 e"
  shows "mounted e \<and> same_shape e0 e"
proof -
  have m: "mounted e0" using assms(1,2) by (rule EXT2New_mounted)
  then have "same_shape e0 e" using session_shape [OF assms(3)] by (simp add: mounted_def)
  with same_shape_mounted [OF m] show ?thesis by blast
qed

theorem session_keeps_geometry_witness:
  "\<exists>e0 r e. EXT2New mem_ops mount_dev (\<lambda>_. Some 0) (\<lambda>_. 0) = Some (Inr (), e0) \<and>
     EXT2Put False mem_ops 0 [] 0 (ascii ''/a'' @ [0]) 0 e0 = Some (r, e) \<and> mounted e \<and> same_shape e0 e"
proof -
  obtain e0 where e0: "EXT2New mem_ops mount_dev (\<lambda>_. Some 0) (\<lambda>_. 0) = Some (Inr (), e0)"
    using blkdev_image.EXT2New_opens [OF md.blkdev_image_axioms mount_image(1,2) _ mount_image(3), of "\<lambda>_. Some 0" "\<lambda>_. 0"] by auto
  have p: "EXT2Put False mem_ops 0 [] 0 (ascii ''/a'' @ [0]) 0 e0 = Some (Inl EXT2_ERR_INVALID_PARAMETER, e0)"
    by (simp add: EXT2Put_def andthen_def reads_def fails_def)
  from session_keeps_geometry [OF whole_blocks_mem e0 session.put [OF session.start p]] e0 p show ?thesis by blast
qed

end
