(* ===== verification/Ext2Count.thy ===== *)
theory Ext2Count
  imports Ext2Lookup
begin

text \<open>
  When \<open>_CountDirectoryEntries\<close> returns. Its loop follows the record lengths of a directory that was read from
  the disk without looking at them; \<open>EXT2ReadDir\<close>, in contrast, stops at a record length of 0.
\<close>

text \<open>The positions that the loop over a directory visits.\<close>

inductive entry_pos :: "bytes \<Rightarrow> nat \<Rightarrow> nat \<Rightarrow> bool" for data :: bytes and limit :: nat where
  first: "entry_pos data limit 0"
| next_one: "entry_pos data limit p \<Longrightarrow> p < limit \<Longrightarrow> entry_lengths data p = Some ent \<Longrightarrow> entry_pos data limit (p + de_rec_len ent)"

definition steps_on :: "bytes \<Rightarrow> nat \<Rightarrow> bool" where
  "steps_on data p \<longleftrightarrow> (\<exists>ent. entry_lengths data p = Some ent \<and> de_rec_len ent \<noteq> 0)"

lemma count_entries_returns:
  assumes "entry_pos data limit p" "\<forall>q. entry_pos data limit q \<longrightarrow> q < limit \<longrightarrow> steps_on data q"
  shows "count_entries data limit p cnt \<noteq> None"
  using assms
proof (induction "limit - p" arbitrary: p cnt rule: less_induct)
  case less
  show ?case
  proof (cases "p < limit")
    case True
    with less.prems obtain ent where ent: "entry_lengths data p = Some ent" "de_rec_len ent \<noteq> 0" by (auto simp: steps_on_def)
    have "entry_pos data limit (p + de_rec_len ent)" using less.prems(1) True ent(1) by (rule next_one)
    from less.hyps [OF _ this less.prems(2)] True ent show ?thesis by (subst count_entries.simps) simp
  qed (subst count_entries.simps, simp)
qed

lemma count_entries_step:
  assumes "count_entries data limit p cnt = Some r" "p < limit"
  shows "\<exists>ent cnt'. entry_lengths data p = Some ent \<and> count_entries data limit (p + de_rec_len ent) cnt' = Some r"
  using assms by (subst (asm) count_entries.simps) (auto split: bind_splits)

lemma count_entries_visits:
  assumes "count_entries data limit 0 0 = Some r" "entry_pos data limit q"
  shows "\<exists>cnt. count_entries data limit q cnt = Some r"
  using assms(2)
proof induction
  case (next_one p ent)
  then obtain cnt where "count_entries data limit p cnt = Some r" by blast
  from count_entries_step [OF this next_one(2)] next_one(3) show ?case by auto
qed (use assms(1) in blast)

lemma count_entries_moves:
  assumes "count_entries data limit p cnt = Some r" "p < limit"
  shows "steps_on data p"
proof (rule ccontr)
  assume n: "\<not> steps_on data p"
  have "d = data \<and> l = limit \<longrightarrow> p' \<noteq> p" if "count_entries d l p' c = Some r'" for d l p' c r'
    using that
  proof (rule count_entries.raw_induct [rotated])
    fix f :: "bytes \<Rightarrow> nat \<Rightarrow> nat \<Rightarrow> nat \<Rightarrow> (nat \<times> nat) option" and d l p' c r'
    assume ih: "\<And>d l p' c r'. f d l p' c = Some r' \<Longrightarrow> d = data \<and> l = limit \<longrightarrow> p' \<noteq> p"
      and eq: "(if p' < l then entry_lengths d p' \<bind> (\<lambda>ent. f d l (p' + de_rec_len ent) (if de_name_len ent \<noteq> 0 then u32 (c + 1) else c))
        else Some (p', c)) = Some r'"
    show "d = data \<and> l = limit \<longrightarrow> p' \<noteq> p"
      using eq n assms(2) by (auto simp: steps_on_def split: bind_splits if_splits dest: ih)
  qed
  with assms(1) show False by blast
qed

lemma count_entries_iff:
  "count_entries data limit 0 0 \<noteq> None \<longleftrightarrow> (\<forall>p. entry_pos data limit p \<longrightarrow> p < limit \<longrightarrow> steps_on data p)"
proof
  assume "count_entries data limit 0 0 \<noteq> None"
  then obtain r where "count_entries data limit 0 0 = Some r" by blast
  from count_entries_visits [OF this] count_entries_moves
  show "\<forall>p. entry_pos data limit p \<longrightarrow> p < limit \<longrightarrow> steps_on data p" by blast
qed (use count_entries_returns [OF first] in blast)

section \<open>Claims\<close>

text \<open>
  C22: \<open>_CountDirectoryEntries\<close> returns exactly when every entry that it reaches lies in the data and has a record
  length other than 0; at a record length of 0 it runs forever.
\<close>

theorem CountDirectoryEntries_returns_iff:
  assumes "EXT2Valid e" "fs_block_size e \<noteq> 0" "sz \<noteq> 0" "sz mod fs_block_size e = 0" "data \<noteq> []"
  shows "CountDirectoryEntries data sz e \<noteq> None \<longleftrightarrow>
    (\<forall>p. entry_pos data sz p \<longrightarrow> p < sz \<longrightarrow> (\<exists>ent. entry_lengths data p = Some ent \<and> de_rec_len ent \<noteq> 0))"
proof -
  have "CountDirectoryEntries data sz e \<noteq> None \<longleftrightarrow> count_entries data sz 0 0 \<noteq> None"
    using assms by (auto simp: CountDirectoryEntries_def andthen_def reads_def access_def fails_def success_def split: option.splits)
  then show ?thesis unfolding count_entries_iff steps_on_def .
qed

theorem CountDirectoryEntries_returns_iff_witness:
  "CountDirectoryEntries (replicate 1024 0) 1024 small_fs = None"
proof -
  have "entry_lengths (replicate 1024 0) 0 = Some (replicate 7 0)" by (simp add: entry_lengths_def load_def slice_def)
  moreover have "de_rec_len (replicate 7 0) = 0" by code_simp
  moreover have "EXT2Valid small_fs" using small_fs_ok by (simp add: ext2_ok_def)
  moreover have "replicate 1024 (0 :: byte) \<noteq> []" by simp
  ultimately show ?thesis
    using CountDirectoryEntries_returns_iff [of small_fs 1024 "replicate 1024 0"] first [of "replicate 1024 0" 1024]
    by (auto simp: small_fs_fields)
qed

end
