(* ===== verification/Ext2Open.thy ===== *)
theory Ext2Open
  imports Ext2Load MemBlkdev
begin

text \<open>
  Reading an open file is reading the file that \<open>EXT2LoadFileFromInode\<close> loads, piece by piece; the
  claims on loading and reading, with a small file system in a memory device as their witness.
\<close>

lemma slice_concat_blks:
  assumes "\<forall>x \<in> set bs. blk_in img e x" "j < length bs" "p + n \<le> fs_block_size e"
  shows "slice (j * fs_block_size e + p) n (concat (map (blk img e) bs)) = slice p n (blk img e (bs ! j))"
proof -
  let ?b = "fs_block_size e"
  have 1: "concat (map (blk img e) bs) =
      concat (map (blk img e) (take j bs)) @ blk img e (bs ! j) @ concat (map (blk img e) (drop (Suc j) bs))"
    using id_take_nth_drop [OF assms(2)] by (metis concat.simps(2) concat_append list.simps(9) map_append)
  have 2: "length (concat (map (blk img e) (take j bs))) = j * ?b"
    using length_concat_blks [of "take j bs" img e] assms by (auto dest: in_set_takeD)
  have 3: "length (blk img e (bs ! j)) = ?b" using assms by (simp add: length_blk)
  show ?thesis unfolding 1 using 2 3 assms(3) by simp
qed

context blkdev_image
begin

lemma ReadFile_loop_runs:
  assumes ok: "ext2_ok inv ready image e" and blks: "\<forall>b \<in> set bs. blk_in image e b"
    and size: "i_size (file_inode file) \<le> length bs * fs_block_size e" "i_size (file_inode file) < 2 ^ 32"
    and "keeps inv ready image e e0" "\<not> file_eof file" "file_offset file \<le> i_size (file_inode file)" "rem < 2 ^ 64"
    and "j = file_offset file div fs_block_size e"
  defines "c \<equiv> concat (map (blk image e) bs)"
  shows "runs (ReadFile_loop D (drop j bs) file rem acc) e0
    (\<lambda>(r, file') e'. (let k = min rem (i_size (file_inode file) - file_offset file) in
       r = Some (rem - k, acc @ slice (file_offset file) k c) \<and>
       (\<exists>eof. file' = file\<lparr>file_offset := file_offset file + k, file_eof := eof\<rparr> \<and> (eof \<longrightarrow> file_offset file + k = i_size (file_inode file)))) \<and> keeps inv ready image e0 e')"
  using size assms(5-9)
proof (induction "length bs - j" arbitrary: j "file" rem acc e0)
  case 0
  let ?b = "fs_block_size e"
  note bs = ok_block_size [OF ok]
  have "length bs \<le> file_offset file div ?b" using 0 by simp
  then have "length bs * ?b \<le> file_offset file" by (metis div_times_less_eq_dividend le_trans mult_le_mono1)
  then have "i_size (file_inode file) - file_offset file = 0" "drop j bs = []" using 0 by simp_all
  then show ?case using keepsD(1) [OF 0(4)] 0(5)
    by (auto simp: runs_def success_def Let_def intro!: keeps_refl exI [of _ "file_eof file"])
next
  case (Suc m)
  let ?b = "fs_block_size e" and ?o = "file_offset file" and ?sz = "i_size (file_inode file)"
  note bs = ok_block_size [OF ok] and k = keepsD [OF Suc(5)]
  have j: "j < length bs" using Suc(2) by simp
  have dr: "drop j bs = (bs ! j) # drop (Suc j) bs" using j by (simp add: Cons_nth_drop_Suc)
  show ?case
  proof (cases "rem = 0")
    case True
    then show ?thesis using keepsD(1) [OF Suc(5)] Suc(6) unfolding dr
      by (auto simp: runs_def success_def Let_def intro!: keeps_refl exI [of _ "file_eof file"])
  next
    case False
    define p where "p = ?o mod ?b"
    have o: "?o = j * ?b + p" "p < ?b" using Suc(9) bs(5) by (simp_all add: p_def)
    define q where "q = (if ?b - p < rem then ?b - p else rem)"
    define n where "n = (if ?sz - ?o < q then ?sz - ?o else q)"
    define eof where "eof = (?sz - ?o < q)"
    have fr: "usub64 ?sz ?o = ?sz - ?o" using Suc(4,7) by (intro usub64_small) simp_all
    have n: "p + n \<le> ?b" "n \<le> rem" "n \<le> ?sz - ?o" using o(2) by (auto simp: n_def q_def)
    have at_end: "eof \<Longrightarrow> ?o + n = ?sz" using Suc(7) by (simp add: eof_def n_def)
    have un: "u64 (?o + n) = ?o + n" using n(3) Suc(4,7) by simp
    let ?f = "file\<lparr>file_offset := ?o + n, file_eof := eof\<rparr>"
    have in0: "blk_in image e0 (bs ! j)" using blks j k by simp
    have sl: "slice p n (blk image e (bs ! j)) = slice ?o n c"
      unfolding c_def o(1) using slice_concat_blks [OF blks j n(1)] by simp
    have cont: "runs (ReadFile_loop D (drop (Suc j) bs) ?f (rem - n) (acc @ slice ?o n c)) e1
      (\<lambda>(r, file') e'. (let k = min rem (?sz - ?o) in r = Some (rem - k, acc @ slice ?o k c) \<and>
        (\<exists>eof. file' = file\<lparr>file_offset := ?o + k, file_eof := eof\<rparr> \<and> (eof \<longrightarrow> ?o + k = i_size (file_inode file)))) \<and> keeps inv ready image e0 e')"
      if k1: "keeps inv ready image e0 e1" for e1
    proof (cases "n = min rem (?sz - ?o) \<and> (rem - n = 0 \<or> eof)")
      case True
      then have "ReadFile_loop D (drop (Suc j) bs) ?f (rem - n) (acc @ slice ?o n c) =
          success (Some (rem - n, acc @ slice ?o n c), ?f)"
        by (cases "drop (Suc j) bs") auto
      moreover have "min rem (?sz - ?o) = n" using True by simp
      ultimately show ?thesis using k1 at_end by (auto simp: runs_def success_def Let_def intro!: exI [of _ eof])
    next
      case False
      then have ne: "\<not> eof" and nb: "n = ?b - p" "n < rem"
        using n by (auto simp: n_def q_def eof_def split: if_splits)
      have "?o + n = Suc j * ?b" using o nb by simp
      then have j': "Suc j = file_offset ?f div ?b" using bs(5) by simp
      have "runs (ReadFile_loop D (drop (Suc j) bs) ?f (rem - n) (acc @ slice ?o n c)) e1
        (\<lambda>(r, file') e'. (let k = min (rem - n) (i_size (file_inode ?f) - file_offset ?f) in
           r = Some (rem - n - k, (acc @ slice ?o n c) @ slice (file_offset ?f) k c) \<and>
           (\<exists>eof. file' = ?f\<lparr>file_offset := file_offset ?f + k, file_eof := eof\<rparr> \<and> (eof \<longrightarrow> file_offset ?f + k = i_size (file_inode ?f)))) \<and> keeps inv ready image e1 e')"
        by (rule Suc(1)) (use Suc(2-) j' ne n keeps_trans [OF Suc(5) k1] in auto)
      moreover have "min rem (?sz - ?o) = n + min (rem - n) (?sz - (?o + n))" using n(2,3) by (simp add: min_def) linarith
      ultimately show ?thesis
        by (elim runs_mono) (use keeps_trans [OF k1] in \<open>auto simp: Let_def slice_split add.assoc\<close>)
    qed
    have "runs (andthen (attempt (EXT2ReadBlock D (bs ! j))) (\<lambda>r.
        case r of
          Inl _ \<Rightarrow> success (None, file)
        | Inr block \<Rightarrow>
            andthen (reads fs_block_size) (\<lambda>bsize.
            (let offset = ?o mod bsize;
                 blockBytesRemaining = bsize - offset;
                 copyBytes = (if blockBytesRemaining < rem then blockBytesRemaining else rem);
                 fileBytesRemaining = usub64 ?sz ?o;
                 (copyBytes, eof) = (if fileBytesRemaining < copyBytes then (fileBytesRemaining, True) else (copyBytes, False))
             in
             andthen (access (load offset copyBytes (blk_data block))) (\<lambda>d.
             ReadFile_loop D (drop (Suc j) bs) (file\<lparr>file_offset := u64 (?o + copyBytes), file_eof := eof\<rparr>)
               (rem - copyBytes) (acc @ d)))))) e0
      (\<lambda>(r, file') e'. (let k = min rem (?sz - ?o) in r = Some (rem - k, acc @ slice ?o k c) \<and>
        (\<exists>eof. file' = file\<lparr>file_offset := ?o + k, file_eof := eof\<rparr> \<and> (eof \<longrightarrow> ?o + k = i_size (file_inode file)))) \<and> keeps inv ready image e0 e')"
    proof (rule runs_andthen, rule runs_attempt, rule runs_mono [OF ReadBlock_runs [OF k(1) in0]], elim conjE)
      fix block e1
      assume b1: "blk_size block = fs_block_size e0" "length (blk_data block) = EXT2_MAX_BLOCK_SIZE"
        "take (fs_block_size e0) (blk_data block) = blk image e0 (bs ! j)" and k1: "keeps inv ready image e0 e1"
      have bsz: "fs_block_size e1 = ?b" using keepsD(4) [OF k1] k(4) by simp
      have "slice p n (blk_data block) = slice ?o n c"
        unfolding sl [symmetric] using b1(3) k slice_take [OF n(1), of "blk_data block"] by simp
      then have ld: "load p n (blk_data block) = Some (slice ?o n c)"
        using b1(2) n(1) bs(2) by (simp add: load_def ext2_constants)
      have pair: "(if ?sz - ?o < q then (?sz - ?o, True) else (q, False)) = (n, eof)" by (simp add: n_def eof_def)
      show "runs (case Inr block of
          Inl _ \<Rightarrow> success (None, file)
        | Inr block \<Rightarrow>
            andthen (reads fs_block_size) (\<lambda>bsize.
            (let offset = ?o mod bsize;
                 blockBytesRemaining = bsize - offset;
                 copyBytes = (if blockBytesRemaining < rem then blockBytesRemaining else rem);
                 fileBytesRemaining = usub64 ?sz ?o;
                 (copyBytes, eof) = (if fileBytesRemaining < copyBytes then (fileBytesRemaining, True) else (copyBytes, False))
             in
             andthen (access (load offset copyBytes (blk_data block))) (\<lambda>d.
             ReadFile_loop D (drop (Suc j) bs) (file\<lparr>file_offset := u64 (?o + copyBytes), file_eof := eof\<rparr>)
               (rem - copyBytes) (acc @ d))))) e1
      (\<lambda>(r, file') e'. (let k = min rem (?sz - ?o) in r = Some (rem - k, acc @ slice ?o k c) \<and>
        (\<exists>eof. file' = file\<lparr>file_offset := ?o + k, file_eof := eof\<rparr> \<and> (eof \<longrightarrow> ?o + k = i_size (file_inode file)))) \<and> keeps inv ready image e0 e')"
        apply (simp only: sum.case)
        apply (rule runs_andthen, rule runs_reads)
        apply (simp only: Let_def bsz fr p_def [symmetric] q_def [symmetric] pair prod.case)
        apply (rule runs_andthen, rule runs_access [OF ld])
        apply (use cont [OF k1] un in \<open>simp only: Let_def\<close>)
        done
    qed
    moreover have "(\<not> (rem > 0 \<and> \<not> file_eof file)) = False" using False Suc(6) by simp
    ultimately show ?thesis unfolding dr by (simp only: ReadFile_loop.simps if_False)
  qed
qed

lemma ReadFile_runs:
  assumes ok: "ext2_ok inv ready image e" and blks: "\<forall>b \<in> set bs. blk_in image e b" "blknos_of (file_blknos file) = bs"
    and size: "i_size (file_inode file) \<le> length bs * fs_block_size e" "i_size (file_inode file) < 2 ^ 32"
    and "\<not> file_eof file" "file_offset file \<le> i_size (file_inode file)" "n < 2 ^ 63"
  shows "runs (EXT2ReadFile D file n) e
    (\<lambda>(nread, d, file') e'. (let c = take (i_size (file_inode file)) (concat (map (blk image e) bs)) in
       d = slice (file_offset file) n c \<and> nread = int (length d) \<and>
       (\<exists>eof. file' = file\<lparr>file_offset := file_offset file + length d, file_eof := eof\<rparr> \<and> (eof \<longrightarrow> file_offset file + length d = i_size (file_inode file)))) \<and> keeps inv ready image e e')"
proof -
  let ?b = "fs_block_size e" and ?o = "file_offset file" and ?sz = "i_size (file_inode file)"
  let ?c = "concat (map (blk image e) bs)"
  define k where "k = min n (?sz - ?o)"
  note b = ok_block_size [OF ok]
  have "?o div ?b < 2 ^ 32"
    using le_less_trans [OF le_trans [OF div_le_dividend assms(7)] size(2)] .
  then have u: "u32 (?o div ?b) = ?o div ?b" by (rule u32_small)
  have lc: "?sz \<le> length ?c" using length_concat_blks [OF blks(1)] size(1) by simp
  have d: "slice ?o n (take ?sz ?c) = slice ?o k ?c"
    using lc by (simp add: slice_def k_def drop_take)
  have lk: "length (slice ?o k ?c) = k" using lc assms(7) by (auto simp: k_def)
  have k: "k \<le> n" by (simp add: k_def)
  have s: "s64 (int k) = int k" using k assms(8) by (intro s64_small) simp_all
  from ReadFile_loop_runs [OF ok blks(1) size keeps_refl [OF ok] assms(6,7) _ refl, of n "[]"] assms(8)
  have loop: "runs (ReadFile_loop D (drop (?o div ?b) bs) file n []) e
    (\<lambda>(r, file') e'. (r = Some (n - k, slice ?o k ?c) \<and> (\<exists>eof. file' = file\<lparr>file_offset := ?o + k, file_eof := eof\<rparr> \<and> (eof \<longrightarrow> ?o + k = i_size (file_inode file)))) \<and>
      keeps inv ready image e e')" by (simp add: k_def Let_def)
  have "runs (andthen (ReadFile_loop D (drop (u32 (?o div ?b)) (blknos_of (file_blknos file))) file n []) (\<lambda>(r, file).
       case r of None \<Rightarrow> success (-1, [], file) | Some (remaining, acc) \<Rightarrow> success (s64 (int (n - remaining)), acc, file))) e
    (\<lambda>(nread, d, file') e'. (let c = take ?sz ?c in d = slice ?o n c \<and> nread = int (length d) \<and>
       (\<exists>eof. file' = file\<lparr>file_offset := ?o + length d, file_eof := eof\<rparr> \<and> (eof \<longrightarrow> ?o + length d = i_size (file_inode file)))) \<and> keeps inv ready image e e')"
    unfolding u blks(2)
    by (rule runs_andthenI [OF loop]) (use d lk k s in \<open>auto simp: runs_def success_def Let_def\<close>)
  with b(5) show ?thesis unfolding EXT2ReadFile_def by (intro runs_andthen runs_reads) simp
qed

end

text \<open>At the end of the file nothing is read.\<close>

lemma ReadFile_at_eof:
  assumes "file_eof file" "fs_block_size e \<noteq> 0"
  shows "EXT2ReadFile D file n e = Some (Inr (0, [], file), e)"
proof -
  have "ReadFile_loop D bs file n [] = success (Some (n, []), file)" for bs
    using assms(1) by (cases bs) simp_all
  with assms(2) show ?thesis by (simp add: EXT2ReadFile_def andthen_def reads_def success_def s64_small)
qed

section \<open>Claims\<close>

text \<open>A file system of six blocks in memory, and an inode with the blocks 3, 4 and 1 and 2500 bytes.\<close>

definition toy_sb :: bytes where
  "toy_sb = set_field superblock_layout ''s_magic'' EXT2_S_MAGIC (replicate 1024 0)"

definition toy_fs :: "mem_dev ext2" where
  "toy_fs = \<lparr>fs_dev = \<lparr>md_data = replicate 6656 7, md_size = 6656\<rparr>, fs_sb = toy_sb, fs_block_size = 1024, fs_group_count = 1,
     fs_groups = replicate 32 0, fs_root_inode = replicate 256 0, fs_heap = (\<lambda>_. Some 0), fs_junk = (\<lambda>_. 0)\<rparr>"

definition toy_inode :: bytes where
  "toy_inode = set_field inode_layout ''i_size'' 2500 (set_i_block 0 [3, 4, 1] (replicate 256 0))"

lemma toy_sb_magic: "s_magic toy_sb = EXT2_S_MAGIC"
  unfolding s_magic_def toy_sb_def
  by (rule get_set_same [where off = 56 and k = 2]) (simp_all add: field_offsets EXT2_S_MAGIC_def)

lemma toy_fs_ok: "ext2_ok mem_inv mem_ready mem_image toy_fs"
  by (simp add: ext2_ok_def toy_fs_def EXT2Valid_def toy_sb_magic mem_inv_def mem_ready_def mem_image_def)

lemma toy_blocks: "i_block toy_inode = [3, 4, 1, 0, 0, 0, 0, 0, 0, 0, 0, 0, 0, 0, 0]" "i_size toy_inode = 2500"
  by code_simp+

lemma toy_file_blocks: "file_blocks img toy_fs inc toy_inode = [3, 4, 1]"
  by (simp add: file_blocks_def through_def used_def toy_blocks)

lemma toy_blk_in: "b < 6 \<Longrightarrow> blk_in mem_image toy_fs b"
  by (simp add: blk_in_def toy_fs_def mem_image_def)

text \<open>
  C14: Loading a file. On a device that behaves as a byte array, \<open>EXT2LoadFileFromInode\<close> succeeds for every
  inode whose blocks lie on the device: it follows the direct, single, double and triple indirect
  block numbers, reads consecutive blocks with one request, and returns the concatenation
  of the blocks that the reference definition \<open>file_blocks\<close> lists, with the size in the inode. The
  file system and the device are unchanged.
\<close>

theorem LoadFile_returns_blocks:
  assumes "blkdev_image D dinv dready img" "ext2_ok dinv dready img e"
    and "\<forall>b \<in> set (file_blocks img e True inode). blk_in img e b"
    and "length (file_blocks img e False inode) * fs_block_size e \<le> 2 ^ 31"
  shows "\<exists>data e'. EXT2LoadFileFromInode D inode e = Some (Inr (data, i_size inode), e') \<and>
    take (length (file_blocks img e False inode) * fs_block_size e) data = concat (map (blk img e) (file_blocks img e False inode)) \<and>
    keeps dinv dready img e e'"
proof -
  have "\<forall>b \<in> set (file_blocks img e False inode). blk_in img e b"
    using assms(3) file_blocks_subset [of img e inode] by blast
  from length_concat_blks [OF this] blkdev_image.LoadFile_runs [OF assms]
  show ?thesis by (auto simp: runs_def Let_def)
qed

theorem LoadFile_returns_blocks_witness:
  "\<exists>data e'. EXT2LoadFileFromInode mem_ops toy_inode toy_fs = Some (Inr (data, 2500), e') \<and>
    take 3072 data = blk mem_image toy_fs 3 @ blk mem_image toy_fs 4 @ blk mem_image toy_fs 1"
proof -
  have bs: "fs_block_size toy_fs = 1024" by (simp add: toy_fs_def)
  from LoadFile_returns_blocks [OF md.blkdev_image_axioms toy_fs_ok, of toy_inode] show ?thesis
    by (auto simp: toy_file_blocks toy_blocks bs toy_blk_in)
qed

text \<open>
  C15: Reading an open file of less than 4 GiB whose blocks lie on the device, a flat array of bytes, and cover its size,
  at an offset not beyond the size. As long as the file's end flag is clear, \<open>EXT2ReadFile\<close> returns the bytes of the file from the
  current offset on, at most as many as asked for and none beyond the size. Once the flag is set it
  returns no bytes, wherever the offset has been moved since. It moves the offset by the number of
  bytes returned, and sets the flag only where that reaches the end of the file.
\<close>

theorem ReadFile_slice:
  assumes "blkdev_image D dinv dready img" "ext2_ok dinv dready img e"
    and "\<forall>b \<in> set bs. blk_in img e b" "blknos_of (file_blknos file) = bs"
    and "i_size (file_inode file) \<le> length bs * fs_block_size e" "i_size (file_inode file) < 2 ^ 32"
    and "file_offset file \<le> i_size (file_inode file)" "n < 2 ^ 63"
  shows "\<exists>d eof e'. EXT2ReadFile D file n e =
      Some (Inr (int (length d), d, file\<lparr>file_offset := file_offset file + length d, file_eof := eof\<rparr>), e') \<and>
    d = (if file_eof file then []
         else slice (file_offset file) n (take (i_size (file_inode file)) (concat (map (blk img e) bs)))) \<and>
    (if file_eof file then eof else eof \<longrightarrow> file_offset file + length d = i_size (file_inode file)) \<and>
    keeps dinv dready img e e'"
proof (cases "file_eof file")
  case True
  have "fs_block_size e \<noteq> 0" using ok_block_size(5) [OF assms(2)] by simp
  from ReadFile_at_eof [OF True this, of D n] True show ?thesis
    by (intro exI [of _ "[]"] exI [of _ True] exI [of _ e]) (simp add: keeps_refl [OF assms(2)])
next
  case False
  from blkdev_image.ReadFile_runs [OF assms(1-6) False assms(7,8)] False show ?thesis
    by (auto simp: runs_def Let_def)
qed

theorem ReadFile_slice_witness:
  "\<exists>d file' e'. EXT2ReadFile mem_ops
      \<lparr>file_inode = toy_inode, file_blknos = \<lparr>buf_data = u32_bytes [3, 4, 1], buf_size = 3, buf_cap = 3\<rparr>, file_offset = 2000, file_eof = False\<rparr>
      4096 toy_fs = Some (Inr (int (length d), d, file'), e') \<and> length d = 500 \<and> file_offset file' = 2500"
proof -
  have bs: "fs_block_size toy_fs = 1024" by (simp add: toy_fs_def)
  have nums: "blknos_of \<lparr>buf_data = u32_bytes [3, 4, 1], buf_size = 3, buf_cap = 3\<rparr> = [3, 4, 1]"
    by (simp add: blknos_of_def u32s_u32_bytes)
  have len: "length (concat (map (blk mem_image toy_fs) [3, 4, 1])) = 3072"
    using length_concat_blks [of "[3, 4, 1]" mem_image toy_fs] toy_blk_in bs by simp
  from ReadFile_slice [OF md.blkdev_image_axioms toy_fs_ok, of "[3, 4, 1]"
      "\<lparr>file_inode = toy_inode, file_blknos = \<lparr>buf_data = u32_bytes [3, 4, 1], buf_size = 3, buf_cap = 3\<rparr>, file_offset = 2000, file_eof = False\<rparr>" 4096]
  show ?thesis using nums len by (auto simp: toy_blocks bs toy_blk_in)
qed

text \<open>
  Once a read has reached the end of a file, seeking back does not make it readable again:
  \<open>EXT2SeekFile\<close> reports success and leaves the flag \<open>eof\<close> set, and every later \<open>EXT2ReadFile\<close> returns
  0 bytes.
\<close>

lemma SeekFile_keeps_eof:
  assumes "file_eof file" "fs_block_size e \<noteq> 0" "EXT2SeekFile file offset = (0, file')"
  shows "EXT2ReadFile D file' n e = Some (Inr (0, [], file'), e)"
proof -
  have "file_eof file'" using assms(1,3) by (auto simp: EXT2SeekFile_def split: if_splits)
  then show ?thesis using assms(2) by (rule ReadFile_at_eof)
qed

text \<open>
  C39: A failure to read a run of two or more consecutive blocks is lost: \<open>EXT2LoadFileFromInode\<close> then
  returns \<open>EXT2_ERR_NONE\<close> with a null pointer and a size of 0, so that its caller sees an
  empty file.
\<close>

theorem LoadFile_loses_read_error:
  assumes "EXT2Valid e" "LoadBlockNumbersFromInode D inode False BufInit e = Some (Inr blknos, e1)"
    and "blknos_of blknos = b # bs" "run_length (b # bs) \<noteq> 1"
    and "ReadBlocks D b (run_length (b # bs)) BufInit e1 = Some (Inl err, e2)"
  shows "EXT2LoadFileFromInode D inode e = Some (Inr ([], 0), e2)"
proof -
  have "load_runs D (blknos_of blknos) BufInit e1 = Some (Inr None, e2)"
    using assms(4,5) unfolding assms(3) load_runs.simps Let_def
    by (simp only: if_False) (simp add: andthen_def attempt_def success_def)
  with assms(1,2) show ?thesis
    by (simp add: EXT2LoadFileFromInode_def andthen_def reads_def success_def)
qed

text \<open>A device that cannot be read any more, and an inode with two consecutive blocks.\<close>

definition dead_ops :: "mem_dev blkdev" where
  "dead_ops = mem_ops\<lparr>GetN := (\<lambda>s b n. Some (-1, [], s))\<rparr>"

definition run_inode :: bytes where
  "run_inode = set_field inode_layout ''i_size'' 2048 (set_i_block 0 [3, 4] (replicate 256 0))"

lemma run_inode_blocks: "i_block run_inode = [3, 4, 0, 0, 0, 0, 0, 0, 0, 0, 0, 0, 0, 0, 0]"
  by code_simp

lemma dead_numbers:
  obtains blknos e1 where "LoadBlockNumbersFromInode dead_ops run_inode False BufInit toy_fs = Some (Inr blknos, e1)"
    "blknos_of blknos = [3, 4]" "keeps mem_inv mem_ready mem_image toy_fs e1"
proof -
  have "runs (AppendDirectBlockNumbers (i_block run_inode) 12 BufInit) toy_fs
    (\<lambda>buf' e'. holds buf' ([] @ used (take 12 (i_block run_inode))) \<and> keeps mem_inv mem_ready mem_image toy_fs e')"
    by (rule blkdev_image.AppendDirect_runs [OF md.blkdev_image_axioms toy_fs_ok holds_init]) (simp_all add: run_inode_blocks used_def)
  then obtain b e1 where b: "AppendDirectBlockNumbers (i_block run_inode) 12 BufInit toy_fs = Some (Inr b, e1)"
    "holds b [3, 4]" "keeps mem_inv mem_ready mem_image toy_fs e1"
    by (auto simp: runs_def run_inode_blocks used_def)
  have "EXT2Valid toy_fs" using toy_fs_ok by (simp add: ext2_ok_def)
  with b(1) have "LoadBlockNumbersFromInode dead_ops run_inode False BufInit toy_fs = Some (Inr b, e1)"
    by (simp add: LoadBlockNumbersFromInode_def andthen_def reads_def through_block_def success_def run_inode_blocks
        EXT2_SINGLE_INDIRECT_BLOCK_def EXT2_DOUBLE_INDIRECT_BLOCK_def EXT2_TRIPLE_INDIRECT_BLOCK_def)
  with b that show ?thesis by (auto simp: holds_def)
qed

theorem LoadFile_loses_read_error_witness:
  "\<exists>e'. EXT2LoadFileFromInode dead_ops run_inode toy_fs = Some (Inr ([], 0), e')"
proof -
  obtain b e1 where b: "LoadBlockNumbersFromInode dead_ops run_inode False BufInit toy_fs = Some (Inr b, e1)"
    "blknos_of b = [3, 4]" "keeps mem_inv mem_ready mem_image toy_fs e1" by (rule dead_numbers)
  note k = keepsD [OF b(3)]
  have ok: "EXT2Valid toy_fs" "EXT2Valid e1" using toy_fs_ok k(1) by (simp_all add: ext2_ok_def)
  have bs: "fs_block_size e1 = 1024" using k(4) by (simp add: toy_fs_def)
  have "buf_inv BufInit" "(2048 :: nat) \<le> 2 ^ 31" by (simp_all add: buf_inv_init)
  from BufReserve_spec [OF this, of "fs_heap e1"] k(1) obtain b' h' where
    res: "BufReserve (fs_heap e1) BufInit 2048 = (0, b', h')" by (auto simp: ext2_ok_def)
  have "\<exists>e2. ReadBlocks dead_ops 3 2 BufInit e1 = Some (Inl EXT2_ERR_READ_FAILED, e2)"
    using ok(2) res
    by (simp add: ReadBlocks_def andthen_def reads_def bs with_error_def with_heap_def BufInit_def fs_read_def
        Ext2Read_def read_blocks_def BlockOffset_def BLKDEV_BLKSIZE_def dead_ops_def)
  moreover have rl: "run_length [3, 4] = 2" by (simp add: u32_def)
  ultimately obtain e2 where e2: "ReadBlocks dead_ops 3 (run_length [3, 4]) BufInit e1 = Some (Inl EXT2_ERR_READ_FAILED, e2)"
    by metis
  have "run_length [3, 4] \<noteq> 1" unfolding rl by simp
  from LoadFile_loses_read_error [OF ok(1) b(1,2) this e2] show ?thesis by blast
qed

end
