(* ===== verification/Ext2Main.thy ===== *)
theory Ext2Main
  imports Ext2File Guid
begin

text \<open>
  The subcommands of \<open>lsvmtool ext2\<close> (\<open>lsvmtool/ext2main.c\<close>) and the functions that copy whole files from and
  to the host (\<open>EXT2LoadFile\<close> of \<open>lsvmutils/ext2.c\<close>, \<open>PutFile\<close> of \<open>lsvmutils/file.c\<close>).

  The host's files are a map from names to contents. \<open>host_opens\<close> says which names can be opened for
  writing, and \<open>host_room\<close> how many bytes \<open>fwrite\<close> takes. A command gets its arguments, the name of
  the command first, and gives the exit status, the lines on the standard output and the
  host's files. Messages on the standard error are left out.
\<close>

subsection \<open>Files of the host\<close>

record host =
  host_files :: "bytes \<Rightarrow> bytes option"
  host_opens :: "bytes \<Rightarrow> bool"
  host_room :: nat

text \<open>The part of a file that the loop has not read yet, in pieces of 4096 bytes.\<close>

function load_chunks :: "heap \<Rightarrow> bytes \<Rightarrow> buf \<Rightarrow> (int \<times> buf \<times> heap) option" where
  "load_chunks h rest buf =
     (if rest = [] then Some (0, buf, h)
      else
        (case BufAppend h buf (Some (take 4096 rest)) (length (take 4096 rest)) of
           None \<Rightarrow> None
         | Some (rc, buf', h') \<Rightarrow> if rc \<noteq> 0 then Some (rc, buf', h') else load_chunks h' (drop 4096 rest) buf'))"
  by pat_completeness auto
termination
  by (relation "measure (\<lambda>(h, rest, buf). length rest)") auto

declare load_chunks.simps [simp del]

definition EXT2LoadFile :: "host \<Rightarrow> bytes \<Rightarrow> ('s, bytes \<times> nat) ext2_op" where
  "EXT2LoadFile host path =
     (case host_files host (cstr path) of
        None \<Rightarrow> fails EXT2_ERR_OPEN_FAILED
      | Some contents \<Rightarrow>
          andthen (with_error EXT2_ERR_FAILED (with_heap (\<lambda>h. load_chunks h contents BufInit))) (\<lambda>buf.
          success (buf_data buf, u32 (buf_size buf))))"

text \<open>\<open>PutFile\<close> and \<open>WriteWholeFile\<close> have the same body.\<close>

definition PutFile :: "host \<Rightarrow> bytes \<Rightarrow> bytes \<Rightarrow> nat \<Rightarrow> (int \<times> host) option" where
  "PutFile host path data sz =
     (if \<not> host_opens host (cstr path) then Some (-1, host)
      else do {
        d \<leftarrow> load 0 sz data;
        let n = min sz (host_room host);
        Some (if n \<noteq> sz then -1 else 0, host\<lparr>host_files := (host_files host)(cstr path \<mapsto> take n d)\<rparr>)
      })"

definition WriteWholeFile :: "host \<Rightarrow> bytes \<Rightarrow> bytes \<Rightarrow> nat \<Rightarrow> (int \<times> host) option" where
  "WriteWholeFile host path data sz = PutFile host path data sz"

subsection \<open>Commands\<close>

type_synonym 's command = "bytes list \<Rightarrow> host \<Rightarrow> ('s, nat \<times> bytes list \<times> host) ext2_op"

definition exits :: "nat \<Rightarrow> bytes list \<Rightarrow> host \<Rightarrow> ('s, nat \<times> bytes list \<times> host) ext2_op" where
  "exits status out host = success (status, out, host)"

text \<open>\<open>if (EXT2_IFERR(err = ...)) { status = 1; goto done; }\<close>\<close>

definition or_exit ::
  "('s, 'a) ext2_op \<Rightarrow> host \<Rightarrow> ('a \<Rightarrow> ('s, nat \<times> bytes list \<times> host) ext2_op) \<Rightarrow> ('s, nat \<times> bytes list \<times> host) ext2_op" where
  "or_exit m host f = andthen (attempt m) (\<lambda>r. case r of Inl _ \<Rightarrow> exits 1 [] host | Inr x \<Rightarrow> f x)"

definition write_out :: "(int \<times> host) option \<Rightarrow> ('s, nat \<times> bytes list \<times> host) ext2_op" where
  "write_out r = andthen (access r) (\<lambda>(rc, host). exits (if rc \<noteq> 0 then 1 else 0) [] host)"

definition check_command :: "'s blkdev \<Rightarrow> 's command" where
  "check_command D argv host =
     (if length argv \<noteq> 1 then exits 1 [] host
      else or_exit (EXT2Check D) host (\<lambda>_. exits 0 [] host))"

function ls_lines :: "ext2_dir \<Rightarrow> bytes list option" where
  "ls_lines dir =
     (case EXT2ReadDir dir of
        None \<Rightarrow> None
      | Some (None, dir') \<Rightarrow> Some []
      | Some (Some ent, dir') \<Rightarrow> map_option ((#) (cstr (d_name ent))) (ls_lines dir'))"
  by pat_completeness auto
termination
  by (relation "measure (\<lambda>dir. dir_size dir - dir_next dir)") (auto dest!: ReadDir_advances)

declare ls_lines.simps [simp del]

definition ls_command :: "'s blkdev \<Rightarrow> 's command" where
  "ls_command D argv host =
     (if length argv \<noteq> 2 then exits 1 [] host
      else
        andthen (EXT2OpenDir D (argv ! 1)) (\<lambda>r.
        case r of
          None \<Rightarrow> exits 1 [] host
        | Some dir \<Rightarrow> andthen (access (ls_lines dir)) (\<lambda>out. exits 0 out host)))"

text \<open>The printed text of a string pointer; a null or wild pointer cannot be printed.\<close>

fun print_string :: "sptr \<Rightarrow> bytes option" where
  "print_string (Str s) = (if 0 \<in> set s then Some (cstr s) else None)"
| "print_string _ = None"

definition print_strings :: "sptr list \<Rightarrow> bytes list option" where
  "print_strings ps = those (map print_string ps)"

definition lsr_command :: "nat \<Rightarrow> 's blkdev \<Rightarrow> 's command" where
  "lsr_command depth D argv host =
     (if length argv \<noteq> 2 then exits 1 [] host
      else
        or_exit (EXT2Lsr depth D (argv ! 1) strarr_init) host (\<lambda>paths.
        andthen (access (load 0 (sa_size paths) (sa_data paths))) (\<lambda>ps.
        andthen (access (print_strings ps)) (\<lambda>out. exits 0 out host))))"

definition get_command :: "'s blkdev \<Rightarrow> 's command" where
  "get_command D argv host =
     (if length argv \<noteq> 3 then exits 1 [] host
      else
        or_exit (EXT2PathToInode D (argv ! 1)) host (\<lambda>(ino, inode).
        or_exit (EXT2LoadFileFromInode D inode) host (\<lambda>(data, sz).
        write_out (WriteWholeFile host (argv ! 2) data sz))))"

definition EXT2_FILE_MODE_RW0_R00_R00 :: nat where
  "EXT2_FILE_MODE_RW0_R00_R00 = 0x81A4"

definition EXT2_DIR_MODE_RWX_R0X_R0X :: nat where
  "EXT2_DIR_MODE_RWX_R0X_R0X = 0x41ED"

text \<open>\<open>t\<close> is the time that new inodes get; the tool is not an EFI build.\<close>

definition put_command :: "'s blkdev \<Rightarrow> nat \<Rightarrow> 's command" where
  "put_command D t argv host =
     (if length argv \<noteq> 3 then exits 1 [] host
      else
        or_exit (EXT2LoadFile host (argv ! 1)) host (\<lambda>(data, sz).
        or_exit (EXT2Put False D t data sz (argv ! 2) EXT2_FILE_MODE_RW0_R00_R00) host (\<lambda>_.
        exits 0 [] host)))"

definition putget_command :: "'s blkdev \<Rightarrow> nat \<Rightarrow> 's command" where
  "putget_command D t argv host =
     (if length argv \<noteq> 4 then exits 1 [] host
      else
        or_exit (EXT2LoadFile host (argv ! 1)) host (\<lambda>(data, sz).
        andthen (attempt (EXT2Rm False D (argv ! 2))) (\<lambda>_.
        or_exit (EXT2Put False D t data sz (argv ! 2) EXT2_FILE_MODE_RW0_R00_R00) host (\<lambda>_.
        or_exit (EXT2PathToInode D (argv ! 2)) host (\<lambda>(ino, inode).
        or_exit (EXT2LoadFileFromInode D inode) host (\<lambda>(data2, sz2).
        write_out (WriteWholeFile host (argv ! 3) data2 sz2)))))))"

definition rm_command :: "'s blkdev \<Rightarrow> 's command" where
  "rm_command D argv host =
     (if length argv \<noteq> 2 then exits 1 [] host
      else or_exit (EXT2Rm False D (argv ! 1)) host (\<lambda>_. exits 0 [] host))"

definition update_command :: "'s blkdev \<Rightarrow> 's command" where
  "update_command D argv host =
     (if length argv \<noteq> 3 then exits 1 [] host
      else
        or_exit (EXT2LoadFile host (argv ! 1)) host (\<lambda>(data, sz).
        or_exit (EXT2Update False D data sz (argv ! 2)) host (\<lambda>_.
        exits 0 [] host)))"

definition trunc_command :: "'s blkdev \<Rightarrow> 's command" where
  "trunc_command D argv host =
     (if length argv \<noteq> 2 then exits 1 [] host
      else or_exit (EXT2Trunc False D (argv ! 1)) host (\<lambda>_. exits 0 [] host))"

definition mkdir_command :: "'s blkdev \<Rightarrow> nat \<Rightarrow> 's command" where
  "mkdir_command D t argv host =
     (if length argv \<noteq> 2 then exits 1 [] host
      else or_exit (EXT2MkDir False D t (argv ! 1) EXT2_DIR_MODE_RWX_R0X_R0X) host (\<lambda>_. exits 0 [] host))"

text \<open>Digests that were not computed are the uninitialised objects on the stack.\<close>

definition hashdir_command :: "nat \<Rightarrow> 'c sha_lib \<Rightarrow> 's blkdev \<Rightarrow> 's command" where
  "hashdir_command depth L D argv host =
     (if length argv \<noteq> 2 then exits 1 [] host
      else
        or_exit (EXT2HashDir depth L D (argv ! 1)) host (\<lambda>(sha1, sha256).
        andthen (reads (\<lambda>e. (case sha1 of Some d \<Rightarrow> d | None \<Rightarrow> junk e 20, case sha256 of Some d \<Rightarrow> d | None \<Rightarrow> junk e 32))) (\<lambda>(d1, d2).
        andthen (reads (\<lambda>e. (junk e 41, junk e 65))) (\<lambda>(s1, s2).
        andthen (access (SHA1ToStr s1 d1)) (\<lambda>t1.
        andthen (access (SHA256ToStr s2 d2)) (\<lambda>t2.
        exits 0 [cstr t1, cstr t2] host))))))"

text \<open>The test of the buffers: \<open>k\<close> numbers from \<open>i\<close> on are appended, and compared.\<close>

fun buftest_fill :: "heap \<Rightarrow> buf \<Rightarrow> nat \<Rightarrow> nat \<Rightarrow> (int \<times> buf \<times> heap) option" where
  "buftest_fill h buf 0 i = Some (0, buf, h)"
| "buftest_fill h buf (Suc k) i =
     do {
       (rc, buf, h) \<leftarrow> BufAppend h buf (Some (nat_le 4 i)) 4;
       if rc \<noteq> 0 then Some (rc, buf, h) else buftest_fill h buf k (Suc i)
     }"

fun buftest_check :: "bytes \<Rightarrow> nat \<Rightarrow> nat \<Rightarrow> bool option" where
  "buftest_check data 0 i = Some True"
| "buftest_check data (Suc k) i =
     do {
       x \<leftarrow> load (4 * i) 4 data;
       if le_nat x \<noteq> i then Some False else buftest_check data k (Suc i)
     }"

definition buftest_command :: "'s command" where
  "buftest_command argv host =
     (if length argv \<noteq> 1 then exits 1 [] host
      else
        or_exit (with_heap (\<lambda>h. buftest_fill h BufInit 100000 0)) host (\<lambda>buf.
        andthen (access (buftest_check (buf_data buf) 100000 0)) (\<lambda>ok.
        exits (if ok then 0 else 1) [] host)))"

text \<open>
  The loop of \<open>fread\<close>: pieces of seven bytes until a call returns none. The result of \<open>BufAppend\<close> is not
  looked at.
\<close>

partial_function (option) fread_loop :: "'s blkdev \<Rightarrow> ext2_file \<Rightarrow> buf \<Rightarrow> 's ext2 \<Rightarrow> (buf \<times> 's ext2) option" where
  "fread_loop D f buf e =
     Option.bind (EXT2ReadFile D f 7 e) (\<lambda>(r, e1).
       case r of
         Inl _ \<Rightarrow> None
       | Inr (n, d, f') \<Rightarrow>
           if n > 0 then
             Option.bind (BufAppend (fs_heap e1) buf (Some d) (nat n)) (\<lambda>(rc, buf', h).
               fread_loop D f' buf' (e1\<lparr>fs_heap := h\<rparr>))
           else Some (buf, e1))"

declare fread_loop.simps [code]

definition fread_command :: "'s blkdev \<Rightarrow> 's command" where
  "fread_command D argv host =
     (if length argv \<noteq> 3 then exits 1 [] host
      else
        andthen (EXT2OpenFile D (argv ! 1)) (\<lambda>r.
        case r of
          None \<Rightarrow> exits 1 [] host
        | Some f \<Rightarrow>
            andthen (\<lambda>e. map_option (\<lambda>(buf, e'). (Inr buf, e')) (fread_loop D f BufInit e)) (\<lambda>buf.
            write_out (PutFile host (argv ! 2) (buf_data buf) (buf_size buf)))))"

text \<open>A number in decimal, as \<open>printf\<close> writes it.\<close>

fun decimal :: "nat \<Rightarrow> bytes" where
  "decimal n = (if n < 10 then [of_nat (48 + n)] else decimal (n div 10) @ [of_nat (48 + n mod 10)])"

declare decimal.simps [simp del]

text \<open>
  \<open>strtoul\<close> in base 10: white space, a sign, digits; the value, clipped to the largest number and
  negated for a minus sign, and the text after it. Without digits the text is where it was.
\<close>

definition is_digit :: "byte \<Rightarrow> bool" where
  "is_digit c \<longleftrightarrow> 48 \<le> c \<and> c \<le> 57"

definition is_space :: "byte \<Rightarrow> bool" where
  "is_space c \<longleftrightarrow> c = 32 \<or> (9 \<le> c \<and> c \<le> 13)"

definition strtoul :: "bytes \<Rightarrow> nat \<times> bytes" where
  "strtoul str =
     (let s = dropWhile is_space (cstr str);
          neg = (s \<noteq> [] \<and> hd s = 45);
          t = (if s \<noteq> [] \<and> (hd s = 45 \<or> hd s = 43) then tl s else s);
          ds = takeWhile is_digit t;
          v = foldl (\<lambda>n d. 10 * n + (unat d - 48)) 0 ds
      in if ds = [] then (0, cstr str)
         else (if v \<ge> 2 ^ 64 then 2 ^ 64 - 1 else if neg then u64 (2 ^ 64 - v) else v, drop (length ds) t))"

definition whose_command :: "nat \<Rightarrow> 's blkdev \<Rightarrow> 's command" where
  "whose_command depth D argv host =
     (if length argv \<noteq> 2 then exits 1 [] host
      else
        (let (blkno, rest) = strtoul (argv ! 1)
         in if rest \<noteq> [] then exits 1 [] host
            else
              andthen (reads (\<lambda>e. junk e EXT2_PATH_MAX)) (\<lambda>path.
              or_exit (EXT2WhoseBlock depth D (u32 blkno) path) host (\<lambda>(found, path).
              exits 0 [if found then cstr path else ascii ''not found''] host))))"

definition blocks_command :: "'s blkdev \<Rightarrow> 's command" where
  "blocks_command D argv host =
     (if length argv \<noteq> 2 then exits 1 [] host
      else
        or_exit (EXT2GetBlockNumbers D (argv ! 1) BufInit) host (\<lambda>blknos.
        exits 0 (map decimal (blknos_of blknos) @ [[]]) host))"

definition uuid_command :: "'s command" where
  "uuid_command argv host =
     (if length argv \<noteq> 1 then exits 1 [] host
      else
        andthen (reads (\<lambda>e. (junk e 37, slice (fst (field_at superblock_layout ''s_uuid'')) 16 (fs_sb e)))) (\<lambda>(buf, uuid).
        andthen (access (FormatGUID buf (MakeGUIDFromBytes uuid))) (\<lambda>text.
        exits 0 [cstr text] host)))"

text \<open>
  The table of commands and the search of \<open>ext2_main\<close> in it, once the file system is open. The callbacks
  of \<open>dump\<close> and \<open>inode\<close>, which print the structures, are arguments.
\<close>

definition ext2_commands :: "'s command \<Rightarrow> 's command \<Rightarrow> nat \<Rightarrow> 'c sha_lib \<Rightarrow> 's blkdev \<Rightarrow> nat \<Rightarrow> (string \<times> 's command) list" where
  "ext2_commands dump_command inode_command depth L D t =
     [(''dump'', dump_command), (''check'', check_command D), (''ls'', ls_command D), (''lsr'', lsr_command depth D),
      (''get'', get_command D), (''put'', put_command D t), (''putget'', putget_command D t), (''rm'', rm_command D),
      (''inode'', inode_command), (''trunc'', trunc_command D), (''update'', update_command D), (''mkdir'', mkdir_command D t),
      (''hashdir'', hashdir_command depth L D), (''buftest'', buftest_command), (''fread'', fread_command D),
      (''whose'', whose_command depth D), (''blocks'', blocks_command D), (''uuid'', uuid_command)]"

fun run_command :: "(string \<times> 's command) list \<Rightarrow> 's command" where
  "run_command [] argv host = exits 1 [] host"
| "run_command ((name, callback) # rest) argv host =
     andthen (access (posix_strcmp (argv ! 1) (ascii name @ [0]))) (\<lambda>c.
     if c = 0 then callback (tl argv) host else run_command rest argv host)"

end
