(* ===== verification/Ext2Fread.thy ===== *)
theory Ext2Fread
  imports Ext2Lookup Ext2Open Ext2Main
begin

text \<open>
  The command \<open>fread\<close> of \<open>lsvmtool ext2\<close> as a client of open files: opening by path, reading piece by piece
  and writing what was read to a file of the host.
\<close>

lemma keeps_heap:
  assumes "keeps dinv dready img e0 e" "heap_ok h"
  shows "keeps dinv dready img e0 (e\<lparr>fs_heap := h\<rparr>)"
proof -
  from assms(1) obtain s h' where e: "e = e0\<lparr>fs_dev := s, fs_heap := h'\<rparr>" by (auto simp: keeps_def)
  have "e\<lparr>fs_heap := h\<rparr> = e0\<lparr>fs_dev := s, fs_heap := h\<rparr>" by (simp add: e)
  moreover have "ext2_ok dinv dready img (e\<lparr>fs_heap := h\<rparr>)"
    using keepsD(1) [OF assms(1)] assms(2) by (simp add: ext2_ok_def EXT2Valid_def)
  moreover have "img (fs_dev (e\<lparr>fs_heap := h\<rparr>)) = img (fs_dev e0)" using keepsD(2) [OF assms(1)] by simp
  ultimately show ?thesis unfolding keeps_def by blast
qed

context blkdev_image
begin

lemma OpenFile_runs:
  assumes ok: "ext2_ok inv ready image e" and dirs: "dirs_on image e dirs"
    and t: "path = chr (CHR ''/'') # t @ 0 # r" "0 \<notin> set t" "length t < 255"
    and n: "length (path_names t) < 32" and res: "resolve dirs (path_names t) EXT2_ROOT_INO = Some k" "k \<noteq> 0"
    and inode: "inode_on image e k inode" "file_ok image e inode"
  shows "runs (EXT2OpenFile D path) e (\<lambda>r e'. (\<exists>b. r = Some \<lparr>file_inode = inode, file_blknos = b, file_offset = 0, file_eof = False\<rparr> \<and>
    blknos_of b = file_blocks image e False inode) \<and> keeps inv ready image e e')"
proof -
  from PathToIno_resolves [OF ok dirs t n res(1)] res(2) obtain e1 where
    e1: "EXT2PathToIno D path e = Some (Inr k, e1)" and k1: "keeps inv ready image e e1" by (auto simp: looked_up_def)
  from ReadInode_runs [OF k1 inode(1)] obtain e2 where
    e2: "EXT2ReadInode D k e1 = Some (Inr inode, e2)" and k2: "keeps inv ready image e e2" by (auto simp: runs_def)
  have ok2: "file_ok image e2 inode" using inode(2) keeps_on(2) [OF k2] by simp
  note bs = ok_block_size [OF ok]
  let ?bs = "file_blocks image e2 False inode"
  have "length ?bs * 4 \<le> length ?bs * fs_block_size e2" by (rule mult_le_mono2) (use bs(1) keepsD(4) [OF k2] in simp)
  also have "\<dots> \<le> 2 ^ 31" using ok2 by (simp add: file_ok_def)
  finally have l4: "(length [] + length ?bs) * 4 \<le> 2 ^ 31" by simp
  have blks: "\<forall>b \<in> set (file_blocks image e2 True inode). blk_in image e2 b" using ok2 by (simp add: file_ok_def)
  from LoadBlockNumbers_runs [OF keepsD(1) [OF k2] holds_init blks l4] obtain b e3 where
    e3: "LoadBlockNumbersFromInode D inode False BufInit e2 = Some (Inr b, e3)" "holds b ?bs" and k3: "keeps inv ready image e2 e3"
    by (auto simp: runs_def)
  have k3': "keeps inv ready image e e3" using k2 k3 by (rule keeps_trans)
  have "runs (allocate EXT2_ERR_FAILED (\<lambda>h. Calloc h 1 (8 + struct_size inode_layout + 24 + 16))) e3
      (\<lambda>x e'. True \<and> keeps inv ready image e3 e')"
    by (rule runs_allocate [OF keepsD(1) [OF k3']]) (auto simp: Calloc_def dest!: heap_ok_0)
  then obtain x e4 where e4: "allocate EXT2_ERR_FAILED (\<lambda>h. Calloc h 1 (8 + struct_size inode_layout + 24 + 16)) e3 = Some (Inr x, e4)"
    and k4: "keeps inv ready image e3 e4" by (auto simp: runs_def)
  have "blknos_of b = file_blocks image e False inode" using e3(2) keeps_on(5) [OF k2] by (simp add: holds_def)
  moreover have "EXT2OpenFile D path e = Some (Inr (Some \<lparr>file_inode = inode, file_blknos = b, file_offset = 0, file_eof = False\<rparr>), e4)"
    using e1 e2 e3(1) e4 by (simp add: EXT2OpenFile_def EXT2PathToInode_def or_null_def attempt_def andthen_def success_def)
  ultimately show ?thesis using keeps_trans [OF k3' k4] by (auto simp: runs_def)
qed

lemma fread_loop_reads_all:
  assumes ok: "ext2_ok inv ready image e0" and k: "keeps inv ready image e0 e"
    and blks: "\<forall>b \<in> set bs. blk_in image e0 b" "blknos_of (file_blknos f) = bs"
    and sz: "i_size (file_inode f) \<le> length bs * fs_block_size e0" "i_size (file_inode f) \<le> 2 ^ 31"
    and off: "file_offset f \<le> i_size (file_inode f)" "file_eof f \<longrightarrow> file_offset f = i_size (file_inode f)"
    and c: "c = take (i_size (file_inode f)) (concat (map (blk image e0) bs))"
    and buf: "filled buf (take (file_offset f) c)"
  shows "\<exists>buf' e'. fread_loop D f buf e = Some (buf', e') \<and> filled buf' c \<and> keeps inv ready image e0 e'"
  using k blks(2) sz off c buf
proof (induction "i_size (file_inode f) - file_offset f" arbitrary: f buf e rule: less_induct)
  case less
  let ?o = "file_offset f" and ?sz = "i_size (file_inode f)"
  note kd = keepsD [OF less.prems(1)]
  have lc: "length c = ?sz" using length_concat_blks [OF blks(1)] less.prems(3,7) by simp
  show ?case
  proof (cases "file_eof f")
    case True
    have "EXT2ReadFile D f 7 e = Some (Inr (0, [], f), e)"
      by (rule ReadFile_at_eof [OF True]) (use ok_block_size [OF kd(1)] in simp)
    moreover have "take ?o c = c" using True less.prems(6) lc by simp
    ultimately show ?thesis using less.prems(1,8) by (subst fread_loop.simps) simp
  next
    case False
    have b: "\<forall>b \<in> set bs. blk_in image e b" using blks(1) kd by simp
    from ReadFile_runs [OF kd(1) b less.prems(2) _ _ False less.prems(5), of 7] less.prems(3,4) kd
    obtain f' e1 eof where rd: "EXT2ReadFile D f 7 e = Some (Inr (int (length (slice ?o 7 c)), slice ?o 7 c, f'), e1)"
      and f': "f' = f\<lparr>file_offset := ?o + length (slice ?o 7 c), file_eof := eof\<rparr>" "eof \<longrightarrow> ?o + length (slice ?o 7 c) = ?sz"
      and k1: "keeps inv ready image e e1"
      by (auto simp: runs_def Let_def less.prems(7))
    have k1': "keeps inv ready image e0 e1" using less.prems(1) k1 by (rule keeps_trans)
    let ?d = "slice ?o 7 c"
    show ?thesis
    proof (cases "?d = []")
      case True
      then have "take ?o c = c" using lc less.prems(5) by (simp add: slice_def)
      with rd True k1' less.prems(8) show ?thesis by (subst fread_loop.simps) simp
    next
      case False
      then have "?o < ?sz" using lc less.prems(5) by (simp add: slice_def)
      then have len: "0 < length ?d" "?o + length ?d \<le> ?sz" using lc by auto
      have "length (take ?o c) + length ?d \<le> 2 ^ 31" using len lc less.prems(4,5) by simp
      from filled_append [OF less.prems(8) this, of ?d "fs_heap e1"] keepsD(1) [OF k1'] obtain b2 h2 where
        b2: "BufAppend (fs_heap e1) buf (Some ?d) (length ?d) = Some (0, b2, h2)" "heap_ok h2" "filled b2 (take ?o c @ ?d)"
        by (auto simp: ext2_ok_def)
      have app: "take ?o c @ ?d = take (?o + length ?d) c"
        using lc len by (simp add: slice_def take_add min_def)
      have k2: "keeps inv ready image e0 (e1\<lparr>fs_heap := h2\<rparr>)"
        using k1' b2(2) by (rule keeps_heap)
      have "\<exists>buf' e'. fread_loop D f' b2 (e1\<lparr>fs_heap := h2\<rparr>) = Some (buf', e') \<and> filled buf' c \<and> keeps inv ready image e0 e'"
        by (rule less.hyps) (use len f' less.prems(2-7) b2(3) app k2 in auto)
      moreover have "fread_loop D f buf e = fread_loop D f' b2 (e1\<lparr>fs_heap := h2\<rparr>)"
        using rd b2(1) len by (subst fread_loop.simps) (simp del: length_slice)
      ultimately show ?thesis by simp
    qed
  qed
qed

end

section \<open>Claims\<close>

text \<open>
  C19: The command \<open>fread\<close> ends and copies the whole file. For a path that leads to a file on the
  device, \<open>_fread_command\<close> reads it in pieces of seven bytes until nothing is left; the loop
  ends, and the host's file then holds exactly the bytes of the file.
\<close>

theorem fread_copies_file:
  assumes "blkdev_image D dinv dready img" "ext2_ok dinv dready img e" "dirs_on img e dirs"
    and "path = chr (CHR ''/'') # t @ 0 # r" "0 \<notin> set t" "length t < 255" "length (path_names t) < 32"
    and "resolve dirs (path_names t) EXT2_ROOT_INO = Some k" "k \<noteq> 0"
    and "inode_on img e k inode" "file_ok img e inode" "i_size inode \<le> length (file_data img e inode)"
    and "host_opens host (cstr out)" "i_size inode \<le> host_room host"
  shows "\<exists>e'. fread_command D [cmd, path, out] host e =
    Some (Inr (0, [], host\<lparr>host_files := (host_files host)(cstr out \<mapsto> take (i_size inode) (file_data img e inode))\<rparr>), e') \<and>
    keeps dinv dready img e e'"
proof -
  let ?bs = "file_blocks img e False inode" and ?c = "take (i_size inode) (file_data img e inode)"
  have blks: "\<forall>b \<in> set ?bs. blk_in img e b" using assms(11) file_blocks_subset [of img e inode] by (auto simp: file_ok_def)
  have len: "length (file_data img e inode) = length ?bs * fs_block_size e"
    unfolding file_data_def by (rule length_concat_blks [OF blks])
  from blkdev_image.OpenFile_runs [OF assms(1-11)] obtain b e1 where
    e1: "EXT2OpenFile D path e = Some (Inr (Some \<lparr>file_inode = inode, file_blknos = b, file_offset = 0, file_eof = False\<rparr>), e1)"
      "blknos_of b = ?bs" "keeps dinv dready img e e1" by (auto simp: runs_def)
  let ?f = "\<lparr>file_inode = inode, file_blknos = b, file_offset = 0, file_eof = False\<rparr>"
  have "length ?bs * fs_block_size e \<le> 2 ^ 31" using assms(11) by (simp add: file_ok_def)
  with len assms(12) have sz: "i_size inode \<le> length ?bs * fs_block_size e" "i_size inode \<le> 2 ^ 31" by simp_all
  have "\<exists>buf' e'. fread_loop D ?f BufInit e1 = Some (buf', e') \<and> filled buf' ?c \<and> keeps dinv dready img e e'"
    by (rule blkdev_image.fread_loop_reads_all [OF assms(1,2) e1(3) blks])
      (use e1(2) sz filled_init in \<open>simp_all add: file_data_def\<close>)
  then obtain buf e2 where e2: "fread_loop D ?f BufInit e1 = Some (buf, e2)" "filled buf ?c" "keeps dinv dready img e e2" by blast
  have bs: "buf_size buf = i_size inode" using filled_size [OF e2(2)] assms(12) by simp
  have "load 0 (buf_size buf) (buf_data buf) = Some ?c"
    using e2(2) unfolding filled_def buf_inv_def buf_contents_def by (auto simp: load_def slice_def)
  then have put: "PutFile host out (buf_data buf) (buf_size buf) = Some (0, host\<lparr>host_files := (host_files host)(cstr out \<mapsto> ?c)\<rparr>)"
    using assms(13,14) bs by (simp add: PutFile_def)
  show ?thesis using e1(1) e2 put
    by (simp add: fread_command_def andthen_def write_out_def access_def exits_def success_def)
qed

theorem fread_copies_file_witness:
  "\<exists>e' files. fread_command mem_ops [ascii ''fread'' @ [0], ascii ''/a'' @ [0], ascii ''x'' @ [0]]
      \<lparr>host_files = Map.empty, host_opens = (\<lambda>_. True), host_room = 1000\<rparr> small_fs =
    Some (Inr (0, [], \<lparr>host_files = files, host_opens = (\<lambda>_. True), host_room = 1000\<rparr>), e') \<and>
    files (ascii ''x'') = Some (replicate 500 65)"
  using fread_copies_file [OF md.blkdev_image_axioms small_fs_ok small_dirs, of "ascii ''/a'' @ [0]" "ascii ''a''" "[]" 3 small_file_inode
      "\<lparr>host_files = Map.empty, host_opens = (\<lambda>_. True), host_room = 1000\<rparr>" "ascii ''x'' @ [0]" "ascii ''fread'' @ [0]"]
    small_paths small_on(2,4,6) by (auto simp: small_inodes chr_def cstr_def)

end
