(* ===== verification/GrubPatch.thy ===== *)
theory GrubPatch
  imports Conf
begin

text \<open>
  \<open>GrubcfgPatch\<close> of \<open>lsvmutils/grubcfg.c\<close>, which disables the loading of GRUB's own disk
  decryption modules in the text of \<open>grub.cfg\<close>. The text is the memory at \<open>data\<close>, changed in
  place; the lines are those of \<open>_GetLine\<close> (the same function as in \<open>conf.c\<close>), and a pointer into
  a line is an offset.
\<close>

definition insmod_commands :: "bytes list" where
  "insmod_commands =
     [ascii ''insmod cryptodisk'', ascii ''insmod luks'', ascii ''insmod gcry_rijndael'', ascii ''insmod gcry_sha1'']"

text \<open>
  The loop over the commands: \<open>off\<close> is the offset of \<open>p\<close> in the line and \<open>len\<close> the length of the
  line from \<open>p\<close> without trailing white space.
\<close>

definition patch_command :: "nat \<Rightarrow> nat \<Rightarrow> bytes \<Rightarrow> bytes \<Rightarrow> bytes" where
  "patch_command off len s line =
     (let n = length s
      in if len \<ge> n \<and> slice off n line = s then overwrite off (replicate n (chr CHR ''#'')) line else line)"

definition patch_line :: "bytes \<Rightarrow> bytes" where
  "patch_line line =
     (let p = SkipWhitespace line
      in if p = [] \<or> hd p = chr CHR ''#'' then line
         else fold (patch_command (length line - length p) (length (StripTrailing p))) insmod_commands line)"

function patch_loop :: "bytes \<Rightarrow> bytes" where
  "patch_loop text =
     (case GetLine text of
        None \<Rightarrow> []
      | Some (line, text') \<Rightarrow> patch_line line @ patch_loop text')"
  by pat_completeness auto
termination
  by (relation "measure length") (auto dest: GetLine_shrinks)

declare patch_loop.simps [simp del]

text \<open>The status and the memory at \<open>data\<close> afterwards.\<close>

definition GrubcfgPatch :: "bytes option \<Rightarrow> nat \<Rightarrow> (int \<times> bytes option) option" where
  "GrubcfgPatch data sz =
     (case data of
        None \<Rightarrow> Some (-1, data)
      | Some mem \<Rightarrow>
          if sz = 0 then Some (-1, data)
          else
            do {
              text \<leftarrow> load 0 sz mem;
              mem' \<leftarrow> store 0 (patch_loop text) mem;
              Some (0, Some mem')
            })"

subsection \<open>Lines\<close>

text \<open>The lines of a text, each with its newline; the last one may have none.\<close>

function text_lines :: "bytes \<Rightarrow> bytes list" where
  "text_lines text = (case GetLine text of None \<Rightarrow> [] | Some (line, text') \<Rightarrow> line # text_lines text')"
  by pat_completeness auto
termination
  by (relation "measure length") (auto dest: GetLine_shrinks)

declare text_lines.simps [simp del]

text \<open>A line: not empty, and a newline is its last byte if it has one.\<close>

definition is_line :: "bytes \<Rightarrow> bool" where
  "is_line l \<longleftrightarrow> l \<noteq> [] \<and> NEWLINE \<notin> set (butlast l)"

text \<open>
  GRUB's modules for encrypted disks, by their names in GRUB, and a line that loads one of them: the command
  \<open>insmod\<close> with the module (or with a longer name that starts with it) is the first thing on the line.
\<close>

definition decryption_modules :: "bytes list" where
  "decryption_modules = [ascii ''cryptodisk'', ascii ''luks'', ascii ''gcry_rijndael'', ascii ''gcry_sha1'']"

definition loads_module :: "bytes \<Rightarrow> bool" where
  "loads_module line \<longleftrightarrow>
     list_ex (\<lambda>m. prefix (ascii ''insmod '' @ m) (StripTrailing (SkipWhitespace line))) decryption_modules"

lemma loads_module_commands:
  "loads_module line \<longleftrightarrow> list_ex (\<lambda>s. take (length s) (StripTrailing (SkipWhitespace line)) = s) insmod_commands"
proof -
  have commands: "insmod_commands = map ((@) (ascii ''insmod '')) decryption_modules"
    by (simp add: insmod_commands_def decryption_modules_def)
  have "take (length s) p = s \<longleftrightarrow> prefix s p" for s p :: bytes
    by (metis append_eq_conv_conj prefix_def take_is_prefix)
  then show ?thesis unfolding loads_module_def commands by (simp add: list_ex_iff)
qed

lemma text_lines_Nil [simp]: "text_lines [] = []"
  by (subst text_lines.simps) (simp add: GetLine_def)

lemma line_split_full: "line_split (l @ r) = (l, r)" if "l \<noteq> []" "NEWLINE \<notin> set (butlast l)" "last l = NEWLINE"
  using that line_split_line [of "butlast l" r] append_butlast_last_id [of l]
  by (metis append.assoc append_Cons append_Nil)

lemma line_split_last: "NEWLINE \<notin> set l \<Longrightarrow> line_split l = (l, [])"
  by (induction l) auto

text \<open>Lines that are all complete except perhaps the last are read back as they are.\<close>

fun lines_ok :: "bytes list \<Rightarrow> bool" where
  "lines_ok [] \<longleftrightarrow> True"
| "lines_ok (l # ls) \<longleftrightarrow> is_line l \<and> (ls = [] \<or> last l = NEWLINE) \<and> lines_ok ls"

lemma text_lines_concat: "lines_ok ls \<Longrightarrow> text_lines (concat ls) = ls"
proof (induction ls)
  case (Cons l ls)
  have split: "line_split (l @ concat ls) = (l, concat ls)"
  proof (cases "last l = NEWLINE")
    case True
    with Cons.prems show ?thesis by (auto simp: is_line_def intro!: line_split_full)
  next
    case False
    with Cons.prems have "ls = []" "NEWLINE \<notin> set l"
      by (auto simp: is_line_def) (metis append_butlast_last_id UnE set_append set_ConsD list.set(1) empty_iff)
    then show ?thesis using line_split_last [of l] by simp
  qed
  have "l \<noteq> []" using Cons.prems by (simp add: is_line_def)
  then have "GetLine (l @ concat ls) = Some (l, concat ls)" by (simp add: GetLine_def split)
  with Cons show ?case by (subst text_lines.simps) simp
qed simp

lemma line_split_is_line:
  "line_split p = (l, r) \<Longrightarrow> p \<noteq> [] \<Longrightarrow> is_line l \<and> (r = [] \<or> last l = NEWLINE)"
proof (induction p arbitrary: l r)
  case (Cons c p)
  show ?case
  proof (cases "c = NEWLINE \<or> p = []")
    case True
    then show ?thesis using Cons.prems by (auto simp: is_line_def split: if_splits)
  next
    case False
    obtain l' r' where "line_split p = (l', r')" by (cases "line_split p")
    with Cons False show ?thesis by (auto simp: is_line_def)
  qed
qed simp

lemma text_lines_ok: "lines_ok (text_lines t) \<and> concat (text_lines t) = t"
proof (induction t rule: text_lines.induct)
  case (1 t)
  show ?case
  proof (cases "t = []")
    case False
    obtain l r where s: "line_split t = (l, r)" by (cases "line_split t")
    with False have g: "GetLine t = Some (l, r)" by (simp add: GetLine_def)
    then have "text_lines t = l # text_lines r" by (subst text_lines.simps) simp
    moreover have "t = l @ r" using line_split_append [of t] s by simp
    moreover have "text_lines r = [] \<Longrightarrow> r = []" using "1.IH" [OF g refl] by auto
    ultimately show ?thesis using "1.IH" [OF g refl] line_split_is_line [OF s False] by auto
  qed simp
qed

lemma patch_loop_lines: "patch_loop t = concat (map patch_line (text_lines t))"
  by (induction t rule: patch_loop.induct)
    (subst patch_loop.simps, subst text_lines.simps, auto split: option.split)


subsection \<open>What a line becomes\<close>

definition command_at :: "nat \<Rightarrow> bytes \<Rightarrow> bytes \<Rightarrow> bool" where
  "command_at len p s \<longleftrightarrow> length s \<le> len \<and> take (length s) p = s"

definition blank_command :: "bytes \<Rightarrow> bytes \<Rightarrow> bytes" where
  "blank_command s p = replicate (length s) (chr CHR ''#'') @ drop (length s) p"

lemma patch_command_at:
  "patch_command (length w) len s (w @ p) = w @ (if command_at len p s then blank_command s p else p)"
  by (auto simp: patch_command_def command_at_def blank_command_def slice_def overwrite_def Let_def)

definition starts_i :: "bytes \<Rightarrow> bool" where
  "starts_i s \<longleftrightarrow> s \<noteq> [] \<and> hd s = chr CHR ''i''"

lemma insmod_commands_start: "list_all starts_i insmod_commands"
  by (simp add: insmod_commands_def starts_i_def chr_def)

lemma not_command_at_hash: "starts_i s \<Longrightarrow> \<not> command_at len (chr CHR ''#'' # p) s"
  by (cases s) (auto simp: command_at_def starts_i_def chr_def)

lemma blank_command_hash: "starts_i s \<Longrightarrow> \<exists>q. blank_command s p = chr CHR ''#'' # q"
  by (cases s) (auto simp: blank_command_def starts_i_def)

lemma fold_patch_hash:
  "list_all starts_i ss \<Longrightarrow> fold (patch_command (length w) len) ss (w @ chr CHR ''#'' # p) = w @ chr CHR ''#'' # p"
  by (induction ss) (auto simp: patch_command_at not_command_at_hash)

lemma fold_patch_commands:
  "list_all starts_i ss \<Longrightarrow> fold (patch_command (length w) len) ss (w @ p) =
     w @ (case find (command_at len p) ss of None \<Rightarrow> p | Some s \<Rightarrow> blank_command s p)"
proof (induction ss)
  case (Cons s ss)
  then obtain q where "blank_command s p = chr CHR ''#'' # q" using blank_command_hash [of s p] by auto
  with Cons fold_patch_hash [of ss w len q] show ?case by (auto simp: patch_command_at)
qed simp

text \<open>A line is its white space and the part that \<open>_SkipWhitespace\<close> finds.\<close>

lemma SkipWhitespace_split:
  obtains w where "line = w @ SkipWhitespace line" "list_all posix_isspace w"
  by (metis SkipWhitespace_def takeWhile_dropWhile_id list_all_iff set_takeWhileD)

lemma SkipWhitespace_stop: "list_all posix_isspace w \<Longrightarrow> \<not> posix_isspace c \<Longrightarrow> SkipWhitespace (w @ c # p) = c # p"
  by (simp add: SkipWhitespace_def dropWhile_append2 list_all_iff)

lemma SkipWhitespace_hd: "SkipWhitespace line = c # p \<Longrightarrow> \<not> posix_isspace c"
  unfolding SkipWhitespace_def by (metis hd_dropWhile list.distinct(1) list.sel(1))

lemma StripTrailing_prefix: "StripTrailing p = take (length (StripTrailing p)) p"
proof -
  have "p = StripTrailing p @ rev (takeWhile posix_isspace (rev p))"
    unfolding StripTrailing_def by (metis rev_append rev_rev_ident takeWhile_dropWhile_id)
  then show ?thesis by (metis append_eq_conv_conj)
qed

lemma command_at_strip: "command_at (length (StripTrailing p)) p s \<longleftrightarrow> take (length s) (StripTrailing p) = s"
proof (cases "length s \<le> length (StripTrailing p)")
  case True
  then have "take (length s) (StripTrailing p) = take (length s) p"
    by (subst StripTrailing_prefix) (simp add: min_absorb1)
  with True show ?thesis by (simp add: command_at_def)
next
  case False
  then have "take (length s) (StripTrailing p) = StripTrailing p" by simp
  with False show ?thesis by (auto simp: command_at_def)
qed

lemma patch_line_cases:
  obtains (same) "\<not> loads_module line" "patch_line line = line"
  | (blanked) w s p where "loads_module line" "line = w @ s @ p" "list_all posix_isspace w" "s \<in> set insmod_commands"
      "patch_line line = w @ replicate (length s) (chr CHR ''#'') @ p"
proof -
  obtain w where w: "line = w @ SkipWhitespace line" "list_all posix_isspace w" by (rule SkipWhitespace_split)
  let ?p = "SkipWhitespace line"
  let ?len = "length (StripTrailing ?p)"
  let ?r = "find (command_at ?len ?p) insmod_commands"
  have off: "length line - length ?p = length w" using arg_cong [OF w(1), of length] by simp
  have loads: "loads_module line \<longleftrightarrow> list_ex (command_at ?len ?p) insmod_commands"
    by (simp add: loads_module_commands list_ex_iff command_at_strip)
  show ?thesis
  proof (cases "?p = [] \<or> hd ?p = chr CHR ''#''")
    case True
    have "\<not> command_at ?len ?p s" if "s \<in> set insmod_commands" for s
    proof -
      from that have s: "starts_i s" using insmod_commands_start by (auto simp: list_all_iff)
      show ?thesis
      proof (cases ?p)
        case Nil
        with s show ?thesis by (auto simp: command_at_def starts_i_def)
      next
        case (Cons c q)
        with True s show ?thesis using not_command_at_hash [of s ?len q] by simp
      qed
    qed
    with loads have "\<not> loads_module line" by (auto simp: list_ex_iff)
    with True show ?thesis by (intro same) (auto simp: patch_line_def Let_def)
  next
    case False
    then have "patch_line line = fold (patch_command (length w) ?len) insmod_commands (w @ ?p)"
      using w(1) off by (simp add: patch_line_def Let_def)
    also have "\<dots> = w @ (case ?r of None \<Rightarrow> ?p | Some s \<Rightarrow> blank_command s ?p)"
      by (rule fold_patch_commands [OF insmod_commands_start])
    finally have pl: "patch_line line = w @ (case ?r of None \<Rightarrow> ?p | Some s \<Rightarrow> blank_command s ?p)" .
    show ?thesis
    proof (cases ?r)
      case None
      then have "\<not> loads_module line" using loads by (auto simp: find_None_iff list_ex_iff)
      with None pl w(1) show ?thesis by (intro same) simp_all
    next
      case (Some s)
      then have s: "s \<in> set insmod_commands" "command_at ?len ?p s" by (auto simp: find_Some_iff)
      then have "?p = s @ drop (length s) ?p" unfolding command_at_def by (metis append_take_drop_id)
      with s loads pl Some w show ?thesis
        by (intro blanked [of w s "drop (length s) ?p"]) (auto simp: list_ex_iff blank_command_def)
    qed
  qed
qed

lemma command_bytes: "s \<in> set insmod_commands \<Longrightarrow> s \<noteq> [] \<and> NEWLINE \<notin> set s"
  by (auto simp: insmod_commands_def NEWLINE_def)

lemma hash_not_special: "chr CHR ''#'' \<noteq> NEWLINE" "\<not> posix_isspace (chr CHR ''#'')"
  by (simp_all add: NEWLINE_def posix_isspace_def chr_def)

lemma patch_line_length [simp]: "length (patch_line line) = length line"
  by (cases line rule: patch_line_cases) auto

lemma is_line_iff: "is_line l \<longleftrightarrow> l \<noteq> [] \<and> (\<forall>i < length l. l ! i = NEWLINE \<longrightarrow> Suc i = length l)"
proof -
  have "i < length (butlast l) \<longleftrightarrow> i < length l \<and> Suc i \<noteq> length l" for i by auto
  moreover have "i < length (butlast l) \<Longrightarrow> butlast l ! i = l ! i" for i by (rule nth_butlast)
  ultimately show ?thesis unfolding is_line_def in_set_conv_nth by metis
qed

lemma patch_line_nth: "i < length line \<Longrightarrow> patch_line line ! i = line ! i \<or> patch_line line ! i = chr CHR ''#''"
  by (cases line rule: patch_line_cases) (auto simp: nth_append)

lemma patch_line_newline: "i < length line \<Longrightarrow> patch_line line ! i = NEWLINE \<longleftrightarrow> line ! i = NEWLINE"
proof (cases line rule: patch_line_cases)
  case (blanked w s p)
  assume "i < length line"
  moreover have "NEWLINE \<notin> set s" using blanked(4) command_bytes by blast
  ultimately show ?thesis using blanked(2,5) hash_not_special(1)
    by (auto simp: nth_append in_set_conv_nth)
qed simp

lemma patch_line_is_line: "is_line line \<Longrightarrow> is_line (patch_line line)"
  using patch_line_newline [of _ line] by (auto simp: is_line_iff simp flip: length_greater_0_conv)

lemma patch_line_last: "line \<noteq> [] \<Longrightarrow> last line = NEWLINE \<Longrightarrow> last (patch_line line) = NEWLINE"
  using patch_line_newline [of "length line - 1" line]
  by (simp add: last_conv_nth flip: length_greater_0_conv)

lemma patch_line_disarms: "\<not> loads_module (patch_line line)"
proof (cases line rule: patch_line_cases)
  case (blanked w s p)
  from blanked(4) have "s \<noteq> []" using command_bytes by blast
  then obtain k where k: "length s = Suc k" by (cases s) auto
  then have "SkipWhitespace (patch_line line) = chr CHR ''#'' # replicate k (chr CHR ''#'') @ p"
    using blanked(3,5) hash_not_special(2) by (simp add: SkipWhitespace_stop)
  then have "\<not> command_at n (SkipWhitespace (patch_line line)) s'" if "s' \<in> set insmod_commands" for n s'
    using that insmod_commands_start not_command_at_hash by (auto simp: list_all_iff)
  then show ?thesis by (auto simp: loads_module_commands list_ex_iff command_at_strip [symmetric])
qed simp

lemma patch_lines_ok: "lines_ok ls \<Longrightarrow> lines_ok (map patch_line ls)"
proof (induction ls)
  case (Cons l ls)
  then have "is_line l" by simp
  moreover from this have "l \<noteq> []" by (simp add: is_line_def)
  ultimately show ?case using Cons by (auto simp: patch_line_is_line patch_line_last)
qed simp

section \<open>Claims\<close>

text \<open>
  C25: \<open>GrubcfgPatch\<close> disarms the decryption modules and nothing else: the text keeps its length and
  its division into lines, a line that loads none of \<open>cryptodisk\<close>, \<open>luks\<close>, \<open>gcry_rijndael\<close> and \<open>gcry_sha1\<close> keeps its bytes, a line
  that loads one differs only by \<open>#\<close> characters, and no line of the patched text loads a module. A line loads a
  module when, after white space, it begins with \<open>insmod\<close>, one blank and the name.
\<close>

theorem GrubcfgPatch_disarms:
  assumes "0 < sz" "sz \<le> length mem"
  shows "\<exists>t'. GrubcfgPatch (Some mem) sz = Some (0, Some (t' @ drop sz mem)) \<and> length t' = sz \<and>
    (\<forall>i < sz. t' ! i = mem ! i \<or> t' ! i = chr CHR ''#'') \<and>
    list_all2 (\<lambda>l l'. length l' = length l \<and> \<not> loads_module l' \<and> (\<not> loads_module l \<longrightarrow> l' = l))
      (text_lines (take sz mem)) (text_lines t')"
proof -
  let ?t = "take sz mem" let ?ls = "text_lines ?t"
  let ?t' = "patch_loop ?t"
  have ls: "lines_ok ?ls" "concat ?ls = ?t" using text_lines_ok by blast+
  have t': "?t' = concat (map patch_line ?ls)" by (rule patch_loop_lines)
  have lines': "text_lines ?t' = map patch_line ?ls"
    unfolding t' by (rule text_lines_concat [OF patch_lines_ok [OF ls(1)]])
  have nth: "list_all2 (\<lambda>b b'. b' = b \<or> b' = chr CHR ''#'') (concat ls) (concat (map patch_line ls))" for ls
  proof (induction ls)
    case (Cons l ls)
    have "list_all2 (\<lambda>b b'. b' = b \<or> b' = chr CHR ''#'') l (patch_line l)"
      by (simp add: list_all2_conv_all_nth patch_line_nth)
    with Cons show ?case by (simp add: list_all2_appendI)
  qed simp
  have rel: "list_all2 (\<lambda>b b'. b' = b \<or> b' = chr CHR ''#'') ?t ?t'" using nth [of ?ls] ls(2) t' by simp
  then have len: "length ?t' = sz" using assms(2) by (simp add: list_all2_lengthD [symmetric])
  have "\<not> loads_module l \<Longrightarrow> patch_line l = l" for l by (cases l rule: patch_line_cases) auto
  then have all: "list_all2 (\<lambda>l l'. length l' = length l \<and> \<not> loads_module l' \<and> (\<not> loads_module l \<longrightarrow> l' = l))
      ?ls (text_lines ?t')"
    unfolding lines' by (simp add: list_all2_conv_all_nth patch_line_disarms)
  have "GrubcfgPatch (Some mem) sz = Some (0, Some (?t' @ drop sz mem))"
    using assms len by (simp add: GrubcfgPatch_def load_def store_def slice_def overwrite_def)
  moreover have "\<forall>i < sz. ?t' ! i = mem ! i \<or> ?t' ! i = chr CHR ''#''"
    using rel assms(2) by (auto simp: list_all2_conv_all_nth)
  ultimately show ?thesis using len all by blast
qed

theorem GrubcfgPatch_disarms_witness:
  "\<exists>t'. GrubcfgPatch (Some (ascii ''  insmod luks'')) 13 = Some (0, Some t') \<and> length t' = 13"
  using GrubcfgPatch_disarms [of 13 "ascii ''  insmod luks''"] by auto

end
