(* ===== verification/GrubCfg.thy ===== *)
theory GrubCfg
  imports StrArr Buf
begin

text \<open>
  The reader of \<open>grub.cfg\<close> of \<open>lsvmutils/grubcfg.c\<close>: \<open>_GetToken\<close>, \<open>_Parse\<close>, \<open>_Match\<close>,
  \<open>_ResolveInitrd\<close> and \<open>GRUBCfgFindInitrd\<close>, which finds the initial ramdisk of the default menu
  entry. A \<open>char*\<close> is the memory from the character it points to; a position in the text is the rest
  of the zero-terminated copy. \<open>None\<close> is an access outside of the memory, or of a null or
  indeterminate pointer. The tokens that \<open>_GetToken\<close> allocates are copied by \<open>StrArrAppend\<close> and
  never freed.
\<close>

definition PATH_MAX :: nat where
  "PATH_MAX = 256"

fun posix_strncmp :: "bytes \<Rightarrow> bytes \<Rightarrow> nat \<Rightarrow> int option" where
  "posix_strncmp s1 s2 0 = Some 0"
| "posix_strncmp s1 s2 (Suc n) =
     (case (s1, s2) of
        (a # s1', b # s2') \<Rightarrow>
          if a = 0 \<or> b = 0 \<or> a \<noteq> b then Some (uint a - uint b) else posix_strncmp s1' s2' n
      | _ \<Rightarrow> None)"

subsection \<open>Tokens\<close>

definition NL :: byte where "NL = 10"
definition SEMICOLON :: byte where "SEMICOLON = chr CHR '';''"
definition BACKSLASH :: byte where "BACKSLASH = 92"
definition DQUOTE :: byte where "DQUOTE = 34"
definition SQUOTE :: byte where "SQUOTE = 39"

fun skip_horizontal :: "bytes \<Rightarrow> bytes option" where
  "skip_horizontal [] = None"
| "skip_horizontal (c # p) = (if c \<noteq> 0 \<and> posix_isspace c \<and> c \<noteq> NL then skip_horizontal p else Some (c # p))"

fun skip_comment :: "bytes \<Rightarrow> bytes option" where
  "skip_comment [] = None"
| "skip_comment (c # p) = (if c \<noteq> 0 \<and> c \<noteq> NL then skip_comment p else Some (c # p))"

text \<open>
  The loop inside quotes and the loop over an argument; the results of \<open>BufAppend\<close> are ignored.
  The test \<open>*p == '\\' && *p != '\0'\<close> is true of every backslash.
\<close>

fun quote_loop :: "byte \<Rightarrow> heap \<Rightarrow> buf \<Rightarrow> bytes \<Rightarrow> (buf \<times> bytes \<times> heap) option" where
  "quote_loop c h b [] = None"
| "quote_loop c h b (x # p) =
     (if x \<noteq> 0 \<and> x \<noteq> c then
        (if x = BACKSLASH then
           (case p of
              [] \<Rightarrow> None
            | y # q \<Rightarrow>
                (case BufAppend h b (Some (y # q)) 1 of
                   None \<Rightarrow> None
                 | Some (rc, b', h') \<Rightarrow> quote_loop c h' b' q))
         else
           (case BufAppend h b (Some (x # p)) 1 of
              None \<Rightarrow> None
            | Some (rc, b', h') \<Rightarrow> quote_loop c h' b' p))
      else Some (b, x # p, h))"

lemma quote_loop_shrinks: "quote_loop c h b p = Some (b', q, h') \<Longrightarrow> q \<noteq> [] \<and> length q \<le> length p"
  by (induction c h b p rule: quote_loop.induct) (force split: if_splits list.splits option.splits prod.splits)+

function argument_loop :: "heap \<Rightarrow> buf \<Rightarrow> bytes \<Rightarrow> (buf \<times> bytes \<times> heap) option" where
  "argument_loop h b [] = None"
| "argument_loop h b (x # p) =
     (if x \<noteq> 0 \<and> \<not> posix_isspace x \<and> x \<noteq> SEMICOLON then
        (if x = DQUOTE \<or> x = SQUOTE then
           (case quote_loop x h b p of
              None \<Rightarrow> None
            | Some (b', q, h') \<Rightarrow> argument_loop h' b' (if hd q = x then tl q else q))
         else
           (case BufAppend h b (Some (x # p)) 1 of
              None \<Rightarrow> None
            | Some (rc, b', h') \<Rightarrow> argument_loop h' b' p))
      else Some (b, x # p, h))"
  by pat_completeness auto
termination
  by (relation "measure (\<lambda>(h, b, p). length p)") (auto dest!: quote_loop_shrinks)

lemma argument_loop_shrinks: "argument_loop h b p = Some (b', q, h') \<Longrightarrow> q \<noteq> [] \<and> length q \<le> length p"
proof (induction h b p rule: argument_loop.induct)
  case (2 h b x p)
  show ?case
  proof (cases "x \<noteq> 0 \<and> \<not> posix_isspace x \<and> x \<noteq> SEMICOLON \<and> (x = DQUOTE \<or> x = SQUOTE)")
    case True
    with "2.prems" obtain b1 q1 h1 where
      q: "quote_loop x h b p = Some (b1, q1, h1)" "argument_loop h1 b1 (if hd q1 = x then tl q1 else q1) = Some (b', q, h')"
      by (auto split: option.splits)
    with "2.IH"(1) True have "q \<noteq> [] \<and> length q \<le> length (if hd q1 = x then tl q1 else q1)" by auto
    with quote_loop_shrinks [OF q(1)] show ?thesis by (auto split: if_splits)
  next
    case False
    with "2.prems" "2.IH"(2) show ?thesis by (force split: if_splits option.splits prod.splits)
  qed
qed simp

text \<open>
  \<open>_GetToken\<close>: the value returned (\<open>0\<close>, a newline, a semicolon or \<open>I\<close>), \<open>*tok\<close> and \<open>*text\<close>. A
  buffer that never got a block is a null \<open>*tok\<close>.
\<close>

definition token_at :: "heap \<Rightarrow> bytes \<Rightarrow> (byte \<times> bytes option \<times> bytes \<times> heap) option" where
  "token_at h p =
     (if hd p = 0 then Some (0, None, p, h)
      else if hd p = NL then Some (NL, None, tl p, h)
      else if hd p = SEMICOLON then Some (SEMICOLON, None, tl p, h)
      else
        do {
          (b, q, h1) \<leftarrow> argument_loop h BufInit p;
          (_, b', h2) \<leftarrow> BufAppend h1 b (Some [0]) 1;
          Some (chr CHR ''I'', if buf_data b' = [] then None else Some (buf_data b'), q, h2)
        })"

definition GetToken :: "heap \<Rightarrow> bytes \<Rightarrow> (byte \<times> bytes option \<times> bytes \<times> heap) option" where
  "GetToken h t =
     do {
       p \<leftarrow> skip_horizontal t;
       p \<leftarrow> (if hd p = chr CHR ''#'' then skip_comment p else Some p);
       token_at h p
     }"

lemma skip_horizontal_result:
  "skip_horizontal t = Some p \<Longrightarrow> p \<noteq> [] \<and> length p \<le> length t \<and> \<not> (posix_isspace (hd p) \<and> hd p \<noteq> NL)"
proof (induction t)
  case (Cons c t)
  moreover have "\<not> posix_isspace 0" by (simp add: posix_isspace_def)
  ultimately show ?case by (force split: if_splits)
qed simp

lemma skip_comment_result: "skip_comment t = Some p \<Longrightarrow> p \<noteq> [] \<and> length p \<le> length t \<and> (hd p = 0 \<or> hd p = NL)"
  by (induction t) (auto split: if_splits)

lemma argument_loop_progress:
  assumes "argument_loop h b (x # p) = Some (b', q, h')" "x \<noteq> 0 \<and> \<not> posix_isspace x \<and> x \<noteq> SEMICOLON"
  shows "length q \<le> length p"
proof (cases "x = DQUOTE \<or> x = SQUOTE")
  case True
  with assms obtain b1 q1 h1 where
    q: "quote_loop x h b p = Some (b1, q1, h1)" "argument_loop h1 b1 (if hd q1 = x then tl q1 else q1) = Some (b', q, h')"
    by (auto split: option.splits)
  from quote_loop_shrinks [OF q(1)] argument_loop_shrinks [OF q(2)] show ?thesis by (auto split: if_splits)
next
  case False
  with assms show ?thesis by (auto split: option.splits prod.splits dest!: argument_loop_shrinks)
qed

lemma token_at_shrinks:
  assumes "token_at h (x # q) = Some (rc, tok, t', h')" "rc \<noteq> 0" "\<not> (posix_isspace x \<and> x \<noteq> NL)"
  shows "length t' \<le> length q"
proof (cases "x = 0 \<or> x = NL \<or> x = SEMICOLON")
  case True
  with assms(1,2) show ?thesis by (auto simp: token_at_def split: if_splits)
next
  case False
  with assms(1) obtain b h1 where "argument_loop h BufInit (x # q) = Some (b, t', h1)"
    by (auto simp: token_at_def split: bind_splits)
  from argument_loop_progress [OF this] False assms(3) show ?thesis by auto
qed

lemma GetToken_shrinks:
  assumes "GetToken h t = Some (rc, tok, t', h')" "rc \<noteq> 0"
  shows "length t' < length t"
proof -
  from assms(1) obtain p0 p where p0: "skip_horizontal t = Some p0"
    and p: "(if hd p0 = chr CHR ''#'' then skip_comment p0 else Some p0) = Some p"
    and tok: "token_at h p = Some (rc, tok, t', h')"
    unfolding GetToken_def by (auto split: bind_splits)
  have "p \<noteq> [] \<and> length p \<le> length t \<and> \<not> (posix_isspace (hd p) \<and> hd p \<noteq> NL)"
  proof (cases "hd p0 = chr CHR ''#''")
    case True
    have "\<not> posix_isspace 0" by (simp add: posix_isspace_def)
    with p True skip_horizontal_result [OF p0] skip_comment_result [of p0 p] show ?thesis by auto
  next
    case False
    with p skip_horizontal_result [OF p0] show ?thesis by auto
  qed
  with tok assms(2) show ?thesis by (cases p) (auto dest: token_at_shrinks)
qed

subsection \<open>Commands\<close>

record grub_command =
  gc_line :: nat
  gc_argc :: nat
  gc_argv :: "sptr list"

fun release_commands :: "grub_command list \<Rightarrow> unit option" where
  "release_commands [] = Some ()"
| "release_commands (c # cs) =
     do {
       _ \<leftarrow> StrArrRelease \<lparr>sa_data = gc_argv c, sa_size = gc_argc c, sa_capacity = gc_argc c\<rparr>;
       release_commands cs
     }"

text \<open>
  \<open>_ReleaseCommands\<close>: a null array is \<open>None\<close>; with a non-zero count it is dereferenced.
\<close>

definition ReleaseCommands :: "grub_command list option \<Rightarrow> nat \<Rightarrow> unit option" where
  "ReleaseCommands commands numCommands =
     (case commands of
        None \<Rightarrow> (if numCommands = 0 then Some () else None)
      | Some cs \<Rightarrow> do { cs' \<leftarrow> load 0 numCommands cs; release_commands cs' })"

text \<open>
  The loop of \<open>_Parse\<close>: status, the commands, their number, the line under construction. The array
  grows by one command with \<open>Realloc\<close>, which takes its sizes as \<open>unsigned int\<close>; when it fails the
  only pointer to the array is lost.
\<close>

definition append_command ::
  "heap \<Rightarrow> grub_command list \<Rightarrow> grub_command \<Rightarrow> (grub_command list option \<times> heap) option" where
  "append_command h commands cmd =
     (let n = 24 * (length commands + 1)
      in case h 0 of
           None \<Rightarrow> Some (None, heap_next h)
         | Some _ \<Rightarrow> if n \<le> u32 (u64 n) then Some (Some (commands @ [cmd]), heap_next h) else None)"

function parse_loop ::
  "heap \<Rightarrow> bytes \<Rightarrow> nat \<Rightarrow> strarr \<Rightarrow> grub_command list \<Rightarrow>
    (int \<times> grub_command list option \<times> nat \<times> strarr \<times> heap) option" where
  "parse_loop h p lineno line commands =
     (case GetToken h p of
        None \<Rightarrow> None
      | Some (rc, tok, p', h1) \<Rightarrow>
          if rc = 0 then
            Some (0, if commands = [] then None else Some commands, length commands, line, h1)
          else if rc = NL \<or> rc = SEMICOLON then
            (let lineno' = (if rc = NL then u64 (lineno + 1) else lineno)
             in if sa_size line \<noteq> 0 then
                  (case append_command h1 commands
                          \<lparr>gc_line = lineno, gc_argc = sa_size line, gc_argv = sa_data line\<rparr> of
                     None \<Rightarrow> None
                   | Some (None, h2) \<Rightarrow> Some (-1, None, length commands, line, h2)
                   | Some (Some commands', h2) \<Rightarrow> parse_loop h2 p' lineno' strarr_init commands')
                else parse_loop h1 p' lineno' line commands)
          else
            (case StrArrAppend h1 line tok of
               None \<Rightarrow> None
             | Some (rc2, line', h2) \<Rightarrow>
                 if rc2 \<noteq> 0 then
                   Some (-1, if commands = [] then None else Some commands, length commands, line', h2)
                 else parse_loop h2 p' lineno line' commands))"
  by pat_completeness auto
termination
  by (relation "measure (\<lambda>(h, p, lineno, line, commands). length p)") (auto dest: GetToken_shrinks)

declare parse_loop.simps [simp del]

definition Parse :: "heap \<Rightarrow> bytes \<Rightarrow> (int \<times> grub_command list option \<times> nat \<times> heap) option" where
  "Parse h data =
     do {
       (rc, commands, numCommands, line, h1) \<leftarrow> parse_loop h data 1 strarr_init [];
       _ \<leftarrow> StrArrRelease line;
       if rc \<noteq> 0 then do { _ \<leftarrow> ReleaseCommands commands numCommands; Some (rc, None, 0, h1) }
       else Some (rc, commands, numCommands, h1)
     }"

subsection \<open>Matching a menu entry\<close>

definition cell :: "'a list \<Rightarrow> nat \<Rightarrow> 'a option" where
  "cell xs i = (if i < length xs then Some (xs ! i) else None)"

definition arg :: "grub_command \<Rightarrow> nat \<Rightarrow> bytes option" where
  "arg cmd i = (case cell (gc_argv cmd) i of Some (Str s) \<Rightarrow> Some s | _ \<Rightarrow> None)"

definition streq :: "bytes \<Rightarrow> bytes \<Rightarrow> bool option" where
  "streq s1 s2 = map_option (\<lambda>c. c = 0) (posix_strcmp s1 s2)"

definition arg_is :: "grub_command \<Rightarrow> nat \<Rightarrow> string \<Rightarrow> bool option" where
  "arg_is cmd i lit = do { s \<leftarrow> arg cmd i; streq s (ascii lit @ [0]) }"

text \<open>An \<open>Element\<close> of the stack; a null command is \<open>None\<close>.\<close>

record element =
  el_index :: nat
  el_command :: "grub_command option"
  el_initrd :: bytes

definition part_string :: "sptr list \<Rightarrow> nat \<Rightarrow> bytes option" where
  "part_string def i = (case cell def i of Some (Str s) \<Rightarrow> Some s | _ \<Rightarrow> None)"

definition append_matched :: "bytes \<Rightarrow> bytes \<Rightarrow> bytes option" where
  "append_matched matched s = map_option snd (Strlcat matched s PATH_MAX)"

text \<open>The comparisons of one level: whether it matches, and \<open>matched\<close>.\<close>

definition match_part ::
  "bool \<Rightarrow> sptr list \<Rightarrow> nat \<Rightarrow> nat \<Rightarrow> grub_command \<Rightarrow> bytes \<Rightarrow> (bool \<times> bytes) option" where
  "match_part hasDefault def i index cmd matched =
     do {
       num \<leftarrow> U64tostr index;
       if \<not> hasDefault then do { m \<leftarrow> append_matched matched num; Some (True, m) }
       else do {
         d \<leftarrow> part_string def i;
         c1 \<leftarrow> streq num d;
         if c1 then do { m \<leftarrow> append_matched matched d; Some (True, m) }
         else do {
           a1 \<leftarrow> arg cmd 1;
           c2 \<leftarrow> streq a1 d;
           if c2 then do { m \<leftarrow> append_matched matched d; Some (True, m) }
           else do {
             a2 \<leftarrow> arg cmd (gc_argc cmd - 2);
             c3 \<leftarrow> streq a2 d;
             if c3 then do { m \<leftarrow> append_matched matched d; Some (True, m) }
             else Some (False, matched)
           }
         }
       }
     }"

function match_loop ::
  "bool \<Rightarrow> sptr list \<Rightarrow> element list \<Rightarrow> nat \<Rightarrow> nat \<Rightarrow> nat \<Rightarrow> bytes \<Rightarrow> (nat \<times> bytes) option" where
  "match_loop hasDefault def stack depth i matches matched =
     (if i < depth then
        (case cell stack i of
           None \<Rightarrow> None
         | Some el \<Rightarrow>
             (case el_command el of
                None \<Rightarrow> match_loop hasDefault def stack depth (Suc i) matches matched
              | Some cmd \<Rightarrow>
                  if gc_argc cmd < 3 then match_loop hasDefault def stack depth (Suc i) matches matched
                  else
                    (case match_part hasDefault def i (el_index el) cmd matched of
                       None \<Rightarrow> None
                     | Some (ok, m) \<Rightarrow>
                         (let matches' = (if ok then matches + 1 else matches)
                          in case (if matches' \<noteq> depth then append_matched m (ascii ''>'' @ [0]) else Some m) of
                               None \<Rightarrow> None
                             | Some m' \<Rightarrow> match_loop hasDefault def stack depth (Suc i) matches' m'))))
      else Some (matches, matched))"
  by pat_completeness auto
termination
  by (relation "measure (\<lambda>(hasDefault, def, stack, depth, i, matches, matched). depth - i)") auto

declare match_loop.simps [simp del]

definition Match :: "strarr \<Rightarrow> bool \<Rightarrow> element list \<Rightarrow> nat \<Rightarrow> bytes \<Rightarrow> (bool \<times> bytes) option" where
  "Match defaultValue hasDefault stack depth matched =
     (if sa_size defaultValue \<noteq> depth then Some (False, matched)
      else
        do {
          m0 \<leftarrow> store 0 [0] matched;
          (matches, m) \<leftarrow> match_loop hasDefault (sa_data defaultValue) stack depth 0 0 m0;
          Some (matches = depth, m)
        })"

subsection \<open>Resolving the initial ramdisk\<close>

definition STACK_SIZE :: nat where
  "STACK_SIZE = 16"

record resolver =
  rs_stack :: "element list"
  rs_top :: nat
  rs_matched :: bytes
  rs_title :: bytes
  rs_path :: bytes

text \<open>What an iteration does next: go on, leave with an error, or leave with the entry found.\<close>

datatype outcome = Continue | Overflow | Found

definition push_element :: "grub_command \<Rightarrow> resolver \<Rightarrow> outcome \<times> resolver" where
  "push_element cmd s =
     (if rs_top s = STACK_SIZE then (Overflow, s)
      else
        (Continue,
         s\<lparr>rs_stack := (rs_stack s)[rs_top s := (rs_stack s ! rs_top s)\<lparr>el_command := Some cmd\<rparr>],
           rs_top := rs_top s + 1\<rparr>))"

definition set_initrd :: "grub_command \<Rightarrow> resolver \<Rightarrow> (outcome \<times> resolver) option" where
  "set_initrd cmd s =
     (if rs_top s \<noteq> 0 then
        do {
          el \<leftarrow> cell (rs_stack s) (rs_top s - 1);
          c \<leftarrow> el_command el;
          me \<leftarrow> arg_is c 0 ''menuentry'';
          if me then do {
            a \<leftarrow> arg cmd 1;
            d \<leftarrow> posix_strcpy (el_initrd el) a;
            Some (Continue, s\<lparr>rs_stack := (rs_stack s)[rs_top s - 1 := el\<lparr>el_initrd := d\<rparr>]\<rparr>)
          }
          else Some (Continue, s)
        }
      else Some (Continue, s))"

definition pop_element :: "resolver \<Rightarrow> resolver option" where
  "pop_element s =
     do {
       el \<leftarrow> cell (rs_stack s) (rs_top s - 1);
       d \<leftarrow> store 0 [0] (el_initrd el);
       Some (s\<lparr>rs_top := rs_top s - 1,
               rs_stack := (rs_stack s)[rs_top s - 1 := el\<lparr>el_initrd := d, el_index := u64 (el_index el + 1)\<rparr>]\<rparr>)
     }"

definition close_block :: "strarr \<Rightarrow> bool \<Rightarrow> resolver \<Rightarrow> (outcome \<times> resolver) option" where
  "close_block arr hasDefault s0 =
     (if rs_top s0 \<noteq> 0 then
        (let depth = rs_top s0;
             s = (if depth \<noteq> STACK_SIZE then s0\<lparr>rs_stack := (rs_stack s0)[depth := (rs_stack s0 ! depth)\<lparr>el_index := 0\<rparr>]\<rparr>
                  else s0)
         in do {
              el \<leftarrow> cell (rs_stack s) (depth - 1);
              c \<leftarrow> el_command el;
              me \<leftarrow> arg_is c 0 ''menuentry'';
              (found, m) \<leftarrow> (if me then Match arr hasDefault (rs_stack s) depth (rs_matched s) else Some (False, rs_matched s));
              if found then do {
                a \<leftarrow> arg c 1;
                t \<leftarrow> posix_strcpy (rs_title s) a;
                p \<leftarrow> posix_strcpy (rs_path s) (el_initrd el);
                Some (Found, s\<lparr>rs_matched := m, rs_title := t, rs_path := p\<rparr>)
              }
              else do {
                s' \<leftarrow> pop_element (s\<lparr>rs_matched := m\<rparr>);
                Some (Continue, s')
              }
            })
      else Some (Continue, s0))"

definition resolve_step :: "strarr \<Rightarrow> bool \<Rightarrow> grub_command \<Rightarrow> resolver \<Rightarrow> (outcome \<times> resolver) option" where
  "resolve_step arr hasDefault cmd s =
     do {
       menuentry \<leftarrow> arg_is cmd 0 ''menuentry'';
       if menuentry then Some (push_element cmd s)
       else do {
         submenu \<leftarrow> arg_is cmd 0 ''submenu'';
         if submenu then Some (push_element cmd s)
         else do {
           initrd \<leftarrow> arg_is cmd 0 ''initrd'';
           if initrd \<and> gc_argc cmd = 2 then set_initrd cmd s
           else do {
             initrdefi \<leftarrow> arg_is cmd 0 ''initrdefi'';
             if initrdefi \<and> gc_argc cmd = 2 then set_initrd cmd s
             else do {
               brace \<leftarrow> arg_is cmd 0 [CHR 0x7D];
               if brace then close_block arr hasDefault s else Some (Continue, s)
             }
           }
         }
       }
     }"

fun resolve_loop :: "strarr \<Rightarrow> bool \<Rightarrow> grub_command list \<Rightarrow> resolver \<Rightarrow> (outcome \<times> resolver) option" where
  "resolve_loop arr hasDefault [] s = Some (Continue, s)"
| "resolve_loop arr hasDefault (cmd # cmds) s =
     (case resolve_step arr hasDefault cmd s of
        None \<Rightarrow> None
      | Some (r, s') \<Rightarrow> if r = Continue then resolve_loop arr hasDefault cmds s' else Some (r, s'))"

text \<open>The first loop: the value of \<open>set default=value\<close>, where the value is not a variable.\<close>

definition default_of :: "grub_command \<Rightarrow> bytes option option" where
  "default_of cmd =
     (if gc_argc cmd < 2 then Some None
      else
        do {
          st \<leftarrow> arg_is cmd 0 ''set'';
          if \<not> st then Some None
          else do {
            a \<leftarrow> arg cmd 1;
            c \<leftarrow> posix_strncmp a (ascii ''default='' @ [0]) 8;
            if c \<noteq> 0 then Some None
            else do {
              ch \<leftarrow> cell a 8;
              if ch \<noteq> chr CHR ''$'' then Some (Some (drop 8 a)) else Some None
            }
          }
        })"

fun find_default :: "grub_command list \<Rightarrow> bytes option option" where
  "find_default [] = Some None"
| "find_default (cmd # cmds) =
     (case default_of cmd of
        None \<Rightarrow> None
      | Some None \<Rightarrow> find_default cmds
      | Some (Some d) \<Rightarrow> Some (Some d))"

definition empty_stack :: "element list" where
  "empty_stack = replicate STACK_SIZE \<lparr>el_index = 0, el_command = None, el_initrd = replicate PATH_MAX 0\<rparr>"

text \<open>The status, \<open>matched\<close>, \<open>title\<close> and \<open>path\<close>.\<close>

definition ResolveInitrd ::
  "heap \<Rightarrow> grub_command list option \<Rightarrow> nat \<Rightarrow> bytes \<Rightarrow> bytes \<Rightarrow> bytes \<Rightarrow>
    (int \<times> bytes \<times> bytes \<times> bytes \<times> heap) option" where
  "ResolveInitrd h commands numCommands matched title path =
     do {
       path \<leftarrow> store 0 [0] path;
       (case commands of
          None \<Rightarrow> Some (-1, matched, title, path, h)
        | Some cs \<Rightarrow>
            if numCommands = 0 then Some (-1, matched, title, path, h)
            else do {
              cmds \<leftarrow> load 0 numCommands cs;
              dv \<leftarrow> find_default cmds;
              let hasDefault = (dv \<noteq> None);
              (rc, arr, h1) \<leftarrow>
                StrSplit h (Some (case dv of Some d \<Rightarrow> d | None \<Rightarrow> ascii ''0'' @ [0])) (Some (ascii ''>'' @ [0])) strarr_init;
              if rc \<noteq> 0 \<or> sa_size arr < 1 then do { _ \<leftarrow> StrArrRelease arr; Some (-1, matched, title, path, h1) }
              else do {
                (r, s) \<leftarrow> resolve_loop arr hasDefault cmds
                  \<lparr>rs_stack = empty_stack, rs_top = 0, rs_matched = matched, rs_title = title, rs_path = path\<rparr>;
                _ \<leftarrow> StrArrRelease arr;
                Some (if r = Overflow then -1 else 0, rs_matched s, rs_title s, rs_path s, h1)
              }
            })
     }"

text \<open>
  The status and the three buffers, which are \<open>None\<close> when the pointer is null.
\<close>

definition clear_string :: "bytes option \<Rightarrow> bytes option option" where
  "clear_string buf = (case buf of None \<Rightarrow> Some None | Some m \<Rightarrow> map_option Some (store 0 [0] m))"

definition GRUBCfgFindInitrd ::
  "heap \<Rightarrow> bytes option \<Rightarrow> nat \<Rightarrow> bytes option \<Rightarrow> bytes option \<Rightarrow> bytes option \<Rightarrow>
    (int \<times> bytes option \<times> bytes option \<times> bytes option \<times> heap) option" where
  "GRUBCfgFindInitrd h dataIn sz matched title path =
     do {
       matched \<leftarrow> clear_string matched;
       title \<leftarrow> clear_string title;
       (case (dataIn, matched, title, path) of
          (Some src, Some m, Some t, Some p) \<Rightarrow>
            (let (blk, h1) = Malloc h (u64 (sz + 1))
             in case blk of
                  None \<Rightarrow> Some (-1, matched, title, path, h1)
                | Some d0 \<Rightarrow>
                    do {
                      bytes \<leftarrow> load 0 sz src;
                      d1 \<leftarrow> store 0 bytes d0;
                      d2 \<leftarrow> store sz [0] d1;
                      (rc, commands, numCommands, h2) \<leftarrow> Parse h1 d2;
                      if rc \<noteq> 0 then Some (-1, matched, title, path, h2)
                      else do {
                        (rc2, m', t', p', h3) \<leftarrow> ResolveInitrd h2 commands numCommands m t p;
                        _ \<leftarrow> (if commands = None then Some () else ReleaseCommands commands numCommands);
                        Some (if rc2 \<noteq> 0 then -1 else 0, Some m', Some t', Some p', h3)
                      }
                    })
        | _ \<Rightarrow> Some (-1, matched, title, path, h))
     }"

end
