(* ===== verification/GrubParse.thy ===== *)
theory GrubParse
  imports GrubCfg
begin

text \<open>
  What \<open>_Parse\<close> makes of a well-formed text. A source command is its indentation, its arguments
  (each a sequence of plain and quoted segments, with the white space after it) and its end: a semicolon,
  or a newline after an optional comment. White space separates an argument from the next and from a
  comment; the last argument may also be followed at once by the semicolon or the newline.
\<close>

datatype segment = Plain bytes | Quoted byte bytes

datatype stop = Semicolon | Newline bytes

type_synonym src_arg = "segment list \<times> bytes"
type_synonym src_command = "bytes \<times> src_arg list \<times> stop"

definition blanks :: "bytes \<Rightarrow> bool" where
  "blanks w \<longleftrightarrow> list_all (\<lambda>c. posix_isspace c \<and> c \<noteq> NL) w"

definition plain_char :: "byte \<Rightarrow> bool" where
  "plain_char c \<longleftrightarrow> c \<noteq> 0 \<and> \<not> posix_isspace c \<and> c \<notin> {SEMICOLON, DQUOTE, SQUOTE}"

fun escape :: "byte \<Rightarrow> bytes \<Rightarrow> bytes" where
  "escape q [] = []"
| "escape q (c # w) = (if c = q \<or> c = BACKSLASH then BACKSLASH # c # escape q w else c # escape q w)"

fun segment_ok :: "segment \<Rightarrow> bool" where
  "segment_ok (Plain w) \<longleftrightarrow> list_all plain_char w"
| "segment_ok (Quoted q w) \<longleftrightarrow> q \<in> {DQUOTE, SQUOTE} \<and> 0 \<notin> set w"

fun segment_value :: "segment \<Rightarrow> bytes" where
  "segment_value (Plain w) = w"
| "segment_value (Quoted q w) = w"

fun segment_text :: "segment \<Rightarrow> bytes" where
  "segment_text (Plain w) = w"
| "segment_text (Quoted q w) = q # escape q w @ [q]"

definition arg_value :: "src_arg \<Rightarrow> bytes" where
  "arg_value a = concat (map segment_value (fst a))"

definition arg_text :: "src_arg \<Rightarrow> bytes" where
  "arg_text a = concat (map segment_text (fst a)) @ snd a"

definition arg_ok :: "src_arg \<Rightarrow> bool" where
  "arg_ok a \<longleftrightarrow> list_all segment_ok (fst a) \<and> concat (map segment_text (fst a)) \<noteq> [] \<and>
     hd (concat (map segment_text (fst a))) \<noteq> chr CHR ''#'' \<and> blanks (snd a)"

fun stop_text :: "stop \<Rightarrow> bytes" where
  "stop_text Semicolon = [SEMICOLON]"
| "stop_text (Newline comment) = comment @ [NL]"

fun stop_ok :: "stop \<Rightarrow> bool" where
  "stop_ok Semicolon \<longleftrightarrow> True"
| "stop_ok (Newline comment) \<longleftrightarrow> 0 \<notin> set comment \<and> NL \<notin> set comment \<and> (comment = [] \<or> hd comment = chr CHR ''#'')"

fun command_text :: "src_command \<Rightarrow> bytes" where
  "command_text (ind, as, st) = ind @ concat (map arg_text as) @ stop_text st"

text \<open>Every argument ends: at white space, or directly at the end of the command, if no comment comes first.\<close>

fun separated :: "src_arg list \<Rightarrow> stop \<Rightarrow> bool" where
  "separated [] st \<longleftrightarrow> True"
| "separated [a] st \<longleftrightarrow> snd a \<noteq> [] \<or> st = Semicolon \<or> st = Newline []"
| "separated (a # b # as) st \<longleftrightarrow> snd a \<noteq> [] \<and> separated (b # as) st"

fun command_ok :: "src_command \<Rightarrow> bool" where
  "command_ok (ind, as, st) \<longleftrightarrow> blanks ind \<and> list_all arg_ok as \<and> separated as st \<and> stop_ok st"

text \<open>The commands a text stands for: the line and the words of every command that has words.\<close>

fun meaning :: "nat \<Rightarrow> src_command list \<Rightarrow> (nat \<times> bytes list) list" where
  "meaning lineno [] = []"
| "meaning lineno ((ind, as, st) # cs) =
     (if as = [] then [] else [(lineno, map arg_value as)]) @
     meaning (if st = Semicolon then lineno else lineno + 1) cs"

text \<open>A command of the model and its line and words.\<close>

definition command_rel :: "grub_command \<Rightarrow> nat \<times> bytes list \<Rightarrow> bool" where
  "command_rel cmd lw \<longleftrightarrow> gc_line cmd = fst lw \<and> gc_argc cmd = length (snd lw) \<and> length (snd lw) \<le> length (gc_argv cmd) \<and>
     take (length (snd lw)) (gc_argv cmd) = map string_of (snd lw)"

subsection \<open>Arguments\<close>

text \<open>One byte is appended, whatever follows it in the memory.\<close>

lemma BufAppend_byte:
  assumes "buf_inv b" "buf_size b < 2 ^ 31" "heap_ok h"
  shows "\<exists>b' h'. BufAppend h b (Some (y # q)) 1 = Some (0, b', h') \<and> buf_inv b' \<and>
    buf_size b' = Suc (buf_size b) \<and> buf_contents b' = buf_contents b @ [y] \<and> heap_ok h'"
proof -
  have "load 0 (Suc 0) (y # q) = load 0 (Suc 0) [y]" by (simp add: load_def slice_def)
  then have "BufAppend h b (Some (y # q)) 1 = BufAppend h b (Some [y]) (length [y])"
    by (simp add: BufAppend_def cong: if_cong)
  with BufAppend_spec [OF assms(1), of "[y]" h] assms(2,3) show ?thesis by auto
qed

text \<open>\<open>grown b w b'\<close>: the buffer got the bytes \<open>w\<close>.\<close>

definition grown :: "buf \<Rightarrow> bytes \<Rightarrow> buf \<Rightarrow> bool" where
  "grown b w b' \<longleftrightarrow> buf_inv b' \<and> buf_size b' = buf_size b + length w \<and> buf_contents b' = buf_contents b @ w"

lemma grown_trans: "grown b v b1 \<Longrightarrow> grown b1 w b2 \<Longrightarrow> grown b (v @ w) b2"
  by (simp add: grown_def)

lemma grown_self: "buf_inv b \<Longrightarrow> grown b [] b"
  by (simp add: grown_def)

lemma quote_loop_escape:
  assumes "buf_inv b" "heap_ok h" "buf_size b + length w \<le> 2 ^ 31" "0 \<notin> set w" "q \<in> {DQUOTE, SQUOTE}"
  shows "\<exists>b' h'. quote_loop q h b (escape q w @ q # r) = Some (b', q # r, h') \<and> grown b w b' \<and> heap_ok h'"
  using assms
proof (induction w arbitrary: b h)
  case Nil
  then show ?case by (auto simp: grown_self)
next
  case (Cons c w)
  let ?tail = "escape q w @ q # r"
  have q: "q \<noteq> BACKSLASH" "BACKSLASH \<noteq> 0" using Cons.prems(5)
    by (auto simp: DQUOTE_def SQUOTE_def BACKSLASH_def)
  from BufAppend_byte [of b h c ?tail] Cons.prems obtain b1 h1 where
    b1: "BufAppend h b (Some (c # ?tail)) 1 = Some (0, b1, h1)" "buf_inv b1" "buf_size b1 = Suc (buf_size b)"
      "buf_contents b1 = buf_contents b @ [c]" "heap_ok h1" by auto
  then have g: "grown b [c] b1" by (simp add: grown_def)
  have "quote_loop q h b (escape q (c # w) @ q # r) = quote_loop q h1 b1 ?tail"
    using q b1(1) Cons.prems(4) by auto
  moreover from Cons.IH [OF b1(2,5)] b1(3) Cons.prems obtain b2 h2 where
    "quote_loop q h1 b1 ?tail = Some (b2, q # r, h2)" "grown b1 w b2" "heap_ok h2" by auto
  ultimately show ?case using grown_trans [OF g, of w b2] by auto
qed

lemma argument_loop_plain:
  assumes "buf_inv b" "heap_ok h" "buf_size b + length w \<le> 2 ^ 31" "list_all plain_char w"
  shows "\<exists>b' h'. argument_loop h b (w @ r) = argument_loop h' b' r \<and> grown b w b' \<and> heap_ok h'"
  using assms
proof (induction w arbitrary: b h)
  case Nil
  then show ?case using grown_self [of b] by auto
next
  case (Cons c w)
  from BufAppend_byte [of b h c "w @ r"] Cons.prems obtain b1 h1 where
    b1: "BufAppend h b (Some (c # w @ r)) 1 = Some (0, b1, h1)" "buf_inv b1" "buf_size b1 = Suc (buf_size b)"
      "buf_contents b1 = buf_contents b @ [c]" "heap_ok h1" by auto
  then have g: "grown b [c] b1" by (simp add: grown_def)
  have "argument_loop h b ((c # w) @ r) = argument_loop h1 b1 (w @ r)"
    using b1(1) Cons.prems(4) by (simp add: plain_char_def)
  moreover from Cons.IH [OF b1(2,5)] b1(3) Cons.prems obtain b2 h2 where
    "argument_loop h1 b1 (w @ r) = argument_loop h2 b2 r" "grown b1 w b2" "heap_ok h2" by auto
  ultimately show ?case using grown_trans [OF g, of w b2] by auto
qed

lemma argument_loop_segment:
  assumes "buf_inv b" "heap_ok h" "buf_size b + length (segment_value s) \<le> 2 ^ 31" "segment_ok s"
  shows "\<exists>b' h'. argument_loop h b (segment_text s @ r) = argument_loop h' b' r \<and> grown b (segment_value s) b' \<and> heap_ok h'"
proof (cases s)
  case (Plain w)
  with argument_loop_plain [of b h w r] assms show ?thesis by auto
next
  case (Quoted q w)
  with assms have q: "q \<in> {DQUOTE, SQUOTE}" "0 \<notin> set w" by auto
  then have "q \<noteq> 0" "\<not> posix_isspace q" "q \<noteq> SEMICOLON"
    by (auto simp: DQUOTE_def SQUOTE_def SEMICOLON_def posix_isspace_def chr_def)
  with quote_loop_escape [of b h w q r] q Quoted assms show ?thesis by force
qed

lemma argument_loop_segments:
  assumes "buf_inv b" "heap_ok h" "buf_size b + length (concat (map segment_value ss)) \<le> 2 ^ 31" "list_all segment_ok ss"
  shows "\<exists>b' h'. argument_loop h b (concat (map segment_text ss) @ r) = argument_loop h' b' r \<and>
    grown b (concat (map segment_value ss)) b' \<and> heap_ok h'"
  using assms
proof (induction ss arbitrary: b h)
  case Nil
  then show ?case using grown_self [of b] by auto
next
  case (Cons s ss)
  let ?tail = "concat (map segment_text ss) @ r"
  from argument_loop_segment [of b h s ?tail] Cons.prems obtain b1 h1 where
    b1: "argument_loop h b (segment_text s @ ?tail) = argument_loop h1 b1 ?tail" "grown b (segment_value s) b1" "heap_ok h1"
    by auto
  with Cons.IH [of b1 h1] Cons.prems obtain b2 h2 where
    "argument_loop h1 b1 ?tail = argument_loop h2 b2 r" "grown b1 (concat (map segment_value ss)) b2" "heap_ok h2"
    by (auto simp: grown_def)
  with b1 grown_trans [OF b1(2)] show ?case by auto
qed

subsection \<open>Tokens\<close>

lemma skip_horizontal_blanks: "blanks w \<Longrightarrow> skip_horizontal (w @ r) = skip_horizontal r"
proof (induction w)
  case (Cons c w)
  moreover have "\<not> posix_isspace 0" by (simp add: posix_isspace_def)
  ultimately show ?case by (auto simp: blanks_def)
qed simp

lemma GetToken_blanks: "blanks w \<Longrightarrow> GetToken h (w @ r) = GetToken h r"
  by (simp add: GetToken_def skip_horizontal_blanks)

lemma skip_horizontal_stop: "\<not> posix_isspace c \<or> c = NL \<Longrightarrow> skip_horizontal (c # r) = Some (c # r)"
  by auto

lemma segments_text_hd:
  assumes "list_all segment_ok ss" "concat (map segment_text ss) = c # r"
  shows "c \<noteq> 0 \<and> \<not> posix_isspace c \<and> c \<noteq> SEMICOLON \<and> c \<noteq> NL"
  using assms
proof (induction ss)
  case (Cons s ss)
  show ?case
  proof (cases s)
    case (Plain w)
    with Cons show ?thesis by (cases w) (auto simp: plain_char_def posix_isspace_def NL_def)
  next
    case (Quoted q w)
    with Cons show ?thesis
      by (auto simp: DQUOTE_def SQUOTE_def SEMICOLON_def NL_def posix_isspace_def chr_def)
  qed
qed simp

text \<open>What ends an argument.\<close>

definition ends_arg :: "bytes \<Rightarrow> bool" where
  "ends_arg r \<longleftrightarrow> r \<noteq> [] \<and> (posix_isspace (hd r) \<or> hd r = SEMICOLON)"

lemma ends_arg_stops: "ends_arg r \<Longrightarrow> argument_loop h b r = Some (b, r, h)"
  by (cases r) (auto simp: ends_arg_def)

fun args_end :: "src_arg list \<Rightarrow> bytes \<Rightarrow> bool" where
  "args_end [] r \<longleftrightarrow> True"
| "args_end (a # as) r \<longleftrightarrow> ends_arg (snd a @ concat (map arg_text as) @ r) \<and> args_end as r"

lemma separated_args_end:
  "list_all arg_ok as \<Longrightarrow> separated as st \<Longrightarrow> args_end as (stop_text st @ r)"
proof (induction as st rule: separated.induct)
  case (2 a st)
  have "ends_arg (SEMICOLON # r)" "ends_arg (NL # r)" by (simp_all add: ends_arg_def NL_def posix_isspace_def chr_def)
  with 2 show ?case by (cases "snd a") (auto simp: ends_arg_def arg_ok_def blanks_def)
next
  case (3 a b as st)
  then show ?case by (cases "snd a") (auto simp: ends_arg_def arg_ok_def blanks_def)
qed simp

lemma GetToken_arg:
  assumes "arg_ok a" "length (arg_value a) < 2 ^ 31" "heap_ok h" "ends_arg (snd a @ r)"
  shows "\<exists>junk h'. GetToken h (arg_text a @ r) = Some (chr CHR ''I'', Some (arg_value a @ 0 # junk), snd a @ r, h') \<and> heap_ok h'"
proof -
  obtain c t where t: "concat (map segment_text (fst a)) = c # t"
    using assms(1) by (cases "concat (map segment_text (fst a))") (auto simp: arg_ok_def)
  have segs: "list_all segment_ok (fst a)" using assms(1) by (simp add: arg_ok_def)
  note c = segments_text_hd [OF segs t]
  have hash: "c \<noteq> chr CHR ''#''" using assms(1) t by (auto simp: arg_ok_def)
  from argument_loop_segments [OF buf_inv_init assms(3), of "fst a" "snd a @ r"] segs assms(2) obtain b h1 where
    b: "argument_loop h BufInit (concat (map segment_text (fst a)) @ snd a @ r) = Some (b, snd a @ r, h1)"
      "grown BufInit (arg_value a) b" "heap_ok h1"
    by (force simp: BufInit_def arg_value_def ends_arg_stops [OF assms(4)])
  from b(2) have "buf_inv b" "buf_size b = length (arg_value a)" "buf_contents b = arg_value a"
    by (auto simp: grown_def BufInit_def buf_contents_def)
  with BufAppend_byte [of b h1 0 "[]"] assms(2) b(3) obtain b' h2 where
    b': "BufAppend h1 b (Some [0]) 1 = Some (0, b', h2)" "buf_contents b' = arg_value a @ [0]" "heap_ok h2" by auto
  have "buf_data b' = arg_value a @ 0 # drop (buf_size b') (buf_data b')"
    using b'(2) unfolding buf_contents_def by (metis append.assoc append_Cons append_Nil append_take_drop_id)
  moreover from this have "buf_data b' \<noteq> []" by (metis Nil_is_append_conv list.distinct(1))
  ultimately have "GetToken h (arg_text a @ r) = Some (chr CHR ''I'', Some (arg_value a @ 0 # drop (buf_size b') (buf_data b')), snd a @ r, h2)"
    using c hash b(1) b'(1) by (simp add: GetToken_def token_at_def arg_text_def t)
  with b'(3) show ?thesis by blast
qed

lemma skip_comment_line: "0 \<notin> set w \<Longrightarrow> NL \<notin> set w \<Longrightarrow> skip_comment (w @ NL # r) = Some (NL # r)"
  by (induction w) (auto simp: NL_def)

lemma GetToken_newline:
  assumes "stop_ok (Newline cm)"
  shows "GetToken h (cm @ NL # r) = Some (NL, None, r, h)"
proof -
  have tok: "token_at h (NL # r) = Some (NL, None, r, h)" by (simp add: token_at_def NL_def)
  have nl: "NL \<noteq> chr CHR ''#''" by (simp add: NL_def chr_def)
  show ?thesis
  proof (cases cm)
    case Nil
    with tok nl show ?thesis by (simp add: GetToken_def)
  next
    case (Cons c cs)
    with assms have c: "c = chr CHR ''#''" by simp
    moreover have "\<not> posix_isspace (chr CHR ''#'')" by (simp add: posix_isspace_def chr_def)
    moreover have "skip_comment (cm @ NL # r) = Some (NL # r)" using assms by (intro skip_comment_line) auto
    ultimately show ?thesis using tok Cons by (simp add: GetToken_def)
  qed
qed

lemma GetToken_semicolon: "GetToken h (SEMICOLON # r) = Some (SEMICOLON, None, r, h)"
  by (simp add: GetToken_def token_at_def SEMICOLON_def NL_def chr_def posix_isspace_def)

lemma GetToken_end: "GetToken h (0 # r) = Some (0, None, 0 # r, h)"
  by (simp add: GetToken_def token_at_def chr_def)

lemma token_codes: "chr CHR ''I'' \<noteq> (0 :: byte)" "chr CHR ''I'' \<noteq> NL" "chr CHR ''I'' \<noteq> SEMICOLON"
  "NL \<noteq> 0" "SEMICOLON \<noteq> 0" "SEMICOLON \<noteq> NL" "NL \<noteq> SEMICOLON"
  by (simp_all add: chr_def NL_def SEMICOLON_def)

subsection \<open>Commands\<close>

definition args_fit :: "src_arg list \<Rightarrow> bool" where
  "args_fit as \<longleftrightarrow> length as < 2 ^ 28 \<and> list_all (\<lambda>a. length (arg_value a) < 2 ^ 31) as"

lemma parse_loop_blanks: "blanks w \<Longrightarrow> parse_loop h (w @ r) k line cmds = parse_loop h r k line cmds"
  by (subst (1 2) parse_loop.simps) (simp add: GetToken_blanks)

lemma arg_value_nonzero:
  assumes "arg_ok a"
  shows "0 \<notin> set (arg_value a)"
proof -
  have "0 \<notin> set (segment_value s)" if "segment_ok s" for s
    using that by (cases s) (auto simp: list_all_iff plain_char_def)
  with assms show ?thesis by (auto simp: arg_ok_def arg_value_def list_all_iff)
qed

lemma parse_loop_args:
  assumes "list_all arg_ok as" "list_all (\<lambda>a. length (arg_value a) < 2 ^ 31) as" "strarr_inv line"
    "sa_size line + length as < 2 ^ 28" "heap_ok h" "args_end as r"
  shows "\<exists>line' h'. parse_loop h (concat (map arg_text as) @ r) k line cmds = parse_loop h' r k line' cmds \<and>
    strarr_inv line' \<and> strarr_elems line' = strarr_elems line @ map string_of (map arg_value as) \<and>
    sa_size line' = sa_size line + length as \<and> (as = [] \<longrightarrow> line' = line) \<and> heap_ok h'"
  using assms
proof (induction as arbitrary: h line)
  case Nil
  then show ?case by auto
next
  case (Cons a as)
  let ?tail = "concat (map arg_text as) @ r"
  from GetToken_arg [of a h ?tail] Cons.prems obtain junk h1 where
    tok: "GetToken h (arg_text a @ ?tail) = Some (chr CHR ''I'', Some (arg_value a @ 0 # junk), snd a @ ?tail, h1)" "heap_ok h1"
    by auto
  have "0 \<notin> set (arg_value a)" using Cons.prems(1) by (simp add: arg_value_nonzero)
  with StrArrAppend_spec [of line "arg_value a" h1 junk] Cons.prems tok(2) obtain l1 h2 where
    l1: "StrArrAppend h1 line (Some (arg_value a @ 0 # junk)) = Some (0, l1, h2)" "strarr_inv l1"
      "strarr_elems l1 = strarr_elems line @ [string_of (arg_value a)]" "sa_size l1 = Suc (sa_size line)" "heap_ok h2"
    by (auto simp: string_of_def)
  have bl: "blanks (snd a)" using Cons.prems(1) by (simp add: arg_ok_def)
  have "parse_loop h (arg_text a @ ?tail) k line cmds = parse_loop h2 (snd a @ ?tail) k l1 cmds"
    by (subst parse_loop.simps) (simp add: tok(1) l1(1) token_codes)
  then have step: "parse_loop h (arg_text a @ ?tail) k line cmds = parse_loop h2 ?tail k l1 cmds"
    by (simp only: parse_loop_blanks [OF bl])
  from Cons.IH [of l1 h2] Cons.prems l1 obtain line' h' where
    "parse_loop h2 ?tail k l1 cmds = parse_loop h' r k line' cmds" "strarr_inv line'"
    "strarr_elems line' = strarr_elems l1 @ map string_of (map arg_value as)"
    "sa_size line' = sa_size l1 + length as" "heap_ok h'" by auto
  with step l1 show ?case by auto
qed

definition stop_line :: "stop \<Rightarrow> nat \<Rightarrow> nat" where
  "stop_line st k = (if st = Semicolon then k else k + 1)"

text \<open>The end of a command: the words collected become a command of the array.\<close>

lemma parse_loop_stop:
  assumes "stop_ok st" "strarr_inv line" "heap_ok h" "k < 2 ^ 64 - 1" "length cmds < 2 ^ 27"
    "strarr_elems line = map string_of ws" "sa_size line = length ws"
  shows "\<exists>new line' h'. parse_loop h (stop_text st @ r) k line cmds = parse_loop h' r (stop_line st k) line' (cmds @ new) \<and>
    heap_ok h' \<and> (if ws = [] then line' = line \<and> new = [] else line' = strarr_init \<and> (\<exists>c. new = [c] \<and> command_rel c (k, ws)))"
proof -
  let ?rc = "if st = Semicolon then SEMICOLON else NL"
  let ?c = "\<lparr>gc_line = k, gc_argc = sa_size line, gc_argv = sa_data line\<rparr>"
  have tok: "GetToken h (stop_text st @ r) = Some (?rc, None, r, h)"
    using assms(1) GetToken_newline GetToken_semicolon by (cases st) auto
  have k: "u64 (Suc k) = Suc k" using assms(4) by simp
  show ?thesis
  proof (cases "ws = []")
    case True
    then have "parse_loop h (stop_text st @ r) k line cmds = parse_loop h r (stop_line st k) line cmds"
      using assms(7) by (subst parse_loop.simps) (simp add: tok token_codes stop_line_def k)
    with True assms(3) show ?thesis by auto
  next
    case False
    from assms(3) obtain x where x: "h 0 = Some x" using heap_ok_0 by blast
    have "24 * (length cmds + 1) < 2 ^ 32" using assms(5) by simp
    then have app: "append_command h cmds ?c = Some (Some (cmds @ [?c]), heap_next h)"
      using x by (simp add: append_command_def Let_def)
    have "parse_loop h (stop_text st @ r) k line cmds = parse_loop (heap_next h) r (stop_line st k) strarr_init (cmds @ [?c])"
      using assms(7) False app by (subst parse_loop.simps) (simp add: tok token_codes stop_line_def k)
    moreover have "command_rel ?c (k, ws)"
      using assms(2,6,7) by (simp add: command_rel_def strarr_inv_def strarr_elems_def)
    ultimately show ?thesis using False assms(3)
      by (intro exI [of _ "[?c]"] exI [of _ strarr_init] exI [of _ "heap_next h"]) simp
  qed
qed

definition source_ok :: "src_command list \<Rightarrow> bool" where
  "source_ok cs \<longleftrightarrow> length cs < 2 ^ 27 \<and> list_all command_ok cs \<and> list_all (\<lambda>(ind, as, st). args_fit as) cs"

definition source_text :: "src_command list \<Rightarrow> bytes" where
  "source_text cs = concat (map command_text cs)"

lemma parse_loop_commands:
  assumes "list_all command_ok cs" "list_all (\<lambda>(ind, as, st). args_fit as) cs" "heap_ok h"
    "length cmds + length cs < 2 ^ 27" "k + length cs < 2 ^ 64"
  shows "\<exists>new h'. parse_loop h (source_text cs @ [0]) k strarr_init cmds =
      Some (0, if cmds @ new = [] then None else Some (cmds @ new), length (cmds @ new), strarr_init, h') \<and>
    list_all2 command_rel new (meaning k cs) \<and> heap_ok h'"
  using assms
proof (induction cs arbitrary: h k cmds)
  case Nil
  have "parse_loop h (source_text [] @ [0]) k strarr_init cmds =
      Some (0, if cmds @ [] = [] then None else Some (cmds @ []), length (cmds @ []), strarr_init, h)"
    by (subst parse_loop.simps) (simp add: source_text_def GetToken_end)
  with Nil show ?case by (metis list_all2_Nil meaning.simps(1))
next
  case (Cons c cs)
  obtain ind as st where c: "c = (ind, as, st)" by (cases c)
  with Cons.prems have ok: "blanks ind" "list_all arg_ok as" "stop_ok st" "args_fit as" "separated as st" by auto
  let ?tail = "source_text cs @ [0]"
  note ends = separated_args_end [OF ok(2,5), of ?tail]
  have src: "source_text (c # cs) @ [0] = ind @ concat (map arg_text as) @ stop_text st @ ?tail"
    by (simp add: source_text_def c)
  from parse_loop_args [of as strarr_init h "stop_text st @ ?tail" k cmds] ok ends Cons.prems(3) strarr_inv_init obtain line h1 where
    l: "parse_loop h (concat (map arg_text as) @ stop_text st @ ?tail) k strarr_init cmds =
        parse_loop h1 (stop_text st @ ?tail) k line cmds"
      "strarr_inv line" "strarr_elems line = map string_of (map arg_value as)" "sa_size line = length as" "heap_ok h1"
      "as = [] \<longrightarrow> line = strarr_init"
    by (auto simp: args_fit_def)
  from parse_loop_stop [OF ok(3) l(2,5), of k cmds "map arg_value as" ?tail] l Cons.prems obtain new1 line1 h2 where
    s: "parse_loop h1 (stop_text st @ ?tail) k line cmds = parse_loop h2 ?tail (stop_line st k) line1 (cmds @ new1)"
      "heap_ok h2" "if as = [] then line1 = line \<and> new1 = [] else line1 = strarr_init \<and> (\<exists>c. new1 = [c] \<and> command_rel c (k, map arg_value as))"
    by auto
  have line1: "line1 = strarr_init"
    using l(6) s(3) by (auto split: if_splits)
  have len: "length new1 \<le> 1" using s(3) by (auto split: if_splits)
  have k: "stop_line st k + length cs < 2 ^ 64" "stop_line st k \<le> Suc k" using Cons.prems(5) by (auto simp: stop_line_def)
  from Cons.IH [of h2 "cmds @ new1" "stop_line st k"] Cons.prems s(2) len k obtain new2 h3 where
    "parse_loop h2 ?tail (stop_line st k) strarr_init (cmds @ new1) =
      Some (0, if (cmds @ new1) @ new2 = [] then None else Some ((cmds @ new1) @ new2), length ((cmds @ new1) @ new2), strarr_init, h3)"
    "list_all2 command_rel new2 (meaning (stop_line st k) cs)" "heap_ok h3" by auto
  moreover have "list_all2 command_rel (new1 @ new2) (meaning k (c # cs))" if "list_all2 command_rel new2 (meaning (stop_line st k) cs)"
    using that s(3) by (auto simp: c stop_line_def split: if_splits)
  ultimately show ?case using l(1) s(1) line1 parse_loop_blanks [OF ok(1)] src by (intro exI [of _ "new1 @ new2"] exI [of _ h3]) simp
qed

text \<open>A parsed command owns its words.\<close>

lemma release_commands_ok: "list_all2 command_rel cmds lws \<Longrightarrow> release_commands cmds = Some ()"
proof (induction rule: list_all2_induct)
  case (Cons c lw cmds lws)
  have "list_all free_ok (map string_of ws)" for ws by (induction ws) (simp_all add: string_of_def free_ok_def)
  with Cons show ?case by (auto simp: command_rel_def StrArrRelease_def load_def slice_def)
qed simp

section \<open>Claims\<close>

text \<open>
  C24: \<open>_Parse\<close> reads back every text whose commands all end with a semicolon or a newline: with quoting
  (single or double, backslash escapes, quoted and plain segments side by side), comments, blank lines,
  any horizontal white space between the words, and the end of a command directly after its last word or after
  white space, the commands it returns are the commands of the text that have words, in order, with
  exactly their words and the numbers of their lines.
\<close>

theorem Parse_reads_back:
  assumes "source_ok cs" "heap_ok h"
  shows "\<exists>cmds h'. Parse h (source_text cs @ [0]) = Some (0, if cmds = [] then None else Some cmds, length cmds, h') \<and>
    list_all2 command_rel cmds (meaning 1 cs) \<and> heap_ok h'"
proof -
  from assms parse_loop_commands [of cs h "[]" 1, unfolded append_Nil] obtain cmds h' where
    "parse_loop h (source_text cs @ [0]) 1 strarr_init [] = Some (0, if cmds = [] then None else Some cmds, length cmds, strarr_init, h')"
    "list_all2 command_rel cmds (meaning 1 cs)" "heap_ok h'" by (auto simp: source_ok_def)
  with StrArrRelease_inv [OF strarr_inv_init] show ?thesis by (auto simp: Parse_def)
qed

theorem Parse_reads_back_witness:
  "\<exists>cmds h'. Parse (\<lambda>_. Some 7) (ascii ''# c'' @ [10] @ ascii '' a=\"b c\" d;e'' @ [10, 0]) = Some (0, if cmds = [] then None else Some cmds, length cmds, h') \<and>
    list_all2 command_rel cmds [(2, [ascii ''a=b c'', ascii ''d'']), (2, [ascii ''e''])]"
proof -
  let ?cs = "[([], [], Newline (ascii ''# c'')),
    ([32], [([Plain (ascii ''a=''), Quoted 34 (ascii ''b c'')], [32]), ([Plain (ascii ''d'')], [])], Semicolon),
    ([], [([Plain (ascii ''e'')], [])], Newline [])]"
  note simps = NL_def DQUOTE_def SQUOTE_def SEMICOLON_def BACKSLASH_def posix_isspace_def chr_def
  have "arg_ok ([Plain (ascii ''a=''), Quoted 34 (ascii ''b c'')], [32])" "arg_ok ([Plain (ascii ''d'')], [])"
      "arg_ok ([Plain (ascii ''e'')], [])"
    by (simp_all add: arg_ok_def blanks_def plain_char_def simps)
  moreover have "stop_ok (Newline (ascii ''# c''))" by (simp add: simps)
  moreover have "blanks [32]" by (simp add: blanks_def simps)
  ultimately have ok: "source_ok ?cs"
    by (simp add: source_ok_def args_fit_def arg_value_def blanks_def)
  have src: "source_text ?cs @ [0] = ascii ''# c'' @ [10] @ ascii '' a=\"b c\" d;e'' @ [10, 0]"
    by (simp add: source_text_def arg_text_def simps)
  have mean: "meaning 1 ?cs = [(2, [ascii ''a=b c'', ascii ''d'']), (2, [ascii ''e''])]" by (simp add: arg_value_def)
  have hp: "heap_ok (\<lambda>_. Some 7)" by (simp add: heap_ok_def)
  from Parse_reads_back [OF ok hp] show ?thesis unfolding src mean by blast
qed

end
