(* ===== verification/GrubMenu.thy ===== *)
theory GrubMenu
  imports GrubParse
begin

text \<open>
  Menus. The text of \<open>grub.cfg\<close> describes a tree of submenus and entries; the entry that GRUB boots
  is found by following the parts of the default value from the top menu, each part naming an item
  of the current menu by its number, its title or its identifier (the argument before the brace).
  This theory states that search on the tree and shows that \<open>_ResolveInitrd\<close>, which scans the flat
  list of commands with a stack, implements it.
\<close>

datatype menu =
    Entry "bytes list" "bytes list list"
  | Submenu "bytes list" "menu list"
  | Other "bytes list"

definition w_menuentry :: bytes where "w_menuentry = ascii ''menuentry''"
definition w_submenu :: bytes where "w_submenu = ascii ''submenu''"
definition w_initrd :: bytes where "w_initrd = ascii ''initrd''"
definition w_initrdefi :: bytes where "w_initrdefi = ascii ''initrdefi''"
definition w_open :: bytes where "w_open = ascii [CHR 0x7B]"
definition w_close :: bytes where "w_close = ascii [CHR 0x7D]"

lemmas word_defs = w_menuentry_def w_submenu_def w_initrd_def w_initrdefi_def w_open_def w_close_def

text \<open>The commands of a menu, as words.\<close>

primrec menu_words :: "menu \<Rightarrow> bytes list list" and menus_words :: "menu list \<Rightarrow> bytes list list" where
  "menu_words (Entry args body) = (w_menuentry # args @ [w_open]) # body @ [[w_close]]"
| "menu_words (Submenu args ms) = (w_submenu # args @ [w_open]) # menus_words ms @ [[w_close]]"
| "menu_words (Other ws) = [ws]"
| "menus_words [] = []"
| "menus_words (m # ms) = menu_words m @ menus_words ms"

text \<open>The ramdisk of an entry: the argument of its last \<open>initrd\<close> or \<open>initrdefi\<close> command.\<close>

fun initrd_from :: "bytes \<Rightarrow> bytes list list \<Rightarrow> bytes" where
  "initrd_from p [] = p"
| "initrd_from p (ws # wss) =
     initrd_from (if length ws = 2 \<and> (ws ! 0 = w_initrd \<or> ws ! 0 = w_initrdefi) then ws ! 1 else p) wss"

text \<open>Whether a part of the default value names the item with this number and these arguments.\<close>

definition decimal_text :: "nat \<Rightarrow> bytes" where
  "decimal_text x = (if x = 0 then ascii ''0'' else rev (rdigits x))"

definition names :: "bool \<Rightarrow> bytes \<Rightarrow> nat \<Rightarrow> bytes list \<Rightarrow> bool" where
  "names hasDefault d i args \<longleftrightarrow> \<not> hasDefault \<or> d = decimal_text i \<or> d = hd args \<or> d = last args"

text \<open>The search: the title and the ramdisk of the first entry that the parts lead to.\<close>

primrec
  select_menu :: "bool \<Rightarrow> bytes list \<Rightarrow> nat \<Rightarrow> menu \<Rightarrow> (bytes \<times> bytes) option" and
  select :: "bool \<Rightarrow> bytes list \<Rightarrow> nat \<Rightarrow> menu list \<Rightarrow> (bytes \<times> bytes) option" where
  "select_menu hasDefault ds i (Entry args body) =
     (if length ds = 1 \<and> names hasDefault (hd ds) i args then Some (hd args, initrd_from [] body) else None)"
| "select_menu hasDefault ds i (Submenu args ms) =
     (if length ds \<noteq> 0 \<and> names hasDefault (hd ds) i args then select hasDefault (tl ds) 0 ms else None)"
| "select_menu hasDefault ds i (Other ws) = None"
| "select hasDefault ds i [] = None"
| "select hasDefault ds i (m # ms) =
     (case select_menu hasDefault ds i m of
        Some r \<Rightarrow> Some r
      | None \<Rightarrow> select hasDefault ds (case m of Other ws \<Rightarrow> i | _ \<Rightarrow> Suc i) ms)"

text \<open>The depth of a tree, and the trees whose words the commands can carry.\<close>

primrec menu_depth :: "menu \<Rightarrow> nat" and menus_depth :: "menu list \<Rightarrow> nat" where
  "menu_depth (Entry args body) = 1"
| "menu_depth (Submenu args ms) = Suc (menus_depth ms)"
| "menu_depth (Other ws) = 0"
| "menus_depth [] = 0"
| "menus_depth (m # ms) = max (menu_depth m) (menus_depth ms)"

definition words_ok :: "bytes list \<Rightarrow> bool" where
  "words_ok ws \<longleftrightarrow> ws \<noteq> [] \<and> list_all (\<lambda>w. 0 \<notin> set w) ws"

definition ignored :: "bytes list \<Rightarrow> bool" where
  "ignored ws \<longleftrightarrow> words_ok ws \<and> hd ws \<notin> {w_menuentry, w_submenu, w_close}"

definition body_ok :: "bytes list \<Rightarrow> bool" where
  "body_ok ws \<longleftrightarrow> ignored ws \<and> (length ws = 2 \<and> hd ws \<in> {w_initrd, w_initrdefi} \<longrightarrow> length (ws ! 1) < PATH_MAX)"

primrec menu_ok :: "menu \<Rightarrow> bool" and menus_ok :: "menu list \<Rightarrow> bool" where
  "menu_ok (Entry args body) \<longleftrightarrow> words_ok args \<and> length (hd args) < PATH_MAX \<and> list_all body_ok body"
| "menu_ok (Submenu args ms) \<longleftrightarrow> words_ok args \<and> length ms < 2 ^ 64 \<and> menus_ok ms"
| "menu_ok (Other ws) \<longleftrightarrow> ignored ws \<and> \<not> (length ws = 2 \<and> hd ws \<in> {w_initrd, w_initrdefi})"
| "menus_ok [] \<longleftrightarrow> True"
| "menus_ok (m # ms) \<longleftrightarrow> menu_ok m \<and> menus_ok ms"

text \<open>
  The top menu may also have closing braces that open nothing there, as those of shell functions; within a submenu
  such a brace would close the submenu.
\<close>

definition top_ok :: "menu list \<Rightarrow> bool" where
  "top_ok ms \<longleftrightarrow> list_all (\<lambda>m. menu_ok m \<or> m = Other [w_close]) ms"

text \<open>
  The default value that the commands set, unless it is a variable, and the entry that is booted:
  without a default value, the first entry of the top menu.
\<close>

fun default_value :: "bytes list list \<Rightarrow> bytes option" where
  "default_value [] = None"
| "default_value (ws # wss) =
     (if 2 \<le> length ws \<and> ws ! 0 = ascii ''set'' \<and> take 8 (ws ! 1) = ascii ''default='' \<and>
         take 1 (drop 8 (ws ! 1)) \<noteq> [chr CHR ''$'']
      then Some (drop 8 (ws ! 1)) else default_value wss)"

definition default_path :: "menu list \<Rightarrow> bytes list" where
  "default_path ms =
     (case default_value (menus_words ms) of
        None \<Rightarrow> [ascii ''0'']
      | Some v \<Rightarrow> tokens (\<lambda>c. c = chr CHR ''>'') v)"

definition boot_entry :: "menu list \<Rightarrow> (bytes \<times> bytes) option" where
  "boot_entry ms = select (default_value (menus_words ms) \<noteq> None) (default_path ms) 0 ms"

subsection \<open>Strings\<close>

text \<open>A buffer of \<open>PATH_MAX\<close> bytes that holds a string.\<close>

definition path_buf :: "bytes \<Rightarrow> bytes \<Rightarrow> bool" where
  "path_buf m u \<longleftrightarrow> length m = PATH_MAX \<and> 0 \<notin> set u \<and> (\<exists>w. m = u @ 0 # w)"

lemma path_buf_cstr: "path_buf m u \<Longrightarrow> cstr m = u"
  by (auto simp: path_buf_def)

lemma append_matched_spec:
  assumes "path_buf m u" "0 \<notin> set t"
  shows "\<exists>m'. append_matched m (t @ 0 # r) = Some m' \<and> path_buf m' (take (PATH_MAX - 1) (u @ t))"
proof -
  from assms obtain w where m: "m = u @ 0 # w" "0 \<notin> set u" "length m = PATH_MAX" by (auto simp: path_buf_def)
  then have len: "length u < PATH_MAX" by auto
  let ?t = "take (PATH_MAX - 1 - length u) t"
  let ?m = "overwrite (length u) (?t @ [0]) m"
  have "map scast xs = xs" for xs :: bytes by (induction xs) (simp_all add: scast_id)
  then have "append_matched m (t @ 0 # r) = Some ?m"
    using Strlcat_spec [OF m(2) assms(2) len, of w r] m by (simp add: append_matched_def)
  moreover have "?m = (u @ ?t) @ 0 # drop (length u + length ?t + 1) m" using m by (simp add: overwrite_def)
  moreover have "take (PATH_MAX - 1) (u @ t) = u @ ?t" using len by simp
  moreover have "length ?m = PATH_MAX" using len m(3) by simp
  moreover have "0 \<notin> set (u @ ?t)" using m(2) assms(2) set_take_subset [of _ t] by auto
  ultimately show ?thesis unfolding path_buf_def by metis
qed

lemma strcpy_loop_spec:
  assumes "0 \<notin> set t" "p + length t < length dest"
  shows "strcpy_loop dest p (t @ 0 # r) = Some (overwrite p (t @ [0]) dest)"
  using assms
proof (induction t arbitrary: p dest)
  case Nil
  then show ?case by (simp add: store_def)
next
  case (Cons c t)
  have "overwrite (Suc p) ys (overwrite p [c] dest) = overwrite p (c # ys) dest" for ys
    using Cons.prems by (simp add: overwrite_def add.commute)
  with Cons show ?case by (simp add: store_def)
qed

lemma strcpy_buf:
  assumes "length m = PATH_MAX" "0 \<notin> set t" "length t < PATH_MAX"
  shows "\<exists>m'. posix_strcpy m (t @ 0 # r) = Some m' \<and> path_buf m' t"
proof -
  have "overwrite 0 (t @ [0]) m = t @ 0 # drop (length t + 1) m" by (simp add: overwrite_def)
  with strcpy_loop_spec [of t 0 m r] assms show ?thesis
    by (auto simp: posix_strcpy_def path_buf_def)
qed

lemma streq_spec: "0 \<notin> set s \<Longrightarrow> 0 \<notin> set t \<Longrightarrow> streq (s @ 0 # r) (t @ 0 # r') = Some (s = t)"
  using strcmp_order [of "s @ 0 # r" "t @ 0 # r'"] by (auto simp: streq_def)

lemma U64tostr_decimal_text: "x < 2 ^ 64 \<Longrightarrow> U64tostr x = Some (decimal_text x @ [0])"
  using length_rdigits [of x 20] by (simp add: U64tostr_def tostr_def tostr_loop_rdigits decimal_text_def chr_def)

lemma decimal_text_nonzero: "0 \<notin> set (decimal_text x)"
  using rdigits_nonzero [of x] by (auto simp: decimal_text_def)

text \<open>A command and its words.\<close>

definition has_words :: "grub_command \<Rightarrow> bytes list \<Rightarrow> bool" where
  "has_words cmd ws \<longleftrightarrow> words_ok ws \<and> (\<exists>k. command_rel cmd (k, ws))"

lemma has_words_argc: "has_words cmd ws \<Longrightarrow> gc_argc cmd = length ws"
  by (auto simp: has_words_def command_rel_def)

lemma has_words_arg:
  assumes "has_words cmd ws" "i < length ws"
  shows "arg cmd i = Some (ws ! i @ [0])" "0 \<notin> set (ws ! i)"
proof -
  from assms have "i < length (gc_argv cmd)" "gc_argv cmd ! i = string_of (ws ! i)"
    by (auto simp: has_words_def command_rel_def) (metis nth_map nth_take)
  then show "arg cmd i = Some (ws ! i @ [0])" by (simp add: arg_def cell_def string_of_def)
  show "0 \<notin> set (ws ! i)" using assms by (auto simp: has_words_def words_ok_def list_all_length)
qed

lemma arg_is_word:
  assumes "has_words cmd ws" "i < length ws" "0 \<notin> set (ascii lit)"
  shows "arg_is cmd i lit = Some (ws ! i = ascii lit)"
  using has_words_arg [OF assms(1,2)] assms(3) streq_spec [of "ws ! i" "ascii lit" "[]" "[]"]
  by (simp add: arg_is_def)

lemma arg_is_keyword:
  assumes "has_words cmd ws"
  shows "arg_is cmd 0 ''menuentry'' = Some (hd ws = w_menuentry)" "arg_is cmd 0 ''submenu'' = Some (hd ws = w_submenu)"
    "arg_is cmd 0 ''initrd'' = Some (hd ws = w_initrd)" "arg_is cmd 0 ''initrdefi'' = Some (hd ws = w_initrdefi)"
    "arg_is cmd 0 [CHR 0x7D] = Some (hd ws = w_close)"
proof -
  have "ws \<noteq> []" using assms by (simp add: has_words_def words_ok_def)
  then have z: "0 < length ws" "ws ! 0 = hd ws" by (simp_all add: hd_conv_nth)
  note w = arg_is_word [OF assms z(1), unfolded z(2)]
  show "arg_is cmd 0 ''menuentry'' = Some (hd ws = w_menuentry)" "arg_is cmd 0 ''submenu'' = Some (hd ws = w_submenu)"
    "arg_is cmd 0 ''initrd'' = Some (hd ws = w_initrd)" "arg_is cmd 0 ''initrdefi'' = Some (hd ws = w_initrdefi)"
    "arg_is cmd 0 [CHR 0x7D] = Some (hd ws = w_close)"
    by (subst w, simp_all add: word_defs)+
qed

lemma keywords_distinct:
  "w_menuentry \<noteq> w_submenu" "w_menuentry \<noteq> w_close" "w_submenu \<noteq> w_close" "w_menuentry \<noteq> w_initrd" "w_menuentry \<noteq> w_initrdefi"
  "w_submenu \<noteq> w_initrd" "w_submenu \<noteq> w_initrdefi" "w_close \<noteq> w_initrd" "w_close \<noteq> w_initrdefi"
  "w_submenu \<noteq> w_menuentry" "w_close \<noteq> w_menuentry" "w_close \<noteq> w_submenu"
  by (simp_all add: word_defs)

subsection \<open>Matching\<close>

text \<open>The default value, split into its parts.\<close>

definition default_parts :: "strarr \<Rightarrow> bytes list \<Rightarrow> bool" where
  "default_parts arr parts \<longleftrightarrow> strarr_inv arr \<and> strarr_elems arr = map string_of parts \<and> sa_size arr = length parts \<and>
     list_all (\<lambda>d. 0 \<notin> set d) parts"

lemma default_parts_string:
  assumes "default_parts arr parts" "j < length parts"
  shows "part_string (sa_data arr) j = Some (parts ! j @ [0])" "0 \<notin> set (parts ! j)"
proof -
  have len: "j < length (sa_data arr)" using assms by (auto simp: default_parts_def strarr_inv_def)
  have "take (length parts) (sa_data arr) = map string_of parts"
    using assms by (auto simp: default_parts_def strarr_elems_def)
  then have "take (length parts) (sa_data arr) ! j = map string_of parts ! j" by (rule arg_cong)
  with assms len show "part_string (sa_data arr) j = Some (parts ! j @ [0])"
    by (simp add: part_string_def cell_def string_of_def)
  show "0 \<notin> set (parts ! j)" using assms by (auto simp: default_parts_def list_all_length)
qed

text \<open>A level of the stack stands for an open item: its number, its keyword and its arguments.\<close>

type_synonym level = "nat \<times> bytes \<times> bytes list"

fun level_rel :: "element \<Rightarrow> level \<Rightarrow> bool" where
  "level_rel el (i, kw, args) \<longleftrightarrow> el_index el = i \<and> i < 2 ^ 64 \<and> args \<noteq> [] \<and>
     (\<exists>cmd. el_command el = Some cmd \<and> has_words cmd (kw # args @ [w_open]))"

fun level_named :: "bool \<Rightarrow> bytes \<Rightarrow> level \<Rightarrow> bool" where
  "level_named hasDefault d (i, kw, args) \<longleftrightarrow> names hasDefault d i args"

lemma match_part_spec:
  assumes parts: "default_parts arr parts" "j < length parts" and i: "i < 2 ^ 64" and args: "args \<noteq> []"
    and cmd: "has_words cmd (kw # args @ [w_open])" and m: "path_buf m u"
  shows "\<exists>m' u'. match_part hasDefault (sa_data arr) j i cmd m = Some (names hasDefault (parts ! j) i args, m') \<and> path_buf m' u'"
proof -
  note d = default_parts_string [OF parts] and num = U64tostr_decimal_text [OF i]
  have argc: "gc_argc cmd = length args + 2" using has_words_argc [OF cmd] by simp
  have a1: "arg cmd 1 = Some (hd args @ [0])" "0 \<notin> set (hd args)"
    using has_words_arg [OF cmd, of 1] args by (auto simp: nth_append hd_conv_nth)
  have a2: "arg cmd (gc_argc cmd - 2) = Some (last args @ [0])" "0 \<notin> set (last args)"
    using has_words_arg [OF cmd, of "length args"] args argc by (auto simp: nth_append nth_Cons' last_conv_nth)
  have eq: "streq (s @ [0]) (parts ! j @ [0]) = Some (s = parts ! j)" if "0 \<notin> set s" for s
    using streq_spec [OF that d(2), of "[]" "[]"] .
  obtain md where md: "append_matched m (parts ! j @ [0]) = Some md" "path_buf md (take (PATH_MAX - 1) (u @ parts ! j))"
    using append_matched_spec [OF m d(2), of "[]"] by blast
  obtain mn where mn: "append_matched m (decimal_text i @ [0]) = Some mn" "path_buf mn (take (PATH_MAX - 1) (u @ decimal_text i))"
    using append_matched_spec [OF m decimal_text_nonzero [of i], of "[]"] by blast
  note eqs = eq [OF decimal_text_nonzero [of i]] eq [OF a1(2)] eq [OF a2(2)]
  show ?thesis
  proof (cases "hasDefault")
    case False
    with num mn show ?thesis by (auto simp: match_part_def names_def)
  next
    case True
    then show ?thesis
      using md m num d(1) a1(1) a2(1) eqs
      by (cases "decimal_text i = parts ! j \<or> hd args = parts ! j \<or> last args = parts ! j")
        (auto simp: match_part_def names_def)
  qed
qed

lemma match_loop_spec:
  assumes "default_parts arr parts" "length parts = depth" "list_all2 level_rel (take depth stack) chain" "depth \<le> length stack"
    "path_buf m u"
  shows "\<exists>m' u'. match_loop hasDefault (sa_data arr) stack depth i n m =
      Some (n + length (filter (\<lambda>j. level_named hasDefault (parts ! j) (chain ! j)) [i..<depth]), m') \<and> path_buf m' u'"
  using assms(5)
proof (induction "depth - i" arbitrary: i n m u)
  case 0
  then show ?case by (subst match_loop.simps) auto
next
  case (Suc x)
  then have i: "i < depth" by simp
  obtain idx kw args where c: "chain ! i = (idx, kw, args)" by (cases "chain ! i")
  have "level_rel (take depth stack ! i) (chain ! i)" using assms(3,4) i by (auto simp: list_all2_conv_all_nth)
  then obtain cmd where l: "el_index (stack ! i) = idx" "idx < 2 ^ 64" "args \<noteq> []" "el_command (stack ! i) = Some cmd"
    "has_words cmd (kw # args @ [w_open])" using i c by auto
  have argc: "\<not> gc_argc cmd < 3" using has_words_argc [OF l(5)] l(3) by (cases args) auto
  let ?ok = "names hasDefault (parts ! i) idx args"
  let ?n = "if ?ok then n + 1 else n"
  from match_part_spec [OF assms(1) _ l(2,3,5) Suc.prems, of i hasDefault] i assms(2) obtain m1 u1 where
    m1: "match_part hasDefault (sa_data arr) i idx cmd m = Some (?ok, m1)" "path_buf m1 u1" by auto
  from append_matched_spec [OF m1(2), of "ascii ''>''" "[]"] obtain m2 u2 where
    m2: "(if ?n \<noteq> depth then append_matched m1 (ascii ''>'' @ [0]) else Some m1) = Some m2" "path_buf m2 u2"
    using m1(2) by (cases "?n = depth") auto
  have "match_loop hasDefault (sa_data arr) stack depth i n m = match_loop hasDefault (sa_data arr) stack depth (Suc i) ?n m2"
    by (subst match_loop.simps, use i assms(4) l argc in \<open>simp only: cell_def\<close>) (use i assms(4) l argc m1(1) m2(1) in \<open>simp add: Let_def\<close>)
  moreover have "length (filter (\<lambda>j. level_named hasDefault (parts ! j) (chain ! j)) [i..<depth]) =
      (if ?ok then 1 else 0) + length (filter (\<lambda>j. level_named hasDefault (parts ! j) (chain ! j)) [Suc i..<depth])"
    using i by (simp add: upt_conv_Cons c)
  ultimately show ?case using Suc.hyps(1) [of "Suc i" m2 u2 ?n] Suc.hyps(2) m2(2) by auto
qed

text \<open>The chain of open items is the one that the parts name.\<close>

definition chain_named :: "bool \<Rightarrow> bytes list \<Rightarrow> level list \<Rightarrow> bool" where
  "chain_named hasDefault parts chain \<longleftrightarrow> list_all2 (level_named hasDefault) parts chain"

lemma Match_spec:
  assumes "default_parts arr parts" "list_all2 level_rel (take depth stack) chain" "depth = length chain" "depth \<le> length stack"
    "length m = PATH_MAX"
  shows "\<exists>m'. Match arr hasDefault stack depth m = Some (chain_named hasDefault parts chain, m') \<and> length m' = PATH_MAX"
proof (cases "length parts = depth")
  case False
  then have "\<not> chain_named hasDefault parts chain" using assms(3) by (auto simp: chain_named_def dest: list_all2_lengthD)
  with False assms(1,5) show ?thesis by (auto simp: Match_def default_parts_def)
next
  case True
  let ?P = "\<lambda>j. level_named hasDefault (parts ! j) (chain ! j)"
  have st: "store 0 [0] m = Some (overwrite 0 [0] m)" using assms(5) by (simp add: store_def PATH_MAX_def)
  have "path_buf (overwrite 0 [0] m) []" using assms(5) by (auto simp: path_buf_def overwrite_def PATH_MAX_def)
  from match_loop_spec [OF assms(1) True assms(2,4) this, of hasDefault 0 0] obtain m' u' where
    m': "match_loop hasDefault (sa_data arr) stack depth 0 0 (overwrite 0 [0] m) = Some (length (filter ?P [0..<depth]), m')"
      "path_buf m' u'" by auto
  have "length (filter ?P [0..<depth]) = depth \<longleftrightarrow> (\<forall>j < depth. ?P j)"
    using filter_id_conv [of ?P "[0..<depth]"] length_filter_le [of ?P "[0..<depth]"]
    by (metis (no_types, lifting) atLeastLessThan_iff atLeast_upt diff_zero filter_True length_filter_less length_upt less_irrefl set_upt zero_le)
  then have "(length (filter ?P [0..<depth]) = depth) = chain_named hasDefault parts chain"
    using True assms(3) by (auto simp: chain_named_def list_all2_conv_all_nth)
  with m' st True assms(1) show ?thesis by (auto simp: Match_def default_parts_def path_buf_def)
qed

end
