(* ===== verification/GrubResolve.thy ===== *)
theory GrubResolve
  imports GrubMenu
begin

text \<open>
  \<open>_ResolveInitrd\<close> and \<open>GRUBCfgFindInitrd\<close> implement the search on the menu tree: the stack of the
  scan stands for the chain of open items, and every command of the flat text moves it as the tree
  says.
\<close>

text \<open>
  The state of the scan inside the open items \<open>chain\<close>, before item number \<open>i\<close> of the innermost one:
  levels above the innermost are reset.
\<close>

definition resolver_rel :: "resolver \<Rightarrow> level list \<Rightarrow> nat \<Rightarrow> bool" where
  "resolver_rel s chain i \<longleftrightarrow>
     length (rs_stack s) = STACK_SIZE \<and> rs_top s = length chain \<and> length chain \<le> STACK_SIZE \<and>
     list_all2 level_rel (take (length chain) (rs_stack s)) chain \<and>
     (\<forall>j < STACK_SIZE. length (el_initrd (rs_stack s ! j)) = PATH_MAX) \<and>
     (\<forall>j < STACK_SIZE. length chain \<le> j \<longrightarrow> path_buf (el_initrd (rs_stack s ! j)) [] \<and>
        el_index (rs_stack s ! j) = (if j = length chain then i else 0)) \<and>
     length (rs_matched s) = PATH_MAX"

text \<open>The outputs are not touched.\<close>

definition same_out :: "resolver \<Rightarrow> resolver \<Rightarrow> bool" where
  "same_out s s' \<longleftrightarrow> rs_title s' = rs_title s \<and> rs_path s' = rs_path s"

lemma same_out_trans: "same_out s s1 \<Longrightarrow> same_out s1 s2 \<Longrightarrow> same_out s s2"
  by (simp add: same_out_def)

lemma take_update_snoc: "n < length xs \<Longrightarrow> take (Suc n) (xs[n := x]) = take n xs @ [x]"
  by (simp add: take_Suc_conv_app_nth)

lemma push_rel:
  assumes rel: "resolver_rel s chain i" and d: "length chain < STACK_SIZE" and i: "i < 2 ^ 64"
    and cmd: "has_words cmd (kw # args @ [w_open])" "kw \<in> {w_menuentry, w_submenu}" "args \<noteq> []"
  obtains s' where "resolve_step arr hasDefault cmd s = Some (Continue, s')" "resolver_rel s' (chain @ [(i, kw, args)]) 0"
    "same_out s s'" "path_buf (el_initrd (rs_stack s' ! length chain)) []"
proof -
  let ?n = "length chain"
  let ?el = "(rs_stack s ! ?n)\<lparr>el_command := Some cmd\<rparr>"
  let ?s = "s\<lparr>rs_stack := (rs_stack s)[?n := ?el], rs_top := ?n + 1\<rparr>"
  note r = rel [unfolded resolver_rel_def]
  have step: "resolve_step arr hasDefault cmd s = Some (Continue, ?s)"
    using arg_is_keyword [OF cmd(1)] cmd(2) r d by (auto simp: resolve_step_def push_element_def)
  have "level_rel ?el (i, kw, args)" using r d i cmd by auto
  then have "list_all2 level_rel (take (Suc ?n) ((rs_stack s)[?n := ?el])) (chain @ [(i, kw, args)])"
    using r d by (subst take_update_snoc) (auto intro: list_all2_appendI)
  then have "resolver_rel ?s (chain @ [(i, kw, args)]) 0"
    using r d by (auto simp: resolver_rel_def nth_list_update)
  moreover have "path_buf (el_initrd (rs_stack ?s ! ?n)) []" using r d by auto
  ultimately show ?thesis using step by (intro that [of ?s]) (auto simp: same_out_def)
qed

lemma ignored_step:
  assumes "has_words cmd ws" "ignored ws" "\<not> (length ws = 2 \<and> hd ws \<in> {w_initrd, w_initrdefi})"
  shows "resolve_step arr hasDefault cmd s = Some (Continue, s)"
  using arg_is_keyword [OF assms(1)] has_words_argc [OF assms(1)] assms(2,3) by (auto simp: resolve_step_def ignored_def)

text \<open>A command in the body of an entry: \<open>initrd\<close> and \<open>initrdefi\<close> set the path of the entry.\<close>

lemma body_step:
  assumes rel: "resolver_rel s (chain @ [(i, w_menuentry, args)]) k" and p: "path_buf (el_initrd (rs_stack s ! length chain)) p"
    and cmd: "has_words cmd ws" "body_ok ws"
  obtains s' where "resolve_step arr hasDefault cmd s = Some (Continue, s')"
    "resolver_rel s' (chain @ [(i, w_menuentry, args)]) k" "same_out s s'"
    "path_buf (el_initrd (rs_stack s' ! length chain)) (initrd_from p [ws])"
proof (cases "length ws = 2 \<and> hd ws \<in> {w_initrd, w_initrdefi}")
  case False
  have "ws \<noteq> []" using cmd(1) by (simp add: has_words_def words_ok_def)
  then have "initrd_from p [ws] = p" using False by (auto simp: hd_conv_nth)
  with False rel p ignored_step [OF cmd(1) _ False] cmd(2) show ?thesis by (intro that [of s]) (auto simp: same_out_def body_ok_def)
next
  case True
  let ?n = "length chain" and ?el = "rs_stack s ! length chain"
  note r = rel [unfolded resolver_rel_def]
  have n: "?n < STACK_SIZE" "rs_top s = Suc ?n" using r by auto
  have "level_rel (take (Suc ?n) (rs_stack s) ! ?n) ((chain @ [(i, w_menuentry, args)]) ! ?n)"
    using r n by (auto simp: list_all2_conv_all_nth)
  then have lvl: "level_rel ?el (i, w_menuentry, args)" by simp
  then obtain c where c: "el_command ?el = Some c" "has_words c (w_menuentry # args @ [w_open])" by auto
  have ws1: "arg cmd 1 = Some (ws ! 1 @ [0])" "0 \<notin> set (ws ! 1)" using has_words_arg [OF cmd(1), of 1] True by auto
  from strcpy_buf [of "el_initrd ?el" "ws ! 1" "[]"] r n ws1 cmd(2) True obtain d where
    d: "posix_strcpy (el_initrd ?el) (ws ! 1 @ [0]) = Some d" "path_buf d (ws ! 1)" by (auto simp: body_ok_def)
  let ?s = "s\<lparr>rs_stack := (rs_stack s)[?n := ?el\<lparr>el_initrd := d\<rparr>]\<rparr>"
  have "resolve_step arr hasDefault cmd s = set_initrd cmd s"
    using arg_is_keyword [OF cmd(1)] has_words_argc [OF cmd(1)] True cmd(2)
    by (auto simp: resolve_step_def body_ok_def ignored_def)
  also have "\<dots> = Some (Continue, ?s)"
    using n r c(1) arg_is_keyword(1) [OF c(2)] ws1(1) d(1) by (simp add: set_initrd_def cell_def)
  finally have step: "resolve_step arr hasDefault cmd s = Some (Continue, ?s)" .
  have "list_all2 level_rel (take (Suc ?n) (rs_stack s)) (chain @ [(i, w_menuentry, args)])" using r by simp
  then have "list_all2 level_rel (take ?n (rs_stack s)) chain"
    using r n by (simp add: take_Suc_conv_app_nth list_all2_append)
  then have "list_all2 level_rel (take (Suc ?n) (rs_stack ?s)) (chain @ [(i, w_menuentry, args)])"
    using n r lvl by (simp add: take_update_snoc list_all2_append)
  then have "resolver_rel ?s (chain @ [(i, w_menuentry, args)]) k"
    using r n d(2) by (auto simp: resolver_rel_def nth_list_update path_buf_def)
  moreover have "initrd_from p [ws] = ws ! 1" using True by (cases ws) auto
  ultimately show ?thesis using step d(2) n r by (intro that [of ?s]) (auto simp: same_out_def)
qed

lemma body_loop:
  assumes "resolver_rel s (chain @ [(i, w_menuentry, args)]) k" "path_buf (el_initrd (rs_stack s ! length chain)) p"
    "list_all2 has_words cmds body" "list_all body_ok body"
  shows "\<exists>s'. resolve_loop arr hasDefault (cmds @ rest) s = resolve_loop arr hasDefault rest s' \<and>
    resolver_rel s' (chain @ [(i, w_menuentry, args)]) k \<and> same_out s s' \<and>
    path_buf (el_initrd (rs_stack s' ! length chain)) (initrd_from p body)"
  using assms(3,4,1,2)
proof (induction cmds body arbitrary: s p rule: list_all2_induct)
  case Nil
  then show ?case by (auto simp: same_out_def)
next
  case (Cons cmd cmds ws body)
  from body_step [OF Cons.prems(2,3) Cons.hyps(1), of arr hasDefault] Cons.prems(1) obtain s1 where
    s1: "resolve_step arr hasDefault cmd s = Some (Continue, s1)" "resolver_rel s1 (chain @ [(i, w_menuentry, args)]) k" "same_out s s1"
      "path_buf (el_initrd (rs_stack s1 ! length chain)) (initrd_from p [ws])" by auto
  from Cons.IH [OF _ s1(2,4)] Cons.prems(1) obtain s2 where
    "resolve_loop arr hasDefault (cmds @ rest) s1 = resolve_loop arr hasDefault rest s2"
    "resolver_rel s2 (chain @ [(i, w_menuentry, args)]) k" "same_out s1 s2"
    "path_buf (el_initrd (rs_stack s2 ! length chain)) (initrd_from p (ws # body))" by auto
  with s1(1) same_out_trans [OF s1(3)] show ?case by (intro exI [of _ s2]) simp
qed

text \<open>Closing an item returns to the menu around it, at the next number.\<close>

lemma pop_rel:
  assumes rel: "resolver_rel s (chain @ [(i, kw, args)]) k" and i: "Suc i < 2 ^ 64" and m: "length m = PATH_MAX"
  shows "\<exists>s'. pop_element (s\<lparr>rs_stack := (if Suc (length chain) \<noteq> STACK_SIZE
        then (rs_stack s)[Suc (length chain) := (rs_stack s ! Suc (length chain))\<lparr>el_index := 0\<rparr>] else rs_stack s),
        rs_matched := m\<rparr>) = Some s' \<and> resolver_rel s' chain (Suc i) \<and> same_out s s'"
proof -
  let ?n = "length chain" and ?el = "rs_stack s ! length chain"
  let ?st = "if Suc ?n \<noteq> STACK_SIZE then (rs_stack s)[Suc ?n := (rs_stack s ! Suc ?n)\<lparr>el_index := 0\<rparr>] else rs_stack s"
  let ?el' = "?el\<lparr>el_initrd := overwrite 0 [0] (el_initrd ?el), el_index := Suc i\<rparr>"
  let ?s = "s\<lparr>rs_stack := ?st[?n := ?el'], rs_top := ?n, rs_matched := m\<rparr>"
  note r = rel [unfolded resolver_rel_def]
  have n: "?n < STACK_SIZE" "rs_top s = Suc ?n" using r by auto
  have all: "list_all2 level_rel (take (Suc ?n) (rs_stack s)) (chain @ [(i, kw, args)])" using r by simp
  then have lvls: "list_all2 level_rel (take ?n (rs_stack s)) chain" and idx: "el_index ?el = i"
    using r n by (simp_all add: take_Suc_conv_app_nth list_all2_append)
  have st: "?st ! ?n = ?el" "length ?st = STACK_SIZE" using n r by simp_all
  have len: "length (el_initrd ?el) = PATH_MAX" using r n by simp
  then have "store 0 [0] (el_initrd ?el) = Some (overwrite 0 [0] (el_initrd ?el))" by (simp add: store_def PATH_MAX_def)
  then have pop: "pop_element (s\<lparr>rs_stack := ?st, rs_matched := m\<rparr>) = Some ?s"
    using n st idx i by (simp add: pop_element_def cell_def)
  have buf: "path_buf (overwrite 0 [0] (el_initrd ?el)) []"
    using len by (auto simp: path_buf_def overwrite_def PATH_MAX_def)
  have "take ?n (?st[?n := ?el']) = take ?n (rs_stack s)" by simp
  moreover have "path_buf (el_initrd (?st[?n := ?el'] ! j)) [] \<and>
      el_index (?st[?n := ?el'] ! j) = (if j = ?n then Suc i else 0)" if "j < STACK_SIZE" "?n \<le> j" for j
  proof (cases "j = ?n")
    case True
    then show ?thesis using st(2) n buf by simp
  next
    case False
    with that r show ?thesis by (auto simp: nth_list_update)
  qed
  moreover have "length (el_initrd (?st[?n := ?el'] ! j)) = PATH_MAX" if "j < STACK_SIZE" for j
    using that r buf by (auto simp: nth_list_update path_buf_def)
  ultimately have "resolver_rel ?s chain (Suc i)"
    using n st(2) lvls m by (simp add: resolver_rel_def)
  with pop show ?thesis by (auto simp: same_out_def)
qed

text \<open>What closing an item does, given the result of \<open>_Match\<close> on the chain.\<close>

lemma close_rel:
  assumes arr: "default_parts arr parts" and rel: "resolver_rel s (chain @ [(i, kw, args)]) k" and i: "Suc i < 2 ^ 64"
    and cmd: "has_words cmd [w_close]"
    and entry: "kw = w_menuentry \<Longrightarrow> path_buf (el_initrd (rs_stack s ! length chain)) p \<and> length (hd args) < PATH_MAX \<and>
      length (rs_title s) = PATH_MAX \<and> length (rs_path s) = PATH_MAX"
  shows "\<exists>r s'. resolve_step arr hasDefault cmd s = Some (r, s') \<and>
    (if kw = w_menuentry \<and> chain_named hasDefault parts (chain @ [(i, kw, args)])
     then r = Found \<and> path_buf (rs_title s') (hd args) \<and> path_buf (rs_path s') p
     else r = Continue \<and> resolver_rel s' chain (Suc i) \<and> same_out s s')"
proof -
  let ?n = "length chain" and ?el = "rs_stack s ! length chain"
  define st where "st = (if Suc ?n \<noteq> STACK_SIZE then (rs_stack s)[Suc ?n := (rs_stack s ! Suc ?n)\<lparr>el_index := 0\<rparr>] else rs_stack s)"
  note r = rel [unfolded resolver_rel_def]
  have n: "?n < STACK_SIZE" "rs_top s = Suc ?n" using r by auto
  have st_eq: "st ! ?n = ?el" "length st = STACK_SIZE" "take (Suc ?n) st = take (Suc ?n) (rs_stack s)" using n r by (simp_all add: st_def)
  have all: "list_all2 level_rel (take (Suc ?n) st) (chain @ [(i, kw, args)])" using r st_eq(3) by simp
  have "level_rel ?el (i, kw, args)" using all [unfolded st_eq(3)] n r by (simp add: take_Suc_conv_app_nth list_all2_append)
  then obtain c where c: "el_command ?el = Some c" "has_words c (kw # args @ [w_open])" and args: "args \<noteq> []" by auto
  have a1: "arg c 1 = Some (hd args @ [0])" "0 \<notin> set (hd args)"
    using has_words_arg [OF c(2), of 1] args by (auto simp: nth_append hd_conv_nth)
  have step: "resolve_step arr hasDefault cmd s = close_block arr hasDefault s"
    using arg_is_keyword [OF cmd] has_words_argc [OF cmd] keywords_distinct by (simp add: resolve_step_def)
  let ?s = "s\<lparr>rs_stack := st\<rparr>"
  have s: "(if rs_top s \<noteq> STACK_SIZE then s\<lparr>rs_stack := (rs_stack s)[rs_top s := (rs_stack s ! rs_top s)\<lparr>el_index := 0\<rparr>]\<rparr> else s) = ?s"
    using n by (simp add: st_def)
  have len: "length (rs_matched s) = PATH_MAX" using r by simp
  from Match_spec [OF arr all, of "rs_matched s" hasDefault] st_eq n len obtain m where
    m: "Match arr hasDefault st (Suc ?n) (rs_matched s) = Some (chain_named hasDefault parts (chain @ [(i, kw, args)]), m)"
      "length m = PATH_MAX" by auto
  let ?found = "kw = w_menuentry \<and> chain_named hasDefault parts (chain @ [(i, kw, args)])"
  let ?m = "if kw = w_menuentry then m else rs_matched s"
  have close: "close_block arr hasDefault s =
      (if ?found then
         do {
           t \<leftarrow> posix_strcpy (rs_title s) (hd args @ [0]);
           q \<leftarrow> posix_strcpy (rs_path s) (el_initrd ?el);
           Some (Found, ?s\<lparr>rs_matched := ?m, rs_title := t, rs_path := q\<rparr>)
         }
       else do { s' \<leftarrow> pop_element (?s\<lparr>rs_matched := ?m\<rparr>); Some (Continue, s') })"
    unfolding close_block_def Let_def s using n st_eq c(1) arg_is_keyword(1) [OF c(2)] m(1) a1(1)
    by (cases "kw = w_menuentry") (simp_all add: cell_def)
  show ?thesis
  proof (cases ?found)
    case True
    with entry have out: "length (rs_title s) = PATH_MAX" "length (rs_path s) = PATH_MAX"
      and p: "path_buf (el_initrd ?el) p" and title: "length (hd args) < PATH_MAX" by auto
    from p obtain w where w: "el_initrd ?el = p @ 0 # w" "0 \<notin> set p" "length p < PATH_MAX" by (auto simp: path_buf_def)
    from strcpy_buf [OF out(1) a1(2) title, of "[]"] strcpy_buf [OF out(2) w(2,3), of w] w(1) True step close
    show ?thesis by auto
  next
    case False
    from pop_rel [OF rel i, of ?m, folded st_def] m(2) len False step close show ?thesis by (cases "kw = w_menuentry") auto
  qed
qed

lemma close_submenu:
  assumes "default_parts arr parts" "resolver_rel s (chain @ [(i, w_submenu, args)]) k" "Suc i < 2 ^ 64" "has_words cmd [w_close]"
  shows "\<exists>s'. resolve_step arr hasDefault cmd s = Some (Continue, s') \<and> resolver_rel s' chain (Suc i) \<and> same_out s s'"
  using close_rel [OF assms, of _ hasDefault] keywords_distinct by auto

subsection \<open>The scan follows the tree\<close>

lemma chain_named_close:
  "chain_named hasDefault parts (chain @ [x]) \<longleftrightarrow>
     chain_named hasDefault (take (length chain) parts) chain \<and> length (drop (length chain) parts) = 1 \<and>
     level_named hasDefault (hd (drop (length chain) parts)) x"
proof (cases "length parts = Suc (length chain)")
  case True
  then obtain ps d where "parts = ps @ [d]" "length ps = length chain" by (metis length_Suc_conv_rev)
  then show ?thesis by (simp add: chain_named_def list_all2_append)
next
  case False
  then show ?thesis by (auto simp: chain_named_def dest: list_all2_lengthD)
qed

lemma chain_named_open:
  "chain_named hasDefault (take (Suc (length chain)) parts) (chain @ [x]) \<longleftrightarrow>
     chain_named hasDefault (take (length chain) parts) chain \<and> length (drop (length chain) parts) \<noteq> 0 \<and>
     level_named hasDefault (hd (drop (length chain) parts)) x"
proof (cases "length chain < length parts")
  case True
  then have "take (Suc (length chain)) parts = take (length chain) parts @ [hd (drop (length chain) parts)]"
    by (simp add: take_Suc_conv_app_nth hd_drop_conv_nth)
  with True show ?thesis by (simp add: chain_named_def list_all2_append)
next
  case False
  then show ?thesis by (auto simp: chain_named_def dest: list_all2_lengthD)
qed

text \<open>What the search finds from inside the open items.\<close>

definition within :: "bool \<Rightarrow> bytes list \<Rightarrow> level list \<Rightarrow> (bytes list \<Rightarrow> (bytes \<times> bytes) option) \<Rightarrow> (bytes \<times> bytes) option" where
  "within hasDefault parts chain f =
     (if chain_named hasDefault (take (length chain) parts) chain then f (drop (length chain) parts) else None)"

text \<open>
  A scan over a part of the commands agrees with the result of the search: it stops at the entry
  found, or goes on with the rest in a related state.
\<close>

definition scans ::
  "strarr \<Rightarrow> bool \<Rightarrow> grub_command list \<Rightarrow> grub_command list \<Rightarrow> resolver \<Rightarrow> (bytes \<times> bytes) option \<Rightarrow> (resolver \<Rightarrow> bool) \<Rightarrow> bool" where
  "scans arr hasDefault cmds rest s result Q \<longleftrightarrow>
     (case result of
        Some (t, p) \<Rightarrow> \<exists>s'. resolve_loop arr hasDefault (cmds @ rest) s = Some (Found, s') \<and>
          path_buf (rs_title s') t \<and> path_buf (rs_path s') p
      | None \<Rightarrow> \<exists>s'. resolve_loop arr hasDefault (cmds @ rest) s = resolve_loop arr hasDefault rest s' \<and> Q s' \<and> same_out s s')"

definition next_index :: "menu \<Rightarrow> nat \<Rightarrow> nat" where
  "next_index m i = (case m of Other ws \<Rightarrow> i | _ \<Rightarrow> Suc i)"

lemma Entry_scans:
  assumes arr: "default_parts arr parts" and rel: "resolver_rel s chain i"
    and cmds: "list_all2 has_words cmds (menu_words (Entry args body))" and ok: "menu_ok (Entry args body)"
    and d: "length chain < STACK_SIZE" and i: "Suc i < 2 ^ 64" and out: "length (rs_title s) = PATH_MAX" "length (rs_path s) = PATH_MAX"
  shows "scans arr hasDefault cmds rest s (within hasDefault parts chain (\<lambda>ds. select_menu hasDefault ds i (Entry args body)))
    (\<lambda>s'. resolver_rel s' chain (Suc i))"
proof -
  let ?x = "(i, w_menuentry, args)"
  have args: "args \<noteq> []" "length (hd args) < PATH_MAX" and body: "list_all body_ok body" using ok by (auto simp: words_ok_def)
  from cmds obtain c cs c' where c: "cmds = c # cs @ [c']" "has_words c (w_menuentry # args @ [w_open])"
    "list_all2 has_words cs body" "has_words c' [w_close]"
    by (auto simp: list_all2_Cons2 list_all2_append2)
  from push_rel [OF rel d _ c(2) _ args(1), of arr hasDefault] i obtain s1 where
    s1: "resolve_step arr hasDefault c s = Some (Continue, s1)" "resolver_rel s1 (chain @ [?x]) 0" "same_out s s1"
      "path_buf (el_initrd (rs_stack s1 ! length chain)) []" by auto
  from body_loop [OF s1(2,4) c(3) body, of arr hasDefault "c' # rest"] obtain s2 where
    s2: "resolve_loop arr hasDefault (cs @ c' # rest) s1 = resolve_loop arr hasDefault (c' # rest) s2"
      "resolver_rel s2 (chain @ [?x]) 0" "same_out s1 s2"
      "path_buf (el_initrd (rs_stack s2 ! length chain)) (initrd_from [] body)" by auto
  have "length (rs_title s2) = PATH_MAX" "length (rs_path s2) = PATH_MAX"
    using out s1(3) s2(3) by (simp_all add: same_out_def)
  with close_rel [OF arr s2(2) i c(4), of "initrd_from [] body" hasDefault] s2(4) args(2) obtain r s3 where
    s3: "resolve_step arr hasDefault c' s2 = Some (r, s3)"
      "if chain_named hasDefault parts (chain @ [?x])
       then r = Found \<and> path_buf (rs_title s3) (hd args) \<and> path_buf (rs_path s3) (initrd_from [] body)
       else r = Continue \<and> resolver_rel s3 chain (Suc i) \<and> same_out s2 s3" by auto
  have loop: "resolve_loop arr hasDefault (cmds @ rest) s = (if r = Continue then resolve_loop arr hasDefault rest s3 else Some (r, s3))"
    using c(1) s1(1) s2(1) s3(1) by simp
  have w: "within hasDefault parts chain (\<lambda>ds. select_menu hasDefault ds i (Entry args body)) =
      (if chain_named hasDefault parts (chain @ [?x]) then Some (hd args, initrd_from [] body) else None)"
    by (simp add: within_def chain_named_close)
  show ?thesis
  proof (cases "chain_named hasDefault parts (chain @ [?x])")
    case True
    with w s3(2) loop show ?thesis by (simp add: scans_def)
  next
    case False
    with w s3(2) loop same_out_trans [OF same_out_trans [OF s1(3) s2(3)]] show ?thesis
      unfolding w scans_def by (auto intro!: exI [of _ s3])
  qed
qed

lemma Submenu_scans:
  assumes arr: "default_parts arr parts" and rel: "resolver_rel s chain i"
    and cmds: "list_all2 has_words cmds (menu_words (Submenu args ms))" and ok: "menu_ok (Submenu args ms)"
    and d: "length chain < STACK_SIZE" and i: "Suc i < 2 ^ 64" and out: "length (rs_title s) = PATH_MAX" "length (rs_path s) = PATH_MAX"
    and IH: "\<And>s cs rest. resolver_rel s (chain @ [(i, w_submenu, args)]) 0 \<Longrightarrow> list_all2 has_words cs (menus_words ms) \<Longrightarrow>
      length (rs_title s) = PATH_MAX \<Longrightarrow> length (rs_path s) = PATH_MAX \<Longrightarrow>
      scans arr hasDefault cs rest s (within hasDefault parts (chain @ [(i, w_submenu, args)]) (\<lambda>ds. select hasDefault ds 0 ms))
        (\<lambda>s'. \<exists>k. resolver_rel s' (chain @ [(i, w_submenu, args)]) k)"
  shows "scans arr hasDefault cmds rest s (within hasDefault parts chain (\<lambda>ds. select_menu hasDefault ds i (Submenu args ms)))
    (\<lambda>s'. resolver_rel s' chain (Suc i))"
proof -
  let ?x = "(i, w_submenu, args)"
  let ?R = "within hasDefault parts (chain @ [?x]) (\<lambda>ds. select hasDefault ds 0 ms)"
  have args: "args \<noteq> []" using ok by (auto simp: words_ok_def)
  from cmds obtain c cs c' where c: "cmds = c # cs @ [c']" "has_words c (w_submenu # args @ [w_open])"
    "list_all2 has_words cs (menus_words ms)" "has_words c' [w_close]"
    by (auto simp: list_all2_Cons2 list_all2_append2)
  from push_rel [OF rel d _ c(2) _ args, of arr hasDefault] i obtain s1 where
    s1: "resolve_step arr hasDefault c s = Some (Continue, s1)" "resolver_rel s1 (chain @ [?x]) 0" "same_out s s1" by auto
  have out1: "length (rs_title s1) = PATH_MAX" "length (rs_path s1) = PATH_MAX"
    using out s1(3) by (simp_all add: same_out_def)
  note sub = IH [OF s1(2) c(3) out1, of "c' # rest"]
  have step: "resolve_loop arr hasDefault (cmds @ rest) s = resolve_loop arr hasDefault (cs @ c' # rest) s1"
    using c(1) s1(1) by simp
  have R: "within hasDefault parts chain (\<lambda>ds. select_menu hasDefault ds i (Submenu args ms)) = ?R"
    using chain_named_open [of hasDefault chain parts ?x] by (auto simp: within_def drop_Suc tl_drop)
  show ?thesis
  proof (cases ?R)
    case (Some tp)
    with sub step R show ?thesis by (cases tp) (simp add: scans_def)
  next
    case None
    with sub obtain s2 k where
      s2: "resolve_loop arr hasDefault (cs @ c' # rest) s1 = resolve_loop arr hasDefault (c' # rest) s2"
        "resolver_rel s2 (chain @ [?x]) k" "same_out s1 s2" by (auto simp: scans_def)
    from close_submenu [OF arr s2(2) i c(4)] obtain s3 where
      s3: "resolve_step arr hasDefault c' s2 = Some (Continue, s3)" "resolver_rel s3 chain (Suc i)" "same_out s2 s3" by blast
    have "resolve_loop arr hasDefault (cmds @ rest) s = resolve_loop arr hasDefault rest s3"
      using step s2(1) s3(1) by simp
    with s3(2) same_out_trans [OF same_out_trans [OF s1(3) s2(3)] s3(3)] None R show ?thesis
      by (auto simp: scans_def)
  qed
qed

text \<open>A scan over an item and then over the rest of its menu.\<close>

lemma scans_Cons:
  assumes one: "scans arr hasDefault cs1 (cs2 @ rest) s (within hasDefault parts chain (\<lambda>ds. select_menu hasDefault ds i m))
      (\<lambda>s'. resolver_rel s' chain (next_index m i))"
    and more: "\<And>s1. resolver_rel s1 chain (next_index m i) \<Longrightarrow> same_out s s1 \<Longrightarrow>
      scans arr hasDefault cs2 rest s1 (within hasDefault parts chain (\<lambda>ds. select hasDefault ds (next_index m i) ms)) Q"
  shows "scans arr hasDefault (cs1 @ cs2) rest s (within hasDefault parts chain (\<lambda>ds. select hasDefault ds i (m # ms))) Q"
proof -
  have sel: "within hasDefault parts chain (\<lambda>ds. select hasDefault ds i (m # ms)) =
      (case within hasDefault parts chain (\<lambda>ds. select_menu hasDefault ds i m) of Some r \<Rightarrow> Some r
       | None \<Rightarrow> within hasDefault parts chain (\<lambda>ds. select hasDefault ds (next_index m i) ms))"
    by (auto simp: within_def next_index_def split: option.split)
  show ?thesis
  proof (cases "within hasDefault parts chain (\<lambda>ds. select_menu hasDefault ds i m)")
    case (Some tp)
    with one sel show ?thesis by (cases tp) (auto simp: scans_def)
  next
    case None
    with one obtain s1 where
      s1: "resolve_loop arr hasDefault (cs1 @ cs2 @ rest) s = resolve_loop arr hasDefault (cs2 @ rest) s1"
        "resolver_rel s1 chain (next_index m i)" "same_out s s1" by (auto simp: scans_def)
    from more [OF s1(2,3)] show ?thesis using s1(1,3) None sel unfolding scans_def same_out_def by (auto split: option.splits)
  qed
qed

lemma menus_scan:
  "default_parts arr parts \<Longrightarrow> resolver_rel s chain i \<Longrightarrow> list_all2 has_words cmds (menu_words m) \<Longrightarrow> menu_ok m \<Longrightarrow>
    length chain + menu_depth m \<le> STACK_SIZE \<Longrightarrow> Suc i < 2 ^ 64 \<Longrightarrow> length (rs_title s) = PATH_MAX \<Longrightarrow> length (rs_path s) = PATH_MAX \<Longrightarrow>
    scans arr hasDefault cmds rest s (within hasDefault parts chain (\<lambda>ds. select_menu hasDefault ds i m))
      (\<lambda>s'. resolver_rel s' chain (next_index m i))"
  "default_parts arr parts \<Longrightarrow> resolver_rel s chain i \<Longrightarrow> list_all2 has_words cmds (menus_words ms) \<Longrightarrow> menus_ok ms \<Longrightarrow>
    length chain + menus_depth ms \<le> STACK_SIZE \<Longrightarrow> i + length ms < 2 ^ 64 \<Longrightarrow> length (rs_title s) = PATH_MAX \<Longrightarrow> length (rs_path s) = PATH_MAX \<Longrightarrow>
    scans arr hasDefault cmds rest s (within hasDefault parts chain (\<lambda>ds. select hasDefault ds i ms))
      (\<lambda>s'. \<exists>k. resolver_rel s' chain k)"
proof (induction m and ms arbitrary: s chain i cmds rest and s chain i cmds rest rule: menu_words.induct menus_words.induct)
  case (Entry args body)
  then show ?case using Entry_scans [of arr parts s chain i cmds args body hasDefault rest] by (simp add: next_index_def)
next
  case (Submenu args ms)
  have "scans arr hasDefault cmds rest s (within hasDefault parts chain (\<lambda>ds. select_menu hasDefault ds i (Submenu args ms)))
      (\<lambda>s'. resolver_rel s' chain (Suc i))"
    using Submenu.prems by (intro Submenu_scans [OF Submenu.prems(1-4)]) (auto intro!: Submenu.IH [OF Submenu.prems(1)])
  then show ?case by (simp add: next_index_def)
next
  case (Other ws)
  then obtain c where c: "cmds = [c]" "has_words c ws" by (auto simp: list_all2_Cons2)
  from ignored_step [OF c(2)] Other.prems(4) have "resolve_loop arr hasDefault (cmds @ rest) s = resolve_loop arr hasDefault rest s"
    using c(1) by simp
  with Other.prems(2) show ?case by (auto simp: scans_def within_def next_index_def same_out_def)
next
  case Nil_menu
  then show ?case by (auto simp: scans_def within_def same_out_def)
next
  case (Cons_menu m ms)
  from Cons_menu.prems(3) obtain cs1 cs2 where cs: "cmds = cs1 @ cs2" "list_all2 has_words cs1 (menu_words m)" "list_all2 has_words cs2 (menus_words ms)"
    by (auto simp: list_all2_append2)
  have dep: "length chain + menu_depth m \<le> STACK_SIZE" "length chain + menus_depth ms \<le> STACK_SIZE" "Suc i < 2 ^ 64"
    "menu_ok m" "menus_ok ms" using Cons_menu.prems(4-6) by auto
  note one = Cons_menu.IH(1) [OF Cons_menu.prems(1,2) cs(2) dep(4,1,3) Cons_menu.prems(7,8), of "cs2 @ rest"]
  have len: "next_index m i + length ms < 2 ^ 64" using Cons_menu.prems(6) by (auto simp: next_index_def split: menu.split)
  show ?case unfolding cs(1)
  proof (rule scans_Cons [OF one])
    fix s1 assume "resolver_rel s1 chain (next_index m i)" "same_out s s1"
    with Cons_menu.IH(2) [OF Cons_menu.prems(1) _ cs(3) dep(5,2) len, of s1 rest] Cons_menu.prems(7,8)
    show "scans arr hasDefault cs2 rest s1 (within hasDefault parts chain (\<lambda>ds. select hasDefault ds (next_index m i) ms))
        (\<lambda>s'. \<exists>k. resolver_rel s' chain k)" by (simp add: same_out_def)
  qed
qed

text \<open>In the top menu, a closing brace without an open item is ignored.\<close>

lemma close_at_top:
  assumes "resolver_rel s [] i" "has_words c [w_close]"
  shows "resolve_step arr hasDefault c s = Some (Continue, s)"
proof -
  have "rs_top s = 0" using assms(1) by (simp add: resolver_rel_def)
  then have "close_block arr hasDefault s = Some (Continue, s)" by (simp add: close_block_def)
  with arg_is_keyword [OF assms(2)] keywords_distinct show ?thesis by (simp add: resolve_step_def)
qed

lemma top_scan:
  "default_parts arr parts \<Longrightarrow> resolver_rel s [] i \<Longrightarrow> list_all2 has_words cmds (menus_words ms) \<Longrightarrow> top_ok ms \<Longrightarrow>
    menus_depth ms \<le> STACK_SIZE \<Longrightarrow> i + length ms < 2 ^ 64 \<Longrightarrow> length (rs_title s) = PATH_MAX \<Longrightarrow> length (rs_path s) = PATH_MAX \<Longrightarrow>
    scans arr hasDefault cmds rest s (within hasDefault parts [] (\<lambda>ds. select hasDefault ds i ms))
      (\<lambda>s'. \<exists>k. resolver_rel s' [] k)"
proof (induction ms arbitrary: s i cmds)
  case Nil
  then show ?case by (auto simp: scans_def within_def same_out_def)
next
  case (Cons m ms)
  from Cons.prems(3) obtain cs1 cs2 where cs: "cmds = cs1 @ cs2" "list_all2 has_words cs1 (menu_words m)" "list_all2 has_words cs2 (menus_words ms)"
    by (auto simp: list_all2_append2)
  have dep: "menu_depth m \<le> STACK_SIZE" "menus_depth ms \<le> STACK_SIZE" "Suc i < 2 ^ 64" "top_ok ms" "menu_ok m \<or> m = Other [w_close]"
    using Cons.prems(4-6) by (auto simp: top_ok_def)
  have one: "scans arr hasDefault cs1 (cs2 @ rest) s (within hasDefault parts [] (\<lambda>ds. select_menu hasDefault ds i m))
      (\<lambda>s'. resolver_rel s' [] (next_index m i))"
    using dep(5)
  proof
    assume "menu_ok m"
    with dep(1,3) show ?thesis by (intro menus_scan(1) [OF Cons.prems(1,2) cs(2) _ _ _ Cons.prems(7,8)]) simp_all
  next
    assume m: "m = Other [w_close]"
    with cs(2) obtain c where c: "cs1 = [c]" "has_words c [w_close]" by (auto simp: list_all2_Cons2)
    with close_at_top [OF Cons.prems(2) c(2)] Cons.prems(2) m show ?thesis
      by (auto simp: scans_def within_def next_index_def same_out_def)
  qed
  have len: "next_index m i + length ms < 2 ^ 64" using Cons.prems(6) by (auto simp: next_index_def split: menu.split)
  show ?case unfolding cs(1)
  proof (rule scans_Cons [OF one])
    fix s1 assume "resolver_rel s1 [] (next_index m i)" "same_out s s1"
    with Cons.IH [OF Cons.prems(1) _ cs(3) dep(4,2) len, of s1] Cons.prems(7,8)
    show "scans arr hasDefault cs2 rest s1 (within hasDefault parts [] (\<lambda>ds. select hasDefault ds (next_index m i) ms))
        (\<lambda>s'. \<exists>k. resolver_rel s' [] k)" by (simp add: same_out_def)
  qed
qed

subsection \<open>The default value\<close>

lemma strncmp_spec:
  assumes "0 \<notin> set a" "0 \<notin> set b" "n \<le> length b"
  shows "\<exists>c. posix_strncmp (a @ 0 # r) (b @ 0 # r') n = Some c \<and> (c = 0 \<longleftrightarrow> take n a = take n b)"
  using assms
proof (induction n arbitrary: a b)
  case (Suc n)
  then obtain y b' where b: "b = y # b'" by (cases b) auto
  show ?case
  proof (cases a)
    case Nil
    with Suc.prems b show ?thesis by (auto simp: uint_0_iff)
  next
    case (Cons x a')
    have ne: "x \<noteq> y \<Longrightarrow> uint x - uint y \<noteq> 0" using word_uint_eq_iff [of x y] by simp
    have xy: "x \<noteq> 0" "y \<noteq> 0" using Suc.prems Cons b by auto
    have "n \<le> length b'" "0 \<notin> set a'" "0 \<notin> set b'" using Suc.prems b Cons by auto
    with Suc.IH [of a' b'] ne xy show ?thesis unfolding Cons b by (cases "x = y") simp_all
  qed
qed simp

lemma default_of_words:
  assumes "has_words cmd ws"
  shows "default_of cmd = Some (map_option (\<lambda>v. v @ [0]) (default_value [ws]))"
proof (cases "2 \<le> length ws")
  case False
  then show ?thesis using has_words_argc [OF assms] by (simp add: default_of_def)
next
  case True
  then have st: "arg_is cmd 0 ''set'' = Some (ws ! 0 = ascii ''set'')" using assms by (intro arg_is_word) auto
  from True have a: "arg cmd 1 = Some (ws ! 1 @ [0])" "0 \<notin> set (ws ! 1)" using has_words_arg [OF assms, of 1] by auto
  from strncmp_spec [OF a(2), of "ascii ''default=''" 8 "[]" "[]"] obtain c where
    c: "posix_strncmp (ws ! 1 @ [0]) (ascii ''default='' @ [0]) 8 = Some c" "c = 0 \<longleftrightarrow> take 8 (ws ! 1) = ascii ''default=''"
    by auto
  have ch: "cell (ws ! 1 @ [0]) 8 = Some ((ws ! 1 @ [0]) ! 8)" "drop 8 (ws ! 1 @ [0]) = drop 8 (ws ! 1) @ [0]"
    "(ws ! 1 @ [0]) ! 8 = chr CHR ''$'' \<longleftrightarrow> take 1 (drop 8 (ws ! 1)) = [chr CHR ''$'']" if "c = 0"
  proof -
    from that c(2) have "length (take 8 (ws ! 1)) = 8" by simp
    then have len: "8 \<le> length (ws ! 1)" by simp
    then show "cell (ws ! 1 @ [0]) 8 = Some ((ws ! 1 @ [0]) ! 8)" "drop 8 (ws ! 1 @ [0]) = drop 8 (ws ! 1) @ [0]"
      by (simp_all add: cell_def)
    show "(ws ! 1 @ [0]) ! 8 = chr CHR ''$'' \<longleftrightarrow> take 1 (drop 8 (ws ! 1)) = [chr CHR ''$'']"
    proof (cases "length (ws ! 1) = 8")
      case True
      then show ?thesis by (simp add: nth_append chr_def)
    next
      case False
      with len have "8 < length (ws ! 1)" by simp
      then show ?thesis by (simp add: nth_append take_Suc hd_drop_conv_nth)
    qed
  qed
  show ?thesis
  proof (cases "ws ! 0 = ascii ''set'' \<and> c = 0")
    case False
    then show ?thesis using True has_words_argc [OF assms] st a(1) c by (auto simp: default_of_def)
  next
    case t: True
    then show ?thesis using True has_words_argc [OF assms] st a(1) c ch by (auto simp: default_of_def)
  qed
qed

lemma find_default_words:
  "list_all2 has_words cmds wss \<Longrightarrow> find_default cmds = Some (map_option (\<lambda>v. v @ [0]) (default_value wss))"
proof (induction rule: list_all2_induct)
  case (Cons cmd cmds ws wss)
  then show ?case using default_of_words [of cmd ws] by (auto split: if_splits)
qed simp

lemma default_value_nonzero:
  assumes "list_all words_ok wss" "default_value wss = Some v"
  shows "0 \<notin> set v"
  using assms
proof (induction wss)
  case (Cons ws wss)
  show ?case
  proof (cases "default_value [ws] = None")
    case True
    with Cons show ?thesis by (auto split: if_splits)
  next
    case False
    with Cons.prems have v: "v = drop 8 (ws ! 1)" "2 \<le> length ws" by (auto split: if_splits)
    then have "0 \<notin> set (ws ! 1)" using Cons.prems(1) by (auto simp: words_ok_def list_all_length)
    with v(1) show ?thesis using set_drop_subset [of 8 "ws ! 1"] by auto
  qed
qed simp

lemma menu_words_ok:
  "menu_ok m \<Longrightarrow> list_all words_ok (menu_words m)" "menus_ok ms \<Longrightarrow> list_all words_ok (menus_words ms)"
proof (induction m and ms rule: menu_words.induct menus_words.induct)
  case (Entry args body)
  have "list_all body_ok body \<Longrightarrow> list_all words_ok body" by (auto simp: list_all_iff body_ok_def ignored_def)
  moreover have "words_ok args \<Longrightarrow> words_ok (w_menuentry # args @ [w_open])" "words_ok [w_close]"
    by (simp_all add: words_ok_def word_defs)
  ultimately show ?case using Entry by simp
next
  case (Submenu args ms)
  moreover have "words_ok args \<Longrightarrow> words_ok (w_submenu # args @ [w_open])" "words_ok [w_close]"
    by (simp_all add: words_ok_def word_defs)
  ultimately show ?case by simp
qed (auto simp: ignored_def)

lemma top_words_ok: "top_ok ms \<Longrightarrow> list_all words_ok (menus_words ms)"
proof (induction ms)
  case (Cons m ms)
  have "words_ok [w_close]" by (simp add: words_ok_def word_defs)
  with Cons menu_words_ok(1) [of m] show ?case by (auto simp: top_ok_def)
qed simp

subsection \<open>The whole search\<close>

lemma tokens_set: "w \<in> set (tokens P xs) \<Longrightarrow> set w \<subseteq> set xs"
proof -
  have "set w \<subseteq> set xs" if "w \<in> set (pieces P xs)" for w
    using that
  proof (induction xs arbitrary: w)
    case (Cons x xs)
    obtain p ps where "pieces P xs = p # ps" by (cases "pieces P xs") auto
    with Cons show ?case by (force split: if_splits)
  qed simp
  then show "w \<in> set (tokens P xs) \<Longrightarrow> set w \<subseteq> set xs" by (simp add: tokens_def)
qed

lemma is_delim_gt: "is_delim (ascii ''>'' @ [0]) = (\<lambda>c. c = chr CHR ''>'')"
  by (rule ext) (auto simp: is_delim_def cstr_def chr_def)

definition default_fits :: "menu list \<Rightarrow> bool" where
  "default_fits ms \<longleftrightarrow> (case default_value (menus_words ms) of None \<Rightarrow> True | Some v \<Rightarrow> length v < 2 ^ 28)"

lemma split_default:
  assumes "top_ok ms" "default_fits ms" "heap_ok h"
  shows "\<exists>arr h'. StrSplit h (Some (case map_option (\<lambda>v. v @ [0]) (default_value (menus_words ms)) of Some d \<Rightarrow> d | None \<Rightarrow> ascii ''0'' @ [0]))
      (Some (ascii ''>'' @ [0])) strarr_init = Some (0, arr, h') \<and> default_parts arr (default_path ms)"
proof -
  let ?v = "case default_value (menus_words ms) of None \<Rightarrow> ascii ''0'' | Some v \<Rightarrow> v"
  have path: "default_path ms = tokens (\<lambda>c. c = chr CHR ''>'') ?v"
    by (cases "default_value (menus_words ms)") (simp_all add: default_path_def tokens_def chr_def)
  have v: "0 \<notin> set ?v" "length ?v < 2 ^ 28"
    using default_value_nonzero [OF top_words_ok [OF assms(1)]] assms(2)
    by (auto simp: default_fits_def split: option.splits)
  from StrSplit_spec [OF strarr_inv_init v, of h "[]" "ascii ''>'' @ [0]"] assms(3) obtain arr h' where
    a: "StrSplit h (Some (?v @ [0])) (Some (ascii ''>'' @ [0])) strarr_init = Some (0, arr, h')" "strarr_inv arr"
      "strarr_elems arr = map string_of (default_path ms)" unfolding path is_delim_gt by auto
  have "length (strarr_elems arr) = sa_size arr" using a(2) by (simp add: strarr_elems_def strarr_inv_def)
  moreover have "list_all (\<lambda>d. 0 \<notin> set d) (default_path ms)"
    using v(1) tokens_set [of _ "\<lambda>c. c = chr CHR ''>''" ?v] unfolding path list_all_iff by blast
  ultimately have "default_parts arr (default_path ms)" using a(2,3) by (simp add: default_parts_def)
  moreover have "(case map_option (\<lambda>v. v @ [0]) (default_value (menus_words ms)) of Some d \<Rightarrow> d | None \<Rightarrow> ascii ''0'' @ [0]) = ?v @ [0]"
    by (simp split: option.split)
  ultimately show ?thesis using a(1) by auto
qed

lemma path_buf_zero: "length m = PATH_MAX \<Longrightarrow> path_buf (overwrite 0 [0] m) []"
  by (auto simp: path_buf_def overwrite_def PATH_MAX_def)

lemma initial_rel:
  assumes "length m = PATH_MAX"
  shows "resolver_rel \<lparr>rs_stack = empty_stack, rs_top = 0, rs_matched = m, rs_title = t, rs_path = p\<rparr> [] 0"
proof -
  have "replicate PATH_MAX 0 = (0 :: byte) # replicate (PATH_MAX - 1) 0" by (simp add: PATH_MAX_def flip: replicate_Suc)
  then have "path_buf (replicate PATH_MAX 0) []" unfolding path_buf_def by (metis append_Nil empty_iff length_replicate list.set(1))
  with assms show ?thesis by (auto simp: resolver_rel_def empty_stack_def)
qed

lemma ResolveInitrd_spec:
  assumes cmds: "list_all2 has_words cmds (menus_words ms)" "cmds \<noteq> []" and ok: "top_ok ms" "menus_depth ms \<le> STACK_SIZE" "length ms < 2 ^ 64"
    and dv: "default_fits ms" "default_path ms \<noteq> []" and h: "heap_ok h"
    and len: "length m = PATH_MAX" "length t = PATH_MAX" "length p = PATH_MAX"
  shows "\<exists>m' t' p' h'. ResolveInitrd h (Some cmds) (length cmds) m t p = Some (0, m', t', p', h') \<and>
    (case boot_entry ms of
       Some (title, initrd) \<Rightarrow> path_buf t' title \<and> path_buf p' initrd
     | None \<Rightarrow> t' = t \<and> path_buf p' [])"
proof -
  let ?p = "overwrite 0 [0] p"
  let ?s = "\<lparr>rs_stack = empty_stack, rs_top = 0, rs_matched = m, rs_title = t, rs_path = ?p\<rparr>"
  let ?hd = "default_value (menus_words ms) \<noteq> None"
  have p: "store 0 [0] p = Some ?p" "length ?p = PATH_MAX" using len by (simp_all add: store_def PATH_MAX_def)
  from split_default [OF ok(1) dv(1) h] obtain arr h1 where
    arr: "StrSplit h (Some (case map_option (\<lambda>v. v @ [0]) (default_value (menus_words ms)) of Some d \<Rightarrow> d | None \<Rightarrow> ascii ''0'' @ [0]))
      (Some (ascii ''>'' @ [0])) strarr_init = Some (0, arr, h1)" "default_parts arr (default_path ms)" by blast
  have sz: "\<not> sa_size arr < 1" and rel: "StrArrRelease arr = Some strarr_init"
    using arr(2) dv(2) by (auto simp: default_parts_def StrArrRelease_inv less_Suc_eq)
  have "scans arr ?hd cmds [] ?s (within ?hd (default_path ms) [] (\<lambda>ds. select ?hd ds 0 ms)) (\<lambda>s'. \<exists>k. resolver_rel s' [] k)"
    using ok len p by (intro top_scan [OF arr(2) initial_rel [OF len(1)] cmds(1)]) simp_all
  moreover have "within ?hd (default_path ms) [] (\<lambda>ds. select ?hd ds 0 ms) = boot_entry ms"
    by (simp add: within_def chain_named_def boot_entry_def)
  ultimately have scan: "scans arr ?hd cmds [] ?s (boot_entry ms) (\<lambda>s'. \<exists>k. resolver_rel s' [] k)" by simp
  have res: "ResolveInitrd h (Some cmds) (length cmds) m t p =
      do {
        (r, s) \<leftarrow> resolve_loop arr ?hd cmds ?s;
        Some (if r = Overflow then -1 else 0, rs_matched s, rs_title s, rs_path s, h1)
      }"
    using p(1) cmds(2) find_default_words [OF cmds(1)] arr(1) sz rel
    by (simp add: ResolveInitrd_def load_def slice_def)
  show ?thesis
  proof (cases "boot_entry ms")
    case None
    with scan obtain s' where "resolve_loop arr ?hd cmds ?s = Some (Continue, s')" "same_out ?s s'" by (auto simp: scans_def)
    with None res path_buf_zero [OF len(3)] show ?thesis by (simp add: same_out_def)
  next
    case (Some tp)
    with scan res show ?thesis by (cases tp) (auto simp: scans_def)
  qed
qed

section \<open>Claims\<close>

text \<open>
  C23: \<open>GRUBCfgFindInitrd\<close> finds the ramdisk of the entry that GRUB boots: for every text of commands that
  end with a semicolon or a newline and describe a tree of menus of depth at most 16, with titles and ramdisk paths
  below \<open>PATH_MAX\<close>, with a default value that is not empty, and with any other commands, and blocks of shell functions
  in the top menu, between them, it returns 0 with the title and the ramdisk of the entry that the parts of
  the default value lead to from the top menu, by number, title or identifier; when they lead to no
  entry it still returns 0, with an empty path.
\<close>

theorem GRUBCfgFindInitrd_boot_entry:
  assumes src: "source_ok cs" "map snd (meaning 1 cs) = menus_words ms" "menus_words ms \<noteq> []" "length (source_text cs) < 2 ^ 32 - 1"
    and ok: "top_ok ms" "menus_depth ms \<le> STACK_SIZE" "length ms < 2 ^ 64" "default_fits ms" "default_path ms \<noteq> []"
    and h: "heap_ok h" and len: "length m = PATH_MAX" "length t = PATH_MAX" "length p = PATH_MAX"
  shows "\<exists>m' t' p' h'. GRUBCfgFindInitrd h (Some (source_text cs)) (length (source_text cs)) (Some m) (Some t) (Some p) =
      Some (0, Some m', Some t', Some p', h') \<and>
    (case boot_entry ms of
       Some (title, initrd) \<Rightarrow> cstr t' = title \<and> cstr p' = initrd
     | None \<Rightarrow> cstr t' = [] \<and> cstr p' = [])"
proof -
  let ?src = "source_text cs" and ?m = "overwrite 0 [0] m" and ?t = "overwrite 0 [0] t"
  from h obtain x where x: "h 0 = Some x" "heap_ok (heap_next h)" using heap_ok_0 heap_ok_next by blast
  from Parse_reads_back [OF src(1) x(2)] obtain cmds h1 where
    parse: "Parse (heap_next h) (?src @ [0]) = Some (0, if cmds = [] then None else Some cmds, length cmds, h1)"
      "list_all2 command_rel cmds (meaning 1 cs)" "heap_ok h1" by blast
  have len': "length cmds = length (menus_words ms)"
    using list_all2_lengthD [OF parse(2)] src(2) by (metis length_map)
  then have ne: "cmds \<noteq> []" using src(3) by auto
  have words: "list_all2 has_words cmds (menus_words ms)"
  proof (rule list_all2_all_nthI [OF len'])
    fix n assume n: "n < length cmds"
    then have "command_rel (cmds ! n) (meaning 1 cs ! n)" "snd (meaning 1 cs ! n) = menus_words ms ! n"
      using parse(2) src(2) len' by (auto simp: list_all2_conv_all_nth) (metis nth_map)
    moreover have "words_ok (menus_words ms ! n)" using top_words_ok [OF ok(1)] n len' by (auto simp: list_all_length)
    ultimately show "has_words (cmds ! n) (menus_words ms ! n)" unfolding has_words_def by (metis prod.collapse)
  qed
  have buf: "store 0 [0] m = Some ?m" "length ?m = PATH_MAX" "store 0 [0] t = Some ?t" "length ?t = PATH_MAX"
    using len by (simp_all add: store_def PATH_MAX_def)
  from ResolveInitrd_spec [OF words ne ok(1-5) parse(3) buf(2,4) len(3)] obtain m' t' p' h2 where
    res: "ResolveInitrd h1 (Some cmds) (length cmds) ?m ?t p = Some (0, m', t', p', h2)"
      "case boot_entry ms of Some (title, initrd) \<Rightarrow> path_buf t' title \<and> path_buf p' initrd | None \<Rightarrow> t' = ?t \<and> path_buf p' []"
    by blast
  have rel: "ReleaseCommands (Some cmds) (length cmds) = Some ()"
    using release_commands_ok [OF parse(2)] by (simp add: ReleaseCommands_def load_def slice_def)
  have blk: "Malloc h (u64 (length ?src + 1)) = (Some (replicate (length ?src + 1) x), heap_next h)"
    using src(4) x(1) by (simp add: Malloc_def)
  have rep: "replicate (length ?src + 1) x = replicate (length ?src) x @ [x]" by (simp add: replicate_append_same)
  have copy: "store 0 ?src (replicate (length ?src + 1) x) = Some (?src @ [x])" "store (length ?src) [0] (?src @ [x]) = Some (?src @ [0])"
    unfolding rep by (simp_all add: store_def overwrite_def)
  have "GRUBCfgFindInitrd h (Some ?src) (length ?src) (Some m) (Some t) (Some p) = Some (0, Some m', Some t', Some p', h2)"
    using buf blk copy parse(1) ne res(1) rel by (simp add: GRUBCfgFindInitrd_def clear_string_def load_def slice_def)
  moreover have "cstr ?t = []" using path_buf_cstr [OF path_buf_zero [OF len(2)]] .
  ultimately show ?thesis using res(2) path_buf_cstr by (auto split: option.splits)
qed

definition example_cfg :: bytes where
  "example_cfg = ascii ''set default=1'' @ [10] @ ascii (''function f '' @ [CHR 0x7B]) @ [10] @ ascii '' x;y'' @ [10] @ ascii [CHR 0x7D] @ [10] @
     ascii (''menuentry A '' @ [CHR 0x7B]) @ [10] @ ascii [CHR 0x7D] @ [10] @
     ascii (''menuentry B '' @ [CHR 0x7B]) @ [10] @ ascii '' initrd /i'' @ [10] @ ascii [CHR 0x7D] @ [10]"

theorem GRUBCfgFindInitrd_boot_entry_witness:
  "\<exists>m' t' p' h'. GRUBCfgFindInitrd (\<lambda>_. Some 7) (Some example_cfg) (length example_cfg)
      (Some (replicate 256 1)) (Some (replicate 256 1)) (Some (replicate 256 1)) =
      Some (0, Some m', Some t', Some p', h') \<and> cstr t' = ascii ''B'' \<and> cstr p' = ascii ''/i''"
proof -
  define wrd where "wrd w = ([Plain (ascii w)], [32 :: byte])" for w
  define lst where "lst w = ([Plain (ascii w)], [] :: bytes)" for w
  let ?cs = "[([], [wrd ''set'', lst ''default=1''], Newline []),
    ([], [wrd ''function'', wrd ''f'', lst [CHR 0x7B]], Newline []), ([32], [lst ''x''], Semicolon), ([], [lst ''y''], Newline []),
    ([], [lst [CHR 0x7D]], Newline []),
    ([], [wrd ''menuentry'', wrd ''A'', lst [CHR 0x7B]], Newline []), ([], [lst [CHR 0x7D]], Newline []),
    ([], [wrd ''menuentry'', wrd ''B'', lst [CHR 0x7B]], Newline []), ([32], [wrd ''initrd'', lst ''/i''], Newline []), ([], [lst [CHR 0x7D]], Newline [])]"
  let ?ms = "[Other [ascii ''set'', ascii ''default=1''], Other [ascii ''function'', ascii ''f'', ascii [CHR 0x7B]], Other [ascii ''x''], Other [ascii ''y''],
    Other [w_close], Entry [ascii ''A''] [], Entry [ascii ''B''] [[ascii ''initrd'', ascii ''/i'']]]"
  note simps = NL_def DQUOTE_def SQUOTE_def SEMICOLON_def BACKSLASH_def posix_isspace_def chr_def
  have wrd: "arg_value (wrd w) = ascii w" "arg_text (wrd w) = ascii w @ [32]" "snd (wrd w) = [32]"
      "arg_value (lst w) = ascii w" "arg_text (lst w) = ascii w" "snd (lst w) = []" for w
    by (simp_all add: wrd_def lst_def arg_value_def arg_text_def)
  have words: "arg_ok (wrd ''set'')" "arg_ok (lst ''default=1'')" "arg_ok (wrd ''menuentry'')" "arg_ok (wrd ''A'')" "arg_ok (wrd ''B'')"
    "arg_ok (lst [CHR 0x7B])" "arg_ok (lst [CHR 0x7D])" "arg_ok (wrd ''initrd'')" "arg_ok (lst ''/i'')" "arg_ok (wrd ''function'')"
    "arg_ok (wrd ''f'')" "arg_ok (lst ''x'')" "arg_ok (lst ''y'')"
    by (simp_all add: wrd_def lst_def arg_ok_def blanks_def plain_char_def simps)
  have "blanks [32]" by (simp add: blanks_def simps)
  then have src: "source_ok ?cs" using wrd words by (simp add: source_ok_def args_fit_def blanks_def)
  have text_cs: "source_text ?cs = example_cfg"
    using wrd words by (simp add: source_text_def example_cfg_def simps)
  have mean: "map snd (meaning 1 ?cs) = menus_words ?ms" using wrd words by (simp add: word_defs)
  have ok: "top_ok ?ms" by (simp add: top_ok_def words_ok_def ignored_def body_ok_def word_defs PATH_MAX_def)
  have dv: "default_value (menus_words ?ms) = Some (ascii ''1'')" by (simp add: chr_def)
  then have path: "default_path ?ms = [ascii ''1'']" by (simp add: default_path_def tokens_def chr_def)
  have dec: "decimal_text 0 = ascii ''0''" "decimal_text (Suc 0) = ascii ''1''"
    by (simp_all add: decimal_text_def rdigits.simps [of "Suc 0"] rdigits.simps [of 0] chr_def)
  have boot: "boot_entry ?ms = Some (ascii ''B'', ascii ''/i'')"
    unfolding boot_entry_def dv path by (simp add: names_def dec word_defs)
  have sizes: "menus_words ?ms \<noteq> []" "length (source_text ?cs) < 2 ^ 32 - 1" "menus_depth ?ms \<le> STACK_SIZE" "length ?ms < 2 ^ 64" "default_fits ?ms" "default_path ?ms \<noteq> []"
    using dv path unfolding text_cs by (simp_all add: STACK_SIZE_def default_fits_def example_cfg_def)
  have bufs: "length (replicate 256 (1 :: byte)) = PATH_MAX" "heap_ok (\<lambda>_. Some 7)" by (simp_all add: PATH_MAX_def heap_ok_def)
  from GRUBCfgFindInitrd_boot_entry [OF src mean sizes(1,2) ok sizes(3-6) bufs(2,1,1,1)]
  show ?thesis unfolding boot text_cs by simp
qed

end
