(* ===== verification/VfatTypes.thy ===== *)
theory VfatTypes
  imports Blkdev Buf Layout PathElements
begin

text \<open>
  The data of the FAT file system (\<open>lsvmutils/vfat.h\<close>), its File Allocation Table in memory, and
  the shape of its operations (\<open>lsvmutils/vfat.c\<close>).

  The structures on the disk are packed and therefore the bytes of their members (theory \<open>Layout\<close>).
  The object \<open>VFAT\<close> is the record \<open>vfat\<close>; the state of its device, the allocator and the contents of
  uninitialised arrays are part of it. Every function returns 0 or -1: an operation gives \<open>None\<close> where
  the code accesses memory out of bounds, divides by zero or does not return, and otherwise
  \<open>None\<close> for -1 or \<open>Some x\<close> for 0 with the outputs \<open>x\<close>, and the object afterwards.
\<close>

subsection \<open>Structures\<close>

definition VFAT_SECTOR_SIZE :: nat where
  "VFAT_SECTOR_SIZE = 512"

definition VFAT_PATH_SIZE :: nat where
  "VFAT_PATH_SIZE = 256"

text \<open>\<open>VFATBPB\<close> with the FAT32 member of its union, which is the largest.\<close>

definition bpb_layout :: layout where
  "bpb_layout =
     [(''jmpBoot'', 1, 3), (''OEMName'', 1, 8), (''BytsPerSec'', 2, 1), (''SecPerClus'', 1, 1), (''ResvdSecCnt'', 2, 1),
      (''NumFATs'', 1, 1), (''RootEntCnt'', 2, 1), (''TotSec16'', 2, 1), (''Media'', 1, 1), (''FATSz16'', 2, 1),
      (''SecPerTrk'', 2, 1), (''NumHeads'', 2, 1), (''HiddSec'', 4, 1), (''TotSec32'', 4, 1),
      (''FATSz32'', 4, 1), (''ExtFlags'', 2, 1), (''FSVer'', 2, 1), (''RootClus'', 4, 1), (''FSInfo'', 2, 1),
      (''BkBootSec'', 2, 1), (''Reserved0'', 1, 12), (''DrvNum'', 1, 1), (''Reserved1'', 1, 1), (''BootSig'', 1, 1),
      (''VolID'', 4, 1), (''VolLab'', 1, 11), (''FilSysType'', 1, 8), (''padding'', 1, 422)]"

definition fsinfo_layout :: layout where
  "fsinfo_layout =
     [(''LeadSig'', 4, 1), (''Reserved1'', 1, 480), (''StrucSig'', 4, 1), (''Free_Count'', 4, 1), (''Nxt_Free'', 4, 1),
      (''Reserved2'', 1, 12), (''TrailSig'', 4, 1)]"

definition vfat_dirent_layout :: layout where
  "vfat_dirent_layout =
     [(''name'', 1, 11), (''attr'', 1, 1), (''res'', 1, 1), (''crtTimeTenth'', 1, 1), (''crtTime'', 2, 1), (''crtDate'', 2, 1),
      (''lstAccDate'', 2, 1), (''fstClusHI'', 2, 1), (''wrtTime'', 2, 1), (''wrtDate'', 2, 1), (''fstClusLO'', 2, 1), (''fileSize'', 4, 1)]"

lemma vfat_struct_sizes [layout_simps]:
  "struct_size bpb_layout = 512" "struct_size fsinfo_layout = 512" "struct_size vfat_dirent_layout = 32"
  by (simp_all add: struct_size_def bpb_layout_def fsinfo_layout_def vfat_dirent_layout_def)

definition bpb :: "string \<Rightarrow> bytes \<Rightarrow> nat" where
  "bpb = get_field bpb_layout"

definition fsi :: "string \<Rightarrow> bytes \<Rightarrow> nat" where
  "fsi = get_field fsinfo_layout"

definition de :: "string \<Rightarrow> bytes \<Rightarrow> nat" where
  "de = get_field vfat_dirent_layout"

definition ATTR_DIRECTORY :: nat where "ATTR_DIRECTORY = 0x10"
definition ATTR_ARCHIVE :: nat where "ATTR_ARCHIVE = 0x20"
definition ATTR_LONG_NAME :: nat where "ATTR_LONG_NAME = 0x0F"

datatype VFATType = FAT12 | FAT16 | FAT32

record 's vfat =
  vf_bpb :: bytes
  vf_fsi :: bytes
  vf_dev :: 's
  vf_RootDirSectors :: nat
  vf_DataSec :: nat
  vf_CountOfClusters :: nat
  vf_FirstDataSector :: nat
  vf_FirstRootDirSecNum :: nat
  vf_FATSz :: nat
  vf_TotSec :: nat
  vf_FATType :: VFATType
  vf_ClusterSize :: nat
  vf_fat :: buf
  vf_rootdir :: buf
  vf_rootdirClustno :: nat
  vf_heap :: heap
  vf_junk :: "nat \<Rightarrow> byte"

subsection \<open>Operations\<close>

type_synonym ('s, 'a) vfat_op = "'s vfat \<Rightarrow> ('a option \<times> 's vfat) option"

definition vf_ok :: "'a \<Rightarrow> ('s, 'a) vfat_op" where
  "vf_ok x = (\<lambda>v. Some (Some x, v))"

definition vf_fail :: "('s, 'a) vfat_op" where
  "vf_fail = (\<lambda>v. Some (None, v))"

definition vf_then :: "('s, 'a) vfat_op \<Rightarrow> ('a \<Rightarrow> ('s, 'b) vfat_op) \<Rightarrow> ('s, 'b) vfat_op" where
  "vf_then m f = (\<lambda>v. case m v of
       None \<Rightarrow> None
     | Some (None, v') \<Rightarrow> Some (None, v')
     | Some (Some x, v') \<Rightarrow> f x v')"

definition vf_reads :: "('s vfat \<Rightarrow> 'a) \<Rightarrow> ('s, 'a) vfat_op" where
  "vf_reads f = (\<lambda>v. Some (Some (f v), v))"

definition vf_updates :: "('s vfat \<Rightarrow> 's vfat) \<Rightarrow> ('s, unit) vfat_op" where
  "vf_updates f = (\<lambda>v. Some (Some (), f v))"

text \<open>A memory access or a division, which may be undefined.\<close>

definition vf_access :: "('s vfat \<Rightarrow> 'a option) \<Rightarrow> ('s, 'a) vfat_op" where
  "vf_access f = (\<lambda>v. map_option (\<lambda>x. (Some x, v)) (f v))"

definition vf_require :: "bool \<Rightarrow> ('s, unit) vfat_op" where
  "vf_require b = (if b then vf_ok () else vf_fail)"

text \<open>The result of a call as a value: \<open>None\<close> for -1.\<close>

definition vf_try :: "('s, 'a) vfat_op \<Rightarrow> ('s, 'a option) vfat_op" where
  "vf_try m = (\<lambda>v. map_option (\<lambda>(r, v'). (Some r, v')) (m v))"

text \<open>Calls that use the allocator.\<close>

definition vf_alloc :: "(heap \<Rightarrow> (int \<times> 'a \<times> heap) option) \<Rightarrow> ('s, 'a) vfat_op" where
  "vf_alloc f = (\<lambda>v. case f (vf_heap v) of
       None \<Rightarrow> None
     | Some (rc, x, h) \<Rightarrow> Some (if rc \<noteq> 0 then None else Some x, v\<lparr>vf_heap := h\<rparr>))"

text \<open>Running a sequence of calls whose results are known.\<close>

lemma vf_then_step: "m v = Some (Some x, v') \<Longrightarrow> vf_then m f v = f x v'"
  by (simp add: vf_then_def)

named_theorems vf_steps

lemma vf_then_simps [vf_steps]:
  "vf_then (vf_ok x) f v = f x v" "vf_then vf_fail f v = Some (None, v)" "vf_then (vf_reads g) f v = f (g v) v"
  "vf_then (vf_updates u) k v = k () (u v)" "b \<Longrightarrow> vf_then (vf_require b) k v = k () v"
  "a v = Some y \<Longrightarrow> vf_then (vf_access a) f v = f y v"
  by (simp_all add: vf_then_def vf_ok_def vf_fail_def vf_reads_def vf_updates_def vf_require_def vf_access_def)

lemma vf_then_assoc [vf_steps]: "vf_then (vf_then m f) g = vf_then m (\<lambda>x. vf_then (f x) g)"
  by (auto simp: vf_then_def fun_eq_iff split: option.split)

definition dev_read :: "'s blkdev \<Rightarrow> nat \<Rightarrow> nat \<Rightarrow> ('s, bytes) vfat_op" where
  "dev_read D sect sz = (\<lambda>v. case BlkdevRead D (vf_dev v) sect sz of
       None \<Rightarrow> None
     | Some (rc, d, s) \<Rightarrow> Some (if rc \<noteq> 0 then None else Some d, v\<lparr>vf_dev := s\<rparr>))"

definition dev_write :: "'s blkdev \<Rightarrow> nat \<Rightarrow> bytes \<Rightarrow> nat \<Rightarrow> ('s, unit) vfat_op" where
  "dev_write D sect data sz = (\<lambda>v. case BlkdevWrite D (vf_dev v) sect data sz of
       None \<Rightarrow> None
     | Some (rc, s) \<Rightarrow> Some (if rc \<noteq> 0 then None else Some (), v\<lparr>vf_dev := s\<rparr>))"

definition stack_array :: "nat \<Rightarrow> 's vfat \<Rightarrow> bytes" where
  "stack_array n v = map (vf_junk v) [0..<n]"

text \<open>Unsigned 32-bit subtraction, and division.\<close>

definition usub32 :: "nat \<Rightarrow> nat \<Rightarrow> nat" where
  "usub32 a b = u32 (a + 2 ^ 32 - u32 b)"

definition udiv :: "nat \<Rightarrow> nat \<Rightarrow> nat option" where
  "udiv a b = (if b = 0 then None else Some (a div b))"

subsection \<open>The File Allocation Table\<close>

definition fat_type :: "nat \<Rightarrow> VFATType" where
  "fat_type CountOfClusters =
     (if CountOfClusters < 4085 then FAT12 else if CountOfClusters < 65525 then FAT16 else FAT32)"

definition bpb_FATSz :: "bytes \<Rightarrow> nat" where
  "bpb_FATSz b = (if bpb ''FATSz16'' b \<noteq> 0 then bpb ''FATSz16'' b else bpb ''FATSz32'' b)"

definition bpb_TotSec :: "bytes \<Rightarrow> nat" where
  "bpb_TotSec b = (if bpb ''TotSec16'' b \<noteq> 0 then bpb ''TotSec16'' b else bpb ''TotSec32'' b)"

definition bpb_RootDirSectors :: "bytes \<Rightarrow> nat option" where
  "bpb_RootDirSectors b = udiv (bpb ''RootEntCnt'' b * 32 + (bpb ''BytsPerSec'' b - 1)) (bpb ''BytsPerSec'' b)"

definition bpb_DataSec :: "bytes \<Rightarrow> nat \<Rightarrow> nat" where
  "bpb_DataSec b RootDirSectors =
     usub32 (bpb_TotSec b) (bpb ''ResvdSecCnt'' b + bpb ''NumFATs'' b * bpb_FATSz b + RootDirSectors)"

definition GetFATType :: "bytes \<Rightarrow> VFATType option" where
  "GetFATType b =
     do {
       RootDirSectors \<leftarrow> bpb_RootDirSectors b;
       CountOfClusters \<leftarrow> udiv (bpb_DataSec b RootDirSectors) (bpb ''SecPerClus'' b);
       Some (fat_type CountOfClusters)
     }"

definition FirstSectorOfCluster :: "'s vfat \<Rightarrow> nat \<Rightarrow> nat" where
  "FirstSectorOfCluster v n = u32 (usub32 n 2 * bpb ''SecPerClus'' (vf_bpb v) + vf_FirstDataSector v)"

definition GetFATOffset :: "'s vfat \<Rightarrow> nat \<Rightarrow> nat" where
  "GetFATOffset v clustno =
     (case vf_FATType v of
        FAT12 \<Rightarrow> u32 (clustno + clustno div 2)
      | FAT16 \<Rightarrow> u32 (clustno * 2)
      | FAT32 \<Rightarrow> u32 (clustno * 4))"

text \<open>
  Entries are read and written as little-endian integers at their offset; masks and shifts are
  written as \<open>div\<close> and \<open>mod\<close>, and the union of disjoint bits as a sum.
\<close>

definition GetFATEntry :: "'s vfat \<Rightarrow> nat \<Rightarrow> nat option" where
  "GetFATEntry v clustno =
     (let offset = GetFATOffset v clustno
      in case vf_FATType v of
           FAT12 \<Rightarrow>
             do {
               d \<leftarrow> load offset 2 (buf_data (vf_fat v));
               Some (if odd clustno then le_nat d div 16 else le_nat d mod 4096)
             }
         | FAT16 \<Rightarrow> do { d \<leftarrow> load offset 2 (buf_data (vf_fat v)); Some (le_nat d) }
         | FAT32 \<Rightarrow> do { d \<leftarrow> load offset 4 (buf_data (vf_fat v)); Some (le_nat d mod 2 ^ 28) })"

definition put_fat :: "nat \<Rightarrow> bytes \<Rightarrow> 's vfat \<Rightarrow> 's vfat option" where
  "put_fat offset d v =
     do {
       m \<leftarrow> store offset d (buf_data (vf_fat v));
       Some (v\<lparr>vf_fat := (vf_fat v)\<lparr>buf_data := m\<rparr>\<rparr>)
     }"

definition SetFATEntry :: "'s vfat \<Rightarrow> nat \<Rightarrow> nat \<Rightarrow> 's vfat option" where
  "SetFATEntry v clustno x =
     (let offset = GetFATOffset v clustno
      in case vf_FATType v of
           FAT12 \<Rightarrow>
             do {
               d \<leftarrow> load offset 2 (buf_data (vf_fat v));
               let r = le_nat d;
               put_fat offset (nat_le 2 (if odd clustno then r mod 16 + u32 (x * 16) else r div 4096 * 4096 + x mod 4096)) v
             }
         | FAT16 \<Rightarrow> put_fat offset (nat_le 2 x) v
         | FAT32 \<Rightarrow>
             do {
               d \<leftarrow> load offset 4 (buf_data (vf_fat v));
               put_fat offset (nat_le 4 (le_nat d div 2 ^ 28 * 2 ^ 28 + x mod 2 ^ 28)) v
             })"

definition GetEOC :: "'s vfat \<Rightarrow> nat" where
  "GetEOC v = (case vf_FATType v of FAT12 \<Rightarrow> 0x0FF8 | FAT16 \<Rightarrow> 0x0FF8 | FAT32 \<Rightarrow> 0x0FFFFFF8)"

definition IsEOF :: "'s vfat \<Rightarrow> nat \<Rightarrow> bool" where
  "IsEOF v x \<longleftrightarrow> (case vf_FATType v of FAT12 \<Rightarrow> x \<ge> 0x0FF8 | FAT16 \<Rightarrow> x \<ge> 0xFFF8 | FAT32 \<Rightarrow> x \<ge> 0x0FFFFFF8)"

end
