(* ===== verification/Vfat.thy ===== *)
theory Vfat
  imports VfatTypes
begin

text \<open>
  The functions of \<open>lsvmutils/vfat.c\<close>: clusters and chains, short names, directory search, opening,
  and reading and writing of files and directories. A loop along a chain of the table does not end
  when the chain is a cycle: these loops are partial functions.
\<close>

subsection \<open>Clusters\<close>

text \<open>The cluster is read behind the contents of the buffer.\<close>

definition ReadCluster :: "'s blkdev \<Rightarrow> nat \<Rightarrow> buf \<Rightarrow> ('s, buf) vfat_op" where
  "ReadCluster D clustno b =
     vf_then (vf_reads vf_ClusterSize) (\<lambda>csize.
     vf_then (vf_alloc (\<lambda>h. Some (BufReserve h b (u64 (buf_size b + csize))))) (\<lambda>b1.
     vf_then (vf_reads (\<lambda>v. FirstSectorOfCluster v clustno)) (\<lambda>sectno.
     vf_then (dev_read D sectno csize) (\<lambda>d.
     vf_then (vf_access (\<lambda>v. store (buf_size b1) d (buf_data b1))) (\<lambda>m.
     vf_ok (b1\<lparr>buf_data := m, buf_size := u64 (buf_size b1 + csize)\<rparr>))))))"

partial_function (option) ReadClusters :: "'s blkdev \<Rightarrow> nat \<Rightarrow> buf \<Rightarrow> 's vfat \<Rightarrow> (buf option \<times> 's vfat) option" where
  "ReadClusters D clustno b v =
     (if clustno \<noteq> 0 \<and> \<not> IsEOF v clustno then
        do {
          (r, v1) \<leftarrow> ReadCluster D clustno b v;
          (case r of
             None \<Rightarrow> Some (None, v1)
           | Some b1 \<Rightarrow> do { next \<leftarrow> GetFATEntry v1 clustno; ReadClusters D next b1 v1 })
        }
      else Some (Some b, v))"

definition WriteCluster :: "'s blkdev \<Rightarrow> nat \<Rightarrow> bytes \<Rightarrow> ('s, unit) vfat_op" where
  "WriteCluster D clustno data =
     vf_then (vf_reads (\<lambda>v. (FirstSectorOfCluster v clustno, vf_ClusterSize v))) (\<lambda>(sectno, csize).
     dev_write D sectno data csize)"

text \<open>
  The loop of \<open>WriteClusters\<close>, with the data that is left as the result. What is left of the data may
  be less than a cluster: then a cleared cluster with it is written and the loop is left.
\<close>

definition write_last :: "'s blkdev \<Rightarrow> nat \<Rightarrow> bytes \<Rightarrow> ('s, bytes) vfat_op" where
  "write_last D clustno ptr =
     vf_then (vf_reads vf_ClusterSize) (\<lambda>csize.
     vf_then (vf_alloc (\<lambda>h. case Calloc h 1 csize of (None, h') \<Rightarrow> Some (-1, [], h') | (Some c, h') \<Rightarrow> Some (0, c, h'))) (\<lambda>cluster.
     vf_then (vf_access (\<lambda>v. store 0 ptr cluster)) (\<lambda>cluster.
     vf_then (WriteCluster D clustno cluster) (\<lambda>_.
     vf_ok []))))"

partial_function (option) write_clusters :: "'s blkdev \<Rightarrow> nat \<Rightarrow> bytes \<Rightarrow> 's vfat \<Rightarrow> (bytes option \<times> 's vfat) option" where
  "write_clusters D clustno ptr v =
     (if clustno \<noteq> 0 \<and> \<not> IsEOF v clustno then
        (if length ptr < vf_ClusterSize v then write_last D clustno ptr v
         else
           do {
             (r, v1) \<leftarrow> WriteCluster D clustno (take (vf_ClusterSize v) ptr) v;
             (case r of
                None \<Rightarrow> Some (None, v1)
              | Some _ \<Rightarrow> do { next \<leftarrow> GetFATEntry v1 clustno; write_clusters D next (drop (vf_ClusterSize v) ptr) v1 })
           })
      else Some (Some ptr, v))"

definition WriteClusters :: "'s blkdev \<Rightarrow> nat \<Rightarrow> bytes \<Rightarrow> nat \<Rightarrow> ('s, unit) vfat_op" where
  "WriteClusters D clustno data sz =
     vf_then (vf_access (\<lambda>v. load 0 sz data)) (\<lambda>ptr.
     vf_then (write_clusters D clustno ptr) (\<lambda>rest.
     vf_require (rest = [])))"

subsection \<open>Short names\<close>

text \<open>The twelve characters with the terminator; the inner \<open>None\<close> is a name that is too long.\<close>

definition InternShortname :: "bytes \<Rightarrow> bytes option option" where
  "InternShortname shortname =
     do {
       dot \<leftarrow> posix_strchr shortname (chr CHR ''.'');
       (case dot of
          Some n1 \<Rightarrow>
            do {
              n2 \<leftarrow> posix_strlen (drop (n1 + 1) shortname);
              if n1 > 8 \<or> n2 > 3 then Some None
              else
                Some (Some (map posix_toupper
                  (take n1 shortname @ replicate (8 - n1) (chr CHR '' '') @
                   take n2 (drop (n1 + 1) shortname) @ replicate (3 - n2) (chr CHR '' '')) @ [0]))
            }
        | None \<Rightarrow>
            do {
              n \<leftarrow> posix_strlen shortname;
              if n > 11 then Some None
              else Some (Some (map posix_toupper (take n shortname @ replicate (11 - n) (chr CHR '' '')) @ [0]))
            })
     }"

definition ExternShortname :: "bytes \<Rightarrow> bytes" where
  "ExternShortname name =
     (let stem = filter (\<lambda>c. c \<noteq> chr CHR '' '') (take 8 name);
          ext = filter (\<lambda>c. c \<noteq> chr CHR '' '') (slice 8 3 name)
      in stem @ (if ext \<noteq> [] then chr CHR ''.'' # ext else []) @ [0])"

subsection \<open>Directories\<close>

text \<open>
  The search: entry \<open>i\<close> of the memory at \<open>directoryData\<close>. The first byte of the entry is read before
  the test against the size; the inner \<open>None\<close> is that the name is not found.
\<close>

function find_dirent :: "bytes \<Rightarrow> bytes \<Rightarrow> nat \<Rightarrow> nat \<Rightarrow> bytes option option" where
  "find_dirent name directoryData directorySize i =
     (case load (32 * i) 1 directoryData of
        None \<Rightarrow> None
      | Some c \<Rightarrow>
          if hd c = 0 then Some None
          else if 32 * i \<ge> directorySize then Some None
          else if hd c = 0xE5 then find_dirent name directoryData directorySize (Suc i)
          else
            (case load (32 * i + 11) 1 directoryData of
               None \<Rightarrow> None
             | Some a \<Rightarrow>
                 if unat (hd a) = ATTR_LONG_NAME then find_dirent name directoryData directorySize (Suc i)
                 else
                   (case load (32 * i) 11 directoryData of
                      None \<Rightarrow> None
                    | Some n \<Rightarrow>
                        if n = take 11 name then map_option Some (load (32 * i) 32 directoryData)
                        else find_dirent name directoryData directorySize (Suc i))))"
  by pat_completeness auto
termination
  by (relation "measure (\<lambda>(name, directoryData, directorySize, i). length directoryData - 32 * i)")
    (auto simp: load_def split: if_splits)

declare find_dirent.simps [simp del]

definition FindDirectoryEntry :: "bytes \<Rightarrow> bytes \<Rightarrow> nat \<Rightarrow> bytes option option" where
  "FindDirectoryEntry shortname directoryData directorySize =
     (if directoryData = [] then Some None
      else
        do {
          c1 \<leftarrow> posix_strcmp shortname (ascii ''.'' @ [0]);
          c2 \<leftarrow> posix_strcmp shortname (ascii ''..'' @ [0]);
          name \<leftarrow> (if c1 = 0 then Some (Some (ascii ''.          '' @ [0]))
                  else if c2 = 0 then Some (Some (ascii ''..         '' @ [0]))
                  else InternShortname shortname);
          (case name of
             None \<Rightarrow> Some None
           | Some name \<Rightarrow> find_dirent name directoryData directorySize 0)
        })"

definition dirent_cluster :: "bytes \<Rightarrow> nat" where
  "dirent_cluster ent = de ''fstClusHI'' ent * 65536 + de ''fstClusLO'' ent"

text \<open>\<open>FindDirectoryEntry\<close> in a call: -1 when the entry is not found.\<close>

definition find_in :: "bytes \<Rightarrow> buf \<Rightarrow> ('s, bytes) vfat_op" where
  "find_in name b =
     vf_then (vf_access (\<lambda>v. FindDirectoryEntry name (buf_data b) (buf_size b))) (\<lambda>r.
     case r of None \<Rightarrow> vf_fail | Some ent \<Rightarrow> vf_ok ent)"

text \<open>The loop along the components: component \<open>i\<close>, and the cluster of the directory it is in.\<close>

fun stat_walk :: "'s blkdev \<Rightarrow> bytes list \<Rightarrow> nat \<Rightarrow> nat \<Rightarrow> ('s, bytes) vfat_op" where
  "stat_walk D [] i clustno = vf_fail"
| "stat_walk D (name # rest) i clustno =
     vf_then (vf_access (\<lambda>v. posix_strcmp name (ascii ''/'' @ [0]))) (\<lambda>c.
     if c = 0 then stat_walk D rest (i + 1) clustno
     else
       vf_then
         (if i = 1 then vf_then (vf_reads vf_rootdir) (find_in name)
          else vf_then (ReadClusters D clustno BufInit) (find_in name)) (\<lambda>ent.
       if rest = [] then vf_ok ent else stat_walk D rest (i + 1) (dirent_cluster ent)))"

definition VFATStatFile :: "'s blkdev \<Rightarrow> bytes \<Rightarrow> ('s, bytes) vfat_op" where
  "VFATStatFile D path =
     vf_then (vf_access (\<lambda>v. load 0 1 path)) (\<lambda>c.
     if hd c \<noteq> chr CHR ''/'' then vf_fail
     else
       vf_then (vf_reads (stack_array VFAT_PATH_SIZE)) (\<lambda>buf.
       vf_then (vf_access (\<lambda>v. Strlcpy buf path VFAT_PATH_SIZE)) (\<lambda>(n, buf).
       vf_then (vf_access (\<lambda>v. path_elements (Some buf) None [ascii ''/'' @ [0]])) (\<lambda>r.
       case r of None \<Rightarrow> vf_fail | Some elements \<Rightarrow> stat_walk D elements 0 0))))"

definition LoadFileFromDirectoryEntry :: "'s blkdev \<Rightarrow> bytes \<Rightarrow> buf \<Rightarrow> ('s, buf) vfat_op" where
  "LoadFileFromDirectoryEntry D ent b =
     vf_then (ReadClusters D (dirent_cluster ent) (snd (BufClear b))) (\<lambda>b1.
     if buf_size b1 < de ''fileSize'' ent then vf_fail
     else if odd (de ''attr'' ent div ATTR_DIRECTORY) then vf_ok b1
     else vf_ok (b1\<lparr>buf_size := de ''fileSize'' ent\<rparr>))"

text \<open>\<open>_LoadDir\<close>: the directory and its cluster; the result of \<open>BufAppend\<close> is ignored.\<close>

definition LoadDir :: "'s blkdev \<Rightarrow> bytes \<Rightarrow> ('s, buf \<times> nat) vfat_op" where
  "LoadDir D path =
     vf_then (vf_access (\<lambda>v. posix_strcmp path (ascii ''/'' @ [0]))) (\<lambda>c.
     if c = 0 then
       vf_then (vf_reads vf_rootdir) (\<lambda>root.
       vf_then (vf_alloc (\<lambda>h. map_option (\<lambda>(rc, b, h'). (0, b, h'))
         (BufAppend h BufInit (if buf_data root = [] then None else Some (buf_data root)) (buf_size root)))) (\<lambda>b.
       vf_then (vf_reads vf_rootdirClustno) (\<lambda>clustno.
       vf_ok (b, clustno))))
     else
       vf_then (VFATStatFile D path) (\<lambda>entry.
       if even (de ''attr'' entry div ATTR_DIRECTORY) then vf_fail
       else
         vf_then (LoadFileFromDirectoryEntry D entry BufInit) (\<lambda>b.
         vf_ok (b, dirent_cluster entry))))"

subsection \<open>Allocation\<close>

text \<open>The free entries in ascending order, until there are enough; results of \<open>BufU32Append\<close> are ignored.\<close>

function find_free :: "'s vfat \<Rightarrow> nat \<Rightarrow> nat \<Rightarrow> buf \<Rightarrow> heap \<Rightarrow> (buf \<times> heap) option" where
  "find_free v numClusters i b h =
     (if i < u32 (vf_CountOfClusters v + 2) \<and> buf_size b < numClusters then
        (case GetFATEntry v i of
           None \<Rightarrow> None
         | Some c \<Rightarrow>
             if c = 0 then
               (case BufU32Append h b (Some (nat_le 4 i)) 1 of
                  None \<Rightarrow> None
                | Some (rc, b', h') \<Rightarrow> find_free v numClusters (i + 1) b' h')
             else find_free v numClusters (i + 1) b h)
      else Some (b, h))"
  by pat_completeness auto
termination
  by (relation "measure (\<lambda>(v, numClusters, i, b, h). u32 (vf_CountOfClusters v + 2) - i)") auto

declare find_free.simps [simp del]

definition u32_array :: "buf \<Rightarrow> nat list option" where
  "u32_array b =
     do {
       d \<leftarrow> load 0 (4 * buf_size b) (buf_data b);
       Some (map (\<lambda>i. le_nat (slice (4 * i) 4 d)) [0..<buf_size b])
     }"

fun link_chain :: "nat list \<Rightarrow> 's vfat \<Rightarrow> 's vfat option" where
  "link_chain [] v = Some v"
| "link_chain (c # cs) v =
     do {
       v' \<leftarrow> SetFATEntry v c (case cs of [] \<Rightarrow> GetEOC v | d # _ \<Rightarrow> d);
       link_chain cs v'
     }"

definition AllocateFATChain :: "nat \<Rightarrow> ('s, nat) vfat_op" where
  "AllocateFATChain numClusters =
     (if numClusters = 0 then vf_ok 0
      else
        vf_then (\<lambda>v. case find_free v numClusters 2 BufInit (vf_heap v) of
            None \<Rightarrow> None
          | Some (b, h) \<Rightarrow> Some (Some b, v\<lparr>vf_heap := h\<rparr>)) (\<lambda>b.
        if buf_size b \<noteq> numClusters then vf_fail
        else
          vf_then (vf_access (\<lambda>v. u32_array b)) (\<lambda>cs v.
          map_option (\<lambda>v'. (Some (hd cs), v')) (link_chain cs v))))"

end
