(* ===== verification/VfatFat.thy ===== *)
theory VfatFat
  imports Vfat
begin

text \<open>
  The File Allocation Table as a map from cluster numbers to entries: reading what was written, for
  the three widths of an entry, and the chains that allocation builds.
\<close>

subsection \<open>Entries\<close>

definition entry_width :: "VFATType \<Rightarrow> nat" where
  "entry_width t = (case t of FAT12 \<Rightarrow> 2 | FAT16 \<Rightarrow> 2 | FAT32 \<Rightarrow> 4)"

definition entry_limit :: "VFATType \<Rightarrow> nat" where
  "entry_limit t = (case t of FAT12 \<Rightarrow> 4096 | FAT16 \<Rightarrow> 65536 | FAT32 \<Rightarrow> 2 ^ 28)"

text \<open>The entry of the cluster lies in the table, and its offset does not wrap around.\<close>

definition in_fat :: "'s vfat \<Rightarrow> nat \<Rightarrow> bool" where
  "in_fat v c \<longleftrightarrow> c < 2 ^ 30 \<and> GetFATOffset v c + entry_width (vf_FATType v) \<le> length (buf_data (vf_fat v))"

definition set_fat_data :: "bytes \<Rightarrow> 's vfat \<Rightarrow> 's vfat" where
  "set_fat_data m v = v\<lparr>vf_fat := (vf_fat v)\<lparr>buf_data := m\<rparr>\<rparr>"

lemma set_fat_data_simps [simp]:
  "buf_data (vf_fat (set_fat_data m v)) = m" "buf_size (vf_fat (set_fat_data m v)) = buf_size (vf_fat v)"
  "vf_FATType (set_fat_data m v) = vf_FATType v" "vf_CountOfClusters (set_fat_data m v) = vf_CountOfClusters v"
  "vf_dev (set_fat_data m v) = vf_dev v" "vf_heap (set_fat_data m v) = vf_heap v" "vf_bpb (set_fat_data m v) = vf_bpb v"
  "vf_ClusterSize (set_fat_data m v) = vf_ClusterSize v" "vf_FirstDataSector (set_fat_data m v) = vf_FirstDataSector v"
  "vf_rootdir (set_fat_data m v) = vf_rootdir v" "vf_rootdirClustno (set_fat_data m v) = vf_rootdirClustno v"
  "vf_FATSz (set_fat_data m v) = vf_FATSz v" "vf_RootDirSectors (set_fat_data m v) = vf_RootDirSectors v"
  "vf_FirstRootDirSecNum (set_fat_data m v) = vf_FirstRootDirSecNum v" "vf_junk (set_fat_data m v) = vf_junk v"
  "buf_cap (vf_fat (set_fat_data m v)) = buf_cap (vf_fat v)"
  "set_fat_data m' (set_fat_data m v) = set_fat_data m' v"
  "GetFATOffset (set_fat_data m v) = GetFATOffset v" "GetEOC (set_fat_data m v) = GetEOC v" "IsEOF (set_fat_data m v) = IsEOF v"
  by (simp_all add: set_fat_data_def GetFATOffset_def GetEOC_def IsEOF_def fun_eq_iff)

lemma offset_exact:
  assumes "c < 2 ^ 30"
  shows "GetFATOffset v c = (case vf_FATType v of FAT12 \<Rightarrow> c + c div 2 | FAT16 \<Rightarrow> c * 2 | FAT32 \<Rightarrow> c * 4)"
  using assms by (auto simp: GetFATOffset_def split: VFATType.split)

lemma le_nat_2: "le_nat [a, b] = unat a + 256 * unat b"
  by simp

lemma slice_2: "off + 2 \<le> length xs \<Longrightarrow> slice off 2 xs = [xs ! off, xs ! Suc off]"
  by (simp add: slice_def numeral_2_eq_2 take_Suc_conv_app_nth)

lemma nat_le_two: "nat_le 2 x = [of_nat x, of_nat (x div 256)]"
  by (simp add: numeral_2_eq_2)

lemma unat_of_nat_byte: "unat (of_nat x :: byte) = x mod 256"
  by (simp add: unat_of_nat)

text \<open>The arithmetic of two 12-bit entries in three bytes.\<close>

lemma digits_div: "b < m \<Longrightarrow> (a * m + b) div m = (a :: nat)" "b < m \<Longrightarrow> (a * m + b) mod m = (b :: nat)"
  by simp_all

lemma pack12_even:
  fixes b0 b1 b2 x :: nat
  assumes x: "x < 4096" and b: "b0 < 256" "b1 < 256"
  shows "(b0 + 256 * b1) div 4096 * 4096 + x mod 4096 < 65536" (is "?n < _")
    and "((b0 + 256 * b1) div 4096 * 4096 + x mod 4096) mod 4096 = x"
    and "(((b0 + 256 * b1) div 4096 * 4096 + x mod 4096) div 256 + 256 * b2) div 16 = (b1 + 256 * b2) div 16"
proof -
  define q y z where "q = b1 div 16" and "y = x div 256" and "z = x mod 256"
  have q: "(b0 + 256 * b1) div 4096 = q" using b(1) by (simp add: q_def)
  have q16: "q < 16" using b(2) by (simp add: q_def)
  have x': "x = y * 256 + z" "z < 256" "y < 16" using x by (simp_all add: y_def z_def)
  have n: "(b0 + 256 * b1) div 4096 * 4096 + x mod 4096 = (q * 16 + y) * 256 + z"
    unfolding q using x x' by simp
  have "q * 16 + y \<le> 255" using q16 x'(3) by linarith
  then have "(q * 16 + y) * 256 \<le> 255 * 256" by (rule mult_right_mono) simp
  with x'(2) show "?n < 65536" unfolding n by linarith
  show "?n mod 4096 = x" using x unfolding q by simp
  have "?n div 256 = q * 16 + y" unfolding n by (rule digits_div) (rule x')
  then have "(?n div 256 + 256 * b2) div 16 = q + 16 * b2" using x' by simp
  also have "\<dots> = (b1 + 256 * b2) div 16" by (simp add: q_def)
  finally show "(?n div 256 + 256 * b2) div 16 = (b1 + 256 * b2) div 16" .
qed

lemma pack12_odd:
  fixes b0 b1 b2 x :: nat
  assumes x: "x < 4096" and b: "b1 < 256" "b2 < 256"
  shows "(b1 + 256 * b2) mod 16 + x * 16 < 65536" (is "?n < _")
    and "((b1 + 256 * b2) mod 16 + x * 16) div 16 = x"
    and "(b0 + 256 * (((b1 + 256 * b2) mod 16 + x * 16) mod 256)) mod 4096 = (b0 + 256 * b1) mod 4096"
proof -
  define s y z where "s = b1 mod 16" and "y = x div 16" and "z = x mod 16"
  have s: "(b1 + 256 * b2) mod 16 = s" by (simp add: s_def mod_add_eq [symmetric, of b1 "256 * b2"] mod_mult_left_eq [symmetric])
  have s16: "s < 16" by (simp add: s_def)
  have x': "x = y * 16 + z" "z < 16" by (simp_all add: y_def z_def)
  show "?n < 65536" unfolding s using x s16 by simp
  show "?n div 16 = x" unfolding s using s16 by simp
  have "z * 16 + s < 256" using s16 x'(2) by linarith
  then have "(y * 256 + (z * 16 + s)) mod 256 = z * 16 + s" by (rule digits_div(2))
  moreover have "?n = y * 256 + (z * 16 + s)" unfolding s x' by simp
  ultimately have "?n mod 256 = z * 16 + s" by simp
  then have "b0 + 256 * (?n mod 256) = b0 + 256 * s + 4096 * z" by simp
  then have "(b0 + 256 * (?n mod 256)) mod 4096 = (b0 + 256 * s + 4096 * z) mod 4096" by (rule arg_cong)
  also have "\<dots> = (b0 + 256 * s) mod 4096" by simp
  also have "\<dots> = (b0 + 256 * s + 4096 * (b1 div 16)) mod 4096" by simp
  also have "b0 + 256 * s + 4096 * (b1 div 16) = b0 + 256 * b1" using mult_div_mod_eq [of 16 b1] unfolding s_def by linarith
  finally show "(b0 + 256 * (?n mod 256)) mod 4096 = (b0 + 256 * b1) mod 4096" .
qed

text \<open>What \<open>SetFATEntry\<close> writes.\<close>

definition fat_word :: "'s vfat \<Rightarrow> nat \<Rightarrow> nat \<Rightarrow> bytes" where
  "fat_word v c x =
     (let r = le_nat (slice (GetFATOffset v c) (entry_width (vf_FATType v)) (buf_data (vf_fat v)))
      in case vf_FATType v of
           FAT12 \<Rightarrow> nat_le 2 (if odd c then r mod 16 + u32 (x * 16) else r div 4096 * 4096 + x mod 4096)
         | FAT16 \<Rightarrow> nat_le 2 x
         | FAT32 \<Rightarrow> nat_le 4 (r div 2 ^ 28 * 2 ^ 28 + x mod 2 ^ 28))"

lemma length_fat_word [simp]: "length (fat_word v c x) = entry_width (vf_FATType v)"
  by (simp add: fat_word_def entry_width_def Let_def split: VFATType.split)

lemma SetFATEntry_writes:
  assumes "in_fat v c"
  shows "SetFATEntry v c x = Some (set_fat_data (overwrite (GetFATOffset v c) (fat_word v c x) (buf_data (vf_fat v))) v)"
  using assms
  by (auto simp: SetFATEntry_def in_fat_def fat_word_def put_fat_def set_fat_data_def load_def store_def entry_width_def Let_def
      split: VFATType.splits)

lemma GetFATEntry_reads:
  assumes "in_fat v c"
  shows "GetFATEntry v c = Some (let r = le_nat (slice (GetFATOffset v c) (entry_width (vf_FATType v)) (buf_data (vf_fat v)))
     in case vf_FATType v of FAT12 \<Rightarrow> if odd c then r div 16 else r mod 4096 | FAT16 \<Rightarrow> r | FAT32 \<Rightarrow> r mod 2 ^ 28)"
  using assms by (auto simp: GetFATEntry_def in_fat_def load_def entry_width_def Let_def split: VFATType.splits)

lemma in_fat_overwrite [simp]:
  "in_fat v c \<Longrightarrow> in_fat (set_fat_data (overwrite (GetFATOffset v c) (fat_word v c x) (buf_data (vf_fat v))) v) c' \<longleftrightarrow> in_fat v c'"
  by (auto simp: in_fat_def)

text \<open>The 12-bit entries that share a byte.\<close>

lemma fat12_same:
  assumes t: "vf_FATType v = FAT12" and c: "in_fat v c" and x: "x < 4096"
  shows "GetFATEntry (set_fat_data (overwrite (GetFATOffset v c) (fat_word v c x) (buf_data (vf_fat v))) v) c = Some x"
proof -
  let ?o = "GetFATOffset v c" and ?d = "buf_data (vf_fat v)"
  have o: "?o + 2 \<le> length ?d" using c t by (simp add: in_fat_def entry_width_def)
  define b0 b1 where "b0 = unat (?d ! ?o)" and "b1 = unat (?d ! Suc ?o)"
  have b: "b0 < 256" "b1 < 256" by (simp_all add: b0_def b1_def unat_byte_less)
  have r: "le_nat (slice ?o 2 ?d) = b0 + 256 * b1" using o by (simp add: slice_2 b0_def b1_def)
  have x16: "u32 (x * 16) = x * 16" using x by simp
  have "slice ?o 2 (overwrite ?o (fat_word v c x) ?d) = fat_word v c x"
    using o t by (intro slice_overwrite_same) (simp_all add: entry_width_def)
  moreover have "le_nat (fat_word v c x) = (if odd c then (b0 + 256 * b1) mod 16 + x * 16 else (b0 + 256 * b1) div 4096 * 4096 + x mod 4096)"
    using pack12_even(1) [OF x b] pack12_odd(1) [OF x b] t r x16
    by (simp add: fat_word_def entry_width_def Let_def le_nat_nat_le del: nat_le.simps)
  ultimately show ?thesis
    using c t pack12_even(2) [OF x b] pack12_odd(2) [OF x b]
    by (subst GetFATEntry_reads) (auto simp: entry_width_def Let_def)
qed

lemma fat12_neighbour:
  assumes t: "vf_FATType v = FAT12" and c: "in_fat v c" "in_fat v c'" and x: "x < 4096"
    and n: "even c \<and> c' = Suc c \<or> odd c \<and> c = Suc c'"
  shows "GetFATEntry (set_fat_data (overwrite (GetFATOffset v c) (fat_word v c x) (buf_data (vf_fat v))) v) c' = GetFATEntry v c'"
proof -
  let ?o = "GetFATOffset v c" and ?o' = "GetFATOffset v c'" and ?d = "buf_data (vf_fat v)"
  let ?d' = "overwrite ?o (fat_word v c x) ?d"
  have o: "?o + 2 \<le> length ?d" "?o' + 2 \<le> length ?d" using c t by (simp_all add: in_fat_def entry_width_def)
  have oo: "?o' = (if even c then Suc ?o else ?o - 1)" "?o \<noteq> 0 \<or> even c"
  proof -
    have e: "?o = c + c div 2" "?o' = c' + c' div 2" using c t by (simp_all add: offset_exact in_fat_def)
    show "?o' = (if even c then Suc ?o else ?o - 1)" "?o \<noteq> 0 \<or> even c" unfolding e using n by (auto elim!: oddE)
  qed
  define b where "b i = unat (?d ! i)" for i
  have b: "b i < 256" for i by (simp add: b_def unat_byte_less)
  have r: "le_nat (slice ?o 2 ?d) = b ?o + 256 * b (Suc ?o)" "le_nat (slice ?o' 2 ?d) = b ?o' + 256 * b (Suc ?o')"
    using o by (simp_all add: slice_2 b_def)
  have x16: "u32 (x * 16) = x * 16" using x by simp
  have w: "fat_word v c x = nat_le 2 (if odd c then (b ?o + 256 * b (Suc ?o)) mod 16 + x * 16 else (b ?o + 256 * b (Suc ?o)) div 4096 * 4096 + x mod 4096)"
    using t r(1) x16 by (simp add: fat_word_def entry_width_def Let_def del: nat_le.simps)
  have len: "length ?d' = length ?d" using o t by (simp add: entry_width_def)
  show ?thesis
  proof (cases "even c")
    case True
    let ?n = "(b ?o + 256 * b (Suc ?o)) div 4096 * 4096 + x mod 4096"
    have o': "?o' = Suc ?o" using oo True by simp
    have "slice ?o' 2 ?d' = [of_nat (?n div 256), ?d ! Suc (Suc ?o)]"
      using o o' len True by (subst slice_2) (auto simp: w nat_le_two overwrite_def nth_append min_def)
    moreover have "?n div 256 < 256" using pack12_even(1) [OF x b b, of ?o "Suc ?o"] by simp
    ultimately have "le_nat (slice ?o' 2 ?d') = ?n div 256 + 256 * b (Suc (Suc ?o))" by (simp add: unat_of_nat_byte b_def)
    then have "le_nat (slice ?o' 2 ?d') div 16 = le_nat (slice ?o' 2 ?d) div 16"
      using pack12_even(3) [OF x b b, of ?o "Suc ?o" "b (Suc (Suc ?o))"] r(2) o' by simp
    moreover have "odd c'" using n True by auto
    ultimately show ?thesis using c t by (simp add: GetFATEntry_reads entry_width_def Let_def)
  next
    case False
    let ?n = "(b ?o + 256 * b (Suc ?o)) mod 16 + x * 16"
    from oo False have o': "?o = Suc ?o'" by simp
    have "slice ?o' 2 ?d' = [?d ! ?o', of_nat ?n]"
      using o o' len False by (subst slice_2) (auto simp: w nat_le_two overwrite_def nth_append min_def)
    then have "le_nat (slice ?o' 2 ?d') = b ?o' + 256 * (?n mod 256)" by (simp only: le_nat_2 unat_of_nat_byte b_def)
    then have "le_nat (slice ?o' 2 ?d') mod 4096 = le_nat (slice ?o' 2 ?d) mod 4096"
      using pack12_odd(3) [OF x b b, of "b ?o'" ?o "Suc ?o"] r(2) o' by simp
    moreover have "even c'" using n False by auto
    ultimately show ?thesis using c t by (simp add: GetFATEntry_reads entry_width_def Let_def)
  qed
qed

lemma fat_apart:
  assumes c: "in_fat v c" "in_fat v c'"
    and o: "GetFATOffset v c + entry_width (vf_FATType v) \<le> GetFATOffset v c' \<or> GetFATOffset v c' + entry_width (vf_FATType v) \<le> GetFATOffset v c"
  shows "GetFATEntry (set_fat_data (overwrite (GetFATOffset v c) (fat_word v c x) (buf_data (vf_fat v))) v) c' = GetFATEntry v c'"
  using o
proof
  assume "GetFATOffset v c + entry_width (vf_FATType v) \<le> GetFATOffset v c'"
  then show ?thesis using c by (simp add: GetFATEntry_reads slice_overwrite_after in_fat_def)
next
  assume "GetFATOffset v c' + entry_width (vf_FATType v) \<le> GetFATOffset v c"
  then show ?thesis using c by (simp add: GetFATEntry_reads slice_overwrite_before in_fat_def)
qed

lemma fat_wide_same:
  assumes t: "vf_FATType v \<noteq> FAT12" and c: "in_fat v c" and x: "x < entry_limit (vf_FATType v)"
  shows "GetFATEntry (set_fat_data (overwrite (GetFATOffset v c) (fat_word v c x) (buf_data (vf_fat v))) v) c = Some x"
proof -
  let ?o = "GetFATOffset v c" and ?d = "buf_data (vf_fat v)" and ?w = "entry_width (vf_FATType v)"
  have "slice ?o ?w (overwrite ?o (fat_word v c x) ?d) = fat_word v c x"
    using c by (intro slice_overwrite_same) (auto simp: in_fat_def)
  then have g: "GetFATEntry (set_fat_data (overwrite ?o (fat_word v c x) ?d) v) c =
      Some (case vf_FATType v of FAT12 \<Rightarrow> 0 | FAT16 \<Rightarrow> le_nat (fat_word v c x) | FAT32 \<Rightarrow> le_nat (fat_word v c x) mod 2 ^ 28)"
    using t c by (subst GetFATEntry_reads) (auto split: VFATType.split)
  show ?thesis
  proof (cases "vf_FATType v")
    case FAT32
    let ?r = "le_nat (slice ?o 4 ?d)"
    have len: "length (slice ?o 4 ?d) = 4" using c FAT32 by (simp add: in_fat_def entry_width_def) linarith
    have "?r < 2 ^ 32" using le_nat_bound [of "slice ?o 4 ?d"] unfolding len by simp
    then have q: "?r div 2 ^ 28 \<le> 15" by simp
    have "x mod 2 ^ 28 < 2 ^ 28" by simp
    with q have "?r div 2 ^ 28 * 2 ^ 28 + x mod 2 ^ 28 < 256 ^ 4" by simp
    then have "le_nat (fat_word v c x) = ?r div 2 ^ 28 * 2 ^ 28 + x mod 2 ^ 28"
      using FAT32 by (simp add: fat_word_def Let_def le_nat_nat_le entry_width_def del: nat_le.simps)
    then show ?thesis using g FAT32 x by (simp add: entry_limit_def)
  next
    case FAT16
    then show ?thesis using g x by (simp add: fat_word_def entry_limit_def Let_def le_nat_nat_le del: nat_le.simps)
  qed (use t in simp)
qed

text \<open>Different entries are apart, or share a byte.\<close>

lemma fat12_order:
  fixes a b :: nat
  assumes "a < b"
  shows "a + a div 2 + 2 \<le> b + b div 2 \<or> even a \<and> b = Suc a"
proof (cases "b = Suc a")
  case True
  then show ?thesis by presburger
next
  case False
  with assms have "a + 2 \<le> b" by simp
  moreover from this have "a div 2 \<le> b div 2" by (intro div_le_mono) simp
  ultimately show ?thesis by linarith
qed

lemma fat_offsets:
  assumes "in_fat v c" "in_fat v c'" "c \<noteq> c'"
  shows "GetFATOffset v c + entry_width (vf_FATType v) \<le> GetFATOffset v c' \<or> GetFATOffset v c' + entry_width (vf_FATType v) \<le> GetFATOffset v c \<or>
    vf_FATType v = FAT12 \<and> (even c \<and> c' = Suc c \<or> odd c \<and> c = Suc c')"
proof (cases "vf_FATType v")
  case FAT12
  have e: "GetFATOffset v c = c + c div 2" "GetFATOffset v c' = c' + c' div 2"
    using assms FAT12 by (simp_all add: offset_exact in_fat_def)
  show ?thesis unfolding e using FAT12 assms(3) fat12_order [of c c'] fat12_order [of c' c]
    by (auto simp: entry_width_def neq_iff)
qed (use assms in \<open>auto simp: offset_exact in_fat_def entry_width_def\<close>)

lemma get_set_entry:
  assumes c: "in_fat v c" "in_fat v c'" and x: "x < entry_limit (vf_FATType v)"
  shows "\<exists>m. SetFATEntry v c x = Some (set_fat_data m v) \<and> length m = length (buf_data (vf_fat v)) \<and>
    GetFATEntry (set_fat_data m v) c' = (if c' = c then Some x else GetFATEntry v c')"
proof -
  let ?m = "overwrite (GetFATOffset v c) (fat_word v c x) (buf_data (vf_fat v))"
  have len: "length ?m = length (buf_data (vf_fat v))" using c by (simp add: in_fat_def)
  have "GetFATEntry (set_fat_data ?m v) c' = (if c' = c then Some x else GetFATEntry v c')"
  proof (cases "c' = c")
    case True
    with c x fat12_same [of v c x] fat_wide_same [of v c x] show ?thesis
      by (cases "vf_FATType v = FAT12") (simp_all add: entry_limit_def)
  next
    case False
    with fat_offsets [OF c] fat_apart [OF c, of x] fat12_neighbour [of v c c' x] c x show ?thesis
      by (auto simp: entry_limit_def)
  qed
  with len SetFATEntry_writes [OF c(1), of x] show ?thesis by blast
qed

subsection \<open>Chains\<close>

text \<open>The clusters of a chain up to the end-of-chain mark (or a zero entry).\<close>

inductive fat_chain :: "'s vfat \<Rightarrow> nat \<Rightarrow> nat list \<Rightarrow> bool" for v where
  chain_end: "c = 0 \<or> IsEOF v c \<Longrightarrow> fat_chain v c []"
| chain_step: "c \<noteq> 0 \<Longrightarrow> \<not> IsEOF v c \<Longrightarrow> GetFATEntry v c = Some n \<Longrightarrow> fat_chain v n cs \<Longrightarrow> fat_chain v c (c # cs)"

inductive_cases fat_chain_NilE: "fat_chain v c []"
inductive_cases fat_chain_ConsE: "fat_chain v c (d # cs)"

text \<open>The table covers the clusters of the volume, and their numbers are no marks.\<close>

definition fat_ok :: "'s vfat \<Rightarrow> bool" where
  "fat_ok v \<longleftrightarrow> (\<forall>c \<in> {2..<vf_CountOfClusters v + 2}. in_fat v c) \<and> vf_FATType v = fat_type (vf_CountOfClusters v) \<and>
     vf_CountOfClusters v + 2 \<le> 0x0FFFFFF8"

definition cluster_of :: "'s vfat \<Rightarrow> nat \<Rightarrow> bool" where
  "cluster_of v c \<longleftrightarrow> 2 \<le> c \<and> c < vf_CountOfClusters v + 2"

lemma cluster_of_number:
  assumes "fat_ok v" "cluster_of v c"
  shows "in_fat v c" "c \<noteq> 0" "\<not> IsEOF v c" "c < entry_limit (vf_FATType v)"
  using assms by (auto simp: fat_ok_def cluster_of_def fat_type_def IsEOF_def entry_limit_def split: if_splits)

lemma EOC_limit: "GetEOC v < entry_limit (vf_FATType v)"
  by (simp add: GetEOC_def entry_limit_def split: VFATType.split)

definition free_from :: "'s vfat \<Rightarrow> nat \<Rightarrow> nat list" where
  "free_from v i = filter (\<lambda>c. GetFATEntry v c = Some 0) [i..<vf_CountOfClusters v + 2]"

abbreviation free_clusters :: "'s vfat \<Rightarrow> nat list" where
  "free_clusters v \<equiv> free_from v 2"

lemma free_from_step:
  "free_from v i =
     (if i < vf_CountOfClusters v + 2 then (if GetFATEntry v i = Some 0 then i # free_from v (Suc i) else free_from v (Suc i)) else [])"
  unfolding free_from_def by (subst upt_rec) auto

fun linked :: "'s vfat \<Rightarrow> nat list \<Rightarrow> bool" where
  "linked v [] \<longleftrightarrow> True"
| "linked v (c # cs) \<longleftrightarrow> GetFATEntry v c = Some (case cs of [] \<Rightarrow> GetEOC v | d # _ \<Rightarrow> d) \<and> linked v cs"

lemma linked_cong:
  "(\<And>c. c \<in> set cs \<Longrightarrow> GetFATEntry v' c = GetFATEntry v c) \<Longrightarrow> GetEOC v' = GetEOC v \<Longrightarrow> linked v' cs = linked v cs"
  by (induction cs) (auto split: list.splits)

lemma link_chain_spec:
  assumes "distinct cs" "\<forall>c \<in> set cs. in_fat v c \<and> c < entry_limit (vf_FATType v)"
  shows "\<exists>m. link_chain cs v = Some (set_fat_data m v) \<and> length m = length (buf_data (vf_fat v)) \<and> linked (set_fat_data m v) cs \<and>
    (\<forall>c. in_fat v c \<and> c \<notin> set cs \<longrightarrow> GetFATEntry (set_fat_data m v) c = GetFATEntry v c)"
  using assms
proof (induction cs arbitrary: v)
  case Nil
  have "v = set_fat_data (buf_data (vf_fat v)) v" by (simp add: set_fat_data_def)
  then show ?case by (intro exI [of _ "buf_data (vf_fat v)"]) simp
next
  case (Cons c cs)
  define x where "x = (case cs of [] \<Rightarrow> GetEOC v | d # _ \<Rightarrow> d)"
  have x: "x < entry_limit (vf_FATType v)"
    using Cons.prems(2) EOC_limit [of v] by (cases cs) (auto simp: x_def)
  have c: "in_fat v c" using Cons.prems(2) by simp
  from get_set_entry [OF c c x] obtain m1 where m1: "SetFATEntry v c x = Some (set_fat_data m1 v)" "length m1 = length (buf_data (vf_fat v))"
    "GetFATEntry (set_fat_data m1 v) c = Some x" by auto
  let ?v1 = "set_fat_data m1 v"
  have inf: "in_fat ?v1 d \<longleftrightarrow> in_fat v d" for d using m1(2) by (simp add: in_fat_def)
  have other: "GetFATEntry ?v1 d = GetFATEntry v d" if "in_fat v d" "d \<noteq> c" for d
    using get_set_entry [OF c that(1) x] m1(1) that(2) by auto
  from Cons.IH [of ?v1] Cons.prems inf obtain m where
    m: "link_chain cs ?v1 = Some (set_fat_data m v)" "length m = length (buf_data (vf_fat v))" "linked (set_fat_data m v) cs"
      "\<forall>d. in_fat v d \<and> d \<notin> set cs \<longrightarrow> GetFATEntry (set_fat_data m v) d = GetFATEntry ?v1 d" using m1(2) by auto
  have "GetFATEntry (set_fat_data m v) c = Some x" using m(4) m1(3) c Cons.prems(1) by simp
  then have "linked (set_fat_data m v) (c # cs)" using m(3) by (simp add: x_def split: list.split)
  moreover have "link_chain (c # cs) v = Some (set_fat_data m v)" using m1(1) m(1) by (simp add: x_def)
  ultimately show ?case using m(2,4) other by auto
qed

lemma linked_chain:
  assumes "linked v cs" "cs \<noteq> []" "IsEOF v (GetEOC v)" "\<forall>c \<in> set cs. c \<noteq> 0 \<and> \<not> IsEOF v c"
  shows "fat_chain v (hd cs) cs"
  using assms
proof (induction cs)
  case (Cons c cs)
  show ?case
  proof (cases cs)
    case Nil
    with Cons show ?thesis by (auto intro!: chain_step chain_end)
  next
    case (Cons d ds)
    with Cons.prems Cons.IH show ?thesis by (auto intro!: chain_step)
  qed
qed simp

subsection \<open>Allocation\<close>

lemma GetFATEntry_defined: "fat_ok v \<Longrightarrow> cluster_of v c \<Longrightarrow> \<exists>x. GetFATEntry v c = Some x"
  using cluster_of_number(1) [of v c] GetFATEntry_reads [of v c] by blast

lemma find_free_spec:
  assumes "fat_ok v" "n < 2 ^ 28" "elem_inv 4 b" "elem_contents 4 b = concat (map (nat_le 4) bs)" "length bs = buf_size b"
    "buf_size b \<le> n" "2 \<le> i" "heap_ok h"
  shows "\<exists>b' h'. find_free v n i b h = Some (b', h') \<and> heap_ok h' \<and> elem_inv 4 b' \<and>
      (let cs = bs @ take (n - buf_size b) (free_from v i)
       in elem_contents 4 b' = concat (map (nat_le 4) cs) \<and> buf_size b' = length cs)"
  using assms
proof (induction v n i b h arbitrary: bs rule: find_free.induct)
  case (1 v n i b h)
  let ?C = "vf_CountOfClusters v + 2"
  have "?C \<le> 0x0FFFFFF8" using "1.prems"(1) by (simp add: fat_ok_def)
  also have "(0x0FFFFFF8 :: nat) < 2 ^ 32" by simp
  finally have lim: "u32 ?C = ?C" by (rule u32_small)
  show ?case
  proof (cases "i < ?C \<and> buf_size b < n")
    case False
    then have e: "find_free v n i b h = Some (b, h)" using lim by (subst find_free.simps) auto
    have none: "take (n - buf_size b) (free_from v i) = []" using False by (subst free_from_step) auto
    show ?thesis unfolding Let_def e none using "1.prems"(3-5,8) by simp
  next
    case True
    then have cl: "cluster_of v i" using "1.prems"(7) by (simp add: cluster_of_def)
    from GetFATEntry_defined [OF "1.prems"(1) cl] obtain c where c: "GetFATEntry v i = Some c" by blast
    have ff: "free_from v i = (if c = 0 then i # free_from v (Suc i) else free_from v (Suc i))"
      using True c by (subst free_from_step) simp
    have t: "i < u32 ?C \<and> buf_size b < n" using True lim by simp
    show ?thesis
    proof (cases "c = 0")
      case False
      then have "find_free v n i b h = find_free v n (Suc i) b h" using t c by (subst find_free.simps) simp
      with "1.IH"(2) [OF t c False "1.prems"(1-6)] "1.prems"(7,8) False show ?thesis by (simp add: ff)
    next
      case True
      have sz: "length (nat_le 4 i) = 1 * 4" "(buf_size b + 1) * 4 \<le> 2 ^ 31" using "1.prems"(2) t by simp_all
      from BufU32Append_spec [OF "1.prems"(3) sz, of h] "1.prems"(8) obtain b1 h1 where
        b1: "BufU32Append h b (Some (nat_le 4 i)) 1 = Some (0, b1, h1)" "elem_inv 4 b1" "buf_size b1 = Suc (buf_size b)"
          "elem_contents 4 b1 = elem_contents 4 b @ nat_le 4 i" "heap_ok h1" by auto
      have step: "find_free v n i b h = find_free v n (Suc i) b1 h1" using t c True b1(1) by (subst find_free.simps) simp
      have "elem_contents 4 b1 = concat (map (nat_le 4) (bs @ [i]))" using b1(4) "1.prems"(4) by simp
      from "1.IH"(1) [OF t c True b1(1) refl refl "1.prems"(1,2) b1(2) this] b1(3,5) "1.prems"(5,7) t
      have "\<exists>b' h'. find_free v n (Suc i) b1 h1 = Some (b', h') \<and> heap_ok h' \<and> elem_inv 4 b' \<and>
        (let cs = (bs @ [i]) @ take (n - buf_size b1) (free_from v (Suc i))
         in elem_contents 4 b' = concat (map (nat_le 4) cs) \<and> buf_size b' = length cs)" by simp
      moreover have "bs @ take (n - buf_size b) (free_from v i) =
          (bs @ [i]) @ take (n - buf_size b1) (free_from v (Suc i))"
        using True b1(3) t by (simp add: ff Suc_diff_Suc take_Cons')
      ultimately show ?thesis using step by simp
    qed
  qed
qed

lemma u32_array_spec:
  assumes "elem_inv 4 b" "elem_contents 4 b = concat (map (nat_le 4) cs)" "buf_size b = length cs" "\<forall>c \<in> set cs. c < 2 ^ 32"
  shows "u32_array b = Some cs"
proof -
  have "length (concat (map (nat_le 4) cs)) = 4 * length cs" by (induction cs) simp_all
  moreover have "4 * buf_size b \<le> length (buf_data b)" using assms(1) by (simp add: elem_inv_def)
  ultimately have ld: "load 0 (4 * buf_size b) (buf_data b) = Some (concat (map (nat_le 4) cs))"
    using assms(2) by (simp add: load_def slice_def elem_contents_def mult.commute)
  have nth: "le_nat (slice (4 * i) 4 (concat (map (nat_le 4) cs))) = cs ! i" if "i < length cs" "\<forall>c \<in> set cs. c < 2 ^ 32" for i cs
    using that
  proof (induction cs arbitrary: i)
    case (Cons c cs)
    show ?case
    proof (cases i)
      case 0
      then show ?thesis using Cons.prems by (simp add: slice_def le_nat_nat_le del: nat_le.simps)
    next
      case (Suc j)
      then have "slice (4 * i) 4 (concat (map (nat_le 4) (c # cs))) = slice (4 * j) 4 (concat (map (nat_le 4) cs))"
        by (simp add: slice_def del: nat_le.simps)
      with Suc Cons show ?thesis by simp
    qed
  qed simp
  have "map (\<lambda>i. le_nat (slice (4 * i) 4 (concat (map (nat_le 4) cs)))) [0..<buf_size b] = cs"
    using nth [OF _ assms(4)] assms(3) by (intro nth_equalityI) simp_all
  with ld show ?thesis by (simp add: u32_array_def)
qed

lemma GetFATEntry_cong:
  assumes "vf_FATType v' = vf_FATType v" "buf_data (vf_fat v') = buf_data (vf_fat v)"
  shows "GetFATEntry v' c = GetFATEntry v c"
proof -
  have "GetFATOffset v' c = GetFATOffset v c" using assms(1) by (simp add: GetFATOffset_def)
  with assms show ?thesis by (cases "vf_FATType v") (simp_all add: GetFATEntry_def Let_def)
qed

lemma free_clusters_of: "c \<in> set (free_clusters v) \<Longrightarrow> cluster_of v c \<and> GetFATEntry v c = Some 0"
  by (auto simp: free_from_def cluster_of_def)

text \<open>
  Allocation takes the first free clusters in ascending order and links them; without enough of them
  it fails and leaves the table as it was.
\<close>

lemma AllocateFATChain_spec:
  assumes ok: "fat_ok v" and n: "0 < n" "n < 2 ^ 28" and h: "heap_ok (vf_heap v)"
  defines "cs \<equiv> take n (free_clusters v)"
  shows "if length cs < n
    then \<exists>h'. AllocateFATChain n v = Some (None, v\<lparr>vf_heap := h'\<rparr>) \<and> heap_ok h'
    else \<exists>m h'. AllocateFATChain n v = Some (Some (hd cs), set_fat_data m (v\<lparr>vf_heap := h'\<rparr>)) \<and> heap_ok h' \<and>
      length m = length (buf_data (vf_fat v)) \<and> linked (set_fat_data m v) cs \<and>
      (\<forall>c. in_fat v c \<and> c \<notin> set cs \<longrightarrow> GetFATEntry (set_fat_data m v) c = GetFATEntry v c)"
proof -
  have init: "elem_inv 4 BufInit" "elem_contents 4 BufInit = concat (map (nat_le 4) [])" "length [] = buf_size BufInit" "buf_size BufInit \<le> n"
    by (simp_all add: elem_inv_def BufInit_def elem_contents_def)
  obtain b h' where
    b: "find_free v n 2 BufInit (vf_heap v) = Some (b, h')" "heap_ok h'" "elem_inv 4 b"
      "elem_contents 4 b = concat (map (nat_le 4) cs)" "buf_size b = length cs"
  proof -
    have "buf_size BufInit = 0" by (simp add: BufInit_def)
    then have "[] @ take (n - buf_size BufInit) (free_clusters v) = cs" by (simp add: cs_def)
    with find_free_spec [OF ok n(2) init _ h, of 2] that show ?thesis unfolding Let_def by fastforce
  qed
  let ?v = "v\<lparr>vf_heap := h'\<rparr>"
  have sub: "set cs \<subseteq> set (free_clusters v)" unfolding cs_def by (rule set_take_subset)
  have cl: "\<forall>c \<in> set cs. in_fat ?v c \<and> c < entry_limit (vf_FATType ?v)"
    using sub free_clusters_of [of _ v] cluster_of_number [OF ok] by (auto simp: in_fat_def GetFATOffset_def)
  have "entry_limit t \<le> 2 ^ 32" for t by (cases t) (simp_all add: entry_limit_def)
  then have small: "\<forall>c \<in> set cs. c < 2 ^ 32" using cl by (meson less_le_trans)
  have dist: "distinct cs" by (simp add: cs_def free_from_def distinct_take)
  have same: "GetFATEntry (set_fat_data m ?v) = GetFATEntry (set_fat_data m v)" "linked (set_fat_data m ?v) = linked (set_fat_data m v)"
    "GetFATEntry ?v = GetFATEntry v" "in_fat ?v = in_fat v" for m
  proof -
    show e: "GetFATEntry (set_fat_data m ?v) = GetFATEntry (set_fat_data m v)" "GetFATEntry ?v = GetFATEntry v" for m
      by (rule ext, rule GetFATEntry_cong; simp add: set_fat_data_def)+
    show "in_fat ?v = in_fat v" by (simp add: fun_eq_iff in_fat_def GetFATOffset_def)
    have "linked (set_fat_data m ?v) ds = linked (set_fat_data m v) ds" for ds
      by (rule linked_cong) (simp_all add: e, simp add: GetEOC_def)
    then show "linked (set_fat_data m ?v) = linked (set_fat_data m v)" by blast
  qed
  show ?thesis
  proof (cases "length cs < n")
    case True
    then have "AllocateFATChain n v = Some (None, ?v)" using n b(1,5) by (simp add: AllocateFATChain_def vf_then_def vf_fail_def)
    with True b(2) show ?thesis by auto
  next
    case False
    then have len: "length cs = n" by (simp add: cs_def)
    from link_chain_spec [OF dist cl] obtain m where
      m: "link_chain cs ?v = Some (set_fat_data m ?v)" "length m = length (buf_data (vf_fat v))" "linked (set_fat_data m v) cs"
        "\<forall>c. in_fat v c \<and> c \<notin> set cs \<longrightarrow> GetFATEntry (set_fat_data m v) c = GetFATEntry v c"
      using same by auto
    have "AllocateFATChain n v = Some (Some (hd cs), set_fat_data m ?v)"
      using n b(1,5) len m(1) u32_array_spec [OF b(3,4,5) small]
      by (simp add: AllocateFATChain_def vf_then_def vf_access_def)
    with False b(2) m(2-4) show ?thesis by auto
  qed
qed

end
