(* ===== verification/VfatFile.thy ===== *)
theory VfatFile
  imports Vfat
begin

text \<open>
  Opening and releasing a FAT file system, reading a file, creating files and directories, and
  listing (\<open>lsvmutils/vfat.c\<close>).
\<close>

subsection \<open>Opening\<close>

definition new_vfat :: "'s \<Rightarrow> heap \<Rightarrow> (nat \<Rightarrow> byte) \<Rightarrow> 's vfat" where
  "new_vfat dev h jk =
     \<lparr>vf_bpb = replicate 512 0, vf_fsi = replicate 512 0, vf_dev = dev, vf_RootDirSectors = 0, vf_DataSec = 0,
      vf_CountOfClusters = 0, vf_FirstDataSector = 0, vf_FirstRootDirSecNum = 0, vf_FATSz = 0, vf_TotSec = 0,
      vf_FATType = FAT12, vf_ClusterSize = 0, vf_fat = BufInit, vf_rootdir = BufInit, vf_rootdirClustno = 0,
      vf_heap = h, vf_junk = jk\<rparr>"

definition read_bpb :: "'s blkdev \<Rightarrow> ('s, unit) vfat_op" where
  "read_bpb D =
     vf_then (dev_read D 0 (struct_size bpb_layout)) (\<lambda>b.
     vf_then (vf_updates (\<lambda>v. v\<lparr>vf_bpb := b\<rparr>)) (\<lambda>_.
     if \<not> (b ! 0 = 0xEB \<and> b ! 2 = 0x90) \<and> b ! 0 \<noteq> 0xE9 then vf_fail
     else
       vf_then (vf_access (\<lambda>v. GetFATType b)) (\<lambda>ft.
       if ft = FAT32 then
         vf_then (dev_read D (bpb ''FSInfo'' b) (struct_size fsinfo_layout)) (\<lambda>f.
         vf_then (vf_updates (\<lambda>v. v\<lparr>vf_fsi := f\<rparr>)) (\<lambda>_.
         vf_require (fsi ''LeadSig'' f = 0x41615252 \<and> fsi ''TrailSig'' f = 0xAA550000)))
       else vf_ok ())))"

definition precompute :: "('s, unit) vfat_op" where
  "precompute =
     vf_then (vf_reads vf_bpb) (\<lambda>b.
     vf_then (vf_require (bpb ''BytsPerSec'' b = VFAT_SECTOR_SIZE)) (\<lambda>_.
     vf_then (vf_access (\<lambda>v. bpb_RootDirSectors b)) (\<lambda>RootDirSectors.
     vf_then (vf_access (\<lambda>v. udiv (bpb_DataSec b RootDirSectors) (bpb ''SecPerClus'' b))) (\<lambda>CountOfClusters.
     vf_updates (\<lambda>v. v\<lparr>
       vf_FATSz := bpb_FATSz b,
       vf_TotSec := bpb_TotSec b,
       vf_RootDirSectors := RootDirSectors,
       vf_FirstRootDirSecNum := u32 (bpb ''ResvdSecCnt'' b + bpb ''NumFATs'' b * bpb_FATSz b),
       vf_FirstDataSector := u32 (bpb ''ResvdSecCnt'' b + bpb ''NumFATs'' b * bpb_FATSz b + RootDirSectors),
       vf_DataSec := bpb_DataSec b RootDirSectors,
       vf_CountOfClusters := CountOfClusters,
       vf_ClusterSize := bpb ''SecPerClus'' b * bpb ''BytsPerSec'' b,
       vf_FATType := fat_type CountOfClusters\<rparr>)))))"

text \<open>\<open>BufReserve\<close> and a read into the new buffer, which is what loads a table and the root directory.\<close>

definition read_area :: "'s blkdev \<Rightarrow> nat \<Rightarrow> nat \<Rightarrow> ('s, buf) vfat_op" where
  "read_area D sect nbytes =
     vf_then (vf_alloc (\<lambda>h. Some (BufReserve h BufInit nbytes))) (\<lambda>b.
     vf_then (dev_read D sect nbytes) (\<lambda>d.
     vf_then (vf_access (\<lambda>v. store 0 d (buf_data b))) (\<lambda>m.
     vf_ok (b\<lparr>buf_data := m, buf_size := nbytes\<rparr>))))"

definition load_fats :: "'s blkdev \<Rightarrow> ('s, unit) vfat_op" where
  "load_fats D =
     vf_then (vf_reads (\<lambda>v. (vf_bpb v, vf_FATSz v))) (\<lambda>(b, FATSz).
     let nbytes = u32 (FATSz * bpb ''BytsPerSec'' b) in
     vf_then (read_area D (bpb ''ResvdSecCnt'' b) nbytes) (\<lambda>fat.
     vf_then (vf_updates (\<lambda>v. v\<lparr>vf_fat := fat\<rparr>)) (\<lambda>_.
     if bpb ''NumFATs'' b > 1 then
       vf_then (read_area D (u32 (bpb ''ResvdSecCnt'' b + FATSz)) nbytes) (\<lambda>second.
       vf_require (buf_contents second = buf_contents fat))
     else vf_ok ())))"

definition load_rootdir :: "'s blkdev \<Rightarrow> ('s, unit) vfat_op" where
  "load_rootdir D =
     vf_then (vf_reads (\<lambda>v. (vf_bpb v, vf_FATType v))) (\<lambda>(b, ft).
     if ft = FAT32 then
       vf_then (ReadClusters D (bpb ''RootClus'' b) BufInit) (\<lambda>root.
       vf_updates (\<lambda>v. v\<lparr>vf_rootdir := root, vf_rootdirClustno := bpb ''RootClus'' b\<rparr>))
     else
       vf_then (vf_reads (\<lambda>v. (vf_FirstRootDirSecNum v, u32 (vf_RootDirSectors v * bpb ''BytsPerSec'' b)))) (\<lambda>(sect, nbytes).
       vf_then (read_area D sect nbytes) (\<lambda>root.
       vf_updates (\<lambda>v. v\<lparr>vf_rootdir := root, vf_rootdirClustno := 0\<rparr>))))"

text \<open>
  \<open>VFATInit\<close>: the status, the object, the device and the allocator. The object is released on
  failure, the device is left open.
\<close>

definition VFATInit :: "'s blkdev \<Rightarrow> 's \<Rightarrow> heap \<Rightarrow> (nat \<Rightarrow> byte) \<Rightarrow> (int \<times> 's vfat option \<times> 's \<times> heap) option" where
  "VFATInit D dev h jk =
     (case h 0 of
        None \<Rightarrow> Some (-1, None, dev, heap_next h)
      | Some _ \<Rightarrow>
          do {
            (r, v) \<leftarrow> vf_then (read_bpb D) (\<lambda>_. vf_then precompute (\<lambda>_. vf_then (load_fats D) (\<lambda>_. load_rootdir D)))
                (new_vfat dev (heap_next h) jk);
            (case r of
               Some _ \<Rightarrow> Some (0, Some v, vf_dev v, vf_heap v)
             | None \<Rightarrow>
                 do {
                   _ \<leftarrow> BufRelease (vf_fat v);
                   _ \<leftarrow> BufRelease (vf_rootdir v);
                   Some (-1, None, vf_dev v, vf_heap v)
                 })
          })"

definition VFATRelease :: "'s blkdev \<Rightarrow> 's vfat \<Rightarrow> 's option" where
  "VFATRelease D v =
     do {
       (rc, s) \<leftarrow> Close D (vf_dev v);
       _ \<leftarrow> BufRelease (vf_fat v);
       _ \<leftarrow> BufRelease (vf_rootdir v);
       Some s
     }"

subsection \<open>Reading a file\<close>

definition VFATGetFile :: "'s blkdev \<Rightarrow> bytes \<Rightarrow> ('s, bytes \<times> nat) vfat_op" where
  "VFATGetFile D path =
     vf_then (VFATStatFile D path) (\<lambda>ent.
     vf_then (LoadFileFromDirectoryEntry D ent BufInit) (\<lambda>b.
     vf_ok (buf_data b, buf_size b)))"

subsection \<open>Creating files and directories\<close>

text \<open>\<open>_GetDirName\<close> and \<open>_GetBaseName\<close>: the inner \<open>None\<close> is the null pointer.\<close>

definition GetDirName :: "bytes \<Rightarrow> bytes \<Rightarrow> bytes option option" where
  "GetDirName buf path =
     do {
       (n, buf) \<leftarrow> Strlcpy buf path VFAT_PATH_SIZE;
       slash \<leftarrow> posix_strrchr buf (chr CHR ''/'');
       (case slash of
          None \<Rightarrow> Some None
        | Some i \<Rightarrow> Some (Some (if i = 0 then buf[1 := 0] else buf[i := 0])))
     }"

definition GetBaseName :: "bytes \<Rightarrow> bytes \<Rightarrow> bytes option option" where
  "GetBaseName buf path =
     do {
       slash \<leftarrow> posix_strrchr path (chr CHR ''/'');
       (case slash of
          None \<Rightarrow> Some None
        | Some i \<Rightarrow>
            do {
              c \<leftarrow> load (i + 1) 1 path;
              if hd c = 0 then Some None
              else do { (n, buf) \<leftarrow> Strlcpy buf (drop (i + 1) path) VFAT_PATH_SIZE; Some (Some buf) }
            })
     }"

fun flush_fats :: "'s blkdev \<Rightarrow> nat \<Rightarrow> nat \<Rightarrow> ('s, unit) vfat_op" where
  "flush_fats D 0 i = vf_ok ()"
| "flush_fats D (Suc n) i =
     vf_then (vf_reads (\<lambda>v. (u64 (bpb ''ResvdSecCnt'' (vf_bpb v) + i * vf_FATSz v), vf_fat v))) (\<lambda>(sect, fat).
     vf_then (vf_access (\<lambda>v. load 0 (buf_size fat) (buf_data fat))) (\<lambda>d.
     vf_then (dev_write D sect d (buf_size fat)) (\<lambda>_.
     flush_fats D n (i + 1))))"

definition FlushFAT :: "'s blkdev \<Rightarrow> ('s, unit) vfat_op" where
  "FlushFAT D = vf_then (vf_reads (\<lambda>v. bpb ''NumFATs'' (vf_bpb v))) (\<lambda>n. flush_fats D n 0)"

definition FlushFile :: "'s blkdev \<Rightarrow> bytes \<Rightarrow> nat \<Rightarrow> nat \<Rightarrow> ('s, unit) vfat_op" where
  "FlushFile D data sz clustno =
     (if sz = 0 then vf_ok ()
      else if clustno = 0 then
        vf_then (vf_reads (\<lambda>v. (u32 (vf_RootDirSectors v * bpb ''BytsPerSec'' (vf_bpb v)), vf_FirstRootDirSecNum v))) (\<lambda>(rootDirSize, sect).
        vf_then (vf_require (rootDirSize = sz)) (\<lambda>_.
        vf_then (vf_access (\<lambda>v. load 0 sz data)) (\<lambda>d.
        dev_write D sect d sz)))
      else WriteClusters D clustno data sz)"

text \<open>An entry with the given name, attributes, times and cluster.\<close>

definition make_dirent :: "bytes \<Rightarrow> nat \<Rightarrow> nat \<Rightarrow> nat \<Rightarrow> nat \<Rightarrow> nat \<Rightarrow> nat \<Rightarrow> nat \<Rightarrow> bytes" where
  "make_dirent name attr tenth crtTime wrtTime hi lo fileSize =
     take 11 name @ nat_le 1 attr @ nat_le 1 0 @ nat_le 1 tenth @ nat_le 2 crtTime @ nat_le 2 18706 @ nat_le 2 18706 @
     nat_le 2 hi @ nat_le 2 wrtTime @ nat_le 2 18706 @ nat_le 2 lo @ nat_le 4 fileSize"

text \<open>The two halves of a cluster number as \<open>_PutFile\<close> computes them: \<open>(c & 0xFFFF0000) << 16\<close>, \<open>c & 0xFFFF\<close>.\<close>

definition cluster_hi :: "nat \<Rightarrow> nat" where
  "cluster_hi c = u32 (c div 65536 * 65536 * 65536)"

definition cluster_lo :: "nat \<Rightarrow> nat" where
  "cluster_lo c = c mod 65536"

text \<open>The entries \<open>.\<close> and \<open>..\<close> of a new directory in front of cleared data.\<close>

definition dots :: "nat \<Rightarrow> nat \<Rightarrow> bytes" where
  "dots self parent =
     make_dirent (ascii ''.          '') (ATTR_ARCHIVE + ATTR_DIRECTORY) 0 1709 22131 (cluster_hi self) (cluster_lo self) 0 @
     make_dirent (ascii ''..         '') (ATTR_ARCHIVE + ATTR_DIRECTORY) 0 1709 22131 (cluster_hi parent) (cluster_lo parent) 0"

text \<open>The entry of the directory that the new entry replaces: the first one that is free or deleted.\<close>

function free_slot :: "bytes \<Rightarrow> nat \<Rightarrow> nat option" where
  "free_slot dirData i =
     (case load (32 * i) 1 dirData of
        None \<Rightarrow> None
      | Some c \<Rightarrow> if hd c = 0 \<or> hd c = 0xE5 then Some i else free_slot dirData (Suc i))"
  by pat_completeness auto
termination
  by (relation "measure (\<lambda>(dirData, i). length dirData - 32 * i)") (auto simp: load_def split: if_splits)

declare free_slot.simps [simp del]

definition insert_dirent :: "bytes \<Rightarrow> buf \<Rightarrow> ('s, bytes) vfat_op" where
  "insert_dirent entry dir =
     vf_then (vf_access (\<lambda>v. free_slot (buf_data dir) 0)) (\<lambda>i.
     if 32 * (i + 1) \<ge> buf_size dir then vf_fail
     else vf_access (\<lambda>v. store (32 * i) entry (buf_data dir)))"

text \<open>
  The entry of the new file. The status of \<open>InternShortname\<close> is ignored: when the name is too long the
  entry gets the uninitialised array.
\<close>

definition entry_name :: "bytes \<Rightarrow> ('s, bytes) vfat_op" where
  "entry_name basename =
     vf_then (vf_access (\<lambda>v. InternShortname basename)) (\<lambda>r.
     case r of Some shortname \<Rightarrow> vf_ok (take 11 shortname) | None \<Rightarrow> vf_reads (\<lambda>v. take 11 (stack_array 12 v)))"

definition PutFile_at :: "'s blkdev \<Rightarrow> bool \<Rightarrow> bytes \<Rightarrow> buf \<Rightarrow> nat \<Rightarrow> bytes \<Rightarrow> nat \<Rightarrow> ('s, unit) vfat_op" where
  "PutFile_at D isDir basename dir dirClustno data sz =
     vf_then (entry_name basename) (\<lambda>name.
     vf_then (vf_access (\<lambda>v. udiv (u64 (sz + vf_ClusterSize v - 1)) (vf_ClusterSize v))) (\<lambda>r.
     vf_then (AllocateFATChain r) (\<lambda>clustno.
     vf_then (vf_access (\<lambda>v. if isDir then store 0 (dots clustno dirClustno) data else Some data)) (\<lambda>data.
     vf_then (insert_dirent (make_dirent name (ATTR_ARCHIVE + (if isDir then ATTR_DIRECTORY else 0)) 100 1884 1884
         (cluster_hi clustno) (cluster_lo clustno) (if isDir then 0 else u32 sz)) dir) (\<lambda>dirData.
     vf_then (FlushFile D data sz clustno) (\<lambda>_.
     vf_then (vf_reads (\<lambda>v. (vf_rootdirClustno v, vf_rootdir v))) (\<lambda>(rootClustno, root).
     vf_then
       (if dirClustno = rootClustno then
          vf_then (vf_require (buf_size root = buf_size dir)) (\<lambda>_.
          vf_then (vf_access (\<lambda>v. do { d \<leftarrow> load 0 (buf_size dir) dirData; store 0 d (buf_data root) })) (\<lambda>m.
          vf_updates (\<lambda>v. v\<lparr>vf_rootdir := root\<lparr>buf_data := m\<rparr>\<rparr>)))
        else vf_ok ()) (\<lambda>_.
     vf_then (FlushFile D dirData (buf_size dir) dirClustno) (\<lambda>_.
     FlushFAT D)))))))))"

definition VfatPutFile :: "'s blkdev \<Rightarrow> bool \<Rightarrow> bytes \<Rightarrow> bytes option \<Rightarrow> nat \<Rightarrow> ('s, unit) vfat_op" where
  "VfatPutFile D isDir path data sz =
     (case data of
        None \<Rightarrow> vf_fail
      | Some data \<Rightarrow>
          vf_then (vf_access (\<lambda>v. if isDir then store 0 (replicate sz 0) data else Some data)) (\<lambda>data.
          vf_then (vf_try (VFATStatFile D path)) (\<lambda>r.
          if r \<noteq> None then vf_fail
          else
            vf_then (vf_access (\<lambda>v. load 0 1 path)) (\<lambda>c.
            if hd c \<noteq> chr CHR ''/'' then vf_fail
            else
              vf_then (vf_access (\<lambda>v. GetBaseName (stack_array VFAT_PATH_SIZE v) path)) (\<lambda>r.
              case r of
                None \<Rightarrow> vf_fail
              | Some basename \<Rightarrow>
                  vf_then (vf_access (\<lambda>v. GetDirName (stack_array VFAT_PATH_SIZE v) path)) (\<lambda>r.
                  case r of
                    None \<Rightarrow> vf_fail
                  | Some dirname \<Rightarrow>
                      vf_then (LoadDir D dirname) (\<lambda>(dir, dirClustno).
                      PutFile_at D isDir basename dir dirClustno data sz)))))))"

definition VFATMkdir :: "'s blkdev \<Rightarrow> bytes \<Rightarrow> ('s, unit) vfat_op" where
  "VFATMkdir D path =
     vf_then (vf_reads vf_ClusterSize) (\<lambda>csize.
     vf_then (vf_alloc (\<lambda>h. case Calloc h 1 csize of (None, h') \<Rightarrow> Some (-1, [], h') | (Some c, h') \<Rightarrow> Some (0, c, h'))) (\<lambda>data.
     VfatPutFile D True path (Some data) csize))"

definition VFATPutFile :: "'s blkdev \<Rightarrow> bytes \<Rightarrow> bytes option \<Rightarrow> nat \<Rightarrow> ('s, unit) vfat_op" where
  "VFATPutFile D path data sz = VfatPutFile D False path data sz"

subsection \<open>Listing\<close>

text \<open>The loop has no test against the size of the directory; results of \<open>StrArrAppend\<close> are ignored.\<close>

function dir_names :: "bytes \<Rightarrow> nat \<Rightarrow> strarr \<Rightarrow> heap \<Rightarrow> (strarr \<times> heap) option" where
  "dir_names data i paths h =
     (case load (32 * i) 1 data of
        None \<Rightarrow> None
      | Some c \<Rightarrow>
          if hd c = 0 then Some (paths, h)
          else if hd c = 0xE5 then dir_names data (Suc i) paths h
          else
            (case load (32 * i + 11) 1 data of
               None \<Rightarrow> None
             | Some a \<Rightarrow>
                 if unat (hd a) = ATTR_LONG_NAME then dir_names data (Suc i) paths h
                 else
                   (case load (32 * i) 11 data of
                      None \<Rightarrow> None
                    | Some n \<Rightarrow>
                        (case StrArrAppend h paths (Some (ExternShortname n)) of
                           None \<Rightarrow> None
                         | Some (rc, paths', h') \<Rightarrow> dir_names data (Suc i) paths' h'))))"
  by pat_completeness auto
termination
  by (relation "measure (\<lambda>(data, i, paths, h). length data - 32 * i)") (auto simp: load_def split: if_splits)

declare dir_names.simps [simp del]

definition VFATDir :: "'s blkdev \<Rightarrow> bytes \<Rightarrow> strarr \<Rightarrow> ('s, strarr) vfat_op" where
  "VFATDir D path paths =
     vf_then (LoadDir D path) (\<lambda>(dir, clustno).
     vf_alloc (\<lambda>h. map_option (\<lambda>(paths', h'). (0, paths', h')) (dir_names (buf_data dir) 0 paths h)))"

end
