(* ===== verification/VfatData.thy ===== *)
theory VfatData
  imports VfatFat VfatFile
begin

text \<open>
  The data of a FAT volume on a device that is a flat array of bytes: clusters as parts of the image,
  reading and writing along a chain.
\<close>

subsection \<open>Clusters of the image\<close>

definition SecPerClus :: "'s vfat \<Rightarrow> nat" where
  "SecPerClus v = bpb ''SecPerClus'' (vf_bpb v)"

definition cluster_pos :: "'s vfat \<Rightarrow> nat \<Rightarrow> nat" where
  "cluster_pos v c = (vf_FirstDataSector v + (c - 2) * SecPerClus v) * 512"

definition cluster_img :: "('s \<Rightarrow> bytes) \<Rightarrow> 's vfat \<Rightarrow> nat \<Rightarrow> bytes" where
  "cluster_img img v c = slice (cluster_pos v c) (vf_ClusterSize v) (img (vf_dev v))"

definition vfat_ok :: "('s \<Rightarrow> bool) \<Rightarrow> ('s \<Rightarrow> bool) \<Rightarrow> ('s \<Rightarrow> bytes) \<Rightarrow> 's vfat \<Rightarrow> bool" where
  "vfat_ok dinv dready img v \<longleftrightarrow> dinv (vf_dev v) \<and> dready (vf_dev v) \<and> heap_ok (vf_heap v) \<and> fat_ok v \<and>
     0 < SecPerClus v \<and> vf_ClusterSize v = SecPerClus v * 512 \<and> vf_ClusterSize v < 2 ^ 32 \<and>
     vf_FirstDataSector v + vf_CountOfClusters v * SecPerClus v < 2 ^ 32 \<and>
     (vf_FirstDataSector v + vf_CountOfClusters v * SecPerClus v) * 512 \<le> length (img (vf_dev v))"

lemma clusters_apart:
  fixes s k c d :: nat
  assumes "2 \<le> c" "c < d"
  shows "(k + (c - 2) * s) * 512 + s * 512 \<le> (k + (d - 2) * s) * 512"
proof -
  have "(c - 2 + 1) * s \<le> (d - 2) * s" using assms by (intro mult_right_mono) simp_all
  then show ?thesis by (simp add: algebra_simps)
qed

lemma cluster_place:
  assumes "vfat_ok dinv dready img v" "cluster_of v c"
  shows "FirstSectorOfCluster v c * 512 = cluster_pos v c" "cluster_pos v c + vf_ClusterSize v \<le> length (img (vf_dev v))"
    "vf_FirstDataSector v * 512 \<le> cluster_pos v c"
proof -
  let ?s = "SecPerClus v" and ?k = "vf_FirstDataSector v"
  from assms have c: "2 \<le> c" "c < vf_CountOfClusters v + 2" by (simp_all add: cluster_of_def)
  have lim: "?k + vf_CountOfClusters v * ?s < 2 ^ 32" "0 < ?s" "vf_ClusterSize v = ?s * 512"
    "(?k + vf_CountOfClusters v * ?s) * 512 \<le> length (img (vf_dev v))"
    using assms(1) by (simp_all add: vfat_ok_def)
  have "fat_ok v" using assms(1) by (simp add: vfat_ok_def)
  then have "c < 2 ^ 30" using cluster_of_number(1) [OF _ assms(2)] by (simp add: in_fat_def)
  with c have sub: "usub32 c 2 = c - 2"
  proof -
    from c(1) obtain d where d: "c = d + 2" by (metis add.commute le_Suc_ex)
    have "usub32 c 2 = (d + 2 ^ 32) mod 2 ^ 32" by (simp add: usub32_def u32_def d)
    also have "\<dots> = d" using \<open>c < 2 ^ 30\<close> d by (simp only: mod_add_self2) simp
    finally show ?thesis by (simp add: d)
  qed
  have m: "(c - 2 + 1) * ?s \<le> vf_CountOfClusters v * ?s" using c by (intro mult_right_mono) simp_all
  then have "?k + (c - 2) * ?s < 2 ^ 32" using lim(1) by simp
  then show "FirstSectorOfCluster v c * 512 = cluster_pos v c"
    unfolding FirstSectorOfCluster_def sub cluster_pos_def SecPerClus_def [symmetric] by (simp add: add.commute)
  have "(?k + (c - 2) * ?s) * 512 + ?s * 512 \<le> (?k + vf_CountOfClusters v * ?s) * 512" using m by (simp add: algebra_simps)
  with lim show "cluster_pos v c + vf_ClusterSize v \<le> length (img (vf_dev v))" by (simp add: cluster_pos_def)
  show "?k * 512 \<le> cluster_pos v c" by (simp add: cluster_pos_def)
qed

lemma length_cluster_img:
  "vfat_ok dinv dready img v \<Longrightarrow> cluster_of v c \<Longrightarrow> length (cluster_img img v c) = vf_ClusterSize v"
  using cluster_place(2) [of dinv dready img v c] by (simp add: cluster_img_def)

lemma length_cluster_imgs:
  "vfat_ok dinv dready img v \<Longrightarrow> \<forall>c \<in> set cs. cluster_of v c \<Longrightarrow>
    length (concat (map (cluster_img img v) cs)) = length cs * vf_ClusterSize v"
  by (induction cs) (auto simp: length_cluster_img)

lemma clusters_disjoint:
  assumes "vfat_ok dinv dready img v" "cluster_of v c" "cluster_of v e" "c \<noteq> e"
  shows "cluster_pos v c + vf_ClusterSize v \<le> cluster_pos v e \<or> cluster_pos v e + vf_ClusterSize v \<le> cluster_pos v c"
proof -
  have "vf_ClusterSize v = SecPerClus v * 512" using assms(1) by (simp add: vfat_ok_def)
  moreover have "2 \<le> c" "2 \<le> e" using assms(2,3) by (simp_all add: cluster_of_def)
  ultimately show ?thesis
    using assms(4) clusters_apart [of c e "vf_FirstDataSector v" "SecPerClus v"] clusters_apart [of e c "vf_FirstDataSector v" "SecPerClus v"]
    by (auto simp: cluster_pos_def neq_iff)
qed

text \<open>A call that reads: the device serves the same image, and the allocator has moved on.\<close>

definition vf_kept :: "('s \<Rightarrow> bool) \<Rightarrow> ('s \<Rightarrow> bool) \<Rightarrow> ('s \<Rightarrow> bytes) \<Rightarrow> 's vfat \<Rightarrow> 's vfat \<Rightarrow> bool" where
  "vf_kept dinv dready img v v' \<longleftrightarrow> (\<exists>s h. v' = v\<lparr>vf_dev := s, vf_heap := h\<rparr> \<and> dinv s \<and> dready s \<and> heap_ok h \<and> img s = img (vf_dev v))"

text \<open>The object with another device and another allocator, which is what reading and writing leave.\<close>

lemma with_dev_simps [simp]:
  "in_fat (v\<lparr>vf_dev := s\<rparr>) = in_fat v" "in_fat (v\<lparr>vf_heap := h\<rparr>) = in_fat v" "fat_ok (v\<lparr>vf_dev := s\<rparr>) = fat_ok v" "fat_ok (v\<lparr>vf_heap := h\<rparr>) = fat_ok v"
  "cluster_of (v\<lparr>vf_dev := s\<rparr>) = cluster_of v" "cluster_of (v\<lparr>vf_heap := h\<rparr>) = cluster_of v"
  "IsEOF (v\<lparr>vf_dev := s\<rparr>) = IsEOF v" "IsEOF (v\<lparr>vf_heap := h\<rparr>) = IsEOF v"
  "GetFATEntry (v\<lparr>vf_dev := s\<rparr>) = GetFATEntry v" "GetFATEntry (v\<lparr>vf_heap := h\<rparr>) = GetFATEntry v"
  "cluster_pos (v\<lparr>vf_dev := s\<rparr>) = cluster_pos v" "cluster_pos (v\<lparr>vf_heap := h\<rparr>) = cluster_pos v"
  "SecPerClus (v\<lparr>vf_dev := s\<rparr>) = SecPerClus v" "SecPerClus (v\<lparr>vf_heap := h\<rparr>) = SecPerClus v"
  "FirstSectorOfCluster (v\<lparr>vf_dev := s\<rparr>) = FirstSectorOfCluster v" "FirstSectorOfCluster (v\<lparr>vf_heap := h\<rparr>) = FirstSectorOfCluster v"
proof -
  show gf: "GetFATEntry (v\<lparr>vf_dev := s\<rparr>) = GetFATEntry v" "GetFATEntry (v\<lparr>vf_heap := h\<rparr>) = GetFATEntry v"
    by (rule ext, rule GetFATEntry_cong; simp)+
  show inf: "in_fat (v\<lparr>vf_dev := s\<rparr>) = in_fat v" "in_fat (v\<lparr>vf_heap := h\<rparr>) = in_fat v"
    by (simp_all add: fun_eq_iff in_fat_def GetFATOffset_def)
  show "fat_ok (v\<lparr>vf_dev := s\<rparr>) = fat_ok v" "fat_ok (v\<lparr>vf_heap := h\<rparr>) = fat_ok v"
    by (simp_all add: fat_ok_def inf)
  show "SecPerClus (v\<lparr>vf_dev := s\<rparr>) = SecPerClus v" "SecPerClus (v\<lparr>vf_heap := h\<rparr>) = SecPerClus v"
    by (simp_all add: SecPerClus_def)
qed (simp_all add: fun_eq_iff cluster_of_def IsEOF_def cluster_pos_def SecPerClus_def FirstSectorOfCluster_def)

lemma kept_simps:
  assumes "vf_kept dinv dready img v v'"
  shows "cluster_img img v' = cluster_img img v" "cluster_of v' = cluster_of v" "GetFATEntry v' = GetFATEntry v" "IsEOF v' = IsEOF v"
    "vf_ClusterSize v' = vf_ClusterSize v"
  using assms by (auto simp: vf_kept_def cluster_img_def fun_eq_iff)

lemma kept_ok: "vf_kept dinv dready img v v' \<Longrightarrow> vfat_ok dinv dready img v \<Longrightarrow> vfat_ok dinv dready img v'"
  by (auto simp: vf_kept_def vfat_ok_def)

lemma kept_trans: "vf_kept dinv dready img v v1 \<Longrightarrow> vf_kept dinv dready img v1 v2 \<Longrightarrow> vf_kept dinv dready img v v2"
proof -
  assume a: "vf_kept dinv dready img v v1" "vf_kept dinv dready img v1 v2"
  from a(1) obtain s h where 1: "v1 = v\<lparr>vf_dev := s, vf_heap := h\<rparr>" "img s = img (vf_dev v)" unfolding vf_kept_def by blast
  from a(2) obtain s' h' where 2: "v2 = v1\<lparr>vf_dev := s', vf_heap := h'\<rparr>" "dinv s'" "dready s'" "heap_ok h'" "img s' = img (vf_dev v1)"
    unfolding vf_kept_def by blast
  have "v2 = v\<lparr>vf_dev := s', vf_heap := h'\<rparr>" "img s' = img (vf_dev v)" using 1 2(1,5) by simp_all
  with 2(2-4) show ?thesis unfolding vf_kept_def by blast
qed

lemma kept_refl: "vfat_ok dinv dready img v \<Longrightarrow> vf_kept dinv dready img v v"
  unfolding vf_kept_def by (intro exI [of _ "vf_dev v"] exI [of _ "vf_heap v"]) (simp add: vfat_ok_def)

lemma kept_chain: "fat_chain v c cs \<Longrightarrow> GetFATEntry v' = GetFATEntry v \<Longrightarrow> IsEOF v' = IsEOF v \<Longrightarrow> fat_chain v' c cs"
  by (induction rule: fat_chain.induct) (auto intro: chain_end chain_step)

text \<open>A call that writes: the device serves an image of the same length.\<close>

definition vf_wrote :: "('s \<Rightarrow> bool) \<Rightarrow> ('s \<Rightarrow> bool) \<Rightarrow> ('s \<Rightarrow> bytes) \<Rightarrow> 's vfat \<Rightarrow> 's vfat \<Rightarrow> bool" where
  "vf_wrote dinv dready img v v' \<longleftrightarrow>
     (\<exists>s h. v' = v\<lparr>vf_dev := s, vf_heap := h\<rparr> \<and> dinv s \<and> dready s \<and> heap_ok h \<and> length (img s) = length (img (vf_dev v)))"

lemma wrote_simps:
  assumes "vf_wrote dinv dready img v v'"
  shows "cluster_of v' = cluster_of v" "GetFATEntry v' = GetFATEntry v" "IsEOF v' = IsEOF v" "vf_ClusterSize v' = vf_ClusterSize v"
    "cluster_pos v' = cluster_pos v" "vf_fat v' = vf_fat v" "vf_rootdir v' = vf_rootdir v" "vf_rootdirClustno v' = vf_rootdirClustno v"
    "length (img (vf_dev v')) = length (img (vf_dev v))"
  using assms by (auto simp: vf_wrote_def)

lemma wrote_ok: "vf_wrote dinv dready img v v' \<Longrightarrow> vfat_ok dinv dready img v \<Longrightarrow> vfat_ok dinv dready img v'"
  by (auto simp: vf_wrote_def vfat_ok_def)

lemma wrote_trans: "vf_wrote dinv dready img v v1 \<Longrightarrow> vf_wrote dinv dready img v1 v2 \<Longrightarrow> vf_wrote dinv dready img v v2"
proof -
  assume a: "vf_wrote dinv dready img v v1" "vf_wrote dinv dready img v1 v2"
  from a(1) obtain s h where 1: "v1 = v\<lparr>vf_dev := s, vf_heap := h\<rparr>" "length (img s) = length (img (vf_dev v))" unfolding vf_wrote_def by blast
  from a(2) obtain s' h' where 2: "v2 = v1\<lparr>vf_dev := s', vf_heap := h'\<rparr>" "dinv s'" "dready s'" "heap_ok h'" "length (img s') = length (img (vf_dev v1))"
    unfolding vf_wrote_def by blast
  have "v2 = v\<lparr>vf_dev := s', vf_heap := h'\<rparr>" "length (img s') = length (img (vf_dev v))" using 1 2(1,5) by simp_all
  with 2(2-4) show ?thesis unfolding vf_wrote_def by blast
qed

lemma wrote_refl: "vfat_ok dinv dready img v \<Longrightarrow> vf_wrote dinv dready img v v"
  unfolding vf_wrote_def by (intro exI [of _ "vf_dev v"] exI [of _ "vf_heap v"]) (simp add: vfat_ok_def)

subsection \<open>Reading\<close>

context blkdev_image
begin

lemma ReadCluster_runs:
  assumes ok: "vfat_ok inv ready image v" and c: "cluster_of v c"
    and b: "buf_inv b" "buf_size b + vf_ClusterSize v \<le> 2 ^ 31"
  shows "\<exists>b' v'. ReadCluster D c b v = Some (Some b', v') \<and> vf_kept inv ready image v v' \<and> buf_inv b' \<and>
    buf_size b' = buf_size b + vf_ClusterSize v \<and> buf_contents b' = buf_contents b @ cluster_img image v c"
proof -
  let ?n = "vf_ClusterSize v"
  have h: "heap_ok (vf_heap v)" "inv (vf_dev v)" "ready (vf_dev v)" using ok by (simp_all add: vfat_ok_def)
  have n: "u64 (buf_size b + ?n) = buf_size b + ?n" using b(2) by simp
  from BufReserve_spec [OF b] h(1) obtain b1 h1 where
    b1: "BufReserve (vf_heap v) b (buf_size b + ?n) = (0, b1, h1)" "buf_inv b1" "buf_size b1 = buf_size b" "buf_contents b1 = buf_contents b"
      "buf_size b + ?n \<le> buf_cap b1" "heap_ok h1" by (metis prod_cases3)
  note p = cluster_place [OF ok c]
  have "FirstSectorOfCluster v c * 512 + ?n \<le> length (image (vf_dev v))" using p by simp
  from read_ok [OF h(2,3) this] obtain s where
    s: "BlkdevRead D (vf_dev v) (FirstSectorOfCluster v c) ?n = Some (0, cluster_img image v c, s)" "inv s" "ready s" "image s = image (vf_dev v)"
    by (auto simp: p(1) cluster_img_def)
  have len: "length (cluster_img image v c) = ?n" by (rule length_cluster_img [OF ok c])
  have cap: "buf_size b1 + length (cluster_img image v c) \<le> length (buf_data b1)" using b1(2,3,5) len by (simp add: buf_inv_def)
  let ?b = "b1\<lparr>buf_data := overwrite (buf_size b1) (cluster_img image v c) (buf_data b1), buf_size := buf_size b + ?n\<rparr>"
  have "ReadCluster D c b v = Some (Some ?b, v\<lparr>vf_dev := s, vf_heap := h1\<rparr>)"
    using b1(1,3) s(1) cap b(2)
    by (simp add: ReadCluster_def vf_then_def vf_reads_def vf_alloc_def dev_read_def vf_access_def vf_ok_def n store_def)
  moreover have "buf_inv ?b" using b1(2,3,5) cap by (simp add: buf_inv_def)
  moreover have "buf_contents ?b = buf_contents b @ cluster_img image v c"
    using b1(2,3,4) b(1) len cap by (simp add: buf_contents_def overwrite_def buf_inv_def)
  moreover have "vf_kept inv ready image v (v\<lparr>vf_dev := s, vf_heap := h1\<rparr>)" using s b1(6) by (auto simp: vf_kept_def)
  ultimately show ?thesis by (intro exI [of _ ?b] exI [of _ "v\<lparr>vf_dev := s, vf_heap := h1\<rparr>"]) simp
qed

lemma ReadClusters_runs:
  assumes "fat_chain v c cs" "vfat_ok inv ready image v" "\<forall>c \<in> set cs. cluster_of v c"
    and "buf_inv b" "buf_size b + length cs * vf_ClusterSize v \<le> 2 ^ 31"
  shows "\<exists>b' v'. ReadClusters D c b v = Some (Some b', v') \<and> vf_kept inv ready image v v' \<and> buf_inv b' \<and>
    buf_contents b' = buf_contents b @ concat (map (cluster_img image v) cs) \<and> buf_size b' = buf_size b + length cs * vf_ClusterSize v"
  using assms
proof (induction cs arbitrary: v c b rule: list.induct)
  case Nil
  then have "c = 0 \<or> IsEOF v c" by (blast elim: fat_chain_NilE)
  then have "ReadClusters D c b v = Some (Some b, v)" by (subst ReadClusters.simps) auto
  with Nil kept_refl [of inv ready image v] show ?case by simp
next
  case (Cons d cs)
  from Cons.prems(1) obtain n where n: "d = c" "c \<noteq> 0" "\<not> IsEOF v c" "GetFATEntry v c = Some n" "fat_chain v n cs"
    by (auto elim: fat_chain_ConsE)
  have c: "cluster_of v c" "buf_size b + vf_ClusterSize v \<le> 2 ^ 31" using Cons.prems(3,5) n(1) by simp_all
  from ReadCluster_runs [OF Cons.prems(2) c(1) Cons.prems(4) c(2)] obtain b1 v1 where
    b1: "ReadCluster D c b v = Some (Some b1, v1)" "vf_kept inv ready image v v1" "buf_inv b1" "buf_size b1 = buf_size b + vf_ClusterSize v"
      "buf_contents b1 = buf_contents b @ cluster_img image v c" by blast
  note k = kept_simps [OF b1(2)]
  have "fat_chain v1 n cs" by (rule kept_chain [OF n(5) k(3,4)])
  from Cons.IH [OF this kept_ok [OF b1(2) Cons.prems(2)] _ b1(3)] Cons.prems(3,5) b1(4) k obtain b2 v2 where
    b2: "ReadClusters D n b1 v1 = Some (Some b2, v2)" "vf_kept inv ready image v1 v2" "buf_inv b2"
      "buf_contents b2 = buf_contents b1 @ concat (map (cluster_img image v) cs)" "buf_size b2 = buf_size b1 + length cs * vf_ClusterSize v"
    by auto
  have "ReadClusters D c b v = Some (Some b2, v2)" using n(2,3,4) b1(1) b2(1) k(3) by (subst ReadClusters.simps) simp
  with b2 b1 n(1) kept_trans [OF b1(2) b2(2)] show ?case by simp
qed

text \<open>What is apart from the clusters that are written stays.\<close>

lemma WriteCluster_runs:
  assumes ok: "vfat_ok inv ready image v" and c: "cluster_of v c" and d: "length data = vf_ClusterSize v"
  shows "\<exists>s. WriteCluster D c data v = Some (Some (), v\<lparr>vf_dev := s\<rparr>) \<and> vf_wrote inv ready image v (v\<lparr>vf_dev := s\<rparr>) \<and>
    image s = overwrite (cluster_pos v c) data (image (vf_dev v))"
proof -
  have h: "heap_ok (vf_heap v)" "inv (vf_dev v)" "ready (vf_dev v)" using ok by (simp_all add: vfat_ok_def)
  note p = cluster_place [OF ok c]
  have "FirstSectorOfCluster v c * 512 + vf_ClusterSize v \<le> length (image (vf_dev v))" using p by simp
  from write_ok [OF h(2,3) this d] obtain s where
    s: "BlkdevWrite D (vf_dev v) (FirstSectorOfCluster v c) data (vf_ClusterSize v) = Some (0, s)" "inv s" "ready s"
      "image s = overwrite (cluster_pos v c) data (image (vf_dev v))" by (auto simp: p(1))
  have "length (image s) = length (image (vf_dev v))" using s(4) p(2) d by simp
  then have "vf_wrote inv ready image v (v\<lparr>vf_dev := s\<rparr>)"
    unfolding vf_wrote_def using s(2,3) h(1) by (intro exI [of _ s] exI [of _ "vf_heap v"]) simp
  moreover have "WriteCluster D c data v = Some (Some (), v\<lparr>vf_dev := s\<rparr>)"
    using s(1) by (simp add: WriteCluster_def vf_then_def vf_reads_def dev_write_def)
  ultimately show ?thesis using s(4) by blast
qed

lemma write_last_runs:
  assumes ok: "vfat_ok inv ready image v" and c: "cluster_of v c" and d: "length ptr \<le> vf_ClusterSize v"
  shows "\<exists>v'. write_last D c ptr v = Some (Some [], v') \<and> vf_wrote inv ready image v v' \<and>
    image (vf_dev v') = overwrite (cluster_pos v c) (ptr @ replicate (vf_ClusterSize v - length ptr) 0) (image (vf_dev v))"
proof -
  let ?n = "vf_ClusterSize v"
  let ?h = "heap_next (vf_heap v)"
  let ?v = "v\<lparr>vf_heap := ?h\<rparr>"
  have h: "heap_ok (vf_heap v)" "?n < 2 ^ 32" using ok by (simp_all add: vfat_ok_def)
  from heap_ok_0 [OF h(1)] obtain x where x: "vf_heap v 0 = Some x" by blast
  then have cal: "Calloc (vf_heap v) 1 ?n = (Some (replicate ?n 0), ?h)" using h(2) by (simp add: Calloc_def)
  have st: "store 0 ptr (replicate ?n 0) = Some (ptr @ replicate (?n - length ptr) 0)"
    using d by (simp add: store_def overwrite_def)
  have ok': "vfat_ok inv ready image ?v" using ok by (simp add: vfat_ok_def)
  have "length (ptr @ replicate (?n - length ptr) 0) = vf_ClusterSize ?v" using d by simp
  from WriteCluster_runs [OF ok' _ this] c obtain s where
    s: "WriteCluster D c (ptr @ replicate (?n - length ptr) 0) ?v = Some (Some (), ?v\<lparr>vf_dev := s\<rparr>)"
      "vf_wrote inv ready image ?v (?v\<lparr>vf_dev := s\<rparr>)"
      "image s = overwrite (cluster_pos v c) (ptr @ replicate (?n - length ptr) 0) (image (vf_dev v))" by auto
  have "vf_wrote inv ready image v ?v"
    unfolding vf_wrote_def using ok h(1) by (intro exI [of _ "vf_dev v"] exI [of _ ?h]) (simp add: vfat_ok_def)
  from wrote_trans [OF this s(2)] s(1,3) cal st show ?thesis
    by (auto simp: write_last_def vf_then_def vf_reads_def vf_alloc_def vf_access_def vf_ok_def)
qed

lemma overwrite_apart:
  assumes "p + length d \<le> length (xs :: bytes)" "off + k \<le> length xs" "off + k \<le> p \<or> p + length d \<le> off"
  shows "slice off k (overwrite p d xs) = slice off k xs"
  using assms by (auto simp: slice_overwrite_before slice_overwrite_after)

lemma write_clusters_runs:
  assumes "fat_chain v c cs" "vfat_ok inv ready image v" "\<forall>c \<in> set cs. cluster_of v c" "distinct cs"
    and "length ptr \<le> length cs * vf_ClusterSize v" "length cs * vf_ClusterSize v < length ptr + vf_ClusterSize v"
  shows "\<exists>v'. write_clusters D c ptr v = Some (Some [], v') \<and> vf_wrote inv ready image v v' \<and>
    concat (map (cluster_img image v') cs) = ptr @ replicate (length cs * vf_ClusterSize v - length ptr) 0 \<and>
    (\<forall>off k. off + k \<le> length (image (vf_dev v)) \<and> (\<forall>c \<in> set cs. off + k \<le> cluster_pos v c \<or> cluster_pos v c + vf_ClusterSize v \<le> off) \<longrightarrow>
       slice off k (image (vf_dev v')) = slice off k (image (vf_dev v)))"
  using assms
proof (induction cs arbitrary: v c ptr rule: list.induct)
  case Nil
  then have "c = 0 \<or> IsEOF v c" by (blast elim: fat_chain_NilE)
  then have "write_clusters D c ptr v = Some (Some ptr, v)" by (subst write_clusters.simps) auto
  with Nil wrote_refl [of inv ready image v] show ?case by simp
next
  case (Cons d cs)
  let ?n = "vf_ClusterSize v"
  from Cons.prems(1) obtain n where n: "d = c" "c \<noteq> 0" "\<not> IsEOF v c" "GetFATEntry v c = Some n" "fat_chain v n cs"
    by (auto elim: fat_chain_ConsE)
  have c: "cluster_of v c" using Cons.prems(3) n(1) by simp
  note p = cluster_place [OF Cons.prems(2) c]
  show ?case
  proof (cases "length ptr < ?n")
    case True
    then have cs: "cs = []" using Cons.prems(6) by (cases cs) (auto simp: algebra_simps)
    from write_last_runs [OF Cons.prems(2) c, of ptr] True obtain v' where
      v': "write_last D c ptr v = Some (Some [], v')" "vf_wrote inv ready image v v'"
        "image (vf_dev v') = overwrite (cluster_pos v c) (ptr @ replicate (?n - length ptr) 0) (image (vf_dev v))" by auto
    have "write_clusters D c ptr v = Some (Some [], v')" using n True v'(1) by (subst write_clusters.simps) simp
    moreover have "cluster_img image v' c = ptr @ replicate (?n - length ptr) 0"
      unfolding cluster_img_def wrote_simps [OF v'(2)] v'(3) using p(2) True by (intro slice_overwrite_same) simp_all
    moreover have "slice off k (image (vf_dev v')) = slice off k (image (vf_dev v))"
      if "off + k \<le> length (image (vf_dev v))" "off + k \<le> cluster_pos v c \<or> cluster_pos v c + ?n \<le> off" for off k
      unfolding v'(3) using p(2) True that by (intro overwrite_apart) auto
    ultimately show ?thesis using v'(2) cs n(1) by auto
  next
    case False
    have len: "length (take ?n ptr) = ?n" using False by simp
    from WriteCluster_runs [OF Cons.prems(2) c len] obtain v1 where
      v1: "WriteCluster D c (take ?n ptr) v = Some (Some (), v1)" "vf_wrote inv ready image v v1"
        "image (vf_dev v1) = overwrite (cluster_pos v c) (take ?n ptr) (image (vf_dev v))" by auto
    note k = wrote_simps [OF v1(2)]
    have chain: "fat_chain v1 n cs" by (rule kept_chain [OF n(5) k(2,3)])
    have cl: "\<forall>c \<in> set cs. cluster_of v1 c" "distinct cs" using Cons.prems(3,4) k(1) by simp_all
    have sz: "length (drop ?n ptr) \<le> length cs * vf_ClusterSize v1" "length cs * vf_ClusterSize v1 < length (drop ?n ptr) + vf_ClusterSize v1"
      using Cons.prems(5,6) False k(4) by simp_all
    from Cons.IH [OF chain wrote_ok [OF v1(2) Cons.prems(2)] cl sz, unfolded k length_drop] obtain v2 where
      v2: "write_clusters D n (drop ?n ptr) v1 = Some (Some [], v2)" "vf_wrote inv ready image v1 v2"
        "concat (map (cluster_img image v2) cs) = drop ?n ptr @ replicate (length cs * ?n - (length ptr - ?n)) 0"
        "\<forall>off k. off + k \<le> length (image (vf_dev v)) \<and> (\<forall>c \<in> set cs. off + k \<le> cluster_pos v c \<or> cluster_pos v c + ?n \<le> off) \<longrightarrow>
           slice off k (image (vf_dev v2)) = slice off k (image (vf_dev v1))"
      by blast
    have "write_clusters D c ptr v = Some (Some [], v2)"
      using n(2,3,4) False v1(1) v2(1) k(2) by (subst write_clusters.simps) simp
    moreover have "cluster_img image v2 c = take ?n ptr"
    proof -
      have "cluster_pos v c + ?n \<le> cluster_pos v e \<or> cluster_pos v e + ?n \<le> cluster_pos v c" if "e \<in> set cs" for e
        using that Cons.prems(2,3,4) n(1) by (intro clusters_disjoint) auto
      with v2(4) p(2) have "slice (cluster_pos v c) ?n (image (vf_dev v2)) = slice (cluster_pos v c) ?n (image (vf_dev v1))" by blast
      also have "\<dots> = take ?n ptr" unfolding v1(3) using p(2) len by (intro slice_overwrite_same) simp_all
      finally show ?thesis by (simp add: cluster_img_def wrote_simps [OF v2(2)] k)
    qed
    moreover have "slice off m (image (vf_dev v2)) = slice off m (image (vf_dev v))"
      if "off + m \<le> length (image (vf_dev v))" "\<forall>e \<in> set (d # cs). off + m \<le> cluster_pos v e \<or> cluster_pos v e + ?n \<le> off" for off m
    proof -
      have "slice off m (image (vf_dev v2)) = slice off m (image (vf_dev v1))" using v2(4) that by simp
      also have "\<dots> = slice off m (image (vf_dev v))" unfolding v1(3) using p(2) len that n(1) by (intro overwrite_apart) simp_all
      finally show ?thesis .
    qed
    moreover have "vf_wrote inv ready image v v2" by (rule wrote_trans [OF v1(2) v2(2)])
    moreover have "?n + length cs * ?n - length ptr = length cs * ?n - (length ptr - ?n)" using False by simp
    ultimately show ?thesis using v2(3) n(1) by (auto simp flip: append_assoc)
  qed
qed

end

end
