(* ===== verification/VfatDir.thy ===== *)
theory VfatDir
  imports VfatFile
begin

text \<open>
  Directories of a FAT file system as arrays of 32-byte entries: what a search finds, which entry a new
  one replaces, and that a new entry is found again.
\<close>

subsection \<open>Search\<close>

definition entry_byte :: "bytes \<Rightarrow> nat \<Rightarrow> nat \<Rightarrow> byte" where
  "entry_byte d i k = d ! (32 * i + k)"

definition entry_at :: "bytes \<Rightarrow> nat \<Rightarrow> bytes" where
  "entry_at d i = slice (32 * i) 32 d"

text \<open>The entry is in use, belongs to no long name, and has the name.\<close>

definition entry_named :: "bytes \<Rightarrow> bytes \<Rightarrow> nat \<Rightarrow> bool" where
  "entry_named name d i \<longleftrightarrow> entry_byte d i 0 \<noteq> 0xE5 \<and> unat (entry_byte d i 11) \<noteq> ATTR_LONG_NAME \<and> slice (32 * i) 11 d = take 11 name"

lemma load_byte: "off < length d \<Longrightarrow> load off 1 d = Some [d ! off]"
  by (simp add: load_def slice_def take_Suc_conv_app_nth)

lemma find_dirent_step:
  assumes "32 * i + 32 \<le> length d"
  shows "find_dirent name d n i =
     (if entry_byte d i 0 = 0 \<or> n \<le> 32 * i then Some None
      else if entry_named name d i then Some (Some (entry_at d i))
      else find_dirent name d n (Suc i))"
proof -
  have l: "load (32 * i) 1 d = Some [entry_byte d i 0]" "load (32 * i + 11) 1 d = Some [entry_byte d i 11]"
    using assms load_byte [of "32 * i" d] load_byte [of "32 * i + 11" d] by (simp_all add: entry_byte_def)
  have s: "load (32 * i) 11 d = Some (slice (32 * i) 11 d)" "load (32 * i) 32 d = Some (entry_at d i)"
    using assms by (simp_all add: load_def entry_at_def)
  show ?thesis by (subst find_dirent.simps) (simp add: l [unfolded One_nat_def] s entry_named_def)
qed

lemma find_dirent_hit:
  assumes "\<forall>k \<in> {i..<j}. entry_byte d k 0 \<noteq> 0 \<and> \<not> entry_named name d k" "i \<le> j" "32 * j + 32 \<le> length d" "32 * j < n"
    and "entry_byte d j 0 \<noteq> 0" "entry_named name d j"
  shows "find_dirent name d n i = Some (Some (entry_at d j))"
  using assms(2,1)
proof (induction i rule: inc_induct)
  case base
  then show ?case using assms by (subst find_dirent_step) simp_all
next
  case (step i)
  then show ?case using assms(3,4) by (subst find_dirent_step) simp_all
qed

lemma find_dirent_miss:
  assumes "find_dirent name d n i = Some None" "i \<le> j" "32 * j + 32 \<le> length d" "32 * j < n" "\<forall>k \<in> {i..j}. entry_byte d k 0 \<noteq> 0"
  shows "\<not> entry_named name d j"
  using assms(2,1,5)
proof (induction i rule: inc_induct)
  case base
  then show ?case using assms(3,4) by (subst (asm) find_dirent_step) (auto split: if_splits)
next
  case (step i)
  from step.prems step.hyps assms(3,4) have "find_dirent name d n (Suc i) = Some None"
    by (subst (asm) find_dirent_step) (auto split: if_splits)
  with step show ?case by simp
qed

subsection \<open>Insertion\<close>

definition slot_free :: "bytes \<Rightarrow> nat \<Rightarrow> bool" where
  "slot_free d i \<longleftrightarrow> entry_byte d i 0 = 0 \<or> entry_byte d i 0 = 0xE5"

lemma free_slot_iff:
  "i \<le> j \<Longrightarrow> 32 * j < length d \<Longrightarrow> free_slot d i = Some j \<longleftrightarrow> slot_free d j \<and> (\<forall>k \<in> {i..<j}. \<not> slot_free d k)"
proof (induction "j - i" arbitrary: i)
  case 0
  then have "load (32 * i) 1 d = Some [entry_byte d i 0]" "j = i" using load_byte [of "32 * i" d] by (simp_all add: entry_byte_def)
  moreover have "free_slot d (Suc i) \<noteq> Some i"
  proof -
    have "free_slot d k = Some m \<Longrightarrow> k \<le> m" for k m
      by (induction d k rule: free_slot.induct) (subst (asm) free_slot.simps, auto split: option.splits if_splits dest: Suc_leD)
    then show ?thesis by fastforce
  qed
  ultimately show ?case by (subst free_slot.simps) (auto simp: slot_free_def)
next
  case (Suc n)
  then have l: "load (32 * i) 1 d = Some [entry_byte d i 0]" "i < j" using load_byte [of "32 * i" d] by (simp_all add: entry_byte_def)
  then have "{i..<j} = insert i {Suc i..<j}" by auto
  with Suc l show ?case by (subst free_slot.simps) (auto simp: slot_free_def)
qed

text \<open>The directory after the insertion, of which only the part in front of its size matters.\<close>

lemma entry_overwrite:
  assumes "length e = 32" "32 * j + 32 \<le> length d"
  shows "entry_at (overwrite (32 * j) e d) j = e" "i \<noteq> j \<Longrightarrow> 32 * i + 32 \<le> length d \<Longrightarrow> entry_at (overwrite (32 * j) e d) i = entry_at d i"
proof -
  show "entry_at (overwrite (32 * j) e d) j = e" using assms by (simp add: entry_at_def slice_overwrite_same)
  assume i: "i \<noteq> j" "32 * i + 32 \<le> length d"
  from i(1) consider "32 * i + 32 \<le> 32 * j" | "32 * j + 32 \<le> 32 * i" by (auto simp: neq_iff)
  then show "entry_at (overwrite (32 * j) e d) i = entry_at d i"
    unfolding entry_at_def using assms i(2) by cases (simp_all add: slice_overwrite_before slice_overwrite_after)
qed

lemma entry_byte_at: "k < 32 \<Longrightarrow> 32 * i + 32 \<le> length d \<Longrightarrow> entry_byte d i k = entry_at d i ! k"
  by (simp add: entry_byte_def entry_at_def nth_slice)

lemma entry_named_at:
  "32 * i + 32 \<le> length d \<Longrightarrow> entry_named name d i \<longleftrightarrow>
     entry_at d i ! 0 \<noteq> 0xE5 \<and> unat (entry_at d i ! 11) \<noteq> ATTR_LONG_NAME \<and> take 11 (entry_at d i) = take 11 name"
  by (simp add: entry_named_def entry_byte_at) (simp add: entry_at_def take_slice)

lemma find_inserted:
  assumes e: "length e = 32" "e ! 0 \<noteq> 0" "e ! 0 \<noteq> 0xE5" "unat (e ! 11) \<noteq> ATTR_LONG_NAME" "take 11 e = take 11 name"
    and j: "free_slot d 0 = Some j" "32 * j + 32 \<le> n" "n \<le> length d" and miss: "find_dirent name d n 0 = Some None"
  shows "find_dirent name (overwrite (32 * j) e d) n 0 = Some (Some e)"
proof -
  let ?d = "overwrite (32 * j) e d"
  have len: "length ?d = length d" using e(1) j by simp
  have fs: "\<forall>k \<in> {0..<j}. \<not> slot_free d k" using j free_slot_iff [of 0 j d] by simp
  have old: "entry_byte ?d k 0 \<noteq> 0 \<and> \<not> entry_named name ?d k" if "k < j" for k
  proof -
    have k: "32 * k + 32 \<le> length d" "32 * k < n" "k \<noteq> j" using that j by simp_all
    have same: "entry_at ?d k = entry_at d k" using e(1) k j by (intro entry_overwrite) simp_all
    have "\<forall>m \<in> {0..k}. entry_byte d m 0 \<noteq> 0" using fs that by (auto simp: slot_free_def)
    then have "\<not> entry_named name d k" by (intro find_dirent_miss [OF miss _ k(1,2)]) simp_all
    moreover have "entry_byte d k 0 \<noteq> 0" using fs that by (auto simp: slot_free_def)
    ultimately show ?thesis using k(1) by (simp add: entry_named_at entry_byte_at len same)
  qed
  have new: "entry_at ?d j = e" using e(1) j by (intro entry_overwrite) simp_all
  have "entry_byte ?d j 0 \<noteq> 0" "entry_named name ?d j" using e j by (simp_all add: entry_byte_at entry_named_at len new)
  with find_dirent_hit [of 0 j ?d name n] old j len new show ?thesis by simp
qed

text \<open>Every other entry is still found.\<close>

lemma find_kept:
  assumes e: "length e = 32" "e ! 0 \<noteq> 0" "take 11 e \<noteq> take 11 name"
    and j: "slot_free d j" "32 * j + 32 \<le> n" "n \<le> length d" "32 dvd n" and hit: "find_dirent name d n i = Some (Some x)"
  shows "find_dirent name (overwrite (32 * j) e d) n i = Some (Some x)"
  using hit
proof (induction "n - 32 * i" arbitrary: i rule: less_induct)
  case less
  let ?d = "overwrite (32 * j) e d"
  have len: "length ?d = length d" using e(1) j by simp
  have i: "32 * i + 32 \<le> length d" "32 * i < n"
  proof -
    show "32 * i < n"
    proof (rule ccontr)
      assume "\<not> 32 * i < n"
      then show False using less.prems by (subst (asm) find_dirent.simps) (auto split: option.splits if_splits)
    qed
    with j(4) have "32 * i + 32 \<le> n" by (auto elim!: dvdE)
    with j(3) show "32 * i + 32 \<le> length d" by simp
  qed
  note step = find_dirent_step [OF i(1)] find_dirent_step [of i ?d, unfolded len, OF i(1)]
  show ?case
  proof (cases "i = j")
    case True
    have old: "\<not> entry_named name d j" "find_dirent name d n (Suc i) = Some (Some x)"
      using less.prems j(1) i(2) True unfolding step(1) by (auto simp: slot_free_def entry_named_def split: if_splits)
    have new: "entry_at ?d j = e" using e(1) i(1) True by (intro entry_overwrite) simp_all
    have "entry_byte ?d j 0 \<noteq> 0" "\<not> entry_named name ?d j"
      using e i(1) True by (simp_all add: entry_byte_at entry_named_at len new)
    with less.hyps [OF _ old(2)] i(2) True show ?thesis unfolding step(2) by simp
  next
    case False
    have same: "entry_at ?d i = entry_at d i" using e(1) i j False by (intro entry_overwrite) simp_all
    have b: "entry_byte ?d i 0 = entry_byte d i 0" "entry_named name ?d i = entry_named name d i"
      using i(1) by (simp_all add: entry_byte_at entry_named_at len same)
    show ?thesis
      using less.prems i(2) less.hyps [of "Suc i"] by (auto simp: step b same split: if_splits)
  qed
qed

subsection \<open>Short names\<close>

lemma strchr_append: "0 \<notin> set t \<Longrightarrow> posix_strchr (t @ 0 # r) c = (if c \<in> set t then Some (Some (length (takeWhile (\<lambda>x. x \<noteq> c) t))) else Some None)"
  by (induction t) auto

lemma InternShortname_spec:
  assumes t: "0 \<notin> set t"
  shows "InternShortname (t @ 0 # r) = Some
    (let d = chr CHR ''.''; stem = takeWhile (\<lambda>x. x \<noteq> d) t; ext = drop (length stem + 1) t; pad = (\<lambda>n xs. xs @ replicate (n - length xs) (chr CHR '' ''))
     in if d \<in> set t then
          (if length stem > 8 \<or> length ext > 3 then None else Some (map posix_toupper (pad 8 stem @ pad 3 ext) @ [0]))
        else if length t > 11 then None else Some (map posix_toupper (pad 11 t) @ [0]))"
proof (cases "chr CHR ''.'' \<in> set t")
  case True
  then obtain stem ext where s: "t = stem @ chr CHR ''.'' # ext" "chr CHR ''.'' \<notin> set stem" by (meson split_list_first)
  then have tw: "takeWhile (\<lambda>x. x \<noteq> chr CHR ''.'') t = stem" by (subst s(1), subst takeWhile_append2) auto
  have len: "posix_strlen (ext @ 0 # r) = Some (length ext)" using t s(1) by (intro posix_strlen_append) simp
  have p: "posix_strchr (t @ 0 # r) (chr CHR ''.'') = Some (Some (length stem))" using strchr_append [OF t] True tw by simp
  show ?thesis unfolding InternShortname_def p Let_def tw using True len by (simp add: s(1))
next
  case False
  then show ?thesis unfolding InternShortname_def strchr_append [OF t] by (simp add: Let_def t)
qed

lemma length_InternShortname:
  assumes "0 \<notin> set t" "InternShortname (t @ 0 # r) = Some (Some n)"
  shows "length n = 12"
  using assms by (auto simp: InternShortname_spec Let_def split: if_splits)

end
