(* ===== verification/VfatPut.thy ===== *)
theory VfatPut
  imports VfatData VfatDir
begin

text \<open>
  Creating a file in the root directory of a FAT volume and reading it back: the effect of every step of
  \<open>_PutFile\<close> on the object and on the device, and of \<open>VFATGetFile\<close> on what it leaves.
\<close>

subsection \<open>The new entry\<close>

lemma make_dirent_simps:
  assumes "11 \<le> length n"
  shows "length (make_dirent n a t ct wt hi lo sz) = 32" "take 11 (make_dirent n a t ct wt hi lo sz) = take 11 n"
    "make_dirent n a t ct wt hi lo sz ! 0 = n ! 0" "make_dirent n a t ct wt hi lo sz ! 11 = of_nat a"
  using assms by (simp_all add: make_dirent_def nth_append)

lemma vfat_fields:
  "field_at vfat_dirent_layout ''attr'' = (11, 1)" "field_at vfat_dirent_layout ''fstClusHI'' = (20, 2)"
  "field_at vfat_dirent_layout ''fstClusLO'' = (26, 2)" "field_at vfat_dirent_layout ''fileSize'' = (28, 4)"
  by (simp_all add: vfat_dirent_layout_def)

lemma make_dirent_fields:
  assumes "11 \<le> length n" "a < 256" "hi < 65536" "lo < 65536" "sz < 2 ^ 32"
  shows "de ''attr'' (make_dirent n a t ct wt hi lo sz) = a" "de ''fstClusHI'' (make_dirent n a t ct wt hi lo sz) = hi"
    "de ''fstClusLO'' (make_dirent n a t ct wt hi lo sz) = lo" "de ''fileSize'' (make_dirent n a t ct wt hi lo sz) = sz"
proof -
  have l: "length (take 11 n) = 11" using assms by simp
  show "de ''attr'' (make_dirent n a t ct wt hi lo sz) = a" "de ''fstClusHI'' (make_dirent n a t ct wt hi lo sz) = hi"
    "de ''fstClusLO'' (make_dirent n a t ct wt hi lo sz) = lo" "de ''fileSize'' (make_dirent n a t ct wt hi lo sz) = sz"
    using assms l
    by (simp_all add: de_def get_field_def vfat_fields make_dirent_def slice_0_append le_nat_nat_le del: nat_le.simps)
qed

lemma cluster_halves: "c < 65536 \<Longrightarrow> cluster_hi c * 65536 + cluster_lo c = c" "cluster_hi c = 0" "cluster_lo c < 65536"
proof -
  have "c div 65536 * 65536 * 65536 = c div 65536 * 2 ^ 32" by simp
  then show hi: "cluster_hi c = 0" unfolding cluster_hi_def u32_def by (simp only:) simp
  show "c < 65536 \<Longrightarrow> cluster_hi c * 65536 + cluster_lo c = c" "cluster_lo c < 65536" using hi by (simp_all add: cluster_lo_def)
qed

subsection \<open>The path of a file of the root directory\<close>

abbreviation slash :: byte where "slash \<equiv> chr CHR ''/''"

definition root_name :: "bytes \<Rightarrow> bool" where
  "root_name t \<longleftrightarrow> t \<noteq> [] \<and> 0 \<notin> set t \<and> slash \<notin> set t \<and> length t < 255"

lemma slash_not_zero: "slash \<noteq> 0" by (simp add: chr_def)

lemma path_elements_root:
  assumes t: "root_name t"
  shows "path_elements (Some (overwrite 0 ((slash # t) @ [0]) junk)) None [ascii ''/'' @ [0]] = Some (Some [ascii ''/'' @ [0], t @ [0]])"
proof -
  have tk: "tokens (is_delim (ascii ''/'' @ [0])) (slash # t) = [t]"
  proof -
    define P where "P = is_delim (ascii ''/'' @ [0])"
    have d: "P c \<longleftrightarrow> c = slash" for c by (auto simp: P_def is_delim_def cstr_def chr_def)
    have "\<forall>x \<in> set t. \<not> P x" using t unfolding d by (auto simp: root_name_def)
    then have tw: "takeWhile (\<lambda>x. \<not> P x) t = t" "dropWhile (\<lambda>x. \<not> P x) t = []" by simp_all
    have "tokens P (slash # t) = tokens P t" by (simp add: tokens_def d)
    also have "\<dots> = [t]" using t by (subst tokens_span) (simp add: tw Let_def root_name_def)
    finally show ?thesis by (simp only: P_def)
  qed
  have "strtok_src (Some (overwrite 0 ((slash # t) @ [0]) junk)) None (slash # t)" by (auto simp: strtok_src_def overwrite_def)
  moreover have "0 \<notin> set (slash # t)" using t by (simp add: root_name_def slash_not_zero)
  moreover have "length [ascii ''/'' @ [0]] \<le> NELEMENTS" by (simp add: NELEMENTS_def)
  ultimately show ?thesis by (subst path_elements_spec) (assumption | simp only: tk Let_def, simp add: NELEMENTS_def)+
qed

lemma Strlcpy_path:
  assumes "0 \<notin> set t" "length t < 256"
  shows "Strlcpy (stack_array 256 v) (t @ 0 # r) 256 = Some (length t, overwrite 0 (t @ [0]) (stack_array 256 v))"
  using Strlcpy_spec [OF assms(1), of 256 "stack_array 256 v" r] assms(2) by (simp add: stack_array_def list.map_ident_strong)

lemma StatFile_root:
  assumes t: "root_name t"
  shows "VFATStatFile D (slash # t @ 0 # r) v =
     map_option (\<lambda>f. (f, v)) (FindDirectoryEntry (t @ [0]) (buf_data (vf_rootdir v)) (buf_size (vf_rootdir v)))"
proof -
  have s: "0 \<notin> set (slash # t)" "length (slash # t) < 256" using t by (simp_all add: root_name_def slash_not_zero)
  have cpy: "Strlcpy (stack_array 256 v) (slash # t @ 0 # r) 256 = Some (Suc (length t), overwrite 0 ((slash # t) @ [0]) (stack_array 256 v))"
    using Strlcpy_path [OF s] by simp
  have "cstr (t @ [0]) \<noteq> cstr (ascii ''/'' @ [0])"
  proof -
    have "t \<noteq> ascii ''/''" using t by (auto simp: root_name_def chr_def)
    then show ?thesis using t by (simp add: root_name_def) (simp add: cstr_def)
  qed
  with strcmp_order [of "t @ [0]" "ascii ''/'' @ [0]"] obtain k where k: "posix_strcmp (t @ [0]) (ascii ''/'' @ [0]) = Some k" "k \<noteq> 0" by auto
  have z: "posix_strcmp (ascii ''/'' @ [0]) (ascii ''/'' @ [0]) = Some 0" by simp
  have walk: "stat_walk D [ascii ''/'' @ [0], t @ [0]] 0 0 v =
      map_option (\<lambda>f. (f, v)) (FindDirectoryEntry (t @ [0]) (buf_data (vf_rootdir v)) (buf_size (vf_rootdir v)))"
    unfolding stat_walk.simps vf_then_def vf_access_def k(1) z
    by (auto simp: k(2) vf_reads_def find_in_def vf_then_def vf_access_def vf_ok_def vf_fail_def split: option.split)
  show ?thesis
    unfolding VFATStatFile_def VFAT_PATH_SIZE_def vf_then_def vf_access_def vf_reads_def
    by (simp add: load_def slice_def cpy path_elements_root [OF t, simplified] walk [simplified])
qed

lemma GetBaseName_root:
  assumes t: "root_name t"
  shows "GetBaseName (stack_array 256 v) (slash # t @ 0 # r) = Some (Some (overwrite 0 (t @ [0]) (stack_array 256 v)))"
    and "GetDirName (stack_array 256 v) (slash # t @ 0 # r) = Some (Some (slash # 0 # drop 2 (overwrite 0 (slash # t @ [0]) (stack_array 256 v))))"
proof -
  have last: "posix_strrchr (slash # t @ 0 # q) slash = Some (Some 0)" for q
  proof -
    have lp: "strrchr_loop (slash # t @ 0 # q) slash (Suc p) = Some 0" if "p \<le> length t" for p
      using that
    proof (induction p)
      case (Suc p)
      have "t ! p \<noteq> slash" using t Suc.prems nth_mem [of p t] unfolding root_name_def by (metis Suc_le_lessD)
      then have "(slash # t @ 0 # q) ! Suc p \<noteq> slash" using Suc.prems by (simp add: nth_append)
      with Suc show ?case by simp
    qed simp
    have "posix_strlen (slash # t @ 0 # q) = Some (Suc (length t))"
      using t posix_strlen_append [of "slash # t" q] slash_not_zero by (simp add: root_name_def)
    then show ?thesis using lp [of "length t"] unfolding posix_strrchr_def by (simp del: strrchr_loop.simps posix_strlen.simps)
  qed
  have hd: "hd (slice 1 1 (slash # t @ 0 # r)) \<noteq> 0" using t by (cases t) (auto simp: slice_def root_name_def)
  have "Strlcpy (stack_array 256 v) (t @ 0 # r) 256 = Some (length t, overwrite 0 (t @ [0]) (stack_array 256 v))"
    using t by (intro Strlcpy_path) (simp_all add: root_name_def)
  then show "GetBaseName (stack_array 256 v) (slash # t @ 0 # r) = Some (Some (overwrite 0 (t @ [0]) (stack_array 256 v)))"
    using hd by (simp add: GetBaseName_def last VFAT_PATH_SIZE_def load_def)
  have s: "0 \<notin> set (slash # t)" "length (slash # t) < 256" using t by (simp_all add: root_name_def slash_not_zero)
  have ow: "overwrite 0 (slash # t @ [0]) (stack_array 256 v) = slash # t @ 0 # drop (length t + 2) (stack_array 256 v)" by (simp add: overwrite_def)
  from Strlcpy_path [OF s, of v r] have cpy: "Strlcpy (stack_array 256 v) (slash # t @ 0 # r) 256 =
      Some (Suc (length t), slash # t @ 0 # drop (length t + 2) (stack_array 256 v))" using ow by simp
  have "(slash # t @ z)[1 := 0] = slash # 0 # drop 2 (slash # t @ z)" for z using t by (cases t) (auto simp: root_name_def)
  then show "GetDirName (stack_array 256 v) (slash # t @ 0 # r) = Some (Some (slash # 0 # drop 2 (overwrite 0 (slash # t @ [0]) (stack_array 256 v))))"
    unfolding ow by (simp add: GetDirName_def VFAT_PATH_SIZE_def cpy last)
qed

subsection \<open>Allocation and the root directory in memory\<close>

lemma set_fat_data_volume [simp]:
  "cluster_of (set_fat_data m v) = cluster_of v" "cluster_pos (set_fat_data m v) = cluster_pos v" "SecPerClus (set_fat_data m v) = SecPerClus v"
  "cluster_img img (set_fat_data m v) = cluster_img img v"
  by (simp_all add: fun_eq_iff cluster_of_def cluster_pos_def SecPerClus_def cluster_img_def)

lemma with_root_simps [simp]:
  "GetFATEntry (v\<lparr>vf_rootdir := r\<rparr>) = GetFATEntry v" "in_fat (v\<lparr>vf_rootdir := r\<rparr>) = in_fat v" "fat_ok (v\<lparr>vf_rootdir := r\<rparr>) = fat_ok v"
  "cluster_of (v\<lparr>vf_rootdir := r\<rparr>) = cluster_of v" "IsEOF (v\<lparr>vf_rootdir := r\<rparr>) = IsEOF v" "cluster_pos (v\<lparr>vf_rootdir := r\<rparr>) = cluster_pos v"
  "SecPerClus (v\<lparr>vf_rootdir := r\<rparr>) = SecPerClus v" "cluster_img img (v\<lparr>vf_rootdir := r\<rparr>) = cluster_img img v"
  "vfat_ok dinv dready img (v\<lparr>vf_rootdir := r\<rparr>) = vfat_ok dinv dready img v"
proof -
  show gf: "GetFATEntry (v\<lparr>vf_rootdir := r\<rparr>) = GetFATEntry v" by (rule ext, rule GetFATEntry_cong; simp)
  show inf: "in_fat (v\<lparr>vf_rootdir := r\<rparr>) = in_fat v" by (simp add: fun_eq_iff in_fat_def GetFATOffset_def)
  show fo: "fat_ok (v\<lparr>vf_rootdir := r\<rparr>) = fat_ok v" by (simp add: fat_ok_def inf)
  show sp: "SecPerClus (v\<lparr>vf_rootdir := r\<rparr>) = SecPerClus v" by (simp add: SecPerClus_def)
  show cp: "cluster_pos (v\<lparr>vf_rootdir := r\<rparr>) = cluster_pos v" by (simp add: fun_eq_iff cluster_pos_def sp)
  show "cluster_img img (v\<lparr>vf_rootdir := r\<rparr>) = cluster_img img v" by (simp add: fun_eq_iff cluster_img_def cp)
  show "vfat_ok dinv dready img (v\<lparr>vf_rootdir := r\<rparr>) = vfat_ok dinv dready img v" by (simp add: vfat_ok_def fo sp)
qed (simp_all add: fun_eq_iff cluster_of_def IsEOF_def)

lemma fat_ok_set_data: "length m = length (buf_data (vf_fat v)) \<Longrightarrow> fat_ok (set_fat_data m v) = fat_ok v"
  by (simp add: fat_ok_def in_fat_def)

lemma vfat_ok_set_data: "length m = length (buf_data (vf_fat v)) \<Longrightarrow> vfat_ok dinv dready img (set_fat_data m v) = vfat_ok dinv dready img v"
  by (simp add: vfat_ok_def fat_ok_set_data)

lemma fat_chain_cong:
  "fat_chain v c cs \<Longrightarrow> \<forall>c \<in> set cs. GetFATEntry v' c = GetFATEntry v c \<Longrightarrow> IsEOF v' = IsEOF v \<Longrightarrow> fat_chain v' c cs"
  by (induction rule: fat_chain.induct) (auto intro: chain_end chain_step)

text \<open>On FAT12 and FAT32 the mark that ends an allocated chain is one that reading recognises; on FAT16 it is not.\<close>

lemma IsEOF_GetEOC: "IsEOF v (GetEOC v) \<longleftrightarrow> vf_FATType v \<noteq> FAT16"
  by (simp add: IsEOF_def GetEOC_def split: VFATType.split)

text \<open>
  The clusters of a chain that is written out: the entry of each is the number of the next one, and the
  entry of the last is the end mark of the format. (Reading a chain, \<open>fat_chain\<close>, also stops at a free entry.)
\<close>

definition end_mark :: "VFATType \<Rightarrow> nat" where
  "end_mark t = (case t of FAT12 \<Rightarrow> 0x0FF8 | FAT16 \<Rightarrow> 0xFFF8 | FAT32 \<Rightarrow> 0x0FFFFFF8)"

definition chained :: "'s vfat \<Rightarrow> nat list \<Rightarrow> bool" where
  "chained v cs \<longleftrightarrow> (\<forall>i < length cs. GetFATEntry v (cs ! i) = Some (if i + 1 < length cs then cs ! (i + 1) else end_mark (vf_FATType v)))"

lemma linked_chained: "linked v cs \<Longrightarrow> vf_FATType v \<noteq> FAT16 \<Longrightarrow> chained v cs"
proof (induction cs)
  case (Cons c cs)
  have "GetFATEntry v ((c # cs) ! i) = Some (if i + 1 < length (c # cs) then (c # cs) ! (i + 1) else end_mark (vf_FATType v))"
    if "i < length (c # cs)" for i
  proof (cases i)
    case 0
    with Cons.prems show ?thesis by (cases cs) (auto simp: end_mark_def GetEOC_def split: VFATType.split)
  next
    case (Suc k)
    with Cons that show ?thesis by (simp add: chained_def)
  qed
  then show ?case by (simp add: chained_def)
qed (simp add: chained_def)

lemma chained_cong: "GetFATEntry v' = GetFATEntry v \<Longrightarrow> vf_FATType v' = vf_FATType v \<Longrightarrow> chained v' cs = chained v cs"
  by (simp add: chained_def)

text \<open>The object after an allocation: \<open>m\<close> is the table, \<open>cs\<close> the chain.\<close>

definition allocated :: "'s vfat \<Rightarrow> nat list \<Rightarrow> nat \<Rightarrow> 's vfat \<Rightarrow> bool" where
  "allocated v cs c v' \<longleftrightarrow> (\<exists>m h. v' = set_fat_data m (v\<lparr>vf_heap := h\<rparr>) \<and> length m = length (buf_data (vf_fat v)) \<and> heap_ok h) \<and>
     fat_chain v' c cs \<and> chained v' cs \<and> (cs \<noteq> [] \<longrightarrow> c = hd cs) \<and> (cs = [] \<longrightarrow> c = 0) \<and>
     (\<forall>c. in_fat v c \<and> c \<notin> set cs \<longrightarrow> GetFATEntry v' c = GetFATEntry v c)"

lemma AllocateFATChain_runs:
  assumes ok: "fat_ok v" "heap_ok (vf_heap v)" and t: "vf_FATType v \<noteq> FAT16" and n: "n < 2 ^ 28" "n \<le> length (free_clusters v)"
  shows "\<exists>c v'. AllocateFATChain n v = Some (Some c, v') \<and> allocated v (take n (free_clusters v)) c v'"
proof (cases "n = 0")
  case True
  have "v = set_fat_data (buf_data (vf_fat v)) (v\<lparr>vf_heap := vf_heap v\<rparr>)" by (simp add: set_fat_data_def)
  with ok(2) have "\<exists>m h. v = set_fat_data m (v\<lparr>vf_heap := h\<rparr>) \<and> length m = length (buf_data (vf_fat v)) \<and> heap_ok h" by blast
  moreover have "fat_chain v 0 []" by (rule chain_end) simp
  ultimately have "allocated v [] 0 v" unfolding allocated_def by (simp add: chained_def)
  with True show ?thesis by (intro exI [of _ 0] exI [of _ v]) (simp add: AllocateFATChain_def vf_ok_def)
next
  case False
  let ?cs = "take n (free_clusters v)"
  have len: "\<not> length ?cs < n" using n(2) by simp
  from False have "0 < n" by simp
  from AllocateFATChain_spec [OF ok(1) this n(1) ok(2)] len obtain m h where
    m: "AllocateFATChain n v = Some (Some (hd ?cs), set_fat_data m (v\<lparr>vf_heap := h\<rparr>))" "heap_ok h" "length m = length (buf_data (vf_fat v))"
      "linked (set_fat_data m v) ?cs" "\<forall>c. in_fat v c \<and> c \<notin> set ?cs \<longrightarrow> GetFATEntry (set_fat_data m v) c = GetFATEntry v c"
    by (simp only: if_False) blast
  let ?v = "set_fat_data m (v\<lparr>vf_heap := h\<rparr>)"
  have e: "GetFATEntry ?v = GetFATEntry (set_fat_data m v)" "IsEOF ?v = IsEOF v" by (rule ext, rule GetFATEntry_cong; simp) simp
  have "\<forall>c \<in> set ?cs. c \<noteq> 0 \<and> \<not> IsEOF (set_fat_data m v) c"
    using set_take_subset [of n "free_clusters v"] free_clusters_of [of _ v] cluster_of_number [OF ok(1)] by auto
  moreover have "?cs \<noteq> []" using False n(2) by auto
  moreover have "IsEOF (set_fat_data m v) (GetEOC (set_fat_data m v))" using t IsEOF_GetEOC [of v] by simp
  ultimately have "fat_chain (set_fat_data m v) (hd ?cs) ?cs" using m(4) by (intro linked_chain)
  then have "fat_chain ?v (hd ?cs) ?cs" by (rule kept_chain) (simp_all add: e)
  moreover have "chained ?v ?cs" using linked_chained [OF m(4)] t by (subst chained_cong [OF e(1)]) simp_all
  ultimately show ?thesis using m e(1) \<open>?cs \<noteq> []\<close> unfolding allocated_def
    by (intro exI [of _ "hd ?cs"] exI [of _ ?v] conjI) (auto simp del: take_eq_Nil)
qed

lemma LoadDir_root:
  assumes inv: "buf_inv (vf_rootdir v)" and n: "0 < buf_size (vf_rootdir v)" "buf_size (vf_rootdir v) \<le> 2 ^ 31" and h: "heap_ok (vf_heap v)"
  shows "\<exists>b h. LoadDir D (slash # 0 # r) v = Some (Some (b, vf_rootdirClustno v), v\<lparr>vf_heap := h\<rparr>) \<and> heap_ok h \<and>
    buf_inv b \<and> buf_size b = buf_size (vf_rootdir v) \<and> buf_contents b = buf_contents (vf_rootdir v)"
proof -
  let ?r = "vf_rootdir v"
  let ?d = "buf_contents ?r"
  have len: "length ?d = buf_size ?r" "buf_size ?r \<le> length (buf_data ?r)" using inv by (simp_all add: buf_contents_def buf_inv_def)
  have "BufAppend (vf_heap v) BufInit (Some (buf_data ?r)) (buf_size ?r) = BufAppend (vf_heap v) BufInit (Some ?d) (length ?d)"
  proof -
    have "load 0 (buf_size ?r) (buf_data ?r) = Some ?d" "load 0 (buf_size ?r) ?d = Some ?d"
      using len by (simp_all add: load_def slice_def buf_contents_def)
    then show ?thesis by (simp only: BufAppend_def option.case len(1))
  qed
  moreover have "buf_size BufInit + length ?d \<le> 2 ^ 31" using n(2) len by (simp add: BufInit_def)
  ultimately obtain b h' where b: "BufAppend (vf_heap v) BufInit (Some (buf_data ?r)) (buf_size ?r) = Some (0, b, h')" "buf_inv b"
      "buf_size b = buf_size ?r" "buf_contents b = ?d" "heap_ok h'"
    using BufAppend_spec [OF buf_inv_init, of ?d "vf_heap v"] h len by (auto simp: BufInit_def buf_contents_def)
  have "buf_data ?r \<noteq> []" using n(1) len by auto
  moreover have "posix_strcmp (slash # 0 # r) (ascii ''/'' @ [0]) = Some 0" by (simp add: chr_def)
  ultimately have "LoadDir D (slash # 0 # r) v = Some (Some (b, vf_rootdirClustno v), v\<lparr>vf_heap := h'\<rparr>)"
    using b(1) by (simp add: LoadDir_def vf_then_def vf_access_def vf_reads_def vf_alloc_def vf_ok_def)
  with b show ?thesis by blast
qed

subsection \<open>Writing the root directory and the tables\<close>

definition root_ok :: "'s vfat \<Rightarrow> nat list \<Rightarrow> bool" where
  "root_ok v rcs \<longleftrightarrow> buf_inv (vf_rootdir v) \<and> 0 < buf_size (vf_rootdir v) \<and> buf_size (vf_rootdir v) \<le> 2 ^ 31 \<and> 32 dvd buf_size (vf_rootdir v) \<and>
     (if vf_rootdirClustno v = 0 then
        rcs = [] \<and> buf_size (vf_rootdir v) = u32 (vf_RootDirSectors v * bpb ''BytsPerSec'' (vf_bpb v)) \<and>
        vf_FirstRootDirSecNum v * 512 + buf_size (vf_rootdir v) \<le> vf_FirstDataSector v * 512
      else
        fat_chain v (vf_rootdirClustno v) rcs \<and> distinct rcs \<and> (\<forall>c \<in> set rcs. cluster_of v c \<and> GetFATEntry v c \<noteq> Some 0) \<and>
        buf_size (vf_rootdir v) = length rcs * vf_ClusterSize v)"

definition root_img :: "('s \<Rightarrow> bytes) \<Rightarrow> 's vfat \<Rightarrow> nat list \<Rightarrow> bytes" where
  "root_img img v rcs =
     (if vf_rootdirClustno v = 0 then slice (vf_FirstRootDirSecNum v * 512) (buf_size (vf_rootdir v)) (img (vf_dev v))
      else concat (map (cluster_img img v) rcs))"

definition root_apart :: "'s vfat \<Rightarrow> nat list \<Rightarrow> nat \<Rightarrow> nat \<Rightarrow> bool" where
  "root_apart v rcs off k \<longleftrightarrow>
     (if vf_rootdirClustno v = 0 then
        off + k \<le> vf_FirstRootDirSecNum v * 512 \<or> vf_FirstRootDirSecNum v * 512 + buf_size (vf_rootdir v) \<le> off
      else \<forall>c \<in> set rcs. off + k \<le> cluster_pos v c \<or> cluster_pos v c + vf_ClusterSize v \<le> off)"

definition fat_pos :: "'s vfat \<Rightarrow> nat \<Rightarrow> nat" where
  "fat_pos v i = (bpb ''ResvdSecCnt'' (vf_bpb v) + i * vf_FATSz v) * 512"

definition tables_ok :: "'s vfat \<Rightarrow> bool" where
  "tables_ok v \<longleftrightarrow> buf_inv (vf_fat v) \<and> buf_size (vf_fat v) = vf_FATSz v * 512 \<and>
     fat_pos v (bpb ''NumFATs'' (vf_bpb v)) = vf_FirstRootDirSecNum v * 512 \<and> vf_FirstRootDirSecNum v \<le> vf_FirstDataSector v"

definition fats_written :: "('s \<Rightarrow> bytes) \<Rightarrow> 's vfat \<Rightarrow> nat \<Rightarrow> nat \<Rightarrow> bool" where
  "fats_written img v i j \<longleftrightarrow> (\<forall>k \<in> {i..<j}. slice (fat_pos v k) (vf_FATSz v * 512) (img (vf_dev v)) = buf_contents (vf_fat v))"

lemma wrote_fat_pos: "vf_wrote dinv dready img v v' \<Longrightarrow> fat_pos v' = fat_pos v"
  by (auto simp: vf_wrote_def fat_pos_def fun_eq_iff)

lemma fat_pos_step: "fat_pos v (Suc i) = fat_pos v i + vf_FATSz v * 512"
  by (simp add: fat_pos_def algebra_simps)

lemma fat_pos_mono: "i \<le> j \<Longrightarrow> fat_pos v i \<le> fat_pos v j"
  by (simp add: fat_pos_def mult_right_mono)

context blkdev_image
begin

lemma dev_write_runs:
  assumes ok: "vfat_ok inv ready image v" and p: "sect * 512 + length d \<le> length (image (vf_dev v))"
  shows "\<exists>v'. dev_write D sect d (length d) v = Some (Some (), v') \<and> vf_wrote inv ready image v v' \<and>
    image (vf_dev v') = overwrite (sect * 512) d (image (vf_dev v))"
proof -
  have h: "heap_ok (vf_heap v)" "inv (vf_dev v)" "ready (vf_dev v)" using ok by (simp_all add: vfat_ok_def)
  from write_ok [OF h(2,3) p refl] obtain s where
    s: "BlkdevWrite D (vf_dev v) sect d (length d) = Some (0, s)" "inv s" "ready s" "image s = overwrite (sect * 512) d (image (vf_dev v))"
    by blast
  have "vf_wrote inv ready image v (v\<lparr>vf_dev := s\<rparr>)"
    unfolding vf_wrote_def using s(2-4) h(1) p by (intro exI [of _ s] exI [of _ "vf_heap v"]) simp
  with s show ?thesis by (intro exI [of _ "v\<lparr>vf_dev := s\<rparr>"]) (simp add: dev_write_def)
qed

lemma WriteClusters_runs:
  assumes "fat_chain v c cs" "vfat_ok inv ready image v" "\<forall>c \<in> set cs. cluster_of v c" "distinct cs" "sz \<le> length data"
    and "sz \<le> length cs * vf_ClusterSize v" "length cs * vf_ClusterSize v < sz + vf_ClusterSize v"
  shows "\<exists>v'. WriteClusters D c data sz v = Some (Some (), v') \<and> vf_wrote inv ready image v v' \<and>
    concat (map (cluster_img image v') cs) = take sz data @ replicate (length cs * vf_ClusterSize v - sz) 0 \<and>
    (\<forall>off k. off + k \<le> length (image (vf_dev v)) \<and> (\<forall>c \<in> set cs. off + k \<le> cluster_pos v c \<or> cluster_pos v c + vf_ClusterSize v \<le> off) \<longrightarrow>
       slice off k (image (vf_dev v')) = slice off k (image (vf_dev v)))"
proof -
  have len: "length (take sz data) = sz" using assms(5) by simp
  from write_clusters_runs [OF assms(1-4), of "take sz data", unfolded len, OF assms(6,7)] assms(5) show ?thesis
    by (auto simp: WriteClusters_def vf_then_def vf_access_def vf_require_def vf_ok_def load_def slice_def)
qed

lemma FlushFile_root_runs:
  assumes ok: "vfat_ok inv ready image v" and root: "root_ok v rcs" and d: "buf_size (vf_rootdir v) \<le> length data"
  shows "\<exists>v'. FlushFile D data (buf_size (vf_rootdir v)) (vf_rootdirClustno v) v = Some (Some (), v') \<and> vf_wrote inv ready image v v' \<and>
    root_img image v' rcs = take (buf_size (vf_rootdir v)) data \<and>
    (\<forall>off k. off + k \<le> length (image (vf_dev v)) \<and> root_apart v rcs off k \<longrightarrow> slice off k (image (vf_dev v')) = slice off k (image (vf_dev v)))"
proof (cases "vf_rootdirClustno v = 0")
  case True
  let ?n = "buf_size (vf_rootdir v)" and ?p = "vf_FirstRootDirSecNum v * 512"
  let ?d = "take ?n data"
  have r: "0 < ?n" "?n = u32 (vf_RootDirSectors v * bpb ''BytsPerSec'' (vf_bpb v))" "?p + ?n \<le> vf_FirstDataSector v * 512"
    using root True by (simp_all add: root_ok_def)
  have len: "length ?d = ?n" using d by simp
  have "(vf_FirstDataSector v + vf_CountOfClusters v * SecPerClus v) * 512 \<le> length (image (vf_dev v))"
    using ok by (simp add: vfat_ok_def)
  with r(3) have p: "?p + ?n \<le> length (image (vf_dev v))" by simp
  with len have "vf_FirstRootDirSecNum v * 512 + length ?d \<le> length (image (vf_dev v))" by simp
  from dev_write_runs [OF ok this, unfolded len] obtain v' where
    v': "dev_write D (vf_FirstRootDirSecNum v) ?d ?n v = Some (Some (), v')" "vf_wrote inv ready image v v'"
      "image (vf_dev v') = overwrite ?p ?d (image (vf_dev v))" by blast
  have "load 0 ?n data = Some ?d" using d by (simp add: load_def slice_def)
  with v'(1) r(1,2) True have "FlushFile D data ?n (vf_rootdirClustno v) v = Some (Some (), v')"
    by (simp add: FlushFile_def vf_then_def vf_reads_def vf_require_def vf_access_def vf_ok_def)
  moreover have "vf_FirstRootDirSecNum v' = vf_FirstRootDirSecNum v" using v'(2) by (auto simp: vf_wrote_def)
  moreover have "slice ?p ?n (image (vf_dev v')) = ?d" unfolding v'(3) using p len by (intro slice_overwrite_same) simp_all
  moreover have "slice off k (image (vf_dev v')) = slice off k (image (vf_dev v))"
    if "off + k \<le> length (image (vf_dev v))" "off + k \<le> ?p \<or> ?p + ?n \<le> off" for off k
    unfolding v'(3) using p len that by (intro overwrite_apart) simp_all
  ultimately show ?thesis using True v'(2) wrote_simps(7,8) [OF v'(2)] by (auto simp: root_img_def root_apart_def)
next
  case False
  then have r: "0 < buf_size (vf_rootdir v)" "fat_chain v (vf_rootdirClustno v) rcs" "distinct rcs" "\<forall>c \<in> set rcs. cluster_of v c"
    "buf_size (vf_rootdir v) = length rcs * vf_ClusterSize v" using root unfolding root_ok_def by (metis, metis, metis, metis, metis)
  have "0 < vf_ClusterSize v" using ok by (simp add: vfat_ok_def)
  with r(5) have "length rcs * vf_ClusterSize v < buf_size (vf_rootdir v) + vf_ClusterSize v" by simp
  from WriteClusters_runs [OF r(2) ok r(4,3) d _ this] r(5) obtain v' where
    "WriteClusters D (vf_rootdirClustno v) data (buf_size (vf_rootdir v)) v = Some (Some (), v')" "vf_wrote inv ready image v v'"
    "concat (map (cluster_img image v') rcs) = take (buf_size (vf_rootdir v)) data"
    "\<forall>off k. off + k \<le> length (image (vf_dev v)) \<and> (\<forall>c \<in> set rcs. off + k \<le> cluster_pos v c \<or> cluster_pos v c + vf_ClusterSize v \<le> off) \<longrightarrow>
       slice off k (image (vf_dev v')) = slice off k (image (vf_dev v))"
    by auto
  with False r(1) wrote_simps(8) [of inv ready image v v'] show ?thesis
    by (intro exI [of _ v']) (simp add: FlushFile_def root_img_def root_apart_def)
qed

lemma flush_fats_runs:
  assumes "vfat_ok inv ready image v" "tables_ok v" "i + n = bpb ''NumFATs'' (vf_bpb v)"
  shows "\<exists>v'. flush_fats D n i v = Some (Some (), v') \<and> vf_wrote inv ready image v v' \<and> fats_written image v' i (i + n) \<and>
    (\<forall>off k. off + k \<le> length (image (vf_dev v)) \<and> (off + k \<le> fat_pos v i \<or> fat_pos v (i + n) \<le> off) \<longrightarrow>
       slice off k (image (vf_dev v')) = slice off k (image (vf_dev v)))"
  using assms
proof (induction n arbitrary: i v)
  case 0
  then show ?case using wrote_refl [of inv ready image v] by (auto simp: vf_ok_def fats_written_def)
next
  case (Suc n)
  let ?m = "vf_FATSz v * 512"
  let ?d = "buf_contents (vf_fat v)"
  have f: "buf_inv (vf_fat v)" "buf_size (vf_fat v) = ?m" "fat_pos v (i + Suc n) \<le> vf_FirstDataSector v * 512"
    using Suc.prems(2,3) by (simp_all add: tables_ok_def)
  then have d: "length ?d = ?m" "load 0 (buf_size (vf_fat v)) (buf_data (vf_fat v)) = Some ?d"
    by (simp_all add: buf_contents_def buf_inv_def load_def slice_def)
  have geo: "vf_FirstDataSector v < 2 ^ 32" "vf_FirstDataSector v * 512 \<le> length (image (vf_dev v))"
    using Suc.prems(1) by (simp_all add: vfat_ok_def)
  have "fat_pos v i + ?m \<le> fat_pos v (i + Suc n)" using fat_pos_mono [of "Suc i" "i + Suc n" v] by (simp add: fat_pos_step)
  with f(3) have le: "fat_pos v i + ?m \<le> vf_FirstDataSector v * 512" by simp
  then have "u64 (bpb ''ResvdSecCnt'' (vf_bpb v) + i * vf_FATSz v) * 512 = fat_pos v i" using geo(1) by (simp add: fat_pos_def)
  with le geo(2) d(1) have "u64 (bpb ''ResvdSecCnt'' (vf_bpb v) + i * vf_FATSz v) * 512 + length ?d \<le> length (image (vf_dev v))" by simp
  from dev_write_runs [OF Suc.prems(1) this] \<open>_ = fat_pos v i\<close> obtain v1 where
    v1: "dev_write D (u64 (bpb ''ResvdSecCnt'' (vf_bpb v) + i * vf_FATSz v)) ?d ?m v = Some (Some (), v1)" "vf_wrote inv ready image v v1"
      "image (vf_dev v1) = overwrite (fat_pos v i) ?d (image (vf_dev v))" unfolding d(1) by metis
  have k: "vf_bpb v1 = vf_bpb v" "vf_fat v1 = vf_fat v" "vf_FATSz v1 = vf_FATSz v" "fat_pos v1 = fat_pos v" "tables_ok v1 = tables_ok v"
    "length (image (vf_dev v1)) = length (image (vf_dev v))"
    using v1(2) wrote_fat_pos [OF v1(2)] by (auto simp: vf_wrote_def tables_ok_def)
  have pre: "tables_ok v1" "Suc i + n = bpb ''NumFATs'' (vf_bpb v1)" using Suc.prems k by simp_all
  from Suc.IH [OF wrote_ok [OF v1(2) Suc.prems(1)] pre, unfolded k] obtain v2 where
    v2: "flush_fats D n (Suc i) v1 = Some (Some (), v2)" "vf_wrote inv ready image v1 v2" "fats_written image v2 (Suc i) (Suc i + n)"
      "\<forall>off k. off + k \<le> length (image (vf_dev v)) \<and> (off + k \<le> fat_pos v (Suc i) \<or> fat_pos v (Suc i + n) \<le> off) \<longrightarrow>
         slice off k (image (vf_dev v2)) = slice off k (image (vf_dev v1))" by blast
  have k2: "vf_fat v2 = vf_fat v" "vf_FATSz v2 = vf_FATSz v" "fat_pos v2 = fat_pos v"
    using v2(2) k wrote_fat_pos [OF v2(2)] by (auto simp: vf_wrote_def)
  have "flush_fats D (Suc n) i v = Some (Some (), v2)"
    using v1(1) v2(1) f(2) d by (simp add: vf_then_def vf_reads_def vf_access_def)
  moreover have "slice (fat_pos v i) ?m (image (vf_dev v2)) = ?d"
  proof -
    have "slice (fat_pos v i) ?m (image (vf_dev v2)) = slice (fat_pos v i) ?m (image (vf_dev v1))"
      using v2(4) le geo(2) by (simp add: fat_pos_step)
    also have "\<dots> = ?d" unfolding v1(3) using le geo(2) d(1) by (intro slice_overwrite_same) simp_all
    finally show ?thesis .
  qed
  moreover have "slice off m (image (vf_dev v2)) = slice off m (image (vf_dev v))"
    if "off + m \<le> length (image (vf_dev v))" "off + m \<le> fat_pos v i \<or> fat_pos v (i + Suc n) \<le> off" for off m
  proof -
    have "fat_pos v i + ?m \<le> fat_pos v (i + Suc n)" using fat_pos_mono [of "Suc i" "i + Suc n" v] by (simp add: fat_pos_step)
    with that have a: "off + m \<le> fat_pos v i \<or> fat_pos v i + ?m \<le> off" "off + m \<le> fat_pos v (Suc i) \<or> fat_pos v (Suc i + n) \<le> off"
      using fat_pos_step [of v i] by auto
    have "slice off m (image (vf_dev v2)) = slice off m (image (vf_dev v1))" using v2(4) that(1) a(2) by simp
    also have "\<dots> = slice off m (image (vf_dev v))" unfolding v1(3) using le geo(2) d(1) that(1) a(1) by (intro overwrite_apart) simp_all
    finally show ?thesis .
  qed
  moreover have "fats_written image v2 i (i + Suc n)"
    unfolding fats_written_def k2
  proof
    fix j assume "j \<in> {i..<i + Suc n}"
    then consider "j = i" | "j \<in> {Suc i..<Suc i + n}" by fastforce
    then show "slice (fat_pos v j) ?m (image (vf_dev v2)) = ?d"
      using v2(3) calculation(2) by cases (simp_all add: fats_written_def k2)
  qed
  ultimately show ?case using wrote_trans [OF v1(2) v2(2)] by blast
qed

end

end
