(* ===== verification/VfatRound.thy ===== *)
theory VfatRound
  imports VfatPut
begin

text \<open>
  \<open>VFATPutFile\<close> followed by \<open>VFATGetFile\<close> for a file of the root directory: the composition of the steps
  of theory \<open>VfatPut\<close>.
\<close>

subsection \<open>The volume\<close>

text \<open>
  \<open>mirrored\<close>: the tables and the root directory on the device are those in memory. \<open>volume_ok\<close>: a well-formed
  volume, whose tables, root directory and clusters follow each other on the device and do not overlap, and
  whose tables and root directory are loaded.
\<close>

definition mirrored :: "('s \<Rightarrow> bytes) \<Rightarrow> 's vfat \<Rightarrow> nat list \<Rightarrow> bool" where
  "mirrored img v rcs \<longleftrightarrow> fats_written img v 0 (bpb ''NumFATs'' (vf_bpb v)) \<and> root_img img v rcs = buf_contents (vf_rootdir v)"

definition volume_ok :: "('s \<Rightarrow> bool) \<Rightarrow> ('s \<Rightarrow> bool) \<Rightarrow> ('s \<Rightarrow> bytes) \<Rightarrow> 's vfat \<Rightarrow> nat list \<Rightarrow> bool" where
  "volume_ok dinv dready img v rcs \<longleftrightarrow> vfat_ok dinv dready img v \<and> root_ok v rcs \<and> tables_ok v"

definition clusters_for :: "'s vfat \<Rightarrow> nat \<Rightarrow> nat" where
  "clusters_for v sz = (sz + vf_ClusterSize v - 1) div vf_ClusterSize v"

text \<open>What creating a file with the given entry does to the volume.\<close>

definition file_created :: "('s \<Rightarrow> bool) \<Rightarrow> ('s \<Rightarrow> bool) \<Rightarrow> ('s \<Rightarrow> bytes) \<Rightarrow> nat list \<Rightarrow> bytes \<Rightarrow> nat \<Rightarrow> bytes \<Rightarrow> 's vfat \<Rightarrow> 's vfat \<Rightarrow> bool" where
  "file_created dinv dready img rcs n j data v v' \<longleftrightarrow>
     volume_ok dinv dready img v' rcs \<and> mirrored img v' rcs \<and> vf_ClusterSize v' = vf_ClusterSize v \<and> cluster_of v' = cluster_of v \<and>
     vf_FATType v' = vf_FATType v \<and>
     (let cs = take (clusters_for v (length data)) (free_clusters v); c = (if cs = [] then 0 else hd cs);
          e = make_dirent n ATTR_ARCHIVE 100 1884 1884 (cluster_hi c) (cluster_lo c) (length data)
      in vf_rootdir v' = (vf_rootdir v)\<lparr>buf_data := overwrite (32 * j) e (buf_data (vf_rootdir v))\<rparr> \<and>
         fat_chain v' c cs \<and> chained v' cs \<and> concat (map (cluster_img img v') cs) = data @ replicate (length cs * vf_ClusterSize v - length data) 0 \<and>
         (\<forall>c. cluster_of v c \<and> c \<notin> set cs \<longrightarrow> GetFATEntry v' c = GetFATEntry v c) \<and>
         (\<forall>c. cluster_of v c \<and> c \<notin> set cs \<and> c \<notin> set rcs \<longrightarrow> cluster_img img v' c = cluster_img img v c))"

lemma clusters_for_bounds:
  assumes "0 < vf_ClusterSize v"
  shows "sz \<le> clusters_for v sz * vf_ClusterSize v" "clusters_for v sz * vf_ClusterSize v < sz + vf_ClusterSize v"
proof -
  let ?n = "vf_ClusterSize v" and ?x = "sz + vf_ClusterSize v - 1"
  have "?x mod ?n < ?n" using assms by simp
  moreover have "?x div ?n * ?n + ?x mod ?n = ?x" by simp
  ultimately show "sz \<le> clusters_for v sz * ?n" "clusters_for v sz * ?n < sz + ?n" using assms unfolding clusters_for_def by linarith+
qed

subsection \<open>The steps apart from each other\<close>

lemma cluster_root_apart:
  assumes ok: "vfat_ok dinv dready img v" and root: "root_ok v rcs" and c: "cluster_of v c" "c \<notin> set rcs"
  shows "root_apart v rcs (cluster_pos v c) (vf_ClusterSize v)"
proof (cases "vf_rootdirClustno v = 0")
  case True
  then show ?thesis using root cluster_place(3) [OF ok c(1)] by (simp add: root_apart_def root_ok_def)
next
  case False
  then have "\<forall>e \<in> set rcs. cluster_of v e" using root unfolding root_ok_def by (simp only: if_False) blast
  then show ?thesis using False c clusters_disjoint [OF ok c(1)] unfolding root_apart_def by (simp only: if_False) blast
qed

lemma root_ok_cong:
  assumes root: "root_ok v rcs"
    and same: "vf_rootdirClustno v' = vf_rootdirClustno v" "vf_FirstRootDirSecNum v' = vf_FirstRootDirSecNum v" "buf_size (vf_rootdir v') = buf_size (vf_rootdir v)"
      "vf_FirstDataSector v' = vf_FirstDataSector v" "vf_ClusterSize v' = vf_ClusterSize v" "vf_RootDirSectors v' = vf_RootDirSectors v"
      "vf_bpb v' = vf_bpb v" "cluster_of v' = cluster_of v" "IsEOF v' = IsEOF v"
    and e: "\<forall>c \<in> set rcs. GetFATEntry v' c = GetFATEntry v c" and b: "buf_inv (vf_rootdir v')"
  shows "root_ok v' rcs"
proof (cases "vf_rootdirClustno v = 0")
  case True
  then show ?thesis using root b unfolding root_ok_def same if_P [OF True] by blast
next
  case False
  then have "fat_chain v (vf_rootdirClustno v) rcs" using root unfolding root_ok_def by metis
  from fat_chain_cong [OF this e same(9)] root b e show ?thesis unfolding root_ok_def same if_not_P [OF False] by metis
qed

lemma root_img_cong:
  assumes ok: "vfat_ok dinv dready img v" and root: "root_ok v rcs"
    and same: "vf_rootdirClustno v' = vf_rootdirClustno v" "vf_FirstRootDirSecNum v' = vf_FirstRootDirSecNum v" "buf_size (vf_rootdir v') = buf_size (vf_rootdir v)"
      "cluster_pos v' = cluster_pos v" "vf_ClusterSize v' = vf_ClusterSize v"
    and img: "\<forall>off k. off + k \<le> length (img (vf_dev v)) \<and> vf_FirstRootDirSecNum v * 512 \<le> off \<longrightarrow> slice off k (img (vf_dev v')) = slice off k (img (vf_dev v))"
    and le: "vf_FirstRootDirSecNum v \<le> vf_FirstDataSector v"
  shows "root_img img v' rcs = root_img img v rcs"
proof (cases "vf_rootdirClustno v = 0")
  case True
  then have "vf_FirstRootDirSecNum v * 512 + buf_size (vf_rootdir v) \<le> vf_FirstDataSector v * 512" using root by (simp add: root_ok_def)
  moreover have "(vf_FirstDataSector v + vf_CountOfClusters v * SecPerClus v) * 512 \<le> length (img (vf_dev v))" using ok by (simp add: vfat_ok_def)
  ultimately show ?thesis using True img by (simp add: root_img_def same)
next
  case False
  then have r: "\<forall>c \<in> set rcs. cluster_of v c" using root unfolding root_ok_def by (simp only: if_False) blast
  have "cluster_img img v' c = cluster_img img v c" if "c \<in> set rcs" for c
    using cluster_place(2,3) [OF ok, of c] r that le img unfolding cluster_img_def same by simp
  then show ?thesis using False by (simp add: root_img_def same cong: map_cong)
qed

lemma take_overwrite_0: "length d = n \<Longrightarrow> take n (overwrite 0 d xs) = d"
  by (simp add: overwrite_def)

subsection \<open>Creation\<close>

lemma insert_dirent_runs:
  assumes b: "buf_inv b" "32 * (j + 1) < buf_size b" "free_slot (buf_contents b) 0 = Some j" and e: "length e = 32"
  shows "insert_dirent e b v = Some (Some (overwrite (32 * j) e (buf_data b)), v)" "free_slot (buf_data b) 0 = Some j"
proof -
  have len: "length (buf_contents b) = buf_size b" "buf_size b \<le> length (buf_data b)" using b(1) by (simp_all add: buf_contents_def buf_inv_def)
  have "slot_free (buf_data b) k = slot_free (buf_contents b) k" if "k \<le> j" for k
    using that b(2) by (simp add: slot_free_def entry_byte_def buf_contents_def)
  then show fs: "free_slot (buf_data b) 0 = Some j"
    using b(2,3) len free_slot_iff [of 0 j "buf_contents b"] free_slot_iff [of 0 j "buf_data b"] by simp
  show "insert_dirent e b v = Some (Some (overwrite (32 * j) e (buf_data b)), v)"
    using b(2) e len(2) by (simp add: insert_dirent_def vf_then_def vf_access_def fs store_def)
qed

context blkdev_image
begin

lemma FlushFile_data_runs:
  assumes "fat_chain v c cs" "vfat_ok inv ready image v" "\<forall>c \<in> set cs. cluster_of v c" "distinct cs" "sz = length data"
    and "sz \<le> length cs * vf_ClusterSize v" "length cs * vf_ClusterSize v < sz + vf_ClusterSize v"
    and "sz \<noteq> 0 \<longrightarrow> c \<noteq> 0"
  shows "\<exists>v'. FlushFile D data sz c v = Some (Some (), v') \<and> vf_wrote inv ready image v v' \<and>
    concat (map (cluster_img image v') cs) = data @ replicate (length cs * vf_ClusterSize v - sz) 0 \<and>
    (\<forall>off k. off + k \<le> length (image (vf_dev v)) \<and> (\<forall>c \<in> set cs. off + k \<le> cluster_pos v c \<or> cluster_pos v c + vf_ClusterSize v \<le> off) \<longrightarrow>
       slice off k (image (vf_dev v')) = slice off k (image (vf_dev v)))"
proof (cases "sz = 0")
  case True
  have "cs = []" using assms(7) True by (cases cs) simp_all
  with True assms(5) wrote_refl [OF assms(2)] show ?thesis by (intro exI [of _ v]) (simp add: FlushFile_def vf_ok_def)
next
  case False
  with WriteClusters_runs [OF assms(1-4) _ assms(6,7), of data] assms(5,8) show ?thesis by (simp add: FlushFile_def)
qed

lemma PutFile_at_runs:
  assumes vol: "volume_ok inv ready image v rcs" and t: "vf_FATType v \<noteq> FAT16"
    and dir: "buf_inv dir" "buf_size dir = buf_size (vf_rootdir v)" "buf_contents dir = buf_contents (vf_rootdir v)"
    and name: "0 \<notin> set t" "InternShortname (t @ [0]) = Some (Some n)"
    and slot: "free_slot (buf_contents (vf_rootdir v)) 0 = Some j" "32 * (j + 1) < buf_size (vf_rootdir v)"
    and sz: "length data + vf_ClusterSize v \<le> 2 ^ 31" "clusters_for v (length data) \<le> length (free_clusters v)"
  shows "\<exists>v'. PutFile_at D False (t @ 0 # q) dir (vf_rootdirClustno v) data (length data) v = Some (Some (), v') \<and>
    file_created inv ready image rcs n j data v v'"
proof -
  let ?cn = "vf_ClusterSize v" and ?sz = "length data" and ?root = "vf_rootdir v" and ?clust = "vf_rootdirClustno v"
  define cs where "cs = take (clusters_for v ?sz) (free_clusters v)"
  define c where "c = (if cs = [] then 0 else hd cs)"
  define e where "e = make_dirent n ATTR_ARCHIVE 100 1884 1884 (cluster_hi c) (cluster_lo c) ?sz"
  from vol have ok: "vfat_ok inv ready image v" and root: "root_ok v rcs" and tab: "tables_ok v"
    by (simp_all add: volume_ok_def)
  have cn: "0 < ?cn" "512 \<le> ?cn" "fat_ok v" "heap_ok (vf_heap v)" using ok by (simp_all add: vfat_ok_def)
  note cf = clusters_for_bounds [OF cn(1), of ?sz]
  have few: "clusters_for v ?sz < 2 ^ 28"
  proof -
    have "clusters_for v ?sz * 512 \<le> clusters_for v ?sz * ?cn" using cn(2) by (intro mult_left_mono) simp_all
    then have "clusters_for v ?sz * 512 < 2147483649" using cf(2) sz(1) [simplified] by linarith
    then show ?thesis by simp
  qed
  have len_cs: "length cs = clusters_for v ?sz" using sz(2) by (simp add: cs_def)
  from AllocateFATChain_runs [OF cn(3,4) t few sz(2)] obtain c0 v1 where
    v1: "AllocateFATChain (clusters_for v ?sz) v = Some (Some c0, v1)" "allocated v cs c0 v1" by (auto simp: cs_def)
  then obtain m h where mh: "v1 = set_fat_data m (v\<lparr>vf_heap := h\<rparr>)" "length m = length (buf_data (vf_fat v))" "heap_ok h"
    unfolding allocated_def by blast
  have c0: "c0 = c" using v1(2) by (auto simp: allocated_def c_def)
  have chain1: "fat_chain v1 c cs" "chained v1 cs" and keep1: "\<forall>c. in_fat v c \<and> c \<notin> set cs \<longrightarrow> GetFATEntry v1 c = GetFATEntry v c"
    using v1(2) by (simp_all add: allocated_def c0)
  have k1: "cluster_of v1 = cluster_of v" "IsEOF v1 = IsEOF v" "vf_ClusterSize v1 = ?cn" "cluster_pos v1 = cluster_pos v" "vf_rootdir v1 = ?root"
    "vf_rootdirClustno v1 = ?clust" "vf_dev v1 = vf_dev v" "cluster_img image v1 = cluster_img image v" "vf_FirstRootDirSecNum v1 = vf_FirstRootDirSecNum v"
    "vf_FirstDataSector v1 = vf_FirstDataSector v" "vf_bpb v1 = vf_bpb v" "vf_FATSz v1 = vf_FATSz v" "vf_RootDirSectors v1 = vf_RootDirSectors v" "vf_FATType v1 = vf_FATType v"
    unfolding mh(1) by (simp_all add: cluster_img_def [abs_def])
  have ok1: "vfat_ok inv ready image v1"
    unfolding mh(1) by (subst vfat_ok_set_data) (use ok mh(2,3) in \<open>simp_all add: vfat_ok_def\<close>)
  have "set cs \<subseteq> set (free_clusters v)" unfolding cs_def by (rule set_take_subset)
  then have cl: "\<forall>c \<in> set cs. cluster_of v c \<and> GetFATEntry v c = Some 0" "distinct cs"
    using free_clusters_of by (blast, simp add: cs_def free_from_def distinct_take)
  have apart: "set cs \<inter> set rcs = {}"
  proof (cases "?clust = 0")
    case False
    then have "\<forall>c \<in> set rcs. GetFATEntry v c \<noteq> Some 0" using root unfolding root_ok_def by (simp only: if_False) blast
    with cl(1) show ?thesis by blast
  qed (use root in \<open>simp add: root_ok_def\<close>)
  have "\<forall>c \<in> set rcs. cluster_of v c"
  proof (cases "?clust = 0")
    case False
    then show ?thesis using root unfolding root_ok_def by metis
  qed (use root in \<open>simp add: root_ok_def\<close>)
  then have rfat: "\<forall>c \<in> set rcs. GetFATEntry v1 c = GetFATEntry v c" using keep1 apart cluster_of_number(1) [OF cn(3)] by blast
  have root1: "root_ok v1 rcs"
    using rfat root by (intro root_ok_cong [OF root]) (simp_all add: k1 root_ok_def)
  have tab1: "tables_ok v1" using tab mh(2) unfolding mh(1) by (simp add: tables_ok_def buf_inv_def fat_pos_def)
  have cz: "?sz \<noteq> 0 \<longrightarrow> c \<noteq> 0" using cf(1) len_cs cl(1) by (cases cs) (auto simp: c_def cluster_of_def)
  have szs: "?sz \<le> length cs * vf_ClusterSize v1" "length cs * vf_ClusterSize v1 < ?sz + vf_ClusterSize v1"
    using cf len_cs k1(3) by simp_all
  have "\<forall>c \<in> set cs. cluster_of v1 c" using cl(1) by (simp add: k1)
  from FlushFile_data_runs [OF chain1(1) ok1 this cl(2) refl szs cz, unfolded k1] obtain v2 where
    v2: "FlushFile D data ?sz c v1 = Some (Some (), v2)" "vf_wrote inv ready image v1 v2"
      "concat (map (cluster_img image v2) cs) = data @ replicate (length cs * ?cn - ?sz) 0"
      "\<forall>off k. off + k \<le> length (image (vf_dev v)) \<and> (\<forall>c \<in> set cs. off + k \<le> cluster_pos v c \<or> cluster_pos v c + ?cn \<le> off) \<longrightarrow>
         slice off k (image (vf_dev v2)) = slice off k (image (vf_dev v))" by blast
  have ie: "InternShortname (t @ 0 # q) = Some (Some n)" using name by (simp add: InternShortname_spec)
  have n12: "length n = 12" by (rule length_InternShortname [OF name(1) ie])
  have le: "length e = 32" unfolding e_def using n12 by (intro make_dirent_simps(1)) simp
  have slot': "free_slot (buf_contents dir) 0 = Some j" "32 * (j + 1) < buf_size dir" using slot dir by simp_all
  note ins = insert_dirent_runs [OF dir(1) slot'(2,1) le]
  let ?dd = "overwrite (32 * j) e (buf_data dir)"
  have ld: "buf_size ?root \<le> length ?dd" "length (buf_data ?root) = buf_cap ?root" "buf_size ?root \<le> buf_cap ?root" "buf_size dir \<le> length (buf_data dir)"
    using dir(1,2) le slot' root by (simp_all add: buf_inv_def root_ok_def)
  let ?m = "overwrite (32 * j) e (buf_data ?root)"
  have eqm: "overwrite 0 (take (buf_size ?root) ?dd) (buf_data ?root) = ?m"
  proof -
    have "take (buf_size ?root) ?dd = overwrite (32 * j) e (take (buf_size ?root) (buf_data dir))"
      using slot' dir(2) le ld(4) by (intro take_overwrite) simp_all
    also have "take (buf_size ?root) (buf_data dir) = take (buf_size ?root) (buf_data ?root)" using dir(2,3) by (simp add: buf_contents_def)
    also have "overwrite (32 * j) e \<dots> = take (buf_size ?root) ?m" using slot le ld by (intro take_overwrite [symmetric]) simp_all
    finally have tk: "take (buf_size ?root) ?dd = take (buf_size ?root) ?m" .
    have "drop (buf_size ?root) ?m = drop (buf_size ?root) (buf_data ?root)" "length ?m = length (buf_data ?root)"
      using slot(2) le ld(2,3) by (simp_all add: overwrite_def)
    then show ?thesis unfolding tk using ld(2,3) append_take_drop_id [of "buf_size ?root" ?m] by (simp add: overwrite_def [of 0])
  qed
  define v3 where "v3 = v2\<lparr>vf_rootdir := ?root\<lparr>buf_data := ?m\<rparr>\<rparr>"
  have ok3: "vfat_ok inv ready image v3" using wrote_ok [OF v2(2) ok1] by (simp add: v3_def)
  note w2 = wrote_simps [OF v2(2)]
  have k2: "vf_FirstRootDirSecNum v2 = vf_FirstRootDirSecNum v" "vf_FirstDataSector v2 = vf_FirstDataSector v" "vf_bpb v2 = vf_bpb v"
    "vf_FATSz v2 = vf_FATSz v" "vf_RootDirSectors v2 = vf_RootDirSectors v" "vf_FATType v2 = vf_FATType v"
    using v2(2) by (auto simp: vf_wrote_def k1)
  have lm: "length ?m = length (buf_data ?root)" using le slot ld by simp
  have root3: "root_ok v3 rcs"
    using root lm by (intro root_ok_cong [OF root1]) (simp_all add: v3_def w2 k1 k2 root_ok_def buf_inv_def)
  have sz3: "buf_size (vf_rootdir v3) = buf_size ?root" "vf_rootdirClustno v3 = ?clust" by (simp_all add: v3_def w2 k1)
  from FlushFile_root_runs [OF ok3 root3, of ?dd] ld(1) obtain v4 where
    v4: "FlushFile D ?dd (buf_size ?root) ?clust v3 = Some (Some (), v4)" "vf_wrote inv ready image v3 v4"
      "root_img image v4 rcs = take (buf_size ?root) ?dd"
      "\<forall>off k. off + k \<le> length (image (vf_dev v3)) \<and> root_apart v3 rcs off k \<longrightarrow> slice off k (image (vf_dev v4)) = slice off k (image (vf_dev v3))"
    unfolding sz3 by auto
  have ok4: "vfat_ok inv ready image v4" by (rule wrote_ok [OF v4(2) ok3])
  have tab4: "tables_ok v4" using tab1 v2(2) v4(2) by (auto simp: vf_wrote_def tables_ok_def fat_pos_def v3_def)
  from flush_fats_runs [OF ok4 tab4, of 0] obtain v5 where
    v5: "flush_fats D (bpb ''NumFATs'' (vf_bpb v4)) 0 v4 = Some (Some (), v5)" "vf_wrote inv ready image v4 v5"
      "fats_written image v5 0 (bpb ''NumFATs'' (vf_bpb v4))"
      "\<forall>off k. off + k \<le> length (image (vf_dev v4)) \<and> (off + k \<le> fat_pos v4 0 \<or> fat_pos v4 (bpb ''NumFATs'' (vf_bpb v4)) \<le> off) \<longrightarrow>
         slice off k (image (vf_dev v5)) = slice off k (image (vf_dev v4))" by auto
  have "PutFile_at D False (t @ 0 # q) dir ?clust data ?sz v = Some (Some (), v5)"
  proof -
    have u: "u32 ?sz = ?sz" using sz(1) by simp
    have r: "udiv (u64 (?sz + ?cn - Suc 0)) ?cn = Some (clusters_for v ?sz)" using cn(1) sz(1) by (simp add: udiv_def clusters_for_def)
    have en: "entry_name (t @ 0 # q) v = Some (Some (take 11 n), v)"
      by (simp add: entry_name_def vf_then_def vf_access_def ie vf_ok_def)
    have md: "make_dirent (take 11 n) = make_dirent n" by (simp add: make_dirent_def fun_eq_iff)
    have l: "load 0 (buf_size ?root) ?dd = Some (take (buf_size ?root) ?dd)" using ld(1) by (simp add: load_def slice_def)
    have st: "store 0 (take (buf_size ?root) ?dd) (buf_data ?root) = Some ?m" using ld(1,2,3) eqm by (simp add: store_def)
    have ff: "FlushFAT D v4 = Some (Some (), v5)" using v5(1) by (simp add: FlushFAT_def vf_then_def vf_reads_def)
    show ?thesis
      unfolding PutFile_at_def
      by (simp add: vf_steps vf_then_step [of "entry_name (t @ 0 # q)" v, OF en] u r vf_then_step [of "AllocateFATChain (clusters_for v ?sz)" v, OF v1(1)] c0 md e_def [symmetric] vf_then_step [of "insert_dirent e dir", OF ins(1)]
          vf_then_step [of "FlushFile D data ?sz c" v1, OF v2(1)] w2 k1 dir(2) l st v3_def [symmetric] vf_then_step [of "FlushFile D ?dd (buf_size ?root) ?clust" v3, OF v4(1)] ff)
  qed
  moreover have "file_created inv ready image rcs n j data v v5"
  proof -
    note w4 = wrote_simps [OF v4(2)] and w5 = wrote_simps [OF v5(2)]
    have r5: "vf_rootdir v5 = ?root\<lparr>buf_data := ?m\<rparr>" by (simp add: w5 w4 v3_def)
    have k5: "vf_FirstRootDirSecNum v5 = vf_FirstRootDirSecNum v" "vf_FirstDataSector v5 = vf_FirstDataSector v" "vf_bpb v5 = vf_bpb v" "vf_bpb v4 = vf_bpb v"
      "vf_RootDirSectors v5 = vf_RootDirSectors v" "vf_FATType v5 = vf_FATType v" "vf_FATSz v5 = vf_FATSz v" "fat_pos v5 = fat_pos v" "fat_pos v4 = fat_pos v"
      using v4(2) v5(2) k2 by (auto simp: vf_wrote_def v3_def fat_pos_def fun_eq_iff)
    have k4: "vf_FirstRootDirSecNum v4 = vf_FirstRootDirSecNum v" "vf_FirstDataSector v4 = vf_FirstDataSector v" "vf_RootDirSectors v4 = vf_RootDirSectors v"
      using v4(2) k2 by (auto simp: vf_wrote_def v3_def)
    have same5: "cluster_of v5 = cluster_of v" "IsEOF v5 = IsEOF v" "vf_ClusterSize v5 = ?cn" "cluster_pos v5 = cluster_pos v" "vf_rootdirClustno v5 = ?clust"
      "GetFATEntry v5 = GetFATEntry v1" "vf_fat v5 = vf_fat v1"
      by (simp_all add: w5 w4 v3_def w2 k1)
    have lens: "length (image (vf_dev v4)) = length (image (vf_dev v))" "length (image (vf_dev v3)) = length (image (vf_dev v))"
      "length (image (vf_dev v2)) = length (image (vf_dev v))" "vf_dev v3 = vf_dev v2"
      by (simp_all add: w4 v3_def w2 k1)
    have fend: "fat_pos v (bpb ''NumFATs'' (vf_bpb v)) = vf_FirstRootDirSecNum v * 512" "vf_FirstRootDirSecNum v \<le> vf_FirstDataSector v"
      using tab by (simp_all add: tables_ok_def)
    have img5: "\<forall>off k. off + k \<le> length (image (vf_dev v4)) \<and> vf_FirstRootDirSecNum v4 * 512 \<le> off \<longrightarrow> slice off k (image (vf_dev v5)) = slice off k (image (vf_dev v4))"
      using v5(4) fend by (simp add: k5 k4)
    have late: "cluster_img image v5 a = cluster_img image v2 a" if a: "cluster_of v a" "a \<notin> set rcs" for a
    proof -
      have p: "cluster_pos v a + ?cn \<le> length (image (vf_dev v))" "vf_FirstDataSector v * 512 \<le> cluster_pos v a" using cluster_place(2,3) [OF ok a(1)] .
      have "root_apart v3 rcs (cluster_pos v3 a) (vf_ClusterSize v3)"
        using a by (intro cluster_root_apart [OF ok3 root3]) (simp_all add: v3_def w2 k1)
      then have "slice (cluster_pos v a) ?cn (image (vf_dev v4)) = slice (cluster_pos v a) ?cn (image (vf_dev v2))"
        using v4(4) p(1) lens by (simp add: v3_def w2 k1)
      moreover have "vf_FirstRootDirSecNum v4 * 512 \<le> cluster_pos v a" using p(2) fend(2) by (simp add: k4)
      ultimately show ?thesis
        unfolding cluster_img_def same5 w2 k1 using img5 p(1) lens(1) by simp
    qed
    have root5: "root_ok v5 rcs"
      using root lm by (intro root_ok_cong [OF root3]) (simp_all add: r5 k5 same5 v3_def w2 k1 k2 root_ok_def buf_inv_def)
    have root4: "root_ok v4 rcs"
      using root lm by (intro root_ok_cong [OF root3]) (simp_all add: k4 k5 w4 v3_def w2 k1 k2 root_ok_def buf_inv_def)
    have tab5: "tables_ok v5" using tab1 unfolding tables_ok_def by (simp add: same5 k5 k1 fend)
    have vol5: "volume_ok inv ready image v5 rcs"
      using wrote_ok [OF v5(2) ok4] root5 tab5 by (simp add: volume_ok_def)
    have "root_img image v5 rcs = root_img image v4 rcs"
      using img5 fend(2) by (intro root_img_cong [OF ok4 root4]) (simp_all add: w5 k5 k4)
    also have "\<dots> = buf_contents (vf_rootdir v5)"
    proof -
      have "take (buf_size ?root) (overwrite 0 (take (buf_size ?root) ?dd) (buf_data ?root)) = take (buf_size ?root) ?dd"
        using ld(1) by (intro take_overwrite_0) simp
      then show ?thesis unfolding v4(3) r5 eqm by (simp add: buf_contents_def)
    qed
    finally have mir: "mirrored image v5 rcs" using v5(3) by (simp add: mirrored_def k5)
    have chain5: "fat_chain v5 c cs" using chain1(1) by (rule kept_chain) (simp_all add: same5 k1)
    have ends5: "chained v5 cs" using chain1(2) by (subst chained_cong [of v5 v1]) (simp_all add: same5 k5 k1)
    have data5: "concat (map (cluster_img image v5) cs) = data @ replicate (length cs * ?cn - ?sz) 0"
    proof -
      have "map (cluster_img image v5) cs = map (cluster_img image v2) cs" using late cl(1) apart by (intro map_cong) auto
      then show ?thesis by (simp only: v2(3))
    qed
    have fat5: "\<forall>c. cluster_of v c \<and> c \<notin> set cs \<longrightarrow> GetFATEntry v5 c = GetFATEntry v c"
      using keep1 cluster_of_number(1) [OF cn(3)] by (simp add: same5)
    have other5: "\<forall>a. cluster_of v a \<and> a \<notin> set cs \<and> a \<notin> set rcs \<longrightarrow> cluster_img image v5 a = cluster_img image v a"
    proof (intro allI impI, elim conjE)
      fix a assume a: "cluster_of v a" "a \<notin> set cs" "a \<notin> set rcs"
      have "cluster_pos v a + ?cn \<le> cluster_pos v b \<or> cluster_pos v b + ?cn \<le> cluster_pos v a" if "b \<in> set cs" for b
        using that a cl(1) by (intro clusters_disjoint [OF ok]) auto
      then have "slice (cluster_pos v a) ?cn (image (vf_dev v2)) = slice (cluster_pos v a) ?cn (image (vf_dev v))"
        using v2(4) cluster_place(2) [OF ok a(1)] by blast
      then show "cluster_img image v5 a = cluster_img image v a" using late [OF a(1,3)] by (simp add: cluster_img_def w2 k1)
    qed
    show ?thesis
      unfolding file_created_def Let_def cs_def [symmetric] c_def [symmetric] e_def [symmetric]
      using vol5 mir r5 chain5 ends5 data5 fat5 other5 same5(1,3) k5(6) by blast
  qed
  ultimately show ?thesis by blast
qed

lemma LoadFile_runs:
  assumes "vfat_ok inv ready image v" "fat_chain v (dirent_cluster e) cs" "\<forall>c \<in> set cs. cluster_of v c"
    and "length cs * vf_ClusterSize v \<le> 2 ^ 31" "de ''fileSize'' e \<le> length cs * vf_ClusterSize v" "even (de ''attr'' e div ATTR_DIRECTORY)"
  shows "\<exists>b v'. LoadFileFromDirectoryEntry D e BufInit v = Some (Some b, v') \<and> vf_kept inv ready image v v' \<and> buf_size b = de ''fileSize'' e \<and>
    take (de ''fileSize'' e) (buf_data b) = take (de ''fileSize'' e) (concat (map (cluster_img image v) cs))"
proof -
  have init: "snd (BufClear BufInit) = BufInit" "buf_contents BufInit = []" "buf_size BufInit = 0" by (simp_all add: BufClear_def BufInit_def buf_contents_def)
  from ReadClusters_runs [OF assms(2,1,3) buf_inv_init, unfolded init] assms(4) obtain b v' where
    b: "ReadClusters D (dirent_cluster e) BufInit v = Some (Some b, v')" "vf_kept inv ready image v v'" "buf_inv b"
      "buf_contents b = concat (map (cluster_img image v) cs)" "buf_size b = length cs * vf_ClusterSize v" by auto
  have "take (de ''fileSize'' e) (buf_data b) = take (de ''fileSize'' e) (buf_contents b)"
    using assms(5) b(5) by (simp add: buf_contents_def min_absorb1)
  with assms(5,6) b show ?thesis
    by (intro exI [of _ "b\<lparr>buf_size := de ''fileSize'' e\<rparr>"] exI [of _ v'])
      (simp add: LoadFileFromDirectoryEntry_def init(1) vf_then_step [of "ReadClusters D (dirent_cluster e) BufInit" v, OF b(1)] vf_ok_def)
qed

end

subsection \<open>The whole calls\<close>

lemma FindDirectoryEntry_eq:
  assumes t: "root_name t" "t \<noteq> ascii ''.''" "t \<noteq> ascii ''..''" "InternShortname (t @ [0]) = Some (Some n)" and d: "d \<noteq> []"
  shows "FindDirectoryEntry (t @ [0]) d sz = find_dirent n d sz 0"
proof -
  have z: "0 \<notin> set t" using t(1) by (simp add: root_name_def)
  have cmp: "\<exists>k. posix_strcmp (t @ [0]) (ascii w @ [0]) = Some k \<and> k \<noteq> 0" if "t \<noteq> ascii w" "0 \<notin> set (ascii w)" for w
    using strcmp_order [of "t @ [0]" "ascii w @ [0]"] cstr_append [OF z, of "[]"] cstr_append [OF that(2), of "[]"] that(1) by auto
  from cmp [OF t(2)] obtain k1 where k1: "posix_strcmp (t @ [0]) (ascii ''.'' @ [0]) = Some k1" "k1 \<noteq> 0" by auto
  from cmp [OF t(3)] obtain k2 where k2: "posix_strcmp (t @ [0]) (ascii ''..'' @ [0]) = Some k2" "k2 \<noteq> 0" by auto
  show ?thesis using d unfolding FindDirectoryEntry_def k1(1) k2(1) by (simp add: k1(2) k2(2) t(4))
qed

lemma with_heap_volume:
  assumes "volume_ok dinv dready img v rcs" "heap_ok h"
  shows "volume_ok dinv dready img (v\<lparr>vf_heap := h\<rparr>) rcs"
proof -
  have "root_ok (v\<lparr>vf_heap := h\<rparr>) rcs"
  proof -
    have r: "root_ok v rcs" using assms(1) by (simp add: volume_ok_def)
    then have "buf_inv (vf_rootdir v)" by (simp add: root_ok_def)
    then show ?thesis by (intro root_ok_cong [OF r]) simp_all
  qed
  moreover have "vfat_ok dinv dready img (v\<lparr>vf_heap := h\<rparr>)" using assms by (simp add: volume_ok_def vfat_ok_def)
  ultimately show ?thesis using assms by (simp add: volume_ok_def tables_ok_def fat_pos_def)
qed

lemma with_heap_created: "file_created dinv dready img rcs n j data (v\<lparr>vf_heap := h\<rparr>) v' = file_created dinv dready img rcs n j data v v'"
proof -
  have "clusters_for (v\<lparr>vf_heap := h\<rparr>) = clusters_for v" "free_from (v\<lparr>vf_heap := h\<rparr>) = free_from v" "cluster_img img (v\<lparr>vf_heap := h\<rparr>) = cluster_img img v"
    by (simp_all add: fun_eq_iff clusters_for_def free_from_def cluster_img_def)
  then show ?thesis by (simp add: file_created_def)
qed

context blkdev_image
begin

lemma PutFile_runs:
  assumes vol: "volume_ok inv ready image v rcs" and ft: "vf_FATType v \<noteq> FAT16" and t: "root_name t" "InternShortname (t @ [0]) = Some (Some n)"
    and new: "FindDirectoryEntry (t @ [0]) (buf_data (vf_rootdir v)) (buf_size (vf_rootdir v)) = Some None"
    and slot: "free_slot (buf_contents (vf_rootdir v)) 0 = Some j" "32 * (j + 1) < buf_size (vf_rootdir v)"
    and sz: "length data + vf_ClusterSize v \<le> 2 ^ 31" "clusters_for v (length data) \<le> length (free_clusters v)"
  shows "\<exists>v'. VFATPutFile D (slash # t @ 0 # r) (Some data) (length data) v = Some (Some (), v') \<and> file_created inv ready image rcs n j data v v'"
proof -
  let ?path = "slash # t @ 0 # r" and ?root = "vf_rootdir v"
  have root: "buf_inv ?root" "0 < buf_size ?root" "buf_size ?root \<le> 2 ^ 31" "heap_ok (vf_heap v)"
    using vol by (simp_all add: volume_ok_def root_ok_def vfat_ok_def)
  from LoadDir_root [OF root] obtain b h where
    b: "LoadDir D (slash # 0 # drop 2 (overwrite 0 (slash # t @ [0]) (stack_array 256 v))) v = Some (Some (b, vf_rootdirClustno v), v\<lparr>vf_heap := h\<rparr>)"
      "heap_ok h" "buf_inv b" "buf_size b = buf_size ?root" "buf_contents b = buf_contents ?root" by blast
  let ?v = "v\<lparr>vf_heap := h\<rparr>"
  have e: "clusters_for ?v = clusters_for v" "free_from ?v = free_from v" by (simp_all add: fun_eq_iff clusters_for_def free_from_def)
  have z: "0 \<notin> set t" using t(1) by (simp add: root_name_def)
  obtain q where q: "overwrite 0 (t @ [0]) (stack_array 256 v) = t @ 0 # q" by (simp add: overwrite_def)
  from PutFile_at_runs [OF with_heap_volume [OF vol b(2)] _ b(3) _ _ z t(2), of j data q] b(4,5) ft slot sz e obtain v' where
    v': "PutFile_at D False (t @ 0 # q) b (vf_rootdirClustno v) data (length data) ?v = Some (Some (), v')"
      "file_created inv ready image rcs n j data ?v v'" by auto
  have stat: "vf_try (VFATStatFile D ?path) v = Some (Some None, v)" using StatFile_root [OF t(1), of D r v] new by (simp add: vf_try_def)
  have l: "load 0 (Suc 0) ?path = Some [slash]" by (simp add: load_def slice_def)
  have "VFATPutFile D ?path (Some data) (length data) v = Some (Some (), v')"
    unfolding VFATPutFile_def VfatPutFile_def
    by (simp add: vf_steps vf_then_step [of "vf_try (VFATStatFile D ?path)" v, OF stat] l VFAT_PATH_SIZE_def GetBaseName_root [OF t(1)] q
        vf_then_step [of "LoadDir D (slash # 0 # drop 2 (overwrite 0 (slash # t @ [0]) (stack_array 256 v)))" v, OF b(1)] v'(1))
  with v'(2) show ?thesis by (auto simp: with_heap_created)
qed

lemma GetFile_created:
  assumes vol: "volume_ok inv ready image v rcs" and t: "root_name t" "t \<noteq> ascii ''.''" "t \<noteq> ascii ''..''" "InternShortname (t @ [0]) = Some (Some n)"
    and n: "n ! 0 \<noteq> 0" "n ! 0 \<noteq> 0xE5"
    and new: "FindDirectoryEntry (t @ [0]) (buf_data (vf_rootdir v)) (buf_size (vf_rootdir v)) = Some None"
    and slot: "free_slot (buf_contents (vf_rootdir v)) 0 = Some j" "32 * (j + 1) < buf_size (vf_rootdir v)"
    and sz: "length data + vf_ClusterSize v \<le> 2 ^ 31" "clusters_for v (length data) \<le> length (free_clusters v)"
    and small: "data \<noteq> [] \<longrightarrow> hd (free_clusters v) < 65536"
    and made: "file_created inv ready image rcs n j data v v'"
  shows "\<exists>d v''. VFATGetFile D (slash # t @ 0 # r) v' = Some (Some (d, length data), v'') \<and> take (length data) d = data"
proof -
  let ?root = "vf_rootdir v" and ?cn = "vf_ClusterSize v"
  define cs where "cs = take (clusters_for v (length data)) (free_clusters v)"
  define c where "c = (if cs = [] then 0 else hd cs)"
  define e where "e = make_dirent n ATTR_ARCHIVE 100 1884 1884 (cluster_hi c) (cluster_lo c) (length data)"
  have m: "volume_ok inv ready image v' rcs" "vf_rootdir v' = ?root\<lparr>buf_data := overwrite (32 * j) e (buf_data ?root)\<rparr>" "fat_chain v' c cs"
    "concat (map (cluster_img image v') cs) = data @ replicate (length cs * ?cn - length data) 0" "vf_ClusterSize v' = ?cn" "cluster_of v' = cluster_of v"
    using made unfolding file_created_def Let_def cs_def [symmetric] c_def [symmetric] e_def [symmetric] by blast+
  have z: "0 \<notin> set t" using t(1) by (simp add: root_name_def)
  have n12: "length n = 12" using t(4) by (intro length_InternShortname [OF z, of "[]"]) simp
  have root: "buf_inv ?root" "0 < buf_size ?root" using vol by (simp_all add: volume_ok_def root_ok_def)
  then have data: "buf_data ?root \<noteq> []" "buf_size ?root \<le> length (buf_data ?root)" by (auto simp: buf_inv_def)
  have ok: "vfat_ok inv ready image v" "vfat_ok inv ready image v'" using vol m(1) by (simp_all add: volume_ok_def)
  have small_e: "length data < 2 ^ 32" "cluster_hi c < 65536" "cluster_lo c < 65536" using sz(1) by (simp_all add: cluster_halves)
  have n11: "11 \<le> length n" using n12 by simp
  note es = make_dirent_simps [OF n11] and ef = make_dirent_fields [OF n11 _ small_e(2,3,1)]
  have le: "length e = 32" unfolding e_def by (rule es)
  note fs = insert_dirent_runs(2) [OF root(1) slot(2,1) le]
  have miss: "find_dirent n (buf_data ?root) (buf_size ?root) 0 = Some None" using new FindDirectoryEntry_eq [OF t data(1)] by simp
  have "find_dirent n (overwrite (32 * j) e (buf_data ?root)) (buf_size ?root) 0 = Some (Some e)"
    using n slot(2) data(2) es by (intro find_inserted fs miss) (simp_all add: e_def ATTR_ARCHIVE_def ATTR_LONG_NAME_def)
  moreover have "overwrite (32 * j) e (buf_data ?root) \<noteq> []" using le by (auto simp: overwrite_def)
  ultimately have st: "VFATStatFile D (slash # t @ 0 # r) v' = Some (Some e, v')"
    using StatFile_root [OF t(1), of D r v'] FindDirectoryEntry_eq [OF t] by (simp add: m(2))
  have "c < 65536"
  proof (cases "cs = []")
    case False
    then have "hd cs = hd (free_clusters v)" by (auto simp: cs_def)
    moreover have "data \<noteq> []"
    proof
      assume "data = []"
      moreover have "0 < ?cn" using ok(1) by (simp add: vfat_ok_def)
      ultimately show False using False clusters_for_bounds(2) [of v 0] by (simp add: cs_def)
    qed
    ultimately show ?thesis using small False by (simp add: c_def)
  qed (simp add: c_def)
  then have dc: "dirent_cluster e = c" unfolding e_def dirent_cluster_def using ef cluster_halves(1) [of c] by (simp add: ATTR_ARCHIVE_def)
  have at: "de ''fileSize'' e = length data" "de ''attr'' e = ATTR_ARCHIVE" unfolding e_def using ef by (simp_all add: ATTR_ARCHIVE_def)
  have "0 < ?cn" using ok(1) by (simp add: vfat_ok_def)
  note cf = clusters_for_bounds [OF this, of "length data"]
  have len: "length cs = clusters_for v (length data)" using sz(2) by (simp add: cs_def)
  have "set cs \<subseteq> set (free_clusters v)" unfolding cs_def by (rule set_take_subset)
  then have cl: "\<forall>c \<in> set cs. cluster_of v' c" using free_clusters_of [of _ v] by (auto simp: m(6))
  have bounds: "length cs * vf_ClusterSize v' \<le> 2 ^ 31" "de ''fileSize'' e \<le> length cs * vf_ClusterSize v'" using cf sz(1) by (simp_all add: len m(5) at)
  have "even (de ''attr'' e div ATTR_DIRECTORY)" by (simp add: at ATTR_ARCHIVE_def ATTR_DIRECTORY_def)
  from LoadFile_runs [OF ok(2) _ cl bounds this] m(3) dc obtain b v'' where
    b: "LoadFileFromDirectoryEntry D e BufInit v' = Some (Some b, v'')" "buf_size b = length data"
      "take (length data) (buf_data b) = take (length data) (data @ replicate (length cs * ?cn - length data) 0)"
    by (auto simp: at m(4))
  have "VFATGetFile D (slash # t @ 0 # r) v' = Some (Some (buf_data b, length data), v'')"
    unfolding VFATGetFile_def
    by (simp add: vf_then_step [of "VFATStatFile D (slash # t @ 0 # r)" v', OF st] vf_then_step [of "LoadFileFromDirectoryEntry D e BufInit" v', OF b(1)] vf_ok_def b(2))
  with b(3) show ?thesis by simp
qed

end

end
