(* ===== verification/VfatClaims.thy ===== *)
theory VfatClaims
  imports VfatRound MemBlkdev
begin

text \<open>
  The properties of the FAT file system: entries of the table, allocation, short names, and the creation
  of a file and its way back.
\<close>

subsection \<open>Short names\<close>

text \<open>The characters of a name that are stored and returned: no terminator, no blank and no period.\<close>

definition plain_name :: "bytes \<Rightarrow> bool" where
  "plain_name s \<longleftrightarrow> (\<forall>c \<in> set s. c \<noteq> 0 \<and> c \<noteq> chr CHR '' '' \<and> c \<noteq> chr CHR ''.'')"

lemma toupper_plain: "c \<noteq> chr CHR '' '' \<Longrightarrow> posix_toupper c \<noteq> chr CHR '' ''"
proof -
  assume c: "c \<noteq> chr CHR '' ''"
  show ?thesis
  proof (cases "c \<ge> chr CHR ''a'' \<and> c \<le> chr CHR ''z''")
    case True
    then have "97 \<le> unat c" by (simp add: chr_def word_le_nat_alt)
    moreover have "c = 64" if "c - 32 = 32" using that by (simp add: diff_eq_eq)
    ultimately show ?thesis using True by (auto simp: posix_toupper_def chr_def)
  qed (use c in \<open>auto simp: posix_toupper_def\<close>)
qed

definition short_name :: "bytes \<Rightarrow> bytes \<Rightarrow> bytes" where
  "short_name stem ext = stem @ (if ext = [] then [] else chr CHR ''.'' # ext)"

definition stored_name :: "bytes \<Rightarrow> bytes \<Rightarrow> bytes" where
  "stored_name stem ext =
     map posix_toupper (stem @ replicate (8 - length stem) (chr CHR '' '') @ ext @ replicate (3 - length ext) (chr CHR '' '')) @ [0]"

lemma Intern_short_name:
  assumes "plain_name stem" "plain_name ext" "length stem \<le> 8" "length ext \<le> 3"
  shows "InternShortname (short_name stem ext @ 0 # r) = Some (Some (stored_name stem ext))"
proof (cases "ext = []")
  case True
  have z: "0 \<notin> set stem" "chr CHR ''.'' \<notin> set stem" using assms(1) by (auto simp: plain_name_def)
  have n: "11 - length stem = (8 - length stem) + 3" using assms(3) by simp
  have "replicate (11 - length stem) x = replicate (8 - length stem) x @ replicate 3 x" for x :: byte unfolding n by (rule replicate_add)
  then show ?thesis using assms(3) True
    by (simp add: short_name_def stored_name_def InternShortname_spec [OF z(1)] z(2) Let_def)
next
  case False
  have z: "0 \<notin> set (stem @ chr CHR ''.'' # ext)" "chr CHR ''.'' \<notin> set stem" using assms(1,2) by (auto simp: plain_name_def chr_def)
  have "takeWhile (\<lambda>x. x \<noteq> chr CHR ''.'') (stem @ chr CHR ''.'' # ext) = stem" using z(2) by (subst takeWhile_append2) auto
  then show ?thesis using assms(3,4) False InternShortname_spec [OF z(1), of r]
    by (simp add: short_name_def stored_name_def Let_def)
qed

lemma Extern_stored_name:
  assumes "plain_name stem" "plain_name ext" "length stem \<le> 8" "length ext \<le> 3"
  shows "ExternShortname (stored_name stem ext) = map posix_toupper (short_name stem ext) @ [0]"
proof -
  have up: "filter (\<lambda>c. c \<noteq> chr CHR '' '') (map posix_toupper s) = map posix_toupper s" if "plain_name s" for s
    using that toupper_plain by (intro filter_True) (auto simp: plain_name_def)
  have sp: "posix_toupper (chr CHR '' '') = chr CHR '' ''" "posix_toupper (chr CHR ''.'') = chr CHR ''.''" by (simp_all add: posix_toupper_def chr_def)
  have "take 8 (stored_name stem ext) = map posix_toupper stem @ replicate (8 - length stem) (chr CHR '' '')"
    "slice 8 3 (stored_name stem ext) = map posix_toupper ext @ replicate (3 - length ext) (chr CHR '' '')"
    using assms(3,4) by (simp_all add: stored_name_def slice_def sp)
  then show ?thesis using up [OF assms(1)] up [OF assms(2)] by (simp add: ExternShortname_def short_name_def sp)
qed

text \<open>
  A name in the 8.3 form comes back from a directory entry in upper case: \<open>InternShortname\<close> pads the stem to
  eight and the extension to three characters, and \<open>ExternShortname\<close> removes the padding and restores
  the period, which it writes only in front of an extension.
\<close>

lemma ShortName_roundtrip:
  assumes "plain_name stem" "plain_name ext" "length stem \<le> 8" "length ext \<le> 3"
  shows "\<exists>n. InternShortname (short_name stem ext @ [0]) = Some (Some n) \<and> length n = 12 \<and>
    ExternShortname n = map posix_toupper (short_name stem ext) @ [0]"
  using Intern_short_name [OF assms, of "[]"] Extern_stored_name [OF assms] assms(3,4) by (simp add: stored_name_def)

subsection \<open>A volume\<close>

text \<open>
  An empty FAT12 volume on a memory device: a boot sector, one table, a root directory of one sector and
  two clusters of one sector.
\<close>

definition blank :: "nat \<Rightarrow> bytes" where
  "blank n = replicate n 0"

lemma length_blank [simp]: "length (blank n) = n"
  by (simp add: blank_def)

lemma slice_blank [simp]: "off + k \<le> n \<Longrightarrow> slice off k (blank n) = blank k"
  by (simp add: blank_def slice_def)

lemma take_blank [simp]: "k \<le> n \<Longrightarrow> take k (blank n) = blank k"
  by (simp add: blank_def)

lemma le_nat_blank [simp]: "le_nat (blank k) = 0"
  by (induction k) (simp_all add: blank_def)

lemma load_blank [simp]: "off + k \<le> n \<Longrightarrow> load off k (blank n) = Some (blank k)"
  by (simp add: load_def)

definition toy_bpb :: bytes where
  "toy_bpb = [0xEB, 0, 0x90, 0, 0, 0, 0, 0, 0, 0, 0, 0, 2, 1, 1, 0, 1]"

lemma toy_bpb_fields [simp]:
  "bpb ''BytsPerSec'' toy_bpb = 512" "bpb ''SecPerClus'' toy_bpb = 1" "bpb ''ResvdSecCnt'' toy_bpb = 1" "bpb ''NumFATs'' toy_bpb = 1"
  by (simp_all add: bpb_def get_field_def bpb_layout_def toy_bpb_def slice_def)

definition blank_volume :: "nat \<Rightarrow> nat \<Rightarrow> mem_dev vfat" where
  "blank_volume sectors clusters =
     (new_vfat \<lparr>md_data = blank (sectors * 512), md_size = sectors * 512\<rparr> (\<lambda>_. Some 0) (\<lambda>_. 7))
       \<lparr>vf_bpb := toy_bpb, vf_RootDirSectors := 1, vf_CountOfClusters := clusters, vf_FATSz := 1, vf_FirstRootDirSecNum := 2,
        vf_FirstDataSector := 3, vf_FATType := fat_type clusters, vf_ClusterSize := 512,
        vf_fat := \<lparr>buf_data = blank 512, buf_size = 512, buf_cap = 512\<rparr>,
        vf_rootdir := \<lparr>buf_data = blank 512, buf_size = 512, buf_cap = 512\<rparr>\<rparr>"

abbreviation toy_volume :: "mem_dev vfat" where
  "toy_volume \<equiv> blank_volume 6 2"

lemma toy_volume_simps [simp]:
  "vf_bpb toy_volume = toy_bpb" "vf_RootDirSectors toy_volume = 1" "vf_CountOfClusters toy_volume = 2" "vf_FATSz toy_volume = 1"
  "vf_FirstRootDirSecNum toy_volume = 2" "vf_FirstDataSector toy_volume = 3" "vf_FATType toy_volume = FAT12" "vf_ClusterSize toy_volume = 512"
  "vf_fat toy_volume = \<lparr>buf_data = blank 512, buf_size = 512, buf_cap = 512\<rparr>" "vf_rootdir toy_volume = \<lparr>buf_data = blank 512, buf_size = 512, buf_cap = 512\<rparr>"
  "vf_rootdirClustno toy_volume = 0" "vf_heap toy_volume = (\<lambda>_. Some 0)" "vf_dev toy_volume = \<lparr>md_data = blank 3072, md_size = 3072\<rparr>"
  by (simp_all add: blank_volume_def new_vfat_def fat_type_def)

lemma toy_in_fat: "c < 300 \<Longrightarrow> in_fat toy_volume c"
  by (simp add: in_fat_def GetFATOffset_def entry_width_def)

lemma toy_entry: "c < 300 \<Longrightarrow> GetFATEntry toy_volume c = Some 0"
  by (simp add: GetFATEntry_def GetFATOffset_def Let_def)

lemma toy_volume_ok: "volume_ok mem_inv mem_ready mem_image toy_volume []" "fat_ok toy_volume" "heap_ok (vf_heap toy_volume)"
proof -
  show ok: "fat_ok toy_volume" by (auto simp: fat_ok_def toy_in_fat fat_type_def)
  have "SecPerClus toy_volume = 1" by (simp add: SecPerClus_def)
  moreover have "length (mem_image \<lparr>md_data = blank 3072, md_size = 3072\<rparr>) = 2560" by (simp add: mem_image_def)
  ultimately have "vfat_ok mem_inv mem_ready mem_image toy_volume" using ok by (simp add: vfat_ok_def mem_inv_def mem_ready_def)
  then show "volume_ok mem_inv mem_ready mem_image toy_volume []"
    by (simp add: volume_ok_def root_ok_def tables_ok_def fat_pos_def buf_inv_def)
qed simp

lemma toy_free: "free_clusters toy_volume = [2, 3]"
  by (simp add: free_from_def toy_entry)

text \<open>An empty FAT16 volume has at least 4085 clusters.\<close>

definition toy_volume16 :: "mem_dev vfat" where
  "toy_volume16 = toy_volume\<lparr>vf_CountOfClusters := 4085, vf_FATType := FAT16, vf_fat := \<lparr>buf_data = blank 8192, buf_size = 8192, buf_cap = 8192\<rparr>\<rparr>"

lemma toy_volume16_ok: "fat_ok toy_volume16" "heap_ok (vf_heap toy_volume16)" "vf_FATType toy_volume16 = FAT16" "vf_CountOfClusters toy_volume16 = 4085"
  "c < 4096 \<Longrightarrow> GetFATEntry toy_volume16 c = Some 0"
  by (auto simp: toy_volume16_def fat_ok_def in_fat_def GetFATOffset_def entry_width_def fat_type_def GetFATEntry_def Let_def)

lemma blank_free:
  assumes "\<forall>c \<in> {2..<vf_CountOfClusters v + 2}. GetFATEntry v c = Some 0"
  shows "free_clusters v = [2..<vf_CountOfClusters v + 2]"
  unfolding free_from_def using assms by (intro filter_True) (simp only: set_upt)

subsection \<open>The table\<close>

text \<open>
  C30: The File Allocation Table is an array of entries, whatever their width: after \<open>SetFATEntry\<close>,
  \<open>GetFATEntry\<close> returns the new value for the cluster and the old one for every other cluster. On FAT12
  this holds although neighbouring entries share a byte.
\<close>

theorem SetFATEntry_updates:
  assumes "in_fat v c" "in_fat v c'" "x < entry_limit (vf_FATType v)"
  shows "\<exists>v'. SetFATEntry v c x = Some v' \<and> GetFATEntry v' c' = (if c' = c then Some x else GetFATEntry v c')"
  using get_set_entry [OF assms] by blast

theorem SetFATEntry_updates_witness:
  "\<exists>v'. SetFATEntry toy_volume 2 0xABC = Some v' \<and> GetFATEntry v' 3 = Some 0"
  using SetFATEntry_updates [of toy_volume 2 3 "0xABC"] by (simp add: toy_in_fat toy_entry entry_limit_def)

text \<open>
  C29: \<open>_AllocateFATChain\<close> on a FAT12 or FAT32 volume (FAT16 is excluded) with a well-formed table, the
  allocation granted: it links the first free clusters in ascending order to a chain, which reading follows to its
  end. Each cluster's entry holds the number of the next one and the last one's holds the end mark
  (\<open>0x0FF8\<close> or \<open>0x0FFFFFF8\<close>), so none of them stays free; no other entry changes. When there are not
  enough free clusters it fails and the table stays as it was.
\<close>

theorem AllocateFATChain_links:
  assumes "fat_ok v" "heap_ok (vf_heap v)" "vf_FATType v \<noteq> FAT16" "n < 2 ^ 28"
  shows "if n \<le> length (free_clusters v)
    then \<exists>c v'. AllocateFATChain n v = Some (Some c, v') \<and> allocated v (take n (free_clusters v)) c v' \<and>
      (0 < n \<longrightarrow> GetFATEntry v' (free_clusters v ! (n - 1)) = Some (end_mark (vf_FATType v)))
    else \<exists>v'. AllocateFATChain n v = Some (None, v') \<and> (\<forall>c. GetFATEntry v' c = GetFATEntry v c)"
proof (cases "n \<le> length (free_clusters v)")
  case True
  from AllocateFATChain_runs [OF assms True] obtain c v' where
    v': "AllocateFATChain n v = Some (Some c, v')" "allocated v (take n (free_clusters v)) c v'" by blast
  then have "vf_FATType v' = vf_FATType v" "chained v' (take n (free_clusters v))" by (auto simp: allocated_def)
  with True have "0 < n \<longrightarrow> GetFATEntry v' (free_clusters v ! (n - 1)) = Some (end_mark (vf_FATType v))"
    by (auto simp: chained_def)
  with True v' show ?thesis by auto
next
  case False
  then have n: "0 < n" "length (take n (free_clusters v)) < n" by simp_all
  from AllocateFATChain_spec [OF assms(1) n(1) assms(4,2), unfolded if_P [OF n(2)]]
  obtain h where "AllocateFATChain n v = Some (None, v\<lparr>vf_heap := h\<rparr>)" by blast
  with False show ?thesis by simp
qed

theorem AllocateFATChain_links_witness:
  "(\<exists>c v'. AllocateFATChain 2 toy_volume = Some (Some c, v') \<and> fat_chain v' c [2, 3] \<and> GetFATEntry v' 3 = Some 0xFF8) \<and>
   (\<exists>v'. AllocateFATChain 3 toy_volume = Some (None, v'))"
proof
  have "\<exists>c v'. AllocateFATChain 2 toy_volume = Some (Some c, v') \<and> allocated toy_volume [2, 3] c v' \<and> GetFATEntry v' 3 = Some 0xFF8"
    using AllocateFATChain_links [OF toy_volume_ok(2,3), of 2] by (simp add: toy_free end_mark_def)
  then show "\<exists>c v'. AllocateFATChain 2 toy_volume = Some (Some c, v') \<and> fat_chain v' c [2, 3] \<and> GetFATEntry v' 3 = Some 0xFF8"
    unfolding allocated_def by blast
  show "\<exists>v'. AllocateFATChain 3 toy_volume = Some (None, v')"
    using AllocateFATChain_links [OF toy_volume_ok(2,3), of 3] by (auto simp: toy_free)
qed

lemma chain_last: "fat_chain v c cs \<Longrightarrow> cs \<noteq> [] \<Longrightarrow> \<exists>x. GetFATEntry v (last cs) = Some x \<and> (x = 0 \<or> IsEOF v x)"
proof (induction rule: fat_chain.induct)
  case (chain_step c n cs)
  then show ?case by (cases cs) (auto elim: fat_chain_NilE)
qed simp

lemma linked_last: "linked v cs \<Longrightarrow> cs \<noteq> [] \<Longrightarrow> GetFATEntry v (last cs) = Some (GetEOC v)"
  by (induction cs) (auto split: list.splits)

text \<open>
  C40: On FAT16 the end of an allocated chain is written as \<open>0x0FF8\<close>, the mark of FAT12, which \<open>IsEOF\<close> takes for a
  cluster number: the clusters that \<open>_AllocateFATChain\<close> links are never a chain that ends.
\<close>

theorem FAT16_chain_has_no_end:
  assumes "fat_ok v" "heap_ok (vf_heap v)" "vf_FATType v = FAT16" "0 < n" "n < 2 ^ 28" "n \<le> length (free_clusters v)"
  shows "\<exists>c v'. AllocateFATChain n v = Some (Some c, v') \<and> GetFATEntry v' (last (take n (free_clusters v))) = Some 0x0FF8 \<and>
    \<not> IsEOF v' 0x0FF8 \<and> \<not> fat_chain v' c (take n (free_clusters v))"
proof -
  let ?cs = "take n (free_clusters v)"
  have "\<not> length ?cs < n" using assms(6) by simp
  with AllocateFATChain_spec [OF assms(1,4,5,2)] obtain m h where
    m: "AllocateFATChain n v = Some (Some (hd ?cs), set_fat_data m (v\<lparr>vf_heap := h\<rparr>))" "linked (set_fat_data m v) ?cs"
    by (simp only: if_False) blast
  let ?v = "set_fat_data m (v\<lparr>vf_heap := h\<rparr>)"
  have ne: "?cs \<noteq> []" using assms(4,6) by auto
  have "GetFATEntry ?v = GetFATEntry (set_fat_data m v)" by (rule ext, rule GetFATEntry_cong; simp)
  with linked_last [OF m(2) ne] have last: "GetFATEntry ?v (last ?cs) = Some 0x0FF8" by (simp add: GetEOC_def assms(3))
  moreover have eof: "\<not> IsEOF ?v 0x0FF8" by (simp add: IsEOF_def assms(3))
  moreover have "\<not> fat_chain ?v (hd ?cs) ?cs"
  proof
    assume "fat_chain ?v (hd ?cs) ?cs"
    from chain_last [OF this ne] last eof show False by auto
  qed
  ultimately show ?thesis using m(1) by blast
qed

theorem FAT16_chain_has_no_end_witness:
  "\<exists>c v'. AllocateFATChain 1 toy_volume16 = Some (Some c, v') \<and> GetFATEntry v' 2 = Some 0x0FF8 \<and> \<not> fat_chain v' c [2]"
proof -
  have f: "free_clusters toy_volume16 = [2..<vf_CountOfClusters toy_volume16 + 2]"
    by (rule blank_free) (simp add: toy_volume16_ok)
  have u: "[2..<n] = 2 # [Suc 2..<n]" if "2 < n" for n using that by (rule upt_conv_Cons)
  have "(2 :: nat) < 4085 + 2" by simp
  then have t: "take 1 (free_clusters toy_volume16) = [2]" "1 \<le> length (free_clusters toy_volume16)"
    unfolding f toy_volume16_ok(4) One_nat_def by (simp_all only: u take_Suc_Cons take_0 list.size)
  have "0 < (1 :: nat)" "(1 :: nat) < 2 ^ 28" by simp_all
  from FAT16_chain_has_no_end [OF toy_volume16_ok(1-3) this t(2), unfolded t(1) last_ConsL [OF refl]] show ?thesis by blast
qed

subsection \<open>Files of the root directory\<close>

text \<open>
  What \<open>VFATPutFile\<close> needs to create the file \<open>/t\<close> with the data: a short name \<open>n\<close> that is not in use, a free
  entry \<open>j\<close> of the root directory in front of its last one, and enough free clusters.
\<close>

definition creatable :: "'s vfat \<Rightarrow> bytes \<Rightarrow> bytes \<Rightarrow> nat \<Rightarrow> bytes \<Rightarrow> bool" where
  "creatable v t n j data \<longleftrightarrow> root_name t \<and> InternShortname (t @ [0]) = Some (Some n) \<and>
     FindDirectoryEntry (t @ [0]) (buf_data (vf_rootdir v)) (buf_size (vf_rootdir v)) = Some None \<and>
     free_slot (buf_contents (vf_rootdir v)) 0 = Some j \<and> 32 * (j + 1) < buf_size (vf_rootdir v) \<and>
     length data + vf_ClusterSize v \<le> 2 ^ 31 \<and> clusters_for v (length data) \<le> length (free_clusters v)"

definition root_path :: "bytes \<Rightarrow> bytes" where
  "root_path t = chr CHR ''/'' # t @ [0]"

text \<open>The name is not one of the two entries every directory has, and begins an entry that is in use.\<close>

definition proper_name :: "bytes \<Rightarrow> bytes \<Rightarrow> bool" where
  "proper_name t n \<longleftrightarrow> t \<noteq> ascii ''.'' \<and> t \<noteq> ascii ''..'' \<and> n ! 0 \<noteq> 0 \<and> n ! 0 \<noteq> 0xE5"

lemma toy_type: "vf_FATType toy_volume \<noteq> FAT16"
  by simp

lemma len3: "length [1, 2, 3 :: byte] = 3"
  by simp

lemma toy_creatable:
  "creatable toy_volume (ascii ''A'') (stored_name (ascii ''A'') []) 0 [1, 2, 3]" "proper_name (ascii ''A'') (stored_name (ascii ''A'') [])"
proof -
  have i: "InternShortname (ascii ''A'' @ [0]) = Some (Some (stored_name (ascii ''A'') []))"
    using Intern_short_name [of "ascii ''A''" "[]" "[]"] by (simp add: short_name_def plain_name_def chr_def)
  have t: "root_name (ascii ''A'')" by (simp add: root_name_def chr_def)
  have l: "load 0 (Suc 0) (blank 512) = Some [0]" using load_blank [of 0 1 512] by (simp add: blank_def)
  have "find_dirent n (blank 512) 512 0 = Some None" for n by (subst find_dirent.simps) (simp add: l)
  moreover have "blank 512 \<noteq> []" using length_blank [of 512] by (metis list.size(3) zero_neq_numeral)
  ultimately have f: "FindDirectoryEntry (ascii ''A'' @ [0]) (blank 512) 512 = Some None"
    using FindDirectoryEntry_eq [OF t _ _ i] by simp
  have s: "free_slot (blank 512) 0 = Some 0" by (subst free_slot.simps) (simp add: l)
  have "buf_contents (vf_rootdir toy_volume) = blank 512" "clusters_for toy_volume (length [1, 2, 3 :: byte]) = 1"
    by (simp_all add: buf_contents_def clusters_for_def)
  then show "creatable toy_volume (ascii ''A'') (stored_name (ascii ''A'') []) 0 [1, 2, 3]"
    unfolding creatable_def toy_free using i f s t by simp
  have "stored_name (ascii ''A'') [] ! 0 = 65" by (simp add: stored_name_def posix_toupper_def chr_def)
  then show "proper_name (ascii ''A'') (stored_name (ascii ''A'') [])" by (simp add: proper_name_def)
qed

text \<open>
  C27: Creating a file with \<open>VFATPutFile\<close> in the root directory of a well-formed FAT12 or FAT32 volume (FAT16 is
  excluded) on a device that is a flat array of bytes. When there is room, that is, the short name is not in use, a
  free entry is left in front of the directory's last one and there are enough free clusters for the data, which is below 2 GiB, the call succeeds. It
  leaves a well-formed volume whose tables and root directory on the device are those in memory: the new entry is in
  the free place, its chain of formerly free clusters ends with the end mark and holds the data and zeros behind it,
  and no other entry of the table and no other cluster has changed. A failing call, an existing file and
  the other directories are not covered.
\<close>

theorem VFATPutFile_creates:
  assumes "blkdev_image D dinv dready img" "volume_ok dinv dready img v rcs" "vf_FATType v \<noteq> FAT16" "creatable v t n j data"
  shows "\<exists>v'. VFATPutFile D (root_path t) (Some data) (length data) v = Some (Some (), v') \<and> file_created dinv dready img rcs n j data v v'"
  using blkdev_image.PutFile_runs [OF assms(1-3), of t n j data "[]"] assms(4) by (simp add: creatable_def root_path_def)

theorem VFATPutFile_creates_witness:
  "\<exists>v'. VFATPutFile mem_ops (root_path (ascii ''A'')) (Some [1, 2, 3]) 3 toy_volume = Some (Some (), v') \<and> mirrored mem_image v' []"
proof -
  from VFATPutFile_creates [OF md.blkdev_image_axioms toy_volume_ok(1) toy_type toy_creatable(1)] obtain v' where
    v': "VFATPutFile mem_ops (root_path (ascii ''A'')) (Some [1, 2, 3]) (length [1, 2, 3 :: byte]) toy_volume = Some (Some (), v')"
      "file_created mem_inv mem_ready mem_image [] (stored_name (ascii ''A'') []) 0 [1, 2, 3] toy_volume v'" by blast
  then have "mirrored mem_image v' []" unfolding file_created_def by blast
  with v'(1) show ?thesis unfolding len3 by blast
qed



text \<open>The file \<open>/s\<close> has the entry \<open>x\<close> and the clusters \<open>ds\<close>, which are in use and not those of the root directory.\<close>

definition root_file :: "'s vfat \<Rightarrow> nat list \<Rightarrow> bytes \<Rightarrow> bytes \<Rightarrow> bytes \<Rightarrow> nat list \<Rightarrow> bool" where
  "root_file v rcs s m x ds \<longleftrightarrow> root_name s \<and> s \<noteq> ascii ''.'' \<and> s \<noteq> ascii ''..'' \<and> InternShortname (s @ [0]) = Some (Some m) \<and>
     FindDirectoryEntry (s @ [0]) (buf_data (vf_rootdir v)) (buf_size (vf_rootdir v)) = Some (Some x) \<and> even (de ''attr'' x div ATTR_DIRECTORY) \<and>
     fat_chain v (dirent_cluster x) ds \<and> (\<forall>d \<in> set ds. cluster_of v d \<and> GetFATEntry v d \<noteq> Some 0 \<and> d \<notin> set rcs) \<and>
     de ''fileSize'' x \<le> length ds * vf_ClusterSize v \<and> length ds * vf_ClusterSize v \<le> 2 ^ 31"

lemma created_keeps_file:
  assumes vol: "volume_ok dinv dready img v rcs" and slot: "free_slot (buf_contents (vf_rootdir v)) 0 = Some j" "32 * (j + 1) < buf_size (vf_rootdir v)"
    and n: "length n = 12" "n ! 0 \<noteq> 0" "take 11 m \<noteq> take 11 n"
    and f: "root_file v rcs s m x ds" and made: "file_created dinv dready img rcs n j data v v'"
  shows "root_file v' rcs s m x ds" "\<forall>d \<in> set ds. cluster_img img v' d = cluster_img img v d"
proof -
  let ?root = "vf_rootdir v"
  define cs where "cs = take (clusters_for v (length data)) (free_clusters v)"
  define c where "c = (if cs = [] then 0 else hd cs)"
  define e where "e = make_dirent n ATTR_ARCHIVE 100 1884 1884 (cluster_hi c) (cluster_lo c) (length data)"
  have k: "vf_rootdir v' = ?root\<lparr>buf_data := overwrite (32 * j) e (buf_data ?root)\<rparr>" "vf_ClusterSize v' = vf_ClusterSize v" "cluster_of v' = cluster_of v"
    "\<forall>c. cluster_of v c \<and> c \<notin> set cs \<longrightarrow> GetFATEntry v' c = GetFATEntry v c"
    "\<forall>c. cluster_of v c \<and> c \<notin> set cs \<and> c \<notin> set rcs \<longrightarrow> cluster_img img v' c = cluster_img img v c"
    using made unfolding file_created_def Let_def cs_def [symmetric] c_def [symmetric] e_def [symmetric] by blast+
  have "vf_FATType v' = vf_FATType v" using made unfolding file_created_def by blast
  then have eof: "IsEOF v' = IsEOF v" by (simp add: fun_eq_iff IsEOF_def)
  have r: "root_name s" "s \<noteq> ascii ''.''" "s \<noteq> ascii ''..''" "InternShortname (s @ [0]) = Some (Some m)"
    "FindDirectoryEntry (s @ [0]) (buf_data ?root) (buf_size ?root) = Some (Some x)" "fat_chain v (dirent_cluster x) ds"
    "\<forall>d \<in> set ds. cluster_of v d \<and> GetFATEntry v d \<noteq> Some 0 \<and> d \<notin> set rcs"
    using f unfolding root_file_def by blast+
  have root: "buf_inv ?root" "0 < buf_size ?root" "32 dvd buf_size ?root" using vol by (simp_all add: volume_ok_def root_ok_def)
  then have data: "buf_data ?root \<noteq> []" "buf_size ?root \<le> length (buf_data ?root)" by (auto simp: buf_inv_def)
  have "11 \<le> length n" using n(1) by simp
  note es = make_dirent_simps [OF this]
  have le: "length e = 32" unfolding e_def by (rule es)
  have "free_slot (buf_data ?root) 0 = Some j" by (rule insert_dirent_runs(2) [OF root(1) slot(2,1) le])
  with slot(2) data(2) have sf: "slot_free (buf_data ?root) j" using free_slot_iff [of 0 j "buf_data ?root"] by simp
  have "find_dirent m (buf_data ?root) (buf_size ?root) 0 = Some (Some x)" using r(5) FindDirectoryEntry_eq [OF r(1-4) data(1)] by simp
  then have "find_dirent m (overwrite (32 * j) e (buf_data ?root)) (buf_size ?root) 0 = Some (Some x)"
    using n(2,3) slot(2) data(2) root(3) sf le es by (intro find_kept) (simp_all add: e_def)
  moreover have "overwrite (32 * j) e (buf_data ?root) \<noteq> []" using le by (auto simp: overwrite_def)
  ultimately have found: "FindDirectoryEntry (s @ [0]) (buf_data (vf_rootdir v')) (buf_size (vf_rootdir v')) = Some (Some x)"
    using FindDirectoryEntry_eq [OF r(1-4)] by (simp add: k(1))
  have "set cs \<subseteq> set (free_clusters v)" unfolding cs_def by (rule set_take_subset)
  then have apart: "\<forall>d \<in> set ds. d \<notin> set cs" using r(7) free_clusters_of [of _ v] by blast
  then have same: "\<forall>d \<in> set ds. GetFATEntry v' d = GetFATEntry v d" using k(4) r(7) by blast
  show "\<forall>d \<in> set ds. cluster_img img v' d = cluster_img img v d" using k(5) r(7) apart by blast
  show "root_file v' rcs s m x ds"
    using f found fat_chain_cong [OF r(6) same eof] same unfolding root_file_def k(2,3) by metis
qed

text \<open>
  C28: Creating a file in the root directory of a well-formed FAT12 or FAT32 volume (FAT16 is excluded), when there is
  room for it, leaves the other files of the root directory readable with their contents: a file with another
  short name, whose chain is marked used and has at least its size (both files below 2 GiB), is found with the same entry, and \<open>VFATGetFile\<close> still
  returns what its clusters held before.
\<close>

theorem VFATPutFile_keeps_files:
  assumes "blkdev_image D dinv dready img" "volume_ok dinv dready img v rcs" "vf_FATType v \<noteq> FAT16" "creatable v t n j data" "proper_name t n"
    and "root_file v rcs s m x ds" "take 11 m \<noteq> take 11 n"
  shows "\<exists>v' v'' d. VFATPutFile D (root_path t) (Some data) (length data) v = Some (Some (), v') \<and>
    VFATGetFile D (root_path s) v' = Some (Some (d, de ''fileSize'' x), v'') \<and>
    take (de ''fileSize'' x) d = take (de ''fileSize'' x) (concat (map (cluster_img img v) ds))"
proof -
  have c: "root_name t" "InternShortname (t @ [0]) = Some (Some n)" "free_slot (buf_contents (vf_rootdir v)) 0 = Some j"
    "32 * (j + 1) < buf_size (vf_rootdir v)" "n ! 0 \<noteq> 0" using assms(4,5) by (simp_all add: creatable_def proper_name_def)
  from blkdev_image.PutFile_runs [OF assms(1-3), of t n j data "[]"] assms(4) obtain v' where
    v': "VFATPutFile D (root_path t) (Some data) (length data) v = Some (Some (), v')" "file_created dinv dready img rcs n j data v v'"
    by (auto simp: creatable_def root_path_def)
  have z: "0 \<notin> set t" using c(1) by (simp add: root_name_def)
  have "length n = 12" using c(2) by (intro length_InternShortname [OF z, of "[]"]) simp
  note kept = created_keeps_file [OF assms(2) c(3,4) this c(5) assms(7,6) v'(2)]
  have f: "root_name s" "FindDirectoryEntry (s @ [0]) (buf_data (vf_rootdir v')) (buf_size (vf_rootdir v')) = Some (Some x)" "even (de ''attr'' x div ATTR_DIRECTORY)"
    "fat_chain v' (dirent_cluster x) ds" "\<forall>d \<in> set ds. cluster_of v' d" "de ''fileSize'' x \<le> length ds * vf_ClusterSize v'" "length ds * vf_ClusterSize v' \<le> 2 ^ 31"
    using kept(1) unfolding root_file_def by blast+
  have ok: "vfat_ok dinv dready img v'" using v'(2) unfolding file_created_def volume_ok_def by blast
  from blkdev_image.LoadFile_runs [OF assms(1) ok f(4,5,7,6,3)] obtain b v'' where
    b: "LoadFileFromDirectoryEntry D x BufInit v' = Some (Some b, v'')" "buf_size b = de ''fileSize'' x"
      "take (de ''fileSize'' x) (buf_data b) = take (de ''fileSize'' x) (concat (map (cluster_img img v') ds))" by blast
  have st: "VFATStatFile D (root_path s) v' = Some (Some x, v')" using StatFile_root [OF f(1), of D "[]" v'] f(2) by (simp add: root_path_def)
  have "map (cluster_img img v') ds = map (cluster_img img v) ds" using kept(2) by simp
  with b have "VFATGetFile D (root_path s) v' = Some (Some (buf_data b, de ''fileSize'' x), v'')"
    "take (de ''fileSize'' x) (buf_data b) = take (de ''fileSize'' x) (concat (map (cluster_img img v) ds))"
    unfolding VFATGetFile_def
    by (simp_all only: vf_then_step [of "VFATStatFile D (root_path s)" v', OF st] vf_then_step [of "LoadFileFromDirectoryEntry D x BufInit" v', OF b(1)] vf_ok_def)
  with v'(1) show ?thesis by blast
qed

text \<open>The volume with a file \<open>/B\<close> of three bytes in its first cluster.\<close>

definition toy_entry_B :: bytes where
  "toy_entry_B = make_dirent (stored_name (ascii ''B'') []) ATTR_ARCHIVE 0 0 0 0 2 3"

definition toy_root_B :: bytes where
  "toy_root_B = overwrite 0 toy_entry_B (blank 512)"

definition toy_volume_B :: "mem_dev vfat" where
  "toy_volume_B = toy_volume\<lparr>vf_fat := \<lparr>buf_data = overwrite 3 [0xFF, 0x0F] (blank 512), buf_size = 512, buf_cap = 512\<rparr>,
     vf_rootdir := \<lparr>buf_data = toy_root_B, buf_size = 512, buf_cap = 512\<rparr>\<rparr>"

lemma toy_volume_B_simps [simp]:
  "vf_bpb toy_volume_B = toy_bpb" "vf_RootDirSectors toy_volume_B = 1" "vf_CountOfClusters toy_volume_B = 2" "vf_FATSz toy_volume_B = 1"
  "vf_FirstRootDirSecNum toy_volume_B = 2" "vf_FirstDataSector toy_volume_B = 3" "vf_FATType toy_volume_B = FAT12" "vf_ClusterSize toy_volume_B = 512"
  "vf_fat toy_volume_B = \<lparr>buf_data = overwrite 3 [0xFF, 0x0F] (blank 512), buf_size = 512, buf_cap = 512\<rparr>"
  "vf_rootdir toy_volume_B = \<lparr>buf_data = toy_root_B, buf_size = 512, buf_cap = 512\<rparr>"
  "vf_rootdirClustno toy_volume_B = 0" "vf_heap toy_volume_B = (\<lambda>_. Some 0)" "vf_dev toy_volume_B = \<lparr>md_data = blank 3072, md_size = 3072\<rparr>"
  by (simp_all add: toy_volume_B_def)

lemma toy_B_entries: "length toy_root_B = 512" "entry_at toy_root_B 0 = toy_entry_B" "entry_byte toy_root_B 1 0 = 0" "length toy_entry_B = 32"
proof -
  have n: "11 \<le> length (stored_name (ascii ''B'') [])" by (simp add: stored_name_def)
  show le: "length toy_entry_B = 32" unfolding toy_entry_B_def by (rule make_dirent_simps(1) [OF n])
  show "length toy_root_B = 512" by (simp add: toy_root_B_def le)
  show "entry_at toy_root_B 0 = toy_entry_B" using entry_overwrite(1) [OF le, of 0 "blank 512"] by (simp add: toy_root_B_def)
  show "entry_byte toy_root_B 1 0 = 0" by (simp add: toy_root_B_def entry_byte_def nth_overwrite le) (simp add: blank_def)
qed

lemma toy_entry_B_fields:
  "toy_entry_B ! 0 = 66" "toy_entry_B ! 11 = 32" "take 11 toy_entry_B = take 11 (stored_name (ascii ''B'') [])"
  "de ''attr'' toy_entry_B = ATTR_ARCHIVE" "dirent_cluster toy_entry_B = 2" "de ''fileSize'' toy_entry_B = 3"
proof -
  have n: "11 \<le> length (stored_name (ascii ''B'') [])" "stored_name (ascii ''B'') [] ! 0 = 66"
    by (simp_all add: stored_name_def posix_toupper_def chr_def)
  note s = make_dirent_simps [OF n(1)] and f = make_dirent_fields [OF n(1), of ATTR_ARCHIVE 0 2 3]
  show "toy_entry_B ! 0 = 66" "toy_entry_B ! 11 = 32" "take 11 toy_entry_B = take 11 (stored_name (ascii ''B'') [])"
    unfolding toy_entry_B_def s n(2) by (simp_all add: ATTR_ARCHIVE_def)
  show "de ''attr'' toy_entry_B = ATTR_ARCHIVE" "dirent_cluster toy_entry_B = 2" "de ''fileSize'' toy_entry_B = 3"
    unfolding toy_entry_B_def dirent_cluster_def using f by (simp_all add: ATTR_ARCHIVE_def)
qed

lemma toy_find:
  "find_dirent (stored_name (ascii ''B'') []) toy_root_B 512 0 = Some (Some toy_entry_B)" "find_dirent (stored_name (ascii ''A'') []) toy_root_B 512 0 = Some None"
proof -
  have e: "entry_byte toy_root_B 0 0 = 66" "entry_byte toy_root_B 0 11 = 32"
    by (simp_all add: entry_byte_at toy_B_entries toy_entry_B_fields)
  have d: "take 11 (stored_name (ascii ''B'') []) \<noteq> take 11 (stored_name (ascii ''A'') [])" by (simp add: stored_name_def posix_toupper_def chr_def)
  have nm: "entry_named n toy_root_B 0 \<longleftrightarrow> take 11 n = take 11 (stored_name (ascii ''B'') [])" for n
    by (auto simp: entry_named_at toy_B_entries toy_entry_B_fields ATTR_LONG_NAME_def)
  show "find_dirent (stored_name (ascii ''B'') []) toy_root_B 512 0 = Some (Some toy_entry_B)"
    by (subst find_dirent_step) (simp_all add: toy_B_entries e nm)
  show "find_dirent (stored_name (ascii ''A'') []) toy_root_B 512 0 = Some None"
    using d toy_B_entries(3) by (subst find_dirent_step, simp add: toy_B_entries, subst find_dirent_step) (auto simp: toy_B_entries(1) e nm)
qed

lemma toy_volume_B_ok: "volume_ok mem_inv mem_ready mem_image toy_volume_B []"
proof -
  have "in_fat toy_volume_B c" if "c < 300" for c using that by (simp add: in_fat_def GetFATOffset_def entry_width_def)
  then have "fat_ok toy_volume_B" by (auto simp: fat_ok_def fat_type_def)
  moreover have "SecPerClus toy_volume_B = 1" by (simp add: SecPerClus_def)
  moreover have "length (mem_image \<lparr>md_data = blank 3072, md_size = 3072\<rparr>) = 2560" by (simp add: mem_image_def)
  ultimately have "vfat_ok mem_inv mem_ready mem_image toy_volume_B" by (simp add: vfat_ok_def mem_inv_def mem_ready_def)
  then show ?thesis by (simp add: volume_ok_def root_ok_def tables_ok_def fat_pos_def buf_inv_def toy_B_entries)
qed

lemma toy_B_type: "vf_FATType toy_volume_B \<noteq> FAT16"
  by simp

lemma toy_B_fat: "GetFATEntry toy_volume_B 2 = Some 0xFFF" "GetFATEntry toy_volume_B 3 = Some 0" "free_clusters toy_volume_B = [3]"
proof -
  have "slice 3 2 (overwrite 3 [0xFF, 0x0F] (blank 512)) = [0xFF, 0x0F]" by (intro slice_overwrite_same) simp_all
  then show a: "GetFATEntry toy_volume_B 2 = Some 0xFFF" by (simp add: GetFATEntry_def GetFATOffset_def Let_def load_def)
  have "slice 4 2 (overwrite 3 [0xFF, 0x0F] (blank 512)) = [0x0F, 0]"
    by (simp add: slice_2 nth_overwrite) (simp add: blank_def)
  then show b: "GetFATEntry toy_volume_B 3 = Some 0" by (simp add: GetFATEntry_def GetFATOffset_def Let_def load_def)
  show "free_clusters toy_volume_B = [3]" using a b by (simp add: free_from_def)
qed

lemma toy_B_file:
  "root_file toy_volume_B [] (ascii ''B'') (stored_name (ascii ''B'') []) toy_entry_B [2]"
  "creatable toy_volume_B (ascii ''A'') (stored_name (ascii ''A'') []) 1 [1, 2, 3]"
proof -
  have i: "InternShortname (ascii [c] @ [0]) = Some (Some (stored_name (ascii [c]) []))" "root_name (ascii [c])" if "c \<in> {CHR ''A'', CHR ''B''}" for c
    using that Intern_short_name [of "ascii [c]" "[]" "[]"] by (auto simp: short_name_def plain_name_def chr_def root_name_def)
  have ne: "toy_root_B \<noteq> []" using toy_B_entries(1) by auto
  have b: "FindDirectoryEntry (ascii ''B'' @ [0]) toy_root_B 512 = Some (Some toy_entry_B)"
    using FindDirectoryEntry_eq [OF i(2) _ _ i(1) ne, of "CHR ''B''"] toy_find by simp
  have a: "FindDirectoryEntry (ascii ''A'' @ [0]) toy_root_B 512 = Some None"
    using FindDirectoryEntry_eq [OF i(2) _ _ i(1) ne, of "CHR ''A''"] toy_find by simp
  have chain: "fat_chain toy_volume_B 2 [2]"
    by (rule chain_step [OF _ _ toy_B_fat(1) chain_end]) (simp_all add: IsEOF_def)
  show "root_file toy_volume_B [] (ascii ''B'') (stored_name (ascii ''B'') []) toy_entry_B [2]"
    unfolding root_file_def using i [of "CHR ''B''"] b chain
    by (simp add: toy_entry_B_fields toy_B_fat cluster_of_def ATTR_ARCHIVE_def ATTR_DIRECTORY_def)
  have "free_slot toy_root_B 0 = Some 1"
    using toy_B_entries by (subst free_slot_iff) (simp_all add: slot_free_def entry_byte_at toy_entry_B_fields)
  moreover have "buf_contents (vf_rootdir toy_volume_B) = toy_root_B" "clusters_for toy_volume_B (length [1, 2, 3 :: byte]) = 1"
    by (simp_all add: buf_contents_def clusters_for_def toy_B_entries)
  ultimately show "creatable toy_volume_B (ascii ''A'') (stored_name (ascii ''A'') []) 1 [1, 2, 3]"
    unfolding creatable_def toy_B_fat using i [of "CHR ''A''"] a by simp
qed

theorem VFATPutFile_keeps_files_witness:
  "\<exists>v' v'' d. VFATPutFile mem_ops (root_path (ascii ''A'')) (Some [1, 2, 3]) 3 toy_volume_B = Some (Some (), v') \<and>
    VFATGetFile mem_ops (root_path (ascii ''B'')) v' = Some (Some (d, 3), v'') \<and> take 3 d = take 3 (cluster_img mem_image toy_volume_B 2)"
proof -
  have d: "take 11 (stored_name (ascii ''B'') []) \<noteq> take 11 (stored_name (ascii ''A'') [])" by (simp add: stored_name_def posix_toupper_def chr_def)
  from VFATPutFile_keeps_files [OF md.blkdev_image_axioms toy_volume_B_ok toy_B_type toy_B_file(2) toy_creatable(2) toy_B_file(1) d, unfolded len3 toy_entry_B_fields]
  show ?thesis by simp
qed

end
