(* ===== verification/PeImage.thy ===== *)
theory PeImage
  imports Layout Sha
begin

text \<open>
  Executable images in the PE format (\<open>lsvmutils/peimage.c\<close>, \<open>lsvmutils/peimage.h\<close>): the regions of an image
  that are hashed for Secure Boot and for the measurement of the boot loader, and the digests over them. An image is the bytes at
  \<open>imageData\<close>; a pointer into it is an offset. The code takes every offset and size from the image
  and compares none of them with \<open>imageSize\<close>, so a region may lie outside: then hashing it
  is \<open>None\<close>.
\<close>

subsection \<open>Structures\<close>

definition EFI_IMAGE_DOS_HEADER :: layout where
  "EFI_IMAGE_DOS_HEADER =
    [(''e_magic'', 2, 1), (''e_cblp'', 2, 1), (''e_cp'', 2, 1), (''e_crlc'', 2, 1), (''e_cparhdr'', 2, 1),
     (''e_minalloc'', 2, 1), (''e_maxalloc'', 2, 1), (''e_ss'', 2, 1), (''e_sp'', 2, 1), (''e_csum'', 2, 1),
     (''e_ip'', 2, 1), (''e_cs'', 2, 1), (''e_lfarlc'', 2, 1), (''e_ovno'', 2, 1), (''e_res'', 2, 4),
     (''e_oemid'', 2, 1), (''e_oeminfo'', 2, 1), (''e_res2'', 2, 10), (''e_lfanew'', 4, 1)]"

definition EFI_IMAGE_FILE_HEADER :: layout where
  "EFI_IMAGE_FILE_HEADER =
    [(''Machine'', 2, 1), (''NumberOfSections'', 2, 1), (''TimeDateStamp'', 4, 1), (''PointerToSymbolTable'', 4, 1),
     (''NumberOfSymbols'', 4, 1), (''SizeOfOptionalHeader'', 2, 1), (''Characteristics'', 2, 1)]"

definition EFI_IMAGE_DATA_DIRECTORY :: layout where
  "EFI_IMAGE_DATA_DIRECTORY = [(''VirtualAddress'', 4, 1), (''Size'', 4, 1)]"

definition EFI_IMAGE_OPTIONAL_HEADER64 :: layout where
  "EFI_IMAGE_OPTIONAL_HEADER64 =
    [(''Magic'', 2, 1), (''MajorLinkerVersion'', 1, 1), (''MinorLinkerVersion'', 1, 1), (''SizeOfCode'', 4, 1),
     (''SizeOfInitializedData'', 4, 1), (''SizeOfUninitializedData'', 4, 1), (''AddressOfEntryPoint'', 4, 1),
     (''BaseOfCode'', 4, 1), (''ImageBase'', 8, 1), (''SectionAlignment'', 4, 1), (''FileAlignment'', 4, 1),
     (''MajorOperatingSystemVersion'', 2, 1), (''MinorOperatingSystemVersion'', 2, 1), (''MajorImageVersion'', 2, 1),
     (''MinorImageVersion'', 2, 1), (''MajorSubsystemVersion'', 2, 1), (''MinorSubsystemVersion'', 2, 1),
     (''Win32VersionValue'', 4, 1), (''SizeOfImage'', 4, 1), (''SizeOfHeaders'', 4, 1), (''CheckSum'', 4, 1),
     (''Subsystem'', 2, 1), (''DllCharacteristics'', 2, 1), (''SizeOfStackReserve'', 8, 1),
     (''SizeOfStackCommit'', 8, 1), (''SizeOfHeapReserve'', 8, 1), (''SizeOfHeapCommit'', 8, 1),
     (''LoaderFlags'', 4, 1), (''NumberOfRvaAndSizes'', 4, 1), (''DataDirectory'', 4, 2 * 16)]"

text \<open>The members of the file header and of the optional header follow the signature.\<close>

definition EFI_IMAGE_NT_HEADERS64 :: layout where
  "EFI_IMAGE_NT_HEADERS64 = (''Signature'', 4, 1) # EFI_IMAGE_FILE_HEADER @ EFI_IMAGE_OPTIONAL_HEADER64"

definition EFI_IMAGE_SECTION_HEADER :: layout where
  "EFI_IMAGE_SECTION_HEADER =
    [(''Name'', 1, 8), (''Misc'', 4, 1), (''VirtualAddress'', 4, 1), (''SizeOfRawData'', 4, 1),
     (''PointerToRawData'', 4, 1), (''PointerToRelocations'', 4, 1), (''PointerToLinenumbers'', 4, 1),
     (''NumberOfRelocations'', 2, 1), (''NumberOfLinenumbers'', 2, 1), (''Characteristics'', 4, 1)]"

lemma pe_layouts_aligned [layout_simps]:
  "aligned_from 0 EFI_IMAGE_DOS_HEADER" "aligned_from 0 EFI_IMAGE_NT_HEADERS64" "aligned_from 0 EFI_IMAGE_SECTION_HEADER"
  by (simp_all add: EFI_IMAGE_DOS_HEADER_def EFI_IMAGE_NT_HEADERS64_def EFI_IMAGE_FILE_HEADER_def
      EFI_IMAGE_OPTIONAL_HEADER64_def EFI_IMAGE_SECTION_HEADER_def)

definition EFI_IMAGE_DOS_SIGNATURE :: nat where
  "EFI_IMAGE_DOS_SIGNATURE = 0x5A4D"

definition EFI_IMAGE_DIRECTORY_ENTRY_SECURITY :: nat where
  "EFI_IMAGE_DIRECTORY_ENTRY_SECURITY = 4"

text \<open>
  The object \<open>Image\<close>. The region array is the list of its elements; its \<open>Realloc\<close> takes the next
  outcome of the allocator (there are at most 65539 regions of 16 bytes, so the size does not wrap).
\<close>

record pe_image =
  img_imageData :: "bytes option"
  img_imageSize :: nat
  img_signatureData :: "nat option"
  img_signatureSize :: nat
  img_regions :: "(nat \<times> nat) list"

definition null_image :: pe_image where
  "null_image = \<lparr>img_imageData = None, img_imageSize = 0, img_signatureData = None, img_signatureSize = 0,
     img_regions = []\<rparr>"

text \<open>Reading a member of the structure at an offset of the image.\<close>

definition peek :: "bytes \<Rightarrow> nat \<Rightarrow> layout \<Rightarrow> string \<Rightarrow> nat option" where
  "peek d base l f = (case field_at l f of (off, k) \<Rightarrow> map_option le_nat (load (base + off) k d))"

text \<open>The addresses of the checksum and of the security directory entry.\<close>

definition checksum_at :: "nat \<Rightarrow> nat" where
  "checksum_at pe = pe + fst (field_at EFI_IMAGE_NT_HEADERS64 ''CheckSum'')"

definition security_at :: "nat \<Rightarrow> nat" where
  "security_at pe = pe + fst (field_at EFI_IMAGE_NT_HEADERS64 ''DataDirectory'') +
     EFI_IMAGE_DIRECTORY_ENTRY_SECURITY * struct_size EFI_IMAGE_DATA_DIRECTORY"

subsection \<open>Parsing\<close>

text \<open>\<open>_compare\<close>: the difference of two \<open>UINT32\<close> values as an \<open>int\<close>.\<close>

definition section_compare :: "bytes \<Rightarrow> bytes \<Rightarrow> int" where
  "section_compare x y =
     s32 (int (get_field EFI_IMAGE_SECTION_HEADER ''PointerToRawData'' x) -
          int (get_field EFI_IMAGE_SECTION_HEADER ''PointerToRawData'' y))"

definition AppendRegion :: "heap \<Rightarrow> pe_image \<Rightarrow> nat \<Rightarrow> nat \<Rightarrow> int \<times> pe_image \<times> heap" where
  "AppendRegion h img data sz =
     (case h 0 of
        None \<Rightarrow> (-1, img, heap_next h)
      | Some _ \<Rightarrow> (0, img\<lparr>img_regions := img_regions img @ [(data, sz)]\<rparr>, heap_next h))"

definition ParseSignature :: "pe_image \<Rightarrow> bytes \<Rightarrow> nat \<Rightarrow> nat \<Rightarrow> (int \<times> pe_image) option" where
  "ParseSignature img d signatureAddress signatureSize =
     (if signatureSize = 0 then Some (0, img\<lparr>img_signatureData := None, img_signatureSize := 0\<rparr>)
      else do {
        type \<leftarrow> load (signatureAddress + 6) 2 d;
        if le_nat type \<noteq> 2 then Some (-1, img)
        else do {
          sz \<leftarrow> load signatureAddress 4 d;
          Some (0, img\<lparr>img_signatureData := Some (signatureAddress + 8),
                         img_signatureSize := usub64 (le_nat sz) 8\<rparr>)
        }
      })"

text \<open>
  The first part of \<open>ParseImage\<close>: the regions of the headers and the signature. The result also has the sz in the
  security directory entry.
\<close>

definition header_regions :: "heap \<Rightarrow> pe_image \<Rightarrow> bytes \<Rightarrow> nat \<Rightarrow> (int \<times> pe_image \<times> heap) option" where
  "header_regions h img d pe =
     (let (rc, image1, h1) = AppendRegion h img 0 (checksum_at pe);
          sec_dir = security_at pe
      in if rc \<noteq> 0 then Some (-1, image1, h1)
         else do {
           va \<leftarrow> peek d sec_dir EFI_IMAGE_DATA_DIRECTORY ''VirtualAddress'';
           sz \<leftarrow> peek d sec_dir EFI_IMAGE_DATA_DIRECTORY ''Size'';
           (rc, image2) \<leftarrow> ParseSignature image1 d va sz;
           if rc \<noteq> 0 then Some (-1, image2, h1)
           else
             (let p = checksum_at pe + 4;
                  (rc, image3, h3) = AppendRegion h1 image2 p (sec_dir - p)
              in if rc \<noteq> 0 then Some (-1, image3, h3)
                 else do {
                   SizeOfHeaders \<leftarrow> peek d pe EFI_IMAGE_NT_HEADERS64 ''SizeOfHeaders'';
                   let p = sec_dir + struct_size EFI_IMAGE_DATA_DIRECTORY;
                   Some (AppendRegion h3 image3 p (usub64 SizeOfHeaders p))
                 })
         })"

text \<open>One pass of the inner loop of the sort: every pair of neighbours, from the front.\<close>

fun sort_pass :: "bytes list \<Rightarrow> bytes list" where
  "sort_pass (x # y # r) = (if section_compare x y > 0 then y # sort_pass (x # r) else x # sort_pass (y # r))"
| "sort_pass xs = xs"

text \<open>The copy of the section headers into auxiliary storage, and the sort.\<close>

definition section_headers :: "bytes \<Rightarrow> nat \<Rightarrow> bytes list option" where
  "section_headers d pe =
     do {
       n \<leftarrow> peek d pe EFI_IMAGE_NT_HEADERS64 ''NumberOfSections'';
       opt \<leftarrow> peek d pe EFI_IMAGE_NT_HEADERS64 ''SizeOfOptionalHeader'';
       mem \<leftarrow> load (pe + 4 + struct_size EFI_IMAGE_FILE_HEADER + opt) (n * struct_size EFI_IMAGE_SECTION_HEADER) d;
       Some (map (\<lambda>i. slice (i * struct_size EFI_IMAGE_SECTION_HEADER) (struct_size EFI_IMAGE_SECTION_HEADER) mem) [0..<n])
     }"

definition sort_sections :: "bytes list \<Rightarrow> bytes list" where
  "sort_sections sections = (sort_pass ^^ (length sections - 1)) sections"

fun add_sections :: "heap \<Rightarrow> pe_image \<Rightarrow> bytes list \<Rightarrow> int \<times> pe_image \<times> heap" where
  "add_sections h img [] = (0, img, h)"
| "add_sections h img (section # sections) =
     (let sz = get_field EFI_IMAGE_SECTION_HEADER ''SizeOfRawData'' section
      in if sz \<noteq> 0 then
           (let (rc, image1, h1) =
                  AppendRegion h img (get_field EFI_IMAGE_SECTION_HEADER ''PointerToRawData'' section) sz
            in if rc \<noteq> 0 then (-1, image1, h1) else add_sections h1 image1 sections)
         else add_sections h img sections)"

text \<open>The region of whatever follows the final section; without a section, \<open>sections[-1]\<close> is read.\<close>

definition trailing_region :: "heap \<Rightarrow> pe_image \<Rightarrow> bytes \<Rightarrow> nat \<Rightarrow> nat \<Rightarrow> bytes list \<Rightarrow> (int \<times> pe_image \<times> heap) option" where
  "trailing_region h img d imageSize pe sections =
     (if sections = [] then None
      else
        (let section = List.last sections;
             offset = u32 (get_field EFI_IMAGE_SECTION_HEADER ''PointerToRawData'' section +
                           get_field EFI_IMAGE_SECTION_HEADER ''SizeOfRawData'' section)
         in if offset < imageSize then
              do {
                sz \<leftarrow> peek d (security_at pe) EFI_IMAGE_DATA_DIRECTORY ''Size'';
                Some (AppendRegion h img offset (usub64 (usub64 imageSize sz) offset))
              }
            else Some (0, img, h)))"

definition section_regions :: "heap \<Rightarrow> pe_image \<Rightarrow> bytes \<Rightarrow> nat \<Rightarrow> nat \<Rightarrow> (int \<times> pe_image \<times> heap) option" where
  "section_regions h img d imageSize pe =
     (case h 0 of
        None \<Rightarrow> Some (-1, img, heap_next h)
      | Some _ \<Rightarrow> do {
          sections \<leftarrow> section_headers d pe;
          let sections = sort_sections sections;
          let (rc, image1, h1) = add_sections (heap_next h) img sections;
          if rc \<noteq> 0 then Some (-1, image1, h1) else trailing_region h1 image1 d imageSize pe sections
        })"

definition ParseImage :: "heap \<Rightarrow> pe_image \<Rightarrow> bytes option \<Rightarrow> nat \<Rightarrow> (int \<times> pe_image \<times> heap) option" where
  "ParseImage h img imageData imageSize =
     (case imageData of
        None \<Rightarrow> Some (-1, img, h)
      | Some d \<Rightarrow>
          if imageSize < struct_size EFI_IMAGE_DOS_HEADER then Some (-1, img, h)
          else
            (let image1 = null_image\<lparr>img_imageData := Some d, img_imageSize := imageSize\<rparr>
             in do {
               e_magic \<leftarrow> peek d 0 EFI_IMAGE_DOS_HEADER ''e_magic'';
               if e_magic \<noteq> EFI_IMAGE_DOS_SIGNATURE then Some (-1, image1, h)
               else do {
                 pe \<leftarrow> peek d 0 EFI_IMAGE_DOS_HEADER ''e_lfanew'';
                 (rc, image2, h2) \<leftarrow> header_regions h image1 d pe;
                 if rc \<noteq> 0 then Some (-1, image2, h2) else section_regions h2 image2 d imageSize pe
               }
             }))"

subsection \<open>Hashing\<close>

text \<open>
  The loop of \<open>HashImage\<close> over the regions: \<open>Inl ()\<close> is a failed update. A region outside the
  image is read all the same, which is the outer \<open>None\<close>.
\<close>

fun hash_regions :: "'c sha_lib \<Rightarrow> bytes \<Rightarrow> 'c sha_context \<Rightarrow> 'c sha_context \<Rightarrow> (nat \<times> nat) list \<Rightarrow>
    (unit + 'c sha_context \<times> 'c sha_context) option" where
  "hash_regions L d sha1 sha256 [] = Some (Inr (sha1, sha256))"
| "hash_regions L d sha1 sha256 ((p, n) # regions) =
     do {
       data \<leftarrow> load p n d;
       case SHAUpdate L sha1 data of
         None \<Rightarrow> Some (Inl ())
       | Some sha1' \<Rightarrow>
           (case SHAUpdate L sha256 data of
              None \<Rightarrow> Some (Inl ())
            | Some sha256' \<Rightarrow> hash_regions L d sha1' sha256' regions)
     }"

text \<open>The return code and the two digests, if written.\<close>

definition HashImage :: "'c sha_lib \<Rightarrow> pe_image \<Rightarrow> (int \<times> bytes option \<times> bytes option) option" where
  "HashImage L img =
     (case SHAInit L SHA1_ALG of
        None \<Rightarrow> Some (-1, None, None)
      | Some sha1Ctx \<Rightarrow>
          (case SHAInit L SHA256_ALG of
             None \<Rightarrow> Some (-1, None, None)
           | Some sha256Ctx \<Rightarrow>
               do {
                 r \<leftarrow> hash_regions L (case img_imageData img of None \<Rightarrow> [] | Some d \<Rightarrow> d) sha1Ctx sha256Ctx
                        (img_regions img);
                 case r of
                   Inl _ \<Rightarrow> Some (-1, None, None)
                 | Inr (sha1Ctx', sha256Ctx') \<Rightarrow>
                     (case SHAFinal L sha1Ctx' of
                        None \<Rightarrow> Some (-1, None, None)
                      | Some sha1 \<Rightarrow>
                          (case SHAFinal L sha256Ctx' of
                             None \<Rightarrow> Some (-1, Some sha1, None)
                           | Some sha256 \<Rightarrow> Some (0, Some sha1, Some sha256)))
               }))"

definition ParseAndHashImage :: "'c sha_lib \<Rightarrow> heap \<Rightarrow> bytes option \<Rightarrow> nat \<Rightarrow>
    (int \<times> bytes option \<times> bytes option \<times> heap) option" where
  "ParseAndHashImage L h imageData imageSize =
     do {
       (rc, img, h1) \<leftarrow> ParseImage h null_image imageData imageSize;
       if rc \<noteq> 0 then Some (-1, None, None, h1)
       else do {
         (rc, sha1, sha256) \<leftarrow> HashImage L img;
         Some (if rc \<noteq> 0 then -1 else 0, sha1, sha256, h1)
       }
     }"

subsection \<open>Kinds of images\<close>

definition IsEFIImage :: "bytes option \<Rightarrow> nat \<Rightarrow> bool option" where
  "IsEFIImage imageData imageSize =
     (case imageData of
        None \<Rightarrow> Some False
      | Some d \<Rightarrow>
          if imageSize < struct_size EFI_IMAGE_DOS_HEADER then Some False
          else map_option (\<lambda>e_magic. e_magic = EFI_IMAGE_DOS_SIGNATURE) (peek d 0 EFI_IMAGE_DOS_HEADER ''e_magic''))"

definition SETUP_OFFSET :: nat where
  "SETUP_OFFSET = 0x01F1"

text \<open>The first members of \<open>struct setup_header\<close> (\<open>lsvmutils/linux.h\<close>), which is packed.\<close>

definition setup_header :: layout where
  "setup_header =
    [(''setup_sects'', 1, 1), (''root_flags'', 2, 1), (''syssize'', 4, 1), (''ram_size'', 2, 1), (''vid_mode'', 2, 1),
     (''root_dev'', 2, 1), (''boot_flag'', 2, 1), (''jump'', 2, 1), (''header'', 4, 1)]"

text \<open>The size test has \<open>sizeof(sh)\<close>, the size of a pointer, where the header ends 21 bytes after its start.\<close>

definition IsKernelImage :: "bytes option \<Rightarrow> nat \<Rightarrow> bool option" where
  "IsKernelImage imageData imageSize =
     (case imageData of
        None \<Rightarrow> Some False
      | Some d \<Rightarrow>
          if imageSize < SETUP_OFFSET + 8 then Some False
          else do {
            efi \<leftarrow> IsEFIImage imageData imageSize;
            if \<not> efi then Some False
            else do {
              boot_flag \<leftarrow> peek d SETUP_OFFSET setup_header ''boot_flag'';
              if boot_flag \<noteq> 0xAA55 then Some False
              else do {
                header \<leftarrow> peek d SETUP_OFFSET setup_header ''header'';
                Some (header = 0x53726448)
              }
            }
          })"

end
