(* ===== verification/PeDigest.thy ===== *)
theory PeDigest
  imports PeImage BubbleSort
begin

text \<open>
  The digest of a well-formed PE image. The reference is the definition of the format for signed
  images: all bytes but the checksum, the entry of the security directory and the signature at the end. The code
  instead collects the headers in three pieces, the sections sorted by their position, and the rest.
\<close>

subsection \<open>The sort\<close>

abbreviation raw_at :: "bytes \<Rightarrow> nat" where
  "raw_at \<equiv> get_field EFI_IMAGE_SECTION_HEADER ''PointerToRawData''"

abbreviation raw_size :: "bytes \<Rightarrow> nat" where
  "raw_size \<equiv> get_field EFI_IMAGE_SECTION_HEADER ''SizeOfRawData''"

definition raw_range :: "bytes \<Rightarrow> nat \<times> nat" where
  "raw_range s = (raw_at s, raw_size s)"

lemma section_compare_pos:
  assumes "raw_at x < 2 ^ 31" "raw_at y < 2 ^ 31"
  shows "section_compare x y > 0 \<longleftrightarrow> raw_at y < raw_at x"
proof -
  have "int (raw_at x) < 2 ^ 31" "int (raw_at y) < 2 ^ 31"
    using assms by (metis of_nat_less_iff of_nat_numeral of_nat_power)+
  then have "s32 (int (raw_at x) - int (raw_at y)) = int (raw_at x) - int (raw_at y)"
    by (intro s32_small) linarith+
  then show ?thesis by (simp add: section_compare_def)
qed

definition small_raws :: "bytes list \<Rightarrow> bool" where
  "small_raws xs \<longleftrightarrow> list_all (\<lambda>x. raw_at x < 2 ^ 31) xs"

lemma sort_pass_max:
  assumes "small_raws (x # xs)"
  shows "\<exists>ys m. sort_pass (x # xs) = ys @ [m] \<and> mset (ys @ [m]) = mset (x # xs) \<and> (\<forall>y \<in> set ys. raw_at y \<le> raw_at m)"
  using assms
proof (induction xs arbitrary: x)
  case (Cons y xs)
  define hi where "hi = (if raw_at y < raw_at x then x else y)"
  define lo where "lo = (if raw_at y < raw_at x then y else x)"
  have "section_compare x y > 0 \<longleftrightarrow> raw_at y < raw_at x"
    using Cons.prems by (intro section_compare_pos) (simp_all add: small_raws_def)
  then have pass: "sort_pass (x # y # xs) = lo # sort_pass (hi # xs)" by (simp add: hi_def lo_def)
  have "small_raws (hi # xs)" using Cons.prems by (simp add: small_raws_def hi_def)
  from Cons.IH [OF this] obtain ys m where r: "sort_pass (hi # xs) = ys @ [m]" "mset (ys @ [m]) = mset (hi # xs)"
      "\<forall>y \<in> set ys. raw_at y \<le> raw_at m" by blast
  have "hi \<in> set (ys @ [m])" using r(2) by (metis list.set_intros(1) mset_eq_setD)
  then have "raw_at hi \<le> raw_at m" using r(3) by auto
  moreover have "raw_at lo \<le> raw_at hi" by (auto simp: hi_def lo_def)
  ultimately have "\<forall>y \<in> set (lo # ys). raw_at y \<le> raw_at m" using r(3) by auto
  moreover have "mset ((lo # ys) @ [m]) = mset (x # y # xs)" using r(2) by (simp add: hi_def lo_def)
  ultimately show ?case using pass r(1) by (metis append_Cons)
qed simp

lemma sort_pass_tail:
  assumes "small_raws (x # xs @ bs)" "sorted (map raw_at bs)" "\<forall>a \<in> set (x # xs). \<forall>b \<in> set bs. raw_at a \<le> raw_at b"
  shows "sort_pass (x # xs @ bs) = sort_pass (x # xs) @ bs"
  using assms
proof (induction xs arbitrary: x)
  case Nil
  have "sort_pass (x # bs) = x # bs" if "small_raws (x # bs)" "sorted (map raw_at (x # bs))" for x
    using that
  proof (induction bs arbitrary: x)
    case (Cons b bs)
    have "section_compare x b > 0 \<longleftrightarrow> raw_at b < raw_at x"
      using Cons.prems(1) by (intro section_compare_pos) (simp_all add: small_raws_def)
    moreover have "\<not> raw_at b < raw_at x" using Cons.prems(2) by auto
    moreover have "sort_pass (b # bs) = b # bs"
      using Cons.prems by (intro Cons.IH) (simp_all add: small_raws_def)
    ultimately show ?case by simp
  qed simp
  with Nil show ?case by simp
next
  case (Cons y xs)
  have "sort_pass (z # xs @ bs) = sort_pass (z # xs) @ bs" if "z = x \<or> z = y" for z
    using that Cons.prems by (intro Cons.IH) (auto simp: small_raws_def)
  then show ?case by simp
qed

lemma sort_passes:
  assumes "small_raws (as @ bs)" "length as = Suc n" "sorted (map raw_at bs)"
    and "\<forall>a \<in> set as. \<forall>b \<in> set bs. raw_at a \<le> raw_at b"
  shows "sorted (map raw_at ((sort_pass ^^ n) (as @ bs))) \<and> mset ((sort_pass ^^ n) (as @ bs)) = mset (as @ bs)"
  using assms
proof (induction n arbitrary: as bs)
  case 0
  then obtain a where "as = [a]" by (cases as) auto
  with 0 show ?case by auto
next
  case (Suc n)
  then obtain x xs where as: "as = x # xs" by (cases as) auto
  have small: "small_raws (x # xs)" using Suc.prems(1) by (simp add: as small_raws_def)
  from sort_pass_max [OF small] obtain ys m where p: "sort_pass as = ys @ [m]" "mset (ys @ [m]) = mset as"
      "\<forall>y \<in> set ys. raw_at y \<le> raw_at m" by (auto simp: as)
  have pass: "sort_pass (as @ bs) = ys @ m # bs"
    using sort_pass_tail [of x xs bs] Suc.prems p(1) by (simp add: as)
  have s: "set (ys @ [m]) = set as" using p(2) by (rule mset_eq_setD)
  have len: "length ys = Suc n" using p(2) Suc.prems(2) by (metis Suc_inject length_append_singleton size_mset)
  have "small_raws (ys @ m # bs)"
    using Suc.prems(1) s by (simp only: small_raws_def list_all_iff set_append set_simps Un_insert_right) auto
  moreover have "sorted (map raw_at (m # bs))" using Suc.prems(3,4) s by auto
  moreover have "\<forall>a \<in> set ys. \<forall>b \<in> set (m # bs). raw_at a \<le> raw_at b" using p(3) Suc.prems(4) s by auto
  ultimately have IH: "sorted (map raw_at ((sort_pass ^^ n) (ys @ m # bs))) \<and>
      mset ((sort_pass ^^ n) (ys @ m # bs)) = mset (ys @ m # bs)" using Suc.IH len by blast
  have eq: "(sort_pass ^^ Suc n) (as @ bs) = (sort_pass ^^ n) (ys @ m # bs)"
    by (simp only: funpow_Suc_right o_apply pass)
  have "mset (ys @ m # bs) = mset (as @ bs)" using p(2) by (simp add: union_assoc)
  with IH show ?case unfolding eq by simp
qed

lemma sort_sections_sorted:
  assumes "small_raws xs"
  shows "sorted (map raw_at (sort_sections xs))" and "mset (sort_sections xs) = mset xs"
proof -
  have "sorted (map raw_at (sort_sections xs)) \<and> mset (sort_sections xs) = mset xs"
  proof (cases "xs = []")
    case False
    then have len: "length xs = Suc (length xs - 1)" by simp
    have "small_raws (xs @ [])" "sorted (map raw_at [])" "\<forall>a \<in> set xs. \<forall>b \<in> set []. raw_at a \<le> raw_at b"
      using assms by simp_all
    from sort_passes [OF this(1) len this(2,3)] show ?thesis unfolding sort_sections_def append_Nil2 .
  qed (simp add: sort_sections_def)
  then show "sorted (map raw_at (sort_sections xs))" "mset (sort_sections xs) = mset xs" by blast+
qed

subsection \<open>Contiguous sections\<close>

text \<open>The sections \<open>ss\<close> follow each other from \<open>p\<close> to \<open>e\<close>, none is empty.\<close>

fun contiguous :: "nat \<Rightarrow> (nat \<times> nat) list \<Rightarrow> nat \<Rightarrow> bool" where
  "contiguous p [] e \<longleftrightarrow> p = e"
| "contiguous p ((q, n) # ss) e \<longleftrightarrow> q = p \<and> n > 0 \<and> contiguous (p + n) ss e"

lemma contiguous_le: "contiguous p ss e \<Longrightarrow> p \<le> e"
  by (induction p ss e rule: contiguous.induct) auto

lemma contiguous_from: "contiguous p ss e \<Longrightarrow> s \<in> set ss \<Longrightarrow> p \<le> fst s \<and> 0 < snd s"
proof (induction p ss e rule: contiguous.induct)
  case (2 p q n ss e)
  then have "p \<le> fst s \<and> 0 < snd s \<or> p + n \<le> fst s \<and> 0 < snd s" by auto
  then show ?case by linarith
qed simp

lemma contiguous_end: "contiguous p ss e \<Longrightarrow> s \<in> set ss \<Longrightarrow> fst s + snd s \<le> e"
  by (induction p ss e rule: contiguous.induct) (auto dest: contiguous_le)

lemma contiguous_sorted: "contiguous p ss e \<Longrightarrow> sorted_wrt (<) (map fst ss)"
proof (induction p ss e rule: contiguous.induct)
  case (2 p q n ss e)
  then have c: "q = p" "0 < n" "contiguous (p + n) ss e" by auto
  have "\<forall>s \<in> set ss. q < fst s" using contiguous_from [OF c(3)] c(1,2) by fastforce
  with 2 c show ?case by auto
qed simp

lemma contiguous_last: "contiguous p ss e \<Longrightarrow> ss \<noteq> [] \<Longrightarrow> fst (last ss) + snd (last ss) = e"
proof (induction p ss e rule: contiguous.induct)
  case (2 p q n ss e)
  then show ?case by (cases ss) auto
qed simp

lemma contiguous_concat:
  "contiguous p ss e \<Longrightarrow> concat (map (\<lambda>(q, n). slice q n d) ss) = slice p (e - p) d"
proof (induction p ss e rule: contiguous.induct)
  case (2 p q n ss e)
  then have c: "q = p" "contiguous (p + n) ss e" by auto
  have "n + (e - (p + n)) = e - p" using contiguous_le [OF c(2)] by simp
  then have "slice p (e - p) d = slice p n d @ slice (p + n) (e - (p + n)) d" by (metis slice_split)
  then show ?case using 2 c by simp
qed simp

text \<open>A table of sections that lists \<open>ss\<close> in any order, with empty sections at position 0 in between.\<close>

definition lists_sections :: "(nat \<times> nat) list \<Rightarrow> (nat \<times> nat) list \<Rightarrow> bool" where
  "lists_sections table ss \<longleftrightarrow> mset (filter (\<lambda>(p, n). n \<noteq> 0) table) = mset ss \<and>
     list_all (\<lambda>(p, n). n = 0 \<longrightarrow> p = 0) table"

lemma sorted_table:
  assumes "lists_sections (map raw_range xs) ss" "contiguous p ss e" "0 < p" "ss \<noteq> []" "small_raws xs"
  shows "filter (\<lambda>(p, n). n \<noteq> 0) (map raw_range (sort_sections xs)) = ss"
    and "raw_range (last (sort_sections xs)) = last ss" and "sort_sections xs \<noteq> []"
proof -
  let ?ys = "map raw_range (sort_sections xs)" and ?P = "\<lambda>(p :: nat, n :: nat). n \<noteq> 0"
  have fst: "map fst ?ys = map raw_at (sort_sections xs)" by (simp add: raw_range_def)
  have "mset (filter ?P ?ys) = filter_mset ?P (image_mset raw_range (mset (sort_sections xs)))"
    by (simp only: mset_filter mset_map)
  also have "\<dots> = mset (filter ?P (map raw_range xs))"
    by (simp only: sort_sections_sorted(2) [OF assms(5)] mset_filter mset_map)
  finally have mset: "mset (filter ?P ?ys) = mset ss" using assms(1) by (simp only: lists_sections_def)
  have sorted: "sorted (map fst (filter ?P ?ys))"
    by (rule sorted_filter) (simp only: fst sort_sections_sorted(1) [OF assms(5)])
  have ss: "sorted (map fst ss)" "distinct (map fst ss)"
    using contiguous_sorted [OF assms(2)] by (simp_all add: strict_sorted_iff)
  have set: "set (filter ?P ?ys) = set ss" using mset by (rule mset_eq_setD)
  have dist: "distinct (map fst (filter ?P ?ys))"
    using mset ss(2) by (metis mset_eq_imp_distinct_iff mset_map)
  have inj: "inj_on fst (set ss)" using ss(2) by (simp only: distinct_map)
  show filt: "filter ?P ?ys = ss"
    by (rule map_sorted_distinct_set_unique [of fst])
      (simp_all only: sorted dist ss set inj Un_absorb)
  have ne: "?ys \<noteq> []" using filt assms(4) by auto
  then show "sort_sections xs \<noteq> []" by simp
  obtain zs z where z: "?ys = zs @ [z]" using ne by (metis rev_exhaust)
  have zt: "z \<in> set (map raw_range xs)"
    using z mset_eq_setD [OF sort_sections_sorted(2) [OF assms(5)]] by (metis in_set_conv_decomp set_map)
  have "\<exists>s \<in> set ?ys. 0 < fst s"
  proof -
    have "hd ss \<in> set ss" using assms(4) by simp
    then have "hd ss \<in> set ?ys" using filt by (metis filter_is_subset subsetD)
    moreover have "p \<le> fst (hd ss)" using contiguous_from [OF assms(2)] assms(4) by simp
    ultimately show ?thesis using assms(3) by (metis less_le_trans)
  qed
  moreover have "\<forall>s \<in> set ?ys. fst s \<le> fst z"
    using sort_sections_sorted(1) [OF assms(5)] unfolding fst [symmetric] z by (auto simp: sorted_append)
  ultimately have "0 < fst z" by auto
  then have "?P z" using zt assms(1) by (auto simp: lists_sections_def list_all_iff split: prod.splits)
  then have "last ss = z" using filt z by (metis filter.simps filter_append last_snoc)
  then show "raw_range (last (sort_sections xs)) = last ss" using z ne by (metis last_map last_snoc Nil_is_map_conv)
qed

subsection \<open>The reference digest\<close>

lemma security_at [layout_simps]: "checksum_at pe = pe + 88" "security_at pe = pe + 168"
  by (simp_all add: checksum_at_def security_at_def EFI_IMAGE_NT_HEADERS64_def EFI_IMAGE_FILE_HEADER_def
      EFI_IMAGE_OPTIONAL_HEADER64_def EFI_IMAGE_DIRECTORY_ENTRY_SECURITY_def EFI_IMAGE_DATA_DIRECTORY_def struct_size_def)

lemma pe_struct_sizes [layout_simps]:
  "struct_size EFI_IMAGE_DOS_HEADER = 64" "struct_size EFI_IMAGE_DATA_DIRECTORY = 8"
  "struct_size EFI_IMAGE_SECTION_HEADER = 40" "struct_size EFI_IMAGE_FILE_HEADER = 20"
  by (simp_all add: struct_size_def EFI_IMAGE_DOS_HEADER_def EFI_IMAGE_DATA_DIRECTORY_def EFI_IMAGE_SECTION_HEADER_def
      EFI_IMAGE_FILE_HEADER_def)

text \<open>
  All bytes of the image but the four of the checksum, the eight of the security directory
  entry and the last \<open>sig\<close>, which hold the signature.
\<close>

definition signed_content :: "bytes \<Rightarrow> nat \<Rightarrow> nat \<Rightarrow> bytes" where
  "signed_content d pe sig =
     take (pe + 88) d @ slice (pe + 92) 76 d @ slice (pe + 176) (length d - sig - (pe + 176)) d"

text \<open>The signature is absent or ends the image and is of the type PKCS.\<close>

definition signature_ok :: "bytes \<Rightarrow> nat \<Rightarrow> nat \<Rightarrow> bool" where
  "signature_ok d pe sig \<longleftrightarrow>
     peek d (security_at pe) EFI_IMAGE_DATA_DIRECTORY ''Size'' = Some sig \<and>
     (case peek d (security_at pe) EFI_IMAGE_DATA_DIRECTORY ''VirtualAddress'' of
        None \<Rightarrow> False
      | Some va \<Rightarrow> sig = 0 \<or> 8 \<le> sig \<and> va + sig = length d \<and> load (va + 6) 2 d = Some [2, 0])"

text \<open>An image of less than 2 GB at \<open>d\<close> with the PE header at \<open>pe\<close> and the non-empty sections \<open>ss\<close>, contiguous after the headers.\<close>

definition pe_image_ok :: "bytes \<Rightarrow> nat \<Rightarrow> (nat \<times> nat) list \<Rightarrow> nat \<Rightarrow> bool" where
  "pe_image_ok d pe ss sig \<longleftrightarrow>
     64 \<le> length d \<and> length d < 2 ^ 31 \<and> ss \<noteq> [] \<and>
     peek d 0 EFI_IMAGE_DOS_HEADER ''e_magic'' = Some EFI_IMAGE_DOS_SIGNATURE \<and>
     peek d 0 EFI_IMAGE_DOS_HEADER ''e_lfanew'' = Some pe \<and>
     (case (section_headers d pe, peek d pe EFI_IMAGE_NT_HEADERS64 ''SizeOfHeaders'') of
        (Some secs, Some hdrs) \<Rightarrow>
          pe + 176 \<le> hdrs \<and> lists_sections (map raw_range secs) ss \<and>
          contiguous hdrs ss (fst (last ss) + snd (last ss))
      | _ \<Rightarrow> False) \<and>
     signature_ok d pe sig \<and> fst (last ss) + snd (last ss) + sig \<le> length d"

subsection \<open>The regions\<close>

lemma AppendRegion_ok:
  "heap_ok h \<Longrightarrow> AppendRegion h img p n = (0, img\<lparr>img_regions := img_regions img @ [(p, n)]\<rparr>, heap_next h)"
  using heap_ok_0 [of h] by (auto simp: AppendRegion_def)

lemma add_sections_ok:
  "heap_ok h \<Longrightarrow> \<exists>h'. heap_ok h' \<and> add_sections h img xs =
     (0, img\<lparr>img_regions := img_regions img @ filter (\<lambda>(p, n). n \<noteq> 0) (map raw_range xs)\<rparr>, h')"
proof (induction xs arbitrary: h img)
  case (Cons x xs)
  show ?case
  proof (cases "raw_size x = 0")
    case True
    with Cons.IH [OF Cons.prems, of img] show ?thesis by (simp add: raw_range_def)
  next
    case False
    have "heap_ok (heap_next h)" using Cons.prems by simp
    from Cons.IH [OF this, of "img\<lparr>img_regions := img_regions img @ [raw_range x]\<rparr>"] False Cons.prems
    show ?thesis by (simp add: AppendRegion_ok raw_range_def)
  qed
qed simp

text \<open>Where the signature of an image is and how long it says it is, after its header.\<close>

definition signature_range :: "bytes \<Rightarrow> nat \<Rightarrow> nat option \<times> nat" where
  "signature_range d sig =
     (if sig = 0 then (None, 0) else (Some (length d - sig + 8), usub64 (le_nat (slice (length d - sig) 4 d)) 8))"

abbreviation with_signature :: "pe_image \<Rightarrow> nat option \<times> nat \<Rightarrow> pe_image" where
  "with_signature img r \<equiv> img\<lparr>img_signatureData := fst r, img_signatureSize := snd r\<rparr>"

lemma ParseSignature_ok:
  assumes "signature_ok d pe sig" "peek d (security_at pe) EFI_IMAGE_DATA_DIRECTORY ''VirtualAddress'' = Some va"
  shows "ParseSignature img d va sig = Some (0, with_signature img (signature_range d sig))"
proof (cases "sig = 0")
  case True
  then show ?thesis by (simp add: ParseSignature_def signature_range_def)
next
  case False
  with assms have v: "8 \<le> sig" "va + sig = length d" "load (va + 6) 2 d = Some [2, 0]" by (simp_all add: signature_ok_def)
  then have "load va 4 d = Some (slice va 4 d)" "length d - sig = va" by (simp_all add: load_def)
  with False v(3) show ?thesis by (simp add: ParseSignature_def signature_range_def)
qed

text \<open>Streaming the regions into both digests.\<close>

lemma hash_regions_ok:
  assumes L: "sha_lib_ok L H hashed"
  shows "ctx_hashed hashed SHA1_ALG c1 m \<Longrightarrow> ctx_hashed hashed SHA256_ALG c2 m \<Longrightarrow>
    list_all (\<lambda>(p, n). p + n \<le> length d) regions \<Longrightarrow>
    \<exists>c1' c2'. hash_regions L d c1 c2 regions = Some (Inr (c1', c2')) \<and>
      ctx_hashed hashed SHA1_ALG c1' (m @ concat (map (\<lambda>(p, n). slice p n d) regions)) \<and>
      ctx_hashed hashed SHA256_ALG c2' (m @ concat (map (\<lambda>(p, n). slice p n d) regions))"
proof (induction regions arbitrary: c1 c2 m)
  case (Cons r regions)
  obtain p n where r: "r = (p, n)" by (cases r)
  from sha_stream(2) [OF L Cons.prems(1), of "slice p n d"] obtain c1'
    where c1: "SHAUpdate L c1 (slice p n d) = Some c1'" "ctx_hashed hashed SHA1_ALG c1' (m @ slice p n d)" by blast
  from sha_stream(2) [OF L Cons.prems(2), of "slice p n d"] obtain c2'
    where c2: "SHAUpdate L c2 (slice p n d) = Some c2'" "ctx_hashed hashed SHA256_ALG c2' (m @ slice p n d)" by blast
  have "load p n d = Some (slice p n d)" using Cons.prems(3) by (simp add: r load_def)
  then have "hash_regions L d c1 c2 (r # regions) = hash_regions L d c1' c2' regions" by (simp add: r c1(1) c2(1))
  with Cons.IH [OF c1(2) c2(2)] Cons.prems(3) show ?case by (simp add: r)
qed simp

lemma HashImage_ok:
  assumes L: "sha_lib_ok L H hashed" and "img_imageData img = Some d"
    and "list_all (\<lambda>(p, n). p + n \<le> length d) (img_regions img)"
    and "concat (map (\<lambda>(p, n). slice p n d) (img_regions img)) = m"
  shows "HashImage L img = Some (0, Some (H SHA1_ALG m), Some (H SHA256_ALG m))"
proof -
  from sha_stream(1) [OF L, of SHA1_ALG] obtain c1 where c1: "SHAInit L SHA1_ALG = Some c1" "ctx_hashed hashed SHA1_ALG c1 []" by blast
  from sha_stream(1) [OF L, of SHA256_ALG] obtain c2 where c2: "SHAInit L SHA256_ALG = Some c2" "ctx_hashed hashed SHA256_ALG c2 []" by blast
  from hash_regions_ok [OF L c1(2) c2(2) assms(3)] assms(4) obtain c1' c2'
    where r: "hash_regions L d c1 c2 (img_regions img) = Some (Inr (c1', c2'))"
      "ctx_hashed hashed SHA1_ALG c1' m" "ctx_hashed hashed SHA256_ALG c2' m" by auto
  from c1(1) c2(1) r(1) assms(2) sha_stream(3) [OF L r(2)] sha_stream(3) [OF L r(3)] show ?thesis
    by (simp add: HashImage_def)
qed

subsection \<open>The digest of a well-formed image\<close>

lemma lists_small:
  assumes "lists_sections (map raw_range secs) ss" "contiguous hdrs ss e" "e < 2 ^ 31"
  shows "small_raws secs"
proof -
  have "raw_at x < 2 ^ 31" if "x \<in> set secs" for x
  proof (cases "raw_size x = 0")
    case True
    with that assms(1) have "raw_at x = 0" by (auto simp: lists_sections_def list_all_iff raw_range_def)
    then show ?thesis by simp
  next
    case False
    have "set (filter (\<lambda>(p, n). n \<noteq> 0) (map raw_range secs)) = set ss"
      using assms(1) by (simp only: lists_sections_def) (metis set_mset_mset)
    with False that have "raw_range x \<in> set ss" by (auto simp: raw_range_def)
    from contiguous_end [OF assms(2) this] assms(3) show ?thesis by (simp add: raw_range_def)
  qed
  then show ?thesis by (simp add: small_raws_def list_all_iff)
qed

lemma header_regions_ok:
  assumes "heap_ok h" "signature_ok d pe sig" "peek d pe EFI_IMAGE_NT_HEADERS64 ''SizeOfHeaders'' = Some hdrs"
    and "pe + 176 \<le> hdrs" "hdrs < 2 ^ 31"
  shows "\<exists>h'. heap_ok h' \<and> header_regions h img d pe = Some (0, with_signature
    (img\<lparr>img_regions := img_regions img @ [(0, pe + 88), (pe + 92, 76), (pe + 176, hdrs - (pe + 176))]\<rparr>) (signature_range d sig), h')"
proof -
  from assms(2) obtain va where va: "peek d (security_at pe) EFI_IMAGE_DATA_DIRECTORY ''VirtualAddress'' = Some va"
    by (auto simp: signature_ok_def split: option.splits)
  have size: "peek d (security_at pe) EFI_IMAGE_DATA_DIRECTORY ''Size'' = Some sig"
    using assms(2) by (simp add: signature_ok_def)
  let ?img1 = "img\<lparr>img_regions := img_regions img @ [(0, pe + 88)]\<rparr>"
  have sub: "usub64 hdrs (pe + 176) = hdrs - (pe + 176)"
    by (rule usub64_small [OF assms(4)]) (rule less_trans [OF assms(5)], simp)
  show ?thesis
    using assms(1,3) va size ParseSignature_ok [OF assms(2) va, of ?img1] sub
    by (intro exI [of _ "heap_next (heap_next (heap_next h))"])
      (simp add: header_regions_def AppendRegion_ok layout_simps Let_def add.commute)
qed

lemma slice_join: "a \<le> b \<Longrightarrow> b \<le> c \<Longrightarrow> slice a (b - a) xs @ slice b (c - b) xs = slice a (c - a) xs"
  using slice_split [of a "b - a" "c - b" xs] by simp

text \<open>The regions of a well-formed image and their contents.\<close>

definition image_regions :: "nat \<Rightarrow> nat \<Rightarrow> nat \<Rightarrow> (nat \<times> nat) list \<Rightarrow> nat \<Rightarrow> nat \<Rightarrow> (nat \<times> nat) list" where
  "image_regions sz pe hdrs ss e sig =
     [(0, pe + 88), (pe + 92, 76), (pe + 176, hdrs - (pe + 176))] @ ss @ (if e < sz then [(e, sz - sig - e)] else [])"

lemma image_regions_content:
  assumes "contiguous hdrs ss e" "pe + 176 \<le> hdrs" "e + sig \<le> length d"
  shows "list_all (\<lambda>(p, n). p + n \<le> length d) (image_regions (length d) pe hdrs ss e sig)"
    and "concat (map (\<lambda>(p, n). slice p n d) (image_regions (length d) pe hdrs ss e sig)) = signed_content d pe sig"
proof -
  have le: "hdrs \<le> e" using assms(1) by (rule contiguous_le)
  have "list_all (\<lambda>(p, n). p + n \<le> length d) ss"
    using contiguous_end [OF assms(1)] assms(3) by (fastforce simp: list_all_iff)
  with assms le show "list_all (\<lambda>(p, n). p + n \<le> length d) (image_regions (length d) pe hdrs ss e sig)"
    by (auto simp: image_regions_def)
  have tail: "concat (map (\<lambda>(p, n). slice p n d) (if e < length d then [(e, length d - sig - e)] else [])) =
      slice e (length d - sig - e) d" using assms(3) by simp
  have "slice (pe + 176) (hdrs - (pe + 176)) d @ slice hdrs (e - hdrs) d @ slice e (length d - sig - e) d =
      slice (pe + 176) (length d - sig - (pe + 176)) d"
    using le assms(2,3) by (simp only: slice_join append_assoc [symmetric])
  then show "concat (map (\<lambda>(p, n). slice p n d) (image_regions (length d) pe hdrs ss e sig)) = signed_content d pe sig"
    using tail by (simp add: image_regions_def contiguous_concat [OF assms(1)] signed_content_def) (simp add: slice_def)
qed

definition parsed_image :: "bytes \<Rightarrow> nat \<Rightarrow> nat \<Rightarrow> (nat \<times> nat) list \<Rightarrow> nat \<Rightarrow> pe_image" where
  "parsed_image d pe hdrs ss sig =
     \<lparr>img_imageData = Some d, img_imageSize = length d,
      img_signatureData = fst (signature_range d sig), img_signatureSize = snd (signature_range d sig),
      img_regions = image_regions (length d) pe hdrs ss (fst (last ss) + snd (last ss)) sig\<rparr>"

lemma ParseImage_image:
  assumes ok: "pe_image_ok d pe ss sig" and h: "heap_ok h"
    and hdrs: "peek d pe EFI_IMAGE_NT_HEADERS64 ''SizeOfHeaders'' = Some hdrs"
  shows "\<exists>h'. heap_ok h' \<and> ParseImage h img0 (Some d) (length d) = Some (0, parsed_image d pe hdrs ss sig, h')"
proof -
  from ok obtain secs where secs: "section_headers d pe = Some secs"
    by (auto simp: pe_image_ok_def split: option.splits)
  define e where "e = fst (last ss) + snd (last ss)"
  from ok secs hdrs have *: "pe + 176 \<le> hdrs" "lists_sections (map raw_range secs) ss" "contiguous hdrs ss e"
      "signature_ok d pe sig" "e + sig \<le> length d" "ss \<noteq> []" "64 \<le> length d" "length d < 2 ^ 31"
    by (simp_all add: pe_image_ok_def e_def)
  have small: "e < 2 ^ 31" "hdrs < 2 ^ 31" using *(5,8) contiguous_le [OF *(3)] by linarith+
  define img1 where "img1 = null_image\<lparr>img_imageData := Some d, img_imageSize := length d\<rparr>"
  define img2 where "img2 = with_signature
    (img1\<lparr>img_regions := [(0, pe + 88), (pe + 92, 76), (pe + 176, hdrs - (pe + 176))]\<rparr>) (signature_range d sig)"
  from header_regions_ok [OF h *(4) hdrs *(1) small(2), of img1] obtain h1 where h1: "heap_ok h1"
      and head: "header_regions h img1 d pe = Some (0, img2, h1)"
    by (auto simp: img1_def img2_def null_image_def)
  have "0 < hdrs" using *(1) by simp
  note sorted = sorted_table [OF *(2,3) this *(6) lists_small [OF *(2,3) small(1)]]
  have "heap_ok (heap_next h1)" using h1 by simp
  from add_sections_ok [OF this, of img2 "sort_sections secs"] obtain h2 where h2: "heap_ok h2"
      "add_sections (heap_next h1) img2 (sort_sections secs) =
        (0, img2\<lparr>img_regions := img_regions img2 @ ss\<rparr>, h2)" unfolding sorted(1) by blast
  have last: "raw_at (last (sort_sections secs)) + raw_size (last (sort_sections secs)) = e"
    using sorted(2) by (metis e_def fst_conv raw_range_def snd_conv)
  have "u32 e = e" using small(1) by simp
  moreover have "usub64 (usub64 (length d) sig) e = length d - sig - e"
  proof -
    have "length d < 2 ^ 64" using *(8) by simp
    then show ?thesis using *(5) by (simp add: usub64_small)
  qed
  moreover have "peek d (security_at pe) EFI_IMAGE_DATA_DIRECTORY ''Size'' = Some sig" using *(4) by (simp add: signature_ok_def)
  moreover have parsed: "parsed_image d pe hdrs ss sig = img2\<lparr>img_regions := image_regions (length d) pe hdrs ss e sig\<rparr>"
    by (simp add: parsed_image_def img2_def img1_def null_image_def e_def)
  ultimately have trail: "trailing_region h2 (img2\<lparr>img_regions := img_regions img2 @ ss\<rparr>) d (length d) pe (sort_sections secs) =
      Some (0, parsed_image d pe hdrs ss sig, if e < length d then heap_next h2 else h2)"
    using sorted(3) h2(1) by (simp add: trailing_region_def last AppendRegion_ok image_regions_def img2_def)
  obtain b where "h1 0 = Some b" using heap_ok_0 [OF h1] by blast
  then have "section_regions h1 img2 d (length d) pe =
      Some (0, parsed_image d pe hdrs ss sig, if e < length d then heap_next h2 else h2)"
    using h2(2) trail by (simp add: section_regions_def secs)
  moreover have "peek d 0 EFI_IMAGE_DOS_HEADER ''e_magic'' = Some EFI_IMAGE_DOS_SIGNATURE"
      "peek d 0 EFI_IMAGE_DOS_HEADER ''e_lfanew'' = Some pe" using ok by (simp_all add: pe_image_ok_def)
  ultimately have "ParseImage h img0 (Some d) (length d) =
      Some (0, parsed_image d pe hdrs ss sig, if e < length d then heap_next h2 else h2)"
    using *(7) head by (simp add: ParseImage_def layout_simps img1_def [symmetric])
  moreover have "heap_ok (if e < length d then heap_next h2 else h2)" using h2(1) by simp
  ultimately show ?thesis by blast
qed

lemma pe_image_ok_hdrs:
  assumes "pe_image_ok d pe ss sig"
  obtains hdrs where "peek d pe EFI_IMAGE_NT_HEADERS64 ''SizeOfHeaders'' = Some hdrs"
  using assms by (auto simp: pe_image_ok_def split: option.splits)

lemma HashImage_parsed:
  assumes ok: "pe_image_ok d pe ss sig" and L: "sha_lib_ok L H hashed"
    and hdrs: "peek d pe EFI_IMAGE_NT_HEADERS64 ''SizeOfHeaders'' = Some hdrs"
  shows "HashImage L (parsed_image d pe hdrs ss sig) =
    Some (0, Some (H SHA1_ALG (signed_content d pe sig)), Some (H SHA256_ALG (signed_content d pe sig)))"
proof -
  from ok hdrs have *: "contiguous hdrs ss (fst (last ss) + snd (last ss))" "pe + 176 \<le> hdrs"
      "fst (last ss) + snd (last ss) + sig \<le> length d"
    by (auto simp: pe_image_ok_def split: option.splits)
  show ?thesis
    using image_regions_content [OF *] by (intro HashImage_ok [OF L]) (simp_all add: parsed_image_def)
qed

lemma ParseAndHashImage_ok:
  assumes "pe_image_ok d pe ss sig" "sha_lib_ok L H hashed" "heap_ok h"
  shows "\<exists>h'. heap_ok h' \<and> ParseAndHashImage L h (Some d) (length d) =
    Some (0, Some (H SHA1_ALG (signed_content d pe sig)), Some (H SHA256_ALG (signed_content d pe sig)), h')"
proof -
  from assms(1) obtain hdrs where hdrs: "peek d pe EFI_IMAGE_NT_HEADERS64 ''SizeOfHeaders'' = Some hdrs"
    by (rule pe_image_ok_hdrs)
  from ParseImage_image [OF assms(1,3) hdrs, of null_image] HashImage_parsed [OF assms(1,2) hdrs]
  show ?thesis by (auto simp: ParseAndHashImage_def)
qed

end
