(* ===== verification/PeCert.thy ===== *)
theory PeCert
  imports PeImage
begin

text \<open>
  Checking the signature of an executable image against a certificate (the second part of
  \<open>lsvmutils/peimage.c\<close>). The certificate and signature functions of OpenSSL are a
  parameter, the record \<open>x509_lib\<close>. They are given the bytes that their pointer and length arguments describe;
  a length beyond the object is \<open>None\<close>. A \<open>PKCS7\<close> object is known by the members that the code reads.
\<close>

datatype x509_error =
    X509_V_ERR_INVALID_PURPOSE
  | X509_V_ERR_UNABLE_TO_GET_ISSUER_CERT_LOCALLY
  | X509_V_ERR_UNABLE_TO_GET_ISSUER_CERT
  | X509_V_ERR_CERT_UNTRUSTED
  | X509_V_ERR_CERT_HAS_EXPIRED
  | X509_V_ERR_ERROR_IN_CERT_NOT_BEFORE_FIELD
  | X509_V_ERR_CERT_NOT_YET_VALID
  | X509_V_ERR_ERROR_IN_CERT_NOT_AFTER_FIELD
  | X509_V_OTHER

text \<open>The part of \<open>X509_STORE_CTX\<close> that the callback uses: whether the only extended key usage of the certificate is code
  signing, and whether the current certificate is itself in the store.\<close>

record store_ctx =
  sc_error :: x509_error
  sc_code_sign :: bool
  sc_in_store :: bool

record ('p7, 'x509, 'store) x509_lib =
  EVP_add_digest_sha256 :: bool
  d2i_PKCS7 :: "bytes \<Rightarrow> 'p7 option"
  PKCS7_type_is_signed :: "'p7 \<Rightarrow> bool"
  p7_contents_type :: "'p7 \<Rightarrow> bytes"
  p7_contents_string :: "'p7 \<Rightarrow> bytes"
  d2i_X509 :: "bytes \<Rightarrow> 'x509 option"
  X509_STORE_new :: "'store option"
  X509_STORE_add_cert :: "'store \<Rightarrow> 'x509 \<Rightarrow> 'store option"
  X509_STORE_set_verify_cb_func :: "'store \<Rightarrow> (int \<Rightarrow> store_ctx \<Rightarrow> int) \<Rightarrow> 'store"
  X509_STORE_set_purpose_any :: "'store \<Rightarrow> 'store"
  BIO_new_mem :: bool
  BIO_write :: "bytes \<Rightarrow> int"
  PKCS7_verify :: "'p7 \<Rightarrow> 'store \<Rightarrow> bytes \<Rightarrow> bool"

subsection \<open>The wrapping of a certificate\<close>

definition PKCS7WrapHeader :: layout where
  "PKCS7WrapHeader =
    [(''byte1'', 1, 1), (''byte2'', 1, 1), (''length1'', 2, 1), (''byte3'', 1, 1), (''byte4'', 1, 1), (''oid'', 1, 9),
     (''byte5'', 1, 1), (''byte6'', 1, 1), (''length2'', 2, 1)]"

text \<open>The variable \<open>_header\<close>, with both lengths 0.\<close>

definition wrap_header :: bytes where
  "wrap_header = [0x30, 0x82, 0, 0, 0x06, 0x09, 0x2A, 0x86, 0x48, 0x86, 0xF7, 0x0D, 0x01, 0x07, 0x02, 0xA0, 0x82, 0, 0]"

text \<open>\<open>certData\<close> is a position in the object \<open>d\<close>.\<close>

definition IsPKCS7Wrapped :: "bytes \<Rightarrow> nat \<Rightarrow> nat \<Rightarrow> bool option" where
  "IsPKCS7Wrapped d certData certSize =
     (if certSize < struct_size PKCS7WrapHeader then Some False
      else do {
        header2 \<leftarrow> load certData (struct_size PKCS7WrapHeader) d;
        let header2 = set_field PKCS7WrapHeader ''length1'' 0 header2;
        let header2 = set_field PKCS7WrapHeader ''length2'' 0 header2;
        Some (wrap_header = header2)
      })"

text \<open>The return code, the wrapped certificate and its size. The size fields are 16 bits wide.\<close>

definition WrapPKCS7Cert :: "heap \<Rightarrow> bytes \<Rightarrow> nat \<Rightarrow> nat \<Rightarrow> (int \<times> (bytes \<times> nat) option \<times> heap) option" where
  "WrapPKCS7Cert h d certData certSize =
     (if certSize = 0 then Some (-1, None, h)
      else
        (let n = u64 (certSize + struct_size PKCS7WrapHeader)
         in case Malloc h n of
              (None, h1) \<Rightarrow> Some (-1, None, h1)
            | (Some p, h1) \<Rightarrow>
                do {
                  let header = set_field PKCS7WrapHeader ''length1'' (unat (ByteSwapU16 (of_nat (usub64 n 4)))) wrap_header;
                  let header = set_field PKCS7WrapHeader ''length2'' (unat (ByteSwapU16 (of_nat certSize))) header;
                  p \<leftarrow> store 0 header p;
                  cert \<leftarrow> load certData certSize d;
                  p \<leftarrow> store (struct_size PKCS7WrapHeader) cert p;
                  Some (0, Some (p, n), h1)
                }))"

subsection \<open>Verification\<close>

definition VerifyCallback :: "int \<Rightarrow> store_ctx \<Rightarrow> int" where
  "VerifyCallback status ctx =
     (case sc_error ctx of
        X509_V_ERR_INVALID_PURPOSE \<Rightarrow> if sc_code_sign ctx then 1 else status
      | X509_V_ERR_UNABLE_TO_GET_ISSUER_CERT_LOCALLY \<Rightarrow> if sc_in_store ctx then 1 else status
      | X509_V_ERR_UNABLE_TO_GET_ISSUER_CERT \<Rightarrow> if sc_in_store ctx then 1 else status
      | X509_V_ERR_CERT_UNTRUSTED \<Rightarrow> if sc_in_store ctx then 1 else status
      | X509_V_ERR_CERT_HAS_EXPIRED \<Rightarrow> 1
      | X509_V_ERR_ERROR_IN_CERT_NOT_BEFORE_FIELD \<Rightarrow> 1
      | X509_V_ERR_CERT_NOT_YET_VALID \<Rightarrow> 1
      | X509_V_ERR_ERROR_IN_CERT_NOT_AFTER_FIELD \<Rightarrow> 1
      | X509_V_OTHER \<Rightarrow> status)"

text \<open>\<open>None\<close> is the return value -1.\<close>

definition CreateStoreWithCert :: "('p7, 'x509, 'store) x509_lib \<Rightarrow> 'x509 \<Rightarrow> 'store option" where
  "CreateStoreWithCert S x509 =
     do {
       st \<leftarrow> X509_STORE_new S;
       st \<leftarrow> X509_STORE_add_cert S st x509;
       let st = X509_STORE_set_verify_cb_func S st VerifyCallback;
       Some (X509_STORE_set_purpose_any S st)
     }"

text \<open>The steps of \<open>_VerifyPKCS7Certificate\<close> once the certificate of the image is wrapped.\<close>

definition verify_wrapped :: "('p7, 'x509, 'store) x509_lib \<Rightarrow> bytes \<Rightarrow> nat \<Rightarrow> bytes \<Rightarrow> nat \<Rightarrow> nat \<Rightarrow> bytes \<Rightarrow> int option" where
  "verify_wrapped S trustedCertData trustedCertSize wrapped wrappedAt wrappedSize content =
     do {
       tmp \<leftarrow> load wrappedAt wrappedSize wrapped;
       case d2i_PKCS7 S tmp of
         None \<Rightarrow> Some (-1)
       | Some p7 \<Rightarrow>
           if \<not> PKCS7_type_is_signed S p7 then Some (-1)
           else do {
             tmp \<leftarrow> load 0 trustedCertSize trustedCertData;
             case d2i_X509 S tmp of
               None \<Rightarrow> Some (-1)
             | Some x509 \<Rightarrow>
                 (case CreateStoreWithCert S x509 of
                    None \<Rightarrow> Some (-1)
                  | Some st \<Rightarrow>
                      if \<not> BIO_new_mem S then Some (-1)
                      else if BIO_write S content \<noteq> int (length content) then Some (-1)
                      else if \<not> PKCS7_verify S p7 st content then Some (-1)
                      else Some 0)
           }
     }"

definition VerifyPKCS7Certificate :: "('p7, 'x509, 'store) x509_lib \<Rightarrow> heap \<Rightarrow> bytes \<Rightarrow> nat \<Rightarrow> bytes \<Rightarrow> nat \<Rightarrow> nat \<Rightarrow> bytes \<Rightarrow>
    (int \<times> heap) option" where
  "VerifyPKCS7Certificate S h trustedCertData trustedCertSize d imageCertData imageCertSize content =
     (if trustedCertSize = 0 then Some (-1, h)
      else if \<not> EVP_add_digest_sha256 S then Some (-1, h)
      else do {
        wrapped \<leftarrow> IsPKCS7Wrapped d imageCertData imageCertSize;
        if wrapped then
          map_option (\<lambda>rc. (rc, h)) (verify_wrapped S trustedCertData trustedCertSize d imageCertData imageCertSize content)
        else do {
          (rc, out, h1) \<leftarrow> WrapPKCS7Cert h d imageCertData imageCertSize;
          case out of
            None \<Rightarrow> Some (-1, h1)
          | Some (p, n) \<Rightarrow>
              map_option (\<lambda>rc. (rc, h1)) (verify_wrapped S trustedCertData trustedCertSize p 0 n content)
        }
      })"

definition SPC_OID :: bytes where
  "SPC_OID = [0x2B, 0x06, 0x01, 0x04, 0x01, 0x82, 0x37, 0x02, 0x01, 0x04]"

text \<open>
  The content of the ASN.1 string: \<open>None\<close> outside is an undefined access, \<open>Some None\<close> a failed check, otherwise the SPC
  indirect content after the length encoding. The position of the digest is computed modulo \<open>2^64\<close>.
\<close>

definition check_digest :: "bytes \<Rightarrow> bytes \<Rightarrow> bytes option option" where
  "check_digest asn1 hashData =
     (let hashSize = length hashData; n = length asn1
      in if n < 3 + hashSize then Some None
         else do {
           p1 \<leftarrow> load 1 1 asn1;
           let skip = (if hd p1 AND 0x80 \<noteq> 0 then 4 else 2);
           let n = usub64 n skip;
           let p = u64 (skip + usub64 n hashSize);
           before \<leftarrow> load (p - 1) 1 asn1;
           if unat (hd before) \<noteq> hashSize then Some None
           else do {
             digest \<leftarrow> load p hashSize asn1;
             if digest \<noteq> hashData then Some None else map_option Some (load skip n asn1)
           }
         })"

definition CheckCertAux :: "('p7, 'x509, 'store) x509_lib \<Rightarrow> heap \<Rightarrow> bytes \<Rightarrow> nat \<Rightarrow> bytes \<Rightarrow> nat option \<Rightarrow> nat \<Rightarrow> bytes \<Rightarrow>
    (int \<times> heap) option" where
  "CheckCertAux S h trustedCertData trustedCertSize d imageCertData imageCertSize hashData =
     (case imageCertData of
        None \<Rightarrow> Some (-1, h)
      | Some at \<Rightarrow>
          if trustedCertSize = 0 then Some (-1, h)
          else do {
            tmp \<leftarrow> load at imageCertSize d;
            case d2i_PKCS7 S tmp of
              None \<Rightarrow> Some (-1, h)
            | Some p7 \<Rightarrow>
                if \<not> PKCS7_type_is_signed S p7 then Some (-1, h)
                else do {
                  oid \<leftarrow> load 0 (length SPC_OID) (p7_contents_type S p7);
                  if oid \<noteq> SPC_OID then Some (-1, h)
                  else do {
                    content \<leftarrow> check_digest (p7_contents_string S p7) hashData;
                    case content of
                      None \<Rightarrow> Some (-1, h)
                    | Some content \<Rightarrow> do {
                        (rc, h1) \<leftarrow> VerifyPKCS7Certificate S h trustedCertData trustedCertSize d at imageCertSize content;
                        Some (if rc \<noteq> 0 then -1 else 0, h1)
                      }
                  }
                }
          })"

definition CheckCert :: "('p7, 'x509, 'store) x509_lib \<Rightarrow> 'c sha_lib \<Rightarrow> heap \<Rightarrow> bytes option \<Rightarrow> nat \<Rightarrow> bytes \<Rightarrow> nat \<Rightarrow>
    (int \<times> heap) option" where
  "CheckCert S L h imageData imageSize certData certSize =
     (case imageData of
        None \<Rightarrow> Some (-1, h)
      | Some d \<Rightarrow>
          if imageSize = 0 then Some (-1, h)
          else do {
            (rc, img, h1) \<leftarrow> ParseImage h null_image imageData imageSize;
            if rc \<noteq> 0 then Some (-1, h1)
            else do {
              (rc, sha1, sha256) \<leftarrow> HashImage L img;
              if rc \<noteq> 0 then Some (-1, h1)
              else do {
                hash \<leftarrow> sha256;
                (rc, h2) \<leftarrow> CheckCertAux S h1 certData certSize d (img_signatureData img) (img_signatureSize img) hash;
                Some (if rc \<noteq> 0 then -1 else 0, h2)
              }
            }
          })"

end
