(* ===== verification/PeSigned.thy ===== *)
theory PeSigned
  imports PeDigest PeCert
begin

text \<open>
  What a successful check of an image against a certificate means, and that the check decides:
  on a well-formed image its result depends on the image and the certificate only, unless the signature names
  a content type whose identifier is shorter than the one the code compares it with.
\<close>

text \<open>What the code relies on: the length of an ASN.1 string is an \<open>int\<close>.\<close>

definition x509_lib_ok :: "('p7, 'x509, 'store) x509_lib \<Rightarrow> bool" where
  "x509_lib_ok S \<longleftrightarrow> (\<forall>p7. length (p7_contents_string S p7) < 2 ^ 31)"

text \<open>
  The ten bytes of the content type that the code compares are there. It does not look at the length of the
  identifier: a shorter one is read beyond its end (\<open>None\<close>).
\<close>

definition long_type :: "('p7, 'x509, 'store) x509_lib \<Rightarrow> bytes \<Rightarrow> bool" where
  "long_type S b \<longleftrightarrow> (\<forall>p7. d2i_PKCS7 S b = Some p7 \<and> PKCS7_type_is_signed S p7 \<longrightarrow> 10 \<le> length (p7_contents_type S p7))"

text \<open>Some certificate store made of \<open>cert\<close> alone accepts \<open>p7\<close> as a signature of the content.\<close>

definition verified_by :: "('p7, 'x509, 'store) x509_lib \<Rightarrow> bytes \<Rightarrow> 'p7 \<Rightarrow> bytes \<Rightarrow> bool" where
  "verified_by S cert p7 content \<longleftrightarrow>
     (case d2i_X509 S cert of
        None \<Rightarrow> False
      | Some x509 \<Rightarrow> (case CreateStoreWithCert S x509 of None \<Rightarrow> False | Some st \<Rightarrow> PKCS7_verify S p7 st content))"

text \<open>A call whose return code does not depend on the allocator, as long as no request fails.\<close>

definition decides :: "(heap \<Rightarrow> (int \<times> heap) option) \<Rightarrow> bool" where
  "decides f \<longleftrightarrow> (\<exists>rc. \<forall>h. heap_ok h \<longrightarrow> (\<exists>h'. heap_ok h' \<and> f h = Some (rc, h')))"

lemma decides_const: "decides (\<lambda>h. Some (rc, h))"
  by (auto simp: decides_def)

text \<open>A caller that maps every error to -1.\<close>

definition norm_rc :: "(int \<times> heap) option \<Rightarrow> (int \<times> heap) option" where
  "norm_rc r = (case r of None \<Rightarrow> None | Some (rc, h) \<Rightarrow> Some (if rc \<noteq> 0 then -1 else 0, h))"

lemma norm_rc_0: "norm_rc r = Some (0, h) \<longleftrightarrow> r = Some (0, h)"
  by (cases r) (auto simp: norm_rc_def split: if_splits)

lemma decides_norm:
  assumes "decides f"
  shows "decides (\<lambda>h. norm_rc (f h))"
proof -
  from assms obtain rc where rc: "\<And>h. heap_ok h \<Longrightarrow> \<exists>h'. heap_ok h' \<and> f h = Some (rc, h')" by (auto simp: decides_def)
  show ?thesis unfolding decides_def
  proof (intro exI [of _ "if rc \<noteq> 0 then -1 else 0"] allI impI)
    fix h :: heap assume "heap_ok h"
    from rc [OF this] obtain h' where "heap_ok h'" "f h = Some (rc, h')" by blast
    then show "\<exists>h'. heap_ok h' \<and> norm_rc (f h) = Some (if rc \<noteq> 0 then -1 else 0, h')" by (simp add: norm_rc_def)
  qed
qed

subsection \<open>The digest in the signature\<close>

definition indirect_content :: "bytes \<Rightarrow> bytes" where
  "indirect_content asn1 = drop (if asn1 ! 1 AND 0x80 \<noteq> 0 then 4 else 2) asn1"

lemma load_one: "i < length xs \<Longrightarrow> load i 1 xs = Some [xs ! i]"
  by (simp add: load_def slice_def take_Suc_conv_app_nth Cons_nth_drop_Suc [symmetric])

lemma check_digest_spec:
  assumes "length digest = 32" "length asn1 < 2 ^ 31"
  shows "check_digest asn1 digest = Some
    (if 35 \<le> length asn1 \<and> unat (asn1 ! (length asn1 - 33)) = 32 \<and> drop (length asn1 - 32) asn1 = digest
     then Some (indirect_content asn1) else None)"
proof (cases "35 \<le> length asn1")
  case False
  with assms(1) show ?thesis by (simp add: check_digest_def Let_def)
next
  case True
  let ?n = "length asn1"
  define k :: nat where "k = (if asn1 ! 1 AND 0x80 \<noteq> 0 then 4 else 2)"
  have k: "k = 2 \<or> k = 4" by (simp add: k_def)
  have big: "?n < 2 ^ 64" using assms(2) by simp
  have n: "usub64 ?n k = ?n - k" using True k big by (intro usub64_small) auto
  have p: "u64 (k + usub64 (?n - k) 32) = ?n - 32"
  proof (cases "32 \<le> ?n - k")
    case T: True
    have "usub64 (?n - k) 32 = ?n - k - 32" using T big by (intro usub64_small) auto
    then have "k + usub64 (?n - k) 32 = ?n - 32" using T by simp
    with big show ?thesis by (simp only:) (rule u64_small, simp)
  next
    case False
    with True k have "?n = 35" "k = 4" by auto
    then show ?thesis by (simp add: usub64_def u64_def)
  qed
  have b: "load (?n - 32 - 1) 1 asn1 = Some [asn1 ! (?n - 33)]" using True by (subst load_one) auto
  have d: "load (?n - 32) 32 asn1 = Some (drop (?n - 32) asn1)" using True by (simp add: load_def slice_def)
  have c: "load k (?n - k) asn1 = Some (indirect_content asn1)"
  proof -
    have "indirect_content asn1 = drop k asn1" by (simp only: indirect_content_def k_def)
    then show ?thesis using True k by (auto simp: load_def slice_def)
  qed
  have one: "load 1 1 asn1 = Some [asn1 ! 1]" using True by (intro load_one) simp
  have "check_digest asn1 digest =
      (if unat (asn1 ! (?n - 33)) \<noteq> 32 then Some None
       else if drop (?n - 32) asn1 \<noteq> digest then Some None else Some (Some (indirect_content asn1)))"
  proof -
    have "(?n < 3 + 32) = False" using True by simp
    then show ?thesis
      by (simp only: check_digest_def Let_def assms(1) one Option.bind_lunit list.sel(1) k_def [symmetric] n p b d c if_False
          option.map(2))
  qed
  with True show ?thesis by simp
qed

subsection \<open>The wrapped signature\<close>

definition wrap_bytes :: "nat \<Rightarrow> bytes" where
  "wrap_bytes m =
     set_field PKCS7WrapHeader ''length2'' (unat (ByteSwapU16 (of_nat m)))
       (set_field PKCS7WrapHeader ''length1'' (unat (ByteSwapU16 (of_nat (usub64 (m + 19) 4)))) wrap_header)"

lemma wrap_header_size [layout_simps]: "struct_size PKCS7WrapHeader = 19"
  by (simp add: struct_size_def PKCS7WrapHeader_def)

lemma length_wrap_bytes [simp]: "length (wrap_bytes m) = 19"
proof -
  have "length wrap_header = 19" by (simp add: wrap_header_def)
  moreover have "field_at PKCS7WrapHeader ''length1'' = (2, 2)" "field_at PKCS7WrapHeader ''length2'' = (17, 2)"
    by (simp_all add: PKCS7WrapHeader_def)
  ultimately show ?thesis by (simp add: wrap_bytes_def length_set_field)
qed

lemma WrapPKCS7Cert_ok:
  assumes "heap_ok h" "0 < m" "at + m \<le> length d" "length d < 2 ^ 31"
  shows "WrapPKCS7Cert h d at m = Some (0, Some (wrap_bytes m @ slice at m d, m + 19), heap_next h)"
proof -
  obtain b where b: "h 0 = Some b" using heap_ok_0 [OF assms(1)] by blast
  have "m < 2 ^ 31" using assms(3,4) by simp
  then have m: "u64 (m + 19) = m + 19" "u32 (m + 19) = m + 19" by simp_all
  have s1: "store 0 (wrap_bytes m) (replicate (m + 19) b) = Some (wrap_bytes m @ replicate m b)"
    by (simp add: store_def overwrite_def)
  have s2: "store 19 (slice at m d) (wrap_bytes m @ replicate m b) = Some (wrap_bytes m @ slice at m d)"
    using assms(3) by (simp add: store_def overwrite_def)
  have l: "load at m d = Some (slice at m d)" using assms(3) by (simp add: load_def)
  show ?thesis using assms(2) s1 s2 l
    by (simp add: WrapPKCS7Cert_def layout_simps m Malloc_def b wrap_bytes_def [symmetric])
qed

lemma IsPKCS7Wrapped_total:
  assumes "at + m \<le> length d"
  shows "\<exists>b. IsPKCS7Wrapped d at m = Some b"
  using assms by (cases "m < 19") (auto simp: IsPKCS7Wrapped_def layout_simps load_def)

lemma verify_wrapped_total:
  assumes "at + m \<le> length w" "n \<le> length cert"
  shows "\<exists>rc. verify_wrapped S cert n w at m content = Some rc"
  using assms by (simp add: verify_wrapped_def load_def split: option.splits)

lemma verify_wrapped_0:
  assumes "verify_wrapped S cert n w at m content = Some 0" "n \<le> length cert"
  shows "\<exists>p7. d2i_PKCS7 S (slice at m w) = Some p7 \<and> PKCS7_type_is_signed S p7 \<and> verified_by S (take n cert) p7 content"
proof -
  from assms(1) obtain p7 where p7: "load at m w = Some (slice at m w)" "d2i_PKCS7 S (slice at m w) = Some p7" "PKCS7_type_is_signed S p7"
    by (auto simp: verify_wrapped_def load_def split: if_splits option.splits Option.bind_splits)
  have "load 0 n cert = Some (take n cert)" using assms(2) by (simp add: load_def slice_def)
  with assms(1) p7 have "verified_by S (take n cert) p7 content"
    by (auto simp: verify_wrapped_def verified_by_def split: if_splits option.splits)
  with p7 show ?thesis by blast
qed

text \<open>The verification of a signature in the image: its result does not depend on the allocator.\<close>

lemma VerifyPKCS7Certificate_decides:
  assumes "at + m \<le> length d" "length d < 2 ^ 31" "n \<le> length cert"
  shows "decides (\<lambda>h. VerifyPKCS7Certificate S h cert n d at m content)"
proof (cases "n = 0 \<or> \<not> EVP_add_digest_sha256 S")
  case True
  then show ?thesis by (auto simp: decides_def VerifyPKCS7Certificate_def)
next
  case False
  from IsPKCS7Wrapped_total [OF assms(1)] obtain b where b: "IsPKCS7Wrapped d at m = Some b" ..
  show ?thesis
  proof (cases b)
    case True
    from verify_wrapped_total [OF assms(1,3)] obtain rc where "verify_wrapped S cert n d at m content = Some rc" ..
    with False b True show ?thesis by (auto simp: decides_def VerifyPKCS7Certificate_def)
  next
    case f: False
    show ?thesis
    proof (cases "m = 0")
      case True
      with False b f show ?thesis
        by (auto simp: decides_def VerifyPKCS7Certificate_def WrapPKCS7Cert_def)
    next
      case m: False
      have "0 + (m + 19) \<le> length (wrap_bytes m @ slice at m d)" using assms(1) by simp
      from verify_wrapped_total [OF this assms(3)] obtain rc
        where "verify_wrapped S cert n (wrap_bytes m @ slice at m d) 0 (m + 19) content = Some rc" by blast
      with False b f m assms(1,2) show ?thesis
        by (auto simp: decides_def VerifyPKCS7Certificate_def WrapPKCS7Cert_ok)
    qed
  qed
qed

text \<open>The signature as it is verified: wrapped, if it was not.\<close>

definition as_wrapped :: "bytes \<Rightarrow> bytes \<Rightarrow> bool" where
  "as_wrapped w cert \<longleftrightarrow> w = cert \<or> w = wrap_bytes (length cert) @ cert"

lemma VerifyPKCS7Certificate_0:
  assumes "VerifyPKCS7Certificate S h cert n d at m content = Some (0, h')" "heap_ok h"
    and "at + m \<le> length d" "length d < 2 ^ 31" "n \<le> length cert"
  shows "\<exists>w p7. as_wrapped w (slice at m d) \<and> d2i_PKCS7 S w = Some p7 \<and> PKCS7_type_is_signed S p7 \<and>
    verified_by S (take n cert) p7 content"
proof -
  from assms(1) have n: "n \<noteq> 0" "EVP_add_digest_sha256 S" by (auto simp: VerifyPKCS7Certificate_def split: if_splits)
  from IsPKCS7Wrapped_total [OF assms(3)] obtain b where b: "IsPKCS7Wrapped d at m = Some b" ..
  show ?thesis
  proof (cases b)
    case True
    with assms(1) n b have "verify_wrapped S cert n d at m content = Some 0" by (auto simp: VerifyPKCS7Certificate_def)
    from verify_wrapped_0 [OF this assms(5)] show ?thesis by (auto simp: as_wrapped_def)
  next
    case False
    have m: "0 < m"
    proof (rule ccontr)
      assume "\<not> 0 < m"
      with assms(1) n b False show False by (simp add: VerifyPKCS7Certificate_def WrapPKCS7Cert_def)
    qed
    with assms(1-4) n b False
    have "verify_wrapped S cert n (wrap_bytes m @ slice at m d) 0 (m + 19) content = Some 0"
      by (auto simp: VerifyPKCS7Certificate_def WrapPKCS7Cert_ok)
    from verify_wrapped_0 [OF this assms(5)] obtain p7
      where "d2i_PKCS7 S (slice 0 (m + 19) (wrap_bytes m @ slice at m d)) = Some p7" "PKCS7_type_is_signed S p7"
        "verified_by S (take n cert) p7 content" by blast
    moreover have "slice 0 (m + 19) (wrap_bytes m @ slice at m d) = wrap_bytes m @ slice at m d" by simp
    moreover have "length (slice at m d) = m" using assms(3) by simp
    ultimately show ?thesis unfolding as_wrapped_def by (metis (no_types, lifting))
  qed
qed

subsection \<open>The check of an image\<close>

text \<open>What the object \<open>p7\<close> of a signature must have: type, object identifier, and the digest at the end of the string.\<close>

definition names_digest :: "('p7, 'x509, 'store) x509_lib \<Rightarrow> 'p7 \<Rightarrow> bytes \<Rightarrow> bool" where
  "names_digest S p7 digest \<longleftrightarrow>
     PKCS7_type_is_signed S p7 \<and> take 10 (p7_contents_type S p7) = SPC_OID \<and>
     (let s = p7_contents_string S p7
      in 35 \<le> length s \<and> unat (s ! (length s - 33)) = 32 \<and> drop (length s - 32) s = digest)"

lemma CheckCertAux_0_long_type:
  assumes "CheckCertAux S h cert n d (Some at) m digest = Some (0, h')"
  shows "long_type S (slice at m d)"
proof -
  have "length SPC_OID = 10" by (simp add: SPC_OID_def)
  with assms show ?thesis
    by (auto simp: long_type_def CheckCertAux_def load_def split: if_splits option.splits Option.bind_splits)
qed

lemma CheckCertAux_signature:
  assumes "x509_lib_ok S" "long_type S (slice at m d)" "length digest = 32" "n \<noteq> 0" "at + m \<le> length d"
  shows "CheckCertAux S h cert n d (Some at) m digest =
    (case d2i_PKCS7 S (slice at m d) of
       None \<Rightarrow> Some (-1, h)
     | Some p7 \<Rightarrow>
         if names_digest S p7 digest then
           norm_rc (VerifyPKCS7Certificate S h cert n d at m (indirect_content (p7_contents_string S p7)))
         else Some (-1, h))"
proof (cases "d2i_PKCS7 S (slice at m d)")
  case None
  with assms show ?thesis by (simp add: CheckCertAux_def load_def)
next
  case (Some p7)
  have ten: "length SPC_OID = 10" by (simp add: SPC_OID_def)
  have "length (p7_contents_string S p7) < 2 ^ 31"
    using assms(1) by (simp add: x509_lib_ok_def)
  then have dig: "check_digest (p7_contents_string S p7) digest = Some
      (if 35 \<le> length (p7_contents_string S p7) \<and> unat (p7_contents_string S p7 ! (length (p7_contents_string S p7) - 33)) = 32 \<and>
          drop (length (p7_contents_string S p7) - 32) (p7_contents_string S p7) = digest
       then Some (indirect_content (p7_contents_string S p7)) else None)"
    by (simp only: check_digest_spec [OF assms(3)])
  have l: "load at m d = Some (slice at m d)" using assms(5) by (simp add: load_def)
  have oid: "load 0 10 (p7_contents_type S p7) = Some (take 10 (p7_contents_type S p7))" if "PKCS7_type_is_signed S p7"
    using assms(2) Some that by (simp add: long_type_def load_def slice_def)
  consider (other) "\<not> (PKCS7_type_is_signed S p7 \<and> take 10 (p7_contents_type S p7) = SPC_OID)"
    | (digest) "PKCS7_type_is_signed S p7" "take 10 (p7_contents_type S p7) = SPC_OID" by blast
  then show ?thesis
  proof cases
    case other
    then show ?thesis using assms(4) l Some by (auto simp: CheckCertAux_def ten oid names_digest_def)
  next
    case digest
    then show ?thesis using assms(4) l Some
      by (cases "VerifyPKCS7Certificate S h cert n d at m (indirect_content (p7_contents_string S p7))")
        (simp_all add: CheckCertAux_def ten oid dig names_digest_def Let_def norm_rc_def split: prod.splits)
  qed
qed

lemma CheckCertAux_decides:
  assumes "x509_lib_ok S" "long_type S (slice at m d)" "length digest = 32" "at + m \<le> length d" "length d < 2 ^ 31" "n \<le> length cert"
  shows "decides (\<lambda>h. CheckCertAux S h cert n d (Some at) m digest)"
proof (cases "n = 0")
  case True
  then show ?thesis by (simp add: CheckCertAux_def decides_const)
next
  case False
  note aux = CheckCertAux_signature [OF assms(1-3) False assms(4)]
  show ?thesis
  proof (cases "d2i_PKCS7 S (slice at m d)")
    case None
    then show ?thesis by (simp add: aux decides_const)
  next
    case (Some p7)
    then show ?thesis
      using decides_norm [OF VerifyPKCS7Certificate_decides [OF assms(4-6), of S "indirect_content (p7_contents_string S p7)"]]
      by (cases "names_digest S p7 digest") (simp_all add: aux decides_const)
  qed
qed

definition signature_fits :: "bytes \<Rightarrow> nat \<Rightarrow> bool" where
  "signature_fits d sig \<longleftrightarrow>
     sig \<noteq> 0 \<longrightarrow> 8 \<le> le_nat (slice (length d - sig) 4 d) \<and> le_nat (slice (length d - sig) 4 d) \<le> sig"

lemma pe_image_ok_bounds:
  assumes "pe_image_ok d pe ss sig"
  shows "length d < 2 ^ 31" "0 < length d" "sig = 0 \<or> 8 \<le> sig \<and> sig \<le> length d"
  using assms by (auto simp: pe_image_ok_def signature_ok_def split: option.splits)

lemma signature_fits_range:
  assumes "pe_image_ok d pe ss sig" "signature_fits d sig" "sig \<noteq> 0"
  obtains m where "signature_range d sig = (Some (length d - sig + 8), m)" "length d - sig + 8 + m \<le> length d"
proof -
  let ?l = "le_nat (slice (length d - sig) 4 d)"
  have l: "8 \<le> ?l" "?l \<le> sig" using assms(2,3) by (simp_all add: signature_fits_def)
  note b = pe_image_ok_bounds [OF assms(1)]
  have "?l < 2 ^ 64" using l b assms(3) by simp
  with l have "usub64 ?l 8 = ?l - 8" by (simp add: usub64_small)
  then have "signature_range d sig = (Some (length d - sig + 8), ?l - 8)" using assms(3) by (simp add: signature_range_def)
  moreover have "length d - sig + 8 + (?l - 8) \<le> length d" using l b assms(3) by auto
  ultimately show ?thesis using that by blast
qed

text \<open>On a well-formed image, \<open>CheckCert\<close> is \<open>CheckCertAux\<close> on its signature and the digest of its signed content.\<close>

lemma CheckCert_image:
  assumes "pe_image_ok d pe ss sig" "sha_lib_ok L H hashed" "heap_ok h"
  shows "\<exists>h1. heap_ok h1 \<and> CheckCert S L h (Some d) (length d) cert n =
    norm_rc (CheckCertAux S h1 cert n d (fst (signature_range d sig)) (snd (signature_range d sig))
      (H SHA256_ALG (signed_content d pe sig)))"
proof -
  from assms(1) obtain hdrs where hdrs: "peek d pe EFI_IMAGE_NT_HEADERS64 ''SizeOfHeaders'' = Some hdrs"
    by (rule pe_image_ok_hdrs)
  from ParseImage_image [OF assms(1,3) hdrs, of null_image] obtain h1 where h1: "heap_ok h1"
      "ParseImage h null_image (Some d) (length d) = Some (0, parsed_image d pe hdrs ss sig, h1)" by blast
  have ne: "d \<noteq> []" using pe_image_ok_bounds(2) [OF assms(1)] by simp
  let ?aux = "CheckCertAux S h1 cert n d (fst (signature_range d sig)) (snd (signature_range d sig))
    (H SHA256_ALG (signed_content d pe sig))"
  have "CheckCert S L h (Some d) (length d) cert n = norm_rc ?aux"
    using h1(2) HashImage_parsed [OF assms(1,2) hdrs] ne
    by (cases ?aux) (auto simp: CheckCert_def parsed_image_def norm_rc_def)
  with h1(1) show ?thesis by blast
qed

lemma CheckCert_decides:
  assumes "pe_image_ok d pe ss sig" "signature_fits d sig" "sha_lib_ok L H hashed" "x509_lib_ok S"
    and "n \<le> length cert" "\<And>m. long_type S (slice (length d - sig + 8) m d)"
  shows "decides (\<lambda>h. CheckCert S L h (Some d) (length d) cert n)"
proof -
  let ?digest = "H SHA256_ALG (signed_content d pe sig)"
  have len: "length ?digest = 32" using assms(3) by (simp add: sha_lib_ok_def SHAHashSize_def)
  have "decides (\<lambda>h. CheckCertAux S h cert n d (fst (signature_range d sig)) (snd (signature_range d sig)) ?digest)"
  proof (cases "sig = 0")
    case True
    then show ?thesis by (simp add: signature_range_def CheckCertAux_def decides_const)
  next
    case False
    from signature_fits_range [OF assms(1,2) this] obtain m
      where "signature_range d sig = (Some (length d - sig + 8), m)" "length d - sig + 8 + m \<le> length d" by blast
    with CheckCertAux_decides [OF assms(4,6) len _ pe_image_ok_bounds(1) [OF assms(1)] assms(5)] show ?thesis by simp
  qed
  from decides_norm [OF this] obtain rc where rc: "\<And>h. heap_ok h \<Longrightarrow> \<exists>h'. heap_ok h' \<and>
      norm_rc (CheckCertAux S h cert n d (fst (signature_range d sig)) (snd (signature_range d sig)) ?digest) = Some (rc, h')"
    by (auto simp: decides_def)
  show ?thesis unfolding decides_def
  proof (intro exI [of _ rc] allI impI)
    fix h :: heap assume "heap_ok h"
    from CheckCert_image [OF assms(1,3) this, of S cert n] rc
    show "\<exists>h'. heap_ok h' \<and> CheckCert S L h (Some d) (length d) cert n = Some (rc, h')" by metis
  qed
qed

lemma CheckCert_0:
  assumes ok: "pe_image_ok d pe ss sig" and L: "sha_lib_ok L H hashed" and S: "x509_lib_ok S"
    and "heap_ok h" and n: "n \<le> length cert" and r: "CheckCert S L h (Some d) (length d) cert n = Some (0, h')"
  shows "\<exists>m p7 w p7'. 8 \<le> sig \<and> length d - sig + 8 + m \<le> length d \<and>
    d2i_PKCS7 S (slice (length d - sig + 8) m d) = Some p7 \<and> names_digest S p7 (H SHA256_ALG (signed_content d pe sig)) \<and>
    as_wrapped w (slice (length d - sig + 8) m d) \<and> d2i_PKCS7 S w = Some p7' \<and>
    verified_by S (take n cert) p7' (indirect_content (p7_contents_string S p7))"
proof -
  let ?digest = "H SHA256_ALG (signed_content d pe sig)" and ?at = "length d - sig + 8"
  have len: "length ?digest = 32" using L by (simp add: sha_lib_ok_def SHAHashSize_def)
  from CheckCert_image [OF ok L assms(4), of S cert n] r obtain h1 where h1: "heap_ok h1"
      "norm_rc (CheckCertAux S h1 cert n d (fst (signature_range d sig)) (snd (signature_range d sig)) ?digest) = Some (0, h')"
    by metis
  then have a: "CheckCertAux S h1 cert n d (fst (signature_range d sig)) (snd (signature_range d sig)) ?digest = Some (0, h')"
    by (simp add: norm_rc_0)
  then have sig: "sig \<noteq> 0" "n \<noteq> 0" by (auto simp: signature_range_def CheckCertAux_def split: if_splits)
  then obtain m where m: "signature_range d sig = (Some ?at, m)" by (simp add: signature_range_def)
  have fits: "?at + m \<le> length d"
    using a sig m by (auto simp: CheckCertAux_def load_def split: if_splits Option.bind_splits)
  from a m have aux: "CheckCertAux S h1 cert n d (Some ?at) m ?digest = Some (0, h')" by simp
  then obtain p7 where p7: "d2i_PKCS7 S (slice ?at m d) = Some p7" "names_digest S p7 ?digest"
      "VerifyPKCS7Certificate S h1 cert n d ?at m (indirect_content (p7_contents_string S p7)) = Some (0, h')"
    unfolding CheckCertAux_signature [OF S CheckCertAux_0_long_type [OF aux] len sig(2) fits] by (auto simp: norm_rc_0 split: option.splits if_splits)
  from VerifyPKCS7Certificate_0 [OF p7(3) h1(1) fits pe_image_ok_bounds(1) [OF ok] n] p7(1,2) fits
    pe_image_ok_bounds(3) [OF ok] sig(1)
  show ?thesis by blast
qed

end
