(* ===== verification/PeClaims.thy ===== *)
theory PeClaims
  imports PeSigned
begin

text \<open>
  The properties of executable images, their digests and their signatures, with an image of 392 bytes that has three
  sections, of which one is empty and the other two are listed in reverse order, and a signature of sixteen bytes.
\<close>

definition example_image :: bytes where
  "example_image =
     nat_le 2 0x5A4D @ replicate 58 1 @ nat_le 4 64 @
     replicate 6 1 @ nat_le 2 3 @ replicate 12 1 @ nat_le 2 160 @ replicate 62 1 @ nat_le 4 368 @
     replicate 80 1 @ nat_le 4 376 @ nat_le 4 16 @
     replicate 24 1 @ nat_le 4 4 @ nat_le 4 370 @
     replicate 32 1 @ replicate 8 0 @
     replicate 32 1 @ nat_le 4 2 @ nat_le 4 368 @ replicate 16 1 @
     [1, 2, 3, 4, 5, 6] @ replicate 2 9 @ [16, 0, 0, 0, 0, 2, 2, 0] @ replicate 8 7"

lemma length_example_image: "length example_image = 392"
  by (simp add: example_image_def)

lemmas example_image_simps = example_image_def load_def slice_def le_nat_nat_le drop_append take_append

lemma example_image_fields:
  "load 0 2 example_image = Some (nat_le 2 0x5A4D)" "load 60 4 example_image = Some (nat_le 4 64)"
  "load 70 2 example_image = Some (nat_le 2 3)" "load 84 2 example_image = Some (nat_le 2 160)"
  "load 148 4 example_image = Some (nat_le 4 368)" "load 232 4 example_image = Some (nat_le 4 376)"
  "load 236 4 example_image = Some (nat_le 4 16)" "load 382 2 example_image = Some [2, 0]"
  by (simp_all add: example_image_simps)

lemma example_image_sections:
  "load 248 120 example_image = Some (replicate 16 1 @ nat_le 4 4 @ nat_le 4 370 @ replicate 32 1 @ replicate 8 0 @
     replicate 32 1 @ nat_le 4 2 @ nat_le 4 368 @ replicate 16 1)"
  by (simp add: example_image_simps replicate_add [symmetric])

lemma example_image_ok: "pe_image_ok example_image 64 [(368, 2), (370, 4)] 16"
proof -
  let ?secs = "[replicate 16 1 @ nat_le 4 4 @ nat_le 4 370 @ replicate 16 1, replicate 16 1 @ replicate 8 0 @ replicate 16 1,
    replicate 16 1 @ nat_le 4 2 @ nat_le 4 368 @ replicate 16 1]"
  have upt: "[0..<3] = [0, 1, 2 :: nat]" by (simp add: upt_conv_Cons numeral_3_eq_3 numeral_2_eq_2)
  have "load (64 + 4 + struct_size EFI_IMAGE_FILE_HEADER + 160) (3 * struct_size EFI_IMAGE_SECTION_HEADER) example_image =
      Some (concat ?secs)" by (simp add: layout_simps example_image_sections replicate_add [symmetric])
  moreover have "peek example_image 64 EFI_IMAGE_NT_HEADERS64 ''NumberOfSections'' = Some 3"
      "peek example_image 64 EFI_IMAGE_NT_HEADERS64 ''SizeOfOptionalHeader'' = Some 160"
    by (simp_all add: peek_def EFI_IMAGE_NT_HEADERS64_def EFI_IMAGE_FILE_HEADER_def example_image_fields le_nat_nat_le)
  ultimately have secs: "section_headers example_image 64 = Some ?secs"
    by (simp add: section_headers_def upt layout_simps slice_def drop_append take_append)
  have "map raw_range ?secs = [(370, 4), (0, 0), (368, 2)]"
    by (simp add: raw_range_def get_field_def EFI_IMAGE_SECTION_HEADER_def slice_def drop_append take_append le_nat_nat_le)
      (simp add: numeral_eq_Suc)
  then show ?thesis
    by (simp add: secs pe_image_ok_def length_example_image peek_def EFI_IMAGE_DOS_HEADER_def EFI_IMAGE_DOS_SIGNATURE_def
        example_image_fields le_nat_nat_le EFI_IMAGE_NT_HEADERS64_def EFI_IMAGE_FILE_HEADER_def EFI_IMAGE_OPTIONAL_HEADER64_def
        lists_sections_def signature_ok_def layout_simps EFI_IMAGE_DATA_DIRECTORY_def)
qed

text \<open>
  C31: The digest of an executable image is that of its signed content. For every image of less than 2 GB whose non-empty
  sections follow the headers without gaps, listed in any order, and whose signature, if there is one, is at its end,
  \<open>ParseAndHashImage\<close> returns 0 with the SHA-1 and SHA-256 digests of all bytes of the
  image except the checksum, the security directory entry and the signature.
\<close>

theorem ParseAndHashImage_signed_content:
  assumes "pe_image_ok d pe ss sig" "sha_lib_ok L H hashed" "heap_ok h"
  shows "\<exists>h'. ParseAndHashImage L h (Some d) (length d) =
    Some (0, Some (H SHA1_ALG (signed_content d pe sig)), Some (H SHA256_ALG (signed_content d pe sig)), h')"
  using ParseAndHashImage_ok [OF assms] by blast

theorem ParseAndHashImage_signed_content_witness:
  "\<exists>h'. ParseAndHashImage toy_sha_lib (\<lambda>_. Some 0) (Some example_image) (length example_image) =
    Some (0, Some (toy_sha SHA1_ALG (signed_content example_image 64 16)),
      Some (toy_sha SHA256_ALG (signed_content example_image 64 16)), h')"
  by (rule ParseAndHashImage_signed_content [OF example_image_ok toy_sha_lib_ok heap_ok_const])

subsection \<open>The check against a certificate\<close>

text \<open>
  C32: A certificate check that succeeds means what it should. Let the image be well formed (\<open>pe_image_ok\<close>: an
  image below 2 GiB whose sections follow the headers without gaps and whose signature, if there is one, is at its end),
  the digest functions those of a hash \<open>H\<close>, ASN.1 strings shorter than 2 GiB (their length is an \<open>int\<close>) and the
  allocations granted. If \<open>CheckCert\<close> then returns 0, the image ends with a signature whose signed data names the SPC type and ends
  with the SHA-256 digest of the signed content of the image, and the library has verified that signature (wrapped into the
  outer PKCS7 header, if it was not) over the content that holds the digest, with a store that has the given certificate
  only and with the callback of the code.
\<close>

theorem CheckCert_sound:
  assumes "pe_image_ok d pe ss sig" "sha_lib_ok L H hashed" "x509_lib_ok S" "heap_ok h" "n \<le> length cert"
    and "CheckCert S L h (Some d) (length d) cert n = Some (0, h')"
  shows "\<exists>m p7 w p7'. 8 \<le> sig \<and> length d - sig + 8 + m \<le> length d \<and>
    d2i_PKCS7 S (slice (length d - sig + 8) m d) = Some p7 \<and>
    names_digest S p7 (H SHA256_ALG (signed_content d pe sig)) \<and>
    as_wrapped w (slice (length d - sig + 8) m d) \<and> d2i_PKCS7 S w = Some p7' \<and>
    verified_by S (take n cert) p7' (indirect_content (p7_contents_string S p7))"
  by (rule CheckCert_0 [OF assms])

text \<open>A library that parses every signature to its bytes and accepts the certificate \<open>[1, 2, 3]\<close>.\<close>

definition example_x509 :: "(bytes, bytes, bytes) x509_lib" where
  "example_x509 = \<lparr>EVP_add_digest_sha256 = True, d2i_PKCS7 = Some, PKCS7_type_is_signed = (\<lambda>_. True),
     p7_contents_type = (\<lambda>_. SPC_OID),
     p7_contents_string = (\<lambda>_. [4, 1, 32] @ toy_sha SHA256_ALG (signed_content example_image 64 16)),
     d2i_X509 = Some, X509_STORE_new = Some [], X509_STORE_add_cert = (\<lambda>_ x. Some x),
     X509_STORE_set_verify_cb_func = (\<lambda>st _. st), X509_STORE_set_purpose_any = (\<lambda>st. st),
     BIO_new_mem = True, BIO_write = (\<lambda>c. int (length c)), PKCS7_verify = (\<lambda>_ st _. st = [1, 2, 3])\<rparr>"

lemma length_toy_sha256 [simp]: "length (toy_sha SHA256_ALG m) = 32"
  by (simp add: toy_sha_def SHAHashSize_def)

lemma example_x509_ok: "x509_lib_ok example_x509"
  by (simp add: x509_lib_ok_def example_x509_def)

lemma example_type: "long_type example_x509 b"
  by (simp add: long_type_def example_x509_def SPC_OID_def)

lemma example_signature: "signature_range example_image 16 = (Some 384, 8)"
proof -
  have "slice 376 4 example_image = [16, 0, 0, 0]" by (simp add: example_image_simps)
  then show ?thesis by (simp add: signature_range_def length_example_image usub64_small)
qed

lemma example_x509_sel:
  "EVP_add_digest_sha256 example_x509" "d2i_PKCS7 example_x509 = Some" "PKCS7_type_is_signed example_x509 p7"
  "d2i_X509 example_x509 = Some" "BIO_new_mem example_x509" "BIO_write example_x509 c = int (length c)"
  "PKCS7_verify example_x509 p7 st c \<longleftrightarrow> st = [1, 2, 3]"
  by (simp_all add: example_x509_def)

lemma example_verified: "CreateStoreWithCert example_x509 c = Some c"
  by (simp add: CreateStoreWithCert_def example_x509_def)

lemma example_accepted:
  "\<exists>h'. CheckCert example_x509 toy_sha_lib (\<lambda>_. Some 0) (Some example_image) (length example_image) [1, 2, 3] 3 = Some (0, h')"
proof -
  let ?digest = "toy_sha SHA256_ALG (signed_content example_image 64 16)"
  have names: "names_digest example_x509 p ?digest" for p
    by (simp add: names_digest_def example_x509_def SPC_OID_def)
  have V: "\<exists>h'. VerifyPKCS7Certificate example_x509 h1 [1, 2, 3] 3 example_image 384 8 content = Some (0, h')" if "heap_ok h1" for h1 content
  proof -
    have "WrapPKCS7Cert h1 example_image 384 8 =
        Some (0, Some (wrap_bytes 8 @ slice 384 8 example_image, 8 + 19), heap_next h1)"
      using that by (intro WrapPKCS7Cert_ok) (simp_all add: length_example_image)
    moreover have "verify_wrapped example_x509 [1, 2, 3] 3 (wrap_bytes 8 @ slice 384 8 example_image) 0 27 content = Some 0"
      by (simp add: verify_wrapped_def load_def length_example_image example_verified example_x509_sel)
    ultimately show ?thesis
      by (simp add: VerifyPKCS7Certificate_def IsPKCS7Wrapped_def layout_simps example_x509_sel)
  qed
  have aux: "\<exists>h'. CheckCertAux example_x509 h1 [1, 2, 3] 3 example_image (Some 384) 8 ?digest = Some (0, h')" if "heap_ok h1" for h1
  proof -
    have "d2i_PKCS7 example_x509 (slice 384 8 example_image) = Some (slice 384 8 example_image)" by (simp add: example_x509_def)
    with V [OF that] show ?thesis
      by (subst CheckCertAux_signature [OF example_x509_ok example_type]) (auto simp: length_example_image names norm_rc_0)
  qed
  from CheckCert_image [OF example_image_ok toy_sha_lib_ok heap_ok_const [of 0], where S = example_x509 and cert = "[1, 2, 3]" and n = 3]
  obtain h1 where h1: "heap_ok h1" and c: "CheckCert example_x509 toy_sha_lib (\<lambda>_. Some 0) (Some example_image)
      (length example_image) [1, 2, 3] 3 =
    norm_rc (CheckCertAux example_x509 h1 [1, 2, 3] 3 example_image (Some 384) 8 ?digest)"
    by (auto simp: example_signature)
  from aux [OF h1] show ?thesis unfolding c by (simp add: norm_rc_0)
qed

theorem CheckCert_sound_witness:
  "\<exists>m p7 w p7'. 8 \<le> (16 :: nat) \<and> length example_image - 16 + 8 + m \<le> length example_image \<and>
    d2i_PKCS7 example_x509 (slice (length example_image - 16 + 8) m example_image) = Some p7 \<and>
    names_digest example_x509 p7 (toy_sha SHA256_ALG (signed_content example_image 64 16)) \<and>
    as_wrapped w (slice (length example_image - 16 + 8) m example_image) \<and> d2i_PKCS7 example_x509 w = Some p7' \<and>
    verified_by example_x509 (take 3 [1, 2, 3]) p7' (indirect_content (p7_contents_string example_x509 p7))"
proof -
  obtain h' where "CheckCert example_x509 toy_sha_lib (\<lambda>_. Some 0) (Some example_image) (length example_image) [1, 2, 3] 3 = Some (0, h')"
    using example_accepted by blast
  from CheckCert_sound [OF example_image_ok toy_sha_lib_ok example_x509_ok heap_ok_const _ this] show ?thesis by simp
qed

end
