(* ===== verification/Spec2Isabelle.thy ===== *)
theory Spec2Isabelle
  imports DeviceStack Tpm2Policy CpioEdit Conf Gpt Guid Keys TPMBuf Buf
    Ext2ReadOnly Ext2Shape Ext2Count Ext2Fread GrubPatch GrubResolve VfatClaims
    PeClaims
begin

text \<open>
  A verification of LSVMTools, the boot loader and tools that start Linux guests from an
  encrypted disk. \<open>LSVMLOAD\<close>, an EFI program, unseals the disk keys with the TPM, opens the
  LUKS partitions of the boot and root file systems, patches the initial ramdisk with the keys,
  measures and starts the kernel; \<open>LSVMTOOL\<close> does the corresponding work from Linux, above all
  sealing the keys to predicted register values. Both are built from the library
  \<open>src/lsvmutils\<close>, which this development models; \<open>src/posix\<close> is its small C library.

  \<^bold>\<open>How the code is represented.\<close> Each C function is one HOL function with the same name (without
  a leading underscore; helper functions for loops and for parts of long functions carry
  names of their own). Objects in memory are the lists of their bytes or records of their
  fields; a mutated object is an argument and part of the result. The result of a function
  whose C counterpart could access memory outside an object is an \<open>option\<close>: \<open>None\<close> is such an
  access, so every theorem that a call returns \<open>Some\<close> is also one of memory safety. Return codes
  are kept as the code has them. Sizes are natural numbers with the reduction modulo \<open>2^64\<close> or
  \<open>2^32\<close> written out; values whose bits matter are machine words.

  \<^bold>\<open>Parameters.\<close> Code outside the repository is an argument: the allocator (a stream of outcomes,
  theory \<open>Prelude\<close>), the block ciphers and key derivation of OpenSSL (record \<open>crypto_lib\<close>, theory
  \<open>LuksCrypto\<close>), its hash functions (record \<open>sha_lib\<close>, theory \<open>Sha\<close>), the device below a block device
  (record \<open>blkdev\<close>, theory \<open>Blkdev\<close>), the callback of the configuration parser, and the firmware's
  TCG2 protocol (record \<open>tcg2_protocol\<close>, theory \<open>Tpm2Commands\<close>). What the code relies on is a
  named predicate (\<open>sha_lib_ok\<close>, \<open>sector_cipher_ok\<close>, \<open>unit_cipher_ok\<close>, \<open>answers\<close>) or a locale, and every
  property with such a hypothesis has an instance with a concrete function.

  \<^bold>\<open>Block devices.\<close> \<open>Blkdev\<close> (blkdev.c, blkdev.h) has the function table and the byte-level reads and
  writes; its locale \<open>blkdev_image\<close> is the contract of a device, an array of blocks with an
  invariant. \<open>MemBlkdev\<close> (memblkdev.c), \<open>CacheBlkdev\<close> (cacheblkdev.c: hash table of chains,
  write-back) and \<open>LuksBlkdev\<close> (luksblkdev.c) model the devices; the last two interpret the
  contract over any device that satisfies it. \<open>DeviceStack\<close> composes them into the stack that the
  boot loader builds, and shows that a byte range written through all layers is read back, that
  a write is an update of the decrypted image, and that with caching enabled nothing reaches
  the disk.

  \<^bold>\<open>LUKS.\<close> \<open>LuksCrypto\<close> (luks.c, luksopenssl.c) has the header, its byte order, cipher selection,
  initialisation vectors and sector encryption; \<open>LuksKey\<close> key derivation, diffusion, the
  anti-forensic merge and the recovery of the master key from a slot. Decryption undoes
  encryption in the four modes that the code supports, merging undoes the split, the recovered key is the one that was split, and no key
  is accepted whose digest differs from the header.

  \<^bold>\<open>TPM 2.0.\<close> \<open>TPMBuf\<close> (tpmbuf.c) is the command buffer with its sticky error flag. \<open>Tpm2Types\<close> has the
  structures of tpm2.h, \<open>Tpm2Marshal\<close> every packing and unpacking function of tpm2.c, \<open>Tpm2Wire\<close>
  their wire formats: packing appends exactly the format, unpacking the format restores the
  structure. \<open>Tpm2Blob\<close> is the stored form of a sealed key. \<open>Tpm2Commands\<close> has the submission of a
  command and all commands, \<open>Tpm2Seal\<close> policies, sealing, unsealing and the registers.
  \<open>Tpm2Exchange\<close> describes what is sent and received, and \<open>Tpm2Policy\<close> the runs: which commands a
  predicted policy sends, that sessions and objects are flushed, what a response may contain, and
  three errors of the code.

  \<^bold>\<open>EXT2.\<close> The file system of the boot and root partitions (ext2.c, ext2.h). \<open>Ext2Types\<close> has the structures on the
  disk as byte layouts, the object \<open>EXT2\<close> with its device and allocator, and the combinators of its
  operations; \<open>Ext2Io\<close> the byte-level access to the device; \<open>Ext2Blocks\<close> block numbers and the
  three levels of indirection; \<open>Ext2Alloc\<close> superblock, group descriptors, bitmaps, the allocation
  of blocks and inodes, inodes; \<open>Ext2Dir\<close> loading of files, directories and paths; \<open>Ext2Mount\<close> opening
  and checking; \<open>Ext2Write\<close> and \<open>Ext2DirWrite\<close> truncation, update, removal and creation; \<open>Ext2File\<close> open files
  and tree walks; \<open>Ext2Main\<close> (lsvmtool/ext2main.c) the subcommands of the tool over a map of host files.
  \<open>Ext2Load\<close>, \<open>Ext2Open\<close> and \<open>Ext2Lookup\<close> show, over every device with the contract \<open>blkdev_image\<close>, that files are read as a
  reference definition of their blocks says and that paths are resolved as a search in abstract
  directories does; \<open>Ext2Shape\<close> that opening succeeds on a consistent image and that no sequence
  of calls damages the object; \<open>Ext2ReadOnly\<close> that reading functions never write; \<open>Ext2Count\<close> when the
  loop over directory entries ends; \<open>Ext2Fread\<close> that the client loop of the tool ends with the whole file.
  Fuel: \<open>EXT2Lsr\<close> takes the depth of the stack, which the code does not bound.

  \<^bold>\<open>GRUB.\<close> grubcfg.c. \<open>GrubPatch\<close> is the patch that disables GRUB's own decryption modules: it disarms
  them and changes nothing else. \<open>GrubCfg\<close> has the tokens, the parser, and the search for the ramdisk
  of the default entry with its stack of open menus. \<open>GrubParse\<close> states a grammar with quoting, escapes and comments and shows that
  its texts are read back; \<open>GrubMenu\<close> the tree of menus and the search of an entry in it; \<open>GrubResolve\<close>
  that the scan over the flat commands implements that search.

  \<^bold>\<open>FAT.\<close> vfat.h and vfat.c. \<open>VfatTypes\<close> has the structures (as bytes, theory \<open>Layout\<close>), the object \<open>VFAT\<close> and
  the entries of the File Allocation Table; \<open>Vfat\<close> clusters and chains, short names, directory search
  and allocation; \<open>VfatFile\<close> opening, reading, creating and listing. \<open>VfatFat\<close> shows that the table is an array
  for the three widths of an entry and that allocation links free clusters; \<open>VfatData\<close> what reading
  and writing along a chain do to a device with the contract \<open>blkdev_image\<close>; \<open>VfatDir\<close> that a new directory entry is found and the
  others stay found; \<open>VfatPut\<close>, \<open>VfatRound\<close> and \<open>VfatClaims\<close> compose them: a created file is read back, and nothing else changes
  (on FAT12 and FAT32: on FAT16 the code ends a chain with a wrong mark).
  \<open>PathElements\<close> is the splitting of a path that ext2.c and vfat.c share.

  \<^bold>\<open>PE images.\<close> peimage.c. \<open>PeImage\<close> has the structures (peimage.h) and the parsing of an image into the regions that are
  hashed, \<open>PeCert\<close> the check of its signature against a certificate, with the functions of OpenSSL as the record
  \<open>x509_lib\<close>. \<open>PeDigest\<close> shows that the digest is that of the signed content as the format defines it,
  \<open>PeSigned\<close> what a successful check means, and that the check depends on image and certificate only (unless a content type is too short for the comparison); \<open>PeClaims\<close>
  holds the properties.

  \<^bold>\<open>Archives, text, identifiers.\<close> \<open>Cpio\<close> and \<open>CpioEdit\<close> (cpio.c) show that the functions on initial
  ramdisks add, remove, find and split files as an abstract archive does. \<open>Conf\<close> (conf.c) is the
  parser of configuration files, \<open>StrArr\<close> (strarr.c) string arrays with sorting (\<open>BubbleSort\<close>,
  posix/stdlib.c) and splitting, \<open>CString\<close> (strings.c, strlcpy.h, strlcat.h, posix/string.c) the string
  functions, \<open>Buf\<close> (buf.c) growing buffers, \<open>ByteOrder\<close> (byteorder.h), \<open>Guid\<close> (guid.c), \<open>Sha\<close> (sha.c)
  digests and their text, \<open>Keys\<close> (keys.c) pairs of keys, \<open>Gpt\<close> (gpt.c) the partition table.

  \<^bold>\<open>Loops.\<close> Every loop is a recursive function that is proved to terminate, on a list, on a counter, or
  on the distance to a bound; the loops over CPIO headers, which need not advance on a damaged
  archive, and along FAT chains, which may be cycles, are partial functions into \<open>option\<close>, where not returning is \<open>None\<close> as well, and the
  theorems on well-formed archives and chains show that they return.

  \<^bold>\<open>Not modelled.\<close> Printing and dumps; the firmware and operating system wrappers (efifile.c, efibio.c,
  vars.c, linuxblkdev.c, file.c, exec.c, tcg2.c); the EFI FAT driver, which is a binary image in an
  array; the XZ and zlib coders. UEFI signature databases, sealing
  policy files, boot measurement and the two programs over these components are not modelled yet.
\<close>

end
